(* ===== verification/Go_Prelude.thy ===== *)
theory Go_Prelude
  imports Main
    "HOL-Library.Finite_Map"
    "HOL-Library.List_Lexorder"
    "HOL-Library.Char_ord"
    "HOL-Library.Product_Lexorder"
    "HOL-Library.Word"
begin

text \<open>
  The shared vocabulary of the development: how the Go code's results, maps, times and
  revisions are represented, and the generic lemmas on them.

  A Go function that returns a value and an error is a function into \<open>'e + 'a\<close>: \<open>Inl\<close>
  carries the class of the error (the sentinel that \<open>errors.Is\<close> finds; message texts are
  not modelled), \<open>Inr\<close> the value. A loop whose body may return early is \<open>rmap\<close> (each
  iteration yields one element) or \<open>rfold\<close> (the iterations share state).

  Go maps with string keys are finite maps (type \<open>fmap\<close>); where the code tells a nil map
  from an empty one the map is an \<open>option\<close>. Strings are byte lists, ordered bytewise as
  Go's \<open><\<close> on strings (theories \<open>List_Lexorder\<close>, \<open>Char_ord\<close>). A \<open>uint64\<close> is a
  \<open>64 word\<close>. A time is the number of nanoseconds after Go's zero time in UTC, so
  \<open>IsZero\<close> is equality with 0 and \<open>UTC()\<close> is the identity; locations and the monotonic
  clock reading are not modelled.
\<close>

named_theorems go_results \<open>inversion of successful results\<close>

type_synonym u64 = "64 word"
type_synonym gotime = int
type_synonym data = "(string, string) fmap"

definition is_zero_time :: "gotime \<Rightarrow> bool" where
  "is_zero_time t \<longleftrightarrow> t = 0"

section \<open>Results\<close>

definition rbind :: "'e + 'a \<Rightarrow> ('a \<Rightarrow> 'e + 'b) \<Rightarrow> 'e + 'b" where
  "rbind m f = (case m of Inl e \<Rightarrow> Inl e | Inr x \<Rightarrow> f x)"

definition is_ok :: "'e + 'a \<Rightarrow> bool" where
  "is_ok r \<longleftrightarrow> (case r of Inl _ \<Rightarrow> False | Inr _ \<Rightarrow> True)"

text \<open>Replacing the error of a result, as \<open>fmt.Errorf\<close> with another sentinel does.\<close>

definition rerror :: "'f \<Rightarrow> 'e + 'a \<Rightarrow> 'f + 'a" where
  "rerror f r = (case r of Inl _ \<Rightarrow> Inl f | Inr x \<Rightarrow> Inr x)"

lemma rbind_simps [simp]:
  "rbind (Inl e) f = Inl e"
  "rbind (Inr x) f = f x"
  by (simp_all add: rbind_def)

lemma rbind_Inr_iff [go_results]:
  "rbind m f = Inr y \<longleftrightarrow> (\<exists>x. m = Inr x \<and> f x = Inr y)"
  by (cases m) simp_all

lemma rbind_Inl_iff:
  "rbind m f = Inl e \<longleftrightarrow> m = Inl e \<or> (\<exists>x. m = Inr x \<and> f x = Inl e)"
  by (cases m) simp_all

lemma is_ok_simps [simp]: "is_ok (Inr x)" "\<not> is_ok (Inl e)"
  by (simp_all add: is_ok_def)

lemma is_ok_iff: "is_ok r \<longleftrightarrow> (\<exists>x. r = Inr x)"
  by (cases r) simp_all

lemma rerror_simps [simp]: "rerror f (Inl e) = Inl f" "rerror f (Inr x) = Inr x"
  by (simp_all add: rerror_def)

lemma rerror_Inr_iff [go_results]: "rerror f r = Inr x \<longleftrightarrow> r = Inr x"
  by (cases r) simp_all

lemma if_Inl_Inr_iff [go_results]:
  "(if b then Inl e else r) = Inr x \<longleftrightarrow> \<not> b \<and> r = Inr x"
  by simp

fun rmap :: "('a \<Rightarrow> 'e + 'b) \<Rightarrow> 'a list \<Rightarrow> 'e + 'b list" where
  "rmap f [] = Inr []"
| "rmap f (x # xs) = rbind (f x) (\<lambda>y. rbind (rmap f xs) (\<lambda>ys. Inr (y # ys)))"

fun rfold :: "('s \<Rightarrow> 'a \<Rightarrow> 'e + 's) \<Rightarrow> 's \<Rightarrow> 'a list \<Rightarrow> 'e + 's" where
  "rfold f s [] = Inr s"
| "rfold f s (x # xs) = rbind (f s x) (\<lambda>s'. rfold f s' xs)"

lemma rmap_Inr_iff:
  "rmap f xs = Inr ys \<longleftrightarrow> list_all2 (\<lambda>x y. f x = Inr y) xs ys"
  by (induction xs arbitrary: ys) (auto simp: rbind_Inr_iff list_all2_Cons1)

lemma rmap_length: "rmap f xs = Inr ys \<Longrightarrow> length ys = length xs"
  by (auto simp: rmap_Inr_iff dest: list_all2_lengthD)

lemma rmap_nth: "rmap f xs = Inr ys \<Longrightarrow> i < length xs \<Longrightarrow> f (xs ! i) = Inr (ys ! i)"
  by (auto simp: rmap_Inr_iff dest: list_all2_nthD)

lemma rmap_in_set:
  "rmap f xs = Inr ys \<Longrightarrow> y \<in> set ys \<Longrightarrow> \<exists>x \<in> set xs. f x = Inr y"
  by (metis in_set_conv_nth rmap_length rmap_nth)

lemma rmap_all:
  "rmap f xs = Inr ys \<Longrightarrow> x \<in> set xs \<Longrightarrow> \<exists>y \<in> set ys. f x = Inr y"
  by (metis in_set_conv_nth rmap_length rmap_nth)

lemma rmap_map_eq:
  assumes "rmap f xs = Inr ys" and "\<And>x y. x \<in> set xs \<Longrightarrow> f x = Inr y \<Longrightarrow> g y = h x"
  shows "map g ys = map h xs"
  using assms by (induction xs arbitrary: ys) (auto simp: rbind_Inr_iff)

lemma rfold_append:
  "rfold f s (xs @ ys) = rbind (rfold f s xs) (\<lambda>s'. rfold f s' ys)"
  by (induction xs arbitrary: s) (auto simp: rbind_def split: sum.splits)

lemma rfold_each: "rfold f m xs = Inr m' \<Longrightarrow> x \<in> set xs \<Longrightarrow> \<exists>a b. f a x = Inr b"
  by (induction xs arbitrary: m) (auto simp: rbind_Inr_iff)

text \<open>An invariant of the loop state holds after the loop.\<close>

lemma rfold_invariant:
  assumes "rfold f s xs = Inr s'" and "P s"
    and "\<And>s x t. P s \<Longrightarrow> x \<in> set xs \<Longrightarrow> f s x = Inr t \<Longrightarrow> P t"
  shows "P s'"
  using assms
proof (induction xs arbitrary: s)
  case Nil
  then show ?case by simp
next
  case (Cons x xs)
  from Cons.prems(1) obtain t where t: "f s x = Inr t" "rfold f t xs = Inr s'"
    by (auto simp: rbind_Inr_iff)
  have "P t"
    by (rule Cons.prems(3) [of s x]) (use Cons.prems(2) t(1) in simp_all)
  moreover have "P v" if "P u" "y \<in> set xs" "f u y = Inr v" for u y v
    by (rule Cons.prems(3) [of u y]) (use that in simp_all)
  ultimately show ?case using t(2) Cons.IH by blast
qed

lemma rfold_cong_state:
  assumes "\<And>s x. x \<in> set xs \<Longrightarrow> f s x = g s x"
  shows "rfold f s xs = rfold g s xs"
  using assms
proof (induction xs arbitrary: s)
  case (Cons x xs)
  then have "rfold f t xs = rfold g t xs" for t by simp
  with Cons.prems show ?case by simp
qed simp

section \<open>Maps\<close>

text \<open>Reading a missing key of a \<open>map[string]string\<close> yields the empty string.\<close>

definition map_read :: "data \<Rightarrow> string \<Rightarrow> string" where
  "map_read m k = (case fmlookup m k of None \<Rightarrow> [] | Some v \<Rightarrow> v)"

definition map_len :: "('k, 'v) fmap \<Rightarrow> nat" where
  "map_len m = fcard (fmdom m)"

text \<open>A nil map has no entries.\<close>

definition deref_map :: "data option \<Rightarrow> data" where
  "deref_map m = (case m of None \<Rightarrow> fmempty | Some d \<Rightarrow> d)"

lemma deref_map_simps [simp]: "deref_map None = fmempty" "deref_map (Some d) = d"
  by (simp_all add: deref_map_def)

definition sorted_keys :: "(string, 'v) fmap \<Rightarrow> string list" where
  "sorted_keys m = sorted_list_of_fset (fmdom m)"

definition sorted_values :: "(string, 'v) fmap \<Rightarrow> 'v list" where
  "sorted_values m = map (\<lambda>k. the (fmlookup m k)) (sorted_keys m)"

lemma set_sorted_keys [simp]: "set (sorted_keys m) = fset (fmdom m)"
  by (simp add: sorted_keys_def)

lemma sorted_keys_sorted: "sorted (sorted_keys m)" "distinct (sorted_keys m)"
  by (simp_all add: sorted_keys_def sorted_list_of_fset.rep_eq)

lemma set_sorted_values:
  "v \<in> set (sorted_values m) \<longleftrightarrow> (\<exists>k. fmlookup m k = Some v)"
  by (force simp: sorted_values_def fmlookup_dom_iff)

lemma fmap_eqI: "(\<And>k. fmlookup m k = fmlookup n k) \<Longrightarrow> m = n"
  by (metis fmap_ext)

end
