(* ===== verification/Go_Strings.thy ===== *)
theory Go_Strings
  imports Go_Prelude
begin

text \<open>
  The part of Go's \<open>strings\<close>, \<open>strconv\<close> and \<open>regexp\<close> packages that the domain code uses,
  on byte strings: \<open>strings.TrimSpace\<close> (with the UTF-8 encodings of every code point that
  \<open>unicode.IsSpace\<close> accepts), the identifier pattern of the catalog, \<open>strconv.ParseInt\<close> and
  \<open>FormatInt\<close> in base 10, and \<open>strconv.ParseBool\<close>.
\<close>

section \<open>TrimSpace\<close>

definition ascii_space :: "char \<Rightarrow> bool" where
  "ascii_space c \<longleftrightarrow> c \<in> {CHR 0x09, CHR 0x0A, CHR 0x0B, CHR 0x0C, CHR 0x0D, CHR 0x20}"

text \<open>U+0085 and U+00A0 are \<open>C2 85\<close> and \<open>C2 A0\<close>; the other Unicode spaces take three bytes.\<close>

definition space2 :: "char \<Rightarrow> char \<Rightarrow> bool" where
  "space2 a b \<longleftrightarrow> a = CHR 0xC2 \<and> (b = CHR 0x85 \<or> b = CHR 0xA0)"

definition space3 :: "char \<Rightarrow> char \<Rightarrow> char \<Rightarrow> bool" where
  "space3 a b c \<longleftrightarrow>
     a = CHR 0xE1 \<and> b = CHR 0x9A \<and> c = CHR 0x80 \<or>
     a = CHR 0xE2 \<and> b = CHR 0x80 \<and>
       (CHR 0x80 \<le> c \<and> c \<le> CHR 0x8A \<or> c = CHR 0xA8 \<or> c = CHR 0xA9 \<or> c = CHR 0xAF) \<or>
     a = CHR 0xE2 \<and> b = CHR 0x81 \<and> c = CHR 0x9F \<or>
     a = CHR 0xE3 \<and> b = CHR 0x80 \<and> c = CHR 0x80"

text \<open>How many bytes the white-space code point at the front takes; 0 when there is none.\<close>

fun space_prefix :: "string \<Rightarrow> nat" where
  "space_prefix [] = 0"
| "space_prefix [a] = (if ascii_space a then 1 else 0)"
| "space_prefix [a, b] = (if ascii_space a then 1 else if space2 a b then 2 else 0)"
| "space_prefix (a # b # c # _) =
     (if ascii_space a then 1 else if space2 a b then 2 else if space3 a b c then 3 else 0)"

text \<open>The same at the end; the argument is the reversed string.\<close>

fun space_suffix :: "string \<Rightarrow> nat" where
  "space_suffix [] = 0"
| "space_suffix [a] = (if ascii_space a then 1 else 0)"
| "space_suffix [b, a] = (if ascii_space b then 1 else if space2 a b then 2 else 0)"
| "space_suffix (c # b # a # _) =
     (if ascii_space c then 1 else if space2 b c then 2 else if space3 a b c then 3 else 0)"

function drop_spaces :: "(string \<Rightarrow> nat) \<Rightarrow> string \<Rightarrow> string" where
  "drop_spaces f s = (if s = [] \<or> f s = 0 then s else drop_spaces f (drop (f s) s))"
  by pat_completeness auto
termination by (relation "measure (\<lambda>(f, s). length s)") auto

declare drop_spaces.simps [simp del]

definition trim_space :: "string \<Rightarrow> string" where
  "trim_space s = rev (drop_spaces space_suffix (rev (drop_spaces space_prefix s)))"

text \<open>\<open>strings.TrimSpace(s) == ""\<close>, the emptiness check of most constructors.\<close>

definition blank :: "string \<Rightarrow> bool" where
  "blank s \<longleftrightarrow> trim_space s = []"

lemma drop_spaces_fix: "f s = 0 \<Longrightarrow> drop_spaces f s = s"
  by (simp add: drop_spaces.simps)

lemma drop_spaces_Nil [simp]: "drop_spaces f [] = []"
  by (simp add: drop_spaces.simps)

lemma drop_spaces_stop: "drop_spaces f s = [] \<or> f (drop_spaces f s) = 0"
proof (induction f s rule: drop_spaces.induct)
  case (1 f s)
  then show ?case by (subst (1 2) drop_spaces.simps) auto
qed

lemma drop_spaces_suffix: "\<exists>ys. s = ys @ drop_spaces f s"
proof (induction f s rule: drop_spaces.induct)
  case (1 f s)
  show ?case
  proof (cases "s = [] \<or> f s = 0")
    case False
    with "1.IH" obtain ys where "drop (f s) s = ys @ drop_spaces f (drop (f s) s)" by blast
    then have "s = (take (f s) s @ ys) @ drop_spaces f (drop (f s) s)"
      by (metis append.assoc append_take_drop_id)
    with False show ?thesis by (metis drop_spaces.simps)
  qed (auto simp: drop_spaces.simps)
qed

lemma space_prefix_cons:
  "space_prefix (a # xs) =
     (if ascii_space a then 1
      else case xs of [] \<Rightarrow> 0
      | b # ys \<Rightarrow> if space2 a b then 2
          else case ys of [] \<Rightarrow> 0 | c # _ \<Rightarrow> if space3 a b c then 3 else 0)"
  by (cases xs; cases "tl xs") (auto split: list.splits)

lemma space_prefix_extend: "space_prefix (xs @ ys) = 0 \<Longrightarrow> space_prefix xs = 0"
  by (cases xs) (auto simp: space_prefix_cons split: list.splits if_splits)

lemma trim_space_prefix: "\<exists>ys. drop_spaces space_prefix s = trim_space s @ ys"
proof -
  let ?l = "drop_spaces space_prefix s"
  obtain zs where "rev ?l = zs @ drop_spaces space_suffix (rev ?l)"
    using drop_spaces_suffix by blast
  then have "?l = rev (drop_spaces space_suffix (rev ?l)) @ rev zs"
    by (metis rev_append rev_rev_ident)
  then show ?thesis by (auto simp: trim_space_def)
qed

lemma trim_space_no_prefix: "space_prefix (trim_space s) = 0"
proof -
  obtain ys where ys: "drop_spaces space_prefix s = trim_space s @ ys"
    using trim_space_prefix by blast
  have "space_prefix (drop_spaces space_prefix s) = 0"
    using drop_spaces_stop [of space_prefix s] by auto
  with ys show ?thesis by (metis space_prefix_extend)
qed

lemma trim_space_no_suffix: "space_suffix (rev (trim_space s)) = 0"
  using drop_spaces_stop [of space_suffix "rev (drop_spaces space_prefix s)"]
  by (auto simp: trim_space_def)

lemma trim_space_id: "space_prefix s = 0 \<Longrightarrow> space_suffix (rev s) = 0 \<Longrightarrow> trim_space s = s"
  by (simp add: trim_space_def drop_spaces_fix)

lemma trim_space_idem [simp]: "trim_space (trim_space s) = trim_space s"
  by (intro trim_space_id trim_space_no_prefix trim_space_no_suffix)

lemma trim_space_Nil [simp]: "trim_space [] = []"
  by (simp add: trim_space_def)

lemma blank_Nil [simp]: "blank []"
  by (simp add: blank_def)

lemma blank_trim [simp]: "blank (trim_space s) \<longleftrightarrow> blank s"
  by (simp add: blank_def)

lemma not_blank_nonempty: "\<not> blank s \<Longrightarrow> s \<noteq> []"
  by auto

section \<open>Identifiers\<close>

text \<open>The pattern \<^verbatim>\<open>^[A-Za-z][A-Za-z0-9_.-]{0,190}$\<close>.\<close>

definition letter :: "char \<Rightarrow> bool" where
  "letter c \<longleftrightarrow> CHR ''A'' \<le> c \<and> c \<le> CHR ''Z'' \<or> CHR ''a'' \<le> c \<and> c \<le> CHR ''z''"

definition digit :: "char \<Rightarrow> bool" where
  "digit c \<longleftrightarrow> CHR ''0'' \<le> c \<and> c \<le> CHR ''9''"

definition identifier_char :: "char \<Rightarrow> bool" where
  "identifier_char c \<longleftrightarrow> letter c \<or> digit c \<or> c \<in> {CHR ''_'', CHR ''.'', CHR ''-''}"

definition is_identifier :: "string \<Rightarrow> bool" where
  "is_identifier s \<longleftrightarrow>
     (case s of [] \<Rightarrow> False
      | c # cs \<Rightarrow> letter c \<and> length cs \<le> 190 \<and> list_all identifier_char cs)"

lemma identifier_nonempty: "is_identifier s \<Longrightarrow> s \<noteq> []"
  by (auto simp: is_identifier_def)

lemma identifier_trimmed:
  assumes "is_identifier s" shows "trim_space s = s"
proof (rule trim_space_id)
  have plain: "\<not> ascii_space c \<and> c \<noteq> CHR 0xC2 \<and> c \<noteq> CHR 0xE1 \<and> c \<noteq> CHR 0xE2 \<and> c \<noteq> CHR 0xE3 \<and>
      c \<noteq> CHR 0x85 \<and> c \<noteq> CHR 0xA0 \<and> \<not> CHR 0x80 \<le> c" if "identifier_char c" for c
    using that by (auto simp: identifier_char_def letter_def digit_def ascii_space_def less_eq_char_def)
  have all: "list_all identifier_char s" "s \<noteq> []"
    using assms by (auto simp: is_identifier_def identifier_char_def split: list.splits)
  then have "identifier_char (hd s)" "identifier_char (hd (rev s))"
    by (simp_all add: list_all_iff hd_rev)
  have prefix: "space_prefix t = 0" if "t \<noteq> []" "identifier_char (hd t)" for t
    using that plain by (cases t rule: space_prefix.cases) (auto simp: space2_def space3_def)
  have suffix: "space_suffix t = 0" if "t \<noteq> []" "list_all identifier_char t" for t
    using that plain by (cases t rule: space_suffix.cases) (auto simp: space2_def space3_def)
  show "space_prefix s = 0" using prefix all \<open>identifier_char (hd s)\<close> by blast
  show "space_suffix (rev s) = 0" using suffix [of "rev s"] all by (simp add: list_all_iff)
qed

section \<open>Decimal integers and booleans\<close>

definition digit_value :: "char \<Rightarrow> int" where
  "digit_value c = of_char c - 48"

definition digit_char :: "nat \<Rightarrow> char" where
  "digit_char n = char_of (48 + n)"

fun parse_digits :: "int \<Rightarrow> string \<Rightarrow> int option" where
  "parse_digits acc [] = Some acc"
| "parse_digits acc (c # cs) =
     (if digit c then parse_digits (10 * acc + digit_value c) cs else None)"

text \<open>\<open>strconv.ParseInt(s, 10, 64)\<close>: an optional sign, at least one digit, the 64-bit range.\<close>

definition parse_int64 :: "string \<Rightarrow> int option" where
  "parse_int64 s =
     (let neg = (s \<noteq> [] \<and> hd s = CHR ''-'');
          ds = (if s \<noteq> [] \<and> (hd s = CHR ''-'' \<or> hd s = CHR ''+'') then tl s else s)
      in if ds = [] then None
         else case parse_digits 0 ds of None \<Rightarrow> None
         | Some v \<Rightarrow>
             (let n = (if neg then - v else v)
              in if - (2 ^ 63) \<le> n \<and> n < 2 ^ 63 then Some n else None))"

text \<open>
  The number that \<open>strconv.ParseInt\<close> and \<open>Atoi\<close> return beside their error, when the caller
  drops the error: 0 for a malformed text, the nearest bound for one out of range.
\<close>

definition parse_int64_value :: "string \<Rightarrow> int" where
  "parse_int64_value s =
     (let neg = (s \<noteq> [] \<and> hd s = CHR ''-'');
          ds = (if s \<noteq> [] \<and> (hd s = CHR ''-'' \<or> hd s = CHR ''+'') then tl s else s)
      in if ds = [] then 0
         else case parse_digits 0 ds of None \<Rightarrow> 0
         | Some v \<Rightarrow> max (- (2 ^ 63)) (min (2 ^ 63 - 1) (if neg then - v else v)))"

fun nat_digits :: "nat \<Rightarrow> string" where
  "nat_digits n = (if n < 10 then [digit_char n] else nat_digits (n div 10) @ [digit_char (n mod 10)])"

declare nat_digits.simps [simp del]

text \<open>\<open>strconv.FormatInt(n, 10)\<close>.\<close>

definition format_int :: "int \<Rightarrow> string" where
  "format_int n = (if n < 0 then CHR ''-'' # nat_digits (nat (- n)) else nat_digits (nat n))"

lemma of_char_digit_char: "n < 10 \<Longrightarrow> (of_char (digit_char n) :: nat) = 48 + n"
  by (simp add: digit_char_def)

lemma digit_digit_char: "n < 10 \<Longrightarrow> digit (digit_char n)"
  by (simp add: digit_def less_eq_char_def of_char_digit_char)

lemma of_char_int: "(of_char c :: int) = int (of_char c)"
  by (simp add: of_char_def)

lemma digit_value_digit_char: "n < 10 \<Longrightarrow> digit_value (digit_char n) = int n"
  by (simp add: digit_value_def of_char_int of_char_digit_char)

lemma parse_digits_append:
  "parse_digits a (xs @ ys) = (case parse_digits a xs of None \<Rightarrow> None | Some b \<Rightarrow> parse_digits b ys)"
  by (induction a xs rule: parse_digits.induct) auto

lemma parse_nat_digits: "parse_digits 0 (nat_digits n) = Some (int n)"
proof (induction n rule: nat_digits.induct)
  case (1 n)
  show ?case
  proof (cases "n < 10")
    case True
    then show ?thesis
      by (simp add: nat_digits.simps [of n] digit_digit_char digit_value_digit_char)
  next
    case False
    then have "parse_digits 0 (nat_digits n) = Some (10 * int (n div 10) + int (n mod 10))"
      using "1.IH" by (simp add: nat_digits.simps [of n] parse_digits_append digit_digit_char digit_value_digit_char)
    also have "10 * int (n div 10) + int (n mod 10) = int n"
      by (metis mult_div_mod_eq of_nat_add of_nat_mult of_nat_numeral)
    finally show ?thesis .
  qed
qed

lemma nat_digits_nonempty [simp]: "nat_digits n \<noteq> []"
  by (simp add: nat_digits.simps)

lemma hd_nat_digits: "digit (hd (nat_digits n))"
proof (induction n rule: nat_digits.induct)
  case (1 n)
  then show ?case by (cases "n < 10") (simp_all add: nat_digits.simps [of n] digit_digit_char)
qed

lemma hd_nat_digits_sign: "hd (nat_digits n) \<noteq> CHR ''-'' \<and> hd (nat_digits n) \<noteq> CHR ''+''"
  using hd_nat_digits [of n] by (auto simp: digit_def less_eq_char_def)

lemma parse_format_int64:
  assumes "- (2 ^ 63) \<le> n" and "n < 2 ^ 63"
  shows "parse_int64 (format_int n) = Some n"
  using assms hd_nat_digits_sign
  by (auto simp: parse_int64_def format_int_def parse_nat_digits Let_def)

lemma parse_int64_range: "parse_int64 s = Some n \<Longrightarrow> - (2 ^ 63) \<le> n \<and> n < 2 ^ 63"
  by (auto simp: parse_int64_def Let_def split: option.splits if_splits)

lemma parse_int64_value_Some: "parse_int64 s = Some n \<Longrightarrow> parse_int64_value s = n"
  by (auto simp: parse_int64_def parse_int64_value_def Let_def split: option.splits if_splits)

text \<open>\<open>strconv.ParseBool\<close> and \<open>FormatBool\<close>.\<close>

definition parse_bool :: "string \<Rightarrow> bool option" where
  "parse_bool s =
     (if s \<in> {''1'', ''t'', ''T'', ''true'', ''TRUE'', ''True''} then Some True
      else if s \<in> {''0'', ''f'', ''F'', ''false'', ''FALSE'', ''False''} then Some False
      else None)"

definition format_bool :: "bool \<Rightarrow> string" where
  "format_bool b = (if b then ''true'' else ''false'')"

lemma parse_format_bool: "parse_bool (format_bool b) = Some b"
  by (simp add: parse_bool_def format_bool_def)

end
