(* ===== verification/Go_Encoding.thy ===== *)
theory Go_Encoding
  imports Go_Strings
begin

text \<open>
  Byte-level encodings of the Go standard library that the digests and record keys are
  made of: UTF-8 (the decoder's view of \<open>unicode/utf8\<close>), lower-case hexadecimal
  (\<open>encoding/hex\<close>) and unpadded URL-safe base64 (\<open>base64.RawURLEncoding\<close>). Each encoder
  comes with the fact that makes an identity built on it sound: it is injective.
\<close>

section \<open>UTF-8\<close>

definition continuation :: "char \<Rightarrow> bool" where
  "continuation c \<longleftrightarrow> CHR 0x80 \<le> c \<and> c \<le> CHR 0xBF"

definition ascii :: "char \<Rightarrow> bool" where
  "ascii c \<longleftrightarrow> c < CHR 0x80"

definition lead2 :: "char \<Rightarrow> bool" where
  "lead2 a \<longleftrightarrow> CHR 0xC2 \<le> a \<and> a \<le> CHR 0xDF"

definition lead3 :: "char \<Rightarrow> char \<Rightarrow> bool" where
  "lead3 a b \<longleftrightarrow>
     a = CHR 0xE0 \<and> CHR 0xA0 \<le> b \<and> b \<le> CHR 0xBF \<or>
     (CHR 0xE1 \<le> a \<and> a \<le> CHR 0xEC \<or> a = CHR 0xEE \<or> a = CHR 0xEF) \<and> continuation b \<or>
     a = CHR 0xED \<and> CHR 0x80 \<le> b \<and> b \<le> CHR 0x9F"

definition lead4 :: "char \<Rightarrow> char \<Rightarrow> bool" where
  "lead4 a b \<longleftrightarrow>
     a = CHR 0xF0 \<and> CHR 0x90 \<le> b \<and> b \<le> CHR 0xBF \<or>
     CHR 0xF1 \<le> a \<and> a \<le> CHR 0xF3 \<and> continuation b \<or>
     a = CHR 0xF4 \<and> CHR 0x80 \<le> b \<and> b \<le> CHR 0x8F"

text \<open>
  The size of the code point at the front, as \<open>utf8.DecodeRuneInString\<close> finds it; 0 where
  the decoder reports \<open>RuneError\<close> with width 1 (or 0, at the end).
\<close>

fun rune_len :: "string \<Rightarrow> nat" where
  "rune_len [] = 0"
| "rune_len [a] = (if ascii a then 1 else 0)"
| "rune_len [a, b] = (if ascii a then 1 else if lead2 a \<and> continuation b then 2 else 0)"
| "rune_len [a, b, c] =
     (if ascii a then 1 else if lead2 a \<and> continuation b then 2
      else if lead3 a b \<and> continuation c then 3 else 0)"
| "rune_len (a # b # c # d # _) =
     (if ascii a then 1 else if lead2 a \<and> continuation b then 2
      else if lead3 a b \<and> continuation c then 3
      else if lead4 a b \<and> continuation c \<and> continuation d then 4 else 0)"

lemma rune_len_le: "rune_len s \<le> length s"
  by (induction s rule: rune_len.induct) simp_all

lemma rune_len_append: "0 < rune_len s \<Longrightarrow> rune_len (s @ t) = rune_len s"
  by (cases s rule: rune_len.cases; cases t rule: rune_len.cases) (simp_all split: if_splits)

lemma rune_len_take: "0 < rune_len s \<Longrightarrow> rune_len (take (rune_len s) s) = rune_len s"
  by (cases s rule: rune_len.cases) (simp_all split: if_splits)

lemma rune_len_ascii [simp]: "ascii a \<Longrightarrow> rune_len (a # s) = 1"
  by (cases "a # s" rule: rune_len.cases) simp_all

function valid_utf8 :: "string \<Rightarrow> bool" where
  "valid_utf8 s =
     (if s = [] then True else if rune_len s = 0 then False else valid_utf8 (drop (rune_len s) s))"
  by pat_completeness auto
termination by (relation "measure length") auto

declare valid_utf8.simps [simp del]

lemma valid_utf8_Nil [simp]: "valid_utf8 []"
  by (simp add: valid_utf8.simps)

lemma valid_utf8_step: "valid_utf8 s \<Longrightarrow> s \<noteq> [] \<Longrightarrow> 0 < rune_len s \<and> valid_utf8 (drop (rune_len s) s)"
  by (subst (asm) valid_utf8.simps) (simp split: if_splits)

text \<open>\<open>utf8.RuneCountInString\<close>: an invalid byte counts as one.\<close>

function rune_count :: "string \<Rightarrow> nat" where
  "rune_count s = (if s = [] then 0 else Suc (rune_count (drop (max 1 (rune_len s)) s)))"
  by pat_completeness auto
termination by (relation "measure length") auto

declare rune_count.simps [simp del]

lemma ascii_valid_utf8: "list_all ascii s \<Longrightarrow> valid_utf8 s"
proof (induction s)
  case (Cons c s)
  then show ?case by (subst valid_utf8.simps) simp
qed simp

lemma rune_count_ascii: "list_all ascii s \<Longrightarrow> rune_count s = length s"
  by (induction s) (simp_all add: rune_count.simps)

lemma rune_count_le: "rune_count s \<le> length s"
proof (induction s rule: rune_count.induct)
  case (1 s)
  show ?case
  proof (cases "s = []")
    case False
    then have "rune_count (drop (max 1 (rune_len s)) s) \<le> length s - max 1 (rune_len s)"
      using "1.IH" by simp
    with False show ?thesis by (subst rune_count.simps) (cases s; simp)
  qed (simp add: rune_count.simps)
qed

section \<open>Hexadecimal\<close>

definition hex_char :: "nat \<Rightarrow> char" where
  "hex_char n = (if n < 10 then char_of (48 + n) else char_of (87 + n))"

definition hex_value :: "char \<Rightarrow> nat option" where
  "hex_value c =
     (let n = of_char c in
      if 48 \<le> n \<and> n \<le> 57 then Some (n - 48)
      else if 97 \<le> n \<and> n \<le> 102 then Some (n - 87)
      else if 65 \<le> n \<and> n \<le> 70 then Some (n - 55) else None)"

lemma of_char_hex_char: "n < 16 \<Longrightarrow> (of_char (hex_char n) :: nat) = (if n < 10 then 48 + n else 87 + n)"
  by (simp add: hex_char_def)

lemma hex_value_hex_char [simp]: "n < 16 \<Longrightarrow> hex_value (hex_char n) = Some n"
  by (auto simp: hex_value_def of_char_hex_char Let_def)

lemma hex_char_inj: "m < 16 \<Longrightarrow> n < 16 \<Longrightarrow> hex_char m = hex_char n \<longleftrightarrow> m = n"
  by (metis hex_value_hex_char option.inject)

text \<open>\<open>hex.EncodeToString\<close>.\<close>

fun hex_encode :: "string \<Rightarrow> string" where
  "hex_encode [] = []"
| "hex_encode (c # cs) = hex_char (of_char c div 16) # hex_char (of_char c mod 16) # hex_encode cs"

lemma of_char_lt_256: "(of_char c :: nat) < 256"
  by (simp add: of_char_def)

lemma hex_encode_length [simp]: "length (hex_encode s) = 2 * length s"
  by (induction s) simp_all

lemma hex_encode_inj: "hex_encode s = hex_encode t \<Longrightarrow> s = t"
proof (induction s arbitrary: t rule: hex_encode.induct)
  case 1
  then show ?case by (cases t) auto
next
  case (2 c cs)
  then obtain d ds where t: "t = d # ds" by (cases t) auto
  have "(of_char c :: nat) div 16 < 16" "(of_char d :: nat) div 16 < 16"
    using of_char_lt_256 [of c] of_char_lt_256 [of d] by (simp_all add: less_mult_imp_div_less)
  with "2.prems" t have "(of_char c :: nat) div 16 = of_char d div 16" "(of_char c :: nat) mod 16 = of_char d mod 16"
    by (simp_all add: hex_char_inj)
  then have "(of_char c :: nat) = of_char d"
    by (metis mult_div_mod_eq)
  then have "c = d" by simp
  with "2.prems" "2.IH" t show ?case by simp
qed

section \<open>Base64\<close>

definition b64_char :: "nat \<Rightarrow> char" where
  "b64_char n =
     (if n < 26 then char_of (65 + n)
      else if n < 52 then char_of (71 + n)
      else if n < 62 then char_of (n - 4)
      else if n = 62 then CHR ''-'' else CHR ''_'')"

definition b64_code :: "nat \<Rightarrow> nat" where
  "b64_code n =
     (if n < 26 then 65 + n else if n < 52 then 71 + n
      else if n < 62 then n - 4 else if n = 62 then 45 else 95)"

fun b64_encode_nats :: "nat list \<Rightarrow> string" where
  "b64_encode_nats [] = []"
| "b64_encode_nats [a] = [b64_char (a div 4), b64_char (a mod 4 * 16)]"
| "b64_encode_nats [a, b] =
     [b64_char (a div 4), b64_char (a mod 4 * 16 + b div 16), b64_char (b mod 16 * 4)]"
| "b64_encode_nats (a # b # c # s) =
     b64_char (a div 4) # b64_char (a mod 4 * 16 + b div 16) #
     b64_char (b mod 16 * 4 + c div 64) # b64_char (c mod 64) # b64_encode_nats s"

text \<open>\<open>base64.RawURLEncoding.EncodeToString\<close>.\<close>

definition raw_url_base64 :: "string \<Rightarrow> string" where
  "raw_url_base64 s = b64_encode_nats (map of_char s)"

lemma b64_char_code: "n < 64 \<Longrightarrow> (of_char (b64_char n) :: nat) = b64_code n"
  by (auto simp: b64_char_def b64_code_def)

lemma b64_char_inj:
  assumes "m < 64" "n < 64" shows "b64_char m = b64_char n \<longleftrightarrow> m = n"
proof
  assume "b64_char m = b64_char n"
  then have "b64_code m = b64_code n" using assms by (metis b64_char_code)
  with assms show "m = n" by (auto simp: b64_code_def split: if_splits)
qed simp

lemma b64_length: "length (b64_encode_nats s) = (4 * length s + 2) div 3"
  by (induction s rule: b64_encode_nats.induct) auto

lemma mixed_radix:
  assumes "(q :: nat) < k" "q' < k" "x * k + q = x' * k + q'"
  shows "x = x' \<and> q = q'"
proof -
  have "(x * k + q) div k = x" "(x' * k + q') div k = x'" using assms(1,2) by simp_all
  with assms(3) show ?thesis by simp
qed

lemma mixed_radix_bound: "(x :: nat) < m \<Longrightarrow> q < k \<Longrightarrow> x * k + q < m * k"
  using mult_le_mono1 [of "Suc x" m k] by simp

lemma byte_bounds:
  assumes "(b :: nat) < 256"
  shows "b div 4 < 64" "b div 16 < 16" "b div 64 < 4" "b mod 4 < 4" "b mod 16 < 16" "b mod 64 < 64"
  using assms by (simp_all add: less_mult_imp_div_less)

lemma b64_one:
  assumes "(a :: nat) < 256" "a' < 256"
    and "b64_char (a div 4) = b64_char (a' div 4)" "b64_char (a mod 4 * 16) = b64_char (a' mod 4 * 16)"
  shows "a = a'"
proof -
  have "a div 4 = a' div 4"
    using assms(1,2,3) by (simp add: b64_char_inj byte_bounds)
  moreover have "a mod 4 * 16 < 64" "a' mod 4 * 16 < 64"
    using mixed_radix_bound [of "a mod 4" 4 0 16] mixed_radix_bound [of "a' mod 4" 4 0 16] by simp_all
  then have "a mod 4 = a' mod 4" using assms(4) by (simp add: b64_char_inj)
  ultimately show ?thesis by (metis mult_div_mod_eq)
qed

lemma b64_join:
  assumes "(x :: nat) * k + q < 64" "x' * k + q' < 64" "q < k" "q' < k"
    and "b64_char (x * k + q) = b64_char (x' * k + q')"
  shows "x = x' \<and> q = q'"
  using assms mixed_radix [of q k q' x x'] by (simp add: b64_char_inj)

lemma b64_two:
  assumes "(a :: nat) < 256" "a' < 256" "b < 256" "b' < 256"
    and "b64_char (a div 4) = b64_char (a' div 4)"
    and "b64_char (a mod 4 * 16 + b div 16) = b64_char (a' mod 4 * 16 + b' div 16)"
  shows "a = a' \<and> b div 16 = b' div 16"
proof -
  have "a div 4 = a' div 4"
    using assms(1,2,5) by (simp add: b64_char_inj byte_bounds)
  moreover have "a mod 4 = a' mod 4 \<and> b div 16 = b' div 16"
    by (rule b64_join [OF _ _ _ _ assms(6)])
      (use assms mixed_radix_bound [of "a mod 4" 4 "b div 16" 16]
         mixed_radix_bound [of "a' mod 4" 4 "b' div 16" 16] in \<open>simp_all add: byte_bounds\<close>)
  ultimately show ?thesis by (metis mult_div_mod_eq)
qed

lemma b64_encode_nats_inj:
  assumes "b64_encode_nats s = b64_encode_nats t" "\<forall>n \<in> set s. n < 256" "\<forall>n \<in> set t. n < 256"
  shows "s = t"
  using assms
proof (induction s arbitrary: t rule: b64_encode_nats.induct)
  case 1
  then show ?case by (cases t rule: b64_encode_nats.cases) auto
next
  case (2 a)
  then obtain a' where t: "t = [a']" by (cases t rule: b64_encode_nats.cases) auto
  with "2.prems" b64_one [of a a'] show ?case by simp
next
  case (3 a b)
  then obtain a' b' where t: "t = [a', b']" by (cases t rule: b64_encode_nats.cases) auto
  with "3.prems" have ab: "a = a' \<and> b div 16 = b' div 16"
    using b64_two [of a a' b b'] by simp
  have "b mod 16 * 4 < 64" "b' mod 16 * 4 < 64"
    using mixed_radix_bound [of "b mod 16" 16 0 4] mixed_radix_bound [of "b' mod 16" 16 0 4] by simp_all
  then have "b mod 16 = b' mod 16" using "3.prems" t by (simp add: b64_char_inj)
  with ab t show ?case by (metis mult_div_mod_eq)
next
  case (4 a b c s)
  from "4.prems"(1) obtain a' b' c' t' where t: "t = a' # b' # c' # t'"
    by (cases t rule: b64_encode_nats.cases) auto
  with "4.prems" have ab: "a = a' \<and> b div 16 = b' div 16"
    using b64_two [of a a' b b'] by simp
  have bc: "b mod 16 = b' mod 16 \<and> c div 64 = c' div 64"
    by (rule b64_join [of _ 4])
      (use "4.prems" t mixed_radix_bound [of "b mod 16" 16 "c div 64" 4]
         mixed_radix_bound [of "b' mod 16" 16 "c' div 64" 4] in \<open>simp_all add: byte_bounds\<close>)
  have "c mod 64 = c' mod 64"
    using "4.prems" t by (simp add: b64_char_inj)
  with ab bc have "a = a'" "b = b'" "c = c'" by (metis mult_div_mod_eq)+
  moreover have "s = t'" using "4.IH" [of t'] "4.prems" t by simp
  ultimately show ?case using t by simp
qed

lemma raw_url_base64_inj: "raw_url_base64 s = raw_url_base64 t \<longleftrightarrow> s = t"
proof
  assume "raw_url_base64 s = raw_url_base64 t"
  then have "map (of_char :: char \<Rightarrow> nat) s = map of_char t"
    unfolding raw_url_base64_def by (rule b64_encode_nats_inj) (auto simp: of_char_lt_256)
  then show "s = t" by (rule map_injective) (auto intro: injI)
qed simp

end
