(* ===== verification/Go_Json.thy ===== *)
theory Go_Json
  imports Go_Encoding
begin

text \<open>
  The JSON codec of \<open>encoding/json\<close> as the program uses it: \<open>json_print\<close> is
  \<open>json.Marshal\<close> (HTML-safe escapes, U+2028 and U+2029 escaped, no white space),
  \<open>json_parse\<close> is \<open>json.Unmarshal\<close> into an abstract syntax tree, with number tokens kept
  as written (\<open>UseNumber\<close>). Invalid UTF-8 becomes U+FFFD on both ways, as in Go. The decoder's
  nesting limit of 10000 is not modelled.

  The main fact is the round trip \<open>json_parse_print\<close>; it makes every identity that is a
  printed tuple (record keys, digest payloads) injective on valid UTF-8.
\<close>

datatype json =
    JNull
  | JBool bool
  | JNum string
  | JStr string
  | JArr "json list"
  | JObj "(string \<times> json) list"

section \<open>Strings\<close>

definition replacement :: string where
  "replacement = [CHR 0xEF, CHR 0xBF, CHR 0xBD]"

definition ascii_escape :: "char \<Rightarrow> string" where
  "ascii_escape c =
     (if c = CHR 0x22 then [CHR 0x5C, CHR 0x22]
      else if c = CHR 0x5C then [CHR 0x5C, CHR 0x5C]
      else if c = CHR 0x08 then [CHR 0x5C, CHR ''b'']
      else if c = CHR 0x0C then [CHR 0x5C, CHR ''f'']
      else if c = CHR 0x0A then [CHR 0x5C, CHR ''n'']
      else if c = CHR 0x0D then [CHR 0x5C, CHR ''r'']
      else if c = CHR 0x09 then [CHR 0x5C, CHR ''t'']
      else if c < CHR 0x20 \<or> c = CHR ''<'' \<or> c = CHR ''>'' \<or> c = CHR ''&''
        then [CHR 0x5C, CHR ''u'', CHR ''0'', CHR ''0'',
              hex_char (of_char c div 16), hex_char (of_char c mod 16)]
      else [c])"

function json_escape :: "string \<Rightarrow> string" where
  "json_escape s =
     (if s = [] then []
      else if ascii (hd s) then ascii_escape (hd s) @ json_escape (tl s)
      else if rune_len s = 0 then [CHR 0x5C] @ ''ufffd'' @ json_escape (tl s)
      else (let n = rune_len s; r = take n s in
              (if r = [CHR 0xE2, CHR 0x80, CHR 0xA8] then [CHR 0x5C] @ ''u2028''
               else if r = [CHR 0xE2, CHR 0x80, CHR 0xA9] then [CHR 0x5C] @ ''u2029''
               else r) @ json_escape (drop n s)))"
  by pat_completeness auto
termination by (relation "measure length") auto

declare json_escape.simps [simp del]

definition json_string :: "string \<Rightarrow> string" where
  "json_string s = CHR 0x22 # json_escape s @ [CHR 0x22]"

definition utf8_encode :: "nat \<Rightarrow> string" where
  "utf8_encode r =
     (if r < 0x80 then [char_of r]
      else if r < 0x800 then [char_of (0xC0 + r div 64), char_of (0x80 + r mod 64)]
      else if r < 0x10000 then
        [char_of (0xE0 + r div 4096), char_of (0x80 + r div 64 mod 64), char_of (0x80 + r mod 64)]
      else [char_of (0xF0 + r div 262144), char_of (0x80 + r div 4096 mod 64),
            char_of (0x80 + r div 64 mod 64), char_of (0x80 + r mod 64)])"

fun hex4 :: "string \<Rightarrow> (nat \<times> string) option" where
  "hex4 (a # b # c # d # s) =
     (case (hex_value a, hex_value b, hex_value c, hex_value d) of
        (Some a', Some b', Some c', Some d') \<Rightarrow> Some (4096 * a' + 256 * b' + 16 * c' + d', s)
      | _ \<Rightarrow> None)"
| "hex4 _ = None"

definition simple_escape :: "char \<Rightarrow> char option" where
  "simple_escape e =
     (if e = CHR 0x22 \<or> e = CHR 0x5C \<or> e = CHR ''/'' then Some e
      else if e = CHR ''b'' then Some (CHR 0x08)
      else if e = CHR ''f'' then Some (CHR 0x0C)
      else if e = CHR ''n'' then Some (CHR 0x0A)
      else if e = CHR ''r'' then Some (CHR 0x0D)
      else if e = CHR ''t'' then Some (CHR 0x09)
      else None)"

definition surrogate :: "nat \<Rightarrow> bool" where
  "surrogate r \<longleftrightarrow> 0xD800 \<le> r \<and> r < 0xE000"

text \<open>A high surrogate escape followed by a low one denotes one code point.\<close>

definition low_surrogate :: "nat \<Rightarrow> string \<Rightarrow> (nat \<times> string) option" where
  "low_surrogate r s =
     (if r < 0xDC00 \<and> take 2 s = [CHR 0x5C, CHR ''u'']
      then (case hex4 (drop 2 s) of
              Some (r2, t) \<Rightarrow>
                if 0xDC00 \<le> r2 \<and> r2 < 0xE000
                then Some ((r - 0xD800) * 1024 + (r2 - 0xDC00) + 0x10000, t) else None
            | None \<Rightarrow> None)
      else None)"

definition prepend :: "string \<Rightarrow> (string \<times> string) option \<Rightarrow> (string \<times> string) option" where
  "prepend u = map_option (\<lambda>(t, r). (u @ t, r))"

lemma prepend_simps [simp]: "prepend u None = None" "prepend u (Some (t, r)) = Some (u @ t, r)"
  by (simp_all add: prepend_def)

lemma prepend_Some: "prepend u m = Some (x, r) \<longleftrightarrow> (\<exists>t. m = Some (t, r) \<and> x = u @ t)"
  by (cases m) (auto simp: prepend_def)

lemma hex4_length: "hex4 s = Some (r, t) \<Longrightarrow> length s = length t + 4"
  by (cases s rule: hex4.cases) (auto split: option.splits)

lemma low_surrogate_length: "low_surrogate r s = Some (q, t) \<Longrightarrow> length t < length s"
  by (auto simp: low_surrogate_def split: if_splits option.splits dest!: hex4_length)

text \<open>The text of a string after its opening quote, up to the closing one.\<close>

function unquote :: "string \<Rightarrow> (string \<times> string) option" where
  "unquote s =
     (case s of [] \<Rightarrow> None | c # cs \<Rightarrow>
       if c = CHR 0x22 then Some ([], cs)
       else if c = CHR 0x5C then
         (case cs of [] \<Rightarrow> None | e # es \<Rightarrow>
            if e = CHR ''u'' then
              (case hex4 es of None \<Rightarrow> None | Some (r, s1) \<Rightarrow>
                 if surrogate r then
                   (case low_surrogate r s1 of
                      Some (r2, s2) \<Rightarrow> prepend (utf8_encode r2) (unquote s2)
                    | None \<Rightarrow> prepend replacement (unquote s1))
                 else prepend (utf8_encode r) (unquote s1))
            else (case simple_escape e of None \<Rightarrow> None | Some x \<Rightarrow> prepend [x] (unquote es)))
       else if c < CHR 0x20 then None
       else if rune_len s = 0 then prepend replacement (unquote cs)
       else prepend (take (rune_len s) s) (unquote (drop (rune_len s) s)))"
  by pat_completeness auto
termination
  by (relation "measure length") (auto dest!: hex4_length low_surrogate_length)

declare unquote.simps [simp del]

lemma unquote_quote [simp]: "unquote (CHR 0x22 # r) = Some ([], r)"
  by (simp add: unquote.simps)

lemma unquote_escape:
  "simple_escape e = Some x \<Longrightarrow> unquote (CHR 0x5C # e # s) = prepend [x] (unquote s)"
  by (subst unquote.simps) (auto simp: simple_escape_def)

lemma unquote_u:
  "hex4 es = Some (r, s) \<Longrightarrow> \<not> surrogate r \<Longrightarrow>
   unquote (CHR 0x5C # CHR ''u'' # es) = prepend (utf8_encode r) (unquote s)"
  by (subst unquote.simps) simp

lemma unquote_ascii_escape:
  assumes "ascii c"
  shows "unquote (ascii_escape c @ s) = prepend [c] (unquote s)"
proof -
  have hex: "hex4 (CHR ''0'' # CHR ''0'' # hex_char (of_char c div 16) # hex_char (of_char c mod 16) # s)
      = Some (of_char c, s)"
  proof -
    have "hex_value (CHR ''0'') = Some 0" by (simp add: hex_value_def)
    moreover have "(of_char c :: nat) div 16 < 16"
      using of_char_lt_256 [of c] by (simp add: less_mult_imp_div_less)
    ultimately show ?thesis by simp
  qed
  have c: "(of_char c :: nat) < 128" using assms by (simp add: ascii_def less_char_def)
  have u: "unquote (CHR 0x5C # CHR ''u'' # CHR ''0'' # CHR ''0'' # hex_char (of_char c div 16)
      # hex_char (of_char c mod 16) # s) = prepend [c] (unquote s)"
    using unquote_u [OF hex] c by (simp add: surrogate_def utf8_encode_def)
  have plain: "unquote (c # s) = prepend [c] (unquote s)"
    if "c \<noteq> CHR 0x22" "c \<noteq> CHR 0x5C" "\<not> c < CHR 0x20"
    using that assms by (subst unquote.simps) simp
  show ?thesis
    unfolding ascii_escape_def by (auto simp: unquote_escape simple_escape_def u plain)
qed

lemma unquote_rune:
  assumes "0 < rune_len s" "\<not> ascii (hd s)"
  shows "unquote (take (rune_len s) s @ t) = prepend (take (rune_len s) s) (unquote t)"
proof -
  let ?r = "take (rune_len s) s"
  from assms(1) obtain c cs where s: "s = c # cs" by (cases s) auto
  with assms have r: "?r = c # take (rune_len s - 1) cs" by (cases "rune_len s") auto
  have n: "rune_len (?r @ t) = rune_len s"
    using assms(1) rune_len_append [of ?r t] rune_len_take [of s] by simp
  have len: "length ?r = rune_len s" using rune_len_le [of s] by simp
  have tk: "take (rune_len s) (?r @ t) = ?r" "drop (rune_len s) (?r @ t) = t"
    using len by simp_all
  have c: "c \<noteq> CHR 0x22" "c \<noteq> CHR 0x5C" "\<not> c < CHR 0x20"
    using assms(2) s by (auto simp: ascii_def less_char_def)
  have "unquote (?r @ t) =
    prepend (take (rune_len (?r @ t)) (?r @ t)) (unquote (drop (rune_len (?r @ t)) (?r @ t)))"
    using c assms(1) n by (subst unquote.simps) (subst r, simp add: r)
  then show ?thesis by (simp only: n tk)
qed

lemma unquote_line_separators:
  "unquote (([CHR 0x5C] @ ''u2028'') @ t) = prepend [CHR 0xE2, CHR 0x80, CHR 0xA8] (unquote t)"
  "unquote (([CHR 0x5C] @ ''u2029'') @ t) = prepend [CHR 0xE2, CHR 0x80, CHR 0xA9] (unquote t)"
proof -
  have "hex_value (CHR ''0'') = Some 0" "hex_value (CHR ''2'') = Some 2"
    "hex_value (CHR ''8'') = Some 8" "hex_value (CHR ''9'') = Some 9"
    by code_simp+
  then have "hex4 (''2028'' @ t) = Some (0x2028, t)" "hex4 (''2029'' @ t) = Some (0x2029, t)" by simp_all
  moreover have "char_of (226 :: nat) = CHR 0xE2" "char_of (128 :: nat) = CHR 0x80"
    "char_of (168 :: nat) = CHR 0xA8" "char_of (169 :: nat) = CHR 0xA9"
    by (simp_all add: char_of_def bit_0)
  then have "utf8_encode 0x2028 = [CHR 0xE2, CHR 0x80, CHR 0xA8]"
    "utf8_encode 0x2029 = [CHR 0xE2, CHR 0x80, CHR 0xA9]" by (simp_all add: utf8_encode_def)
  ultimately show
    "unquote (([CHR 0x5C] @ ''u2028'') @ t) = prepend [CHR 0xE2, CHR 0x80, CHR 0xA8] (unquote t)"
    "unquote (([CHR 0x5C] @ ''u2029'') @ t) = prepend [CHR 0xE2, CHR 0x80, CHR 0xA9] (unquote t)"
    using unquote_u [of "''2028'' @ t" "0x2028" t] unquote_u [of "''2029'' @ t" "0x2029" t]
    unfolding append.simps by (simp_all only: surrogate_def) simp_all
qed

lemma unquote_json_escape: "valid_utf8 s \<Longrightarrow> unquote (json_escape s @ CHR 0x22 # r) = Some (s, r)"
proof (induction s rule: json_escape.induct)
  case (1 s)
  show ?case
  proof (cases "s = []")
    case True
    then show ?thesis by (simp add: json_escape.simps)
  next
    case False
    then obtain c cs where s: "s = c # cs" by (cases s) auto
    from "1.prems" False have v: "0 < rune_len s" "valid_utf8 (drop (rune_len s) s)"
      using valid_utf8_step by blast+
    show ?thesis
    proof (cases "ascii c")
      case True
      then have "unquote (json_escape cs @ CHR 0x22 # r) = Some (cs, r)"
        using "1.IH"(1) v s by simp
      with True s show ?thesis
        by (simp add: json_escape.simps [of "c # cs"] unquote_ascii_escape)
    next
      case a: False
      let ?n = "rune_len s"
      let ?e = "json_escape (drop ?n s) @ CHR 0x22 # r"
      have ih: "unquote ?e = Some (drop ?n s, r)"
        using "1.IH"(3) [OF False, of ?n "take ?n s"] a v s by simp
      have "unquote (json_escape s @ CHR 0x22 # r) = prepend (take ?n s) (unquote ?e)"
        using a s v unquote_rune [of s ?e]
        by (subst json_escape.simps)
          (simp add: Let_def unquote_line_separators [unfolded append.simps] del: rune_len.simps)
      then show ?thesis using ih by simp
    qed
  qed
qed


section \<open>Numbers\<close>

definition lex_digits :: "string \<Rightarrow> (string \<times> string) option" where
  "lex_digits s = (if takeWhile digit s = [] then None else Some (takeWhile digit s, dropWhile digit s))"

definition lex_int :: "string \<Rightarrow> (string \<times> string) option" where
  "lex_int s =
     (case s of [] \<Rightarrow> None
      | c # cs \<Rightarrow> if c = CHR ''0'' then Some ([c], cs) else lex_digits s)"

definition lex_frac :: "string \<Rightarrow> (string \<times> string) option" where
  "lex_frac s =
     (case s of [] \<Rightarrow> Some ([], [])
      | c # cs \<Rightarrow> if c = CHR ''.'' then prepend [c] (lex_digits cs) else Some ([], s))"

definition lex_exp :: "string \<Rightarrow> (string \<times> string) option" where
  "lex_exp s =
     (case s of [] \<Rightarrow> Some ([], [])
      | c # cs \<Rightarrow>
          if c = CHR ''e'' \<or> c = CHR ''E'' then
            (case cs of [] \<Rightarrow> None
             | d # ds \<Rightarrow> if d = CHR ''+'' \<or> d = CHR ''-'' then prepend [c, d] (lex_digits ds)
                 else prepend [c] (lex_digits cs))
          else Some ([], s))"

definition lex_then :: "(string \<Rightarrow> (string \<times> string) option) \<Rightarrow> (string \<times> string) option \<Rightarrow> (string \<times> string) option" where
  "lex_then f m = (case m of None \<Rightarrow> None | Some (t, r) \<Rightarrow> prepend t (f r))"

definition lex_number :: "string \<Rightarrow> (string \<times> string) option" where
  "lex_number s =
     (case s of [] \<Rightarrow> None
      | c # cs \<Rightarrow> if c = CHR ''-'' then prepend [c] (lex_then lex_exp (lex_then lex_frac (lex_int cs)))
          else lex_then lex_exp (lex_then lex_frac (lex_int s)))"

text \<open>A number token of the grammar, and what may follow one.\<close>

definition number_token :: "string \<Rightarrow> bool" where
  "number_token t \<longleftrightarrow> lex_number t = Some (t, [])"

definition ends_number :: "string \<Rightarrow> bool" where
  "ends_number r \<longleftrightarrow>
     (case r of [] \<Rightarrow> True
      | c # _ \<Rightarrow> \<not> digit c \<and> c \<noteq> CHR ''.'' \<and> c \<noteq> CHR ''e'' \<and> c \<noteq> CHR ''E'')"

text \<open>Lexers are prefix-stable: what they leave can be extended, up to a delimiter.\<close>

lemma takeWhile_extend:
  "ends_number r \<Longrightarrow> takeWhile digit (s @ r) = takeWhile digit s \<and> dropWhile digit (s @ r) = dropWhile digit s @ r"
  by (induction s) (auto simp: ends_number_def split: list.splits)

lemma lex_digits_extend: "lex_digits s = Some (t, u) \<Longrightarrow> ends_number r \<Longrightarrow> lex_digits (s @ r) = Some (t, u @ r)"
  by (auto simp: lex_digits_def takeWhile_extend split: if_splits)

lemma lex_int_extend: "lex_int s = Some (t, u) \<Longrightarrow> ends_number r \<Longrightarrow> lex_int (s @ r) = Some (t, u @ r)"
  using lex_digits_extend [of s t u r]
  by (auto simp: lex_int_def split: list.splits if_splits)

lemma lex_frac_extend: "lex_frac s = Some (t, u) \<Longrightarrow> ends_number r \<Longrightarrow> lex_frac (s @ r) = Some (t, u @ r)"
  by (cases s; cases r)
    (auto simp: lex_frac_def ends_number_def prepend_Some dest: lex_digits_extend [where r = r] split: if_splits list.splits)

lemma lex_exp_extend: "lex_exp s = Some (t, u) \<Longrightarrow> ends_number r \<Longrightarrow> lex_exp (s @ r) = Some (t, u @ r)"
  by (cases s; cases r)
    (auto simp: lex_exp_def ends_number_def prepend_Some dest: lex_digits_extend [where r = r] split: if_splits list.splits)

lemma lex_then_Some:
  "lex_then f m = Some (t, r) \<longleftrightarrow> (\<exists>t1 r1 t2. m = Some (t1, r1) \<and> f r1 = Some (t2, r) \<and> t = t1 @ t2)"
  by (auto simp: lex_then_def prepend_Some split: option.splits)

lemma lex_number_extend:
  assumes "lex_number s = Some (t, u)" "ends_number r"
  shows "lex_number (s @ r) = Some (t, u @ r)"
proof -
  define body where "body x = lex_then lex_exp (lex_then lex_frac (lex_int x))" for x
  have *: "body (x @ r) = Some (y, u @ r)" if "body x = Some (y, u)" for x y
  proof -
    from that obtain a r1 b r2 c where "lex_int x = Some (a, r1)" "lex_frac r1 = Some (b, r2)"
      "lex_exp r2 = Some (c, u)" "y = (a @ b) @ c"
      unfolding body_def lex_then_Some by blast
    then show ?thesis using assms(2)
      by (simp add: body_def lex_then_def lex_int_extend lex_frac_extend lex_exp_extend)
  qed
  from assms(1) obtain c cs where s: "s = c # cs" by (cases s) (auto simp: lex_number_def)
  show ?thesis
  proof (cases "c = CHR ''-''")
    case True
    then show ?thesis using assms(1) s * [of cs]
      by (auto simp: lex_number_def prepend_Some body_def)
  next
    case False
    then show ?thesis using assms(1) s * [of s]
      by (simp add: lex_number_def body_def)
  qed
qed

lemma number_token_lex: "number_token t \<Longrightarrow> ends_number r \<Longrightarrow> lex_number (t @ r) = Some (t, r)"
  using lex_number_extend [of t t "[]" r] by (simp add: number_token_def)

section \<open>Values\<close>

fun commas :: "string list \<Rightarrow> string" where
  "commas [] = []"
| "commas [x] = x"
| "commas (x # y # ys) = x @ CHR '','' # commas (y # ys)"

text \<open>\<open>json.Marshal\<close> of a value whose object members are already in their final order.\<close>

fun json_print :: "json \<Rightarrow> string" where
  "json_print JNull = ''null''"
| "json_print (JBool b) = (if b then ''true'' else ''false'')"
| "json_print (JNum t) = t"
| "json_print (JStr s) = json_string s"
| "json_print (JArr xs) = CHR ''['' # commas (map json_print xs) @ [CHR '']'']"
| "json_print (JObj kvs) =
     CHR ''{'' # commas (map (\<lambda>(k, v). json_string k @ CHR '':'' # json_print v) kvs) @ [CHR ''}'']"

definition json_space :: "char \<Rightarrow> bool" where
  "json_space c \<longleftrightarrow> c \<in> {CHR 0x20, CHR 0x09, CHR 0x0A, CHR 0x0D}"

abbreviation skip_space :: "string \<Rightarrow> string" where
  "skip_space s \<equiv> dropWhile json_space s"

definition strip_prefix :: "string \<Rightarrow> string \<Rightarrow> string option" where
  "strip_prefix p s = (if take (length p) s = p then Some (drop (length p) s) else None)"

text \<open>The recursive descent; the number bounds the nesting of calls.\<close>

fun parse_value :: "nat \<Rightarrow> string \<Rightarrow> (json \<times> string) option"
and parse_elements :: "nat \<Rightarrow> string \<Rightarrow> (json list \<times> string) option"
and parse_members :: "nat \<Rightarrow> string \<Rightarrow> ((string \<times> json) list \<times> string) option" where
  "parse_value 0 s = None"
| "parse_value (Suc n) s =
     (case skip_space s of [] \<Rightarrow> None | c # cs \<Rightarrow>
        if c = CHR 0x22 then map_option (\<lambda>(t, r). (JStr t, r)) (unquote cs)
        else if c = CHR ''['' then
          (case skip_space cs of [] \<Rightarrow> None
           | d # ds \<Rightarrow> if d = CHR '']'' then Some (JArr [], ds)
               else map_option (\<lambda>(xs, r). (JArr xs, r)) (parse_elements n (d # ds)))
        else if c = CHR ''{'' then
          (case skip_space cs of [] \<Rightarrow> None
           | d # ds \<Rightarrow> if d = CHR ''}'' then Some (JObj [], ds)
               else map_option (\<lambda>(xs, r). (JObj xs, r)) (parse_members n (d # ds)))
        else if c = CHR ''n'' then map_option (\<lambda>r. (JNull, r)) (strip_prefix ''ull'' cs)
        else if c = CHR ''t'' then map_option (\<lambda>r. (JBool True, r)) (strip_prefix ''rue'' cs)
        else if c = CHR ''f'' then map_option (\<lambda>r. (JBool False, r)) (strip_prefix ''alse'' cs)
        else map_option (\<lambda>(t, r). (JNum t, r)) (lex_number (c # cs)))"
| "parse_elements 0 s = None"
| "parse_elements (Suc n) s =
     (case parse_value n s of None \<Rightarrow> None
      | Some (v, r) \<Rightarrow>
          (case skip_space r of [] \<Rightarrow> None
           | c # cs \<Rightarrow>
               if c = CHR '']'' then Some ([v], cs)
               else if c = CHR '','' then map_option (\<lambda>(vs, t). (v # vs, t)) (parse_elements n cs)
               else None))"
| "parse_members 0 s = None"
| "parse_members (Suc n) s =
     (case skip_space s of [] \<Rightarrow> None
      | q # qs \<Rightarrow>
        if q \<noteq> CHR 0x22 then None else
        (case unquote qs of None \<Rightarrow> None
         | Some (k, r1) \<Rightarrow>
            (case skip_space r1 of [] \<Rightarrow> None
             | d # ds \<Rightarrow>
               if d \<noteq> CHR '':'' then None else
               (case parse_value n ds of None \<Rightarrow> None
                | Some (v, r) \<Rightarrow>
                   (case skip_space r of [] \<Rightarrow> None
                    | c # cs \<Rightarrow>
                        if c = CHR ''}'' then Some ([(k, v)], cs)
                        else if c = CHR '','' then
                          map_option (\<lambda>(kvs, t). ((k, v) # kvs, t)) (parse_members n cs)
                        else None)))))"

text \<open>\<open>json.Unmarshal\<close> of a whole document: one value, then only white space.\<close>

definition json_parse :: "string \<Rightarrow> json option" where
  "json_parse s =
     (case parse_value (Suc (length s)) s of
        Some (v, r) \<Rightarrow> if skip_space r = [] then Some v else None
      | None \<Rightarrow> None)"

text \<open>Values that survive printing: valid UTF-8 and grammatical number tokens.\<close>

fun wf_json :: "json \<Rightarrow> bool" where
  "wf_json (JNum t) = number_token t"
| "wf_json (JStr s) = valid_utf8 s"
| "wf_json (JArr xs) = list_all wf_json xs"
| "wf_json (JObj kvs) = list_all (\<lambda>(k, v). valid_utf8 k \<and> wf_json v) kvs"
| "wf_json _ = True"

fun json_cost :: "json \<Rightarrow> nat" where
  "json_cost (JArr xs) = Suc (\<Sum>x\<leftarrow>xs. Suc (json_cost x))"
| "json_cost (JObj kvs) = Suc (\<Sum>(k, v)\<leftarrow>kvs. Suc (json_cost v))"
| "json_cost _ = 0"

section \<open>The round trip\<close>

lemma number_token_start: "number_token t \<Longrightarrow> \<exists>c cs. t = c # cs \<and> (digit c \<or> c = CHR ''-'')"
  by (cases t)
    (auto simp: number_token_def lex_number_def lex_then_Some lex_int_def lex_digits_def digit_def
      less_eq_char_def split: if_splits)

lemma json_print_start:
  assumes "wf_json j"
  shows "\<exists>c cs. json_print j = c # cs \<and> \<not> json_space c \<and> c \<noteq> CHR '']'' \<and> c \<noteq> CHR ''}''"
proof (cases j)
  case (JNum t)
  with assms obtain c cs where "t = c # cs" "digit c \<or> c = CHR ''-''"
    using number_token_start [of t] by auto
  with JNum show ?thesis by (auto simp: json_space_def digit_def less_eq_char_def)
next
  case (JBool b)
  then show ?thesis by (cases b) (simp_all add: json_space_def)
qed (simp_all add: json_space_def json_string_def)

lemma skip_space_print: "wf_json j \<Longrightarrow> skip_space (json_print j @ r) = json_print j @ r"
  using json_print_start [of j] by auto

lemma skip_space_cons [simp]: "\<not> json_space c \<Longrightarrow> skip_space (c # s) = c # s"
  by simp

lemma not_json_space [simp]:
  "\<not> json_space (CHR 0x22)" "\<not> json_space (CHR '','')" "\<not> json_space (CHR '':'')"
  "\<not> json_space (CHR ''['')" "\<not> json_space (CHR '']'')" "\<not> json_space (CHR ''{'')"
  "\<not> json_space (CHR ''}'')" "\<not> json_space (CHR ''n'')" "\<not> json_space (CHR ''t'')"
  "\<not> json_space (CHR ''f'')"
  by (simp_all add: json_space_def)

lemma ends_number_delimiter [simp]:
  "ends_number []" "ends_number (CHR '','' # r)" "ends_number (CHR '']'' # r)" "ends_number (CHR ''}'' # r)"
  by (simp_all add: ends_number_def digit_def less_eq_char_def)

definition prints_back :: "json \<Rightarrow> bool" where
  "prints_back j \<longleftrightarrow>
     (\<forall>n r. json_cost j < n \<longrightarrow> ends_number r \<longrightarrow> parse_value n (json_print j @ r) = Some (j, r))"

lemma prints_backD:
  "prints_back j \<Longrightarrow> json_cost j < n \<Longrightarrow> ends_number r \<Longrightarrow>
   parse_value n (json_print j @ r) = Some (j, r)"
  by (simp add: prints_back_def)

lemma parse_elements_print:
  assumes "xs \<noteq> []" "\<forall>x \<in> set xs. prints_back x" "(\<Sum>x\<leftarrow>xs. Suc (json_cost x)) < n"
  shows "parse_elements n (commas (map json_print xs) @ CHR '']'' # r) = Some (xs, r)"
  using assms
proof (induction xs arbitrary: n rule: induct_list012)
  case (2 x)
  then obtain m where m: "n = Suc m" "json_cost x < m" by (cases n) auto
  with 2 show ?case using prints_backD [of x m] by simp
next
  case (3 x y zs)
  then obtain m where m: "n = Suc m" "json_cost x < m" "(\<Sum>x\<leftarrow>y # zs. Suc (json_cost x)) < m"
    by (cases n) auto
  from m "3.prems" have "parse_elements m (commas (map json_print (y # zs)) @ CHR '']'' # r) = Some (y # zs, r)"
    by (intro "3.IH"(2)) simp_all
  with m "3.prems" show ?case using prints_backD [of x m] by simp
qed simp

lemma parse_members_print:
  assumes "kvs \<noteq> []" "\<forall>(k, v) \<in> set kvs. valid_utf8 k \<and> wf_json v \<and> prints_back v"
    and "(\<Sum>(k, v)\<leftarrow>kvs. Suc (json_cost v)) < n"
  shows "parse_members n
    (commas (map (\<lambda>(k, v). json_string k @ CHR '':'' # json_print v) kvs) @ CHR ''}'' # r) = Some (kvs, r)"
  using assms
proof (induction kvs arbitrary: n rule: induct_list012)
  case (2 kv)
  obtain k v where kv: "kv = (k, v)" by (cases kv)
  from 2 kv obtain m where m: "n = Suc m" "json_cost v < m" by (cases n) auto
  from 2 m kv show ?case
    using prints_backD [of v m "CHR ''}'' # r"] unquote_json_escape [of k]
    by (simp add: json_string_def)
next
  case (3 kv kw kvs)
  obtain k v where kv: "kv = (k, v)" by (cases kv)
  let ?rest = "commas (map (\<lambda>(k, v). json_string k @ CHR '':'' # json_print v) (kw # kvs)) @ CHR ''}'' # r"
  from "3.prems" kv obtain m where m: "n = Suc m" "json_cost v < m"
      "(\<Sum>(k, v)\<leftarrow>kw # kvs. Suc (json_cost v)) < m"
    by (cases n) auto
  from m "3.prems" have "parse_members m ?rest = Some (kw # kvs, r)"
    by (intro "3.IH"(2)) simp_all
  with m "3.prems" kv show ?case
    using prints_backD [of v m "CHR '','' # ?rest"] unquote_json_escape [of k]
    by (simp add: json_string_def)
qed simp

lemma commas_start:
  assumes "xs \<noteq> []" "\<forall>x \<in> set xs. wf_json x"
  shows "\<exists>c cs. commas (map json_print xs) = c # cs \<and> \<not> json_space c \<and> c \<noteq> CHR '']''"
proof -
  obtain x ys where xs: "xs = x # ys" using assms(1) by (cases xs) auto
  then obtain c cs where "json_print x = c # cs" "\<not> json_space c" "c \<noteq> CHR '']''"
    using assms(2) json_print_start [of x] by auto
  with xs show ?thesis by (cases ys) auto
qed

lemma prints_back: "wf_json j \<Longrightarrow> prints_back j"
proof (induction j)
  case JNull
  show ?case unfolding prints_back_def
  proof (intro allI impI)
    fix n :: nat and r assume "json_cost JNull < n"
    then obtain m where "n = Suc m" by (cases n) auto
    then show "parse_value n (json_print JNull @ r) = Some (JNull, r)" by (simp add: strip_prefix_def)
  qed
next
  case (JBool b)
  show ?case unfolding prints_back_def
  proof (intro allI impI)
    fix n :: nat and r assume "json_cost (JBool b) < n"
    then obtain m where "n = Suc m" by (cases n) auto
    then show "parse_value n (json_print (JBool b) @ r) = Some (JBool b, r)" by (simp add: strip_prefix_def)
  qed
next
  case (JNum t)
  then have t: "number_token t" by simp
  then obtain c cs where c: "t = c # cs" "digit c \<or> c = CHR ''-''" using number_token_start by blast
  then have d: "\<not> json_space c" "c \<noteq> CHR 0x22" "c \<noteq> CHR ''[''" "c \<noteq> CHR ''{''" "c \<noteq> CHR ''n''"
    "c \<noteq> CHR ''t''" "c \<noteq> CHR ''f''"
    by (auto simp: json_space_def digit_def less_eq_char_def)
  show ?case unfolding prints_back_def
  proof (intro allI impI)
    fix n :: nat and r assume "json_cost (JNum t) < n" "ends_number r"
    then obtain m where "n = Suc m" by (cases n) auto
    then show "parse_value n (json_print (JNum t) @ r) = Some (JNum t, r)"
      using c d number_token_lex [OF t \<open>ends_number r\<close>] by simp
  qed
next
  case (JStr s)
  show ?case unfolding prints_back_def
  proof (intro allI impI)
    fix n :: nat and r assume "json_cost (JStr s) < n"
    then obtain m where "n = Suc m" by (cases n) auto
    then show "parse_value n (json_print (JStr s) @ r) = Some (JStr s, r)"
      using JStr unquote_json_escape [of s] by (simp add: json_string_def)
  qed
next
  case (JArr xs)
  then have wf: "\<forall>x \<in> set xs. wf_json x" and pb: "\<forall>x \<in> set xs. prints_back x"
    by (auto simp: list_all_iff)
  show ?case unfolding prints_back_def
  proof (intro allI impI)
    fix n :: nat and r assume n: "json_cost (JArr xs) < n"
    then obtain m where m: "n = Suc m" "(\<Sum>x\<leftarrow>xs. Suc (json_cost x)) < m" by (cases n) auto
    show "parse_value n (json_print (JArr xs) @ r) = Some (JArr xs, r)"
    proof (cases "xs = []")
      case False
      then obtain c cs where "commas (map json_print xs) = c # cs" "\<not> json_space c" "c \<noteq> CHR '']''"
        using commas_start wf by blast
      then show ?thesis using m parse_elements_print [OF False pb m(2), of r] by simp
    qed (simp add: m)
  qed
next
  case (JObj kvs)
  then have wf: "\<forall>(k, v) \<in> set kvs. valid_utf8 k \<and> wf_json v \<and> prints_back v"
    by (fastforce simp: list_all_iff)
  show ?case unfolding prints_back_def
  proof (intro allI impI)
    fix n :: nat and r assume n: "json_cost (JObj kvs) < n"
    then obtain m where m: "n = Suc m" "(\<Sum>(k, v)\<leftarrow>kvs. Suc (json_cost v)) < m" by (cases n) auto
    show "parse_value n (json_print (JObj kvs) @ r) = Some (JObj kvs, r)"
    proof (cases kvs)
      case (Cons kv ks)
      obtain k v where kv: "kv = (k, v)" by (cases kv)
      have "\<exists>cs. commas (map (\<lambda>(k, v). json_string k @ CHR '':'' # json_print v) kvs) = CHR 0x22 # cs"
        using Cons kv by (cases ks) (auto simp: json_string_def)
      then show ?thesis using m Cons parse_members_print [OF _ wf m(2), of r] by auto
    qed (simp add: m)
  qed
qed

lemma length_commas: "length (commas xs) + 1 \<ge> (\<Sum>x\<leftarrow>xs. Suc (length x))"
  by (induction xs rule: commas.induct) auto

lemma sum_list_le: "(\<And>x. x \<in> set xs \<Longrightarrow> f x \<le> g x) \<Longrightarrow> sum_list (map f xs) \<le> (sum_list (map g xs) :: nat)"
  by (rule sum_list_mono)

lemma json_cost_le: "json_cost j \<le> length (json_print j)"
proof (induction j)
  case (JArr xs)
  then have "(\<Sum>x\<leftarrow>xs. Suc (json_cost x)) \<le> (\<Sum>x\<leftarrow>xs. Suc (length (json_print x)))"
    by (intro sum_list_le) auto
  also have "\<dots> \<le> length (commas (map json_print xs)) + 1"
    using length_commas [of "map json_print xs"] by (simp add: comp_def)
  finally show ?case by simp
next
  case (JObj kvs)
  let ?f = "\<lambda>(k, v). json_string k @ CHR '':'' # json_print v"
  have "(\<Sum>(k, v)\<leftarrow>kvs. Suc (json_cost v)) \<le> (\<Sum>kv\<leftarrow>kvs. Suc (length (?f kv)))"
    using JObj by (intro sum_list_le) (fastforce intro: le_trans)
  also have "\<dots> \<le> length (commas (map ?f kvs)) + 1"
    using length_commas [of "map ?f kvs"] by (simp add: comp_def)
  finally show ?case by simp
qed simp_all

theorem json_parse_print: "wf_json j \<Longrightarrow> json_parse (json_print j) = Some j"
  using prints_backD [OF prints_back, of j "Suc (length (json_print j))" "[]"] json_cost_le [of j]
  by (simp add: json_parse_def)

lemma json_print_inj: "wf_json i \<Longrightarrow> wf_json j \<Longrightarrow> json_print i = json_print j \<longleftrightarrow> i = j"
  by (metis json_parse_print option.inject)

section \<open>Integers, string arrays and string maps\<close>

definition json_int :: "int \<Rightarrow> json" where
  "json_int n = JNum (format_int n)"

definition json_strings :: "string list \<Rightarrow> json" where
  "json_strings xs = JArr (map JStr xs)"

text \<open>A \<open>map[string]string\<close> is printed in key order.\<close>

definition json_data :: "data \<Rightarrow> json" where
  "json_data m = JObj (map (\<lambda>k. (k, JStr (map_read m k))) (sorted_keys m))"

text \<open>A nil map is printed as \<open>null\<close>.\<close>

definition json_data_option :: "data option \<Rightarrow> json" where
  "json_data_option m = (case m of None \<Rightarrow> JNull | Some d \<Rightarrow> json_data d)"

text \<open>\<open>json.Unmarshal\<close> into a \<open>[]string\<close>; an element \<open>null\<close> leaves the zero value.\<close>

definition unmarshal_strings :: "string \<Rightarrow> string list option" where
  "unmarshal_strings s =
     (case json_parse s of
        Some (JArr xs) \<Rightarrow>
          those (map (\<lambda>x. case x of JStr t \<Rightarrow> Some t | JNull \<Rightarrow> Some [] | _ \<Rightarrow> None) xs)
      | Some JNull \<Rightarrow> Some []
      | _ \<Rightarrow> None)"

definition valid_data :: "data \<Rightarrow> bool" where
  "valid_data m \<longleftrightarrow> (\<forall>k \<in> set (sorted_keys m). valid_utf8 k \<and> valid_utf8 (map_read m k))"

lemma nat_digits_digits: "list_all digit (nat_digits n)"
proof (induction n rule: nat_digits.induct)
  case (1 n)
  then show ?case by (cases "n < 10") (simp_all add: nat_digits.simps [of n] digit_digit_char)
qed

lemma nat_digits_zero_head: "hd (nat_digits n) = CHR ''0'' \<Longrightarrow> n = 0"
proof (induction n rule: nat_digits.induct)
  case (1 n)
  show ?case
  proof (cases "n < 10")
    case True
    with "1.prems" have "of_char (digit_char n) = (of_char (CHR ''0'') :: nat)"
      by (simp add: nat_digits.simps [of n])
    then show ?thesis using True by (simp add: of_char_digit_char)
  next
    case False
    with "1" show ?thesis by (simp add: nat_digits.simps [of n])
  qed
qed

lemma number_token_nat: "lex_number (nat_digits n) = Some (nat_digits n, [])"
  "lex_then lex_exp (lex_then lex_frac (lex_int (nat_digits n))) = Some (nat_digits n, [])"
proof -
  obtain c cs where c: "nat_digits n = c # cs" by (cases "nat_digits n") auto
  have d: "takeWhile digit (nat_digits n) = nat_digits n" "dropWhile digit (nat_digits n) = []"
    using nat_digits_digits [of n] by (auto simp: list_all_iff takeWhile_eq_all_conv)
  have "lex_int (nat_digits n) = Some (nat_digits n, [])"
  proof (cases "c = CHR ''0''")
    case True
    with c have "n = 0" using nat_digits_zero_head [of n] by simp
    then have "nat_digits n = [CHR ''0'']" by (simp add: nat_digits.simps digit_char_def char_of_def bit_0)
    then show ?thesis by (simp add: lex_int_def)
  next
    case False
    then show ?thesis using c d by (simp add: lex_int_def lex_digits_def)
  qed
  then show *: "lex_then lex_exp (lex_then lex_frac (lex_int (nat_digits n))) = Some (nat_digits n, [])"
    by (simp add: lex_then_def lex_frac_def lex_exp_def)
  show "lex_number (nat_digits n) = Some (nat_digits n, [])"
    using * c hd_nat_digits_sign [of n] by (simp add: lex_number_def)
qed

lemma number_token_format_int: "number_token (format_int n)"
  using number_token_nat(1) [of "nat n"] number_token_nat(2) [of "nat (- n)"]
  by (simp add: number_token_def format_int_def lex_number_def)

lemma nat_digits_inj: "nat_digits m = nat_digits n \<Longrightarrow> m = n"
  by (metis parse_nat_digits option.inject of_nat_eq_iff)

lemma nat_digits_no_sign: "nat_digits n \<noteq> CHR ''-'' # cs"
  using hd_nat_digits_sign [of n] by auto

lemma format_int_inj: "format_int m = format_int n \<longleftrightarrow> m = n"
proof
  assume "format_int m = format_int n"
  then have "m < 0 \<longleftrightarrow> n < 0" "nat \<bar>m\<bar> = nat \<bar>n\<bar>"
    using nat_digits_no_sign nat_digits_no_sign [symmetric]
    by (auto simp: format_int_def dest!: nat_digits_inj split: if_splits)
  then show "m = n" by linarith
qed simp

lemma wf_json_int [simp]: "wf_json (json_int n)"
  by (simp add: json_int_def number_token_format_int)

lemma json_int_inj [simp]: "json_int m = json_int n \<longleftrightarrow> m = n"
  by (simp add: json_int_def format_int_inj)

lemma wf_json_strings: "wf_json (json_strings xs) \<longleftrightarrow> list_all valid_utf8 xs"
  by (simp add: json_strings_def list_all_iff)

lemma json_strings_inj [simp]: "json_strings xs = json_strings ys \<longleftrightarrow> xs = ys"
  by (simp add: json_strings_def inj_map_eq_map inj_def)

lemma those_map_Some: "those (map (\<lambda>x. Some (f x)) xs) = Some (map f xs)"
  by (induction xs) simp_all

theorem unmarshal_print_strings:
  "list_all valid_utf8 xs \<Longrightarrow> unmarshal_strings (json_print (json_strings xs)) = Some xs"
  using json_parse_print [of "json_strings xs"]
  by (simp add: unmarshal_strings_def wf_json_strings)
    (simp add: json_strings_def comp_def those_map_Some)

lemma wf_json_data: "wf_json (json_data m) \<longleftrightarrow> valid_data m"
  by (auto simp: json_data_def list_all_iff valid_data_def)

lemma json_data_inj [simp]: "json_data m = json_data n \<longleftrightarrow> m = n"
proof
  assume "json_data m = json_data n"
  then have eq: "map (\<lambda>k. (k, JStr (map_read m k))) (sorted_keys m) = map (\<lambda>k. (k, JStr (map_read n k))) (sorted_keys n)"
    by (simp add: json_data_def)
  then have "map fst (map (\<lambda>k. (k, JStr (map_read m k))) (sorted_keys m))
      = map fst (map (\<lambda>k. (k, JStr (map_read n k))) (sorted_keys n))" by (rule arg_cong)
  then have keys: "sorted_keys m = sorted_keys n" by (simp add: comp_def)
  show "m = n"
  proof (rule fmap_eqI)
    fix k
    show "fmlookup m k = fmlookup n k"
    proof (cases "k \<in> set (sorted_keys m)")
      case True
      with eq keys have "map_read m k = map_read n k" by auto
      moreover from True keys have "k |\<in>| fmdom m" "k |\<in>| fmdom n" by (metis set_sorted_keys)+
      ultimately show ?thesis by (auto simp: map_read_def fmlookup_dom_iff)
    next
      case False
      with keys have "k |\<notin>| fmdom m" "k |\<notin>| fmdom n" by (metis set_sorted_keys)+
      then show ?thesis by (metis fmdom_notD)
    qed
  qed
qed simp

lemma json_data_not_null [simp]: "json_data m \<noteq> JNull" "JNull \<noteq> json_data m"
  by (simp_all add: json_data_def)

lemma json_data_option_inj [simp]: "json_data_option m = json_data_option n \<longleftrightarrow> m = n"
  by (cases m; cases n) (simp_all add: json_data_option_def)

section \<open>What the decoder yields\<close>

lemma rune_append_valid:
  assumes "0 < rune_len u" "rune_len u = length u" "valid_utf8 t"
  shows "valid_utf8 (u @ t)"
proof -
  have "rune_len (u @ t) = length u" using assms(1,2) rune_len_append [of u t] by simp
  with assms show ?thesis by (subst valid_utf8.simps) auto
qed

lemma replacement_valid: "valid_utf8 t \<Longrightarrow> valid_utf8 (replacement @ t)"
  by (rule rune_append_valid) (simp_all add: replacement_def ascii_def lead2_def lead3_def continuation_def)

lemma of_char_of_nat [simp]: "n < 256 \<Longrightarrow> (of_char (char_of n) :: nat) = n"
  by (simp add: of_char_of)

lemma char_of_eq: "n < 256 \<Longrightarrow> char_of n = c \<longleftrightarrow> of_char c = (n :: nat)"
  by (metis of_char_of_nat char_of_char)

lemma unary_char_of:
  fixes a :: nat
  assumes "a < 256"
  shows "ascii (char_of a) \<longleftrightarrow> a < 128"
    and "continuation (char_of a) \<longleftrightarrow> 128 \<le> a \<and> a \<le> 191"
    and "lead2 (char_of a) \<longleftrightarrow> 194 \<le> a \<and> a \<le> 223"
  using assms
  by (auto simp: ascii_def continuation_def lead2_def less_char_def less_eq_char_def)

lemma binary_char_of:
  fixes a b :: nat
  assumes "a < 256" "b < 256"
  shows "lead3 (char_of a) (char_of b) \<longleftrightarrow>
      a = 224 \<and> 160 \<le> b \<and> b \<le> 191 \<or>
      (225 \<le> a \<and> a \<le> 236 \<or> a = 238 \<or> a = 239) \<and> 128 \<le> b \<and> b \<le> 191 \<or>
      a = 237 \<and> 128 \<le> b \<and> b \<le> 159"
    and "lead4 (char_of a) (char_of b) \<longleftrightarrow>
      a = 240 \<and> 144 \<le> b \<and> b \<le> 191 \<or>
      241 \<le> a \<and> a \<le> 243 \<and> 128 \<le> b \<and> b \<le> 191 \<or>
      a = 244 \<and> 128 \<le> b \<and> b \<le> 143"
  using assms
  by (auto simp: continuation_def lead3_def lead4_def less_char_def less_eq_char_def char_of_eq)

lemmas lead_char_of = unary_char_of binary_char_of

lemma utf8_encode_rune:
  assumes "r < 0x110000" "\<not> surrogate r"
  shows "0 < rune_len (utf8_encode r) \<and> rune_len (utf8_encode r) = length (utf8_encode r)"
proof -
  have "r mod 64 < 64" "r div 64 mod 64 < 64" "r div 4096 mod 64 < 64" by simp_all
  then have m: "r mod 64 \<le> 63" "r div 64 mod 64 \<le> 63" "r div 4096 mod 64 \<le> 63" by linarith+
  have q: "r div 64 = 64 * (r div 4096) + r div 64 mod 64"
    "r div 4096 = 64 * (r div 262144) + r div 4096 mod 64"
    using div_mult2_eq [of r 64 64] div_mult2_eq [of r 4096 64] by simp_all
  consider "r < 0x80" | "0x80 \<le> r" "r < 0x800" | "0x800 \<le> r" "r < 0x10000" | "0x10000 \<le> r"
    by linarith
  then show ?thesis
  proof cases
    case 1
    then show ?thesis by (simp add: utf8_encode_def lead_char_of)
  next
    case 2
    then have "2 \<le> r div 64" "r div 64 < 32" by linarith+
    with 2 m show ?thesis by (simp add: utf8_encode_def lead_char_of)
  next
    case 3
    then have d: "r div 4096 < 16" by linarith
    have e: "r div 64 mod 64 \<ge> 32" if "r div 4096 = 0"
    proof -
      have "32 \<le> r div 64" using 3 by linarith
      with that q(1) show ?thesis by linarith
    qed
    have f: "r div 64 mod 64 < 32" if "r div 4096 = 13"
    proof -
      have "r < 0xE000" using that by linarith
      then have "r div 64 < 864" using assms(2) unfolding surrogate_def by linarith
      with that q(1) show ?thesis by linarith
    qed
    have "lead3 (char_of (0xE0 + r div 4096)) (char_of (0x80 + r div 64 mod 64))"
    proof -
      have "r div 4096 = 0 \<or> 1 \<le> r div 4096 \<and> r div 4096 \<le> 12 \<or> r div 4096 = 13 \<or>
          r div 4096 = 14 \<or> r div 4096 = 15"
        using d by linarith
      then show ?thesis using e f m by (auto simp: binary_char_of)
    qed
    moreover have "224 + r div 4096 < 256" "128 + r div 64 mod 64 < 256" "128 + r mod 64 < 256"
      using d m by linarith+
    ultimately show ?thesis using 3 d m by (simp add: utf8_encode_def lead_char_of)
  next
    case 4
    then have d: "r div 262144 < 5" using assms(1) by linarith
    have e: "r div 4096 mod 64 \<ge> 16" if "r div 262144 = 0"
    proof -
      have "16 \<le> r div 4096" using 4 by linarith
      with that q(2) show ?thesis by linarith
    qed
    have f: "r div 4096 mod 64 < 16" if "r div 262144 = 4"
    proof -
      have "r div 4096 < 272" using assms(1) by linarith
      with that q(2) show ?thesis by linarith
    qed
    have "lead4 (char_of (0xF0 + r div 262144)) (char_of (0x80 + r div 4096 mod 64))"
    proof -
      have "r div 262144 = 0 \<or> 1 \<le> r div 262144 \<and> r div 262144 \<le> 3 \<or> r div 262144 = 4"
        using d by linarith
      then show ?thesis using e f m by (auto simp: binary_char_of)
    qed
    moreover have "240 + r div 262144 < 256" "128 + r div 4096 mod 64 < 256"
      "128 + r div 64 mod 64 < 256" "128 + r mod 64 < 256"
      using d m by linarith+
    ultimately show ?thesis using 4 d m by (simp add: utf8_encode_def lead_char_of)
  qed
qed

lemma hex_value_lt: "hex_value c = Some n \<Longrightarrow> n < 16"
  by (auto simp: hex_value_def Let_def split: if_splits)

lemma hex4_lt: "hex4 s = Some (r, t) \<Longrightarrow> r < 0x10000"
  by (cases s rule: hex4.cases) (auto split: option.splits dest!: hex_value_lt)

lemma low_surrogate_range:
  assumes "low_surrogate r s = Some (q, t)" "surrogate r"
  shows "q < 0x110000 \<and> \<not> surrogate q"
proof -
  from assms(1) obtain r2 where "q = (r - 0xD800) * 1024 + (r2 - 0xDC00) + 0x10000"
    "0xDC00 \<le> r2" "r2 < 0xE000" "r < 0xDC00"
    by (auto simp: low_surrogate_def split: if_splits option.splits)
  with assms(2) show ?thesis unfolding surrogate_def by linarith
qed

lemma unquote_valid: "unquote s = Some (t, r) \<Longrightarrow> valid_utf8 t"
proof (induction s arbitrary: t r rule: unquote.induct)
  case (1 s)
  note IH = "1.IH"
  from "1.prems" obtain c cs where s: "s = c # cs" by (cases s) (auto simp: unquote.simps)
  consider (quote) "c = CHR 0x22" | (esc) "c = CHR 0x5C" | (ctl) "c \<noteq> CHR 0x22" "c \<noteq> CHR 0x5C" "c < CHR 0x20"
    | (bad) "c \<noteq> CHR 0x22" "c \<noteq> CHR 0x5C" "\<not> c < CHR 0x20" "rune_len s = 0"
    | (rune) "c \<noteq> CHR 0x22" "c \<noteq> CHR 0x5C" "\<not> c < CHR 0x20" "rune_len s \<noteq> 0"
    by blast
  then show ?case
  proof cases
    case quote
    with "1.prems" s show ?thesis by simp
  next
    case esc
    from "1.prems" s esc obtain e es where cs: "cs = e # es"
      by (cases cs) (auto simp: unquote.simps)
    show ?thesis
    proof (cases "e = CHR ''u''")
      case False
      with "1.prems" s esc cs obtain x where x: "simple_escape e = Some x"
        by (subst (asm) unquote.simps) (auto split: option.splits)
      with "1.prems" s esc cs obtain t' where t': "unquote es = Some (t', r)" "t = x # t'"
        by (auto simp: unquote_escape prepend_Some)
      have "ascii x" using x by (auto simp: simple_escape_def ascii_def split: if_splits)
      moreover have "valid_utf8 t'" by (rule IH(4)) (use s esc cs False x t' in simp_all)
      ultimately show ?thesis using t' rune_append_valid [of "[x]" t'] by simp
    next
      case True
      with "1.prems" s esc cs obtain q s1 where q: "hex4 es = Some (q, s1)"
        by (subst (asm) unquote.simps) (auto split: option.splits)
      show ?thesis
      proof (cases "surrogate q")
        case False
        with q True "1.prems" s esc cs obtain t' where t': "unquote s1 = Some (t', r)" "t = utf8_encode q @ t'"
          using unquote_u [of es q s1] by (auto simp: prepend_Some)
        have "valid_utf8 t'" by (rule IH(3)) (use s esc cs True q False t' in simp_all)
        moreover have "q < 0x110000" using hex4_lt [OF q] by simp
        then have "0 < rune_len (utf8_encode q) \<and> rune_len (utf8_encode q) = length (utf8_encode q)"
          using utf8_encode_rune False by blast
        ultimately show ?thesis using t' rune_append_valid by blast
      next
        case sur: True
        show ?thesis
        proof (cases "low_surrogate q s1")
          case None
          with q True sur "1.prems" s esc cs obtain t'
            where t': "unquote s1 = Some (t', r)" "t = replacement @ t'"
            by (subst (asm) unquote.simps) (auto simp: prepend_Some)
          have "valid_utf8 t'" by (rule IH(1)) (use s esc cs True q sur None t' in simp_all)
          then show ?thesis using t' replacement_valid by blast
        next
          case (Some p)
          obtain r2 s2 where p: "p = (r2, s2)" by (cases p)
          with Some q True sur "1.prems" s esc cs obtain t'
            where t': "unquote s2 = Some (t', r)" "t = utf8_encode r2 @ t'"
            by (subst (asm) unquote.simps) (auto simp: prepend_Some)
          have "valid_utf8 t'" by (rule IH(2)) (use s esc cs True q sur Some p t' in simp_all)
          then show ?thesis
            using t' rune_append_valid utf8_encode_rune low_surrogate_range [of q s1 r2 s2] Some p sur by blast
        qed
      qed
    qed
  next
    case ctl
    with "1.prems" s show ?thesis by (subst (asm) unquote.simps) simp
  next
    case bad
    with "1.prems" s obtain t' where t': "unquote cs = Some (t', r)" "t = replacement @ t'"
      by (subst (asm) unquote.simps) (auto simp: prepend_Some)
    have "valid_utf8 t'" by (rule IH(5)) (use s bad t' in simp_all)
    then show ?thesis using t' replacement_valid by blast
  next
    case rune
    with "1.prems" s obtain t' where t': "unquote (drop (rune_len s) s) = Some (t', r)"
      "t = take (rune_len s) s @ t'"
      by (subst (asm) unquote.simps) (auto simp: prepend_Some)
    have "valid_utf8 t'" by (rule IH(6)) (use s rune t' in simp_all)
    then have "valid_utf8 (take (rune_len s) s @ t')"
      using rune rune_len_take [of s] rune_len_le [of s] by (intro rune_append_valid) simp_all
    then show ?thesis using t' by simp
  qed
qed

text \<open>The token a lexer returns is a token on its own, up to what may follow its part.\<close>

lemma lex_digits_token:
  assumes "lex_digits s = Some (t, u)" "r = [] \<or> \<not> digit (hd r)"
  shows "lex_digits (t @ r) = Some (t, r)"
proof -
  have t: "t = takeWhile digit s" "t \<noteq> []" using assms(1) by (auto simp: lex_digits_def split: if_splits)
  then have "\<forall>c \<in> set t. digit c" by (auto dest: set_takeWhileD)
  then have "takeWhile digit (t @ r) = t \<and> dropWhile digit (t @ r) = r"
    using assms(2) by (cases r) (auto simp: takeWhile_append dropWhile_append3)
  with t(2) show ?thesis by (simp add: lex_digits_def)
qed

lemma lex_int_token:
  assumes "lex_int s = Some (t, u)" "r = [] \<or> \<not> digit (hd r)"
  shows "lex_int (t @ r) = Some (t, r)"
proof -
  from assms(1) obtain c cs where s: "s = c # cs" by (cases s) (auto simp: lex_int_def)
  show ?thesis
  proof (cases "c = CHR ''0''")
    case True
    then show ?thesis using assms(1) s by (auto simp: lex_int_def)
  next
    case False
    then have d: "lex_digits s = Some (t, u)" using assms(1) s by (simp add: lex_int_def)
    then have "t = takeWhile digit s" "t \<noteq> []" by (auto simp: lex_digits_def split: if_splits)
    then obtain ds where "t = c # ds" using s by (auto split: if_splits)
    then show ?thesis using lex_digits_token [OF d assms(2)] False by (simp add: lex_int_def)
  qed
qed

lemma lex_frac_token:
  assumes "lex_frac s = Some (t, u)" "r = [] \<or> hd r = CHR ''e'' \<or> hd r = CHR ''E''"
  shows "lex_frac (t @ r) = Some (t, r)" "t = [] \<or> hd t = CHR ''.''"
proof -
  have r: "r = [] \<or> \<not> digit (hd r)" using assms(2) by (auto simp: digit_def less_eq_char_def)
  show "lex_frac (t @ r) = Some (t, r)"
  proof (cases s)
    case Nil
    with assms show ?thesis by (cases r) (auto simp: lex_frac_def)
  next
    case (Cons c cs)
    show ?thesis
    proof (cases "c = CHR ''.''")
      case True
      with assms(1) Cons obtain t' where "lex_digits cs = Some (t', u)" "t = c # t'"
        by (auto simp: lex_frac_def prepend_Some)
      then show ?thesis using True lex_digits_token [OF _ r] by (simp add: lex_frac_def)
    next
      case False
      with assms Cons show ?thesis by (cases r) (auto simp: lex_frac_def)
    qed
  qed
  show "t = [] \<or> hd t = CHR ''.''"
    using assms(1) by (cases s) (auto simp: lex_frac_def prepend_Some split: if_splits)
qed

lemma lex_exp_token:
  assumes "lex_exp s = Some (t, u)"
  shows "lex_exp t = Some (t, [])" "t = [] \<or> hd t = CHR ''e'' \<or> hd t = CHR ''E''"
proof -
  have dig: "lex_digits t' = Some (t', [])" if "lex_digits x = Some (t', u)" for x t'
    using lex_digits_token [OF that, of "[]"] by simp
  have nosign: "t' \<noteq> [] \<and> hd t' \<noteq> CHR ''+'' \<and> hd t' \<noteq> CHR ''-''" if "lex_digits x = Some (t', u)" for x t'
  proof -
    have "t' = takeWhile digit x" "t' \<noteq> []" using that by (auto simp: lex_digits_def split: if_splits)
    then have "digit (hd t')" by (metis hd_in_set set_takeWhileD)
    with \<open>t' \<noteq> []\<close> show ?thesis by (auto simp: digit_def less_eq_char_def)
  qed
  show "lex_exp t = Some (t, [])"
  proof (cases s)
    case Nil
    with assms show ?thesis by (simp add: lex_exp_def)
  next
    case (Cons c cs)
    show ?thesis
    proof (cases "c = CHR ''e'' \<or> c = CHR ''E''")
      case True
      with assms Cons obtain d ds where cs: "cs = d # ds" by (cases cs) (auto simp: lex_exp_def)
      show ?thesis
      proof (cases "d = CHR ''+'' \<or> d = CHR ''-''")
        case True': True
        with True assms Cons cs obtain t' where "lex_digits ds = Some (t', u)" "t = c # d # t'"
          by (auto simp: lex_exp_def prepend_Some)
        then show ?thesis using True True' dig by (auto simp: lex_exp_def)
      next
        case False
        with True assms Cons cs obtain t' where t': "lex_digits cs = Some (t', u)" "t = c # t'"
          by (auto simp: lex_exp_def prepend_Some)
        then obtain e es where "t' = e # es" "e \<noteq> CHR ''+''" "e \<noteq> CHR ''-''"
          using nosign by (cases t') fastforce+
        then show ?thesis using True t' dig [OF t'(1)] by (auto simp: lex_exp_def)
      qed
    next
      case False
      with assms Cons show ?thesis by (simp add: lex_exp_def)
    qed
  qed
  show "t = [] \<or> hd t = CHR ''e'' \<or> hd t = CHR ''E''"
    using assms by (cases s) (auto simp: lex_exp_def prepend_Some split: if_splits list.splits)
qed

lemma lex_int_start: "lex_int x = Some (i, r) \<Longrightarrow> i \<noteq> [] \<and> digit (hd i)"
  by (cases x)
    (auto simp: lex_int_def lex_digits_def digit_def less_eq_char_def split: if_splits)

lemma digit_not_minus: "digit c \<Longrightarrow> c \<noteq> CHR ''-''"
  by (auto simp: digit_def less_eq_char_def)

lemma lex_number_token:
  assumes "lex_number s = Some (t, u)"
  shows "number_token t"
proof -
  define body where "body x = lex_then lex_exp (lex_then lex_frac (lex_int x))" for x
  have body: "body y = Some (y, []) \<and> y \<noteq> [] \<and> hd y \<noteq> CHR ''-''" if b: "body x = Some (y, u)" for x y
  proof -
    from b obtain i r1 f r2 e where *: "lex_int x = Some (i, r1)" "lex_frac r1 = Some (f, r2)"
      "lex_exp r2 = Some (e, u)" "y = (i @ f) @ e"
      unfolding body_def lex_then_Some by blast
    have e: "lex_exp e = Some (e, [])" "e = [] \<or> hd e = CHR ''e'' \<or> hd e = CHR ''E''"
      using lex_exp_token *(3) by blast+
    have f: "lex_frac (f @ e) = Some (f, e)" "f = [] \<or> hd f = CHR ''.''"
      using lex_frac_token *(2) e(2) by blast+
    have "f @ e = [] \<or> \<not> digit (hd (f @ e))"
      using e(2) f(2) by (cases f) (auto simp: digit_def less_eq_char_def)
    then have i: "lex_int (i @ f @ e) = Some (i, f @ e)" using lex_int_token *(1) by blast
    then obtain c cs where "i = c # cs" "c \<noteq> CHR ''-''"
      using lex_int_start [OF *(1)] digit_not_minus by (cases i) auto
    with e f i *(4) show ?thesis by (simp add: body_def lex_then_def)
  qed
  from assms obtain c cs where s: "s = c # cs" by (cases s) (auto simp: lex_number_def)
  show ?thesis
  proof (cases "c = CHR ''-''")
    case True
    with assms s obtain t' where "body cs = Some (t', u)" "t = CHR ''-'' # t'"
      by (auto simp: lex_number_def body_def prepend_Some)
    then show ?thesis using body by (simp add: number_token_def lex_number_def body_def)
  next
    case False
    with assms s have "body s = Some (t, u)" by (simp add: lex_number_def body_def)
    then have "body t = Some (t, []) \<and> t \<noteq> [] \<and> hd t \<noteq> CHR ''-''" by (rule body)
    then show ?thesis by (cases t) (simp_all add: number_token_def lex_number_def body_def)
  qed
qed

lemma parse_wf:
  "parse_value n s = Some (j, r) \<Longrightarrow> wf_json j"
  "parse_elements n s = Some (js, r) \<Longrightarrow> list_all wf_json js"
  "parse_members n s = Some (kvs, r) \<Longrightarrow> list_all (\<lambda>(k, v). valid_utf8 k \<and> wf_json v) kvs"
proof (induction n arbitrary: s j js kvs r)
  case (Suc n)
  {
    case 1
    then show ?case using Suc.IH(2,3)
      by (auto split: list.splits if_splits dest: unquote_valid lex_number_token)
  next
    case 2
    then show ?case using Suc.IH(1,2)
      by (fastforce split: list.splits if_splits option.splits)
  next
    case 3
    then show ?case using Suc.IH(1,3)
      by (fastforce split: list.splits if_splits option.splits dest: unquote_valid)
  }
qed simp_all

lemma json_parse_wf: "json_parse s = Some j \<Longrightarrow> wf_json j"
  by (auto simp: json_parse_def simp del: parse_value.simps split: option.splits if_splits dest: parse_wf)

section \<open>Decoding into \<open>any\<close>\<close>

text \<open>
  A JSON object decoded into \<open>map[string]any\<close> keeps the last of duplicate members and is
  printed in key order.
\<close>

definition last_members :: "(string \<times> 'a) list \<Rightarrow> (string \<times> 'a) list" where
  "last_members kvs =
     map (\<lambda>k. (k, the (map_of (rev kvs) k))) (sorted_list_of_set (set (map fst kvs)))"

fun json_any :: "json \<Rightarrow> json" where
  "json_any (JArr xs) = JArr (map json_any xs)"
| "json_any (JObj kvs) = JObj (last_members (map (\<lambda>(k, v). (k, json_any v)) kvs))"
| "json_any j = j"

lemma last_members_in: "(k, v) \<in> set (last_members kvs) \<Longrightarrow> (k, v) \<in> set kvs"
proof -
  assume "(k, v) \<in> set (last_members kvs)"
  then have k: "k \<in> fst ` set kvs" and v: "v = the (map_of (rev kvs) k)"
    by (auto simp: last_members_def)
  from k have "map_of (rev kvs) k \<noteq> None" by (simp add: map_of_eq_None_iff)
  then show "(k, v) \<in> set kvs" using v by (metis map_of_SomeD option.exhaust_sel set_rev)
qed

lemma last_members_sorted: "sorted (map fst (last_members kvs)) \<and> distinct (map fst (last_members kvs))"
  by (simp add: last_members_def comp_def)

lemma last_members_id:
  assumes "sorted (map fst kvs)" "distinct (map fst kvs)"
  shows "last_members kvs = kvs"
proof -
  have "sorted_list_of_set (set (map fst kvs)) = map fst kvs"
    using assms by (simp only: sorted_list_of_set.idem_if_sorted_distinct)
  moreover have "map_of (rev kvs) k = Some v" if "(k, v) \<in> set kvs" for k v
    using that assms(2) by (simp add: rev_map [symmetric])
  ultimately show ?thesis
    by (auto simp: last_members_def intro!: map_idI)
qed

lemma last_members_map:
  "last_members (map (\<lambda>(k, v). (k, f v)) kvs) = map (\<lambda>(k, v). (k, f v)) (last_members kvs)"
proof -
  have "map_of (rev (map (\<lambda>(k, v). (k, f v)) kvs)) k = map_option f (map_of (rev kvs) k)" for k
    by (simp add: rev_map map_of_map)
  moreover have "map_of (rev kvs) k \<noteq> None" if "k \<in> fst ` set kvs" for k
    using that by (simp add: map_of_eq_None_iff)
  ultimately show ?thesis
    by (auto simp: last_members_def case_prod_unfold comp_def option.map_sel image_image)
qed

lemma wf_json_any: "wf_json j \<Longrightarrow> wf_json (json_any j)"
proof (induction j)
  case (JObj kvs)
  show ?case
    using JObj by (fastforce simp: list_all_iff dest: last_members_in)
qed (auto simp: list_all_iff)

theorem json_any_idem: "json_any (json_any j) = json_any j"
proof (induction j)
  case (JObj kvs)
  let ?ks = "last_members (map (\<lambda>(k, v). (k, json_any v)) kvs)"
  have "map (\<lambda>(k, v). (k, json_any v)) ?ks = ?ks"
    using JObj by (auto intro!: map_idI dest!: last_members_in)
  moreover have "last_members ?ks = ?ks"
    by (rule last_members_id) (use last_members_sorted in blast)+
  ultimately show ?case by simp
qed simp_all

end
