(* ===== verification/Catalog_Canonical.thy ===== *)
theory Catalog_Canonical
  imports Go_Json Go_Sha256 "HOL-Library.Multiset"
begin

text \<open>
  Canonical values, record keys and the base digest: \<open>internal/catalog/domain/canonical.go\<close>
  (and its copy \<open>internal/distribution/readmodel/canonical.go\<close>).

  Integers, booleans, JSON, keys and digests are modelled down to the bytes. The packages
  whose text the scalar codec only delegates to (\<open>strconv.ParseFloat\<close> with \<open>FormatFloat\<close>,
  \<open>time.Parse\<close> with \<open>Format\<close>, \<open>regexp\<close>) are the fields of a \<open>scalar_lib\<close>.
\<close>

datatype field_type =
    FieldTypeString
  | FieldTypeInt64
  | FieldTypeFloat64
  | FieldTypeBool
  | FieldTypeTimestamp
  | FieldTypeJSON
  | FieldTypeOther string

record digest =
  dg_algorithm :: string
  dg_value :: string

text \<open>\<open>ConfigurationRecord\<close>; \<open>cr_data\<close> is \<open>None\<close> for a nil map.\<close>

record config_record =
  cr_collection :: string
  cr_environment :: string
  cr_key :: string
  cr_data :: "data option"
  cr_revision :: u64

text \<open>
  The catalog package has no sentinel errors, so an error is the format string the code
  builds it from. A cause wrapped with a prefix and \<open>%w\<close> stays the cause.
\<close>

type_synonym catalog_error = String.literal

text \<open>What the catalog takes from \<open>strconv\<close> (floats), \<open>time\<close> and \<open>regexp\<close>.\<close>

record scalar_lib =
  lib_float :: "string \<Rightarrow> string option"
  lib_time :: "string \<Rightarrow> string option"
  lib_compare_float :: "string \<Rightarrow> string \<Rightarrow> int"
  lib_compare_time :: "string \<Rightarrow> string \<Rightarrow> int"
  lib_regexp_compiles :: "string \<Rightarrow> bool"
  lib_regexp_match :: "string \<Rightarrow> string \<Rightarrow> bool"

section \<open>Scalars\<close>

definition from_option :: "'e \<Rightarrow> 'a option \<Rightarrow> 'e + 'a" where
  "from_option e r = (case r of None \<Rightarrow> Inl e | Some x \<Rightarrow> Inr x)"

lemma from_option_Inr [go_results]: "from_option e r = Inr x \<longleftrightarrow> r = Some x"
  by (cases r) (simp_all add: from_option_def)

definition canonicalize_json :: "string \<Rightarrow> catalog_error + string" where
  "canonicalize_json input =
     from_option STR ''canonicalize JSON: %w'' (map_option (\<lambda>v. json_print (json_any v)) (json_parse input))"

definition canonicalize_scalar :: "scalar_lib \<Rightarrow> field_type \<Rightarrow> string \<Rightarrow> catalog_error + string" where
  "canonicalize_scalar lib ft input =
     (case ft of
        FieldTypeString \<Rightarrow> Inr input
      | FieldTypeInt64 \<Rightarrow> from_option STR ''canonicalize INT64: %w'' (map_option format_int (parse_int64 input))
      | FieldTypeFloat64 \<Rightarrow> from_option STR ''canonicalize FLOAT64: value must be finite'' (lib_float lib input)
      | FieldTypeBool \<Rightarrow> from_option STR ''canonicalize BOOL: %w'' (map_option format_bool (parse_bool input))
      | FieldTypeTimestamp \<Rightarrow> from_option STR ''canonicalize TIMESTAMP: %w'' (lib_time lib input)
      | FieldTypeJSON \<Rightarrow> canonicalize_json input
      | FieldTypeOther _ \<Rightarrow> Inl STR ''canonicalize scalar: unsupported field type %q'')"

text \<open>
  The documented behaviour of the two delegated codecs. The shortest text of a float parses back to
  the same float, so it is a fixed point. The text of an instant in UTC, if it parses, gives the
  same instant and so the same text; it need not parse, because the offset of the input can move the
  instant out of the years 0 to 9999: \<open>9999-12-31T23:59:59-01:00\<close> becomes \<open>10000-01-01T00:59:59Z\<close>.
\<close>

definition lib_canonical :: "scalar_lib \<Rightarrow> bool" where
  "lib_canonical lib \<longleftrightarrow>
     (\<forall>s t. lib_float lib s = Some t \<longrightarrow> lib_float lib t = Some t) \<and>
     (\<forall>s t u. lib_time lib s = Some t \<longrightarrow> lib_time lib t = Some u \<longrightarrow> u = t)"

text \<open>A text that parses again, if it is the text of a timestamp.\<close>

definition text_returns :: "scalar_lib \<Rightarrow> field_type \<Rightarrow> string \<Rightarrow> bool" where
  "text_returns lib ft t \<longleftrightarrow> (ft = FieldTypeTimestamp \<longrightarrow> lib_time lib t \<noteq> None)"

lemma canonicalize_json_idem:
  assumes "canonicalize_json s = Inr t" shows "canonicalize_json t = Inr t"
proof -
  from assms obtain j where j: "json_parse s = Some j" "t = json_print (json_any j)"
    by (auto simp: canonicalize_json_def from_option_Inr)
  then have "json_parse t = Some (json_any j)"
    using json_parse_print [OF wf_json_any] json_parse_wf by blast
  then show ?thesis
    using j(2) json_any_idem by (simp add: canonicalize_json_def from_option_def)
qed

lemma canonicalize_scalar_fixpoint:
  assumes "lib_canonical lib" "canonicalize_scalar lib ft s = Inr t" "text_returns lib ft t"
  shows "canonicalize_scalar lib ft t = Inr t"
proof (cases ft)
  case FieldTypeInt64
  with assms(2) obtain n where "parse_int64 s = Some n" "t = format_int n"
    by (auto simp: canonicalize_scalar_def from_option_Inr)
  then have "parse_int64 t = Some n" using parse_format_int64 parse_int64_range by blast
  with \<open>t = format_int n\<close> FieldTypeInt64 show ?thesis
    by (simp add: canonicalize_scalar_def from_option_def)
next
  case FieldTypeBool
  with assms(2) obtain b where "t = format_bool b"
    by (auto simp: canonicalize_scalar_def from_option_Inr)
  with FieldTypeBool show ?thesis
    by (simp add: canonicalize_scalar_def from_option_def parse_format_bool)
next
  case FieldTypeJSON
  with assms(2) show ?thesis
    using canonicalize_json_idem by (simp add: canonicalize_scalar_def)
next
  case FieldTypeFloat64
  with assms show ?thesis
    by (auto simp: canonicalize_scalar_def from_option_Inr lib_canonical_def)
next
  case FieldTypeTimestamp
  with assms(3) obtain u where "lib_time lib t = Some u" by (auto simp: text_returns_def)
  with FieldTypeTimestamp assms(1,2) show ?thesis
    by (auto simp: canonicalize_scalar_def from_option_Inr lib_canonical_def)
qed (use assms in \<open>simp_all add: canonicalize_scalar_def\<close>)

section \<open>Record keys\<close>

definition encode_key :: "string list \<Rightarrow> data \<Rightarrow> catalog_error + string" where
  "encode_key names d =
     (if names = [] then Inl STR ''encode key: at least one field is required''
      else rbind (rmap (\<lambda>f. from_option STR ''encode key: field %q is missing'' (fmlookup d f)) names)
             (\<lambda>vs. Inr (raw_url_base64 (json_print (json_strings vs)))))"

lemma encode_key_Inr:
  "encode_key names d = Inr k \<longleftrightarrow>
     names \<noteq> [] \<and> (\<forall>f \<in> set names. f |\<in>| fmdom d) \<and>
     k = raw_url_base64 (json_print (json_strings (map (map_read d) names)))"
proof -
  have "rmap (\<lambda>f. from_option STR ''encode key: field %q is missing'' (fmlookup d f)) names = Inr vs \<longleftrightarrow>
      (\<forall>f \<in> set names. f |\<in>| fmdom d) \<and> vs = map (map_read d) names" for vs
    by (induction names arbitrary: vs)
      (auto simp: rbind_Inr_iff from_option_Inr map_read_def fmlookup_dom_iff)
  then show ?thesis by (auto simp: encode_key_def rbind_Inr_iff)
qed

section \<open>The base digest\<close>

text \<open>
  The insertion sort of \<open>ComputeBaseDigest\<close>: the record at \<open>left\<close> sinks leftwards past every
  record with a greater key. The sorted part is kept reversed, its last element first.
\<close>

fun sink :: "('a \<Rightarrow> string) \<Rightarrow> 'a \<Rightarrow> 'a list \<Rightarrow> 'a list" where
  "sink key x [] = [x]"
| "sink key x (y # ys) = (if key x < key y then y # sink key x ys else x # y # ys)"

definition insertion_sort :: "('a \<Rightarrow> string) \<Rightarrow> 'a list \<Rightarrow> 'a list" where
  "insertion_sort key xs = rev (foldl (\<lambda>acc x. sink key x acc) [] xs)"

fun adjacent_duplicate :: "('a \<Rightarrow> string) \<Rightarrow> 'a list \<Rightarrow> string option" where
  "adjacent_duplicate key (x # y # ys) =
     (if key y = key x then Some (key y) else adjacent_duplicate key (y # ys))"
| "adjacent_duplicate key _ = None"

text \<open>The local \<open>digestRecord\<close> of a record.\<close>

definition digest_content :: "config_record \<Rightarrow> string \<times> data option" where
  "digest_content r = (cr_key r, cr_data r)"

definition digest_payload :: "(string \<times> data option) list \<Rightarrow> json" where
  "digest_payload ordered = JArr (map (\<lambda>(k, d). JArr [JStr k, json_data_option d]) ordered)"

definition sha256_digest :: "string \<Rightarrow> digest" where
  "sha256_digest payload = \<lparr>dg_algorithm = ''SHA-256'', dg_value = hex_encode (sha256 payload)\<rparr>"

definition base_digest_payload :: "config_record list \<Rightarrow> catalog_error + json" where
  "base_digest_payload records =
     (if \<exists>r \<in> set records. cr_key r = [] then Inl STR ''compute base digest: record key is required''
      else let ordered = insertion_sort fst (map digest_content records)
           in case adjacent_duplicate fst ordered of
                Some k \<Rightarrow> Inl STR ''compute base digest: duplicate record key %q''
              | None \<Rightarrow> Inr (digest_payload ordered))"

definition compute_base_digest :: "config_record list \<Rightarrow> catalog_error + digest" where
  "compute_base_digest records =
     rbind (base_digest_payload records) (\<lambda>payload. Inr (sha256_digest (json_print payload)))"

lemma sink_mset: "mset (sink key x ys) = add_mset x (mset ys)"
  by (induction ys) simp_all

lemma sink_sorted: "sorted (map key (rev ys)) \<Longrightarrow> sorted (map key (rev (sink key x ys)))"
proof (induction ys)
  case (Cons y ys)
  show ?case
  proof (cases "key x < key y")
    case True
    have "set (sink key x ys) = insert x (set ys)" using sink_mset by (metis set_mset_add_mset_insert set_mset_mset)
    with True Cons show ?thesis by (auto simp: sorted_append)
  next
    case False
    with Cons.prems show ?thesis by (auto simp: sorted_append)
  qed
qed simp

lemma sink_filter:
  "filter (\<lambda>z. key k = key z) (rev (sink key x ys)) = filter (\<lambda>z. key k = key z) (rev ys) @ filter (\<lambda>z. key k = key z) [x]"
  if "sorted (map key (rev ys))"
  using that
proof (induction ys)
  case (Cons y ys)
  have "filter (\<lambda>z. key k = key z) [y] = []" if "key x < key y" "key k = key x"
    using that by auto
  with Cons show ?case by (auto simp: sorted_append)
qed simp

text \<open>The loop is a stable sort.\<close>

lemma insertion_sort_eq: "insertion_sort key xs = sort_key key xs"
proof -
  have "mset (foldl (\<lambda>acc x. sink key x acc) [] xs) = mset xs \<and>
      sorted (map key (rev (foldl (\<lambda>acc x. sink key x acc) [] xs))) \<and>
      (\<forall>k. filter (\<lambda>z. key k = key z) (rev (foldl (\<lambda>acc x. sink key x acc) [] xs))
           = filter (\<lambda>z. key k = key z) xs)"
    by (induction xs rule: rev_induct) (simp_all add: sink_mset sink_sorted sink_filter)
  then show ?thesis
    unfolding insertion_sort_def by (intro properties_for_sort_key [symmetric]) simp_all
qed

lemma adjacent_duplicate_None:
  "sorted (map key xs) \<Longrightarrow> adjacent_duplicate key xs = None \<longleftrightarrow> distinct (map key xs)"
  by (induction key xs rule: adjacent_duplicate.induct) (auto simp: order_antisym)

lemma adjacent_duplicate_map: "adjacent_duplicate key xs = adjacent_duplicate id (map key xs)"
  by (induction key xs rule: adjacent_duplicate.induct) simp_all

lemma map_key_sort_key: "map key (sort_key key xs) = sort (map key xs)"
  by (rule properties_for_sort [symmetric]) simp_all

lemma insort_key_map_eq: "insort_key f (g x) (map g xs) = map g (insort_key (\<lambda>x. f (g x)) x xs)"
  by (induction xs) simp_all

lemma sort_key_map_eq: "sort_key f (map g xs) = map g (sort_key (\<lambda>x. f (g x)) xs)"
  by (induction xs) (simp_all add: insort_key_map_eq)

lemma sort_map_cong: "mset xs = mset ys \<Longrightarrow> sort (map key xs) = sort (map key ys)"
  by (metis mset_map sorted_list_of_multiset_mset)

section \<open>Digests over a keyed order\<close>

text \<open>
  What the digest functions share: the payload depends on the key-sorted input only, is
  defined only for pairwise distinct keys, and lists the content of the sorted elements.
\<close>

locale keyed_digest =
  fixes key :: "'a \<Rightarrow> string"
    and payload :: "'a list \<Rightarrow> 'e + json"
    and content :: "'a \<Rightarrow> 'c"
    and ok :: "'a \<Rightarrow> bool"
  assumes distinct_keys: "payload xs = Inr p \<Longrightarrow> distinct (map key xs)"
    and of_sorted: "distinct (map key xs) \<Longrightarrow> payload (sort_key key xs) = payload xs"
    and contents: "payload xs = Inr p \<Longrightarrow> payload ys = Inr p \<Longrightarrow>
      map content (sort_key key xs) = map content (sort_key key ys)"
    and printable: "payload xs = Inr p \<Longrightarrow> list_all ok xs \<Longrightarrow> wf_json p"
begin

lemma sort_key_permutation:
  assumes "mset xs = mset ys" "distinct (map key xs)"
  shows "sort_key key xs = sort_key key ys"
proof -
  have keys: "mset (map key xs) = mset (map key ys)" using assms(1) by simp
  then have dy: "distinct (map key ys)" using assms(2) mset_eq_imp_distinct_iff by blast
  have sets: "set xs = set ys" using assms(1) by (rule mset_eq_setD)
  show ?thesis
  proof (rule map_sorted_distinct_set_unique [where f = key])
    show "inj_on key (set (sort_key key xs) \<union> set (sort_key key ys))"
      using assms(2) sets by (simp add: distinct_map)
    show "sorted (map key (sort_key key xs))" "sorted (map key (sort_key key ys))" by simp_all
    show "distinct (map key (sort_key key xs))" "distinct (map key (sort_key key ys))"
      using assms(2) dy by (simp_all add: map_key_sort_key)
    show "set (sort_key key xs) = set (sort_key key ys)" using sets by simp
  qed
qed

lemma payload_permutation:
  assumes "mset xs = mset ys" "distinct (map key xs)" shows "payload xs = payload ys"
proof -
  have "distinct (map key ys)" using assms mset_eq_imp_distinct_iff by (metis mset_map)
  with assms show ?thesis using of_sorted sort_key_permutation by metis
qed

lemma same_contents:
  assumes "payload xs = Inr p" "payload ys = Inr p"
  shows "mset (map content xs) = mset (map content ys)"
  using contents [OF assms] by (metis mset_map mset_sort)

text \<open>Equal sums of colliding-free payloads mean equal contents.\<close>

lemma digest_determines_contents:
  assumes "payload xs = Inr p" "payload ys = Inr q"
    and "list_all ok xs" "list_all ok ys"
    and "sha256 (json_print p) = sha256 (json_print q) \<Longrightarrow> json_print p = json_print q"
    and "sha256_digest (json_print p) = sha256_digest (json_print q)"
  shows "mset (map content xs) = mset (map content ys)"
proof -
  from assms(6) have "json_print p = json_print q"
    using assms(5) hex_encode_inj by (auto simp: sha256_digest_def)
  then have "p = q" using json_print_inj printable assms(1-4) by metis
  with assms(1,2) same_contents show ?thesis by blast
qed

end

definition valid_record_utf8 :: "config_record \<Rightarrow> bool" where
  "valid_record_utf8 r \<longleftrightarrow>
     valid_utf8 (cr_key r) \<and> (case cr_data r of None \<Rightarrow> True | Some d \<Rightarrow> valid_data d)"

lemma digest_payload_inj: "digest_payload xs = digest_payload ys \<longleftrightarrow> xs = ys"
  by (auto simp: digest_payload_def inj_map_eq_map inj_def)

lemma sort_digest_contents:
  "insertion_sort fst (map digest_content rs) = map digest_content (sort_key cr_key rs)"
  by (simp add: insertion_sort_eq sort_key_map_eq digest_content_def)

lemma base_digest_payload_Inr:
  "base_digest_payload rs = Inr p \<longleftrightarrow>
     (\<forall>r \<in> set rs. cr_key r \<noteq> []) \<and> distinct (map cr_key rs) \<and>
     p = digest_payload (map digest_content (sort_key cr_key rs))"
proof -
  have "map fst (map digest_content (sort_key cr_key rs)) = sort (map cr_key rs)"
    by (simp add: comp_def digest_content_def map_key_sort_key)
  then have "adjacent_duplicate fst (map digest_content (sort_key cr_key rs)) = None \<longleftrightarrow>
      distinct (map cr_key rs)"
    by (metis adjacent_duplicate_None distinct_sort sorted_sort)
  then show ?thesis
    by (auto simp: base_digest_payload_def Let_def sort_digest_contents split: option.splits)
qed

interpretation base_digest:
  keyed_digest cr_key base_digest_payload digest_content valid_record_utf8
proof
  fix xs ys :: "config_record list" and p
  show "base_digest_payload xs = Inr p \<Longrightarrow> distinct (map cr_key xs)"
    by (simp add: base_digest_payload_Inr)
  show "base_digest_payload xs = Inr p \<Longrightarrow> base_digest_payload ys = Inr p \<Longrightarrow>
      map digest_content (sort_key cr_key xs) = map digest_content (sort_key cr_key ys)"
    by (simp add: base_digest_payload_Inr digest_payload_inj)
  show "base_digest_payload xs = Inr p \<Longrightarrow> list_all valid_record_utf8 xs \<Longrightarrow> wf_json p"
    by (auto simp: base_digest_payload_Inr digest_payload_def list_all_iff valid_record_utf8_def
        digest_content_def json_data_option_def wf_json_data split: option.splits)
  assume "distinct (map cr_key xs)"
  have "(\<exists>r \<in> set (sort_key cr_key xs). cr_key r = []) \<longleftrightarrow> (\<exists>r \<in> set xs. cr_key r = [])" by simp
  moreover have "insertion_sort fst (map digest_content (sort_key cr_key xs)) =
      insertion_sort fst (map digest_content xs)"
    by (simp add: sort_digest_contents sort_key_id_if_sorted)
  ultimately show "base_digest_payload (sort_key cr_key xs) = base_digest_payload xs"
    unfolding base_digest_payload_def by (simp add: Let_def)
qed

end
