(* ===== verification/Catalog_Validation.thy ===== *)
theory Catalog_Validation
  imports Catalog_Canonical
begin

text \<open>
  Field validation rules: \<open>internal/catalog/domain/validation.go\<close> (and its copy
  \<open>internal/distribution/readmodel/validation.go\<close>). \<open>compile_validation_rules\<close> checks and
  canonicalises the rules of a field, \<open>validate_canonical_field_value\<close> applies compiled rules.
  A nil parameter map and an empty one behave alike in every function here, so the
  parameters are a plain finite map.
\<close>

datatype rule_kind =
    ValidationRequired
  | ValidationEnum
  | ValidationRegex
  | ValidationMin
  | ValidationMax
  | ValidationMinLength
  | ValidationMaxLength
  | ValidationOther string

record validation_rule =
  vr_kind :: rule_kind
  vr_params :: data
  vr_message :: string

section \<open>Compiling rules\<close>

definition only_param :: "data \<Rightarrow> string \<Rightarrow> string \<times> bool" where
  "only_param params name = (map_read params name, name |\<in>| fmdom params \<and> map_len params = 1)"

text \<open>The loop over the ENUM values; the accumulator is both \<open>canonical\<close> and \<open>valueSet\<close>.\<close>

definition compile_enum_values :: "scalar_lib \<Rightarrow> field_type \<Rightarrow> string list \<Rightarrow> catalog_error + string list" where
  "compile_enum_values lib ft values =
     rfold (\<lambda>seen v. rbind (canonicalize_scalar lib ft v)
              (\<lambda>c. if c \<in> set seen then Inl STR ''ENUM value %q is duplicated after canonicalization''
                   else Inr (seen @ [c]))) [] values"

definition ordered_type :: "field_type \<Rightarrow> bool" where
  "ordered_type ft \<longleftrightarrow> ft = FieldTypeInt64 \<or> ft = FieldTypeFloat64 \<or> ft = FieldTypeTimestamp"

text \<open>The switch on the rule kind: the compiled parameters.\<close>

definition compile_rule_params ::
  "scalar_lib \<Rightarrow> field_type \<Rightarrow> bool \<Rightarrow> rule_kind \<Rightarrow> data \<Rightarrow> catalog_error + data" where
  "compile_rule_params lib ft required kind params =
     (case kind of
        ValidationRequired \<Rightarrow>
          if \<not> required \<or> map_len params \<noteq> 0
          then Inl STR ''REQUIRED rule requires a required field and no params'' else Inr params
      | ValidationEnum \<Rightarrow>
          if map_len params \<noteq> 1 then Inl STR ''ENUM rule requires only the values param''
          else (case unmarshal_strings (map_read params ''values'') of
                  None \<Rightarrow> Inl STR ''ENUM values must be a JSON string array with 1..1000 elements''
                | Some values \<Rightarrow>
                    if values = [] \<or> 1000 < length values
                    then Inl STR ''ENUM values must be a JSON string array with 1..1000 elements''
                    else rbind (compile_enum_values lib ft values)
                           (\<lambda>canonical. Inr (fmupd ''values''
                              (json_print (json_strings (sort canonical))) params)))
      | ValidationRegex \<Rightarrow>
          (case only_param params ''pattern'' of (pat, only) \<Rightarrow>
             if \<not> only \<or> ft \<noteq> FieldTypeString \<or> pat = [] \<or> 1024 < length pat
             then Inl STR ''REGEX requires only a 1..1024 byte pattern on STRING''
             else if \<not> lib_regexp_compiles lib pat then Inl STR ''REGEX pattern: %w''
             else Inr params)
      | ValidationOther _ \<Rightarrow> Inl STR ''validation rule kind %q is invalid''
      | _ \<Rightarrow>
          if kind = ValidationMin \<or> kind = ValidationMax then
            (case only_param params ''value'' of (v, only) \<Rightarrow>
               if \<not> only \<or> \<not> ordered_type ft
               then Inl STR ''%s requires only value on INT64, FLOAT64, or TIMESTAMP''
               else rbind (canonicalize_scalar lib ft v) (\<lambda>c. Inr (fmupd ''value'' c params)))
          else
            (case only_param params ''value'' of (v, only) \<Rightarrow>
               (case parse_int64 v of
                  None \<Rightarrow> Inl STR ''%s requires one non-negative integer value on STRING''
                | Some n \<Rightarrow>
                    if \<not> only \<or> n < 0 \<or> ft \<noteq> FieldTypeString
                    then Inl STR ''%s requires one non-negative integer value on STRING''
                    else Inr (fmupd ''value'' (format_int n) params))))"

definition compile_validation_rules ::
  "scalar_lib \<Rightarrow> field_type \<Rightarrow> bool \<Rightarrow> validation_rule list \<Rightarrow> catalog_error + validation_rule list" where
  "compile_validation_rules lib ft required source =
     rfold (\<lambda>compiled rule.
        let message = trim_space (vr_message rule)
        in if message = [] then Inl STR ''validation rule %q requires a message''
           else if vr_kind rule \<in> vr_kind ` set compiled then Inl STR ''validation rule %q is duplicated''
           else rbind (compile_rule_params lib ft required (vr_kind rule) (vr_params rule))
                  (\<lambda>params. Inr (compiled @
                     [\<lparr>vr_kind = vr_kind rule, vr_params = params, vr_message = message\<rparr>])))
       [] source"

section \<open>Checking a value\<close>

definition compare_int :: "int \<Rightarrow> int \<Rightarrow> int" where
  "compare_int l r = (if l < r then -1 else if r < l then 1 else 0)"

definition compare_string :: "string \<Rightarrow> string \<Rightarrow> int" where
  "compare_string l r = (if l < r then -1 else if r < l then 1 else 0)"

definition compare_canonical :: "scalar_lib \<Rightarrow> field_type \<Rightarrow> string \<Rightarrow> string \<Rightarrow> int" where
  "compare_canonical lib ft l r =
     (case ft of
        FieldTypeInt64 \<Rightarrow> compare_int (parse_int64_value l) (parse_int64_value r)
      | FieldTypeFloat64 \<Rightarrow> lib_compare_float lib l r
      | FieldTypeTimestamp \<Rightarrow> lib_compare_time lib l r
      | _ \<Rightarrow> compare_string l r)"

definition satisfies_rule :: "scalar_lib \<Rightarrow> field_type \<Rightarrow> string \<Rightarrow> validation_rule \<Rightarrow> bool" where
  "satisfies_rule lib ft v rule =
     (let params = vr_params rule
      in case vr_kind rule of
           ValidationRequired \<Rightarrow> v \<noteq> []
         | ValidationEnum \<Rightarrow>
             (case unmarshal_strings (map_read params ''values'') of
                None \<Rightarrow> False | Some values \<Rightarrow> v \<in> set values)
         | ValidationRegex \<Rightarrow> lib_regexp_match lib (map_read params ''pattern'') v
         | ValidationMin \<Rightarrow> 0 \<le> compare_canonical lib ft v (map_read params ''value'')
         | ValidationMax \<Rightarrow> compare_canonical lib ft v (map_read params ''value'') \<le> 0
         | ValidationMinLength \<Rightarrow> parse_int64_value (map_read params ''value'') \<le> int (rune_count v)
         | ValidationMaxLength \<Rightarrow> int (rune_count v) \<le> parse_int64_value (map_read params ''value'')
         | ValidationOther _ \<Rightarrow> True)"

text \<open>The error is the message of the first rule the value violates.\<close>

definition validate_canonical_field_value ::
  "scalar_lib \<Rightarrow> field_type \<Rightarrow> validation_rule list \<Rightarrow> string \<Rightarrow> string option" where
  "validate_canonical_field_value lib ft rules v =
     map_option vr_message (find (\<lambda>rule. \<not> satisfies_rule lib ft v rule) rules)"

definition string_maps_equal :: "data \<Rightarrow> data \<Rightarrow> bool" where
  "string_maps_equal l r \<longleftrightarrow>
     map_len l = map_len r \<and> list_all (\<lambda>k. map_read r k = map_read l k) (sorted_keys l)"

definition same_validation_rules :: "validation_rule list \<Rightarrow> validation_rule list \<Rightarrow> bool" where
  "same_validation_rules l r \<longleftrightarrow>
     list_all2 (\<lambda>a b. vr_kind a = vr_kind b \<and> vr_message a = vr_message b \<and>
        string_maps_equal (vr_params a) (vr_params b)) l r"

section \<open>Facts\<close>

lemma validate_None_iff:
  "validate_canonical_field_value lib ft rules v = None \<longleftrightarrow> (\<forall>r \<in> set rules. satisfies_rule lib ft v r)"
  by (auto simp: validate_canonical_field_value_def find_None_iff)

lemma compile_enum_values_Inr:
  assumes "compile_enum_values lib ft vs = Inr cs"
  shows "distinct cs \<and> rmap (canonicalize_scalar lib ft) vs = Inr cs"
proof -
  let ?f = "\<lambda>seen v. rbind (canonicalize_scalar lib ft v)
    (\<lambda>c. if c \<in> set seen then Inl STR ''ENUM value %q is duplicated after canonicalization'' else Inr (seen @ [c]))"
  have "\<exists>ds. cs = seen @ ds \<and> distinct cs \<and> rmap (canonicalize_scalar lib ft) vs = Inr ds"
    if "rfold ?f seen vs = Inr cs" "distinct seen" for seen
    using that
    by (induction vs arbitrary: seen)
      (fastforce simp: rbind_Inr_iff if_Inl_Inr_iff)+
  from this [of "[]"] assms show ?thesis by (simp add: compile_enum_values_def)
qed

text \<open>Compiled rules have pairwise different kinds and non-blank messages.\<close>

definition rules_compiled :: "validation_rule list \<Rightarrow> bool" where
  "rules_compiled rules \<longleftrightarrow>
     distinct (map vr_kind rules) \<and> (\<forall>r \<in> set rules. \<not> blank (vr_message r))"

lemma compile_validation_rules_compiled:
  assumes "compile_validation_rules lib ft required source = Inr rules"
  shows "rules_compiled rules"
  using assms unfolding compile_validation_rules_def
  by (rule rfold_invariant)
    (auto simp: rules_compiled_def rbind_Inr_iff Let_def blank_def split: if_splits)

lemma compile_validation_rules_kinds:
  assumes "compile_validation_rules lib ft required source = Inr rules"
  shows "map vr_kind rules = map vr_kind source"
proof -
  let ?f = "\<lambda>compiled rule.
        let message = trim_space (vr_message rule)
        in if message = [] then Inl STR ''validation rule %q requires a message''
           else if vr_kind rule \<in> vr_kind ` set compiled then Inl STR ''validation rule %q is duplicated''
           else rbind (compile_rule_params lib ft required (vr_kind rule) (vr_params rule))
                  (\<lambda>params. Inr (compiled @
                     [\<lparr>vr_kind = vr_kind rule, vr_params = params, vr_message = message\<rparr>]))"
  have "map vr_kind rules = map vr_kind acc @ map vr_kind source" if "rfold ?f acc source = Inr rules" for acc
    using that
    by (induction source arbitrary: acc) (fastforce simp: rbind_Inr_iff Let_def split: if_splits)+
  from this [of "[]"] assms show ?thesis by (simp add: compile_validation_rules_def)
qed

end
