(* ===== verification/Catalog_Collection.thy ===== *)
theory Catalog_Collection
  imports Catalog_Validation
begin

text \<open>
  Collections and their records: \<open>internal/catalog/domain/collection.go\<close> (and its copy
  \<open>internal/distribution/readmodel/collection.go\<close>). \<open>compile_collection\<close> turns an untrusted
  specification into a definition, \<open>new_record\<close> an untrusted map into a canonical record.
  The accessors that hand out clones are the record fields themselves.
\<close>

record field_definition =
  fd_name :: string
  fd_display_name :: string
  fd_type :: field_type
  fd_required :: bool
  fd_sensitive :: bool
  fd_default :: "string option"
  fd_description :: string
  fd_display_order :: int
  fd_rules :: "validation_rule list"

record collection_spec =
  cs_name :: string
  cs_description :: string
  cs_fields :: "field_definition list"
  cs_key_fields :: "string list"
  cs_sdk_delivery :: bool
  cs_schema_version :: int

record collection_definition =
  cd_name :: string
  cd_description :: string
  cd_fields :: "field_definition list"
  cd_fields_by_name :: "(string, field_definition) fmap"
  cd_key_fields :: "string list"
  cd_sdk_delivery :: bool
  cd_schema_version :: int

section \<open>Compiling a collection\<close>

definition zero_fixture :: "field_type \<Rightarrow> string" where
  "zero_fixture ft =
     (case ft of
        FieldTypeString \<Rightarrow> []
      | FieldTypeInt64 \<Rightarrow> ''0''
      | FieldTypeFloat64 \<Rightarrow> ''0''
      | FieldTypeBool \<Rightarrow> ''false''
      | FieldTypeTimestamp \<Rightarrow> ''1970-01-01T00:00:00Z''
      | FieldTypeJSON \<Rightarrow> ''null''
      | FieldTypeOther _ \<Rightarrow> [])"

definition compile_default ::
  "scalar_lib \<Rightarrow> field_type \<Rightarrow> string option \<Rightarrow> catalog_error + string option" where
  "compile_default lib ft d =
     (case d of None \<Rightarrow> Inr None
      | Some v \<Rightarrow> rbind (canonicalize_scalar lib ft v) (\<lambda>c. Inr (Some c)))"

text \<open>A field value that violates a rule: the error is the rule's own message.\<close>

definition check_value ::
  "scalar_lib \<Rightarrow> field_type \<Rightarrow> validation_rule list \<Rightarrow> string \<Rightarrow> catalog_error + unit" where
  "check_value lib ft rules v =
     (case validate_canonical_field_value lib ft rules v of
        None \<Rightarrow> Inr () | Some _ \<Rightarrow> Inl STR ''rule.Message'')"

text \<open>One iteration of the loop over the fields: the fields compiled so far, then the next.\<close>

definition compile_field ::
  "scalar_lib \<Rightarrow> field_definition list \<Rightarrow> field_definition \<Rightarrow> catalog_error + field_definition list" where
  "compile_field lib compiled field =
     (let name = trim_space (fd_name field); ft = fd_type field
      in if \<not> is_identifier name then Inl STR ''compile collection: field %d has an invalid name''
         else if blank (fd_display_name field)
           then Inl STR ''compile collection: field %q display name is required''
         else if fd_display_order field < 0
           then Inl STR ''compile collection: field %q display order must be non-negative''
         else if name \<in> fd_name ` set compiled then Inl STR ''compile collection: duplicate field %q''
         else if fd_display_order field \<in> fd_display_order ` set compiled
           then Inl STR ''compile collection: duplicate display order %d''
         else rbind (canonicalize_scalar lib ft (zero_fixture ft)) (\<lambda>_.
              rbind (compile_default lib ft (fd_default field)) (\<lambda>dflt.
              rbind (compile_validation_rules lib ft (fd_required field) (fd_rules field)) (\<lambda>rules.
              rbind (case dflt of None \<Rightarrow> Inr () | Some v \<Rightarrow> check_value lib ft rules v) (\<lambda>_.
              Inr (compiled @ [field\<lparr>fd_name := name, fd_default := dflt, fd_rules := rules\<rparr>]))))))"

definition index_fields :: "field_definition list \<Rightarrow> (string, field_definition) fmap" where
  "index_fields fs = fmap_of_list (map (\<lambda>f. (fd_name f, f)) fs)"

definition compile_key_field ::
  "(string, field_definition) fmap \<Rightarrow> string list \<Rightarrow> string \<Rightarrow> catalog_error + string list" where
  "compile_key_field by_name seen raw =
     (let name = trim_space raw
      in case fmlookup by_name name of
           None \<Rightarrow> Inl STR ''compile collection: key field %q does not exist''
         | Some field \<Rightarrow>
             if name \<in> set seen then Inl STR ''compile collection: duplicate key field %q''
             else if fd_sensitive field
               then Inl STR ''compile collection: sensitive field %q cannot be a key''
             else Inr (seen @ [name]))"

definition compile_collection :: "scalar_lib \<Rightarrow> collection_spec \<Rightarrow> catalog_error + collection_definition" where
  "compile_collection lib spec =
     (let name = trim_space (cs_name spec)
      in if \<not> is_identifier name then Inl STR ''compile collection: name must be an ASCII identifier''
         else if cs_fields spec = [] then Inl STR ''compile collection: at least one field is required''
         else if cs_key_fields spec = []
           then Inl STR ''compile collection: at least one key field is required''
         else if cs_schema_version spec \<le> 0
           then Inl STR ''compile collection: schema version must be positive''
         else rbind (rfold (compile_field lib) [] (cs_fields spec)) (\<lambda>fs.
              rbind (rfold (compile_key_field (index_fields fs)) [] (cs_key_fields spec)) (\<lambda>keys.
              Inr \<lparr>cd_name = name, cd_description = cs_description spec, cd_fields = fs,
                   cd_fields_by_name = index_fields fs, cd_key_fields = keys,
                   cd_sdk_delivery = cs_sdk_delivery spec,
                   cd_schema_version = cs_schema_version spec\<rparr>)))"

text \<open>\<open>CollectionDefinition.Field\<close>.\<close>

definition definition_field :: "collection_definition \<Rightarrow> string \<Rightarrow> field_definition option" where
  "definition_field d name = fmlookup (cd_fields_by_name d) name"

section \<open>Records\<close>

definition add_key_field ::
  "scalar_lib \<Rightarrow> collection_definition \<Rightarrow> data \<Rightarrow> data \<Rightarrow> string \<Rightarrow> catalog_error + data" where
  "add_key_field lib d input acc name =
     (case fmlookup input name of
        None \<Rightarrow> Inl STR ''record key: field %q is missing''
      | Some v \<Rightarrow>
          (let ft = (case fmlookup (cd_fields_by_name d) name of
                       None \<Rightarrow> FieldTypeOther [] | Some f \<Rightarrow> fd_type f)
           in rbind (canonicalize_scalar lib ft v) (\<lambda>c. Inr (fmupd name c acc))))"

definition canonical_record_key ::
  "scalar_lib \<Rightarrow> collection_definition \<Rightarrow> data \<Rightarrow> catalog_error + string" where
  "canonical_record_key lib d input =
     rbind (rfold (add_key_field lib d input) fmempty (cd_key_fields d))
       (encode_key (cd_key_fields d))"

text \<open>One iteration over the fields of a new record.\<close>

definition add_record_field ::
  "scalar_lib \<Rightarrow> data \<Rightarrow> data \<Rightarrow> field_definition \<Rightarrow> catalog_error + data" where
  "add_record_field lib input acc field =
     (case (case fmlookup input (fd_name field) of None \<Rightarrow> fd_default field | Some v \<Rightarrow> Some v) of
        None \<Rightarrow>
          if fd_required field then Inl STR ''new record: required field %q is missing'' else Inr acc
      | Some v \<Rightarrow>
          rbind (canonicalize_scalar lib (fd_type field) v) (\<lambda>c.
          rbind (check_value lib (fd_type field) (fd_rules field) c) (\<lambda>_.
          Inr (fmupd (fd_name field) c acc))))"

definition new_record ::
  "scalar_lib \<Rightarrow> collection_definition \<Rightarrow> string \<Rightarrow> data \<Rightarrow> catalog_error + config_record" where
  "new_record lib d environment input =
     (let env = trim_space environment
      in if env = [] \<or> 64 < length env
         then Inl STR ''new record: environment is required and must be at most 64 bytes''
         else if \<not> list_all (\<lambda>name. name |\<in>| fmdom (cd_fields_by_name d)) (sorted_keys input)
         then Inl STR ''new record: unknown field %q''
         else rbind (rfold (add_record_field lib input) fmempty (cd_fields d)) (\<lambda>content.
              rbind (encode_key (cd_key_fields d) content) (\<lambda>key.
              Inr \<lparr>cr_collection = cd_name d, cr_environment = env, cr_key = key,
                   cr_data = Some content, cr_revision = 0\<rparr>)))"

section \<open>What a compiled collection satisfies\<close>

definition field_compiled :: "scalar_lib \<Rightarrow> field_definition \<Rightarrow> bool" where
  "field_compiled lib f \<longleftrightarrow>
     is_identifier (fd_name f) \<and> \<not> blank (fd_display_name f) \<and> 0 \<le> fd_display_order f \<and>
     (\<forall>s. fd_type f \<noteq> FieldTypeOther s) \<and> rules_compiled (fd_rules f) \<and>
     (\<forall>v. fd_default f = Some v \<longrightarrow>
        (\<exists>raw. canonicalize_scalar lib (fd_type f) raw = Inr v) \<and>
        (\<forall>r \<in> set (fd_rules f). satisfies_rule lib (fd_type f) v r))"

definition collection_compiled :: "scalar_lib \<Rightarrow> collection_definition \<Rightarrow> bool" where
  "collection_compiled lib d \<longleftrightarrow>
     is_identifier (cd_name d) \<and> cd_fields d \<noteq> [] \<and> 0 < cd_schema_version d \<and>
     distinct (map fd_name (cd_fields d)) \<and> distinct (map fd_display_order (cd_fields d)) \<and>
     (\<forall>f \<in> set (cd_fields d). field_compiled lib f) \<and>
     cd_fields_by_name d = index_fields (cd_fields d) \<and>
     cd_key_fields d \<noteq> [] \<and> distinct (cd_key_fields d) \<and>
     (\<forall>name \<in> set (cd_key_fields d).
        \<exists>f \<in> set (cd_fields d). fd_name f = name \<and> \<not> fd_sensitive f)"

lemma check_value_Inr [go_results]:
  "check_value lib ft rules v = Inr u \<longleftrightarrow> (\<forall>r \<in> set rules. satisfies_rule lib ft v r)"
  by (auto simp: check_value_def validate_None_iff [symmetric] split: option.splits)

lemma index_fields_lookup:
  assumes "distinct (map fd_name fs)"
  shows "fmlookup (index_fields fs) name = Some f \<longleftrightarrow> f \<in> set fs \<and> fd_name f = name"
proof -
  have "distinct (map fst (map (\<lambda>f. (fd_name f, f)) fs))" using assms by (simp add: comp_def)
  then have "map_of (map (\<lambda>f. (fd_name f, f)) fs) name = Some f \<longleftrightarrow> (name, f) \<in> set (map (\<lambda>f. (fd_name f, f)) fs)"
    by (rule map_of_eq_Some_iff)
  then show ?thesis by (auto simp: index_fields_def fmap_of_list.rep_eq)
qed

lemma compile_field_step:
  assumes "compile_field lib acc f = Inr acc'"
    and "distinct (map fd_name acc) \<and> distinct (map fd_display_order acc) \<and> (\<forall>g \<in> set acc. field_compiled lib g)"
  shows "distinct (map fd_name acc') \<and> distinct (map fd_display_order acc') \<and> (\<forall>g \<in> set acc'. field_compiled lib g)"
proof -
  from assms(1) obtain dflt rules where *:
    "acc' = acc @ [f\<lparr>fd_name := trim_space (fd_name f), fd_default := dflt, fd_rules := rules\<rparr>]"
    "is_identifier (trim_space (fd_name f))" "\<not> blank (fd_display_name f)" "0 \<le> fd_display_order f"
    "trim_space (fd_name f) \<notin> fd_name ` set acc" "fd_display_order f \<notin> fd_display_order ` set acc"
    "is_ok (canonicalize_scalar lib (fd_type f) (zero_fixture (fd_type f)))"
    "compile_default lib (fd_type f) (fd_default f) = Inr dflt"
    "compile_validation_rules lib (fd_type f) (fd_required f) (fd_rules f) = Inr rules"
    "(case dflt of None \<Rightarrow> Inr () | Some v \<Rightarrow> check_value lib (fd_type f) rules v) = Inr ()"
    by (auto simp: compile_field_def Let_def rbind_Inr_iff is_ok_iff split: if_splits)
  have "fd_type f \<noteq> FieldTypeOther s" for s
    using *(7) by (auto simp: canonicalize_scalar_def)
  moreover have "\<exists>raw. canonicalize_scalar lib (fd_type f) raw = Inr v" if "dflt = Some v" for v
    using *(8) that by (auto simp: compile_default_def rbind_Inr_iff split: option.splits)
  moreover have "\<forall>r \<in> set rules. satisfies_rule lib (fd_type f) v r" if "dflt = Some v" for v
    using *(10) that by (simp add: check_value_Inr)
  ultimately have "field_compiled lib (f\<lparr>fd_name := trim_space (fd_name f), fd_default := dflt, fd_rules := rules\<rparr>)"
    using *(2,3,4,9) compile_validation_rules_compiled by (auto simp: field_compiled_def)
  with assms(2) *(1,5,6) show ?thesis by auto
qed

lemma compile_field_mono: "compile_field lib acc f = Inr acc' \<Longrightarrow> acc' \<noteq> []"
  by (auto simp: compile_field_def Let_def rbind_Inr_iff split: if_splits)

lemma compile_key_field_Inr:
  "compile_key_field by_name seen raw = Inr keys \<longleftrightarrow>
     (\<exists>f. fmlookup by_name (trim_space raw) = Some f \<and> \<not> fd_sensitive f) \<and>
     trim_space raw \<notin> set seen \<and> keys = seen @ [trim_space raw]"
  by (auto simp: compile_key_field_def Let_def split: option.splits)

lemma compile_key_fields_Inr:
  assumes "rfold (compile_key_field by_name) seen names = Inr keys" "distinct seen"
    and "\<forall>k \<in> set seen. \<exists>f. fmlookup by_name k = Some f \<and> \<not> fd_sensitive f"
  shows "distinct keys \<and> (\<forall>k \<in> set keys. \<exists>f. fmlookup by_name k = Some f \<and> \<not> fd_sensitive f) \<and>
    keys = seen @ map trim_space names"
  using assms
proof (induction names arbitrary: seen)
  case (Cons raw names)
  from Cons.prems(1) obtain s' where s': "compile_key_field by_name seen raw = Inr s'"
    "rfold (compile_key_field by_name) s' names = Inr keys" by (auto simp: rbind_Inr_iff)
  from s'(1) have *: "s' = seen @ [trim_space raw]" "trim_space raw \<notin> set seen"
    "\<exists>f. fmlookup by_name (trim_space raw) = Some f \<and> \<not> fd_sensitive f"
    by (simp_all add: compile_key_field_Inr)
  from * Cons.prems have "distinct s'" "\<forall>k \<in> set s'. \<exists>f. fmlookup by_name k = Some f \<and> \<not> fd_sensitive f"
    by auto
  with s'(2) Cons.IH have ih: "distinct keys \<and>
      (\<forall>k \<in> set keys. \<exists>f. fmlookup by_name k = Some f \<and> \<not> fd_sensitive f) \<and>
      keys = s' @ map trim_space names" by blast
  then have "keys = seen @ map trim_space (raw # names)" using *(1) by simp
  with ih show ?case by blast
qed simp

lemma compile_collection_fields:
  assumes "rfold (compile_field lib) [] specs = Inr fs" "specs \<noteq> []"
  shows "distinct (map fd_name fs) \<and> distinct (map fd_display_order fs) \<and>
    (\<forall>f \<in> set fs. field_compiled lib f) \<and> fs \<noteq> []"
proof -
  have "distinct (map fd_name fs) \<and> distinct (map fd_display_order fs) \<and> (\<forall>g \<in> set fs. field_compiled lib g)"
    by (rule rfold_invariant [OF assms(1)], simp, rule compile_field_step)
  moreover have "fs \<noteq> []"
  proof -
    obtain xs x where "specs = xs @ [x]" using assms(2) by (metis rev_exhaust)
    with assms(1) show ?thesis using compile_field_mono by (auto simp: rfold_append rbind_Inr_iff)
  qed
  ultimately show ?thesis by blast
qed

lemma compile_collection_compiled:
  assumes "compile_collection lib spec = Inr d"
  shows "collection_compiled lib d"
proof -
  from assms obtain fs keys where *:
    "is_identifier (trim_space (cs_name spec))" "cs_fields spec \<noteq> []" "cs_key_fields spec \<noteq> []"
    "0 < cs_schema_version spec"
    "rfold (compile_field lib) [] (cs_fields spec) = Inr fs"
    "rfold (compile_key_field (index_fields fs)) [] (cs_key_fields spec) = Inr keys"
    "d = \<lparr>cd_name = trim_space (cs_name spec), cd_description = cs_description spec, cd_fields = fs,
       cd_fields_by_name = index_fields fs, cd_key_fields = keys,
       cd_sdk_delivery = cs_sdk_delivery spec, cd_schema_version = cs_schema_version spec\<rparr>"
    by (auto simp: compile_collection_def Let_def rbind_Inr_iff not_le split: if_splits)
  note fs = compile_collection_fields [OF *(5,2)]
  have "distinct keys \<and>
      (\<forall>k \<in> set keys. \<exists>f. fmlookup (index_fields fs) k = Some f \<and> \<not> fd_sensitive f) \<and>
      keys = [] @ map trim_space (cs_key_fields spec)"
    by (rule compile_key_fields_Inr [OF *(6)]) simp_all
  then have keys:
    "distinct keys" "\<forall>k \<in> set keys. \<exists>f. fmlookup (index_fields fs) k = Some f \<and> \<not> fd_sensitive f"
    "keys = map trim_space (cs_key_fields spec)"
    by auto
  then have "keys \<noteq> []" using *(3) by simp
  with * fs keys show ?thesis
    by (auto simp: collection_compiled_def index_fields_lookup)
qed

section \<open>Properties of records\<close>

lemma add_record_field_cases:
  assumes "add_record_field lib input acc f = Inr acc'"
  shows "acc' = acc \<and> fmlookup input (fd_name f) = None \<and> fd_default f = None \<and> \<not> fd_required f \<or>
    (\<exists>v c. (fmlookup input (fd_name f) = Some v \<or> fmlookup input (fd_name f) = None \<and> fd_default f = Some v) \<and>
       canonicalize_scalar lib (fd_type f) v = Inr c \<and>
       (\<forall>r \<in> set (fd_rules f). satisfies_rule lib (fd_type f) c r) \<and> acc' = fmupd (fd_name f) c acc)"
  using assms
  by (auto simp: add_record_field_def rbind_Inr_iff check_value_Inr split: option.splits if_splits)

text \<open>What the loop leaves at the name of a field it has seen.\<close>

definition field_stored :: "scalar_lib \<Rightarrow> data \<Rightarrow> data \<Rightarrow> field_definition \<Rightarrow> bool" where
  "field_stored lib input content f \<longleftrightarrow>
     (case fmlookup content (fd_name f) of
        None \<Rightarrow> fmlookup input (fd_name f) = None \<and> fd_default f = None \<and> \<not> fd_required f
      | Some c \<Rightarrow>
          (\<exists>v. (fmlookup input (fd_name f) = Some v \<or>
                fmlookup input (fd_name f) = None \<and> fd_default f = Some v) \<and>
               canonicalize_scalar lib (fd_type f) v = Inr c) \<and>
          (\<forall>r \<in> set (fd_rules f). satisfies_rule lib (fd_type f) c r))"

lemma add_record_fields:
  assumes "rfold (add_record_field lib input) acc fs = Inr content" "distinct (map fd_name fs)"
    and "\<forall>f \<in> set fs. fmlookup acc (fd_name f) = None"
  shows "(\<forall>f \<in> set fs. field_stored lib input content f) \<and>
    (\<forall>k. k \<notin> fd_name ` set fs \<longrightarrow> fmlookup content k = fmlookup acc k)"
  using assms
proof (induction fs arbitrary: acc)
  case (Cons f fs)
  from Cons.prems(1) obtain acc' where acc': "add_record_field lib input acc f = Inr acc'"
    "rfold (add_record_field lib input) acc' fs = Inr content" by (auto simp: rbind_Inr_iff)
  have other: "fmlookup acc' k = fmlookup acc k" if "k \<noteq> fd_name f" for k
    using add_record_field_cases [OF acc'(1)] that by auto
  have "\<forall>g \<in> set fs. fmlookup acc' (fd_name g) = None"
    using Cons.prems(2,3) other by (metis distinct.simps(2) image_eqI list.set_intros(2) list.simps(9) set_map)
  with Cons.IH [OF acc'(2)] Cons.prems(2)
  have ih: "\<forall>g \<in> set fs. field_stored lib input content g"
    "\<forall>k. k \<notin> fd_name ` set fs \<longrightarrow> fmlookup content k = fmlookup acc' k" by simp_all
  have "fd_name f \<notin> fd_name ` set fs" using Cons.prems(2) by simp
  with ih(2) have at: "fmlookup content (fd_name f) = fmlookup acc' (fd_name f)" by blast
  have "field_stored lib input content f"
    using add_record_field_cases [OF acc'(1)] Cons.prems(3) at
    by (auto simp: field_stored_def)
  with ih other show ?case by auto
qed simp

text \<open>Every timestamp of a record has a text that parses again.\<close>

definition times_return :: "scalar_lib \<Rightarrow> collection_definition \<Rightarrow> data \<Rightarrow> bool" where
  "times_return lib d content \<longleftrightarrow>
     list_all (\<lambda>f. pred_option (text_returns lib (fd_type f)) (fmlookup content (fd_name f))) (cd_fields d)"

lemma add_record_field_replay:
  assumes "lib_canonical lib" "field_stored lib input content f"
    and "pred_option (text_returns lib (fd_type f)) (fmlookup content (fd_name f))"
  shows "add_record_field lib content acc f =
    Inr (case fmlookup content (fd_name f) of None \<Rightarrow> acc | Some c \<Rightarrow> fmupd (fd_name f) c acc)"
proof (cases "fmlookup content (fd_name f)")
  case None
  with assms(2) show ?thesis by (auto simp: field_stored_def add_record_field_def)
next
  case (Some c)
  with assms(2) obtain v where v: "canonicalize_scalar lib (fd_type f) v = Inr c"
    and r: "\<forall>r \<in> set (fd_rules f). satisfies_rule lib (fd_type f) c r"
    by (auto simp: field_stored_def)
  then have "canonicalize_scalar lib (fd_type f) c = Inr c"
    using canonicalize_scalar_fixpoint [OF assms(1)] assms(3) Some by auto
  moreover have "check_value lib (fd_type f) (fd_rules f) c = Inr ()" using r by (simp add: check_value_Inr)
  ultimately show ?thesis using Some by (simp add: add_record_field_def)
qed

lemma add_record_fields_replay:
  assumes "lib_canonical lib" "\<forall>f \<in> set fs. field_stored lib input content f"
    and "list_all (\<lambda>f. pred_option (text_returns lib (fd_type f)) (fmlookup content (fd_name f))) fs"
  shows "\<exists>c. rfold (add_record_field lib content) acc fs = Inr c \<and>
    (\<forall>k. fmlookup c k =
       (if k \<in> fd_name ` set fs \<and> fmlookup content k \<noteq> None then fmlookup content k else fmlookup acc k))"
  using assms(2,3)
proof (induction fs arbitrary: acc)
  case (Cons f fs)
  let ?acc = "case fmlookup content (fd_name f) of None \<Rightarrow> acc | Some c \<Rightarrow> fmupd (fd_name f) c acc"
  have "add_record_field lib content acc f = Inr ?acc"
    using add_record_field_replay [OF assms(1), of input content f acc] Cons.prems by simp
  moreover obtain c where "rfold (add_record_field lib content) ?acc fs = Inr c"
    "\<forall>k. fmlookup c k =
       (if k \<in> fd_name ` set fs \<and> fmlookup content k \<noteq> None then fmlookup content k else fmlookup ?acc k)"
    using Cons.IH [of ?acc] Cons.prems by auto
  ultimately show ?case by (intro exI [of _ c]) (auto split: option.splits)
qed simp

lemma new_record_Inr:
  assumes "new_record lib d env input = Inr r"
  obtains content where
    "cr_data r = Some content" "cr_environment r = trim_space env" "cr_collection r = cd_name d"
    "cr_revision r = 0" "trim_space env \<noteq> []" "length (trim_space env) \<le> 64"
    "rfold (add_record_field lib input) fmempty (cd_fields d) = Inr content"
    "encode_key (cd_key_fields d) content = Inr (cr_key r)"
  using assms
  by (auto simp: new_record_def Let_def rbind_Inr_iff not_less split: if_splits)

lemma new_record_stored:
  assumes "collection_compiled lib d" "new_record lib d env input = Inr r" "cr_data r = Some content"
  shows "\<forall>f \<in> set (cd_fields d). field_stored lib input content f"
    and "\<forall>k. k \<notin> fd_name ` set (cd_fields d) \<longrightarrow> fmlookup content k = None"
proof -
  obtain content' where c: "cr_data r = Some content'"
    "rfold (add_record_field lib input) fmempty (cd_fields d) = Inr content'"
    using new_record_Inr [OF assms(2)] by metis
  then have "content' = content" using assms(3) by simp
  then show "\<forall>f \<in> set (cd_fields d). field_stored lib input content f"
    "\<forall>k. k \<notin> fd_name ` set (cd_fields d) \<longrightarrow> fmlookup content k = None"
    using add_record_fields [OF c(2)] assms(1) by (simp_all add: collection_compiled_def)
qed

lemma new_record_replay:
  assumes "lib_canonical lib" "collection_compiled lib d" "new_record lib d env input = Inr r"
    and "times_return lib d (deref_map (cr_data r))"
  shows "new_record lib d (cr_environment r) (deref_map (cr_data r)) = Inr r"
proof -
  obtain content where c: "cr_data r = Some content" "cr_environment r = trim_space env"
    "cr_collection r = cd_name d" "cr_revision r = 0" "trim_space env \<noteq> []" "length (trim_space env) \<le> 64"
    "encode_key (cd_key_fields d) content = Inr (cr_key r)"
    using new_record_Inr [OF assms(3)] by metis
  note stored = new_record_stored [OF assms(2,3) c(1)]
  obtain c' where c': "rfold (add_record_field lib content) fmempty (cd_fields d) = Inr c'"
    "\<forall>k. fmlookup c' k =
       (if k \<in> fd_name ` set (cd_fields d) \<and> fmlookup content k \<noteq> None then fmlookup content k else None)"
    using add_record_fields_replay [OF assms(1) stored(1), of fmempty] assms(4) c(1) by (auto simp: times_return_def)
  have "fmlookup c' k = fmlookup content k" for k
    using c'(2) stored(2) by (cases "k \<in> fd_name ` set (cd_fields d)") auto
  then have "c' = content" by (rule fmap_eqI)
  have "k |\<in>| fmdom (cd_fields_by_name d)" if "k |\<in>| fmdom content" for k
  proof -
    from that have "k \<in> fd_name ` set (cd_fields d)" using stored(2) by (metis fmlookup_dom_iff option.distinct(1))
    then obtain f where "f \<in> set (cd_fields d)" "fd_name f = k" by auto
    then have "fmlookup (cd_fields_by_name d) k = Some f"
      using assms(2) by (auto simp: collection_compiled_def index_fields_lookup)
    then show ?thesis by (rule fmdomI)
  qed
  then have "list_all (\<lambda>name. name |\<in>| fmdom (cd_fields_by_name d)) (sorted_keys content)"
    by (simp add: list_all_iff)
  with c c'(1) \<open>c' = content\<close> show ?thesis
    by (cases r) (simp add: new_record_def)
qed

end
