(* ===== verification/Catalog_Properties.thy ===== *)
theory Catalog_Properties
  imports Catalog_Collection
begin

text \<open>
  The claims about the catalog (\<open>internal/catalog/domain\<close>): canonical scalars, record keys,
  compiled collections, canonical records and the base digest. A witness applies each claim
  that has hypotheses to a small collection.
\<close>

section \<open>A sample collection for the witnesses\<close>

text \<open>Codecs that accept every text unchanged; they meet \<open>lib_canonical\<close>.\<close>

definition sample_lib :: scalar_lib where
  "sample_lib =
     \<lparr>lib_float = Some, lib_time = Some, lib_compare_float = compare_string,
      lib_compare_time = compare_string, lib_regexp_compiles = (\<lambda>_. True),
      lib_regexp_match = (\<lambda>p s. p = s)\<rparr>"

definition sample_field :: "string \<Rightarrow> field_type \<Rightarrow> bool \<Rightarrow> int \<Rightarrow> field_definition" where
  "sample_field name ft required position =
     \<lparr>fd_name = name, fd_display_name = name, fd_type = ft, fd_required = required, fd_sensitive = False,
      fd_default = None, fd_description = [], fd_display_order = position, fd_rules = []\<rparr>"

definition sample_spec :: collection_spec where
  "sample_spec =
     \<lparr>cs_name = '' limits '', cs_description = [],
      cs_fields = [sample_field ''code'' FieldTypeString True 0, sample_field ''amount'' FieldTypeInt64 False 1],
      cs_key_fields = [''code''], cs_sdk_delivery = True, cs_schema_version = 1\<rparr>"

definition sample_collection :: collection_definition where
  "sample_collection =
     (case compile_collection sample_lib sample_spec of Inr d \<Rightarrow> d | Inl _ \<Rightarrow>
        \<lparr>cd_name = [], cd_description = [], cd_fields = [], cd_fields_by_name = fmempty, cd_key_fields = [],
         cd_sdk_delivery = False, cd_schema_version = 0\<rparr>)"

definition sample_input :: data where
  "sample_input = fmap_of_list [(''code'', ''usd''), (''amount'', ''+7'')]"

lemma sample_lib_canonical: "lib_canonical sample_lib"
  by (simp add: lib_canonical_def sample_lib_def)

lemma sample_compiles: "compile_collection sample_lib sample_spec = Inr sample_collection"
proof -
  have "is_ok (compile_collection sample_lib sample_spec)" by code_simp
  then show ?thesis by (auto simp: sample_collection_def is_ok_iff)
qed

lemma sample_record_exists: "is_ok (new_record sample_lib sample_collection '' prod'' sample_input)"
  by code_simp

section \<open>Canonical values and keys\<close>

text \<open>
  The canonical text of a scalar is a fixed point: canonicalising a value a second time, with
  any field type, returns it unchanged, unless it is a timestamp whose canonical text does not parse.
\<close>

lemma canonical_scalar_stable:
  assumes "lib_canonical lib" "canonicalize_scalar lib ft input = Inr c" "text_returns lib ft c"
  shows "canonicalize_scalar lib ft c = Inr c"
  using canonicalize_scalar_fixpoint [OF assms] .

text \<open>
  A record key determines the values of the key fields: two records of valid UTF-8 values
  with the same encoded key agree on every key field.
\<close>

lemma encode_key_determines_values:
  assumes "encode_key names d = Inr k" "encode_key names e = Inr k"
    and "\<forall>n \<in> set names. valid_utf8 (map_read d n) \<and> valid_utf8 (map_read e n)"
  shows "\<forall>n \<in> set names. n |\<in>| fmdom d \<and> fmlookup d n = fmlookup e n"
proof -
  have dom: "\<forall>n \<in> set names. n |\<in>| fmdom d \<and> n |\<in>| fmdom e" using assms(1,2) by (simp add: encode_key_Inr)
  have "json_print (json_strings (map (map_read d) names)) = json_print (json_strings (map (map_read e) names))"
    using assms(1,2) raw_url_base64_inj by (simp add: encode_key_Inr)
  moreover have "wf_json (json_strings (map (map_read d) names))" "wf_json (json_strings (map (map_read e) names))"
    using assms(3) by (simp_all add: wf_json_strings list_all_iff)
  ultimately have "map (map_read d) names = map (map_read e) names" using json_print_inj by fastforce
  then have same: "\<forall>n \<in> set names. map_read d n = map_read e n" by simp
  have "fmlookup d n = fmlookup e n" if "n \<in> set names" for n
  proof -
    from dom that obtain v w where "fmlookup d n = Some v" "fmlookup e n = Some w" by (auto simp: fmlookup_dom_iff)
    then show ?thesis using same that by (auto simp: map_read_def)
  qed
  then show ?thesis using dom by blast
qed

section \<open>Collections and records\<close>

text \<open>
  Every accepted collection specification compiles to a well-formed definition: distinct
  identifiers and display positions, compiled rules, canonical defaults that satisfy their
  rules, and distinct declared non-sensitive key fields.
\<close>

lemma compile_collection_well_formed:
  assumes "compile_collection lib spec = Inr d"
  shows "collection_compiled lib d"
  using compile_collection_compiled [OF assms] .

text \<open>
  A new record holds, for every declared field and nothing else, the canonical form of the
  given value or of the default; the value satisfies every rule of the field, and only an
  optional field without value and default is absent.
\<close>

lemma new_record_content:
  assumes "compile_collection lib spec = Inr d" "new_record lib d environment input = Inr r"
  shows "\<exists>content. cr_data r = Some content \<and>
    (\<forall>f \<in> set (cd_fields d). field_stored lib input content f) \<and>
    (\<forall>k. k \<notin> fd_name ` set (cd_fields d) \<longrightarrow> fmlookup content k = None) \<and>
    cr_collection r = cd_name d \<and> cr_environment r = trim_space environment \<and> cr_environment r \<noteq> []"
proof -
  obtain content where "cr_data r = Some content" "cr_collection r = cd_name d"
    "cr_environment r = trim_space environment" "trim_space environment \<noteq> []"
    using new_record_Inr [OF assms(2)] by metis
  then show ?thesis
    using new_record_stored [OF compile_collection_compiled [OF assms(1)] assms(2)] by auto
qed

text \<open>
  A canonical record is reproduced: building a record again from the data and the environment
  of a record returns the same record, key included, if the texts of its timestamps parse.
\<close>

lemma new_record_idempotent:
  assumes "lib_canonical lib" "compile_collection lib spec = Inr d"
    and "new_record lib d environment input = Inr r" "times_return lib d (deref_map (cr_data r))"
  shows "new_record lib d (cr_environment r) (deref_map (cr_data r)) = Inr r"
  using new_record_replay [OF assms(1) compile_collection_compiled [OF assms(2)] assms(3,4)] .

text \<open>
  A record with a timestamp whose canonical text does not parse is not accepted again: neither the
  page that writes it back nor a snapshot that is built again from its own records gets it through.
\<close>

lemma unparsable_timestamp_is_refused:
  assumes "collection_compiled lib d" "\<not> times_return lib d content"
  shows "\<not> is_ok (new_record lib d environment content)"
proof
  assume "is_ok (new_record lib d environment content)"
  then obtain r content' where r: "new_record lib d environment content = Inr r" "cr_data r = Some content'"
    using new_record_Inr by (metis is_ok_iff)
  from new_record_stored(1) [OF assms(1) r] have stored: "\<forall>f \<in> set (cd_fields d). field_stored lib content content' f" .
  from assms(2) obtain f v where "f \<in> set (cd_fields d)" "fd_type f = FieldTypeTimestamp"
    "fmlookup content (fd_name f) = Some v" "lib_time lib v = None"
    by (auto simp: times_return_def list_all_iff pred_option_def text_returns_def)
  with stored show False
    by (fastforce simp: field_stored_def canonicalize_scalar_def from_option_Inr split: option.splits)
qed

lemma add_key_fields_content:
  assumes "\<forall>n \<in> set names. \<exists>f v. fmlookup (cd_fields_by_name d) n = Some f \<and> fmlookup input n = Some v \<and>
      canonicalize_scalar lib (fd_type f) v = Inr (map_read content n) \<and> n |\<in>| fmdom content"
  shows "\<exists>m. rfold (add_key_field lib d input) acc names = Inr m \<and>
    (\<forall>n. fmlookup m n = (if n \<in> set names then fmlookup content n else fmlookup acc n))"
  using assms
proof (induction names arbitrary: acc)
  case (Cons n names)
  then obtain f v where "fmlookup (cd_fields_by_name d) n = Some f" "fmlookup input n = Some v"
    "canonicalize_scalar lib (fd_type f) v = Inr (map_read content n)" "n |\<in>| fmdom content" by auto
  moreover from this(4) have "fmlookup content n = Some (map_read content n)"
    by (auto simp: map_read_def fmlookup_dom_iff)
  ultimately show ?case using Cons.IH [of "fmupd n (map_read content n) acc"] Cons.prems
    by (auto simp: add_key_field_def)
qed simp

text \<open>
  The key that a client computes from its own input with \<open>CanonicalRecordKey\<close> is the key
  of the record \<open>NewRecord\<close> builds from that input, whenever the input gives every key field.
\<close>

lemma record_key_agrees:
  assumes "compile_collection lib spec = Inr d" "new_record lib d environment input = Inr r"
    and "\<forall>n \<in> set (cd_key_fields d). n |\<in>| fmdom input"
  shows "canonical_record_key lib d input = Inr (cr_key r)"
proof -
  note compiled = compile_collection_compiled [OF assms(1)]
  obtain content where c: "cr_data r = Some content" "encode_key (cd_key_fields d) content = Inr (cr_key r)"
    using new_record_Inr [OF assms(2)] by metis
  note stored = new_record_stored(1) [OF compiled assms(2) c(1)]
  have "\<exists>f v. fmlookup (cd_fields_by_name d) n = Some f \<and> fmlookup input n = Some v \<and>
      canonicalize_scalar lib (fd_type f) v = Inr (map_read content n) \<and> n |\<in>| fmdom content"
    if n: "n \<in> set (cd_key_fields d)" for n
  proof -
    from n compiled obtain f where f: "f \<in> set (cd_fields d)" "fd_name f = n"
      by (auto simp: collection_compiled_def)
    then have "fmlookup (cd_fields_by_name d) n = Some f"
      using compiled by (auto simp: collection_compiled_def index_fields_lookup)
    moreover obtain v where "fmlookup input n = Some v" using assms(3) n by (auto simp: fmlookup_dom_iff)
    ultimately show ?thesis using stored f
      by (fastforce simp: field_stored_def map_read_def fmlookup_dom_iff split: option.splits)
  qed
  then obtain m where m: "rfold (add_key_field lib d input) fmempty (cd_key_fields d) = Inr m"
    "\<forall>n \<in> set (cd_key_fields d). fmlookup m n = fmlookup content n"
    using add_key_fields_content [of "cd_key_fields d" d input lib content fmempty] by auto
  then have "map (map_read m) (cd_key_fields d) = map (map_read content) (cd_key_fields d)"
    by (simp add: map_read_def)
  moreover have "\<forall>n \<in> set (cd_key_fields d). n |\<in>| fmdom m"
    using m(2) c(2) by (auto simp: encode_key_Inr fmlookup_dom_iff)
  moreover have "cd_key_fields d \<noteq> []"
    "cr_key r = raw_url_base64 (json_print (json_strings (map (map_read content) (cd_key_fields d))))"
    using c(2) by (simp_all add: encode_key_Inr)
  ultimately show ?thesis using m(1)
    by (simp only: canonical_record_key_def rbind_simps encode_key_Inr) simp
qed

section \<open>The base digest\<close>

text \<open>
  The base digest does not depend on the order of the records, nor does the error that it
  reports for records without a key or with equal keys.
\<close>

lemma base_digest_order_independent:
  assumes "mset xs = mset ys"
  shows "compute_base_digest xs = compute_base_digest ys"
proof (cases "distinct (map cr_key xs)")
  case True
  then show ?thesis using base_digest.payload_permutation [OF assms] by (simp add: compute_base_digest_def)
next
  case False
  have keys: "sort (map cr_key xs) = sort (map cr_key ys)" using assms by (rule sort_map_cong)
  have dup: "adjacent_duplicate fst (insertion_sort fst (map digest_content zs)) =
      adjacent_duplicate id (sort (map cr_key zs))" for zs
  proof -
    have "map fst (insertion_sort fst (map digest_content zs)) = sort (map cr_key zs)"
      by (simp add: sort_digest_contents comp_def digest_content_def map_key_sort_key)
    then show ?thesis by (metis adjacent_duplicate_map)
  qed
  have "adjacent_duplicate id (sort (map cr_key xs)) \<noteq> None"
    using False by (metis adjacent_duplicate_None distinct_sort list.map_id sorted_sort)
  then obtain k where k: "adjacent_duplicate id (sort (map cr_key xs)) = Some k" by blast
  have "set xs = set ys" using assms by (rule mset_eq_setD)
  then show ?thesis
    using k by (simp add: compute_base_digest_def base_digest_payload_def dup keys [symmetric] Let_def)
qed

text \<open>
  Equal base digests mean equal content: two sets of records with valid UTF-8 texts that
  have the same digest hold the same keys with the same data, unless SHA-256 collides on the
  two payloads.
\<close>

lemma base_digest_determines_records:
  assumes "compute_base_digest xs = Inr dg" "compute_base_digest ys = Inr dg"
    and "list_all valid_record_utf8 xs" "list_all valid_record_utf8 ys"
    and "\<forall>p q. base_digest_payload xs = Inr p \<longrightarrow> base_digest_payload ys = Inr q \<longrightarrow>
      sha256 (json_print p) = sha256 (json_print q) \<longrightarrow> json_print p = json_print q"
  shows "mset (map (\<lambda>r. (cr_key r, cr_data r)) xs) = mset (map (\<lambda>r. (cr_key r, cr_data r)) ys)"
proof -
  from assms(1,2) obtain p q where pq: "base_digest_payload xs = Inr p" "base_digest_payload ys = Inr q"
    "sha256_digest (json_print p) = sha256_digest (json_print q)"
    by (auto simp: compute_base_digest_def rbind_Inr_iff)
  have "digest_content = (\<lambda>r. (cr_key r, cr_data r))" by (simp add: fun_eq_iff digest_content_def)
  then show ?thesis
    using base_digest.digest_determines_contents [OF pq(1,2) assms(3,4) _ pq(3)] assms(5) pq(1,2) by simp
qed

end
