(* ===== verification/Overlay_Rollout.thy ===== *)
theory Overlay_Rollout
  imports Go_Strings Go_Sha256 "HOL-Library.Multiset"
begin

text \<open>
  Percentage rollouts: \<open>internal/overlay/domain/rollout.go\<close> and the range normalisation of
  \<open>internal/overlay/domain/digest.go\<close> (copied in \<open>internal/distribution/overlay\<close>). A bucket
  number is an \<open>int32\<close> in the code; every accepted one lies in 0..99, so it is an \<open>int\<close> here.
\<close>

datatype overlay_error =
    ErrInvalidRollout
  | ErrInvariant
  | ErrInvalidSpec
  | ErrBucketRanges

record bucket_range =
  br_start :: int
  br_end :: int

section \<open>Client buckets\<close>

definition canonical_client_id :: "string \<Rightarrow> bool" where
  "canonical_client_id s \<longleftrightarrow> s \<noteq> [] \<and> s = trim_space s \<and> CHR 0x00 \<notin> set s"

definition bucket_payload :: "string \<Rightarrow> string \<Rightarrow> string" where
  "bucket_payload consumer client = consumer @ [CHR 0x00] @ client"

definition client_bucket :: "string \<Rightarrow> string \<Rightarrow> overlay_error + int" where
  "client_bucket consumer client =
     (if \<not> canonical_client_id consumer \<or> \<not> canonical_client_id client then Inl ErrInvalidRollout
      else Inr (uint (sum_prefix64 (sha256 (bucket_payload consumer client)) mod 100)))"

lemma bucket_payload_inj:
  assumes "CHR 0x00 \<notin> set a" "CHR 0x00 \<notin> set b" "bucket_payload a c = bucket_payload b d"
  shows "a = b \<and> c = d"
proof -
  have *: "takeWhile (\<lambda>x. x \<noteq> CHR 0x00) (bucket_payload a c) = a" if "CHR 0x00 \<notin> set a" for a c
    using that by (simp add: bucket_payload_def takeWhile_tail)
       (metis (mono_tags, lifting) takeWhile_eq_all_conv)
  from assms have "a = b" using * by metis
  with assms(3) show ?thesis by (simp add: bucket_payload_def)
qed

lemma client_bucket_range:
  "client_bucket consumer client = Inr b \<Longrightarrow> 0 \<le> b \<and> b < 100"
proof -
  assume "client_bucket consumer client = Inr b"
  then obtain w :: u64 where "b = uint (w mod 100)" by (auto simp: client_bucket_def split: if_splits)
  moreover have "uint (w mod 100) = uint w mod 100" by (simp add: uint_mod_distrib)
  ultimately show ?thesis by simp
qed

section \<open>Ranges\<close>

definition range_key :: "bucket_range \<Rightarrow> int \<times> int" where
  "range_key r = (br_start r, br_end r)"

definition valid_range :: "bucket_range \<Rightarrow> bool" where
  "valid_range r \<longleftrightarrow> \<not> (br_start r < 0 \<or> br_end r > 99 \<or> br_start r > br_end r)"

text \<open>The validity loop; the first argument is the end of the range before.\<close>

fun check_ranges :: "int option \<Rightarrow> bucket_range list \<Rightarrow> bool" where
  "check_ranges prev [] \<longleftrightarrow> True"
| "check_ranges prev (r # rs) \<longleftrightarrow>
     valid_range r \<and> (case prev of None \<Rightarrow> True | Some e \<Rightarrow> \<not> e \<ge> br_start r) \<and>
     check_ranges (Some (br_end r)) rs"

definition normalize_ranges :: "bucket_range list \<Rightarrow> overlay_error + bucket_range list" where
  "normalize_ranges ranges =
     (let ordered = sort_key range_key ranges
      in if check_ranges None ordered then Inr ordered else Inl ErrBucketRanges)"

definition canonical_ranges :: "bucket_range list \<Rightarrow> overlay_error + int list list" where
  "canonical_ranges ranges =
     rbind (normalize_ranges ranges) (\<lambda>ordered. Inr (map (\<lambda>r. [br_start r, br_end r]) ordered))"

definition ranges_overlap :: "bucket_range \<Rightarrow> bucket_range \<Rightarrow> bool" where
  "ranges_overlap existing added \<longleftrightarrow>
     br_start existing \<le> br_end added \<and> br_start added \<le> br_end existing"

text \<open>The merging loop; the accumulator is \<open>merged\<close> with its last range first.\<close>

definition merge_range :: "bucket_range list \<Rightarrow> bucket_range \<Rightarrow> bucket_range list" where
  "merge_range merged candidate =
     (case merged of
        [] \<Rightarrow> [candidate]
      | l # ls \<Rightarrow> if br_end l + 1 = br_start candidate then l\<lparr>br_end := br_end candidate\<rparr> # ls
          else candidate # l # ls)"

definition expand_rollout_ranges ::
  "bucket_range list \<Rightarrow> bucket_range list \<Rightarrow> overlay_error + bucket_range list" where
  "expand_rollout_ranges current addition =
     (if addition = [] then Inl ErrInvalidRollout
      else rbind (rerror ErrInvalidRollout (normalize_ranges current)) (\<lambda>cur.
           rbind (rerror ErrInvalidRollout (normalize_ranges addition)) (\<lambda>add.
           if \<exists>e \<in> set cur. \<exists>a \<in> set add. ranges_overlap e a then Inl ErrInvalidRollout
           else rbind (rerror ErrInvalidRollout (normalize_ranges (cur @ add))) (\<lambda>combined.
                Inr (rev (foldl merge_range [] combined))))))"

section \<open>Specification: sets of buckets\<close>

definition buckets :: "bucket_range list \<Rightarrow> int set" where
  "buckets rs = (\<Union>r \<in> set rs. {br_start r .. br_end r})"

definition range_before :: "bucket_range \<Rightarrow> bucket_range \<Rightarrow> bool" where
  "range_before a b \<longleftrightarrow> br_end a < br_start b"

definition range_apart :: "bucket_range \<Rightarrow> bucket_range \<Rightarrow> bool" where
  "range_apart a b \<longleftrightarrow> br_end a + 1 < br_start b"

text \<open>A normal form: valid ranges, each before the next.\<close>

definition normal_ranges :: "bucket_range list \<Rightarrow> bool" where
  "normal_ranges rs \<longleftrightarrow> list_all valid_range rs \<and> sorted_wrt range_before rs"

lemma buckets_simps [simp]:
  "buckets [] = {}"
  "buckets (r # rs) = {br_start r .. br_end r} \<union> buckets rs"
  "buckets (rs @ ss) = buckets rs \<union> buckets ss"
  "buckets (rev rs) = buckets rs"
  "buckets (sort_key k rs) = buckets rs"
  by (auto simp: buckets_def)

lemma check_ranges_iff:
  "check_ranges prev rs \<longleftrightarrow> normal_ranges rs \<and> (\<forall>e. prev = Some e \<longrightarrow> (\<forall>r \<in> set rs. e < br_start r))"
proof (induction prev rs rule: check_ranges.induct)
  case (2 prev r rs)
  have "e < br_start s" if "e < br_start r" "valid_range r" "br_end r < br_start s" for e s
    using that by (simp add: valid_range_def)
  with 2 show ?case
    by (auto simp: normal_ranges_def range_before_def not_le split: option.splits)
qed (simp add: normal_ranges_def)

lemma normal_ranges_sorted: "normal_ranges rs \<Longrightarrow> sorted (map range_key rs)"
proof (induction rs)
  case (Cons r rs)
  have "range_key r \<le> range_key s" if "valid_range r" "range_before r s" for s
    using that by (simp add: range_key_def less_eq_prod_def valid_range_def range_before_def)
  with Cons show ?case by (auto simp: normal_ranges_def)
qed simp

lemma normalize_ranges_Inr:
  "normalize_ranges rs = Inr ns \<longleftrightarrow> normal_ranges ns \<and> ns = sort_key range_key rs"
  by (auto simp: normalize_ranges_def check_ranges_iff Let_def)

lemma normalize_ranges_buckets: "normalize_ranges rs = Inr ns \<Longrightarrow> buckets ns = buckets rs"
  by (auto simp: normalize_ranges_Inr)

lemma normalize_ranges_id: "normal_ranges rs \<Longrightarrow> normalize_ranges rs = Inr rs"
  by (simp add: normalize_ranges_Inr normal_ranges_sorted sort_key_id_if_sorted)

lemma range_key_inj: "range_key a = range_key b \<longleftrightarrow> a = b"
  by (cases a; cases b) (simp add: range_key_def)

text \<open>Normal forms are unique: a permutation of the input has the same one.\<close>

lemma normalize_ranges_permutation:
  assumes "mset rs = mset ss" shows "normalize_ranges rs = normalize_ranges ss"
proof -
  have "sort_key range_key rs = sort_key range_key ss"
  proof -
    have "inj range_key" by (rule injI) (simp add: range_key_inj)
    moreover have "sort (map range_key rs) = sort (map range_key ss)"
      using assms by (metis mset_map sorted_list_of_multiset_mset)
    moreover have "map range_key (sort_key range_key xs) = sort (map range_key xs)" for xs
      by (rule properties_for_sort [symmetric]) simp_all
    ultimately show ?thesis by (metis inj_map_eq_map)
  qed
  then show ?thesis by (simp add: normalize_ranges_def)
qed

text \<open>Two ranges do not overlap when one is before the other.\<close>

lemma not_overlap:
  "valid_range a \<Longrightarrow> valid_range b \<Longrightarrow> \<not> ranges_overlap a b \<longleftrightarrow> range_before a b \<or> range_before b a"
  by (auto simp: ranges_overlap_def range_before_def valid_range_def)

lemma disjoint_iff_not_overlap:
  assumes "list_all valid_range xs" "list_all valid_range ys"
  shows "buckets xs \<inter> buckets ys = {} \<longleftrightarrow> (\<forall>x \<in> set xs. \<forall>y \<in> set ys. \<not> ranges_overlap x y)"
proof
  assume *: "buckets xs \<inter> buckets ys = {}"
  show "\<forall>x \<in> set xs. \<forall>y \<in> set ys. \<not> ranges_overlap x y"
  proof (intro ballI notI)
    fix x y assume xy: "x \<in> set xs" "y \<in> set ys" "ranges_overlap x y"
    let ?b = "max (br_start x) (br_start y)"
    have "?b \<in> {br_start x .. br_end x}" "?b \<in> {br_start y .. br_end y}"
      using xy assms by (auto simp: ranges_overlap_def list_all_iff valid_range_def)
    then have "?b \<in> buckets xs" "?b \<in> buckets ys" using xy by (auto simp: buckets_def simp del: atLeastAtMost_iff)
    with * show False by blast
  qed
next
  assume "\<forall>x \<in> set xs. \<forall>y \<in> set ys. \<not> ranges_overlap x y"
  then show "buckets xs \<inter> buckets ys = {}" by (fastforce simp: buckets_def ranges_overlap_def)
qed

section \<open>Merging\<close>

definition merged_ok :: "bucket_range list \<Rightarrow> bool" where
  "merged_ok rev_merged \<longleftrightarrow> list_all valid_range rev_merged \<and> sorted_wrt (\<lambda>a b. range_apart b a) rev_merged"

lemma merge_range_step:
  assumes "merged_ok acc" "valid_range r" "\<forall>a \<in> set acc. range_before a r"
  shows "merged_ok (merge_range acc r)" "buckets (merge_range acc r) = buckets acc \<union> {br_start r .. br_end r}"
    "\<forall>s. range_before r s \<longrightarrow> (\<forall>a \<in> set acc. range_before a s) \<longrightarrow> (\<forall>a \<in> set (merge_range acc r). range_before a s)"
proof -
  show "merged_ok (merge_range acc r)"
  proof (cases acc)
    case (Cons l ls)
    have "range_apart b r" if "b \<in> set ls" for b
      using that assms Cons by (auto simp: merged_ok_def range_apart_def range_before_def list_all_iff valid_range_def)
    with assms Cons show ?thesis
      by (auto simp: merge_range_def merged_ok_def range_apart_def range_before_def valid_range_def)
  qed (use assms in \<open>simp add: merge_range_def merged_ok_def\<close>)
  show "buckets (merge_range acc r) = buckets acc \<union> {br_start r .. br_end r}"
    using assms by (cases acc) (auto simp: merge_range_def merged_ok_def valid_range_def)
  show "\<forall>s. range_before r s \<longrightarrow> (\<forall>a \<in> set acc. range_before a s) \<longrightarrow> (\<forall>a \<in> set (merge_range acc r). range_before a s)"
    by (cases acc) (auto simp: merge_range_def range_before_def)
qed

lemma merge_ranges:
  assumes "normal_ranges rs" "merged_ok acc" "\<forall>a \<in> set acc. \<forall>r \<in> set rs. range_before a r"
  shows "merged_ok (foldl merge_range acc rs) \<and> buckets (foldl merge_range acc rs) = buckets acc \<union> buckets rs"
  using assms
proof (induction rs arbitrary: acc)
  case (Cons r rs)
  have r: "valid_range r" "\<forall>s \<in> set rs. range_before r s" "normal_ranges rs"
    using Cons.prems(1) by (simp_all add: normal_ranges_def)
  note step = merge_range_step [OF Cons.prems(2) r(1)]
  have acc: "\<forall>a \<in> set acc. range_before a r" using Cons.prems(3) by simp
  have "\<forall>a \<in> set (merge_range acc r). \<forall>s \<in> set rs. range_before a s"
    using step(3) [OF acc] r(2) Cons.prems(3) by (metis list.set_intros(2))
  with Cons.IH r(3) step(1) [OF acc]
  have "merged_ok (foldl merge_range (merge_range acc r) rs) \<and>
      buckets (foldl merge_range (merge_range acc r) rs) = buckets (merge_range acc r) \<union> buckets rs" by blast
  then show ?case using step(2) [OF acc] by (simp add: Un_assoc)
qed simp

text \<open>The canonical union: valid ranges, in order, with a gap between neighbours.\<close>

definition canonical_union :: "bucket_range list \<Rightarrow> bool" where
  "canonical_union rs \<longleftrightarrow> list_all valid_range rs \<and> sorted_wrt range_apart rs"

lemma merged_ok_rev: "merged_ok (rev rs) \<longleftrightarrow> canonical_union rs"
  by (simp add: merged_ok_def canonical_union_def sorted_wrt_rev)

lemma expand_rollout_ranges_Inr:
  assumes "expand_rollout_ranges current addition = Inr m"
  shows "canonical_union m" "buckets m = buckets current \<union> buckets addition"
    "buckets current \<inter> buckets addition = {}" "addition \<noteq> []"
proof -
  from assms obtain cur add where *: "addition \<noteq> []" "normalize_ranges current = Inr cur"
    "normalize_ranges addition = Inr add" "\<not> (\<exists>e \<in> set cur. \<exists>a \<in> set add. ranges_overlap e a)"
    "normal_ranges (sort_key range_key (cur @ add))"
    "m = rev (foldl merge_range [] (sort_key range_key (cur @ add)))"
    by (auto simp: expand_rollout_ranges_def rbind_Inr_iff rerror_Inr_iff normalize_ranges_Inr
        simp del: bex_simps split: if_splits)
  have m: "merged_ok (rev m)" "buckets m = buckets cur \<union> buckets add"
    using merge_ranges [OF *(5), of "[]"] *(6) by (simp_all add: merged_ok_def)
  then show "canonical_union m" by (simp add: merged_ok_rev)
  show "buckets m = buckets current \<union> buckets addition"
    using m(2) normalize_ranges_buckets *(2,3) by metis
  have "buckets cur \<inter> buckets add = {}"
    by (subst disjoint_iff_not_overlap) (use * in \<open>auto simp: normalize_ranges_Inr normal_ranges_def\<close>)
  then show "buckets current \<inter> buckets addition = {}"
    using normalize_ranges_buckets *(2,3) by metis
  show "addition \<noteq> []" by (rule *(1))
qed

text \<open>Disjoint additions to a canonical rollout are always accepted.\<close>

lemma normal_ranges_distinct: "normal_ranges rs \<Longrightarrow> distinct rs"
  by (induction rs) (auto simp: normal_ranges_def range_before_def valid_range_def)

lemma normal_ranges_not_overlap:
  "normal_ranges rs \<Longrightarrow> a \<in> set rs \<Longrightarrow> b \<in> set rs \<Longrightarrow> a \<noteq> b \<Longrightarrow> \<not> ranges_overlap a b"
proof (induction rs)
  case (Cons r rs)
  have "\<not> ranges_overlap r x \<and> \<not> ranges_overlap x r" if "x \<in> set rs" for x
    using Cons.prems(1) that by (auto simp: normal_ranges_def range_before_def ranges_overlap_def)
  with Cons show ?case by (auto simp: normal_ranges_def)
qed simp

lemma sort_normal_ranges:
  assumes "distinct rs" "list_all valid_range rs"
    and "\<And>a b. a \<in> set rs \<Longrightarrow> b \<in> set rs \<Longrightarrow> a \<noteq> b \<Longrightarrow> \<not> ranges_overlap a b"
  shows "normal_ranges (sort_key range_key rs)"
proof -
  have "sorted_wrt (\<lambda>a b. range_key a \<le> range_key b) (sort_key range_key rs)"
    using sorted_sort_key [of range_key rs] by (simp add: sorted_map)
  moreover have "sorted_wrt (\<noteq>) (sort_key range_key rs)"
    using assms(1) distinct_sort [of range_key rs]
    by (simp only: sorted_wrt_iff_nth_less) (simp add: nth_eq_iff_index_eq)
  ultimately have "sorted_wrt (\<lambda>a b. range_key a \<le> range_key b \<and> a \<noteq> b) (sort_key range_key rs)"
    by (simp add: sorted_wrt_iff_nth_less)
  then have "sorted_wrt range_before (sort_key range_key rs)"
  proof (rule sorted_wrt_mono_rel [rotated])
    fix a b assume *: "a \<in> set (sort_key range_key rs)" "b \<in> set (sort_key range_key rs)"
      "range_key a \<le> range_key b \<and> a \<noteq> b"
    then have "valid_range a" "valid_range b" "\<not> ranges_overlap a b"
      using assms(2,3) by (simp_all add: list_all_iff)
    then have "range_before a b \<or> range_before b a" using not_overlap by blast
    moreover have "\<not> range_before b a"
      using * \<open>valid_range a\<close> \<open>valid_range b\<close>
      by (auto simp: range_before_def range_key_def less_eq_prod_def valid_range_def)
    ultimately show "range_before a b" by blast
  qed
  with assms(2) show ?thesis by (simp add: normal_ranges_def list_all_iff)
qed

lemma expand_rollout_ranges_ok:
  assumes "addition \<noteq> []" "normalize_ranges current = Inr cur" "normalize_ranges addition = Inr add"
    and "buckets current \<inter> buckets addition = {}"
  shows "is_ok (expand_rollout_ranges current addition)"
proof -
  have nr: "normal_ranges cur" "normal_ranges add" using assms(2,3) normalize_ranges_Inr by blast+
  have "buckets cur \<inter> buckets add = {}" using assms(2-4) normalize_ranges_buckets by metis
  then have no: "\<forall>x \<in> set cur. \<forall>y \<in> set add. \<not> ranges_overlap x y"
    by (subst (asm) disjoint_iff_not_overlap) (use nr in \<open>auto simp: normal_ranges_def\<close>)
  have "valid_range x \<Longrightarrow> ranges_overlap x x" for x by (auto simp: ranges_overlap_def valid_range_def)
  with no nr have "set cur \<inter> set add = {}" by (fastforce simp: normal_ranges_def list_all_iff)
  then have "distinct (cur @ add)" using nr normal_ranges_distinct by simp
  moreover have "\<not> ranges_overlap a b" if "a \<in> set (cur @ add)" "b \<in> set (cur @ add)" "a \<noteq> b" for a b
    using that no nr normal_ranges_not_overlap by (auto simp: ranges_overlap_def)
  ultimately have "normal_ranges (sort_key range_key (cur @ add))"
    by (intro sort_normal_ranges) (use nr in \<open>auto simp: normal_ranges_def\<close>)
  then have "normalize_ranges (cur @ add) = Inr (sort_key range_key (cur @ add))"
    by (simp add: normalize_ranges_Inr)
  with assms no show ?thesis by (simp add: expand_rollout_ranges_def)
qed

end
