(* ===== verification/Overlay_Rules.thy ===== *)
theory Overlay_Rules
  imports Overlay_Rollout Catalog_Canonical
begin

text \<open>
  Overlay rules: the \<open>Rule\<close> of \<open>internal/overlay/domain/evaluator.go\<close>, its compiler
  (\<open>compiler.go\<close>) and the digest of a rule set (\<open>digest.go\<close>). An action is the string the code
  holds; \<open>ActionOther\<close> stands for any text that is not one of the three constants.
\<close>

record scope =
  sc_region :: string
  sc_environment :: string
  sc_stage :: string

datatype action = ActionAdd | ActionModify | ActionDelete | ActionOther string

fun action_text :: "action \<Rightarrow> string" where
  "action_text ActionAdd = ''ADD''"
| "action_text ActionModify = ''MODIFY''"
| "action_text ActionDelete = ''DELETE''"
| "action_text (ActionOther s) = s"

record overlay_rule =
  ru_id :: string
  ru_collection :: string
  ru_scope :: scope
  ru_key :: string
  ru_action :: action
  ru_content :: "data option"
  ru_ranges :: "bucket_range list"
  ru_revision :: u64
  ru_order :: string
  ru_from :: "gotime option"
  ru_until :: "gotime option"
  ru_activated :: "u64 option"
  ru_activated_at :: "gotime option"
  ru_expired :: "u64 option"
  ru_expired_at :: "gotime option"
  ru_created_at :: gotime
  ru_created_by :: string
  ru_updated_at :: gotime
  ru_updated_by :: string

record rule_spec =
  rs_id :: string
  rs_collection :: string
  rs_scope :: scope
  rs_key :: string
  rs_base :: "config_record option"
  rs_desired :: "config_record option"
  rs_ranges :: "bucket_range list"
  rs_revision :: u64
  rs_order :: string
  rs_from :: "gotime option"
  rs_until :: "gotime option"
  rs_activated :: "u64 option"
  rs_activated_at :: "gotime option"
  rs_expired :: "u64 option"
  rs_expired_at :: "gotime option"
  rs_created_at :: gotime
  rs_created_by :: string
  rs_updated_at :: gotime
  rs_updated_by :: string

text \<open>\<open>cloneData\<close> always allocates: the clone of a nil map is an empty one.\<close>

definition clone_data :: "data option \<Rightarrow> data option" where
  "clone_data d = Some (deref_map d)"

lemma clone_data_simps [simp]: "clone_data (Some d) = Some d" "clone_data None = Some fmempty"
  by (simp_all add: clone_data_def)

section \<open>Compiling a rule\<close>

definition matches_target :: "config_record \<Rightarrow> rule_spec \<Rightarrow> bool" where
  "matches_target r spec \<longleftrightarrow>
     cr_collection r = rs_collection spec \<and> cr_environment r = sc_environment (rs_scope spec) \<and>
     cr_key r = rs_key spec"

definition absent_or :: "('a \<Rightarrow> bool) \<Rightarrow> 'a option \<Rightarrow> bool" where
  "absent_or P x = (case x of None \<Rightarrow> True | Some y \<Rightarrow> P y)"

lemma absent_or_simps [simp]: "absent_or P None" "absent_or P (Some x) = P x"
  by (simp_all add: absent_or_def)

text \<open>The action and content derived from the base and the desired record.\<close>

definition derive_rule :: "config_record option \<Rightarrow> config_record option \<Rightarrow> action \<times> data option" where
  "derive_rule base desired =
     (case desired of
        None \<Rightarrow> (ActionDelete, None)
      | Some w \<Rightarrow> (if base = None then ActionAdd else ActionModify, clone_data (cr_data w)))"

definition compile_rule :: "rule_spec \<Rightarrow> overlay_error + overlay_rule" where
  "compile_rule spec =
     (if rs_collection spec = [] \<or> sc_region (rs_scope spec) = [] \<or> sc_environment (rs_scope spec) = []
         \<or> sc_stage (rs_scope spec) = [] \<or> rs_key spec = [] then Inl ErrInvalidSpec
      else if rs_base spec = None \<and> rs_desired spec = None then Inl ErrInvalidSpec
      else if \<not> absent_or (\<lambda>b. matches_target b spec) (rs_base spec) then Inl ErrInvalidSpec
      else if \<not> absent_or (\<lambda>w. matches_target w spec) (rs_desired spec) then Inl ErrInvalidSpec
      else if \<not> absent_or (\<lambda>b. cr_data b \<noteq> None) (rs_base spec)
           \<or> \<not> absent_or (\<lambda>w. cr_data w \<noteq> None) (rs_desired spec) then Inl ErrInvalidSpec
      else rbind (rerror ErrInvalidSpec (normalize_ranges (rs_ranges spec))) (\<lambda>ranges.
        Inr \<lparr>ru_id = rs_id spec, ru_collection = rs_collection spec, ru_scope = rs_scope spec,
             ru_key = rs_key spec, ru_action = fst (derive_rule (rs_base spec) (rs_desired spec)),
             ru_content = snd (derive_rule (rs_base spec) (rs_desired spec)), ru_ranges = ranges,
             ru_revision = rs_revision spec, ru_order = rs_order spec,
             ru_from = rs_from spec, ru_until = rs_until spec,
             ru_activated = rs_activated spec, ru_activated_at = rs_activated_at spec,
             ru_expired = rs_expired spec, ru_expired_at = rs_expired_at spec,
             ru_created_at = rs_created_at spec, ru_created_by = rs_created_by spec,
             ru_updated_at = rs_updated_at spec, ru_updated_by = rs_updated_by spec\<rparr>))"

text \<open>Content is present exactly for ADD and MODIFY; the database and the evaluator require it.\<close>

definition content_matches_action :: "overlay_rule \<Rightarrow> bool" where
  "content_matches_action rule \<longleftrightarrow>
     \<not> (ru_action rule = ActionDelete \<and> ru_content rule \<noteq> None \<or>
        (ru_action rule = ActionAdd \<or> ru_action rule = ActionModify) \<and> ru_content rule = None)"

lemma compile_rule_Inr:
  assumes "compile_rule spec = Inr r"
  shows "ru_collection r = rs_collection spec" "ru_scope r = rs_scope spec" "ru_key r = rs_key spec"
    "(ru_action r, ru_content r) = derive_rule (rs_base spec) (rs_desired spec)"
    "normalize_ranges (rs_ranges spec) = Inr (ru_ranges r)"
    "rs_base spec \<noteq> None \<or> rs_desired spec \<noteq> None"
    "absent_or (\<lambda>w. matches_target w spec \<and> cr_data w \<noteq> None) (rs_desired spec)"
    "absent_or (\<lambda>b. matches_target b spec \<and> cr_data b \<noteq> None) (rs_base spec)"
    "ru_activated r = rs_activated spec" "ru_expired r = rs_expired spec" "ru_revision r = rs_revision spec"
    "sc_region (ru_scope r) \<noteq> []" "sc_environment (ru_scope r) \<noteq> []" "sc_stage (ru_scope r) \<noteq> []"
  using assms
  by (auto simp: compile_rule_def rbind_Inr_iff rerror_Inr_iff Let_def absent_or_def
      split: if_splits prod.splits option.splits)

lemma compile_rule_content: "compile_rule spec = Inr r \<Longrightarrow> content_matches_action r"
  using compile_rule_Inr(4) [of spec r]
  by (auto simp: content_matches_action_def derive_rule_def clone_data_def split: option.splits if_splits)

section \<open>The digest of a rule set\<close>

definition rule_identity :: "overlay_rule \<Rightarrow> string" where
  "rule_identity rule =
     ru_collection rule @ [CHR 0x00] @ sc_environment (ru_scope rule) @ [CHR 0x00] @
     sc_region (ru_scope rule) @ [CHR 0x00] @ sc_stage (ru_scope rule) @ [CHR 0x00] @ ru_key rule"

definition rule_payload :: "overlay_rule \<Rightarrow> int list list \<Rightarrow> json" where
  "rule_payload rule ranges =
     JArr [JStr (ru_collection rule), JStr (sc_region (ru_scope rule)),
           JStr (sc_environment (ru_scope rule)), JStr (sc_stage (ru_scope rule)),
           JStr (ru_key rule), JStr (action_text (ru_action rule)),
           json_data_option (ru_content rule),
           JArr (map (\<lambda>r. JArr (map json_int r)) ranges),
           JBool (ru_activated rule \<noteq> None), JBool (ru_expired rule \<noteq> None)]"

text \<open>
  The loop over the sorted rules; the first argument is the identity before. (\<open>sort.Slice\<close> is
  not stable, but rules with one identity are rejected whichever comes first.)
\<close>

fun rules_payload :: "string option \<Rightarrow> overlay_rule list \<Rightarrow> overlay_error + json list" where
  "rules_payload prev [] = Inr []"
| "rules_payload prev (rule # rest) =
     (if prev = Some (rule_identity rule) then Inl ErrInvariant
      else rbind (canonical_ranges (ru_ranges rule)) (\<lambda>ranges.
           rbind (rules_payload (Some (rule_identity rule)) rest) (\<lambda>ps.
           Inr (rule_payload rule ranges # ps))))"

definition overlay_digest_payload :: "overlay_rule list \<Rightarrow> overlay_error + json" where
  "overlay_digest_payload rules =
     rbind (rules_payload None (sort_key rule_identity rules)) (\<lambda>ps. Inr (JArr ps))"

definition compute_overlay_digest :: "overlay_rule list \<Rightarrow> overlay_error + digest" where
  "compute_overlay_digest rules =
     rbind (overlay_digest_payload rules) (\<lambda>p. Inr (sha256_digest (json_print p)))"

text \<open>What of a rule takes part in the digest.\<close>

definition rule_semantics ::
  "overlay_rule \<Rightarrow> (string \<times> scope \<times> string \<times> string) \<times> data option \<times> (int \<times> int) list \<times> bool \<times> bool" where
  "rule_semantics rule =
     ((ru_collection rule, ru_scope rule, ru_key rule, action_text (ru_action rule)),
      ru_content rule, sort (map range_key (ru_ranges rule)),
      ru_activated rule \<noteq> None, ru_expired rule \<noteq> None)"

definition valid_rule_utf8 :: "overlay_rule \<Rightarrow> bool" where
  "valid_rule_utf8 rule \<longleftrightarrow>
     valid_utf8 (ru_collection rule) \<and> valid_utf8 (sc_region (ru_scope rule)) \<and>
     valid_utf8 (sc_environment (ru_scope rule)) \<and> valid_utf8 (sc_stage (ru_scope rule)) \<and>
     valid_utf8 (ru_key rule) \<and> valid_utf8 (action_text (ru_action rule)) \<and>
     absent_or valid_data (ru_content rule)"

lemma rules_payload_Inr:
  assumes "rules_payload prev rules = Inr ps"
  shows "list_all2 (\<lambda>rule p. \<exists>rs. canonical_ranges (ru_ranges rule) = Inr rs \<and> p = rule_payload rule rs) rules ps"
  using assms by (induction prev rules arbitrary: ps rule: rules_payload.induct)
    (auto simp: rbind_Inr_iff split: if_splits)

lemma rules_payload_distinct:
  assumes "rules_payload prev rules = Inr ps" "sorted (map rule_identity rules)"
    and "\<forall>i. prev = Some i \<longrightarrow> (\<forall>r \<in> set rules. i \<le> rule_identity r)"
  shows "distinct (map rule_identity rules) \<and> (\<forall>i. prev = Some i \<longrightarrow> i \<notin> rule_identity ` set rules)"
  using assms
proof (induction prev rules arbitrary: ps rule: rules_payload.induct)
  case (2 prev rule rest)
  from "2.prems"(1) obtain rs qs where q: "prev \<noteq> Some (rule_identity rule)"
    "canonical_ranges (ru_ranges rule) = Inr rs" "rules_payload (Some (rule_identity rule)) rest = Inr qs"
    by (auto simp: rbind_Inr_iff split: if_splits)
  have ih: "distinct (map rule_identity rest) \<and> rule_identity rule \<notin> rule_identity ` set rest"
    using "2.IH" [OF q(1) q(3)] "2.prems"(2) by auto
  have "i \<notin> rule_identity ` set rest" if "prev = Some i" for i
  proof
    assume "i \<in> rule_identity ` set rest"
    then have "rule_identity rule \<le> i" using "2.prems"(2) by auto
    moreover have "i \<le> rule_identity rule" using that "2.prems"(3) by simp
    ultimately show False using that q(1) by simp
  qed
  with ih q(1) show ?case by auto
qed simp

lemma json_ints_inj [simp]: "map json_int xs = map json_int ys \<longleftrightarrow> xs = ys"
  by (simp add: inj_map_eq_map inj_def)

lemma json_int_lists_inj [simp]:
  "map (\<lambda>r. JArr (map json_int r)) xs = map (\<lambda>r. JArr (map json_int r)) ys \<longleftrightarrow> xs = ys"
  by (subst inj_map_eq_map) (simp_all add: inj_def)

lemma canonical_ranges_Inr:
  "canonical_ranges rs = Inr out \<longleftrightarrow>
     normal_ranges (sort_key range_key rs) \<and> out = map (\<lambda>r. [br_start r, br_end r]) (sort_key range_key rs)"
  by (auto simp: canonical_ranges_def rbind_Inr_iff normalize_ranges_Inr)

lemma rule_payload_semantics:
  assumes "rule_payload r rs = rule_payload r' rs'" "canonical_ranges (ru_ranges r) = Inr rs"
    and "canonical_ranges (ru_ranges r') = Inr rs'"
  shows "rule_semantics r = rule_semantics r'"
proof -
  from assms(1) have *: "ru_collection r = ru_collection r'" "ru_scope r = ru_scope r'"
    "ru_key r = ru_key r'" "action_text (ru_action r) = action_text (ru_action r')"
    "ru_content r = ru_content r'" "rs = rs'" "(ru_activated r \<noteq> None) = (ru_activated r' \<noteq> None)"
    "(ru_expired r \<noteq> None) = (ru_expired r' \<noteq> None)"
    by (auto simp: rule_payload_def intro: scope.equality)
  have "map range_key (sort_key range_key (ru_ranges r)) = map (\<lambda>l. (l ! 0, l ! 1)) rs"
    "map range_key (sort_key range_key (ru_ranges r')) = map (\<lambda>l. (l ! 0, l ! 1)) rs'"
    using assms(2,3) by (simp_all add: canonical_ranges_Inr range_key_def comp_def)
  moreover have "map range_key (sort_key range_key xs) = sort (map range_key xs)" for xs
    by (rule properties_for_sort [symmetric]) simp_all
  ultimately have "sort (map range_key (ru_ranges r)) = sort (map range_key (ru_ranges r'))"
    using *(6) by simp
  with * show ?thesis by (simp add: rule_semantics_def)
qed

interpretation overlay_digest:
  keyed_digest rule_identity overlay_digest_payload rule_semantics valid_rule_utf8
proof
  fix xs ys :: "overlay_rule list" and p
  let ?sx = "sort_key rule_identity xs" and ?sy = "sort_key rule_identity ys"
  show "distinct (map rule_identity xs)" if "overlay_digest_payload xs = Inr p"
  proof -
    from that obtain ps where "rules_payload None ?sx = Inr ps"
      by (auto simp: overlay_digest_payload_def rbind_Inr_iff)
    then have "distinct (map rule_identity ?sx)" using rules_payload_distinct by fastforce
    then show ?thesis by (simp add: map_key_sort_key)
  qed
  show "overlay_digest_payload ?sx = overlay_digest_payload xs"
    by (simp add: overlay_digest_payload_def sort_key_id_if_sorted)
  show "map rule_semantics ?sx = map rule_semantics ?sy"
    if "overlay_digest_payload xs = Inr p" "overlay_digest_payload ys = Inr p"
  proof -
    from that obtain ps where ps: "rules_payload None ?sx = Inr ps" "rules_payload None ?sy = Inr ps"
      by (auto simp: overlay_digest_payload_def rbind_Inr_iff)
    let ?R = "\<lambda>rule p. \<exists>rs. canonical_ranges (ru_ranges rule) = Inr rs \<and> p = rule_payload rule rs"
    have "list_all2 ?R ?sx ps" "list_all2 ?R ?sy ps"
      using ps rules_payload_Inr by blast+
    then have "list_all2 (\<lambda>a b. rule_semantics a = rule_semantics b) ?sx ?sy"
      unfolding list_all2_conv_all_nth using rule_payload_semantics by metis
    then show ?thesis by (simp add: list_all2_conv_all_nth list_eq_iff_nth_eq)
  qed
  show "wf_json p" if p: "overlay_digest_payload xs = Inr p" and ok: "list_all valid_rule_utf8 xs"
  proof -
    from p obtain ps where ps: "rules_payload None ?sx = Inr ps" "p = JArr ps"
      by (auto simp: overlay_digest_payload_def rbind_Inr_iff)
    have "wf_json q" if q: "q \<in> set ps" for q
    proof -
      from q obtain i where i: "i < length ps" "q = ps ! i" by (auto simp: in_set_conv_nth)
      note all2 = rules_payload_Inr [OF ps(1)]
      have len: "i < length ?sx" using list_all2_lengthD [OF all2] i(1) by simp
      obtain rs where "q = rule_payload (?sx ! i) rs" using list_all2_nthD [OF all2 len] i(2) by blast
      moreover have "?sx ! i \<in> set ?sx" using len by (rule nth_mem)
      then have "valid_rule_utf8 (?sx ! i)" using ok by (simp add: list_all_iff)
      ultimately show ?thesis
        by (auto simp: list_all_iff rule_payload_def valid_rule_utf8_def json_data_option_def
            wf_json_data split: option.splits)
    qed
    with ps(2) show ?thesis by (simp add: list_all_iff)
  qed
qed

end
