(* ===== verification/Overlay_Evaluate.thy ===== *)
theory Overlay_Evaluate
  imports Overlay_Rules
begin

text \<open>
  The evaluation of one collection in one scope: \<open>Evaluate\<close> of
  \<open>internal/overlay/domain/evaluator.go\<close> (copied in \<open>internal/distribution/overlay\<close>). The Go map
  of records is a finite map from record keys. The second half states what evaluation means
  for a single record key and proves that the loop over all rules computes exactly that.
\<close>

record overlay_query =
  oq_collection :: string
  oq_scope :: scope
  oq_bucket :: "int option"

type_synonym record_map = "(string, config_record) fmap"

section \<open>The evaluator\<close>

definition base_in_query :: "overlay_query \<Rightarrow> config_record \<Rightarrow> bool" where
  "base_in_query q r \<longleftrightarrow> cr_collection r = oq_collection q \<and> cr_environment r = sc_environment (oq_scope q)"

definition initial_records :: "overlay_query \<Rightarrow> config_record list \<Rightarrow> record_map" where
  "initial_records q base =
     foldl (\<lambda>m r. if base_in_query q r
              then fmupd (cr_key r) (r\<lparr>cr_data := clone_data (cr_data r)\<rparr>) m else m) fmempty base"

text \<open>The first guard of the loop body: scope, activation and expiration.\<close>

definition rule_in_layer :: "overlay_query \<Rightarrow> string \<Rightarrow> overlay_rule \<Rightarrow> bool" where
  "rule_in_layer q stage rule \<longleftrightarrow>
     ru_collection rule = oq_collection q \<and>
     sc_region (ru_scope rule) = sc_region (oq_scope q) \<and>
     sc_environment (ru_scope rule) = sc_environment (oq_scope q) \<and>
     sc_stage (ru_scope rule) = stage \<and>
     ru_activated rule \<noteq> None \<and> ru_expired rule = None"

text \<open>Whether a rollout makes the rule visible for the preview bucket of the query.\<close>

definition rollout_visible :: "overlay_query \<Rightarrow> overlay_rule \<Rightarrow> overlay_error + bool" where
  "rollout_visible q rule =
     (if ru_ranges rule = [] then Inr True
      else case oq_bucket q of
             None \<Rightarrow> Inr False
           | Some b \<Rightarrow>
               rbind (rerror ErrInvariant (canonical_ranges (ru_ranges rule))) (\<lambda>ranges.
               Inr (list_ex (\<lambda>r. r ! 0 \<le> b \<and> b \<le> r ! 1) ranges)))"

definition apply_rule :: "overlay_query \<Rightarrow> record_map \<Rightarrow> overlay_rule \<Rightarrow> overlay_error + record_map" where
  "apply_rule q records rule =
     (if \<not> content_matches_action rule then Inl ErrInvariant
      else case ru_action rule of
             ActionAdd \<Rightarrow>
               (case fmlookup records (ru_key rule) of
                  Some _ \<Rightarrow> Inl ErrInvariant
                | None \<Rightarrow> Inr (fmupd (ru_key rule)
                    \<lparr>cr_collection = oq_collection q, cr_environment = sc_environment (oq_scope q),
                     cr_key = ru_key rule, cr_data = clone_data (ru_content rule),
                     cr_revision = ru_revision rule\<rparr> records))
           | ActionModify \<Rightarrow>
               (case fmlookup records (ru_key rule) of
                  None \<Rightarrow> Inl ErrInvariant
                | Some r \<Rightarrow> Inr (fmupd (ru_key rule)
                    (r\<lparr>cr_data := clone_data (ru_content rule), cr_revision := ru_revision rule\<rparr>) records))
           | ActionDelete \<Rightarrow>
               (case fmlookup records (ru_key rule) of
                  None \<Rightarrow> Inl ErrInvariant
                | Some _ \<Rightarrow> Inr (fmdrop (ru_key rule) records))
           | ActionOther _ \<Rightarrow> Inl ErrInvariant)"

definition evaluate_rule ::
  "overlay_query \<Rightarrow> string \<Rightarrow> record_map \<Rightarrow> overlay_rule \<Rightarrow> overlay_error + record_map" where
  "evaluate_rule q stage records rule =
     (if \<not> rule_in_layer q stage rule then Inr records
      else rbind (rollout_visible q rule) (\<lambda>visible.
           if visible then apply_rule q records rule else Inr records))"

definition query_stages :: "overlay_query \<Rightarrow> string list" where
  "query_stages q = (if sc_stage (oq_scope q) = [] then [[]] else [[], sc_stage (oq_scope q)])"

definition evaluate_map ::
  "overlay_query \<Rightarrow> config_record list \<Rightarrow> overlay_rule list \<Rightarrow> overlay_error + record_map" where
  "evaluate_map q base rules =
     rfold (\<lambda>records stage. rfold (evaluate_rule q stage) records rules)
       (initial_records q base) (query_stages q)"

definition evaluate ::
  "overlay_query \<Rightarrow> config_record list \<Rightarrow> overlay_rule list \<Rightarrow> overlay_error + config_record list" where
  "evaluate q base rules = rbind (evaluate_map q base rules) (\<lambda>records. Inr (sorted_values records))"

section \<open>Well-formed results\<close>

definition record_in_query :: "overlay_query \<Rightarrow> config_record \<Rightarrow> bool" where
  "record_in_query q r \<longleftrightarrow> base_in_query q r \<and> cr_data r \<noteq> None"

definition records_ok :: "overlay_query \<Rightarrow> record_map \<Rightarrow> bool" where
  "records_ok q m \<longleftrightarrow> (\<forall>k r. fmlookup m k = Some r \<longrightarrow> cr_key r = k \<and> record_in_query q r)"

lemma initial_records_snoc:
  "initial_records q (base @ [r]) =
     (if base_in_query q r
      then fmupd (cr_key r) (r\<lparr>cr_data := clone_data (cr_data r)\<rparr>) (initial_records q base)
      else initial_records q base)"
  by (simp add: initial_records_def)

lemma records_ok_update:
  "records_ok q m \<Longrightarrow> record_in_query q r \<Longrightarrow> records_ok q (fmupd (cr_key r) r m)"
  by (simp add: records_ok_def)

lemma initial_records_ok: "records_ok q (initial_records q base)"
proof (induction base rule: rev_induct)
  case (snoc r base)
  let ?r = "r\<lparr>cr_data := clone_data (cr_data r)\<rparr>"
  have "records_ok q (fmupd (cr_key ?r) ?r (initial_records q base))" if "base_in_query q r"
    by (rule records_ok_update [OF snoc.IH])
      (use that in \<open>simp add: record_in_query_def base_in_query_def clone_data_def\<close>)
  with snoc.IH show ?case by (simp add: initial_records_snoc)
qed (simp add: initial_records_def records_ok_def)

lemma apply_rule_ok: "records_ok q m \<Longrightarrow> apply_rule q m rule = Inr m' \<Longrightarrow> records_ok q m'"
  by (auto simp: apply_rule_def records_ok_def record_in_query_def base_in_query_def clone_data_def
      split: if_splits action.splits option.splits)

lemma evaluate_rule_ok: "records_ok q m \<Longrightarrow> evaluate_rule q stage m rule = Inr m' \<Longrightarrow> records_ok q m'"
  using apply_rule_ok by (auto simp: evaluate_rule_def rbind_Inr_iff split: if_splits)

lemma evaluate_layer_ok:
  "rfold (evaluate_rule q stage) m rules = Inr m' \<Longrightarrow> records_ok q m \<Longrightarrow> records_ok q m'"
  by (erule rfold_invariant) (simp_all add: evaluate_rule_ok)

lemma evaluate_map_ok: "evaluate_map q base rules = Inr m \<Longrightarrow> records_ok q m"
  unfolding evaluate_map_def
  by (erule rfold_invariant) (simp_all add: initial_records_ok evaluate_layer_ok)

lemma sorted_values_keys: "records_ok q m \<Longrightarrow> map cr_key (sorted_values m) = sorted_keys m"
proof -
  assume "records_ok q m"
  then have "cr_key (the (fmlookup m k)) = k" if "k \<in> set (sorted_keys m)" for k
    using that by (auto simp: records_ok_def fmlookup_dom_iff)
  then show ?thesis by (auto simp: sorted_values_def comp_def intro: map_idI)
qed

section \<open>One key at a time\<close>

text \<open>The effect of a rule on the record of its key: ADD, MODIFY and DELETE as partial functions.\<close>

definition step_key :: "overlay_query \<Rightarrow> overlay_rule \<Rightarrow> config_record option \<Rightarrow> overlay_error + config_record option" where
  "step_key q rule cur =
     (if \<not> content_matches_action rule then Inl ErrInvariant
      else case (ru_action rule, cur) of
             (ActionAdd, None) \<Rightarrow> Inr (Some
                \<lparr>cr_collection = oq_collection q, cr_environment = sc_environment (oq_scope q),
                 cr_key = ru_key rule, cr_data = ru_content rule, cr_revision = ru_revision rule\<rparr>)
           | (ActionModify, Some r) \<Rightarrow> Inr (Some
                (r\<lparr>cr_data := ru_content rule, cr_revision := ru_revision rule\<rparr>))
           | (ActionDelete, Some _) \<Rightarrow> Inr None
           | _ \<Rightarrow> Inl ErrInvariant)"

lemma apply_rule_step:
  "apply_rule q m rule =
     rbind (step_key q rule (fmlookup m (ru_key rule)))
       (\<lambda>new. Inr (case new of None \<Rightarrow> fmdrop (ru_key rule) m | Some r \<Rightarrow> fmupd (ru_key rule) r m))"
  by (auto simp: apply_rule_def step_key_def content_matches_action_def clone_data_def
      split: action.splits option.splits)

definition visible_rules :: "overlay_query \<Rightarrow> string \<Rightarrow> overlay_rule list \<Rightarrow> overlay_rule list" where
  "visible_rules q stage rules =
     filter (\<lambda>r. rule_in_layer q stage r \<and> rollout_visible q r = Inr True) rules"

text \<open>The value of a key after the visible rules of one layer, in order.\<close>

definition layer_value ::
  "overlay_query \<Rightarrow> overlay_rule list \<Rightarrow> string \<Rightarrow> config_record option \<Rightarrow> overlay_error + config_record option" where
  "layer_value q rules k cur =
     rfold (\<lambda>c r. step_key q r c) cur (filter (\<lambda>r. ru_key r = k) rules)"

lemma evaluate_layer_key:
  assumes "rfold (evaluate_rule q stage) m rules = Inr m'"
  shows "layer_value q (visible_rules q stage rules) k (fmlookup m k) = Inr (fmlookup m' k)"
  using assms
proof (induction rules arbitrary: m)
  case Nil
  then show ?case by (simp add: layer_value_def visible_rules_def)
next
  case (Cons r rules)
  from Cons.prems obtain m1 where m1: "evaluate_rule q stage m r = Inr m1"
    "rfold (evaluate_rule q stage) m1 rules = Inr m'" by (auto simp: rbind_Inr_iff)
  note ih = Cons.IH [OF m1(2)]
  show ?case
  proof (cases "rule_in_layer q stage r \<and> rollout_visible q r = Inr True")
    case False
    then have "m1 = m" using m1(1) by (auto simp: evaluate_rule_def rbind_Inr_iff split: if_splits)
    moreover have "visible_rules q stage (r # rules) = visible_rules q stage rules"
      using False by (auto simp: visible_rules_def)
    ultimately show ?thesis using ih by simp
  next
    case True
    then have "apply_rule q m r = Inr m1" using m1(1) by (simp add: evaluate_rule_def)
    then obtain new where new: "step_key q r (fmlookup m (ru_key r)) = Inr new"
      "m1 = (case new of None \<Rightarrow> fmdrop (ru_key r) m | Some x \<Rightarrow> fmupd (ru_key r) x m)"
      by (auto simp: apply_rule_step rbind_Inr_iff)
    then have "fmlookup m1 (ru_key r) = new" "k \<noteq> ru_key r \<Longrightarrow> fmlookup m1 k = fmlookup m k"
      by (auto split: option.splits)
    with ih new(1) True show ?thesis
      by (cases "ru_key r = k") (simp_all add: layer_value_def visible_rules_def)
  qed
qed

text \<open>
  The specification of an effective record: the last base record of the key, then the
  environment layer, then the layer of the query's stage.
\<close>

definition base_value :: "overlay_query \<Rightarrow> config_record list \<Rightarrow> string \<Rightarrow> config_record option" where
  "base_value q base k =
     map_option (\<lambda>r. r\<lparr>cr_data := clone_data (cr_data r)\<rparr>)
       (find (\<lambda>r. base_in_query q r \<and> cr_key r = k) (rev base))"

definition effective_value ::
  "overlay_query \<Rightarrow> config_record list \<Rightarrow> overlay_rule list \<Rightarrow> string \<Rightarrow> overlay_error + config_record option" where
  "effective_value q base rules k =
     rfold (\<lambda>cur stage. layer_value q (visible_rules q stage rules) k cur) (base_value q base k) (query_stages q)"

lemma initial_records_lookup: "fmlookup (initial_records q base) k = base_value q base k"
  by (induction base rule: rev_induct)
    (simp_all add: initial_records_snoc base_value_def initial_records_def)

lemma evaluate_map_key:
  assumes "evaluate_map q base rules = Inr m"
  shows "effective_value q base rules k = Inr (fmlookup m k)"
proof -
  have "rfold (\<lambda>cur stage. layer_value q (visible_rules q stage rules) k cur) (fmlookup m0 k) stages
      = Inr (fmlookup m k)"
    if "rfold (\<lambda>records stage. rfold (evaluate_rule q stage) records rules) m0 stages = Inr m" for m0 stages
    using that by (induction stages arbitrary: m0) (auto simp: rbind_Inr_iff dest: evaluate_layer_key)
  with assms show ?thesis
    by (simp add: effective_value_def evaluate_map_def flip: initial_records_lookup)
qed

lemma sorted_values_lookup:
  assumes "records_ok q m"
  shows "r \<in> set (sorted_values m) \<longleftrightarrow> fmlookup m (cr_key r) = Some r"
  using assms by (auto simp: set_sorted_values records_ok_def)

text \<open>The result as a whole: in key order, each record that its key evaluates to.\<close>

lemma evaluate_exact:
  assumes "evaluate q base rules = Inr out"
  shows "sorted (map cr_key out)" "distinct (map cr_key out)"
    "r \<in> set out \<longleftrightarrow> effective_value q base rules (cr_key r) = Inr (Some r)"
proof -
  from assms obtain m where m: "evaluate_map q base rules = Inr m" "out = sorted_values m"
    by (auto simp: evaluate_def rbind_Inr_iff)
  note ok = evaluate_map_ok [OF m(1)]
  show "sorted (map cr_key out)" "distinct (map cr_key out)"
    "r \<in> set out \<longleftrightarrow> effective_value q base rules (cr_key r) = Inr (Some r)"
    using sorted_values_keys [OF ok] sorted_keys_sorted [of m] sorted_values_lookup [OF ok]
      evaluate_map_key [OF m(1)] by (simp_all add: m(2))
qed

text \<open>Layering with at most one visible rule per key and layer.\<close>

lemma layer_value_single:
  assumes "filter (\<lambda>r. ru_key r = k) rules = [r]"
  shows "layer_value q rules k cur = step_key q r cur"
  using assms by (simp add: layer_value_def) (cases "step_key q r cur"; simp)

lemma layer_value_none: "filter (\<lambda>r. ru_key r = k) rules = [] \<Longrightarrow> layer_value q rules k cur = Inr cur"
  by (simp add: layer_value_def)

lemma step_key_modify:
  "ru_action r = ActionModify \<Longrightarrow> ru_content r = Some d \<Longrightarrow>
   step_key q r cur = (case cur of None \<Rightarrow> Inl ErrInvariant
     | Some b \<Rightarrow> Inr (Some (b\<lparr>cr_data := Some d, cr_revision := ru_revision r\<rparr>)))"
  by (auto simp: step_key_def content_matches_action_def split: option.splits)

section \<open>A rule invisible to the query changes nothing\<close>

definition rule_invisible :: "overlay_query \<Rightarrow> overlay_rule \<Rightarrow> bool" where
  "rule_invisible q rule \<longleftrightarrow>
     (\<forall>stage \<in> set (query_stages q). \<not> rule_in_layer q stage rule) \<or>
     rollout_visible q rule = Inr False"

lemma evaluate_rule_invisible:
  "rule_invisible q rule \<Longrightarrow> stage \<in> set (query_stages q) \<Longrightarrow> evaluate_rule q stage m rule = Inr m"
  by (auto simp: rule_invisible_def evaluate_rule_def)

lemma rfold_filter:
  assumes "\<And>s x. x \<in> set xs \<Longrightarrow> \<not> P x \<Longrightarrow> f s x = Inr s"
  shows "rfold f s (filter P xs) = rfold f s xs"
  using assms
proof (induction xs arbitrary: s)
  case (Cons x xs)
  then show ?case by (cases "P x") simp_all
qed simp

lemma rfold_cong_list:
  assumes "\<And>s x. x \<in> set xs \<Longrightarrow> f s x = g s x" shows "rfold f s xs = rfold g s xs"
  using assms by (rule rfold_cong_state)

lemma evaluate_map_drop_invisible:
  "evaluate_map q base (filter (\<lambda>r. \<not> rule_invisible q r) rules) = evaluate_map q base rules"
proof -
  have "rfold (evaluate_rule q stage) m (filter (\<lambda>r. \<not> rule_invisible q r) rules)
      = rfold (evaluate_rule q stage) m rules" if "stage \<in> set (query_stages q)" for m stage
    by (rule rfold_filter) (use that evaluate_rule_invisible in blast)
  then show ?thesis unfolding evaluate_map_def by (intro rfold_cong_list)
qed

end
