(* ===== verification/Overlay_Properties.thy ===== *)
theory Overlay_Properties
  imports Overlay_Evaluate
begin

text \<open>
  The claims about overlays (\<open>internal/overlay/domain\<close>): client buckets, rollout ranges, the
  digest of a rule set and the evaluation of a collection in a scope.
\<close>

section \<open>Rollouts\<close>

text \<open>
  A client falls into exactly one of the hundred buckets, and the bucket depends on the pair
  of identities only through an unambiguous payload: two canonical pairs with the same payload
  are the same pair.
\<close>

lemma client_bucket_total:
  assumes "canonical_client_id consumer" "canonical_client_id client"
  shows "\<exists>b. client_bucket consumer client = Inr b \<and> 0 \<le> b \<and> b < 100 \<and>
    (\<forall>consumer' client'. canonical_client_id consumer' \<longrightarrow>
       bucket_payload consumer' client' = bucket_payload consumer client \<longrightarrow>
       consumer' = consumer \<and> client' = client)"
proof -
  obtain b where b: "client_bucket consumer client = Inr b" using assms by (auto simp: client_bucket_def)
  moreover have "consumer' = consumer \<and> client' = client"
    if "canonical_client_id consumer'" "bucket_payload consumer' client' = bucket_payload consumer client"
    for consumer' client'
    using bucket_payload_inj [OF _ _ that(2)] that(1) assms(1) by (simp add: canonical_client_id_def)
  ultimately show ?thesis using client_bucket_range by blast
qed

text \<open>
  Normalisation accepts exactly the range lists whose sorted form is a list of valid ranges
  each before the next, returns that form, and covers the same buckets; it does not depend on
  the order of the ranges.
\<close>

lemma normalize_ranges_correct:
  "(normalize_ranges rs = Inr ns \<longleftrightarrow> normal_ranges ns \<and> ns = sort_key range_key rs) \<and>
   (normalize_ranges rs = Inr ns \<longrightarrow> buckets ns = buckets rs \<and>
     (\<forall>ss. mset ss = mset rs \<longrightarrow> normalize_ranges ss = Inr ns))"
  using normalize_ranges_Inr normalize_ranges_buckets normalize_ranges_permutation by metis

definition range_of :: "int \<Rightarrow> int \<Rightarrow> bucket_range" where
  "range_of a b = \<lparr>br_start = a, br_end = b\<rparr>"

text \<open>
  Widening a rollout is exact: an addition to normalised ranges is accepted if and only if it
  is not empty, normalised itself and disjoint from them, and then the result is the canonical
  union of both, with a gap between neighbouring ranges.
\<close>

lemma expand_rollout_ranges_exact:
  "(is_ok (expand_rollout_ranges current addition) \<longleftrightarrow>
     addition \<noteq> [] \<and> is_ok (normalize_ranges current) \<and> is_ok (normalize_ranges addition) \<and>
     buckets current \<inter> buckets addition = {}) \<and>
   (\<forall>m. expand_rollout_ranges current addition = Inr m \<longrightarrow>
     canonical_union m \<and> buckets m = buckets current \<union> buckets addition)"
proof (intro conjI allI impI)
  have "is_ok (normalize_ranges current) \<and> is_ok (normalize_ranges addition)"
    if "is_ok (expand_rollout_ranges current addition)"
    using that by (auto simp: is_ok_iff expand_rollout_ranges_def rbind_Inr_iff rerror_Inr_iff split: if_splits)
  then show "is_ok (expand_rollout_ranges current addition) \<longleftrightarrow>
     addition \<noteq> [] \<and> is_ok (normalize_ranges current) \<and> is_ok (normalize_ranges addition) \<and>
     buckets current \<inter> buckets addition = {}"
    using expand_rollout_ranges_Inr(3,4) expand_rollout_ranges_ok by (metis is_ok_iff)
next
  fix m assume "expand_rollout_ranges current addition = Inr m"
  then show "canonical_union m" "buckets m = buckets current \<union> buckets addition"
    using expand_rollout_ranges_Inr(1,2) by blast+
qed

section \<open>A sample rule for the witnesses\<close>

definition sample_scope :: scope where
  "sample_scope = \<lparr>sc_region = ''eu'', sc_environment = ''prod'', sc_stage = ''canary''\<rparr>"

definition sample_base :: config_record where
  "sample_base = \<lparr>cr_collection = ''limits'', cr_environment = ''prod'', cr_key = ''k'',
     cr_data = Some (fmap_of_list [(''v'', ''1'')]), cr_revision = 3\<rparr>"

definition sample_desired :: config_record where
  "sample_desired = sample_base\<lparr>cr_data := Some (fmap_of_list [(''v'', ''2'')])\<rparr>"

definition sample_rule_spec :: "bucket_range list \<Rightarrow> config_record option \<Rightarrow> rule_spec" where
  "sample_rule_spec ranges desired =
     \<lparr>rs_id = ''r1'', rs_collection = ''limits'', rs_scope = sample_scope, rs_key = ''k'',
      rs_base = Some sample_base, rs_desired = desired, rs_ranges = ranges, rs_revision = 8,
      rs_order = ''o1'', rs_from = None, rs_until = None, rs_activated = Some 8, rs_activated_at = Some 5,
      rs_expired = None, rs_expired_at = None, rs_created_at = 5, rs_created_by = ''ann'',
      rs_updated_at = 5, rs_updated_by = ''ann''\<rparr>"

definition sample_rule :: "bucket_range list \<Rightarrow> config_record option \<Rightarrow> overlay_rule" where
  "sample_rule ranges desired = projr (compile_rule (sample_rule_spec ranges desired))"

definition sample_query :: "int option \<Rightarrow> overlay_query" where
  "sample_query bucket = \<lparr>oq_collection = ''limits'', oq_scope = sample_scope, oq_bucket = bucket\<rparr>"

section \<open>The digest of a rule set\<close>

text \<open>
  The digest of a rule set with distinct identities does not depend on the order of the rules.
\<close>

lemma overlay_digest_order_independent:
  assumes "mset xs = mset ys" "distinct (map rule_identity xs)"
  shows "compute_overlay_digest xs = compute_overlay_digest ys"
  using overlay_digest.payload_permutation [OF assms] by (simp add: compute_overlay_digest_def)

definition sample_rules :: "overlay_rule list" where
  "sample_rules =
     [sample_rule [range_of 0 9] (Some sample_desired),
      (sample_rule [] (Some sample_desired))\<lparr>ru_key := ''other''\<rparr>]"

text \<open>
  C24: Equal overlay digests mean equal rules: two rule sets with valid UTF-8 texts and the same
  digest have the same scopes, keys, actions, contents, ranges and lifecycle flags, unless
  SHA-256 collides on the two payloads.
\<close>

theorem overlay_digest_determines_rules:
  assumes "compute_overlay_digest xs = Inr dg" "compute_overlay_digest ys = Inr dg"
    and "list_all valid_rule_utf8 xs" "list_all valid_rule_utf8 ys"
    and "\<forall>p q. overlay_digest_payload xs = Inr p \<longrightarrow> overlay_digest_payload ys = Inr q \<longrightarrow>
      sha256 (json_print p) = sha256 (json_print q) \<longrightarrow> json_print p = json_print q"
  shows "mset (map rule_semantics xs) = mset (map rule_semantics ys)"
proof -
  from assms(1,2) obtain p q where pq: "overlay_digest_payload xs = Inr p" "overlay_digest_payload ys = Inr q"
    "sha256_digest (json_print p) = sha256_digest (json_print q)"
    by (auto simp: compute_overlay_digest_def rbind_Inr_iff)
  then show ?thesis using overlay_digest.digest_determines_contents [OF pq(1,2) assms(3,4) _ pq(3)] assms(5) by simp
qed

theorem overlay_digest_determines_rules_witness:
  "mset (map rule_semantics sample_rules) = mset (map rule_semantics (rev sample_rules))"
proof -
  have d: "distinct (map rule_identity sample_rules)" by code_simp
  have "overlay_digest_payload sample_rules = overlay_digest_payload (rev sample_rules)"
    by (rule overlay_digest.payload_permutation [OF _ d]) simp
  moreover have "is_ok (overlay_digest_payload sample_rules)" by code_simp
  moreover from this obtain p where "overlay_digest_payload (rev sample_rules) = Inr p"
    using calculation by (auto simp: is_ok_iff)
  moreover have "list_all valid_rule_utf8 sample_rules" "list_all valid_rule_utf8 (rev sample_rules)" by code_simp+
  ultimately show ?thesis
    by (intro overlay_digest_determines_rules [where dg = "sha256_digest (json_print p)"])
      (simp_all add: compute_overlay_digest_def)
qed

section \<open>Evaluation\<close>

text \<open>
  What an effective record is, stated without the evaluator: the rules in force for a query, the
  buckets they cover, what each action turns a record into, and the two layers.
\<close>

definition rule_in_force :: "overlay_query \<Rightarrow> overlay_rule \<Rightarrow> bool" where
  "rule_in_force q r \<longleftrightarrow>
     ru_collection r = oq_collection q \<and> sc_region (ru_scope r) = sc_region (oq_scope q) \<and>
     sc_environment (ru_scope r) = sc_environment (oq_scope q) \<and>
     ru_activated r \<noteq> None \<and> ru_expired r = None \<and>
     (ru_ranges r = [] \<or>
      (\<exists>b. oq_bucket q = Some b \<and> (\<exists>g \<in> set (ru_ranges r). br_start g \<le> b \<and> b \<le> br_end g)))"

definition environment_layer :: "overlay_query \<Rightarrow> overlay_rule list \<Rightarrow> string \<Rightarrow> overlay_rule list" where
  "environment_layer q rules k = filter (\<lambda>r. ru_key r = k \<and> sc_stage (ru_scope r) = [] \<and> rule_in_force q r) rules"

definition stage_layer :: "overlay_query \<Rightarrow> overlay_rule list \<Rightarrow> string \<Rightarrow> overlay_rule list" where
  "stage_layer q rules k =
     filter (\<lambda>r. ru_key r = k \<and> sc_stage (ru_scope r) = sc_stage (oq_scope q) \<and> sc_stage (ru_scope r) \<noteq> [] \<and>
         rule_in_force q r) rules"

inductive rule_turns :: "overlay_query \<Rightarrow> overlay_rule \<Rightarrow> config_record option \<Rightarrow> config_record option \<Rightarrow> bool"
  for q :: overlay_query and r :: overlay_rule where
  adds: "ru_action r = ActionAdd \<Longrightarrow> ru_content r = Some d \<Longrightarrow>
    rule_turns q r None (Some \<lparr>cr_collection = oq_collection q, cr_environment = sc_environment (oq_scope q),
      cr_key = ru_key r, cr_data = Some d, cr_revision = ru_revision r\<rparr>)"
| modifies: "ru_action r = ActionModify \<Longrightarrow> ru_content r = Some d \<Longrightarrow>
    rule_turns q r (Some c) (Some (c\<lparr>cr_data := Some d, cr_revision := ru_revision r\<rparr>))"
| deletes: "ru_action r = ActionDelete \<Longrightarrow> ru_content r = None \<Longrightarrow> rule_turns q r (Some c) None"

inductive rules_turn :: "overlay_query \<Rightarrow> overlay_rule list \<Rightarrow> config_record option \<Rightarrow> config_record option \<Rightarrow> bool"
  for q :: overlay_query where
  no_rule: "rules_turn q [] c c"
| first_rule: "rule_turns q r c d \<Longrightarrow> rules_turn q rs d e \<Longrightarrow> rules_turn q (r # rs) c e"

inductive_simps rules_turn_simps [simp]: "rules_turn q [] c e" "rules_turn q (r # rs) c e"

definition last_base_record :: "overlay_query \<Rightarrow> config_record list \<Rightarrow> string \<Rightarrow> config_record option" where
  "last_base_record q base k =
     (case rev (filter (\<lambda>r. cr_key r = k \<and> cr_collection r = oq_collection q \<and>
          cr_environment r = sc_environment (oq_scope q)) base) of
        [] \<Rightarrow> None
      | r # _ \<Rightarrow> Some (r\<lparr>cr_data := Some (deref_map (cr_data r))\<rparr>))"

lemma rule_turns_iff: "rule_turns q r c d \<longleftrightarrow> step_key q r c = Inr d"
  by (auto simp: rule_turns.simps step_key_def content_matches_action_def split: action.splits option.splits)

lemma rules_turn_iff: "rules_turn q rs c d \<longleftrightarrow> rfold (\<lambda>c r. step_key q r c) c rs = Inr d"
  by (induction rs arbitrary: c) (auto simp: rule_turns_iff rbind_Inr_iff)

lemma rules_turn_append: "rules_turn q (rs @ ss) c e \<longleftrightarrow> (\<exists>d. rules_turn q rs c d \<and> rules_turn q ss d e)"
  by (induction rs arbitrary: c) auto

lemma last_base_record_value: "last_base_record q base k = base_value q base k"
  by (induction base rule: rev_induct)
    (auto simp: last_base_record_def base_value_def base_in_query_def clone_data_def)

text \<open>A rule the evaluator got past is visible exactly if its ranges as stored cover the bucket.\<close>

lemma rollout_visible_covers:
  assumes "rollout_visible q r = Inr v"
  shows "v \<longleftrightarrow> ru_ranges r = [] \<or>
    (\<exists>b. oq_bucket q = Some b \<and> (\<exists>g \<in> set (ru_ranges r). br_start g \<le> b \<and> b \<le> br_end g))"
  using assms
  by (auto simp: rollout_visible_def canonical_ranges_def rbind_Inr_iff rerror_Inr_iff normalize_ranges_Inr list_ex_iff
      split: if_splits option.splits)

lemma evaluated_layer_rules:
  assumes "evaluate_map q base rules = Inr m" "stage \<in> set (query_stages q)"
  shows "filter (\<lambda>r. ru_key r = k) (visible_rules q stage rules) =
    filter (\<lambda>r. ru_key r = k \<and> sc_stage (ru_scope r) = stage \<and> rule_in_force q r) rules"
proof -
  obtain a b where layer: "rfold (evaluate_rule q stage) a rules = Inr b"
    using rfold_each [OF assms [unfolded evaluate_map_def]] by blast
  have visible: "\<exists>v. rollout_visible q r = Inr v" if "r \<in> set rules" "rule_in_layer q stage r" for r
    using rfold_each [OF layer that(1)] that(2) by (auto simp: evaluate_rule_def rbind_Inr_iff)
  then have "rule_in_layer q stage r \<and> rollout_visible q r = Inr True \<longleftrightarrow>
      sc_stage (ru_scope r) = stage \<and> rule_in_force q r" if "r \<in> set rules" for r
  proof (cases "rule_in_layer q stage r")
    case True
    with visible that obtain v where v: "rollout_visible q r = Inr v" by blast
    from rollout_visible_covers [OF v] v True show ?thesis by (cases v) (simp_all add: rule_in_layer_def rule_in_force_def)
  qed (auto simp: rule_in_layer_def rule_in_force_def)
  then show ?thesis unfolding visible_rules_def filter_filter by (intro filter_cong) auto
qed

lemma effective_value_layers:
  assumes "evaluate_map q base rules = Inr m"
  shows "effective_value q base rules k = Inr e \<longleftrightarrow>
    rules_turn q (environment_layer q rules k @ stage_layer q rules k) (last_base_record q base k) e"
proof -
  note layer = evaluated_layer_rules [OF assms]
  show ?thesis
  proof (cases "sc_stage (oq_scope q) = []")
    case True
    then have "stage_layer q rules k = []" by (auto simp: stage_layer_def filter_empty_conv)
    with True layer [of "[]"] show ?thesis
      by (simp add: effective_value_def query_stages_def layer_value_def rules_turn_iff environment_layer_def
          last_base_record_value rbind_Inr_iff)
  next
    case False
    then have "filter (\<lambda>r. ru_key r = k) (visible_rules q (sc_stage (oq_scope q)) rules) = stage_layer q rules k"
      by (subst layer) (auto simp: query_stages_def stage_layer_def intro!: filter_cong)
    moreover have "filter (\<lambda>r. ru_key r = k) (visible_rules q [] rules) = environment_layer q rules k"
      by (subst layer) (auto simp: query_stages_def environment_layer_def)
    ultimately show ?thesis
      using False unfolding rules_turn_append
      by (simp add: effective_value_def query_stages_def layer_value_def rules_turn_iff last_base_record_value
          rbind_Inr_iff)
  qed
qed

text \<open>
  C22: Evaluation is per key and layered: whenever it succeeds, the result lists, in ascending key
  order and once each, exactly the records that the rules in force for their key turn the last
  base record of the key into, first the rules of the environment layer and then those of the
  stage of the query. A rule is in force if it has the collection, region and environment asked
  for, is activated and not expired, and its ranges, if it has any, cover the bucket of the query.
\<close>

theorem evaluate_per_key:
  assumes "evaluate q base rules = Inr out"
  shows "sorted (map cr_key out) \<and> distinct (map cr_key out) \<and>
    (\<forall>r. r \<in> set out \<longleftrightarrow>
       rules_turn q (environment_layer q rules (cr_key r) @ stage_layer q rules (cr_key r))
         (last_base_record q base (cr_key r)) (Some r))"
proof -
  from assms obtain m where "evaluate_map q base rules = Inr m" by (auto simp: evaluate_def rbind_Inr_iff)
  from effective_value_layers [OF this] evaluate_exact [OF assms] show ?thesis by simp
qed

theorem evaluate_per_key_witness:
  "\<exists>out. evaluate (sample_query None) [sample_base] [sample_rule [] (Some sample_desired)] = Inr out \<and>
     sorted (map cr_key out)"
proof -
  have "is_ok (evaluate (sample_query None) [sample_base] [sample_rule [] (Some sample_desired)])" by code_simp
  then show ?thesis using evaluate_per_key by (auto simp: is_ok_iff)
qed

text \<open>
  Evaluated records stay in the query: each has the collection and environment asked for,
  data that is present, and comes from a base record or a rule of its own key.
\<close>

lemma evaluate_records_in_query:
  assumes "evaluate q base rules = Inr out" "r \<in> set out"
  shows "cr_collection r = oq_collection q \<and> cr_environment r = sc_environment (oq_scope q) \<and> cr_data r \<noteq> None"
proof -
  from assms obtain m where m: "evaluate_map q base rules = Inr m" "out = sorted_values m"
    by (auto simp: evaluate_def rbind_Inr_iff)
  then have "fmlookup m (cr_key r) = Some r" using sorted_values_lookup [OF evaluate_map_ok] assms(2) by blast
  then show ?thesis using evaluate_map_ok [OF m(1)] by (auto simp: records_ok_def record_in_query_def base_in_query_def)
qed

text \<open>
  Without a preview bucket a query sees no percentage rollout: rules with ranges can be
  dropped from the rule set without changing the result, errors included.
\<close>

lemma evaluate_without_bucket:
  assumes "oq_bucket q = None"
  shows "evaluate q base (filter (\<lambda>r. ru_ranges r = []) rules) = evaluate q base rules"
proof -
  have ranged: "rule_invisible q r" if "ru_ranges r \<noteq> []" for r
    using that assms by (simp add: rule_invisible_def rollout_visible_def)
  have "filter (\<lambda>r. \<not> rule_invisible q r) (filter (\<lambda>r. ru_ranges r = []) rules) =
      filter (\<lambda>r. \<not> rule_invisible q r) rules"
    unfolding filter_filter using ranged by (intro filter_cong) auto
  then show ?thesis using evaluate_map_drop_invisible unfolding evaluate_def by metis
qed

text \<open>
  C23: A compiled rule brings about what it was compiled for: evaluated in its own scope over the
  base it was derived from, an active rule without rollout turns exactly the record of its key
  into the desired one (or removes it) and leaves every other record as the base has it.
\<close>

theorem compiled_rule_takes_effect:
  assumes rule: "compile_rule spec = Inr rule"
    and active: "rs_activated spec \<noteq> None" "rs_expired spec = None" "rs_ranges spec = []"
    and query: "oq_collection q = rs_collection spec" "oq_scope q = rs_scope spec"
    and base: "base_value q base (rs_key spec) = rs_base spec"
  shows "\<exists>out. evaluate q base [rule] = Inr out \<and>
    (\<forall>x. cr_key x \<noteq> rs_key spec \<longrightarrow> (x \<in> set out \<longleftrightarrow> base_value q base (cr_key x) = Some x)) \<and>
    (case rs_desired spec of
       None \<Rightarrow> \<forall>x \<in> set out. cr_key x \<noteq> rs_key spec
     | Some w \<Rightarrow> \<exists>x \<in> set out. cr_key x = rs_key spec \<and> cr_data x = cr_data w \<and> cr_revision x = rs_revision spec)"
proof -
  note facts = compile_rule_Inr [OF rule]
  let ?m0 = "initial_records q base"
  have look: "fmlookup ?m0 (ru_key rule) = rs_base spec" using base facts(3) by (simp add: initial_records_lookup)
  have ranges: "ru_ranges rule = []" using facts(5) active(3) by (simp add: normalize_ranges_Inr)
  have layer: "rule_in_layer q stage rule \<longleftrightarrow> stage = sc_stage (rs_scope spec)" for stage
    using facts(1,2,9,10) active query by (auto simp: rule_in_layer_def)
  have stage: "sc_stage (oq_scope q) \<noteq> []" "[] \<noteq> sc_stage (rs_scope spec)"
    using facts(2,14) query(2) by auto
  have map: "evaluate_map q base [rule] = apply_rule q ?m0 rule"
  proof -
    have "evaluate_rule q [] ?m0 rule = Inr ?m0" "evaluate_rule q (sc_stage (oq_scope q)) ?m0 rule = apply_rule q ?m0 rule"
      using layer stage query(2) ranges by (simp_all add: evaluate_rule_def rollout_visible_def)
    then show ?thesis using stage(1) by (simp add: evaluate_map_def query_stages_def) (simp add: rbind_def split: sum.splits)
  qed
  obtain new where new: "step_key q rule (rs_base spec) = Inr new"
    "case rs_desired spec of None \<Rightarrow> new = None
     | Some w \<Rightarrow> \<exists>x. new = Some x \<and> cr_key x = rs_key spec \<and> cr_data x = cr_data w \<and> cr_revision x = rs_revision spec"
  proof -
    have key: "absent_or (\<lambda>b. cr_key b = rs_key spec) (rs_base spec)"
      using facts(8) by (cases "rs_base spec") (simp_all add: matches_target_def)
    show ?thesis
      using facts(3,4,6,7,11) key compile_rule_content [OF rule] that
      by (cases "rs_desired spec"; cases "rs_base spec")
        (auto simp: step_key_def derive_rule_def clone_data_def)
  qed
  define m where "m = (case new of None \<Rightarrow> fmdrop (ru_key rule) ?m0 | Some x \<Rightarrow> fmupd (ru_key rule) x ?m0)"
  have run: "evaluate_map q base [rule] = Inr m" by (simp add: map apply_rule_step look new(1) m_def)
  note ok = evaluate_map_ok [OF run]
  have at: "fmlookup m (rs_key spec) = new" "\<And>k. k \<noteq> rs_key spec \<Longrightarrow> fmlookup m k = base_value q base k"
    using facts(3) by (auto simp: m_def initial_records_lookup split: option.splits)
  have "evaluate q base [rule] = Inr (sorted_values m)" using run by (simp add: evaluate_def)
  moreover have "\<forall>x. cr_key x \<noteq> rs_key spec \<longrightarrow> (x \<in> set (sorted_values m) \<longleftrightarrow> base_value q base (cr_key x) = Some x)"
    using at(2) sorted_values_lookup [OF ok] by auto
  moreover have "case rs_desired spec of
       None \<Rightarrow> \<forall>x \<in> set (sorted_values m). cr_key x \<noteq> rs_key spec
     | Some w \<Rightarrow> \<exists>x \<in> set (sorted_values m). cr_key x = rs_key spec \<and> cr_data x = cr_data w \<and>
         cr_revision x = rs_revision spec"
    using new(2) at(1) sorted_values_lookup [OF ok] by (cases "rs_desired spec") auto
  ultimately show ?thesis by blast
qed

theorem compiled_rule_takes_effect_witness:
  "\<exists>out. evaluate (sample_query None) [sample_base] [sample_rule [] (Some sample_desired)] = Inr out \<and>
     (\<exists>x \<in> set out. cr_key x = ''k'' \<and> cr_data x = Some (fmap_of_list [(''v'', ''2'')]) \<and> cr_revision x = 8)"
proof -
  have "is_ok (compile_rule (sample_rule_spec [] (Some sample_desired)))" by code_simp
  then have "compile_rule (sample_rule_spec [] (Some sample_desired)) = Inr (sample_rule [] (Some sample_desired))"
    by (auto simp: sample_rule_def is_ok_iff)
  moreover have "base_value (sample_query None) [sample_base] ''k'' = Some sample_base"
    by (simp add: base_value_def base_in_query_def sample_query_def sample_base_def sample_scope_def)
  ultimately show ?thesis
    using compiled_rule_takes_effect [of "sample_rule_spec [] (Some sample_desired)"
        "sample_rule [] (Some sample_desired)" "sample_query None" "[sample_base]"]
    by (auto simp: sample_rule_spec_def sample_query_def sample_desired_def)
qed

end
