(* ===== verification/Release_Types.thy ===== *)
theory Release_Types
  imports Overlay_Rules
begin

text \<open>
  The data of the release aggregate: \<open>internal/release/domain/order.go\<close> (lines 18 to 321) and
  the parameter types of \<open>template.go\<close>. A release \<open>Scope\<close> and an overlay \<open>Scope\<close> are the same
  structure, so one record stands for both (\<open>overlayScope\<close> is the identity); a \<open>ChangeAction\<close> is
  an overlay \<open>Action\<close>. A slice that is nil and one that is empty are one list.

  The clone functions copy pointers; what they change of a value is that the clone of a nil
  map is an empty map, so they are the identity except on \<open>Data\<close> and \<open>Content\<close>.
\<close>

datatype release_error =
    ErrInvalid
  | ErrAborted
  | ErrFailedPrecondition
  | ErrIdempotencyKeyReused
  | ErrActiveConflict
  | ErrForbidden

datatype order_status = OrderInProgress | OrderSucceeded | OrderRolledBack | OrderRejected

datatype item_status = ItemPending | ItemApplied | ItemRolledBack

datatype step_type =
    StepManualReview
  | StepOverlayApply
  | StepPercentRollout
  | StepBaseApply
  | StepCompare
  | StepComplete
  | StepTypeOther string

datatype step_status =
    StepPending
  | StepExecuting
  | StepExecuted
  | StepApproved
  | StepRejected
  | StepRolledBack

datatype approval_status = ApprovalPending | ApprovalApproved | ApprovalRejected

datatype self_approval = SelfApprovalDenyProduction | SelfApprovalAllow | SelfApprovalOther string

datatype compare_mode = CompareEffective | CompareBase | CompareModeOther string

datatype final_effect = FinalEffectBase | FinalEffectOverlay | FinalEffectOther string

datatype effect_type = StepEffectBase | StepEffectOverlay | StepEffectPercent | EffectTypeOther string

record principal =
  pr_subject :: string
  pr_roles :: "string list"

record approval_state =
  ap_status :: approval_status
  ap_requested_at :: gotime
  ap_requested_by :: string
  ap_decided_at :: "gotime option"
  ap_decided_by :: string
  ap_comment :: string

section \<open>Effects\<close>

record base_change =
  bc_action :: action
  bc_before :: "config_record option"
  bc_after :: "config_record option"

record rule_change =
  rc_key :: string
  rc_previous :: "overlay_rule option"
  rc_new :: "overlay_rule option"

record overlay_effect =
  oe_version :: int
  oe_collection :: string
  oe_scope :: scope
  oe_previous :: u64
  oe_applied :: u64
  oe_changes :: "rule_change list"
  oe_at :: gotime
  oe_by :: string

record percent_effect =
  pe_version :: int
  pe_collection :: string
  pe_scope :: scope
  pe_previous :: u64
  pe_applied :: u64
  pe_added :: "bucket_range list"
  pe_changes :: "rule_change list"
  pe_at :: gotime
  pe_by :: string

record base_effect =
  be_version :: int
  be_collection :: string
  be_scope :: scope
  be_previous :: u64
  be_applied :: u64
  be_changes :: "base_change list"
  be_overlay :: "rule_change list"
  be_at :: gotime
  be_by :: string

record step_effect =
  se_version :: int
  se_type :: effect_type
  se_overlay :: "overlay_effect option"
  se_percent :: "percent_effect option"
  se_base :: "base_effect option"

record compare_result =
  cp_expected :: digest
  cp_actual :: digest
  cp_diff_keys :: "string list"
  cp_checked_at :: gotime

section \<open>The aggregate\<close>

record item =
  it_id :: string
  it_action :: action
  it_collection :: string
  it_key :: string
  it_base_before :: "config_record option"
  it_effective_before :: "config_record option"
  it_after :: "config_record option"
  it_record_revision :: u64
  it_collection_revision :: u64
  it_preserve :: "string list"
  it_status :: item_status
  it_conflict_key :: string

record step_state =
  ss_code :: string
  ss_type :: step_type
  ss_status :: step_status
  ss_roles :: "string list"
  ss_self_approval :: self_approval
  ss_ranges :: "bucket_range list"
  ss_compare_mode :: compare_mode
  ss_preview_bucket :: "int option"
  ss_approval :: "approval_state option"
  ss_effect :: "step_effect option"
  ss_compare :: "compare_result option"
  ss_executed_at :: "gotime option"
  ss_executed_by :: string
  ss_rolled_back_at :: "gotime option"
  ss_rolled_back_by :: string

record order =
  or_id :: string
  or_number :: string
  or_idempotency_key :: string
  or_model :: string
  or_template :: string
  or_template_version :: u64
  or_release_type :: string
  or_digest :: string
  or_description :: string
  or_compensates :: string
  or_scope :: scope
  or_created_by :: string
  or_created_at :: gotime
  or_updated_by :: string
  or_updated_at :: gotime
  or_completed_at :: "gotime option"
  or_status :: order_status
  or_revision :: u64
  or_current :: nat
  or_steps :: "step_state list"
  or_items :: "item list"

text \<open>What the database holds for a release: the collection revision, records and active rules.\<close>

record authority =
  au_revision :: u64
  au_records :: "string \<Rightarrow> config_record option"
  au_rules :: "string \<Rightarrow> overlay_rule option"

section \<open>Clones and comparisons\<close>

definition clone_record :: "config_record \<Rightarrow> config_record" where
  "clone_record r = r\<lparr>cr_data := clone_data (cr_data r)\<rparr>"

definition clone_rule :: "overlay_rule \<Rightarrow> overlay_rule" where
  "clone_rule r = r\<lparr>ru_content := clone_data (ru_content r)\<rparr>"

definition clone_rule_change :: "rule_change \<Rightarrow> rule_change" where
  "clone_rule_change c =
     \<lparr>rc_key = rc_key c, rc_previous = map_option clone_rule (rc_previous c),
      rc_new = map_option clone_rule (rc_new c)\<rparr>"

definition clone_base_change :: "base_change \<Rightarrow> base_change" where
  "clone_base_change c =
     \<lparr>bc_action = bc_action c, bc_before = map_option clone_record (bc_before c),
      bc_after = map_option clone_record (bc_after c)\<rparr>"

definition clone_overlay_effect :: "overlay_effect \<Rightarrow> overlay_effect" where
  "clone_overlay_effect e = e\<lparr>oe_changes := map clone_rule_change (oe_changes e)\<rparr>"

definition clone_percent_effect :: "percent_effect \<Rightarrow> percent_effect" where
  "clone_percent_effect e = e\<lparr>pe_changes := map clone_rule_change (pe_changes e)\<rparr>"

definition clone_base_effect :: "base_effect \<Rightarrow> base_effect" where
  "clone_base_effect e =
     e\<lparr>be_changes := map clone_base_change (be_changes e),
       be_overlay := map clone_rule_change (be_overlay e)\<rparr>"

definition clone_step_effect :: "step_effect \<Rightarrow> step_effect" where
  "clone_step_effect e =
     e\<lparr>se_base := map_option clone_base_effect (se_base e),
       se_overlay := map_option clone_overlay_effect (se_overlay e),
       se_percent := map_option clone_percent_effect (se_percent e)\<rparr>"

definition clone_item :: "item \<Rightarrow> item" where
  "clone_item i =
     i\<lparr>it_base_before := map_option clone_record (it_base_before i),
       it_effective_before := map_option clone_record (it_effective_before i),
       it_after := map_option clone_record (it_after i)\<rparr>"

definition clone_step :: "step_state \<Rightarrow> step_state" where
  "clone_step s = s\<lparr>ss_effect := map_option clone_step_effect (ss_effect s)\<rparr>"

text \<open>\<open>Order.Clone\<close>.\<close>

definition clone_order :: "order \<Rightarrow> order" where
  "clone_order ord = ord\<lparr>or_steps := map clone_step (or_steps ord), or_items := map clone_item (or_items ord)\<rparr>"

text \<open>\<open>equalData\<close>: the second map is read with the empty string as default.\<close>

definition equal_data :: "data option \<Rightarrow> data option \<Rightarrow> bool" where
  "equal_data l r =
     (let l' = deref_map l; r' = deref_map r
      in map_len l' = map_len r' \<and> list_all (\<lambda>k. map_read r' k = map_read l' k) (sorted_keys l'))"

definition has_required_role :: "string list \<Rightarrow> string list \<Rightarrow> bool" where
  "has_required_role actual required = list_ex (\<lambda>r. r \<in> set actual) required"

lemma clone_data_idem [simp]: "clone_data (clone_data d) = clone_data d"
  by (simp add: clone_data_def)

lemma clone_data_Some_iff: "clone_data d = d \<longleftrightarrow> d \<noteq> None"
  by (cases d) simp_all

lemma clone_record_idem [simp]: "clone_record (clone_record r) = clone_record r"
  by (simp add: clone_record_def)

lemma clone_rule_idem [simp]: "clone_rule (clone_rule r) = clone_rule r"
  by (simp add: clone_rule_def)

lemma clone_record_simps [simp]:
  "cr_collection (clone_record r) = cr_collection r" "cr_environment (clone_record r) = cr_environment r"
  "cr_key (clone_record r) = cr_key r" "cr_revision (clone_record r) = cr_revision r"
  "cr_data (clone_record r) = clone_data (cr_data r)"
  by (simp_all add: clone_record_def)

lemma clone_record_id: "cr_data r \<noteq> None \<Longrightarrow> clone_record r = r"
  by (cases r) (simp add: clone_record_def clone_data_Some_iff)

lemma clone_rule_simps [simp]:
  "ru_collection (clone_rule r) = ru_collection r" "ru_scope (clone_rule r) = ru_scope r"
  "ru_key (clone_rule r) = ru_key r" "ru_action (clone_rule r) = ru_action r"
  "ru_content (clone_rule r) = clone_data (ru_content r)" "ru_ranges (clone_rule r) = ru_ranges r"
  "ru_order (clone_rule r) = ru_order r" "ru_revision (clone_rule r) = ru_revision r"
  "ru_activated (clone_rule r) = ru_activated r" "ru_expired (clone_rule r) = ru_expired r"
  "ru_id (clone_rule r) = ru_id r"
  by (simp_all add: clone_rule_def)

lemma map_option_clone_idem [simp]:
  "map_option clone_record (map_option clone_record x) = map_option clone_record x"
  "map_option clone_rule (map_option clone_rule y) = map_option clone_rule y"
  by (simp_all add: option.map_comp comp_def)

lemma deref_clone [simp]: "deref_map (clone_data d) = deref_map d"
  by (simp add: clone_data_def)

lemma equal_data_refl [simp]: "equal_data d d"
  by (simp add: equal_data_def Let_def list_all_iff)

lemma equal_data_clone [simp]:
  "equal_data (clone_data l) r = equal_data l r" "equal_data l (clone_data r) = equal_data l r"
  by (simp_all add: equal_data_def)

text \<open>On maps with the same keys the comparison is exact.\<close>

lemma equal_data_same_keys:
  assumes "fmdom l = fmdom r"
  shows "equal_data (Some l) (Some r) \<longleftrightarrow> l = r"
proof
  assume eq: "equal_data (Some l) (Some r)"
  show "l = r"
  proof (rule fmap_eqI)
    fix k
    show "fmlookup l k = fmlookup r k"
    proof (cases "k |\<in>| fmdom l")
      case True
      then have "map_read r k = map_read l k" using eq by (simp add: equal_data_def Let_def list_all_iff)
      moreover obtain a b where "fmlookup l k = Some a" "fmlookup r k = Some b"
        using True assms by (metis fmlookup_dom_iff)
      ultimately show ?thesis by (simp add: map_read_def)
    next
      case False
      then show ?thesis using assms by (metis fmdom_notD)
    qed
  qed
qed simp

lemma has_required_role_iff:
  "has_required_role actual required \<longleftrightarrow> set actual \<inter> set required \<noteq> {}"
  by (auto simp: has_required_role_def list_ex_iff)

end
