(* ===== verification/Release_Effects.thy ===== *)
theory Release_Effects
  imports Release_Types
begin

text \<open>
  Step effects: their validation (\<open>internal/release/domain/effect_codec.go\<close>) and the inverse
  changes that a rollback plans (\<open>inverseBaseChanges\<close> and \<open>inverseOverlayChanges\<close> of
  \<open>internal/release/domain/order.go\<close>). The authority maps that the code updates while it plans
  are passed and returned.
\<close>

type_synonym effect_error = String.literal

definition require :: "effect_error \<Rightarrow> bool \<Rightarrow> effect_error + unit" where
  "require e b = (if b then Inr () else Inl e)"

lemma require_Inr [go_results]: "require e b = Inr u \<longleftrightarrow> b"
  by (simp add: require_def)

section \<open>Validation\<close>

definition step_effect_version :: int where
  "step_effect_version = 1"

definition validate_effect_identity ::
  "int \<Rightarrow> string \<Rightarrow> scope \<Rightarrow> u64 \<Rightarrow> u64 \<Rightarrow> string \<Rightarrow> bool \<Rightarrow> effect_error + unit" where
  "validate_effect_identity version collection sc previous applied actor zero =
     rbind (require STR ''unsupported payload version'' (version = step_effect_version)) (\<lambda>_.
     rbind (require STR ''complete collection, scope, actor, and execution time are required''
       (\<not> (blank collection \<or> blank (sc_region sc) \<or> blank (sc_environment sc) \<or> blank actor \<or> zero))) (\<lambda>_.
     require STR ''applied revision must be greater than a positive previous revision''
       (\<not> (applied \<le> previous \<or> previous = 0))))"

definition validate_overlay_changes :: "rule_change list \<Rightarrow> bool \<Rightarrow> effect_error + unit" where
  "validate_overlay_changes changes allow_empty =
     rbind (require STR ''%s: changes are required'' (\<not> (changes = [] \<and> \<not> allow_empty))) (\<lambda>_.
     require STR ''%s: each change requires a record key and at least one rule''
       (list_all (\<lambda>c. \<not> (blank (rc_key c) \<or> rc_previous c = None \<and> rc_new c = None)) changes))"

definition valid_base_change :: "base_change \<Rightarrow> bool" where
  "valid_base_change c \<longleftrightarrow>
     bc_action c = ActionAdd \<and> bc_before c = None \<and> bc_after c \<noteq> None \<or>
     bc_action c = ActionModify \<and> bc_before c \<noteq> None \<and> bc_after c \<noteq> None \<or>
     bc_action c = ActionDelete \<and> bc_before c \<noteq> None \<and> bc_after c = None"

definition validate_base_effect :: "base_effect \<Rightarrow> effect_error + unit" where
  "validate_base_effect e =
     rbind (validate_effect_identity (be_version e) (be_collection e) (be_scope e) (be_previous e)
              (be_applied e) (be_by e) (is_zero_time (be_at e))) (\<lambda>_.
     rbind (require STR ''BASE effect: base or overlay changes are required''
       (\<not> (be_changes e = [] \<and> be_overlay e = []))) (\<lambda>_.
     rbind (require STR ''BASE effect: invalid %s change'' (list_all valid_base_change (be_changes e))) (\<lambda>_.
     validate_overlay_changes (be_overlay e) True)))"

definition validate_overlay_effect :: "overlay_effect \<Rightarrow> effect_error + unit" where
  "validate_overlay_effect e =
     rbind (validate_effect_identity (oe_version e) (oe_collection e) (oe_scope e) (oe_previous e)
              (oe_applied e) (oe_by e) (is_zero_time (oe_at e))) (\<lambda>_.
     rbind (require STR ''OVERLAY effect: stage is required'' (\<not> blank (sc_stage (oe_scope e)))) (\<lambda>_.
     validate_overlay_changes (oe_changes e) False))"

definition validate_percent_effect :: "percent_effect \<Rightarrow> effect_error + unit" where
  "validate_percent_effect e =
     rbind (validate_effect_identity (pe_version e) (pe_collection e) (pe_scope e) (pe_previous e)
              (pe_applied e) (pe_by e) (is_zero_time (pe_at e))) (\<lambda>_.
     rbind (require STR ''PERCENT effect: stage and added ranges are required''
       (\<not> (blank (sc_stage (pe_scope e)) \<or> pe_added e = []))) (\<lambda>_.
     rbind (require STR ''PERCENT effect: added range is invalid'' (list_all valid_range (pe_added e))) (\<lambda>_.
     validate_overlay_changes (pe_changes e) False)))"

text \<open>\<open>ValidateStepEffect\<close>: exactly one payload, the one the type names, and it is valid.\<close>

definition validate_step_effect :: "step_effect \<Rightarrow> effect_error + unit" where
  "validate_step_effect e =
     rbind (require STR ''unsupported step effect envelope version'' (se_version e = step_effect_version)) (\<lambda>_.
     rbind (require STR ''step effect envelope must contain exactly one payload''
       (of_bool (se_base e \<noteq> None) + of_bool (se_overlay e \<noteq> None) + of_bool (se_percent e \<noteq> None)
         = (1 :: nat))) (\<lambda>_.
     case se_type e of
       StepEffectBase \<Rightarrow>
         (case (se_base e, se_overlay e, se_percent e) of
            (Some b, None, None) \<Rightarrow> validate_base_effect b
          | _ \<Rightarrow> Inl STR ''BASE step effect payload does not match effect type'')
     | StepEffectOverlay \<Rightarrow>
         (case (se_overlay e, se_base e, se_percent e) of
            (Some b, None, None) \<Rightarrow> validate_overlay_effect b
          | _ \<Rightarrow> Inl STR ''OVERLAY step effect payload does not match effect type'')
     | StepEffectPercent \<Rightarrow>
         (case (se_percent e, se_base e, se_overlay e) of
            (Some b, None, None) \<Rightarrow> validate_percent_effect b
          | _ \<Rightarrow> Inl STR ''PERCENT step effect payload does not match effect type'')
     | EffectTypeOther _ \<Rightarrow> Inl STR ''unsupported step effect type %q''))"

definition base_step_effect :: "base_effect \<Rightarrow> step_effect" where
  "base_step_effect e =
     \<lparr>se_version = 1, se_type = StepEffectBase, se_overlay = None, se_percent = None, se_base = Some e\<rparr>"

definition overlay_step_effect :: "overlay_effect \<Rightarrow> step_effect" where
  "overlay_step_effect e =
     \<lparr>se_version = 1, se_type = StepEffectOverlay, se_overlay = Some e, se_percent = None, se_base = None\<rparr>"

definition percent_step_effect :: "percent_effect \<Rightarrow> step_effect" where
  "percent_step_effect e =
     \<lparr>se_version = 1, se_type = StepEffectPercent, se_overlay = None, se_percent = Some e, se_base = None\<rparr>"

section \<open>Inverse changes\<close>

type_synonym records = "string \<Rightarrow> config_record option"
type_synonym rules = "string \<Rightarrow> overlay_rule option"

text \<open>The record a change left behind, or the error that it drifted.\<close>

definition applied_record :: "records \<Rightarrow> u64 \<Rightarrow> config_record \<Rightarrow> release_error + config_record" where
  "applied_record records applied after =
     (case records (cr_key after) of
        None \<Rightarrow> Inl ErrAborted
      | Some current \<Rightarrow>
          if cr_revision current \<noteq> applied \<or> \<not> equal_data (cr_data current) (cr_data after)
          then Inl ErrAborted else Inr current)"

text \<open>One iteration over the changes of a base effect: the inverse change and the records after it.\<close>

definition inverse_base_change ::
  "u64 \<Rightarrow> records \<Rightarrow> base_change \<Rightarrow> release_error + (base_change \<times> records)" where
  "inverse_base_change applied records source =
     (case bc_action source of
        ActionAdd \<Rightarrow>
          (case bc_after source of
             None \<Rightarrow> Inl ErrFailedPrecondition
           | Some after \<Rightarrow>
               rbind (applied_record records applied after) (\<lambda>current.
               Inr (\<lparr>bc_action = ActionDelete, bc_before = Some (clone_record current), bc_after = None\<rparr>,
                    records(cr_key after := None))))
      | ActionModify \<Rightarrow>
          (case (bc_before source, bc_after source) of
             (Some before, Some after) \<Rightarrow>
               rbind (applied_record records applied after) (\<lambda>current.
               Inr (\<lparr>bc_action = ActionModify, bc_before = Some (clone_record current),
                     bc_after = Some (clone_record before)\<rparr>,
                    records(cr_key after := Some (clone_record before))))
           | _ \<Rightarrow> Inl ErrFailedPrecondition)
      | ActionDelete \<Rightarrow>
          (case bc_before source of
             None \<Rightarrow> Inl ErrAborted
           | Some before \<Rightarrow>
               if records (cr_key before) \<noteq> None then Inl ErrAborted
               else Inr (\<lparr>bc_action = ActionAdd, bc_before = None, bc_after = Some (clone_record before)\<rparr>,
                         records(cr_key before := Some (clone_record before))))
      | ActionOther _ \<Rightarrow> Inl ErrFailedPrecondition)"

definition inverse_base_changes ::
  "base_effect \<Rightarrow> records \<Rightarrow> release_error + (base_change list \<times> records)" where
  "inverse_base_changes e records =
     rfold (\<lambda>(changes, recs) source.
        rbind (inverse_base_change (be_applied e) recs source) (\<lambda>(c, recs').
        Inr (changes @ [c], recs'))) ([], records) (rev (be_changes e))"

text \<open>\<open>reflect.DeepEqual\<close> on two rule pointers is equality of the rules.\<close>

definition inverse_overlay_change ::
  "rules \<Rightarrow> rule_change \<Rightarrow> release_error + (rule_change \<times> rules)" where
  "inverse_overlay_change rules original =
     (let current = rules (rc_key original)
      in if current \<noteq> rc_new original then Inl ErrAborted
         else Inr (\<lparr>rc_key = rc_key original, rc_previous = map_option clone_rule current,
                    rc_new = map_option clone_rule (rc_previous original)\<rparr>,
                   rules(rc_key original := map_option clone_rule (rc_previous original))))"

definition inverse_overlay_changes ::
  "rule_change list \<Rightarrow> rules \<Rightarrow> release_error + (rule_change list \<times> rules)" where
  "inverse_overlay_changes source rules =
     rfold (\<lambda>(changes, rs) original.
        rbind (inverse_overlay_change rs original) (\<lambda>(c, rs').
        Inr (changes @ [c], rs'))) ([], rules) (rev source)"

definition clone_record_authority :: "records \<Rightarrow> records" where
  "clone_record_authority records k = map_option clone_record (records k)"

definition clone_rule_authority :: "rules \<Rightarrow> rules" where
  "clone_rule_authority rules k = map_option clone_rule (rules k)"

section \<open>Facts about validation\<close>

lemma validate_effect_identity_Inr [go_results]:
  "validate_effect_identity version collection sc previous applied actor zero = Inr u \<longleftrightarrow>
     version = 1 \<and> \<not> blank collection \<and> \<not> blank (sc_region sc) \<and> \<not> blank (sc_environment sc) \<and>
     \<not> blank actor \<and> \<not> zero \<and> previous < applied \<and> 0 < previous"
  by (auto simp: validate_effect_identity_def rbind_Inr_iff require_Inr step_effect_version_def
      word_neq_0_conv)

lemma validate_overlay_changes_Inr [go_results]:
  "validate_overlay_changes changes allow = Inr u \<longleftrightarrow>
     (changes = [] \<longrightarrow> allow) \<and>
     (\<forall>c \<in> set changes. \<not> blank (rc_key c) \<and> (rc_previous c \<noteq> None \<or> rc_new c \<noteq> None))"
  by (auto simp: validate_overlay_changes_def rbind_Inr_iff require_Inr list_all_iff)

lemma validate_base_effect_Inr [go_results]:
  "validate_base_effect e = Inr u \<longleftrightarrow>
     is_ok (validate_effect_identity (be_version e) (be_collection e) (be_scope e) (be_previous e)
              (be_applied e) (be_by e) (is_zero_time (be_at e))) \<and>
     (be_changes e \<noteq> [] \<or> be_overlay e \<noteq> []) \<and> (\<forall>c \<in> set (be_changes e). valid_base_change c) \<and>
     is_ok (validate_overlay_changes (be_overlay e) True)"
  by (auto simp: validate_base_effect_def rbind_Inr_iff require_Inr list_all_iff is_ok_iff)

lemma validate_overlay_effect_Inr [go_results]:
  "validate_overlay_effect e = Inr u \<longleftrightarrow>
     is_ok (validate_effect_identity (oe_version e) (oe_collection e) (oe_scope e) (oe_previous e)
              (oe_applied e) (oe_by e) (is_zero_time (oe_at e))) \<and>
     \<not> blank (sc_stage (oe_scope e)) \<and> is_ok (validate_overlay_changes (oe_changes e) False)"
  by (auto simp: validate_overlay_effect_def rbind_Inr_iff require_Inr is_ok_iff)

lemma validate_percent_effect_Inr [go_results]:
  "validate_percent_effect e = Inr u \<longleftrightarrow>
     is_ok (validate_effect_identity (pe_version e) (pe_collection e) (pe_scope e) (pe_previous e)
              (pe_applied e) (pe_by e) (is_zero_time (pe_at e))) \<and>
     \<not> blank (sc_stage (pe_scope e)) \<and> pe_added e \<noteq> [] \<and> (\<forall>r \<in> set (pe_added e). valid_range r) \<and>
     is_ok (validate_overlay_changes (pe_changes e) False)"
  by (auto simp: validate_percent_effect_def rbind_Inr_iff require_Inr is_ok_iff list_all_iff)

lemma validate_step_effect_simps [simp]:
  "validate_step_effect (base_step_effect b) = validate_base_effect b"
  "validate_step_effect (overlay_step_effect ov) = validate_overlay_effect ov"
  "validate_step_effect (percent_step_effect p) = validate_percent_effect p"
  by (simp_all add: validate_step_effect_def base_step_effect_def overlay_step_effect_def
      percent_step_effect_def require_def step_effect_version_def)

text \<open>A valid effect is one of the three envelopes the aggregate builds.\<close>

lemma validate_step_effect_cases:
  assumes "validate_step_effect e = Inr u"
  shows "(\<exists>b. e = base_step_effect b \<and> validate_base_effect b = Inr ()) \<or>
    (\<exists>ov. e = overlay_step_effect ov \<and> validate_overlay_effect ov = Inr ()) \<or>
    (\<exists>p. e = percent_step_effect p \<and> validate_percent_effect p = Inr ())"
  using assms
  by (cases e) (auto simp: validate_step_effect_def rbind_Inr_iff require_Inr base_step_effect_def
      overlay_step_effect_def percent_step_effect_def step_effect_version_def
      split: effect_type.splits option.splits prod.splits)

text \<open>The collection, scope and revisions of an effect, whichever payload it has.\<close>

definition effect_revisions :: "step_effect \<Rightarrow> u64 \<times> u64" where
  "effect_revisions e =
     (case (se_base e, se_overlay e, se_percent e) of
        (Some b, _, _) \<Rightarrow> (be_previous b, be_applied b)
      | (None, Some b, _) \<Rightarrow> (oe_previous b, oe_applied b)
      | (None, None, Some b) \<Rightarrow> (pe_previous b, pe_applied b)
      | (None, None, None) \<Rightarrow> (0, 0))"

lemma effect_revisions_simps [simp]:
  "effect_revisions (base_step_effect b) = (be_previous b, be_applied b)"
  "effect_revisions (overlay_step_effect ov) = (oe_previous ov, oe_applied ov)"
  "effect_revisions (percent_step_effect p) = (pe_previous p, pe_applied p)"
  by (simp_all add: effect_revisions_def base_step_effect_def overlay_step_effect_def percent_step_effect_def)

lemma valid_effect_revisions:
  "validate_step_effect e = Inr u \<Longrightarrow> 0 < fst (effect_revisions e) \<and> fst (effect_revisions e) < snd (effect_revisions e)"
  by (drule validate_step_effect_cases)
    (auto simp: validate_base_effect_Inr validate_overlay_effect_Inr validate_percent_effect_Inr
      is_ok_iff validate_effect_identity_Inr)

end
