(* ===== verification/Release_Template.thy ===== *)
theory Release_Template
  imports Release_Types Go_Json
begin

text \<open>
  Workflow templates: \<open>internal/release/domain/template.go\<close>. The template document is parsed
  from its bytes; \<open>decodeStrict\<close> is the strict struct decoding of \<open>encoding/json\<close>: member names
  match exactly or after case folding, unknown members are refused, \<open>null\<close> leaves the zero
  value. (Where a document repeats a member the last one counts.)
\<close>

type_synonym template_error = String.literal

record step_definition =
  sd_code :: string
  sd_type :: step_type
  sd_roles :: "string list"
  sd_manual_review :: "self_approval option"
  sd_overlay_apply :: bool
  sd_percent_rollout :: "bucket_range list option"
  sd_base_apply :: "bool option"
  sd_compare :: "(compare_mode \<times> int option) option"

record compiled_template =
  ct_final_effect :: final_effect
  ct_steps :: "step_definition list"

text \<open>The zero \<open>CompiledTemplate\<close>.\<close>

definition no_template :: compiled_template where
  "no_template = \<lparr>ct_final_effect = FinalEffectOther [], ct_steps = []\<rparr>"

section \<open>Strict decoding\<close>

text \<open>
  \<open>foldName\<close>: ASCII letters are upper-cased; U+017F folds to S and U+212A to K. No other code
  point folds to an ASCII letter.
\<close>

fun fold_name :: "string \<Rightarrow> string" where
  "fold_name [] = []"
| "fold_name (a # s) =
     (if CHR ''a'' \<le> a \<and> a \<le> CHR ''z'' then char_of (of_char a - (32 :: nat)) # fold_name s
      else if a = CHR 0xC5 \<and> take 1 s = [CHR 0xBF] then CHR ''S'' # fold_name (drop 1 s)
      else if a = CHR 0xE2 \<and> take 2 s = [CHR 0x84, CHR 0xAA] then CHR ''K'' # fold_name (drop 2 s)
      else a # fold_name s)"

definition field_of :: "string list \<Rightarrow> string \<Rightarrow> string option" where
  "field_of known k =
     (if k \<in> set known then Some k else find (\<lambda>f. fold_name f = fold_name k) known)"

definition strict_members :: "string list \<Rightarrow> json \<Rightarrow> (string \<times> json) list option" where
  "strict_members known v =
     (case v of
        JNull \<Rightarrow> Some []
      | JObj kvs \<Rightarrow> those (map (\<lambda>(k, x). map_option (\<lambda>f. (f, x)) (field_of known k)) kvs)
      | _ \<Rightarrow> None)"

definition member :: "(string \<times> json) list \<Rightarrow> string \<Rightarrow> json option" where
  "member ms f = map_of (rev ms) f"

text \<open>A \<open>null\<close> leaves a string, number or boolean as an earlier duplicate set it.\<close>

definition scalar_member :: "(string \<times> json) list \<Rightarrow> string \<Rightarrow> json option" where
  "scalar_member ms f = member (filter (\<lambda>(_, v). v \<noteq> JNull) ms) f"

definition dec_string :: "json option \<Rightarrow> string option" where
  "dec_string v =
     (case v of None \<Rightarrow> Some [] | Some JNull \<Rightarrow> Some [] | Some (JStr s) \<Rightarrow> Some s | _ \<Rightarrow> None)"

definition dec_bool :: "json option \<Rightarrow> bool option" where
  "dec_bool v =
     (case v of None \<Rightarrow> Some False | Some JNull \<Rightarrow> Some False | Some (JBool b) \<Rightarrow> Some b | _ \<Rightarrow> None)"

definition dec_int :: "int \<Rightarrow> json \<Rightarrow> int option" where
  "dec_int bound v =
     (case v of
        JNum t \<Rightarrow> (case parse_int64 t of
          Some n \<Rightarrow> if - bound \<le> n \<and> n < bound then Some n else None | None \<Rightarrow> None)
      | _ \<Rightarrow> None)"

definition dec_int32 :: "json option \<Rightarrow> int option" where
  "dec_int32 v = (case v of None \<Rightarrow> Some 0 | Some JNull \<Rightarrow> Some 0 | Some x \<Rightarrow> dec_int (2 ^ 31) x)"

definition dec_int_pointer :: "json option \<Rightarrow> int option option" where
  "dec_int_pointer v =
     (case v of None \<Rightarrow> Some None | Some JNull \<Rightarrow> Some None
      | Some x \<Rightarrow> map_option Some (dec_int (2 ^ 63) x))"

definition dec_list :: "(json \<Rightarrow> 'a option) \<Rightarrow> json option \<Rightarrow> 'a list option" where
  "dec_list f v =
     (case v of None \<Rightarrow> Some [] | Some JNull \<Rightarrow> Some [] | Some (JArr xs) \<Rightarrow> those (map f xs) | _ \<Rightarrow> None)"

definition dec_range :: "json \<Rightarrow> bucket_range option" where
  "dec_range v =
     (case strict_members [''start'', ''end''] v of None \<Rightarrow> None
      | Some ms \<Rightarrow>
          (case (dec_int32 (scalar_member ms ''start''), dec_int32 (scalar_member ms ''end'')) of
             (Some a, Some b) \<Rightarrow> Some \<lparr>br_start = a, br_end = b\<rparr>
           | _ \<Rightarrow> None))"

definition step_type_of :: "string \<Rightarrow> step_type" where
  "step_type_of s =
     (if s = ''MANUAL_REVIEW'' then StepManualReview
      else if s = ''OVERLAY_APPLY'' then StepOverlayApply
      else if s = ''PERCENT_ROLLOUT'' then StepPercentRollout
      else if s = ''BASE_APPLY'' then StepBaseApply
      else if s = ''COMPARE'' then StepCompare
      else if s = ''COMPLETE'' then StepComplete else StepTypeOther s)"

definition self_approval_of :: "string \<Rightarrow> self_approval" where
  "self_approval_of s =
     (if s = ''DENY_PRODUCTION'' then SelfApprovalDenyProduction
      else if s = ''ALLOW'' then SelfApprovalAllow else SelfApprovalOther s)"

definition compare_mode_of :: "string \<Rightarrow> compare_mode" where
  "compare_mode_of s =
     (if s = ''EFFECTIVE'' then CompareEffective
      else if s = ''BASE'' then CompareBase else CompareModeOther s)"

text \<open>The step envelope: code, type, roles and the undecoded parameters.\<close>

definition dec_envelope :: "json \<Rightarrow> (string \<times> step_type \<times> string list \<times> json option) option" where
  "dec_envelope v =
     (case strict_members [''code'', ''type'', ''requiredRoles'', ''params''] v of None \<Rightarrow> None
      | Some ms \<Rightarrow>
          (case (dec_string (scalar_member ms ''code''), dec_string (scalar_member ms ''type''),
                 dec_list (\<lambda>x. dec_string (Some x)) (member ms ''requiredRoles'')) of
             (Some c, Some t, Some rs) \<Rightarrow> Some (c, step_type_of t, rs, member ms ''params'')
           | _ \<Rightarrow> None))"

section \<open>Compiling a template\<close>

definition compile_role :: "string list \<Rightarrow> string \<Rightarrow> template_error + string list" where
  "compile_role seen role =
     (if role = [] \<or> role \<noteq> trim_space role then Inl STR ''roles must be stable non-empty identifiers''
      else if role \<in> set seen then Inl STR ''duplicate role %q''
      else Inr (seen @ [role]))"

definition compile_roles :: "string list \<Rightarrow> template_error + string list" where
  "compile_roles source = rfold compile_role [] source"

record template_state =
  ts_steps :: "step_definition list"
  ts_base_count :: nat
  ts_overlay_count :: nat
  ts_percent_count :: nat
  ts_complete_count :: nat
  ts_rollout_union :: "bucket_range list"
  ts_seen_base_apply :: bool

definition bad_params :: "'a option \<Rightarrow> template_error + 'a" where
  "bad_params r = from_option STR ''compile template step %q params: %w'' r"

text \<open>Strict decoding of the parameters; an absent value is refused by \<open>decodeStrict\<close>.\<close>

definition params_members :: "string list \<Rightarrow> json option \<Rightarrow> template_error + (string \<times> json) list" where
  "params_members known params =
     bad_params (case params of None \<Rightarrow> None | Some v \<Rightarrow> strict_members known v)"

text \<open>The switch on the step type, after the envelope, code and roles were checked.\<close>

definition compile_step_params ::
  "template_state \<Rightarrow> step_definition \<Rightarrow> json option \<Rightarrow> template_error + template_state" where
  "compile_step_params st step params =
     (case sd_type step of
        StepManualReview \<Rightarrow>
          if sd_roles step = [] then Inl STR ''compile template step %q: manual review requires roles''
          else rbind (params_members [''selfApprovalPolicy''] params) (\<lambda>ms.
               rbind (bad_params (dec_string (scalar_member ms ''selfApprovalPolicy''))) (\<lambda>txt.
               let policy = self_approval_of txt
               in if policy \<noteq> SelfApprovalDenyProduction \<and> policy \<noteq> SelfApprovalAllow
                  then Inl STR ''compile template step %q: invalid self approval policy''
                  else Inr (st\<lparr>ts_steps := ts_steps st @ [step\<lparr>sd_manual_review := Some policy\<rparr>]\<rparr>)))
      | StepBaseApply \<Rightarrow>
          rbind (params_members [''cleanupScopeOverlay''] params) (\<lambda>ms.
          rbind (bad_params (dec_bool (scalar_member ms ''cleanupScopeOverlay''))) (\<lambda>cleanup.
          if \<not> cleanup then Inl STR ''compile template step %q: BASE_FINAL must clean scope overlay''
          else Inr (st\<lparr>ts_base_count := ts_base_count st + 1, ts_seen_base_apply := True,
                 ts_steps := ts_steps st @ [step\<lparr>sd_base_apply := Some True\<rparr>]\<rparr>)))
      | StepOverlayApply \<Rightarrow>
          rbind (params_members [] params) (\<lambda>ms.
          Inr (st\<lparr>ts_overlay_count := ts_overlay_count st + 1,
                 ts_steps := ts_steps st @ [step\<lparr>sd_overlay_apply := True\<rparr>]\<rparr>))
      | StepPercentRollout \<Rightarrow>
          if ts_seen_base_apply st
          then Inl STR ''compile template step %q: percentage rollout must precede BASE_APPLY''
          else rbind (params_members [''ranges''] params) (\<lambda>ms.
               rbind (bad_params (dec_list dec_range (member ms ''ranges''))) (\<lambda>ranges.
               rbind (rerror STR ''compile template step %q: %w'' (expand_rollout_ranges [] ranges)) (\<lambda>canonical.
               rbind (rerror STR ''compile template step %q: %w''
                        (expand_rollout_ranges (ts_rollout_union st) canonical)) (\<lambda>union.
               Inr (st\<lparr>ts_percent_count := ts_percent_count st + 1, ts_rollout_union := union,
                      ts_steps := ts_steps st @ [step\<lparr>sd_percent_rollout := Some canonical\<rparr>]\<rparr>)))))
      | StepCompare \<Rightarrow>
          rbind (params_members [''mode'', ''previewBucket''] params) (\<lambda>ms.
          rbind (bad_params (dec_string (scalar_member ms ''mode''))) (\<lambda>txt.
          rbind (bad_params (dec_int_pointer (member ms ''previewBucket''))) (\<lambda>bucket.
          let mode = compare_mode_of txt
          in if mode \<noteq> CompareEffective \<and> mode \<noteq> CompareBase
             then Inl STR ''compile template step %q: compare mode is invalid''
             else if \<not> absent_or (\<lambda>b. 0 \<le> b \<and> b \<le> 99) bucket
             then Inl STR ''compile template step %q: preview bucket is outside 0..99''
             else Inr (st\<lparr>ts_steps := ts_steps st @ [step\<lparr>sd_compare := Some (mode, bucket)\<rparr>]\<rparr>))))
      | StepComplete \<Rightarrow>
          rbind (params_members [] params) (\<lambda>ms.
          Inr (st\<lparr>ts_complete_count := ts_complete_count st + 1, ts_steps := ts_steps st @ [step]\<rparr>))
      | StepTypeOther _ \<Rightarrow> Inl STR ''compile template step %q: unsupported type %q'')"

definition compile_template_step :: "template_state \<Rightarrow> json \<Rightarrow> template_error + template_state" where
  "compile_template_step st raw =
     rbind (from_option STR ''compile template step %d: %w'' (dec_envelope raw)) (\<lambda>(code, typ, roles, params).
       if code = [] \<or> code \<noteq> trim_space code
       then Inl STR ''compile template step %d: stable code is required''
       else if code \<in> sd_code ` set (ts_steps st) then Inl STR ''compile template: duplicate step code %q''
       else rbind (compile_roles roles) (\<lambda>rs.
            compile_step_params st
              \<lparr>sd_code = code, sd_type = typ, sd_roles = rs, sd_manual_review = None,
               sd_overlay_apply = False, sd_percent_rollout = None, sd_base_apply = None,
               sd_compare = None\<rparr> params))"

definition initial_template_state :: template_state where
  "initial_template_state =
     \<lparr>ts_steps = [], ts_base_count = 0, ts_overlay_count = 0, ts_percent_count = 0,
      ts_complete_count = 0, ts_rollout_union = [], ts_seen_base_apply = False\<rparr>"

definition decode_template_root :: "string \<Rightarrow> json list option" where
  "decode_template_root document =
     (case json_parse document of None \<Rightarrow> None
      | Some v \<Rightarrow> (case strict_members [''steps''] v of None \<Rightarrow> None
          | Some ms \<Rightarrow> dec_list Some (member ms ''steps'')))"

definition compile_template :: "string \<Rightarrow> final_effect \<Rightarrow> template_error + compiled_template" where
  "compile_template document final =
     (if final \<noteq> FinalEffectBase \<and> final \<noteq> FinalEffectOverlay
      then Inl STR ''compile template: final effect is invalid''
      else rbind (from_option STR ''compile template document: %w'' (decode_template_root document)) (\<lambda>raws.
        if raws = [] then Inl STR ''compile template: steps are required''
        else rbind (rfold compile_template_step initial_template_state raws) (\<lambda>st.
          if ts_complete_count st \<noteq> 1 \<or> sd_type (last (ts_steps st)) \<noteq> StepComplete
          then Inl STR ''compile template: exactly one final COMPLETE is required''
          else if final = FinalEffectBase \<and> (ts_base_count st \<noteq> 1 \<or> ts_overlay_count st \<noteq> 0)
          then Inl STR ''compile BASE_FINAL template: exactly one BASE_APPLY and no OVERLAY_APPLY are required''
          else if final = FinalEffectOverlay \<and>
            (ts_overlay_count st \<noteq> 1 \<or> ts_base_count st \<noteq> 0 \<or> ts_percent_count st \<noteq> 0)
          then Inl STR ''compile OVERLAY_FINAL template: exactly one OVERLAY_APPLY and no BASE_APPLY or PERCENT_ROLLOUT are required''
          else Inr \<lparr>ct_final_effect = final, ct_steps = ts_steps st\<rparr>)))"

section \<open>What a compiled template satisfies\<close>

definition count_type :: "step_type \<Rightarrow> step_definition list \<Rightarrow> nat" where
  "count_type t steps = length (filter (\<lambda>s. sd_type s = t) steps)"

text \<open>The buckets a step of the template releases to.\<close>

definition step_buckets :: "step_definition \<Rightarrow> int set" where
  "step_buckets s = (case sd_percent_rollout s of None \<Rightarrow> {} | Some rs \<Rightarrow> buckets rs)"

definition step_definition_ok :: "step_definition \<Rightarrow> bool" where
  "step_definition_ok s \<longleftrightarrow>
     sd_code s \<noteq> [] \<and> trim_space (sd_code s) = sd_code s \<and> distinct (sd_roles s) \<and>
     (case sd_type s of
        StepManualReview \<Rightarrow> sd_roles s \<noteq> [] \<and>
          (sd_manual_review s = Some SelfApprovalDenyProduction \<or> sd_manual_review s = Some SelfApprovalAllow)
      | StepBaseApply \<Rightarrow> sd_base_apply s = Some True
      | StepOverlayApply \<Rightarrow> sd_overlay_apply s
      | StepPercentRollout \<Rightarrow>
          (\<exists>rs. sd_percent_rollout s = Some rs \<and> rs \<noteq> [] \<and> canonical_union rs)
      | StepCompare \<Rightarrow>
          (\<exists>m b. sd_compare s = Some (m, b) \<and> (m = CompareEffective \<or> m = CompareBase) \<and>
             absent_or (\<lambda>n. 0 \<le> n \<and> n \<le> 99) b)
      | StepComplete \<Rightarrow> True
      | StepTypeOther _ \<Rightarrow> False)"

definition template_ok :: "compiled_template \<Rightarrow> bool" where
  "template_ok t \<longleftrightarrow>
     (let steps = ct_steps t in
      distinct (map sd_code steps) \<and> (\<forall>s \<in> set steps. step_definition_ok s) \<and>
      count_type StepComplete steps = 1 \<and> sd_type (last steps) = StepComplete \<and>
      sorted_wrt (\<lambda>a b. step_buckets a \<inter> step_buckets b = {}) steps \<and>
      sorted_wrt (\<lambda>a b. sd_type b = StepPercentRollout \<longrightarrow> sd_type a \<noteq> StepBaseApply) steps \<and>
      (ct_final_effect t = FinalEffectBase \<and>
         count_type StepBaseApply steps = 1 \<and> count_type StepOverlayApply steps = 0 \<or>
       ct_final_effect t = FinalEffectOverlay \<and>
         count_type StepOverlayApply steps = 1 \<and> count_type StepBaseApply steps = 0 \<and>
         count_type StepPercentRollout steps = 0))"

definition template_state_ok :: "template_state \<Rightarrow> bool" where
  "template_state_ok st \<longleftrightarrow>
     (let steps = ts_steps st in
      distinct (map sd_code steps) \<and> (\<forall>s \<in> set steps. step_definition_ok s) \<and>
      ts_base_count st = count_type StepBaseApply steps \<and>
      ts_overlay_count st = count_type StepOverlayApply steps \<and>
      ts_percent_count st = count_type StepPercentRollout steps \<and>
      ts_complete_count st = count_type StepComplete steps \<and>
      (ts_seen_base_apply st \<longleftrightarrow> (\<exists>s \<in> set steps. sd_type s = StepBaseApply)) \<and>
      buckets (ts_rollout_union st) = (\<Union>s \<in> set steps. step_buckets s) \<and>
      sorted_wrt (\<lambda>a b. step_buckets a \<inter> step_buckets b = {}) steps \<and>
      sorted_wrt (\<lambda>a b. sd_type b = StepPercentRollout \<longrightarrow> sd_type a \<noteq> StepBaseApply) steps)"

lemma compile_roles_distinct:
  assumes "compile_roles source = Inr rs" shows "distinct rs"
  using assms unfolding compile_roles_def
  by (rule rfold_invariant) (auto simp: compile_role_def split: if_splits)

lemma count_type_append [simp]:
  "count_type t (xs @ [s]) = count_type t xs + (if sd_type s = t then 1 else 0)"
  by (simp add: count_type_def)

lemma bad_params_Inr [go_results]: "bad_params r = Inr x \<longleftrightarrow> r = Some x"
  by (simp add: bad_params_def from_option_Inr)

text \<open>Adding a step whose buckets are new.\<close>

lemma template_state_add:
  assumes "template_state_ok st" "step_definition_ok s" "sd_code s \<notin> sd_code ` set (ts_steps st)"
    and "ts_steps st' = ts_steps st @ [s]"
    and "ts_base_count st' = ts_base_count st + (if sd_type s = StepBaseApply then 1 else 0)"
    and "ts_overlay_count st' = ts_overlay_count st + (if sd_type s = StepOverlayApply then 1 else 0)"
    and "ts_percent_count st' = ts_percent_count st + (if sd_type s = StepPercentRollout then 1 else 0)"
    and "ts_complete_count st' = ts_complete_count st + (if sd_type s = StepComplete then 1 else 0)"
    and "ts_seen_base_apply st' \<longleftrightarrow> ts_seen_base_apply st \<or> sd_type s = StepBaseApply"
    and "buckets (ts_rollout_union st') = buckets (ts_rollout_union st) \<union> step_buckets s"
    and "buckets (ts_rollout_union st) \<inter> step_buckets s = {}"
    and "sd_type s = StepPercentRollout \<longrightarrow> \<not> ts_seen_base_apply st"
  shows "template_state_ok st'"
  using assms unfolding template_state_ok_def Let_def
  by (simp only: assms(4)) (auto simp: sorted_wrt_append Un_commute)

text \<open>The steps without a rollout add no buckets.\<close>

lemma compile_step_params_ok:
  assumes "template_state_ok st" "compile_step_params st s params = Inr st'"
    and "sd_code s \<notin> sd_code ` set (ts_steps st)" "sd_code s \<noteq> []" "trim_space (sd_code s) = sd_code s"
    and "distinct (sd_roles s)" "sd_percent_rollout s = None"
  shows "template_state_ok st'"
proof (cases "sd_type s")
  case StepPercentRollout
  with assms(2) obtain ranges canonical union where *:
    "\<not> ts_seen_base_apply st" "expand_rollout_ranges [] ranges = Inr canonical"
    "expand_rollout_ranges (ts_rollout_union st) canonical = Inr union"
    "st' = st\<lparr>ts_percent_count := ts_percent_count st + 1, ts_rollout_union := union,
        ts_steps := ts_steps st @ [s\<lparr>sd_percent_rollout := Some canonical\<rparr>]\<rparr>"
    by (auto simp: compile_step_params_def rbind_Inr_iff rerror_Inr_iff split: if_splits)
  have b: "step_buckets (s\<lparr>sd_percent_rollout := Some canonical\<rparr>) = buckets canonical"
    by (simp add: step_buckets_def)
  note e = expand_rollout_ranges_Inr [OF *(2)] and u = expand_rollout_ranges_Inr [OF *(3)]
  show ?thesis
    by (rule template_state_add [OF assms(1), of "s\<lparr>sd_percent_rollout := Some canonical\<rparr>"])
      (use assms *(1,4) b e u StepPercentRollout in \<open>auto simp: step_definition_ok_def\<close>)
next
  case StepManualReview
  with assms(2) obtain policy where *: "sd_roles s \<noteq> []"
    "policy = SelfApprovalDenyProduction \<or> policy = SelfApprovalAllow"
    "st' = st\<lparr>ts_steps := ts_steps st @ [s\<lparr>sd_manual_review := Some policy\<rparr>]\<rparr>"
    by (auto simp: compile_step_params_def rbind_Inr_iff Let_def split: if_splits)
  show ?thesis
    by (rule template_state_add [OF assms(1), of "s\<lparr>sd_manual_review := Some policy\<rparr>"])
      (use assms * StepManualReview in \<open>auto simp: step_definition_ok_def step_buckets_def\<close>)
next
  case StepCompare
  with assms(2) obtain mode bucket where *: "mode = CompareEffective \<or> mode = CompareBase"
    "absent_or (\<lambda>b. 0 \<le> b \<and> b \<le> 99) bucket"
    "st' = st\<lparr>ts_steps := ts_steps st @ [s\<lparr>sd_compare := Some (mode, bucket)\<rparr>]\<rparr>"
    by (auto simp: compile_step_params_def rbind_Inr_iff Let_def split: if_splits)
  show ?thesis
    by (rule template_state_add [OF assms(1), of "s\<lparr>sd_compare := Some (mode, bucket)\<rparr>"])
      (use assms * StepCompare in \<open>auto simp: step_definition_ok_def step_buckets_def\<close>)
next
  case StepBaseApply
  with assms(2) have *: "st' = st\<lparr>ts_base_count := ts_base_count st + 1, ts_seen_base_apply := True,
      ts_steps := ts_steps st @ [s\<lparr>sd_base_apply := Some True\<rparr>]\<rparr>"
    by (auto simp: compile_step_params_def rbind_Inr_iff split: if_splits)
  show ?thesis
    by (rule template_state_add [OF assms(1), of "s\<lparr>sd_base_apply := Some True\<rparr>"])
      (use assms * StepBaseApply in \<open>auto simp: step_definition_ok_def step_buckets_def\<close>)
next
  case StepOverlayApply
  with assms(2) have *: "st' = st\<lparr>ts_overlay_count := ts_overlay_count st + 1,
      ts_steps := ts_steps st @ [s\<lparr>sd_overlay_apply := True\<rparr>]\<rparr>"
    by (auto simp: compile_step_params_def rbind_Inr_iff)
  show ?thesis
    by (rule template_state_add [OF assms(1), of "s\<lparr>sd_overlay_apply := True\<rparr>"])
      (use assms * StepOverlayApply in \<open>auto simp: step_definition_ok_def step_buckets_def\<close>)
next
  case StepComplete
  with assms(2) have *: "st' = st\<lparr>ts_complete_count := ts_complete_count st + 1, ts_steps := ts_steps st @ [s]\<rparr>"
    by (auto simp: compile_step_params_def rbind_Inr_iff)
  show ?thesis
    by (rule template_state_add [OF assms(1), of s])
      (use assms * StepComplete in \<open>auto simp: step_definition_ok_def step_buckets_def\<close>)
next
  case (StepTypeOther t)
  with assms(2) show ?thesis by (simp add: compile_step_params_def)
qed

lemma compile_template_step_ok:
  assumes "template_state_ok st" "compile_template_step st raw = Inr st'"
  shows "template_state_ok st'"
proof -
  from assms(2) obtain code ty roles rs params where *: "code \<noteq> []" "code = trim_space code"
    "code \<notin> sd_code ` set (ts_steps st)" "compile_roles roles = Inr rs"
    "compile_step_params st
       \<lparr>sd_code = code, sd_type = ty, sd_roles = rs, sd_manual_review = None,
        sd_overlay_apply = False, sd_percent_rollout = None, sd_base_apply = None,
        sd_compare = None\<rparr> params = Inr st'"
    by (auto simp: compile_template_step_def rbind_Inr_iff split: if_splits prod.splits)
  show ?thesis
    by (rule compile_step_params_ok [OF assms(1) *(5)])
      (use * compile_roles_distinct [OF *(4)] in simp_all)
qed

lemma compile_template_ok:
  assumes "compile_template document final = Inr t"
  shows "template_ok t"
proof -
  from assms obtain raws st where *: "final = FinalEffectBase \<or> final = FinalEffectOverlay"
    "rfold compile_template_step initial_template_state raws = Inr st"
    "ts_complete_count st = 1" "sd_type (last (ts_steps st)) = StepComplete"
    "final = FinalEffectBase \<longrightarrow> ts_base_count st = 1 \<and> ts_overlay_count st = 0"
    "final = FinalEffectOverlay \<longrightarrow> ts_overlay_count st = 1 \<and> ts_base_count st = 0 \<and> ts_percent_count st = 0"
    "t = \<lparr>ct_final_effect = final, ct_steps = ts_steps st\<rparr>"
    by (auto simp: compile_template_def rbind_Inr_iff split: if_splits)
  have "template_state_ok st"
    by (rule rfold_invariant [OF *(2)], simp add: template_state_ok_def initial_template_state_def
        count_type_def, rule compile_template_step_ok)
  with * show ?thesis by (auto simp: template_state_ok_def template_ok_def Let_def)
qed

end
