(* ===== verification/Release_Order.thy ===== *)
theory Release_Order
  imports Release_Effects Release_Template
begin

text \<open>
  The release aggregate, first part (\<open>internal/release/domain/order.go\<close>): the two constructors,
  the guards every operation shares, manual review, comparison, advancing and completing. An
  operation takes the order and yields an error or the changed order; the code changes the
  aggregate only after its last check, so an error leaves the order as it was.
\<close>

section \<open>Shared guards\<close>

definition current_step :: "order \<Rightarrow> step_state" where
  "current_step ord = or_steps ord ! or_current ord"

definition set_current_step :: "(step_state \<Rightarrow> step_state) \<Rightarrow> order \<Rightarrow> order" where
  "set_current_step f ord =
     ord\<lparr>or_steps := (or_steps ord)[or_current ord := f (current_step ord)]\<rparr>"

definition bump :: "string \<Rightarrow> gotime \<Rightarrow> order \<Rightarrow> order" where
  "bump actor at ord =
     ord\<lparr>or_revision := or_revision ord + 1, or_updated_by := actor, or_updated_at := at\<rparr>"

text \<open>\<open>requireCurrent\<close>, as a predicate.\<close>

definition at_current :: "order \<Rightarrow> step_type \<Rightarrow> step_status \<Rightarrow> bool" where
  "at_current ord ty st \<longleftrightarrow>
     \<not> (or_status ord \<noteq> OrderInProgress \<or> ss_type (current_step ord) \<noteq> ty \<or> ss_status (current_step ord) \<noteq> st)"

text \<open>The optimistic check that opens every operation of a caller who names a revision.\<close>

definition expect_revision :: "u64 \<Rightarrow> order \<Rightarrow> release_error + unit" where
  "expect_revision expected ord = (if or_revision ord \<noteq> expected then Inl ErrAborted else Inr ())"

definition check :: "release_error \<Rightarrow> bool \<Rightarrow> release_error + unit" where
  "check e b = (if b then Inr () else Inl e)"

lemma check_Inr [go_results]: "check e b = Inr u \<longleftrightarrow> b"
  by (simp add: check_def)

lemma expect_revision_Inr [go_results]: "expect_revision expected ord = Inr u \<longleftrightarrow> or_revision ord = expected"
  by (simp add: expect_revision_def)

text \<open>Clearing the conflict keys of all items, with their new status.\<close>

definition close_items :: "item_status \<Rightarrow> item list \<Rightarrow> item list" where
  "close_items st = map (\<lambda>i. i\<lparr>it_status := st, it_conflict_key := []\<rparr>)"

section \<open>Construction\<close>

record base_item_spec =
  bi_id :: string
  bi_action :: action
  bi_base_before :: "config_record option"
  bi_effective_before :: "config_record option"
  bi_after :: config_record
  bi_record_revision :: u64
  bi_collection_revision :: u64
  bi_preserve :: "string list"

record overlay_item_spec =
  oi_id :: string
  oi_action :: action
  oi_base_before :: "config_record option"
  oi_effective_before :: "config_record option"
  oi_after :: "config_record option"
  oi_record_revision :: u64
  oi_collection_revision :: u64
  oi_preserve :: "string list"

text \<open>\<open>BaseFinalOrderSpec\<close> and \<open>OverlayFinalOrderSpec\<close> differ in the type of their items.\<close>

record 'i order_spec =
  sp_id :: string
  sp_number :: string
  sp_idempotency_key :: string
  sp_model :: string
  sp_template_code :: string
  sp_template_version :: u64
  sp_release_type :: string
  sp_digest :: string
  sp_description :: string
  sp_compensates :: string
  sp_scope :: scope
  sp_created_by :: string
  sp_created_at :: gotime
  sp_items :: "'i list"
  sp_template :: compiled_template

definition trim_scope :: "scope \<Rightarrow> scope" where
  "trim_scope s =
     \<lparr>sc_region = trim_space (sc_region s), sc_environment = trim_space (sc_environment s),
      sc_stage = trim_space (sc_stage s)\<rparr>"

definition base_conflict_key :: "string \<Rightarrow> string \<Rightarrow> string \<Rightarrow> string" where
  "base_conflict_key collection environment key =
     hex_encode (sha256 (json_print (json_strings [''BASE'', collection, environment, key])))"

definition overlay_conflict_key :: "string \<Rightarrow> scope \<Rightarrow> string \<Rightarrow> string" where
  "overlay_conflict_key collection sc key =
     hex_encode (sha256 (json_print (json_strings
       [''OVERLAY'', collection, sc_region sc, sc_environment sc, sc_stage sc, key])))"

text \<open>The identity checks that both constructors start with.\<close>

definition spec_identity_ok :: "'i order_spec \<Rightarrow> bool" where
  "spec_identity_ok spec \<longleftrightarrow>
     \<not> (blank (sp_id spec) \<or> blank (sp_number spec) \<or> blank (sp_idempotency_key spec) \<or>
        blank (sp_model spec) \<or> blank (sp_template_code spec) \<or> sp_template_version spec = 0 \<or>
        blank (sp_release_type spec) \<or> length (sp_digest spec) \<noteq> 64) \<and>
     trim_space (sp_compensates spec) \<noteq> trim_space (sp_id spec)"

definition step_of_definition :: "step_definition \<Rightarrow> step_state" where
  "step_of_definition d =
     \<lparr>ss_code = sd_code d, ss_type = sd_type d, ss_status = StepPending, ss_roles = sd_roles d,
      ss_self_approval = (case sd_manual_review d of None \<Rightarrow> SelfApprovalOther [] | Some p \<Rightarrow> p),
      ss_ranges = (case sd_percent_rollout d of None \<Rightarrow> [] | Some rs \<Rightarrow> rs),
      ss_compare_mode = (case sd_compare d of None \<Rightarrow> CompareModeOther [] | Some (m, _) \<Rightarrow> m),
      ss_preview_bucket = (case sd_compare d of None \<Rightarrow> None | Some (_, b) \<Rightarrow> b),
      ss_approval = None, ss_effect = None, ss_compare = None,
      ss_executed_at = None, ss_executed_by = [], ss_rolled_back_at = None, ss_rolled_back_by = []\<rparr>"

definition plain_step :: "string \<Rightarrow> step_type \<Rightarrow> step_definition" where
  "plain_step code ty =
     \<lparr>sd_code = code, sd_type = ty, sd_roles = [], sd_manual_review = None, sd_overlay_apply = False,
      sd_percent_rollout = None, sd_base_apply = None, sd_compare = None\<rparr>"

definition default_base_steps :: "step_definition list" where
  "default_base_steps = [plain_step ''base-apply'' StepBaseApply, plain_step ''complete'' StepComplete]"

text \<open>The aggregate both constructors return once the items and steps are known.\<close>

definition new_order :: "'i order_spec \<Rightarrow> scope \<Rightarrow> step_state list \<Rightarrow> item list \<Rightarrow> order" where
  "new_order spec sc steps items =
     \<lparr>or_id = sp_id spec, or_number = sp_number spec, or_idempotency_key = sp_idempotency_key spec,
      or_model = sp_model spec, or_template = sp_template_code spec,
      or_template_version = sp_template_version spec, or_release_type = sp_release_type spec,
      or_digest = sp_digest spec, or_description = trim_space (sp_description spec),
      or_compensates = trim_space (sp_compensates spec), or_scope = sc,
      or_created_by = sp_created_by spec, or_created_at = sp_created_at spec,
      or_updated_by = sp_created_by spec, or_updated_at = sp_created_at spec,
      or_completed_at = None, or_status = OrderInProgress, or_revision = 1, or_current = 0,
      or_steps = steps, or_items = items\<rparr>"

definition record_at :: "string \<Rightarrow> string \<Rightarrow> string \<Rightarrow> config_record \<Rightarrow> bool" where
  "record_at collection environment key r \<longleftrightarrow>
     \<not> (cr_collection r \<noteq> collection \<or> cr_environment r \<noteq> environment \<or> cr_key r \<noteq> key \<or> cr_data r = None)"

definition base_item_action :: "base_item_spec \<Rightarrow> action" where
  "base_item_action i = (if bi_action i = ActionOther [] then ActionAdd else bi_action i)"

definition base_item_target :: "base_item_spec \<Rightarrow> config_record option" where
  "base_item_target i =
     (if base_item_action i = ActionDelete
      then (case bi_effective_before i of None \<Rightarrow> bi_base_before i | Some r \<Rightarrow> Some r)
      else Some (bi_after i))"

definition valid_base_item_shape :: "base_item_spec \<Rightarrow> bool" where
  "valid_base_item_shape i \<longleftrightarrow>
     base_item_action i = ActionAdd \<and> bi_base_before i = None \<and> bi_effective_before i = None \<and>
       cr_collection (bi_after i) \<noteq> [] \<and> bi_record_revision i = 0 \<or>
     base_item_action i = ActionModify \<and> bi_base_before i \<noteq> None \<and> bi_effective_before i \<noteq> None \<and>
       cr_collection (bi_after i) \<noteq> [] \<and> bi_record_revision i > 0 \<or>
     base_item_action i = ActionDelete \<and> bi_base_before i \<noteq> None \<and> bi_effective_before i \<noteq> None \<and>
       cr_collection (bi_after i) = [] \<and> bi_record_revision i > 0"

text \<open>
  One iteration of the item loop of \<open>NewBaseFinalOrder\<close>: the arguments are the environment, the
  shared collection revision and the items built so far (their collection is the one fixed by
  the first item, and their keys are the set \<open>seen\<close>).
\<close>

definition add_base_item ::
  "string \<Rightarrow> u64 \<Rightarrow> item list \<Rightarrow> base_item_spec \<Rightarrow> release_error + item list" where
  "add_base_item environment revision items i =
     (case base_item_target i of
        None \<Rightarrow> Inl ErrInvalid
      | Some target \<Rightarrow>
          if blank (bi_id i) \<or> cr_collection target = [] \<or> cr_key target = [] then Inl ErrInvalid
          else let collection = (case items of [] \<Rightarrow> cr_collection target | first # _ \<Rightarrow> it_collection first)
          in if cr_collection target \<noteq> collection then Inl ErrInvalid
             else if cr_environment target \<noteq> environment then Inl ErrInvalid
             else if \<not> valid_base_item_shape i then Inl ErrInvalid
             else if bi_collection_revision i = 0 \<or> bi_collection_revision i \<noteq> revision then Inl ErrInvalid
             else if \<not> absent_or (record_at collection environment (cr_key target)) (bi_base_before i)
                  \<or> \<not> absent_or (record_at collection environment (cr_key target)) (bi_effective_before i)
               then Inl ErrInvalid
             else if cr_collection (bi_after i) \<noteq> [] \<and>
                  \<not> record_at collection environment (cr_key target) (bi_after i) then Inl ErrInvalid
             else if cr_key target \<in> it_key ` set items then Inl ErrInvalid
             else Inr (items @
               [\<lparr>it_id = bi_id i, it_action = base_item_action i, it_collection = collection,
                 it_key = cr_key target, it_base_before = map_option clone_record (bi_base_before i),
                 it_effective_before = map_option clone_record (bi_effective_before i),
                 it_after = (if cr_collection (bi_after i) \<noteq> [] then Some (clone_record (bi_after i)) else None),
                 it_record_revision = bi_record_revision i,
                 it_collection_revision = bi_collection_revision i, it_preserve = bi_preserve i,
                 it_status = ItemPending,
                 it_conflict_key = base_conflict_key collection environment (cr_key target)\<rparr>]))"

definition new_base_final_order :: "base_item_spec order_spec \<Rightarrow> release_error + order" where
  "new_base_final_order spec =
     (let sc = trim_scope (sp_scope spec)
      in if \<not> spec_identity_ok spec then Inl ErrInvalid
         else if sc_region sc = [] \<or> sc_environment sc = [] then Inl ErrInvalid
         else if blank (sp_created_by spec) \<or> is_zero_time (sp_created_at spec) then Inl ErrInvalid
         else if sp_items spec = [] \<or> 500 < length (sp_items spec) then Inl ErrInvalid
         else rbind (rfold (add_base_item (sc_environment sc) (bi_collection_revision (hd (sp_items spec))))
                      [] (sp_items spec)) (\<lambda>items.
              let definitions = (if ct_steps (sp_template spec) = [] then default_base_steps
                                 else ct_steps (sp_template spec))
              in Inr (new_order spec sc (map step_of_definition definitions) items)))"

definition valid_overlay_item_shape :: "overlay_item_spec \<Rightarrow> bool" where
  "valid_overlay_item_shape i \<longleftrightarrow>
     (if oi_collection_revision i = 0 then False
      else if oi_base_before i = None \<and> oi_record_revision i \<noteq> 0 \<or>
              oi_base_before i \<noteq> None \<and> oi_record_revision i = 0 then False
      else case oi_action i of
             ActionAdd \<Rightarrow> oi_effective_before i = None \<and> oi_after i \<noteq> None
           | ActionModify \<Rightarrow> oi_effective_before i \<noteq> None \<and> oi_after i \<noteq> None
           | ActionDelete \<Rightarrow> oi_effective_before i \<noteq> None \<and> oi_after i = None
           | ActionOther _ \<Rightarrow> False)"

definition add_overlay_item ::
  "scope \<Rightarrow> item list \<Rightarrow> overlay_item_spec \<Rightarrow> release_error + item list" where
  "add_overlay_item sc items i =
     (case (case oi_after i of None \<Rightarrow> oi_effective_before i | Some r \<Rightarrow> Some r) of
        None \<Rightarrow> Inl ErrInvalid
      | Some target \<Rightarrow>
          if blank (oi_id i) \<or> cr_collection target = [] \<or> cr_key target = [] then Inl ErrInvalid
          else let collection = (case items of [] \<Rightarrow> cr_collection target | first # _ \<Rightarrow> it_collection first);
                   at_target = record_at collection (sc_environment sc) (cr_key target)
          in if cr_collection target \<noteq> collection \<or> cr_environment target \<noteq> sc_environment sc then Inl ErrInvalid
             else if \<not> valid_overlay_item_shape i then Inl ErrInvalid
             else if \<not> absent_or at_target (oi_base_before i) \<or> \<not> absent_or at_target (oi_effective_before i)
                  \<or> \<not> absent_or at_target (oi_after i) then Inl ErrInvalid
             else if cr_key target \<in> it_key ` set items then Inl ErrInvalid
             else Inr (items @
               [\<lparr>it_id = oi_id i, it_action = oi_action i, it_collection = collection,
                 it_key = cr_key target, it_base_before = map_option clone_record (oi_base_before i),
                 it_effective_before = map_option clone_record (oi_effective_before i),
                 it_after = map_option clone_record (oi_after i),
                 it_record_revision = oi_record_revision i,
                 it_collection_revision = oi_collection_revision i, it_preserve = oi_preserve i,
                 it_status = ItemPending,
                 it_conflict_key = overlay_conflict_key collection sc (cr_key target)\<rparr>]))"

text \<open>The overlay constructor copies no rollout ranges into its steps.\<close>

definition new_overlay_final_order :: "overlay_item_spec order_spec \<Rightarrow> release_error + order" where
  "new_overlay_final_order spec =
     (let sc = trim_scope (sp_scope spec)
      in if \<not> spec_identity_ok spec then Inl ErrInvalid
         else if sc_region sc = [] \<or> sc_environment sc = [] \<or> sc_stage sc = [] then Inl ErrInvalid
         else if blank (sp_created_by spec) \<or> is_zero_time (sp_created_at spec) \<or>
                 sp_items spec = [] \<or> 500 < length (sp_items spec) then Inl ErrInvalid
         else if ct_final_effect (sp_template spec) \<noteq> FinalEffectOverlay then Inl ErrInvalid
         else rbind (rfold (add_overlay_item sc) [] (sp_items spec)) (\<lambda>items.
              Inr (new_order spec sc
                (map (\<lambda>d. (step_of_definition d)\<lparr>ss_ranges := []\<rparr>) (ct_steps (sp_template spec))) items)))"

section \<open>Manual review\<close>

definition execute_manual_review :: "u64 \<Rightarrow> string \<Rightarrow> gotime \<Rightarrow> order \<Rightarrow> release_error + order" where
  "execute_manual_review expected actor at ord =
     rbind (expect_revision expected ord) (\<lambda>_.
     rbind (check ErrInvalid (at_current ord StepManualReview StepPending)) (\<lambda>_.
     rbind (check ErrInvalid (\<not> (blank actor \<or> is_zero_time at))) (\<lambda>_.
     Inr (bump actor at (set_current_step (\<lambda>s. s\<lparr>ss_status := StepExecuting,
       ss_approval := Some \<lparr>ap_status = ApprovalPending, ap_requested_at = at, ap_requested_by = actor,
         ap_decided_at = None, ap_decided_by = [], ap_comment = []\<rparr>\<rparr>) ord)))))"

definition authorize_manual_decision ::
  "u64 \<Rightarrow> principal \<Rightarrow> gotime \<Rightarrow> order \<Rightarrow> release_error + unit" where
  "authorize_manual_decision expected who at ord =
     rbind (expect_revision expected ord) (\<lambda>_.
     rbind (check ErrInvalid (at_current ord StepManualReview StepExecuting)) (\<lambda>_.
     let subject = trim_space (pr_subject who); step = current_step ord
     in rbind (check ErrInvalid (\<not> (subject = [] \<or> is_zero_time at))) (\<lambda>_.
        rbind (check ErrForbidden (has_required_role (pr_roles who) (ss_roles step))) (\<lambda>_.
        check ErrForbidden (\<not> (ss_self_approval step = SelfApprovalDenyProduction \<and>
          sc_environment (or_scope ord) = ''production'' \<and> subject = or_created_by ord))))))"

text \<open>What a decision writes into the approval; a step under review always has one.\<close>

definition decide :: "approval_status \<Rightarrow> string \<Rightarrow> string \<Rightarrow> gotime \<Rightarrow> step_state \<Rightarrow> step_state" where
  "decide st subject comment at s =
     s\<lparr>ss_approval := map_option (\<lambda>a. a\<lparr>ap_status := st, ap_decided_at := Some at,
         ap_decided_by := subject, ap_comment := comment\<rparr>) (ss_approval s)\<rparr>"

definition approve_manual_review ::
  "u64 \<Rightarrow> principal \<Rightarrow> string \<Rightarrow> gotime \<Rightarrow> order \<Rightarrow> release_error + order" where
  "approve_manual_review expected who comment at ord =
     rbind (authorize_manual_decision expected who at ord) (\<lambda>_.
     Inr (bump (pr_subject who) at (set_current_step
       (\<lambda>s. (decide ApprovalApproved (pr_subject who) comment at s)\<lparr>ss_status := StepApproved\<rparr>) ord)))"

definition reject_manual_review ::
  "u64 \<Rightarrow> principal \<Rightarrow> string \<Rightarrow> gotime \<Rightarrow> order \<Rightarrow> release_error + order" where
  "reject_manual_review expected who comment at ord =
     rbind (check ErrInvalid (\<not> blank comment)) (\<lambda>_.
     rbind (authorize_manual_decision expected who at ord) (\<lambda>_.
     let rejected = set_current_step
           (\<lambda>s. (decide ApprovalRejected (pr_subject who) comment at s)\<lparr>ss_status := StepRejected\<rparr>) ord
     in Inr (bump (pr_subject who) at (rejected\<lparr>
          or_items := map (\<lambda>i. i\<lparr>it_conflict_key := []\<rparr>) (or_items ord),
          or_status := OrderRejected, or_completed_at := Some at\<rparr>))))"

section \<open>Comparison\<close>

text \<open>One iteration over the actual records: those of other keys are skipped.\<close>

definition add_actual_record ::
  "order \<Rightarrow> config_record list \<Rightarrow> config_record \<Rightarrow> release_error + config_record list" where
  "add_actual_record ord acc r =
     (if cr_key r \<notin> it_key ` set (or_items ord) then Inr acc
      else if cr_collection r \<noteq> it_collection (hd (or_items ord)) \<or>
              cr_environment r \<noteq> sc_environment (or_scope ord) \<or> cr_data r = None then Inl ErrInvalid
      else if cr_key r \<in> cr_key ` set acc then Inl ErrInvalid
      else Inr (acc @ [clone_record r]))"

definition expected_records :: "order \<Rightarrow> config_record list" where
  "expected_records ord = List.map_filter (\<lambda>i. map_option clone_record (it_after i)) (or_items ord)"

text \<open>\<open>expectedByKey\<close>: the target record of the last item with that key.\<close>

definition expected_by_key :: "order \<Rightarrow> string \<Rightarrow> config_record option" where
  "expected_by_key ord =
     map_of (rev (List.map_filter (\<lambda>i. map_option (\<lambda>r. (it_key i, clone_record r)) (it_after i)) (or_items ord)))"

definition differs :: "config_record option \<Rightarrow> config_record option \<Rightarrow> bool" where
  "differs e a \<longleftrightarrow>
     (case (e, a) of
        (None, None) \<Rightarrow> False
      | (Some x, Some y) \<Rightarrow> \<not> equal_data (cr_data x) (cr_data y)
      | _ \<Rightarrow> True)"

definition compare_diff_keys :: "order \<Rightarrow> config_record list \<Rightarrow> string list" where
  "compare_diff_keys ord actual =
     filter (\<lambda>k. differs (expected_by_key ord k) (map_of (map (\<lambda>r. (cr_key r, r)) actual) k))
       (sorted_list_of_set (set (map it_key (or_items ord))))"

definition execute_compare ::
  "u64 \<Rightarrow> config_record list \<Rightarrow> string \<Rightarrow> gotime \<Rightarrow> order \<Rightarrow> release_error + (order \<times> compare_result \<times> bool)" where
  "execute_compare expected actual actor at ord =
     rbind (expect_revision expected ord) (\<lambda>_.
     rbind (check ErrInvalid (at_current ord StepCompare StepPending)) (\<lambda>_.
     rbind (check ErrInvalid (\<not> (blank actor \<or> is_zero_time at))) (\<lambda>_.
     rbind (rfold (add_actual_record ord) [] actual) (\<lambda>actual_records.
     let diff_keys = compare_diff_keys ord actual_records
     in rbind (rerror ErrInvalid (compute_base_digest (expected_records ord))) (\<lambda>expected_digest.
        rbind (rerror ErrInvalid (compute_base_digest actual_records)) (\<lambda>actual_digest.
        let result = \<lparr>cp_expected = expected_digest, cp_actual = actual_digest,
                      cp_diff_keys = diff_keys, cp_checked_at = at\<rparr>;
            matched = (diff_keys = [])
        in Inr (bump actor at (set_current_step
             (\<lambda>s. if matched
                  then s\<lparr>ss_compare := Some result, ss_status := StepExecuted,
                         ss_executed_at := Some at, ss_executed_by := actor\<rparr>
                  else s\<lparr>ss_compare := Some result\<rparr>) ord), result, matched)))))))"

section \<open>Advancing and completing\<close>

definition advance :: "u64 \<Rightarrow> string \<Rightarrow> gotime \<Rightarrow> order \<Rightarrow> release_error + order" where
  "advance expected actor at ord =
     rbind (expect_revision expected ord) (\<lambda>_.
     let st = ss_status (current_step ord)
     in rbind (check ErrInvalid (\<not> (or_status ord \<noteq> OrderInProgress \<or>
          (st \<noteq> StepExecuted \<and> st \<noteq> StepApproved) \<or> or_current ord + 1 \<ge> length (or_steps ord)))) (\<lambda>_.
        Inr (bump actor at (ord\<lparr>or_current := or_current ord + 1\<rparr>))))"

definition complete_order :: "u64 \<Rightarrow> string \<Rightarrow> gotime \<Rightarrow> order \<Rightarrow> release_error + order" where
  "complete_order expected actor at ord =
     rbind (expect_revision expected ord) (\<lambda>_.
     rbind (check ErrInvalid (at_current ord StepComplete StepPending)) (\<lambda>_.
     rbind (check ErrInvalid (\<not> (or_current ord = 0 \<or>
       ss_status (or_steps ord ! (or_current ord - 1)) \<noteq> StepExecuted))) (\<lambda>_.
     let done_step = set_current_step (\<lambda>s. s\<lparr>ss_status := StepExecuted, ss_executed_at := Some at,
           ss_executed_by := actor\<rparr>) ord
     in Inr (bump actor at (done_step\<lparr>or_items := close_items ItemApplied (or_items ord),
          or_status := OrderSucceeded, or_completed_at := Some at\<rparr>)))))"

end
