(* ===== verification/Release_Execute.thy ===== *)
theory Release_Execute
  imports Release_Order
begin

text \<open>
  The operations that change configuration (\<open>internal/release/domain/order.go\<close>):
  \<open>ExecuteBase\<close>, \<open>ExecuteOverlay\<close> and \<open>ExecutePercentRollout\<close>. Each checks the order's
  expectations against the authority the transaction loaded, plans one change per item and
  records the plan as the effect of the current step. They take no expected order revision;
  the application service compares it before it calls them.
\<close>

definition step_percent :: "step_state \<Rightarrow> percent_effect option" where
  "step_percent s = Option.bind (ss_effect s) se_percent"

text \<open>The percentage effect of the nearest earlier step that has one.\<close>

definition last_percent :: "order \<Rightarrow> percent_effect option" where
  "last_percent ord =
     (case List.map_filter step_percent (rev (take (or_current ord) (or_steps ord))) of
        [] \<Rightarrow> None | p # _ \<Rightarrow> Some p)"

text \<open>The collection revision the order expects: its own last percentage effect, or the items'.\<close>

definition expected_collection_revision :: "order \<Rightarrow> u64" where
  "expected_collection_revision ord =
     (case last_percent ord of
        Some p \<Rightarrow> pe_applied p
      | None \<Rightarrow> it_collection_revision (hd (or_items ord)))"

text \<open>The current step with its effect recorded.\<close>

definition record_effect :: "step_effect \<Rightarrow> string \<Rightarrow> gotime \<Rightarrow> order \<Rightarrow> order" where
  "record_effect e actor at ord =
     bump actor at (set_current_step (\<lambda>s. s\<lparr>ss_status := StepExecuted, ss_executed_at := Some at,
       ss_executed_by := actor, ss_effect := Some e\<rparr>) ord)"

definition rule_identity_matches :: "order \<Rightarrow> item \<Rightarrow> overlay_rule \<Rightarrow> bool" where
  "rule_identity_matches ord i rule \<longleftrightarrow>
     \<not> (ru_collection rule \<noteq> it_collection i \<or> ru_key rule \<noteq> it_key i \<or> ru_scope rule \<noteq> or_scope ord)"

section \<open>Applying to the base\<close>

text \<open>The drift check of one base target.\<close>

definition base_target_unchanged :: "item \<Rightarrow> config_record option \<Rightarrow> bool" where
  "base_target_unchanged i existing \<longleftrightarrow>
     (if it_record_revision i = 0 then existing = None
      else case (existing, it_base_before i) of
             (Some r, Some b) \<Rightarrow> cr_revision r = it_record_revision i \<and> equal_data (cr_data r) (cr_data b)
           | _ \<Rightarrow> False)"

definition plan_base_change :: "item \<Rightarrow> config_record option \<Rightarrow> base_change list" where
  "plan_base_change i existing =
     (case (existing, it_after i) of
        (None, Some after) \<Rightarrow>
          [\<lparr>bc_action = ActionAdd, bc_before = None, bc_after = Some (clone_record after)\<rparr>]
      | (Some r, None) \<Rightarrow>
          [\<lparr>bc_action = ActionDelete, bc_before = Some (clone_record r), bc_after = None\<rparr>]
      | (Some r, Some after) \<Rightarrow>
          (if \<not> equal_data (cr_data r) (cr_data after)
           then [\<lparr>bc_action = ActionModify, bc_before = Some (clone_record r), bc_after = Some (clone_record after)\<rparr>]
           else [])
      | (None, None) \<Rightarrow> [])"

definition plan_base_item ::
  "order \<Rightarrow> authority \<Rightarrow> bool \<Rightarrow> base_change list \<times> rule_change list \<Rightarrow> item
   \<Rightarrow> release_error + (base_change list \<times> rule_change list)" where
  "plan_base_item ord auth has_percent acc i =
     (let existing = au_records auth (it_key i);
          rule = map_option clone_rule (au_rules auth (it_key i))
      in rbind (check ErrAborted (base_target_unchanged i existing)) (\<lambda>_.
         rbind (check ErrAborted (\<not> (has_percent \<and>
           (case rule of None \<Rightarrow> True | Some r \<Rightarrow> ru_order r \<noteq> or_id ord)))) (\<lambda>_.
         rbind (check ErrInvalid (absent_or (rule_identity_matches ord i) rule)) (\<lambda>_.
         Inr (fst acc @ plan_base_change i existing,
              snd acc @ (case rule of None \<Rightarrow> []
                | Some r \<Rightarrow> [\<lparr>rc_key = it_key i, rc_previous = Some r, rc_new = None\<rparr>]))))))"

definition execute_base ::
  "authority \<Rightarrow> u64 \<Rightarrow> string \<Rightarrow> gotime \<Rightarrow> order \<Rightarrow> release_error + (order \<times> base_effect)" where
  "execute_base auth new actor at ord =
     rbind (check ErrInvalid (at_current ord StepBaseApply StepPending)) (\<lambda>_.
     rbind (check ErrInvalid (\<not> (blank actor \<or> is_zero_time at \<or> new \<le> au_revision auth))) (\<lambda>_.
     rbind (check ErrAborted (au_revision auth = expected_collection_revision ord)) (\<lambda>_.
     rbind (rfold (plan_base_item ord auth (last_percent ord \<noteq> None)) ([], []) (or_items ord))
       (\<lambda>(changes, overlay_changes).
     rbind (check ErrInvalid (\<not> (changes = [] \<and> overlay_changes = []))) (\<lambda>_.
     let effect = \<lparr>be_version = 1, be_collection = it_collection (hd (or_items ord)),
           be_scope = or_scope ord, be_previous = au_revision auth, be_applied = new,
           be_changes = changes, be_overlay = overlay_changes, be_at = at, be_by = actor\<rparr>
     in Inr (record_effect (base_step_effect (clone_base_effect effect)) actor at ord,
             clone_base_effect effect))))))"

section \<open>Applying an overlay\<close>

text \<open>The revision check of a base record that an overlay is relative to.\<close>

definition base_revision_unchanged :: "item \<Rightarrow> config_record option \<Rightarrow> bool" where
  "base_revision_unchanged i base \<longleftrightarrow>
     (if it_record_revision i = 0 then base = None
      else case base of None \<Rightarrow> False | Some r \<Rightarrow> cr_revision r = it_record_revision i)"

definition item_rule_spec ::
  "order \<Rightarrow> item \<Rightarrow> config_record option \<Rightarrow> overlay_rule option \<Rightarrow> bucket_range list \<Rightarrow> u64 \<Rightarrow> string \<Rightarrow> gotime
   \<Rightarrow> rule_spec" where
  "item_rule_spec ord i base previous ranges new actor at =
     \<lparr>rs_id = (case previous of None \<Rightarrow> it_id i | Some p \<Rightarrow> ru_id p), rs_collection = it_collection i,
      rs_scope = or_scope ord, rs_key = it_key i, rs_base = base, rs_desired = it_after i,
      rs_ranges = ranges, rs_revision = new, rs_order = or_id ord, rs_from = None, rs_until = None,
      rs_activated = Some new, rs_activated_at = Some at, rs_expired = None, rs_expired_at = None,
      rs_created_at = (case previous of None \<Rightarrow> at | Some p \<Rightarrow> ru_created_at p),
      rs_created_by = (case previous of None \<Rightarrow> actor | Some p \<Rightarrow> ru_created_by p),
      rs_updated_at = at, rs_updated_by = actor\<rparr>"

definition plan_overlay_item ::
  "order \<Rightarrow> authority \<Rightarrow> u64 \<Rightarrow> string \<Rightarrow> gotime \<Rightarrow> item \<Rightarrow> release_error + rule_change" where
  "plan_overlay_item ord auth new actor at i =
     (let base = au_records auth (it_key i);
          previous = map_option clone_rule (au_rules auth (it_key i))
      in rbind (check ErrAborted (au_revision auth = it_collection_revision i)) (\<lambda>_.
         rbind (check ErrAborted (base_revision_unchanged i base)) (\<lambda>_.
         rbind (check ErrInvalid (absent_or (rule_identity_matches ord i) previous)) (\<lambda>_.
         rbind (if base \<noteq> None \<or> it_after i \<noteq> None
                then rbind (rerror ErrInvalid
                       (compile_rule (item_rule_spec ord i base previous [] new actor at))) (\<lambda>r. Inr (Some r))
                else Inr None) (\<lambda>next_rule.
         Inr \<lparr>rc_key = it_key i, rc_previous = previous, rc_new = map_option clone_rule next_rule\<rparr>)))))"

definition execute_overlay ::
  "authority \<Rightarrow> u64 \<Rightarrow> string \<Rightarrow> gotime \<Rightarrow> order \<Rightarrow> release_error + (order \<times> overlay_effect)" where
  "execute_overlay auth new actor at ord =
     rbind (check ErrInvalid (at_current ord StepOverlayApply StepPending)) (\<lambda>_.
     rbind (check ErrInvalid (\<not> (blank actor \<or> is_zero_time at \<or> new \<le> au_revision auth))) (\<lambda>_.
     rbind (rmap (plan_overlay_item ord auth new actor at) (or_items ord)) (\<lambda>changes.
     let effect = \<lparr>oe_version = 1, oe_collection = it_collection (hd (or_items ord)),
           oe_scope = or_scope ord, oe_previous = au_revision auth, oe_applied = new,
           oe_changes = changes, oe_at = at, oe_by = actor\<rparr>
     in Inr (record_effect (overlay_step_effect (clone_overlay_effect effect)) actor at ord,
             clone_overlay_effect effect))))"

section \<open>Widening a percentage rollout\<close>

definition plan_percent_item ::
  "order \<Rightarrow> authority \<Rightarrow> u64 \<Rightarrow> string \<Rightarrow> gotime \<Rightarrow> item \<Rightarrow> release_error + rule_change" where
  "plan_percent_item ord auth new actor at i =
     (let base = au_records auth (it_key i);
          previous = map_option clone_rule (au_rules auth (it_key i))
      in rbind (check ErrAborted (base_revision_unchanged i base)) (\<lambda>_.
         rbind (check ErrInvalid (absent_or (rule_identity_matches ord i) previous)) (\<lambda>_.
         rbind (check ErrAborted (absent_or (\<lambda>p. ru_order p = or_id ord) previous)) (\<lambda>_.
         rbind (rerror ErrInvalid (expand_rollout_ranges
                  (case previous of None \<Rightarrow> [] | Some p \<Rightarrow> ru_ranges p) (ss_ranges (current_step ord)))) (\<lambda>ranges.
         rbind (rerror ErrInvalid
                  (compile_rule (item_rule_spec ord i base previous ranges new actor at))) (\<lambda>compiled.
         rbind (check ErrAborted (absent_or (\<lambda>p. ru_action p = ru_action compiled \<and>
                  equal_data (ru_content p) (ru_content compiled)) previous)) (\<lambda>_.
         Inr \<lparr>rc_key = it_key i, rc_previous = previous, rc_new = Some (clone_rule compiled)\<rparr>)))))))"

definition execute_percent_rollout ::
  "authority \<Rightarrow> u64 \<Rightarrow> string \<Rightarrow> gotime \<Rightarrow> order \<Rightarrow> release_error + (order \<times> percent_effect)" where
  "execute_percent_rollout auth new actor at ord =
     rbind (check ErrInvalid (at_current ord StepPercentRollout StepPending)) (\<lambda>_.
     rbind (check ErrInvalid (\<not> (sc_stage (or_scope ord) = [] \<or> blank actor \<or> is_zero_time at \<or>
       new \<le> au_revision auth \<or> ss_ranges (current_step ord) = []))) (\<lambda>_.
     rbind (check ErrAborted (au_revision auth = expected_collection_revision ord)) (\<lambda>_.
     rbind (rmap (plan_percent_item ord auth new actor at) (or_items ord)) (\<lambda>changes.
     let effect = \<lparr>pe_version = 1, pe_collection = it_collection (hd (or_items ord)),
           pe_scope = or_scope ord, pe_previous = au_revision auth, pe_applied = new,
           pe_added = ss_ranges (current_step ord), pe_changes = changes, pe_at = at, pe_by = actor\<rparr>
     in Inr (record_effect (percent_step_effect (clone_percent_effect effect)) actor at ord,
             clone_percent_effect effect)))))"

section \<open>Facts\<close>

lemma plan_base_item_Inr:
  assumes "plan_base_item ord auth hp acc i = Inr acc'"
  shows "base_target_unchanged i (au_records auth (it_key i))"
    "absent_or (rule_identity_matches ord i) (map_option clone_rule (au_rules auth (it_key i)))"
    "acc' = (fst acc @ plan_base_change i (au_records auth (it_key i)),
       snd acc @ (case map_option clone_rule (au_rules auth (it_key i)) of None \<Rightarrow> []
         | Some r \<Rightarrow> [\<lparr>rc_key = it_key i, rc_previous = Some r, rc_new = None\<rparr>]))"
    "hp \<Longrightarrow> \<exists>r. au_rules auth (it_key i) = Some r \<and> ru_order r = or_id ord"
  using assms by (auto simp: plan_base_item_def Let_def rbind_Inr_iff check_Inr split: option.splits)

text \<open>The plan of all items, item by item.\<close>

definition item_rule_changes :: "authority \<Rightarrow> item \<Rightarrow> rule_change list" where
  "item_rule_changes auth i =
     (case map_option clone_rule (au_rules auth (it_key i)) of None \<Rightarrow> []
      | Some r \<Rightarrow> [\<lparr>rc_key = it_key i, rc_previous = Some r, rc_new = None\<rparr>])"

lemma plan_base_items_Inr:
  assumes "rfold (plan_base_item ord auth hp) acc items = Inr out"
  shows "out = (fst acc @ concat (map (\<lambda>i. plan_base_change i (au_records auth (it_key i))) items),
      snd acc @ concat (map (item_rule_changes auth) items)) \<and>
    (\<forall>i \<in> set items. base_target_unchanged i (au_records auth (it_key i)) \<and>
       absent_or (rule_identity_matches ord i) (map_option clone_rule (au_rules auth (it_key i))))"
  using assms
proof (induction items arbitrary: acc)
  case (Cons i items)
  from Cons.prems obtain acc' where acc': "plan_base_item ord auth hp acc i = Inr acc'"
    "rfold (plan_base_item ord auth hp) acc' items = Inr out" by (auto simp: rbind_Inr_iff)
  from plan_base_item_Inr [OF acc'(1)]
  have "fst acc' = fst acc @ plan_base_change i (au_records auth (it_key i))"
    "snd acc' = snd acc @ item_rule_changes auth i"
    by (simp_all add: item_rule_changes_def)
  with Cons.IH [OF acc'(2)] plan_base_item_Inr(1,2) [OF acc'(1)] show ?case by simp
qed simp

lemma plan_base_change_valid: "c \<in> set (plan_base_change i existing) \<Longrightarrow> valid_base_change c"
  by (auto simp: plan_base_change_def valid_base_change_def split: option.splits if_splits)

lemma execute_base_Inr:
  assumes "execute_base auth new actor at ord = Inr (ord', e)"
  shows "at_current ord StepBaseApply StepPending" "\<not> blank actor" "at \<noteq> 0" "au_revision auth < new"
    "au_revision auth = expected_collection_revision ord"
    "ord' = record_effect (base_step_effect e) actor at ord"
    "e = clone_base_effect \<lparr>be_version = 1, be_collection = it_collection (hd (or_items ord)),
           be_scope = or_scope ord, be_previous = au_revision auth, be_applied = new,
           be_changes = concat (map (\<lambda>i. plan_base_change i (au_records auth (it_key i))) (or_items ord)),
           be_overlay = concat (map (item_rule_changes auth) (or_items ord)), be_at = at, be_by = actor\<rparr>"
    "be_changes e \<noteq> [] \<or> be_overlay e \<noteq> []"
    "\<forall>i \<in> set (or_items ord). base_target_unchanged i (au_records auth (it_key i)) \<and>
       absent_or (rule_identity_matches ord i) (map_option clone_rule (au_rules auth (it_key i)))"
proof -
  from assms obtain cs os where *: "at_current ord StepBaseApply StepPending" "\<not> blank actor" "at \<noteq> 0"
    "au_revision auth < new" "au_revision auth = expected_collection_revision ord"
    "rfold (plan_base_item ord auth (last_percent ord \<noteq> None)) ([], []) (or_items ord) = Inr (cs, os)"
    "cs \<noteq> [] \<or> os \<noteq> []"
    "e = clone_base_effect \<lparr>be_version = 1, be_collection = it_collection (hd (or_items ord)),
           be_scope = or_scope ord, be_previous = au_revision auth, be_applied = new,
           be_changes = cs, be_overlay = os, be_at = at, be_by = actor\<rparr>"
    "ord' = record_effect (base_step_effect e) actor at ord"
    by (auto simp: execute_base_def rbind_Inr_iff check_Inr Let_def is_zero_time_def not_le split: prod.splits)
  note plan = plan_base_items_Inr [OF *(6)]
  then have cs: "cs = concat (map (\<lambda>i. plan_base_change i (au_records auth (it_key i))) (or_items ord))"
    "os = concat (map (item_rule_changes auth) (or_items ord))" by simp_all
  show "at_current ord StepBaseApply StepPending" "\<not> blank actor" "at \<noteq> 0" "au_revision auth < new"
    "au_revision auth = expected_collection_revision ord"
    "ord' = record_effect (base_step_effect e) actor at ord"
    using * by simp_all
  show "e = clone_base_effect \<lparr>be_version = 1, be_collection = it_collection (hd (or_items ord)),
           be_scope = or_scope ord, be_previous = au_revision auth, be_applied = new,
           be_changes = concat (map (\<lambda>i. plan_base_change i (au_records auth (it_key i))) (or_items ord)),
           be_overlay = concat (map (item_rule_changes auth) (or_items ord)), be_at = at, be_by = actor\<rparr>"
    using *(8) cs by simp
  show "be_changes e \<noteq> [] \<or> be_overlay e \<noteq> []"
    using *(7,8) by (simp add: clone_base_effect_def)
  show "\<forall>i \<in> set (or_items ord). base_target_unchanged i (au_records auth (it_key i)) \<and>
       absent_or (rule_identity_matches ord i) (map_option clone_rule (au_rules auth (it_key i)))"
    using plan by simp
qed

lemma plan_overlay_item_Inr:
  assumes "plan_overlay_item ord auth new actor at i = Inr c"
  shows "rc_key c = it_key i" "rc_previous c = map_option clone_rule (au_rules auth (it_key i))"
    "base_revision_unchanged i (au_records auth (it_key i))" "au_revision auth = it_collection_revision i"
    "(if au_records auth (it_key i) \<noteq> None \<or> it_after i \<noteq> None
      then \<exists>r. compile_rule (item_rule_spec ord i (au_records auth (it_key i))
             (map_option clone_rule (au_rules auth (it_key i))) [] new actor at) = Inr r \<and>
           rc_new c = Some (clone_rule r)
      else rc_new c = None)"
  using assms
  by (auto simp: plan_overlay_item_def Let_def rbind_Inr_iff check_Inr rerror_Inr_iff split: if_splits)

lemma plan_percent_item_Inr:
  assumes "plan_percent_item ord auth new actor at i = Inr c"
  shows "rc_key c = it_key i" "rc_previous c = map_option clone_rule (au_rules auth (it_key i))"
    "base_revision_unchanged i (au_records auth (it_key i))"
    "absent_or (\<lambda>p. ru_order p = or_id ord) (rc_previous c)"
    "\<exists>ranges r. expand_rollout_ranges
        (case rc_previous c of None \<Rightarrow> [] | Some p \<Rightarrow> ru_ranges p) (ss_ranges (current_step ord)) = Inr ranges \<and>
      compile_rule (item_rule_spec ord i (au_records auth (it_key i)) (rc_previous c) ranges new actor at) = Inr r \<and>
      rc_new c = Some (clone_rule r) \<and>
      absent_or (\<lambda>p. ru_action p = ru_action r \<and> equal_data (ru_content p) (ru_content r)) (rc_previous c)"
  using assms
  by (auto simp: plan_percent_item_def Let_def rbind_Inr_iff check_Inr rerror_Inr_iff)

lemma execute_overlay_Inr:
  assumes "execute_overlay auth new actor at ord = Inr (ord', e)"
  shows "at_current ord StepOverlayApply StepPending" "\<not> blank actor" "at \<noteq> 0" "au_revision auth < new"
    "ord' = record_effect (overlay_step_effect e) actor at ord"
    "\<exists>changes. rmap (plan_overlay_item ord auth new actor at) (or_items ord) = Inr changes \<and>
       e = clone_overlay_effect \<lparr>oe_version = 1, oe_collection = it_collection (hd (or_items ord)),
           oe_scope = or_scope ord, oe_previous = au_revision auth, oe_applied = new,
           oe_changes = changes, oe_at = at, oe_by = actor\<rparr>"
  using assms
  by (auto simp: execute_overlay_def rbind_Inr_iff check_Inr Let_def is_zero_time_def)

lemma execute_percent_rollout_Inr:
  assumes "execute_percent_rollout auth new actor at ord = Inr (ord', e)"
  shows "at_current ord StepPercentRollout StepPending" "\<not> blank actor" "at \<noteq> 0" "au_revision auth < new"
    "sc_stage (or_scope ord) \<noteq> []" "ss_ranges (current_step ord) \<noteq> []"
    "au_revision auth = expected_collection_revision ord"
    "ord' = record_effect (percent_step_effect e) actor at ord"
    "\<exists>changes. rmap (plan_percent_item ord auth new actor at) (or_items ord) = Inr changes \<and>
       e = clone_percent_effect \<lparr>pe_version = 1, pe_collection = it_collection (hd (or_items ord)),
           pe_scope = or_scope ord, pe_previous = au_revision auth, pe_applied = new,
           pe_added = ss_ranges (current_step ord), pe_changes = changes, pe_at = at, pe_by = actor\<rparr>"
  using assms
  by (auto simp: execute_percent_rollout_def rbind_Inr_iff check_Inr Let_def is_zero_time_def)

end
