(* ===== verification/Release_Rollback.thy ===== *)
theory Release_Rollback
  imports Release_Execute
begin

text \<open>
  Undoing a release (\<open>internal/release/domain/order.go\<close>): \<open>RollbackBase\<close>, \<open>RollbackOverlay\<close>,
  \<open>RollbackAll\<close>, the compensation plan of a finished release, and restoring an aggregate
  from its persisted state.
\<close>

text \<open>The index of the last step with a given kind of effect.\<close>

definition last_index :: "(step_state \<Rightarrow> bool) \<Rightarrow> step_state list \<Rightarrow> nat option" where
  "last_index P steps =
     (case filter (\<lambda>n. P (steps ! n)) (rev [0..<length steps]) of [] \<Rightarrow> None | n # _ \<Rightarrow> Some n)"

definition step_base :: "step_state \<Rightarrow> base_effect option" where
  "step_base s = Option.bind (ss_effect s) se_base"

definition step_overlay :: "step_state \<Rightarrow> overlay_effect option" where
  "step_overlay s = Option.bind (ss_effect s) se_overlay"

definition mark_rolled_back :: "string \<Rightarrow> gotime \<Rightarrow> step_state \<Rightarrow> step_state" where
  "mark_rolled_back actor at s =
     s\<lparr>ss_status := StepRolledBack, ss_rolled_back_at := Some at, ss_rolled_back_by := actor\<rparr>"

text \<open>The end of every rollback: items and order closed, the current step moved back.\<close>

definition close_rolled_back :: "nat \<Rightarrow> step_state list \<Rightarrow> string \<Rightarrow> gotime \<Rightarrow> order \<Rightarrow> order" where
  "close_rolled_back n steps actor at ord =
     bump actor at (ord\<lparr>or_steps := steps, or_items := close_items ItemRolledBack (or_items ord),
       or_current := n, or_status := OrderRolledBack, or_completed_at := Some at\<rparr>)"

section \<open>Rolling back one effect\<close>

definition rollback_base_change ::
  "records \<Rightarrow> u64 \<Rightarrow> base_change \<Rightarrow> release_error + base_change" where
  "rollback_base_change records applied source =
     (case (bc_action source, bc_after source) of
        (ActionAdd, Some after) \<Rightarrow>
          rbind (applied_record records applied after) (\<lambda>current.
          Inr \<lparr>bc_action = ActionDelete, bc_before = Some (clone_record current), bc_after = None\<rparr>)
      | _ \<Rightarrow> Inl ErrInvalid)"

definition rollback_rule_change :: "rules \<Rightarrow> rule_change \<Rightarrow> release_error + rule_change" where
  "rollback_rule_change rules source =
     (if rules (rc_key source) \<noteq> None then Inl ErrAborted
      else Inr \<lparr>rc_key = rc_key source, rc_previous = None, rc_new = map_option clone_rule (rc_previous source)\<rparr>)"

definition rollback_base ::
  "u64 \<Rightarrow> authority \<Rightarrow> u64 \<Rightarrow> string \<Rightarrow> gotime \<Rightarrow> order \<Rightarrow> release_error + (order \<times> base_effect)" where
  "rollback_base expected auth new actor at ord =
     rbind (expect_revision expected ord) (\<lambda>_.
     rbind (check ErrInvalid (\<not> (or_status ord \<noteq> OrderInProgress \<or> blank actor \<or> is_zero_time at \<or>
       new \<le> au_revision auth))) (\<lambda>_.
     case last_index (\<lambda>s. step_base s \<noteq> None) (or_steps ord) of
       None \<Rightarrow> Inl ErrInvalid
     | Some n \<Rightarrow>
         let original = the (step_base (or_steps ord ! n))
         in rbind (check ErrAborted (au_revision auth = be_applied original)) (\<lambda>_.
            rbind (rmap (rollback_base_change (au_records auth) (be_applied original))
                     (rev (be_changes original))) (\<lambda>changes.
            rbind (rmap (rollback_rule_change (au_rules auth)) (rev (be_overlay original))) (\<lambda>overlay_changes.
            Inr (close_rolled_back n ((or_steps ord)[n := mark_rolled_back actor at (or_steps ord ! n)]) actor at ord,
                 clone_base_effect \<lparr>be_version = 1, be_collection = be_collection original,
                   be_scope = be_scope original, be_previous = au_revision auth, be_applied = new,
                   be_changes = changes, be_overlay = overlay_changes, be_at = at, be_by = actor\<rparr>))))))"

definition rollback_overlay ::
  "u64 \<Rightarrow> u64 \<Rightarrow> u64 \<Rightarrow> string \<Rightarrow> gotime \<Rightarrow> order \<Rightarrow> release_error + (order \<times> overlay_effect)" where
  "rollback_overlay expected current new actor at ord =
     rbind (expect_revision expected ord) (\<lambda>_.
     rbind (check ErrInvalid (\<not> (or_status ord \<noteq> OrderInProgress \<or> blank actor \<or> is_zero_time at \<or>
       current = 0 \<or> new \<le> current))) (\<lambda>_.
     case last_index (\<lambda>s. step_overlay s \<noteq> None) (or_steps ord) of
       None \<Rightarrow> Inl ErrInvalid
     | Some n \<Rightarrow>
         let original = the (step_overlay (or_steps ord ! n))
         in rbind (check ErrAborted (current = oe_applied original)) (\<lambda>_.
            Inr (close_rolled_back n ((or_steps ord)[n := mark_rolled_back actor at (or_steps ord ! n)]) actor at ord,
                 clone_overlay_effect \<lparr>oe_version = 1, oe_collection = oe_collection original,
                   oe_scope = oe_scope original, oe_previous = current, oe_applied = new,
                   oe_changes = map (\<lambda>c. \<lparr>rc_key = rc_key c, rc_previous = map_option clone_rule (rc_new c),
                     rc_new = map_option clone_rule (rc_previous c)\<rparr>) (rev (oe_changes original)),
                   oe_at = at, oe_by = actor\<rparr>))))"

section \<open>Rolling back the whole chain\<close>

text \<open>The local variables of the planning loop of \<open>RollbackAll\<close>.\<close>

record rollback_state =
  rb_records :: records
  rb_rules :: rules
  rb_base_changes :: "base_change list"
  rb_overlay_changes :: "rule_change list"
  rb_has_base :: bool
  rb_expected :: u64
  rb_collection :: string

definition effect_place :: "step_effect \<Rightarrow> string \<times> scope" where
  "effect_place e =
     (case (se_base e, se_overlay e, se_percent e) of
        (Some b, _, _) \<Rightarrow> (be_collection b, be_scope b)
      | (None, Some b, _) \<Rightarrow> (oe_collection b, oe_scope b)
      | (None, None, Some b) \<Rightarrow> (pe_collection b, pe_scope b)
      | (None, None, None) \<Rightarrow> ([], \<lparr>sc_region = [], sc_environment = [], sc_stage = []\<rparr>))"

text \<open>The inverse of one effect, and the authority before it. The effect is already validated.\<close>

definition inverse_effect ::
  "step_effect \<Rightarrow> records \<Rightarrow> rules \<Rightarrow> release_error + (base_change list \<times> rule_change list \<times> records \<times> rules)" where
  "inverse_effect e records rules =
     (case (se_type e, se_base e, se_overlay e, se_percent e) of
        (StepEffectBase, Some b, _, _) \<Rightarrow>
          rbind (inverse_base_changes b records) (\<lambda>(changes, records').
          rbind (inverse_overlay_changes (be_overlay b) rules) (\<lambda>(overlay_changes, rules').
          Inr (changes, overlay_changes, records', rules')))
      | (StepEffectOverlay, _, Some b, _) \<Rightarrow>
          rbind (inverse_overlay_changes (oe_changes b) rules) (\<lambda>(overlay_changes, rules').
          Inr ([], overlay_changes, records, rules'))
      | (StepEffectPercent, _, _, Some b) \<Rightarrow>
          rbind (inverse_overlay_changes (pe_changes b) rules) (\<lambda>(overlay_changes, rules').
          Inr ([], overlay_changes, records, rules'))
      | _ \<Rightarrow> Inl ErrFailedPrecondition)"

definition rollback_effect :: "scope \<Rightarrow> rollback_state \<Rightarrow> step_effect \<Rightarrow> release_error + rollback_state" where
  "rollback_effect sc st e =
     rbind (inverse_effect e (rb_records st) (rb_rules st)) (\<lambda>(bs, os, records', rules').
     rbind (check ErrAborted (snd (effect_revisions e) = rb_expected st)) (\<lambda>_.
     let place = effect_place e;
         collection = (if rb_collection st = [] then fst place else rb_collection st)
     in rbind (check ErrFailedPrecondition (fst place = collection \<and> snd place = sc)) (\<lambda>_.
        Inr \<lparr>rb_records = records', rb_rules = rules',
             rb_base_changes = rb_base_changes st @ bs,
             rb_overlay_changes = rb_overlay_changes st @ os,
             rb_has_base = (rb_has_base st \<or> se_type e = StepEffectBase),
             rb_expected = fst (effect_revisions e), rb_collection = collection\<rparr>)))"

definition order_effects :: "order \<Rightarrow> step_effect list" where
  "order_effects ord = List.map_filter ss_effect (or_steps ord)"

definition rollback_plan :: "rollback_state \<Rightarrow> scope \<Rightarrow> u64 \<Rightarrow> u64 \<Rightarrow> string \<Rightarrow> gotime \<Rightarrow> step_effect" where
  "rollback_plan st sc previous new actor at =
     (if rb_has_base st
      then base_step_effect \<lparr>be_version = 1, be_collection = rb_collection st, be_scope = sc,
             be_previous = previous, be_applied = new, be_changes = rb_base_changes st,
             be_overlay = rb_overlay_changes st, be_at = at, be_by = actor\<rparr>
      else overlay_step_effect \<lparr>oe_version = 1, oe_collection = rb_collection st, oe_scope = sc,
             oe_previous = previous, oe_applied = new, oe_changes = rb_overlay_changes st,
             oe_at = at, oe_by = actor\<rparr>)"

definition first_effect_index :: "step_state list \<Rightarrow> nat" where
  "first_effect_index steps = length (takeWhile (\<lambda>s. ss_effect s = None) steps)"

definition rollback_all ::
  "u64 \<Rightarrow> authority \<Rightarrow> u64 \<Rightarrow> string \<Rightarrow> gotime \<Rightarrow> order \<Rightarrow> release_error + (order \<times> step_effect)" where
  "rollback_all expected auth new actor at ord =
     rbind (expect_revision expected ord) (\<lambda>_.
     rbind (check ErrInvalid (\<not> (or_status ord \<noteq> OrderInProgress \<or> blank actor \<or> is_zero_time at \<or>
       new \<le> au_revision auth))) (\<lambda>_.
     let effects = rev (order_effects ord)
     in rbind (check ErrFailedPrecondition (list_all (\<lambda>e. is_ok (validate_step_effect e)) effects)) (\<lambda>_.
        rbind (check ErrInvalid (effects \<noteq> [])) (\<lambda>_.
        rbind (rfold (rollback_effect (or_scope ord))
                 \<lparr>rb_records = clone_record_authority (au_records auth),
                  rb_rules = clone_rule_authority (au_rules auth),
                  rb_base_changes = [], rb_overlay_changes = [], rb_has_base = False,
                  rb_expected = au_revision auth, rb_collection = []\<rparr> effects) (\<lambda>st.
        let plan = rollback_plan st (or_scope ord) (au_revision auth) new actor at
        in rbind (check ErrFailedPrecondition (is_ok (validate_step_effect plan))) (\<lambda>_.
           Inr (close_rolled_back (first_effect_index (or_steps ord))
                  (map (\<lambda>s. if ss_effect s = None then s else mark_rolled_back actor at s) (or_steps ord))
                  actor at ord,
                clone_step_effect plan)))))))"

section \<open>Compensation\<close>

record compensation_authority =
  ca_revision :: u64
  ca_base :: "records option"
  ca_effective :: "records option"

record compensation_item =
  ci_action :: action
  ci_base_before :: "config_record option"
  ci_effective_before :: "config_record option"
  ci_after :: "config_record option"
  ci_record_revision :: u64
  ci_collection_revision :: u64
  ci_preserve :: "string list"

record compensation_plan =
  cn_final :: final_effect
  cn_items :: "compensation_item list"

definition changed_key :: "base_change \<Rightarrow> string option" where
  "changed_key c =
     map_option cr_key (case bc_after c of None \<Rightarrow> bc_before c | Some r \<Rightarrow> Some r)"

text \<open>The newest effect that is not a percentage rollout.\<close>

fun compensated_final_effect ::
  "step_effect list \<Rightarrow> release_error + (final_effect \<times> u64 \<times> string list)" where
  "compensated_final_effect [] = Inl ErrInvalid"
| "compensated_final_effect (e # older) =
     (case (se_type e, se_base e, se_overlay e) of
        (StepEffectBase, Some b, _) \<Rightarrow>
          Inr (FinalEffectBase, be_applied b, List.map_filter changed_key (be_changes b))
      | (StepEffectOverlay, _, Some b) \<Rightarrow> Inr (FinalEffectOverlay, oe_applied b, [])
      | (StepEffectPercent, _, _) \<Rightarrow> compensated_final_effect older
      | _ \<Rightarrow> Inl ErrInvalid)"

definition same_compensation_fact ::
  "config_record option \<Rightarrow> config_record option \<Rightarrow> u64 \<Rightarrow> bool" where
  "same_compensation_fact actual expected revision =
     (case (actual, expected) of
        (Some a, Some e) \<Rightarrow>
          cr_collection a = cr_collection e \<and> cr_environment a = cr_environment e \<and>
          cr_key a = cr_key e \<and> cr_revision a = revision \<and> equal_data (cr_data a) (cr_data e)
      | (None, None) \<Rightarrow> True
      | _ \<Rightarrow> False)"

definition compensate_item ::
  "records \<Rightarrow> records \<Rightarrow> u64 \<Rightarrow> final_effect \<Rightarrow> u64 \<Rightarrow> string list \<Rightarrow> item \<Rightarrow> release_error + compensation_item" where
  "compensate_item base effective collection_revision final applied changed source =
     (let actual_base = base (it_key source); actual_effective = effective (it_key source);
          is_base = (final = FinalEffectBase);
          expected_base = (if is_base then it_after source else it_base_before source);
          expected_effective = it_after source;
          desired = (if is_base then it_base_before source else it_effective_before source);
          base_revision = (if is_base \<and> it_key source \<in> set changed then applied else it_record_revision source);
          effective_revision =
            (if is_base then base_revision
             else if expected_effective \<noteq> None then applied else 0)
      in rbind (check ErrInvalid (it_status source = ItemApplied)) (\<lambda>_.
         rbind (check ErrAborted (same_compensation_fact actual_base expected_base base_revision \<and>
           same_compensation_fact actual_effective expected_effective effective_revision)) (\<lambda>_.
         rbind (check ErrInvalid (\<not> (actual_effective = None \<and> desired = None))) (\<lambda>_.
         Inr \<lparr>ci_action = (if actual_effective = None then ActionAdd
                 else if desired = None then ActionDelete else ActionModify),
              ci_base_before = map_option clone_record actual_base,
              ci_effective_before = map_option clone_record actual_effective,
              ci_after = map_option clone_record desired,
              ci_record_revision = (case actual_base of None \<Rightarrow> 0 | Some r \<Rightarrow> cr_revision r),
              ci_collection_revision = collection_revision, ci_preserve = it_preserve source\<rparr>))))"

definition plan_compensation :: "compensation_authority \<Rightarrow> order \<Rightarrow> release_error + compensation_plan" where
  "plan_compensation auth ord =
     (case (ca_base auth, ca_effective auth) of
        (Some base, Some effective) \<Rightarrow>
          rbind (check ErrInvalid (\<not> (or_status ord \<noteq> OrderSucceeded \<or> ca_revision auth = 0))) (\<lambda>_.
          rbind (compensated_final_effect (rev (order_effects ord))) (\<lambda>(final, applied, changed).
          rbind (rmap (compensate_item base effective (ca_revision auth) final applied changed) (or_items ord))
            (\<lambda>items. Inr \<lparr>cn_final = final, cn_items = items\<rparr>)))
      | _ \<Rightarrow> Inl ErrInvalid)"

section \<open>Restoring\<close>

text \<open>\<open>Order.State\<close>: the persisted form has the fields of the aggregate, cloned.\<close>

definition order_state :: "order \<Rightarrow> order" where
  "order_state ord = clone_order ord"

definition restore_order :: "order \<Rightarrow> release_error + order" where
  "restore_order st =
     (if or_id st = [] \<or> or_model st = [] \<or> or_template st = [] \<or> or_template_version st = 0 \<or>
         or_release_type st = [] \<or> length (or_digest st) \<noteq> 64 \<or> or_revision st = 0 then Inl ErrInvalid
      else if or_compensates st = or_id st then Inl ErrInvalid
      else if or_steps st = [] \<or> or_current st \<ge> length (or_steps st) \<or> or_items st = [] then Inl ErrInvalid
      else if \<not> list_all (\<lambda>s. absent_or (\<lambda>e. is_ok (validate_step_effect e)) (ss_effect s)) (or_steps st)
        then Inl ErrInvalid
      else Inr (clone_order st))"

end
