(* ===== verification/Release_Store.thy ===== *)
theory Release_Store
  imports Release_Rollback
begin

text \<open>
  The database side of a release: the parts of \<open>internal/release/mysqlstore/store.go\<close> that
  allocate a configuration revision, load the authority of an order and apply an effect.

  The tables are finite maps from their unique key to the row. A row of
  \<open>configuration_records\<close> is the record it decodes to, a row of \<open>configuration_overlays\<close> the rule
  it decodes to. The \<open>CHECK\<close> constraints of \<open>db/migrations/mysql/000001_finconfig_v1.sql\<close> that
  depend on the values written are modelled; foreign keys, column widths and character sets
  are not. A transaction that returns an error is rolled back, so an operation yields an
  error or the new state. How a \<open>time.Time\<close> comes back from a \<open>DATETIME(6)\<close> column is a
  parameter, \<open>db_time\<close>.
\<close>

type_synonym place = "string \<times> string \<times> string"
type_synonym rule_place = "string \<times> string \<times> string \<times> string \<times> string"

text \<open>Errors: a sentinel of the release package, or a failure with no sentinel.\<close>

datatype store_error = StoreRelease release_error | StoreFailure String.literal

record version_row =
  vr_revision :: u64
  vr_base_digest :: string
  vr_overlay_digest :: string
  vr_order :: string
  vr_at :: gotime

record change_log =
  lg_collection :: string
  lg_kind :: string
  lg_scope :: scope
  lg_key :: string
  lg_action :: string
  lg_before :: "json option"
  lg_after :: "json option"
  lg_revision :: u64
  lg_order :: string
  lg_at :: gotime

record outbox_event =
  ev_type :: string
  ev_aggregate :: string
  ev_payload :: json
  ev_key :: string
  ev_at :: gotime

record audit_entry =
  ad_at :: gotime
  ad_actor :: string
  ad_name :: string
  ad_action :: string
  ad_type :: string
  ad_resource :: string
  ad_scope :: scope

record database =
  db_counter :: "u64 option"
  db_records :: "(place, config_record) fmap"
  db_rules :: "(rule_place, overlay_rule) fmap"
  db_versions :: "(string \<times> string, version_row) fmap"
  db_log :: "change_log list"
  db_events :: "outbox_event list"
  db_audit :: "audit_entry list"

definition fail :: "String.literal \<Rightarrow> bool \<Rightarrow> store_error + unit" where
  "fail e b = (if b then Inl (StoreFailure e) else Inr ())"

lemma fail_Inr [go_results]: "fail e b = Inr u \<longleftrightarrow> \<not> b"
  by (simp add: fail_def)

text \<open>The rows of a table, in the order of its key.\<close>

definition table_rows :: "('k :: linorder, 'v) fmap \<Rightarrow> ('k \<times> 'v) list" where
  "table_rows t = map (\<lambda>k. (k, the (fmlookup t k))) (sorted_list_of_fset (fmdom t))"

lemma set_table_rows: "(k, v) \<in> set (table_rows t) \<longleftrightarrow> fmlookup t k = Some v"
  by (force simp: table_rows_def fmlookup_dom_iff)

section \<open>The revision counter\<close>

text \<open>\<open>AllocateConfigRevision\<close>: a \<open>uint64\<close> addition, which wraps.\<close>

definition allocate_config_revision :: "database \<Rightarrow> store_error + (database \<times> u64)" where
  "allocate_config_revision db =
     (case db_counter db of
        None \<Rightarrow> Inl (StoreFailure STR ''global config revision counter was not found'')
      | Some current \<Rightarrow> Inr (db\<lparr>db_counter := Some (current + 1)\<rparr>, current + 1))"

section \<open>Loading the authority\<close>

definition record_place :: "string \<Rightarrow> string \<Rightarrow> string \<Rightarrow> place" where
  "record_place collection environment key = (collection, environment, key)"

definition rule_place :: "string \<Rightarrow> scope \<Rightarrow> string \<Rightarrow> rule_place" where
  "rule_place collection sc key = (collection, sc_environment sc, sc_region sc, sc_stage sc, key)"

definition load_version :: "database \<Rightarrow> string \<Rightarrow> string \<Rightarrow> store_error + u64" where
  "load_version db collection environment =
     (case fmlookup (db_versions db) (collection, environment) of
        None \<Rightarrow> Inl (StoreFailure STR ''collection version %s/%s was not found'')
      | Some v \<Rightarrow> if vr_revision v = 0
                  then Inl (StoreFailure STR ''collection version %s/%s was not found'')
                  else Inr (vr_revision v))"

text \<open>
  \<open>LoadBaseAuthority\<close> and \<open>LoadOverlayRules\<close> as the service combines them
  (\<open>loadBaseApplyAuthority\<close>, \<open>loadOverlayAuthority\<close>): the records and the rules of the order's
  exact scope, of the keys of its items.
\<close>

definition load_authority :: "database \<Rightarrow> order \<Rightarrow> store_error + authority" where
  "load_authority db ord =
     (let collection = it_collection (hd (or_items ord)); sc = or_scope ord;
          keys = map it_key (or_items ord)
      in rbind (load_version db collection (sc_environment sc)) (\<lambda>revision.
         Inr \<lparr>au_revision = revision,
              au_records = (\<lambda>k. if k \<in> set keys
                 then fmlookup (db_records db) (record_place collection (sc_environment sc) k) else None),
              au_rules = (\<lambda>k. if k \<in> set keys
                 then fmlookup (db_rules db) (rule_place collection sc k) else None)\<rparr>))"

section \<open>Writing records\<close>

text \<open>\<open>chk_record_data_object\<close>, \<open>chk_record_revision\<close> and \<open>chk_record_environment\<close>.\<close>

definition record_row_ok :: "config_record \<Rightarrow> bool" where
  "record_row_ok r \<longleftrightarrow> cr_data r \<noteq> None \<and> cr_revision r > 0 \<and> cr_environment r \<noteq> []"

definition change_target :: "base_change \<Rightarrow> string" where
  "change_target c =
     (case (bc_after c, bc_before c) of (Some r, _) \<Rightarrow> cr_key r | (None, Some r) \<Rightarrow> cr_key r | _ \<Rightarrow> [])"

definition written_record :: "base_effect \<Rightarrow> string \<Rightarrow> config_record \<Rightarrow> config_record" where
  "written_record e key after =
     \<lparr>cr_collection = be_collection e, cr_environment = sc_environment (be_scope e), cr_key = key,
      cr_data = cr_data after, cr_revision = be_applied e\<rparr>"

text \<open>The \<open>INSERT\<close>, \<open>UPDATE\<close> or \<open>DELETE\<close> of one change.\<close>

definition write_record ::
  "base_effect \<Rightarrow> (place, config_record) fmap \<Rightarrow> base_change \<Rightarrow> store_error + (place, config_record) fmap" where
  "write_record e recs c =
     (let key = change_target c;
          p = record_place (be_collection e) (sc_environment (be_scope e)) key
      in case bc_action c of
           ActionAdd \<Rightarrow>
             (case bc_after c of
                None \<Rightarrow> Inl (StoreFailure STR ''base ADD requires after'')
              | Some after \<Rightarrow>
                  rbind (fail STR ''duplicate entry for key PRIMARY'' (fmlookup recs p \<noteq> None)) (\<lambda>_.
                  rbind (fail STR ''check constraint violated'' (\<not> record_row_ok (written_record e key after))) (\<lambda>_.
                  Inr (fmupd p (written_record e key after) recs))))
         | ActionModify \<Rightarrow>
             (case (bc_before c, bc_after c) of
                (Some _, Some after) \<Rightarrow>
                  if fmlookup recs p = None then Inr recs
                  else rbind (fail STR ''check constraint violated'' (\<not> record_row_ok (written_record e key after))) (\<lambda>_.
                       Inr (fmupd p (written_record e key after) recs))
              | _ \<Rightarrow> Inl (StoreFailure STR ''base MODIFY requires before and after''))
         | ActionDelete \<Rightarrow>
             (if bc_before c = None \<or> bc_after c \<noteq> None
              then Inl (StoreFailure STR ''base DELETE requires only before'')
              else Inr (fmdrop p recs))
         | ActionOther _ \<Rightarrow> Inl (StoreFailure STR ''unsupported base effect action %q''))"

definition record_log :: "string \<Rightarrow> base_effect \<Rightarrow> base_change \<Rightarrow> change_log" where
  "record_log order_id e c =
     \<lparr>lg_collection = be_collection e, lg_kind = ''BASE_RECORD'', lg_scope = be_scope e,
      lg_key = change_target c, lg_action = action_text (bc_action c),
      lg_before = map_option (\<lambda>r. json_data_option (cr_data r)) (bc_before c),
      lg_after = map_option (\<lambda>r. json_data_option (cr_data r)) (bc_after c),
      lg_revision = be_applied e, lg_order = order_id, lg_at = be_at e\<rparr>"

definition apply_base_change :: "string \<Rightarrow> base_effect \<Rightarrow> database \<Rightarrow> base_change \<Rightarrow> store_error + database" where
  "apply_base_change order_id e db c =
     rbind (write_record e (db_records db) c) (\<lambda>recs.
     Inr (db\<lparr>db_records := recs, db_log := db_log db @ [record_log order_id e c]\<rparr>))"

section \<open>Writing rules\<close>

text \<open>
  The constraints of \<open>configuration_overlays\<close>: \<open>chk_overlay_action\<close>, \<open>chk_overlay_content\<close> (a
  content that is present is a JSON object), \<open>chk_overlay_window\<close>, the two pairs,
  \<open>chk_overlay_expiry_order\<close> and \<open>chk_overlay_revision\<close>.
\<close>

definition rule_row_ok :: "overlay_rule \<Rightarrow> bool" where
  "rule_row_ok r \<longleftrightarrow>
     ru_action r \<in> {ActionAdd, ActionModify, ActionDelete} \<and>
     (ru_action r = ActionDelete \<longleftrightarrow> ru_content r = None) \<and>
     (case (ru_from r, ru_until r) of (Some f, Some u) \<Rightarrow> f < u | _ \<Rightarrow> True) \<and>
     (ru_activated r = None \<longleftrightarrow> ru_activated_at r = None) \<and>
     (ru_expired r = None \<longleftrightarrow> ru_expired_at r = None) \<and>
     (case (ru_expired_at r, ru_activated_at r) of (Some x, Some a) \<Rightarrow> a \<le> x | _ \<Rightarrow> True) \<and>
     ru_revision r > 0"

text \<open>A rule as the table gives it back.\<close>

definition stored_rule :: "(gotime \<Rightarrow> gotime) \<Rightarrow> overlay_rule \<Rightarrow> overlay_rule" where
  "stored_rule db_time r =
     r\<lparr>ru_from := map_option db_time (ru_from r), ru_until := map_option db_time (ru_until r),
       ru_activated_at := map_option db_time (ru_activated_at r),
       ru_expired_at := map_option db_time (ru_expired_at r),
       ru_created_at := db_time (ru_created_at r), ru_updated_at := db_time (ru_updated_at r)\<rparr>"

definition rule_row_place :: "overlay_rule \<Rightarrow> rule_place" where
  "rule_row_place r = rule_place (ru_collection r) (ru_scope r) (ru_key r)"

text \<open>
  \<open>upsertOverlayRule\<close>. \<open>ON DUPLICATE KEY UPDATE\<close> updates the row that has the same primary key
  \<open>id\<close>, and only then the one with the same scope and record key; the identity columns of the
  updated row stay.
\<close>

definition upsert_overlay_rule ::
  "(gotime \<Rightarrow> gotime) \<Rightarrow> (rule_place, overlay_rule) fmap \<Rightarrow> overlay_rule \<Rightarrow> store_error + (rule_place, overlay_rule) fmap" where
  "upsert_overlay_rule db_time rules r =
     (let row = stored_rule db_time r
      in rbind (fail STR ''check constraint violated'' (\<not> rule_row_ok row)) (\<lambda>_.
         case filter (\<lambda>(p, old). ru_id old = ru_id r) (table_rows rules) of
           (p, old) # _ \<Rightarrow>
             Inr (fmupd p (row\<lparr>ru_collection := ru_collection old, ru_scope := ru_scope old, ru_key := ru_key old\<rparr>) rules)
         | [] \<Rightarrow> Inr (fmupd (rule_row_place r) row rules)))"

definition rule_change_action :: "rule_change \<Rightarrow> action" where
  "rule_change_action c =
     (if rc_previous c = None then ActionAdd else if rc_new c = None then ActionDelete else ActionModify)"

definition rule_log :: "string \<Rightarrow> string \<Rightarrow> scope \<Rightarrow> u64 \<Rightarrow> gotime \<Rightarrow> rule_change \<Rightarrow> change_log" where
  "rule_log order_id collection sc applied at c =
     \<lparr>lg_collection = collection, lg_kind = ''OVERLAY'', lg_scope = sc, lg_key = rc_key c,
      lg_action = action_text (rule_change_action c),
      lg_before = map_option (\<lambda>r. json_data_option (ru_content r)) (rc_previous c),
      lg_after = map_option (\<lambda>r. json_data_option (ru_content r)) (rc_new c),
      lg_revision = applied, lg_order = order_id, lg_at = at\<rparr>"

definition write_rule ::
  "(gotime \<Rightarrow> gotime) \<Rightarrow> string \<Rightarrow> scope \<Rightarrow> (rule_place, overlay_rule) fmap \<Rightarrow> rule_change
   \<Rightarrow> store_error + (rule_place, overlay_rule) fmap" where
  "write_rule db_time collection sc rules c =
     (case rc_new c of
        None \<Rightarrow> Inr (fmdrop (rule_place collection sc (rc_key c)) rules)
      | Some r \<Rightarrow> upsert_overlay_rule db_time rules r)"

definition apply_rule_change ::
  "(gotime \<Rightarrow> gotime) \<Rightarrow> string \<Rightarrow> string \<Rightarrow> scope \<Rightarrow> u64 \<Rightarrow> gotime \<Rightarrow> database \<Rightarrow> rule_change \<Rightarrow> store_error + database" where
  "apply_rule_change db_time order_id collection sc applied at db c =
     rbind (write_rule db_time collection sc (db_rules db) c) (\<lambda>rules.
     Inr (db\<lparr>db_rules := rules, db_log := db_log db @ [rule_log order_id collection sc applied at c]\<rparr>))"

section \<open>Digests and the version row\<close>

text \<open>The records of a collection and environment, with the columns the digest reads.\<close>

definition digest_records :: "database \<Rightarrow> string \<Rightarrow> string \<Rightarrow> config_record list" where
  "digest_records db collection environment =
     map (\<lambda>((_, _, k), r). \<lparr>cr_collection = [], cr_environment = [], cr_key = k, cr_data = cr_data r, cr_revision = 0\<rparr>)
       (filter (\<lambda>((c, e, _), _). c = collection \<and> e = environment) (table_rows (db_records db)))"

text \<open>\<open>loadEnvironmentOverlayRules\<close>: the columns that are not selected stay zero.\<close>

definition environment_rules :: "database \<Rightarrow> string \<Rightarrow> string \<Rightarrow> overlay_rule list" where
  "environment_rules db collection environment =
     map (\<lambda>(_, r). r\<lparr>ru_revision := 0, ru_order := [], ru_from := None, ru_until := None,
             ru_activated_at := None, ru_expired_at := None, ru_created_at := 0, ru_created_by := [],
             ru_updated_at := 0, ru_updated_by := []\<rparr>)
       (filter (\<lambda>((c, e, _), _). c = collection \<and> e = environment) (table_rows (db_rules db)))"

definition as_failure :: "String.literal \<Rightarrow> 'e + 'a \<Rightarrow> store_error + 'a" where
  "as_failure e = rerror (StoreFailure e)"

text \<open>
  The compare-and-set on \<open>configuration_versions\<close>; an overlay effect leaves the base digest.
  The row it matches always changes, since the effect has a larger applied revision, so it is counted.
\<close>

definition update_version ::
  "string \<Rightarrow> string \<Rightarrow> u64 \<Rightarrow> u64 \<Rightarrow> string option \<Rightarrow> string \<Rightarrow> string \<Rightarrow> gotime \<Rightarrow> database \<Rightarrow> store_error + database" where
  "update_version collection environment previous applied base_digest overlay_digest order_id at db =
     (case fmlookup (db_versions db) (collection, environment) of
        None \<Rightarrow> Inl (StoreRelease ErrAborted)
      | Some v \<Rightarrow>
          if vr_revision v \<noteq> previous then Inl (StoreRelease ErrAborted)
          else rbind (fail STR ''check constraint violated'' (applied = 0)) (\<lambda>_.
            Inr (db\<lparr>db_versions := fmupd (collection, environment)
              \<lparr>vr_revision = applied,
               vr_base_digest = (case base_digest of None \<Rightarrow> vr_base_digest v | Some d \<Rightarrow> d),
               vr_overlay_digest = overlay_digest, vr_order = order_id, vr_at = at\<rparr> (db_versions db)\<rparr>)))"

definition json_scope :: "scope \<Rightarrow> json" where
  "json_scope sc =
     JObj [(''region'', JStr (sc_region sc)), (''environment'', JStr (sc_environment sc)),
           (''stage'', JStr (sc_stage sc))]"

text \<open>A \<open>map[string]any\<close> is printed in key order.\<close>

definition changed_payload :: "string \<Rightarrow> u64 \<Rightarrow> string \<Rightarrow> string \<times> json \<Rightarrow> json" where
  "changed_payload collection applied order_id place =
     JObj ([(''collection'', JStr collection), (''configRevision'', json_int (uint applied))] @
       (if fst place = ''environment'' then [place] else []) @
       [(''releaseOrderId'', JStr order_id), (''schemaVersion'', json_int 1)] @
       (if fst place = ''scope'' then [place] else []))"

definition event_key :: "string \<Rightarrow> u64 \<Rightarrow> string" where
  "event_key order_id applied =
     ''configuration-changed:'' @ order_id @ '':'' @ format_int (uint applied)"

text \<open>The event row; its idempotency key is unique.\<close>

definition insert_event :: "string \<Rightarrow> u64 \<Rightarrow> json \<Rightarrow> gotime \<Rightarrow> database \<Rightarrow> store_error + database" where
  "insert_event order_id applied payload at db =
     rbind (fail STR ''duplicate entry for key uq_outbox_idempotency''
       (event_key order_id applied \<in> ev_key ` set (db_events db))) (\<lambda>_.
     Inr (db\<lparr>db_events := db_events db @
       [\<lparr>ev_type = ''RELEASE_ORDER'', ev_aggregate = order_id, ev_payload = payload, ev_key = event_key order_id applied, ev_at = at\<rparr>]\<rparr>))"

definition insert_audit :: "gotime \<Rightarrow> string \<Rightarrow> string \<Rightarrow> string \<Rightarrow> scope \<Rightarrow> database \<Rightarrow> database" where
  "insert_audit at actor act order_id sc db =
     db\<lparr>db_audit := db_audit db @
       [\<lparr>ad_at = at, ad_actor = actor, ad_name = actor, ad_action = act, ad_type = ''RELEASE_ORDER'',
         ad_resource = order_id, ad_scope = sc\<rparr>]\<rparr>"

section \<open>Applying an effect\<close>

definition apply_base_effect ::
  "(gotime \<Rightarrow> gotime) \<Rightarrow> string \<Rightarrow> base_effect \<Rightarrow> database \<Rightarrow> store_error + database" where
  "apply_base_effect db_time order_id e db0 =
     (let environment = sc_environment (be_scope e)
      in rbind (as_failure STR ''invalid base effect'' (validate_step_effect (base_step_effect e))) (\<lambda>_.
         rbind (rfold (apply_base_change order_id e) db0 (be_changes e)) (\<lambda>db1.
         rbind (rfold (apply_rule_change db_time order_id (be_collection e) (be_scope e) (be_applied e) (be_at e))
                  db1 (be_overlay e)) (\<lambda>db2.
         rbind (as_failure STR ''base digest''
                  (compute_base_digest (digest_records db2 (be_collection e) environment))) (\<lambda>base_digest.
         rbind (as_failure STR ''overlay digest''
                  (compute_overlay_digest (environment_rules db2 (be_collection e) environment))) (\<lambda>overlay_digest.
         rbind (update_version (be_collection e) environment (be_previous e) (be_applied e)
                  (Some (dg_value base_digest)) (dg_value overlay_digest) order_id (be_at e) db2) (\<lambda>db3.
         rbind (insert_event order_id (be_applied e)
                  (changed_payload (be_collection e) (be_applied e) order_id (''environment'', JStr environment))
                  (be_at e) db3) (\<lambda>db4.
         Inr (insert_audit (be_at e) (be_by e) ''BASE_APPLY'' order_id (be_scope e) db4)))))))))"

definition apply_overlay_rule_changes ::
  "(gotime \<Rightarrow> gotime) \<Rightarrow> string \<Rightarrow> overlay_effect \<Rightarrow> string \<Rightarrow> database \<Rightarrow> store_error + database" where
  "apply_overlay_rule_changes db_time order_id e audit_action db0 =
     (let environment = sc_environment (oe_scope e)
      in rbind (rfold (apply_rule_change db_time order_id (oe_collection e) (oe_scope e) (oe_applied e) (oe_at e))
                  db0 (oe_changes e)) (\<lambda>db1.
         rbind (as_failure STR ''overlay digest''
                  (compute_overlay_digest (environment_rules db1 (oe_collection e) environment))) (\<lambda>overlay_digest.
         rbind (update_version (oe_collection e) environment (oe_previous e) (oe_applied e)
                  None (dg_value overlay_digest) order_id (oe_at e) db1) (\<lambda>db2.
         rbind (insert_event order_id (oe_applied e)
                  (changed_payload (oe_collection e) (oe_applied e) order_id (''scope'', json_scope (oe_scope e)))
                  (oe_at e) db2) (\<lambda>db3.
         Inr (insert_audit (oe_at e) (oe_by e) audit_action order_id (oe_scope e) db3))))))"

definition apply_overlay_effect ::
  "(gotime \<Rightarrow> gotime) \<Rightarrow> string \<Rightarrow> overlay_effect \<Rightarrow> database \<Rightarrow> store_error + database" where
  "apply_overlay_effect db_time order_id e db =
     rbind (as_failure STR ''invalid overlay effect'' (validate_step_effect (overlay_step_effect e))) (\<lambda>_.
     apply_overlay_rule_changes db_time order_id e ''OVERLAY_APPLY'' db)"

definition apply_percent_effect ::
  "(gotime \<Rightarrow> gotime) \<Rightarrow> string \<Rightarrow> percent_effect \<Rightarrow> database \<Rightarrow> store_error + database" where
  "apply_percent_effect db_time order_id e db =
     rbind (as_failure STR ''invalid percentage effect'' (validate_step_effect (percent_step_effect e))) (\<lambda>_.
     apply_overlay_rule_changes db_time order_id
       \<lparr>oe_version = pe_version e, oe_collection = pe_collection e, oe_scope = pe_scope e,
        oe_previous = pe_previous e, oe_applied = pe_applied e, oe_changes = pe_changes e,
        oe_at = pe_at e, oe_by = pe_by e\<rparr> ''PERCENT_ROLLOUT'' db)"

end
