(* ===== verification/Optimistic.thy ===== *)
theory Optimistic
  imports Go_Prelude
begin

text \<open>
  Two contracts that several parts of the program share.

  \<open>guarded\<close> is optimistic concurrency: an aggregate with a revision and commands that may name
  the revision they expect. \<open>counted\<close> extends it with a revision that counts the accepted
  commands and a closed state that accepts none. \<open>undoable\<close> is a store whose changes have
  inverses, planned from the newest change to the oldest.
\<close>

locale guarded =
  fixes revision_of :: "'s \<Rightarrow> u64"
    and expected_by :: "'c \<Rightarrow> u64 option"
    and accepts :: "'c \<Rightarrow> 's \<Rightarrow> 'e + 's"
  assumes stale_rejected:
      "expected_by c = Some r \<Longrightarrow> revision_of s \<noteq> r \<Longrightarrow> \<not> is_ok (accepts c s)"
    and accepted_moves: "accepts c s = Inr s' \<Longrightarrow> revision_of s' \<noteq> revision_of s"
begin

text \<open>Of two commands decided on the same state only one is accepted.\<close>

lemma no_lost_update:
  assumes "accepts c s = Inr s'" "expected_by d = Some (revision_of s)"
  shows "\<not> is_ok (accepts d s')"
  using stale_rejected [OF assms(2)] accepted_moves [OF assms(1)] by simp

end

locale counted = guarded +
  fixes closed :: "'s \<Rightarrow> bool"
  assumes closed_rejects: "closed s \<Longrightarrow> \<not> is_ok (accepts c s)"
    and accepted_counts: "accepts c s = Inr s' \<Longrightarrow> revision_of s' = revision_of s + 1"
begin

text \<open>A run of accepted commands advances the revision by its length.\<close>

lemma run_counts:
  assumes "rfold (\<lambda>s c. accepts c s) s cs = Inr s'"
  shows "revision_of s' = revision_of s + of_nat (length cs)"
  using assms
proof (induction cs arbitrary: s)
  case (Cons c cs)
  then obtain t where t: "accepts c s = Inr t" "rfold (\<lambda>s c. accepts c s) t cs = Inr s'"
    by (auto simp: rbind_Inr_iff)
  show ?case using Cons.IH [OF t(2)] accepted_counts [OF t(1)] by (simp add: add_ac)
qed simp

lemma closed_run: "closed s \<Longrightarrow> rfold (\<lambda>s c. accepts c s) s cs = Inr s' \<Longrightarrow> cs = [] \<and> s' = s"
  using closed_rejects by (cases cs) (auto simp: rbind_Inr_iff is_ok_iff)

end

locale undoable =
  fixes apply_one :: "'c \<Rightarrow> 's \<Rightarrow> 's"
    and applicable :: "'c \<Rightarrow> 's \<Rightarrow> bool"
    and undo_one :: "'s \<Rightarrow> 'c \<Rightarrow> 'e + ('i \<times> 's)"
  assumes undo_after: "applicable c s \<Longrightarrow> \<exists>i. undo_one (apply_one c s) c = Inr (i, s)"
begin

fun applicable_all :: "'c list \<Rightarrow> 's \<Rightarrow> bool" where
  "applicable_all [] s \<longleftrightarrow> True"
| "applicable_all (c # cs) s \<longleftrightarrow> applicable c s \<and> applicable_all cs (apply_one c s)"

definition apply_all :: "'c list \<Rightarrow> 's \<Rightarrow> 's" where
  "apply_all cs s = foldl (\<lambda>s c. apply_one c s) s cs"

text \<open>The planning loop: it visits the changes from the newest to the oldest.\<close>

definition undo_all :: "'c list \<Rightarrow> 'i list \<times> 's \<Rightarrow> 'e + ('i list \<times> 's)" where
  "undo_all cs acc =
     rfold (\<lambda>(is, s) c. rbind (undo_one s c) (\<lambda>(i, s'). Inr (is @ [i], s'))) acc (rev cs)"

lemma undo_all_restores:
  assumes "applicable_all cs s"
  shows "\<exists>is. undo_all cs (acc, apply_all cs s) = Inr (acc @ is, s) \<and> length is = length cs"
  using assms
proof (induction cs arbitrary: s acc)
  case Nil
  then show ?case by (simp add: undo_all_def apply_all_def)
next
  case (Cons c cs)
  then have ok: "applicable c s" "applicable_all cs (apply_one c s)" by simp_all
  from Cons.IH [OF ok(2), of acc] obtain "is" where "is":
    "undo_all cs (acc, apply_all cs (apply_one c s)) = Inr (acc @ is, apply_one c s)" "length is = length cs"
    by blast
  from undo_after [OF ok(1)] obtain i where i: "undo_one (apply_one c s) c = Inr (i, s)" by blast
  have "undo_all (c # cs) (acc, apply_all (c # cs) s) = Inr (acc @ (is @ [i]), s)"
    using "is"(1) i by (simp add: undo_all_def apply_all_def rfold_append)
  then show ?case using "is"(2) by (metis length_append_singleton length_Cons)
qed

end

text \<open>
  The plan itself is a list of changes: replayed on the current state it leads back to a state
  similar to the first one.
\<close>

locale replayable = undoable apply_one applicable undo_one
  for apply_one :: "'c \<Rightarrow> 's \<Rightarrow> 's"
    and applicable :: "'c \<Rightarrow> 's \<Rightarrow> bool"
    and undo_one :: "'s \<Rightarrow> 'c \<Rightarrow> 'e + ('i \<times> 's)" +
  fixes replay :: "'i \<Rightarrow> 's \<Rightarrow> 's"
    and similar_states :: "'s \<Rightarrow> 's \<Rightarrow> bool"
    and well_formed :: "'i \<Rightarrow> bool"
  assumes replay_undo:
      "applicable c s \<Longrightarrow> undo_one (apply_one c s) c = Inr (i, s) \<Longrightarrow>
         similar_states (replay i (apply_one c s)) s \<and> well_formed i"
    and replay_similar: "similar_states s t \<Longrightarrow> similar_states (replay i s) (replay i t)"
    and similar_refl: "similar_states s s"
    and similar_trans: "similar_states s t \<Longrightarrow> similar_states t u \<Longrightarrow> similar_states s u"
begin

definition replay_all :: "'i list \<Rightarrow> 's \<Rightarrow> 's" where
  "replay_all is s = foldl (\<lambda>s i. replay i s) s is"

lemma replay_all_append: "replay_all (is @ js) s = replay_all js (replay_all is s)"
  by (simp add: replay_all_def)

lemma replay_all_similar: "similar_states s t \<Longrightarrow> similar_states (replay_all is s) (replay_all is t)"
  by (induction "is" arbitrary: s t) (simp_all add: replay_all_def replay_similar)

lemma undo_all_replays:
  assumes "applicable_all cs s"
  shows "\<exists>is. undo_all cs (acc, apply_all cs s) = Inr (acc @ is, s) \<and> length is = length cs \<and>
    similar_states (replay_all is (apply_all cs s)) s \<and> list_all well_formed is"
  using assms
proof (induction cs arbitrary: s acc)
  case Nil
  then show ?case by (simp add: undo_all_def apply_all_def replay_all_def similar_refl)
next
  case (Cons c cs)
  then have ok: "applicable c s" "applicable_all cs (apply_one c s)" by simp_all
  let ?t = "apply_all cs (apply_one c s)"
  from Cons.IH [OF ok(2), of acc] obtain "is" where "is": "undo_all cs (acc, ?t) = Inr (acc @ is, apply_one c s)"
    "length is = length cs" "similar_states (replay_all is ?t) (apply_one c s)" "list_all well_formed is"
    by blast
  from undo_after [OF ok(1)] obtain i where i: "undo_one (apply_one c s) c = Inr (i, s)" by blast
  note last = replay_undo [OF ok(1) i]
  have "apply_all (c # cs) s = ?t" by (simp add: apply_all_def)
  moreover have "undo_all (c # cs) (acc, ?t) = Inr (acc @ (is @ [i]), s)"
    using "is"(1) i by (simp add: undo_all_def rfold_append)
  moreover have "similar_states (replay_all (is @ [i]) ?t) s"
    using similar_trans [OF replay_similar [OF "is"(3)] conjunct1 [OF last]]
    by (simp add: replay_all_append) (simp add: replay_all_def)
  ultimately show ?case using "is"(2,4) last by (intro exI [of _ "is @ [i]"]) simp
qed

end

end
