(* ===== verification/Release_Workflow.thy ===== *)
theory Release_Workflow
  imports Release_Rollback Optimistic
begin

text \<open>
  The life of a release order. \<open>order_command\<close> has one constructor per operation of the
  aggregate and \<open>apply_command\<close> runs it. The abstract state machine \<open>workflow_step\<close> keeps of an
  order its status, its current step and the statuses of its steps; every operation is shown
  to be one of its transitions, and the invariants of a reachable order follow from it.
\<close>

section \<open>The operations as commands\<close>

datatype order_command =
    CmdManualReview u64 string gotime
  | CmdApprove u64 principal string gotime
  | CmdReject u64 principal string gotime
  | CmdCompare u64 "config_record list" string gotime
  | CmdAdvance u64 string gotime
  | CmdComplete u64 string gotime
  | CmdBase authority u64 string gotime
  | CmdOverlay authority u64 string gotime
  | CmdPercent authority u64 string gotime
  | CmdRollbackBase u64 authority u64 string gotime
  | CmdRollbackOverlay u64 u64 u64 string gotime
  | CmdRollbackAll u64 authority u64 string gotime

definition changed :: "release_error + (order \<times> 'b) \<Rightarrow> release_error + order" where
  "changed r = rbind r (\<lambda>(ord, _). Inr ord)"

lemma changed_Inr [go_results]: "changed r = Inr ord \<longleftrightarrow> (\<exists>x. r = Inr (ord, x))"
  by (cases r) (auto simp: changed_def split: prod.splits)

fun apply_command :: "order_command \<Rightarrow> order \<Rightarrow> release_error + order" where
  "apply_command (CmdManualReview r a t) ord = execute_manual_review r a t ord"
| "apply_command (CmdApprove r who comment t) ord = approve_manual_review r who comment t ord"
| "apply_command (CmdReject r who comment t) ord = reject_manual_review r who comment t ord"
| "apply_command (CmdCompare r actual a t) ord = changed (execute_compare r actual a t ord)"
| "apply_command (CmdAdvance r a t) ord = advance r a t ord"
| "apply_command (CmdComplete r a t) ord = complete_order r a t ord"
| "apply_command (CmdBase auth new a t) ord = changed (execute_base auth new a t ord)"
| "apply_command (CmdOverlay auth new a t) ord = changed (execute_overlay auth new a t ord)"
| "apply_command (CmdPercent auth new a t) ord = changed (execute_percent_rollout auth new a t ord)"
| "apply_command (CmdRollbackBase r auth new a t) ord = changed (rollback_base r auth new a t ord)"
| "apply_command (CmdRollbackOverlay r cur new a t) ord = changed (rollback_overlay r cur new a t ord)"
| "apply_command (CmdRollbackAll r auth new a t) ord = changed (rollback_all r auth new a t ord)"

fun command_expects :: "order_command \<Rightarrow> u64 option" where
  "command_expects (CmdManualReview r a t) = Some r"
| "command_expects (CmdApprove r who comment t) = Some r"
| "command_expects (CmdReject r who comment t) = Some r"
| "command_expects (CmdCompare r actual a t) = Some r"
| "command_expects (CmdAdvance r a t) = Some r"
| "command_expects (CmdComplete r a t) = Some r"
| "command_expects (CmdRollbackBase r auth new a t) = Some r"
| "command_expects (CmdRollbackOverlay r cur new a t) = Some r"
| "command_expects (CmdRollbackAll r auth new a t) = Some r"
| "command_expects _ = None"

section \<open>What a successful operation leaves\<close>

lemma current_step_bump [simp]:
  "or_steps (bump a t ord) = or_steps ord" "or_current (bump a t ord) = or_current ord"
  "or_items (bump a t ord) = or_items ord" "or_status (bump a t ord) = or_status ord"
  "or_completed_at (bump a t ord) = or_completed_at ord" "or_scope (bump a t ord) = or_scope ord"
  "or_id (bump a t ord) = or_id ord" "or_created_by (bump a t ord) = or_created_by ord"
  "or_revision (bump a t ord) = or_revision ord + 1" "or_updated_by (bump a t ord) = a"
  "or_updated_at (bump a t ord) = t"
  by (simp_all add: bump_def)

lemma set_current_step_simps [simp]:
  "or_steps (set_current_step f ord) = (or_steps ord)[or_current ord := f (current_step ord)]"
  "or_current (set_current_step f ord) = or_current ord" "or_items (set_current_step f ord) = or_items ord"
  "or_status (set_current_step f ord) = or_status ord" "or_scope (set_current_step f ord) = or_scope ord"
  "or_completed_at (set_current_step f ord) = or_completed_at ord"
  "or_revision (set_current_step f ord) = or_revision ord" "or_id (set_current_step f ord) = or_id ord"
  "or_created_by (set_current_step f ord) = or_created_by ord"
  by (simp_all add: set_current_step_def)

text \<open>
  The shape of every success: the current step changed in place, advancing, or an end of the
  order. A change in place keeps what identifies the step.
\<close>

definition keeps_definition :: "(step_state \<Rightarrow> step_state) \<Rightarrow> bool" where
  "keeps_definition f \<longleftrightarrow>
     (\<forall>s. ss_code (f s) = ss_code s \<and> ss_type (f s) = ss_type s \<and> ss_roles (f s) = ss_roles s \<and>
          ss_self_approval (f s) = ss_self_approval s \<and> ss_ranges (f s) = ss_ranges s \<and>
          ss_compare_mode (f s) = ss_compare_mode s \<and> ss_preview_bucket (f s) = ss_preview_bucket s)"

lemma execute_manual_review_Inr:
  assumes "execute_manual_review r a t ord = Inr ord'"
  shows "or_revision ord = r" "at_current ord StepManualReview StepPending" "\<not> blank a" "t \<noteq> 0"
    "ord' = bump a t (set_current_step (\<lambda>s. s\<lparr>ss_status := StepExecuting,
       ss_approval := Some \<lparr>ap_status = ApprovalPending, ap_requested_at = t, ap_requested_by = a,
         ap_decided_at = None, ap_decided_by = [], ap_comment = []\<rparr>\<rparr>) ord)"
  using assms by (auto simp: execute_manual_review_def rbind_Inr_iff check_Inr expect_revision_Inr is_zero_time_def)

lemma authorize_manual_decision_Inr:
  assumes "authorize_manual_decision r who t ord = Inr u"
  shows "or_revision ord = r" "at_current ord StepManualReview StepExecuting"
    "set (pr_roles who) \<inter> set (ss_roles (current_step ord)) \<noteq> {}"
    "\<not> (ss_self_approval (current_step ord) = SelfApprovalDenyProduction \<and>
        sc_environment (or_scope ord) = ''production'' \<and> trim_space (pr_subject who) = or_created_by ord)"
    "trim_space (pr_subject who) \<noteq> []" "t \<noteq> 0"
  using assms
  by (auto simp: authorize_manual_decision_def rbind_Inr_iff check_Inr expect_revision_Inr Let_def
      has_required_role_iff is_zero_time_def)

lemma approve_manual_review_Inr:
  assumes "approve_manual_review r who comment t ord = Inr ord'"
  shows "authorize_manual_decision r who t ord = Inr ()"
    "ord' = bump (pr_subject who) t (set_current_step
       (\<lambda>s. (decide ApprovalApproved (pr_subject who) comment t s)\<lparr>ss_status := StepApproved\<rparr>) ord)"
  using assms by (auto simp: approve_manual_review_def rbind_Inr_iff)

definition rejected_order :: "principal \<Rightarrow> string \<Rightarrow> gotime \<Rightarrow> order \<Rightarrow> order" where
  "rejected_order who comment t ord =
     (set_current_step (\<lambda>s. (decide ApprovalRejected (pr_subject who) comment t s)\<lparr>ss_status := StepRejected\<rparr>) ord)
       \<lparr>or_items := map (\<lambda>i. i\<lparr>it_conflict_key := []\<rparr>) (or_items ord),
        or_status := OrderRejected, or_completed_at := Some t\<rparr>"

lemma reject_manual_review_Inr:
  assumes "reject_manual_review r who comment t ord = Inr ord'"
  shows "authorize_manual_decision r who t ord = Inr ()" "\<not> blank comment"
    "ord' = bump (pr_subject who) t (rejected_order who comment t ord)"
  using assms by (auto simp: reject_manual_review_def rbind_Inr_iff check_Inr Let_def rejected_order_def)

definition compared_step :: "compare_result \<Rightarrow> string \<Rightarrow> gotime \<Rightarrow> step_state \<Rightarrow> step_state" where
  "compared_step result a t s =
     (if cp_diff_keys result = []
      then s\<lparr>ss_compare := Some result, ss_status := StepExecuted, ss_executed_at := Some t, ss_executed_by := a\<rparr>
      else s\<lparr>ss_compare := Some result\<rparr>)"

lemma execute_compare_Inr:
  assumes "execute_compare r actual a t ord = Inr (ord', result, matched)"
  shows "or_revision ord = r" "at_current ord StepCompare StepPending" "\<not> blank a" "t \<noteq> 0"
    "\<exists>records. rfold (add_actual_record ord) [] actual = Inr records \<and>
       cp_diff_keys result = compare_diff_keys ord records \<and>
       compute_base_digest (expected_records ord) = Inr (cp_expected result) \<and>
       compute_base_digest records = Inr (cp_actual result)"
    "matched \<longleftrightarrow> cp_diff_keys result = []"
    "ord' = bump a t (set_current_step (compared_step result a t) ord)"
  using assms
  by (auto simp: execute_compare_def rbind_Inr_iff check_Inr expect_revision_Inr Let_def is_zero_time_def
      rerror_Inr_iff compared_step_def [abs_def] split: if_splits)

lemma advance_Inr:
  assumes "advance r a t ord = Inr ord'"
  shows "or_revision ord = r" "or_status ord = OrderInProgress" "or_current ord + 1 < length (or_steps ord)"
    "ss_status (current_step ord) \<in> {StepExecuted, StepApproved}"
    "ord' = bump a t (ord\<lparr>or_current := or_current ord + 1\<rparr>)"
  using assms
  by (auto simp: advance_def rbind_Inr_iff check_Inr expect_revision_Inr Let_def)

definition completed_order :: "string \<Rightarrow> gotime \<Rightarrow> order \<Rightarrow> order" where
  "completed_order a t ord =
     (set_current_step (\<lambda>s. s\<lparr>ss_status := StepExecuted, ss_executed_at := Some t, ss_executed_by := a\<rparr>) ord)
       \<lparr>or_items := close_items ItemApplied (or_items ord), or_status := OrderSucceeded, or_completed_at := Some t\<rparr>"

lemma complete_order_Inr:
  assumes "complete_order r a t ord = Inr ord'"
  shows "or_revision ord = r" "at_current ord StepComplete StepPending" "or_current ord \<noteq> 0"
    "ss_status (or_steps ord ! (or_current ord - 1)) = StepExecuted"
    "ord' = bump a t (completed_order a t ord)"
  using assms
  by (auto simp: complete_order_def rbind_Inr_iff check_Inr expect_revision_Inr Let_def completed_order_def)

lemma last_index_Some: "last_index P steps = Some n \<Longrightarrow> n < length steps \<and> P (steps ! n)"
proof -
  assume "last_index P steps = Some n"
  then obtain ns where "filter (\<lambda>n. P (steps ! n)) (rev [0..<length steps]) = n # ns"
    by (auto simp: last_index_def split: list.splits)
  then have "n \<in> set (filter (\<lambda>n. P (steps ! n)) (rev [0..<length steps]))" by simp
  then show ?thesis by simp
qed

lemma first_effect_index:
  "order_effects ord \<noteq> [] \<Longrightarrow>
     first_effect_index (or_steps ord) < length (or_steps ord) \<and>
     ss_effect (or_steps ord ! first_effect_index (or_steps ord)) \<noteq> None"
  unfolding first_effect_index_def order_effects_def
proof (induction "or_steps ord" arbitrary: ord)
  case (Cons s steps)
  have "or_steps (ord\<lparr>or_steps := steps\<rparr>) = steps" by simp
  with Cons.hyps(1) [of "ord\<lparr>or_steps := steps\<rparr>"] Cons.hyps(2) [symmetric] Cons.prems show ?case
    by (cases "ss_effect s") (simp_all add: List.map_filter_simps)
qed simp

text \<open>A rollback marks at least the step the order ends at.\<close>

definition rolled_back_steps :: "string \<Rightarrow> gotime \<Rightarrow> nat \<Rightarrow> step_state list \<Rightarrow> step_state list \<Rightarrow> bool" where
  "rolled_back_steps a t n steps steps' \<longleftrightarrow>
     n < length steps \<and> steps' ! n = mark_rolled_back a t (steps ! n) \<and>
     list_all2 (\<lambda>s s'. s' = s \<or> s' = mark_rolled_back a t s) steps steps'"

lemma rollback_Inr:
  assumes "c \<in> {CmdRollbackBase r auth new a t, CmdRollbackOverlay r cur new a t, CmdRollbackAll r auth new a t}"
    and "apply_command c ord = Inr ord'"
  shows "or_revision ord = r \<and> or_status ord = OrderInProgress \<and>
    (\<exists>n steps. rolled_back_steps a t n (or_steps ord) steps \<and> ord' = close_rolled_back n steps a t ord)"
proof -
  have one: "rolled_back_steps a t n steps (steps[n := mark_rolled_back a t (steps ! n)])" if "n < length steps" for n steps
    using that by (auto simp: rolled_back_steps_def list_all2_conv_all_nth nth_list_update)
  from assms consider
      "changed (rollback_base r auth new a t ord) = Inr ord'"
    | "changed (rollback_overlay r cur new a t ord) = Inr ord'"
    | "changed (rollback_all r auth new a t ord) = Inr ord'" by auto
  then show ?thesis
  proof cases
    case 1
    then show ?thesis
      by (auto simp: changed_Inr rollback_base_def rbind_Inr_iff check_Inr expect_revision_Inr Let_def
          split: option.splits dest!: last_index_Some intro!: one exI)
  next
    case 2
    then show ?thesis
      by (auto simp: changed_Inr rollback_overlay_def rbind_Inr_iff check_Inr expect_revision_Inr Let_def
          split: option.splits dest!: last_index_Some intro!: one exI)
  next
    case 3
    let ?steps = "map (\<lambda>s. if ss_effect s = None then s else mark_rolled_back a t s) (or_steps ord)"
    from 3 have *: "or_revision ord = r" "or_status ord = OrderInProgress" "order_effects ord \<noteq> []"
      "ord' = close_rolled_back (first_effect_index (or_steps ord)) ?steps a t ord"
      by (auto simp: changed_Inr rollback_all_def rbind_Inr_iff check_Inr expect_revision_Inr Let_def)
    have "rolled_back_steps a t (first_effect_index (or_steps ord)) (or_steps ord) ?steps"
      using first_effect_index [OF *(3)] by (auto simp: rolled_back_steps_def list_all2_conv_all_nth)
    then show ?thesis using * by blast
  qed
qed

section \<open>The abstract state machine\<close>

record workflow =
  wf_status :: order_status
  wf_current :: nat
  wf_steps :: "step_status list"

definition workflow_of :: "order \<Rightarrow> workflow" where
  "workflow_of ord =
     \<lparr>wf_status = or_status ord, wf_current = or_current ord, wf_steps = map ss_status (or_steps ord)\<rparr>"

definition wf_at :: "workflow \<Rightarrow> step_status \<Rightarrow> bool" where
  "wf_at w st \<longleftrightarrow> wf_status w = OrderInProgress \<and> wf_steps w ! wf_current w = st"

definition wf_set :: "workflow \<Rightarrow> step_status \<Rightarrow> workflow" where
  "wf_set w st = w\<lparr>wf_steps := (wf_steps w)[wf_current w := st]\<rparr>"

inductive workflow_step :: "workflow \<Rightarrow> workflow \<Rightarrow> bool" where
  request: "wf_at w StepPending \<Longrightarrow> workflow_step w (wf_set w StepExecuting)"
| approve: "wf_at w StepExecuting \<Longrightarrow> workflow_step w (wf_set w StepApproved)"
| reject: "wf_at w StepExecuting \<Longrightarrow> workflow_step w ((wf_set w StepRejected)\<lparr>wf_status := OrderRejected\<rparr>)"
| execute: "wf_at w StepPending \<Longrightarrow> workflow_step w (wf_set w StepExecuted)"
| mismatch: "wf_at w StepPending \<Longrightarrow> workflow_step w w"
| advance: "wf_at w StepExecuted \<or> wf_at w StepApproved \<Longrightarrow> wf_current w + 1 < length (wf_steps w) \<Longrightarrow>
    workflow_step w (w\<lparr>wf_current := wf_current w + 1\<rparr>)"
| complete: "wf_at w StepPending \<Longrightarrow> wf_current w \<noteq> 0 \<Longrightarrow> wf_steps w ! (wf_current w - 1) = StepExecuted \<Longrightarrow>
    workflow_step w ((wf_set w StepExecuted)\<lparr>wf_status := OrderSucceeded\<rparr>)"
| rollback: "wf_status w = OrderInProgress \<Longrightarrow> n < length (wf_steps w) \<Longrightarrow> sts ! n = StepRolledBack \<Longrightarrow>
    list_all2 (\<lambda>st st'. st' = st \<or> st' = StepRolledBack) (wf_steps w) sts \<Longrightarrow>
    workflow_step w \<lparr>wf_status = OrderRolledBack, wf_current = n, wf_steps = sts\<rparr>"

inductive_cases workflow_stepE: "workflow_step w w'"

text \<open>
  The invariant of the machine. Unless the order was rolled back, the steps before the current one
  are done and those after it untouched. A rollback leaves the steps it takes back where they are:
  up to some step they are done or rolled back, after it none was ever done.
\<close>

definition wf_position :: "workflow \<Rightarrow> bool" where
  "wf_position w \<longleftrightarrow>
     (\<forall>i < wf_current w. wf_steps w ! i \<in> {StepExecuted, StepApproved}) \<and>
     (\<forall>i. wf_current w < i \<and> i < length (wf_steps w) \<longrightarrow> wf_steps w ! i = StepPending)"

definition workflow_ok :: "workflow \<Rightarrow> bool" where
  "workflow_ok w \<longleftrightarrow>
     wf_current w < length (wf_steps w) \<and>
     (wf_status w = OrderInProgress \<longrightarrow> wf_position w \<and>
        wf_steps w ! wf_current w \<in> {StepPending, StepExecuting, StepExecuted, StepApproved}) \<and>
     (wf_status w = OrderSucceeded \<longrightarrow> wf_position w \<and> wf_steps w ! wf_current w = StepExecuted) \<and>
     (wf_status w = OrderRejected \<longrightarrow> wf_position w \<and> wf_steps w ! wf_current w = StepRejected) \<and>
     (wf_status w = OrderRolledBack \<longrightarrow> wf_steps w ! wf_current w = StepRolledBack \<and>
        (\<exists>m. (\<forall>i < m. i < length (wf_steps w) \<longrightarrow> wf_steps w ! i \<in> {StepExecuted, StepApproved, StepRolledBack}) \<and>
           (\<forall>i. m < i \<and> i < length (wf_steps w) \<longrightarrow> wf_steps w ! i \<in> {StepPending, StepRolledBack})))"

lemma wf_set_simps [simp]:
  "wf_status (wf_set w st) = wf_status w" "wf_current (wf_set w st) = wf_current w"
  "wf_steps (wf_set w st) = (wf_steps w)[wf_current w := st]"
  by (simp_all add: wf_set_def)

lemma workflow_ok_set:
  assumes "workflow_ok w" "wf_status w = OrderInProgress" "st \<in> {StepPending, StepExecuting, StepExecuted, StepApproved}"
  shows "workflow_ok (wf_set w st)"
  using assms by (auto simp: workflow_ok_def wf_position_def nth_list_update)

lemma workflow_rollback_ok:
  assumes "workflow_ok w" "wf_status w = OrderInProgress" "n < length (wf_steps w)" "sts ! n = StepRolledBack"
    and sts: "list_all2 (\<lambda>st st'. st' = st \<or> st' = StepRolledBack) (wf_steps w) sts"
  shows "workflow_ok \<lparr>wf_status = OrderRolledBack, wf_current = n, wf_steps = sts\<rparr>"
proof -
  have len: "length sts = length (wf_steps w)" using list_all2_lengthD [OF sts] by simp
  have at: "sts ! i = wf_steps w ! i \<or> sts ! i = StepRolledBack" if "i < length sts" for i
    using list_all2_nthD2 [OF sts that] .
  have pos: "wf_position w" using assms(1,2) by (simp add: workflow_ok_def)
  have "\<forall>i < wf_current w. i < length sts \<longrightarrow> sts ! i \<in> {StepExecuted, StepApproved, StepRolledBack}"
    using pos at by (fastforce simp: wf_position_def)
  moreover have "\<forall>i. wf_current w < i \<and> i < length sts \<longrightarrow> sts ! i \<in> {StepPending, StepRolledBack}"
    using pos at len by (fastforce simp: wf_position_def)
  ultimately show ?thesis using assms(3,4) len by (auto simp: workflow_ok_def)
qed

lemma workflow_step_ok: "workflow_step w w' \<Longrightarrow> workflow_ok w \<Longrightarrow> workflow_ok w'"
proof (induction rule: workflow_step.induct)
  case (advance w)
  then show ?case by (auto simp: workflow_ok_def wf_position_def wf_at_def less_Suc_eq)
next
  case (complete w)
  then show ?case by (auto simp: workflow_ok_def wf_position_def wf_at_def nth_list_update)
next
  case (reject w)
  then show ?case by (auto simp: workflow_ok_def wf_position_def wf_at_def nth_list_update)
next
  case (rollback w n sts)
  then show ?case by (intro workflow_rollback_ok)
qed (auto simp: workflow_ok_set wf_at_def)

text \<open>A closed order has no transition.\<close>

lemma workflow_step_open: "workflow_step w w' \<Longrightarrow> wf_status w = OrderInProgress"
  by (auto simp: wf_at_def elim!: workflow_stepE)

section \<open>Refinement\<close>

lemma workflow_of_simps [simp]:
  "wf_status (workflow_of ord) = or_status ord" "wf_current (workflow_of ord) = or_current ord"
  "wf_steps (workflow_of ord) = map ss_status (or_steps ord)"
  by (simp_all add: workflow_of_def)

lemma at_current_wf:
  assumes "at_current ord ty st" "or_current ord < length (or_steps ord)"
  shows "wf_at (workflow_of ord) st"
  using assms by (auto simp: at_current_def wf_at_def current_step_def)

lemma workflow_of_set:
  assumes "or_current ord < length (or_steps ord)"
  shows "workflow_of (bump a t (set_current_step f ord)) = wf_set (workflow_of ord) (ss_status (f (current_step ord)))"
  by (simp add: workflow_of_def wf_set_def map_update)

lemma workflow_of_update [simp]:
  "workflow_of (bump a t ord) = workflow_of ord"
  "workflow_of (ord\<lparr>or_items := is, or_status := st, or_completed_at := c\<rparr>) = (workflow_of ord)\<lparr>wf_status := st\<rparr>"
  by (simp_all add: workflow_of_def)

lemma workflow_of_set' [simp]:
  "workflow_of (set_current_step f ord) = wf_set (workflow_of ord) (ss_status (f (current_step ord)))"
  by (simp add: workflow_of_def wf_set_def map_update)

lemma wf_set_same: "wf_at w st \<Longrightarrow> wf_set w st = w"
proof -
  assume "wf_at w st"
  then have "st = wf_steps w ! wf_current w" by (simp add: wf_at_def)
  then show ?thesis by (simp add: wf_set_def)
qed

lemma rollback_refines:
  assumes "c \<in> {CmdRollbackBase r auth new a t, CmdRollbackOverlay r cur new a t, CmdRollbackAll r auth new a t}"
    and "apply_command c ord = Inr ord'"
  shows "workflow_step (workflow_of ord) (workflow_of ord')"
proof -
  from rollback_Inr [OF assms] obtain n steps where *: "or_status ord = OrderInProgress"
    "rolled_back_steps a t n (or_steps ord) steps" "ord' = close_rolled_back n steps a t ord" by blast
  have "workflow_of ord' = \<lparr>wf_status = OrderRolledBack, wf_current = n, wf_steps = map ss_status steps\<rparr>"
    by (simp add: *(3) close_rolled_back_def workflow_of_def)
  moreover have "list_all2 (\<lambda>st st'. st' = st \<or> st' = StepRolledBack) (map ss_status (or_steps ord)) (map ss_status steps)"
    using *(2) by (auto simp: rolled_back_steps_def list_all2_map1 list_all2_map2 mark_rolled_back_def
        elim!: list_all2_mono)
  moreover have "n < length (or_steps ord)" "map ss_status steps ! n = StepRolledBack"
    using *(2) by (auto simp: rolled_back_steps_def mark_rolled_back_def dest: list_all2_lengthD)
  ultimately show ?thesis using workflow_step.rollback [of "workflow_of ord" n "map ss_status steps"] *(1) by simp
qed

theorem apply_command_refines:
  assumes "apply_command c ord = Inr ord'" and cur: "or_current ord < length (or_steps ord)"
  shows "workflow_step (workflow_of ord) (workflow_of ord')"
proof (cases c)
  case (CmdManualReview r a t)
  with assms execute_manual_review_Inr [of r a t ord ord'] show ?thesis
    by (auto dest!: at_current_wf intro: workflow_step.request)
next
  case (CmdApprove r who comment t)
  with assms have *: "approve_manual_review r who comment t ord = Inr ord'" by simp
  show ?thesis using at_current_wf [OF authorize_manual_decision_Inr(2) [OF approve_manual_review_Inr(1) [OF *]] cur]
    by (simp add: approve_manual_review_Inr(2) [OF *] workflow_step.approve)
next
  case (CmdReject r who comment t)
  with assms have *: "reject_manual_review r who comment t ord = Inr ord'" by simp
  show ?thesis using at_current_wf [OF authorize_manual_decision_Inr(2) [OF reject_manual_review_Inr(1) [OF *]] cur]
    by (simp add: reject_manual_review_Inr(3) [OF *] rejected_order_def workflow_step.reject)
next
  case (CmdCompare r actual a t)
  with assms obtain result matched where *: "execute_compare r actual a t ord = Inr (ord', result, matched)"
    by (auto simp: changed_Inr)
  note wf = at_current_wf [OF execute_compare_Inr(2) [OF *] cur]
  then have "ss_status (current_step ord) = StepPending" using cur by (simp add: wf_at_def current_step_def)
  then show ?thesis using wf execute_compare_Inr(7) [OF *]
    by (auto simp: compared_step_def wf_set_same intro: workflow_step.execute workflow_step.mismatch)
next
  case (CmdAdvance r a t)
  with assms have *: "advance r a t ord = Inr ord'" by simp
  have "workflow_of ord' = (workflow_of ord)\<lparr>wf_current := or_current ord + 1\<rparr>"
    by (simp add: advance_Inr(5) [OF *] workflow_of_def)
  then show ?thesis using advance_Inr(2,3,4) [OF *] cur workflow_step.advance [of "workflow_of ord"]
    by (auto simp: wf_at_def current_step_def)
next
  case (CmdComplete r a t)
  with assms have *: "complete_order r a t ord = Inr ord'" by simp
  show ?thesis using at_current_wf [OF complete_order_Inr(2) [OF *] cur] complete_order_Inr(3,4) [OF *] cur
    by (simp add: complete_order_Inr(5) [OF *] completed_order_def workflow_step.complete)
next
  case (CmdBase auth new a t)
  with assms obtain e where *: "execute_base auth new a t ord = Inr (ord', e)" by (auto simp: changed_Inr)
  show ?thesis using at_current_wf [OF execute_base_Inr(1) [OF *] cur]
    by (simp add: execute_base_Inr(6) [OF *] record_effect_def workflow_step.execute)
next
  case (CmdOverlay auth new a t)
  with assms obtain e where *: "execute_overlay auth new a t ord = Inr (ord', e)" by (auto simp: changed_Inr)
  show ?thesis using at_current_wf [OF execute_overlay_Inr(1) [OF *] cur]
    by (simp add: execute_overlay_Inr(5) [OF *] record_effect_def workflow_step.execute)
next
  case (CmdPercent auth new a t)
  with assms obtain e where *: "execute_percent_rollout auth new a t ord = Inr (ord', e)" by (auto simp: changed_Inr)
  show ?thesis using at_current_wf [OF execute_percent_rollout_Inr(1) [OF *] cur]
    by (simp add: execute_percent_rollout_Inr(8) [OF *] record_effect_def workflow_step.execute)
next
  case (CmdRollbackBase r auth new a t)
  then show ?thesis using rollback_refines [OF _ assms(1), of r auth new a t 0] by blast
next
  case (CmdRollbackOverlay r cur new a t)
  then show ?thesis using rollback_refines [OF _ assms(1), of r undefined new a t cur] by blast
next
  case (CmdRollbackAll r auth new a t)
  then show ?thesis using rollback_refines [OF _ assms(1), of r auth new a t 0] by blast
qed

section \<open>Optimistic concurrency\<close>

lemma stale_command_rejected:
  "command_expects c = Some r \<Longrightarrow> or_revision ord \<noteq> r \<Longrightarrow> apply_command c ord = Inl ErrAborted \<or>
     (\<exists>who comment t. c = CmdReject r who comment t \<and> blank comment \<and> apply_command c ord = Inl ErrInvalid)"
  by (cases c)
    (simp_all add: execute_manual_review_def approve_manual_review_def reject_manual_review_def
      authorize_manual_decision_def execute_compare_def advance_def complete_order_def rollback_base_def
      rollback_overlay_def rollback_all_def expect_revision_def check_def changed_def)

lemma apply_command_revision: "apply_command c ord = Inr ord' \<Longrightarrow> or_revision ord' = or_revision ord + 1"
proof (cases c)
  case (CmdCompare r actual a t)
  assume "apply_command c ord = Inr ord'"
  with CmdCompare show ?thesis by (auto simp: changed_Inr dest!: execute_compare_Inr(7))
next
  case (CmdBase auth new a t)
  assume "apply_command c ord = Inr ord'"
  with CmdBase show ?thesis by (auto simp: changed_Inr record_effect_def dest!: execute_base_Inr(6))
next
  case (CmdOverlay auth new a t)
  assume "apply_command c ord = Inr ord'"
  with CmdOverlay show ?thesis by (auto simp: changed_Inr record_effect_def dest!: execute_overlay_Inr(5))
next
  case (CmdPercent auth new a t)
  assume "apply_command c ord = Inr ord'"
  with CmdPercent show ?thesis by (auto simp: changed_Inr record_effect_def dest!: execute_percent_rollout_Inr(8))
next
  case (CmdRollbackBase r auth new a t)
  assume "apply_command c ord = Inr ord'"
  then show ?thesis using rollback_Inr [of c r auth new a t 0 ord ord'] CmdRollbackBase
    by (auto simp: close_rolled_back_def simp del: apply_command.simps)
next
  case (CmdRollbackOverlay r cur new a t)
  assume "apply_command c ord = Inr ord'"
  then show ?thesis using rollback_Inr [of c r undefined new a t cur ord ord'] CmdRollbackOverlay
    by (auto simp: close_rolled_back_def simp del: apply_command.simps)
next
  case (CmdRollbackAll r auth new a t)
  assume "apply_command c ord = Inr ord'"
  then show ?thesis using rollback_Inr [of c r auth new a t 0 ord ord'] CmdRollbackAll
    by (auto simp: close_rolled_back_def simp del: apply_command.simps)
qed (auto dest!: execute_manual_review_Inr(5) approve_manual_review_Inr(2) reject_manual_review_Inr(3)
    advance_Inr(5) complete_order_Inr(5) simp: rejected_order_def completed_order_def)

lemma apply_command_open: "apply_command c ord = Inr ord' \<Longrightarrow> or_status ord = OrderInProgress"
proof (cases c)
  case (CmdApprove r who comment t)
  assume "apply_command c ord = Inr ord'"
  with CmdApprove have "authorize_manual_decision r who t ord = Inr ()" by (simp add: approve_manual_review_Inr(1))
  from authorize_manual_decision_Inr(2) [OF this] show ?thesis by (simp add: at_current_def)
next
  case (CmdReject r who comment t)
  assume "apply_command c ord = Inr ord'"
  with CmdReject have "authorize_manual_decision r who t ord = Inr ()" by (simp add: reject_manual_review_Inr(1))
  from authorize_manual_decision_Inr(2) [OF this] show ?thesis by (simp add: at_current_def)
next
  case (CmdAdvance r a t)
  assume "apply_command c ord = Inr ord'"
  with CmdAdvance show ?thesis using advance_Inr(2) [of r a t ord ord'] by simp
qed (auto simp: changed_Inr execute_manual_review_def execute_compare_def complete_order_def
    execute_base_def execute_overlay_def execute_percent_rollout_def rollback_base_def rollback_overlay_def
    rollback_all_def rbind_Inr_iff check_Inr at_current_def)

definition order_closed :: "order \<Rightarrow> bool" where
  "order_closed ord \<longleftrightarrow> or_status ord \<noteq> OrderInProgress"

interpretation order_guard: counted or_revision command_expects apply_command order_closed
proof unfold_locales
  fix c r and ord :: order
  assume "command_expects c = Some r" "or_revision ord \<noteq> r"
  then show "\<not> is_ok (apply_command c ord)" using stale_command_rejected by fastforce
qed (auto simp: is_ok_iff order_closed_def dest: apply_command_open apply_command_revision)

section \<open>Reachable orders\<close>

text \<open>An order and the number of operations since its construction.\<close>

inductive reachable :: "nat \<Rightarrow> order \<Rightarrow> bool" where
  base: "new_base_final_order spec = Inr ord \<Longrightarrow> reachable 0 ord"
| overlay: "new_overlay_final_order spec = Inr ord \<Longrightarrow> or_steps ord \<noteq> [] \<Longrightarrow> reachable 0 ord"
| command: "reachable n ord \<Longrightarrow> apply_command c ord = Inr ord' \<Longrightarrow> reachable (Suc n) ord'"

text \<open>The data that goes with the status: completion time, items and conflict keys.\<close>

definition items_ok :: "order \<Rightarrow> bool" where
  "items_ok ord \<longleftrightarrow>
     or_items ord \<noteq> [] \<and> ((or_completed_at ord = None) = (or_status ord = OrderInProgress)) \<and>
     (case or_status ord of
        OrderInProgress \<Rightarrow> \<forall>i \<in> set (or_items ord). it_status i = ItemPending \<and> it_conflict_key i \<noteq> []
      | OrderSucceeded \<Rightarrow> \<forall>i \<in> set (or_items ord). it_status i = ItemApplied \<and> it_conflict_key i = []
      | OrderRolledBack \<Rightarrow> \<forall>i \<in> set (or_items ord). it_status i = ItemRolledBack \<and> it_conflict_key i = []
      | OrderRejected \<Rightarrow> \<forall>i \<in> set (or_items ord). it_status i = ItemPending \<and> it_conflict_key i = [])"

lemma hex_encode_sha256_not_Nil: "hex_encode (sha256 x) \<noteq> []"
  using sha256_length [of x] by (metis hex_encode_length list.size(3) mult_eq_0_iff zero_neq_numeral)

lemma add_base_item_pending:
  "add_base_item env revision items i = Inr items' \<Longrightarrow>
     \<forall>j \<in> set items. it_status j = ItemPending \<and> it_conflict_key j \<noteq> [] \<Longrightarrow>
     items' \<noteq> [] \<and> (\<forall>j \<in> set items'. it_status j = ItemPending \<and> it_conflict_key j \<noteq> [])"
  by (auto simp: add_base_item_def Let_def base_conflict_key_def hex_encode_sha256_not_Nil
      split: option.splits if_splits)

lemma add_overlay_item_pending:
  "add_overlay_item sc items i = Inr items' \<Longrightarrow>
     \<forall>j \<in> set items. it_status j = ItemPending \<and> it_conflict_key j \<noteq> [] \<Longrightarrow>
     items' \<noteq> [] \<and> (\<forall>j \<in> set items'. it_status j = ItemPending \<and> it_conflict_key j \<noteq> [])"
  by (auto simp: add_overlay_item_def Let_def overlay_conflict_key_def hex_encode_sha256_not_Nil
      split: option.splits if_splits)

lemma rfold_items:
  assumes "rfold f [] xs = Inr items" "xs \<noteq> []"
    and "\<And>acc x acc'. f acc x = Inr acc' \<Longrightarrow> \<forall>j \<in> set acc. P j \<Longrightarrow> acc' \<noteq> [] \<and> (\<forall>j \<in> set acc'. P j)"
  shows "items \<noteq> [] \<and> (\<forall>j \<in> set items. P j)"
proof -
  from assms(2) obtain y ys where xs: "xs = y # ys" by (cases xs) auto
  with assms(1) obtain acc where acc: "f [] y = Inr acc" "rfold f acc ys = Inr items"
    by (auto simp: rbind_Inr_iff)
  have "acc \<noteq> [] \<and> (\<forall>j \<in> set acc. P j)" using assms(3) [OF acc(1)] by simp
  then show ?thesis by (rule rfold_invariant [OF acc(2)]) (use assms(3) in blast)
qed

lemma new_base_final_order_Inr:
  assumes "new_base_final_order spec = Inr ord"
  shows "spec_identity_ok spec" "or_steps ord \<noteq> []" "items_ok ord" "or_revision ord = 1"
    "or_status ord = OrderInProgress" "or_current ord = 0"
    "\<forall>s \<in> set (or_steps ord). ss_status s = StepPending \<and> ss_effect s = None"
proof -
  define definitions where
    "definitions = (if ct_steps (sp_template spec) = [] then default_base_steps else ct_steps (sp_template spec))"
  from assms obtain items where *: "spec_identity_ok spec" "sp_items spec \<noteq> []" "definitions \<noteq> []"
    "rfold (add_base_item (sc_environment (trim_scope (sp_scope spec)))
       (bi_collection_revision (hd (sp_items spec)))) [] (sp_items spec) = Inr items"
    "ord = new_order spec (trim_scope (sp_scope spec)) (map step_of_definition definitions) items"
    by (auto simp: new_base_final_order_def Let_def rbind_Inr_iff definitions_def [symmetric] split: if_splits)
      (simp add: definitions_def default_base_steps_def split: if_splits)
  have "items \<noteq> [] \<and> (\<forall>j \<in> set items. it_status j = ItemPending \<and> it_conflict_key j \<noteq> [])"
    by (rule rfold_items [OF *(4,2)]) (erule add_base_item_pending)
  then show "items_ok ord" by (simp add: *(5) items_ok_def new_order_def)
  show "spec_identity_ok spec" "or_steps ord \<noteq> []" "or_revision ord = 1"
    "or_status ord = OrderInProgress" "or_current ord = 0"
    "\<forall>s \<in> set (or_steps ord). ss_status s = StepPending \<and> ss_effect s = None"
    using *(1,3) by (simp_all add: *(5) new_order_def step_of_definition_def)
qed

lemma new_overlay_final_order_Inr:
  assumes "new_overlay_final_order spec = Inr ord"
  shows "items_ok ord" "or_revision ord = 1" "or_status ord = OrderInProgress" "or_current ord = 0"
    "\<forall>s \<in> set (or_steps ord). ss_status s = StepPending \<and> ss_effect s = None"
proof -
  from assms obtain items where *: "sp_items spec \<noteq> []"
    "rfold (add_overlay_item (trim_scope (sp_scope spec))) [] (sp_items spec) = Inr items"
    "ord = new_order spec (trim_scope (sp_scope spec))
       (map (\<lambda>d. (step_of_definition d)\<lparr>ss_ranges := []\<rparr>) (ct_steps (sp_template spec))) items"
    by (auto simp: new_overlay_final_order_def Let_def rbind_Inr_iff split: if_splits)
  have "items \<noteq> [] \<and> (\<forall>j \<in> set items. it_status j = ItemPending \<and> it_conflict_key j \<noteq> [])"
    by (rule rfold_items [OF *(2,1)]) (erule add_overlay_item_pending)
  then show "items_ok ord" by (simp add: *(3) items_ok_def new_order_def)
  show "or_revision ord = 1" "or_status ord = OrderInProgress" "or_current ord = 0"
    "\<forall>s \<in> set (or_steps ord). ss_status s = StepPending \<and> ss_effect s = None"
    by (simp_all add: *(3) new_order_def step_of_definition_def)
qed

text \<open>Closing or keeping the items, in every operation.\<close>

lemma items_ok_cases:
  assumes "items_ok ord" "or_status ord = OrderInProgress"
  shows "or_items ord' = or_items ord \<Longrightarrow> or_status ord' = OrderInProgress \<Longrightarrow>
           or_completed_at ord' = or_completed_at ord \<Longrightarrow> items_ok ord'"
    and "or_items ord' = map (\<lambda>i. i\<lparr>it_conflict_key := []\<rparr>) (or_items ord) \<Longrightarrow>
           or_status ord' = OrderRejected \<Longrightarrow> or_completed_at ord' \<noteq> None \<Longrightarrow> items_ok ord'"
    and "or_items ord' = close_items ItemApplied (or_items ord) \<Longrightarrow>
           or_status ord' = OrderSucceeded \<Longrightarrow> or_completed_at ord' \<noteq> None \<Longrightarrow> items_ok ord'"
    and "or_items ord' = close_items ItemRolledBack (or_items ord) \<Longrightarrow>
           or_status ord' = OrderRolledBack \<Longrightarrow> or_completed_at ord' \<noteq> None \<Longrightarrow> items_ok ord'"
  using assms by (auto simp: items_ok_def close_items_def)

lemma apply_command_items_ok:
  assumes step: "apply_command c ord = Inr ord'" and ok: "items_ok ord"
  shows "items_ok ord'"
proof -
  have progress: "or_status ord = OrderInProgress" using step by (rule apply_command_open)
  note shape = items_ok_cases [OF ok progress]
  have rb: "items_ok (close_rolled_back n steps a t ord)" for n steps a t
    by (rule shape(4)) (simp_all add: close_rolled_back_def)
  have keep: "items_ok (bump a t (set_current_step f ord))" for a t f
    by (rule shape(1)) (simp_all add: progress)
  show ?thesis
  proof (cases c)
    case (CmdCompare r actual a t)
    with step show ?thesis by (auto simp: changed_Inr keep dest!: execute_compare_Inr(7))
  next
    case (CmdBase auth new a t)
    with step show ?thesis by (auto simp: changed_Inr record_effect_def keep dest!: execute_base_Inr(6))
  next
    case (CmdOverlay auth new a t)
    with step show ?thesis by (auto simp: changed_Inr record_effect_def keep dest!: execute_overlay_Inr(5))
  next
    case (CmdPercent auth new a t)
    with step show ?thesis by (auto simp: changed_Inr record_effect_def keep dest!: execute_percent_rollout_Inr(8))
  next
    case (CmdManualReview r a t)
    with step show ?thesis by (auto simp: keep dest!: execute_manual_review_Inr(5))
  next
    case (CmdApprove r who comment t)
    with step show ?thesis by (auto simp: keep dest!: approve_manual_review_Inr(2))
  next
    case (CmdReject r who comment t)
    with step have "ord' = bump (pr_subject who) t (rejected_order who comment t ord)"
      by (simp add: reject_manual_review_Inr(3))
    then show ?thesis by (intro shape(2)) (simp_all add: rejected_order_def)
  next
    case (CmdAdvance r a t)
    with step have "ord' = bump a t (ord\<lparr>or_current := or_current ord + 1\<rparr>)"
      using advance_Inr(5) [of r a t ord ord'] by simp
    then show ?thesis by (intro shape(1)) (simp_all add: progress)
  next
    case (CmdComplete r a t)
    with step have "ord' = bump a t (completed_order a t ord)" by (simp add: complete_order_Inr(5))
    then show ?thesis by (intro shape(3)) (simp_all add: completed_order_def)
  next
    case (CmdRollbackBase r auth new a t)
    then show ?thesis using rollback_Inr [OF _ step, of r auth new a t 0] rb by blast
  next
    case (CmdRollbackOverlay r cur new a t)
    then show ?thesis using rollback_Inr [OF _ step, of r undefined new a t cur] rb by blast
  next
    case (CmdRollbackAll r auth new a t)
    then show ?thesis using rollback_Inr [OF _ step, of r auth new a t 0] rb by blast
  qed
qed

lemma workflow_ok_initial:
  assumes "or_steps ord \<noteq> []" "or_status ord = OrderInProgress" "or_current ord = 0"
    "\<forall>s \<in> set (or_steps ord). ss_status s = StepPending \<and> ss_effect s = None"
  shows "workflow_ok (workflow_of ord)"
  using assms by (auto simp: workflow_ok_def wf_position_def)

lemma reachable_invariant:
  assumes "reachable n ord"
  shows "workflow_ok (workflow_of ord) \<and> items_ok ord \<and> or_revision ord = 1 + of_nat n"
  using assms
proof induction
  case (base spec ord)
  note facts = new_base_final_order_Inr [OF base]
  show ?case using facts(3,4) workflow_ok_initial [OF facts(2,5,6,7)] by simp
next
  case (overlay spec ord)
  note facts = new_overlay_final_order_Inr [OF overlay(1)]
  show ?case using facts(1,2) workflow_ok_initial [OF overlay(2) facts(3,4,5)] by simp
next
  case (command n ord c ord')
  then have "or_current ord < length (or_steps ord)" by (simp add: workflow_ok_def)
  then have "workflow_step (workflow_of ord) (workflow_of ord')" by (rule apply_command_refines [OF command(2)])
  then show ?case using command workflow_step_ok apply_command_items_ok apply_command_revision
    by (auto simp: add_ac)
qed

end
