(* ===== verification/Release_Undo.thy ===== *)
theory Release_Undo
  imports Release_Store Release_Workflow
begin

text \<open>
  Rolling back restores the configuration. The records and rules an order can change are seen
  as functions of the record key; \<open>put_record\<close> and \<open>put_rule\<close> are what the writes of
  \<open>Release_Store\<close> do to them. The planning loops of \<open>RollbackAll\<close> are instances of
  \<open>undoable\<close>, first for single changes, then lifted to the chain of effects of an order.
\<close>

section \<open>Writes as updates of functions\<close>

definition records_of :: "base_effect \<Rightarrow> (place, config_record) fmap \<Rightarrow> records" where
  "records_of e t k = fmlookup t (record_place (be_collection e) (sc_environment (be_scope e)) k)"

definition put_record :: "base_effect \<Rightarrow> base_change \<Rightarrow> records \<Rightarrow> records" where
  "put_record e c recs =
     recs(change_target c := map_option (written_record e (change_target c)) (bc_after c))"

text \<open>A change fits the records it is applied to.\<close>

definition record_applicable :: "base_effect \<Rightarrow> base_change \<Rightarrow> records \<Rightarrow> bool" where
  "record_applicable e c recs \<longleftrightarrow>
     valid_base_change c \<and> recs (change_target c) = bc_before c \<and>
     absent_or (\<lambda>r. cr_data r \<noteq> None \<and> cr_key r = change_target c) (bc_before c) \<and>
     absent_or (\<lambda>r. cr_data r \<noteq> None) (bc_after c)"

lemma change_target_simps [simp]:
  "bc_after c = Some r \<Longrightarrow> change_target c = cr_key r"
  "bc_after c = None \<Longrightarrow> bc_before c = Some r \<Longrightarrow> change_target c = cr_key r"
  by (simp_all add: change_target_def)

lemma written_record_simps [simp]:
  "cr_data (written_record e k r) = cr_data r" "cr_revision (written_record e k r) = be_applied e"
  "cr_key (written_record e k r) = k" "cr_environment (written_record e k r) = sc_environment (be_scope e)"
  by (simp_all add: written_record_def)

lemma valid_base_change_cases:
  assumes "valid_base_change c"
  obtains (add) after where "c = \<lparr>bc_action = ActionAdd, bc_before = None, bc_after = Some after\<rparr>"
    | (modify) before after where "c = \<lparr>bc_action = ActionModify, bc_before = Some before, bc_after = Some after\<rparr>"
    | (delete) before where "c = \<lparr>bc_action = ActionDelete, bc_before = Some before, bc_after = None\<rparr>"
  using assms by (cases c) (auto simp: valid_base_change_def)

lemma record_place_inj [simp]: "record_place c e k = record_place c' e' k' \<longleftrightarrow> c = c' \<and> e = e' \<and> k = k'"
  by (simp add: record_place_def)

text \<open>The statement of \<open>Release_Store\<close> succeeds on a fitting change and does just this.\<close>

lemma write_record_put:
  assumes "record_applicable e c (records_of e t)" "be_applied e > 0" "sc_environment (be_scope e) \<noteq> []"
  shows "\<exists>t'. write_record e t c = Inr t' \<and> records_of e t' = put_record e c (records_of e t)"
proof -
  from assms(1) have "valid_base_change c" by (simp add: record_applicable_def)
  then show ?thesis
  proof (cases rule: valid_base_change_cases)
    case (add after)
    then show ?thesis using assms
      by (auto simp: write_record_def record_applicable_def records_of_def put_record_def fail_def
          record_row_ok_def change_target_def fun_eq_iff Let_def)
  next
    case (modify before after)
    then show ?thesis using assms
      by (auto simp: write_record_def record_applicable_def records_of_def put_record_def fail_def
          record_row_ok_def change_target_def fun_eq_iff Let_def)
  next
    case (delete before)
    then show ?thesis using assms
      by (auto simp: write_record_def record_applicable_def records_of_def put_record_def
          change_target_def fun_eq_iff Let_def)
  qed
qed

text \<open>The change that takes a fitting change back.\<close>

definition inverse_change :: "base_effect \<Rightarrow> base_change \<Rightarrow> base_change" where
  "inverse_change e c =
     \<lparr>bc_action = (case bc_action c of ActionAdd \<Rightarrow> ActionDelete | ActionDelete \<Rightarrow> ActionAdd | a \<Rightarrow> a),
      bc_before = map_option (written_record e (change_target c)) (bc_after c), bc_after = bc_before c\<rparr>"

lemma inverse_after_put:
  assumes "record_applicable e c recs"
  shows "inverse_base_change (be_applied e) (put_record e c recs) c = Inr (inverse_change e c, recs)"
proof -
  from assms have valid: "valid_base_change c" by (simp add: record_applicable_def)
  have clone: "\<And>k. map_option clone_record (bc_before c) = bc_before c"
    "\<And>k. map_option clone_record (map_option (written_record e k) (bc_after c)) =
       map_option (written_record e k) (bc_after c)"
    using assms by (auto simp: record_applicable_def absent_or_def clone_record_id split: option.splits)
  have restored: "recs(change_target c := bc_before c) = recs"
    using assms by (metis fun_upd_triv record_applicable_def)
  from valid show ?thesis
  proof (cases rule: valid_base_change_cases)
    case (add after)
    then show ?thesis using clone(2) [of "cr_key after"] restored
      by (simp add: inverse_base_change_def applied_record_def put_record_def change_target_def inverse_change_def)
  next
    case (modify before after)
    moreover have "cr_key before = cr_key after"
      using assms modify by (simp add: record_applicable_def change_target_def)
    ultimately show ?thesis using clone(1) clone(2) [of "cr_key after"] restored
      by (simp add: inverse_base_change_def applied_record_def put_record_def change_target_def inverse_change_def)
  next
    case (delete before)
    then show ?thesis using clone(1) restored
      by (simp add: inverse_base_change_def put_record_def change_target_def inverse_change_def)
  qed
qed

text \<open>A planned change is valid and the clone of itself.\<close>

definition settled_base_change :: "base_change \<Rightarrow> bool" where
  "settled_base_change c \<longleftrightarrow> valid_base_change c \<and> clone_base_change c = c"

text \<open>Equal data of every record: the revisions of restored records are those of the rollback.\<close>

definition same_data :: "records \<Rightarrow> records \<Rightarrow> bool" where
  "same_data l r \<longleftrightarrow> (\<forall>k. map_option cr_data (l k) = map_option cr_data (r k))"

lemma inverse_change_target: "record_applicable e c recs \<Longrightarrow> change_target (inverse_change e c) = change_target c"
  by (auto simp: record_applicable_def change_target_def inverse_change_def valid_base_change_def absent_or_def
      split: option.splits)

lemma inverse_change_settled: "record_applicable e c recs \<Longrightarrow> settled_base_change (inverse_change e c)"
  by (auto simp: record_applicable_def settled_base_change_def valid_base_change_def inverse_change_def
      clone_base_change_def absent_or_def clone_record_id split: option.splits)

lemma inverse_replays:
  assumes "record_applicable e c recs"
  shows "same_data (put_record p (inverse_change e c) (put_record e c recs)) recs"
proof -
  have "map_option cr_data (map_option (written_record p k) (bc_before c)) = map_option cr_data (recs (change_target c))" for k
    using assms by (auto simp: record_applicable_def option.map_comp comp_def)
  then show ?thesis
    by (simp add: same_data_def put_record_def inverse_change_target [OF assms]) (simp add: inverse_change_def)
qed

interpretation record_undo: replayable "put_record e" "record_applicable e" "inverse_base_change (be_applied e)"
    "put_record p" same_data settled_base_change for e p
proof unfold_locales
  fix c :: base_change and recs i
  assume ok: "record_applicable e c recs" and i: "inverse_base_change (be_applied e) (put_record e c recs) c = Inr (i, recs)"
  then have "i = inverse_change e c" by (simp add: inverse_after_put)
  then show "same_data (put_record p i (put_record e c recs)) recs \<and> settled_base_change i"
    by (simp add: inverse_replays [OF ok] inverse_change_settled [OF ok])
qed (auto simp: inverse_after_put, auto simp: same_data_def put_record_def)

lemma inverse_base_changes_undo: "inverse_base_changes e recs = record_undo.undo_all e (be_changes e) ([], recs)"
  by (simp add: inverse_base_changes_def record_undo.undo_all_def)

definition put_rule :: "(gotime \<Rightarrow> gotime) \<Rightarrow> rule_change \<Rightarrow> rules \<Rightarrow> rules" where
  "put_rule db_time c rs = rs(rc_key c := map_option (stored_rule db_time) (rc_new c))"

text \<open>The rules of a change have content (the clones give one to a nil map) and keep their times.\<close>

definition rule_storable :: "(gotime \<Rightarrow> gotime) \<Rightarrow> overlay_rule \<Rightarrow> bool" where
  "rule_storable db_time r \<longleftrightarrow> ru_content r \<noteq> None \<and> stored_rule db_time r = r"

definition valid_rule_change :: "rule_change \<Rightarrow> bool" where
  "valid_rule_change c \<longleftrightarrow> \<not> blank (rc_key c) \<and> (rc_previous c \<noteq> None \<or> rc_new c \<noteq> None)"

definition settled_rule_change :: "rule_change \<Rightarrow> bool" where
  "settled_rule_change c \<longleftrightarrow> valid_rule_change c \<and> clone_rule_change c = c"

definition rule_applicable :: "(gotime \<Rightarrow> gotime) \<Rightarrow> rule_change \<Rightarrow> rules \<Rightarrow> bool" where
  "rule_applicable db_time c rs \<longleftrightarrow>
     valid_rule_change c \<and> rs (rc_key c) = rc_previous c \<and>
     absent_or (rule_storable db_time) (rc_previous c) \<and> absent_or (rule_storable db_time) (rc_new c)"

lemma clone_rule_id: "ru_content r \<noteq> None \<Longrightarrow> clone_rule r = r"
  by (cases r) (simp add: clone_rule_def clone_data_Some_iff)

lemma storable_clone: "absent_or (rule_storable db_time) x \<Longrightarrow> map_option clone_rule x = x"
  by (cases x) (auto simp: rule_storable_def clone_rule_id)

lemma storable_stored: "absent_or (rule_storable db_time) x \<Longrightarrow> map_option (stored_rule db_time) x = x"
  by (cases x) (simp_all add: rule_storable_def)

lemma inverse_after_put_rule:
  assumes "rule_applicable db_time c rs"
  shows "\<exists>i. inverse_overlay_change (put_rule db_time c rs) c = Inr (i, rs)"
  using assms storable_clone [of db_time "rc_previous c"] storable_stored [of db_time "rc_new c"]
  by (auto simp: rule_applicable_def inverse_overlay_change_def put_rule_def Let_def fun_eq_iff)

lemma inverse_replays_rule:
  assumes "rule_applicable db_time c rs" "inverse_overlay_change (put_rule db_time c rs) c = Inr (i, rs)"
  shows "put_rule db_time i (put_rule db_time c rs) = rs \<and> settled_rule_change i"
  using assms storable_clone [of db_time "rc_previous c"] storable_stored [of db_time "rc_new c"]
    storable_stored [of db_time "rc_previous c"]
  by (auto simp: rule_applicable_def inverse_overlay_change_def put_rule_def Let_def fun_eq_iff valid_rule_change_def
      settled_rule_change_def clone_rule_change_def)

interpretation rule_undo: replayable "put_rule db_time" "rule_applicable db_time" "inverse_overlay_change"
    "put_rule db_time" "(=)" settled_rule_change for db_time
  by unfold_locales (auto simp: inverse_after_put_rule inverse_replays_rule)

lemma inverse_overlay_changes_undo: "inverse_overlay_changes cs rs = rule_undo.undo_all cs ([], rs)"
  by (simp add: inverse_overlay_changes_def rule_undo.undo_all_def)

section \<open>The chain of effects of an order\<close>

record config_state =
  cs_records :: records
  cs_rules :: rules
  cs_revision :: u64

definition effect_base_changes :: "step_effect \<Rightarrow> base_change list" where
  "effect_base_changes e = (case se_base e of None \<Rightarrow> [] | Some b \<Rightarrow> be_changes b)"

definition effect_rule_changes :: "step_effect \<Rightarrow> rule_change list" where
  "effect_rule_changes e =
     (case (se_base e, se_overlay e, se_percent e) of
        (Some b, _, _) \<Rightarrow> be_overlay b
      | (None, Some b, _) \<Rightarrow> oe_changes b
      | (None, None, Some b) \<Rightarrow> pe_changes b
      | (None, None, None) \<Rightarrow> [])"

text \<open>What the writes of an effect do to the configuration.\<close>

definition put_effect :: "(gotime \<Rightarrow> gotime) \<Rightarrow> step_effect \<Rightarrow> config_state \<Rightarrow> config_state" where
  "put_effect db_time e s =
     \<lparr>cs_records = (case se_base e of None \<Rightarrow> cs_records s
         | Some b \<Rightarrow> record_undo.apply_all b (be_changes b) (cs_records s)),
      cs_rules = rule_undo.apply_all db_time (effect_rule_changes e) (cs_rules s),
      cs_revision = snd (effect_revisions e)\<rparr>"

definition effect_applicable ::
  "(gotime \<Rightarrow> gotime) \<Rightarrow> string \<Rightarrow> scope \<Rightarrow> step_effect \<Rightarrow> config_state \<Rightarrow> bool" where
  "effect_applicable db_time collection sc e s \<longleftrightarrow>
     is_ok (validate_step_effect e) \<and> effect_place e = (collection, sc) \<and>
     fst (effect_revisions e) = cs_revision s \<and>
     (case se_base e of None \<Rightarrow> True | Some b \<Rightarrow> record_undo.applicable_all b (be_changes b) (cs_records s)) \<and>
     rule_undo.applicable_all db_time (effect_rule_changes e) (cs_rules s)"

fun chain_applicable ::
  "(gotime \<Rightarrow> gotime) \<Rightarrow> string \<Rightarrow> scope \<Rightarrow> step_effect list \<Rightarrow> config_state \<Rightarrow> bool" where
  "chain_applicable db_time collection sc [] s \<longleftrightarrow> True"
| "chain_applicable db_time collection sc (e # es) s \<longleftrightarrow>
     effect_applicable db_time collection sc e s \<and> chain_applicable db_time collection sc es (put_effect db_time e s)"

definition put_chain :: "(gotime \<Rightarrow> gotime) \<Rightarrow> step_effect list \<Rightarrow> config_state \<Rightarrow> config_state" where
  "put_chain db_time es s = foldl (\<lambda>s e. put_effect db_time e s) s es"

text \<open>Replaying planned changes; the plan's own effect supplies place and revision.\<close>

definition replay_records :: "base_effect \<Rightarrow> base_change list \<Rightarrow> records \<Rightarrow> records" where
  "replay_records p cs recs = record_undo.replay_all p cs recs"

definition replay_rules :: "(gotime \<Rightarrow> gotime) \<Rightarrow> rule_change list \<Rightarrow> rules \<Rightarrow> rules" where
  "replay_rules db_time cs rs = rule_undo.replay_all db_time cs rs"

text \<open>The plan for one effect: it takes the state back and, replayed, restores data and rules.\<close>

definition plan_restores ::
  "(gotime \<Rightarrow> gotime) \<Rightarrow> base_change list \<Rightarrow> rule_change list \<Rightarrow> config_state \<Rightarrow> config_state \<Rightarrow> bool" where
  "plan_restores db_time bs os s' s \<longleftrightarrow>
     (\<forall>p. same_data (replay_records p bs (cs_records s')) (cs_records s)) \<and>
     replay_rules db_time os (cs_rules s') = cs_rules s \<and>
     list_all settled_base_change bs \<and> list_all settled_rule_change os"

lemma undo_records:
  assumes "record_undo.applicable_all b cs recs"
  shows "\<exists>bs. record_undo.undo_all b cs ([], record_undo.apply_all b cs recs) = Inr (bs, recs) \<and>
    length bs = length cs \<and> (\<forall>p. same_data (replay_records p bs (record_undo.apply_all b cs recs)) recs) \<and>
    list_all settled_base_change bs"
proof -
  from record_undo.undo_all_restores [OF assms, of "[]"] obtain bs where bs:
    "record_undo.undo_all b cs ([], record_undo.apply_all b cs recs) = Inr (bs, recs)" "length bs = length cs"
    by auto
  have "same_data (replay_records p bs (record_undo.apply_all b cs recs)) recs \<and> list_all settled_base_change bs" for p
  proof -
    from record_undo.undo_all_replays [OF assms, of "[]" p] obtain is' where
      "record_undo.undo_all b cs ([], record_undo.apply_all b cs recs) = Inr (is', recs)"
      "same_data (record_undo.replay_all p is' (record_undo.apply_all b cs recs)) recs" "list_all settled_base_change is'"
      by auto
    then show ?thesis using bs(1) by (simp add: replay_records_def)
  qed
  then show ?thesis using bs by blast
qed

lemma undo_rules:
  assumes "rule_undo.applicable_all db_time cs rs"
  shows "\<exists>os. rule_undo.undo_all cs ([], rule_undo.apply_all db_time cs rs) = Inr (os, rs) \<and>
    length os = length cs \<and> replay_rules db_time os (rule_undo.apply_all db_time cs rs) = rs \<and>
    list_all settled_rule_change os"
  using rule_undo.undo_all_replays [OF assms, of "[]"] by (auto simp: replay_rules_def)

text \<open>One effect: the inverse exists, ends in the state before, and restores it when replayed.\<close>

lemma inverse_effect_restores:
  assumes "effect_applicable db_time collection sc e s"
  shows "\<exists>bs os. inverse_effect e (cs_records (put_effect db_time e s)) (cs_rules (put_effect db_time e s)) =
      Inr (bs, os, cs_records s, cs_rules s) \<and> plan_restores db_time bs os (put_effect db_time e s) s \<and>
      (bs \<noteq> [] \<or> os \<noteq> []) \<and> (bs \<noteq> [] \<longrightarrow> se_type e = StepEffectBase)"
proof -
  from assms have "is_ok (validate_step_effect e)" and
    rules: "rule_undo.applicable_all db_time (effect_rule_changes e) (cs_rules s)" and
    recs: "\<And>b. se_base e = Some b \<Longrightarrow> record_undo.applicable_all b (be_changes b) (cs_records s)"
    by (auto simp: effect_applicable_def)
  from undo_rules [OF rules] obtain os where os:
    "rule_undo.undo_all (effect_rule_changes e) ([], rule_undo.apply_all db_time (effect_rule_changes e) (cs_rules s)) =
       Inr (os, cs_rules s)" "length os = length (effect_rule_changes e)"
    "replay_rules db_time os (rule_undo.apply_all db_time (effect_rule_changes e) (cs_rules s)) = cs_rules s"
    "list_all settled_rule_change os" by blast
  from \<open>is_ok (validate_step_effect e)\<close> consider
      (base) b where "e = base_step_effect b" "validate_base_effect b = Inr ()"
    | (overlay) b where "e = overlay_step_effect b" "validate_overlay_effect b = Inr ()"
    | (percent) b where "e = percent_step_effect b" "validate_percent_effect b = Inr ()"
    by (auto simp: is_ok_iff dest: validate_step_effect_cases)
  then show ?thesis
  proof cases
    case base
    from undo_records [OF recs [of b]] base obtain bs where bs:
      "record_undo.undo_all b (be_changes b) ([], record_undo.apply_all b (be_changes b) (cs_records s)) =
         Inr (bs, cs_records s)" "length bs = length (be_changes b)"
      "\<And>p. same_data (replay_records p bs (record_undo.apply_all b (be_changes b) (cs_records s))) (cs_records s)"
      "list_all settled_base_change bs" by (auto simp: base_step_effect_def)
    have "bs \<noteq> [] \<or> os \<noteq> []" using base(2) bs(2) os(2)
      by (auto simp: base(1) validate_base_effect_Inr effect_rule_changes_def base_step_effect_def)
    then show ?thesis using bs os
      by (simp add: base(1) inverse_effect_def base_step_effect_def inverse_base_changes_undo
          inverse_overlay_changes_undo put_effect_def effect_rule_changes_def plan_restores_def)
  next
    case overlay
    have "os \<noteq> []" using overlay(2) os(2)
      by (auto simp: overlay(1) validate_overlay_effect_Inr validate_overlay_changes_Inr is_ok_iff
          effect_rule_changes_def overlay_step_effect_def)
    then show ?thesis using os
      by (simp add: overlay(1) inverse_effect_def overlay_step_effect_def inverse_overlay_changes_undo
          put_effect_def effect_rule_changes_def plan_restores_def replay_records_def
          record_undo.replay_all_def same_data_def)
  next
    case percent
    have "os \<noteq> []" using percent(2) os(2)
      by (auto simp: percent(1) validate_percent_effect_Inr validate_overlay_changes_Inr is_ok_iff
          effect_rule_changes_def percent_step_effect_def)
    then show ?thesis using os
      by (simp add: percent(1) inverse_effect_def percent_step_effect_def inverse_overlay_changes_undo
          put_effect_def effect_rule_changes_def plan_restores_def replay_records_def
          record_undo.replay_all_def same_data_def)
  qed
qed

lemma plan_restores_append:
  assumes "plan_restores db_time bs os s2 s1" "plan_restores db_time bs' os' s1 s0"
  shows "plan_restores db_time (bs @ bs') (os @ os') s2 s0"
proof -
  have "same_data (replay_records p (bs @ bs') (cs_records s2)) (cs_records s0)" for p
    using assms record_undo.replay_all_similar [of _ "cs_records s1" p bs'] record_undo.similar_trans
    unfolding plan_restores_def replay_records_def record_undo.replay_all_append by blast
  then show ?thesis using assms
    by (simp add: plan_restores_def replay_rules_def rule_undo.replay_all_append)
qed

text \<open>The state of the planning loop stands for a configuration state.\<close>

definition planning_at :: "string \<Rightarrow> config_state \<Rightarrow> rollback_state \<Rightarrow> bool" where
  "planning_at collection s st \<longleftrightarrow>
     rb_records st = cs_records s \<and> rb_rules st = cs_rules s \<and> rb_expected st = cs_revision s \<and>
     rb_collection st \<in> {[], collection}"

lemma rollback_effect_step:
  assumes ok: "effect_applicable db_time collection sc e s"
    and st: "planning_at collection (put_effect db_time e s) st"
  shows "\<exists>bs os. rollback_effect sc st e = Inr \<lparr>rb_records = cs_records s, rb_rules = cs_rules s,
      rb_base_changes = rb_base_changes st @ bs, rb_overlay_changes = rb_overlay_changes st @ os,
      rb_has_base = (rb_has_base st \<or> se_type e = StepEffectBase),
      rb_expected = cs_revision s, rb_collection = collection\<rparr> \<and>
    plan_restores db_time bs os (put_effect db_time e s) s \<and> (bs \<noteq> [] \<or> os \<noteq> []) \<and>
    (bs \<noteq> [] \<longrightarrow> se_type e = StepEffectBase)"
proof -
  from inverse_effect_restores [OF ok] obtain bs os where inv:
    "inverse_effect e (cs_records (put_effect db_time e s)) (cs_rules (put_effect db_time e s)) =
      Inr (bs, os, cs_records s, cs_rules s)" "plan_restores db_time bs os (put_effect db_time e s) s"
    "bs \<noteq> [] \<or> os \<noteq> []" "bs \<noteq> [] \<longrightarrow> se_type e = StepEffectBase" by blast
  have "effect_place e = (collection, sc)" "fst (effect_revisions e) = cs_revision s"
    using ok by (simp_all add: effect_applicable_def)
  moreover have "snd (effect_revisions e) = cs_revision (put_effect db_time e s)" by (simp add: put_effect_def)
  ultimately have "rollback_effect sc st e = Inr \<lparr>rb_records = cs_records s, rb_rules = cs_rules s,
      rb_base_changes = rb_base_changes st @ bs, rb_overlay_changes = rb_overlay_changes st @ os,
      rb_has_base = (rb_has_base st \<or> se_type e = StepEffectBase),
      rb_expected = cs_revision s, rb_collection = collection\<rparr>"
    using inv(1) st by (auto simp: rollback_effect_def planning_at_def check_def Let_def)
  then show ?thesis using inv(2,3,4) by blast
qed

lemma rollback_chain:
  assumes "chain_applicable db_time collection sc es s" "planning_at collection (put_chain db_time es s) st"
  shows "\<exists>st' bs os. rfold (rollback_effect sc) st (rev es) = Inr st' \<and> planning_at collection s st' \<and>
    rb_base_changes st' = rb_base_changes st @ bs \<and> rb_overlay_changes st' = rb_overlay_changes st @ os \<and>
    plan_restores db_time bs os (put_chain db_time es s) s \<and>
    (es \<noteq> [] \<longrightarrow> rb_collection st' = collection \<and> (bs \<noteq> [] \<or> os \<noteq> [])) \<and>
    (rb_has_base st' \<longleftrightarrow> rb_has_base st \<or> (\<exists>e \<in> set es. se_type e = StepEffectBase)) \<and>
    (bs \<noteq> [] \<longrightarrow> (\<exists>e \<in> set es. se_type e = StepEffectBase))"
  using assms
proof (induction es arbitrary: s)
  case Nil
  then show ?case
    by (intro exI [of _ st] exI [of _ "[]"])
      (simp add: put_chain_def plan_restores_def replay_records_def replay_rules_def
        record_undo.replay_all_def rule_undo.replay_all_def same_data_def)
next
  case (Cons e es)
  let ?t = "put_effect db_time e s"
  have chain: "chain_applicable db_time collection sc es ?t" and ok: "effect_applicable db_time collection sc e s"
    using Cons.prems(1) by simp_all
  have put: "put_chain db_time (e # es) s = put_chain db_time es ?t" by (simp add: put_chain_def)
  from Cons.IH [OF chain] Cons.prems(2) obtain st1 bs os where st1:
    "rfold (rollback_effect sc) st (rev es) = Inr st1" "planning_at collection ?t st1"
    "rb_base_changes st1 = rb_base_changes st @ bs" "rb_overlay_changes st1 = rb_overlay_changes st @ os"
    "plan_restores db_time bs os (put_chain db_time es ?t) ?t"
    "rb_has_base st1 \<longleftrightarrow> rb_has_base st \<or> (\<exists>e \<in> set es. se_type e = StepEffectBase)"
    "bs \<noteq> [] \<longrightarrow> (\<exists>e \<in> set es. se_type e = StepEffectBase)"
    unfolding put by blast
  from rollback_effect_step [OF ok st1(2)] obtain bs' os' where last:
    "rollback_effect sc st1 e = Inr \<lparr>rb_records = cs_records s, rb_rules = cs_rules s,
      rb_base_changes = rb_base_changes st1 @ bs', rb_overlay_changes = rb_overlay_changes st1 @ os',
      rb_has_base = (rb_has_base st1 \<or> se_type e = StepEffectBase),
      rb_expected = cs_revision s, rb_collection = collection\<rparr>"
    "plan_restores db_time bs' os' ?t s" "bs' \<noteq> [] \<or> os' \<noteq> []" "bs' \<noteq> [] \<longrightarrow> se_type e = StepEffectBase" by blast
  have "rfold (rollback_effect sc) st (rev (e # es)) = rollback_effect sc st1 e"
    by (simp add: rfold_append st1(1)) (simp add: rbind_def split: sum.split)
  then show ?case
    using last st1 plan_restores_append [OF st1(5) last(2)] unfolding put last(1)
    by (intro exI [of _ "\<lparr>rb_records = cs_records s, rb_rules = cs_rules s,
          rb_base_changes = rb_base_changes st1 @ bs', rb_overlay_changes = rb_overlay_changes st1 @ os',
          rb_has_base = (rb_has_base st1 \<or> se_type e = StepEffectBase),
          rb_expected = cs_revision s, rb_collection = collection\<rparr>"]
        exI [of _ "bs @ bs'"] exI [of _ "os @ os'"])
      (auto simp: planning_at_def)
qed

text \<open>The plan as an effect: valid, the clone of itself, and restoring.\<close>

lemma settled_changes:
  "list_all settled_base_change bs \<Longrightarrow> map clone_base_change bs = bs \<and> (\<forall>c \<in> set bs. valid_base_change c)"
  "list_all settled_rule_change os \<Longrightarrow> map clone_rule_change os = os \<and>
     (\<forall>c \<in> set os. \<not> blank (rc_key c) \<and> (rc_previous c \<noteq> None \<or> rc_new c \<noteq> None))"
  by (auto simp: list_all_iff settled_base_change_def settled_rule_change_def valid_rule_change_def map_idI)

lemma rollback_plan_restores:
  assumes plan: "plan_restores db_time (rb_base_changes st) (rb_overlay_changes st) s' s"
    and ne: "rb_base_changes st \<noteq> [] \<or> rb_overlay_changes st \<noteq> []"
    and base: "rb_base_changes st \<noteq> [] \<longrightarrow> rb_has_base st"
    and place: "\<not> blank (rb_collection st)" "\<not> blank (sc_region sc)" "\<not> blank (sc_environment sc)"
      "\<not> rb_has_base st \<Longrightarrow> \<not> blank (sc_stage sc)"
    and call: "\<not> blank a" "t \<noteq> 0" "0 < previous" "previous < new"
  defines "p \<equiv> rollback_plan st sc previous new a t"
  shows "validate_step_effect p = Inr () \<and> clone_step_effect p = p \<and>
    same_data (cs_records (put_effect db_time p s')) (cs_records s) \<and>
    cs_rules (put_effect db_time p s') = cs_rules s \<and> cs_revision (put_effect db_time p s') = new"
proof -
  have settled: "map clone_base_change (rb_base_changes st) = rb_base_changes st"
    "\<forall>c \<in> set (rb_base_changes st). valid_base_change c"
    "map clone_rule_change (rb_overlay_changes st) = rb_overlay_changes st"
    "\<forall>c \<in> set (rb_overlay_changes st). \<not> blank (rc_key c) \<and> (rc_previous c \<noteq> None \<or> rc_new c \<noteq> None)"
    using plan settled_changes unfolding plan_restores_def by blast+
  have replay: "record_undo.apply_all b cs recs = replay_records b cs recs"
    "rule_undo.apply_all db_time os rs = replay_rules db_time os rs" for b cs recs os rs
    by (simp_all add: record_undo.apply_all_def replay_records_def record_undo.replay_all_def
        rule_undo.apply_all_def replay_rules_def rule_undo.replay_all_def)
  have valid: "validate_step_effect p = Inr ()"
    using assms(2-) settled
    by (cases "rb_has_base st")
      (simp_all add: rollback_plan_def validate_base_effect_Inr validate_overlay_effect_Inr is_ok_iff
        validate_effect_identity_Inr validate_overlay_changes_Inr is_zero_time_def)
  have "clone_step_effect p = p"
    by (simp add: p_def rollback_plan_def base_step_effect_def overlay_step_effect_def clone_step_effect_def
        clone_base_effect_def clone_overlay_effect_def settled)
  moreover have "same_data (cs_records (put_effect db_time p s')) (cs_records s)"
    using plan base by (cases "rb_has_base st")
      (auto simp: p_def rollback_plan_def put_effect_def plan_restores_def base_step_effect_def
        overlay_step_effect_def replay replay_records_def record_undo.replay_all_def)
  moreover have "cs_rules (put_effect db_time p s') = cs_rules s" "cs_revision (put_effect db_time p s') = new"
    using plan by (simp_all add: p_def rollback_plan_def put_effect_def plan_restores_def base_step_effect_def
        overlay_step_effect_def replay effect_rule_changes_def effect_revisions_def)
  ultimately show ?thesis using valid by blast
qed

section \<open>Rolling an order back\<close>

text \<open>The authority an order loads when the configuration is in a given state.\<close>

definition authority_of :: "config_state \<Rightarrow> authority" where
  "authority_of s = \<lparr>au_revision = cs_revision s, au_records = cs_records s, au_rules = cs_rules s\<rparr>"

text \<open>Rows read from the database have data; a rule row has content unless it is a deletion.\<close>

definition state_loaded :: "config_state \<Rightarrow> bool" where
  "state_loaded s \<longleftrightarrow>
     clone_record_authority (cs_records s) = cs_records s \<and> clone_rule_authority (cs_rules s) = cs_rules s"

lemma validate_step_effect_place:
  assumes "validate_step_effect e = Inr u" "effect_place e = (collection, sc)"
  shows "\<not> blank collection" "\<not> blank (sc_region sc)" "\<not> blank (sc_environment sc)"
    "se_type e \<noteq> StepEffectBase \<Longrightarrow> \<not> blank (sc_stage sc)"
    "0 < snd (effect_revisions e)"
  using validate_step_effect_cases [OF assms(1)] valid_effect_revisions [OF assms(1)] assms(2)
  by (auto simp: effect_place_def base_step_effect_def overlay_step_effect_def percent_step_effect_def
      validate_base_effect_Inr validate_overlay_effect_Inr validate_percent_effect_Inr is_ok_iff
      validate_effect_identity_Inr dest: order.strict_trans)

lemma chain_applicable_facts:
  assumes "chain_applicable db_time collection sc es s" "e \<in> set es"
  shows "validate_step_effect e = Inr () \<and> effect_place e = (collection, sc)"
  using assms by (induction es arbitrary: s) (auto simp: effect_applicable_def is_ok_iff)

lemma put_chain_revision:
  assumes "chain_applicable db_time collection sc es s" "es \<noteq> []"
  shows "cs_revision (put_chain db_time es s) = snd (effect_revisions (last es))"
  using assms by (cases es rule: rev_cases) (simp_all add: put_chain_def put_effect_def)

lemma rollback_all_chain:
  assumes chain: "chain_applicable db_time collection (or_scope ord) (order_effects ord) s"
    and some: "order_effects ord \<noteq> []"
    and ord: "or_status ord = OrderInProgress" "or_revision ord = r"
    and call: "\<not> blank a" "t \<noteq> 0" "cs_revision (put_chain db_time (order_effects ord) s) < new"
    and loaded: "state_loaded (put_chain db_time (order_effects ord) s)"
  defines "s' \<equiv> put_chain db_time (order_effects ord) s"
  shows "\<exists>ord' plan. rollback_all r (authority_of s') new a t ord = Inr (ord', plan) \<and>
    or_status ord' = OrderRolledBack \<and> or_revision ord' = r + 1 \<and> validate_step_effect plan = Inr () \<and>
    same_data (cs_records (put_effect db_time plan s')) (cs_records s) \<and>
    cs_rules (put_effect db_time plan s') = cs_rules s \<and> cs_revision (put_effect db_time plan s') = new"
proof -
  let ?es = "order_effects ord"
  let ?st0 = "\<lparr>rb_records = cs_records s', rb_rules = cs_rules s', rb_base_changes = [], rb_overlay_changes = [],
    rb_has_base = False, rb_expected = cs_revision s', rb_collection = []\<rparr>"
  note facts = chain_applicable_facts [OF chain]
  obtain e where e: "e \<in> set ?es" using some by (cases ?es) auto
  note place = validate_step_effect_place [OF conjunct1 [OF facts] conjunct2 [OF facts]]
  have "planning_at collection s' ?st0" by (simp add: planning_at_def)
  from rollback_chain [OF chain this [unfolded s'_def]] some obtain st where st:
    "rfold (rollback_effect (or_scope ord)) ?st0 (rev ?es) = Inr st"
    "plan_restores db_time (rb_base_changes st) (rb_overlay_changes st) s' s"
    "rb_collection st = collection" "rb_base_changes st \<noteq> [] \<or> rb_overlay_changes st \<noteq> []"
    "rb_has_base st \<longleftrightarrow> (\<exists>e \<in> set ?es. se_type e = StepEffectBase)"
    "rb_base_changes st \<noteq> [] \<longrightarrow> rb_has_base st"
    unfolding s'_def by auto
  have positive: "0 < cs_revision s'"
    using place(5) [of "last ?es"] put_chain_revision [OF chain some] some by (simp add: s'_def)
  define p where "p = rollback_plan st (or_scope ord) (cs_revision s') new a t"
  have "\<not> blank (sc_stage (or_scope ord))" if "\<not> rb_has_base st"
    using place(4) [OF e e] that st(5) e by blast
  from rollback_plan_restores [OF st(2,4,6) _ _ _ this call(1,2) positive call(3) [folded s'_def]]
  have p: "validate_step_effect p = Inr ()" "clone_step_effect p = p"
    "same_data (cs_records (put_effect db_time p s')) (cs_records s)"
    "cs_rules (put_effect db_time p s') = cs_rules s" "cs_revision (put_effect db_time p s') = new"
    using place(1,2,3) [OF e e] st(3) by (simp_all add: p_def)
  have "list_all (\<lambda>e. is_ok (validate_step_effect e)) (rev ?es)"
    using facts by (auto simp: list_all_iff is_ok_iff)
  then have "rollback_all r (authority_of s') new a t ord =
    Inr (close_rolled_back (first_effect_index (or_steps ord))
           (map (\<lambda>s. if ss_effect s = None then s else mark_rolled_back a t s) (or_steps ord)) a t ord, p)"
    using ord call some loaded st(1) p(1,2)
    by (simp add: rollback_all_def expect_revision_def check_def is_zero_time_def authority_of_def Let_def
        s'_def [symmetric] p_def [symmetric] state_loaded_def list_all_iff)
  then show ?thesis using p ord by (simp add: close_rolled_back_def)
qed

section \<open>An executed base application fits\<close>

lemma record_applicable_all:
  assumes "distinct (map change_target cs)" "\<forall>c \<in> set cs. record_applicable e c recs"
  shows "record_undo.applicable_all e cs recs"
  using assms
proof (induction cs arbitrary: recs)
  case (Cons c cs)
  have "record_applicable e d (put_record e c recs)" if "d \<in> set cs" for d
  proof -
    have "change_target d \<noteq> change_target c" using Cons.prems(1) that by (metis distinct.simps(2) image_eqI list.set_map list.simps(9))
    then show ?thesis using Cons.prems(2) that by (simp add: record_applicable_def put_record_def)
  qed
  then show ?case using Cons by simp
qed simp

lemma rule_applicable_all:
  assumes "distinct (map rc_key cs)" "\<forall>c \<in> set cs. rule_applicable db_time c rs"
  shows "rule_undo.applicable_all db_time cs rs"
  using assms
proof (induction cs arbitrary: rs)
  case (Cons c cs)
  have "rule_applicable db_time d (put_rule db_time c rs)" if "d \<in> set cs" for d
  proof -
    have "rc_key d \<noteq> rc_key c" using Cons.prems(1) that by (metis distinct.simps(2) image_eqI list.set_map list.simps(9))
    then show ?thesis using Cons.prems(2) that by (simp add: rule_applicable_def put_rule_def)
  qed
  then show ?case using Cons by simp
qed simp

text \<open>
  The items of an order as the constructors build them and the authority as the database
  returns it: distinct keys, target records of the item's key with data.
\<close>

definition items_fit :: "order \<Rightarrow> bool" where
  "items_fit ord \<longleftrightarrow>
     distinct (map it_key (or_items ord)) \<and>
     (\<forall>i \<in> set (or_items ord). \<not> blank (it_key i) \<and>
        absent_or (\<lambda>r. cr_key r = it_key i \<and> cr_data r \<noteq> None) (it_after i))"

definition authority_fits :: "(gotime \<Rightarrow> gotime) \<Rightarrow> authority \<Rightarrow> bool" where
  "authority_fits db_time auth \<longleftrightarrow>
     (\<forall>k. absent_or (\<lambda>r. cr_key r = k \<and> cr_data r \<noteq> None) (au_records auth k)) \<and>
     (\<forall>k. absent_or (rule_storable db_time) (au_rules auth k)) \<and> au_revision auth > 0"

lemma distinct_concat_keys:
  assumes "distinct (map f xs)" "\<And>x y. x \<in> set xs \<Longrightarrow> y \<in> set (g x) \<Longrightarrow> key y = f x"
    "\<And>x. x \<in> set xs \<Longrightarrow> length (g x) \<le> 1"
  shows "distinct (map key (concat (map g xs)))"
  using assms
proof (induction xs)
  case (Cons x xs)
  have "distinct (map key (concat (map g xs)))" using Cons by simp
  moreover have "distinct (map key (g x))"
    using Cons.prems(3) [of x] by (cases "g x" rule: remdups_adj.cases) auto
  moreover have "set (map key (g x)) \<inter> set (map key (concat (map g xs))) = {}"
    using Cons.prems(1,2) by fastforce
  ultimately show ?case by auto
qed simp

lemma plan_base_change_applicable:
  assumes "c \<in> set (plan_base_change i (recs (it_key i)))"
    "absent_or (\<lambda>r. cr_key r = it_key i \<and> cr_data r \<noteq> None) (it_after i)"
    "absent_or (\<lambda>r. cr_key r = it_key i \<and> cr_data r \<noteq> None) (recs (it_key i))"
  shows "clone_base_change c = c \<and> change_target c = it_key i \<and> record_applicable e c recs"
  using assms
  by (cases "it_after i"; cases "recs (it_key i)")
    (auto simp: plan_base_change_def record_applicable_def valid_base_change_def change_target_def
      clone_base_change_def clone_record_id split: if_splits)

lemma planned_at_most_one:
  "length (plan_base_change i existing) \<le> 1" "length (item_rule_changes auth i) \<le> 1"
  by (simp_all add: plan_base_change_def item_rule_changes_def split: option.split)

lemma execute_base_applicable:
  assumes run: "execute_base auth new a t ord = Inr (ord', e)"
    and fit: "items_fit ord" "authority_fits db_time auth"
    and place: "\<not> blank (it_collection (hd (or_items ord)))" "\<not> blank (sc_region (or_scope ord))"
      "\<not> blank (sc_environment (or_scope ord))"
  shows "effect_applicable db_time (it_collection (hd (or_items ord))) (or_scope ord) (base_step_effect e)
    \<lparr>cs_records = au_records auth, cs_rules = au_rules auth, cs_revision = au_revision auth\<rparr>"
proof -
  let ?cs = "concat (map (\<lambda>i. plan_base_change i (au_records auth (it_key i))) (or_items ord))"
  let ?os = "concat (map (item_rule_changes auth) (or_items ord))"
  note facts = execute_base_Inr [OF run]
  have cs: "clone_base_change c = c \<and> change_target c = it_key i \<and> record_applicable e c (au_records auth)"
    if "i \<in> set (or_items ord)" "c \<in> set (plan_base_change i (au_records auth (it_key i)))" for i c
    using plan_base_change_applicable [of c i "au_records auth" e] fit that
    by (simp add: items_fit_def authority_fits_def)
  have os: "clone_rule_change c = c \<and> rc_key c = it_key i \<and> rule_applicable db_time c (au_rules auth)"
    if "i \<in> set (or_items ord)" "c \<in> set (item_rule_changes auth i)" for i c
  proof -
    have "absent_or (rule_storable db_time) (au_rules auth (it_key i))" "\<not> blank (it_key i)"
      using fit that(1) by (auto simp: items_fit_def authority_fits_def)
    then show ?thesis using that(2)
      by (cases "au_rules auth (it_key i)")
        (auto simp: item_rule_changes_def clone_rule_change_def rule_applicable_def valid_rule_change_def
          rule_storable_def clone_rule_id)
  qed
  have clones: "map clone_base_change ?cs = ?cs" "map clone_rule_change ?os = ?os"
    using cs os by (auto intro!: map_idI)
  have e: "be_changes e = ?cs" "be_overlay e = ?os" "be_version e = 1" "be_scope e = or_scope ord"
    "be_collection e = it_collection (hd (or_items ord))" "be_previous e = au_revision auth" "be_applied e = new"
    "be_at e = t" "be_by e = a"
    using facts(7) by (simp_all add: clone_base_effect_def clones)
  have keys: "distinct (map it_key (or_items ord))" using fit(1) by (simp add: items_fit_def)
  have "distinct (map change_target ?cs)"
    by (rule distinct_concat_keys [where f = it_key, OF keys _ planned_at_most_one(1)]) (use cs in blast)
  then have recs: "record_undo.applicable_all e ?cs (au_records auth)"
    by (rule record_applicable_all) (unfold set_concat set_map, use cs in blast)
  have "distinct (map rc_key ?os)"
    by (rule distinct_concat_keys [where f = it_key, OF keys _ planned_at_most_one(2)]) (use os in blast)
  then have rules: "rule_undo.applicable_all db_time ?os (au_rules auth)"
    by (rule rule_applicable_all) (unfold set_concat set_map, use os in blast)
  have "validate_base_effect e = Inr ()"
  proof -
    have "valid_base_change c" if "c \<in> set ?cs" for c
    proof -
      have "record_applicable e c (au_records auth)" using that cs unfolding set_concat set_map by blast
      then show ?thesis by (simp add: record_applicable_def)
    qed
    moreover have "\<not> blank (rc_key c) \<and> (rc_previous c \<noteq> None \<or> rc_new c \<noteq> None)" if "c \<in> set ?os" for c
    proof -
      have "rule_applicable db_time c (au_rules auth)" using that os unfolding set_concat set_map by blast
      then show ?thesis by (simp add: rule_applicable_def valid_rule_change_def)
    qed
    moreover have "?cs \<noteq> [] \<or> ?os \<noteq> []" using facts(8) by (simp only: e)
    moreover have "0 < au_revision auth" using fit(2) by (simp add: authority_fits_def)
    ultimately show ?thesis using facts(2,3,4) place
      unfolding validate_base_effect_Inr is_ok_iff validate_effect_identity_Inr validate_overlay_changes_Inr e
        is_zero_time_def by blast
  qed
  then show ?thesis using recs rules
    by (simp add: effect_applicable_def effect_place_def base_step_effect_def effect_rule_changes_def e
        effect_revisions_def is_ok_iff validate_step_effect_simps(1) [unfolded base_step_effect_def])
qed

end
