(* ===== verification/Release_Samples.thy ===== *)
theory Release_Samples
  imports Release_Undo
begin

text \<open>One order that adds one record, on which the witnesses of the release claims run.\<close>

section \<open>A sample order for the witnesses\<close>

definition sample_place :: scope where
  "sample_place = \<lparr>sc_region = ''eu'', sc_environment = ''prod'', sc_stage = ''canary''\<rparr>"

definition sample_target :: config_record where
  "sample_target = \<lparr>cr_collection = ''limits'', cr_environment = ''prod'', cr_key = ''k'',
     cr_data = Some (fmap_of_list [(''v'', ''2'')]), cr_revision = 0\<rparr>"

definition sample_item_spec :: base_item_spec where
  "sample_item_spec =
     \<lparr>bi_id = ''i1'', bi_action = ActionAdd, bi_base_before = None, bi_effective_before = None,
      bi_after = sample_target, bi_record_revision = 0, bi_collection_revision = 3, bi_preserve = []\<rparr>"

definition sample_order_spec :: "base_item_spec order_spec" where
  "sample_order_spec =
     \<lparr>sp_id = ''o1'', sp_number = ''R-1'', sp_idempotency_key = ''req'', sp_model = ''limits'',
      sp_template_code = ''direct'', sp_template_version = 1, sp_release_type = ''direct'',
      sp_digest = replicate 64 CHR ''0'', sp_description = [], sp_compensates = [],
      sp_scope = sample_place, sp_created_by = ''ann'', sp_created_at = 10,
      sp_items = [sample_item_spec], sp_template = \<lparr>ct_final_effect = FinalEffectBase, ct_steps = []\<rparr>\<rparr>"

definition sample_item :: item where
  "sample_item =
     \<lparr>it_id = ''i1'', it_action = ActionAdd, it_collection = ''limits'', it_key = ''k'',
      it_base_before = None, it_effective_before = None, it_after = Some sample_target,
      it_record_revision = 0, it_collection_revision = 3, it_preserve = [], it_status = ItemPending,
      it_conflict_key = base_conflict_key ''limits'' ''prod'' ''k''\<rparr>"

definition sample_order :: order where
  "sample_order =
     new_order sample_order_spec sample_place (map step_of_definition default_base_steps) [sample_item]"

lemma sample_guards:
  "spec_identity_ok sample_order_spec" "trim_scope (sp_scope sample_order_spec) = sample_place"
  "\<not> blank ''ann''" "\<not> blank ''i1''" "\<not> blank ''k''" "\<not> blank ''limits''" "\<not> blank ''prod''" "\<not> blank ''eu''"
  by code_simp+

lemma sample_order_created: "new_base_final_order sample_order_spec = Inr sample_order"
proof -
  have "clone_record sample_target = sample_target" by (simp add: clone_record_id sample_target_def)
  then have "add_base_item ''prod'' 3 [] sample_item_spec = Inr [sample_item]"
    by (simp add: sample_guards sample_item_spec_def add_base_item_def base_item_target_def sample_item_def
        base_item_action_def valid_base_item_shape_def record_at_def Let_def)
      (simp add: sample_target_def)
  then show ?thesis
    by (simp add: new_base_final_order_def sample_guards sample_order_def Let_def)
      (simp add: sample_order_spec_def sample_place_def sample_guards is_zero_time_def sample_item_spec_def)
qed

definition empty_authority :: authority where
  "empty_authority = \<lparr>au_revision = 3, au_records = (\<lambda>_. None), au_rules = (\<lambda>_. None)\<rparr>"

lemma sample_simps:
  "or_current sample_order = 0" "or_status sample_order = OrderInProgress" "or_revision sample_order = 1"
  "or_items sample_order = [sample_item]" "or_scope sample_order = sample_place"
  "or_steps sample_order = map step_of_definition default_base_steps" "or_id sample_order = ''o1''"
  by (simp_all add: sample_order_def new_order_def sample_order_spec_def)

lemma sample_execute: "is_ok (execute_base empty_authority 4 ''ann'' 20 sample_order)"
  by (simp add: execute_base_def sample_simps at_current_def current_step_def default_base_steps_def
      plain_step_def step_of_definition_def check_def sample_guards is_zero_time_def empty_authority_def
      expected_collection_revision_def last_percent_def List.map_filter_simps plan_base_item_def
      base_target_unchanged_def sample_item_def plan_base_change_def Let_def)

lemma sample_fit: "items_fit sample_order" "authority_fits db_time empty_authority"
  by (simp_all add: items_fit_def authority_fits_def sample_simps sample_item_def sample_guards
      sample_target_def empty_authority_def)

end
