(* ===== verification/Release_Properties.thy ===== *)
theory Release_Properties
  imports Release_Samples
begin

text \<open>
  The claims about the release aggregate (\<open>internal/release/domain\<close>): compiled templates, the
  life of an order, approval, comparison, the plans that change configuration, rollback,
  compensation and restoring. The witnesses use the order of
  \<open>Release_Samples\<close>.
\<close>

section \<open>Templates\<close>

text \<open>
  C15: A compiled template is well formed: distinct stable codes, every step with the parameters
  of its type, one final COMPLETE, pairwise disjoint rollout slices that all precede the base
  application, and exactly the final effect it was compiled for.
\<close>

theorem compiled_template_well_formed:
  assumes "compile_template document final = Inr t"
  shows "template_ok t \<and> ct_final_effect t = final"
proof
  show "template_ok t" by (rule compile_template_ok [OF assms])
  show "ct_final_effect t = final"
    using assms by (auto simp: compile_template_def rbind_Inr_iff split: if_splits)
qed

definition quoted :: "string \<Rightarrow> string" where
  "quoted s = CHR 0x22 # s @ [CHR 0x22]"

definition sample_template_document :: string where
  "sample_template_document =
     ''{'' @ quoted ''steps'' @ '':[{'' @ quoted ''code'' @ '':'' @ quoted ''a'' @ '','' @ quoted ''type'' @ '':'' @
     quoted ''BASE_APPLY'' @ '','' @ quoted ''params'' @ '':{'' @ quoted ''cleanupScopeOverlay'' @ '':true}},{'' @
     quoted ''code'' @ '':'' @ quoted ''z'' @ '','' @ quoted ''type'' @ '':'' @ quoted ''COMPLETE'' @ '','' @
     quoted ''params'' @ '':{}}]}''"

theorem compiled_template_well_formed_witness:
  "\<exists>t. compile_template sample_template_document FinalEffectBase = Inr t \<and> template_ok t"
proof -
  have "is_ok (compile_template sample_template_document FinalEffectBase)" by code_simp
  then show ?thesis using compiled_template_well_formed by (auto simp: is_ok_iff)
qed

section \<open>The life of an order\<close>

lemma sample_reachable: "reachable 0 sample_order"
  by (rule reachable.base [OF sample_order_created])

lemma sample_executed: "\<exists>ord'. apply_command (CmdBase empty_authority 4 ''ann'' 20) sample_order = Inr ord'"
  using sample_execute by (auto simp: is_ok_iff changed_Inr)

text \<open>
  C1: Every operation refines the workflow: seen through its status, its current step and the
  statuses of its steps, a reachable order changes only by a transition of the abstract state
  machine, whichever of the twelve operations succeeded.
\<close>

theorem operations_refine_workflow:
  assumes "reachable n ord" "apply_command c ord = Inr ord'"
  shows "workflow_step (workflow_of ord) (workflow_of ord')"
proof (rule apply_command_refines [OF assms(2)])
  show "or_current ord < length (or_steps ord)"
    using reachable_invariant [OF assms(1)] by (simp add: workflow_ok_def)
qed

theorem operations_refine_workflow_witness:
  "\<exists>ord'. apply_command (CmdBase empty_authority 4 ''ann'' 20) sample_order = Inr ord' \<and>
     workflow_step (workflow_of sample_order) (workflow_of ord')"
  using sample_executed operations_refine_workflow [OF sample_reachable] by blast

text \<open>
  C2: The position of a reachable order is consistent. The current step exists. While the order is
  in progress, and when it has succeeded or was rejected, the steps before the current one are
  executed or approved and the steps after it pending; the current step itself is pending,
  executing, executed or approved in an order in progress, executed in a succeeded one, rejected in
  a rejected one. An order that was rolled back stands at a step that was rolled back, and for some
  position the steps before it are executed, approved or rolled back and those after it pending
  or rolled back.
\<close>

theorem reachable_position:
  assumes "reachable n ord"
  defines "status_of \<equiv> \<lambda>i. ss_status (or_steps ord ! i)"
  shows "or_current ord < length (or_steps ord) \<and>
    (or_status ord \<noteq> OrderRolledBack \<longrightarrow>
       (\<forall>i < or_current ord. status_of i \<in> {StepExecuted, StepApproved}) \<and>
       (\<forall>i. or_current ord < i \<and> i < length (or_steps ord) \<longrightarrow> status_of i = StepPending)) \<and>
    (case or_status ord of
       OrderInProgress \<Rightarrow> status_of (or_current ord) \<in> {StepPending, StepExecuting, StepExecuted, StepApproved}
     | OrderSucceeded \<Rightarrow> status_of (or_current ord) = StepExecuted
     | OrderRejected \<Rightarrow> status_of (or_current ord) = StepRejected
     | OrderRolledBack \<Rightarrow> status_of (or_current ord) = StepRolledBack \<and>
         (\<exists>m. (\<forall>i < m. i < length (or_steps ord) \<longrightarrow> status_of i \<in> {StepExecuted, StepApproved, StepRolledBack}) \<and>
            (\<forall>i. m < i \<and> i < length (or_steps ord) \<longrightarrow> status_of i \<in> {StepPending, StepRolledBack})))"
proof -
  have ok: "workflow_ok (workflow_of ord)" using reachable_invariant [OF assms(1)] by blast
  then show ?thesis
    unfolding status_of_def workflow_ok_def wf_position_def workflow_of_simps
    by (cases "or_status ord") auto
qed

theorem reachable_position_witness:
  "or_current sample_order < length (or_steps sample_order) \<and> ss_status (or_steps sample_order ! 0) \<noteq> StepRejected"
  using reachable_position [OF sample_reachable] by (auto simp: sample_simps)

text \<open>
  The revision of a reachable order counts its operations (modulo the width of an unsigned
  64-bit integer), completion time and status agree as the database constraint demands, and an
  item holds a conflict key exactly while the order is in progress.
\<close>

lemma reachable_bookkeeping:
  assumes "reachable n ord"
  shows "or_revision ord = 1 + of_nat n \<and>
    ((or_completed_at ord = None) = (or_status ord = OrderInProgress)) \<and>
    (\<forall>i \<in> set (or_items ord). (it_conflict_key i \<noteq> []) = (or_status ord = OrderInProgress))"
  using reachable_invariant [OF assms] by (auto simp: items_ok_def split: order_status.splits)

text \<open>
  A closed order is final: once an order has succeeded, was rejected or rolled back, no
  operation succeeds on it and none of its items blocks another release.
\<close>

lemma closed_order_is_final:
  assumes "reachable n ord" "or_status ord \<noteq> OrderInProgress"
  shows "\<not> is_ok (apply_command c ord) \<and> (\<forall>i \<in> set (or_items ord). it_conflict_key i = [])"
proof
  show "\<not> is_ok (apply_command c ord)"
    using order_guard.closed_rejects assms(2) by (simp add: order_closed_def)
  show "\<forall>i \<in> set (or_items ord). it_conflict_key i = []"
    using reachable_invariant [OF assms(1)] assms(2) by (auto simp: items_ok_def split: order_status.splits)
qed

lemma sample_succeeded: "\<exists>n ord. reachable n ord \<and> or_status ord = OrderSucceeded"
proof -
  obtain e o1 where run: "execute_base empty_authority 4 ''ann'' 20 sample_order = Inr (o1, e)"
    using sample_execute by (auto simp: is_ok_iff)
  have o1: "o1 = record_effect (base_step_effect e) ''ann'' 20 sample_order" by (rule execute_base_Inr(6) [OF run])
  have "is_ok (advance 2 ''ann'' 30 o1)"
    by (simp add: advance_def o1 record_effect_def sample_simps expect_revision_def check_def current_step_def
        default_base_steps_def Let_def)
  then obtain o2 where o2: "advance 2 ''ann'' 30 o1 = Inr o2" by (auto simp: is_ok_iff)
  have "is_ok (complete_order 3 ''ann'' 40 o2)"
    using o2 by (auto simp: advance_def o1 record_effect_def sample_simps expect_revision_def check_def
        current_step_def default_base_steps_def at_current_def complete_order_def plain_step_def
        step_of_definition_def is_zero_time_def sample_guards Let_def)
  then obtain o3 where o3: "complete_order 3 ''ann'' 40 o2 = Inr o3" by (auto simp: is_ok_iff)
  have "reachable 0 sample_order" by (rule reachable.base [OF sample_order_created])
  then have "reachable (Suc 0) o1"
    by (rule reachable.command [of _ _ "CmdBase empty_authority 4 ''ann'' 20"]) (simp add: run changed_Inr)
  then have "reachable (Suc (Suc 0)) o2"
    by (rule reachable.command [of _ _ "CmdAdvance 2 ''ann'' 30"]) (simp add: o2)
  then have "reachable (Suc (Suc (Suc 0))) o3"
    by (rule reachable.command [of _ _ "CmdComplete 3 ''ann'' 40"]) (simp add: o3)
  moreover have "or_status o3 = OrderSucceeded"
    using complete_order_Inr [OF o3] by (simp add: completed_order_def)
  ultimately show ?thesis by blast
qed

text \<open>
  No update is lost: when an operation succeeded on an order, every operation that names the
  revision before it is rejected on the changed order.
\<close>

lemma no_lost_order_update:
  assumes "apply_command c ord = Inr ord'" "command_expects d = Some (or_revision ord)"
  shows "\<not> is_ok (apply_command d ord')"
  using order_guard.no_lost_update [OF assms] .

section \<open>Approval\<close>

text \<open>
  C6: A review is approved only by an authorised person: the order stands at a requested manual
  review, the caller names its revision, has one of the step's roles, and under the policy
  DENY_PRODUCTION the caller's subject without surrounding blanks is not the text stored as creator
  of a production order. That text is not trimmed, so the comparison only keeps creators out who
  were stored without surrounding blanks. The approval changes nothing but the step's status and
  decision.
\<close>

theorem approval_is_authorised:
  assumes "approve_manual_review expected who comment at ord = Inr ord'"
  shows "or_revision ord = expected \<and> or_status ord = OrderInProgress \<and>
    ss_type (current_step ord) = StepManualReview \<and> ss_status (current_step ord) = StepExecuting \<and>
    set (pr_roles who) \<inter> set (ss_roles (current_step ord)) \<noteq> {} \<and>
    (ss_self_approval (current_step ord) = SelfApprovalDenyProduction \<longrightarrow>
       sc_environment (or_scope ord) = ''production'' \<longrightarrow> trim_space (pr_subject who) \<noteq> or_created_by ord) \<and>
    or_items ord' = or_items ord \<and> or_status ord' = OrderInProgress \<and>
    or_steps ord' = (or_steps ord)[or_current ord :=
      (decide ApprovalApproved (pr_subject who) comment at (current_step ord))\<lparr>ss_status := StepApproved\<rparr>]"
proof -
  note ap = approve_manual_review_Inr [OF assms]
  show ?thesis using authorize_manual_decision_Inr [OF ap(1)] by (simp add: ap(2) at_current_def)
qed

definition sample_review :: step_state where
  "sample_review =
     (step_of_definition (plain_step ''review'' StepManualReview))
       \<lparr>ss_status := StepExecuting, ss_roles := [''releaser''], ss_self_approval := SelfApprovalDenyProduction,
        ss_approval := Some \<lparr>ap_status = ApprovalPending, ap_requested_at = 15, ap_requested_by = ''ann'',
          ap_decided_at = None, ap_decided_by = [], ap_comment = []\<rparr>\<rparr>"

definition sample_review_order :: order where
  "sample_review_order = sample_order\<lparr>or_steps := sample_review # or_steps sample_order\<rparr>"

theorem approval_is_authorised_witness:
  "\<exists>ord'. approve_manual_review 1 \<lparr>pr_subject = ''bob'', pr_roles = [''releaser'']\<rparr> ''ok'' 30 sample_review_order = Inr ord' \<and>
     or_items ord' = or_items sample_review_order"
proof -
  have "trim_space ''bob'' = ''bob''" by code_simp
  then have "is_ok (approve_manual_review 1 \<lparr>pr_subject = ''bob'', pr_roles = [''releaser'']\<rparr> ''ok'' 30 sample_review_order)"
    by (simp add: approve_manual_review_def authorize_manual_decision_def sample_review_order_def sample_simps
        expect_revision_def check_def at_current_def current_step_def sample_review_def has_required_role_def
        is_zero_time_def sample_place_def step_of_definition_def plain_step_def Let_def)
  then show ?thesis using approval_is_authorised by (auto simp: is_ok_iff)
qed

text \<open>A creator who was stored with a blank approves the own production order under DENY_PRODUCTION.\<close>

definition blank_creator_order :: order where
  "blank_creator_order =
     sample_review_order\<lparr>or_created_by := '' ann'', or_scope := (or_scope sample_order)\<lparr>sc_environment := ''production''\<rparr>\<rparr>"

lemma creator_with_blanks_approves:
  "is_ok (approve_manual_review 1 \<lparr>pr_subject = '' ann'', pr_roles = [''releaser'']\<rparr> ''ok'' 30 blank_creator_order) \<and>
   or_created_by blank_creator_order = '' ann'' \<and> sc_environment (or_scope blank_creator_order) = ''production'' \<and>
   ss_self_approval (current_step blank_creator_order) = SelfApprovalDenyProduction"
proof -
  have "trim_space '' ann'' = ''ann''" by code_simp
  then show ?thesis
    by (simp add: approve_manual_review_def authorize_manual_decision_def blank_creator_order_def sample_review_order_def
        sample_simps expect_revision_def check_def at_current_def current_step_def sample_review_def
        has_required_role_def is_zero_time_def sample_place_def step_of_definition_def plain_step_def Let_def)
qed

section \<open>Comparison\<close>

lemma differs_iff:
  "differs e a \<longleftrightarrow>
     \<not> (e = None \<and> a = None \<or> (\<exists>x y. e = Some x \<and> a = Some y \<and> equal_data (cr_data x) (cr_data y)))"
  by (auto simp: differs_def split: option.splits)

text \<open>
  A comparison decides exactly: the difference keys it reports are, in ascending order, the
  keys of the items whose target record and actual record are not both absent and not equal in
  data; the step is executed if and only if there is none, and the two digests are those of the
  targets and of the compared records.
\<close>

lemma compare_reports_differences:
  assumes "execute_compare expected actual actor at ord = Inr (ord', result, matched)"
  shows "\<exists>records. rfold (add_actual_record ord) [] actual = Inr records \<and>
    sorted (cp_diff_keys result) \<and> distinct (cp_diff_keys result) \<and>
    (\<forall>k. k \<in> set (cp_diff_keys result) \<longleftrightarrow> k \<in> it_key ` set (or_items ord) \<and>
       \<not> (expected_by_key ord k = None \<and> map_of (map (\<lambda>r. (cr_key r, r)) records) k = None \<or>
          (\<exists>x y. expected_by_key ord k = Some x \<and> map_of (map (\<lambda>r. (cr_key r, r)) records) k = Some y \<and>
             equal_data (cr_data x) (cr_data y)))) \<and>
    (matched \<longleftrightarrow> cp_diff_keys result = []) \<and>
    compute_base_digest (expected_records ord) = Inr (cp_expected result) \<and>
    compute_base_digest records = Inr (cp_actual result)"
proof -
  note facts = execute_compare_Inr [OF assms]
  then obtain records where r: "rfold (add_actual_record ord) [] actual = Inr records"
    "cp_diff_keys result = compare_diff_keys ord records"
    "compute_base_digest (expected_records ord) = Inr (cp_expected result)"
    "compute_base_digest records = Inr (cp_actual result)" by blast
  have "set (compare_diff_keys ord records) = {k \<in> it_key ` set (or_items ord).
      differs (expected_by_key ord k) (map_of (map (\<lambda>r. (cr_key r, r)) records) k)}"
    by (auto simp: compare_diff_keys_def)
  moreover have "sorted (compare_diff_keys ord records)" "distinct (compare_diff_keys ord records)"
    by (simp_all add: compare_diff_keys_def sorted_wrt_filter)
  ultimately show ?thesis using r facts(6) by (intro exI [of _ records]) (simp add: differs_iff)
qed

definition sample_compare_order :: order where
  "sample_compare_order =
     sample_order\<lparr>or_steps := step_of_definition (plain_step ''compare'' StepCompare) # or_steps sample_order\<rparr>"

section \<open>Changing the configuration\<close>

lemma find_append:
  "find P (xs @ ys) = (case find P xs of None \<Rightarrow> find P ys | Some x \<Rightarrow> Some x)"
  by (induction xs) simp_all

lemma put_records_lookup:
  assumes "distinct (map change_target cs)"
  shows "record_undo.apply_all e cs recs k =
    (case find (\<lambda>c. change_target c = k) cs of
       None \<Rightarrow> recs k | Some c \<Rightarrow> map_option (written_record e k) (bc_after c))"
  using assms
proof (induction cs arbitrary: recs)
  case (Cons c cs)
  have step: "record_undo.apply_all e (c # cs) recs k = record_undo.apply_all e cs (put_record e c recs) k"
    by (simp add: record_undo.apply_all_def)
  have ih: "record_undo.apply_all e cs (put_record e c recs) k =
      (case find (\<lambda>c. change_target c = k) cs of
         None \<Rightarrow> put_record e c recs k | Some c \<Rightarrow> map_option (written_record e k) (bc_after c))"
    by (rule Cons.IH) (use Cons.prems in simp)
  show ?case
  proof (cases "change_target c = k")
    case True
    moreover have "change_target c \<notin> change_target ` set cs" using Cons.prems by simp
    ultimately have "find (\<lambda>d. change_target d = k) cs = None"
      unfolding find_None_iff by (blast intro: image_eqI)
    then show ?thesis unfolding step ih using True by (simp add: put_record_def del: change_target_simps)
  next
    case False
    then have "put_record e c recs k = recs k" by (simp add: put_record_def del: change_target_simps)
    then show ?thesis unfolding step ih using False by (simp split: option.split)
  qed
qed (simp add: record_undo.apply_all_def)

lemma planned_changes_of_key:
  assumes "items_fit ord" "authority_fits db_time auth" "i \<in> set (or_items ord)"
  shows "find (\<lambda>c. change_target c = it_key i)
      (concat (map (\<lambda>i. plan_base_change i (au_records auth (it_key i))) (or_items ord))) =
    (case plan_base_change i (au_records auth (it_key i)) of [] \<Rightarrow> None | c # _ \<Rightarrow> Some c)"
proof -
  have target: "change_target c = it_key j" if "j \<in> set (or_items ord)" "c \<in> set (plan_base_change j (au_records auth (it_key j)))" for j c
    using plan_base_change_applicable [of c j "au_records auth"] assms(1,2) that
    by (simp add: items_fit_def authority_fits_def)
  have "find (\<lambda>c. change_target c = it_key i) (concat (map (\<lambda>i. plan_base_change i (au_records auth (it_key i))) is)) =
      (if i \<in> set is then (case plan_base_change i (au_records auth (it_key i)) of [] \<Rightarrow> None | c # _ \<Rightarrow> Some c) else None)"
    if "set is \<subseteq> set (or_items ord)" "distinct (map it_key is)" for "is"
    using that
  proof (induction "is")
    case (Cons j "is")
    have other: "find (\<lambda>c. change_target c = it_key i) (plan_base_change j (au_records auth (it_key j))) = None"
      if "it_key j \<noteq> it_key i" using target Cons.prems(1) that by (auto simp: find_None_iff)
    have same: "j = i" if "it_key j = it_key i"
    proof (rule ccontr)
      assume "j \<noteq> i"
      moreover have "distinct (map it_key (or_items ord))" using assms(1) by (simp add: items_fit_def)
      ultimately show False using that assms(3) Cons.prems(1) by (auto simp: distinct_map inj_on_def)
    qed
    show ?case
    proof (cases "it_key j = it_key i")
      case True
      then have "j = i" by (rule same)
      moreover have "i \<notin> set is" using Cons.prems(2) True by auto
      ultimately show ?thesis using Cons target [OF assms(3)]
        by (cases "plan_base_change i (au_records auth (it_key i))") (auto simp: find_append)
    next
      case False
      then have "i \<noteq> j" by blast
      then show ?thesis using Cons other [OF False] by (auto simp: find_append)
    qed
  qed simp
  then show ?thesis using assms(1,3) by (simp add: items_fit_def)
qed

text \<open>
  What the code's comparison of two data maps means: they are the same map, unless the left one has
  a field with the empty text that the right one lacks, and lacks a field that the right one has.
  \<open>equalData\<close> reads the missing field as the empty text and only compares the numbers of fields.
\<close>

definition fields_traded :: "data option \<Rightarrow> data option \<Rightarrow> bool" where
  "fields_traded l r \<longleftrightarrow>
     (\<exists>f g. fmlookup (deref_map l) f = Some [] \<and> fmlookup (deref_map r) f = None \<and>
        fmlookup (deref_map l) g = None \<and> fmlookup (deref_map r) g \<noteq> None)"

lemma equal_data_exact:
  assumes "equal_data l r" shows "deref_map l = deref_map r \<or> fields_traded l r"
proof -
  let ?l = "deref_map l" and ?r = "deref_map r"
  have reads: "map_read ?r k = map_read ?l k" if "fmlookup ?l k \<noteq> None" for k
    using assms that by (auto simp: equal_data_def map_len_def list_all_iff Let_def fmlookup_dom_iff)
  have card: "card (fset (fmdom ?l)) = card (fset (fmdom ?r))"
    using assms by (simp add: equal_data_def map_len_def fcard.rep_eq Let_def)
  show ?thesis
  proof (cases "fmdom ?l |\<subseteq>| fmdom ?r")
    case True
    then have same: "fset (fmdom ?l) = fset (fmdom ?r)"
      using card card_subset_eq [of "fset (fmdom ?r)" "fset (fmdom ?l)"] by (simp add: less_eq_fset.rep_eq)
    have "fmlookup ?l k = fmlookup ?r k" for k
    proof (cases "fmlookup ?l k")
      case None
      then have "k \<notin> fset (fmdom ?r)" by (simp flip: same add: fmdom_notI)
      with None show ?thesis by (simp add: fmdom_notD)
    next
      case (Some v)
      then have "k \<in> fset (fmdom ?r)" by (simp flip: same add: fmdomI)
      then obtain w where "fmlookup ?r k = Some w" by (auto simp: fmlookup_dom_iff)
      with reads [of k] Some show ?thesis by (simp add: map_read_def)
    qed
    then have "?l = ?r" by (rule fmap_eqI)
    then show ?thesis ..
  next
    case False
    then obtain f where f: "f |\<in>| fmdom ?l" "f |\<notin>| fmdom ?r" by blast
    from f(1) obtain v where "fmlookup ?l f = Some v" by (rule fmdomE)
    with fmdom_notD [OF f(2)] have v: "fmlookup ?l f = Some v" "fmlookup ?r f = None" by simp_all
    with reads [of f] have "v = []" by (simp add: map_read_def)
    have "\<not> fset (fmdom ?r) \<subseteq> fset (fmdom ?l)"
      using card card_subset_eq [of "fset (fmdom ?l)" "fset (fmdom ?r)"] f by auto
    then obtain g where g: "g |\<in>| fmdom ?r" "g |\<notin>| fmdom ?l" by blast
    from g(1) obtain w where "fmlookup ?r g = Some w" by (rule fmdomE)
    with fmdom_notD [OF g(2)] have "fmlookup ?l g = None" "fmlookup ?r g \<noteq> None" by simp_all
    with v \<open>v = []\<close> show ?thesis unfolding fields_traded_def by blast
  qed
qed

text \<open>
  C13: Applying to the base reaches the targets: after the writes of the effect that \<open>ExecuteBase\<close>
  plans, the record of every item is absent when the item deletes it and otherwise has exactly the
  item's target data. The one exception is spelled out: a record that is left as it was, because it
  has a field with the empty text which the target lacks and lacks a field which the target has.
  Records of other keys are as before, and no item key keeps an overlay.
\<close>

theorem execute_base_reaches_targets:
  assumes run: "execute_base auth new actor at ord = Inr (ord', e)"
    and fit: "items_fit ord" "authority_fits db_time auth"
  defines "after \<equiv> record_undo.apply_all e (be_changes e) (au_records auth)"
  shows "(\<forall>i \<in> set (or_items ord).
      (case it_after i of
         None \<Rightarrow> after (it_key i) = None
       | Some w \<Rightarrow> \<exists>r. after (it_key i) = Some r \<and>
           (deref_map (cr_data r) = deref_map (cr_data w) \<or>
            au_records auth (it_key i) = Some r \<and> fields_traded (cr_data r) (cr_data w))) \<and>
      rule_undo.apply_all db_time (be_overlay e) (au_rules auth) (it_key i) = None) \<and>
    (\<forall>k. k \<notin> it_key ` set (or_items ord) \<longrightarrow> after k = au_records auth k)"
proof -
  let ?cs = "concat (map (\<lambda>i. plan_base_change i (au_records auth (it_key i))) (or_items ord))"
  let ?os = "concat (map (item_rule_changes auth) (or_items ord))"
  note facts = execute_base_Inr [OF run]
  have keys: "distinct (map it_key (or_items ord))" using fit(1) by (simp add: items_fit_def)
  have cs: "clone_base_change c = c \<and> change_target c = it_key i"
    if "i \<in> set (or_items ord)" "c \<in> set (plan_base_change i (au_records auth (it_key i)))" for i c
    using plan_base_change_applicable [of c i "au_records auth"] fit that
    by (simp add: items_fit_def authority_fits_def)
  have e: "be_changes e = ?cs"
    using facts(7) cs by (auto simp: clone_base_effect_def intro!: map_idI)
  have distinct: "distinct (map change_target ?cs)"
    by (rule distinct_concat_keys [where f = it_key, OF keys _ planned_at_most_one(1)]) (use cs in blast)
  have at: "after (it_key i) = (case plan_base_change i (au_records auth (it_key i)) of
      [] \<Rightarrow> au_records auth (it_key i) | c # _ \<Rightarrow> map_option (written_record e (it_key i)) (bc_after c))"
    if "i \<in> set (or_items ord)" for i
    unfolding after_def e put_records_lookup [OF distinct] planned_changes_of_key [OF fit that]
    by (simp split: list.splits)
  have reached: "case it_after i of None \<Rightarrow> after (it_key i) = None
      | Some w \<Rightarrow> \<exists>r. after (it_key i) = Some r \<and> (deref_map (cr_data r) = deref_map (cr_data w) \<or>
            au_records auth (it_key i) = Some r \<and> fields_traded (cr_data r) (cr_data w))"
    if "i \<in> set (or_items ord)" for i
    using at [OF that] equal_data_exact
    by (cases "it_after i"; cases "au_records auth (it_key i)")
      (auto simp: plan_base_change_def written_record_def clone_record_def clone_data_def split: if_splits)
  have other: "after k = au_records auth k" if "k \<notin> it_key ` set (or_items ord)" for k
  proof -
    have "find (\<lambda>c. change_target c = k) ?cs = None" using that cs by (auto simp: find_None_iff)
    then show ?thesis by (simp add: after_def e put_records_lookup [OF distinct])
  qed
  have rules: "rule_undo.apply_all db_time (be_overlay e) (au_rules auth) (it_key i) = None"
    if "i \<in> set (or_items ord)" for i
  proof -
    have drop: "rule_undo.apply_all db_time cs rs k = (if k \<in> rc_key ` set cs then None else rs k)"
      if "\<forall>c \<in> set cs. rc_new c = None" for cs rs k
      using that by (induction cs arbitrary: rs) (auto simp: rule_undo.apply_all_def put_rule_def)
    have "be_overlay e = map clone_rule_change ?os" using facts(7) by (simp add: clone_base_effect_def)
    moreover have "\<forall>c \<in> set (map clone_rule_change ?os). rc_new c = None"
      by (auto simp: item_rule_changes_def clone_rule_change_def split: option.splits)
    moreover have "it_key i \<in> rc_key ` set (map clone_rule_change ?os)" if "au_rules auth (it_key i) \<noteq> None"
      using that \<open>i \<in> set (or_items ord)\<close>
      by (force simp: item_rule_changes_def clone_rule_change_def image_iff split: option.splits)
    ultimately show ?thesis using drop by (cases "au_rules auth (it_key i)") auto
  qed
  show ?thesis using reached other rules by blast
qed

theorem execute_base_reaches_targets_witness:
  "\<exists>ord' e r. execute_base empty_authority 4 ''ann'' 20 sample_order = Inr (ord', e) \<and>
     record_undo.apply_all e (be_changes e) (au_records empty_authority) ''k'' = Some r \<and>
     deref_map (cr_data r) = deref_map (cr_data sample_target)"
proof -
  obtain ord' e where run: "execute_base empty_authority 4 ''ann'' 20 sample_order = Inr (ord', e)"
    using sample_execute by (auto simp: is_ok_iff)
  have "au_records empty_authority ''k'' = None" by (simp add: empty_authority_def)
  with execute_base_reaches_targets [OF run sample_fit] run show ?thesis
    by (fastforce simp: sample_simps sample_item_def)
qed

text \<open>What a rollout does for one item, with the change it plans.\<close>

definition item_widened :: "order \<Rightarrow> authority \<Rightarrow> item \<Rightarrow> rule_change \<Rightarrow> bool" where
  "item_widened ord auth i c \<longleftrightarrow>
     rc_key c = it_key i \<and> rc_previous c = map_option clone_rule (au_rules auth (it_key i)) \<and>
     (\<exists>r. rc_new c = Some r \<and> ru_key r = it_key i \<and> canonical_union (ru_ranges r) \<and>
        buckets (ru_ranges r) = (case rc_previous c of None \<Rightarrow> {} | Some p \<Rightarrow> buckets (ru_ranges p)) \<union>
          buckets (ss_ranges (current_step ord)) \<and>
        (case it_after i of
           None \<Rightarrow> ru_action r = ActionDelete \<and> deref_map (ru_content r) = fmempty
         | Some w \<Rightarrow> ru_action r = (if au_records auth (it_key i) = None then ActionAdd else ActionModify) \<and>
             ru_content r = Some (deref_map (cr_data w))) \<and>
        absent_or (\<lambda>p. ru_order p = or_id ord \<and> ru_action p = ru_action r \<and>
          (deref_map (ru_content p) = deref_map (ru_content r) \<or> fields_traded (ru_content p) (ru_content r)) \<and>
          buckets (ru_ranges p) \<inter> buckets (ss_ranges (current_step ord)) = {}) (rc_previous c))"

lemma percent_item_widens:
  assumes "plan_percent_item ord auth new actor at i = Inr d"
  shows "item_widened ord auth i (clone_rule_change d)"
proof -
  note plan = plan_percent_item_Inr [OF assms]
  from plan(5) obtain ranges r where r: "expand_rollout_ranges
        (case rc_previous d of None \<Rightarrow> [] | Some p \<Rightarrow> ru_ranges p) (ss_ranges (current_step ord)) = Inr ranges"
    "compile_rule (item_rule_spec ord i (au_records auth (it_key i)) (rc_previous d) ranges new actor at) = Inr r"
    "rc_new d = Some (clone_rule r)"
    "absent_or (\<lambda>p. ru_action p = ru_action r \<and> equal_data (ru_content p) (ru_content r)) (rc_previous d)" by blast
  note ex = expand_rollout_ranges_Inr [OF r(1)] and cr = compile_rule_Inr [OF r(2)]
  have "normal_ranges ranges"
    using ex(1) by (auto simp: canonical_union_def normal_ranges_def range_apart_def range_before_def
        elim!: sorted_wrt_mono_rel [rotated])
  then have ranges: "ru_ranges r = ranges" using cr(5) normalize_ranges_id by (simp add: item_rule_spec_def)
  have content: "case it_after i of None \<Rightarrow> ru_action r = ActionDelete \<and> ru_content r = None
      | Some w \<Rightarrow> ru_action r = (if au_records auth (it_key i) = None then ActionAdd else ActionModify) \<and>
          ru_content r = Some (deref_map (cr_data w))"
    using cr(4) by (auto simp: item_rule_spec_def derive_rule_def clone_data_def split: option.splits)
  have same: "absent_or (\<lambda>p. ru_action p = ru_action r \<and>
      (deref_map (ru_content p) = deref_map (ru_content r) \<or> fields_traded (ru_content p) (ru_content r))) (rc_previous d)"
    using r(4) equal_data_exact by (cases "rc_previous d") auto
  show ?thesis
    using ex ranges r(3) same cr(3) plan(1,2,4) content
    by (cases "au_rules auth (it_key i)"; cases "it_after i")
      (auto simp: fields_traded_def item_widened_def clone_rule_change_def item_rule_spec_def clone_rule_def clone_data_def)
qed

text \<open>
  C14: A percentage rollout only widens. The effect has one change per item, in order. Its new rule
  covers exactly the buckets the item's rule had before and those of the step, which were disjoint,
  and does to the record what the item demands: it adds or modifies it with the target data, or
  deletes it. A rule the item had before is of the same order and had the same action and, but for
  the exception of C13, the same content.
\<close>

theorem percent_rollout_widens:
  assumes "execute_percent_rollout auth new actor at ord = Inr (ord', e)"
  shows "list_all2 (item_widened ord auth) (or_items ord) (pe_changes e)"
proof -
  from execute_percent_rollout_Inr(9) [OF assms] obtain changes where changes:
    "rmap (plan_percent_item ord auth new actor at) (or_items ord) = Inr changes"
    "pe_changes e = map clone_rule_change changes" by (auto simp: clone_percent_effect_def)
  show ?thesis
    unfolding changes(2) list.rel_map
    by (rule list_all2_mono [OF changes(1) [unfolded rmap_Inr_iff]]) (rule percent_item_widens)
qed

definition sample_percent_order :: order where
  "sample_percent_order =
     sample_order\<lparr>or_steps := (step_of_definition (plain_step ''five'' StepPercentRollout))
         \<lparr>ss_ranges := [\<lparr>br_start = 0, br_end = 4\<rparr>]\<rparr> # or_steps sample_order\<rparr>"

lemma sample_ranges:
  "expand_rollout_ranges [] [\<lparr>br_start = 0, br_end = 4\<rparr>] = Inr [\<lparr>br_start = 0, br_end = 4\<rparr>]"
  "normalize_ranges [\<lparr>br_start = 0, br_end = 4\<rparr>] = Inr [\<lparr>br_start = 0, br_end = 4\<rparr>]"
  by code_simp+

lemma sample_percent_runs: "is_ok (execute_percent_rollout empty_authority 4 ''ann'' 20 sample_percent_order)"
  by (simp add: execute_percent_rollout_def sample_percent_order_def sample_simps at_current_def current_step_def
      plain_step_def step_of_definition_def check_def sample_guards is_zero_time_def empty_authority_def
      expected_collection_revision_def last_percent_def List.map_filter_simps plan_percent_item_def
      base_revision_unchanged_def sample_item_def sample_ranges compile_rule_def item_rule_spec_def
      sample_target_def sample_place_def matches_target_def Let_def rbind_def)

theorem percent_rollout_widens_witness:
  "\<exists>ord' e c r. execute_percent_rollout empty_authority 4 ''ann'' 20 sample_percent_order = Inr (ord', e) \<and>
     pe_changes e = [c] \<and> rc_new c = Some r \<and> ru_content r = cr_data sample_target"
proof -
  obtain ord' e where run: "execute_percent_rollout empty_authority 4 ''ann'' 20 sample_percent_order = Inr (ord', e)"
    using sample_percent_runs by (auto simp: is_ok_iff)
  have items: "or_items sample_percent_order = [sample_item]" by (simp add: sample_percent_order_def sample_simps)
  from percent_rollout_widens [OF run] obtain c where "pe_changes e = [c]"
    "item_widened sample_percent_order empty_authority sample_item c"
    unfolding items by (auto simp: list_all2_Cons1)
  with run show ?thesis
    by (auto simp: item_widened_def sample_item_def sample_target_def)
qed

end
