(* ===== verification/Rollback_Properties.thy ===== *)
theory Rollback_Properties
  imports Release_Samples
begin

text \<open>
  The claims about taking a release back: the plan of \<open>RollbackAll\<close> restores the configuration,
  and an executed base application can be rolled back.
\<close>

section \<open>A state read from the database stays one\<close>

lemma clone_record_id_iff: "clone_record r = r \<longleftrightarrow> cr_data r \<noteq> None"
  by (cases r) (simp add: clone_record_def clone_data_Some_iff del: not_None_eq)

lemma clone_rule_id_iff: "clone_rule r = r \<longleftrightarrow> ru_content r \<noteq> None"
  by (cases r) (simp add: clone_rule_def clone_data_Some_iff del: not_None_eq)

lemma loaded_iff:
  "clone_record_authority recs = recs \<longleftrightarrow> (\<forall>k r. recs k = Some r \<longrightarrow> cr_data r \<noteq> None)"
  "clone_rule_authority rs = rs \<longleftrightarrow> (\<forall>k r. rs k = Some r \<longrightarrow> ru_content r \<noteq> None)"
proof -
  have "map_option clone_record x = x \<longleftrightarrow> (\<forall>r. x = Some r \<longrightarrow> cr_data r \<noteq> None)" for x
    by (cases x) (simp_all add: clone_record_id_iff del: not_None_eq)
  then show "clone_record_authority recs = recs \<longleftrightarrow> (\<forall>k r. recs k = Some r \<longrightarrow> cr_data r \<noteq> None)"
    by (simp add: clone_record_authority_def fun_eq_iff del: not_None_eq)
  have "map_option clone_rule x = x \<longleftrightarrow> (\<forall>r. x = Some r \<longrightarrow> ru_content r \<noteq> None)" for x
    by (cases x) (simp_all add: clone_rule_id_iff del: not_None_eq)
  then show "clone_rule_authority rs = rs \<longleftrightarrow> (\<forall>k r. rs k = Some r \<longrightarrow> ru_content r \<noteq> None)"
    by (simp add: clone_rule_authority_def fun_eq_iff del: not_None_eq)
qed

lemma put_record_loaded:
  assumes "record_applicable e c recs" "clone_record_authority recs = recs"
  shows "clone_record_authority (put_record e c recs) = put_record e c recs"
  using assms by (cases "bc_after c")
    (auto simp: loaded_iff put_record_def record_applicable_def simp del: change_target_simps split: if_splits)

lemma put_rule_loaded:
  assumes "rule_applicable db_time c rs" "clone_rule_authority rs = rs"
  shows "clone_rule_authority (put_rule db_time c rs) = put_rule db_time c rs"
  using assms by (cases "rc_new c")
    (auto simp: loaded_iff put_rule_def rule_applicable_def rule_storable_def split: if_splits)

lemma applied_records_loaded:
  assumes "record_undo.applicable_all e cs recs" "clone_record_authority recs = recs"
  shows "clone_record_authority (record_undo.apply_all e cs recs) = record_undo.apply_all e cs recs"
  using assms
proof (induction cs arbitrary: recs)
  case (Cons c cs)
  then have "record_applicable e c recs" "record_undo.applicable_all e cs (put_record e c recs)" by simp_all
  with Cons.IH put_record_loaded [OF _ Cons.prems(2)] show ?case by (simp add: record_undo.apply_all_def)
qed (simp add: record_undo.apply_all_def)

lemma applied_rules_loaded:
  assumes "rule_undo.applicable_all db_time cs rs" "clone_rule_authority rs = rs"
  shows "clone_rule_authority (rule_undo.apply_all db_time cs rs) = rule_undo.apply_all db_time cs rs"
  using assms
proof (induction cs arbitrary: rs)
  case (Cons c cs)
  then have "rule_applicable db_time c rs" "rule_undo.applicable_all db_time cs (put_rule db_time c rs)" by simp_all
  with Cons.IH put_rule_loaded [OF _ Cons.prems(2)] show ?case by (simp add: rule_undo.apply_all_def)
qed (simp add: rule_undo.apply_all_def)

lemma put_effect_loaded:
  assumes "effect_applicable db_time collection sc e s" "state_loaded s"
  shows "state_loaded (put_effect db_time e s)"
  using assms applied_records_loaded applied_rules_loaded
  by (cases "se_base e") (simp_all add: state_loaded_def put_effect_def effect_applicable_def)

lemma put_chain_loaded:
  assumes "chain_applicable db_time collection sc es s" "state_loaded s"
  shows "state_loaded (put_chain db_time es s)"
  using assms
proof (induction es arbitrary: s)
  case (Cons e es)
  then have "state_loaded (put_effect db_time e s)" using put_effect_loaded chain_applicable.simps(2) by blast
  with Cons show ?case by (simp add: put_chain_def)
qed (simp add: put_chain_def)

lemma authority_fits_loaded:
  assumes "authority_fits db_time auth"
  shows "clone_record_authority (au_records auth) = au_records auth"
    "clone_rule_authority (au_rules auth) = au_rules auth"
proof -
  have recs: "absent_or (\<lambda>r. cr_key r = k \<and> cr_data r \<noteq> None) (au_records auth k)" for k
    using assms unfolding authority_fits_def by blast
  have "cr_data r \<noteq> None" if "au_records auth k = Some r" for k r
    using recs [of k] unfolding that absent_or_simps by blast
  then show "clone_record_authority (au_records auth) = au_records auth" unfolding loaded_iff by blast
  have rules: "absent_or (rule_storable db_time) (au_rules auth k)" for k
    using assms unfolding authority_fits_def by blast
  have "ru_content r \<noteq> None" if "au_rules auth k = Some r" for k r
    using rules [of k] unfolding that absent_or_simps rule_storable_def by blast
  then show "clone_rule_authority (au_rules auth) = au_rules auth" unfolding loaded_iff by blast
qed

lemma sample_chain:
  assumes "execute_base empty_authority 4 ''ann'' 20 sample_order = Inr (ord', e)"
  shows "order_effects ord' = [base_step_effect e] \<and> or_scope ord' = sample_place \<and> or_status ord' = OrderInProgress \<and>
    chain_applicable id ''limits'' sample_place [base_step_effect e]
      \<lparr>cs_records = (\<lambda>_. None), cs_rules = (\<lambda>_. None), cs_revision = 3\<rparr> \<and> be_applied e = 4"
proof -
  have place: "it_collection (hd (or_items sample_order)) = ''limits''" "or_scope sample_order = sample_place"
    "sc_region sample_place = ''eu''" "sc_environment sample_place = ''prod''"
    by (simp_all add: sample_simps sample_item_def sample_place_def)
  have "effect_applicable id ''limits'' sample_place (base_step_effect e)
      \<lparr>cs_records = (\<lambda>_. None), cs_rules = (\<lambda>_. None), cs_revision = 3\<rparr>"
    using execute_base_applicable [OF assms sample_fit] sample_guards by (simp add: place empty_authority_def)
  moreover have "order_effects ord' = [base_step_effect e]" "or_scope ord' = sample_place" "or_status ord' = OrderInProgress"
    using execute_base_Inr(1,6) [OF assms]
    by (simp_all add: order_effects_def record_effect_def sample_simps default_base_steps_def
        plain_step_def step_of_definition_def List.map_filter_simps at_current_def)
  moreover have "be_applied e = 4" using execute_base_Inr(7) [OF assms] by (simp add: clone_base_effect_def)
  ultimately show ?thesis by simp
qed

section \<open>The claims\<close>

text \<open>
  The chain of effects against the state it starts from: every effect is valid, of the order's place,
  follows the revision the one before it left and changes the records and rules it found there.
\<close>

fun rule_changes_fit :: "(gotime \<Rightarrow> gotime) \<Rightarrow> rule_change list \<Rightarrow> rules \<Rightarrow> bool" where
  "rule_changes_fit db_time [] rs \<longleftrightarrow> True"
| "rule_changes_fit db_time (c # cs) rs \<longleftrightarrow>
     valid_rule_change c \<and> rs (rc_key c) = rc_previous c \<and> rule_changes_fit db_time cs (put_rule db_time c rs)"

definition effect_fits :: "(gotime \<Rightarrow> gotime) \<Rightarrow> string \<Rightarrow> scope \<Rightarrow> step_effect \<Rightarrow> config_state \<Rightarrow> bool" where
  "effect_fits db_time collection sc e s \<longleftrightarrow>
     is_ok (validate_step_effect e) \<and> effect_place e = (collection, sc) \<and>
     fst (effect_revisions e) = cs_revision s \<and>
     (case se_base e of None \<Rightarrow> True | Some b \<Rightarrow> record_undo.applicable_all b (be_changes b) (cs_records s)) \<and>
     rule_changes_fit db_time (effect_rule_changes e) (cs_rules s)"

fun chain_fits ::
  "(gotime \<Rightarrow> gotime) \<Rightarrow> string \<Rightarrow> scope \<Rightarrow> step_effect list \<Rightarrow> config_state \<Rightarrow> bool" where
  "chain_fits db_time collection sc [] s \<longleftrightarrow> True"
| "chain_fits db_time collection sc (e # es) s \<longleftrightarrow>
     effect_fits db_time collection sc e s \<and> chain_fits db_time collection sc es (put_effect db_time e s)"

text \<open>
  The database keeps a rule: it has content, and each of its times is a fixed point of the round trip
  through a \<open>DATETIME(6)\<close> column, which is to say it has whole microseconds.
\<close>

definition rule_kept :: "(gotime \<Rightarrow> gotime) \<Rightarrow> overlay_rule \<Rightarrow> bool" where
  "rule_kept db_time r \<longleftrightarrow>
     ru_content r \<noteq> None \<and> db_time (ru_created_at r) = ru_created_at r \<and> db_time (ru_updated_at r) = ru_updated_at r \<and>
     absent_or (\<lambda>t. db_time t = t) (ru_from r) \<and> absent_or (\<lambda>t. db_time t = t) (ru_until r) \<and>
     absent_or (\<lambda>t. db_time t = t) (ru_activated_at r) \<and> absent_or (\<lambda>t. db_time t = t) (ru_expired_at r)"

definition effect_kept :: "(gotime \<Rightarrow> gotime) \<Rightarrow> step_effect \<Rightarrow> bool" where
  "effect_kept db_time e \<longleftrightarrow>
     list_all (\<lambda>c. absent_or (rule_kept db_time) (rc_previous c) \<and> absent_or (rule_kept db_time) (rc_new c))
       (effect_rule_changes e)"

lemma rule_kept_storable: "rule_kept db_time r \<Longrightarrow> rule_storable db_time r"
  by (cases r) (auto simp: rule_kept_def rule_storable_def stored_rule_def absent_or_def split: option.splits)

lemma rule_changes_applicable:
  assumes "rule_changes_fit db_time cs rs"
    and "list_all (\<lambda>c. absent_or (rule_kept db_time) (rc_previous c) \<and> absent_or (rule_kept db_time) (rc_new c)) cs"
  shows "rule_undo.applicable_all db_time cs rs"
  using assms
proof (induction cs arbitrary: rs)
  case (Cons c cs)
  have "absent_or (rule_storable db_time) x" if "absent_or (rule_kept db_time) x" for x
    using that rule_kept_storable by (cases x) auto
  with Cons.prems have "rule_applicable db_time c rs" by (simp add: rule_applicable_def)
  with Cons show ?case by simp
qed simp

lemma chain_fits_kept:
  "chain_fits db_time collection sc es s \<Longrightarrow> list_all (effect_kept db_time) es \<Longrightarrow>
   chain_applicable db_time collection sc es s"
  by (induction es arbitrary: s)
    (auto simp: effect_fits_def effect_applicable_def effect_kept_def intro: rule_changes_applicable)

text \<open>
  C16: A rollback restores the configuration: when every effect of an order in progress was applied
  to the state the one before it left, starting from a state read from the database, and every rule
  the effects mention has content and times of whole microseconds, then \<open>RollbackAll\<close> succeeds on the
  state reached, and writing its plan restores the data of every record and every rule as they were
  before the first effect, under a new revision. The condition on the times is needed, and the
  nanosecond clock of the service does not establish it: see \<open>unkept_rule_is_drift\<close> below. An order
  whose effects change no rule, such as a base release without rollout, meets it.
\<close>

theorem rollback_all_restores:
  assumes "chain_fits db_time collection (or_scope ord) (order_effects ord) s" "order_effects ord \<noteq> []"
    and "list_all (effect_kept db_time) (order_effects ord)"
    and "or_status ord = OrderInProgress" "\<not> blank actor" "at \<noteq> 0"
    and "cs_revision (put_chain db_time (order_effects ord) s) < new" "state_loaded s"
  shows "\<exists>ord' plan. rollback_all (or_revision ord)
      (authority_of (put_chain db_time (order_effects ord) s)) new actor at ord = Inr (ord', plan) \<and>
    or_status ord' = OrderRolledBack \<and>
    (\<forall>k. map_option cr_data
        (cs_records (put_effect db_time plan (put_chain db_time (order_effects ord) s)) k) =
      map_option cr_data (cs_records s k)) \<and>
    cs_rules (put_effect db_time plan (put_chain db_time (order_effects ord) s)) = cs_rules s \<and>
    cs_revision (put_effect db_time plan (put_chain db_time (order_effects ord) s)) = new"
proof -
  note chain = chain_fits_kept [OF assms(1,3)]
  show ?thesis
    using rollback_all_chain [OF chain assms(2,4) refl assms(5-7) put_chain_loaded [OF chain assms(8)]]
    unfolding same_data_def by blast
qed

theorem rollback_all_restores_witness:
  "\<exists>ord auth ord' plan. rollback_all (or_revision ord) auth 5 ''bob'' 30 ord = Inr (ord', plan) \<and>
     or_status ord' = OrderRolledBack"
proof -
  let ?s = "\<lparr>cs_records = (\<lambda>_. None), cs_rules = (\<lambda>_. None), cs_revision = 3\<rparr>"
  obtain ord e where run: "execute_base empty_authority 4 ''ann'' 20 sample_order = Inr (ord, e)"
    using sample_execute by (auto simp: is_ok_iff)
  note chain = sample_chain [OF run]
  have "be_overlay e = []"
    using execute_base_Inr(7) [OF run]
    by (simp add: clone_base_effect_def item_rule_changes_def empty_authority_def sample_simps)
  with chain have rules: "list_all (effect_kept id) (order_effects ord)"
    by (simp add: effect_kept_def effect_rule_changes_def base_step_effect_def)
  have "cs_revision (put_chain id (order_effects ord) ?s) < 5"
    using chain by (simp add: put_chain_def put_effect_def effect_revisions_def base_step_effect_def)
  moreover have "state_loaded ?s" by (simp add: state_loaded_def clone_record_authority_def clone_rule_authority_def fun_eq_iff)
  moreover have "\<not> blank ''bob''" by code_simp
  moreover have "chain_fits id ''limits'' (or_scope ord) (order_effects ord) ?s"
    using chain \<open>be_overlay e = []\<close>
    by (simp add: effect_fits_def effect_applicable_def effect_rule_changes_def base_step_effect_def)
  moreover have "order_effects ord \<noteq> []" "or_status ord = OrderInProgress" using chain by simp_all
  ultimately show ?thesis using rollback_all_restores [of id "''limits''" ord ?s "''bob''" 30 5] rules by auto
qed

text \<open>
  Why the times must be kept: if the last effect of an order wrote, as its last change, a rule that the
  database did not give back as it was recorded, \<open>RollbackAll\<close> takes it for drift and fails.
\<close>

lemma unkept_rule_is_drift:
  assumes "order_effects ord = es @ [overlay_step_effect e]" "oe_changes e = cs @ [c]" "rc_new c = Some r"
    and "au_rules auth (rc_key c) = Some (stored_rule db_time r)" "stored_rule db_time r \<noteq> r" "ru_content r \<noteq> None"
    and "list_all (\<lambda>e. is_ok (validate_step_effect e)) (order_effects ord)"
    and "or_status ord = OrderInProgress" "\<not> blank actor" "at \<noteq> 0" "au_revision auth < new"
  shows "rollback_all (or_revision ord) auth new actor at ord = Inl ErrAborted"
proof -
  have "clone_rule (stored_rule db_time r) = stored_rule db_time r"
    using assms(6) by (simp add: clone_rule_id_iff stored_rule_def)
  then have drift: "inverse_overlay_change (clone_rule_authority (au_rules auth)) c = Inl ErrAborted"
    using assms(3-5) by (simp add: inverse_overlay_change_def clone_rule_authority_def check_def Let_def)
  then have "inverse_overlay_changes (oe_changes e) (clone_rule_authority (au_rules auth)) = Inl ErrAborted"
    by (simp add: inverse_overlay_changes_def assms(2))
  then show ?thesis
    using assms(7-11)
    by (simp add: rollback_all_def assms(1) expect_revision_def check_def is_zero_time_def not_le Let_def
        rollback_effect_def inverse_effect_def overlay_step_effect_def)
qed

lemma map_filter_append: "List.map_filter f (xs @ ys) = List.map_filter f xs @ List.map_filter f ys"
  by (simp add: List.map_filter_def)

lemma map_filter_only:
  assumes "List.map_filter f xs = []" "n < length xs" "f y = Some z"
  shows "List.map_filter f (xs[n := y]) = [z]"
proof -
  have "List.map_filter f (take n xs @ xs ! n # drop (Suc n) xs) = []"
    using assms(1,2) by (simp add: id_take_nth_drop [symmetric])
  then have "List.map_filter f (take n xs) = []" "List.map_filter f (drop (Suc n) xs) = []"
    by (auto simp: map_filter_append List.map_filter_simps split: option.splits)
  then show ?thesis using assms(2,3) by (simp add: upd_conv_take_nth_drop map_filter_append List.map_filter_simps)
qed

lemma rollback_single_base:
  assumes "rollback_all r auth new a t ord = Inr (ord', plan)" "order_effects ord = [base_step_effect e]"
  shows "\<exists>b. plan = base_step_effect b"
  using assms
  by (auto simp: rollback_all_def rbind_Inr_iff check_Inr Let_def rollback_effect_def rollback_plan_def
      clone_step_effect_def base_step_effect_def split: prod.splits)

definition after_base :: "(gotime \<Rightarrow> gotime) \<Rightarrow> base_effect \<Rightarrow> authority \<Rightarrow> authority" where
  "after_base db_time e auth =
     \<lparr>au_revision = be_applied e, au_records = record_undo.apply_all e (be_changes e) (au_records auth),
      au_rules = rule_undo.apply_all db_time (be_overlay e) (au_rules auth)\<rparr>"

text \<open>
  An executed base application can be rolled back: on the authority its writes leave,
  \<open>RollbackAll\<close> of the order succeeds as long as nothing else was published, and its plan gives
  every record its earlier data and every rule back.
\<close>

lemma executed_base_rolls_back:
  assumes run: "execute_base auth new actor at ord = Inr (ord', e)"
    and fit: "items_fit ord" "authority_fits db_time auth"
    and place: "\<not> blank (it_collection (hd (or_items ord)))" "\<not> blank (sc_region (or_scope ord))"
      "\<not> blank (sc_environment (or_scope ord))"
    and ord: "order_effects ord = []" "or_current ord < length (or_steps ord)"
    and call: "\<not> blank actor'" "at' \<noteq> 0" "new < new'"
  shows "\<exists>ord'' plan. rollback_all (or_revision ord') (after_base db_time e auth) new' actor' at' ord' =
      Inr (ord'', base_step_effect plan) \<and> or_status ord'' = OrderRolledBack \<and>
    (\<forall>k. map_option cr_data (au_records (after_base db_time plan (after_base db_time e auth)) k) =
      map_option cr_data (au_records auth k)) \<and>
    au_rules (after_base db_time plan (after_base db_time e auth)) = au_rules auth"
proof -
  let ?s = "\<lparr>cs_records = au_records auth, cs_rules = au_rules auth, cs_revision = au_revision auth\<rparr>"
  let ?c = "it_collection (hd (or_items ord))" and ?e = "base_step_effect e"
  note facts = execute_base_Inr [OF run]
  have effects: "order_effects ord' = [?e]"
    using ord by (simp add: facts(6) order_effects_def record_effect_def map_filter_only)
  have scope: "or_scope ord' = or_scope ord" "or_status ord' = OrderInProgress"
    using facts(1) by (simp_all add: facts(6) record_effect_def at_current_def)
  note applicable = execute_base_applicable [OF run fit place]
  have chain: "chain_applicable db_time ?c (or_scope ord') (order_effects ord') ?s"
    using applicable by (simp add: effects scope)
  have s': "put_chain db_time (order_effects ord') ?s = put_effect db_time ?e ?s"
    by (simp add: effects put_chain_def)
  have "authority_of (put_effect db_time ?e ?s) = after_base db_time e auth"
    by (simp add: authority_of_def put_effect_def after_base_def base_step_effect_def effect_rule_changes_def
        effect_revisions_def)
  note after = this
  have loaded: "state_loaded ?s" using authority_fits_loaded [OF fit(2)] by (simp add: state_loaded_def)
  have newer: "cs_revision (put_chain db_time (order_effects ord') ?s) < new'"
    using call(3) facts(7) by (simp add: s' put_effect_def effect_revisions_def base_step_effect_def clone_base_effect_def)
  have "order_effects ord' \<noteq> []" by (simp add: effects)
  from rollback_all_chain [OF chain this scope(2) refl call(1,2) newer put_chain_loaded [OF chain loaded]]
  obtain ord'' plan where roll:
    "rollback_all (or_revision ord') (after_base db_time e auth) new' actor' at' ord' = Inr (ord'', plan)"
    "or_status ord'' = OrderRolledBack"
    "same_data (cs_records (put_effect db_time plan (put_effect db_time ?e ?s))) (au_records auth)"
    "cs_rules (put_effect db_time plan (put_effect db_time ?e ?s)) = au_rules auth"
    unfolding s' after by auto
  obtain b where b: "plan = base_step_effect b" using rollback_single_base [OF roll(1) effects] by blast
  have "after_base db_time b (after_base db_time e auth) =
      authority_of (put_effect db_time plan (put_effect db_time ?e ?s))"
    by (simp add: b authority_of_def put_effect_def after_base_def base_step_effect_def effect_rule_changes_def
        effect_revisions_def)
  with roll show ?thesis by (intro exI [of _ ord''] exI [of _ b]) (simp add: b authority_of_def same_data_def)
qed

section \<open>Restoring and compensating\<close>

lemma clone_change_idem:
  "clone_base_change (clone_base_change c) = clone_base_change c" "clone_rule_change (clone_rule_change d) = clone_rule_change d"
  by (simp_all add: clone_base_change_def clone_rule_change_def)

lemma clone_effect_idem:
  "clone_base_effect (clone_base_effect b) = clone_base_effect b"
  "clone_overlay_effect (clone_overlay_effect c) = clone_overlay_effect c"
  "clone_percent_effect (clone_percent_effect d) = clone_percent_effect d"
  by (simp_all add: clone_base_effect_def clone_overlay_effect_def clone_percent_effect_def clone_change_idem comp_def)

lemma clone_step_effect_idem [simp]: "clone_step_effect (clone_step_effect e) = clone_step_effect e"
  by (simp add: clone_step_effect_def option.map_comp comp_def clone_effect_idem)

lemma clone_order_idem [simp]: "clone_order (clone_order ord) = clone_order ord"
  by (simp add: clone_order_def clone_step_def clone_item_def option.map_comp comp_def)

lemma validate_cloned_changes:
  "validate_overlay_changes (map clone_rule_change cs) b = validate_overlay_changes cs b"
  "valid_base_change (clone_base_change c) = valid_base_change c"
  by (simp_all add: validate_overlay_changes_def list.pred_map comp_def clone_rule_change_def valid_base_change_def
      clone_base_change_def)

lemma validate_cloned_effects:
  "validate_base_effect (clone_base_effect b) = validate_base_effect b"
  "validate_overlay_effect (clone_overlay_effect c) = validate_overlay_effect c"
  "validate_percent_effect (clone_percent_effect d) = validate_percent_effect d"
  by (simp_all add: validate_base_effect_def validate_overlay_effect_def validate_percent_effect_def
      clone_base_effect_def clone_overlay_effect_def clone_percent_effect_def validate_cloned_changes
      list.pred_map comp_def)

lemma validate_clone [simp]: "validate_step_effect (clone_step_effect e) = validate_step_effect e"
  by (cases "se_base e"; cases "se_overlay e"; cases "se_percent e"; cases "se_type e")
    (simp_all add: validate_step_effect_def clone_step_effect_def validate_cloned_effects)

lemma absent_or_map: "absent_or P (map_option f x) = absent_or (\<lambda>y. P (f y)) x"
  by (cases x) simp_all

text \<open>
  Restoring is stable: the persisted state of a restored order restores to the same order, and
  a restored order has a current step and at least one item.
\<close>

lemma restore_order_stable:
  assumes "restore_order st = Inr ord"
  shows "restore_order (order_state ord) = Inr ord \<and> or_current ord < length (or_steps ord) \<and> or_items ord \<noteq> []"
proof -
  have ord: "ord = clone_order st" "or_current st < length (or_steps st)" "or_items st \<noteq> []"
    using assms by (auto simp: restore_order_def split: if_splits)
  have "restore_order (clone_order st) = restore_order st"
    by (simp add: restore_order_def list.pred_map comp_def absent_or_map)
      (simp add: clone_order_def list.pred_map comp_def clone_step_def absent_or_map)
  then show ?thesis using assms ord by (simp add: order_state_def) (simp add: clone_order_def)
qed

text \<open>The outcome a source item recorded is still what the configuration holds.\<close>

definition fact_stands :: "config_record option \<Rightarrow> config_record option \<Rightarrow> bool" where
  "fact_stands actual recorded \<longleftrightarrow>
     (actual = None \<and> recorded = None) \<or>
     (\<exists>a r. actual = Some a \<and> recorded = Some r \<and> cr_collection a = cr_collection r \<and>
        cr_environment a = cr_environment r \<and> cr_key a = cr_key r \<and> equal_data (cr_data a) (cr_data r))"

text \<open>A compensation item has the shape of its action and goes back to the state before.\<close>

definition compensates :: "final_effect \<Rightarrow> records \<Rightarrow> records \<Rightarrow> item \<Rightarrow> compensation_item \<Rightarrow> bool" where
  "compensates final base effective i c \<longleftrightarrow>
     it_status i = ItemApplied \<and>
     fact_stands (base (it_key i)) (if final = FinalEffectBase then it_after i else it_base_before i) \<and>
     fact_stands (effective (it_key i)) (it_after i) \<and>
     ci_after c = map_option clone_record
       (if final = FinalEffectBase then it_base_before i else it_effective_before i) \<and>
     ci_base_before c = map_option clone_record (base (it_key i)) \<and>
     ci_effective_before c = map_option clone_record (effective (it_key i)) \<and>
     (case ci_action c of
        ActionAdd \<Rightarrow> ci_effective_before c = None \<and> ci_after c \<noteq> None
      | ActionModify \<Rightarrow> ci_effective_before c \<noteq> None \<and> ci_after c \<noteq> None
      | ActionDelete \<Rightarrow> ci_effective_before c \<noteq> None \<and> ci_after c = None
      | ActionOther _ \<Rightarrow> False)"

lemma same_compensation_fact_stands:
  "same_compensation_fact actual expected r \<Longrightarrow> fact_stands actual expected"
  by (auto simp: same_compensation_fact_def fact_stands_def split: option.splits)

lemma compensate_item_Inr:
  assumes "compensate_item base effective revision final applied ks i = Inr c"
  shows "compensates final base effective i c \<and> ci_collection_revision c = revision"
proof -
  define desired where
    "desired = (if final = FinalEffectBase then it_base_before i else it_effective_before i)"
  let ?actual = "effective (it_key i)"
  from assms have ok: "it_status i = ItemApplied"
    "fact_stands (base (it_key i)) (if final = FinalEffectBase then it_after i else it_base_before i)"
    "fact_stands ?actual (it_after i)"
    by (auto simp: compensate_item_def Let_def rbind_Inr_iff check_Inr dest!: same_compensation_fact_stands)
  from assms have c: "c = \<lparr>ci_action = (if ?actual = None then ActionAdd else if desired = None then ActionDelete else ActionModify),
      ci_base_before = map_option clone_record (base (it_key i)), ci_effective_before = map_option clone_record ?actual,
      ci_after = map_option clone_record desired,
      ci_record_revision = (case base (it_key i) of None \<Rightarrow> 0 | Some r \<Rightarrow> cr_revision r),
      ci_collection_revision = revision, ci_preserve = it_preserve i\<rparr>" "\<not> (?actual = None \<and> desired = None)"
    unfolding compensate_item_def Let_def rbind_Inr_iff check_Inr desired_def by (blast, blast)
  show ?thesis
    using c(2) ok(3) by (cases ?actual; cases desired) (simp_all add: compensates_def ok c(1) desired_def [symmetric])
qed

text \<open>
  Compensation reverses a release and refuses drift: only a succeeded order has a plan; the
  plan has one item per item of the order, in its order; the recorded outcome of every item
  still stands in the base and in the effective view, and the plan's item goes back to the state
  before the release with an action that fits.
\<close>

lemma compensation_reverses:
  assumes "plan_compensation auth ord = Inr plan"
  shows "or_status ord = OrderSucceeded \<and>
    (\<exists>base effective. ca_base auth = Some base \<and> ca_effective auth = Some effective \<and>
       list_all2 (\<lambda>i c. compensates (cn_final plan) base effective i c \<and> ci_collection_revision c = ca_revision auth)
         (or_items ord) (cn_items plan))"
proof -
  from assms obtain base effective applied ks items final where
    *: "ca_base auth = Some base" "ca_effective auth = Some effective" "or_status ord = OrderSucceeded"
    "rmap (compensate_item base effective (ca_revision auth) final applied ks) (or_items ord) = Inr items"
    "plan = \<lparr>cn_final = final, cn_items = items\<rparr>"
    by (auto simp: plan_compensation_def rbind_Inr_iff check_Inr split: option.splits prod.splits)
  have "list_all2 (\<lambda>i c. compensates final base effective i c \<and> ci_collection_revision c = ca_revision auth)
      (or_items ord) items"
    using *(4) compensate_item_Inr unfolding rmap_Inr_iff by (elim list_all2_mono) blast
  with * show ?thesis by simp
qed

definition sample_applied_effect :: base_effect where
  "sample_applied_effect =
     \<lparr>be_version = 1, be_collection = ''limits'', be_scope = sample_place, be_previous = 3, be_applied = 4,
      be_changes = [\<lparr>bc_action = ActionAdd, bc_before = None, bc_after = Some sample_target\<rparr>],
      be_overlay = [], be_at = 20, be_by = ''ann''\<rparr>"

definition sample_done_order :: order where
  "sample_done_order =
     sample_order\<lparr>or_status := OrderSucceeded, or_items := [sample_item\<lparr>it_status := ItemApplied\<rparr>],
       or_steps := [(step_of_definition (plain_step ''base-apply'' StepBaseApply))
         \<lparr>ss_effect := Some (base_step_effect sample_applied_effect)\<rparr>]\<rparr>"

definition sample_compensation_authority :: compensation_authority where
  "sample_compensation_authority =
     (let found = (\<lambda>k. if k = ''k'' then Some (sample_target\<lparr>cr_revision := 4\<rparr>) else None)
      in \<lparr>ca_revision = 4, ca_base = Some found, ca_effective = Some found\<rparr>)"

end
