(* ===== verification/Catalog_Model.thy ===== *)
theory Catalog_Model
  imports Catalog_Collection
begin

text \<open>
  Interaction models: \<open>internal/catalog/domain/model.go\<close> and \<open>options.go\<close> (and their copies in
  \<open>internal/distribution/readmodel\<close>). \<open>compile_model\<close> checks an untrusted model against its
  collection, \<open>resolve_select_options\<close> computes the options of a compiled SELECT field. The
  accessors that hand out clones are the record fields themselves.
\<close>

datatype ui_control =
    UIControlInput | UIControlSelect | UIControlTime | UIControlNumber | UIControlBoolean
  | UIControlTextarea | UIControlJSON | UIControlOther string

datatype filter_operator =
    FilterExact | FilterContains | FilterClosedRange | FilterOpenRange | FilterIn | FilterNotIn
  | FilterOther string

datatype option_source_kind = OptionSourceStatic | OptionSourceCollection | OptionSourceOther string

record select_option =
  so_code :: string
  so_label :: string
  so_disabled :: bool

record fixed_filter =
  ff_field :: string
  ff_value :: string

record option_source =
  os_kind :: option_source_kind
  os_static :: "select_option list"
  os_collection :: string
  os_value_field :: string
  os_label_field :: string
  os_filters :: "fixed_filter list"
  os_limit :: int

record model_field =
  mf_name :: string
  mf_type :: field_type
  mf_required :: bool
  mf_sensitive :: bool
  mf_editable :: bool
  mf_queryable :: bool
  mf_default :: "string option"
  mf_control :: ui_control
  mf_operators :: "filter_operator list"
  mf_source :: "option_source option"
  mf_rules :: "validation_rule list"

datatype auto_fill_source =
    AutoFillActorSubject | AutoFillActorName | AutoFillCurrentTime | AutoFillConstant | AutoFillUUID
  | AutoFillOther string

record auto_fill_rule =
  af_field :: string
  af_source :: auto_fill_source
  af_value :: string

record release_type_definition =
  rt_code :: string
  rt_name :: string
  rt_template :: string
  rt_enabled :: bool
  rt_available :: bool
  rt_reason :: string

record model_spec =
  ms_code :: string
  ms_name :: string
  ms_collection :: string
  ms_fields :: "model_field list"
  ms_projection :: "string list"
  ms_key_fields :: "string list"
  ms_default_page :: int
  ms_max_page :: int
  ms_release_types :: "release_type_definition list"
  ms_auto_fill :: "auto_fill_rule list"
  ms_revision :: u64

record compiled_model =
  cm_code :: string
  cm_name :: string
  cm_collection :: string
  cm_fields :: "model_field list"
  cm_projection :: "string list"
  cm_key_fields :: "string list"
  cm_default_page :: int
  cm_max_page :: int
  cm_release_types :: "release_type_definition list"
  cm_auto_fill :: "auto_fill_rule list"
  cm_revision :: u64

section \<open>Option sources\<close>

text \<open>Go's conversion of a length to \<open>int32\<close>.\<close>

definition to_int32 :: "nat \<Rightarrow> int" where
  "to_int32 n = (int n + 2 ^ 31) mod 2 ^ 32 - 2 ^ 31"

definition trim_option :: "select_option \<Rightarrow> select_option" where
  "trim_option o1 = o1\<lparr>so_code := trim_space (so_code o1), so_label := trim_space (so_label o1)\<rparr>"

definition compile_static_option ::
  "select_option list \<Rightarrow> select_option \<Rightarrow> catalog_error + select_option list" where
  "compile_static_option seen raw =
     (let opt = trim_option raw
      in if so_code opt = [] \<or> so_label opt = [] then Inl STR ''STATIC option code and label are required''
         else if so_code opt \<in> so_code ` set seen then Inl STR ''STATIC option code %q is duplicated''
         else Inr (seen @ [opt]))"

definition compile_fixed_filter :: "fixed_filter \<Rightarrow> catalog_error + fixed_filter" where
  "compile_fixed_filter raw =
     (let flt = raw\<lparr>ff_field := trim_space (ff_field raw)\<rparr>
      in if \<not> is_identifier (ff_field flt) then Inl STR ''COLLECTION option fixed filter field is invalid''
         else Inr flt)"

definition compile_option_source :: "option_source \<Rightarrow> catalog_error + option_source" where
  "compile_option_source source =
     (case os_kind source of
        OptionSourceStatic \<Rightarrow>
          if os_static source = [] \<or> os_collection source \<noteq> [] \<or> os_value_field source \<noteq> []
              \<or> os_label_field source \<noteq> [] \<or> os_filters source \<noteq> []
          then Inl STR ''STATIC option source requires only static options''
          else rbind (rfold compile_static_option [] (os_static source)) (\<lambda>options.
               Inr (source\<lparr>os_static := sort_key so_code options, os_limit := to_int32 (length options)\<rparr>))
      | OptionSourceCollection \<Rightarrow>
          (let collection = trim_space (os_collection source);
               value_field = trim_space (os_value_field source);
               label_field = trim_space (os_label_field source)
           in if \<not> is_identifier collection \<or> \<not> is_identifier value_field
                 \<or> \<not> is_identifier label_field \<or> os_static source \<noteq> []
              then Inl STR ''COLLECTION option source identity is invalid''
              else if os_limit source \<le> 0 \<or> 1000 < os_limit source
              then Inl STR ''COLLECTION option limit must be 1..1000''
              else rbind (rmap compile_fixed_filter (os_filters source)) (\<lambda>filters.
                   Inr (source\<lparr>os_collection := collection, os_value_field := value_field,
                               os_label_field := label_field, os_filters := filters\<rparr>)))
      | OptionSourceOther _ \<Rightarrow> Inl STR ''option source kind %q is invalid'')"

section \<open>Fields\<close>

definition valid_ui_control :: "ui_control \<Rightarrow> bool" where
  "valid_ui_control c \<longleftrightarrow> (case c of UIControlOther _ \<Rightarrow> False | _ \<Rightarrow> True)"

definition valid_filter_operator :: "field_type \<Rightarrow> filter_operator \<Rightarrow> bool" where
  "valid_filter_operator ft f \<longleftrightarrow>
     (case f of
        FilterExact \<Rightarrow> True | FilterIn \<Rightarrow> True | FilterNotIn \<Rightarrow> True
      | FilterContains \<Rightarrow> ft = FieldTypeString
      | FilterClosedRange \<Rightarrow> ft = FieldTypeInt64 \<or> ft = FieldTypeFloat64 \<or> ft = FieldTypeTimestamp
      | FilterOpenRange \<Rightarrow> ft = FieldTypeInt64 \<or> ft = FieldTypeFloat64 \<or> ft = FieldTypeTimestamp
      | FilterOther _ \<Rightarrow> False)"

definition same_optional_string :: "string option \<Rightarrow> string option \<Rightarrow> bool" where
  "same_optional_string l r =
     (case (l, r) of (Some a, Some b) \<Rightarrow> a = b | (None, None) \<Rightarrow> True | _ \<Rightarrow> False)"

definition canonical_option ::
  "scalar_lib \<Rightarrow> field_type \<Rightarrow> select_option list \<Rightarrow> select_option \<Rightarrow> catalog_error + select_option list" where
  "canonical_option lib ft seen opt =
     rbind (canonicalize_scalar lib ft (so_code opt)) (\<lambda>code.
     if code \<in> so_code ` set seen then Inl STR ''compile model: field %q repeats canonical option code %q''
     else Inr (seen @ [opt\<lparr>so_code := code\<rparr>]))"

definition canonical_static_options ::
  "scalar_lib \<Rightarrow> field_type \<Rightarrow> option_source \<Rightarrow> catalog_error + option_source" where
  "canonical_static_options lib ft source =
     (if os_kind source = OptionSourceStatic
      then rbind (rfold (canonical_option lib ft) [] (os_static source)) (\<lambda>options.
           Inr (source\<lparr>os_static := sort_key so_code options\<rparr>))
      else Inr source)"

definition compile_select ::
  "scalar_lib \<Rightarrow> model_field \<Rightarrow> catalog_error + option_source option" where
  "compile_select lib field =
     (if mf_control field = UIControlSelect
      then (case mf_source field of
              None \<Rightarrow> Inl STR ''compile model: SELECT field %q requires an option source''
            | Some source \<Rightarrow>
                rbind (compile_option_source source) (\<lambda>compiled.
                rbind (canonical_static_options lib (mf_type field) compiled) (\<lambda>c. Inr (Some c))))
      else if mf_source field \<noteq> None
      then Inl STR ''compile model: non-SELECT field %q has an option source''
      else Inr None)"

definition check_operator ::
  "field_type \<Rightarrow> filter_operator list \<Rightarrow> filter_operator \<Rightarrow> catalog_error + filter_operator list" where
  "check_operator ft seen f =
     (if \<not> valid_filter_operator ft f then Inl STR ''compile model: field %q cannot use filter operator %q''
      else if f \<in> set seen then Inl STR ''compile model: field %q repeats filter operator %q''
      else Inr (seen @ [f]))"

text \<open>One iteration of the loop over the fields; \<open>seen\<close> is the set of their names.\<close>

definition compile_model_field ::
  "scalar_lib \<Rightarrow> (string, field_definition) fmap \<Rightarrow> model_field list \<Rightarrow> model_field
     \<Rightarrow> catalog_error + model_field list" where
  "compile_model_field lib collection_fields seen field =
     (case fmlookup collection_fields (mf_name field) of
        None \<Rightarrow> Inl STR ''compile model: field %q does not exist in collection''
      | Some definition \<Rightarrow>
          if mf_name field \<in> mf_name ` set seen then Inl STR ''compile model: duplicate field %q''
          else rbind (compile_validation_rules lib (mf_type field) (mf_required field) (mf_rules field)) (\<lambda>rules.
            if mf_type field \<noteq> fd_type definition \<or> mf_required field \<noteq> fd_required definition
               \<or> mf_sensitive field \<noteq> fd_sensitive definition
               \<or> \<not> same_optional_string (mf_default field) (fd_default definition)
               \<or> \<not> same_validation_rules rules (fd_rules definition)
            then Inl STR ''compile model: field %q data semantics differ from collection''
            else if \<not> valid_ui_control (mf_control field)
            then Inl STR ''compile model: field %q has invalid UI control %q''
            else if mf_queryable field \<and> mf_operators field = []
            then Inl STR ''compile model: queryable field %q needs allowed filter operators''
            else if \<not> mf_queryable field \<and> mf_operators field \<noteq> []
            then Inl STR ''compile model: non-queryable field %q has filter operators''
            else if mf_sensitive field \<and> mf_queryable field
            then Inl STR ''compile model: sensitive field %q cannot be queryable''
            else rbind (compile_select lib field) (\<lambda>source.
                 rbind (rfold (check_operator (mf_type field)) [] (mf_operators field)) (\<lambda>_.
                 Inr (seen @ [field\<lparr>mf_source := source, mf_rules := rules\<rparr>])))))"

definition check_projection ::
  "(string, field_definition) fmap \<Rightarrow> model_field list \<Rightarrow> string list \<Rightarrow> string \<Rightarrow> catalog_error + string list" where
  "check_projection collection_fields fs seen name =
     (if name |\<notin>| fmdom collection_fields then Inl STR ''compile model: projection field %q does not exist''
      else if name \<notin> mf_name ` set fs
      then Inl STR ''compile model: projection field %q has no model field''
      else if name \<in> set seen then Inl STR ''compile model: duplicate projection field %q''
      else Inr (seen @ [name]))"

section \<open>Release types and auto-fill rules\<close>

definition compile_release_type ::
  "release_type_definition list \<Rightarrow> release_type_definition \<Rightarrow> catalog_error + release_type_definition list" where
  "compile_release_type seen raw =
     (let dt = raw\<lparr>rt_code := trim_space (rt_code raw), rt_name := trim_space (rt_name raw),
                    rt_template := trim_space (rt_template raw), rt_reason := trim_space (rt_reason raw)\<rparr>
      in if \<not> is_identifier (rt_code dt) \<or> \<not> is_identifier (rt_template dt) \<or> rt_name dt = []
         then Inl STR ''compile model: release type %d has invalid identity''
         else if rt_code dt \<in> rt_code ` set seen then Inl STR ''compile model: duplicate release type %q''
         else if rt_available dt \<and> \<not> rt_enabled dt
         then Inl STR ''compile model: disabled release type %q cannot be available''
         else if rt_available dt \<and> rt_reason dt \<noteq> []
         then Inl STR ''compile model: available release type %q has an unavailable reason''
         else Inr (seen @ [dt]))"

definition compile_release_types ::
  "release_type_definition list \<Rightarrow> catalog_error + release_type_definition list" where
  "compile_release_types source = rfold compile_release_type [] source"

text \<open>The switch on the source: the value of the compiled rule.\<close>

definition auto_fill_value ::
  "scalar_lib \<Rightarrow> field_type \<Rightarrow> auto_fill_source \<Rightarrow> string \<Rightarrow> catalog_error + string" where
  "auto_fill_value lib ft source v =
     (case source of
        AutoFillActorSubject \<Rightarrow>
          if ft \<noteq> FieldTypeString \<or> v \<noteq> []
          then Inl STR ''compile model: %s auto-fill requires STRING and no value'' else Inr v
      | AutoFillActorName \<Rightarrow>
          if ft \<noteq> FieldTypeString \<or> v \<noteq> []
          then Inl STR ''compile model: %s auto-fill requires STRING and no value'' else Inr v
      | AutoFillCurrentTime \<Rightarrow>
          if ft \<noteq> FieldTypeTimestamp \<or> v \<noteq> []
          then Inl STR ''compile model: CURRENT_TIME auto-fill requires TIMESTAMP and no value'' else Inr v
      | AutoFillUUID \<Rightarrow>
          if ft \<noteq> FieldTypeString \<or> v \<noteq> []
          then Inl STR ''compile model: UUID auto-fill requires STRING and no value'' else Inr v
      | AutoFillConstant \<Rightarrow> canonicalize_scalar lib ft v
      | AutoFillOther _ \<Rightarrow> Inl STR ''compile model: auto-fill source %q is invalid'')"

definition index_model_fields :: "model_field list \<Rightarrow> (string, model_field) fmap" where
  "index_model_fields fs = fmap_of_list (map (\<lambda>f. (mf_name f, f)) fs)"

definition compile_auto_fill_rule ::
  "scalar_lib \<Rightarrow> (string, model_field) fmap \<Rightarrow> auto_fill_rule list \<Rightarrow> auto_fill_rule
     \<Rightarrow> catalog_error + auto_fill_rule list" where
  "compile_auto_fill_rule lib by_name seen raw =
     (let name = trim_space (af_field raw)
      in case fmlookup by_name name of
           None \<Rightarrow> Inl STR ''compile model: auto-fill field %q is missing''
         | Some field \<Rightarrow>
             if name \<in> af_field ` set seen then Inl STR ''compile model: auto-fill field %q is duplicated''
             else if mf_editable field then Inl STR ''compile model: auto-fill field %q must not be editable''
             else if mf_sensitive field then Inl STR ''compile model: auto-fill field %q must not be sensitive''
             else rbind (auto_fill_value lib (mf_type field) (af_source raw) (af_value raw)) (\<lambda>v.
                  Inr (seen @ [raw\<lparr>af_field := name, af_value := v\<rparr>])))"

definition compile_auto_fill_rules ::
  "scalar_lib \<Rightarrow> model_field list \<Rightarrow> auto_fill_rule list \<Rightarrow> catalog_error + auto_fill_rule list" where
  "compile_auto_fill_rules lib fs source =
     rbind (rfold (compile_auto_fill_rule lib (index_model_fields fs)) [] source) (\<lambda>compiled.
     Inr (sort_key af_field compiled))"

section \<open>Models\<close>

definition compile_model ::
  "scalar_lib \<Rightarrow> collection_definition \<Rightarrow> model_spec \<Rightarrow> catalog_error + compiled_model" where
  "compile_model lib collection spec =
     (let code = trim_space (ms_code spec); collection_fields = index_fields (cd_fields collection)
      in if \<not> is_identifier code then Inl STR ''compile model: code must be an ASCII identifier''
         else if blank (ms_name spec) then Inl STR ''compile model: name is required''
         else if ms_collection spec \<noteq> cd_name collection
         then Inl STR ''compile model: collection %q does not match %q''
         else if ms_fields spec = [] then Inl STR ''compile model: at least one field is required''
         else if ms_default_page spec \<le> 0 \<or> ms_max_page spec < ms_default_page spec
         then Inl STR ''compile model: page sizes are invalid''
         else if ms_revision spec = 0 then Inl STR ''compile model: config revision must be positive''
         else rbind (rfold (compile_model_field lib collection_fields) [] (ms_fields spec)) (\<lambda>fs.
           if ms_projection spec = [] then Inl STR ''compile model: projection fields are required''
           else rbind (rfold (check_projection collection_fields fs) [] (ms_projection spec)) (\<lambda>projection.
           if ms_key_fields spec \<noteq> cd_key_fields collection
           then Inl STR ''compile model: release key fields must match collection key fields in order''
           else rbind (compile_release_types (ms_release_types spec)) (\<lambda>release_types.
                rbind (compile_auto_fill_rules lib fs (ms_auto_fill spec)) (\<lambda>auto_fill.
                Inr \<lparr>cm_code = code, cm_name = ms_name spec, cm_collection = cd_name collection,
                     cm_fields = fs, cm_projection = projection, cm_key_fields = ms_key_fields spec,
                     cm_default_page = ms_default_page spec, cm_max_page = ms_max_page spec,
                     cm_release_types = release_types, cm_auto_fill = auto_fill,
                     cm_revision = ms_revision spec\<rparr>)))))"

section \<open>Resolving the options of a SELECT field\<close>

definition visible_field :: "collection_definition \<Rightarrow> string \<Rightarrow> field_definition option" where
  "visible_field d name =
     (case definition_field d name of None \<Rightarrow> None | Some f \<Rightarrow> if fd_sensitive f then None else Some f)"

definition canonical_filter ::
  "scalar_lib \<Rightarrow> collection_definition \<Rightarrow> fixed_filter \<Rightarrow> catalog_error + fixed_filter" where
  "canonical_filter lib d flt =
     (case visible_field d (ff_field flt) of
        None \<Rightarrow> Inl STR ''option filter field %q is missing or sensitive''
      | Some f \<Rightarrow> rbind (canonicalize_scalar lib (fd_type f) (ff_value flt)) (\<lambda>v.
                  Inr \<lparr>ff_field = ff_field flt, ff_value = v\<rparr>))"

definition matches_filters :: "fixed_filter list \<Rightarrow> config_record \<Rightarrow> bool" where
  "matches_filters filters r \<longleftrightarrow>
     list_all (\<lambda>flt. map_read (deref_map (cr_data r)) (ff_field flt) = ff_value flt) filters"

text \<open>One iteration over the records: the labels collected so far.\<close>

definition collect_label ::
  "option_source \<Rightarrow> fixed_filter list \<Rightarrow> data \<Rightarrow> config_record \<Rightarrow> catalog_error + data" where
  "collect_label source filters labels r =
     (if \<not> matches_filters filters r then Inr labels
      else case (fmlookup (deref_map (cr_data r)) (os_value_field source),
                 fmlookup (deref_map (cr_data r)) (os_label_field source)) of
             (Some code, Some label) \<Rightarrow>
               (case fmlookup labels code of
                  Some previous \<Rightarrow>
                    if previous \<noteq> label then Inl STR ''option code %q has conflicting labels'' else Inr labels
                | None \<Rightarrow> Inr (fmupd code label labels))
           | _ \<Rightarrow> Inl STR ''option record %q lacks value or label'')"

definition resolve_collection_options ::
  "scalar_lib \<Rightarrow> option_source \<Rightarrow> collection_definition \<Rightarrow> config_record list
     \<Rightarrow> catalog_error + select_option list" where
  "resolve_collection_options lib source d records =
     (if visible_field d (os_value_field source) = None
      then Inl STR ''option value field %q is missing or sensitive''
      else if visible_field d (os_label_field source) = None
      then Inl STR ''option label field %q is missing or sensitive''
      else rbind (rmap (canonical_filter lib d) (os_filters source)) (\<lambda>filters.
           rbind (rfold (collect_label source filters) fmempty records) (\<lambda>labels.
           if os_limit source < int (map_len labels) \<or> 1000 < map_len labels
           then Inl STR ''option count %d exceeds limit %d''
           else Inr (map (\<lambda>code. \<lparr>so_code = code, so_label = map_read labels code, so_disabled = False\<rparr>)
                       (sorted_keys labels)))))"

definition resolve_select_options ::
  "scalar_lib \<Rightarrow> option_source \<Rightarrow> collection_definition \<Rightarrow> config_record list
     \<Rightarrow> catalog_error + select_option list" where
  "resolve_select_options lib source d records =
     (case os_kind source of
        OptionSourceStatic \<Rightarrow> Inr (os_static source)
      | OptionSourceCollection \<Rightarrow> resolve_collection_options lib source d records
      | OptionSourceOther _ \<Rightarrow> Inl STR ''unsupported option source kind %q'')"

section \<open>Loops that collect\<close>

text \<open>
  A loop whose iterations append one element each, with a key not seen before: the elements
  correspond to the inputs and their keys are distinct.
\<close>

lemma rfold_collect:
  assumes "rfold f [] xs = Inr ys"
    and "\<And>seen x s. x \<in> set xs \<Longrightarrow> f seen x = Inr s \<Longrightarrow> \<exists>y. s = seen @ [y] \<and> k y \<notin> k ` set seen \<and> R x y"
  shows "list_all2 R xs ys \<and> distinct (map k ys)"
proof -
  have "\<exists>zs. ys = seen @ zs \<and> list_all2 R xs zs \<and> distinct (map k ys)"
    if "rfold f seen xs = Inr ys" "distinct (map k seen)" for seen
    using that assms(2)
  proof (induction xs arbitrary: seen)
    case Nil
    then show ?case by simp
  next
    case (Cons x xs)
    from Cons.prems(1) obtain s where s: "f seen x = Inr s" "rfold f s xs = Inr ys"
      by (auto simp: rbind_Inr_iff)
    obtain y where y: "s = seen @ [y]" "k y \<notin> k ` set seen" "R x y"
      using Cons.prems(3) [OF _ s(1)] by auto
    have "distinct (map k s)" using y Cons.prems(2) by simp
    then obtain zs where "ys = s @ zs" "list_all2 R xs zs" "distinct (map k ys)"
      using Cons.IH [OF s(2)] Cons.prems(3) by auto
    with y show ?case by (intro exI [of _ "y # zs"]) simp
  qed
  from this [of "[]"] assms(1) show ?thesis by auto
qed

lemma list_all2_setD1: "list_all2 R xs ys \<Longrightarrow> x \<in> set xs \<Longrightarrow> \<exists>y \<in> set ys. R x y"
  by (induction rule: list_all2_induct) auto

lemma list_all2_setD2: "list_all2 R xs ys \<Longrightarrow> y \<in> set ys \<Longrightarrow> \<exists>x \<in> set xs. R x y"
  by (induction rule: list_all2_induct) auto

lemma strict_sorted_keys:
  assumes "distinct (map k xs)"
  shows "sorted_wrt (<) (map k (sort_key k xs))"
proof -
  have "distinct (map k (sort_key k xs))"
    using assms by (metis distinct_map distinct_sort inj_on_def set_sort)
  moreover have "sorted (map k (sort_key k xs))" by simp
  ultimately show ?thesis by (simp add: strict_sorted_iff)
qed

section \<open>What a compiled model satisfies\<close>

definition source_compiled :: "scalar_lib \<Rightarrow> field_type \<Rightarrow> option_source \<Rightarrow> bool" where
  "source_compiled lib ft s \<longleftrightarrow>
     (os_kind s = OptionSourceStatic \<and> os_static s \<noteq> [] \<and>
        sorted_wrt (<) (map so_code (os_static s)) \<and>
        (\<forall>opt \<in> set (os_static s). so_label opt \<noteq> [] \<and> (\<exists>raw. canonicalize_scalar lib ft raw = Inr (so_code opt))) \<and>
        os_limit s = to_int32 (length (os_static s)) \<and> os_collection s = [] \<and> os_filters s = []) \<or>
     (os_kind s = OptionSourceCollection \<and> os_static s = [] \<and> is_identifier (os_collection s) \<and>
        is_identifier (os_value_field s) \<and> is_identifier (os_label_field s) \<and>
        0 < os_limit s \<and> os_limit s \<le> 1000 \<and> (\<forall>flt \<in> set (os_filters s). is_identifier (ff_field flt)))"

text \<open>A model field repeats the data semantics of its collection field.\<close>

definition repeats_field :: "model_field \<Rightarrow> field_definition \<Rightarrow> bool" where
  "repeats_field f g \<longleftrightarrow>
     mf_name f = fd_name g \<and> mf_type f = fd_type g \<and> mf_required f = fd_required g \<and>
     mf_sensitive f = fd_sensitive g \<and> mf_default f = fd_default g \<and>
     same_validation_rules (mf_rules f) (fd_rules g)"

definition model_field_compiled :: "scalar_lib \<Rightarrow> model_field \<Rightarrow> bool" where
  "model_field_compiled lib f \<longleftrightarrow>
     valid_ui_control (mf_control f) \<and> (mf_queryable f \<longleftrightarrow> mf_operators f \<noteq> []) \<and>
     \<not> (mf_sensitive f \<and> mf_queryable f) \<and> distinct (mf_operators f) \<and>
     (\<forall>p \<in> set (mf_operators f). valid_filter_operator (mf_type f) p) \<and>
     (case mf_source f of None \<Rightarrow> mf_control f \<noteq> UIControlSelect
      | Some s \<Rightarrow> mf_control f = UIControlSelect \<and> source_compiled lib (mf_type f) s)"

definition release_type_compiled :: "release_type_definition \<Rightarrow> bool" where
  "release_type_compiled t \<longleftrightarrow>
     is_identifier (rt_code t) \<and> is_identifier (rt_template t) \<and> rt_name t \<noteq> [] \<and>
     (rt_available t \<longrightarrow> rt_enabled t \<and> rt_reason t = [])"

text \<open>An auto-filled field is neither editable nor sensitive, and a constant is canonical.\<close>

definition auto_fill_compiled :: "scalar_lib \<Rightarrow> model_field list \<Rightarrow> auto_fill_rule \<Rightarrow> bool" where
  "auto_fill_compiled lib fs a \<longleftrightarrow>
     (\<exists>f \<in> set fs. mf_name f = af_field a \<and> \<not> mf_editable f \<and> \<not> mf_sensitive f \<and>
        (\<exists>raw. auto_fill_value lib (mf_type f) (af_source a) raw = Inr (af_value a)))"

definition model_compiled :: "scalar_lib \<Rightarrow> collection_definition \<Rightarrow> compiled_model \<Rightarrow> bool" where
  "model_compiled lib d m \<longleftrightarrow>
     is_identifier (cm_code m) \<and> \<not> blank (cm_name m) \<and> cm_collection m = cd_name d \<and>
     0 < cm_default_page m \<and> cm_default_page m \<le> cm_max_page m \<and> cm_revision m \<noteq> 0 \<and>
     cm_fields m \<noteq> [] \<and> distinct (map mf_name (cm_fields m)) \<and>
     (\<forall>f \<in> set (cm_fields m). model_field_compiled lib f \<and> (\<exists>g \<in> set (cd_fields d). repeats_field f g)) \<and>
     cm_projection m \<noteq> [] \<and> distinct (cm_projection m) \<and>
     set (cm_projection m) \<subseteq> mf_name ` set (cm_fields m) \<and>
     cm_key_fields m = cd_key_fields d \<and>
     distinct (map rt_code (cm_release_types m)) \<and> (\<forall>t \<in> set (cm_release_types m). release_type_compiled t) \<and>
     sorted_wrt (<) (map af_field (cm_auto_fill m)) \<and>
     (\<forall>a \<in> set (cm_auto_fill m). auto_fill_compiled lib (cm_fields m) a)"

lemma same_optional_string_iff [simp]: "same_optional_string l r \<longleftrightarrow> l = r"
  by (auto simp: same_optional_string_def split: option.splits)

lemma compile_static_options:
  assumes "rfold compile_static_option [] opts = Inr os"
  shows "distinct (map so_code os) \<and> length os = length opts \<and> (\<forall>opt \<in> set os. so_label opt \<noteq> [])"
proof -
  have "list_all2 (\<lambda>raw opt. so_label opt \<noteq> []) opts os \<and> distinct (map so_code os)"
    using assms
    by (rule rfold_collect) (auto simp: compile_static_option_def Let_def split: if_splits)
  then show ?thesis by (auto dest: list_all2_lengthD list_all2_setD2)
qed

lemma canonical_options:
  assumes "rfold (canonical_option lib ft) [] opts = Inr os"
  shows "distinct (map so_code os) \<and> length os = length opts \<and>
    (\<forall>opt \<in> set os. \<exists>old \<in> set opts. so_label opt = so_label old \<and>
       canonicalize_scalar lib ft (so_code old) = Inr (so_code opt))"
proof -
  have "list_all2 (\<lambda>old opt. so_label opt = so_label old \<and>
      canonicalize_scalar lib ft (so_code old) = Inr (so_code opt)) opts os \<and> distinct (map so_code os)"
    using assms
    by (rule rfold_collect) (auto simp: canonical_option_def rbind_Inr_iff split: if_splits)
  then show ?thesis by (auto dest: list_all2_lengthD list_all2_setD2)
qed

lemma compile_select_compiled:
  assumes "compile_select lib f = Inr src"
  shows "case src of None \<Rightarrow> mf_control f \<noteq> UIControlSelect
    | Some s \<Rightarrow> mf_control f = UIControlSelect \<and> source_compiled lib (mf_type f) s"
proof (cases "mf_control f = UIControlSelect")
  case False
  with assms show ?thesis by (auto simp: compile_select_def split: if_splits)
next
  case True
  with assms obtain s0 s1 s2 where s: "compile_option_source s0 = Inr s1"
    "canonical_static_options lib (mf_type f) s1 = Inr s2" "src = Some s2"
    by (auto simp: compile_select_def rbind_Inr_iff split: option.splits)
  show ?thesis
  proof (cases "os_kind s0")
    case OptionSourceStatic
    with s(1) obtain os where os: "rfold compile_static_option [] (os_static s0) = Inr os"
      "s1 = s0\<lparr>os_static := sort_key so_code os, os_limit := to_int32 (length os)\<rparr>"
      "os_static s0 \<noteq> []" "os_collection s0 = []" "os_filters s0 = []"
      by (auto simp: compile_option_source_def rbind_Inr_iff split: if_splits)
    with s(2) OptionSourceStatic obtain cs where
      cs: "rfold (canonical_option lib (mf_type f)) [] (sort_key so_code os) = Inr cs"
        "s2 = s1\<lparr>os_static := sort_key so_code cs\<rparr>"
      by (auto simp: canonical_static_options_def rbind_Inr_iff)
    note a = compile_static_options [OF os(1)] and b = canonical_options [OF cs(1)]
    have "cs \<noteq> []" using a b os(3) by (metis length_0_conv length_sort)
    moreover have "sorted_wrt (<) (map so_code (sort_key so_code cs))"
      using b by (blast intro: strict_sorted_keys)
    moreover have "\<forall>opt \<in> set cs. so_label opt \<noteq> [] \<and> (\<exists>raw. canonicalize_scalar lib (mf_type f) raw = Inr (so_code opt))"
      using a b by (metis set_sort)
    moreover have "length cs = length os" using b by simp
    moreover have "sort_key so_code cs \<noteq> []" using \<open>cs \<noteq> []\<close> by (metis length_0_conv length_sort)
    ultimately have "source_compiled lib (mf_type f) s2"
      using os cs(2) OptionSourceStatic by (simp add: source_compiled_def)
    with True s(3) show ?thesis by simp
  next
    case OptionSourceCollection
    with s(1) obtain fs where "rmap compile_fixed_filter (os_filters s0) = Inr fs"
      "s1 = s0\<lparr>os_collection := trim_space (os_collection s0), os_value_field := trim_space (os_value_field s0),
               os_label_field := trim_space (os_label_field s0), os_filters := fs\<rparr>"
      "is_identifier (trim_space (os_collection s0))" "is_identifier (trim_space (os_value_field s0))"
      "is_identifier (trim_space (os_label_field s0))" "os_static s0 = []" "0 < os_limit s0" "os_limit s0 \<le> 1000"
      by (auto simp: compile_option_source_def rbind_Inr_iff Let_def split: if_splits)
    moreover from this have "is_identifier (ff_field flt)" if "flt \<in> set fs" for flt
      using rmap_in_set [OF _ that] by (fastforce simp: compile_fixed_filter_def Let_def split: if_splits)
    moreover from calculation s(2) OptionSourceCollection have "s2 = s1"
      by (simp add: canonical_static_options_def)
    ultimately have "source_compiled lib (mf_type f) s2"
      using OptionSourceCollection by (simp add: source_compiled_def)
    with True s(3) show ?thesis by simp
  next
    case (OptionSourceOther x)
    with s(1) show ?thesis by (simp add: compile_option_source_def)
  qed
qed

lemma check_operators_Inr:
  assumes "rfold (check_operator ft) [] ps = Inr qs"
  shows "distinct ps \<and> (\<forall>p \<in> set ps. valid_filter_operator ft p)"
proof -
  have "list_all2 (\<lambda>p q. q = p \<and> valid_filter_operator ft p) ps qs \<and> distinct (map (\<lambda>x. x) qs)"
    using assms by (rule rfold_collect) (auto simp: check_operator_def split: if_splits)
  moreover from this have "qs = ps" by (auto simp: list_all2_conv_all_nth intro: nth_equalityI)
  ultimately show ?thesis by (auto dest: list_all2_setD2)
qed

lemma compile_model_field_step:
  assumes "compile_model_field lib (index_fields gs) seen f = Inr s" "distinct (map fd_name gs)"
  shows "\<exists>y. s = seen @ [y] \<and> mf_name y \<notin> mf_name ` set seen \<and>
    (mf_name y = mf_name f \<and> model_field_compiled lib y \<and> (\<exists>g \<in> set gs. repeats_field y g))"
proof -
  obtain g where g: "fmlookup (index_fields gs) (mf_name f) = Some g"
    using assms(1) by (cases "fmlookup (index_fields gs) (mf_name f)") (simp_all add: compile_model_field_def)
  have "mf_name f \<notin> mf_name ` set seen \<and> mf_type f = fd_type g \<and> mf_required f = fd_required g \<and>
      mf_sensitive f = fd_sensitive g \<and> mf_default f = fd_default g \<and> valid_ui_control (mf_control f) \<and>
      (mf_queryable f \<longleftrightarrow> mf_operators f \<noteq> []) \<and> \<not> (mf_sensitive f \<and> mf_queryable f) \<and>
      (\<exists>rules src ps. same_validation_rules rules (fd_rules g) \<and> compile_select lib f = Inr src \<and>
         rfold (check_operator (mf_type f)) [] (mf_operators f) = Inr ps \<and>
         s = seen @ [f\<lparr>mf_source := src, mf_rules := rules\<rparr>])"
    using assms(1) by (simp add: compile_model_field_def g rbind_Inr_iff if_Inl_Inr_iff) blast
  then obtain rules src ps where *:
    "mf_name f \<notin> mf_name ` set seen" "mf_type f = fd_type g" "mf_required f = fd_required g"
    "mf_sensitive f = fd_sensitive g" "mf_default f = fd_default g" "valid_ui_control (mf_control f)"
    "mf_queryable f \<longleftrightarrow> mf_operators f \<noteq> []" "\<not> (mf_sensitive f \<and> mf_queryable f)"
    "same_validation_rules rules (fd_rules g)" and
    src: "compile_select lib f = Inr src" and
    ps: "rfold (check_operator (mf_type f)) [] (mf_operators f) = Inr ps" and
    s: "s = seen @ [f\<lparr>mf_source := src, mf_rules := rules\<rparr>]"
    by blast
  have "g \<in> set gs" "fd_name g = mf_name f"
    using g assms(2) by (simp_all add: index_fields_lookup)
  moreover have "model_field_compiled lib (f\<lparr>mf_source := src, mf_rules := rules\<rparr>)"
    using * check_operators_Inr [OF ps] compile_select_compiled [OF src]
    by (cases src) (simp_all add: model_field_compiled_def)
  moreover from * calculation(2) have "repeats_field (f\<lparr>mf_source := src, mf_rules := rules\<rparr>) g"
    by (simp add: repeats_field_def)
  ultimately show ?thesis using *(1) s
    by (intro exI [of _ "f\<lparr>mf_source := src, mf_rules := rules\<rparr>"] conjI bexI [of _ g]) simp_all
qed

lemma compile_model_fields_compiled:
  assumes "rfold (compile_model_field lib (index_fields gs)) [] specs = Inr fs" "distinct (map fd_name gs)"
  shows "distinct (map mf_name fs) \<and> length fs = length specs \<and>
    (\<forall>f \<in> set fs. model_field_compiled lib f \<and> (\<exists>g \<in> set gs. repeats_field f g))"
proof -
  have "list_all2 (\<lambda>f y. mf_name y = mf_name f \<and> model_field_compiled lib y \<and> (\<exists>g \<in> set gs. repeats_field y g)) specs fs
      \<and> distinct (map mf_name fs)"
    using assms(1) by (rule rfold_collect) (rule compile_model_field_step [OF _ assms(2)])
  then show ?thesis by (auto dest: list_all2_setD2 list_all2_lengthD)
qed

lemma check_projection_Inr:
  assumes "rfold (check_projection cf fs) [] names = Inr ps"
  shows "ps = names \<and> distinct names \<and> set names \<subseteq> mf_name ` set fs"
proof -
  have "list_all2 (\<lambda>p q. q = p \<and> p \<in> mf_name ` set fs) names ps \<and> distinct (map (\<lambda>x. x) ps)"
    using assms by (rule rfold_collect) (auto simp: check_projection_def split: if_splits)
  moreover from this have "ps = names" by (auto simp: list_all2_conv_all_nth intro: nth_equalityI)
  ultimately show ?thesis by (auto dest: list_all2_setD2)
qed

lemma compile_release_types_compiled:
  assumes "compile_release_types source = Inr ts"
  shows "distinct (map rt_code ts) \<and> (\<forall>t \<in> set ts. release_type_compiled t)"
proof -
  have "list_all2 (\<lambda>_. release_type_compiled) source ts \<and> distinct (map rt_code ts)"
    using assms unfolding compile_release_types_def
    by (rule rfold_collect)
      (auto simp: compile_release_type_def Let_def release_type_compiled_def split: if_splits)
  then show ?thesis by (auto dest: list_all2_setD2)
qed

lemma compile_auto_fill_rules_compiled:
  assumes "compile_auto_fill_rules lib fs source = Inr rules"
  shows "sorted_wrt (<) (map af_field rules) \<and> (\<forall>a \<in> set rules. auto_fill_compiled lib fs a)"
proof -
  from assms obtain as where as: "rfold (compile_auto_fill_rule lib (index_model_fields fs)) [] source = Inr as"
    "rules = sort_key af_field as" by (auto simp: compile_auto_fill_rules_def rbind_Inr_iff)
  have in_set: "f \<in> set fs \<and> mf_name f = n" if "fmlookup (index_model_fields fs) n = Some f" for f n
    using that by (auto simp: index_model_fields_def fmap_of_list.rep_eq dest!: map_of_SomeD)
  have "list_all2 (\<lambda>_. auto_fill_compiled lib fs) source as \<and> distinct (map af_field as)"
    using as(1)
  proof (rule rfold_collect)
    fix seen x s assume "compile_auto_fill_rule lib (index_model_fields fs) seen x = Inr s"
    then obtain f v where "fmlookup (index_model_fields fs) (trim_space (af_field x)) = Some f"
      "trim_space (af_field x) \<notin> af_field ` set seen" "\<not> mf_editable f" "\<not> mf_sensitive f"
      "auto_fill_value lib (mf_type f) (af_source x) (af_value x) = Inr v"
      "s = seen @ [x\<lparr>af_field := trim_space (af_field x), af_value := v\<rparr>]"
      by (auto simp: compile_auto_fill_rule_def Let_def rbind_Inr_iff split: option.splits if_splits)
    with in_set show "\<exists>y. s = seen @ [y] \<and> af_field y \<notin> af_field ` set seen \<and> auto_fill_compiled lib fs y"
      by (intro exI [of _ "x\<lparr>af_field := trim_space (af_field x), af_value := v\<rparr>"])
        (auto simp: auto_fill_compiled_def)
  qed
  with as(2) show ?thesis by (auto intro: strict_sorted_keys dest: list_all2_setD2)
qed

lemma compile_model_compiled:
  assumes "collection_compiled lib d" "compile_model lib d spec = Inr m"
  shows "model_compiled lib d m"
proof -
  let ?cf = "index_fields (cd_fields d)"
  from assms(2) obtain fs ps ts as where *:
    "is_identifier (trim_space (ms_code spec))" "\<not> blank (ms_name spec)" "ms_fields spec \<noteq> []"
    "0 < ms_default_page spec" "ms_default_page spec \<le> ms_max_page spec" "ms_revision spec \<noteq> 0"
    "rfold (compile_model_field lib ?cf) [] (ms_fields spec) = Inr fs" "ms_projection spec \<noteq> []"
    "rfold (check_projection ?cf fs) [] (ms_projection spec) = Inr ps"
    "ms_key_fields spec = cd_key_fields d" "compile_release_types (ms_release_types spec) = Inr ts"
    "compile_auto_fill_rules lib fs (ms_auto_fill spec) = Inr as"
    "m = \<lparr>cm_code = trim_space (ms_code spec), cm_name = ms_name spec, cm_collection = cd_name d,
          cm_fields = fs, cm_projection = ps, cm_key_fields = cd_key_fields d,
          cm_default_page = ms_default_page spec, cm_max_page = ms_max_page spec,
          cm_release_types = ts, cm_auto_fill = as, cm_revision = ms_revision spec\<rparr>"
    by (auto simp: compile_model_def Let_def rbind_Inr_iff not_le not_less split: if_splits)
  have d: "distinct (map fd_name (cd_fields d))" using assms(1) by (simp add: collection_compiled_def)
  note f = compile_model_fields_compiled [OF *(7) d] and p = check_projection_Inr [OF *(9)]
  have "fs \<noteq> []" using f *(3) by auto
  moreover have "distinct ps" "set ps \<subseteq> mf_name ` set fs" "ps \<noteq> []" using p *(8) by simp_all
  moreover note compile_release_types_compiled [OF *(11)] compile_auto_fill_rules_compiled [OF *(12)]
  ultimately show ?thesis unfolding model_compiled_def *(13) using *(1-6) f by simp
qed

section \<open>What the resolved options are\<close>

text \<open>The value and label of the records that pass the filters, and that both are present.\<close>

definition option_entries ::
  "option_source \<Rightarrow> fixed_filter list \<Rightarrow> config_record list \<Rightarrow> (string \<times> string) set" where
  "option_entries source filters records =
     {(c, l). \<exists>r \<in> set records. matches_filters filters r \<and>
        fmlookup (deref_map (cr_data r)) (os_value_field source) = Some c \<and>
        fmlookup (deref_map (cr_data r)) (os_label_field source) = Some l}"

definition entries_complete :: "option_source \<Rightarrow> fixed_filter list \<Rightarrow> config_record list \<Rightarrow> bool" where
  "entries_complete source filters records \<longleftrightarrow>
     (\<forall>r \<in> set records. matches_filters filters r \<longrightarrow>
        fmlookup (deref_map (cr_data r)) (os_value_field source) \<noteq> None \<and>
        fmlookup (deref_map (cr_data r)) (os_label_field source) \<noteq> None)"

definition map_graph :: "('k, 'v) fmap \<Rightarrow> ('k \<times> 'v) set" where
  "map_graph m = {(k, v). fmlookup m k = Some v}"

lemma map_graph_simps:
  "map_graph fmempty = {}"
  "fmlookup m k = None \<Longrightarrow> map_graph (fmupd k v m) = insert (k, v) (map_graph m)"
  "fmlookup m k = Some v \<Longrightarrow> insert (k, v) (map_graph m) = map_graph m"
  by (auto simp: map_graph_def split: if_splits)

lemma single_valued_map_graph: "single_valued (map_graph m)"
  by (simp add: single_valued_def map_graph_def)

lemma option_entries_Cons:
  "option_entries src fs (r # rs) = option_entries src fs [r] \<union> option_entries src fs rs"
  by (auto simp: option_entries_def)

lemma collect_label_Inr:
  assumes "collect_label src fs m r = Inr m'"
  shows "entries_complete src fs [r] \<and> map_graph m' = map_graph m \<union> option_entries src fs [r]"
proof (cases "matches_filters fs r")
  case False
  with assms show ?thesis by (simp add: collect_label_def option_entries_def entries_complete_def)
next
  case True
  with assms obtain c l where cl:
    "fmlookup (deref_map (cr_data r)) (os_value_field src) = Some c"
    "fmlookup (deref_map (cr_data r)) (os_label_field src) = Some l"
    by (auto simp: collect_label_def split: option.splits)
  have e: "option_entries src fs [r] = {(c, l)}" "entries_complete src fs [r]"
    using True cl by (auto simp: option_entries_def entries_complete_def)
  from assms True cl have "map_graph m' = insert (c, l) (map_graph m)"
    by (auto simp: collect_label_def map_graph_simps split: option.splits if_splits)
  with e show ?thesis by simp
qed

lemma collect_label_total:
  assumes "entries_complete src fs [r]" "single_valued (map_graph m \<union> option_entries src fs [r])"
  shows "\<exists>m'. collect_label src fs m r = Inr m'"
proof (cases "matches_filters fs r")
  case False
  then show ?thesis by (simp add: collect_label_def)
next
  case True
  with assms(1) obtain c l where cl:
    "fmlookup (deref_map (cr_data r)) (os_value_field src) = Some c"
    "fmlookup (deref_map (cr_data r)) (os_label_field src) = Some l"
    by (auto simp: entries_complete_def)
  with True have "(c, l) \<in> option_entries src fs [r]" by (auto simp: option_entries_def)
  with assms(2) have "l = p" if "fmlookup m c = Some p" for p
    using that by (auto simp: single_valued_def map_graph_def)
  with True cl show ?thesis by (auto simp: collect_label_def split: option.splits)
qed

lemma collect_labels_Inr:
  assumes "rfold (collect_label src fs) m rs = Inr m'"
  shows "entries_complete src fs rs \<and> map_graph m' = map_graph m \<union> option_entries src fs rs"
  using assms
proof (induction rs arbitrary: m)
  case Nil
  then show ?case by (simp add: entries_complete_def option_entries_def)
next
  case (Cons r rs)
  from Cons.prems obtain n where n: "collect_label src fs m r = Inr n" "rfold (collect_label src fs) n rs = Inr m'"
    by (auto simp: rbind_Inr_iff)
  have "entries_complete src fs [r]" "map_graph n = map_graph m \<union> option_entries src fs [r]"
    using n(1) by (simp_all add: collect_label_Inr)
  with Cons.IH [OF n(2)] show ?case
    by (subst option_entries_Cons) (auto simp: entries_complete_def)
qed

lemma collect_labels_total:
  assumes "entries_complete src fs rs" "single_valued (map_graph m \<union> option_entries src fs rs)"
  shows "\<exists>m'. rfold (collect_label src fs) m rs = Inr m'"
  using assms
proof (induction rs arbitrary: m)
  case (Cons r rs)
  have sv: "single_valued (map_graph m \<union> option_entries src fs [r])"
    by (rule single_valued_subset [OF _ Cons.prems(2)]) (subst (2) option_entries_Cons, blast)
  have c: "entries_complete src fs [r]" "entries_complete src fs rs"
    using Cons.prems(1) by (simp_all add: entries_complete_def)
  obtain n where n: "collect_label src fs m r = Inr n"
    using collect_label_total [OF c(1) sv] by blast
  then have "map_graph n = map_graph m \<union> option_entries src fs [r]" by (simp add: collect_label_Inr)
  then have "map_graph n \<union> option_entries src fs rs = map_graph m \<union> option_entries src fs (r # rs)"
    by (subst option_entries_Cons) blast
  with Cons.IH [OF c(2), of n] Cons.prems(2) n show ?case by simp
qed simp

text \<open>The options of a map from codes to labels, in the order of the codes.\<close>

definition label_options :: "data \<Rightarrow> select_option list" where
  "label_options labels =
     map (\<lambda>code. \<lparr>so_code = code, so_label = map_read labels code, so_disabled = False\<rparr>) (sorted_keys labels)"

definition option_pair :: "select_option \<Rightarrow> string \<times> string" where
  "option_pair opt = (so_code opt, so_label opt)"

lemma label_options_facts:
  "sorted_wrt (<) (map so_code (label_options m))"
  "\<forall>opt \<in> set (label_options m). \<not> so_disabled opt"
  "option_pair ` set (label_options m) = map_graph m"
  "length (label_options m) = map_len m"
proof -
  show "sorted_wrt (<) (map so_code (label_options m))"
    using sorted_keys_sorted [of m] by (simp add: label_options_def comp_def strict_sorted_iff)
  show "\<forall>opt \<in> set (label_options m). \<not> so_disabled opt" by (simp add: label_options_def)
  show "option_pair ` set (label_options m) = map_graph m"
    by (force simp: label_options_def option_pair_def map_graph_def map_read_def image_iff fmlookup_dom_iff
      split: option.splits)
  show "length (label_options m) = map_len m"
    using distinct_card [OF sorted_keys_sorted(2) [of m]]
    by (simp add: label_options_def map_len_def fcard.rep_eq)
qed

lemma strict_options_unique:
  assumes "sorted_wrt (<) (map so_code xs)" "sorted_wrt (<) (map so_code ys)"
    and "option_pair ` set xs = option_pair ` set ys"
    and "\<forall>opt \<in> set xs. \<not> so_disabled opt" "\<forall>opt \<in> set ys. \<not> so_disabled opt"
  shows "xs = ys"
proof -
  have eq: "x = y" if "option_pair x = option_pair y" "x \<in> set xs \<union> set ys" "y \<in> set xs \<union> set ys" for x y
    using that assms(4,5) by (cases x; cases y) (auto simp: option_pair_def)
  then have "set xs = set ys" using assms(3) by (blast elim: equalityE)
  moreover have "map so_code xs = map so_code ys"
    using assms(1,2) calculation by (intro sorted_distinct_set_unique) (simp_all add: strict_sorted_iff)
  moreover have "inj_on so_code (set xs)"
    using assms(1) by (simp add: strict_sorted_iff distinct_map)
  ultimately show ?thesis by (metis Un_absorb inj_on_map_eq_map map_inj_on)
qed

lemma resolve_collection_options_iff:
  "resolve_collection_options lib src d records = Inr opts \<longleftrightarrow>
     visible_field d (os_value_field src) \<noteq> None \<and> visible_field d (os_label_field src) \<noteq> None \<and>
     (\<exists>filters. rmap (canonical_filter lib d) (os_filters src) = Inr filters \<and>
        entries_complete src filters records \<and>
        sorted_wrt (<) (map so_code opts) \<and> (\<forall>opt \<in> set opts. \<not> so_disabled opt) \<and>
        option_pair ` set opts = option_entries src filters records \<and>
        int (length opts) \<le> os_limit src \<and> length opts \<le> 1000)"
    (is "?L \<longleftrightarrow> ?R")
proof
  assume ?L
  then obtain filters m where *: "visible_field d (os_value_field src) \<noteq> None"
    "visible_field d (os_label_field src) \<noteq> None"
    "rmap (canonical_filter lib d) (os_filters src) = Inr filters"
    "rfold (collect_label src filters) fmempty records = Inr m"
    "int (map_len m) \<le> os_limit src" "map_len m \<le> 1000" "opts = label_options m"
    by (auto simp: resolve_collection_options_def rbind_Inr_iff label_options_def not_less split: if_splits)
  have "entries_complete src filters records" "map_graph m = option_entries src filters records"
    using collect_labels_Inr [OF *(4)] by (simp_all add: map_graph_simps)
  then have "entries_complete src filters records \<and>
      sorted_wrt (<) (map so_code opts) \<and> (\<forall>opt \<in> set opts. \<not> so_disabled opt) \<and>
      option_pair ` set opts = option_entries src filters records \<and>
      int (length opts) \<le> os_limit src \<and> length opts \<le> 1000"
    using *(5-7) label_options_facts by metis
  with *(1-3) show ?R by blast
next
  assume ?R
  then obtain filters where *: "visible_field d (os_value_field src) \<noteq> None"
    "visible_field d (os_label_field src) \<noteq> None"
    "rmap (canonical_filter lib d) (os_filters src) = Inr filters"
    "entries_complete src filters records" "sorted_wrt (<) (map so_code opts)"
    "\<forall>opt \<in> set opts. \<not> so_disabled opt" "option_pair ` set opts = option_entries src filters records"
    "int (length opts) \<le> os_limit src" "length opts \<le> 1000"
    by blast
  have "inj_on so_code (set opts)" using *(5) by (simp add: strict_sorted_iff distinct_map)
  then have "single_valued (option_pair ` set opts)"
    by (auto simp: single_valued_def option_pair_def inj_on_def)
  then obtain m where m: "rfold (collect_label src filters) fmempty records = Inr m"
    using collect_labels_total [OF *(4), of fmempty] *(7) by (auto simp: map_graph_simps)
  have "map_graph m = option_entries src filters records"
    using collect_labels_Inr [OF m] by (simp add: map_graph_simps)
  then have "opts = label_options m"
    using *(5-7) label_options_facts [of m] by (intro strict_options_unique) simp_all
  then have "resolve_collection_options lib src d records = Inr (label_options m)"
    using *(1-3,8,9) m label_options_facts(4) [of m]
    by (simp add: resolve_collection_options_def label_options_def not_less del: not_None_eq)
  with \<open>opts = label_options m\<close> show ?L by simp
qed

end
