(* ===== verification/Model_Properties.thy ===== *)
theory Model_Properties
  imports Catalog_Properties Catalog_Model
begin

text \<open>
  The claims about interaction models and the options of SELECT fields
  (\<open>internal/catalog/domain/model.go\<close>, \<open>options.go\<close>).
\<close>

section \<open>A sample model\<close>

definition sample_model_field :: "string \<Rightarrow> field_type \<Rightarrow> bool \<Rightarrow> model_field" where
  "sample_model_field name ft required =
     \<lparr>mf_name = name, mf_type = ft, mf_required = required, mf_sensitive = False, mf_editable = True,
      mf_queryable = True, mf_default = None, mf_control = UIControlInput, mf_operators = [FilterExact],
      mf_source = None, mf_rules = []\<rparr>"

definition sample_source :: "string \<Rightarrow> option_source" where
  "sample_source collection =
     \<lparr>os_kind = OptionSourceCollection, os_static = [], os_collection = collection, os_value_field = ''code'',
      os_label_field = ''amount'', os_filters = [], os_limit = 10\<rparr>"

definition sample_model_spec :: model_spec where
  "sample_model_spec =
     \<lparr>ms_code = ''limit_editor '', ms_name = ''Limits'', ms_collection = ''limits'',
      ms_fields = [(sample_model_field ''code'' FieldTypeString True)
                     \<lparr>mf_control := UIControlSelect, mf_source := Some (sample_source ''limits'')\<rparr>,
                   (sample_model_field ''amount'' FieldTypeInt64 False)\<lparr>mf_editable := False\<rparr>],
      ms_projection = [''amount''], ms_key_fields = [''code''], ms_default_page = 20, ms_max_page = 100,
      ms_release_types = [\<lparr>rt_code = ''std'', rt_name = ''Standard'', rt_template = ''std_v1'',
                           rt_enabled = True, rt_available = True, rt_reason = []\<rparr>],
      ms_auto_fill = [\<lparr>af_field = ''amount'', af_source = AutoFillConstant, af_value = ''+05''\<rparr>],
      ms_revision = 4\<rparr>"

definition sample_model :: compiled_model where
  "sample_model = projr (compile_model sample_lib sample_collection sample_model_spec)"

lemma sample_model_compiles: "compile_model sample_lib sample_collection sample_model_spec = Inr sample_model"
proof -
  have "is_ok (compile_model sample_lib sample_collection sample_model_spec)" by code_simp
  then show ?thesis by (auto simp: sample_model_def is_ok_iff)
qed

section \<open>Models\<close>

text \<open>
  Every accepted model specification compiles to a well-formed model of its collection: its
  fields have distinct names and repeat the data semantics of declared fields, operators fit
  the types, no sensitive field is queryable, SELECT fields and only they have a compiled option
  source with distinct canonical codes, projections and release types are distinct, keys are the
  keys of the collection and auto-fill rules cover distinct fields nobody edits.
\<close>

lemma compile_model_well_formed:
  assumes "compile_collection lib cspec = Inr d" "compile_model lib d spec = Inr m"
  shows "model_compiled lib d m"
  using compile_model_compiled [OF compile_collection_compiled [OF assms(1)] assms(2)] .

section \<open>Options\<close>

text \<open>
  The options of a SELECT field are exactly the codes and labels of the records that pass its
  canonical filters, each code once and in ascending order; they are refused exactly when a
  field of the source is missing or sensitive, a filter is not canonical, a record lacks a
  value or label, a code has two labels, or there are more than the limit or a thousand.
\<close>

lemma resolve_options_exact:
  "resolve_collection_options lib src d records = Inr opts \<longleftrightarrow>
     visible_field d (os_value_field src) \<noteq> None \<and> visible_field d (os_label_field src) \<noteq> None \<and>
     (\<exists>filters. rmap (canonical_filter lib d) (os_filters src) = Inr filters \<and>
        entries_complete src filters records \<and>
        sorted_wrt (<) (map so_code opts) \<and> list_all (\<lambda>opt. \<not> so_disabled opt) opts \<and>
        option_pair ` set opts = option_entries src filters records \<and>
        int (length opts) \<le> os_limit src \<and> length opts \<le> 1000)"
  unfolding resolve_collection_options_iff list_all_iff ..

end
