(* ===== verification/Snapshot_Build.thy ===== *)
theory Snapshot_Build
  imports Catalog_Model Overlay_Evaluate
begin

text \<open>
  Building a snapshot: \<open>buildSnapshot\<close>, \<open>validateOptionDependencies\<close> and the read operations of
  \<open>internal/distribution/snapshot/manager.go\<close>. A snapshot holds, for one environment, every
  collection with its canonical records, their digest and the overlay rules, the models, and
  the collections each consumer may read. The packages \<open>readmodel\<close> and \<open>overlay\<close> it uses repeat
  the catalog and overlay domains, so their theories serve both.
\<close>

record identity_seed =
  is_epoch :: string
  is_server :: string
  is_snapshot :: string

record snapshot_identity =
  id_epoch :: string
  id_server :: string
  id_snapshot :: string
  id_generation :: u64
  id_published :: gotime

record collection_input =
  ci_definition :: collection_definition
  ci_models :: "compiled_model list"
  ci_consumers :: "string list"
  ci_version :: u64
  ci_cursor :: u64
  ci_records :: "config_record list"
  ci_rules :: "overlay_rule list"

record collection_view =
  cv_definition :: collection_definition
  cv_version :: u64
  cv_cursor :: u64
  cv_digest :: digest
  cv_records :: "(string, config_record) fmap"
  cv_ordered :: "string list"
  cv_rules :: "overlay_rule list"
  cv_consumers :: "string list"

record snapshot =
  sn_identity :: snapshot_identity
  sn_environment :: string
  sn_collections :: "(string, collection_view) fmap"
  sn_models :: "(string, compiled_model) fmap"
  sn_authorized :: "(string, string list) fmap"

section \<open>Building a collection view\<close>

text \<open>\<open>cloneRecord\<close> and \<open>cloneOverlayRule\<close>; the clone of a nil map is an empty one.\<close>

definition clone_snapshot_record :: "config_record \<Rightarrow> config_record" where
  "clone_snapshot_record r = r\<lparr>cr_data := clone_data (cr_data r)\<rparr>"

definition clone_overlay_rule :: "overlay_rule \<Rightarrow> overlay_rule" where
  "clone_overlay_rule rule = rule\<lparr>ru_content := clone_data (ru_content rule)\<rparr>"

text \<open>One iteration over the records of an input: the map and the order of the keys.\<close>

definition add_snapshot_record ::
  "scalar_lib \<Rightarrow> collection_definition \<Rightarrow> string \<Rightarrow> u64 \<Rightarrow> (string, config_record) fmap \<times> string list
     \<Rightarrow> config_record \<Rightarrow> catalog_error + (string, config_record) fmap \<times> string list" where
  "add_snapshot_record lib d env version acc r =
     (if cr_collection r \<noteq> cd_name d \<or> cr_environment r \<noteq> env \<or> cr_revision r = 0 \<or> version < cr_revision r
      then Inl STR ''build snapshot: record %q identity or revision is invalid''
      else rbind (new_record lib d env (deref_map (cr_data r))) (\<lambda>canonical.
        if cr_key canonical \<noteq> cr_key r
        then Inl STR ''build snapshot: record key %q does not match canonical key %q''
        else if cr_key r |\<in>| fmdom (fst acc) then Inl STR ''build snapshot: duplicate record key %q''
        else Inr (fmupd (cr_key canonical) (canonical\<lparr>cr_revision := cr_revision r\<rparr>) (fst acc),
                  snd acc @ [cr_key canonical])))"

definition add_snapshot_rule ::
  "string \<Rightarrow> string \<Rightarrow> u64 \<Rightarrow> overlay_rule \<Rightarrow> catalog_error + overlay_rule" where
  "add_snapshot_rule name env version rule =
     (if ru_collection rule \<noteq> name \<or> sc_environment (ru_scope rule) \<noteq> env \<or> ru_revision rule = 0
         \<or> version < ru_revision rule
      then Inl STR ''build snapshot: overlay rule %q identity or revision is invalid''
      else Inr (clone_overlay_rule rule))"

definition read_list :: "(string, 'a list) fmap \<Rightarrow> string \<Rightarrow> 'a list" where
  "read_list m k = (case fmlookup m k of None \<Rightarrow> [] | Some xs \<Rightarrow> xs)"

text \<open>One iteration over the subscribed consumers: those of the view, and the authorizations.\<close>

definition add_consumer ::
  "string \<Rightarrow> bool \<Rightarrow> string list \<times> (string, string list) fmap \<Rightarrow> string
     \<Rightarrow> catalog_error + string list \<times> (string, string list) fmap" where
  "add_consumer name deliver acc raw =
     (let consumer = trim_space raw
      in if consumer = [] then Inl STR ''build snapshot: collection %q has an empty subscribed consumer''
         else if consumer \<in> set (fst acc)
         then Inl STR ''build snapshot: collection %q has duplicate subscribed consumer %q''
         else Inr (fst acc @ [consumer],
                   if deliver then fmupd consumer (read_list (snd acc) consumer @ [name]) (snd acc) else snd acc))"

definition add_snapshot_model ::
  "string \<Rightarrow> (string, compiled_model) fmap \<Rightarrow> compiled_model
     \<Rightarrow> catalog_error + (string, compiled_model) fmap" where
  "add_snapshot_model name models m =
     (if cm_collection m \<noteq> name then Inl STR ''build snapshot: model %q points to another collection''
      else if cm_code m |\<in>| fmdom models then Inl STR ''build snapshot: duplicate model %q''
      else Inr (fmupd (cm_code m) m models))"

definition view_records :: "collection_view \<Rightarrow> config_record list" where
  "view_records v = map (\<lambda>k. the (fmlookup (cv_records v) k)) (cv_ordered v)"

text \<open>The part of the loop body that fills the view, up to its consumers.\<close>

definition build_view ::
  "scalar_lib \<Rightarrow> string \<Rightarrow> collection_input \<Rightarrow> catalog_error + collection_view" where
  "build_view lib env input =
     rbind (rfold (add_snapshot_record lib (ci_definition input) env (ci_version input)) (fmempty, []) (ci_records input))
       (\<lambda>(records, unsorted).
     (let view = \<lparr>cv_definition = ci_definition input, cv_version = ci_version input, cv_cursor = ci_cursor input,
                  cv_digest = \<lparr>dg_algorithm = [], dg_value = []\<rparr>, cv_records = records,
                  cv_ordered = sort unsorted, cv_rules = [], cv_consumers = []\<rparr>
      in rbind (compute_base_digest (view_records view)) (\<lambda>dg.
         rbind (rmap (add_snapshot_rule (cd_name (ci_definition input)) env (ci_version input)) (ci_rules input)) (\<lambda>rules.
         Inr (view\<lparr>cv_digest := dg, cv_rules := rules\<rparr>)))))"

text \<open>One iteration over the inputs of a candidate snapshot.\<close>

definition add_collection ::
  "scalar_lib \<Rightarrow> string \<Rightarrow> snapshot \<Rightarrow> collection_input \<Rightarrow> catalog_error + snapshot" where
  "add_collection lib env candidate input =
     (let name = cd_name (ci_definition input)
      in if name = [] \<or> ci_version input = 0
         then Inl STR ''build snapshot: collection identity and positive version are required''
         else if name |\<in>| fmdom (sn_collections candidate) then Inl STR ''build snapshot: duplicate collection %q''
         else rbind (build_view lib env input) (\<lambda>view.
              rbind (rfold (add_consumer name (cd_sdk_delivery (ci_definition input)))
                       ([], sn_authorized candidate) (ci_consumers input)) (\<lambda>(consumers, authorized).
              rbind (rfold (add_snapshot_model name) (sn_models candidate) (ci_models input)) (\<lambda>models.
              Inr (candidate\<lparr>
                sn_collections := fmupd name (view\<lparr>cv_consumers := sort consumers\<rparr>) (sn_collections candidate),
                sn_authorized := authorized, sn_models := models\<rparr>)))))"

section \<open>Option dependencies\<close>

definition check_option_source ::
  "scalar_lib \<Rightarrow> (string, collection_view) fmap \<Rightarrow> option_source \<Rightarrow> catalog_error + unit" where
  "check_option_source lib collections source =
     (case fmlookup collections (os_collection source) of
        None \<Rightarrow> Inl STR ''build snapshot: model %q option collection %q is missing''
      | Some view \<Rightarrow>
          if visible_field (cv_definition view) (os_value_field source) = None
             \<or> visible_field (cv_definition view) (os_label_field source) = None
          then Inl STR ''build snapshot: model %q option field %q is missing or sensitive''
          else rfold (\<lambda>_ flt.
                 case visible_field (cv_definition view) (ff_field flt) of
                   None \<Rightarrow> Inl STR ''build snapshot: model %q option filter %q is missing or sensitive''
                 | Some f \<Rightarrow> rbind (canonicalize_scalar lib (fd_type f) (ff_value flt)) (\<lambda>_. Inr ()))
               () (os_filters source))"

definition check_model_field ::
  "scalar_lib \<Rightarrow> (string, collection_view) fmap \<Rightarrow> unit \<Rightarrow> model_field \<Rightarrow> catalog_error + unit" where
  "check_model_field lib collections u f =
     (case mf_source f of
        None \<Rightarrow> Inr ()
      | Some source \<Rightarrow> if os_kind source \<noteq> OptionSourceCollection then Inr ()
                       else check_option_source lib collections source)"

definition validate_option_dependencies :: "scalar_lib \<Rightarrow> snapshot \<Rightarrow> catalog_error + unit" where
  "validate_option_dependencies lib s =
     rfold (\<lambda>_ m. rfold (check_model_field lib (sn_collections s)) () (cm_fields m)) () (sorted_values (sn_models s))"

section \<open>Snapshots\<close>

definition make_identity :: "identity_seed \<Rightarrow> u64 \<Rightarrow> gotime \<Rightarrow> snapshot_identity" where
  "make_identity seed generation published =
     \<lparr>id_epoch = is_epoch seed, id_server = is_server seed, id_snapshot = is_snapshot seed,
      id_generation = generation, id_published = published\<rparr>"

definition empty_snapshot :: "snapshot_identity \<Rightarrow> string \<Rightarrow> snapshot" where
  "empty_snapshot i env =
     \<lparr>sn_identity = i, sn_environment = env, sn_collections = fmempty, sn_models = fmempty,
      sn_authorized = fmempty\<rparr>"

definition build_snapshot ::
  "scalar_lib \<Rightarrow> identity_seed \<Rightarrow> u64 \<Rightarrow> gotime \<Rightarrow> string \<Rightarrow> collection_input list \<Rightarrow> catalog_error + snapshot" where
  "build_snapshot lib seed generation published env inputs =
     rbind (rfold (add_collection lib env) (empty_snapshot (make_identity seed generation published) env) inputs)
       (\<lambda>candidate.
     (let sorted = candidate\<lparr>sn_authorized := fmmap sort (sn_authorized candidate)\<rparr>
      in rbind (validate_option_dependencies lib sorted) (\<lambda>_. Inr sorted)))"

section \<open>Reading a snapshot\<close>

definition collection_names :: "snapshot \<Rightarrow> string list" where
  "collection_names s = sorted_keys (sn_collections s)"

definition snapshot_record :: "snapshot \<Rightarrow> string \<Rightarrow> string \<Rightarrow> config_record option" where
  "snapshot_record s collection key =
     (case fmlookup (sn_collections s) collection of
        None \<Rightarrow> None
      | Some v \<Rightarrow> map_option clone_snapshot_record (fmlookup (cv_records v) key))"

definition snapshot_records :: "snapshot \<Rightarrow> string \<Rightarrow> config_record list" where
  "snapshot_records s collection =
     (case fmlookup (sn_collections s) collection of
        None \<Rightarrow> [] | Some v \<Rightarrow> map clone_snapshot_record (view_records v))"

definition snapshot_rules :: "snapshot \<Rightarrow> string \<Rightarrow> overlay_rule list" where
  "snapshot_rules s collection =
     (case fmlookup (sn_collections s) collection of
        None \<Rightarrow> [] | Some v \<Rightarrow> map clone_overlay_rule (cv_rules v))"

definition authorized_collections :: "snapshot \<Rightarrow> string \<Rightarrow> catalog_error + string list" where
  "authorized_collections s raw =
     (let consumer = trim_space raw
      in if consumer = [] then Inl STR ''snapshot authorization requires a consumer''
         else Inr (read_list (sn_authorized s) consumer))"

end
