(* ===== verification/Snapshot_Groups.thy ===== *)
theory Snapshot_Groups
  imports Snapshot_Build "HOL-Library.While_Combinator"
begin

text \<open>
  The dependency groups of a refresh: \<open>dependencyGroups\<close> of
  \<open>internal/distribution/snapshot/manager.go\<close>. Collections are linked when their models share a
  code or one feeds the options of the other; a breadth-first search collects the groups. The
  second half proves that the search ends and that the groups are the connected components.
\<close>

section \<open>The graph\<close>

type_synonym graph = "(string, string fset) fmap"

definition neighbours :: "graph \<Rightarrow> string \<Rightarrow> string fset" where
  "neighbours g n = (case fmlookup g n of None \<Rightarrow> {||} | Some s \<Rightarrow> s)"

definition add_node :: "string \<Rightarrow> graph \<Rightarrow> graph" where
  "add_node n g = (if n \<noteq> [] \<and> fmlookup g n = None then fmupd n {||} g else g)"

definition add_edge :: "string \<Rightarrow> string \<Rightarrow> graph \<Rightarrow> graph" where
  "add_edge l r g =
     (let g1 = add_node r (add_node l g)
      in if l \<noteq> [] \<and> r \<noteq> [] \<and> l \<noteq> r
         then (let g2 = fmupd l (finsert r (neighbours g1 l)) g1
               in fmupd r (finsert l (neighbours g2 r)) g2)
         else g1)"

text \<open>The collections the options of a model are read from.\<close>

definition option_collections :: "compiled_model \<Rightarrow> string list" where
  "option_collections m =
     concat (map (\<lambda>f. case mf_source f of
         None \<Rightarrow> []
       | Some s \<Rightarrow> if os_kind s = OptionSourceCollection then [os_collection s] else []) (cm_fields m))"

text \<open>One model: its owner, the other owner of its code, its option sources.\<close>

definition add_model :: "graph \<times> (string, string) fmap \<Rightarrow> compiled_model \<Rightarrow> graph \<times> (string, string) fmap" where
  "add_model st m =
     (let owner = cm_collection m; g = add_node owner (fst st); existing = map_read (snd st) (cm_code m);
          st1 = (if existing \<noteq> [] \<and> existing \<noteq> owner then (add_edge existing owner g, snd st)
                 else (g, fmupd (cm_code m) owner (snd st)))
      in (foldl (\<lambda>h c. add_edge owner c h) (fst st1) (option_collections m), snd st1))"

definition dependency_models :: "snapshot \<Rightarrow> (string, collection_input) fmap \<Rightarrow> compiled_model list" where
  "dependency_models previous incoming =
     sorted_values (sn_models previous) @ concat (map ci_models (sorted_values incoming))"

definition dependency_graph ::
  "snapshot \<Rightarrow> (string, collection_input) fmap \<Rightarrow> (string, catalog_error) fmap \<Rightarrow> graph" where
  "dependency_graph previous incoming failures =
     fst (foldl add_model
       (foldl (\<lambda>g n. add_node n g) fmempty
          (sorted_keys (sn_collections previous) @ sorted_keys incoming @ sorted_keys failures), fmempty)
       (dependency_models previous incoming))"

section \<open>The search\<close>

record search =
  se_visited :: "string set"
  se_queue :: "string list"
  se_group :: "string list"

definition search_step :: "graph \<Rightarrow> search \<Rightarrow> search" where
  "search_step g s =
     (case se_queue s of
        [] \<Rightarrow> s
      | current # rest \<Rightarrow>
          (let fresh = filter (\<lambda>n. n \<notin> se_visited s) (sorted_list_of_fset (neighbours g current))
           in \<lparr>se_visited = se_visited s \<union> set fresh, se_queue = rest @ fresh,
               se_group = se_group s @ [current]\<rparr>))"

definition searching :: "search \<Rightarrow> bool" where
  "searching s \<longleftrightarrow> se_queue s \<noteq> []"

definition search_from :: "graph \<Rightarrow> string set \<Rightarrow> string \<Rightarrow> search" where
  "search_from g visited name =
     while searching (search_step g) \<lparr>se_visited = insert name visited, se_queue = [name], se_group = []\<rparr>"

definition add_group :: "graph \<Rightarrow> string set \<times> string list list \<Rightarrow> string \<Rightarrow> string set \<times> string list list" where
  "add_group g st name =
     (if name \<in> fst st then st
      else (let s = search_from g (fst st) name in (se_visited s, snd st @ [sort (se_group s)])))"

definition graph_groups :: "graph \<Rightarrow> string list list" where
  "graph_groups g = snd (foldl (add_group g) ({}, []) (sorted_keys g))"

definition dependency_groups ::
  "snapshot \<Rightarrow> (string, collection_input) fmap \<Rightarrow> (string, catalog_error) fmap \<Rightarrow> string list list" where
  "dependency_groups previous incoming failures = graph_groups (dependency_graph previous incoming failures)"

section \<open>The graph and the links between collections\<close>

text \<open>What links two collections, whatever the order in which the models are read.\<close>

definition linked :: "compiled_model list \<Rightarrow> string \<Rightarrow> string \<Rightarrow> bool" where
  "linked models a b \<longleftrightarrow>
     a \<noteq> [] \<and> b \<noteq> [] \<and>
     ((\<exists>m \<in> set models. \<exists>n \<in> set models. cm_code m = cm_code n \<and> cm_collection m = a \<and> cm_collection n = b) \<or>
      (\<exists>m \<in> set models. cm_collection m = a \<and> b \<in> set (option_collections m)) \<or>
      (\<exists>m \<in> set models. cm_collection m = b \<and> a \<in> set (option_collections m)))"

definition adjacent :: "graph \<Rightarrow> string \<Rightarrow> string \<Rightarrow> bool" where
  "adjacent g a b \<longleftrightarrow> b |\<in>| neighbours g a"

text \<open>Edges go both ways, between nodes.\<close>

definition graph_ok :: "graph \<Rightarrow> bool" where
  "graph_ok g \<longleftrightarrow>
     (\<forall>a b. adjacent g a b \<longrightarrow> adjacent g b a \<and> a |\<in>| fmdom g \<and> b |\<in>| fmdom g)"

lemma add_node_facts [simp]:
  "adjacent (add_node n g) a b \<longleftrightarrow> adjacent g a b"
  "fset (fmdom (add_node n g)) = (if n = [] then fset (fmdom g) else insert n (fset (fmdom g)))"
  by (auto simp: add_node_def adjacent_def neighbours_def fmlookup_dom_iff)

lemma add_edge_facts [simp]:
  "adjacent (add_edge l r g) a b \<longleftrightarrow>
     adjacent g a b \<or> (l \<noteq> [] \<and> r \<noteq> [] \<and> l \<noteq> r \<and> ((a = l \<and> b = r) \<or> (a = r \<and> b = l)))"
  "fset (fmdom (add_edge l r g)) = fset (fmdom g) \<union> ({l, r} - {[]})"
proof -
  have n: "neighbours (add_node x h) y = neighbours h y" for x y h
    by (auto simp: add_node_def neighbours_def)
  have u: "neighbours (fmupd x t h) y = (if y = x then t else neighbours h y)" for x y h t
    by (simp add: neighbours_def)
  show "adjacent (add_edge l r g) a b \<longleftrightarrow>
     adjacent g a b \<or> (l \<noteq> [] \<and> r \<noteq> [] \<and> l \<noteq> r \<and> ((a = l \<and> b = r) \<or> (a = r \<and> b = l)))"
    by (auto simp: add_edge_def Let_def adjacent_def n u)
  show "fset (fmdom (add_edge l r g)) = fset (fmdom g) \<union> ({l, r} - {[]})"
    by (auto simp: add_edge_def Let_def)
qed

lemma graph_ok_add_node: "graph_ok g \<Longrightarrow> graph_ok (add_node n g)"
  by (auto simp: graph_ok_def)

lemma graph_ok_add_edge: "graph_ok g \<Longrightarrow> graph_ok (add_edge l r g)"
  unfolding graph_ok_def add_edge_facts by blast

text \<open>What holds after the models \<open>ms\<close> have been read.\<close>

definition graph_reads :: "compiled_model list \<Rightarrow> graph \<times> (string, string) fmap \<Rightarrow> bool" where
  "graph_reads ms st \<longleftrightarrow>
     graph_ok (fst st) \<and>
     (\<forall>a b. adjacent (fst st) a b \<longrightarrow> linked ms a b) \<and>
     (\<forall>code. map_read (snd st) code \<noteq> [] \<longrightarrow>
        (\<exists>m \<in> set ms. cm_code m = code \<and> cm_collection m = map_read (snd st) code)) \<and>
     (\<forall>m \<in> set ms. cm_collection m \<noteq> [] \<longrightarrow>
        map_read (snd st) (cm_code m) \<noteq> [] \<and>
        (adjacent (fst st))\<^sup>*\<^sup>* (map_read (snd st) (cm_code m)) (cm_collection m) \<and>
        (\<forall>c \<in> set (option_collections m). c \<noteq> [] \<longrightarrow> (adjacent (fst st))\<^sup>*\<^sup>* (cm_collection m) c))"

lemma linked_mono: "linked ms a b \<Longrightarrow> set ms \<subseteq> set ns \<Longrightarrow> linked ns a b"
  unfolding linked_def by (meson subsetD)

lemma add_edges_facts:
  "adjacent (foldl (\<lambda>h c. add_edge l c h) g cs) a b \<longleftrightarrow>
     adjacent g a b \<or> (\<exists>c \<in> set cs. l \<noteq> [] \<and> c \<noteq> [] \<and> l \<noteq> c \<and> ((a = l \<and> b = c) \<or> (a = c \<and> b = l)))"
  "fset (fmdom (foldl (\<lambda>h c. add_edge l c h) g cs)) =
     fset (fmdom g) \<union> (if cs = [] then {} else (insert l (set cs)) - {[]})"
  by (induction cs arbitrary: g) auto

lemma graph_ok_add_edges: "graph_ok g \<Longrightarrow> graph_ok (foldl (\<lambda>h c. add_edge l c h) g cs)"
  by (induction cs arbitrary: g) (simp_all add: graph_ok_add_edge)

lemma map_read_fmupd [simp]: "map_read (fmupd k v m) x = (if x = k then v else map_read m x)"
  by (simp add: map_read_def)

lemma add_model_facts:
  fixes g owners m
  defines "owner \<equiv> cm_collection m" and "code \<equiv> cm_code m"
  shows "adjacent (fst (add_model (g, owners) m)) a b \<longleftrightarrow>
      adjacent g a b \<or>
      (map_read owners code \<noteq> [] \<and> map_read owners code \<noteq> owner \<and> owner \<noteq> [] \<and>
        ((a = map_read owners code \<and> b = owner) \<or> (a = owner \<and> b = map_read owners code))) \<or>
      (\<exists>c \<in> set (option_collections m). owner \<noteq> [] \<and> c \<noteq> [] \<and> owner \<noteq> c \<and>
        ((a = owner \<and> b = c) \<or> (a = c \<and> b = owner)))"
    and "fset (fmdom (fst (add_model (g, owners) m))) \<supseteq> fset (fmdom g)"
    and "graph_ok g \<Longrightarrow> graph_ok (fst (add_model (g, owners) m))"
    and "map_read (snd (add_model (g, owners) m)) x =
      (if x = code \<and> map_read owners code = [] then owner else map_read owners x)"
  by (auto simp: add_model_def Let_def owner_def code_def add_edges_facts
    intro!: graph_ok_add_edges graph_ok_add_edge graph_ok_add_node)

lemma graph_reads_step:
  assumes "graph_reads ms (g, owners)"
  shows "graph_reads (ms @ [m]) (add_model (g, owners) m)"
proof -
  let ?st = "add_model (g, owners) m" and ?owner = "cm_collection m" and ?code = "cm_code m"
  note adj = add_model_facts(1) [of g owners m] and own = add_model_facts(4) [of g owners m]
  have a: "graph_ok (fst ?st)"
    using assms by (intro add_model_facts(3)) (simp add: graph_reads_def)
  have owners: "map_read owners c \<noteq> [] \<Longrightarrow> \<exists>n \<in> set ms. cm_code n = c \<and> cm_collection n = map_read owners c" for c
    using assms by (simp add: graph_reads_def)
  have b: "linked (ms @ [m]) x y" if "adjacent (fst ?st) x y" for x y
  proof -
    from that consider "adjacent g x y"
      | "map_read owners ?code \<noteq> []" "?owner \<noteq> []"
          "(x = map_read owners ?code \<and> y = ?owner) \<or> (x = ?owner \<and> y = map_read owners ?code)"
      | c where "c \<in> set (option_collections m)" "?owner \<noteq> []" "c \<noteq> []" "(x = ?owner \<and> y = c) \<or> (x = c \<and> y = ?owner)"
      unfolding adj by blast
    then show ?thesis
    proof cases
      case 1
      then have "linked ms x y" using assms by (simp add: graph_reads_def)
      then show ?thesis by (rule linked_mono) auto
    next
      case 2
      with owners [of ?code] show ?thesis by (fastforce simp: linked_def)
    next
      case 3
      then show ?thesis by (auto simp: linked_def)
    qed
  qed
  have step: "(adjacent (fst ?st))\<^sup>*\<^sup>* x y" if "(adjacent g)\<^sup>*\<^sup>* x y" for x y
    using that by (rule rtranclp_mono [THEN predicate2D, rotated]) (auto simp: adj)
  have c: "\<exists>n \<in> set (ms @ [m]). cm_code n = x \<and> cm_collection n = map_read (snd ?st) x"
    if "map_read (snd ?st) x \<noteq> []" for x
    using that owners [of x] by (auto simp: own split: if_splits)
  have d: "map_read (snd ?st) (cm_code n) \<noteq> [] \<and>
      (adjacent (fst ?st))\<^sup>*\<^sup>* (map_read (snd ?st) (cm_code n)) (cm_collection n) \<and>
      (\<forall>c \<in> set (option_collections n). c \<noteq> [] \<longrightarrow> (adjacent (fst ?st))\<^sup>*\<^sup>* (cm_collection n) c)"
    if "n \<in> set (ms @ [m])" "cm_collection n \<noteq> []" for n
  proof (cases "n \<in> set ms")
    case True
    then have "map_read owners (cm_code n) \<noteq> []" "(adjacent g)\<^sup>*\<^sup>* (map_read owners (cm_code n)) (cm_collection n)"
      "\<forall>c \<in> set (option_collections n). c \<noteq> [] \<longrightarrow> (adjacent g)\<^sup>*\<^sup>* (cm_collection n) c"
      using assms that(2) by (auto simp: graph_reads_def)
    moreover from this(1) have "map_read (snd ?st) (cm_code n) = map_read owners (cm_code n)"
      by (auto simp: own)
    ultimately show ?thesis using step by simp
  next
    case False
    with that have n: "n = m" by simp
    have "(adjacent (fst ?st))\<^sup>*\<^sup>* (map_read (snd ?st) ?code) ?owner"
    proof (cases "map_read owners ?code = [] \<or> map_read owners ?code = ?owner")
      case True
      then have "map_read (snd ?st) ?code = ?owner" by (auto simp: own)
      then show ?thesis by simp
    next
      case False
      then have "adjacent (fst ?st) (map_read owners ?code) ?owner" using that(2) n unfolding adj by blast
      with False show ?thesis by (simp add: own)
    qed
    moreover have "(adjacent (fst ?st))\<^sup>*\<^sup>* ?owner c" if "c \<in> set (option_collections m)" "c \<noteq> []" for c
    proof (cases "c = ?owner")
      case False
      then have "adjacent (fst ?st) ?owner c" using that \<open>cm_collection n \<noteq> []\<close> n unfolding adj by blast
      then show ?thesis by blast
    qed simp
    moreover have "map_read (snd ?st) ?code \<noteq> []" using that(2) n by (simp add: own)
    ultimately show ?thesis using n by blast
  qed
  show ?thesis unfolding graph_reads_def using a b c d by blast
qed

lemma graph_reads_all:
  assumes "graph_reads ms st"
  shows "graph_reads (ms @ ns) (foldl add_model st ns)"
  using assms
proof (induction ns arbitrary: ms st)
  case (Cons n ns)
  obtain g owners where st: "st = (g, owners)" by (cases st)
  have "graph_reads (ms @ [n]) (add_model st n)"
    using graph_reads_step Cons.prems st by simp
  from Cons.IH [OF this] show ?case by simp
qed simp

lemma add_nodes_facts:
  "adjacent (foldl (\<lambda>g n. add_node n g) g ns) a b \<longleftrightarrow> adjacent g a b"
  "fset (fmdom (foldl (\<lambda>g n. add_node n g) g ns)) = fset (fmdom g) \<union> (set ns - {[]})"
  by (induction ns arbitrary: g) auto

lemma not_adjacent_empty [simp]: "\<not> adjacent fmempty a b"
  by (simp add: adjacent_def neighbours_def)

lemma dependency_graph_facts:
  fixes previous incoming failures
  defines "ms \<equiv> dependency_models previous incoming"
  shows "graph_ok (dependency_graph previous incoming failures)"
    and "(adjacent (dependency_graph previous incoming failures))\<^sup>*\<^sup>* = (linked ms)\<^sup>*\<^sup>*"
proof -
  let ?g0 = "foldl (\<lambda>g n. add_node n g) fmempty
    (sorted_keys (sn_collections previous) @ sorted_keys incoming @ sorted_keys failures)"
  let ?st = "foldl add_model (?g0, fmempty) ms"
  have "graph_reads [] (?g0, fmempty)"
    by (simp add: graph_reads_def graph_ok_def add_nodes_facts(1) map_read_def)
  then have r: "graph_reads ms ?st" using graph_reads_all [of "[]"] by simp
  have g: "dependency_graph previous incoming failures = fst ?st"
    by (simp add: dependency_graph_def ms_def)
  show "graph_ok (dependency_graph previous incoming failures)"
    using r by (simp add: g graph_reads_def)
  then have sym: "symp (adjacent (fst ?st))" by (auto simp: g graph_ok_def symp_def)
  have one: "(adjacent (fst ?st))\<^sup>*\<^sup>* a b" if "linked ms a b" for a b
  proof -
    have owner: "(adjacent (fst ?st))\<^sup>*\<^sup>* (map_read (snd ?st) (cm_code m)) (cm_collection m)"
      "\<forall>c \<in> set (option_collections m). c \<noteq> [] \<longrightarrow> (adjacent (fst ?st))\<^sup>*\<^sup>* (cm_collection m) c"
      if "m \<in> set ms" "cm_collection m \<noteq> []" for m
      using that r unfolding graph_reads_def by blast+
    have rv: "(adjacent (fst ?st))\<^sup>*\<^sup>* y x" if "(adjacent (fst ?st))\<^sup>*\<^sup>* x y" for x y
      using that sym by (metis symp_rtranclp sympD)
    from that have "a \<noteq> []" "b \<noteq> []" by (simp_all add: linked_def)
    from that consider m n where "m \<in> set ms" "n \<in> set ms" "cm_code m = cm_code n"
        "cm_collection m = a" "cm_collection n = b"
      | m where "m \<in> set ms" "cm_collection m = a" "b \<in> set (option_collections m)"
      | m where "m \<in> set ms" "cm_collection m = b" "a \<in> set (option_collections m)"
      unfolding linked_def by blast
    then show ?thesis
    proof cases
      case (1 m n)
      let ?o = "map_read (snd ?st) (cm_code m)"
      have "(adjacent (fst ?st))\<^sup>*\<^sup>* ?o a" using owner(1) [of m] 1 \<open>a \<noteq> []\<close> by simp
      moreover have "(adjacent (fst ?st))\<^sup>*\<^sup>* ?o b" using owner(1) [of n] 1 \<open>b \<noteq> []\<close> by simp
      ultimately show ?thesis using rv rtranclp_trans by fast
    next
      case (2 m)
      with owner(2) [of m] \<open>a \<noteq> []\<close> \<open>b \<noteq> []\<close> show ?thesis by blast
    next
      case (3 m)
      with owner(2) [of m] \<open>a \<noteq> []\<close> \<open>b \<noteq> []\<close> rv show ?thesis by blast
    qed
  qed
  show "(adjacent (dependency_graph previous incoming failures))\<^sup>*\<^sup>* = (linked ms)\<^sup>*\<^sup>*"
  proof (intro ext iffI)
    fix a b assume "(adjacent (dependency_graph previous incoming failures))\<^sup>*\<^sup>* a b"
    then show "(linked ms)\<^sup>*\<^sup>* a b"
      by (rule rtranclp_mono [THEN predicate2D, rotated]) (use r in \<open>auto simp: g graph_reads_def\<close>)
  next
    fix a b assume "(linked ms)\<^sup>*\<^sup>* a b"
    then show "(adjacent (dependency_graph previous incoming failures))\<^sup>*\<^sup>* a b"
      unfolding g by (induction rule: rtranclp_induct) (use one in \<open>auto intro: rtranclp_trans\<close>)
  qed
qed

text \<open>The nodes: every collection that is published, loaded, failed, owns a model or feeds options.\<close>

definition dependency_names ::
  "snapshot \<Rightarrow> (string, collection_input) fmap \<Rightarrow> (string, catalog_error) fmap \<Rightarrow> string set" where
  "dependency_names previous incoming failures =
     (fset (fmdom (sn_collections previous)) \<union> fset (fmdom incoming) \<union> fset (fmdom failures) \<union>
      (\<Union>m \<in> set (dependency_models previous incoming). insert (cm_collection m) (set (option_collections m)))) - {[]}"

lemma add_model_nodes:
  "fset (fmdom (fst (add_model (g, owners) m))) =
     fset (fmdom g) \<union> (insert (cm_collection m) (set (option_collections m)) - {[]}) \<union>
     (if map_read owners (cm_code m) \<noteq> [] \<and> map_read owners (cm_code m) \<noteq> cm_collection m
      then {map_read owners (cm_code m)} else {})"
  by (auto simp: add_model_def Let_def add_edges_facts)

lemma add_models_nodes:
  assumes "graph_reads ms st" "\<forall>m \<in> set ms. cm_collection m \<noteq> [] \<longrightarrow> cm_collection m |\<in>| fmdom (fst st)"
  shows "fset (fmdom (fst (foldl add_model st ns))) =
    fset (fmdom (fst st)) \<union> ((\<Union>m \<in> set ns. insert (cm_collection m) (set (option_collections m))) - {[]})"
  using assms
proof (induction ns arbitrary: ms st)
  case Nil
  then show ?case by simp
next
  case (Cons n ns)
  obtain g owners where st: "st = (g, owners)" by (cases st)
  have r: "graph_reads (ms @ [n]) (add_model st n)" using graph_reads_step Cons.prems(1) st by simp
  have "map_read owners (cm_code n) \<noteq> [] \<Longrightarrow> map_read owners (cm_code n) |\<in>| fmdom g"
    using Cons.prems st unfolding graph_reads_def by (metis fst_conv snd_conv)
  then have n: "fset (fmdom (fst (add_model st n))) =
      fset (fmdom g) \<union> (insert (cm_collection n) (set (option_collections n)) - {[]})"
    using st by (auto simp: add_model_nodes)
  then have "\<forall>m \<in> set (ms @ [n]). cm_collection m \<noteq> [] \<longrightarrow> cm_collection m |\<in>| fmdom (fst (add_model st n))"
    using Cons.prems(2) st by auto
  from Cons.IH [OF r this] n st show ?case by auto
qed

lemma dependency_graph_nodes:
  "fset (fmdom (dependency_graph previous incoming failures)) = dependency_names previous incoming failures"
proof -
  let ?g0 = "foldl (\<lambda>g n. add_node n g) fmempty
    (sorted_keys (sn_collections previous) @ sorted_keys incoming @ sorted_keys failures)"
  have "graph_reads [] (?g0, fmempty)"
    by (simp add: graph_reads_def graph_ok_def add_nodes_facts(1) map_read_def)
  then have "fset (fmdom (dependency_graph previous incoming failures)) =
      fset (fmdom ?g0) \<union> ((\<Union>m \<in> set (dependency_models previous incoming).
        insert (cm_collection m) (set (option_collections m))) - {[]})"
    unfolding dependency_graph_def by (subst add_models_nodes [where ms = "[]"]) simp_all
  then show ?thesis by (auto simp: add_nodes_facts dependency_names_def)
qed

section \<open>The search finds connected components\<close>

definition closed :: "graph \<Rightarrow> string set \<Rightarrow> bool" where
  "closed g V \<longleftrightarrow> (\<forall>a \<in> V. \<forall>b. adjacent g a b \<longrightarrow> b \<in> V)"

definition component :: "graph \<Rightarrow> string \<Rightarrow> string set" where
  "component g n = {x. (adjacent g)\<^sup>*\<^sup>* n x}"

definition search_ok :: "graph \<Rightarrow> string set \<Rightarrow> string \<Rightarrow> search \<Rightarrow> bool" where
  "search_ok g V n s \<longleftrightarrow>
     se_visited s = V \<union> set (se_group s) \<union> set (se_queue s) \<and>
     distinct (se_group s @ se_queue s) \<and> (set (se_group s) \<union> set (se_queue s)) \<inter> V = {} \<and>
     set (se_group s) \<union> set (se_queue s) \<subseteq> component g n \<and> n \<in> set (se_group s) \<union> set (se_queue s) \<and>
     (\<forall>a \<in> set (se_group s). \<forall>b. adjacent g a b \<longrightarrow> b \<in> se_visited s)"

definition search_measure :: "graph \<Rightarrow> search \<Rightarrow> nat" where
  "search_measure g s = 2 * card (fset (fmdom g) - se_visited s) + length (se_queue s)"

lemma search_step_ok:
  assumes "search_ok g V n s" "searching s"
  shows "search_ok g V n (search_step g s)"
proof -
  from assms(2) obtain c rest where q: "se_queue s = c # rest"
    by (cases "se_queue s") (auto simp: searching_def)
  define fresh where "fresh = filter (\<lambda>m. m \<notin> se_visited s) (sorted_list_of_fset (neighbours g c))"
  have f: "set fresh = {m. adjacent g c m} - se_visited s" "distinct fresh"
    by (auto simp: fresh_def adjacent_def sorted_list_of_fset.rep_eq)
  have st: "search_step g s = \<lparr>se_visited = se_visited s \<union> set fresh, se_queue = rest @ fresh,
      se_group = se_group s @ [c]\<rparr>" by (simp add: search_step_def q fresh_def)
  have "component g n \<supseteq> set fresh"
    using f(1) assms(1) q by (auto simp: search_ok_def component_def intro: rtranclp.rtrancl_into_rtrancl)
  then show ?thesis
    using assms(1) f unfolding st search_ok_def q by auto
qed

lemma search_step_measure:
  assumes "graph_ok g" "searching s"
  shows "search_measure g (search_step g s) < search_measure g s"
proof -
  from assms(2) obtain c rest where q: "se_queue s = c # rest"
    by (cases "se_queue s") (auto simp: searching_def)
  define fresh where "fresh = filter (\<lambda>m. m \<notin> se_visited s) (sorted_list_of_fset (neighbours g c))"
  have st: "search_step g s = \<lparr>se_visited = se_visited s \<union> set fresh, se_queue = rest @ fresh,
      se_group = se_group s @ [c]\<rparr>" by (simp add: search_step_def q fresh_def)
  have f: "set fresh \<subseteq> fset (fmdom g) - se_visited s" "distinct fresh"
    using assms(1) by (auto simp: fresh_def adjacent_def graph_ok_def sorted_list_of_fset.rep_eq)
  then have "card (fset (fmdom g) - se_visited s - set fresh) = card (fset (fmdom g) - se_visited s) - length fresh"
    and "length fresh \<le> card (fset (fmdom g) - se_visited s)"
    using card_mono [OF _ f(1)] by (simp_all add: card_Diff_subset distinct_card)
  then show ?thesis
    by (simp add: search_measure_def st q Diff_eq Int_assoc Compl_Un)
qed

definition search_start :: "string set \<Rightarrow> string \<Rightarrow> search" where
  "search_start V n = \<lparr>se_visited = insert n V, se_queue = [n], se_group = []\<rparr>"

lemma search_start_ok: "n \<notin> V \<Longrightarrow> search_ok g V n (search_start V n)"
  by (simp add: search_ok_def search_start_def component_def)

lemma search_terminates:
  assumes "graph_ok g"
  shows "\<exists>t. while_option searching (search_step g) s = Some t"
  by (rule measure_while_option_Some [where P = "\<lambda>_. True" and f = "search_measure g"])
    (use search_step_measure [OF assms] in auto)

lemma search_from_ok:
  assumes "graph_ok g" "closed g V" "n \<notin> V"
  shows "search_ok g V n (search_from g V n) \<and> se_queue (search_from g V n) = []"
  unfolding search_from_def search_start_def [symmetric]
  by (rule while_rule [where P = "search_ok g V n" and r = "measure (search_measure g)"])
    (use assms search_start_ok search_step_ok search_step_measure in \<open>auto simp: searching_def\<close>)

lemma search_from_component:
  assumes "graph_ok g" "closed g V" "n \<notin> V"
  shows "set (se_group (search_from g V n)) = component g n"
    and "se_visited (search_from g V n) = V \<union> component g n"
    and "distinct (se_group (search_from g V n))"
    and "component g n \<inter> V = {}"
proof -
  let ?s = "search_from g V n"
  have ok: "search_ok g V n ?s" "se_queue ?s = []" using search_from_ok [OF assms] by simp_all
  have "x \<in> set (se_group ?s)" if "(adjacent g)\<^sup>*\<^sup>* n x" for x
    using that
  proof (induction rule: rtranclp_induct)
    case base
    then show ?case using ok by (auto simp: search_ok_def)
  next
    case (step x y)
    have "y \<in> V \<union> set (se_group ?s)" using step ok by (auto simp: search_ok_def)
    moreover have "y \<notin> V"
      using step assms(1,2) ok unfolding closed_def graph_ok_def search_ok_def by blast
    ultimately show ?case by blast
  qed
  with ok show c: "set (se_group ?s) = component g n"
    by (auto simp: search_ok_def component_def)
  with ok show "se_visited ?s = V \<union> component g n" "distinct (se_group ?s)" "component g n \<inter> V = {}"
    by (auto simp: search_ok_def)
qed

lemma component_closed: "closed g (component g n)"
  by (auto simp: closed_def component_def intro: rtranclp.rtrancl_into_rtrancl)

lemma component_eq:
  assumes "graph_ok g" "m \<in> component g n"
  shows "component g m = component g n"
proof -
  have "symp (adjacent g)" using assms(1) by (auto simp: graph_ok_def symp_def)
  then have "(adjacent g)\<^sup>*\<^sup>* m n" using assms(2) by (metis component_def mem_Collect_eq symp_rtranclp sympD)
  with assms(2) show ?thesis by (auto simp: component_def intro: rtranclp_trans)
qed

text \<open>What holds of the visited names and the groups after some names were searched from.\<close>

definition groups_ok :: "graph \<Rightarrow> string set \<times> string list list \<Rightarrow> bool" where
  "groups_ok g st \<longleftrightarrow>
     closed g (fst st) \<and> set (concat (snd st)) = fst st \<and> distinct (concat (snd st)) \<and>
     (\<forall>grp \<in> set (snd st). sorted grp \<and> grp \<noteq> [] \<and> (\<forall>n \<in> set grp. set grp = component g n))"

lemma add_group_ok:
  assumes "graph_ok g" "groups_ok g st"
  shows "groups_ok g (add_group g st n) \<and> fst (add_group g st n) = fst st \<union> component g n"
proof (cases "n \<in> fst st")
  case True
  then obtain grp where grp: "grp \<in> set (snd st)" "n \<in> set grp" using assms(2) by (auto simp: groups_ok_def)
  then have "set grp = component g n" using assms(2) by (simp add: groups_ok_def)
  moreover have "set grp \<subseteq> fst st" using grp(1) assms(2) by (auto simp: groups_ok_def)
  ultimately have "component g n \<subseteq> fst st" by simp
  with True assms(2) show ?thesis by (auto simp: add_group_def)
next
  case False
  have "closed g (fst st)" using assms(2) by (simp add: groups_ok_def)
  note s = search_from_component [OF assms(1) this False]
  have st: "add_group g st n =
      (fst st \<union> component g n, snd st @ [sort (se_group (search_from g (fst st) n))])"
    using False by (simp add: add_group_def Let_def s(2))
  have "n \<in> component g n" by (simp add: component_def)
  then have "se_group (search_from g (fst st) n) \<noteq> []" using s(1) by auto
  then have "sort (se_group (search_from g (fst st) n)) \<noteq> []" by (metis length_0_conv length_sort)
  moreover have "closed g (fst st \<union> component g n)"
    using \<open>closed g (fst st)\<close> component_closed [of g n] by (auto simp: closed_def)
  moreover have "\<forall>m \<in> component g n. component g n = component g m"
    using component_eq [OF assms(1)] by simp
  ultimately show ?thesis
    using assms(2) s(1,3,4) unfolding st groups_ok_def by (auto simp: Int_commute)
qed

lemma add_groups_ok:
  assumes "graph_ok g" "groups_ok g st"
  shows "groups_ok g (foldl (add_group g) st ns) \<and>
    fst (foldl (add_group g) st ns) = fst st \<union> (\<Union>n \<in> set ns. component g n)"
  using assms(2)
proof (induction ns arbitrary: st)
  case (Cons n ns)
  have "groups_ok g (add_group g st n)" "fst (add_group g st n) = fst st \<union> component g n"
    using add_group_ok [OF assms(1) Cons.prems] by simp_all
  with Cons.IH [of "add_group g st n"] show ?case by auto
qed simp

lemma component_nodes:
  assumes "graph_ok g" "n |\<in>| fmdom g"
  shows "component g n \<subseteq> fset (fmdom g)"
proof
  fix x assume "x \<in> component g n"
  then have "(adjacent g)\<^sup>*\<^sup>* n x" by (simp add: component_def)
  then show "x \<in> fset (fmdom g)"
    by (induction rule: rtranclp_induct) (use assms in \<open>auto simp: graph_ok_def\<close>)
qed

lemma graph_groups_components:
  assumes "graph_ok g"
  shows "distinct (concat (graph_groups g))" "set (concat (graph_groups g)) = fset (fmdom g)"
    and "grp \<in> set (graph_groups g) \<Longrightarrow> sorted grp \<and> grp \<noteq> []"
    and "grp \<in> set (graph_groups g) \<Longrightarrow> n \<in> set grp \<Longrightarrow> set grp = component g n"
proof -
  let ?st = "foldl (add_group g) ({}, []) (sorted_keys g)"
  have "groups_ok g ({}, [])" by (simp add: groups_ok_def closed_def)
  then have ok: "groups_ok g ?st" "fst ?st = (\<Union>n \<in> fset (fmdom g). component g n)"
    using add_groups_ok [OF assms, of "({}, [])" "sorted_keys g"] by simp_all
  have "n \<in> component g n" for n by (simp add: component_def)
  then have "fst ?st = fset (fmdom g)" using component_nodes [OF assms] ok(2) by blast
  with ok(1) show "distinct (concat (graph_groups g))" "set (concat (graph_groups g)) = fset (fmdom g)"
    "grp \<in> set (graph_groups g) \<Longrightarrow> sorted grp \<and> grp \<noteq> []"
    "grp \<in> set (graph_groups g) \<Longrightarrow> n \<in> set grp \<Longrightarrow> set grp = component g n"
    by (simp_all add: groups_ok_def graph_groups_def)
qed

end
