(* ===== verification/Snapshot_Manager.thy ===== *)
theory Snapshot_Manager
  imports Snapshot_Groups
begin

text \<open>
  The snapshot manager: \<open>NewManager\<close>, \<open>Refresh\<close>, \<open>SetPublisher\<close>, \<open>Diagnostics\<close> and
  \<open>buildPartialSnapshot\<close> of \<open>internal/distribution/snapshot/manager.go\<close>. The source and the
  clock are interfaces: a refresh takes what the source answers and the time as arguments. The
  mutex makes the operations atomic. A configured publisher is the list of the snapshots it was
  handed, in order.
\<close>

record environment_load =
  el_inputs :: "collection_input list"
  el_failures :: "(string, catalog_error option) fmap"

datatype source_answer =
    FullAnswer "catalog_error + collection_input list"
  | PartialAnswer "catalog_error + environment_load"

record group_failure =
  gf_collections :: "string list"
  gf_reason :: catalog_error

record refresh_result =
  rr_generation :: u64
  rr_collections :: nat
  rr_failed :: "group_failure list"

record manager =
  mg_seed :: identity_seed
  mg_current :: snapshot
  mg_publisher :: "snapshot list option"
  mg_failed :: "string list list"
  mg_error :: string

section \<open>Partial snapshots\<close>

definition load_environment :: "source_answer \<Rightarrow> catalog_error + environment_load" where
  "load_environment answer =
     (case answer of
        PartialAnswer r \<Rightarrow> r
      | FullAnswer r \<Rightarrow> rbind r (\<lambda>inputs. Inr \<lparr>el_inputs = inputs, el_failures = fmempty\<rparr>))"

definition index_input ::
  "(string, collection_input) fmap \<Rightarrow> collection_input \<Rightarrow> catalog_error + (string, collection_input) fmap" where
  "index_input acc input =
     (let name = cd_name (ci_definition input)
      in if name = [] then Inl STR ''refresh partial snapshot: collection identity is required''
         else if name |\<in>| fmdom acc then Inl STR ''refresh partial snapshot: duplicate collection %q''
         else Inr (fmupd name input acc))"

text \<open>
  The failures under trimmed names. Go leaves the order of this loop open; it matters only when
  two names are equal after trimming, where one of the two errors is kept.
\<close>

definition index_failure ::
  "(string, catalog_error option) fmap \<Rightarrow> (string, catalog_error) fmap \<Rightarrow> string
     \<Rightarrow> catalog_error + (string, catalog_error) fmap" where
  "index_failure source acc raw =
     (let name = trim_space raw
      in case fmlookup source raw of
           Some (Some e) \<Rightarrow>
             if name = [] then Inl STR ''refresh partial snapshot: failures require collection and error''
             else Inr (fmupd name e acc)
         | _ \<Rightarrow> Inl STR ''refresh partial snapshot: failures require collection and error'')"

fun first_group_failure :: "string list \<Rightarrow> (string, catalog_error) fmap \<Rightarrow> catalog_error option" where
  "first_group_failure [] failures = None"
| "first_group_failure (name # rest) failures =
     (case fmlookup failures name of Some e \<Rightarrow> Some e | None \<Rightarrow> first_group_failure rest failures)"

definition inputs_for_group ::
  "string list \<Rightarrow> (string, collection_input) fmap \<Rightarrow> collection_input list" where
  "inputs_for_group grp inputs = List.map_filter (\<lambda>name. fmlookup inputs name) grp"

text \<open>The published state of a collection as an input.\<close>

definition view_models :: "snapshot \<Rightarrow> string \<Rightarrow> compiled_model list" where
  "view_models s name = filter (\<lambda>m. cm_collection m = name) (sorted_values (sn_models s))"

definition view_input :: "snapshot \<Rightarrow> string \<Rightarrow> collection_view \<Rightarrow> collection_input" where
  "view_input s name v =
     \<lparr>ci_definition = cv_definition v, ci_models = view_models s name, ci_consumers = cv_consumers v,
      ci_version = cv_version v, ci_cursor = cv_cursor v,
      ci_records = map clone_snapshot_record (view_records v),
      ci_rules = map clone_overlay_rule (cv_rules v)\<rparr>"

definition previous_inputs :: "snapshot \<Rightarrow> string list \<Rightarrow> collection_input list" where
  "previous_inputs s grp =
     List.map_filter (\<lambda>name. map_option (view_input s name) (fmlookup (sn_collections s) name)) grp"

text \<open>One dependency group: the accepted inputs, the failures and the number of successes.\<close>

definition group_outcome ::
  "scalar_lib \<Rightarrow> identity_seed \<Rightarrow> snapshot \<Rightarrow> gotime \<Rightarrow> string \<Rightarrow> (string, collection_input) fmap
     \<Rightarrow> (string, catalog_error) fmap \<Rightarrow> string list \<Rightarrow> catalog_error option" where
  "group_outcome lib seed previous published env incoming failures grp =
     (case first_group_failure grp failures of
        Some e \<Rightarrow> Some e
      | None \<Rightarrow>
          (let candidates = inputs_for_group grp incoming
           in if candidates = [] then None
              else case build_snapshot lib seed (id_generation (sn_identity previous) + 1) published env candidates of
                     Inl e \<Rightarrow> Some e | Inr _ \<Rightarrow> None))"

definition refresh_group ::
  "scalar_lib \<Rightarrow> identity_seed \<Rightarrow> snapshot \<Rightarrow> gotime \<Rightarrow> string \<Rightarrow> (string, collection_input) fmap
     \<Rightarrow> (string, catalog_error) fmap \<Rightarrow> collection_input list \<times> group_failure list \<times> nat \<Rightarrow> string list
     \<Rightarrow> collection_input list \<times> group_failure list \<times> nat" where
  "refresh_group lib seed previous published env incoming failures st grp =
     (case st of (accepted, failed, successes) \<Rightarrow>
        (case group_outcome lib seed previous published env incoming failures grp of
           Some e \<Rightarrow> (accepted @ previous_inputs previous grp,
                      failed @ [\<lparr>gf_collections = grp, gf_reason = e\<rparr>], successes)
         | None \<Rightarrow> (accepted @ inputs_for_group grp incoming, failed, successes + 1)))"

definition build_partial_snapshot ::
  "scalar_lib \<Rightarrow> identity_seed \<Rightarrow> snapshot \<Rightarrow> gotime \<Rightarrow> string \<Rightarrow> environment_load
     \<Rightarrow> catalog_error + snapshot \<times> group_failure list" where
  "build_partial_snapshot lib seed previous published env loaded =
     rbind (rfold index_input fmempty (el_inputs loaded)) (\<lambda>incoming.
     rbind (rfold (index_failure (el_failures loaded)) fmempty (sorted_keys (el_failures loaded))) (\<lambda>failures.
     case foldl (refresh_group lib seed previous published env incoming failures) ([], [], 0)
            (dependency_groups previous incoming failures) of
       (accepted, failed, successes) \<Rightarrow>
         if successes = 0 then Inl STR ''refresh partial snapshot: all dependency groups failed: %s''
         else rbind (build_snapshot lib seed (id_generation (sn_identity previous) + 1) published env accepted)
                (\<lambda>candidate. Inr (candidate, failed))))"

section \<open>The manager\<close>

definition new_manager :: "identity_seed \<Rightarrow> gotime \<Rightarrow> catalog_error + manager" where
  "new_manager raw now =
     (let seed = \<lparr>is_epoch = trim_space (is_epoch raw), is_server = trim_space (is_server raw),
                  is_snapshot = trim_space (is_snapshot raw)\<rparr>
      in if is_epoch seed = [] \<or> is_server seed = [] \<or> is_snapshot seed = []
         then Inl STR ''new snapshot manager: complete identity seed is required''
         else Inr \<lparr>mg_seed = seed, mg_current = empty_snapshot (make_identity seed 0 now) [],
                   mg_publisher = None, mg_failed = [], mg_error = []\<rparr>)"

definition set_publisher :: "manager \<Rightarrow> catalog_error + manager" where
  "set_publisher mg =
     (if mg_publisher mg \<noteq> None then Inl STR ''snapshot publisher is already configured''
      else Inr (mg\<lparr>mg_publisher := Some []\<rparr>))"

text \<open>The candidate of a refresh and the groups that failed.\<close>

definition refresh_candidate ::
  "scalar_lib \<Rightarrow> manager \<Rightarrow> gotime \<Rightarrow> string \<Rightarrow> source_answer \<Rightarrow> catalog_error + snapshot \<times> group_failure list" where
  "refresh_candidate lib mg now env answer =
     rbind (load_environment answer) (\<lambda>loaded.
       (let previous = mg_current mg;
            initial = (id_generation (sn_identity previous) = 0 \<or> sn_environment previous \<noteq> env)
        in if initial \<and> el_failures loaded \<noteq> fmempty then Inl STR ''refresh initial snapshot: %s''
           else if initial
           then rbind (build_snapshot lib (mg_seed mg) (id_generation (sn_identity previous) + 1) now env
                        (el_inputs loaded)) (\<lambda>candidate. Inr (candidate, []))
           else build_partial_snapshot lib (mg_seed mg) previous now env loaded))"

definition publish :: "manager \<Rightarrow> snapshot \<Rightarrow> manager" where
  "publish mg candidate =
     mg\<lparr>mg_current := candidate, mg_publisher := map_option (\<lambda>sent. sent @ [candidate]) (mg_publisher mg)\<rparr>"

definition refresh ::
  "scalar_lib \<Rightarrow> manager \<Rightarrow> gotime \<Rightarrow> string \<Rightarrow> source_answer \<Rightarrow> manager \<times> (catalog_error + refresh_result)" where
  "refresh lib mg now environment answer =
     (let env = trim_space environment
      in if env = [] then (mg, Inl STR ''refresh snapshot: environment is required'')
         else case refresh_candidate lib mg now env answer of
                Inl e \<Rightarrow> (mg\<lparr>mg_failed := [], mg_error := ''SNAPSHOT_REFRESH_FAILED''\<rparr>, Inl e)
              | Inr (candidate, failed) \<Rightarrow>
                  ((publish mg candidate)\<lparr>mg_failed := map gf_collections failed, mg_error := []\<rparr>,
                   Inr \<lparr>rr_generation = id_generation (sn_identity candidate),
                        rr_collections = map_len (sn_collections candidate), rr_failed = failed\<rparr>))"

record collection_diagnostic =
  di_name :: string
  di_revision :: u64
  di_cursor :: u64
  di_digest :: digest

record diagnostics =
  dg_identity :: snapshot_identity
  dg_environment :: string
  dg_collections :: "collection_diagnostic list"
  dg_failed :: "string list list"
  dg_error :: string

definition diagnose :: "manager \<Rightarrow> diagnostics" where
  "diagnose mg =
     \<lparr>dg_identity = sn_identity (mg_current mg), dg_environment = sn_environment (mg_current mg),
      dg_collections =
        map (\<lambda>name. let v = the (fmlookup (sn_collections (mg_current mg)) name)
                    in \<lparr>di_name = name, di_revision = cv_version v, di_cursor = cv_cursor v, di_digest = cv_digest v\<rparr>)
          (collection_names (mg_current mg)),
      dg_failed = mg_failed mg, dg_error = mg_error mg\<rparr>"

end
