(* ===== verification/Snapshot_Facts.thy ===== *)
theory Snapshot_Facts
  imports Snapshot_Manager
begin

text \<open>
  What a published snapshot satisfies, that building one establishes it, and that building a
  collection again from its published state gives the same view.
\<close>

section \<open>Records of a view\<close>

definition record_published ::
  "scalar_lib \<Rightarrow> collection_definition \<Rightarrow> string \<Rightarrow> u64 \<Rightarrow> config_record \<Rightarrow> bool" where
  "record_published lib d env version r \<longleftrightarrow>
     cr_collection r = cd_name d \<and> cr_environment r = env \<and> cr_revision r \<noteq> 0 \<and> cr_revision r \<le> version \<and>
     cr_data r \<noteq> None \<and> new_record lib d env (deref_map (cr_data r)) = Inr (r\<lparr>cr_revision := 0\<rparr>)"

definition store_records :: "(string, config_record) fmap \<Rightarrow> config_record list \<Rightarrow> (string, config_record) fmap" where
  "store_records m rs = foldl (\<lambda>m r. fmupd (cr_key r) r m) m rs"

lemma store_records_lookup:
  "distinct (map cr_key rs) \<Longrightarrow> fmlookup (store_records m rs) k = Some r \<longleftrightarrow>
     (r \<in> set rs \<and> cr_key r = k) \<or> (k \<notin> cr_key ` set rs \<and> fmlookup m k = Some r)"
  by (induction rs arbitrary: m) (auto simp: store_records_def)

text \<open>
  A record of the source whose canonical timestamps parse again: their instants lie in the years 0
  to 9999 in UTC. A published record is one.
\<close>

definition record_returns :: "scalar_lib \<Rightarrow> collection_definition \<Rightarrow> string \<Rightarrow> config_record \<Rightarrow> bool" where
  "record_returns lib d env r \<longleftrightarrow>
     (case new_record lib d env (deref_map (cr_data r)) of
        Inl _ \<Rightarrow> True | Inr n \<Rightarrow> times_return lib d (deref_map (cr_data n)))"

lemma record_published_returns:
  assumes "collection_compiled lib d" "record_published lib d env version r"
  shows "record_returns lib d env r"
proof -
  obtain content where c: "cr_data r = Some content" "new_record lib d env content = Inr (r\<lparr>cr_revision := 0\<rparr>)"
    using assms(2) by (auto simp: record_published_def)
  have "\<forall>f \<in> set (cd_fields d). field_stored lib content content f"
    using new_record_stored(1) [OF assms(1) c(2)] c(1) by simp
  then have "times_return lib d content"
    by (auto simp: times_return_def list_all_iff pred_option_def text_returns_def field_stored_def
        canonicalize_scalar_def from_option_Inr split: option.splits)
  with c show ?thesis by (simp add: record_returns_def)
qed

lemma add_snapshot_record_Inr:
  assumes "lib_canonical lib" "collection_compiled lib d" "trim_space env = env"
    and "record_returns lib d env r"
    and "add_snapshot_record lib d env version (m, ks) r = Inr st"
  obtains c where "st = (fmupd (cr_key c) c m, ks @ [cr_key c])" "cr_key c = cr_key r" "cr_key r |\<notin>| fmdom m"
    "record_published lib d env version c" "cr_revision c = cr_revision r"
    "new_record lib d env (deref_map (cr_data r)) = Inr (c\<lparr>cr_revision := 0\<rparr>)"
proof -
  from assms(5) obtain n where n: "new_record lib d env (deref_map (cr_data r)) = Inr n"
    "cr_collection r = cd_name d" "cr_environment r = env" "cr_revision r \<noteq> 0" "cr_revision r \<le> version"
    "cr_key n = cr_key r" "cr_key r |\<notin>| fmdom m"
    "st = (fmupd (cr_key n) (n\<lparr>cr_revision := cr_revision r\<rparr>) m, ks @ [cr_key n])"
    by (auto simp: add_snapshot_record_def rbind_Inr_iff not_less split: if_splits)
  from n(1) obtain content where content: "cr_data n = Some content" "cr_environment n = trim_space env"
    "cr_collection n = cd_name d" "cr_revision n = 0"
    by (rule new_record_Inr) auto
  have "new_record lib d env (deref_map (cr_data n)) = Inr n"
    using new_record_replay [OF assms(1,2) n(1)] content(2) assms(3,4) n(1) by (simp add: record_returns_def)
  moreover have "n\<lparr>cr_revision := 0\<rparr> = n" using content(4) by simp
  ultimately have "record_published lib d env version (n\<lparr>cr_revision := cr_revision r\<rparr>)"
    using n content assms(3) by (simp add: record_published_def del: not_None_eq)
  with n \<open>n\<lparr>cr_revision := 0\<rparr> = n\<close> show ?thesis
    by (intro that [of "n\<lparr>cr_revision := cr_revision r\<rparr>"]) simp_all
qed

definition publishes ::
  "scalar_lib \<Rightarrow> collection_definition \<Rightarrow> string \<Rightarrow> u64 \<Rightarrow> config_record \<Rightarrow> config_record \<Rightarrow> bool" where
  "publishes lib d env version r c \<longleftrightarrow>
     record_published lib d env version c \<and> cr_key c = cr_key r \<and> cr_revision c = cr_revision r \<and>
     new_record lib d env (deref_map (cr_data r)) = Inr (c\<lparr>cr_revision := 0\<rparr>)"

lemma add_snapshot_records_Inr:
  assumes "lib_canonical lib" "collection_compiled lib d" "trim_space env = env"
    and "\<forall>r \<in> set rs. record_returns lib d env r"
    and "rfold (add_snapshot_record lib d env version) (m, ks) rs = Inr (m', ks')" "set ks = fset (fmdom m)"
    and "distinct ks"
  shows "\<exists>cs. list_all2 (publishes lib d env version) rs cs \<and> m' = store_records m cs \<and>
    ks' = ks @ map cr_key cs \<and> distinct ks'"
  using assms(4-7)
proof (induction rs arbitrary: m ks)
  case Nil
  then show ?case by (simp add: store_records_def)
next
  case (Cons r rs)
  from Cons.prems(2) obtain st where st: "add_snapshot_record lib d env version (m, ks) r = Inr st"
    "rfold (add_snapshot_record lib d env version) st rs = Inr (m', ks')" by (auto simp: rbind_Inr_iff)
  from add_snapshot_record_Inr [OF assms(1-3) _ st(1)] Cons.prems(1) obtain c where
    c: "st = (fmupd (cr_key c) c m, ks @ [cr_key c])" "cr_key c = cr_key r" "cr_key r |\<notin>| fmdom m"
      "publishes lib d env version r c" by (auto simp: publishes_def)
  have "\<exists>cs. list_all2 (publishes lib d env version) rs cs \<and> m' = store_records (fmupd (cr_key c) c m) cs \<and>
      ks' = (ks @ [cr_key c]) @ map cr_key cs \<and> distinct ks'"
    using st(2) c Cons.prems by (intro Cons.IH) auto
  then obtain cs where "list_all2 (publishes lib d env version) rs cs" "m' = store_records (fmupd (cr_key c) c m) cs"
    "ks' = (ks @ [cr_key c]) @ map cr_key cs" "distinct ks'" by blast
  with c show ?case by (intro exI [of _ "c # cs"]) (simp add: store_records_def)
qed

text \<open>Records that are already published are added unchanged.\<close>

lemma add_snapshot_records_again:
  assumes "\<forall>r \<in> set rs. record_published lib d env version r" "distinct (map cr_key rs)"
    and "\<forall>r \<in> set rs. cr_key r |\<notin>| fmdom m"
  shows "rfold (add_snapshot_record lib d env version) (m, ks) rs = Inr (store_records m rs, ks @ map cr_key rs)"
  using assms
proof (induction rs arbitrary: m ks)
  case (Cons r rs)
  have "r\<lparr>cr_revision := 0, cr_revision := cr_revision r\<rparr> = r" by simp
  with Cons.prems have "add_snapshot_record lib d env version (m, ks) r = Inr (fmupd (cr_key r) r m, ks @ [cr_key r])"
    by (simp add: add_snapshot_record_def record_published_def not_less)
  moreover have "rfold (add_snapshot_record lib d env version) (fmupd (cr_key r) r m, ks @ [cr_key r]) rs =
      Inr (store_records (fmupd (cr_key r) r m) rs, (ks @ [cr_key r]) @ map cr_key rs)"
    using Cons.prems by (intro Cons.IH) (auto simp: image_iff)
  ultimately show ?case by (simp add: store_records_def)
qed (simp add: store_records_def)

section \<open>Views\<close>

definition rule_published :: "string \<Rightarrow> string \<Rightarrow> u64 \<Rightarrow> overlay_rule \<Rightarrow> bool" where
  "rule_published name env version rule \<longleftrightarrow>
     ru_collection rule = name \<and> sc_environment (ru_scope rule) = env \<and> ru_revision rule \<noteq> 0 \<and>
     ru_revision rule \<le> version \<and> clone_overlay_rule rule = rule"

definition view_ok :: "scalar_lib \<Rightarrow> string \<Rightarrow> string \<Rightarrow> collection_view \<Rightarrow> bool" where
  "view_ok lib env name v \<longleftrightarrow>
     cd_name (cv_definition v) = name \<and> name \<noteq> [] \<and> cv_version v \<noteq> 0 \<and>
     collection_compiled lib (cv_definition v) \<and> cv_ordered v = sorted_keys (cv_records v) \<and>
     (\<forall>k r. fmlookup (cv_records v) k = Some r \<longrightarrow>
        cr_key r = k \<and> record_published lib (cv_definition v) env (cv_version v) r) \<and>
     compute_base_digest (view_records v) = Inr (cv_digest v) \<and>
     (\<forall>rule \<in> set (cv_rules v). rule_published name env (cv_version v) rule) \<and>
     sorted (cv_consumers v) \<and> distinct (cv_consumers v) \<and>
     (\<forall>c \<in> set (cv_consumers v). c \<noteq> [] \<and> trim_space c = c)"

lemma clone_overlay_rule_idem [simp]: "clone_overlay_rule (clone_overlay_rule rule) = clone_overlay_rule rule"
  by (simp add: clone_overlay_rule_def clone_data_def)

lemma add_snapshot_rules:
  assumes "rmap (add_snapshot_rule name env version) rules = Inr published"
  shows "published = map clone_overlay_rule rules \<and> (\<forall>r \<in> set published. rule_published name env version r)"
proof -
  have p: "p = clone_overlay_rule r \<and> rule_published name env version p"
    if "add_snapshot_rule name env version r = Inr p" for r p
    using that by (auto simp: add_snapshot_rule_def rule_published_def clone_overlay_rule_def clone_data_def
      not_less split: if_splits)
  have "list_all2 (\<lambda>r p. p = clone_overlay_rule r) rules published"
    using assms unfolding rmap_Inr_iff by (rule list_all2_mono) (use p in blast)
  then have "published = map clone_overlay_rule rules"
    by (induction rule: list_all2_induct) simp_all
  with p show ?thesis using rmap_in_set [OF assms] by blast
qed

lemma add_snapshot_rules_again:
  "\<forall>r \<in> set rules. rule_published name env version r \<Longrightarrow> rmap (add_snapshot_rule name env version) rules = Inr rules"
  by (induction rules) (simp_all add: add_snapshot_rule_def rule_published_def not_less)

lemma view_records_keys:
  assumes "cv_ordered v = sorted_keys (cv_records v)"
    and "\<And>k r. fmlookup (cv_records v) k = Some r \<Longrightarrow> cr_key r = k"
  shows "map cr_key (view_records v) = cv_ordered v"
    and "set (view_records v) = {r. fmlookup (cv_records v) (cr_key r) = Some r}"
proof -
  have *: "\<exists>r. fmlookup (cv_records v) k = Some r \<and> cr_key r = k" if "k \<in> set (cv_ordered v)" for k
    using that assms by (auto simp: fmlookup_dom_iff)
  then show "map cr_key (view_records v) = cv_ordered v"
    unfolding view_records_def by (auto intro!: map_idI dest!: *)
  show "set (view_records v) = {r. fmlookup (cv_records v) (cr_key r) = Some r}"
    using assms by (force simp: view_records_def fmlookup_dom_iff image_iff)
qed

lemma build_view_facts:
  assumes "lib_canonical lib" "collection_compiled lib (ci_definition input)" "trim_space env = env"
    and "build_view lib env input = Inr v" "cd_name (ci_definition input) \<noteq> []" "ci_version input \<noteq> 0"
    and "\<forall>r \<in> set (ci_records input). record_returns lib (ci_definition input) env r"
  shows "view_ok lib env (cd_name (ci_definition input)) v \<and> cv_consumers v = [] \<and>
    cv_definition v = ci_definition input \<and> cv_version v = ci_version input \<and> cv_cursor v = ci_cursor input \<and>
    cv_rules v = map clone_overlay_rule (ci_rules input) \<and>
    (\<exists>cs. list_all2 (publishes lib (ci_definition input) env (ci_version input)) (ci_records input) cs \<and>
       set cs = set (view_records v))"
proof -
  let ?d = "ci_definition input" and ?n = "ci_version input"
  from assms(4) obtain m ks dg rules where *:
    "rfold (add_snapshot_record lib ?d env ?n) (fmempty, []) (ci_records input) = Inr (m, ks)"
    "rmap (add_snapshot_rule (cd_name ?d) env ?n) (ci_rules input) = Inr rules"
    "compute_base_digest (map (\<lambda>k. the (fmlookup m k)) (sort ks)) = Inr dg"
    "v = \<lparr>cv_definition = ?d, cv_version = ?n, cv_cursor = ci_cursor input, cv_digest = dg, cv_records = m,
          cv_ordered = sort ks, cv_rules = rules, cv_consumers = []\<rparr>"
    by (auto simp: build_view_def rbind_Inr_iff Let_def view_records_def)
  obtain cs where cs: "list_all2 (publishes lib ?d env ?n) (ci_records input) cs" "m = store_records fmempty cs"
    "ks = map cr_key cs" "distinct ks"
    using add_snapshot_records_Inr [OF assms(1-3,7) *(1)] by auto
  have lookup: "fmlookup m k = Some r \<longleftrightarrow> r \<in> set cs \<and> cr_key r = k" for k r
    using cs by (simp add: store_records_lookup)
  have dom: "fset (fmdom m) = set ks"
    using lookup cs(3) by (auto simp: fmlookup_dom_iff)
  then have ordered: "sort ks = sorted_keys m"
    using cs(4) sorted_keys_sorted [of m] by (intro sorted_distinct_set_unique) simp_all
  have published: "record_published lib ?d env ?n r" if "r \<in> set cs" for r
    using that cs(1) by (auto simp: publishes_def dest: list_all2_setD2)
  have "set (view_records v) = {r. fmlookup m (cr_key r) = Some r}"
    using view_records_keys(2) [of v] lookup ordered *(4) by simp
  then have "set (view_records v) = set cs" using lookup by auto
  moreover have "compute_base_digest (view_records v) = Inr dg" using *(3,4) by (simp add: view_records_def)
  moreover note add_snapshot_rules [OF *(2)]
  ultimately show ?thesis
    using assms(2,5,6) cs(1) lookup published ordered *(4) unfolding view_ok_def by auto
qed

text \<open>A published view is built again from its own state.\<close>

lemma store_records_view:
  assumes "view_ok lib env name v"
  shows "store_records fmempty (view_records v) = cv_records v"
proof (rule fmap_eqI)
  fix k
  have keys: "cv_ordered v = sorted_keys (cv_records v)" "\<And>k r. fmlookup (cv_records v) k = Some r \<Longrightarrow> cr_key r = k"
    using assms by (auto simp: view_ok_def)
  have "distinct (map cr_key (view_records v))"
    using view_records_keys(1) [OF keys] keys(1) sorted_keys_sorted by simp
  then have "fmlookup (store_records fmempty (view_records v)) k = Some r \<longleftrightarrow> fmlookup (cv_records v) k = Some r" for r
    unfolding store_records_lookup [OF \<open>distinct (map cr_key (view_records v))\<close>]
    using view_records_keys(2) [OF keys] keys(2) [of k r] by (auto simp del: not_None_eq)
  then show "fmlookup (store_records fmempty (view_records v)) k = fmlookup (cv_records v) k"
    by (metis option.exhaust)
qed

lemma clone_snapshot_record_published [simp]:
  "cr_data r \<noteq> None \<Longrightarrow> clone_snapshot_record r = r"
  by (cases r) (auto simp: clone_snapshot_record_def)

lemma build_view_again:
  assumes "view_ok lib env name v"
  shows "build_view lib env (view_input s name v) = Inr (v\<lparr>cv_consumers := []\<rparr>)"
proof -
  let ?u = "\<lparr>cv_definition = cv_definition v, cv_version = cv_version v, cv_cursor = cv_cursor v,
    cv_digest = \<lparr>dg_algorithm = [], dg_value = []\<rparr>, cv_records = cv_records v,
    cv_ordered = cv_ordered v, cv_rules = [], cv_consumers = []\<rparr>"
  have keys: "cv_ordered v = sorted_keys (cv_records v)" "\<And>k r. fmlookup (cv_records v) k = Some r \<Longrightarrow> cr_key r = k"
    using assms by (auto simp: view_ok_def)
  note vr = view_records_keys [OF keys]
  have published: "\<forall>r \<in> set (view_records v). record_published lib (cv_definition v) env (cv_version v) r"
    using assms vr(2) by (auto simp: view_ok_def)
  then have clone: "map clone_snapshot_record (view_records v) = view_records v"
    by (intro map_idI) (simp add: record_published_def del: not_None_eq)
  have "distinct (map cr_key (view_records v))" using vr(1) keys(1) sorted_keys_sorted by simp
  from add_snapshot_records_again [OF published this, of fmempty "[]"]
  have rs: "rfold (add_snapshot_record lib (cv_definition v) env (cv_version v)) (fmempty, []) (view_records v) =
      Inr (cv_records v, cv_ordered v)"
    using vr(1) store_records_view [OF assms] by simp
  have sorted: "sort (cv_ordered v) = cv_ordered v"
    using keys(1) sorted_keys_sorted(1) [of "cv_records v"] by (simp add: sorted_sort_id)
  have rules: "\<forall>r \<in> set (cv_rules v). rule_published name env (cv_version v) r" "cd_name (cv_definition v) = name"
    using assms by (simp_all add: view_ok_def)
  then have "map clone_overlay_rule (cv_rules v) = cv_rules v"
    by (intro map_idI) (simp add: rule_published_def)
  with rs sorted clone add_snapshot_rules_again [OF rules(1)] rules(2)
  have "build_view lib env (view_input s name v) =
      rbind (compute_base_digest (view_records ?u)) (\<lambda>dg. Inr (?u\<lparr>cv_digest := dg, cv_rules := cv_rules v\<rparr>))"
    by (simp add: build_view_def view_input_def Let_def)
  moreover have "compute_base_digest (view_records ?u) = Inr (cv_digest v)"
  proof -
    have "view_records ?u = view_records v" by (simp add: view_records_def)
    with assms show ?thesis by (simp add: view_ok_def)
  qed
  ultimately show ?thesis by (cases v) simp
qed

section \<open>Consumers and models\<close>

lemma add_consumers_Inr:
  assumes "rfold (add_consumer name deliver) (seen, auth) raws = Inr (cs, auth')" "distinct seen"
    and "\<forall>c \<in> set seen. c \<noteq> []"
  shows "cs = seen @ map trim_space raws \<and> distinct cs \<and> (\<forall>c \<in> set cs. c \<noteq> []) \<and>
    (\<forall>c. read_list auth' c = read_list auth c @ (if deliver \<and> c \<in> trim_space ` set raws then [name] else []))"
  using assms
proof (induction raws arbitrary: seen auth)
  case Nil
  then show ?case by simp
next
  case (Cons raw raws)
  from Cons.prems(1) obtain st where st: "add_consumer name deliver (seen, auth) raw = Inr st"
    "rfold (add_consumer name deliver) st raws = Inr (cs, auth')" by (auto simp: rbind_Inr_iff)
  define auth1 where
    "auth1 = (if deliver then fmupd (trim_space raw) (read_list auth (trim_space raw) @ [name]) auth else auth)"
  have "trim_space raw \<noteq> []" "trim_space raw \<notin> set seen" "st = (seen @ [trim_space raw], auth1)"
    using st(1) by (simp_all add: add_consumer_def Let_def auth1_def split: if_split_asm)
  with st(2) have *: "trim_space raw \<noteq> []" "trim_space raw \<notin> set seen"
    "rfold (add_consumer name deliver) (seen @ [trim_space raw], auth1) raws = Inr (cs, auth')" by simp_all
  have ih: "cs = (seen @ [trim_space raw]) @ map trim_space raws \<and> distinct cs \<and> (\<forall>c \<in> set cs. c \<noteq> []) \<and>
    (\<forall>c. read_list auth' c = read_list auth1 c @ (if deliver \<and> c \<in> trim_space ` set raws then [name] else []))"
    using * Cons.prems(2,3) by (intro Cons.IH) auto
  moreover have "read_list auth1 c = read_list auth c @ (if deliver \<and> c = trim_space raw then [name] else [])" for c
    by (simp add: read_list_def auth1_def)
  moreover have "trim_space raw \<notin> trim_space ` set raws"
  proof -
    from ih have "distinct ((seen @ [trim_space raw]) @ map trim_space raws)" by metis
    then show ?thesis by simp
  qed
  ultimately have "read_list auth' c =
      read_list auth c @ (if deliver \<and> c \<in> trim_space ` set (raw # raws) then [name] else [])" for c
    by simp
  moreover have "cs = seen @ map trim_space (raw # raws)" using ih by simp
  ultimately show ?case using ih by blast
qed

lemma add_snapshot_models_Inr:
  assumes "rfold (add_snapshot_model name) ms models = Inr ms'"
  shows "(\<forall>m \<in> set models. cm_collection m = name) \<and>
    (\<forall>code m. fmlookup ms' code = Some m \<longleftrightarrow> (m \<in> set models \<and> cm_code m = code) \<or> fmlookup ms code = Some m)"
  using assms
proof (induction models arbitrary: ms)
  case (Cons x models)
  from Cons.prems obtain st where st: "add_snapshot_model name ms x = Inr st"
    "rfold (add_snapshot_model name) st models = Inr ms'" by (auto simp: rbind_Inr_iff)
  then have x: "cm_collection x = name" "fmlookup ms (cm_code x) = None"
    "rfold (add_snapshot_model name) (fmupd (cm_code x) x ms) models = Inr ms'"
    by (simp_all add: add_snapshot_model_def fmdom_notD split: if_split_asm)
  from Cons.IH [OF x(3)] x(1,2) show ?case by auto
qed simp

section \<open>A candidate snapshot\<close>

definition input_name :: "collection_input \<Rightarrow> string" where
  "input_name input = cd_name (ci_definition input)"

text \<open>The view an input is published as.\<close>

definition input_view :: "scalar_lib \<Rightarrow> string \<Rightarrow> collection_input \<Rightarrow> catalog_error + collection_view" where
  "input_view lib env input =
     rbind (build_view lib env input) (\<lambda>v.
     Inr (v\<lparr>cv_consumers := sort (map trim_space (ci_consumers input))\<rparr>))"

definition input_ok :: "scalar_lib \<Rightarrow> string \<Rightarrow> collection_input \<Rightarrow> bool" where
  "input_ok lib env input \<longleftrightarrow>
     input_name input \<noteq> [] \<and> ci_version input \<noteq> 0 \<and> is_ok (build_view lib env input) \<and>
     distinct (map trim_space (ci_consumers input)) \<and> (\<forall>c \<in> set (ci_consumers input). trim_space c \<noteq> []) \<and>
     (\<forall>m \<in> set (ci_models input). cm_collection m = input_name input)"

definition delivered :: "collection_input \<Rightarrow> string \<Rightarrow> bool" where
  "delivered input c \<longleftrightarrow> cd_sdk_delivery (ci_definition input) \<and> c \<in> trim_space ` set (ci_consumers input)"

definition candidate_of :: "scalar_lib \<Rightarrow> string \<Rightarrow> collection_input list \<Rightarrow> snapshot \<Rightarrow> bool" where
  "candidate_of lib env ins s \<longleftrightarrow>
     distinct (map input_name ins) \<and> (\<forall>input \<in> set ins. input_ok lib env input) \<and>
     (\<forall>name v. fmlookup (sn_collections s) name = Some v \<longleftrightarrow>
        (\<exists>input \<in> set ins. input_name input = name \<and> input_view lib env input = Inr v)) \<and>
     (\<forall>code m. fmlookup (sn_models s) code = Some m \<longleftrightarrow>
        (\<exists>input \<in> set ins. m \<in> set (ci_models input) \<and> cm_code m = code)) \<and>
     (\<forall>c. set (read_list (sn_authorized s) c) = input_name ` {input \<in> set ins. delivered input c} \<and>
        distinct (read_list (sn_authorized s) c))"

lemma candidate_names:
  assumes "candidate_of lib env ins s"
  shows "fset (fmdom (sn_collections s)) = input_name ` set ins"
proof -
  have "\<exists>v. input_view lib env input = Inr v" if "input \<in> set ins" for input
    using that assms by (auto simp: candidate_of_def input_ok_def input_view_def is_ok_iff)
  then show ?thesis
    using assms by (fastforce simp: candidate_of_def fmlookup_dom_iff)
qed

lemma add_collection_candidate:
  assumes "candidate_of lib env ins s" "add_collection lib env s input = Inr s'"
  shows "candidate_of lib env (ins @ [input]) s' \<and> sn_identity s' = sn_identity s \<and>
    sn_environment s' = sn_environment s"
proof -
  from assms(2) obtain v cs auth models where *:
    "input_name input \<noteq> []" "ci_version input \<noteq> 0" "input_name input |\<notin>| fmdom (sn_collections s)"
    "build_view lib env input = Inr v"
    "rfold (add_consumer (input_name input) (cd_sdk_delivery (ci_definition input)))
       ([], sn_authorized s) (ci_consumers input) = Inr (cs, auth)"
    "rfold (add_snapshot_model (input_name input)) (sn_models s) (ci_models input) = Inr models"
    "s' = s\<lparr>sn_collections := fmupd (input_name input) (v\<lparr>cv_consumers := sort cs\<rparr>) (sn_collections s),
            sn_authorized := auth, sn_models := models\<rparr>"
    by (auto simp: add_collection_def input_name_def Let_def rbind_Inr_iff split: if_splits)
  note c = add_consumers_Inr [OF *(5), simplified]
  note m = add_snapshot_models_Inr [OF *(6)]
  have new: "input_name input \<notin> input_name ` set ins"
    using *(3) candidate_names [OF assms(1)] by simp
  have "input_ok lib env input"
    using * c m by (auto simp: input_ok_def is_ok_iff)
  moreover have "fmlookup (sn_collections s') name = Some w \<longleftrightarrow>
      (\<exists>i \<in> set (ins @ [input]). input_name i = name \<and> input_view lib env i = Inr w)" for name w
  proof -
    have "input_view lib env input = Inr (v\<lparr>cv_consumers := sort cs\<rparr>)"
      using *(4) c by (simp add: input_view_def)
    with assms(1) new *(7) show ?thesis by (auto simp: candidate_of_def image_iff)
  qed
  moreover have "fmlookup (sn_models s') code = Some w \<longleftrightarrow>
      (\<exists>i \<in> set (ins @ [input]). w \<in> set (ci_models i) \<and> cm_code w = code)" for code w
    using assms(1) m *(7) by (auto simp: candidate_of_def)
  moreover have "set (read_list (sn_authorized s') x) = input_name ` {i \<in> set (ins @ [input]). delivered i x} \<and>
      distinct (read_list (sn_authorized s') x)" for x
  proof -
    have "read_list auth x = read_list (sn_authorized s) x @ (if delivered input x then [input_name input] else [])"
      using c by (simp add: delivered_def)
    moreover have "{i \<in> set (ins @ [input]). delivered i x} =
        {i \<in> set ins. delivered i x} \<union> (if delivered input x then {input} else {})" by auto
    ultimately show ?thesis using assms(1) new *(7) by (auto simp: candidate_of_def)
  qed
  ultimately show ?thesis
    using assms(1) new *(7) unfolding candidate_of_def by simp
qed

lemma add_collections_candidate:
  assumes "candidate_of lib env ins s" "rfold (add_collection lib env) s rest = Inr s'"
  shows "candidate_of lib env (ins @ rest) s' \<and> sn_identity s' = sn_identity s \<and>
    sn_environment s' = sn_environment s"
  using assms
proof (induction rest arbitrary: ins s)
  case (Cons input rest)
  then obtain t where "add_collection lib env s input = Inr t" "rfold (add_collection lib env) t rest = Inr s'"
    by (auto simp: rbind_Inr_iff)
  with add_collection_candidate [OF Cons.prems(1)] Cons.IH [of "ins @ [input]" t] show ?case by simp
qed simp

lemma read_list_sort: "read_list (fmmap sort m) c = sort (read_list m c)"
  by (simp add: read_list_def split: option.split)

lemma build_snapshot_Inr:
  assumes "build_snapshot lib seed g now env ins = Inr s"
  shows "candidate_of lib env ins s" "sn_identity s = make_identity seed g now" "sn_environment s = env"
    "validate_option_dependencies lib s = Inr ()" "sorted (read_list (sn_authorized s) c)"
proof -
  from assms obtain t where t:
    "rfold (add_collection lib env) (empty_snapshot (make_identity seed g now) env) ins = Inr t"
    "s = t\<lparr>sn_authorized := fmmap sort (sn_authorized t)\<rparr>" "validate_option_dependencies lib s = Inr ()"
    by (auto simp: build_snapshot_def rbind_Inr_iff Let_def)
  have "candidate_of lib env [] (empty_snapshot (make_identity seed g now) env)"
    by (simp add: candidate_of_def empty_snapshot_def read_list_def)
  from add_collections_candidate [OF this t(1)]
  have c: "candidate_of lib env ins t" "sn_identity t = make_identity seed g now" "sn_environment t = env"
    by (simp_all add: empty_snapshot_def)
  then show "candidate_of lib env ins s" using t(2) by (simp add: candidate_of_def read_list_sort)
  show "sn_identity s = make_identity seed g now" "sn_environment s = env"
    "validate_option_dependencies lib s = Inr ()" "sorted (read_list (sn_authorized s) c)"
    using c t(2,3) by (simp_all add: read_list_sort)
qed

end
