(* ===== verification/Replaceable.thy ===== *)
theory Replaceable
  imports Go_Prelude
begin

text \<open>
  The contract of a cell that holds a published value: an attempt to replace the value either
  fails and leaves it, or installs a value as valid as the command it was made from. The
  snapshot manager of the server and the client of the SDK are such cells.
\<close>

locale replaceable =
  fixes held :: "'s \<Rightarrow> 'v"
    and attempt :: "'s \<Rightarrow> 'c \<Rightarrow> 's \<times> ('e + 'r)"
    and sound :: "'v \<Rightarrow> bool"
    and fit :: "'c \<Rightarrow> bool"
  assumes failure_keeps: "attempt s c = (t, Inl e) \<Longrightarrow> held t = held s"
    and success_sound: "attempt s c = (t, Inr r) \<Longrightarrow> sound (held s) \<Longrightarrow> fit c \<Longrightarrow> sound (held t)"
begin

definition run :: "'s \<Rightarrow> 'c list \<Rightarrow> 's" where
  "run s cs = foldl (\<lambda>s c. fst (attempt s c)) s cs"

lemma attempt_sound:
  assumes "sound (held s)" "fit c"
  shows "sound (held (fst (attempt s c)))"
proof (cases "attempt s c")
  case (Pair t r)
  with assms show ?thesis
    using failure_keeps [of s c t] success_sound [of s c t] by (cases r) auto
qed

lemma run_sound: "sound (held s) \<Longrightarrow> list_all fit cs \<Longrightarrow> sound (held (run s cs))"
  unfolding run_def by (induction cs arbitrary: s) (simp_all add: attempt_sound)

end

end
