(* ===== verification/Snapshot_Refresh.thy ===== *)
theory Snapshot_Refresh
  imports Snapshot_Facts Replaceable
begin

text \<open>
  The invariant of published snapshots, that every refresh keeps it, and that a partial refresh
  leaves the collections of a failed dependency group as they were.
\<close>

definition subscriptions :: "snapshot \<Rightarrow> string \<Rightarrow> string set" where
  "subscriptions s c =
     {name. \<exists>v. fmlookup (sn_collections s) name = Some v \<and> cd_sdk_delivery (cv_definition v) \<and>
        c \<in> set (cv_consumers v)}"

definition snapshot_ok :: "scalar_lib \<Rightarrow> snapshot \<Rightarrow> bool" where
  "snapshot_ok lib s \<longleftrightarrow>
     (\<forall>name v. fmlookup (sn_collections s) name = Some v \<longrightarrow> view_ok lib (sn_environment s) name v) \<and>
     (\<forall>code m. fmlookup (sn_models s) code = Some m \<longrightarrow>
        cm_code m = code \<and> cm_collection m |\<in>| fmdom (sn_collections s)) \<and>
     (\<forall>c. sorted (read_list (sn_authorized s) c) \<and> distinct (read_list (sn_authorized s) c) \<and>
        set (read_list (sn_authorized s) c) = subscriptions s c) \<and>
     validate_option_dependencies lib s = Inr ()"

definition inputs_compiled :: "scalar_lib \<Rightarrow> collection_input list \<Rightarrow> bool" where
  "inputs_compiled lib ins \<longleftrightarrow> (\<forall>input \<in> set ins. collection_compiled lib (ci_definition input))"

definition input_returns :: "scalar_lib \<Rightarrow> string \<Rightarrow> collection_input \<Rightarrow> bool" where
  "input_returns lib env input \<longleftrightarrow> (\<forall>r \<in> set (ci_records input). record_returns lib (ci_definition input) env r)"

lemma input_view_ok:
  assumes "lib_canonical lib" "collection_compiled lib (ci_definition input)" "trim_space env = env"
    and "input_ok lib env input" "input_view lib env input = Inr v" "input_returns lib env input"
  shows "view_ok lib env (input_name input) v \<and> cv_definition v = ci_definition input \<and>
    set (cv_consumers v) = trim_space ` set (ci_consumers input)"
proof -
  from assms(5) obtain w where w: "build_view lib env input = Inr w"
    "v = w\<lparr>cv_consumers := sort (map trim_space (ci_consumers input))\<rparr>"
    by (auto simp: input_view_def rbind_Inr_iff)
  have "view_ok lib env (input_name input) w" "cv_definition w = ci_definition input"
    using build_view_facts [OF assms(1-3) w(1)] assms(4,6) by (simp_all add: input_ok_def input_name_def input_returns_def)
  moreover have "view_records v = view_records w" by (simp add: w(2) view_records_def)
  moreover have "\<forall>c \<in> set (ci_consumers input). trim_space c \<noteq> []" "distinct (map trim_space (ci_consumers input))"
    using assms(4) by (simp_all add: input_ok_def)
  ultimately show ?thesis
    by (simp add: view_ok_def w(2))
qed

lemma build_snapshot_ok:
  assumes "lib_canonical lib" "inputs_compiled lib ins" "trim_space env = env"
    and "\<forall>input \<in> set ins. input_returns lib env input"
    and "build_snapshot lib seed g now env ins = Inr s"
  shows "snapshot_ok lib s"
proof -
  note b = build_snapshot_Inr [OF assms(5)]
  have c: "input_ok lib env input" "collection_compiled lib (ci_definition input)" "input_returns lib env input"
    if "input \<in> set ins" for input
    using that b(1) assms(2,4) by (simp_all add: candidate_of_def inputs_compiled_def)
  have view: "view_ok lib (sn_environment s) name v" if "fmlookup (sn_collections s) name = Some v" for name v
  proof -
    from that b(1) obtain input where i: "input \<in> set ins" "input_name input = name" "input_view lib env input = Inr v"
      by (auto simp: candidate_of_def)
    show ?thesis using input_view_ok [OF assms(1) c(2) assms(3) c(1) i(3) c(3)] i(1,2) b(3) by simp
  qed
  have models: "cm_code m = code \<and> cm_collection m |\<in>| fmdom (sn_collections s)"
    if m: "fmlookup (sn_models s) code = Some m" for code m
  proof -
    from m b(1) obtain input where "input \<in> set ins" "m \<in> set (ci_models input)" "cm_code m = code"
      by (auto simp: candidate_of_def)
    with c(1) candidate_names [OF b(1)] show ?thesis by (auto simp: input_ok_def)
  qed
  have "set (read_list (sn_authorized s) x) = subscriptions s x" for x
  proof -
    have "input_name ` {input \<in> set ins. delivered input x} = subscriptions s x"
    proof (intro set_eqI iffI)
      fix n assume "n \<in> input_name ` {input \<in> set ins. delivered input x}"
      then obtain i where i: "i \<in> set ins" "delivered i x" "n = input_name i" by blast
      from c(1) [OF i(1)] obtain v where v: "input_view lib env i = Inr v"
        by (auto simp: input_ok_def input_view_def is_ok_iff)
      with i b(1) have "fmlookup (sn_collections s) n = Some v" by (auto simp: candidate_of_def)
      with input_view_ok [OF assms(1) c(2) assms(3) c(1) v c(3)] i show "n \<in> subscriptions s x"
        by (auto simp: subscriptions_def delivered_def)
    next
      fix n assume "n \<in> subscriptions s x"
      then obtain v where v: "fmlookup (sn_collections s) n = Some v" "cd_sdk_delivery (cv_definition v)"
        "x \<in> set (cv_consumers v)" by (auto simp: subscriptions_def)
      with b(1) obtain i where i: "i \<in> set ins" "input_name i = n" "input_view lib env i = Inr v"
        by (auto simp: candidate_of_def)
      with input_view_ok [OF assms(1) c(2) assms(3) c(1) i(3) c(3)] v
      show "n \<in> input_name ` {input \<in> set ins. delivered input x}" by (auto simp: delivered_def)
    qed
    with b(1) show ?thesis by (simp add: candidate_of_def)
  qed
  then show ?thesis
    using view models b(1,4,5) by (simp add: snapshot_ok_def candidate_of_def)
qed

section \<open>Partial refreshes\<close>

text \<open>What a group contributes to the candidate.\<close>

definition group_inputs ::
  "snapshot \<Rightarrow> (string, collection_input) fmap \<Rightarrow> (string list \<Rightarrow> catalog_error option) \<Rightarrow> string list
     \<Rightarrow> collection_input list" where
  "group_inputs previous incoming outcome grp =
     (if outcome grp = None then inputs_for_group grp incoming else previous_inputs previous grp)"

lemma refresh_groups:
  assumes "outcome = group_outcome lib seed previous now env incoming failures"
  shows "foldl (refresh_group lib seed previous now env incoming failures) (acc, failed, n) groups =
    (acc @ concat (map (group_inputs previous incoming outcome) groups),
     failed @ map (\<lambda>grp. \<lparr>gf_collections = grp, gf_reason = the (outcome grp)\<rparr>) (filter (\<lambda>grp. outcome grp \<noteq> None) groups),
     n + length (filter (\<lambda>grp. outcome grp = None) groups))"
  by (induction groups arbitrary: acc failed n)
    (auto simp: refresh_group_def assms group_inputs_def split: option.splits)

lemma index_inputs:
  assumes "rfold index_input m ins = Inr m'" "\<forall>n i. fmlookup m n = Some i \<longrightarrow> input_name i = n"
  shows "\<forall>n i. fmlookup m' n = Some i \<longleftrightarrow> (i \<in> set ins \<and> input_name i = n) \<or> fmlookup m n = Some i"
    and "\<forall>n i. fmlookup m' n = Some i \<longrightarrow> input_name i = n"
proof -
  show *: "\<forall>n i. fmlookup m' n = Some i \<longleftrightarrow> (i \<in> set ins \<and> input_name i = n) \<or> fmlookup m n = Some i"
    using assms(1)
  proof (induction ins arbitrary: m)
    case (Cons x ins)
    from Cons.prems obtain t where t: "index_input m x = Inr t" "rfold index_input t ins = Inr m'"
      by (auto simp: rbind_Inr_iff)
    then have "t = fmupd (input_name x) x m" "fmlookup m (input_name x) = None"
      by (auto simp: index_input_def Let_def input_name_def fmdom_notD split: if_split_asm)
    with Cons.IH [OF t(2)] show ?case by auto
  qed simp
  with assms(2) show "\<forall>n i. fmlookup m' n = Some i \<longrightarrow> input_name i = n" by blast
qed

lemma in_map_filter: "y \<in> set (List.map_filter f xs) \<longleftrightarrow> (\<exists>x \<in> set xs. f x = Some y)"
  by (force simp: List.map_filter_def)

lemma view_input_name [simp]: "view_ok lib env n v \<Longrightarrow> input_name (view_input s n v) = n"
  by (simp add: input_name_def view_input_def view_ok_def)

lemma view_input_view:
  assumes "view_ok lib env n v"
  shows "input_view lib env (view_input s n v) = Inr v"
proof -
  have "map trim_space (cv_consumers v) = cv_consumers v"
    using assms by (intro map_idI) (simp add: view_ok_def)
  moreover have "sort (cv_consumers v) = cv_consumers v"
    using assms by (intro sorted_sort_id) (simp add: view_ok_def)
  ultimately show ?thesis
    using build_view_again [OF assms] by (simp add: input_view_def view_input_def)
qed

text \<open>The inputs of a candidate, by the name of the collection they publish.\<close>

lemma group_inputs_named:
  assumes "snapshot_ok lib previous" "\<forall>n i. fmlookup incoming n = Some i \<longrightarrow> input_name i = n"
  shows "i \<in> set (group_inputs previous incoming outcome grp) \<longleftrightarrow>
    input_name i \<in> set grp \<and>
    (if outcome grp = None then fmlookup incoming (input_name i) = Some i
     else \<exists>v. fmlookup (sn_collections previous) (input_name i) = Some v \<and> i = view_input previous (input_name i) v)"
proof (cases "outcome grp = None")
  case True
  then show ?thesis
    using assms(2) by (auto simp: group_inputs_def inputs_for_group_def in_map_filter)
next
  case False
  have "input_name (view_input previous n v) = n" if "fmlookup (sn_collections previous) n = Some v" for n v
    using that assms(1) view_input_name unfolding snapshot_ok_def by blast
  with False show ?thesis
    by (simp add: group_inputs_def previous_inputs_def in_map_filter del: not_None_eq) metis
qed

lemma build_partial_snapshot_Inr:
  assumes "build_partial_snapshot lib seed previous now env loaded = Inr (s, failed)"
    and "snapshot_ok lib previous"
  obtains incoming outcome failures where
    "rfold index_input fmempty (el_inputs loaded) = Inr incoming"
    "failed = map (\<lambda>grp. \<lparr>gf_collections = grp, gf_reason = the (outcome grp)\<rparr>)
       (filter (\<lambda>grp. outcome grp \<noteq> None) (dependency_groups previous incoming failures))"
    "build_snapshot lib seed (id_generation (sn_identity previous) + 1) now env
       (concat (map (group_inputs previous incoming outcome) (dependency_groups previous incoming failures))) = Inr s"
    "\<exists>grp \<in> set (dependency_groups previous incoming failures). outcome grp = None"
proof -
  from assms(1) obtain incoming failures where *:
    "rfold index_input fmempty (el_inputs loaded) = Inr incoming"
    "(case foldl (refresh_group lib seed previous now env incoming failures) ([], [], 0)
            (dependency_groups previous incoming failures) of
       (accepted, failed, successes) \<Rightarrow>
         if successes = 0 then Inl STR ''refresh partial snapshot: all dependency groups failed: %s''
         else rbind (build_snapshot lib seed (id_generation (sn_identity previous) + 1) now env accepted)
                (\<lambda>candidate. Inr (candidate, failed))) = Inr (s, failed)"
    unfolding build_partial_snapshot_def rbind_Inr_iff by blast
  let ?o = "group_outcome lib seed previous now env incoming failures"
  let ?gs = "dependency_groups previous incoming failures"
  define accepted where "accepted = concat (map (group_inputs previous incoming ?o) ?gs)"
  define losses where
    "losses = map (\<lambda>grp. \<lparr>gf_collections = grp, gf_reason = the (?o grp)\<rparr>) (filter (\<lambda>grp. ?o grp \<noteq> None) ?gs)"
  define n where "n = length (filter (\<lambda>grp. ?o grp = None) ?gs)"
  have "foldl (refresh_group lib seed previous now env incoming failures) ([], [], 0) ?gs = (accepted, losses, n)"
    unfolding refresh_groups [OF refl] accepted_def losses_def n_def by (simp only: append_Nil add_0)
  with *(2) have "n \<noteq> 0 \<and> failed = losses \<and>
      build_snapshot lib seed (id_generation (sn_identity previous) + 1) now env accepted = Inr s"
    by (auto simp: rbind_Inr_iff split: if_split_asm)
  then have r: "build_snapshot lib seed (id_generation (sn_identity previous) + 1) now env accepted = Inr s"
    "failed = losses" "n \<noteq> 0" by simp_all
  then have "\<exists>grp \<in> set ?gs. ?o grp = None" by (auto simp: n_def filter_empty_conv)
  with *(1) r(1,2) show ?thesis unfolding accepted_def losses_def by (intro that)
qed

text \<open>A collection lies in at most one group, and every collection that is loaded lies in one.\<close>

lemma groups_disjoint:
  assumes "grp \<in> set (dependency_groups previous incoming failures)" "n \<in> set grp"
    and "grp' \<in> set (dependency_groups previous incoming failures)" "n \<in> set grp'"
  shows "grp = grp'"
proof (rule ccontr)
  assume "grp \<noteq> grp'"
  have "distinct (concat (dependency_groups previous incoming failures))"
    unfolding dependency_groups_def by (rule graph_groups_components) (rule dependency_graph_facts)
  with assms \<open>grp \<noteq> grp'\<close> show False unfolding distinct_concat_iff by blast
qed

lemma groups_cover:
  "set (concat (dependency_groups previous incoming failures)) = dependency_names previous incoming failures"
  unfolding dependency_groups_def
  using graph_groups_components(2) [OF dependency_graph_facts(1)] dependency_graph_nodes by simp

lemma accepted_by_group:
  assumes "snapshot_ok lib previous" "\<forall>n i. fmlookup incoming n = Some i \<longrightarrow> input_name i = n"
    and "gs = dependency_groups previous incoming failures" "grp \<in> set gs" "n \<in> set grp"
  shows "i \<in> set (concat (map (group_inputs previous incoming outcome) gs)) \<and> input_name i = n \<longleftrightarrow>
    i \<in> set (group_inputs previous incoming outcome grp) \<and> input_name i = n"
proof -
  have "grp' = grp" if "grp' \<in> set gs" "i \<in> set (group_inputs previous incoming outcome grp')" "input_name i = n" for grp'
  proof -
    have "n \<in> set grp'" using that group_inputs_named [OF assms(1,2)] by blast
    with that(1) assms(3-5) groups_disjoint show ?thesis by blast
  qed
  with assms(4) show ?thesis by auto
qed

lemma view_models_iff:
  assumes "snapshot_ok lib s"
  shows "m \<in> set (view_models s n) \<longleftrightarrow> cm_collection m = n \<and> fmlookup (sn_models s) (cm_code m) = Some m"
proof -
  have "cm_code m = code" if "fmlookup (sn_models s) code = Some m" for code
    using that assms unfolding snapshot_ok_def by blast
  then show ?thesis by (auto simp: view_models_def set_sorted_values)
qed

lemma failed_group_kept:
  assumes ok: "snapshot_ok lib previous" "sn_environment previous = env"
    and names: "\<forall>n i. fmlookup incoming n = Some i \<longrightarrow> input_name i = n"
    and cand: "candidate_of lib env (concat (map (group_inputs previous incoming outcome) gs)) s"
    and gs: "gs = dependency_groups previous incoming failures" "grp \<in> set gs" "n \<in> set grp" "outcome grp \<noteq> None"
  shows "fmlookup (sn_collections s) n = fmlookup (sn_collections previous) n"
    and "cm_collection m = n \<Longrightarrow> fmlookup (sn_models s) code = Some m \<longleftrightarrow> fmlookup (sn_models previous) code = Some m"
proof -
  let ?ins = "concat (map (group_inputs previous incoming outcome) gs)"
  have i: "i \<in> set ?ins \<and> input_name i = n \<longleftrightarrow>
      (\<exists>v. fmlookup (sn_collections previous) n = Some v \<and> i = view_input previous n v)" for i
  proof -
    have "input_name (view_input previous n v) = n" if "fmlookup (sn_collections previous) n = Some v" for v
      using that ok(1) view_input_name unfolding snapshot_ok_def by blast
    then show ?thesis
      unfolding accepted_by_group [OF ok(1) names gs(1-3)] group_inputs_named [OF ok(1) names]
      using gs(3,4) by auto
  qed
  have view: "input_view lib env (view_input previous n v) = Inr v"
    if "fmlookup (sn_collections previous) n = Some v" for v
    using that ok view_input_view unfolding snapshot_ok_def by blast
  have "fmlookup (sn_collections s) n = Some v \<longleftrightarrow> fmlookup (sn_collections previous) n = Some v" for v
  proof -
    have "fmlookup (sn_collections s) n = Some v \<longleftrightarrow> (\<exists>i. (i \<in> set ?ins \<and> input_name i = n) \<and> input_view lib env i = Inr v)"
      using cand unfolding candidate_of_def by blast
    then show ?thesis unfolding i using view by auto
  qed
  then show "fmlookup (sn_collections s) n = fmlookup (sn_collections previous) n"
    by (metis option.exhaust)
  assume m: "cm_collection m = n"
  have models: "ci_models (view_input previous n v) = view_models previous n" for v
    by (simp add: view_input_def)
  have "fmlookup (sn_models s) code = Some m \<longleftrightarrow>
      (\<exists>i. (i \<in> set ?ins \<and> input_name i = n) \<and> m \<in> set (ci_models i) \<and> cm_code m = code)"
  proof -
    have "fmlookup (sn_models s) code = Some m \<longleftrightarrow> (\<exists>i \<in> set ?ins. m \<in> set (ci_models i) \<and> cm_code m = code)"
      using cand unfolding candidate_of_def by blast
    moreover have "input_name i = n" if "i \<in> set ?ins" "m \<in> set (ci_models i)" for i
      using cand that m unfolding candidate_of_def input_ok_def by metis
    ultimately show ?thesis by blast
  qed
  also have "\<dots> \<longleftrightarrow> (\<exists>v. fmlookup (sn_collections previous) n = Some v) \<and> m \<in> set (view_models previous n) \<and> cm_code m = code"
    unfolding i by (auto simp: models)
  also have "\<dots> \<longleftrightarrow> fmlookup (sn_models previous) code = Some m"
  proof -
    have "fmlookup (sn_models previous) code = Some m \<Longrightarrow> cm_code m = code \<and> (\<exists>v. fmlookup (sn_collections previous) n = Some v)"
      using ok(1) m unfolding snapshot_ok_def fmlookup_dom_iff by blast
    then show ?thesis unfolding view_models_iff [OF ok(1)] using m by blast
  qed
  finally show "fmlookup (sn_models s) code = Some m \<longleftrightarrow> fmlookup (sn_models previous) code = Some m" .
qed

lemma accepted_group_published:
  assumes ok: "snapshot_ok lib previous"
    and names: "\<forall>n i. fmlookup incoming n = Some i \<longrightarrow> input_name i = n"
    and cand: "candidate_of lib env (concat (map (group_inputs previous incoming outcome) gs)) s"
    and gs: "gs = dependency_groups previous incoming failures" "\<forall>grp \<in> set gs. n \<in> set grp \<longrightarrow> outcome grp = None"
    and "n \<noteq> []"
  shows "fmlookup (sn_collections s) n = Some v \<longleftrightarrow>
    (\<exists>i. fmlookup incoming n = Some i \<and> input_view lib env i = Inr v)"
proof -
  let ?ins = "concat (map (group_inputs previous incoming outcome) gs)"
  have i: "i \<in> set ?ins \<and> input_name i = n \<longleftrightarrow> fmlookup incoming n = Some i" for i
  proof
    assume "i \<in> set ?ins \<and> input_name i = n"
    then obtain grp where "grp \<in> set gs" "i \<in> set (group_inputs previous incoming outcome grp)" "input_name i = n" by auto
    with gs(2) show "fmlookup incoming n = Some i"
      unfolding group_inputs_named [OF ok names] by auto
  next
    assume l: "fmlookup incoming n = Some i"
    then have "n |\<in>| fmdom incoming" by (rule fmdomI)
    with \<open>n \<noteq> []\<close> have "n \<in> dependency_names previous incoming failures" by (simp add: dependency_names_def)
    then have "n \<in> set (concat gs)" using groups_cover gs(1) by simp
    then obtain grp where grp: "grp \<in> set gs" "n \<in> set grp" by auto
    have n: "input_name i = n" using l names by blast
    have "outcome grp = None" using gs(2) grp by blast
    then have "i \<in> set (group_inputs previous incoming outcome grp)"
      unfolding group_inputs_named [OF ok names] n using grp(2) l by simp
    with grp(1) n show "i \<in> set ?ins \<and> input_name i = n" by auto
  qed
  have "fmlookup (sn_collections s) n = Some v \<longleftrightarrow>
      (\<exists>i. (i \<in> set ?ins \<and> input_name i = n) \<and> input_view lib env i = Inr v)"
    using cand unfolding candidate_of_def by blast
  then show ?thesis unfolding i .
qed

lemma partial_snapshot_isolates:
  assumes "snapshot_ok lib previous" "sn_environment previous = env"
    and "build_partial_snapshot lib seed previous now env loaded = Inr (s, failed)"
  shows "\<forall>f \<in> set failed. \<forall>n \<in> set (gf_collections f).
      fmlookup (sn_collections s) n = fmlookup (sn_collections previous) n \<and>
      (\<forall>code m. cm_collection m = n \<longrightarrow>
         (fmlookup (sn_models s) code = Some m \<longleftrightarrow> fmlookup (sn_models previous) code = Some m))"
    and "\<forall>n v. n \<noteq> [] \<and> (\<forall>f \<in> set failed. n \<notin> set (gf_collections f)) \<longrightarrow>
      (fmlookup (sn_collections s) n = Some v \<longleftrightarrow>
        (\<exists>i \<in> set (el_inputs loaded). input_name i = n \<and> input_view lib env i = Inr v))"
    and "sn_identity s = make_identity seed (id_generation (sn_identity previous) + 1) now" "sn_environment s = env"
proof -
  from build_partial_snapshot_Inr [OF assms(3,1)] obtain incoming outcome failures where *:
    "rfold index_input fmempty (el_inputs loaded) = Inr incoming"
    "failed = map (\<lambda>grp. \<lparr>gf_collections = grp, gf_reason = the (outcome grp)\<rparr>)
       (filter (\<lambda>grp. outcome grp \<noteq> None) (dependency_groups previous incoming failures))"
    "build_snapshot lib seed (id_generation (sn_identity previous) + 1) now env
       (concat (map (group_inputs previous incoming outcome) (dependency_groups previous incoming failures))) = Inr s"
    by blast
  have idx: "fmlookup incoming n = Some i \<longleftrightarrow> i \<in> set (el_inputs loaded) \<and> input_name i = n" for n i
    using index_inputs(1) [OF *(1)] by simp
  then have names: "\<forall>n i. fmlookup incoming n = Some i \<longrightarrow> input_name i = n" by simp
  note cand = build_snapshot_Inr(1) [OF *(3)]
  have "fmlookup (sn_collections s) n = fmlookup (sn_collections previous) n \<and>
      (\<forall>code m. cm_collection m = n \<longrightarrow>
         (fmlookup (sn_models s) code = Some m \<longleftrightarrow> fmlookup (sn_models previous) code = Some m))"
    if "f \<in> set failed" "n \<in> set (gf_collections f)" for f n
  proof -
    from that *(2) obtain grp where grp: "grp \<in> set (dependency_groups previous incoming failures)"
      "n \<in> set grp" "outcome grp \<noteq> None" by auto
    show ?thesis using failed_group_kept [OF assms(1,2) names cand refl grp] by blast
  qed
  then show "\<forall>f \<in> set failed. \<forall>n \<in> set (gf_collections f).
      fmlookup (sn_collections s) n = fmlookup (sn_collections previous) n \<and>
      (\<forall>code m. cm_collection m = n \<longrightarrow>
         (fmlookup (sn_models s) code = Some m \<longleftrightarrow> fmlookup (sn_models previous) code = Some m))" by blast
  have "fmlookup (sn_collections s) n = Some v \<longleftrightarrow>
      (\<exists>i \<in> set (el_inputs loaded). input_name i = n \<and> input_view lib env i = Inr v)"
    if "n \<noteq> []" "\<forall>f \<in> set failed. n \<notin> set (gf_collections f)" for n v
  proof -
    have "\<forall>grp \<in> set (dependency_groups previous incoming failures). n \<in> set grp \<longrightarrow> outcome grp = None"
      using that(2) *(2) by auto
    from accepted_group_published [OF assms(1) names cand refl this that(1)] show ?thesis
      unfolding idx by blast
  qed
  then show "\<forall>n v. n \<noteq> [] \<and> (\<forall>f \<in> set failed. n \<notin> set (gf_collections f)) \<longrightarrow>
      (fmlookup (sn_collections s) n = Some v \<longleftrightarrow>
        (\<exists>i \<in> set (el_inputs loaded). input_name i = n \<and> input_view lib env i = Inr v))" by blast
  show "sn_identity s = make_identity seed (id_generation (sn_identity previous) + 1) now" "sn_environment s = env"
    using build_snapshot_Inr(2,3) [OF *(3)] by simp_all
qed

lemma view_returns:
  assumes "view_ok lib env name v" "r \<in> set (view_records v)"
  shows "record_returns lib (cv_definition v) env r"
proof -
  have "r \<in> set (map (\<lambda>k. the (fmlookup (cv_records v) k)) (sorted_keys (cv_records v)))"
    using assms by (simp add: view_records_def view_ok_def)
  then obtain k where "fmlookup (cv_records v) k = Some r" by (auto simp: fmlookup_dom_iff)
  then have "record_published lib (cv_definition v) env (cv_version v) r" "collection_compiled lib (cv_definition v)"
    using assms(1) by (simp_all add: view_ok_def)
  then show ?thesis using record_published_returns by blast
qed

lemma record_returns_clone [simp]: "record_returns lib d env (clone_snapshot_record r) = record_returns lib d env r"
  by (simp add: record_returns_def clone_snapshot_record_def clone_data_def)

lemma build_partial_snapshot_ok:
  assumes "lib_canonical lib" "snapshot_ok lib previous" "trim_space env = env"
    and "inputs_compiled lib (el_inputs loaded)" "\<forall>input \<in> set (el_inputs loaded). input_returns lib env input"
    and "sn_environment previous = env"
    and "build_partial_snapshot lib seed previous now env loaded = Inr (s, failed)"
  shows "snapshot_ok lib s"
proof -
  obtain incoming outcome failures where *:
    "rfold index_input fmempty (el_inputs loaded) = Inr incoming"
    "build_snapshot lib seed (id_generation (sn_identity previous) + 1) now env
       (concat (map (group_inputs previous incoming outcome) (dependency_groups previous incoming failures))) = Inr s"
    using build_partial_snapshot_Inr [OF assms(7,2)] by metis
  have idx: "fmlookup incoming n = Some i \<longleftrightarrow> i \<in> set (el_inputs loaded) \<and> input_name i = n" for n i
    using index_inputs(1) [OF *(1)] by simp
  have sound: "collection_compiled lib (ci_definition i) \<and> input_returns lib env i"
    if "i \<in> set (group_inputs previous incoming outcome grp)" for i grp
  proof -
    have "\<forall>n i. fmlookup incoming n = Some i \<longrightarrow> input_name i = n" using idx by simp
    note named = that [unfolded group_inputs_named [OF assms(2) this], THEN conjunct2]
    show ?thesis
    proof (cases "outcome grp = None")
      case True
      with named have "fmlookup incoming (input_name i) = Some i" by simp
      then show ?thesis using idx assms(4,5) by (simp add: inputs_compiled_def)
    next
      case False
      with named obtain v where 2: "fmlookup (sn_collections previous) (input_name i) = Some v"
        "i = view_input previous (input_name i) v" by auto
      then have ok: "view_ok lib env (input_name i) v" using assms(2,6) by (auto simp: snapshot_ok_def)
      have "ci_definition i = cv_definition v" "ci_records i = map clone_snapshot_record (view_records v)"
        using arg_cong [OF 2(2), of ci_definition] arg_cong [OF 2(2), of ci_records] by (simp_all add: view_input_def)
      with view_returns [OF ok] ok show ?thesis by (simp add: input_returns_def view_ok_def)
    qed
  qed
  then have "inputs_compiled lib (concat (map (group_inputs previous incoming outcome)
      (dependency_groups previous incoming failures)))"
    by (auto simp: inputs_compiled_def)
  from build_snapshot_ok [OF assms(1) this assms(3) _ *(2)] sound show ?thesis by auto
qed

section \<open>The manager as a cell\<close>

definition answer_compiled :: "scalar_lib \<Rightarrow> source_answer \<Rightarrow> bool" where
  "answer_compiled lib answer \<longleftrightarrow>
     (case load_environment answer of Inl _ \<Rightarrow> True | Inr loaded \<Rightarrow> inputs_compiled lib (el_inputs loaded))"

text \<open>Every timestamp the source delivers stays in the years 0 to 9999 when it is taken to UTC.\<close>

definition answer_returns :: "scalar_lib \<Rightarrow> string \<Rightarrow> source_answer \<Rightarrow> bool" where
  "answer_returns lib env answer \<longleftrightarrow>
     (case load_environment answer of Inl _ \<Rightarrow> True | Inr loaded \<Rightarrow> \<forall>input \<in> set (el_inputs loaded). input_returns lib env input)"

text \<open>What the manager holds: the current snapshot and what it handed to its publisher.\<close>

definition held_snapshots :: "manager \<Rightarrow> snapshot \<times> snapshot list option" where
  "held_snapshots mg = (mg_current mg, mg_publisher mg)"

definition snapshots_ok :: "scalar_lib \<Rightarrow> snapshot \<times> snapshot list option \<Rightarrow> bool" where
  "snapshots_ok lib held \<longleftrightarrow>
     snapshot_ok lib (fst held) \<and>
     (case snd held of None \<Rightarrow> True | Some sent \<Rightarrow> \<forall>s \<in> set sent. snapshot_ok lib s)"

type_synonym refresh_command = "gotime \<times> string \<times> source_answer"

definition refresh_with ::
  "scalar_lib \<Rightarrow> manager \<Rightarrow> refresh_command \<Rightarrow> manager \<times> (catalog_error + refresh_result)" where
  "refresh_with lib mg c = refresh lib mg (fst c) (fst (snd c)) (snd (snd c))"

lemma refresh_Inl:
  assumes "refresh lib mg now environment answer = (mg', Inl e)"
  shows "held_snapshots mg' = held_snapshots mg \<and> mg_seed mg' = mg_seed mg"
  using assms
  by (auto simp: refresh_def held_snapshots_def Let_def split: if_split_asm sum.splits)

lemma refresh_Inr:
  assumes "refresh lib mg now environment answer = (mg', Inr r)"
  obtains candidate failed where
    "refresh_candidate lib mg now (trim_space environment) answer = Inr (candidate, failed)"
    "mg' = (publish mg candidate)\<lparr>mg_failed := map gf_collections failed, mg_error := []\<rparr>"
    "r = \<lparr>rr_generation = id_generation (sn_identity candidate),
          rr_collections = map_len (sn_collections candidate), rr_failed = failed\<rparr>"
    "trim_space environment \<noteq> []"
  using assms
  by (cases "refresh_candidate lib mg now (trim_space environment) answer")
    (auto simp: refresh_def Let_def split: if_split_asm)

lemma refresh_candidate_ok:
  assumes "lib_canonical lib" "snapshot_ok lib (mg_current mg)" "answer_compiled lib answer" "trim_space env = env"
    and "answer_returns lib env answer"
    and "refresh_candidate lib mg now env answer = Inr (candidate, failed)"
  shows "snapshot_ok lib candidate"
proof -
  from assms(6) obtain loaded where l: "load_environment answer = Inr loaded"
    by (auto simp: refresh_candidate_def rbind_Inr_iff)
  then have c: "inputs_compiled lib (el_inputs loaded)" "\<forall>input \<in> set (el_inputs loaded). input_returns lib env input"
    using assms(3,5) by (simp_all add: answer_compiled_def answer_returns_def)
  from assms(6) l consider
      "build_snapshot lib (mg_seed mg) (id_generation (sn_identity (mg_current mg)) + 1) now env (el_inputs loaded) = Inr candidate"
    | "build_partial_snapshot lib (mg_seed mg) (mg_current mg) now env loaded = Inr (candidate, failed)"
      "sn_environment (mg_current mg) = env"
    by (auto simp: refresh_candidate_def Let_def rbind_Inr_iff split: if_split_asm)
  then show ?thesis
  proof cases
    case 1
    then show ?thesis by (rule build_snapshot_ok [OF assms(1) c(1) assms(4) c(2)])
  next
    case 2
    from build_partial_snapshot_ok [OF assms(1,2,4) c 2(2,1)] show ?thesis .
  qed
qed

lemma refresh_candidate_identity:
  assumes "refresh_candidate lib mg now env answer = Inr (candidate, failed)" "snapshot_ok lib (mg_current mg)"
  shows "sn_identity candidate = make_identity (mg_seed mg) (id_generation (sn_identity (mg_current mg)) + 1) now"
    "sn_environment candidate = env"
proof -
  let ?i = "make_identity (mg_seed mg) (id_generation (sn_identity (mg_current mg)) + 1) now"
  from assms(1) obtain loaded where
    "build_snapshot lib (mg_seed mg) (id_generation (sn_identity (mg_current mg)) + 1) now env (el_inputs loaded) = Inr candidate
     \<or> (sn_environment (mg_current mg) = env \<and>
        build_partial_snapshot lib (mg_seed mg) (mg_current mg) now env loaded = Inr (candidate, failed))"
    by (auto simp: refresh_candidate_def Let_def rbind_Inr_iff split: if_split_asm)
  then have "sn_identity candidate = ?i \<and> sn_environment candidate = env"
  proof (elim disjE conjE)
    assume "build_snapshot lib (mg_seed mg) (id_generation (sn_identity (mg_current mg)) + 1) now env
      (el_inputs loaded) = Inr candidate"
    from build_snapshot_Inr(2,3) [OF this] show ?thesis by simp
  next
    assume "sn_environment (mg_current mg) = env"
      and "build_partial_snapshot lib (mg_seed mg) (mg_current mg) now env loaded = Inr (candidate, failed)"
    from partial_snapshot_isolates(3,4) [OF assms(2) this] show ?thesis by simp
  qed
  then show "sn_identity candidate = ?i" "sn_environment candidate = env" by simp_all
qed

interpretation manager_cell: replaceable held_snapshots "refresh_with lib" "snapshots_ok lib"
    "\<lambda>c. lib_canonical lib \<and> answer_compiled lib (snd (snd c)) \<and>
       answer_returns lib (trim_space (fst (snd c))) (snd (snd c))" for lib
proof unfold_locales
  fix s t c e
  assume "refresh_with lib s c = (t, Inl e)"
  then show "held_snapshots t = held_snapshots s" using refresh_Inl by (simp add: refresh_with_def)
next
  fix s t c r
  assume "refresh_with lib s c = (t, Inr r)"
  then obtain candidate failed where *:
    "refresh_candidate lib s (fst c) (trim_space (fst (snd c))) (snd (snd c)) = Inr (candidate, failed)"
    "t = (publish s candidate)\<lparr>mg_failed := map gf_collections failed, mg_error := []\<rparr>"
    unfolding refresh_with_def by (rule refresh_Inr)
  assume ok: "snapshots_ok lib (held_snapshots s)" "lib_canonical lib \<and> answer_compiled lib (snd (snd c)) \<and>
    answer_returns lib (trim_space (fst (snd c))) (snd (snd c))"
  then have "snapshot_ok lib candidate"
    using refresh_candidate_ok [OF _ _ _ _ _ *(1)] by (simp add: snapshots_ok_def held_snapshots_def)
  with ok(1) show "snapshots_ok lib (held_snapshots t)"
    by (auto simp: *(2) snapshots_ok_def held_snapshots_def publish_def split: option.splits)
qed

lemma empty_snapshot_ok: "snapshot_ok lib (empty_snapshot i [])"
  by (simp add: snapshot_ok_def empty_snapshot_def read_list_def subscriptions_def
    validate_option_dependencies_def sorted_values_def sorted_keys_def sorted_list_of_fset.rep_eq)

section \<open>Option sources\<close>

lemma rfold_unit: "rfold (\<lambda>_. g) () xs = Inr () \<longleftrightarrow> (\<forall>x \<in> set xs. g x = Inr ())"
  by (induction xs) (auto simp: rbind_Inr_iff)

lemma rmap_ok: "\<forall>x \<in> set xs. is_ok (f x) \<Longrightarrow> is_ok (rmap f xs)"
  by (induction xs) (auto simp: is_ok_iff)

lemma check_option_source_Inr:
  assumes "check_option_source lib collections src = Inr ()"
  shows "\<exists>v. fmlookup collections (os_collection src) = Some v \<and>
    visible_field (cv_definition v) (os_value_field src) \<noteq> None \<and>
    visible_field (cv_definition v) (os_label_field src) \<noteq> None \<and>
    is_ok (rmap (canonical_filter lib (cv_definition v)) (os_filters src))"
proof -
  from assms obtain v where v: "fmlookup collections (os_collection src) = Some v"
    by (auto simp: check_option_source_def split: option.splits)
  let ?check = "\<lambda>flt. case visible_field (cv_definition v) (ff_field flt) of
      None \<Rightarrow> Inl STR ''build snapshot: model %q option filter %q is missing or sensitive''
    | Some f \<Rightarrow> rbind (canonicalize_scalar lib (fd_type f) (ff_value flt)) (\<lambda>_. Inr ())"
  from assms v have *: "visible_field (cv_definition v) (os_value_field src) \<noteq> None"
    "visible_field (cv_definition v) (os_label_field src) \<noteq> None"
    "rfold (\<lambda>_. ?check) () (os_filters src) = Inr ()"
    by (auto simp: check_option_source_def simp del: not_None_eq split: if_split_asm)
  have "is_ok (canonical_filter lib (cv_definition v) flt)" if "?check flt = Inr ()" for flt
    using that by (auto simp: canonical_filter_def rbind_Inr_iff split: option.splits)
  with *(3) have "\<forall>flt \<in> set (os_filters src). is_ok (canonical_filter lib (cv_definition v) flt)"
    unfolding rfold_unit by blast
  then have "is_ok (rmap (canonical_filter lib (cv_definition v)) (os_filters src))"
    by (rule rmap_ok)
  with v *(1,2) show ?thesis by blast
qed

end
