(* ===== verification/Snapshot_Samples.thy ===== *)
theory Snapshot_Samples
  imports Model_Properties Overlay_Properties Snapshot_Refresh
begin

text \<open>
  Concrete snapshots and refreshes the witnesses of the claims about snapshots, the config
  server and the client use. Their digests are not evaluated.
\<close>

section \<open>Sample refreshes\<close>

definition rates_collection :: collection_definition where
  "rates_collection = projr (compile_collection sample_lib (sample_spec\<lparr>cs_name := ''rates''\<rparr>))"

lemma rates_compiles: "compile_collection sample_lib (sample_spec\<lparr>cs_name := ''rates''\<rparr>) = Inr rates_collection"
proof -
  have "is_ok (compile_collection sample_lib (sample_spec\<lparr>cs_name := ''rates''\<rparr>))" by code_simp
  then show ?thesis by (auto simp: rates_collection_def is_ok_iff)
qed

text \<open>Inputs without records, and the views they are published as.\<close>

definition plain_input :: "collection_definition \<Rightarrow> compiled_model list \<Rightarrow> collection_input" where
  "plain_input d ms =
     \<lparr>ci_definition = d, ci_models = ms, ci_consumers = [], ci_version = 4, ci_cursor = 7,
      ci_records = [], ci_rules = []\<rparr>"

definition plain_view :: "collection_definition \<Rightarrow> collection_view" where
  "plain_view d =
     \<lparr>cv_definition = d, cv_version = 4, cv_cursor = 7, cv_digest = projr (compute_base_digest []),
      cv_records = fmempty, cv_ordered = [], cv_rules = [], cv_consumers = []\<rparr>"

lemma empty_digest: "compute_base_digest [] = Inr (projr (compute_base_digest []))"
proof -
  have "is_ok (compute_base_digest [])"
    by (simp add: compute_base_digest_def base_digest_payload_def insertion_sort_def)
  then show ?thesis by (auto simp: is_ok_iff)
qed

lemma build_plain_view: "build_view lib env (plain_input d ms) = Inr (plain_view d)"
  by (simp add: build_view_def plain_input_def plain_view_def view_records_def, subst empty_digest, simp)

lemma add_plain_collection:
  assumes "cd_name d \<noteq> []" "cd_name d |\<notin>| fmdom (sn_collections s)"
  shows "add_collection lib env s (plain_input d []) =
    Inr (s\<lparr>sn_collections := fmupd (cd_name d) (plain_view d) (sn_collections s)\<rparr>)"
proof -
  have "add_collection lib env s (plain_input d []) =
      rbind (build_view lib env (plain_input d [])) (\<lambda>v.
        Inr (s\<lparr>sn_collections := fmupd (cd_name d) (v\<lparr>cv_consumers := []\<rparr>) (sn_collections s)\<rparr>))"
    using assms by (simp add: add_collection_def plain_input_def)
  then show ?thesis by (simp add: build_plain_view) (simp add: plain_view_def)
qed

definition sample_seed :: identity_seed where
  "sample_seed = \<lparr>is_epoch = '' e1'', is_server = ''s1'', is_snapshot = ''n1''\<rparr>"

definition sample_manager :: manager where
  "sample_manager = projr (rbind (new_manager sample_seed 3) set_publisher)"

lemma sample_manager_starts: "rbind (new_manager sample_seed 3) set_publisher = Inr sample_manager"
proof -
  have "is_ok (rbind (new_manager sample_seed 3) set_publisher)" by code_simp
  then show ?thesis by (auto simp: sample_manager_def is_ok_iff)
qed

definition full_answer :: source_answer where
  "full_answer = FullAnswer (Inr [plain_input sample_collection []])"

text \<open>The second refresh brings the rates and loses the limits.\<close>

definition partial_answer :: source_answer where
  "partial_answer =
     PartialAnswer (Inr \<lparr>el_inputs = [plain_input rates_collection []],
                        el_failures = fmap_of_list [(''limits'', Some STR ''timeout'')]\<rparr>)"

lemma sample_names [simp]: "cd_name sample_collection = ''limits''" "cd_name rates_collection = ''rates''"
  by code_simp+

lemma build_plain:
  "build_snapshot lib seed g now env [plain_input sample_collection []] =
     Inr ((empty_snapshot (make_identity seed g now) env)
       \<lparr>sn_collections := fmupd ''limits'' (plain_view sample_collection) fmempty\<rparr>)"
  "build_snapshot lib seed g now env [plain_input rates_collection []] =
     Inr ((empty_snapshot (make_identity seed g now) env)
       \<lparr>sn_collections := fmupd ''rates'' (plain_view rates_collection) fmempty\<rparr>)"
  "build_snapshot lib seed g now env [plain_input sample_collection [], plain_input rates_collection []] =
     Inr ((empty_snapshot (make_identity seed g now) env)
       \<lparr>sn_collections := fmupd ''rates'' (plain_view rates_collection)
          (fmupd ''limits'' (plain_view sample_collection) fmempty)\<rparr>)"
  by (simp_all add: build_snapshot_def add_plain_collection empty_snapshot_def validate_option_dependencies_def
    sorted_values_def sorted_keys_def sorted_list_of_fset.rep_eq)

definition limits_snapshot :: snapshot where
  "limits_snapshot =
     (empty_snapshot (make_identity (mg_seed sample_manager) 1 5) ''prod'')
       \<lparr>sn_collections := fmupd ''limits'' (plain_view sample_collection) fmempty\<rparr>"

definition both_snapshot :: snapshot where
  "both_snapshot =
     (empty_snapshot (make_identity (mg_seed sample_manager) 2 6) ''prod'')
       \<lparr>sn_collections := fmupd ''rates'' (plain_view rates_collection)
          (fmupd ''limits'' (plain_view sample_collection) fmempty)\<rparr>"

definition limits_failure :: group_failure where
  "limits_failure = \<lparr>gf_collections = [''limits''], gf_reason = STR ''timeout''\<rparr>"

definition first_manager :: manager where
  "first_manager = (publish sample_manager limits_snapshot)\<lparr>mg_failed := [], mg_error := []\<rparr>"

definition second_manager :: manager where
  "second_manager = (publish first_manager both_snapshot)\<lparr>mg_failed := [[''limits'']], mg_error := []\<rparr>"

lemma sample_manager_current:
  "mg_current sample_manager = empty_snapshot (make_identity (mg_seed sample_manager) 0 3) []"
  "mg_publisher sample_manager = Some []"
proof -
  obtain seed where eq: "sample_manager = \<lparr>mg_seed = seed, mg_current = empty_snapshot (make_identity seed 0 3) [],
      mg_publisher = Some [], mg_failed = [], mg_error = []\<rparr>"
    using sample_manager_starts [symmetric]
    by (simp add: new_manager_def set_publisher_def Let_def split: if_split_asm)
  show "mg_current sample_manager = empty_snapshot (make_identity (mg_seed sample_manager) 0 3) []"
    "mg_publisher sample_manager = Some []" unfolding eq by simp_all
qed

lemma trim_prod [simp]: "trim_space '' prod'' = ''prod''" "trim_space ''prod'' = ''prod''"
  by code_simp+

lemma first_refresh:
  "refresh sample_lib sample_manager 5 '' prod'' full_answer =
     (first_manager, Inr \<lparr>rr_generation = 1, rr_collections = 1, rr_failed = []\<rparr>)"
  by (simp add: refresh_def refresh_candidate_def load_environment_def full_answer_def sample_manager_current
    build_plain empty_snapshot_def make_identity_def limits_snapshot_def first_manager_def publish_def map_len_def fcard.rep_eq Let_def)

lemma previous_limits: "view_input limits_snapshot ''limits'' (plain_view sample_collection) = plain_input sample_collection []"
  by (simp add: view_input_def plain_view_def plain_input_def view_models_def limits_snapshot_def empty_snapshot_def
    view_records_def sorted_values_def sorted_keys_def sorted_list_of_fset.rep_eq)

lemma sample_groups:
  "dependency_groups limits_snapshot (fmupd ''rates'' (plain_input rates_collection []) fmempty)
     (fmupd ''limits'' STR ''timeout'' fmempty) = [[''limits''], [''rates'']]"
proof -
  have "dependency_graph limits_snapshot (fmupd ''rates'' (plain_input rates_collection []) fmempty)
     (fmupd ''limits'' STR ''timeout'' fmempty) = fmap_of_list [(''limits'', {||}), (''rates'', {||})]"
    by (simp add: dependency_graph_def limits_snapshot_def empty_snapshot_def dependency_models_def plain_input_def
      sorted_values_def sorted_keys_def sorted_list_of_fset.rep_eq add_node_def fmupd_reorder_neq)
  moreover have "graph_groups (fmap_of_list [(''limits'', {||}), (''rates'', {||})]) = [[''limits''], [''rates'']]"
    by code_simp
  ultimately show ?thesis by (simp add: dependency_groups_def)
qed

definition partial_load :: environment_load where
  "partial_load =
     \<lparr>el_inputs = [plain_input rates_collection []],
      el_failures = fmap_of_list [(''limits'', Some STR ''timeout'')]\<rparr>"

lemma limits_generation: "id_generation (sn_identity limits_snapshot) = 1" "sn_environment limits_snapshot = ''prod''"
  by (simp_all add: limits_snapshot_def empty_snapshot_def make_identity_def)

lemma second_build:
  "build_partial_snapshot sample_lib (mg_seed sample_manager) limits_snapshot 6 ''prod'' partial_load =
     Inr (both_snapshot, [limits_failure])"
proof -
  have t: "trim_space ''limits'' = ''limits''" by code_simp
  let ?inc = "fmupd ''rates'' (plain_input rates_collection []) fmempty"
  let ?fail = "fmupd ''limits'' STR ''timeout'' fmempty"
  let ?outcome = "group_outcome sample_lib (mg_seed sample_manager) limits_snapshot 6 ''prod'' ?inc ?fail"
  have outcome: "?outcome [''limits''] = Some STR ''timeout''" "?outcome [''rates''] = None"
    by (simp_all add: group_outcome_def inputs_for_group_def List.map_filter_def build_plain)
  have inputs: "group_inputs limits_snapshot ?inc ?outcome [''limits''] = [plain_input sample_collection []]"
    "group_inputs limits_snapshot ?inc ?outcome [''rates''] = [plain_input rates_collection []]"
    using previous_limits
    by (simp_all add: group_inputs_def outcome inputs_for_group_def previous_inputs_def List.map_filter_def)
      (simp add: limits_snapshot_def)
  have "foldl (refresh_group sample_lib (mg_seed sample_manager) limits_snapshot 6 ''prod'' ?inc ?fail) ([], [], 0)
      (dependency_groups limits_snapshot ?inc ?fail) =
      ([plain_input sample_collection [], plain_input rates_collection []], [limits_failure], 1)"
    unfolding refresh_groups [OF refl] sample_groups by (simp add: inputs outcome limits_failure_def)
  moreover have "rfold index_input fmempty [plain_input rates_collection []] = Inr ?inc"
    by (simp add: index_input_def plain_input_def)
  moreover have "rfold (index_failure (fmap_of_list [(''limits'', Some STR ''timeout'')])) fmempty [''limits''] = Inr ?fail"
    by (simp add: index_failure_def t)
  moreover have "sorted_keys (fmap_of_list [(''limits'', Some STR ''timeout'')]) = [''limits'']"
    by (simp add: sorted_keys_def sorted_list_of_fset.rep_eq)
  ultimately show ?thesis
    by (simp add: build_partial_snapshot_def partial_load_def limits_generation build_plain both_snapshot_def)
qed

lemma second_refresh:
  "refresh sample_lib first_manager 6 ''prod'' partial_answer =
     (second_manager, Inr \<lparr>rr_generation = 2, rr_collections = 2, rr_failed = [limits_failure]\<rparr>)"
proof -
  have current: "mg_current first_manager = limits_snapshot" "mg_seed first_manager = mg_seed sample_manager"
    by (simp_all add: first_manager_def publish_def)
  have answer: "partial_answer = PartialAnswer (Inr partial_load)"
    by (simp add: partial_answer_def partial_load_def)
  have both: "id_generation (sn_identity both_snapshot) = 2" "map_len (sn_collections both_snapshot) = 2"
    by (simp_all add: both_snapshot_def empty_snapshot_def make_identity_def map_len_def fcard.rep_eq)
  have "refresh_candidate sample_lib first_manager 6 ''prod'' partial_answer = Inr (both_snapshot, [limits_failure])"
    by (simp add: refresh_candidate_def load_environment_def answer current limits_generation second_build)
  then show ?thesis
    by (simp add: refresh_def second_manager_def both, simp add: limits_failure_def)
qed

lemma sample_lib_returns: "answer_returns sample_lib env answer"
proof -
  have "times_return sample_lib d content" for d content
    by (simp add: times_return_def text_returns_def sample_lib_def pred_option_def list_all_iff)
  then have "record_returns sample_lib d env r" for d r by (simp add: record_returns_def split: sum.splits)
  then show ?thesis by (simp add: answer_returns_def input_returns_def split: sum.splits)
qed

lemma sample_snapshots_ok:
  "snapshots_ok sample_lib (held_snapshots sample_manager)"
  "snapshots_ok sample_lib (held_snapshots first_manager)"
proof -
  show start: "snapshots_ok sample_lib (held_snapshots sample_manager)"
    by (simp add: snapshots_ok_def held_snapshots_def sample_manager_current empty_snapshot_ok)
  have "answer_compiled sample_lib full_answer"
    using compile_collection_compiled [OF sample_compiles]
    by (simp add: answer_compiled_def full_answer_def load_environment_def inputs_compiled_def plain_input_def)
  then show "snapshots_ok sample_lib (held_snapshots first_manager)"
    using manager_cell.attempt_sound [OF start, of "(5, '' prod'', full_answer)"] first_refresh sample_lib_canonical sample_lib_returns
    by (simp add: refresh_with_def)
qed

end
