(* ===== verification/Snapshot_Properties.thy ===== *)
theory Snapshot_Properties
  imports Snapshot_Samples
begin

text \<open>
  The claims about published snapshots and their refresh
  (\<open>internal/distribution/snapshot/manager.go\<close>).
\<close>

section \<open>Refreshing\<close>

text \<open>
  A refresh replaces the published snapshot as a whole or not at all: when it fails, the
  current snapshot and what the publisher received stay as they were; when it succeeds, the next
  generation for the trimmed environment becomes current, is handed to the publisher once, and
  the diagnostics name the groups that failed.
\<close>

lemma refresh_replaces_or_keeps:
  assumes "snapshot_ok lib (mg_current mg)"
  shows "case refresh lib mg now environment answer of
      (mg', Inl e) \<Rightarrow> mg_current mg' = mg_current mg \<and> mg_publisher mg' = mg_publisher mg
    | (mg', Inr r) \<Rightarrow>
        sn_identity (mg_current mg') = make_identity (mg_seed mg) (id_generation (sn_identity (mg_current mg)) + 1) now \<and>
        sn_environment (mg_current mg') = trim_space environment \<and>
        mg_publisher mg' = map_option (\<lambda>sent. sent @ [mg_current mg']) (mg_publisher mg) \<and>
        rr_generation r = id_generation (sn_identity (mg_current mg')) \<and>
        dg_failed (diagnose mg') = map gf_collections (rr_failed r) \<and> dg_error (diagnose mg') = []"
proof (cases "refresh lib mg now environment answer")
  case (Pair mg' r)
  show ?thesis
  proof (cases r)
    case (Inl e)
    with Pair refresh_Inl [of lib mg now environment answer mg' e] show ?thesis
      by (simp add: held_snapshots_def)
  next
    case (Inr x)
    with Pair have ok: "refresh lib mg now environment answer = (mg', Inr x)" by simp
    from refresh_Inr [OF ok] obtain candidate failed where *:
      "refresh_candidate lib mg now (trim_space environment) answer = Inr (candidate, failed)"
      "mg' = (publish mg candidate)\<lparr>mg_failed := map gf_collections failed, mg_error := []\<rparr>"
      "x = \<lparr>rr_generation = id_generation (sn_identity candidate),
            rr_collections = map_len (sn_collections candidate), rr_failed = failed\<rparr>" by blast
    from refresh_candidate_identity [OF *(1) assms] show ?thesis
      by (simp add: ok *(2,3) publish_def diagnose_def)
  qed
qed

text \<open>
  C25: Only valid snapshots are published: after any sequence of refreshes, whatever the source
  answers with compiled definitions and timestamps that stay in the years 0 to 9999 in UTC, the
  current snapshot and all that were handed to the publisher hold only canonical records, which
  their collection would accept again unchanged, and rules of their collections at revisions up to
  the collection's version, with the digest of those records, models of published collections with
  resolvable option sources, and exactly the delivered subscriptions as authorizations. The
  condition on timestamps is needed: another one is published with a canonical text that does not
  parse, and no collection accepts the record again.
\<close>

theorem refreshes_publish_valid_snapshots:
  assumes "lib_canonical lib" "rbind (new_manager seed now) set_publisher = Inr mg"
    and "list_all (\<lambda>c. answer_compiled lib (snd (snd c))) cs"
    and "list_all (\<lambda>c. answer_returns lib (trim_space (fst (snd c))) (snd (snd c))) cs"
  shows "snapshots_ok lib (held_snapshots (foldl (\<lambda>mg c. fst (refresh_with lib mg c)) mg cs))"
proof -
  have "snapshots_ok lib (held_snapshots mg)"
    using assms(2) empty_snapshot_ok
    by (auto simp: new_manager_def set_publisher_def Let_def snapshots_ok_def held_snapshots_def split: if_split_asm)
  moreover have "list_all (\<lambda>c. lib_canonical lib \<and> answer_compiled lib (snd (snd c)) \<and>
      answer_returns lib (trim_space (fst (snd c))) (snd (snd c))) cs"
    using assms(1,3,4) by (simp add: list_all_iff)
  ultimately show ?thesis
    using manager_cell.run_sound by (simp add: manager_cell.run_def)
qed

theorem refreshes_publish_valid_snapshots_witness:
  "snapshots_ok sample_lib (held_snapshots second_manager)"
proof -
  have "list_all (\<lambda>c. answer_compiled sample_lib (snd (snd c)))
      [(5, '' prod'', full_answer), (6, ''prod'', partial_answer)]"
    using compile_collection_compiled [OF sample_compiles] compile_collection_compiled [OF rates_compiles]
    by (simp add: answer_compiled_def full_answer_def partial_answer_def load_environment_def
      inputs_compiled_def plain_input_def)
  from refreshes_publish_valid_snapshots [OF sample_lib_canonical sample_manager_starts this]
    sample_lib_returns
  show ?thesis by (simp add: refresh_with_def first_refresh second_refresh)
qed

section \<open>Dependency groups\<close>

text \<open>
  C31: The dependency groups are the connected components of the links between collections: each
  is sorted, no collection is in two, together they hold every collection that is published,
  loaded, failed, owns a model or feeds options, and a group consists of what is linked to any
  of its members by models that share a code or options read from another collection.
\<close>

theorem dependency_groups_are_components:
  "distinct (concat (dependency_groups previous incoming failures)) \<and>
   set (concat (dependency_groups previous incoming failures)) = dependency_names previous incoming failures \<and>
   list_all (\<lambda>grp. sorted grp \<and> grp \<noteq> [] \<and>
      list_all (\<lambda>n. set grp = {x. (linked (dependency_models previous incoming))\<^sup>*\<^sup>* n x}) grp)
     (dependency_groups previous incoming failures)"
  using groups_cover graph_groups_components [OF dependency_graph_facts(1)]
  by (simp add: dependency_groups_def list_all_iff component_def dependency_graph_facts(2))

text \<open>
  C32: The search for a group ends: on the graph of any refresh, from any collection and set of
  visited collections, the loop over the queue leaves it empty after finitely many steps.
\<close>

theorem group_search_terminates:
  "\<exists>s. while_option searching (search_step (dependency_graph previous incoming failures)) (search_start V n) = Some s \<and>
     search_from (dependency_graph previous incoming failures) V n = s \<and> se_queue s = []"
proof -
  let ?g = "dependency_graph previous incoming failures"
  obtain s where s: "while_option searching (search_step ?g) (search_start V n) = Some s"
    using search_terminates [OF dependency_graph_facts(1)] by blast
  then have "\<not> searching s" by (rule while_option_stop)
  with s show ?thesis by (simp add: search_from_def while_def searching_def search_start_def)
qed

text \<open>
  C26: A dependency group that fails to load does not disturb the others: its collections and their
  models are published as they were, and every other collection is published exactly as it was
  loaded, or not at all when the source no longer has it.
\<close>

theorem failed_groups_are_isolated:
  assumes "snapshot_ok lib previous" "sn_environment previous = env"
    and "build_partial_snapshot lib seed previous now env loaded = Inr (s, failed)"
  shows "(f \<in> set failed \<longrightarrow> n \<in> set (gf_collections f) \<longrightarrow>
      fmlookup (sn_collections s) n = fmlookup (sn_collections previous) n \<and>
      (cm_collection m = n \<longrightarrow>
         (fmlookup (sn_models s) code = Some m \<longleftrightarrow> fmlookup (sn_models previous) code = Some m))) \<and>
    (n \<noteq> [] \<and> list_all (\<lambda>f. n \<notin> set (gf_collections f)) failed \<longrightarrow>
      (fmlookup (sn_collections s) n = Some v \<longleftrightarrow>
        list_ex (\<lambda>i. input_name i = n \<and> input_view lib env i = Inr v) (el_inputs loaded)))"
  using partial_snapshot_isolates(1,2) [OF assms] unfolding list_all_iff list_ex_iff by blast

theorem failed_groups_are_isolated_witness:
  "fmlookup (sn_collections both_snapshot) ''limits'' = fmlookup (sn_collections limits_snapshot) ''limits'' \<and>
   input_view sample_lib ''prod'' (plain_input rates_collection []) = Inr (plain_view rates_collection)"
proof -
  have ok: "snapshot_ok sample_lib limits_snapshot"
    using sample_snapshots_ok(2) by (simp add: snapshots_ok_def held_snapshots_def first_manager_def publish_def)
  note isolated = failed_groups_are_isolated [OF ok limits_generation(2) second_build]
  have "fmlookup (sn_collections both_snapshot) ''rates'' = Some (plain_view rates_collection)"
    by (simp add: both_snapshot_def)
  with isolated [of limits_failure "''rates''" _ _ "plain_view rates_collection"]
  have "input_view sample_lib ''prod'' (plain_input rates_collection []) = Inr (plain_view rates_collection)"
    by (simp add: limits_failure_def partial_load_def)
  with isolated [of limits_failure "''limits''"] show ?thesis by (simp add: limits_failure_def)
qed

section \<open>What clients compute on a snapshot\<close>

text \<open>
  The options of a published model can be computed: for every SELECT field of a published
  model that reads a collection, that collection is published, and resolving the options fails
  only because of its records (a missing value or label, two labels for a code, too many codes),
  never because of the source.
\<close>

lemma published_options_resolve:
  assumes "build_snapshot lib seed g now env inputs = Inr s" "fmlookup (sn_models s) code = Some m"
    and "f \<in> set (cm_fields m)" "mf_source f = Some src" "os_kind src = OptionSourceCollection"
  shows "\<exists>v. fmlookup (sn_collections s) (os_collection src) = Some v \<and>
    (\<exists>opts. resolve_select_options lib src (cv_definition v) records = Inr opts \<or>
       resolve_select_options lib src (cv_definition v) records \<in>
         {Inl STR ''option record %q lacks value or label'', Inl STR ''option code %q has conflicting labels'',
          Inl STR ''option count %d exceeds limit %d''})"
proof -
  have "rfold (\<lambda>_ m. rfold (check_model_field lib (sn_collections s)) () (cm_fields m)) () (sorted_values (sn_models s)) = Inr ()"
    using build_snapshot_Inr(4) [OF assms(1)] by (simp add: validate_option_dependencies_def)
  then have "rfold (check_model_field lib (sn_collections s)) () (cm_fields m) = Inr ()"
    using assms(2) set_sorted_values [of m "sn_models s"] unfolding rfold_unit by blast
  then have "check_model_field lib (sn_collections s) () f = Inr ()"
    using assms(3) rfold_unit [of "check_model_field lib (sn_collections s) ()" "cm_fields m"] by simp
  then have "check_option_source lib (sn_collections s) src = Inr ()"
    using assms(4,5) by (simp add: check_model_field_def)
  from check_option_source_Inr [OF this] obtain v filters where v:
    "fmlookup (sn_collections s) (os_collection src) = Some v"
    "visible_field (cv_definition v) (os_value_field src) \<noteq> None"
    "visible_field (cv_definition v) (os_label_field src) \<noteq> None"
    "rmap (canonical_filter lib (cv_definition v)) (os_filters src) = Inr filters"
    by (auto simp: is_ok_iff simp del: not_None_eq)
  have "resolve_select_options lib src (cv_definition v) records =
      rbind (rfold (collect_label src filters) fmempty records) (\<lambda>labels.
        if os_limit src < int (map_len labels) \<or> 1000 < map_len labels
        then Inl STR ''option count %d exceeds limit %d''
        else Inr (map (\<lambda>code. \<lparr>so_code = code, so_label = map_read labels code, so_disabled = False\<rparr>) (sorted_keys labels)))"
    using v assms(5) by (simp add: resolve_select_options_def resolve_collection_options_def del: not_None_eq)
  moreover have "e \<in> {STR ''option record %q lacks value or label'', STR ''option code %q has conflicting labels''}"
    if "rfold (collect_label src filters) labels records = Inl e" for e labels
    using that by (induction records arbitrary: labels)
      (auto simp: rbind_Inl_iff collect_label_def split: if_splits option.splits)
  ultimately show ?thesis
    using v(1) by (cases "rfold (collect_label src filters) fmempty records") auto
qed

lemma published_rule_content: "rule \<in> set (snapshot_rules s name) \<Longrightarrow> ru_content rule \<noteq> None"
  by (auto simp: snapshot_rules_def clone_overlay_rule_def clone_data_def split: option.splits)

lemma rfold_reaches:
  assumes "rfold f s xs = Inr t" "x \<in> set xs"
  shows "\<exists>u v. f u x = Inr v"
  using assms by (induction xs arbitrary: s) (auto simp: rbind_Inr_iff)

text \<open>
  C33: A published DELETE rule stops every reader of its scope: the rules of a snapshot are handed out
  with allocated contents, so a DELETE rule that is active in a layer of the query and not
  limited to a rollout makes the evaluation of the collection fail.
\<close>

theorem published_delete_stops_evaluation:
  assumes "rule \<in> set (snapshot_rules s name)" "ru_action rule = ActionDelete" "ru_ranges rule = []"
    and "stage \<in> set (query_stages q)" "rule_in_layer q stage rule"
  shows "\<not> is_ok (evaluate q base (snapshot_rules s name))"
proof
  assume "is_ok (evaluate q base (snapshot_rules s name))"
  then obtain m where "evaluate_map q base (snapshot_rules s name) = Inr m"
    by (auto simp: evaluate_def is_ok_iff rbind_Inr_iff)
  then obtain u v where "rfold (evaluate_rule q stage) u (snapshot_rules s name) = Inr v"
    unfolding evaluate_map_def using rfold_reaches assms(4) by fastforce
  then obtain u v where "evaluate_rule q stage u rule = Inr v" using rfold_reaches assms(1) by fastforce
  with assms(2,3,5) published_rule_content [OF assms(1)] show False
    by (auto simp: evaluate_rule_def rollout_visible_def apply_rule_def content_matches_action_def split: if_splits)
qed

definition delete_snapshot :: snapshot where
  "delete_snapshot =
     (empty_snapshot (make_identity sample_seed 1 5) ''prod'')
       \<lparr>sn_collections := fmupd ''limits'' ((plain_view sample_collection)\<lparr>cv_rules := [sample_rule [] None]\<rparr>) fmempty\<rparr>"

theorem published_delete_stops_evaluation_witness:
  "\<not> is_ok (evaluate (sample_query None) [sample_base] (snapshot_rules delete_snapshot ''limits''))"
proof (rule published_delete_stops_evaluation)
  show "clone_overlay_rule (sample_rule [] None) \<in> set (snapshot_rules delete_snapshot ''limits'')"
    by (simp add: snapshot_rules_def delete_snapshot_def)
  show "ru_action (clone_overlay_rule (sample_rule [] None)) = ActionDelete" by code_simp
  show "ru_ranges (clone_overlay_rule (sample_rule [] None)) = []" by code_simp
  show "''canary'' \<in> set (query_stages (sample_query None))" by code_simp
  show "rule_in_layer (sample_query None) ''canary'' (clone_overlay_rule (sample_rule [] None))" by code_simp
qed

end
