(* ===== verification/Release_Action.thy ===== *)
theory Release_Action
  imports Release_Store Overlay_Evaluate
begin

text \<open>
  The command that drives a release: \<open>Act\<close> of \<open>internal/release/application/service.go\<close>, with
  the transaction's \<open>LoadOrderForUpdate\<close>, \<open>FindActionResult\<close>, \<open>SaveOrder\<close>, \<open>RecordAction\<close> and
  \<open>InsertActionResult\<close> (\<open>internal/release/mysqlstore/store.go\<close>) and the view it returns.

  An order row is kept as the aggregate it was written from, since the JSON columns decode to
  what was encoded; what a reload changes (the times of \<open>DATETIME\<close> columns, the identity and
  revision of the item records) is written out in \<open>reload_order\<close>. The retry of a transaction
  that the database aborted runs the same transaction again and is not modelled.
\<close>

section \<open>The view of an order\<close>

record step_view =
  sv_code :: string
  sv_type :: step_type
  sv_status :: step_status
  sv_ranges :: "bucket_range list"
  sv_compare :: "compare_result option"

record order_view =
  ov_id :: string
  ov_description :: string
  ov_compensates :: string
  ov_status :: order_status
  ov_step_code :: string
  ov_step :: step_type
  ov_step_status :: step_status
  ov_revision :: u64
  ov_can_execute :: bool
  ov_can_advance :: bool
  ov_can_approve :: bool
  ov_can_reject :: bool
  ov_can_rollback :: bool
  ov_can_compensate :: bool
  ov_steps :: "step_view list"

definition apply_capabilities :: "order_view \<Rightarrow> order_view" where
  "apply_capabilities v =
     (if ov_status v \<noteq> OrderInProgress then v
      else if ov_step v = StepManualReview \<and> ov_step_status v = StepPending then v\<lparr>ov_can_execute := True\<rparr>
      else if ov_step v = StepManualReview \<and> ov_step_status v = StepExecuting
        then v\<lparr>ov_can_approve := True, ov_can_reject := True\<rparr>
      else if ov_step_status v = StepApproved \<or> ov_step_status v = StepExecuted
        then v\<lparr>ov_can_advance := (ov_step v \<noteq> StepComplete)\<rparr>
      else if ov_step v \<in> {StepBaseApply, StepOverlayApply, StepPercentRollout, StepCompare, StepComplete} \<and>
              ov_step_status v = StepPending then v\<lparr>ov_can_execute := True\<rparr>
      else v)"

definition view_step :: "step_state \<Rightarrow> step_view" where
  "view_step s =
     \<lparr>sv_code = ss_code s, sv_type = ss_type s, sv_status = ss_status s, sv_ranges = ss_ranges s,
      sv_compare = ss_compare s\<rparr>"

definition project :: "order \<Rightarrow> order_view" where
  "project ord =
     (let step = current_step ord;
          v = apply_capabilities
            \<lparr>ov_id = or_id ord, ov_description = or_description ord, ov_compensates = or_compensates ord,
             ov_status = or_status ord, ov_step_code = ss_code step, ov_step = ss_type step,
             ov_step_status = ss_status step, ov_revision = or_revision ord,
             ov_can_execute = False, ov_can_advance = False, ov_can_approve = False,
             ov_can_reject = False, ov_can_rollback = False,
             ov_can_compensate = (or_status ord = OrderSucceeded),
             ov_steps = map view_step (or_steps ord)\<rparr>
      in if ov_status v = OrderInProgress \<and> (\<exists>s \<in> set (or_steps ord). ss_effect s \<noteq> None)
         then v\<lparr>ov_can_rollback := True\<rparr> else v)"

section \<open>The order tables\<close>

record stored_result =
  sr_digest :: string
  sr_view :: order_view

record operation_log =
  ol_order :: string
  ol_step :: string
  ol_action :: string
  ol_actor :: string
  ol_failure :: "string option"
  ol_at :: gotime

record release_db =
  rd_db :: database
  rd_orders :: "(string, order) fmap"
  rd_results :: "(string \<times> string, stored_result) fmap"
  rd_operations :: "operation_log list"

definition step_code :: "step_type \<Rightarrow> string" where
  "step_code ty =
     (case ty of
        StepBaseApply \<Rightarrow> ''base-apply'' | StepComplete \<Rightarrow> ''complete''
      | StepManualReview \<Rightarrow> ''MANUAL_REVIEW'' | StepOverlayApply \<Rightarrow> ''OVERLAY_APPLY''
      | StepPercentRollout \<Rightarrow> ''PERCENT_ROLLOUT'' | StepCompare \<Rightarrow> ''COMPARE'' | StepTypeOther s \<Rightarrow> s)"

definition persisted_step_code :: "step_state \<Rightarrow> string" where
  "persisted_step_code s = (if ss_code s \<noteq> [] then ss_code s else step_code (ss_type s))"

text \<open>\<open>unmarshalRecord\<close> as the order is loaded: the revision of an item record is not stored.\<close>

definition reload_record :: "item \<Rightarrow> order \<Rightarrow> config_record \<Rightarrow> config_record" where
  "reload_record i ord r =
     \<lparr>cr_collection = it_collection i, cr_environment = sc_environment (or_scope ord), cr_key = it_key i,
      cr_data = cr_data r, cr_revision = 0\<rparr>"

definition reload_item :: "order \<Rightarrow> item \<Rightarrow> item" where
  "reload_item ord i =
     i\<lparr>it_base_before := map_option (reload_record i ord) (it_base_before i),
       it_effective_before := map_option (reload_record i ord) (it_effective_before i),
       it_after := map_option (reload_record i ord) (it_after i)\<rparr>"

definition reload_step :: "(gotime \<Rightarrow> gotime) \<Rightarrow> step_state \<Rightarrow> step_state" where
  "reload_step db_time s =
     s\<lparr>ss_code := persisted_step_code s, ss_executed_at := map_option db_time (ss_executed_at s),
       ss_rolled_back_at := map_option db_time (ss_rolled_back_at s)\<rparr>"

text \<open>The current step is the last one whose code is the stored one.\<close>

definition reload_order :: "(gotime \<Rightarrow> gotime) \<Rightarrow> order \<Rightarrow> order" where
  "reload_order db_time ord =
     ord\<lparr>or_created_at := db_time (or_created_at ord), or_updated_at := db_time (or_updated_at ord),
         or_completed_at := map_option db_time (or_completed_at ord),
         or_steps := map (reload_step db_time) (or_steps ord),
         or_items := map (reload_item ord) (or_items ord),
         or_current := the (last_index
           (\<lambda>s. persisted_step_code s = persisted_step_code (current_step ord)) (or_steps ord))\<rparr>"

definition lift_release :: "release_error + 'a \<Rightarrow> store_error + 'a" where
  "lift_release r = (case r of Inl e \<Rightarrow> Inl (StoreRelease e) | Inr x \<Rightarrow> Inr x)"

lemma lift_release_Inr [go_results]: "lift_release r = Inr x \<longleftrightarrow> r = Inr x"
  by (cases r) (simp_all add: lift_release_def)

definition load_order :: "(gotime \<Rightarrow> gotime) \<Rightarrow> release_db \<Rightarrow> string \<Rightarrow> store_error + order" where
  "load_order db_time rd order_id =
     (case fmlookup (rd_orders rd) order_id of
        None \<Rightarrow> Inl (StoreFailure STR ''release order %q was not found'')
      | Some stored \<Rightarrow> lift_release (restore_order (reload_order db_time stored)))"

text \<open>
  \<open>SaveOrder\<close>: the compare-and-set on \<open>entity_revision\<close>, with \<open>chk_order_completion\<close>; every
  effect is encoded, which validates it. Only status, step, revision, update, completion, the
  items' status and conflict key and the steps' outcome are written.
\<close>

definition save_item :: "order \<Rightarrow> item \<Rightarrow> item" where
  "save_item st i =
     (case List.find (\<lambda>t. it_id t = it_id i) (rev (or_items st)) of
        None \<Rightarrow> i
      | Some t \<Rightarrow> i\<lparr>it_status := it_status t, it_conflict_key := it_conflict_key t\<rparr>)"

definition save_step :: "order \<Rightarrow> step_state \<Rightarrow> step_state" where
  "save_step st s =
     (case List.find (\<lambda>t. persisted_step_code t = persisted_step_code s) (rev (or_steps st)) of
        None \<Rightarrow> s
      | Some t \<Rightarrow> s\<lparr>ss_status := ss_status t, ss_approval := ss_approval t, ss_effect := ss_effect t,
                 ss_compare := ss_compare t, ss_executed_at := ss_executed_at t,
                 ss_executed_by := ss_executed_by t, ss_rolled_back_at := ss_rolled_back_at t,
                 ss_rolled_back_by := ss_rolled_back_by t\<rparr>)"

definition save_order :: "order \<Rightarrow> release_db \<Rightarrow> store_error + release_db" where
  "save_order st rd =
     rbind (fail STR ''save release order requires an incremented entity revision'' (or_revision st \<le> 1)) (\<lambda>_.
     case fmlookup (rd_orders rd) (or_id st) of
       None \<Rightarrow> Inl (StoreRelease ErrAborted)
     | Some row \<Rightarrow>
         if or_revision row \<noteq> or_revision st - 1 then Inl (StoreRelease ErrAborted)
         else rbind (fail STR ''check constraint violated''
                ((or_status st = OrderInProgress) \<noteq> (or_completed_at st = None))) (\<lambda>_.
              rbind (fail STR ''invalid effect''
                (\<not> list_all (\<lambda>e. is_ok (validate_step_effect e)) (order_effects st))) (\<lambda>_.
              Inr (rd\<lparr>rd_orders := fmupd (or_id st)
                (row\<lparr>or_status := or_status st, or_current := or_current st, or_revision := or_revision st,
                     or_updated_at := or_updated_at st, or_updated_by := or_updated_by st,
                     or_completed_at := or_completed_at st,
                     or_items := map (save_item st) (or_items row),
                     or_steps := map (save_step st) (or_steps row)\<rparr>) (rd_orders rd)\<rparr>))))"

section \<open>The command\<close>

datatype release_action = ActExecute | ActAdvance | ActApprove | ActReject | ActRollback | ActOther string

fun release_action_text :: "release_action \<Rightarrow> string" where
  "release_action_text ActExecute = ''EXECUTE''"
| "release_action_text ActAdvance = ''ADVANCE''"
| "release_action_text ActApprove = ''APPROVE''"
| "release_action_text ActReject = ''REJECT''"
| "release_action_text ActRollback = ''ROLLBACK''"
| "release_action_text (ActOther s) = s"

record act_command =
  ac_order :: string
  ac_request :: string
  ac_revision :: u64
  ac_step :: string
  ac_action :: release_action
  ac_actor :: string
  ac_roles :: "string list"
  ac_comment :: string

text \<open>An empty list of roles is copied to a nil slice, which is printed as \<open>null\<close>.\<close>

definition action_payload :: "act_command \<Rightarrow> json" where
  "action_payload c =
     JObj [(''orderId'', JStr (ac_order c)), (''expectedRevision'', json_int (uint (ac_revision c))),
           (''expectedCurrentStep'', JStr (ac_step c)), (''action'', JStr (release_action_text (ac_action c))),
           (''actor'', JStr (ac_actor c)),
           (''roles'', if ac_roles c = [] then JNull else json_strings (sort (ac_roles c))),
           (''comment'', JStr (ac_comment c))]"

definition normalized_action_digest :: "act_command \<Rightarrow> string" where
  "normalized_action_digest c = hex_encode (sha256 (json_print (action_payload c)))"

text \<open>The rules \<open>LoadOverlayRules\<close> returns: both layers of the scope, by stage and key.\<close>

definition load_overlay_rules :: "database \<Rightarrow> string \<Rightarrow> scope \<Rightarrow> string list \<Rightarrow> overlay_rule list" where
  "load_overlay_rules db collection sc keys =
     map snd (filter (\<lambda>((c, e, region, stage, k), _). c = collection \<and> e = sc_environment sc \<and>
         region = sc_region sc \<and> (stage = [] \<or> stage = sc_stage sc) \<and> k \<in> set keys)
       (table_rows (db_rules db)))"

definition load_compare_records :: "database \<Rightarrow> order \<Rightarrow> store_error + config_record list" where
  "load_compare_records db ord =
     (let keys = map it_key (or_items ord); collection = it_collection (hd (or_items ord));
          step = current_step ord
      in rbind (load_authority db ord) (\<lambda>auth.
         let base = List.map_filter (au_records auth) keys
         in case ss_compare_mode step of
              CompareBase \<Rightarrow> Inr base
            | CompareEffective \<Rightarrow>
                as_failure STR ''evaluate compare records''
                  (evaluate \<lparr>oq_collection = collection, oq_scope = or_scope ord, oq_bucket = ss_preview_bucket step\<rparr>
                     base (load_overlay_rules db collection (or_scope ord) keys))
            | CompareModeOther _ \<Rightarrow> Inl (StoreRelease ErrInvalid)))"

text \<open>A step that changes configuration: authority, revision, plan, writes.\<close>

definition with_authority ::
  "order \<Rightarrow> (authority \<Rightarrow> u64 \<Rightarrow> release_error + 'e) \<Rightarrow> ('e \<Rightarrow> database \<Rightarrow> store_error + database)
   \<Rightarrow> database \<Rightarrow> store_error + ('e \<times> database)" where
  "with_authority ord plan write db =
     rbind (load_authority db ord) (\<lambda>auth.
     rbind (allocate_config_revision db) (\<lambda>(db1, revision).
     rbind (lift_release (plan auth revision)) (\<lambda>e.
     rbind (write e db1) (\<lambda>db2. Inr (e, db2)))))"

definition apply_rollback_plan :: "(gotime \<Rightarrow> gotime) \<Rightarrow> string \<Rightarrow> step_effect \<Rightarrow> database \<Rightarrow> store_error + database" where
  "apply_rollback_plan db_time order_id plan db =
     (case (se_type plan, se_base plan, se_overlay plan) of
        (StepEffectBase, Some b, _) \<Rightarrow> apply_base_effect db_time order_id b db
      | (StepEffectOverlay, _, Some b) \<Rightarrow> apply_overlay_effect db_time order_id b db
      | _ \<Rightarrow> Inl (StoreRelease ErrFailedPrecondition))"

text \<open>
  The switch of \<open>Act\<close>: the changed order, the changed configuration tables, and the keys of a
  comparison that does not match.
\<close>

definition perform_execute ::
  "(gotime \<Rightarrow> gotime) \<Rightarrow> act_command \<Rightarrow> gotime \<Rightarrow> order \<Rightarrow> database
   \<Rightarrow> store_error + (order \<times> database \<times> string list)" where
  "perform_execute db_time c now ord db =
     (case ss_type (current_step ord) of
        StepManualReview \<Rightarrow>
          rbind (lift_release (execute_manual_review (ac_revision c) (ac_actor c) now ord)) (\<lambda>ord'.
          Inr (ord', db, []))
      | StepBaseApply \<Rightarrow>
          rbind (with_authority ord (\<lambda>auth rev. execute_base auth rev (ac_actor c) now ord)
                   (\<lambda>(_, e). apply_base_effect db_time (or_id ord) e) db) (\<lambda>((ord', _), db').
          Inr (ord', db', []))
      | StepOverlayApply \<Rightarrow>
          rbind (with_authority ord (\<lambda>auth rev. execute_overlay auth rev (ac_actor c) now ord)
                   (\<lambda>(_, e). apply_overlay_effect db_time (or_id ord) e) db) (\<lambda>((ord', _), db').
          Inr (ord', db', []))
      | StepPercentRollout \<Rightarrow>
          rbind (with_authority ord (\<lambda>auth rev. execute_percent_rollout auth rev (ac_actor c) now ord)
                   (\<lambda>(_, e). apply_percent_effect db_time (or_id ord) e) db) (\<lambda>((ord', _), db').
          Inr (ord', db', []))
      | StepCompare \<Rightarrow>
          rbind (load_compare_records db ord) (\<lambda>actual.
          rbind (lift_release (execute_compare (ac_revision c) actual (ac_actor c) now ord))
            (\<lambda>(ord', comparison, matched). Inr (ord', db, if matched then [] else cp_diff_keys comparison)))
      | StepComplete \<Rightarrow>
          rbind (lift_release (complete_order (ac_revision c) (ac_actor c) now ord)) (\<lambda>ord'.
          Inr (ord', db, []))
      | StepTypeOther _ \<Rightarrow> Inl (StoreRelease ErrInvalid))"

definition perform ::
  "(gotime \<Rightarrow> gotime) \<Rightarrow> act_command \<Rightarrow> gotime \<Rightarrow> order \<Rightarrow> database
   \<Rightarrow> store_error + (order \<times> database \<times> string list)" where
  "perform db_time c now ord db =
     (let who = \<lparr>pr_subject = ac_actor c, pr_roles = ac_roles c\<rparr>
      in case ac_action c of
           ActAdvance \<Rightarrow>
             rbind (lift_release (advance (ac_revision c) (ac_actor c) now ord)) (\<lambda>ord'. Inr (ord', db, []))
         | ActExecute \<Rightarrow> perform_execute db_time c now ord db
         | ActApprove \<Rightarrow>
             rbind (lift_release (approve_manual_review (ac_revision c) who (ac_comment c) now ord)) (\<lambda>ord'.
             Inr (ord', db, []))
         | ActReject \<Rightarrow>
             rbind (lift_release (reject_manual_review (ac_revision c) who (ac_comment c) now ord)) (\<lambda>ord'.
             Inr (ord', db, []))
         | ActRollback \<Rightarrow>
             rbind (with_authority ord (\<lambda>auth rev. rollback_all (ac_revision c) auth rev (ac_actor c) now ord)
                      (\<lambda>(_, plan). apply_rollback_plan db_time (or_id ord) plan) db) (\<lambda>((ord', _), db').
             Inr (ord', db', []))
         | ActOther _ \<Rightarrow> Inl (StoreRelease ErrInvalid))"

definition record_action :: "act_command \<Rightarrow> gotime \<Rightarrow> order \<Rightarrow> bool \<Rightarrow> release_db \<Rightarrow> release_db" where
  "record_action c now ord failed rd =
     rd\<lparr>rd_operations := rd_operations rd @
          [\<lparr>ol_order = or_id ord, ol_step = ss_code (current_step ord),
            ol_action = release_action_text (ac_action c), ol_actor = ac_actor c,
            ol_failure = (if failed then Some ''COMPARE_MISMATCH'' else None), ol_at = now\<rparr>],
        rd_db := insert_audit now (ac_actor c) (release_action_text (ac_action c)) (or_id ord) (or_scope ord)
          (rd_db rd)\<rparr>"

text \<open>
  The function \<open>Act\<close> passes to the transaction: the new state, the view and the error that a
  committed transaction still reports.
\<close>

definition act_transaction ::
  "(gotime \<Rightarrow> gotime) \<Rightarrow> act_command \<Rightarrow> gotime \<Rightarrow> release_db
   \<Rightarrow> store_error + (release_db \<times> order_view \<times> store_error option)" where
  "act_transaction db_time c now rd =
     rbind (load_order db_time rd (ac_order c)) (\<lambda>ord.
     case fmlookup (rd_results rd) (ac_order c, ac_request c) of
       Some stored \<Rightarrow>
         if sr_digest stored \<noteq> normalized_action_digest c then Inl (StoreRelease ErrIdempotencyKeyReused)
         else Inr (rd, sr_view stored, None)
     | None \<Rightarrow>
         if or_revision ord \<noteq> ac_revision c then Inl (StoreRelease ErrAborted)
         else if ss_code (current_step ord) \<noteq> ac_step c then Inl (StoreRelease ErrAborted)
         else rbind (perform db_time c now ord (rd_db rd)) (\<lambda>(ord', db', diff_keys).
              let failed = (diff_keys \<noteq> [])
              in rbind (save_order ord' (rd\<lparr>rd_db := db'\<rparr>)) (\<lambda>rd1.
                 let rd2 = record_action c now ord failed rd1; v = project ord'
                 in if failed then Inr (rd2, v, Some (StoreRelease ErrFailedPrecondition))
                    else Inr (rd2\<lparr>rd_results := fmupd (ac_order c, ac_request c)
                           \<lparr>sr_digest = normalized_action_digest c, sr_view = v\<rparr> (rd_results rd2)\<rparr>, v, None))))"

definition act :: "(gotime \<Rightarrow> gotime) \<Rightarrow> act_command \<Rightarrow> gotime \<Rightarrow> release_db \<Rightarrow> release_db \<times> (store_error + order_view)" where
  "act db_time c now rd =
     (if blank (ac_order c) \<or> blank (ac_request c) \<or> blank (ac_actor c) \<or> ac_step c = []
      then (rd, Inl (StoreRelease ErrInvalid))
      else case act_transaction db_time c now rd of
             Inl e \<Rightarrow> (rd, Inl e)
           | Inr (rd', v, None) \<Rightarrow> (rd', Inr v)
           | Inr (rd', v, Some e) \<Rightarrow> (rd', Inl e))"

end
