(* ===== verification/Refresh_Coordinator.thy ===== *)
theory Refresh_Coordinator
  imports Snapshot_Refresh "HOL-Library.Signed_Division"
begin

text \<open>
  The refresh coordinator of \<open>internal/distribution/snapshot/coordinator.go\<close>: the watermarks that
  wait for a refresh, the forced refreshes, and the retry delay. Each definition is what happens
  under one hold of the coordinator's mutex; the snapshots it reads are arguments, since the
  refresher behind it is an interface.
\<close>

record refresh_target =
  rt_collection :: string
  rt_min :: u64
  rt_cursor :: u64

datatype submit_error = SubmitInvalid | RefreshQueueFull

record coordinator =
  co_environment :: string
  co_max :: nat
  co_initial :: "64 word"
  co_limit :: "64 word"
  co_pending :: "(string, refresh_target) fmap"
  co_requested :: u64
  co_completed :: u64
  co_wake :: bool
  co_running :: bool

text \<open>
  The two backoffs are \<open>time.Duration\<close> values: 64 bits wide and signed, compared with \<open>\<le>s\<close> and \<open><s\<close>.
\<close>

definition new_coordinator :: "string \<Rightarrow> int \<Rightarrow> 64 word \<Rightarrow> 64 word \<Rightarrow> coordinator option" where
  "new_coordinator environment capacity initial limit =
     (if trim_space environment = [] \<or> capacity \<le> 0 \<or> initial \<le>s 0 \<or> limit <s initial then None
      else Some \<lparr>co_environment = trim_space environment, co_max = nat capacity, co_initial = initial,
                co_limit = limit, co_pending = fmempty, co_requested = 0, co_completed = 0,
                co_wake = False, co_running = False\<rparr>)"

section \<open>Watermarks\<close>

definition max_revision :: "u64 \<Rightarrow> u64 \<Rightarrow> u64" where
  "max_revision l r = (if l < r then r else l)"

definition target_reached :: "snapshot option \<Rightarrow> string \<Rightarrow> refresh_target \<Rightarrow> bool" where
  "target_reached current environment t =
     (case current of
        None \<Rightarrow> False
      | Some s \<Rightarrow>
          sn_environment s = environment \<and>
          (case fmlookup (sn_collections s) (rt_collection t) of
             None \<Rightarrow> False
           | Some v \<Rightarrow> rt_min t \<le> cv_version v \<and> rt_cursor t \<le> cv_cursor v))"

text \<open>The two merge loops: the greater watermark of each kind.\<close>

definition merge_watermark :: "(string, refresh_target) fmap \<Rightarrow> refresh_target \<Rightarrow> (string, refresh_target) fmap" where
  "merge_watermark m t =
     fmupd (rt_collection t)
       (case fmlookup m (rt_collection t) of
          None \<Rightarrow> t
        | Some c \<Rightarrow> \<lparr>rt_collection = rt_collection t, rt_min = max_revision (rt_min c) (rt_min t),
                    rt_cursor = max (rt_cursor c) (rt_cursor t)\<rparr>) m"

definition merge_target ::
  "(string, refresh_target) fmap \<Rightarrow> refresh_target \<Rightarrow> submit_error + (string, refresh_target) fmap" where
  "merge_target m raw =
     (let t = raw\<lparr>rt_collection := trim_space (rt_collection raw)\<rparr>
      in if rt_collection t = [] \<or> rt_min t = 0 \<and> rt_cursor t = 0 then Inl SubmitInvalid
         else Inr (merge_watermark m t))"

definition unreached ::
  "snapshot option \<Rightarrow> string \<Rightarrow> (string, refresh_target) fmap \<Rightarrow> (string, refresh_target) fmap" where
  "unreached current environment m =
     fmfilter (\<lambda>name. \<not> target_reached current environment (the (fmlookup m name))) m"

definition clear_reached :: "snapshot option \<Rightarrow> coordinator \<Rightarrow> coordinator" where
  "clear_reached current co = co\<lparr>co_pending := unreached current (co_environment co) (co_pending co)\<rparr>"

text \<open>
  \<open>Submit\<close>. The merge of the batch into the waiting targets treats every collection once, so its
  order is irrelevant.
\<close>

definition submit :: "snapshot option \<Rightarrow> refresh_target list \<Rightarrow> coordinator \<Rightarrow> coordinator \<times> (submit_error + unit)" where
  "submit current targets co =
     (case rfold merge_target fmempty targets of
        Inl e \<Rightarrow> (co, Inl e)
      | Inr merged \<Rightarrow>
          if merged = fmempty then (co, Inl SubmitInvalid)
          else let waiting = unreached current (co_environment co) merged
               in if waiting = fmempty then (co, Inr ())
                  else let cleared = clear_reached current co;
                           pending = co_pending cleared;
                           additional = length (filter (\<lambda>name. name |\<notin>| fmdom pending) (sorted_keys waiting))
                       in if map_len pending + additional > co_max co then (cleared, Inl RefreshQueueFull)
                          else (cleared\<lparr>co_pending := foldl merge_watermark pending (sorted_values waiting),
                                        co_wake := True\<rparr>, Inr ()))"

definition request_refresh :: "coordinator \<Rightarrow> coordinator" where
  "request_refresh co = co\<lparr>co_requested := co_requested co + 1, co_wake := True\<rparr>"

definition has_pending :: "coordinator \<Rightarrow> bool" where
  "has_pending co \<longleftrightarrow> co_pending co \<noteq> fmempty \<or> co_completed co < co_requested co"

section \<open>One round of the writer loop\<close>

text \<open>
  \<open>processPending\<close> before its refresh: nothing to do, or the force counter it read. Then the
  refresh runs without the mutex, and \<open>process_end\<close> looks at the snapshot after it.
\<close>

definition process_begin :: "snapshot option \<Rightarrow> coordinator \<Rightarrow> coordinator \<times> u64 option" where
  "process_begin current co =
     (let cleared = clear_reached current co
      in if co_pending cleared = fmempty \<and> co_requested cleared = co_completed cleared then (cleared, None)
         else (cleared, Some (co_requested cleared)))"

datatype process_result = RefreshFailed | TargetNotReached | Processed

definition process_end :: "bool \<Rightarrow> snapshot option \<Rightarrow> u64 \<Rightarrow> coordinator \<Rightarrow> coordinator \<times> process_result" where
  "process_end refreshed current force co =
     (if \<not> refreshed then (co, RefreshFailed)
      else let cleared = clear_reached current co;
               done = (if co_completed cleared < force then cleared\<lparr>co_completed := force\<rparr> else cleared)
           in (done, if co_pending done \<noteq> fmempty then TargetNotReached else Processed))"

definition coordinator_start :: "coordinator \<Rightarrow> coordinator option" where
  "coordinator_start co = (if co_running co then None else Some (co\<lparr>co_running := True\<rparr>))"

definition coordinator_stop :: "coordinator \<Rightarrow> coordinator" where
  "coordinator_stop co = co\<lparr>co_running := False\<rparr>"

text \<open>
  \<open>retryDelay\<close>, on the 64-bit durations of the code: the doubling wraps around, and only the test
  against half the limit keeps it from doing so. Go's division of a signed value is \<open>sdiv\<close>.
\<close>

definition duration_half :: "64 word \<Rightarrow> 64 word" where
  "duration_half d = word_of_int (sint d sdiv 2)"

fun retry_loop :: "64 word \<Rightarrow> nat \<Rightarrow> 64 word \<Rightarrow> 64 word" where
  "retry_loop limit 0 delay = (if limit <s delay then limit else delay)"
| "retry_loop limit (Suc n) delay =
     (if delay <s limit
      then if duration_half limit <s delay then limit else retry_loop limit n (delay * 2)
      else if limit <s delay then limit else delay)"

definition retry_delay :: "coordinator \<Rightarrow> nat \<Rightarrow> 64 word" where
  "retry_delay co attempt = retry_loop (co_limit co) attempt (co_initial co)"

section \<open>Facts\<close>

text \<open>A target's demand is covered by another one that asks for at least as much.\<close>

definition covers :: "(string, refresh_target) fmap \<Rightarrow> refresh_target \<Rightarrow> bool" where
  "covers m t \<longleftrightarrow>
     (case fmlookup m (rt_collection t) of
        None \<Rightarrow> False
      | Some p \<Rightarrow> rt_collection p = rt_collection t \<and> rt_min t \<le> rt_min p \<and> rt_cursor t \<le> rt_cursor p)"

definition keyed_targets :: "(string, refresh_target) fmap \<Rightarrow> bool" where
  "keyed_targets m \<longleftrightarrow>
     (\<forall>n t. fmlookup m n = Some t \<longrightarrow> rt_collection t = n \<and> n \<noteq> [] \<and> (rt_min t \<noteq> 0 \<or> rt_cursor t \<noteq> 0))"

definition coordinator_ok :: "coordinator \<Rightarrow> bool" where
  "coordinator_ok co \<longleftrightarrow> keyed_targets (co_pending co) \<and> map_len (co_pending co) \<le> co_max co"

lemma max_revision_ge: "l \<le> max_revision l r" "r \<le> max_revision l r"
  by (auto simp: max_revision_def)

lemma merge_watermark_covers: "covers m t \<Longrightarrow> covers (merge_watermark m u) t"
  using max_revision_ge order_trans
  by (fastforce simp: covers_def merge_watermark_def le_max_iff_disj split: option.splits)

lemma merge_watermark_new: "covers (merge_watermark m t) t"
  using max_revision_ge by (auto simp: covers_def merge_watermark_def split: option.splits)

lemma merge_watermark_keyed:
  assumes "keyed_targets m" "rt_collection t \<noteq> []" "rt_min t \<noteq> 0 \<or> rt_cursor t \<noteq> 0"
  shows "keyed_targets (merge_watermark m t)"
proof -
  have "max_revision a b = 0 \<longleftrightarrow> a = 0 \<and> b = 0" for a b
    by (auto simp: max_revision_def word_greater_zero_iff)
  moreover have "max a b = 0 \<longleftrightarrow> a = 0 \<and> b = 0" for a b :: u64 by (auto simp: max_def)
  ultimately show ?thesis
    using assms by (auto simp: keyed_targets_def merge_watermark_def split: option.splits)
qed

lemma foldl_merge_covers: "covers m t \<Longrightarrow> covers (foldl merge_watermark m ts) t"
  by (induction ts arbitrary: m) (simp_all add: merge_watermark_covers)

lemma foldl_merge_new: "t \<in> set ts \<Longrightarrow> covers (foldl merge_watermark m ts) t"
  by (induction ts arbitrary: m) (auto intro: foldl_merge_covers merge_watermark_new)

lemma foldl_merge_keyed:
  assumes "keyed_targets m" "\<forall>t \<in> set ts. rt_collection t \<noteq> [] \<and> (rt_min t \<noteq> 0 \<or> rt_cursor t \<noteq> 0)"
  shows "keyed_targets (foldl merge_watermark m ts)"
  using assms by (induction ts arbitrary: m) (simp_all add: merge_watermark_keyed)

lemma foldl_merge_dom: "fmdom (foldl merge_watermark m ts) = fmdom m |\<union>| fset_of_list (map rt_collection ts)"
  by (induction ts arbitrary: m) (auto simp: merge_watermark_def)

definition trimmed_target :: "refresh_target \<Rightarrow> refresh_target" where
  "trimmed_target t = t\<lparr>rt_collection := trim_space (rt_collection t)\<rparr>"

lemma merge_targets_Inr:
  assumes "rfold merge_target m ts = Inr merged" "keyed_targets m"
  shows "merged = foldl merge_watermark m (map trimmed_target ts) \<and> keyed_targets merged"
  using assms
proof (induction ts arbitrary: m)
  case (Cons t ts)
  then have "merge_target m t = Inr (merge_watermark m (trimmed_target t))"
    "keyed_targets (merge_watermark m (trimmed_target t))"
    by (auto simp: merge_target_def trimmed_target_def Let_def rbind_Inr_iff intro: merge_watermark_keyed split: if_splits)
  with Cons show ?case by simp
qed simp

lemma reached_covered:
  assumes "covers m t" "target_reached current env (the (fmlookup m (rt_collection t)))"
  shows "target_reached current env t"
  using assms by (auto simp: covers_def target_reached_def intro: order_trans split: option.splits)

lemma unreached_covers:
  assumes "covers m t" shows "covers (unreached current env m) t \<or> target_reached current env t"
proof (cases "target_reached current env (the (fmlookup m (rt_collection t)))")
  case True
  with assms show ?thesis using reached_covered by blast
next
  case False
  then show ?thesis using assms by (auto simp: covers_def unreached_def)
qed

lemma unreached_keyed: "keyed_targets m \<Longrightarrow> keyed_targets (unreached current env m)"
  by (auto simp: keyed_targets_def unreached_def)

lemma unreached_len: "map_len (unreached current env m) \<le> map_len m"
  unfolding map_len_def unreached_def by (intro fcard_mono) auto

lemma clear_reached_ok: "coordinator_ok co \<Longrightarrow> coordinator_ok (clear_reached current co)"
  by (auto simp: coordinator_ok_def clear_reached_def unreached_keyed intro: order_trans [OF unreached_len])

section \<open>What an accepted batch waits for\<close>

lemma submit_cases:
  assumes "submit current targets co = (co', r)"
  obtains (rejected) "co' = co" "r = Inl SubmitInvalid"
    | (reached) merged where "rfold merge_target fmempty targets = Inr merged" "co' = co" "r = Inr ()"
        "unreached current (co_environment co) merged = fmempty"
    | (full) "co' = clear_reached current co" "r = Inl RefreshQueueFull"
    | (accepted) merged waiting where "rfold merge_target fmempty targets = Inr merged" "r = Inr ()"
        "waiting = unreached current (co_environment co) merged"
        "map_len (co_pending (clear_reached current co)) +
           length (filter (\<lambda>name. name |\<notin>| fmdom (co_pending (clear_reached current co))) (sorted_keys waiting)) \<le> co_max co"
        "co' = (clear_reached current co)\<lparr>
           co_pending := foldl merge_watermark (co_pending (clear_reached current co)) (sorted_values waiting),
           co_wake := True\<rparr>"
proof (cases "rfold merge_target fmempty targets")
  case (Inl e)
  then have "e = SubmitInvalid"
  proof -
    have "rfold merge_target m ts = Inl e \<Longrightarrow> e = SubmitInvalid" for m ts
      by (induction ts arbitrary: m) (auto simp: merge_target_def Let_def rbind_Inl_iff split: if_splits)
    with Inl show ?thesis by blast
  qed
  with Inl assms rejected show ?thesis by (simp add: submit_def)
next
  case (Inr merged)
  show ?thesis
  proof (cases "merged = fmempty \<or> unreached current (co_environment co) merged = fmempty")
    case True
    with Inr assms rejected reached show ?thesis by (auto simp: submit_def Let_def split: if_splits)
  next
    case False
    note d = assms [unfolded submit_def Inr sum.case Let_def] 
    show ?thesis
    proof (cases "map_len (co_pending (clear_reached current co)) + length (filter (\<lambda>name.
        name |\<notin>| fmdom (co_pending (clear_reached current co)))
        (sorted_keys (unreached current (co_environment co) merged))) > co_max co")
      case True
      with d False full show ?thesis by simp
    next
      case small: False
      with d False Inr show ?thesis by (intro accepted [OF Inr _ refl]) (simp_all add: not_less)
    qed
  qed
qed

lemma keyed_targets_empty [simp]: "keyed_targets fmempty"
  by (simp add: keyed_targets_def)

lemma sorted_values_targets:
  assumes "keyed_targets m"
  shows "\<forall>t \<in> set (sorted_values m). rt_collection t \<noteq> [] \<and> (rt_min t \<noteq> 0 \<or> rt_cursor t \<noteq> 0)"
    and "map rt_collection (sorted_values m) = sorted_keys m"
proof -
  show "\<forall>t \<in> set (sorted_values m). rt_collection t \<noteq> [] \<and> (rt_min t \<noteq> 0 \<or> rt_cursor t \<noteq> 0)"
    using assms by (fastforce simp: keyed_targets_def set_sorted_values)
  have "rt_collection (the (fmlookup m k)) = k" if "k \<in> set (sorted_keys m)" for k
    using that assms by (auto simp: keyed_targets_def fmlookup_dom_iff)
  then show "map rt_collection (sorted_values m) = sorted_keys m"
    unfolding sorted_values_def by (auto intro: map_idI)
qed

lemma submit_accepted:
  assumes "submit current targets co = (co', Inr ())" "t \<in> set targets"
  shows "target_reached current (co_environment co) (trimmed_target t) \<or> covers (co_pending co') (trimmed_target t)"
  using assms(1)
proof (cases rule: submit_cases)
  case (reached merged)
  have "covers merged (trimmed_target t)"
    using merge_targets_Inr [OF reached(1)] foldl_merge_new assms(2) by simp
  then show ?thesis using unreached_covers [of merged _ current "co_environment co"] reached(4)
    by (auto simp: covers_def)
next
  case (accepted merged waiting)
  have "covers merged (trimmed_target t)"
    using merge_targets_Inr [OF accepted(1)] foldl_merge_new assms(2) by simp
  then have "covers waiting (trimmed_target t) \<or> target_reached current (co_environment co) (trimmed_target t)"
    unfolding accepted(3) by (rule unreached_covers)
  moreover have "covers (co_pending co') (trimmed_target t)" if c: "covers waiting (trimmed_target t)"
  proof -
    from c obtain p where p: "fmlookup waiting (rt_collection (trimmed_target t)) = Some p"
      "rt_collection p = rt_collection (trimmed_target t)" "rt_min (trimmed_target t) \<le> rt_min p"
      "rt_cursor (trimmed_target t) \<le> rt_cursor p" by (auto simp: covers_def split: option.splits)
    then have "p \<in> set (sorted_values waiting)" by (auto simp: set_sorted_values)
    then have "covers (co_pending co') p" unfolding accepted(5) by (simp add: foldl_merge_new)
    with p show ?thesis by (auto simp: covers_def intro: order_trans split: option.splits)
  qed
  ultimately show ?thesis by blast
qed simp_all

lemma submit_keeps:
  assumes "submit current targets co = (co', r)" "covers (co_pending co) t"
  shows "covers (co_pending co') t \<or> target_reached current (co_environment co) t"
proof -
  have kept: "covers (co_pending (clear_reached current co)) t \<or> target_reached current (co_environment co) t"
    using unreached_covers [OF assms(2)] by (simp add: clear_reached_def)
  from assms(1) show ?thesis
    by (cases rule: submit_cases) (use assms(2) kept in \<open>auto simp: foldl_merge_covers\<close>)
qed

lemma submit_ok:
  assumes "submit current targets co = (co', r)" "coordinator_ok co"
  shows "coordinator_ok co' \<and> co_environment co' = co_environment co"
  using assms(1)
proof (cases rule: submit_cases)
  case (accepted merged waiting)
  let ?pending = "co_pending (clear_reached current co)"
  have pending: "keyed_targets ?pending" using clear_reached_ok [OF assms(2)] by (simp add: coordinator_ok_def)
  have waiting: "keyed_targets waiting"
    unfolding accepted(3) using merge_targets_Inr [OF accepted(1) keyed_targets_empty] by (blast intro: unreached_keyed)
  note targets = sorted_values_targets [OF waiting]
  let ?new = "filter (\<lambda>name. name |\<notin>| fmdom ?pending) (sorted_keys waiting)"
  have "fset (fmdom (foldl merge_watermark ?pending (sorted_values waiting))) = fset (fmdom ?pending) \<union> set ?new"
    unfolding foldl_merge_dom targets(2) by (auto simp: fset_of_list.rep_eq)
  then have "map_len (foldl merge_watermark ?pending (sorted_values waiting)) = card (fset (fmdom ?pending) \<union> set ?new)"
    by (simp add: map_len_def fcard.rep_eq)
  also have "\<dots> \<le> card (fset (fmdom ?pending)) + card (set ?new)" by (rule card_Un_le)
  also have "\<dots> \<le> map_len ?pending + length ?new"
    unfolding map_len_def fcard.rep_eq by (intro add_left_mono card_length)
  finally have "map_len (foldl merge_watermark ?pending (sorted_values waiting)) \<le> map_len ?pending + length ?new" .
  then show ?thesis using foldl_merge_keyed [OF pending targets(1)] accepted(4,5)
    by (simp add: coordinator_ok_def clear_reached_def)
qed (use assms(2) clear_reached_ok in \<open>auto simp: clear_reached_def\<close>)

section \<open>Runs\<close>

text \<open>
  The coordinator and the force counter of a round in progress. Submitters interleave freely
  with the rounds of its one writer loop.
\<close>

datatype coordinator_event =
    SubmitTargets "snapshot option" "refresh_target list"
  | RequestRefresh
  | RoundBegins "snapshot option"
  | RoundEnds bool "snapshot option"

fun coordinator_step :: "coordinator \<times> u64 option \<Rightarrow> coordinator_event \<Rightarrow> coordinator \<times> u64 option" where
  "coordinator_step (co, f) (SubmitTargets current targets) = (fst (submit current targets co), f)"
| "coordinator_step (co, f) RequestRefresh = (request_refresh co, f)"
| "coordinator_step (co, f) (RoundBegins current) =
     (case f of Some _ \<Rightarrow> (co, f) | None \<Rightarrow> process_begin current co)"
| "coordinator_step (co, f) (RoundEnds refreshed current) =
     (case f of None \<Rightarrow> (co, f) | Some force \<Rightarrow> (fst (process_end refreshed current force co), None))"

fun observed :: "coordinator_event \<Rightarrow> snapshot option" where
  "observed (SubmitTargets current _) = current"
| "observed RequestRefresh = None"
| "observed (RoundBegins current) = current"
| "observed (RoundEnds _ current) = current"

lemma clear_reached_keeps:
  "covers (co_pending co) t \<Longrightarrow>
     covers (co_pending (clear_reached current co)) t \<or> target_reached current (co_environment co) t"
  using unreached_covers by (simp add: clear_reached_def)

lemma round_pending:
  assumes "coordinator_step (co, f) e = (co', f')" "e = RoundBegins current \<or> e = RoundEnds refreshed current"
  shows "(co_pending co' = co_pending co \<or> co_pending co' = co_pending (clear_reached current co)) \<and>
    co_environment co' = co_environment co \<and> co_max co' = co_max co"
  using assms
  by (auto simp: process_begin_def process_end_def clear_reached_def Let_def split: option.splits if_splits)

lemma coordinator_step_keeps:
  assumes "covers (co_pending co) t" "coordinator_step (co, f) e = (co', f')"
  shows "covers (co_pending co') t \<or> target_reached (observed e) (co_environment co) t"
proof (cases e)
  case (SubmitTargets current targets)
  then have "submit current targets co = (co', snd (submit current targets co))"
    using assms(2) by (simp add: prod_eq_iff)
  with SubmitTargets submit_keeps assms(1) show ?thesis by simp
next
  case RequestRefresh
  with assms show ?thesis by (auto simp: request_refresh_def)
next
  case (RoundBegins current)
  with round_pending [OF assms(2), of current] clear_reached_keeps [OF assms(1), of current] assms(1) show ?thesis by auto
next
  case (RoundEnds refreshed current)
  with round_pending [OF assms(2), of current refreshed] clear_reached_keeps [OF assms(1), of current] assms(1) show ?thesis by auto
qed

lemma coordinator_step_ok:
  assumes "coordinator_ok co" "coordinator_step (co, f) e = (co', f')"
  shows "coordinator_ok co' \<and> co_environment co' = co_environment co"
proof (cases e)
  case (SubmitTargets current targets)
  then have "submit current targets co = (co', snd (submit current targets co))"
    using assms(2) by (simp add: prod_eq_iff)
  with submit_ok assms(1) show ?thesis by blast
next
  case RequestRefresh
  with assms show ?thesis by (auto simp: request_refresh_def coordinator_ok_def)
next
  case (RoundBegins current)
  with round_pending [OF assms(2), of current] clear_reached_ok [OF assms(1), of current] assms(1)
  show ?thesis by (auto simp: coordinator_ok_def clear_reached_def)
next
  case (RoundEnds refreshed current)
  with round_pending [OF assms(2), of current refreshed] clear_reached_ok [OF assms(1), of current] assms(1)
  show ?thesis by (auto simp: coordinator_ok_def clear_reached_def)
qed

lemma coordinator_run_keeps:
  assumes "covers (co_pending co) t" "coordinator_ok co" "foldl coordinator_step (co, f) es = (co', f')"
  shows "(covers (co_pending co') t \<or> list_ex (\<lambda>e. target_reached (observed e) (co_environment co) t) es) \<and>
    coordinator_ok co'"
  using assms
proof (induction es arbitrary: co f)
  case (Cons e es)
  obtain c g where step: "coordinator_step (co, f) e = (c, g)" by fastforce
  note ok = coordinator_step_ok [OF Cons.prems(2) step]
  have rest: "foldl coordinator_step (c, g) es = (co', f')" using Cons.prems(3) step by simp
  have final: "coordinator_ok co'"
    using rest ok
  proof (induction es arbitrary: c g)
    case (Cons e es)
    obtain d h where "coordinator_step (c, g) e = (d, h)" by fastforce
    with Cons coordinator_step_ok [of c g e d h] show ?case by auto
  qed simp
  from coordinator_step_keeps [OF Cons.prems(1) step] show ?case
  proof
    assume "covers (co_pending c) t"
    with Cons.IH [of c g] ok rest show ?thesis by auto
  next
    assume "target_reached (observed e) (co_environment co) t"
    with final show ?thesis by simp
  qed
qed simp

section \<open>The retry delay\<close>

lemma sint_fits: "- (2 ^ 63) \<le> x \<Longrightarrow> x < 2 ^ 63 \<Longrightarrow> sint (word_of_int x :: 64 word) = x"
  by (simp add: sint_sbintrunc' signed_take_bit_int_eq_self)

lemma sint_half: "0 \<le> sint d \<Longrightarrow> sint (duration_half d) = sint d div 2"
proof -
  assume "0 \<le> sint d"
  then have "sint d sdiv 2 = sint d div 2" by (cases "sint d = 0") (simp_all add: signed_divide_int_def sgn_if)
  moreover have "sint d < 2 ^ 63" using sint_lt [of d] by simp
  ultimately show ?thesis using \<open>0 \<le> sint d\<close>
    unfolding duration_half_def by (subst sint_fits) simp_all
qed

text \<open>A delay of at most half a limit can be doubled without leaving the 64 bits.\<close>

lemma sint_double:
  assumes "0 < sint (d :: 64 word)" "sint d \<le> sint (limit :: 64 word) div 2"
  shows "sint (d * 2) = 2 * sint d"
proof -
  have "sint limit < 2 ^ 63" using sint_lt [of limit] by simp
  moreover have "d * 2 = word_of_int (2 * sint d)" by (simp add: wi_hom_mult [symmetric] mult.commute)
  moreover have "sint (word_of_int (2 * sint d) :: 64 word) = 2 * sint d"
    using assms \<open>sint limit < 2 ^ 63\<close> by (intro sint_fits) simp_all
  ultimately show ?thesis by (simp only:)
qed

lemma retry_loop_min:
  assumes "0 < sint delay" "sint delay \<le> sint limit"
  shows "sint (retry_loop limit n delay) = min (sint limit) (sint delay * 2 ^ n)"
  using assms
proof (induction limit n delay rule: retry_loop.induct)
  case (2 limit n delay)
  have half: "sint (duration_half limit) = sint limit div 2" using "2.prems" by (intro sint_half) simp
  have grows: "sint delay * 2 \<le> sint delay * 2 ^ Suc n" using "2.prems" by (simp add: mult_le_cancel_left1)
  show ?case
  proof (cases "delay <s limit \<and> sint delay \<le> sint limit div 2")
    case True
    with "2.prems" have double: "sint (delay * 2) = 2 * sint delay" by (intro sint_double) auto
    with True "2.prems" have "sint (retry_loop limit n (delay * 2)) = min (sint limit) (2 * sint delay * 2 ^ n)"
      by (subst "2.IH") (auto simp: half word_sless_alt)
    with True show ?thesis by (simp add: half word_sless_alt mult.commute mult.left_commute)
  next
    case False
    with "2.prems" have "sint (retry_loop limit (Suc n) delay) = sint limit" "sint limit \<le> sint delay * 2"
      by (auto simp: half word_sless_alt)
    with grows show ?thesis by (simp add: min_def)
  qed
qed (simp add: word_sless_alt)

end
