(* ===== verification/Config_Server.thy ===== *)
theory Config_Server
  imports Refresh_Coordinator
begin

text \<open>
  The config server's service: \<open>New\<close>, \<open>NewWithRefresh\<close>, \<open>GetSnapshot\<close>, \<open>DiffVersions\<close> and
  \<open>GetCollections\<close> of \<open>internal/configserver/service.go\<close>. The current snapshot is what the
  \<open>SnapshotProvider\<close> answers, an argument of every operation. \<open>GetCollections\<close> waits by polling
  the provider; the wait is a list of ticks, each with the two snapshots the loop reads in it.
\<close>

datatype server_error =
    EnvironmentMismatch
  | SnapshotUnavailable
  | InvalidArgument
  | CollectionForbidden
  | ContextEnded
  | ServerFailure catalog_error

record known_version =
  kv_collection :: string
  kv_revision :: u64
  kv_digest :: string

record snapshot_request =
  sq_consumer :: string
  sq_client :: string
  sq_region :: string
  sq_environment :: string
  sq_stage :: string
  sq_known :: "known_version list"

record payload_record =
  pr_key :: string
  pr_revision :: u64
  pr_data :: data

record collection_payload =
  cp_name :: string
  cp_revision :: u64
  cp_cursor :: u64
  cp_digest :: string
  cp_records :: "payload_record list"

record snapshot_response =
  sr_identity :: snapshot_identity
  sr_region :: string
  sr_environment :: string
  sr_stage :: string
  sr_bucket :: int
  sr_collections :: "collection_payload list"
  sr_deleted :: "string list"

record diff_response =
  df_identity :: snapshot_identity
  df_added :: "string list"
  df_modified :: "string list"
  df_deleted :: "string list"

record collections_request =
  cq_consumer :: string
  cq_client :: string
  cq_region :: string
  cq_environment :: string
  cq_stage :: string
  cq_collections :: "string list"
  cq_min :: u64

text \<open>The service: its managed environment, whether a submitter is set, and the wait in nanoseconds.\<close>

record config_service =
  sv_environment :: string
  sv_submitter :: bool
  sv_wait :: int

definition new_service :: "string \<Rightarrow> config_service" where
  "new_service environment = \<lparr>sv_environment = trim_space environment, sv_submitter = False, sv_wait = 0\<rparr>"

definition max_collection_wait :: int where
  "max_collection_wait = 2 * 1000000000"

definition new_service_with_refresh :: "string \<Rightarrow> bool \<Rightarrow> int \<Rightarrow> server_error + config_service" where
  "new_service_with_refresh environment submitter wait =
     (if \<not> submitter \<or> wait \<le> 0 \<or> wait > max_collection_wait
      then Inl (ServerFailure STR ''new Config Server refresh reader: submitter and wait timeout up to two seconds are required'')
      else Inr ((new_service environment)\<lparr>sv_submitter := submitter, sv_wait := wait\<rparr>))"

section \<open>GetSnapshot\<close>

definition trim_request :: "snapshot_request \<Rightarrow> snapshot_request" where
  "trim_request q = q\<lparr>sq_consumer := trim_space (sq_consumer q), sq_client := trim_space (sq_client q),
     sq_region := trim_space (sq_region q), sq_environment := trim_space (sq_environment q),
     sq_stage := trim_space (sq_stage q)\<rparr>"

definition index_known ::
  "(string, known_version) fmap \<Rightarrow> known_version \<Rightarrow> server_error + (string, known_version) fmap" where
  "index_known known version =
     (let name = trim_space (kv_collection version)
      in if name = [] then Inl (ServerFailure STR ''get snapshot: known version collection is required'')
         else if name |\<in>| fmdom known then Inl (ServerFailure STR ''get snapshot: duplicate known version %q'')
         else Inr (fmupd name (version\<lparr>kv_collection := name\<rparr>) known))"

definition authorized_set :: "string list \<Rightarrow> string set" where
  "authorized_set names = {name \<in> set (map trim_space names). name \<noteq> []}"

definition request_query :: "snapshot_request \<Rightarrow> int \<Rightarrow> string \<Rightarrow> overlay_query" where
  "request_query q bucket name =
     \<lparr>oq_collection = name,
      oq_scope = \<lparr>sc_region = sq_region q, sc_environment = sq_environment q, sc_stage = sq_stage q\<rparr>,
      oq_bucket = Some bucket\<rparr>"

definition payload_record_of :: "config_record \<Rightarrow> payload_record" where
  "payload_record_of r = \<lparr>pr_key = cr_key r, pr_revision = cr_revision r, pr_data = deref_map (cr_data r)\<rparr>"

text \<open>The records a request sees in a collection, and their digest.\<close>

definition effective_collection ::
  "snapshot \<Rightarrow> snapshot_request \<Rightarrow> int \<Rightarrow> string \<Rightarrow> server_error + config_record list \<times> digest" where
  "effective_collection s q bucket name =
     rbind (rerror (ServerFailure STR ''get snapshot: evaluate %q: %w'')
              (evaluate (request_query q bucket name) (snapshot_records s name) (snapshot_rules s name))) (\<lambda>records.
     rbind (rerror (ServerFailure STR ''get snapshot: digest %q: %w'') (compute_base_digest records)) (\<lambda>dg.
     Inr (records, dg)))"

definition payload_of ::
  "string \<Rightarrow> collection_view \<Rightarrow> config_record list \<Rightarrow> digest \<Rightarrow> collection_payload" where
  "payload_of name v records dg =
     \<lparr>cp_name = name, cp_revision = cv_version v, cp_cursor = cv_cursor v, cp_digest = dg_value dg,
      cp_records = map payload_record_of records\<rparr>"

definition serve_collection ::
  "snapshot \<Rightarrow> snapshot_request \<Rightarrow> int \<Rightarrow> string set
     \<Rightarrow> (string, known_version) fmap \<times> collection_payload list \<Rightarrow> string
     \<Rightarrow> server_error + (string, known_version) fmap \<times> collection_payload list" where
  "serve_collection s q bucket allowed acc name =
     (case fmlookup (sn_collections s) name of
        None \<Rightarrow> Inr acc
      | Some v \<Rightarrow>
          if name \<notin> allowed \<or> \<not> cd_sdk_delivery (cv_definition v) then Inr acc
          else rbind (effective_collection s q bucket name) (\<lambda>(records, dg).
            case acc of (known, payloads) \<Rightarrow>
              (case fmlookup known name of
                 Some previous \<Rightarrow>
                   if kv_revision previous = cv_version v \<and> kv_digest previous = dg_value dg
                   then Inr (fmdrop name known, payloads)
                   else Inr (fmdrop name known, payloads @ [payload_of name v records dg])
               | None \<Rightarrow> Inr (fmdrop name known, payloads @ [payload_of name v records dg]))))"

definition get_snapshot ::
  "config_service \<Rightarrow> snapshot option \<Rightarrow> snapshot_request \<Rightarrow> server_error + snapshot_response" where
  "get_snapshot sv current raw =
     (let q = trim_request raw
      in if sv_environment sv = [] then Inl (ServerFailure STR ''get snapshot: service dependencies are incomplete'')
         else if sq_consumer q = [] \<or> sq_client q = [] \<or> sq_region q = [] \<or> sq_environment q = []
         then Inl (ServerFailure STR ''get snapshot: consumer, client, region, and environment are required'')
         else if sq_environment q \<noteq> sv_environment sv then Inl EnvironmentMismatch
         else rbind (rerror (ServerFailure STR ''get snapshot: %w'') (client_bucket (sq_consumer q) (sq_client q))) (\<lambda>bucket.
         case current of
           None \<Rightarrow> Inl SnapshotUnavailable
         | Some s \<Rightarrow>
             if sn_environment s \<noteq> sv_environment sv then Inl EnvironmentMismatch
             else rbind (rerror (ServerFailure STR ''get snapshot authorization: %w'')
                           (authorized_collections s (sq_consumer q))) (\<lambda>authorized.
             rbind (rfold index_known fmempty (sq_known q)) (\<lambda>known.
             rbind (rfold (serve_collection s q bucket (authorized_set authorized)) (known, []) (collection_names s))
               (\<lambda>(unseen, payloads).
             Inr \<lparr>sr_identity = sn_identity s, sr_region = sq_region q, sr_environment = sn_environment s,
                  sr_stage = sq_stage q, sr_bucket = bucket, sr_collections = payloads,
                  sr_deleted = sorted_keys unseen\<rparr>)))))"

section \<open>DiffVersions\<close>

definition normalize_known ::
  "string set \<times> known_version list \<Rightarrow> known_version \<Rightarrow> server_error + string set \<times> known_version list" where
  "normalize_known acc version =
     (let name = trim_space (kv_collection version)
      in if name = [] \<or> name \<in> fst acc then Inl InvalidArgument
         else Inr (insert name (fst acc), snd acc @ [version\<lparr>kv_collection := name\<rparr>]))"

definition diff_versions ::
  "config_service \<Rightarrow> snapshot option \<Rightarrow> snapshot_request \<Rightarrow> server_error + diff_response" where
  "diff_versions sv current q =
     rbind (rfold normalize_known ({}, []) (sq_known q)) (\<lambda>(known, normalized).
     rbind (get_snapshot sv current (q\<lparr>sq_known := normalized\<rparr>)) (\<lambda>response.
     (let names = map cp_name (sr_collections response)
      in Inr \<lparr>df_identity = sr_identity response,
              df_added = sort (filter (\<lambda>n. n \<notin> known) names),
              df_modified = sort (filter (\<lambda>n. n \<in> known) names),
              df_deleted = sort (sr_deleted response)\<rparr>)))"

section \<open>GetCollections\<close>

definition request_collection ::
  "string list \<Rightarrow> string \<Rightarrow> server_error + string list" where
  "request_collection acc raw =
     (let name = trim_space raw
      in if name = [] \<or> name \<in> set acc then Inl InvalidArgument else Inr (acc @ [name]))"

definition select_payload ::
  "collection_payload list \<Rightarrow> u64 \<Rightarrow> collection_payload list \<times> refresh_target list \<Rightarrow> string
     \<Rightarrow> server_error + collection_payload list \<times> refresh_target list" where
  "select_payload available least acc name =
     (case List.find (\<lambda>p. cp_name p = name) available of
        None \<Rightarrow> Inl CollectionForbidden
      | Some p \<Rightarrow> Inr (fst acc @ [p],
          if cp_revision p < least
          then snd acc @ [\<lparr>rt_collection = name, rt_min = least, rt_cursor = 0\<rparr>] else snd acc))"

definition full_request :: "collections_request \<Rightarrow> snapshot_request" where
  "full_request q =
     \<lparr>sq_consumer = cq_consumer q, sq_client = cq_client q, sq_region = cq_region q,
      sq_environment = cq_environment q, sq_stage = cq_stage q, sq_known = []\<rparr>"

text \<open>The closure \<open>load\<close>, for the trimmed names.\<close>

definition load_collections ::
  "config_service \<Rightarrow> collections_request \<Rightarrow> string list \<Rightarrow> snapshot option
     \<Rightarrow> server_error + (snapshot_identity \<times> collection_payload list) \<times> refresh_target list" where
  "load_collections sv q names current =
     rbind (get_snapshot sv current (full_request q)) (\<lambda>response.
     rbind (rfold (select_payload (sr_collections response) (cq_min q)) ([], []) names) (\<lambda>(selected, unmet).
     Inr ((sr_identity response, sort_key cp_name selected), unmet)))"

definition collection_targets_reached :: "snapshot option \<Rightarrow> string \<Rightarrow> refresh_target list \<Rightarrow> bool" where
  "collection_targets_reached current environment targets =
     (case current of
        None \<Rightarrow> False
      | Some s \<Rightarrow>
          sn_environment s = environment \<and>
          list_all (\<lambda>t. case fmlookup (sn_collections s) (rt_collection t) of
                          None \<Rightarrow> False | Some v \<Rightarrow> rt_min t \<le> cv_version v) targets)"

text \<open>
  One round of the wait loop: the snapshot the targets are checked against, the one the response
  is loaded from, whether the wait ended while it was loaded, and whether it had ended when the
  response was ready.
\<close>

record wait_tick =
  wt_checked :: "snapshot option"
  wt_loaded :: "snapshot option"
  wt_ended :: bool
  wt_done :: bool

text \<open>The wait ends when the list of ticks does; \<open>parent\<close> says whether the caller's context ended.\<close>

definition collection_wait_error :: "bool \<Rightarrow> server_error" where
  "collection_wait_error parent = (if parent then ContextEnded else SnapshotUnavailable)"

fun wait_collections ::
  "config_service \<Rightarrow> collections_request \<Rightarrow> string list \<Rightarrow> bool \<Rightarrow> refresh_target list \<Rightarrow> wait_tick list
     \<Rightarrow> server_error + snapshot_identity \<times> collection_payload list" where
  "wait_collections sv q names parent unmet [] = Inl (collection_wait_error parent)"
| "wait_collections sv q names parent unmet (t # ts) =
     (if collection_targets_reached (wt_checked t) (sv_environment sv) unmet
      then if wt_ended t then Inl (collection_wait_error parent)
           else case load_collections sv q names (wt_loaded t) of
                  Inl e \<Rightarrow> Inl e
                | Inr (response, unmet') \<Rightarrow>
                    if unmet' = []
                    then if wt_done t then Inl (collection_wait_error parent) else Inr response
                    else wait_collections sv q names parent unmet' ts
      else wait_collections sv q names parent unmet ts)"

definition get_collections ::
  "config_service \<Rightarrow> snapshot option \<Rightarrow> (refresh_target list \<Rightarrow> submit_error + unit) \<Rightarrow> bool \<Rightarrow> wait_tick list
     \<Rightarrow> collections_request \<Rightarrow> server_error + snapshot_identity \<times> collection_payload list" where
  "get_collections sv current submitter parent ticks q =
     rbind (rfold request_collection [] (cq_collections q)) (\<lambda>names.
     if names = [] then Inl InvalidArgument
     else rbind (load_collections sv q names current) (\<lambda>(response, unmet).
       if unmet = [] then Inr response
       else if \<not> sv_submitter sv \<or> sv_wait sv \<le> 0 then Inl SnapshotUnavailable
       else case submitter unmet of
              Inl _ \<Rightarrow> Inl SnapshotUnavailable
            | Inr _ \<Rightarrow> wait_collections sv q names parent unmet ticks))"

end
