(* ===== verification/Server_Facts.thy ===== *)
theory Server_Facts
  imports Config_Server
begin

text \<open>
  What the config server answers: the incremental response is the full one without what the
  client already holds, and the records of a payload are published ones.
\<close>

section \<open>The loop over the collections\<close>

definition collection_visible :: "snapshot \<Rightarrow> string set \<Rightarrow> string \<Rightarrow> bool" where
  "collection_visible s allowed name \<longleftrightarrow>
     name \<in> allowed \<and>
     (case fmlookup (sn_collections s) name of None \<Rightarrow> False | Some v \<Rightarrow> cd_sdk_delivery (cv_definition v))"

definition payload_for ::
  "snapshot \<Rightarrow> snapshot_request \<Rightarrow> int \<Rightarrow> string \<Rightarrow> server_error + collection_payload" where
  "payload_for s q bucket name =
     rbind (effective_collection s q bucket name) (\<lambda>(records, dg).
       Inr (payload_of name (the (fmlookup (sn_collections s) name)) records dg))"

definition client_has :: "(string, known_version) fmap \<Rightarrow> collection_payload \<Rightarrow> bool" where
  "client_has known p \<longleftrightarrow>
     (case fmlookup known (cp_name p) of
        None \<Rightarrow> False
      | Some k \<Rightarrow> kv_revision k = cp_revision p \<and> kv_digest k = cp_digest p)"

lemma serve_collection_visible:
  assumes "collection_visible s allowed name"
  shows "serve_collection s q bucket allowed (known, ps) name =
    rbind (payload_for s q bucket name) (\<lambda>p.
      Inr (fmdrop name known, if client_has known p then ps else ps @ [p]))"
proof -
  from assms obtain v where v: "fmlookup (sn_collections s) name = Some v" "cd_sdk_delivery (cv_definition v)"
    "name \<in> allowed" by (auto simp: collection_visible_def split: option.splits)
  show ?thesis
  proof (cases "effective_collection s q bucket name")
    case (Inl e)
    then show ?thesis using v by (simp add: serve_collection_def payload_for_def)
  next
    case (Inr r)
    then show ?thesis using v
      by (cases r; cases "fmlookup known name")
        (auto simp: serve_collection_def payload_for_def client_has_def payload_of_def)
  qed
qed

lemma serve_collection_hidden:
  "\<not> collection_visible s allowed name \<Longrightarrow> serve_collection s q bucket allowed acc name = Inr acc"
  by (auto simp: serve_collection_def collection_visible_def split: option.splits)

lemma payload_for_name: "payload_for s q bucket name = Inr p \<Longrightarrow> cp_name p = name"
  by (auto simp: payload_for_def rbind_Inr_iff payload_of_def)

lemma payload_names:
  "rmap (payload_for s q bucket) names = Inr ps \<Longrightarrow> map cp_name ps = names"
  using rmap_map_eq [of "payload_for s q bucket" names ps cp_name id] payload_for_name by simp

lemma client_has_fmdrop: "cp_name p \<noteq> name \<Longrightarrow> client_has (fmdrop name known) p = client_has known p"
  by (simp add: client_has_def)

lemma serve_collections_Inr:
  assumes "distinct names"
  shows "rfold (serve_collection s q bucket allowed) (known, ps) names = Inr (unseen, served) \<longleftrightarrow>
    (\<exists>all. rmap (payload_for s q bucket) (filter (collection_visible s allowed) names) = Inr all \<and>
       served = ps @ filter (\<lambda>p. \<not> client_has known p) all \<and>
       unseen = fmdrop_set (set (filter (collection_visible s allowed) names)) known)"
  using assms
proof (induction names arbitrary: known ps)
  case Nil
  then show ?case by (auto simp: fmdrop_set_null)
next
  case (Cons name names)
  show ?case
  proof (cases "collection_visible s allowed name")
    case False
    then show ?thesis using Cons by (simp add: serve_collection_hidden)
  next
    case True
    have keep: "filter (\<lambda>p. \<not> client_has (fmdrop name known) p) all = filter (\<lambda>p. \<not> client_has known p) all"
      if "rmap (payload_for s q bucket) (filter (collection_visible s allowed) names) = Inr all" for all
    proof (rule filter_cong)
      fix p assume "p \<in> set all"
      then have "cp_name p \<in> set (map cp_name all)" by simp
      then have "cp_name p \<in> set names" using payload_names [OF that] by simp
      with Cons.prems have "cp_name p \<noteq> name" by auto
      then show "(\<not> client_has (fmdrop name known) p) = (\<not> client_has known p)" by (simp add: client_has_fmdrop)
    qed simp
    have drop: "fmdrop_set N (fmdrop name known) = fmdrop_set (insert name N) known" for N
      by (rule fmap_ext) auto
    show ?thesis
    proof (cases "payload_for s q bucket name")
      case (Inl e)
      then show ?thesis using True by (simp add: serve_collection_visible)
    next
      case (Inr p)
      have step: "rfold (serve_collection s q bucket allowed) (known, ps) (name # names) =
          rfold (serve_collection s q bucket allowed)
            (fmdrop name known, if client_has known p then ps else ps @ [p]) names"
        using True Inr by (simp add: serve_collection_visible)
      have IH: "\<And>k ps. rfold (serve_collection s q bucket allowed) (k, ps) names = Inr (unseen, served) \<longleftrightarrow>
          (\<exists>all. rmap (payload_for s q bucket) (filter (collection_visible s allowed) names) = Inr all \<and>
             served = ps @ filter (\<lambda>p. \<not> client_has k p) all \<and>
             unseen = fmdrop_set (set (filter (collection_visible s allowed) names)) k)"
        using Cons by simp
      show ?thesis unfolding step IH using True Inr keep drop
        by (auto simp: rbind_Inr_iff)
    qed
  qed
qed

section \<open>Responses\<close>

definition known_index :: "known_version list \<Rightarrow> (string, known_version) fmap" where
  "known_index ks = fmap_of_list (map (\<lambda>k. (kv_collection k, k)) ks)"

definition known_clean :: "known_version list \<Rightarrow> bool" where
  "known_clean ks \<longleftrightarrow> distinct (map kv_collection ks) \<and>
     list_all (\<lambda>k. kv_collection k \<noteq> [] \<and> trim_space (kv_collection k) = kv_collection k) ks"

lemma index_known_clean:
  assumes "known_clean ks" "set (map kv_collection ks) \<inter> fset (fmdom m) = {}"
  shows "\<exists>n. rfold index_known m ks = Inr n \<and> n = m ++\<^sub>f known_index ks"
  using assms
proof (induction ks arbitrary: m)
  case Nil
  then show ?case by (simp add: known_index_def)
next
  case (Cons k ks)
  have "\<exists>n. rfold index_known (fmupd (kv_collection k) k m) ks = Inr n \<and>
      n = fmupd (kv_collection k) k m ++\<^sub>f known_index ks"
    using Cons.prems by (intro Cons.IH) (auto simp: known_clean_def)
  moreover have "index_known m k = Inr (fmupd (kv_collection k) k m)"
    using Cons.prems by (auto simp: index_known_def known_clean_def)
  moreover have "fmupd (kv_collection k) k m ++\<^sub>f known_index ks = m ++\<^sub>f known_index (k # ks)"
  proof (rule fmap_ext)
    fix x
    have "kv_collection k \<notin> set (map kv_collection ks)" using Cons.prems(1) by (simp add: known_clean_def)
    then have "fmlookup (known_index ks) (kv_collection k) = None"
      by (auto simp: known_index_def fmlookup_of_list map_of_eq_None_iff)
    moreover have "known_index (k # ks) = fmupd (kv_collection k) k (known_index ks)"
      by (simp add: known_index_def)
    ultimately show "fmlookup (fmupd (kv_collection k) k m ++\<^sub>f known_index ks) x =
        fmlookup (m ++\<^sub>f known_index (k # ks)) x"
      by (auto simp: fmdom_notD fmdom_notI)
  qed
  ultimately show ?case by simp
qed

text \<open>The snapshot, bucket and authorized collections a request is served from.\<close>

definition serving ::
  "config_service \<Rightarrow> snapshot option \<Rightarrow> snapshot_request \<Rightarrow> snapshot \<Rightarrow> int \<Rightarrow> string list \<Rightarrow> bool" where
  "serving sv current q s bucket authorized \<longleftrightarrow>
     current = Some s \<and> sv_environment sv \<noteq> [] \<and> trim_space (sq_region q) \<noteq> [] \<and>
     trim_space (sq_environment q) = sv_environment sv \<and> sn_environment s = sv_environment sv \<and>
     client_bucket (trim_space (sq_consumer q)) (trim_space (sq_client q)) = Inr bucket \<and>
     authorized_collections s (trim_space (sq_consumer q)) = Inr authorized"

definition served_payloads ::
  "snapshot \<Rightarrow> snapshot_request \<Rightarrow> int \<Rightarrow> string list \<Rightarrow> server_error + collection_payload list" where
  "served_payloads s q bucket authorized =
     rmap (payload_for s (trim_request q) bucket)
       (filter (collection_visible s (authorized_set authorized)) (collection_names s))"

definition respond ::
  "snapshot \<Rightarrow> snapshot_request \<Rightarrow> int \<Rightarrow> (string, known_version) fmap \<Rightarrow> collection_payload list \<Rightarrow> snapshot_response" where
  "respond s q bucket known all =
     \<lparr>sr_identity = sn_identity s, sr_region = trim_space (sq_region q), sr_environment = sn_environment s,
      sr_stage = trim_space (sq_stage q), sr_bucket = bucket,
      sr_collections = filter (\<lambda>p. \<not> client_has known p) all,
      sr_deleted = sorted_keys (fmdrop_set (set (map cp_name all)) known)\<rparr>"

lemma collection_names_distinct [simp]: "distinct (collection_names s)"
  by (simp add: collection_names_def sorted_keys_sorted)

lemma client_bucket_nonempty: "client_bucket a b = Inr n \<Longrightarrow> a \<noteq> [] \<and> b \<noteq> []"
  by (auto simp: client_bucket_def canonical_client_id_def split: if_splits)

lemma serve_all_Inr:
  "rfold (serve_collection s (trim_request q) bucket (authorized_set authorized)) (known, []) (collection_names s)
     = Inr (unseen, ps) \<longleftrightarrow>
   (\<exists>all. served_payloads s q bucket authorized = Inr all \<and> ps = filter (\<lambda>p. \<not> client_has known p) all \<and>
      unseen = fmdrop_set (set (map cp_name all)) known)"
  unfolding serve_collections_Inr [OF collection_names_distinct] served_payloads_def append_Nil
  by (intro ex_cong1) (metis payload_names)

lemma trim_request_sel [simp]:
  "sq_consumer (trim_request q) = trim_space (sq_consumer q)" "sq_client (trim_request q) = trim_space (sq_client q)"
  "sq_region (trim_request q) = trim_space (sq_region q)" "sq_stage (trim_request q) = trim_space (sq_stage q)"
  "sq_environment (trim_request q) = trim_space (sq_environment q)" "sq_known (trim_request q) = sq_known q"
  by (simp_all add: trim_request_def)

lemma get_snapshot_iff:
  assumes "rfold index_known fmempty (sq_known q) = Inr known"
  shows "get_snapshot sv current q = Inr r \<longleftrightarrow>
    (\<exists>s bucket authorized all. serving sv current q s bucket authorized \<and>
       served_payloads s q bucket authorized = Inr all \<and> r = respond s q bucket known all)"
  (is "?l \<longleftrightarrow> ?r")
proof
  assume ?l
  then show ?r using assms
    by (auto simp: get_snapshot_def serving_def respond_def Let_def rbind_Inr_iff rerror_Inr_iff serve_all_Inr
        split: if_splits option.splits)
next
  assume ?r
  then obtain s bucket authorized all where *: "serving sv current q s bucket authorized"
    "served_payloads s q bucket authorized = Inr all" "r = respond s q bucket known all" by blast
  have "rfold (serve_collection s (trim_request q) bucket (authorized_set authorized)) (known, []) (collection_names s)
      = Inr (fmdrop_set (set (map cp_name all)) known, filter (\<lambda>p. \<not> client_has known p) all)"
    using *(2) serve_all_Inr by blast
  with *(1) assms client_bucket_nonempty show ?l
    by (auto simp: get_snapshot_def serving_def respond_def *(3) Let_def)
qed

lemma serving_known [simp]: "serving sv current (q\<lparr>sq_known := ks\<rparr>) = serving sv current q"
  by (intro ext) (simp add: serving_def)

lemma served_payloads_known [simp]: "served_payloads s (q\<lparr>sq_known := ks\<rparr>) = served_payloads s q"
proof -
  have "payload_for s (trim_request (q\<lparr>sq_known := ks\<rparr>)) = payload_for s (trim_request q)"
    by (intro ext) (simp add: payload_for_def effective_collection_def trim_request_def request_query_def)
  then show ?thesis by (intro ext) (simp add: served_payloads_def)
qed

lemma client_has_empty [simp]: "\<not> client_has fmempty p"
  by (simp add: client_has_def)

lemma respond_full:
  "sr_collections (respond s q bucket fmempty all) = all" "sr_deleted (respond s q bucket fmempty all) = []"
  by (simp_all add: respond_def sorted_keys_def sorted_list_of_fset.rep_eq)

text \<open>The incremental response is computed from the full one.\<close>

definition without_known :: "(string, known_version) fmap \<Rightarrow> snapshot_response \<Rightarrow> snapshot_response" where
  "without_known known full =
     full\<lparr>sr_collections := filter (\<lambda>p. \<not> client_has known p) (sr_collections full),
          sr_deleted := sorted_keys (fmdrop_set (set (map cp_name (sr_collections full))) known)\<rparr>"

lemma get_snapshot_incremental:
  assumes "rfold index_known fmempty (sq_known q) = Inr known"
  shows "get_snapshot sv current q = Inr r \<longleftrightarrow>
    (\<exists>full. get_snapshot sv current (q\<lparr>sq_known := []\<rparr>) = Inr full \<and> r = without_known known full)"
proof -
  have eq: "respond s q bucket known all = without_known known (respond s (q\<lparr>sq_known := []\<rparr>) bucket fmempty all)"
    for s bucket all
    by (simp add: without_known_def respond_def)
  have "rfold index_known fmempty (sq_known (q\<lparr>sq_known := []\<rparr>)) = Inr fmempty" by simp
  note full = get_snapshot_iff [OF this, of sv current, unfolded serving_known served_payloads_known]
  show ?thesis unfolding get_snapshot_iff [OF assms] full eq by blast
qed

section \<open>What a payload holds\<close>

text \<open>Every record of a payload has a positive revision, at most that of its collection.\<close>

lemma apply_rule_revision:
  assumes "apply_rule q m rule = Inr m'" "\<forall>k r. fmlookup m k = Some r \<longrightarrow> P (cr_revision r)" "P (ru_revision rule)"
  shows "\<forall>k r. fmlookup m' k = Some r \<longrightarrow> P (cr_revision r)"
  using assms by (auto simp: apply_rule_def split: if_splits action.splits option.splits)

lemma evaluate_revisions:
  assumes "evaluate q base rules = Inr rs" "\<forall>r \<in> set base. P (cr_revision r)" "\<forall>r \<in> set rules. P (ru_revision r)"
  shows "\<forall>r \<in> set rs. P (cr_revision r)"
proof -
  define I where "I m \<longleftrightarrow> (\<forall>k r. fmlookup m k = Some r \<longrightarrow> P (cr_revision r))" for m :: record_map
  from assms(1) obtain m where m: "evaluate_map q base rules = Inr m" "rs = sorted_values m"
    by (auto simp: evaluate_def rbind_Inr_iff)
  have start: "I (initial_records q base)" if "\<forall>r \<in> set base. P (cr_revision r)" for base
    using that by (induction base rule: rev_induct) (auto simp: I_def initial_records_snoc initial_records_def)
  have step: "I m'" if "evaluate_rule q stage m rule = Inr m'" "I m" "rule \<in> set rules" for stage m m' rule
    using that assms(3) apply_rule_revision [of q m rule m' P]
    by (auto simp: evaluate_rule_def I_def rbind_Inr_iff split: if_splits)
  have layer: "I m'" if "rfold (evaluate_rule q stage) m rules = Inr m'" "I m" for stage m m'
    using that(1) that(2) by (rule rfold_invariant) (use step in blast)
  have "I m" using m(1) unfolding evaluate_map_def
    by (rule rfold_invariant) (use start assms(2) layer in blast)+
  with m(2) show ?thesis by (auto simp: I_def set_sorted_values)
qed

definition payload_content :: "payload_record \<Rightarrow> string \<times> data option" where
  "payload_content r = (pr_key r, Some (pr_data r))"

definition payload_valid :: "collection_payload \<Rightarrow> bool" where
  "payload_valid p \<longleftrightarrow>
     is_identifier (cp_name p) \<and> cp_revision p \<noteq> 0 \<and>
     sorted (map pr_key (cp_records p)) \<and> distinct (map pr_key (cp_records p)) \<and>
     (\<forall>r \<in> set (cp_records p). pr_key r \<noteq> [] \<and> pr_revision r \<noteq> 0 \<and> pr_revision r \<le> cp_revision p) \<and>
     cp_digest p = dg_value (sha256_digest (json_print (digest_payload (map payload_content (cp_records p)))))"

lemma evaluate_keys:
  assumes "evaluate q base rules = Inr rs"
  shows "sorted (map cr_key rs) \<and> distinct (map cr_key rs) \<and> (\<forall>r \<in> set rs. cr_data r \<noteq> None)"
proof -
  from assms obtain m where m: "evaluate_map q base rules = Inr m" "rs = sorted_values m"
    by (auto simp: evaluate_def rbind_Inr_iff)
  have "records_ok q m" by (rule evaluate_map_ok [OF m(1)])
  with m(2) sorted_values_keys [of q m] show ?thesis
    by (auto simp: sorted_keys_sorted set_sorted_values records_ok_def record_in_query_def)
qed

lemma payload_for_valid:
  assumes "snapshot_ok lib s" "name |\<in>| fmdom (sn_collections s)" "payload_for s q bucket name = Inr p"
  shows "payload_valid p"
proof -
  from assms(2) obtain v where v: "fmlookup (sn_collections s) name = Some v" by (auto simp: fmlookup_dom_iff)
  with assms(1) have ok: "view_ok lib (sn_environment s) name v" by (simp add: snapshot_ok_def)
  from assms(3) obtain rs dg where rs: "evaluate (request_query q bucket name) (snapshot_records s name)
      (snapshot_rules s name) = Inr rs" "compute_base_digest rs = Inr dg" "p = payload_of name v rs dg"
    using v by (auto simp: payload_for_def effective_collection_def rbind_Inr_iff rerror_Inr_iff)
  note keys = evaluate_keys [OF rs(1)]
  define P where "P n \<longleftrightarrow> n \<noteq> 0 \<and> n \<le> cv_version v" for n :: u64
  have "\<forall>r \<in> set (snapshot_records s name). P (cr_revision r)"
    using ok v view_records_keys(2) [of v]
    by (auto simp: snapshot_records_def view_ok_def record_published_def P_def clone_snapshot_record_def)
  moreover have "\<forall>r \<in> set (snapshot_rules s name). P (ru_revision r)"
    using ok v by (auto simp: snapshot_rules_def view_ok_def rule_published_def P_def)
  ultimately have revisions: "\<forall>r \<in> set rs. P (cr_revision r)" by (rule evaluate_revisions [OF rs(1)])
  from rs(2) obtain j where j: "base_digest_payload rs = Inr j" "dg = sha256_digest (json_print j)"
    by (auto simp: compute_base_digest_def rbind_Inr_iff)
  have "sort_key cr_key rs = rs" using keys by (simp add: sort_key_id_if_sorted)
  moreover have "digest_content r = payload_content (payload_record_of r)" if "r \<in> set rs" for r
    using keys that by (auto simp: digest_content_def payload_content_def payload_record_of_def)
  ultimately have "j = digest_payload (map payload_content (map payload_record_of rs))"
    using j(1) by (simp add: base_digest_payload_Inr comp_def cong: map_cong)
  with j show ?thesis using keys revisions rs(3) ok
    by (auto simp: payload_valid_def payload_of_def payload_record_of_def comp_def P_def view_ok_def
        collection_compiled_def base_digest_payload_Inr)
qed

end
