(* ===== verification/Server_Samples.thy ===== *)
theory Server_Samples
  imports Snapshot_Samples Server_Facts
begin

text \<open>
  A service with one published collection for one consumer, for the witnesses of the claims about
  the config server and the client. The consumer's bucket and the digest are not evaluated.
\<close>

definition served_seed :: identity_seed where
  "served_seed = \<lparr>is_epoch = ''e1'', is_server = ''s1'', is_snapshot = ''n1''\<rparr>"

definition served_input :: collection_input where
  "served_input = (plain_input sample_collection [])\<lparr>ci_consumers := [''loans '']\<rparr>"

definition served_snapshot :: snapshot where
  "served_snapshot =
     (empty_snapshot (make_identity served_seed 1 5) ''prod'')
       \<lparr>sn_collections := fmupd ''limits'' ((plain_view sample_collection)\<lparr>cv_consumers := [''loans'']\<rparr>) fmempty,
        sn_authorized := fmupd ''loans'' [''limits''] fmempty\<rparr>"

lemma sample_delivery [simp]: "cd_sdk_delivery sample_collection"
  by code_simp

lemma served_built: "build_snapshot sample_lib served_seed 1 5 ''prod'' [served_input] = Inr served_snapshot"
proof -
  have trimmed: "trim_space ''loans '' = ''loans''" by code_simp
  have "build_view sample_lib ''prod'' served_input = Inr (plain_view sample_collection)"
    using build_plain_view [of sample_lib "''prod''" sample_collection "[]"]
    by (simp add: build_view_def served_input_def plain_input_def)
  moreover have "add_consumer ''limits'' True ([], fmempty) ''loans '' =
      Inr ([''loans''], fmupd ''loans'' [''limits''] fmempty)"
    using trimmed by (simp add: add_consumer_def read_list_def Let_def)
  moreover have "fmmap sort (fmupd ''loans'' [''limits''] fmempty) = fmupd ''loans'' [''limits''] fmempty"
    by (rule fmap_eqI) simp
  ultimately show ?thesis
    by (simp add: build_snapshot_def add_collection_def empty_snapshot_def served_snapshot_def
        Let_def validate_option_dependencies_def sorted_values_def sorted_keys_def sorted_list_of_fset.rep_eq)
      (simp add: served_input_def plain_input_def)
qed

lemma served_ok: "snapshot_ok sample_lib served_snapshot"
proof (rule build_snapshot_ok [OF sample_lib_canonical _ _ _ served_built])
  show "inputs_compiled sample_lib [served_input]"
    using compile_collection_compiled [OF sample_compiles]
    by (simp add: inputs_compiled_def served_input_def plain_input_def)
  show "trim_space ''prod'' = ''prod''" by code_simp
  show "\<forall>input \<in> set [served_input]. input_returns sample_lib ''prod'' input"
    using sample_lib_returns [of "''prod''" "FullAnswer (Inr [served_input])"]
    by (simp add: answer_returns_def load_environment_def)
qed

definition sample_service :: config_service where
  "sample_service = new_service '' prod''"

definition sample_request :: snapshot_request where
  "sample_request =
     \<lparr>sq_consumer = ''loans'', sq_client = ''c1'', sq_region = ''eu'', sq_environment = ''prod'', sq_stage = [],
      sq_known = []\<rparr>"

definition sample_bucket :: int where
  "sample_bucket = projr (client_bucket ''loans'' ''c1'')"

lemma sample_trims [simp]:
  "trim_space ''loans'' = ''loans''" "trim_space ''c1'' = ''c1''" "trim_space ''eu'' = ''eu''"
  "trim_space ''prod'' = ''prod''" "trim_space ''limits'' = ''limits''" "trim_space '' prod'' = ''prod''"
  by code_simp+

lemma sample_bucket [simp]: "client_bucket ''loans'' ''c1'' = Inr sample_bucket"
proof -
  have "is_ok (client_bucket ''loans'' ''c1'')" by (simp add: client_bucket_def canonical_client_id_def)
  then show ?thesis by (auto simp: sample_bucket_def is_ok_iff)
qed

definition limits_payload :: collection_payload where
  "limits_payload =
     \<lparr>cp_name = ''limits'', cp_revision = 4, cp_cursor = 7, cp_digest = dg_value (projr (compute_base_digest [])),
      cp_records = []\<rparr>"

definition full_response_sample :: snapshot_response where
  "full_response_sample =
     \<lparr>sr_identity = sn_identity served_snapshot, sr_region = ''eu'', sr_environment = ''prod'', sr_stage = [],
      sr_bucket = sample_bucket, sr_collections = [limits_payload], sr_deleted = []\<rparr>"

lemma full_served: "get_snapshot sample_service (Some served_snapshot) sample_request = Inr full_response_sample"
proof -
  have "evaluate (request_query (trim_request sample_request) sample_bucket ''limits'') [] [] = Inr []"
    by (simp add: evaluate_def evaluate_map_def initial_records_def query_stages_def sorted_values_def sorted_keys_def
        sorted_list_of_fset.rep_eq)
  then have "payload_for served_snapshot (trim_request sample_request) sample_bucket ''limits'' = Inr limits_payload"
    by (simp add: payload_for_def effective_collection_def snapshot_records_def snapshot_rules_def
        served_snapshot_def plain_view_def view_records_def payload_of_def limits_payload_def)
      (subst empty_digest, simp)
  moreover have "collection_names served_snapshot = [''limits'']"
    by (simp add: collection_names_def served_snapshot_def sorted_keys_def sorted_list_of_fset.rep_eq)
  moreover have "collection_visible served_snapshot (authorized_set [''limits'']) ''limits''"
    by (simp add: collection_visible_def served_snapshot_def authorized_set_def plain_view_def)
  ultimately have "served_payloads served_snapshot sample_request sample_bucket [''limits''] = Inr [limits_payload]"
    by (simp add: served_payloads_def)
  moreover have "serving sample_service (Some served_snapshot) sample_request served_snapshot sample_bucket [''limits'']"
    by (simp add: serving_def sample_service_def new_service_def sample_request_def served_snapshot_def
        authorized_collections_def read_list_def empty_snapshot_def)
  moreover have "full_response_sample = respond served_snapshot sample_request sample_bucket fmempty [limits_payload]"
    by (simp add: full_response_sample_def respond_def sample_request_def served_snapshot_def empty_snapshot_def
        sorted_keys_def sorted_list_of_fset.rep_eq)
  ultimately show ?thesis
    using get_snapshot_iff [of sample_request fmempty sample_service "Some served_snapshot" full_response_sample]
    by (auto simp: sample_request_def)
qed

end
