(* ===== verification/Server_Properties.thy ===== *)
theory Server_Properties
  imports Server_Samples
begin

text \<open>What clients of the config server can rely on.\<close>

section \<open>Lemmas\<close>

definition trimmed_version :: "known_version \<Rightarrow> known_version" where
  "trimmed_version v = v\<lparr>kv_collection := trim_space (kv_collection v)\<rparr>"

lemma normalize_known_Inr:
  "rfold normalize_known ({}, []) ks = Inr (names, normalized) \<Longrightarrow>
     normalized = map trimmed_version ks \<and> names = set (map kv_collection normalized) \<and> known_clean normalized"
proof (induction ks arbitrary: names normalized rule: rev_induct)
  case Nil
  then show ?case by (simp add: known_clean_def)
next
  case (snoc k ks)
  then obtain ns zs where *: "rfold normalize_known ({}, []) ks = Inr (ns, zs)"
    "normalize_known (ns, zs) k = Inr (names, normalized)" by (auto simp: rfold_append rbind_Inr_iff)
  then have "names = insert (trim_space (kv_collection k)) ns" "normalized = zs @ [trimmed_version k]"
    "trim_space (kv_collection k) \<noteq> []" "trim_space (kv_collection k) \<notin> ns"
    by (auto simp: normalize_known_def trimmed_version_def Let_def split: if_splits)
  moreover have "kv_collection (trimmed_version k) = trim_space (kv_collection k)" by (simp add: trimmed_version_def)
  ultimately show ?case using snoc.IH [OF *(1)] by (auto simp: known_clean_def)
qed

lemma known_index_dom: "fset (fmdom (known_index ks)) = set (map kv_collection ks)"
  by (auto simp: known_index_def fmdom_of_list fset_of_list.rep_eq image_image)

lemma client_has_known: "client_has (known_index ks) p \<Longrightarrow> cp_name p \<in> set (map kv_collection ks)"
  using known_index_dom [of ks] by (auto simp: client_has_def fmlookup_dom_iff split: option.splits)

lemma request_collections_Inr:
  "rfold request_collection acc raws = Inr names \<Longrightarrow> names = acc @ map trim_space raws"
proof (induction raws arbitrary: acc)
  case (Cons raw raws)
  then obtain acc' where step: "request_collection acc raw = Inr acc'" "rfold request_collection acc' raws = Inr names"
    by (auto simp: rbind_Inr_iff)
  then have "acc' = acc @ [trim_space raw]" by (auto simp: request_collection_def Let_def split: if_splits)
  with step have "rfold request_collection (acc @ [trim_space raw]) raws = Inr names" by simp
  from Cons.IH [OF this] show ?case by simp
qed simp

lemma select_payloads_Inr:
  assumes "rfold (select_payload available least) (chosen, unmet) names = Inr (chosen', unmet')"
    and "set chosen \<subseteq> set available" "unmet = [] \<longrightarrow> list_all (\<lambda>p. least \<le> cp_revision p) chosen"
  shows "map cp_name chosen' = map cp_name chosen @ names \<and> set chosen' \<subseteq> set available \<and>
    (unmet' = [] \<longrightarrow> list_all (\<lambda>p. least \<le> cp_revision p) chosen')"
  using assms
proof (induction names arbitrary: chosen unmet)
  case (Cons name names)
  then obtain p where p: "List.find (\<lambda>p. cp_name p = name) available = Some p"
    by (auto simp: select_payload_def rbind_Inr_iff split: option.splits)
  then have found: "p \<in> set available" "cp_name p = name"
    by (auto simp: find_Some_iff)
  let ?unmet = "if cp_revision p < least
    then unmet @ [\<lparr>rt_collection = name, rt_min = least, rt_cursor = 0\<rparr>] else unmet"
  have "select_payload available least (chosen, unmet) name = Inr (chosen @ [p], ?unmet)"
    using p by (simp add: select_payload_def)
  with Cons.prems(1) have rest: "rfold (select_payload available least) (chosen @ [p], ?unmet) names = Inr (chosen', unmet')"
    by simp
  have "map cp_name chosen' = map cp_name (chosen @ [p]) @ names \<and> set chosen' \<subseteq> set available \<and>
      (unmet' = [] \<longrightarrow> list_all (\<lambda>p. least \<le> cp_revision p) chosen')"
    using Cons.prems(2,3) found by (intro Cons.IH [OF rest]) (auto simp: not_less)
  with found show ?case by simp
qed simp

lemma load_collections_Inr:
  assumes "load_collections sv q names current = Inr ((i, ps), unmet)"
  shows "\<exists>full. get_snapshot sv current (full_request q) = Inr full \<and> i = sr_identity full \<and>
    map cp_name ps = sort names \<and> set ps \<subseteq> set (sr_collections full) \<and>
    (unmet = [] \<longrightarrow> list_all (\<lambda>p. cq_min q \<le> cp_revision p) ps)"
proof -
  from assms obtain full chosen where *: "get_snapshot sv current (full_request q) = Inr full"
    "rfold (select_payload (sr_collections full) (cq_min q)) ([], []) names = Inr (chosen, unmet)"
    "i = sr_identity full" "ps = sort_key cp_name chosen"
    by (auto simp: load_collections_def rbind_Inr_iff)
  with select_payloads_Inr [OF *(2)] show ?thesis
    by (auto simp: map_key_sort_key list_all_iff)
qed

lemma wait_collections_Inr:
  assumes "wait_collections sv q names parent unmet ticks = Inr (i, ps)"
  shows "\<exists>t \<in> set ticks. load_collections sv q names (wt_loaded t) = Inr ((i, ps), [])"
  using assms
proof (induction ticks arbitrary: unmet)
  case (Cons t ts)
  then show ?case by (fastforce split: if_splits sum.splits prod.splits)
qed simp

text \<open>A successful \<open>GetCollections\<close> loaded everything, at once or in a round of its wait.\<close>

lemma get_collections_loaded:
  assumes "get_collections sv current submitter parent ticks q = Inr (i, ps)"
  shows "\<exists>s \<in> set (current # map wt_loaded ticks).
    load_collections sv q (map trim_space (cq_collections q)) s = Inr ((i, ps), [])"
proof -
  from assms have "load_collections sv q (map trim_space (cq_collections q)) current = Inr ((i, ps), []) \<or>
     (\<exists>unmet. wait_collections sv q (map trim_space (cq_collections q)) parent unmet ticks = Inr (i, ps))"
    by (auto simp: get_collections_def rbind_Inr_iff dest!: request_collections_Inr split: if_splits sum.splits)
  then show ?thesis
  proof (elim disjE exE)
    fix unmet assume "wait_collections sv q (map trim_space (cq_collections q)) parent unmet ticks = Inr (i, ps)"
    from wait_collections_Inr [OF this] show ?thesis by auto
  qed simp
qed

text \<open>A client that holds the collection in the version served, and another that is gone.\<close>

definition sample_known :: "known_version list" where
  "sample_known =
     [\<lparr>kv_collection = ''limits'', kv_revision = 4, kv_digest = cp_digest limits_payload\<rparr>,
      \<lparr>kv_collection = ''old'', kv_revision = 1, kv_digest = []\<rparr>]"

lemma sample_known_clean: "known_clean sample_known"
proof -
  have "trim_space ''old'' = ''old''" by code_simp
  then show ?thesis by (simp add: known_clean_def sample_known_def)
qed

lemma sample_known_sent [simp]: "sample_request\<lparr>sq_known := []\<rparr> = sample_request"
  by (simp add: sample_request_def)

lemma limits_only: "sr_collections full_response_sample = [limits_payload]"
  by (simp add: full_response_sample_def)

section \<open>Properties\<close>

text \<open>
  C27: A response to a client that reports what it holds is the full response without the
  collections whose revision and digest the client already has, and with the list of the
  collections it holds that the full response does not name. So nothing a client lacks is left
  out, and no collection is sent in vain.
\<close>

theorem incremental_response_is_full_minus_known:
  assumes "known_clean (sq_known q)"
  shows "get_snapshot sv current q = Inr r \<longleftrightarrow>
    (\<exists>full. get_snapshot sv current (q\<lparr>sq_known := []\<rparr>) = Inr full \<and>
       r = without_known (known_index (sq_known q)) full)"
proof -
  have "rfold index_known fmempty (sq_known q) = Inr (known_index (sq_known q))"
    using index_known_clean [OF assms, of fmempty] by auto
  then show ?thesis by (rule get_snapshot_incremental)
qed

theorem incremental_response_is_full_minus_known_witness:
  "\<exists>r. get_snapshot sample_service (Some served_snapshot) (sample_request\<lparr>sq_known := sample_known\<rparr>) = Inr r \<and>
     sr_collections r = [] \<and> sr_deleted r = [''old'']"
proof -
  have "known_clean (sq_known (sample_request\<lparr>sq_known := sample_known\<rparr>))" using sample_known_clean by simp
  from incremental_response_is_full_minus_known [OF this, of sample_service "Some served_snapshot"] full_served
  have "get_snapshot sample_service (Some served_snapshot) (sample_request\<lparr>sq_known := sample_known\<rparr>) =
      Inr (without_known (known_index sample_known) full_response_sample)" by auto
  moreover have "client_has (known_index sample_known) limits_payload"
    by (simp add: client_has_def known_index_def sample_known_def limits_payload_def)
  moreover have "sorted_keys (fmdrop_set (set (map cp_name [limits_payload])) (known_index sample_known)) = [''old'']"
    by (simp add: known_index_def sample_known_def limits_payload_def sorted_keys_def sorted_list_of_fset.rep_eq)
  ultimately show ?thesis by (simp add: without_known_def limits_only)
qed

text \<open>
  The three lists of \<open>DiffVersions\<close> are exact against the full response: added are the
  collections the client does not hold, modified those it holds in another version, deleted those
  it holds that are no longer served. They share no name.
\<close>

lemma diff_versions_exact:
  assumes "diff_versions sv current q = Inr d"
    and "known = known_index (map trimmed_version (sq_known q))"
  shows "\<exists>full. get_snapshot sv current (q\<lparr>sq_known := []\<rparr>) = Inr full \<and>
    df_identity d = sr_identity full \<and>
    set (df_added d) = cp_name ` {p \<in> set (sr_collections full). cp_name p |\<notin>| fmdom known} \<and>
    set (df_modified d) = cp_name ` {p \<in> set (sr_collections full). cp_name p |\<in>| fmdom known \<and> \<not> client_has known p} \<and>
    set (df_deleted d) = fset (fmdom known) - cp_name ` set (sr_collections full) \<and>
    set (df_added d) \<inter> set (df_modified d) = {} \<and> set (df_deleted d) \<inter> (set (df_added d) \<union> set (df_modified d)) = {}"
proof -
  from assms(1) obtain names normalized r where *: "rfold normalize_known ({}, []) (sq_known q) = Inr (names, normalized)"
    "get_snapshot sv current (q\<lparr>sq_known := normalized\<rparr>) = Inr r"
    "d = \<lparr>df_identity = sr_identity r, df_added = sort (filter (\<lambda>n. n \<notin> names) (map cp_name (sr_collections r))),
          df_modified = sort (filter (\<lambda>n. n \<in> names) (map cp_name (sr_collections r))), df_deleted = sort (sr_deleted r)\<rparr>"
    by (auto simp: diff_versions_def rbind_Inr_iff Let_def)
  note n = normalize_known_Inr [OF *(1)]
  have known: "known_index normalized = known" using n assms(2) by simp
  then have names: "names = fset (fmdom known)" using n known_index_dom [of normalized] by (simp add: image_image)
  have "rfold index_known fmempty (sq_known (q\<lparr>sq_known := normalized\<rparr>)) = Inr known"
    using index_known_clean [of normalized fmempty] n known by auto
  from get_snapshot_incremental [OF this, of sv current r] *(2) obtain full where
    full: "get_snapshot sv current (q\<lparr>sq_known := []\<rparr>) = Inr full" "r = without_known known full" by auto
  have has: "cp_name p |\<in>| fmdom known" if "client_has known p" for p
    using that by (auto simp: client_has_def fmlookup_dom_iff split: option.splits)
  have deleted: "set (sr_deleted r) = fset (fmdom known) - cp_name ` set (sr_collections full)"
    by (auto simp: full(2) without_known_def fmlookup_dom_iff split: if_splits)
  show ?thesis
    using full has deleted unfolding *(3) names
    by (intro exI [of _ full]) (auto simp: without_known_def)
qed

text \<open>
  A successful \<open>GetCollections\<close> answers from one single snapshot, read either at once or in one
  round of its wait, with exactly the requested collections in name order, every one of them at
  the minimum revision or above.
\<close>

lemma get_collections_reaches_minimum:
  assumes "get_collections sv current submitter parent ticks q = Inr (i, ps)"
  shows "\<exists>s full. s \<in> set (current # map wt_loaded ticks) \<and> get_snapshot sv s (full_request q) = Inr full \<and>
    i = sr_identity full \<and> map cp_name ps = sort (map trim_space (cq_collections q)) \<and>
    set ps \<subseteq> set (sr_collections full) \<and> list_all (\<lambda>p. cq_min q \<le> cp_revision p) ps"
proof -
  from get_collections_loaded [OF assms] obtain s where s: "s \<in> set (current # map wt_loaded ticks)"
    "load_collections sv q (map trim_space (cq_collections q)) s = Inr ((i, ps), [])" by blast
  with load_collections_Inr [OF s(2)] show ?thesis by auto
qed

definition sample_collections_request :: collections_request where
  "sample_collections_request =
     \<lparr>cq_consumer = ''loans'', cq_client = ''c1'', cq_region = ''eu'', cq_environment = ''prod'', cq_stage = [],
      cq_collections = [''limits ''], cq_min = 2\<rparr>"

end
