(* ===== verification/Wire_Messages.thy ===== *)
theory Wire_Messages
  imports Go_Prelude
begin

text \<open>
  Messages and status codes that both ends of an RPC use (\<open>contracts/kitex_gen\<close>). A message is a
  record of its fields, a pointer an option, an \<open>int64\<close> of a message an integer.
\<close>

datatype rpc_code =
    RpcInvalidArgument
  | RpcFailedPrecondition
  | RpcUnavailable
  | RpcPermissionDenied
  | RpcUnauthenticated
  | RpcResourceExhausted
  | RpcUnimplemented
  | RpcCanceled
  | RpcDeadlineExceeded
  | RpcNotFound
  | RpcAborted
  | RpcInternal

record wire_scope =
  ws_region :: string
  ws_environment :: string
  ws_stage :: string

record wire_target =
  wg_collection :: string
  wg_min :: int
  wg_cursor :: int

record notify_message =
  nm_event :: string
  nm_scope :: "wire_scope option"
  nm_targets :: "wire_target option list"
  nm_order :: string
  nm_trace :: string

text \<open>A \<open>uint64\<close> that fits into an \<open>int64\<close> of a message.\<close>

definition int64_of :: "u64 \<Rightarrow> int option" where
  "int64_of v = (if v > 2 ^ 63 - 1 then None else Some (uint v))"

text \<open>
  \<open>strings.ToLower\<close> on a digest. It also changes some letters beyond ASCII; a value with one is
  refused by the hexadecimal decoding anyway.
\<close>

definition ascii_lower :: "char \<Rightarrow> char" where
  "ascii_lower c = (if CHR ''A'' \<le> c \<and> c \<le> CHR ''Z'' then char_of (of_char c + 32 :: nat) else c)"

end
