(* ===== verification/Sdk_Client.thy ===== *)
theory Sdk_Client
  imports Config_Server Wire_Messages
begin

text \<open>
  The Go SDK: \<open>New\<close>, \<open>Refresh\<close> with \<open>buildCandidate\<close>, the digest and the bucket of
  \<open>sdk/finconfig/client.go\<close> and \<open>model.go\<close>, the local queries of \<open>query.go\<close> and the
  subscriptions of \<open>subscription.go\<close>. The transport is an interface: a refresh takes what the
  transport answers to its first and to its second call. An update handler is a name. The
  mutexes make every operation atomic.
\<close>

record sdk_identity =
  xi_epoch :: string
  xi_server :: string
  xi_snapshot :: string
  xi_generation :: u64

record sdk_record =
  xr_key :: string
  xr_revision :: u64
  xr_values :: "data option"

record sdk_payload =
  xp_name :: string
  xp_revision :: u64
  xp_digest :: string
  xp_records :: "sdk_record list"

record sdk_response =
  xs_identity :: sdk_identity
  xs_environment :: string
  xs_collections :: "sdk_payload list"
  xs_deleted :: "string list"

record sdk_collection =
  xc_revision :: u64
  xc_digest :: string
  xc_records :: "(string, sdk_record) fmap"

record sdk_snapshot =
  xn_identity :: sdk_identity
  xn_environment :: string
  xn_collections :: "(string, sdk_collection) fmap"

record change_set =
  ch_before :: sdk_identity
  ch_after :: sdk_identity
  ch_collections :: "string list"

datatype callback_result = CallbackAccepts | CallbackRejects catalog_error | CallbackPanics

datatype lifecycle = LifeNew | LifeStarting | LifeRunning | LifeClosing | LifeClosed

record version_view =
  vv_collection :: string
  vv_revision :: u64
  vv_digest :: string
  vv_identity :: sdk_identity

record update_event =
  ue_collection :: string
  ue_version :: version_view
  ue_identity :: sdk_identity

type_synonym update_handler = nat

record sdk_client =
  cl_consumer :: string
  cl_client :: string
  cl_region :: string
  cl_environment :: string
  cl_stage :: string
  cl_bucket :: int
  cl_poll :: int
  cl_watch :: bool
  cl_backoff :: int
  cl_callback :: "(change_set \<Rightarrow> callback_result) option"
  cl_current :: sdk_snapshot
  cl_lifecycle :: lifecycle
  cl_subscriptions :: "(string, (u64 \<times> update_handler) list) fmap"
  cl_next :: u64
  cl_updates :: "(update_handler \<times> update_event) list"
  cl_capacity :: nat
  cl_workers :: nat

section \<open>The client's own bucket and digest\<close>

definition sdk_client_bucket :: "string \<Rightarrow> string \<Rightarrow> catalog_error + int" where
  "sdk_client_bucket consumer client =
     (if consumer = [] \<or> client = [] \<or> consumer \<noteq> trim_space consumer \<or> client \<noteq> trim_space client
         \<or> CHR 0x00 \<in> set consumer \<or> CHR 0x00 \<in> set client
      then Inl STR ''invalid percentage rollout: canonical consumer and client identifiers are required''
      else Inr (uint (sum_prefix64 (sha256 (consumer @ [CHR 0x00] @ client)) mod 100)))"

text \<open>The loop over the sorted records, with the key of the one before.\<close>

fun digest_rows :: "string option \<Rightarrow> sdk_record list \<Rightarrow> catalog_error + (string \<times> data option) list" where
  "digest_rows previous [] = Inr []"
| "digest_rows previous (r # rs) =
     (if xr_key r = [] then Inl STR ''record key is required''
      else if previous = Some (xr_key r) then Inl STR ''duplicate record key %q''
      else rbind (digest_rows (Some (xr_key r)) rs) (\<lambda>rest.
        Inr ((xr_key r, Some (deref_map (xr_values r))) # rest)))"

definition sdk_base_digest :: "sdk_record list \<Rightarrow> catalog_error + string" where
  "sdk_base_digest records =
     rbind (digest_rows None (sort_key xr_key records)) (\<lambda>rows.
       Inr (hex_encode (sha256 (json_print (digest_payload rows)))))"

definition valid_sha256 :: "string \<Rightarrow> bool" where
  "valid_sha256 v \<longleftrightarrow> length v = 64 \<and> map ascii_lower v = v \<and> list_all (\<lambda>c. hex_value c \<noteq> None) v"

section \<open>Creating a client\<close>

record sdk_config =
  xo_consumer :: string
  xo_client :: string
  xo_region :: string
  xo_environment :: string
  xo_stage :: string
  xo_transport :: bool
  xo_watchable :: bool
  xo_poll :: int
  xo_watch :: bool
  xo_backoff :: int
  xo_workers :: int
  xo_queue :: int

definition no_identity :: sdk_identity where
  "no_identity = \<lparr>xi_epoch = [], xi_server = [], xi_snapshot = [], xi_generation = 0\<rparr>"

definition new_client :: "sdk_config \<Rightarrow> catalog_error + sdk_client" where
  "new_client config =
     (let consumer = trim_space (xo_consumer config); client = trim_space (xo_client config);
          region = trim_space (xo_region config); environment = trim_space (xo_environment config)
      in if consumer = [] \<or> client = [] \<or> region = [] \<or> environment = [] \<or> \<not> xo_transport config
         then Inl STR ''new FinConfig client: consumer, client, region, environment, and transport are required''
         else rbind (sdk_client_bucket consumer client) (\<lambda>bucket.
           if xo_poll config < 0 then Inl STR ''new FinConfig client: poll interval cannot be negative''
           else if xo_backoff config < 0 then Inl STR ''new FinConfig client: reconnect backoff cannot be negative''
           else if xo_watch config \<and> \<not> xo_watchable config
           then Inl STR ''new FinConfig client: watch-enabled transport does not implement Watch''
           else if xo_workers config < 0 \<or> xo_workers config > 64 \<or> xo_queue config < 0 \<or> xo_queue config > 4096
           then Inl STR ''new FinConfig client: callback worker or queue limits are invalid''
           else Inr
             \<lparr>cl_consumer = consumer, cl_client = client, cl_region = region, cl_environment = environment,
              cl_stage = trim_space (xo_stage config), cl_bucket = bucket,
              cl_poll = (if xo_poll config = 0 then 30 * 1000000000 else xo_poll config),
              cl_watch = xo_watch config,
              cl_backoff = (if xo_backoff config = 0 then 100 * 1000000 else xo_backoff config),
              cl_callback = None,
              cl_current = \<lparr>xn_identity = no_identity, xn_environment = environment, xn_collections = fmempty\<rparr>,
              cl_lifecycle = LifeNew, cl_subscriptions = fmempty, cl_next = 0, cl_updates = [],
              cl_capacity = (if xo_queue config = 0 then 256 else nat (xo_queue config)),
              cl_workers = (if xo_workers config = 0 then 4 else nat (xo_workers config))\<rparr>))"

definition set_before_publish :: "(change_set \<Rightarrow> callback_result) option \<Rightarrow> sdk_client \<Rightarrow> sdk_client" where
  "set_before_publish callback c = c\<lparr>cl_callback := callback\<rparr>"

section \<open>Building a candidate\<close>

definition same_instance :: "sdk_identity \<Rightarrow> sdk_identity \<Rightarrow> bool" where
  "same_instance l r \<longleftrightarrow> xi_epoch l = xi_epoch r \<and> xi_server l = xi_server r \<and> xi_snapshot l = xi_snapshot r"

definition clone_sdk_record :: "sdk_record \<Rightarrow> sdk_record" where
  "clone_sdk_record r = r\<lparr>xr_values := Some (deref_map (xr_values r))\<rparr>"

definition delete_collection ::
  "string list \<times> (string, sdk_collection) fmap \<Rightarrow> string
     \<Rightarrow> catalog_error + string list \<times> (string, sdk_collection) fmap" where
  "delete_collection acc name =
     (if blank name then Inl STR ''FinConfig candidate: deleted collection name is required''
      else if name \<in> set (fst acc) then Inl STR ''FinConfig candidate: duplicate deleted collection %q''
      else Inr (fst acc @ [name], fmdrop name (snd acc)))"

definition add_sdk_record ::
  "u64 \<Rightarrow> (string, sdk_record) fmap \<times> sdk_record list \<Rightarrow> sdk_record
     \<Rightarrow> catalog_error + (string, sdk_record) fmap \<times> sdk_record list" where
  "add_sdk_record revision acc source =
     (if xr_key source = [] \<or> xr_revision source = 0 \<or> revision < xr_revision source
      then Inl STR ''FinConfig candidate: collection %q has invalid record identity or revision''
      else if xr_key source |\<in>| fmdom (fst acc) then Inl STR ''FinConfig candidate: collection %q repeats record %q''
      else let r = clone_sdk_record source in Inr (fmupd (xr_key r) r (fst acc), snd acc @ [r]))"

definition add_sdk_payload ::
  "string list \<Rightarrow> string list \<times> (string, sdk_collection) fmap \<Rightarrow> sdk_payload
     \<Rightarrow> catalog_error + string list \<times> (string, sdk_collection) fmap" where
  "add_sdk_payload deleted acc p =
     (if blank (xp_name p) \<or> xp_revision p = 0
      then Inl STR ''FinConfig candidate: collection name and revision are required''
      else if xp_name p \<in> set deleted then Inl STR ''FinConfig candidate: collection %q is both changed and deleted''
      else if xp_name p \<in> set (fst acc) then Inl STR ''FinConfig candidate: duplicate collection %q''
      else if \<not> valid_sha256 (xp_digest p) then Inl STR ''FinConfig candidate: collection %q has invalid digest''
      else rbind (rfold (add_sdk_record (xp_revision p)) (fmempty, []) (xp_records p)) (\<lambda>(records, digested).
           rbind (sdk_base_digest digested) (\<lambda>digest.
             if digest \<noteq> xp_digest p then Inl STR ''FinConfig candidate: collection %q digest mismatch''
             else Inr (fst acc @ [xp_name p],
                fmupd (xp_name p)
                  \<lparr>xc_revision = xp_revision p, xc_digest = xp_digest p, xc_records = records\<rparr> (snd acc)))))"

definition build_candidate :: "sdk_response \<Rightarrow> sdk_snapshot \<Rightarrow> catalog_error + sdk_snapshot" where
  "build_candidate response before =
     (let i = xs_identity response; b = xn_identity before
      in if blank (xi_epoch i) \<or> blank (xi_server i) \<or> blank (xi_snapshot i) \<or> xi_generation i = 0
         then Inl STR ''FinConfig candidate: complete nonzero snapshot identity is required''
         else if xs_environment response \<noteq> xn_environment before
         then Inl STR ''FinConfig candidate: environment %q does not match %q''
         else if same_instance i b \<and> xi_generation i < xi_generation b
         then Inl STR ''FinConfig candidate: generation regressed from %d to %d''
         else let reset = (xi_generation b = 0 \<or> \<not> same_instance i b);
                  start = (if reset then fmempty else xn_collections before)
              in rbind (rfold delete_collection ([], start) (xs_deleted response)) (\<lambda>(deleted, kept).
                 rbind (rfold (add_sdk_payload deleted) ([], kept) (xs_collections response)) (\<lambda>(_, collections).
                 Inr \<lparr>xn_identity = i, xn_environment = xs_environment response, xn_collections = collections\<rparr>)))"

section \<open>Refreshing\<close>

definition known_versions :: "sdk_snapshot \<Rightarrow> known_version list" where
  "known_versions s =
     map (\<lambda>name. let c = the (fmlookup (xn_collections s) name)
                 in \<lparr>kv_collection = name, kv_revision = xc_revision c, kv_digest = xc_digest c\<rparr>)
       (sorted_keys (xn_collections s))"

definition collection_differs :: "sdk_collection option \<Rightarrow> sdk_collection \<Rightarrow> bool" where
  "collection_differs previous current \<longleftrightarrow>
     (case previous of None \<Rightarrow> True
      | Some p \<Rightarrow> xc_revision p \<noteq> xc_revision current \<or> xc_digest p \<noteq> xc_digest current)"

definition changed_collections :: "sdk_snapshot \<Rightarrow> sdk_snapshot \<Rightarrow> string list" where
  "changed_collections before after =
     sort (filter (\<lambda>name. collection_differs (fmlookup (xn_collections before) name)
                            (the (fmlookup (xn_collections after) name))) (sorted_keys (xn_collections after))
        @ filter (\<lambda>name. name |\<notin>| fmdom (xn_collections after)) (sorted_keys (xn_collections before)))"

definition invoke_before_publish :: "(change_set \<Rightarrow> callback_result) option \<Rightarrow> change_set \<Rightarrow> catalog_error + unit" where
  "invoke_before_publish callback changes =
     (case callback of
        None \<Rightarrow> Inr ()
      | Some f \<Rightarrow> (case f changes of
            CallbackAccepts \<Rightarrow> Inr ()
          | CallbackRejects e \<Rightarrow> Inl e
          | CallbackPanics \<Rightarrow> Inl STR ''callback panic: %v''))"

text \<open>A delivery is dropped when the queue is full. The handlers of one collection are in the order of
  their subscription; Go leaves it open.\<close>

definition offer_update :: "nat \<Rightarrow> 'd list \<Rightarrow> 'd \<Rightarrow> 'd list" where
  "offer_update capacity queue d = (if length queue < capacity then queue @ [d] else queue)"

definition update_event_of :: "sdk_snapshot \<Rightarrow> string \<Rightarrow> update_event" where
  "update_event_of s name =
     (let view = (case fmlookup (xn_collections s) name of
                    None \<Rightarrow> \<lparr>xc_revision = 0, xc_digest = [], xc_records = fmempty\<rparr> | Some c \<Rightarrow> c)
      in \<lparr>ue_collection = name,
          ue_version = \<lparr>vv_collection = name, vv_revision = xc_revision view, vv_digest = xc_digest view,
                        vv_identity = xn_identity s\<rparr>,
          ue_identity = xn_identity s\<rparr>)"

definition publish_updates :: "change_set \<Rightarrow> sdk_snapshot \<Rightarrow> sdk_client \<Rightarrow> sdk_client" where
  "publish_updates changes s c =
     c\<lparr>cl_updates :=
        foldl (\<lambda>queue name.
            foldl (offer_update (cl_capacity c)) queue
              (map (\<lambda>(_, handler). (handler, update_event_of s name)) (read_list (cl_subscriptions c) name)))
          (cl_updates c) (ch_collections changes)\<rparr>"

definition client_request :: "sdk_client \<Rightarrow> snapshot_request" where
  "client_request c =
     \<lparr>sq_consumer = cl_consumer c, sq_client = cl_client c, sq_region = cl_region c,
      sq_environment = cl_environment c, sq_stage = cl_stage c, sq_known = known_versions (cl_current c)\<rparr>"

text \<open>The response a refresh works with: a second, full one when the instance changed.\<close>

definition fetch_response ::
  "(nat \<Rightarrow> snapshot_request \<Rightarrow> catalog_error + sdk_response) \<Rightarrow> sdk_client \<Rightarrow> catalog_error + sdk_response" where
  "fetch_response transport c =
     (let request = client_request c; before = xn_identity (cl_current c)
      in rbind (transport 0 request) (\<lambda>response.
         if xi_generation before \<noteq> 0 \<and> \<not> same_instance (xs_identity response) before \<and> sq_known request \<noteq> []
         then transport 1 (request\<lparr>sq_known := []\<rparr>) else Inr response))"

definition refresh_sdk ::
  "(nat \<Rightarrow> snapshot_request \<Rightarrow> catalog_error + sdk_response) \<Rightarrow> sdk_client \<Rightarrow> sdk_client \<times> (catalog_error + change_set)" where
  "refresh_sdk transport c =
     (case rbind (fetch_response transport c) (\<lambda>response.
           rbind (build_candidate response (cl_current c)) (\<lambda>candidate.
           let changes = \<lparr>ch_before = xn_identity (cl_current c), ch_after = xn_identity candidate,
                          ch_collections = changed_collections (cl_current c) candidate\<rparr>
           in rbind (invoke_before_publish (cl_callback c) changes) (\<lambda>_. Inr (candidate, changes)))) of
        Inl e \<Rightarrow> (c, Inl e)
      | Inr (candidate, changes) \<Rightarrow>
          (publish_updates changes candidate (c\<lparr>cl_current := candidate\<rparr>), Inr changes))"

end
