(* ===== verification/Sdk_Facts.thy ===== *)
theory Sdk_Facts
  imports Sdk_Client Replaceable
begin

text \<open>
  The client's candidate in closed form, and the integrity every candidate has whatever the
  transport answered: each stored collection hashes to the digest stored with it.
\<close>

section \<open>Stored collections\<close>

definition sdk_row :: "sdk_record \<Rightarrow> string \<times> data option" where
  "sdk_row r = (xr_key r, xr_values r)"

definition rows_digest :: "(string \<times> data option) list \<Rightarrow> string" where
  "rows_digest rows = hex_encode (sha256 (json_print (digest_payload rows)))"

definition stored_rows :: "sdk_collection \<Rightarrow> (string \<times> data option) list" where
  "stored_rows c = map sdk_row (sorted_values (xc_records c))"

definition record_stored :: "u64 \<Rightarrow> string \<Rightarrow> sdk_record \<Rightarrow> bool" where
  "record_stored revision k r \<longleftrightarrow>
     xr_key r = k \<and> k \<noteq> [] \<and> xr_revision r \<noteq> 0 \<and> xr_revision r \<le> revision \<and> xr_values r \<noteq> None"

definition collection_intact :: "string \<Rightarrow> sdk_collection \<Rightarrow> bool" where
  "collection_intact name c \<longleftrightarrow>
     \<not> blank name \<and> xc_revision c \<noteq> 0 \<and> valid_sha256 (xc_digest c) \<and> xc_digest c = rows_digest (stored_rows c) \<and>
     (\<forall>k r. fmlookup (xc_records c) k = Some r \<longrightarrow> record_stored (xc_revision c) k r)"

definition sdk_intact :: "sdk_snapshot \<Rightarrow> bool" where
  "sdk_intact s \<longleftrightarrow>
     (\<forall>name c. fmlookup (xn_collections s) name = Some c \<longrightarrow> collection_intact name c) \<and>
     (xi_generation (xn_identity s) = 0 \<longrightarrow> xn_collections s = fmempty)"

section \<open>One payload\<close>

lemma digest_rows_Inr: "digest_rows previous rs = Inr rows \<Longrightarrow> rows = map (\<lambda>r. sdk_row (clone_sdk_record r)) rs"
  by (induction previous rs arbitrary: rows rule: digest_rows.induct)
    (auto simp: rbind_Inr_iff sdk_row_def clone_sdk_record_def split: if_splits)

lemma digest_rows_ok:
  assumes "distinct (map xr_key rs)" "\<forall>r \<in> set rs. xr_key r \<noteq> []" "\<forall>r \<in> set rs. previous \<noteq> Some (xr_key r)"
  shows "digest_rows previous rs = Inr (map (\<lambda>r. sdk_row (clone_sdk_record r)) rs)"
  using assms
proof (induction rs arbitrary: previous)
  case (Cons r rs)
  have "digest_rows (Some (xr_key r)) rs = Inr (map (\<lambda>r. sdk_row (clone_sdk_record r)) rs)"
    using Cons.prems by (intro Cons.IH) (auto simp: image_iff)
  with Cons.prems show ?case by (auto simp: sdk_row_def clone_sdk_record_def)
qed simp

lemma clone_sdk_record_simps [simp]:
  "xr_key (clone_sdk_record r) = xr_key r" "xr_revision (clone_sdk_record r) = xr_revision r"
  "xr_values (clone_sdk_record r) = Some (deref_map (xr_values r))"
  "clone_sdk_record (clone_sdk_record r) = clone_sdk_record r"
  by (simp_all add: clone_sdk_record_def)

definition keyed_records :: "sdk_record list \<Rightarrow> (string, sdk_record) fmap" where
  "keyed_records rs = foldl (\<lambda>m r. fmupd (xr_key r) (clone_sdk_record r) m) fmempty rs"

lemma keyed_records_simps [simp]:
  "keyed_records [] = fmempty"
  "keyed_records (rs @ [r]) = fmupd (xr_key r) (clone_sdk_record r) (keyed_records rs)"
  by (simp_all add: keyed_records_def)

lemma keyed_records_dom [simp]: "k |\<in>| fmdom (keyed_records rs) \<longleftrightarrow> k \<in> xr_key ` set rs"
  by (induction rs rule: rev_induct) auto

lemma keyed_records_lookup:
  "distinct (map xr_key rs) \<Longrightarrow>
     fmlookup (keyed_records rs) k = Some r \<longleftrightarrow> (\<exists>q \<in> set rs. xr_key q = k \<and> r = clone_sdk_record q)"
  by (induction rs rule: rev_induct) (auto simp: image_iff)

lemma add_sdk_records_iff:
  "rfold (add_sdk_record revision) (fmempty, []) rs = Inr (m, ds) \<longleftrightarrow>
     distinct (map xr_key rs) \<and>
     (\<forall>r \<in> set rs. xr_key r \<noteq> [] \<and> xr_revision r \<noteq> 0 \<and> xr_revision r \<le> revision) \<and>
     m = keyed_records rs \<and> ds = map clone_sdk_record rs"
proof (induction rs arbitrary: m ds rule: rev_induct)
  case Nil
  then show ?case by auto
next
  case (snoc r rs)
  have "rfold (add_sdk_record revision) (fmempty, []) (rs @ [r]) = Inr (m, ds) \<longleftrightarrow>
      (\<exists>m' ds'. rfold (add_sdk_record revision) (fmempty, []) rs = Inr (m', ds') \<and>
        add_sdk_record revision (m', ds') r = Inr (m, ds))"
    by (auto simp: rfold_append rbind_Inr_iff)
  moreover have "add_sdk_record revision (m', ds') r = Inr (m, ds) \<longleftrightarrow>
      xr_key r \<noteq> [] \<and> xr_revision r \<noteq> 0 \<and> xr_revision r \<le> revision \<and> xr_key r |\<notin>| fmdom m' \<and>
      m = fmupd (xr_key r) (clone_sdk_record r) m' \<and> ds = ds' @ [clone_sdk_record r]" for m' ds'
    by (auto simp: add_sdk_record_def Let_def not_less split: if_splits)
  ultimately show ?case by (auto simp: snoc.IH)
qed

lemma sorted_values_keyed:
  assumes "distinct (map xr_key rs)"
  shows "sorted_values (keyed_records rs) = sort_key xr_key (map clone_sdk_record rs)"
proof (rule map_sorted_distinct_set_unique [where f = xr_key])
  let ?m = "keyed_records rs"
  have keys: "map xr_key (sorted_values ?m) = sorted_keys ?m"
  proof -
    have "xr_key (the (fmlookup ?m k)) = k" if "k \<in> set (sorted_keys ?m)" for k
    proof -
      from that obtain r where r: "fmlookup ?m k = Some r" by (auto simp: fmlookup_dom_iff simp del: keyed_records_dom)
      then obtain q where "xr_key q = k" "r = clone_sdk_record q" using keyed_records_lookup [OF assms] by blast
      with r show ?thesis by simp
    qed
    then show ?thesis unfolding sorted_values_def by (auto intro: map_idI)
  qed
  then show "sorted (map xr_key (sorted_values ?m))" "distinct (map xr_key (sorted_values ?m))"
    by (simp_all add: sorted_keys_sorted)
  show "sorted (map xr_key (sort_key xr_key (map clone_sdk_record rs)))" by simp
  show "distinct (map xr_key (sort_key xr_key (map clone_sdk_record rs)))"
    using assms by (simp add: map_key_sort_key comp_def)
  show sets: "set (sorted_values ?m) = set (sort_key xr_key (map clone_sdk_record rs))"
    unfolding set_eq_iff set_sorted_values set_sort set_map keyed_records_lookup [OF assms] by blast
  show "inj_on xr_key (set (sorted_values ?m) \<union> set (sort_key xr_key (map clone_sdk_record rs)))"
    unfolding sets using assms by (auto simp: inj_on_def distinct_map)
qed

definition stored_payload :: "sdk_payload \<Rightarrow> sdk_collection" where
  "stored_payload p = \<lparr>xc_revision = xp_revision p, xc_digest = xp_digest p, xc_records = keyed_records (xp_records p)\<rparr>"

definition payload_accepted :: "sdk_payload \<Rightarrow> bool" where
  "payload_accepted p \<longleftrightarrow>
     distinct (map xr_key (xp_records p)) \<and> collection_intact (xp_name p) (stored_payload p)"

lemma sdk_base_digest_cloned:
  assumes "distinct (map xr_key rs)" "\<forall>r \<in> set rs. xr_key r \<noteq> []"
  shows "sdk_base_digest (map clone_sdk_record rs) = Inr (rows_digest (map sdk_row (sorted_values (keyed_records rs))))"
proof -
  let ?s = "sort_key xr_key (map clone_sdk_record rs)"
  have "map (\<lambda>r. sdk_row (clone_sdk_record r)) ?s = map sdk_row ?s" by (intro map_cong) auto
  moreover have "digest_rows None ?s = Inr (map (\<lambda>r. sdk_row (clone_sdk_record r)) ?s)"
    using assms by (intro digest_rows_ok) (auto simp: map_key_sort_key comp_def)
  ultimately show ?thesis
    by (simp only: sdk_base_digest_def rows_digest_def sorted_values_keyed [OF assms(1)] rbind_simps)
qed

lemma add_sdk_payload_iff:
  "add_sdk_payload deleted (seen, m) p = Inr (seen', m') \<longleftrightarrow>
     xp_name p \<notin> set deleted \<and> xp_name p \<notin> set seen \<and> payload_accepted p \<and>
     seen' = seen @ [xp_name p] \<and> m' = fmupd (xp_name p) (stored_payload p) m"
proof -
  let ?rs = "xp_records p"
  have records: "(\<forall>k r. fmlookup (keyed_records ?rs) k = Some r \<longrightarrow> record_stored (xp_revision p) k r) \<longleftrightarrow>
      (\<forall>r \<in> set ?rs. xr_key r \<noteq> [] \<and> xr_revision r \<noteq> 0 \<and> xr_revision r \<le> xp_revision p)"
    if "distinct (map xr_key ?rs)"
  proof -
    have "(\<forall>k r. (\<exists>q \<in> set ?rs. xr_key q = k \<and> r = clone_sdk_record q) \<longrightarrow> record_stored (xp_revision p) k r) \<longleftrightarrow>
        (\<forall>q \<in> set ?rs. record_stored (xp_revision p) (xr_key q) (clone_sdk_record q))" by blast
    then show ?thesis unfolding keyed_records_lookup [OF that] by (simp add: record_stored_def)
  qed
  define good where "good \<longleftrightarrow> distinct (map xr_key ?rs) \<and>
    (\<forall>r \<in> set ?rs. xr_key r \<noteq> [] \<and> xr_revision r \<noteq> 0 \<and> xr_revision r \<le> xp_revision p)"
  have accepted: "payload_accepted p \<longleftrightarrow> good \<and> \<not> blank (xp_name p) \<and> xp_revision p \<noteq> 0 \<and>
      valid_sha256 (xp_digest p) \<and> xp_digest p = rows_digest (map sdk_row (sorted_values (keyed_records ?rs)))"
    using records by (auto simp: payload_accepted_def collection_intact_def stored_payload_def stored_rows_def good_def)
  show ?thesis
  proof (cases good)
    case True
    then have "rfold (add_sdk_record (xp_revision p)) (fmempty, []) ?rs =
        Inr (keyed_records ?rs, map clone_sdk_record ?rs)"
      by (simp add: add_sdk_records_iff good_def)
    moreover have "sdk_base_digest (map clone_sdk_record ?rs) =
        Inr (rows_digest (map sdk_row (sorted_values (keyed_records ?rs))))"
      using True by (intro sdk_base_digest_cloned) (auto simp: good_def)
    ultimately show ?thesis unfolding accepted using True
      by (auto simp: add_sdk_payload_def stored_payload_def)
  next
    case False
    then have "rfold (add_sdk_record (xp_revision p)) (fmempty, []) ?rs \<noteq> Inr st" for st
      by (cases st) (simp add: add_sdk_records_iff good_def)
    then show ?thesis unfolding accepted using False
      by (auto simp: add_sdk_payload_def rbind_Inr_iff split: if_splits)
  qed
qed

section \<open>Candidates\<close>

lemma delete_collections_iff:
  "rfold delete_collection ([], m) names = Inr (deleted, m') \<longleftrightarrow>
     distinct names \<and> list_all (\<lambda>n. \<not> blank n) names \<and> deleted = names \<and> m' = fmdrop_set (set names) m"
proof (induction names arbitrary: deleted m' rule: rev_induct)
  case Nil
  then show ?case by (auto simp: fmdrop_set_null)
next
  case (snoc n names)
  have "rfold delete_collection ([], m) (names @ [n]) = Inr (deleted, m') \<longleftrightarrow>
      (\<exists>d k. rfold delete_collection ([], m) names = Inr (d, k) \<and> delete_collection (d, k) n = Inr (deleted, m'))"
    by (auto simp: rfold_append rbind_Inr_iff)
  moreover have "delete_collection (d, k) n = Inr (deleted, m') \<longleftrightarrow>
      \<not> blank n \<and> n \<notin> set d \<and> deleted = d @ [n] \<and> m' = fmdrop n k" for d k
    by (auto simp: delete_collection_def)
  ultimately show ?case unfolding snoc.IH by auto
qed

definition stored_payloads :: "sdk_payload list \<Rightarrow> (string, sdk_collection) fmap" where
  "stored_payloads ps = foldl (\<lambda>m p. fmupd (xp_name p) (stored_payload p) m) fmempty ps"

lemma stored_payloads_simps [simp]:
  "stored_payloads [] = fmempty"
  "stored_payloads (ps @ [p]) = fmupd (xp_name p) (stored_payload p) (stored_payloads ps)"
  by (simp_all add: stored_payloads_def)

lemma stored_payloads_lookup:
  "distinct (map xp_name ps) \<Longrightarrow>
     fmlookup (stored_payloads ps) n = Some c \<longleftrightarrow> (\<exists>p \<in> set ps. xp_name p = n \<and> c = stored_payload p)"
  by (induction ps rule: rev_induct) (auto simp: image_iff)

lemma stored_payloads_dom: "n |\<in>| fmdom (stored_payloads ps) \<longleftrightarrow> n \<in> xp_name ` set ps"
  by (induction ps rule: rev_induct) auto

lemma add_sdk_payloads_iff:
  "rfold (add_sdk_payload deleted) ([], m) ps = Inr (seen, m') \<longleftrightarrow>
     distinct (map xp_name ps) \<and> list_all payload_accepted ps \<and> set (map xp_name ps) \<inter> set deleted = {} \<and>
     seen = map xp_name ps \<and> m' = m ++\<^sub>f stored_payloads ps"
proof (induction ps arbitrary: seen m' rule: rev_induct)
  case Nil
  then show ?case by auto
next
  case (snoc p ps)
  have "rfold (add_sdk_payload deleted) ([], m) (ps @ [p]) = Inr (seen, m') \<longleftrightarrow>
      (\<exists>d k. rfold (add_sdk_payload deleted) ([], m) ps = Inr (d, k) \<and> add_sdk_payload deleted (d, k) p = Inr (seen, m'))"
    by (auto simp: rfold_append rbind_Inr_iff)
  then show ?case unfolding snoc.IH add_sdk_payload_iff by auto
qed

definition candidate_start :: "sdk_identity \<Rightarrow> sdk_snapshot \<Rightarrow> (string, sdk_collection) fmap" where
  "candidate_start i before =
     (if xi_generation (xn_identity before) = 0 \<or> \<not> same_instance i (xn_identity before)
      then fmempty else xn_collections before)"

definition identity_accepted :: "sdk_identity \<Rightarrow> sdk_snapshot \<Rightarrow> bool" where
  "identity_accepted i before \<longleftrightarrow>
     \<not> blank (xi_epoch i) \<and> \<not> blank (xi_server i) \<and> \<not> blank (xi_snapshot i) \<and> xi_generation i \<noteq> 0 \<and>
     (same_instance i (xn_identity before) \<longrightarrow> xi_generation (xn_identity before) \<le> xi_generation i)"

lemma build_candidate_iff:
  "build_candidate r before = Inr candidate \<longleftrightarrow>
     identity_accepted (xs_identity r) before \<and> xs_environment r = xn_environment before \<and>
     distinct (xs_deleted r) \<and> list_all (\<lambda>n. \<not> blank n) (xs_deleted r) \<and>
     distinct (map xp_name (xs_collections r)) \<and> list_all payload_accepted (xs_collections r) \<and>
     set (map xp_name (xs_collections r)) \<inter> set (xs_deleted r) = {} \<and>
     candidate = \<lparr>xn_identity = xs_identity r, xn_environment = xn_environment before,
       xn_collections = fmdrop_set (set (xs_deleted r)) (candidate_start (xs_identity r) before)
         ++\<^sub>f stored_payloads (xs_collections r)\<rparr>"
proof -
  have "build_candidate r before = Inr candidate \<longleftrightarrow>
     identity_accepted (xs_identity r) before \<and> xs_environment r = xn_environment before \<and>
     (\<exists>deleted kept seen collections.
        rfold delete_collection ([], candidate_start (xs_identity r) before) (xs_deleted r) = Inr (deleted, kept) \<and>
        rfold (add_sdk_payload deleted) ([], kept) (xs_collections r) = Inr (seen, collections) \<and>
        candidate = \<lparr>xn_identity = xs_identity r, xn_environment = xs_environment r, xn_collections = collections\<rparr>)"
    by (auto simp: build_candidate_def identity_accepted_def candidate_start_def Let_def rbind_Inr_iff not_less
        split: if_splits)
  then show ?thesis unfolding delete_collections_iff add_sdk_payloads_iff by auto
qed

section \<open>Refreshes\<close>

definition change_set_of :: "sdk_snapshot \<Rightarrow> sdk_snapshot \<Rightarrow> change_set" where
  "change_set_of before after =
     \<lparr>ch_before = xn_identity before, ch_after = xn_identity after,
      ch_collections = changed_collections before after\<rparr>"

lemma publish_updates_current [simp]: "cl_current (publish_updates ch s c) = cl_current c"
  by (simp add: publish_updates_def)

lemma refresh_sdk_Inl: "refresh_sdk transport c = (c', Inl e) \<Longrightarrow> c' = c"
  by (auto simp: refresh_sdk_def split: sum.splits)

lemma refresh_sdk_Inr:
  "refresh_sdk transport c = (c', Inr ch) \<longleftrightarrow>
     (\<exists>response candidate. fetch_response transport c = Inr response \<and>
        build_candidate response (cl_current c) = Inr candidate \<and>
        ch = change_set_of (cl_current c) candidate \<and> invoke_before_publish (cl_callback c) ch = Inr () \<and>
        c' = publish_updates ch candidate (c\<lparr>cl_current := candidate\<rparr>))"
  by (auto simp: refresh_sdk_def change_set_of_def Let_def rbind_Inr_iff rbind_Inl_iff split: sum.splits)

lemma collection_intact_stored: "payload_accepted p \<Longrightarrow> collection_intact (xp_name p) (stored_payload p)"
  by (simp add: payload_accepted_def)

lemma candidate_start_lookup:
  "fmlookup (candidate_start i before) n = Some c \<Longrightarrow> fmlookup (xn_collections before) n = Some c"
  by (simp add: candidate_start_def split: if_splits)

lemma build_candidate_intact:
  assumes "sdk_intact before" "build_candidate r before = Inr candidate"
  shows "sdk_intact candidate"
proof -
  note b = assms(2) [unfolded build_candidate_iff]
  have "collection_intact n c" if "fmlookup (xn_collections candidate) n = Some c" for n c
  proof (cases "n |\<in>| fmdom (stored_payloads (xs_collections r))")
    case True
    with that b have "fmlookup (stored_payloads (xs_collections r)) n = Some c" by simp
    then obtain p where "p \<in> set (xs_collections r)" "xp_name p = n" "c = stored_payload p"
      using b stored_payloads_lookup by blast
    with b show ?thesis by (auto simp: list_all_iff intro: collection_intact_stored)
  next
    case False
    with that b have "fmlookup (candidate_start (xs_identity r) before) n = Some c" by (auto split: if_splits)
    then show ?thesis using assms(1) candidate_start_lookup by (metis sdk_intact_def)
  qed
  moreover have "xi_generation (xn_identity candidate) \<noteq> 0" using b by (auto simp: identity_accepted_def)
  ultimately show ?thesis by (simp add: sdk_intact_def)
qed

text \<open>The client's cell: every transport whatsoever is admissible.\<close>

interpretation sdk_cell: replaceable cl_current "\<lambda>c transport. refresh_sdk transport c" sdk_intact "\<lambda>_. True"
proof
  show "refresh_sdk transport c = (c', Inl e) \<Longrightarrow> cl_current c' = cl_current c" for transport c c' e
    using refresh_sdk_Inl by metis
  show "refresh_sdk transport c = (c', Inr ch) \<Longrightarrow> sdk_intact (cl_current c) \<Longrightarrow> True \<Longrightarrow> sdk_intact (cl_current c')"
    for transport c c' ch
    by (auto simp: refresh_sdk_Inr intro: build_candidate_intact)
qed

end
