(* ===== verification/Sdk_Mirror.thy ===== *)
theory Sdk_Mirror
  imports Server_Facts Sdk_Facts
begin

text \<open>
  The client against the config server: a transport that hands requests to \<open>GetSnapshot\<close> and
  copies its response, and the proof that a refresh leaves the client with exactly what a full
  response lists, although the server sent only what had changed.
\<close>

definition sdk_identity_of :: "snapshot_identity \<Rightarrow> sdk_identity" where
  "sdk_identity_of i =
     \<lparr>xi_epoch = id_epoch i, xi_server = id_server i, xi_snapshot = id_snapshot i, xi_generation = id_generation i\<rparr>"

definition sdk_record_of :: "payload_record \<Rightarrow> sdk_record" where
  "sdk_record_of r = \<lparr>xr_key = pr_key r, xr_revision = pr_revision r, xr_values = Some (pr_data r)\<rparr>"

definition sdk_payload_of :: "collection_payload \<Rightarrow> sdk_payload" where
  "sdk_payload_of p =
     \<lparr>xp_name = cp_name p, xp_revision = cp_revision p, xp_digest = cp_digest p,
      xp_records = map sdk_record_of (cp_records p)\<rparr>"

definition sdk_response_of :: "snapshot_response \<Rightarrow> sdk_response" where
  "sdk_response_of r =
     \<lparr>xs_identity = sdk_identity_of (sr_identity r), xs_environment = sr_environment r,
      xs_collections = map sdk_payload_of (sr_collections r), xs_deleted = sr_deleted r\<rparr>"

text \<open>The transport; the snapshot may be replaced between its two calls.\<close>

definition server_transport ::
  "config_service \<Rightarrow> (nat \<Rightarrow> snapshot option) \<Rightarrow> nat \<Rightarrow> snapshot_request \<Rightarrow> catalog_error + sdk_response" where
  "server_transport sv current n request =
     rbind (rerror STR ''FinConfig refresh transport: %w'' (get_snapshot sv (current n) request)) (\<lambda>r.
       Inr (sdk_response_of r))"

section \<open>Texts and digests\<close>

lemma dg_value_rows: "dg_value (sha256_digest (json_print (digest_payload rows))) = rows_digest rows"
  by (simp add: sha256_digest_def rows_digest_def)

lemma hex_char_lower:
  "n < 16 \<Longrightarrow> ascii_lower (hex_char n) = hex_char n"
  by (simp add: ascii_lower_def hex_char_def less_eq_char_def)

lemma valid_sha256_digest: "valid_sha256 (rows_digest rows)"
proof -
  have "list_all (\<lambda>c. ascii_lower c = c \<and> hex_value c \<noteq> None) (hex_encode s)" for s
    using of_char_lt_256 by (induction s) (auto simp: hex_char_lower less_mult_imp_div_less)
  then have "map ascii_lower (hex_encode s) = hex_encode s \<and> list_all (\<lambda>c. hex_value c \<noteq> None) (hex_encode s)" for s
    by (auto simp: list_all_iff intro: map_idI)
  then show ?thesis by (simp add: valid_sha256_def rows_digest_def sha256_length)
qed

definition rows_valid :: "(string \<times> data option) list \<Rightarrow> bool" where
  "rows_valid rows = list_all (\<lambda>(k, d). valid_utf8 k \<and> (case d of None \<Rightarrow> True | Some m \<Rightarrow> valid_data m)) rows"

lemma digest_payload_wf: "rows_valid rows \<Longrightarrow> wf_json (digest_payload rows)"
  by (auto simp: rows_valid_def digest_payload_def list_all_iff json_data_option_def wf_json_data split: option.splits)

lemma rows_digest_inj:
  assumes "rows_valid rows" "rows_valid rows'" "rows_digest rows = rows_digest rows'"
    and "sha256 (json_print (digest_payload rows)) = sha256 (json_print (digest_payload rows')) \<Longrightarrow>
      json_print (digest_payload rows) = json_print (digest_payload rows')"
  shows "rows = rows'"
proof -
  have "json_print (digest_payload rows) = json_print (digest_payload rows')"
    using assms(3,4) hex_encode_inj by (auto simp: rows_digest_def)
  then show ?thesis using json_print_inj digest_payload_wf assms(1,2) digest_payload_inj by metis
qed

section \<open>Contents\<close>

text \<open>What a consumer can read of a collection: its revision, its digest and its records.\<close>

definition collection_contents :: "sdk_collection \<Rightarrow> u64 \<times> string \<times> (string, data) fmap" where
  "collection_contents c =
     (xc_revision c, xc_digest c, fmmap (\<lambda>r. deref_map (xr_values r)) (xc_records c))"

definition client_contents :: "sdk_snapshot \<Rightarrow> (string, u64 \<times> string \<times> (string, data) fmap) fmap" where
  "client_contents s = fmmap collection_contents (xn_collections s)"

definition payload_contents :: "collection_payload \<Rightarrow> u64 \<times> string \<times> (string, data) fmap" where
  "payload_contents p =
     (cp_revision p, cp_digest p, fmap_of_list (map (\<lambda>r. (pr_key r, pr_data r)) (cp_records p)))"

definition served_contents :: "collection_payload list \<Rightarrow> (string, u64 \<times> string \<times> (string, data) fmap) fmap" where
  "served_contents ps = fmap_of_list (map (\<lambda>p. (cp_name p, payload_contents p)) ps)"

definition rows_data :: "(string \<times> data option) list \<Rightarrow> (string, data) fmap" where
  "rows_data rows = fmap_of_list (map (\<lambda>(k, d). (k, deref_map d)) rows)"

lemma rows_data_payload: "rows_data (map payload_content rs) = fmap_of_list (map (\<lambda>r. (pr_key r, pr_data r)) rs)"
  by (simp add: rows_data_def payload_content_def comp_def)

lemma fmmap_sorted_keys: "fmap_of_list (map (\<lambda>k. (k, f (the (fmlookup m k)))) (sorted_keys m)) = fmmap f m"
proof (rule fmap_ext)
  fix x
  show "fmlookup (fmap_of_list (map (\<lambda>k. (k, f (the (fmlookup m k)))) (sorted_keys m))) x = fmlookup (fmmap f m) x"
    by (cases "fmlookup m x")
      (auto simp: fmlookup_of_list map_of_map_restrict restrict_map_def fmdom_notI dest: fmdom_notD intro: fmdomI)
qed

lemma rows_data_stored:
  assumes "collection_intact n c"
  shows "rows_data (stored_rows c) = fmmap (\<lambda>r. deref_map (xr_values r)) (xc_records c)"
proof -
  let ?m = "xc_records c"
  have "xr_key (the (fmlookup ?m k)) = k" if "k \<in> set (sorted_keys ?m)" for k
    using that assms by (auto simp: fmlookup_dom_iff collection_intact_def record_stored_def)
  then have "map (\<lambda>r. (xr_key r, deref_map (xr_values r))) (sorted_values ?m) =
      map (\<lambda>k. (k, deref_map (xr_values (the (fmlookup ?m k))))) (sorted_keys ?m)"
    by (auto simp: sorted_values_def)
  then show ?thesis
    using fmmap_sorted_keys [of "\<lambda>r. deref_map (xr_values r)" ?m]
    by (simp add: rows_data_def stored_rows_def sdk_row_def comp_def case_prod_beta)
qed

lemma rows_equal_contents:
  assumes "collection_intact n c" "xc_revision c = cp_revision p" "xc_digest c = cp_digest p"
    and "stored_rows c = map payload_content (cp_records p)"
  shows "collection_contents c = payload_contents p"
  using rows_data_stored [OF assms(1)] assms(2-4) by (simp add: collection_contents_def payload_contents_def rows_data_payload)

section \<open>Payloads of the server\<close>

lemma sdk_payload_of_simps [simp]:
  "xp_name (sdk_payload_of p) = cp_name p" "xp_revision (sdk_payload_of p) = cp_revision p"
  "xp_digest (sdk_payload_of p) = cp_digest p" "xp_records (sdk_payload_of p) = map sdk_record_of (cp_records p)"
  by (simp_all add: sdk_payload_of_def)

lemma sdk_record_of_simps [simp]:
  "xr_key (sdk_record_of r) = pr_key r" "xr_revision (sdk_record_of r) = pr_revision r"
  "xr_values (sdk_record_of r) = Some (pr_data r)" "clone_sdk_record (sdk_record_of r) = sdk_record_of r"
  by (simp_all add: sdk_record_of_def clone_sdk_record_def)

lemma stored_rows_server:
  assumes "payload_valid p"
  shows "stored_rows (stored_payload (sdk_payload_of p)) = map payload_content (cp_records p)"
proof -
  have "distinct (map xr_key (map sdk_record_of (cp_records p)))"
    "sorted (map xr_key (map sdk_record_of (cp_records p)))"
    using assms by (simp_all add: payload_valid_def comp_def)
  then have "sorted_values (keyed_records (map sdk_record_of (cp_records p))) = map sdk_record_of (cp_records p)"
    by (simp add: sorted_values_keyed sort_key_id_if_sorted comp_def)
  then show ?thesis by (simp add: stored_rows_def stored_payload_def sdk_row_def payload_content_def)
qed

lemma server_payload_accepted:
  assumes "payload_valid p" shows "payload_accepted (sdk_payload_of p)"
proof -
  have keys: "distinct (map xr_key (map sdk_record_of (cp_records p)))"
    using assms by (simp add: payload_valid_def comp_def)
  have "record_stored (cp_revision p) k r"
    if "fmlookup (keyed_records (map sdk_record_of (cp_records p))) k = Some r" for k r
    using that assms unfolding keyed_records_lookup [OF keys] by (auto simp: record_stored_def payload_valid_def)
  moreover have "\<not> blank (cp_name p)"
    using assms identifier_trimmed identifier_nonempty by (auto simp: payload_valid_def blank_def)
  ultimately show ?thesis
    using assms keys stored_rows_server [OF assms] valid_sha256_digest
    by (simp add: payload_accepted_def collection_intact_def payload_valid_def dg_value_rows) (simp add: stored_payload_def)
qed

section \<open>The incremental candidate\<close>

text \<open>The known versions sent describe the collections the candidate starts from.\<close>

definition describes :: "(string, known_version) fmap \<Rightarrow> (string, sdk_collection) fmap \<Rightarrow> bool" where
  "describes known start \<longleftrightarrow>
     (\<forall>n. fmlookup known n =
        map_option (\<lambda>c. \<lparr>kv_collection = n, kv_revision = xc_revision c, kv_digest = xc_digest c\<rparr>) (fmlookup start n))"

lemma describes_dom: "describes known start \<Longrightarrow> n |\<in>| fmdom known \<longleftrightarrow> n |\<in>| fmdom start"
  by (simp add: describes_def fmlookup_dom_iff)

text \<open>Valid UTF-8 and no SHA-256 collision between a stored collection and the served one.\<close>

definition digests_faithful :: "(string, sdk_collection) fmap \<Rightarrow> collection_payload list \<Rightarrow> bool" where
  "digests_faithful start ps \<longleftrightarrow>
     (\<forall>n c p. fmlookup start n = Some c \<longrightarrow> p \<in> set ps \<longrightarrow> cp_name p = n \<longrightarrow>
        (let stored = stored_rows c; served = map payload_content (cp_records p)
         in rows_valid stored \<and> rows_valid served \<and>
            (sha256 (json_print (digest_payload stored)) = sha256 (json_print (digest_payload served)) \<longrightarrow>
             json_print (digest_payload stored) = json_print (digest_payload served))))"

lemma unchanged_contents:
  assumes "fmlookup start (cp_name p) = Some c" "collection_intact (cp_name p) c" "payload_valid p" "p \<in> set ps"
    and "digests_faithful start ps" "describes known start" "client_has known p"
  shows "collection_contents c = payload_contents p"
proof -
  have same: "xc_revision c = cp_revision p" "xc_digest c = cp_digest p"
    using assms(1,6,7) by (auto simp: describes_def client_has_def)
  have "rows_digest (stored_rows c) = rows_digest (map payload_content (cp_records p))"
    using assms(2,3) same(2) by (simp add: collection_intact_def payload_valid_def dg_value_rows)
  then have "stored_rows c = map payload_content (cp_records p)"
    using assms(1,4,5) by (intro rows_digest_inj) (auto simp: digests_faithful_def Let_def)
  then show ?thesis using rows_equal_contents assms(2) same by blast
qed

lemma served_contents_lookup:
  assumes "distinct (map cp_name ps)"
  shows "fmlookup (served_contents ps) n = Some x \<longleftrightarrow> (\<exists>p \<in> set ps. cp_name p = n \<and> x = payload_contents p)"
proof -
  have "distinct (map fst (map (\<lambda>p. (cp_name p, payload_contents p)) ps))" using assms by (simp add: comp_def)
  from map_of_eq_Some_iff [OF this, of n x] show ?thesis
    by (auto simp: served_contents_def fmlookup_of_list)
qed

lemma stored_payload_contents:
  assumes "payload_valid p"
  shows "collection_contents (stored_payload (sdk_payload_of p)) = payload_contents p"
proof (rule rows_equal_contents)
  show "collection_intact (cp_name p) (stored_payload (sdk_payload_of p))"
    using server_payload_accepted [OF assms] by (simp add: payload_accepted_def)
  show "stored_rows (stored_payload (sdk_payload_of p)) = map payload_content (cp_records p)"
    by (rule stored_rows_server [OF assms])
qed (simp_all add: stored_payload_def)

lemma incremental_contents:
  assumes known: "describes known start" and intact: "\<forall>n c. fmlookup start n = Some c \<longrightarrow> collection_intact n c"
    and served: "\<forall>p \<in> set ps. payload_valid p" "distinct (map cp_name ps)"
    and faithful: "digests_faithful start ps"
    and deleted: "set deleted = fset (fmdom (fmdrop_set (set (map cp_name ps)) known))"
    and new: "new = stored_payloads (map sdk_payload_of (filter (\<lambda>p. \<not> client_has known p) ps))"
  shows "fmmap collection_contents (fmdrop_set (set deleted) start ++\<^sub>f new) = served_contents ps"
proof (rule fmap_ext)
  fix n
  let ?ch = "filter (\<lambda>p. \<not> client_has known p) ps"
  have changed_names: "distinct (map xp_name (map sdk_payload_of ?ch))"
    using served(2) by (simp add: comp_def distinct_map_filter)
  have dom: "n |\<in>| fmdom known \<longleftrightarrow> n |\<in>| fmdom start"
    using known by (rule describes_dom)
  have gone: "n \<in> set deleted \<longleftrightarrow> n |\<in>| fmdom start \<and> n \<notin> cp_name ` set ps"
    unfolding deleted dom [symmetric] by (auto simp: fmlookup_dom_iff)
  have in_new: "n |\<in>| fmdom new \<longleftrightarrow> (\<exists>p \<in> set ps. cp_name p = n \<and> \<not> client_has known p)"
    unfolding new stored_payloads_dom set_map image_image sdk_payload_of_simps by auto
  show "fmlookup (fmmap collection_contents (fmdrop_set (set deleted) start ++\<^sub>f new)) n = fmlookup (served_contents ps) n"
  proof (cases "\<exists>p \<in> set ps. cp_name p = n")
    case False
    then have "fmlookup (served_contents ps) n = None" using served_contents_lookup [OF served(2), of n] by (metis option.exhaust)
    moreover have "n |\<notin>| fmdom new" using False in_new by blast
    moreover have "n |\<notin>| fmdom start \<or> n \<in> set deleted" using False gone by blast
    ultimately show ?thesis by (auto dest: fmdom_notD)
  next
    case True
    then obtain p where p: "p \<in> set ps" "cp_name p = n" by blast
    have only: "q = p" if "q \<in> set ps" "cp_name q = n" for q
      using that p served(2) by (auto simp: distinct_map inj_on_def)
    have target: "fmlookup (served_contents ps) n = Some (payload_contents p)"
      using p served_contents_lookup [OF served(2)] by blast
    show ?thesis
    proof (cases "client_has known p")
      case True
      with p(2) known obtain c where c: "fmlookup start n = Some c"
        by (auto simp: client_has_def describes_def split: option.splits)
      have "collection_contents c = payload_contents p"
        using unchanged_contents [of start p c ps known] c p intact served(1) faithful known True by auto
      moreover have "n |\<notin>| fmdom new" using in_new only True by blast
      moreover have "n \<notin> set deleted" using gone p by blast
      ultimately show ?thesis using c target by simp
    next
      case False
      have "fmlookup new n = Some (stored_payload (sdk_payload_of p))"
        unfolding new stored_payloads_lookup [OF changed_names] using p False by auto
      then show ?thesis using target stored_payload_contents p served(1) by (auto dest: fmdomI)
    qed
  qed
qed

section \<open>A refresh against the server\<close>

definition client_ready :: "sdk_client \<Rightarrow> bool" where
  "client_ready c \<longleftrightarrow>
     sdk_intact (cl_current c) \<and> trim_space (cl_environment c) = cl_environment c \<and>
     xn_environment (cl_current c) = cl_environment c \<and>
     list_all (\<lambda>n. trim_space n = n) (sorted_keys (xn_collections (cl_current c)))"

lemma known_versions_clean:
  assumes "client_ready c" shows "known_clean (known_versions (cl_current c))"
proof -
  let ?s = "cl_current c"
  have "map kv_collection (known_versions ?s) = sorted_keys (xn_collections ?s)"
    by (simp add: known_versions_def Let_def comp_def)
  moreover have "n \<noteq> []" if "n \<in> set (sorted_keys (xn_collections ?s))" for n
  proof -
    from that obtain d where "fmlookup (xn_collections ?s) n = Some d" by (auto simp: fmlookup_dom_iff)
    then have "\<not> blank n" using assms by (auto simp: client_ready_def sdk_intact_def collection_intact_def)
    then show ?thesis by (auto simp: blank_def)
  qed
  moreover have "trim_space n = n" if "n \<in> set (sorted_keys (xn_collections ?s))" for n
    using that assms by (auto simp: client_ready_def list_all_iff)
  ultimately show ?thesis
    unfolding known_clean_def by (auto simp: sorted_keys_sorted list_all_iff known_versions_def Let_def)
qed

lemma known_versions_describe: "describes (known_index (known_versions s)) (xn_collections s)"
  unfolding describes_def
proof
  fix n
  show "fmlookup (known_index (known_versions s)) n =
      map_option (\<lambda>c. \<lparr>kv_collection = n, kv_revision = xc_revision c, kv_digest = xc_digest c\<rparr>)
        (fmlookup (xn_collections s) n)"
    by (cases "fmlookup (xn_collections s) n")
      (auto simp: known_index_def known_versions_def Let_def comp_def fmlookup_of_list map_of_map_restrict
        restrict_map_def dest: fmdom_notD intro: fmdomI)
qed

lemma index_known_versions:
  assumes "client_ready c"
  shows "rfold index_known fmempty (known_versions (cl_current c)) = Inr (known_index (known_versions (cl_current c)))"
  using index_known_clean [OF known_versions_clean [OF assms], of fmempty] by auto

lemma known_versions_Nil: "known_versions s = [] \<longleftrightarrow> xn_collections s = fmempty"
proof -
  have "known_versions s = [] \<longleftrightarrow> set (sorted_keys (xn_collections s)) = {}"
    by (simp add: known_versions_def del: set_sorted_keys)
  also have "\<dots> \<longleftrightarrow> xn_collections s = fmempty" by (auto intro!: fmap_eqI fmdom_notD)
  finally show ?thesis .
qed

lemma sr_identity_without_known [simp]:
  "sr_identity (without_known k full) = sr_identity full" "sr_environment (without_known k full) = sr_environment full"
  "sr_collections (without_known k full) = filter (\<lambda>p. \<not> client_has k p) (sr_collections full)"
  "sr_deleted (without_known k full) = sorted_keys (fmdrop_set (set (map cp_name (sr_collections full))) k)"
  by (simp_all add: without_known_def)

lemma xs_response [simp]:
  "xs_identity (sdk_response_of r) = sdk_identity_of (sr_identity r)"
  "xs_environment (sdk_response_of r) = sr_environment r"
  "xs_collections (sdk_response_of r) = map sdk_payload_of (sr_collections r)"
  "xs_deleted (sdk_response_of r) = sr_deleted r"
  by (simp_all add: sdk_response_of_def)

text \<open>Whichever calls are made, the response is the full one without what the candidate starts from.\<close>

lemma fetch_from_server:
  assumes "client_ready c"
    and "get_snapshot sv (Some s) ((client_request c)\<lparr>sq_known := []\<rparr>) = Inr full"
  obtains known where
    "fetch_response (server_transport sv (\<lambda>_. Some s)) c = Inr (sdk_response_of (without_known known full))"
    "describes known (candidate_start (sdk_identity_of (sr_identity full)) (cl_current c))"
proof -
  let ?b = "cl_current c" and ?i = "sdk_identity_of (sr_identity full)"
  let ?known = "known_index (known_versions ?b)"
  have request: "sq_known (client_request c) = known_versions ?b" by (simp add: client_request_def)
  have empty: "without_known fmempty full = full"
  proof -
    have "sr_deleted full = []"
      using assms(2) get_snapshot_iff [of "(client_request c)\<lparr>sq_known := []\<rparr>" fmempty sv "Some s" full] respond_full
      by auto
    then show ?thesis by (simp add: without_known_def sorted_keys_def sorted_list_of_fset.rep_eq)
  qed
  have first: "server_transport sv (\<lambda>_. Some s) 0 (client_request c) = Inr (sdk_response_of (without_known ?known full))"
    using get_snapshot_incremental [of "client_request c" ?known sv "Some s" "without_known ?known full"] assms request
      index_known_versions [OF assms(1)]
    by (auto simp: server_transport_def)
  have second: "server_transport sv (\<lambda>_. Some s) 1 ((client_request c)\<lparr>sq_known := []\<rparr>) =
      Inr (sdk_response_of (without_known fmempty full))"
    using assms(2) empty by (simp add: server_transport_def)
  have describes_empty: "describes fmempty fmempty" by (simp add: describes_def)
  show ?thesis
  proof (cases "xi_generation (xn_identity ?b) \<noteq> 0 \<and> \<not> same_instance ?i (xn_identity ?b) \<and> known_versions ?b \<noteq> []")
    case True
    then show ?thesis using first second describes_empty request
      by (intro that [of fmempty]) (simp_all add: fetch_response_def candidate_start_def)
  next
    case False
    have fetched: "fetch_response (server_transport sv (\<lambda>_. Some s)) c = Inr (sdk_response_of (without_known ?known full))"
      using False first request by (auto simp: fetch_response_def)
    have "xn_collections ?b = fmempty" if "xi_generation (xn_identity ?b) = 0 \<or> \<not> same_instance ?i (xn_identity ?b)"
      using that False assms(1) known_versions_Nil [of ?b] by (auto simp: client_ready_def sdk_intact_def)
    then have "candidate_start ?i ?b = xn_collections ?b" by (simp add: candidate_start_def)
    then show ?thesis using fetched known_versions_describe by (intro that) simp_all
  qed
qed

definition identity_complete :: "snapshot_identity \<Rightarrow> bool" where
  "identity_complete i \<longleftrightarrow>
     \<not> blank (id_epoch i) \<and> \<not> blank (id_server i) \<and> \<not> blank (id_snapshot i) \<and> id_generation i \<noteq> 0"

lemma served_payloads_valid:
  assumes "snapshot_ok lib s" "served_payloads s q bucket authorized = Inr all"
  shows "(\<forall>p \<in> set all. payload_valid p) \<and> distinct (map cp_name all)"
proof
  let ?names = "filter (collection_visible s (authorized_set authorized)) (collection_names s)"
  have all: "rmap (payload_for s (trim_request q) bucket) ?names = Inr all"
    using assms(2) by (simp add: served_payloads_def)
  show "\<forall>p \<in> set all. payload_valid p"
  proof
    fix p assume "p \<in> set all"
    then obtain name where "name \<in> set ?names" "payload_for s (trim_request q) bucket name = Inr p"
      using rmap_in_set [OF all] by blast
    then show "payload_valid p"
      using payload_for_valid [OF assms(1)] by (auto simp: collection_names_def)
  qed
  show "distinct (map cp_name all)" using payload_names [OF all] by simp
qed

lemma full_response:
  assumes "snapshot_ok lib s" "get_snapshot sv (Some s) (q\<lparr>sq_known := []\<rparr>) = Inr full"
  shows "(\<forall>p \<in> set (sr_collections full). payload_valid p) \<and> distinct (map cp_name (sr_collections full)) \<and>
    sr_identity full = sn_identity s \<and> sr_environment full = trim_space (sq_environment q)"
proof -
  obtain bucket authorized all where *: "serving sv (Some s) (q\<lparr>sq_known := []\<rparr>) s bucket authorized"
    "served_payloads s q bucket authorized = Inr all" "full = respond s (q\<lparr>sq_known := []\<rparr>) bucket fmempty all"
    using assms(2) get_snapshot_iff [of "q\<lparr>sq_known := []\<rparr>" fmempty sv "Some s" full]
    by (auto simp: serving_def)
  with served_payloads_valid [OF assms(1) *(2)] show ?thesis by (simp add: respond_def serving_def)
qed

text \<open>
  A refresh against the server succeeds and leaves what the full response lists. The client
  stays ready for the next one.
\<close>

lemma refresh_mirrors:
  assumes ready: "client_ready c" and ok: "snapshot_ok lib s" and complete: "identity_complete (sn_identity s)"
    and full: "get_snapshot sv (Some s) ((client_request c)\<lparr>sq_known := []\<rparr>) = Inr full"
    and advances: "same_instance (sdk_identity_of (sn_identity s)) (xn_identity (cl_current c)) \<Longrightarrow>
      xi_generation (xn_identity (cl_current c)) \<le> id_generation (sn_identity s)"
    and faithful: "digests_faithful (xn_collections (cl_current c)) (sr_collections full)"
    and accepts: "\<And>ch. invoke_before_publish (cl_callback c) ch = Inr ()"
  shows "\<exists>c' ch. refresh_sdk (server_transport sv (\<lambda>_. Some s)) c = (c', Inr ch) \<and> client_ready c' \<and>
    xn_identity (cl_current c') = sdk_identity_of (sn_identity s) \<and>
    client_contents (cl_current c') = served_contents (sr_collections full)"
proof -
  let ?b = "cl_current c" and ?i = "sdk_identity_of (sn_identity s)" and ?ps = "sr_collections full"
  note f = full_response [OF ok full]
  have env: "sr_environment full = xn_environment ?b"
    using f ready by (simp add: client_ready_def client_request_def)
  from fetch_from_server [OF ready full] f obtain known where
    fetched: "fetch_response (server_transport sv (\<lambda>_. Some s)) c = Inr (sdk_response_of (without_known known full))" and
    known: "describes known (candidate_start ?i ?b)" by metis
  let ?start = "candidate_start ?i ?b" and ?r = "sdk_response_of (without_known known full)"
  let ?deleted = "sorted_keys (fmdrop_set (set (map cp_name ?ps)) known)"
  let ?sent = "map sdk_payload_of (filter (\<lambda>p. \<not> client_has known p) ?ps)"
  have intact: "collection_intact n d" if "fmlookup ?start n = Some d" for n d
    using that candidate_start_lookup ready by (metis client_ready_def sdk_intact_def)
  have dropped: "n |\<in>| fmdom ?start \<and> n \<notin> cp_name ` set ?ps" if "n \<in> set ?deleted" for n
  proof -
    from that have "n |\<in>| fmdom known" "n \<notin> cp_name ` set ?ps"
      by (auto simp: fmlookup_dom_iff split: if_splits)
    then show ?thesis using describes_dom [OF known] by blast
  qed
  have names: "set (map xp_name ?sent) \<subseteq> cp_name ` set ?ps" by auto
  define candidate where "candidate = \<lparr>xn_identity = ?i, xn_environment = xn_environment ?b,
    xn_collections = fmdrop_set (set ?deleted) ?start ++\<^sub>f stored_payloads ?sent\<rparr>"
  have built: "build_candidate ?r ?b = Inr candidate"
  proof -
    have "identity_accepted ?i ?b"
      using complete advances by (auto simp: identity_complete_def identity_accepted_def sdk_identity_of_def)
    moreover have "list_all (\<lambda>n. \<not> blank n) ?deleted"
      using dropped intact by (auto simp: list_all_iff fmlookup_dom_iff collection_intact_def simp del: set_sorted_keys)
    moreover have "distinct (map xp_name ?sent)" using f by (simp add: comp_def distinct_map_filter)
    moreover have "list_all payload_accepted ?sent" using f server_payload_accepted by (auto simp: list_all_iff)
    moreover have "set (map xp_name ?sent) \<inter> set ?deleted = {}" using names dropped by blast
    ultimately show ?thesis using f env by (simp add: build_candidate_iff candidate_def sorted_keys_sorted)
  qed
  have "digests_faithful ?start ?ps"
    using faithful candidate_start_lookup unfolding digests_faithful_def by blast
  then have contents: "client_contents candidate = served_contents ?ps"
    using incremental_contents [OF known, of ?ps ?deleted "stored_payloads ?sent"] intact f
    by (simp add: client_contents_def candidate_def del: fmmap_add)
  define ch where "ch = change_set_of ?b candidate"
  define c' where "c' = publish_updates ch candidate (c\<lparr>cl_current := candidate\<rparr>)"
  have refreshed: "refresh_sdk (server_transport sv (\<lambda>_. Some s)) c = (c', Inr ch)"
    unfolding refresh_sdk_Inr using fetched built accepts ch_def c'_def by blast
  have "trim_space n = n" if "n \<in> set (sorted_keys (xn_collections candidate))" for n
  proof -
    from that have "n |\<in>| fmdom (client_contents candidate)" by (simp add: client_contents_def)
    then obtain x where "fmlookup (served_contents ?ps) n = Some x" using contents by (metis fmlookup_dom_iff)
    then have "\<exists>p \<in> set ?ps. cp_name p = n" using f served_contents_lookup by blast
    then show ?thesis using f identifier_trimmed by (auto simp: payload_valid_def)
  qed
  then have "client_ready c'"
    using ready build_candidate_intact [OF _ built]
    by (simp add: client_ready_def c'_def publish_updates_def list_all_iff candidate_def)
  then show ?thesis using refreshed contents by (intro exI) (auto simp: c'_def candidate_def)
qed

end
