(* ===== verification/Sdk_Queries.thy ===== *)
theory Sdk_Queries
  imports Sdk_Client
begin

text \<open>
  Reading a client: the queries of \<open>sdk/finconfig/query.go\<close> and \<open>GetByKey\<close>, and the subscriptions
  of \<open>subscription.go\<close>. \<open>Decode\<close>, which works by reflection on the caller's type, is not modelled.
\<close>

datatype query_error =
    QueryNotStarted
  | QueryNotFound
  | QueryInvalid
  | QueryTooLarge
  | QueryClosed

record sdk_query =
  qy_collection :: string
  qy_key :: string
  qy_limit :: int

record readonly_row =
  rw_key :: string
  rw_values :: "data option"

definition max_local_query_rows :: nat where
  "max_local_query_rows = 10000"

definition query_snapshot :: "sdk_client \<Rightarrow> query_error + sdk_snapshot" where
  "query_snapshot c =
     (if cl_lifecycle c = LifeClosed then Inl QueryClosed
      else if xi_generation (xn_identity (cl_current c)) = 0 then Inl QueryNotStarted
      else Inr (cl_current c))"

definition readonly :: "sdk_record \<Rightarrow> readonly_row" where
  "readonly r = \<lparr>rw_key = xr_key r, rw_values = xr_values r\<rparr>"

definition row_get :: "readonly_row \<Rightarrow> string \<Rightarrow> string option" where
  "row_get row name = fmlookup (deref_map (rw_values row)) name"

definition query_one :: "sdk_client \<Rightarrow> sdk_query \<Rightarrow> query_error + readonly_row option" where
  "query_one c q =
     (if blank (qy_collection q) \<or> blank (qy_key q) \<or> qy_limit q < 0 then Inl QueryInvalid
      else rbind (query_snapshot c) (\<lambda>s.
        case fmlookup (xn_collections s) (qy_collection q) of
          None \<Rightarrow> Inl QueryNotFound
        | Some v \<Rightarrow> Inr (map_option readonly (fmlookup (xc_records v) (qy_key q)))))"

definition query_many :: "sdk_client \<Rightarrow> sdk_query \<Rightarrow> query_error + readonly_row list" where
  "query_many c q = rbind (query_one c q) (\<lambda>row. Inr (case row of None \<Rightarrow> [] | Some r \<Rightarrow> [r]))"

definition query_all :: "sdk_client \<Rightarrow> string \<Rightarrow> query_error + readonly_row list" where
  "query_all c collection =
     (if blank collection then Inl QueryInvalid
      else rbind (query_snapshot c) (\<lambda>s.
        case fmlookup (xn_collections s) collection of
          None \<Rightarrow> Inl QueryNotFound
        | Some v \<Rightarrow>
            if map_len (xc_records v) > max_local_query_rows then Inl QueryTooLarge
            else Inr (map readonly (sorted_values (xc_records v)))))"

definition version_of :: "sdk_client \<Rightarrow> string \<Rightarrow> query_error + version_view option" where
  "version_of c collection =
     (if blank collection then Inl QueryInvalid
      else rbind (query_snapshot c) (\<lambda>s.
        Inr (map_option (\<lambda>v. \<lparr>vv_collection = collection, vv_revision = xc_revision v, vv_digest = xc_digest v,
                             vv_identity = xn_identity s\<rparr>)
               (fmlookup (xn_collections s) collection))))"

definition get_by_key :: "sdk_client \<Rightarrow> string \<Rightarrow> string \<Rightarrow> sdk_record option" where
  "get_by_key c collection key =
     (case fmlookup (xn_collections (cl_current c)) collection of
        None \<Rightarrow> None
      | Some v \<Rightarrow> map_option clone_sdk_record (fmlookup (xc_records v) key))"

section \<open>Subscriptions\<close>

datatype subscribe_error = SubscribeInvalid | SubscribeClosed | SubscribeNotStarted | SubscribeNotFound

definition put_handler :: "u64 \<Rightarrow> update_handler \<Rightarrow> (u64 \<times> update_handler) list \<Rightarrow> (u64 \<times> update_handler) list" where
  "put_handler key handler hs = filter (\<lambda>h. fst h \<noteq> key) hs @ [(key, handler)]"

text \<open>The result is the identifier the returned cancel function closes over.\<close>

definition subscribe ::
  "string \<Rightarrow> update_handler option \<Rightarrow> sdk_client \<Rightarrow> sdk_client \<times> (subscribe_error + u64)" where
  "subscribe raw handler c =
     (let collection = trim_space raw
      in case handler of
           None \<Rightarrow> (c, Inl SubscribeInvalid)
         | Some h \<Rightarrow>
             if collection = [] then (c, Inl SubscribeInvalid)
             else if cl_lifecycle c = LifeClosed \<or> cl_lifecycle c = LifeClosing then (c, Inl SubscribeClosed)
             else if cl_lifecycle c \<noteq> LifeRunning then (c, Inl SubscribeNotStarted)
             else if collection |\<notin>| fmdom (xn_collections (cl_current c)) then (c, Inl SubscribeNotFound)
             else let key = cl_next c + 1
                  in (c\<lparr>cl_next := key,
                        cl_subscriptions :=
                          fmupd collection (put_handler key h (read_list (cl_subscriptions c) collection))
                            (cl_subscriptions c)\<rparr>, Inr key))"

text \<open>The cancel function; the \<open>sync.Once\<close> makes its second call do nothing, as deleting twice does.\<close>

definition cancel_subscription :: "string \<Rightarrow> u64 \<Rightarrow> sdk_client \<Rightarrow> sdk_client" where
  "cancel_subscription collection key c =
     (let rest = filter (\<lambda>h. fst h \<noteq> key) (read_list (cl_subscriptions c) collection)
      in c\<lparr>cl_subscriptions :=
            (if rest = [] then fmdrop collection (cl_subscriptions c)
             else fmupd collection rest (cl_subscriptions c))\<rparr>)"

text \<open>A worker takes one delivery; a handler's panic is swallowed.\<close>

definition deliver_update :: "sdk_client \<Rightarrow> (sdk_client \<times> update_handler \<times> update_event) option" where
  "deliver_update c =
     (case cl_updates c of [] \<Rightarrow> None
      | (handler, event) # rest \<Rightarrow> Some (c\<lparr>cl_updates := rest\<rparr>, handler, event))"

section \<open>What subscribers are sent\<close>

lemma offer_updates_take:
  "length queue \<le> capacity \<Longrightarrow> foldl (offer_update capacity) queue ds = take capacity (queue @ ds)"
proof (induction ds arbitrary: queue)
  case (Cons d ds)
  show ?case
  proof (cases "length queue < capacity")
    case True
    then have "foldl (offer_update capacity) (queue @ [d]) ds = take capacity ((queue @ [d]) @ ds)"
      by (intro Cons.IH) simp
    moreover have "offer_update capacity queue d = queue @ [d]" using True by (simp add: offer_update_def)
    ultimately show ?thesis by simp
  next
    case False
    then have "offer_update capacity queue d = queue" by (simp add: offer_update_def)
    with False Cons show ?thesis by simp
  qed
qed simp

definition deliveries ::
  "(string, (u64 \<times> update_handler) list) fmap \<Rightarrow> change_set \<Rightarrow> sdk_snapshot \<Rightarrow> (update_handler \<times> update_event) list" where
  "deliveries subs changes s =
     concat (map (\<lambda>name. map (\<lambda>(_, handler). (handler, update_event_of s name)) (read_list subs name))
               (ch_collections changes))"

lemma publish_updates_take:
  assumes "length (cl_updates c) \<le> cl_capacity c"
  shows "cl_updates (publish_updates changes s c) =
    take (cl_capacity c) (cl_updates c @ deliveries (cl_subscriptions c) changes s)"
proof -
  let ?f = "\<lambda>name. map (\<lambda>(_, handler). (handler, update_event_of s name)) (read_list (cl_subscriptions c) name)"
  have "foldl (\<lambda>queue name. foldl (offer_update (cl_capacity c)) queue (?f name)) queue names =
      foldl (offer_update (cl_capacity c)) queue (concat (map ?f names))" for queue names
    by (induction names arbitrary: queue) simp_all
  then show ?thesis
    using offer_updates_take [OF assms] by (simp add: publish_updates_def deliveries_def)
qed

end
