(* ===== verification/Sdk_Lifecycle.thy ===== *)
theory Sdk_Lifecycle
  imports Sdk_Client
begin

text \<open>
  The life of a client: \<open>Start\<close>, \<open>Close\<close>, \<open>run\<close> and \<open>finishClosed\<close> of \<open>sdk/finconfig/client.go\<close> as
  interleaved steps. A step is what happens under one hold of \<open>lifecycleMu\<close>. The counters say how
  many \<open>Start\<close> calls are in their refresh or about to call \<open>finishClosed\<close>, how many \<open>run\<close>
  goroutines live, and how often the channel \<open>closed\<close> was closed; Go panics when that is twice.
\<close>

record life =
  lf_state :: lifecycle
  lf_closed :: nat
  lf_refreshing :: nat
  lf_finishing :: nat
  lf_runs :: nat
  lf_cancelled :: bool

definition life_new :: life where
  "life_new = \<lparr>lf_state = LifeNew, lf_closed = 0, lf_refreshing = 0, lf_finishing = 0, lf_runs = 0, lf_cancelled = False\<rparr>"

definition finish_closed :: "life \<Rightarrow> life" where
  "finish_closed l =
     (if lf_state l \<noteq> LifeClosed then l\<lparr>lf_state := LifeClosed, lf_closed := lf_closed l + 1\<rparr> else l)"

section \<open>The operations\<close>

datatype start_result = StartProceeds | StartClosed | StartAlready

definition start_begin :: "life \<Rightarrow> life \<times> start_result" where
  "start_begin l =
     (case lf_state l of
        LifeClosed \<Rightarrow> (l, StartClosed)
      | LifeClosing \<Rightarrow> (l, StartClosed)
      | LifeStarting \<Rightarrow> (l, StartAlready)
      | LifeRunning \<Rightarrow> (l, StartAlready)
      | LifeNew \<Rightarrow> (l\<lparr>lf_state := LifeStarting, lf_refreshing := lf_refreshing l + 1\<rparr>, StartProceeds))"

text \<open>The part of \<open>Start\<close> after its refresh, with the refresh's outcome.\<close>

definition start_refreshed :: "bool \<Rightarrow> life \<Rightarrow> life" where
  "start_refreshed refreshed l =
     (if lf_state l = LifeClosing
      then l\<lparr>lf_refreshing := lf_refreshing l - 1, lf_finishing := lf_finishing l + 1\<rparr>
      else if refreshed
      then l\<lparr>lf_state := LifeRunning, lf_refreshing := lf_refreshing l - 1, lf_runs := lf_runs l + 1,
            lf_cancelled := False\<rparr>
      else l\<lparr>lf_state := LifeNew, lf_refreshing := lf_refreshing l - 1\<rparr>)"

definition start_finish :: "life \<Rightarrow> life" where
  "start_finish l = finish_closed (l\<lparr>lf_finishing := lf_finishing l - 1\<rparr>)"

text \<open>\<open>Close\<close> up to its wait for the channel.\<close>

definition close_begin :: "life \<Rightarrow> life" where
  "close_begin l =
     (case lf_state l of
        LifeClosed \<Rightarrow> l
      | LifeNew \<Rightarrow> l\<lparr>lf_state := LifeClosed, lf_closed := lf_closed l + 1\<rparr>
      | LifeStarting \<Rightarrow> l\<lparr>lf_state := LifeClosing\<rparr>
      | LifeRunning \<Rightarrow> l\<lparr>lf_state := LifeClosing, lf_cancelled := True\<rparr>
      | LifeClosing \<Rightarrow> l)"

text \<open>The loops of \<open>run\<close> return once their context is done; then it calls \<open>finishClosed\<close>.\<close>

definition run_end :: "life \<Rightarrow> life" where
  "run_end l = finish_closed (l\<lparr>lf_runs := lf_runs l - 1\<rparr>)"

section \<open>Steps\<close>

text \<open>The steps the goroutines of the client take on their own.\<close>

inductive life_internal :: "life \<Rightarrow> life \<Rightarrow> bool" where
  refreshed: "0 < lf_refreshing l \<Longrightarrow> life_internal l (start_refreshed ok l)"
| finished: "0 < lf_finishing l \<Longrightarrow> life_internal l (start_finish l)"
| run_ended: "0 < lf_runs l \<Longrightarrow> lf_cancelled l \<Longrightarrow> life_internal l (run_end l)"

text \<open>With the calls of the embedding program and the end of the context given to \<open>Start\<close>.\<close>

inductive life_step :: "life \<Rightarrow> life \<Rightarrow> bool" where
  internal: "life_internal l m \<Longrightarrow> life_step l m"
| start: "life_step l (fst (start_begin l))"
| close: "life_step l (close_begin l)"
| parent_done: "life_step l (l\<lparr>lf_cancelled := True\<rparr>)"

inductive_cases life_internalE: "life_internal l m"
inductive_cases life_stepE: "life_step l m"

inductive life_reachable :: "life \<Rightarrow> bool" where
  new: "life_reachable life_new"
| step: "life_reachable l \<Longrightarrow> life_step l m \<Longrightarrow> life_reachable m"

section \<open>The invariant\<close>

text \<open>Who is in flight in each state. Exactly one goroutine is responsible for a closing client.\<close>

definition in_flight :: "life \<Rightarrow> nat \<times> nat \<times> nat" where
  "in_flight l = (lf_refreshing l, lf_finishing l, lf_runs l)"

definition life_ok :: "life \<Rightarrow> bool" where
  "life_ok l \<longleftrightarrow>
     lf_closed l = (if lf_state l = LifeClosed then 1 else 0) \<and>
     (case lf_state l of
        LifeNew \<Rightarrow> in_flight l = (0, 0, 0)
      | LifeStarting \<Rightarrow> in_flight l = (1, 0, 0)
      | LifeRunning \<Rightarrow> in_flight l = (0, 0, 1)
      | LifeClosing \<Rightarrow> in_flight l = (1, 0, 0) \<or> in_flight l = (0, 1, 0) \<or> in_flight l = (0, 0, 1) \<and> lf_cancelled l
      | LifeClosed \<Rightarrow> in_flight l = (0, 0, 0))"

lemmas life_operations =
  start_begin_def start_refreshed_def start_finish_def close_begin_def run_end_def finish_closed_def in_flight_def

lemma life_internal_ok: "life_internal l m \<Longrightarrow> life_ok l \<Longrightarrow> life_ok m"
  by (erule life_internalE; cases "lf_state l") (auto simp: life_ok_def life_operations)

lemma life_step_ok: "life_step l m \<Longrightarrow> life_ok l \<Longrightarrow> life_ok m"
  by (erule life_stepE; cases "lf_state l") (auto simp: life_internal_ok, auto simp: life_ok_def life_operations)

lemma life_reachable_ok: "life_reachable l \<Longrightarrow> life_ok l"
proof (induction rule: life_reachable.induct)
  case new
  show ?case by (simp add: life_ok_def life_new_def in_flight_def)
qed (rule life_step_ok)

section \<open>Closing ends\<close>

lemma closing_progress:
  assumes "life_ok l" "lf_state l = LifeClosing"
  shows "\<exists>m. life_internal l m"
proof -
  have "0 < lf_refreshing l \<or> 0 < lf_finishing l \<or> 0 < lf_runs l \<and> lf_cancelled l"
    using assms by (auto simp: life_ok_def in_flight_def)
  then show ?thesis using life_internal.intros by blast
qed

text \<open>How many steps a closing client is away from closed.\<close>

definition closing_distance :: "life \<Rightarrow> nat" where
  "closing_distance l = 2 * lf_refreshing l + lf_finishing l + lf_runs l"

lemma closing_step:
  assumes "life_ok l" "lf_state l = LifeClosing" "life_internal l m"
  shows "closing_distance m < closing_distance l \<and> (lf_state m = LifeClosing \<or> lf_state m = LifeClosed)"
  using assms(3,1,2)
  by (elim life_internalE) (auto simp: life_ok_def life_operations closing_distance_def)

lemma closed_final:
  assumes "life_ok l" "lf_state l = LifeClosed" shows "\<not> life_internal l m"
  using assms by (auto simp: life_ok_def in_flight_def elim!: life_internalE)

lemma closing_ends:
  assumes "life_ok l" "lf_state l = LifeClosing"
  shows "\<exists>m. life_internal\<^sup>*\<^sup>* l m \<and> lf_state m = LifeClosed"
  using assms
proof (induction "closing_distance l" arbitrary: l rule: less_induct)
  case less
  then obtain m where m: "life_internal l m" using closing_progress by blast
  note s = closing_step [OF less.prems m] life_internal_ok [OF m less.prems(1)]
  show ?case
  proof (cases "lf_state m = LifeClosed")
    case True
    with m show ?thesis by blast
  next
    case False
    with s have "\<exists>k. life_internal\<^sup>*\<^sup>* m k \<and> lf_state k = LifeClosed" by (intro less.hyps) auto
    with m show ?thesis by (meson converse_rtranclp_into_rtranclp)
  qed
qed

lemma closing_run_bounded:
  assumes "(life_internal ^^ n) l m" "life_ok l" "lf_state l = LifeClosing"
  shows "n \<le> 2 \<and> life_ok m \<and> (lf_state m = LifeClosing \<and> 0 < closing_distance m \<or> lf_state m = LifeClosed)"
proof -
  have "closing_distance l \<le> 2" using assms(2,3) by (auto simp: life_ok_def in_flight_def closing_distance_def)
  moreover have "n + closing_distance m \<le> closing_distance l \<and> life_ok m \<and>
      (lf_state m = LifeClosing \<and> 0 < closing_distance m \<or> lf_state m = LifeClosed)"
    using assms(1)
  proof (induction n arbitrary: m)
    case 0
    then show ?case using assms(2,3) by (auto simp: life_ok_def in_flight_def closing_distance_def)
  next
    case (Suc n)
    then obtain k where k: "(life_internal ^^ n) l k" "life_internal k m" by auto
    note IH = Suc.IH [OF k(1)]
    have "lf_state k = LifeClosing" using IH closed_final k(2) by blast
    then show ?case using closing_step [of k m] life_internal_ok [OF k(2)] IH k(2)
      by (auto simp: life_ok_def in_flight_def closing_distance_def)
  qed
  ultimately show ?thesis by auto
qed

end
