(* ===== verification/Sdk_Properties.thy ===== *)
theory Sdk_Properties
  imports Sdk_Mirror Sdk_Queries Sdk_Lifecycle Server_Samples
begin

text \<open>What an application that embeds the client can rely on.\<close>

section \<open>Lemmas and samples\<close>

definition sample_config :: sdk_config where
  "sample_config =
     \<lparr>xo_consumer = ''loans'', xo_client = ''c1'', xo_region = ''eu'', xo_environment = '' prod'', xo_stage = [],
      xo_transport = True, xo_watchable = False, xo_poll = 0, xo_watch = False, xo_backoff = 0, xo_workers = 0,
      xo_queue = 1\<rparr>"

definition sample_client :: sdk_client where
  "sample_client =
     \<lparr>cl_consumer = ''loans'', cl_client = ''c1'', cl_region = ''eu'', cl_environment = ''prod'', cl_stage = [],
      cl_bucket = sample_bucket, cl_poll = 30000000000, cl_watch = False, cl_backoff = 100000000, cl_callback = None,
      cl_current = \<lparr>xn_identity = no_identity, xn_environment = ''prod'', xn_collections = fmempty\<rparr>,
      cl_lifecycle = LifeNew, cl_subscriptions = fmempty, cl_next = 0, cl_updates = [], cl_capacity = 1,
      cl_workers = 4\<rparr>"

lemma sdk_client_bucket_eq:
  "sdk_client_bucket consumer client =
     rerror STR ''invalid percentage rollout: canonical consumer and client identifiers are required''
       (client_bucket consumer client)"
  by (auto simp: sdk_client_bucket_def client_bucket_def canonical_client_id_def bucket_payload_def)

lemma sample_client_new: "new_client sample_config = Inr sample_client"
  by (simp add: new_client_def sample_config_def sample_client_def sdk_client_bucket_eq Let_def)

lemma new_client_intact: "new_client config = Inr c \<Longrightarrow> sdk_intact (cl_current c)"
  by (auto simp: new_client_def rbind_Inr_iff Let_def sdk_intact_def no_identity_def split: if_splits)

lemma sample_client_ready: "client_ready sample_client"
  by (simp add: client_ready_def sample_client_def sdk_intact_def no_identity_def sorted_keys_def
      sorted_list_of_fset.rep_eq)

lemma served_identity: "identity_complete (sn_identity served_snapshot)"
proof -
  have "\<not> blank ''e1''" "\<not> blank ''s1''" "\<not> blank ''n1''" by code_simp+
  then show ?thesis
    by (simp add: identity_complete_def served_snapshot_def make_identity_def served_seed_def empty_snapshot_def)
qed

lemma refresh_candidate_advances:
  assumes "refresh_sdk transport c = (c', r)"
  shows "\<not> same_instance (xn_identity (cl_current c')) (xn_identity (cl_current c)) \<or>
    xi_generation (xn_identity (cl_current c)) \<le> xi_generation (xn_identity (cl_current c'))"
proof (cases r)
  case (Inl e)
  with assms refresh_sdk_Inl have "c' = c" by blast
  then show ?thesis by simp
next
  case (Inr ch)
  with assms show ?thesis by (auto simp: refresh_sdk_Inr build_candidate_iff identity_accepted_def)
qed

definition collection_version :: "sdk_snapshot \<Rightarrow> string \<Rightarrow> (u64 \<times> string) option" where
  "collection_version s name = map_option (\<lambda>c. (xc_revision c, xc_digest c)) (fmlookup (xn_collections s) name)"

lemma changed_collections_iff:
  "name \<in> set (changed_collections before after) \<longleftrightarrow> collection_version before name \<noteq> collection_version after name"
  by (auto simp: changed_collections_def collection_differs_def collection_version_def fmlookup_dom_iff
      split: option.splits)

section \<open>Refreshing\<close>

text \<open>
  C7: A refresh against the config server succeeds and leaves the client with exactly the
  collections, versions and records of a full response, although the server answers
  incrementally to the versions the client reports, and whether or not the server's instance
  changed. It assumes valid UTF-8, no SHA-256 collision between what the client stores and what
  the server serves under the same name, and a callback that accepts. The client is then ready
  for the next refresh.
\<close>

theorem refresh_mirrors_server:
  assumes "client_ready c" "snapshot_ok lib s" "identity_complete (sn_identity s)"
    and "get_snapshot sv (Some s) ((client_request c)\<lparr>sq_known := []\<rparr>) = Inr full"
    and "\<not> same_instance (sdk_identity_of (sn_identity s)) (xn_identity (cl_current c)) \<or>
      xi_generation (xn_identity (cl_current c)) \<le> id_generation (sn_identity s)"
    and "digests_faithful (xn_collections (cl_current c)) (sr_collections full)"
    and "\<forall>ch. invoke_before_publish (cl_callback c) ch = Inr ()"
  shows "\<exists>c' ch. refresh_sdk (server_transport sv (\<lambda>_. Some s)) c = (c', Inr ch) \<and> client_ready c' \<and>
    xn_identity (cl_current c') = sdk_identity_of (sn_identity s) \<and>
    client_contents (cl_current c') = served_contents (sr_collections full)"
  using refresh_mirrors [OF assms(1-4)] assms(5-7) by blast

lemma sample_client_request: "(client_request sample_client)\<lparr>sq_known := []\<rparr> = sample_request"
  by (simp add: client_request_def sample_client_def sample_request_def)

theorem refresh_mirrors_server_witness:
  "\<exists>c' ch. refresh_sdk (server_transport sample_service (\<lambda>_. Some served_snapshot)) sample_client = (c', Inr ch) \<and>
     client_contents (cl_current c') = fmupd ''limits'' (4, cp_digest limits_payload, fmempty) fmempty"
proof -
  have "served_contents [limits_payload] = fmupd ''limits'' (4, cp_digest limits_payload, fmempty) fmempty"
    by (simp add: served_contents_def payload_contents_def limits_payload_def)
  moreover have "digests_faithful (xn_collections (cl_current sample_client)) (sr_collections full_response_sample)"
    by (simp add: digests_faithful_def sample_client_def)
  moreover have "\<forall>ch. invoke_before_publish (cl_callback sample_client) ch = Inr ()"
    by (simp add: invoke_before_publish_def sample_client_def)
  moreover have "xi_generation (xn_identity (cl_current sample_client)) \<le> id_generation (sn_identity served_snapshot)"
    by (simp add: sample_client_def no_identity_def)
  ultimately show ?thesis
    using refresh_mirrors_server [OF sample_client_ready served_ok served_identity,
        of sample_service full_response_sample] full_served sample_client_request
    by (auto simp: full_response_sample_def)
qed

text \<open>
  C8: Whatever a transport answers, in any sequence of refreshes, the client never holds a
  collection whose records do not hash to the digest stored with it, whose digest is malformed,
  or with a record without key or newer than the collection; and no refresh takes it back to an
  earlier generation of the same server instance.
\<close>

theorem client_never_holds_corrupt_data:
  assumes "new_client config = Inr c" "d = foldl (\<lambda>c transport. fst (refresh_sdk transport c)) c transports"
    and "refresh_sdk transport d = (e, r)"
  shows "sdk_intact (cl_current e) \<and>
    (\<not> same_instance (xn_identity (cl_current e)) (xn_identity (cl_current d)) \<or>
     xi_generation (xn_identity (cl_current d)) \<le> xi_generation (xn_identity (cl_current e)))"
proof
  have "sdk_intact (cl_current d)"
    using sdk_cell.run_sound [OF new_client_intact [OF assms(1)], of transports] assms(2)
    by (simp add: sdk_cell.run_def list_all_iff)
  from sdk_cell.attempt_sound [OF this, of transport] assms(3) show "sdk_intact (cl_current e)" by simp
qed (rule refresh_candidate_advances [OF assms(3)])

theorem client_never_holds_corrupt_data_witness:
  "sdk_intact (cl_current (fst (refresh_sdk (\<lambda>_ _. Inl STR ''unreachable'') sample_client)))"
  using client_never_holds_corrupt_data [OF sample_client_new, of sample_client "[]" "\<lambda>_ _. Inl STR ''unreachable''"]
  by (cases "refresh_sdk (\<lambda>_ _. Inl STR ''unreachable'') sample_client") simp

section \<open>Reading\<close>

text \<open>
  When a refresh succeeds, the collections reported to the callback are exactly those whose
  revision or digest changed, appeared or disappeared, and the queue receives one event per
  subscription of such a collection, in order, until it is full.
\<close>

lemma subscribers_hear_of_every_change:
  assumes "refresh_sdk transport c = (c', Inr ch)" "length (cl_updates c) \<le> cl_capacity c"
  shows "set (ch_collections ch) = {n. collection_version (cl_current c) n \<noteq> collection_version (cl_current c') n} \<and>
    cl_updates c' = take (cl_capacity c) (cl_updates c @ deliveries (cl_subscriptions c) ch (cl_current c'))"
proof -
  from assms(1) obtain response candidate where *: "build_candidate response (cl_current c) = Inr candidate"
    "ch = change_set_of (cl_current c) candidate" "c' = publish_updates ch candidate (c\<lparr>cl_current := candidate\<rparr>)"
    by (auto simp: refresh_sdk_Inr)
  have "cl_updates c' = take (cl_capacity c) (cl_updates c @ deliveries (cl_subscriptions c) ch candidate)"
    using publish_updates_take [of "c\<lparr>cl_current := candidate\<rparr>" ch candidate] assms(2) *(3) by simp
  with * show ?thesis by (auto simp: change_set_of_def changed_collections_iff)
qed

definition subscribed_client :: sdk_client where
  "subscribed_client = sample_client\<lparr>cl_subscriptions := fmupd ''limits'' [(1, 7), (2, 8)] fmempty\<rparr>"

text \<open>
  Queries read what was served: with the contents of a response in the client, looking up a
  record of one of its collections finds the data the server sent under that key, and nothing
  for any other key.
\<close>

lemma queries_read_served_records:
  assumes "client_contents (cl_current c) = served_contents ps" "distinct (map cp_name ps)" "p \<in> set ps"
    and "query_one c \<lparr>qy_collection = cp_name p, qy_key = key, qy_limit = limit\<rparr> = Inr row"
  shows "map_option (\<lambda>r. deref_map (rw_values r)) row = map_of (map (\<lambda>r. (pr_key r, pr_data r)) (cp_records p)) key"
proof -
  have "fmlookup (client_contents (cl_current c)) (cp_name p) = Some (payload_contents p)"
    unfolding assms(1) using served_contents_lookup [OF assms(2)] assms(3) by blast
  then obtain d where d: "fmlookup (xn_collections (cl_current c)) (cp_name p) = Some d"
    "collection_contents d = payload_contents p" by (auto simp: client_contents_def)
  then have records: "fmmap (\<lambda>r. deref_map (xr_values r)) (xc_records d) =
      fmap_of_list (map (\<lambda>r. (pr_key r, pr_data r)) (cp_records p))"
    by (simp add: collection_contents_def payload_contents_def)
  have "row = map_option readonly (fmlookup (xc_records d) key)"
    using assms(4) d(1) by (auto simp: query_one_def query_snapshot_def split: if_splits)
  then have "map_option (\<lambda>r. deref_map (rw_values r)) row =
      fmlookup (fmmap (\<lambda>r. deref_map (xr_values r)) (xc_records d)) key"
    by (simp add: readonly_def option.map_comp comp_def)
  then show ?thesis unfolding records by (simp add: fmlookup_of_list)
qed

section \<open>The client's life\<close>

text \<open>
  However calls of \<open>Start\<close> and \<open>Close\<close> interleave with each other and with the client's own
  goroutines, the channel that signals the end is closed at most once, exactly when the client is
  closed, and at most one goroutine is ever responsible for the client.
\<close>

lemma client_closes_once:
  assumes "life_reachable l"
  shows "lf_closed l = (if lf_state l = LifeClosed then 1 else 0) \<and>
    lf_refreshing l + lf_finishing l + lf_runs l \<le> 1"
  using life_reachable_ok [OF assms] by (cases "lf_state l") (auto simp: life_ok_def in_flight_def)

definition closing_life :: life where
  "closing_life = close_begin (fst (start_begin life_new))"

lemma closing_life_reachable: "life_reachable closing_life"
  unfolding closing_life_def
  by (rule life_reachable.step [OF life_reachable.step [OF life_reachable.new life_step.start] life_step.close])

text \<open>
  A closing client always gets closed: its own goroutines take at most two more steps before
  the channel is closed, and as long as it is not, one of them can go on. So \<open>Close\<close> never waits
  for something that cannot happen.
\<close>

lemma closing_client_gets_closed:
  assumes "life_reachable l" "lf_state l = LifeClosing" "(life_internal ^^ n) l m"
  shows "n \<le> 2 \<and> (lf_state m = LifeClosed \<and> lf_closed m = 1 \<or> lf_state m = LifeClosing \<and> (\<exists>k. life_internal m k))"
  using closing_run_bounded [OF assms(3) life_reachable_ok [OF assms(1)] assms(2)] closing_progress [of m]
  by (auto simp: life_ok_def)

end
