(* ===== verification/Change_Signals.thy ===== *)
theory Change_Signals
  imports Refresh_Coordinator "HOL-Library.Signed_Division"
begin

text \<open>
  Where refresh targets come from: the hint receiver of
  \<open>internal/distribution/snapshot/hint.go\<close>, which drops repeated events, and the version poller
  of \<open>poller.go\<close>, which compares the authority's versions with the snapshot. Both hand their
  targets to the coordinator.
\<close>

section \<open>Hints\<close>

record refresh_hint =
  hi_event :: string
  hi_environment :: string
  hi_targets :: "refresh_target list"

record hint_receiver =
  hr_environment :: string
  hr_cache :: nat
  hr_ttl :: int
  hr_seen :: "(string, gotime) fmap"

datatype hint_error = HintInvalid | HintEnvironmentMismatch | HintQueueFull | HintNotSubmitted

definition new_hint_receiver :: "string \<Rightarrow> int \<Rightarrow> int \<Rightarrow> hint_receiver option" where
  "new_hint_receiver environment cache ttl =
     (if trim_space environment = [] \<or> cache \<le> 0 \<or> ttl \<le> 0 then None
      else Some \<lparr>hr_environment = trim_space environment, hr_cache = nat cache, hr_ttl = ttl, hr_seen = fmempty\<rparr>)"

definition prune_seen :: "gotime \<Rightarrow> hint_receiver \<Rightarrow> hint_receiver" where
  "prune_seen now r = r\<lparr>hr_seen := fmfilter (\<lambda>event. now < the (fmlookup (hr_seen r) event)) (hr_seen r)\<rparr>"

text \<open>
  The scan for the event that expires first. Go leaves the order of the scan, and so the choice
  between equal times, open; here it goes by event name.
\<close>

fun oldest_seen :: "(string, gotime) fmap \<Rightarrow> string \<Rightarrow> string list \<Rightarrow> string" where
  "oldest_seen seen oldest [] = oldest"
| "oldest_seen seen oldest (event # events) =
     (if oldest = [] \<or> the (fmlookup seen event) < the (fmlookup seen oldest)
      then oldest_seen seen event events else oldest_seen seen oldest events)"

definition remember_event :: "string \<Rightarrow> gotime \<Rightarrow> hint_receiver \<Rightarrow> hint_receiver" where
  "remember_event event now r =
     (let kept = (if hr_cache r \<le> map_len (hr_seen r)
                  then fmdrop (oldest_seen (hr_seen r) [] (sorted_keys (hr_seen r))) (hr_seen r) else hr_seen r)
      in r\<lparr>hr_seen := fmupd event (now + hr_ttl r) kept\<rparr>)"

definition valid_hint_target :: "refresh_target \<Rightarrow> bool" where
  "valid_hint_target t \<longleftrightarrow> trim_space (rt_collection t) \<noteq> [] \<and> rt_min t \<noteq> 0"

text \<open>\<open>Notify\<close>, over a submitter with a state of its own.\<close>

definition notify ::
  "(refresh_target list \<Rightarrow> 's \<Rightarrow> 's \<times> (submit_error + unit)) \<Rightarrow> gotime \<Rightarrow> refresh_hint
     \<Rightarrow> hint_receiver \<times> 's \<Rightarrow> (hint_receiver \<times> 's) \<times> (hint_error + unit)" where
  "notify submitter now hint st =
     (case st of (r, s) \<Rightarrow>
        (let event = trim_space (hi_event hint); environment = trim_space (hi_environment hint)
         in if event = [] \<or> environment = [] \<or> hi_targets hint = [] then (st, Inl HintInvalid)
            else if environment \<noteq> hr_environment r then (st, Inl HintEnvironmentMismatch)
            else if \<not> list_all valid_hint_target (hi_targets hint) then (st, Inl HintInvalid)
            else let pruned = prune_seen now r
                 in if (case fmlookup (hr_seen pruned) event of None \<Rightarrow> False | Some expires \<Rightarrow> now < expires)
                    then ((pruned, s), Inr ())
                    else case submitter (map trimmed_target (hi_targets hint)) s of
                           (s', Inl RefreshQueueFull) \<Rightarrow> ((pruned, s'), Inl HintQueueFull)
                         | (s', Inl SubmitInvalid) \<Rightarrow> ((pruned, s'), Inl HintNotSubmitted)
                         | (s', Inr _) \<Rightarrow> ((remember_event event now pruned, s'), Inr ())))"

lemma prune_seen_len: "map_len (hr_seen (prune_seen now r)) \<le> map_len (hr_seen r)"
  unfolding map_len_def prune_seen_def by (auto intro: fcard_mono)

lemma oldest_seen_in: "oldest_seen seen oldest events = oldest \<or> oldest_seen seen oldest events \<in> set events"
  by (induction events arbitrary: oldest) auto

lemma oldest_seen_found: "events \<noteq> [] \<Longrightarrow> oldest_seen seen [] events \<in> set events"
  using oldest_seen_in by (cases events) auto

lemma oldest_seen_first:
  assumes "[] \<notin> set events" "oldest \<noteq> []"
  shows "the (fmlookup seen (oldest_seen seen oldest events)) \<le> the (fmlookup seen oldest) \<and>
    (\<forall>e \<in> set events. the (fmlookup seen (oldest_seen seen oldest events)) \<le> the (fmlookup seen e))"
  using assms
proof (induction events arbitrary: oldest)
  case (Cons e es)
  show ?case
  proof (cases "the (fmlookup seen e) < the (fmlookup seen oldest)")
    case True
    with Cons.prems Cons.IH [of e] show ?thesis by auto
  next
    case False
    with Cons.prems Cons.IH [of oldest] show ?thesis by auto
  qed
qed simp

lemma remember_event_len:
  assumes "map_len (hr_seen r) \<le> hr_cache r" "0 < hr_cache r"
  shows "map_len (hr_seen (remember_event event now r)) \<le> hr_cache r"
proof -
  let ?seen = "hr_seen r"
  let ?kept = "if hr_cache r \<le> map_len ?seen
    then fmdrop (oldest_seen ?seen [] (sorted_keys ?seen)) ?seen else ?seen"
  have "map_len ?kept < hr_cache r"
  proof (cases "hr_cache r \<le> map_len ?seen")
    case True
    then have "fmdom ?seen \<noteq> {||}" using assms(2) by (auto simp: map_len_def fcard.rep_eq)
    then have "sorted_keys ?seen \<noteq> []" by (metis bot_fset.rep_eq fset_inject list.set(1) set_sorted_keys)
    then have "oldest_seen ?seen [] (sorted_keys ?seen) |\<in>| fmdom ?seen"
      using oldest_seen_found set_sorted_keys by metis
    then have "map_len ?kept < map_len ?seen"
      using True assms(2) by (simp add: map_len_def fcard.rep_eq)
    then show ?thesis using assms(1) True by simp
  next
    case False
    then show ?thesis by simp
  qed
  moreover have "map_len (fmupd event t m) \<le> Suc (map_len m)" for t and m :: "(string, gotime) fmap"
    by (simp add: map_len_def fcard.rep_eq card_insert_le_m1 card_insert_if)
  ultimately have "map_len (fmupd event (now + hr_ttl r) ?kept) \<le> hr_cache r"
    using Suc_leI order_trans by blast
  then show ?thesis by (simp add: remember_event_def Let_def split del: if_split)
qed

section \<open>Polling\<close>

record poll_result =
  po_submitted :: bool
  po_generation :: u64

definition same_versions :: "snapshot \<Rightarrow> (string, u64) fmap \<Rightarrow> bool" where
  "same_versions s authority \<longleftrightarrow>
     length (collection_names s) = map_len authority \<and>
     list_all (\<lambda>name. (case fmlookup (sn_collections s) name of None \<Rightarrow> False
         | Some v \<Rightarrow> (case fmlookup authority name of None \<Rightarrow> 0 | Some r \<Rightarrow> r) = cv_version v)) (collection_names s)"

definition authority_removed :: "snapshot \<Rightarrow> (string, u64) fmap \<Rightarrow> bool" where
  "authority_removed s authority \<longleftrightarrow> list_ex (\<lambda>name. name |\<notin>| fmdom authority) (collection_names s)"

definition snapshot_generation :: "snapshot option \<Rightarrow> u64" where
  "snapshot_generation current = (case current of None \<Rightarrow> 0 | Some s \<Rightarrow> id_generation (sn_identity s))"

datatype poll_error = PollSourceFailed | PollInvalidVersion | PollNotSubmitted

definition poll_targets :: "(string, u64) fmap \<Rightarrow> refresh_target list" where
  "poll_targets authority =
     map (\<lambda>name. \<lparr>rt_collection = name, rt_min = the (fmlookup authority name), rt_cursor = 0\<rparr>) (sorted_keys authority)"

text \<open>
  \<open>PollOnce\<close> against the coordinator, whose \<open>RequestRefresh\<close> never fails. \<open>current\<close> is what the
  poller reads and \<open>seen\<close> what \<open>Submit\<close> reads.
\<close>

definition poll_once ::
  "string \<Rightarrow> snapshot option \<Rightarrow> snapshot option \<Rightarrow> 'e + (string, u64) fmap \<Rightarrow> coordinator
     \<Rightarrow> coordinator \<times> (poll_error + poll_result)" where
  "poll_once environment current seen answer co =
     (case answer of
        Inl _ \<Rightarrow> (co, Inl PollSourceFailed)
      | Inr authority \<Rightarrow>
          if list_ex (\<lambda>name. blank name \<or> fmlookup authority name = Some 0) (sorted_keys authority)
          then (co, Inl PollInvalidVersion)
          else let unmanaged = (case current of None \<Rightarrow> True | Some s \<Rightarrow> sn_environment s \<noteq> environment);
                   result = Inr \<lparr>po_submitted = True, po_generation = snapshot_generation current\<rparr>
               in if \<not> unmanaged \<and> same_versions (the current) authority
                  then (co, Inr \<lparr>po_submitted = False, po_generation = snapshot_generation current\<rparr>)
                  else if unmanaged \<or> authority_removed (the current) authority then (request_refresh co, result)
                  else case submit seen (poll_targets authority) co of
                         (co', Inl RefreshQueueFull) \<Rightarrow> (request_refresh co', result)
                       | (co', Inl SubmitInvalid) \<Rightarrow> (co', Inl PollNotSubmitted)
                       | (co', Inr _) \<Rightarrow> (co', result))"

section \<open>The polling interval\<close>

text \<open>\<open>hash/fnv\<close>'s 32-bit FNV-1a.\<close>

definition fnv1a :: "string \<Rightarrow> 32 word" where
  "fnv1a s = foldl (\<lambda>h c. xor h (of_nat (of_char c)) * 0x01000193) 0x811C9DC5 s"

definition jitter_offset :: "snapshot_identity \<Rightarrow> string \<Rightarrow> int" where
  "jitter_offset i environment =
     uint (fnv1a (id_server i @ [CHR 0x00] @ environment @ [CHR 0x00] @ format_int (uint (id_generation i))) mod 801) - 400"

text \<open>The product is an \<open>int64\<close>, which wraps; Go's division truncates.\<close>

definition jittered_interval :: "64 word \<Rightarrow> snapshot_identity \<Rightarrow> string \<Rightarrow> 64 word" where
  "jittered_interval interval i environment = interval + word_of_int (sint (interval * word_of_int (jitter_offset i environment)) sdiv 2000)"

section \<open>Facts\<close>

definition receiver_ok :: "hint_receiver \<Rightarrow> bool" where
  "receiver_ok r \<longleftrightarrow> 0 < hr_cache r \<and> map_len (hr_seen r) \<le> hr_cache r"

lemma prune_seen_ok: "receiver_ok r \<Longrightarrow> receiver_ok (prune_seen now r)"
  using prune_seen_len [of now r] by (simp add: receiver_ok_def) (simp add: prune_seen_def)

lemma remember_event_ok: "receiver_ok r \<Longrightarrow> receiver_ok (remember_event event now r)"
  using remember_event_len [of r event now] by (simp add: receiver_ok_def) (simp add: remember_event_def Let_def)

lemma notify_ok:
  assumes "receiver_ok r" "notify submitter now hint (r, s) = ((r', s'), result)"
  shows "receiver_ok r'"
  using assms prune_seen_ok remember_event_ok
  by (auto simp: notify_def Let_def split: if_splits option.splits prod.splits sum.splits submit_error.splits)

lemma prune_seen_lookup:
  "fmlookup (hr_seen (prune_seen now r)) event =
     (case fmlookup (hr_seen r) event of None \<Rightarrow> None | Some t \<Rightarrow> if now < t then Some t else None)"
  by (auto simp: prune_seen_def split: option.splits)

lemma remember_event_lookup: "fmlookup (hr_seen (remember_event event now r)) event = Some (now + hr_ttl r)"
  by (simp add: remember_event_def Let_def)

text \<open>A new event that was accepted reached the submitter and is remembered until it expires.\<close>

lemma notify_new:
  assumes "notify submitter now hint (r, s) = ((r', s'), Inr ())" "fmlookup (hr_seen r) (trim_space (hi_event hint)) = None"
  shows "submitter (map trimmed_target (hi_targets hint)) s = (s', Inr ()) \<and>
    r' = remember_event (trim_space (hi_event hint)) now (prune_seen now r)"
  using assms
  by (auto simp: notify_def Let_def prune_seen_lookup
      split: if_splits option.splits prod.splits sum.splits submit_error.splits)

lemma notify_duplicate:
  assumes "notify submitter now hint (r, s) = ((r', s'), Inr ())"
    and "fmlookup (hr_seen r') (trim_space (hi_event hint)) = Some expires" "now' < expires"
  shows "notify submitter now' hint (r', s') = ((prune_seen now' r', s'), Inr ())"
proof -
  have "trim_space (hi_event hint) \<noteq> []" "trim_space (hi_environment hint) \<noteq> []" "hi_targets hint \<noteq> []"
    "trim_space (hi_environment hint) = hr_environment r" "list_all valid_hint_target (hi_targets hint)"
    "hr_environment r' = hr_environment r"
    using assms(1)
    by (auto simp: notify_def Let_def prune_seen_def remember_event_def
        split: if_splits option.splits prod.splits sum.splits submit_error.splits)
  with assms(2,3) show ?thesis by (simp add: notify_def Let_def prune_seen_lookup)
qed

lemma jitter_offset_bounds: "- 400 \<le> jitter_offset i environment \<and> jitter_offset i environment \<le> 400"
proof -
  have "uint (w mod 801) = uint w mod 801" for w :: "32 word" by (simp add: uint_mod_distrib)
  then show ?thesis by (simp add: jitter_offset_def)
qed

lemma sdiv_bounds:
  fixes x n :: int
  assumes "\<bar>x\<bar> \<le> 400 * n" "0 \<le> n" shows "\<bar>x sdiv 2000\<bar> \<le> n div 5"
proof -
  have "\<bar>x sdiv 2000\<bar> = \<bar>x\<bar> div 2000" by (simp add: signed_divide_int_def abs_mult sgn_if)
  also have "\<dots> \<le> (400 * n) div 2000" using assms(1) by (rule zdiv_mono1) simp
  also have "\<dots> = n div 5" by simp
  finally show ?thesis .
qed

end
