(* ===== verification/Watch_Hub.thy ===== *)
theory Watch_Hub
  imports Snapshot_Refresh
begin

text \<open>
  The watch hub of \<open>internal/distribution/snapshot/watch.go\<close>: bounded queues of update events, one
  per subscriber. A subscriber whose queue is full is sent a single event that asks for a full
  resync and is dropped. The first part takes every operation as atomic, as the hub's mutex makes
  them against each other. The last part takes \<open>Publish\<close> apart and interleaves it with the other
  goroutines, because the receiving side of a channel does not take that mutex.
\<close>

record version_signal =
  vs_collection :: string
  vs_revision :: u64
  vs_digest :: string

record hub_event =
  he_id :: string
  he_identity :: "snapshot_identity option"
  he_versions :: "version_signal list"
  he_resync :: bool

record event_channel =
  ec_events :: "hub_event list"
  ec_closed :: bool

record watch_hub =
  wh_queue :: nat
  wh_max :: nat
  wh_next :: u64
  wh_subscribers :: "u64 fset"
  wh_channels :: "(u64, event_channel) fmap"

definition new_watch_hub :: "int \<Rightarrow> int \<Rightarrow> watch_hub option" where
  "new_watch_hub queue limit =
     (if queue \<le> 0 \<or> limit \<le> 0 then None
      else Some \<lparr>wh_queue = nat queue, wh_max = nat limit, wh_next = 0, wh_subscribers = {||}, wh_channels = fmempty\<rparr>)"

text \<open>\<open>fmt.Sprintf("%s:%d")\<close> of the instance and the generation.\<close>

definition snapshot_event :: "snapshot option \<Rightarrow> bool \<Rightarrow> hub_event" where
  "snapshot_event current resync =
     (case current of
        None \<Rightarrow> \<lparr>he_id = [], he_identity = None, he_versions = [], he_resync = True\<rparr>
      | Some s \<Rightarrow>
          \<lparr>he_id = id_snapshot (sn_identity s) @ '':'' @ format_int (uint (id_generation (sn_identity s))),
           he_identity = Some (sn_identity s),
           he_versions = sort_key vs_collection
             (map (\<lambda>name. let v = the (fmlookup (sn_collections s) name)
                          in \<lparr>vs_collection = name, vs_revision = cv_version v, vs_digest = dg_value (cv_digest v)\<rparr>)
                (collection_names s)),
           he_resync = resync\<rparr>)"

section \<open>Operations\<close>

definition hub_subscribe :: "snapshot option \<Rightarrow> watch_hub \<Rightarrow> watch_hub \<times> u64 option" where
  "hub_subscribe current hub =
     (if wh_max hub \<le> fcard (wh_subscribers hub) then (hub, None)
      else let key = wh_next hub + 1
           in (hub\<lparr>wh_next := key, wh_subscribers := finsert key (wh_subscribers hub),
                  wh_channels := fmupd key \<lparr>ec_events = [snapshot_event current False], ec_closed = False\<rparr>
                    (wh_channels hub)\<rparr>, Some key))"

text \<open>What \<open>Publish\<close> does to the channel of one subscriber: whether it keeps it, and the channel.\<close>

definition publish_to :: "nat \<Rightarrow> hub_event \<Rightarrow> event_channel \<Rightarrow> event_channel \<times> bool" where
  "publish_to capacity event ch =
     (if length (ec_events ch) < capacity then (ch\<lparr>ec_events := ec_events ch @ [event]\<rparr>, True)
      else (\<lparr>ec_events = [event\<lparr>he_resync := True\<rparr>], ec_closed = True\<rparr>, False))"

definition hub_publish :: "snapshot option \<Rightarrow> watch_hub \<Rightarrow> watch_hub" where
  "hub_publish current hub =
     (case current of
        None \<Rightarrow> hub
      | Some s \<Rightarrow>
          (let event = snapshot_event (Some s) False;
               step = publish_to (wh_queue hub) event
           in hub\<lparr>wh_channels := fmmap_keys (\<lambda>key ch. if key |\<in>| wh_subscribers hub then fst (step ch) else ch)
                                  (wh_channels hub),
                  wh_subscribers := ffilter (\<lambda>key. case fmlookup (wh_channels hub) key of
                      None \<Rightarrow> False | Some ch \<Rightarrow> snd (step ch)) (wh_subscribers hub)\<rparr>))"

definition hub_remove :: "u64 \<Rightarrow> watch_hub \<Rightarrow> watch_hub" where
  "hub_remove key hub =
     (if key |\<in>| wh_subscribers hub
      then hub\<lparr>wh_subscribers := wh_subscribers hub |-| {|key|},
               wh_channels := (case fmlookup (wh_channels hub) key of
                   None \<Rightarrow> wh_channels hub | Some ch \<Rightarrow> fmupd key (ch\<lparr>ec_closed := True\<rparr>) (wh_channels hub))\<rparr>
      else hub)"

text \<open>The subscriber takes the event at the front of its channel.\<close>

definition hub_receive :: "u64 \<Rightarrow> watch_hub \<Rightarrow> watch_hub \<times> hub_event option" where
  "hub_receive key hub =
     (case fmlookup (wh_channels hub) key of
        None \<Rightarrow> (hub, None)
      | Some ch \<Rightarrow>
          (case ec_events ch of
             [] \<Rightarrow> (hub, None)
           | event # rest \<Rightarrow> (hub\<lparr>wh_channels := fmupd key (ch\<lparr>ec_events := rest\<rparr>) (wh_channels hub)\<rparr>, Some event)))"

datatype hub_action =
    HubSubscribe "snapshot option"
  | HubPublish "snapshot option"
  | HubCancel u64
  | HubReceive u64

fun hub_step :: "watch_hub \<Rightarrow> hub_action \<Rightarrow> watch_hub" where
  "hub_step hub (HubSubscribe current) = fst (hub_subscribe current hub)"
| "hub_step hub (HubPublish current) = hub_publish current hub"
| "hub_step hub (HubCancel key) = hub_remove key hub"
| "hub_step hub (HubReceive key) = fst (hub_receive key hub)"

section \<open>Invariant\<close>

text \<open>
  A channel is open exactly while its subscriber is registered, never holds more than its
  capacity, and a resync ends it: nothing follows one.
\<close>

definition channel_ok :: "nat \<Rightarrow> bool \<Rightarrow> event_channel \<Rightarrow> bool" where
  "channel_ok capacity registered ch \<longleftrightarrow>
     length (ec_events ch) \<le> capacity \<and> ec_closed ch = (\<not> registered)"

definition hub_ok :: "watch_hub \<Rightarrow> bool" where
  "hub_ok hub \<longleftrightarrow>
     0 < wh_queue hub \<and> fcard (wh_subscribers hub) \<le> wh_max hub \<and>
     wh_subscribers hub |\<subseteq>| fmdom (wh_channels hub) \<and>
     (\<forall>key ch. fmlookup (wh_channels hub) key = Some ch \<longrightarrow>
        channel_ok (wh_queue hub) (key |\<in>| wh_subscribers hub) ch)"

lemma new_watch_hub_ok: "new_watch_hub queue limit = Some hub \<Longrightarrow> hub_ok hub"
  by (auto simp: new_watch_hub_def hub_ok_def fcard.rep_eq split: if_splits)

lemma hub_subscribe_ok:
  assumes "hub_ok hub" shows "hub_ok (fst (hub_subscribe current hub))"
proof -
  have "fcard (finsert k S) \<le> Suc (fcard S)" for k and S :: "u64 fset"
    by (simp add: fcard.rep_eq card_insert_le_m1 card_insert_if)
  then have "fcard (finsert k (wh_subscribers hub)) \<le> wh_max hub" if "fcard (wh_subscribers hub) < wh_max hub" for k
    using that by (meson Suc_leI order_trans)
  with assms show ?thesis
    by (auto simp: hub_subscribe_def hub_ok_def channel_ok_def Let_def)
qed

lemma publish_to_ok:
  assumes "channel_ok capacity True ch" "0 < capacity"
  shows "channel_ok capacity (snd (publish_to capacity event ch)) (fst (publish_to capacity event ch))"
  using assms by (auto simp: channel_ok_def publish_to_def)

lemma hub_publish_Some:
  "wh_queue (hub_publish (Some s) hub) = wh_queue hub" "wh_max (hub_publish (Some s) hub) = wh_max hub"
  "wh_subscribers (hub_publish (Some s) hub) = ffilter (\<lambda>key. case fmlookup (wh_channels hub) key of
     None \<Rightarrow> False | Some ch \<Rightarrow> snd (publish_to (wh_queue hub) (snapshot_event (Some s) False) ch)) (wh_subscribers hub)"
  "fmlookup (wh_channels (hub_publish (Some s) hub)) key =
     map_option (\<lambda>ch. if key |\<in>| wh_subscribers hub
       then fst (publish_to (wh_queue hub) (snapshot_event (Some s) False) ch) else ch) (fmlookup (wh_channels hub) key)"
  by (simp_all add: hub_publish_def Let_def)

lemma hub_publish_ok:
  assumes "hub_ok hub" shows "hub_ok (hub_publish current hub)"
proof (cases current)
  case None
  with assms show ?thesis by (simp add: hub_publish_def)
next
  case (Some s)
  let ?hub = "hub_publish (Some s) hub"
  have "fcard (ffilter P (wh_subscribers hub)) \<le> fcard (wh_subscribers hub)" for P
    by (rule fcard_mono) auto
  then have card: "fcard (wh_subscribers ?hub) \<le> wh_max ?hub"
    unfolding hub_publish_Some using assms order_trans by (auto simp: hub_ok_def)
  have known: "wh_subscribers ?hub |\<subseteq>| fmdom (wh_channels ?hub)"
  proof
    fix key assume "key |\<in>| wh_subscribers ?hub"
    then have "fmlookup (wh_channels ?hub) key \<noteq> None"
      by (auto simp: hub_publish_Some split: option.splits)
    then show "key |\<in>| fmdom (wh_channels ?hub)" by (auto simp: fmlookup_dom_iff)
  qed
  have "channel_ok (wh_queue ?hub) (key |\<in>| wh_subscribers ?hub) ch'"
    if "fmlookup (wh_channels ?hub) key = Some ch'" for key ch'
  proof -
    from that obtain ch where ch: "fmlookup (wh_channels hub) key = Some ch"
      "ch' = (if key |\<in>| wh_subscribers hub
         then fst (publish_to (wh_queue hub) (snapshot_event (Some s) False) ch) else ch)"
      by (auto simp: hub_publish_Some)
    then have c: "channel_ok (wh_queue hub) (key |\<in>| wh_subscribers hub) ch" "0 < wh_queue hub"
      using assms by (simp_all add: hub_ok_def)
    show ?thesis
    proof (cases "key |\<in>| wh_subscribers hub")
      case True
      with c ch publish_to_ok show ?thesis by (simp add: hub_publish_Some)
    next
      case False
      with c ch show ?thesis by (simp add: hub_publish_Some)
    qed
  qed
  with card known assms Some show ?thesis by (simp add: hub_ok_def hub_publish_Some(1))
qed

lemma hub_remove_ok:
  assumes "hub_ok hub" shows "hub_ok (hub_remove key hub)"
proof -
  have "fcard (wh_subscribers hub |-| {|key|}) \<le> fcard (wh_subscribers hub)" by (rule fcard_mono) auto
  with assms show ?thesis
    by (auto simp: hub_ok_def channel_ok_def hub_remove_def split: option.splits if_splits)
qed

lemma hub_receive_ok:
  assumes "hub_ok hub" shows "hub_ok (fst (hub_receive key hub))"
proof (cases "\<exists>ch event rest. fmlookup (wh_channels hub) key = Some ch \<and> ec_events ch = event # rest")
  case True
  then obtain ch event rest where ch: "fmlookup (wh_channels hub) key = Some ch" "ec_events ch = event # rest"
    by blast
  with assms have "channel_ok (wh_queue hub) (key |\<in>| wh_subscribers hub) ch" by (simp add: hub_ok_def)
  with ch have "channel_ok (wh_queue hub) (key |\<in>| wh_subscribers hub) (ch\<lparr>ec_events := rest\<rparr>)"
    by (simp add: channel_ok_def)
  with assms ch show ?thesis by (auto simp: hub_ok_def hub_receive_def)
next
  case False
  then have "fst (hub_receive key hub) = hub" by (auto simp: hub_receive_def split: option.splits list.splits)
  with assms show ?thesis by simp
qed

lemma hub_run_ok: "hub_ok hub \<Longrightarrow> hub_ok (foldl hub_step hub actions)"
proof (induction actions arbitrary: hub)
  case (Cons a actions)
  then have "hub_ok (hub_step hub a)"
    by (cases a) (simp_all add: hub_subscribe_ok hub_publish_ok hub_remove_ok hub_receive_ok)
  with Cons show ?case by simp
qed simp

section \<open>Goroutines on one hub\<close>

text \<open>
  \<open>Publish\<close> taken apart, with every goroutine that uses the hub running beside it. \<open>Subscribe\<close>,
  \<open>Publish\<close> and \<open>remove\<close>, which \<open>Cancel\<close> calls, start at \<open>hub.mu.Lock()\<close>: they wait there until the
  mutex has no owner, and give it back when they return. The two bodies that cannot wait while they
  hold it are one step each: the channel \<open>Subscribe\<close> sends to is new and has room. \<open>Publish\<close> visits
  the subscribers in any order, and every test, receive and send of its drain loop is a step of its
  own. The receiving side of a channel takes no mutex, so it may run between any two of them.
\<close>

datatype hub_point =
    Idle
  | SubscribeLock
  | PublishLock snapshot
  | RemoveLock u64
  | SubscribeBody
  | RemoveBody u64
  | PublishLoop hub_event "u64 fset"
  | DrainTest hub_event u64 "u64 fset"
  | DrainReceive hub_event u64 "u64 fset"
  | SendResync hub_event u64 "u64 fset"

record hub_world =
  hw_hub :: watch_hub
  hw_owner :: "nat option"
  hw_points :: "nat \<Rightarrow> hub_point"

definition hub_world_start :: "watch_hub \<Rightarrow> hub_world" where
  "hub_world_start hub = \<lparr>hw_hub = hub, hw_owner = None, hw_points = (\<lambda>_. Idle)\<rparr>"

text \<open>A goroutine moves on, one that takes or gives back the mutex does so with it.\<close>

definition at_point :: "nat \<Rightarrow> hub_point \<Rightarrow> hub_world \<Rightarrow> hub_world" where
  "at_point p x w = w\<lparr>hw_points := (hw_points w)(p := x)\<rparr>"

definition takes_lock :: "nat \<Rightarrow> hub_point \<Rightarrow> hub_world \<Rightarrow> hub_world" where
  "takes_lock p x w = (at_point p x w)\<lparr>hw_owner := Some p\<rparr>"

definition returns :: "nat \<Rightarrow> watch_hub \<Rightarrow> hub_world \<Rightarrow> hub_world" where
  "returns p hub w = (at_point p Idle w)\<lparr>hw_owner := None, hw_hub := hub\<rparr>"

definition set_channel :: "u64 \<Rightarrow> event_channel \<Rightarrow> hub_world \<Rightarrow> hub_world" where
  "set_channel key ch w = w\<lparr>hw_hub := (hw_hub w)\<lparr>wh_channels := fmupd key ch (wh_channels (hw_hub w))\<rparr>\<rparr>"

definition channel_of :: "hub_world \<Rightarrow> u64 \<Rightarrow> event_channel option" where
  "channel_of w key = fmlookup (wh_channels (hw_hub w)) key"

text \<open>Closing the drained channel and deleting its subscriber.\<close>

definition drop_subscriber :: "u64 \<Rightarrow> event_channel \<Rightarrow> hub_world \<Rightarrow> hub_world" where
  "drop_subscriber key ch w =
     (set_channel key (ch\<lparr>ec_closed := True\<rparr>) w)\<lparr>hw_hub :=
        (hw_hub (set_channel key (ch\<lparr>ec_closed := True\<rparr>) w))\<lparr>wh_subscribers := wh_subscribers (hw_hub w) |-| {|key|}\<rparr>\<rparr>"

inductive hub_thread_step :: "hub_world \<Rightarrow> hub_world \<Rightarrow> bool" where
  call_subscribe: "hw_points w p = Idle \<Longrightarrow> hub_thread_step w (at_point p SubscribeLock w)"
| call_publish: "hw_points w p = Idle \<Longrightarrow> hub_thread_step w (at_point p (PublishLock s) w)"
| call_remove: "hw_points w p = Idle \<Longrightarrow> hub_thread_step w (at_point p (RemoveLock key) w)"
| lock_subscribe: "hw_points w p = SubscribeLock \<Longrightarrow> hw_owner w = None \<Longrightarrow>
    hub_thread_step w (takes_lock p SubscribeBody w)"
| lock_publish: "hw_points w p = PublishLock s \<Longrightarrow> hw_owner w = None \<Longrightarrow>
    hub_thread_step w (takes_lock p (PublishLoop (snapshot_event (Some s) False) (wh_subscribers (hw_hub w))) w)"
| lock_remove: "hw_points w p = RemoveLock key \<Longrightarrow> hw_owner w = None \<Longrightarrow>
    hub_thread_step w (takes_lock p (RemoveBody key) w)"
| body_subscribe: "hw_points w p = SubscribeBody \<Longrightarrow>
    hub_thread_step w (returns p (fst (hub_subscribe current (hw_hub w))) w)"
| body_remove: "hw_points w p = RemoveBody key \<Longrightarrow> hub_thread_step w (returns p (hub_remove key (hw_hub w)) w)"
| publish_done: "hw_points w p = PublishLoop event {||} \<Longrightarrow> hub_thread_step w (returns p (hw_hub w) w)"
| publish_send: "hw_points w p = PublishLoop event keys \<Longrightarrow> key |\<in>| keys \<Longrightarrow> channel_of w key = Some ch \<Longrightarrow>
    \<not> ec_closed ch \<Longrightarrow> length (ec_events ch) < wh_queue (hw_hub w) \<Longrightarrow>
    hub_thread_step w (at_point p (PublishLoop event (keys |-| {|key|}))
      (set_channel key (ch\<lparr>ec_events := ec_events ch @ [event]\<rparr>) w))"
| publish_full: "hw_points w p = PublishLoop event keys \<Longrightarrow> key |\<in>| keys \<Longrightarrow> channel_of w key = Some ch \<Longrightarrow>
    \<not> length (ec_events ch) < wh_queue (hw_hub w) \<Longrightarrow>
    hub_thread_step w (at_point p (DrainTest event key (keys |-| {|key|})) w)"
| drain_more: "hw_points w p = DrainTest event key keys \<Longrightarrow> channel_of w key = Some ch \<Longrightarrow> ec_events ch \<noteq> [] \<Longrightarrow>
    hub_thread_step w (at_point p (DrainReceive event key keys) w)"
| drain_done: "hw_points w p = DrainTest event key keys \<Longrightarrow> channel_of w key = Some ch \<Longrightarrow> ec_events ch = [] \<Longrightarrow>
    hub_thread_step w (at_point p (SendResync event key keys) w)"
| drain_receive: "hw_points w p = DrainReceive event key keys \<Longrightarrow> channel_of w key = Some ch \<Longrightarrow>
    ec_events ch \<noteq> [] \<or> ec_closed ch \<Longrightarrow>
    hub_thread_step w (at_point p (DrainTest event key keys) (set_channel key (ch\<lparr>ec_events := tl (ec_events ch)\<rparr>) w))"
| send_resync: "hw_points w p = SendResync event key keys \<Longrightarrow> channel_of w key = Some ch \<Longrightarrow>
    \<not> ec_closed ch \<Longrightarrow> length (ec_events ch) < wh_queue (hw_hub w) \<Longrightarrow>
    hub_thread_step w (at_point p (PublishLoop event keys)
      (drop_subscriber key (ch\<lparr>ec_events := ec_events ch @ [event\<lparr>he_resync := True\<rparr>]\<rparr>) w))"
| subscriber_receives: "channel_of w key = Some ch \<Longrightarrow> ec_events ch \<noteq> [] \<Longrightarrow>
    hub_thread_step w (w\<lparr>hw_hub := fst (hub_receive key (hw_hub w))\<rparr>)"

abbreviation hub_runs :: "hub_world \<Rightarrow> hub_world \<Rightarrow> bool" where
  "hub_runs \<equiv> hub_thread_step\<^sup>*\<^sup>*"

inductive_cases hub_thread_stepE: "hub_thread_step w w'"

lemmas world_defs = at_point_def takes_lock_def returns_def set_channel_def channel_of_def drop_subscriber_def

subsection \<open>Mutual exclusion\<close>

text \<open>Between the lock and the return.\<close>

fun in_body :: "hub_point \<Rightarrow> bool" where
  "in_body Idle = False"
| "in_body SubscribeLock = False"
| "in_body (PublishLock s) = False"
| "in_body (RemoveLock key) = False"
| "in_body _ = True"

fun draining_key :: "hub_point \<Rightarrow> u64 option" where
  "draining_key (DrainTest event key keys) = Some key"
| "draining_key (DrainReceive event key keys) = Some key"
| "draining_key (SendResync event key keys) = Some key"
| "draining_key _ = None"

fun visiting :: "hub_point \<Rightarrow> u64 fset" where
  "visiting (PublishLoop event keys) = keys"
| "visiting (DrainTest event key keys) = finsert key keys"
| "visiting (DrainReceive event key keys) = finsert key keys"
| "visiting (SendResync event key keys) = finsert key keys"
| "visiting _ = {||}"

definition visits_once :: "hub_point \<Rightarrow> bool" where
  "visits_once x \<longleftrightarrow>
     (case x of DrainTest event key keys \<Rightarrow> key |\<notin>| keys | DrainReceive event key keys \<Rightarrow> key |\<notin>| keys
      | SendResync event key keys \<Rightarrow> key |\<notin>| keys | _ \<Rightarrow> True)"

text \<open>
  Only the owner of the mutex is inside a body, and a publisher only visits subscribers that are
  still registered, each once.
\<close>

definition world_ok :: "hub_world \<Rightarrow> bool" where
  "world_ok w \<longleftrightarrow>
     hub_ok (hw_hub w) \<and>
     (\<forall>p. in_body (hw_points w p) \<longleftrightarrow> hw_owner w = Some p) \<and>
     (\<forall>p. visiting (hw_points w p) |\<subseteq>| wh_subscribers (hw_hub w) \<and> visits_once (hw_points w p))"

lemma visiting_in_body: "\<not> in_body x \<Longrightarrow> visiting x = {||} \<and> visits_once x"
  by (cases x) (simp_all add: visits_once_def)

lemma world_start_ok: "new_watch_hub queue limit = Some hub \<Longrightarrow> world_ok (hub_world_start hub)"
  using new_watch_hub_ok by (simp add: world_ok_def hub_world_start_def visits_once_def)

lemma world_ok_owner: "world_ok w \<Longrightarrow> in_body (hw_points w p) \<Longrightarrow> hw_owner w = Some p"
  by (simp add: world_ok_def)

lemma world_ok_visits:
  "world_ok w \<Longrightarrow> hw_points w p = x \<Longrightarrow> visiting x |\<subseteq>| wh_subscribers (hw_hub w) \<and> visits_once x"
  by (auto simp: world_ok_def)

text \<open>What a step of one goroutine has to keep, by the part of the world it writes.\<close>

lemma world_ok_moves:
  assumes "world_ok w" "in_body x \<longleftrightarrow> in_body (hw_points w p)"
    "visiting x |\<subseteq>| visiting (hw_points w p)" "visits_once x"
  shows "world_ok (at_point p x w)"
  using assms by (auto simp: world_ok_def at_point_def)

lemma world_ok_locks:
  assumes "world_ok w" "hw_owner w = None" "in_body x" "visiting x |\<subseteq>| wh_subscribers (hw_hub w)" "visits_once x"
  shows "world_ok (takes_lock p x w)"
  using assms by (auto simp: world_ok_def takes_lock_def at_point_def)

lemma world_ok_returns:
  assumes "world_ok w" "in_body (hw_points w p)" "hub_ok hub"
  shows "world_ok (returns p hub w)"
proof -
  have "hw_owner w = Some p" using assms by (simp add: world_ok_def)
  then have "\<not> in_body (hw_points w q)" if "q \<noteq> p" for q using assms(1) that by (simp add: world_ok_def)
  with visiting_in_body assms show ?thesis
    by (auto simp: world_ok_def returns_def at_point_def)
qed

lemma world_ok_channel:
  assumes "world_ok w" "channel_ok (wh_queue (hw_hub w)) (key |\<in>| wh_subscribers (hw_hub w)) ch"
  shows "world_ok (set_channel key ch w)"
  using assms by (auto simp: world_ok_def set_channel_def hub_ok_def)

lemma channel_of_ok:
  "world_ok w \<Longrightarrow> channel_of w key = Some ch \<Longrightarrow>
   channel_ok (wh_queue (hw_hub w)) (key |\<in>| wh_subscribers (hw_hub w)) ch"
  by (simp add: world_ok_def hub_ok_def channel_of_def)

lemma fminus_fsubset: "A |-| B |\<subseteq>| A"
  by auto

lemma world_ok_drops:
  assumes "world_ok w" "hw_points w p = SendResync event key keys" "length (ec_events ch) \<le> wh_queue (hw_hub w)"
  shows "world_ok (at_point p (PublishLoop event keys) (drop_subscriber key ch w))"
proof -
  have owner: "hw_owner w = Some p" using assms by (simp add: world_ok_owner)
  have others: "visiting (hw_points w q) = {||}" if "q \<noteq> p" for q
    using that assms(1) owner visiting_in_body by (simp add: world_ok_def)
  have "finsert key keys |\<subseteq>| wh_subscribers (hw_hub w)" "key |\<notin>| keys"
    using world_ok_visits [OF assms(1,2)] by (simp_all add: visits_once_def)
  moreover have "fcard (wh_subscribers (hw_hub w) |-| {|key|}) \<le> wh_max (hw_hub w)"
    using assms(1) by (auto simp: world_ok_def hub_ok_def intro: order_trans [OF fcard_mono [OF fminus_fsubset]])
  ultimately show ?thesis
    using assms(1,3) owner others
    by (auto simp: world_ok_def world_defs hub_ok_def channel_ok_def visits_once_def)
qed

lemma world_step_ok: "hub_thread_step w w' \<Longrightarrow> world_ok w \<Longrightarrow> world_ok w'"
proof (induction rule: hub_thread_step.induct)
  case (publish_send w p event keys key ch)
  then have "world_ok (set_channel key (ch\<lparr>ec_events := ec_events ch @ [event]\<rparr>) w)"
    using channel_of_ok [of w key ch] by (intro world_ok_channel) (auto simp: channel_ok_def)
  then show ?case by (rule world_ok_moves) (use publish_send in \<open>auto simp: set_channel_def visits_once_def\<close>)
next
  case (drain_receive w p event key keys ch)
  then have "world_ok (set_channel key (ch\<lparr>ec_events := tl (ec_events ch)\<rparr>) w)"
    using channel_of_ok [of w key ch] by (intro world_ok_channel) (auto simp: channel_ok_def)
  moreover have "key |\<notin>| keys" using world_ok_visits [OF drain_receive(4,1)] by (simp add: visits_once_def)
  ultimately show ?case
    by (intro world_ok_moves) (use drain_receive in \<open>auto simp: set_channel_def visits_once_def\<close>)
next
  case (drain_more w p event key keys ch)
  then have "key |\<notin>| keys" using world_ok_visits [OF drain_more(4,1)] by (simp add: visits_once_def)
  with drain_more show ?case by (intro world_ok_moves) (auto simp: visits_once_def)
next
  case (drain_done w p event key keys ch)
  then have "key |\<notin>| keys" using world_ok_visits [OF drain_done(4,1)] by (simp add: visits_once_def)
  with drain_done show ?case by (intro world_ok_moves) (auto simp: visits_once_def)
next
  case (send_resync w p event key keys ch)
  then show ?case by (intro world_ok_drops) auto
next
  case (subscriber_receives w key ch)
  then show ?case
    using hub_receive_ok [of "hw_hub w" key]
    by (auto simp: world_ok_def hub_receive_def split: option.splits list.splits)
next
  case (body_subscribe w p current)
  then show ?case using hub_subscribe_ok by (intro world_ok_returns) (auto simp: world_ok_def)
next
  case (body_remove w p key)
  then show ?case using hub_remove_ok by (intro world_ok_returns) (auto simp: world_ok_def)
next
  case (publish_done w p event)
  then show ?case by (intro world_ok_returns) (auto simp: world_ok_def)
qed (auto intro!: world_ok_moves world_ok_locks simp: visits_once_def)

lemma world_runs_ok: "hub_runs w w' \<Longrightarrow> world_ok w \<Longrightarrow> world_ok w'"
  by (induction rule: rtranclp_induct) (auto intro: world_step_ok)

subsection \<open>A publisher that waits for ever\<close>

text \<open>The publisher \<open>p\<close> owns the mutex and receives from an empty channel nobody has closed.\<close>

definition publisher_stuck :: "nat \<Rightarrow> hub_point \<Rightarrow> u64 \<Rightarrow> hub_world \<Rightarrow> bool" where
  "publisher_stuck p x key w \<longleftrightarrow>
     hw_owner w = Some p \<and> hw_points w p = x \<and> (\<forall>q. q \<noteq> p \<longrightarrow> \<not> in_body (hw_points w q)) \<and>
     channel_of w key = Some \<lparr>ec_events = [], ec_closed = False\<rparr>"

lemma publisher_stuck_others:
  "publisher_stuck p x key w \<Longrightarrow> q \<noteq> p \<Longrightarrow> \<not> in_body y \<Longrightarrow>
   publisher_stuck p x key (at_point q y w) \<and> wh_subscribers (hw_hub (at_point q y w)) = wh_subscribers (hw_hub w)"
  by (simp add: publisher_stuck_def at_point_def channel_of_def)

lemma publisher_stuck_step:
  assumes "hub_thread_step w w'" "publisher_stuck p (DrainReceive event key keys) key w"
  shows "publisher_stuck p (DrainReceive event key keys) key w' \<and>
    wh_subscribers (hw_hub w') = wh_subscribers (hw_hub w)"
proof -
  note others = publisher_stuck_others [OF assms(2)]
  have owner: "hw_owner w = Some p" and point: "hw_points w p = DrainReceive event key keys"
    and empty: "channel_of w key = Some \<lparr>ec_events = [], ec_closed = False\<rparr>"
    using assms(2) by (simp_all add: publisher_stuck_def)
  have body: "x = DrainReceive event key keys" if "hw_points w q = x" "in_body x" for q x
    using that assms(2) by (cases "q = p") (auto simp: publisher_stuck_def)
  from assms(1) show ?thesis
  proof (cases rule: hub_thread_step.cases)
    case (subscriber_receives k ch)
    then have "k \<noteq> key" using empty by auto
    with subscriber_receives assms(2) show ?thesis
      by (auto simp: publisher_stuck_def channel_of_def hub_receive_def split: list.splits)
  next
    case (call_subscribe q)
    then have "q \<noteq> p" using point by auto
    with call_subscribe others [of q SubscribeLock] show ?thesis by simp
  next
    case (call_publish q s)
    then have "q \<noteq> p" using point by auto
    with call_publish others [of q "PublishLock s"] show ?thesis by simp
  next
    case (call_remove q k)
    then have "q \<noteq> p" using point by auto
    with call_remove others [of q "RemoveLock k"] show ?thesis by simp
  next
    case (drain_receive q e k ks ch)
    then have "k = key" using body [OF drain_receive(2)] by simp
    with drain_receive empty show ?thesis by auto
  qed (use owner in simp, use owner in simp, use owner in simp, (drule body; simp)+)
qed

lemma publisher_stuck_runs:
  assumes "hub_runs w w'" "publisher_stuck p (DrainReceive event key keys) key w"
  shows "publisher_stuck p (DrainReceive event key keys) key w' \<and>
    wh_subscribers (hw_hub w') = wh_subscribers (hw_hub w)"
  using assms by (induction rule: rtranclp_induct) (auto dest: publisher_stuck_step)

text \<open>The subscriber empties its channel while the publisher stands still.\<close>

lemma subscriber_empties:
  assumes "channel_of w key = Some ch"
  shows "hub_runs w (set_channel key (ch\<lparr>ec_events := []\<rparr>) w)"
  using assms
proof (induction "ec_events ch" arbitrary: w ch)
  case Nil
  then have "ch\<lparr>ec_events := []\<rparr> = ch" by simp
  moreover have "fmupd key ch (wh_channels (hw_hub w)) = wh_channels (hw_hub w)"
    using Nil(2) by (intro fmap_ext) (auto simp: channel_of_def)
  then have "set_channel key ch w = w" by (simp add: set_channel_def)
  ultimately show ?case by simp
next
  case (Cons event rest)
  let ?w = "w\<lparr>hw_hub := fst (hub_receive key (hw_hub w))\<rparr>" and ?ch = "ch\<lparr>ec_events := rest\<rparr>"
  have "hub_thread_step w ?w"
    using Cons by (intro hub_thread_step.subscriber_receives) auto
  moreover have w: "?w = set_channel key ?ch w"
    using Cons(2-3) by (auto simp: set_channel_def channel_of_def hub_receive_def split: list.splits)
  then have "hub_runs ?w (set_channel key (?ch\<lparr>ec_events := []\<rparr>) ?w)"
    by (intro Cons(1)) (simp_all add: channel_of_def set_channel_def)
  moreover have "set_channel key (?ch\<lparr>ec_events := []\<rparr>) ?w = set_channel key (ch\<lparr>ec_events := []\<rparr>) w"
    unfolding w by (simp add: set_channel_def fmupd_idem)
  ultimately show ?case by (metis converse_rtranclp_into_rtranclp)
qed

lemma drain_reaches_stuck:
  assumes "world_ok w" "hw_points w p = DrainTest event key keys" "channel_of w key = Some ch" "ec_events ch \<noteq> []"
  shows "\<exists>w'. hub_runs w w' \<and> publisher_stuck p (DrainReceive event key keys) key w'"
proof -
  let ?w = "at_point p (DrainReceive event key keys) w"
  have "hub_thread_step w ?w" using assms(2-4) by (rule hub_thread_step.drain_more)
  moreover have "hub_runs ?w (set_channel key (ch\<lparr>ec_events := []\<rparr>) ?w)"
    using assms(3) by (intro subscriber_empties) (simp add: channel_of_def at_point_def)
  moreover have "key |\<in>| wh_subscribers (hw_hub w)" using world_ok_visits [OF assms(1,2)] by simp
  then have "\<not> ec_closed ch" using channel_of_ok [OF assms(1,3)] by (simp add: channel_ok_def)
  then have "publisher_stuck p (DrainReceive event key keys) key (set_channel key (ch\<lparr>ec_events := []\<rparr>) ?w)"
    using assms(1,2) world_ok_owner [OF assms(1), of p]
    by (auto simp: publisher_stuck_def world_ok_def at_point_def set_channel_def channel_of_def)
  ultimately show ?thesis by (metis converse_rtranclp_into_rtranclp)
qed

end
