(* ===== verification/Signals_Properties.thy ===== *)
theory Signals_Properties
  imports Change_Signals Watch_Hub Snapshot_Samples
begin

text \<open>The claims about change notification: coordinator, hints, polling and watching.\<close>

section \<open>The coordinator\<close>

definition sample_coordinator :: coordinator where
  "sample_coordinator =
     \<lparr>co_environment = ''prod'', co_max = 1, co_initial = 100, co_limit = 5000, co_pending = fmempty,
      co_requested = 0, co_completed = 0, co_wake = False, co_running = False\<rparr>"

lemma sample_coordinator_new: "new_coordinator '' prod'' 1 100 5000 = Some sample_coordinator"
proof -
  have "trim_space '' prod'' = ''prod''" by code_simp
  then show ?thesis by (simp add: new_coordinator_def sample_coordinator_def word_sless_alt word_sle_eq)
qed

lemma sample_coordinator_ok: "coordinator_ok sample_coordinator"
  by (simp add: coordinator_ok_def sample_coordinator_def map_len_def fcard.rep_eq)

text \<open>
  C9: No accepted target is lost: after \<open>Submit\<close> took a batch, and whatever further submissions,
  forced refreshes and rounds of the writer loop follow in any order, every target of the batch is
  either still waiting with at least its watermarks, or some snapshot the coordinator looked at
  has reached it. The targets that wait never exceed the capacity.
\<close>

theorem accepted_targets_wait_until_reached:
  assumes "coordinator_ok co" "submit current targets co = (co', Inr ())" "t \<in> set targets"
    and "foldl coordinator_step (co', f) es = (co'', f')"
  shows "(covers (co_pending co'') (trimmed_target t) \<or> target_reached current (co_environment co) (trimmed_target t) \<or>
     list_ex (\<lambda>e. target_reached (observed e) (co_environment co) (trimmed_target t)) es) \<and>
    map_len (co_pending co'') \<le> co_max co''"
proof -
  note ok = submit_ok [OF assms(2,1)]
  have final: "coordinator_ok co''"
    using assms(4) ok
  proof (induction es arbitrary: co' f)
    case (Cons e es)
    obtain c g where "coordinator_step (co', f) e = (c, g)" by fastforce
    with Cons coordinator_step_ok [of co' f e c g] show ?case by auto
  qed simp
  from submit_accepted [OF assms(2,3)] show ?thesis
  proof
    assume "covers (co_pending co') (trimmed_target t)"
    from coordinator_run_keeps [OF this _ assms(4)] ok final show ?thesis by (auto simp: coordinator_ok_def)
  qed (use final in \<open>simp add: coordinator_ok_def\<close>)
qed

definition sample_target :: refresh_target where
  "sample_target = \<lparr>rt_collection = ''limits'', rt_min = 9, rt_cursor = 0\<rparr>"

theorem accepted_targets_wait_until_reached_witness:
  "\<exists>co f. foldl coordinator_step (fst (submit None [sample_target] sample_coordinator), None)
        [RoundBegins None, RequestRefresh, RoundEnds True None] = (co, f) \<and>
     covers (co_pending co) sample_target"
proof -
  have trimmed: "trim_space ''limits'' = ''limits''" by code_simp
  then have "snd (submit None [sample_target] sample_coordinator) = Inr ()" by code_simp
  then obtain co' where co': "submit None [sample_target] sample_coordinator = (co', Inr ())"
    by (metis prod.collapse)
  obtain co f where run: "foldl coordinator_step (co', None) [RoundBegins None, RequestRefresh, RoundEnds True None] = (co, f)"
    by fastforce
  have "trimmed_target sample_target = sample_target" using trimmed by (simp add: trimmed_target_def sample_target_def)
  with accepted_targets_wait_until_reached [OF sample_coordinator_ok co' _ run, of sample_target]
  have "covers (co_pending co) sample_target" by (simp add: target_reached_def)
  with run co' show ?thesis by auto
qed

text \<open>
  C30: The delay before a retry doubles with every failed attempt from the initial backoff up to
  the limit: it is the smaller of the limit and the initial backoff times \<open>2 ^ n\<close>, for every number
  of attempts and every limit an \<open>int64\<close> can hold, although the doubling is done on 64 bits and
  would wrap around without the test against half the limit.
\<close>

theorem retry_delay_is_capped_exponential:
  assumes "new_coordinator environment capacity initial limit = Some co"
  shows "sint (retry_delay co n) = min (sint limit) (sint initial * 2 ^ n)"
proof -
  from assms have "0 < sint initial" "sint initial \<le> sint limit"
    by (auto simp: new_coordinator_def word_sless_alt word_sle_eq split: if_splits)
  from retry_loop_min [OF this, of n] assms show ?thesis
    by (auto simp: new_coordinator_def retry_delay_def split: if_splits)
qed

theorem retry_delay_is_capped_exponential_witness:
  "sint (retry_delay sample_coordinator 3) = 800 \<and> sint (retry_delay sample_coordinator 9) = 5000 \<and>
   sint (retry_delay (the (new_coordinator ''prod'' 1 (3 * 2 ^ 61) (2 ^ 63 - 1))) 1) = 2 ^ 63 - 1"
proof -
  have "trim_space ''prod'' = ''prod''" by code_simp
  then obtain co where co: "new_coordinator ''prod'' 1 (3 * 2 ^ 61) (2 ^ 63 - 1) = Some co"
    by (simp add: new_coordinator_def word_sless_alt word_sle_eq)
  show ?thesis
    using retry_delay_is_capped_exponential [OF sample_coordinator_new, of 3]
      retry_delay_is_capped_exponential [OF sample_coordinator_new, of 9]
      retry_delay_is_capped_exponential [OF co, of 1] co by simp
qed

section \<open>Hints and polling\<close>

text \<open>
  A hint is acted on once: after a new event was accepted, the same hint is acknowledged
  without reaching the submitter again until its time to live is over. The memory of events
  never exceeds its size.
\<close>

lemma accepted_hint_is_not_repeated:
  assumes "receiver_ok r" "notify submitter now hint (r, s) = ((r', s'), Inr ())"
    and "fmlookup (hr_seen r) (trim_space (hi_event hint)) = None" "now' < now + hr_ttl r"
  shows "submitter (map trimmed_target (hi_targets hint)) s = (s', Inr ()) \<and>
    notify submitter now' hint (r', s') = ((prune_seen now' r', s'), Inr ()) \<and>
    map_len (hr_seen r') \<le> hr_cache r'"
proof -
  note new = notify_new [OF assms(2,3)]
  have "fmlookup (hr_seen r') (trim_space (hi_event hint)) = Some (now + hr_ttl r)"
    using new remember_event_lookup by (simp add: prune_seen_def)
  from notify_duplicate [OF assms(2) this assms(4)] new notify_ok [OF assms(1,2)]
  show ?thesis by (simp add: receiver_ok_def)
qed

text \<open>
  The polling interval is jittered by at most a fifth to either side, as long as four hundred
  times the interval fits in an \<open>int64\<close>.
\<close>

lemma jittered_interval_within_a_fifth:
  assumes "0 \<le> sint interval" "400 * sint interval < 2 ^ 62"
  shows "\<bar>sint (jittered_interval interval i environment) - sint interval\<bar> \<le> sint interval div 5"
proof -
  let ?I = "sint interval" and ?o = "jitter_offset i environment"
  have fits: "sint (word_of_int x :: 64 word) = x" if "- (2 ^ 63) \<le> x" "x < 2 ^ 63" for x
    using that by (simp add: sint_sbintrunc' signed_take_bit_int_eq_self)
  have product: "\<bar>?I * ?o\<bar> \<le> 400 * ?I"
    using jitter_offset_bounds [of i environment] assms(1) by (simp add: abs_mult mult.commute mult_left_mono abs_le_iff)
  have "interval * word_of_int ?o = word_of_int (?I * ?o)" by (simp add: wi_hom_mult [symmetric])
  then have signed: "sint (interval * word_of_int ?o) = ?I * ?o"
    using fits [of "?I * ?o"] product assms(2) by (simp add: abs_le_iff)
  note quotient = sdiv_bounds [OF product assms(1)]
  have "interval + word_of_int (?I * ?o sdiv 2000) = word_of_int (?I + ?I * ?o sdiv 2000)"
    by (simp add: wi_hom_add [symmetric])
  moreover have "?I div 5 \<le> ?I" using assms(1) by simp
  ultimately have "sint (jittered_interval interval i environment) = ?I + ?I * ?o sdiv 2000"
    unfolding jittered_interval_def signed using fits [of "?I + ?I * ?o sdiv 2000"] quotient assms
    by (simp add: abs_le_iff)
  then show ?thesis using quotient by simp
qed

section \<open>Watching\<close>

definition hub_latest :: "snapshot \<Rightarrow> event_channel \<Rightarrow> bool" where
  "hub_latest s ch \<longleftrightarrow>
     ec_events ch \<noteq> [] \<and> (last (ec_events ch))\<lparr>he_resync := False\<rparr> = snapshot_event (Some s) False"

text \<open>
  Publishing a snapshot reaches every subscriber, in any history of the hub: the last event
  in its queue is that snapshot's. A subscriber that could not keep up finds just this one event,
  marked as a resync, in a closed channel. No queue ever exceeds its size.
\<close>

lemma publishing_reaches_every_subscriber:
  assumes "new_watch_hub queue limit = Some start" "hub = foldl hub_step start actions"
    and "key |\<in>| wh_subscribers hub"
  shows "\<exists>ch. fmlookup (wh_channels (hub_publish (Some s) hub)) key = Some ch \<and> hub_latest s ch \<and>
    length (ec_events ch) \<le> wh_queue hub \<and>
    (if key |\<in>| wh_subscribers (hub_publish (Some s) hub) then \<not> ec_closed ch
     else ec_closed ch \<and> length (ec_events ch) = 1 \<and> he_resync (hd (ec_events ch)))"
proof -
  have ok: "hub_ok hub" using hub_run_ok [OF new_watch_hub_ok [OF assms(1)]] assms(2) by simp
  then have "key |\<in>| fmdom (wh_channels hub)" using assms(3) by (metis hub_ok_def fsubsetD)
  then obtain ch where ch: "fmlookup (wh_channels hub) key = Some ch" by (auto simp: fmlookup_dom_iff)
  with ok have "channel_ok (wh_queue hub) (key |\<in>| wh_subscribers hub) ch" by (simp add: hub_ok_def)
  with ok assms(3) have c: "channel_ok (wh_queue hub) True ch" "0 < wh_queue hub" by (simp_all add: hub_ok_def)
  have "he_resync (snapshot_event (Some s) False) = False" by (simp add: snapshot_event_def)
  then have "(snapshot_event (Some s) False)\<lparr>he_resync := False\<rparr> = snapshot_event (Some s) False" by simp
  with c ch assms(3) show ?thesis
    by (auto simp: hub_publish_Some publish_to_def hub_latest_def channel_ok_def)
qed

text \<open>
  C29: Draining a full queue can block for ever. In any interleaving of any number of goroutines
  that subscribe, publish, cancel and receive on a hub, whenever a publisher has found a queue full
  and is about to drain it, a world can be reached that no run leaves again: the publisher waits to
  receive from a channel the subscriber has emptied meanwhile and keeps the mutex, and every other
  goroutine stays outside the bodies of \<open>Subscribe\<close>, \<open>Publish\<close> and \<open>remove\<close>, so the set of
  subscribers never changes again and nobody sends to the channel or closes it.
\<close>

theorem draining_can_block_forever:
  assumes "new_watch_hub queue limit = Some hub" "hub_runs (hub_world_start hub) w"
    and "hw_points w p = DrainTest event key keys" "channel_of w key = Some ch" "ec_events ch \<noteq> []"
  shows "\<exists>w'. hub_runs w w' \<and>
    (\<forall>w''. hub_runs w' w'' \<longrightarrow>
       hw_owner w'' = Some p \<and> hw_points w'' p = DrainReceive event key keys \<and>
       channel_of w'' key = Some \<lparr>ec_events = [], ec_closed = False\<rparr> \<and>
       wh_subscribers (hw_hub w'') = wh_subscribers (hw_hub w') \<and>
       (\<forall>q. q \<noteq> p \<longrightarrow> \<not> in_body (hw_points w'' q)))"
proof -
  have "world_ok w" using world_runs_ok [OF assms(2) world_start_ok [OF assms(1)]] .
  from drain_reaches_stuck [OF this assms(3-5)] obtain w' where w': "hub_runs w w'"
    "publisher_stuck p (DrainReceive event key keys) key w'" by blast
  note publisher_stuck_runs [OF _ w'(2)]
  with w'(1) show ?thesis unfolding publisher_stuck_def by blast
qed

text \<open>One subscriber with a queue of one event, which it has not read yet when a snapshot is published.\<close>

definition sample_hub :: watch_hub where
  "sample_hub = \<lparr>wh_queue = 1, wh_max = 1, wh_next = 0, wh_subscribers = {||}, wh_channels = fmempty\<rparr>"

definition published_event :: hub_event where
  "published_event = snapshot_event (Some limits_snapshot) False"

definition subscribed_world :: hub_world where
  "subscribed_world = returns 1 (fst (hub_subscribe None sample_hub))
     (takes_lock 1 SubscribeBody (at_point 1 SubscribeLock (hub_world_start sample_hub)))"

definition drain_world :: hub_world where
  "drain_world = at_point 0 (DrainTest published_event 1 {||})
     (takes_lock 0 (PublishLoop published_event {|1|}) (at_point 0 (PublishLock limits_snapshot) subscribed_world))"

lemmas drain_world_defs = drain_world_def subscribed_world_def sample_hub_def hub_world_start_def world_defs
  hub_subscribe_def fcard.rep_eq

lemma subscribed_world_run: "hub_runs (hub_world_start sample_hub) subscribed_world"
proof -
  let ?w = "at_point 1 SubscribeLock (hub_world_start sample_hub)"
  have "hub_thread_step (hub_world_start sample_hub) ?w"
    by (rule hub_thread_step.call_subscribe) (simp add: hub_world_start_def)
  moreover have "hub_thread_step ?w (takes_lock 1 SubscribeBody ?w)"
    by (rule hub_thread_step.lock_subscribe) (simp_all add: drain_world_defs)
  moreover have "hub_thread_step (takes_lock 1 SubscribeBody ?w) subscribed_world"
    using hub_thread_step.body_subscribe [of "takes_lock 1 SubscribeBody ?w" 1 None]
    by (simp add: drain_world_defs)
  ultimately show ?thesis by (meson converse_rtranclp_into_rtranclp rtranclp.rtrancl_refl)
qed

lemma drain_world_run: "hub_runs (hub_world_start sample_hub) drain_world"
proof -
  let ?w = "at_point 0 (PublishLock limits_snapshot) subscribed_world"
  let ?v = "takes_lock 0 (PublishLoop published_event {|1|}) ?w"
  have "hub_thread_step subscribed_world ?w"
    by (rule hub_thread_step.call_publish) (simp add: drain_world_defs)
  moreover have "hub_thread_step ?w ?v"
    using hub_thread_step.lock_publish [of ?w 0 limits_snapshot]
    by (simp add: published_event_def [symmetric]) (simp add: drain_world_defs)
  moreover have "hub_thread_step ?v drain_world"
    using hub_thread_step.publish_full [of ?v 0 published_event "{|1|}" 1] by (simp add: drain_world_defs)
  ultimately show ?thesis using subscribed_world_run by (meson rtranclp.rtrancl_into_rtrancl)
qed

theorem draining_can_block_forever_witness:
  "\<exists>w. hub_runs (hub_world_start sample_hub) w \<and> hw_owner w = Some 0 \<and>
     hw_points w 0 = DrainReceive published_event 1 {||} \<and>
     channel_of w 1 = Some \<lparr>ec_events = [], ec_closed = False\<rparr>"
proof -
  have "new_watch_hub 1 1 = Some sample_hub" by (simp add: new_watch_hub_def sample_hub_def)
  moreover have "hw_points drain_world 0 = DrainTest published_event 1 {||}"
    "channel_of drain_world 1 = Some \<lparr>ec_events = [snapshot_event None False], ec_closed = False\<rparr>"
    by (simp_all add: drain_world_defs)
  ultimately obtain w where "hub_runs drain_world w" "hw_owner w = Some 0"
    "hw_points w 0 = DrainReceive published_event 1 {||}" "channel_of w 1 = Some \<lparr>ec_events = [], ec_closed = False\<rparr>"
    using draining_can_block_forever [OF _ drain_world_run, of 1 1 0 published_event 1 "{||}"] by fastforce
  with drain_world_run show ?thesis by (meson rtranclp_trans)
qed

end
