(* ===== verification/Page_Query.thy ===== *)
theory Page_Query
  imports Snapshot_Build
begin

text \<open>
  The paged query of one interaction model: \<open>internal/pagequery/query.go\<close>. The current snapshot
  is what the \<open>SnapshotProvider\<close> answers, an argument of the query. Go's \<open>int32\<close> and \<open>int64\<close>
  page numbers are integers; the one conversion that could wrap is written out.
\<close>

datatype page_error =
    PageInvalidArgument
  | PageEnvironmentMismatch
  | PageSnapshotUnavailable
  | PageNotFound
  | PageFailure catalog_error

datatype query_type = TypeAll | TypeOnlyData | QueryTypeOther string

record scalar_value =
  scv_type :: field_type
  scv_canonical :: string

record filter_condition =
  fc_field :: string
  fc_operator :: filter_operator
  fc_value :: "scalar_value option"
  fc_lower :: "scalar_value option"
  fc_upper :: "scalar_value option"
  fc_set :: "scalar_value list"

record page_request =
  pq_model :: string
  pq_region :: string
  pq_environment :: string
  pq_stage :: string
  pq_bucket :: "int option"
  pq_type :: query_type
  pq_number :: "int option"
  pq_size :: "int option"
  pq_conditions :: "filter_condition list"

text \<open>The operand map \<open>set\<close> is the list of its distinct values, \<open>None\<close> when it is nil.\<close>

record compiled_condition =
  cc_field :: model_field
  cc_operator :: filter_operator
  cc_value :: string
  cc_lower :: "string option"
  cc_upper :: "string option"
  cc_set :: "string list option"

record interaction_field =
  if_name :: string
  if_display_name :: string
  if_description :: string
  if_type :: field_type
  if_control :: ui_control
  if_queryable :: bool
  if_editable :: bool
  if_required :: bool
  if_sensitive :: bool
  if_projected :: bool
  if_key :: bool
  if_operators :: "filter_operator list"
  if_default_operator :: filter_operator
  if_default :: "string option"
  if_auto_fill :: "auto_fill_rule option"
  if_rules :: "validation_rule list"
  if_display_order :: int
  if_options :: "select_option list"

record page_row =
  rw_key :: string
  rw_revision :: u64
  rw_values :: data
  rw_base_present :: bool
  rw_base_values :: data
  rw_changed :: "string list"
  rw_masked :: "string list"

record page_release_type =
  pt_code :: string
  pt_name :: string
  pt_template :: string
  pt_available :: bool
  pt_reason :: string

record page_result =
  pg_model :: string
  pg_model_name :: string
  pg_type :: query_type
  pg_rows :: "page_row list"
  pg_projection :: "string list"
  pg_fields :: "interaction_field list"
  pg_release_types :: "page_release_type list"
  pg_number :: int
  pg_size :: int
  pg_total :: int
  pg_total_pages :: int
  pg_identity :: snapshot_identity
  pg_model_revision :: u64
  pg_collection_revision :: u64

section \<open>Options\<close>

definition page_scope :: "page_request \<Rightarrow> scope" where
  "page_scope q = \<lparr>sc_region = pq_region q, sc_environment = pq_environment q, sc_stage = pq_stage q\<rparr>"

text \<open>The zero \<open>CollectionDefinition{}\<close>, which a STATIC source is resolved with.\<close>

definition zero_definition :: collection_definition where
  "zero_definition = \<lparr>cd_name = [], cd_description = [], cd_fields = [], cd_fields_by_name = fmempty,
     cd_key_fields = [], cd_sdk_delivery = False, cd_schema_version = 0\<rparr>"

definition resolve_options ::
  "scalar_lib \<Rightarrow> snapshot \<Rightarrow> page_request \<Rightarrow> option_source option \<Rightarrow> catalog_error + select_option list" where
  "resolve_options lib s q source =
     (case source of
        None \<Rightarrow> Inr []
      | Some src \<Rightarrow>
          (case os_kind src of
             OptionSourceStatic \<Rightarrow> resolve_select_options lib src zero_definition []
           | OptionSourceOther _ \<Rightarrow> Inl STR ''unsupported source kind %q''
           | OptionSourceCollection \<Rightarrow>
               (case fmlookup (sn_collections s) (os_collection src) of
                  None \<Rightarrow> Inl STR ''option collection %q is unavailable''
                | Some v \<Rightarrow>
                    rbind (rerror STR ''evaluate option collection: %w''
                      (evaluate \<lparr>oq_collection = os_collection src, oq_scope = page_scope q, oq_bucket = None\<rparr>
                         (snapshot_records s (os_collection src)) (snapshot_rules s (os_collection src)))) (\<lambda>records.
                    resolve_select_options lib src (cv_definition v) records))))"

section \<open>Conditions\<close>

definition compare_scalar :: "scalar_lib \<Rightarrow> field_type \<Rightarrow> string \<Rightarrow> string \<Rightarrow> int" where
  "compare_scalar lib ft l r =
     (case ft of
        FieldTypeInt64 \<Rightarrow>
          if parse_int64_value l < parse_int64_value r then -1
          else if parse_int64_value r < parse_int64_value l then 1 else 0
      | FieldTypeFloat64 \<Rightarrow> lib_compare_float lib l r
      | FieldTypeTimestamp \<Rightarrow> lib_compare_time lib l r
      | _ \<Rightarrow> compare_string l r)"

text \<open>The closure \<open>canonical\<close> of a condition.\<close>

definition condition_scalar ::
  "scalar_lib \<Rightarrow> model_field \<Rightarrow> scalar_value \<Rightarrow> catalog_error + string" where
  "condition_scalar lib f v =
     (if scv_type v \<noteq> FieldTypeOther [] \<and> scv_type v \<noteq> mf_type f
      then Inl STR ''scalar type %q does not match %q''
      else canonicalize_scalar lib (mf_type f) (scv_canonical v))"

definition condition_bound ::
  "scalar_lib \<Rightarrow> model_field \<Rightarrow> scalar_value option \<Rightarrow> catalog_error + string option" where
  "condition_bound lib f v =
     (case v of None \<Rightarrow> Inr None | Some x \<Rightarrow> rbind (condition_scalar lib f x) (\<lambda>t. Inr (Some t)))"

definition condition_member ::
  "scalar_lib \<Rightarrow> model_field \<Rightarrow> string list \<Rightarrow> scalar_value \<Rightarrow> catalog_error + string list" where
  "condition_member lib f seen v =
     rbind (condition_scalar lib f v) (\<lambda>t.
     if t \<in> set seen then Inl STR ''condition %d repeats set value %q'' else Inr (seen @ [t]))"

definition blank_condition :: "model_field \<Rightarrow> filter_operator \<Rightarrow> compiled_condition" where
  "blank_condition f p =
     \<lparr>cc_field = f, cc_operator = p, cc_value = [], cc_lower = None, cc_upper = None, cc_set = None\<rparr>"

definition bounds_reversed :: "scalar_lib \<Rightarrow> model_field \<Rightarrow> string option \<Rightarrow> string option \<Rightarrow> bool" where
  "bounds_reversed lib f lower upper =
     (case (lower, upper) of
        (Some l, Some u) \<Rightarrow> 0 < compare_scalar lib (mf_type f) l u
      | _ \<Rightarrow> False)"

text \<open>The switch on the operator: the operands each one takes, in canonical form.\<close>

definition compile_operands ::
  "scalar_lib \<Rightarrow> model_field \<Rightarrow> filter_condition \<Rightarrow> catalog_error + compiled_condition" where
  "compile_operands lib f c =
     (let result = blank_condition f (fc_operator c)
      in if fc_operator c = FilterExact \<or> fc_operator c = FilterContains then
           (case fc_value c of
              None \<Rightarrow> Inl STR ''condition %d requires only value''
            | Some v \<Rightarrow>
                if fc_lower c \<noteq> None \<or> fc_upper c \<noteq> None \<or> fc_set c \<noteq> []
                then Inl STR ''condition %d requires only value''
                else rbind (condition_scalar lib f v) (\<lambda>t. Inr (result\<lparr>cc_value := t\<rparr>)))
         else if fc_operator c = FilterClosedRange \<or> fc_operator c = FilterOpenRange then
           (if fc_value c \<noteq> None \<or> fc_set c \<noteq> [] \<or> (fc_lower c = None \<and> fc_upper c = None)
            then Inl STR ''condition %d requires lower and/or upper only''
            else rbind (condition_bound lib f (fc_lower c)) (\<lambda>lower.
                 rbind (condition_bound lib f (fc_upper c)) (\<lambda>upper.
                 if bounds_reversed lib f lower upper then Inl STR ''condition %d lower exceeds upper''
                 else Inr (result\<lparr>cc_lower := lower, cc_upper := upper\<rparr>))))
         else if fc_operator c = FilterIn \<or> fc_operator c = FilterNotIn then
           (if fc_value c \<noteq> None \<or> fc_lower c \<noteq> None \<or> fc_upper c \<noteq> None \<or> fc_set c = [] \<or> 100 < length (fc_set c)
            then Inl STR ''condition %d requires a set with 1..100 values''
            else rbind (rfold (condition_member lib f) [] (fc_set c)) (\<lambda>members.
                 Inr (result\<lparr>cc_set := Some members\<rparr>)))
         else Inl STR ''condition %d operator %q is unsupported'')"

definition condition_values :: "compiled_condition \<Rightarrow> string list" where
  "condition_values c =
     (case cc_set c of
        Some members \<Rightarrow> members
      | None \<Rightarrow>
          if cc_lower c \<noteq> None \<or> cc_upper c \<noteq> None
          then (case cc_lower c of None \<Rightarrow> [] | Some l \<Rightarrow> [l]) @ (case cc_upper c of None \<Rightarrow> [] | Some u \<Rightarrow> [u])
          else [cc_value c])"

type_synonym option_cache = "(string, (string, bool) fmap) fmap"

text \<open>The enabled codes of an option list; a later option of the same code wins.\<close>

definition enabled_codes :: "select_option list \<Rightarrow> (string, bool) fmap" where
  "enabled_codes options = foldl (\<lambda>m opt. fmupd (so_code opt) (\<not> so_disabled opt) m) fmempty options"

definition code_enabled :: "(string, bool) fmap \<Rightarrow> string \<Rightarrow> bool" where
  "code_enabled allowed v = (fmlookup allowed v = Some True)"

definition check_selections ::
  "scalar_lib \<Rightarrow> snapshot \<Rightarrow> page_request \<Rightarrow> option_cache \<Rightarrow> compiled_condition \<Rightarrow> catalog_error + option_cache" where
  "check_selections lib s q cache c =
     (case mf_source (cc_field c) of
        None \<Rightarrow> Inr cache
      | Some src \<Rightarrow>
          rbind (case fmlookup cache (mf_name (cc_field c)) of
                   Some allowed \<Rightarrow> Inr (allowed, cache)
                 | None \<Rightarrow>
                     rbind (resolve_options lib s q (Some src)) (\<lambda>options.
                     Inr (enabled_codes options, fmupd (mf_name (cc_field c)) (enabled_codes options) cache)))
            (\<lambda>(allowed, cache').
             if list_ex (\<lambda>v. \<not> code_enabled allowed v) (condition_values c)
             then Inl STR ''condition %d selection %q is missing or disabled'' else Inr cache'))"

definition page_fields :: "compiled_model \<Rightarrow> (string, model_field) fmap" where
  "page_fields m = foldl (\<lambda>fs f. fmupd (mf_name f) f fs) fmempty (cm_fields m)"

text \<open>One iteration of the loop over the conditions: the cache and what is compiled so far.\<close>

definition compile_condition ::
  "scalar_lib \<Rightarrow> snapshot \<Rightarrow> page_request \<Rightarrow> compiled_model \<Rightarrow> option_cache \<times> compiled_condition list
     \<Rightarrow> filter_condition \<Rightarrow> catalog_error + option_cache \<times> compiled_condition list" where
  "compile_condition lib s q m acc c =
     (case fmlookup (page_fields m) (trim_space (fc_field c)) of
        None \<Rightarrow> Inl STR ''condition %d field %q is not queryable''
      | Some f \<Rightarrow>
          if \<not> mf_queryable f \<or> mf_sensitive f then Inl STR ''condition %d field %q is not queryable''
          else if fc_operator c \<notin> set (mf_operators f)
          then Inl STR ''condition %d operator %q is not allowed for field %q''
          else rbind (compile_operands lib f c) (\<lambda>result.
               rbind (check_selections lib s q (fst acc) result) (\<lambda>cache.
               Inr (cache, snd acc @ [result]))))"

definition compile_conditions ::
  "scalar_lib \<Rightarrow> snapshot \<Rightarrow> page_request \<Rightarrow> compiled_model \<Rightarrow> catalog_error + compiled_condition list" where
  "compile_conditions lib s q m =
     (if 20 < length (pq_conditions q) then Inl STR ''at most 20 conditions are allowed''
      else rbind (rfold (compile_condition lib s q m) (fmempty, []) (pq_conditions q)) (\<lambda>(_, compiled). Inr compiled))"

text \<open>\<open>strings.Contains\<close>\<close>

fun contains_text :: "string \<Rightarrow> string \<Rightarrow> bool" where
  "contains_text [] part = (part = [])"
| "contains_text (c # s) part = (take (length part) (c # s) = part \<or> contains_text s part)"

definition within_lower :: "scalar_lib \<Rightarrow> compiled_condition \<Rightarrow> string \<Rightarrow> bool" where
  "within_lower lib c v =
     (case cc_lower c of
        None \<Rightarrow> True
      | Some l \<Rightarrow>
          let comparison = compare_scalar lib (mf_type (cc_field c)) v l
          in \<not> (comparison < 0 \<or> (cc_operator c = FilterOpenRange \<and> comparison = 0)))"

definition within_upper :: "scalar_lib \<Rightarrow> compiled_condition \<Rightarrow> string \<Rightarrow> bool" where
  "within_upper lib c v =
     (case cc_upper c of
        None \<Rightarrow> True
      | Some u \<Rightarrow>
          let comparison = compare_scalar lib (mf_type (cc_field c)) v u
          in \<not> (comparison > 0 \<or> (cc_operator c = FilterOpenRange \<and> comparison = 0)))"

definition set_member :: "compiled_condition \<Rightarrow> string \<Rightarrow> bool" where
  "set_member c v = (case cc_set c of None \<Rightarrow> False | Some members \<Rightarrow> v \<in> set members)"

definition matches_condition :: "scalar_lib \<Rightarrow> config_record \<Rightarrow> compiled_condition \<Rightarrow> bool" where
  "matches_condition lib r c =
     (case fmlookup (deref_map (cr_data r)) (mf_name (cc_field c)) of
        None \<Rightarrow> False
      | Some v \<Rightarrow>
          (case cc_operator c of
             FilterExact \<Rightarrow> v = cc_value c
           | FilterContains \<Rightarrow> contains_text v (cc_value c)
           | FilterClosedRange \<Rightarrow> within_lower lib c v \<and> within_upper lib c v
           | FilterOpenRange \<Rightarrow> within_lower lib c v \<and> within_upper lib c v
           | FilterIn \<Rightarrow> set_member c v
           | FilterNotIn \<Rightarrow> \<not> set_member c v
           | FilterOther _ \<Rightarrow> True))"

definition matches_conditions :: "scalar_lib \<Rightarrow> config_record \<Rightarrow> compiled_condition list \<Rightarrow> bool" where
  "matches_conditions lib r conditions = list_all (matches_condition lib r) conditions"

section \<open>Pages\<close>

definition explicit_page :: "catalog_error \<Rightarrow> int option \<Rightarrow> int \<Rightarrow> catalog_error + int" where
  "explicit_page e given preset =
     (case given of None \<Rightarrow> Inr preset | Some n \<Rightarrow> if n \<le> 0 then Inl e else Inr n)"

definition normalize_page :: "page_request \<Rightarrow> int \<Rightarrow> int \<Rightarrow> catalog_error + int \<times> int" where
  "normalize_page q default_size max_size =
     rbind (explicit_page STR ''page query: explicit page number must be positive'' (pq_number q) 1) (\<lambda>number.
     rbind (explicit_page STR ''page query: explicit page size must be positive'' (pq_size q) default_size) (\<lambda>width.
     if max_size < width then Inl STR ''page query: page size %d exceeds maximum %d'' else Inr (number, width)))"

text \<open>The number of pages, and the page, its start and its end after clamping to the last one.\<close>

definition total_pages :: "int \<Rightarrow> int \<Rightarrow> int" where
  "total_pages amount width = (if 0 < amount then (amount + width - 1) div width else 0)"

definition page_bounds :: "int \<Rightarrow> int \<Rightarrow> int \<Rightarrow> int \<times> int \<times> int" where
  "page_bounds amount number width =
     (let start = (number - 1) * width
      in if 0 < amount \<and> amount \<le> start
         then (let final = to_int32 (nat (total_pages amount width)); start' = (final - 1) * width
               in (final, start', start' + width))
         else (number, start, start + width))"

definition slice_rows :: "'a list \<Rightarrow> int \<Rightarrow> int \<Rightarrow> 'a list" where
  "slice_rows rows start stop =
     (if rows = [] then []
      else let stop' = (if int (length rows) < stop then int (length rows) else stop)
           in take (nat (stop' - start)) (drop (nat start) rows))"

section \<open>Rows\<close>

definition sensitive_fields :: "compiled_model \<Rightarrow> string set" where
  "sensitive_fields m = {mf_name f | f. f \<in> set (cm_fields m) \<and> mf_sensitive f}"

lemma sensitive_fields_code [code]: "sensitive_fields m = mf_name ` set (filter mf_sensitive (cm_fields m))"
  by (auto simp: sensitive_fields_def)

text \<open>Whether a projected field counts as changed; sensitive fields are compared with their presence.\<close>

definition field_changed :: "bool \<Rightarrow> data \<Rightarrow> bool \<Rightarrow> data \<Rightarrow> string \<Rightarrow> bool" where
  "field_changed sensitive effective base_present base name =
     (if sensitive
      then (name |\<in>| fmdom effective) \<noteq> (base_present \<and> name |\<in>| fmdom base) \<or>
           (name |\<in>| fmdom effective \<and> base_present \<and> map_read effective name \<noteq> map_read base name)
      else \<not> base_present \<or> map_read effective name \<noteq> map_read base name)"

definition project_values :: "string set \<Rightarrow> string list \<Rightarrow> data \<Rightarrow> data" where
  "project_values hidden projection source =
     fmfilter (\<lambda>name. name \<in> set projection \<and> name \<notin> hidden) source"

definition base_records_by_key :: "config_record list \<Rightarrow> (string, config_record) fmap" where
  "base_records_by_key records = foldl (\<lambda>m r. fmupd (cr_key r) r m) fmempty records"

definition project_row ::
  "compiled_model \<Rightarrow> (string, config_record) fmap \<Rightarrow> config_record \<Rightarrow> page_row" where
  "project_row m bases r =
     (let hidden = sensitive_fields m; effective = deref_map (cr_data r);
          found = fmlookup bases (cr_key r);
          base = (case found of None \<Rightarrow> fmempty | Some b \<Rightarrow> deref_map (cr_data b))
      in \<lparr>rw_key = cr_key r, rw_revision = cr_revision r,
          rw_values = project_values hidden (cm_projection m) effective,
          rw_base_present = (found \<noteq> None),
          rw_base_values = project_values hidden (cm_projection m) base,
          rw_changed = filter (\<lambda>name. field_changed (name \<in> hidden) effective (found \<noteq> None) base name)
            (cm_projection m),
          rw_masked = sort (map mf_name (filter (\<lambda>f. mf_sensitive f \<and> mf_name f |\<in>| fmdom effective) (cm_fields m)))\<rparr>)"

section \<open>Interaction fields\<close>

definition zero_field :: field_definition where
  "zero_field = \<lparr>fd_name = [], fd_display_name = [], fd_type = FieldTypeOther [], fd_required = False,
     fd_sensitive = False, fd_default = None, fd_description = [], fd_display_order = 0, fd_rules = []\<rparr>"

definition auto_fill_by_field :: "compiled_model \<Rightarrow> (string, auto_fill_rule) fmap" where
  "auto_fill_by_field m = foldl (\<lambda>rs a. fmupd (af_field a) a rs) fmempty (cm_auto_fill m)"

definition interaction_field_of ::
  "collection_definition \<Rightarrow> compiled_model \<Rightarrow> model_field \<Rightarrow> select_option list \<Rightarrow> interaction_field" where
  "interaction_field_of d m f options =
     (let g = (case definition_field d (mf_name f) of None \<Rightarrow> zero_field | Some x \<Rightarrow> x)
      in \<lparr>if_name = mf_name f, if_display_name = fd_display_name g, if_description = fd_description g,
          if_type = mf_type f, if_control = mf_control f, if_queryable = mf_queryable f,
          if_editable = mf_editable f, if_required = mf_required f, if_sensitive = mf_sensitive f,
          if_projected = (mf_name f \<in> set (cm_projection m)), if_key = (mf_name f \<in> set (cm_key_fields m)),
          if_operators = mf_operators f,
          if_default_operator = (case mf_operators f of [] \<Rightarrow> FilterOther [] | p # _ \<Rightarrow> p),
          if_default = mf_default f, if_auto_fill = fmlookup (auto_fill_by_field m) (mf_name f),
          if_rules = mf_rules f, if_display_order = fd_display_order g, if_options = options\<rparr>)"

definition interaction_fields ::
  "scalar_lib \<Rightarrow> snapshot \<Rightarrow> page_request \<Rightarrow> collection_definition \<Rightarrow> compiled_model
     \<Rightarrow> catalog_error + interaction_field list" where
  "interaction_fields lib s q d m =
     rbind (rmap (\<lambda>f. rbind (resolve_options lib s q (mf_source f)) (\<lambda>options.
       Inr (interaction_field_of d m f options))) (cm_fields m)) (\<lambda>fields.
     Inr (sort_key if_display_order fields))"

definition page_release_type_of :: "release_type_definition \<Rightarrow> page_release_type" where
  "page_release_type_of t =
     \<lparr>pt_code = rt_code t, pt_name = rt_name t, pt_template = rt_template t,
      pt_available = (rt_enabled t \<and> rt_available t), pt_reason = rt_reason t\<rparr>"

section \<open>The query\<close>

definition trim_page_request :: "page_request \<Rightarrow> page_request" where
  "trim_page_request q = q\<lparr>pq_model := trim_space (pq_model q), pq_region := trim_space (pq_region q),
     pq_environment := trim_space (pq_environment q), pq_stage := trim_space (pq_stage q)\<rparr>"

text \<open>The records of the model's collection in the scope of the request that meet the conditions.\<close>

definition page_records ::
  "scalar_lib \<Rightarrow> snapshot \<Rightarrow> page_request \<Rightarrow> compiled_model \<Rightarrow> compiled_condition list
     \<Rightarrow> page_error + config_record list" where
  "page_records lib s q m conditions =
     rbind (rerror (PageFailure STR ''page query: evaluate scope: %w'')
       (evaluate \<lparr>oq_collection = cm_collection m, oq_scope = page_scope q, oq_bucket = pq_bucket q\<rparr>
          (snapshot_records s (cm_collection m)) (snapshot_rules s (cm_collection m)))) (\<lambda>records.
     Inr (if conditions = [] then records else filter (\<lambda>r. matches_conditions lib r conditions) records))"

text \<open>The page of the rows, and for a query of type ALL what the editor needs besides.\<close>

definition page_of_rows ::
  "snapshot \<Rightarrow> page_request \<Rightarrow> compiled_model \<Rightarrow> u64 \<Rightarrow> int \<Rightarrow> int \<Rightarrow> page_row list \<Rightarrow> page_result" where
  "page_of_rows s q m revision number width rows =
     (let amount = int (length rows)
      in case page_bounds amount number width of (number', start, stop) \<Rightarrow>
         \<lparr>pg_model = cm_code m, pg_model_name = cm_name m, pg_type = pq_type q,
          pg_rows = slice_rows rows start stop, pg_projection = [], pg_fields = [], pg_release_types = [],
          pg_number = number', pg_size = width, pg_total = amount, pg_total_pages = total_pages amount width,
          pg_identity = sn_identity s, pg_model_revision = cm_revision m,
          pg_collection_revision = revision\<rparr>)"

definition with_interaction ::
  "scalar_lib \<Rightarrow> snapshot \<Rightarrow> page_request \<Rightarrow> collection_definition \<Rightarrow> compiled_model \<Rightarrow> page_result
     \<Rightarrow> page_error + page_result" where
  "with_interaction lib s q d m result =
     (if pq_type q \<noteq> TypeAll then Inr result
      else rbind (rerror (PageFailure STR ''page query: resolve field %q options: %w'')
             (interaction_fields lib s q d m)) (\<lambda>fields.
           Inr (result\<lparr>pg_projection := cm_projection m, pg_fields := fields,
                  pg_release_types := map page_release_type_of (cm_release_types m)\<rparr>)))"

definition query_model ::
  "scalar_lib \<Rightarrow> snapshot \<Rightarrow> page_request \<Rightarrow> compiled_model \<Rightarrow> collection_view \<Rightarrow> page_error + page_result" where
  "query_model lib s q m v =
     rbind (rerror PageInvalidArgument (compile_conditions lib s q m)) (\<lambda>conditions.
     rbind (rerror PageInvalidArgument (normalize_page q (cm_default_page m) (cm_max_page m))) (\<lambda>(number, width).
     rbind (page_records lib s q m conditions) (\<lambda>records.
     with_interaction lib s q (cv_definition v) m
       (page_of_rows s q m (cv_version v) number width
          (map (project_row m (base_records_by_key (snapshot_records s (cm_collection m)))) records)))))"

definition page_query ::
  "scalar_lib \<Rightarrow> string \<Rightarrow> snapshot option \<Rightarrow> page_request \<Rightarrow> page_error + page_result" where
  "page_query lib managed current raw =
     (let q = trim_page_request raw
      in if managed = [] then Inl (PageFailure STR ''page query: snapshot provider and managed environment are required'')
         else if pq_model q = [] \<or> pq_region q = [] \<or> pq_environment q = [] then Inl PageInvalidArgument
         else if pq_environment q \<noteq> managed then Inl PageEnvironmentMismatch
         else if (case pq_bucket q of None \<Rightarrow> False | Some b \<Rightarrow> b < 0 \<or> 99 < b) then Inl PageInvalidArgument
         else if pq_type q \<noteq> TypeAll \<and> pq_type q \<noteq> TypeOnlyData then Inl PageInvalidArgument
         else case current of
                None \<Rightarrow> Inl PageSnapshotUnavailable
              | Some s \<Rightarrow>
                  if sn_environment s \<noteq> managed then Inl PageEnvironmentMismatch
                  else case fmlookup (sn_models s) (pq_model q) of
                         None \<Rightarrow> Inl PageNotFound
                       | Some m \<Rightarrow>
                           (case fmlookup (sn_collections s) (cm_collection m) of
                              None \<Rightarrow> Inl PageNotFound
                            | Some v \<Rightarrow> query_model lib s q m v))"

text \<open>\<open>New\<close>\<close>

definition new_querier :: "string \<Rightarrow> string" where
  "new_querier managed = trim_space managed"

end
