(* ===== verification/Page_Facts.thy ===== *)
theory Page_Facts
  imports Page_Query
begin

text \<open>
  Lemmas about the paged query: the arithmetic of pages, what the compiled conditions demand of
  a record, and what a row shows of it.
\<close>

section \<open>Page arithmetic\<close>

lemma total_pages_bounds:
  assumes "0 < width" "0 < amount"
  shows "0 < total_pages amount width" "(total_pages amount width - 1) * width < amount"
    "amount \<le> total_pages amount width * width" "total_pages amount width \<le> amount"
proof -
  let ?p = "(amount + width - 1) div width"
  have p: "total_pages amount width = ?p" using assms by (simp add: total_pages_def)
  have split: "?p * width + (amount + width - 1) mod width = amount + width - 1"
    by (rule div_mult_mod_eq)
  have rest: "0 \<le> (amount + width - 1) mod width" "(amount + width - 1) mod width < width"
    using assms(1) by simp_all
  have "(?p - 1) * width = ?p * width - width" by (simp add: left_diff_distrib)
  with split rest show "(total_pages amount width - 1) * width < amount"
    "amount \<le> total_pages amount width * width"
    unfolding p by linarith+
  then show "0 < total_pages amount width"
    using assms by (smt (verit) mult_nonpos_nonneg)
  then show "total_pages amount width \<le> amount"
    using assms \<open>(total_pages amount width - 1) * width < amount\<close>
    by (smt (verit) mult_le_cancel_left1)
qed

lemma to_int32_small: "n < 2 ^ 31 \<Longrightarrow> to_int32 n = int n"
  by (simp add: to_int32_def)

text \<open>The number of the page a query shows: the requested one, or the last one when it is too far.\<close>

definition shown_page :: "int \<Rightarrow> int \<Rightarrow> int \<Rightarrow> int" where
  "shown_page amount width number =
     (if 0 < amount \<and> total_pages amount width < number then total_pages amount width else number)"

lemma beyond_last_page:
  assumes "0 < width" "0 < amount"
  shows "amount \<le> (number - 1) * width \<longleftrightarrow> total_pages amount width < number"
proof
  assume "total_pages amount width < number"
  then have "total_pages amount width * width \<le> (number - 1) * width" using assms(1) by simp
  then show "amount \<le> (number - 1) * width" using total_pages_bounds(3) [OF assms] by linarith
next
  assume le: "amount \<le> (number - 1) * width"
  show "total_pages amount width < number"
  proof (rule ccontr)
    assume "\<not> total_pages amount width < number"
    then have "(number - 1) * width \<le> (total_pages amount width - 1) * width" using assms(1) by simp
    then show False using total_pages_bounds(2) [OF assms] le by linarith
  qed
qed

lemma page_bounds_shown:
  assumes "0 < width" "0 \<le> amount" "amount < 2 ^ 31"
  shows "page_bounds amount number width =
    (let n = shown_page amount width number in (n, (n - 1) * width, n * width))"
proof (cases "0 < amount \<and> amount \<le> (number - 1) * width")
  case True
  then have "total_pages amount width < number" using beyond_last_page assms(1) by blast
  moreover have "to_int32 (nat (total_pages amount width)) = total_pages amount width"
    using total_pages_bounds(1,4) [OF assms(1), of amount] True assms(3)
    by (subst to_int32_small) (simp_all add: nat_less_iff)
  ultimately show ?thesis using True by (simp add: page_bounds_def shown_page_def Let_def left_diff_distrib)
next
  case False
  then have "\<not> (0 < amount \<and> total_pages amount width < number)" using beyond_last_page assms(1) by blast
  with False show ?thesis by (auto simp: page_bounds_def shown_page_def Let_def left_diff_distrib)
qed

lemma slice_rows_eq: "slice_rows rows start stop = take (nat (stop - start)) (drop (nat start) rows)"
  if "0 \<le> start"
proof (cases "int (length rows) < stop")
  case True
  then have "nat (int (length rows) - start) = length (drop (nat start) rows)"
    using that by simp
  moreover have "length (drop (nat start) rows) \<le> nat (stop - start)" using True that by simp
  ultimately show ?thesis using True by (simp add: slice_rows_def Let_def)
qed (simp add: slice_rows_def Let_def)

text \<open>The pages of a list, one after the other, are the list.\<close>

lemma concat_pages:
  "concat (map (\<lambda>n. take w (drop (n * w) xs)) [0..<k]) = take (k * w) xs"
  by (induction k) (simp_all add: take_add add.commute [of w])

lemma concat_all_pages:
  assumes "0 < width"
  shows "concat (map (\<lambda>n. slice_rows xs ((int n - 1) * width) (int n * width))
           [1..<Suc (nat (total_pages (int (length xs)) width))]) = xs"
proof -
  let ?k = "nat (total_pages (int (length xs)) width)" and ?w = "nat width"
  have "slice_rows xs (int n * width) ((int n + 1) * width) = take ?w (drop (n * ?w) xs)" for n
  proof -
    have "(int n + 1) * width - int n * width = width" by (simp add: distrib_right)
    moreover have "nat (int n * width) = n * ?w" using assms by (simp add: nat_mult_distrib)
    ultimately show ?thesis using assms by (simp add: slice_rows_eq)
  qed
  moreover have "[1..<Suc ?k] = map Suc [0..<?k]" by (simp add: map_Suc_upt)
  ultimately have "concat (map (\<lambda>n. slice_rows xs ((int n - 1) * width) (int n * width)) [1..<Suc ?k]) =
      concat (map (\<lambda>n. take ?w (drop (n * ?w) xs)) [0..<?k])"
    by (simp add: comp_def add.commute)
  moreover have "length xs \<le> ?k * ?w"
  proof (cases "xs = []")
    case False
    then have "int (length xs) \<le> total_pages (int (length xs)) width * width"
      using total_pages_bounds(3) assms by simp
    moreover have "int (?k * ?w) = total_pages (int (length xs)) width * width"
      using total_pages_bounds(1) [OF assms, of "int (length xs)"] False assms by simp
    ultimately show ?thesis by linarith
  qed simp
  ultimately show ?thesis by (simp only: concat_pages take_all)
qed

lemma explicit_page_Inr:
  "explicit_page e given preset = Inr n \<longleftrightarrow> (case given of None \<Rightarrow> n = preset | Some k \<Rightarrow> 0 < k \<and> n = k)"
  by (auto simp: explicit_page_def split: option.splits)

lemma normalize_page_Inr:
  "normalize_page q d m = Inr (number, width) \<longleftrightarrow>
     (case pq_number q of None \<Rightarrow> number = 1 | Some k \<Rightarrow> 0 < k \<and> number = k) \<and>
     (case pq_size q of None \<Rightarrow> width = d | Some k \<Rightarrow> 0 < k \<and> width = k) \<and> width \<le> m"
  by (auto simp: normalize_page_def rbind_Inr_iff explicit_page_Inr not_less)

section \<open>What conditions demand\<close>

lemma contains_text_iff: "contains_text s part \<longleftrightarrow> (\<exists>u w. s = u @ part @ w)"
proof (induction s)
  case (Cons c s)
  have "take (length part) (c # s) = part \<longleftrightarrow> (\<exists>w. c # s = part @ w)"
    by (metis append_eq_conv_conj)
  moreover have "(\<exists>u w. c # s = u @ part @ w) \<longleftrightarrow> (\<exists>w. c # s = part @ w) \<or> (\<exists>u w. s = u @ part @ w)"
    by (metis append_Cons append_Nil list.sel(3) neq_Nil_conv)
  ultimately show ?case using Cons by simp
qed simp

lemma compare_scalar_canonical: "compare_scalar = compare_canonical"
  by (intro ext) (simp add: compare_scalar_def compare_canonical_def compare_int_def split: field_type.split)

text \<open>
  What a condition asks of the value of its field, on the operands as they were sent: each operand
  is read as a scalar of the field's type.
\<close>

definition condition_demands ::
  "scalar_lib \<Rightarrow> model_field \<Rightarrow> filter_condition \<Rightarrow> string \<Rightarrow> bool" where
  "condition_demands lib f c v \<longleftrightarrow>
     (case fc_operator c of
        FilterExact \<Rightarrow> \<exists>x. fc_value c = Some x \<and> condition_scalar lib f x = Inr v
      | FilterContains \<Rightarrow> \<exists>x t u w. fc_value c = Some x \<and> condition_scalar lib f x = Inr t \<and> v = u @ t @ w
      | FilterClosedRange \<Rightarrow>
          (\<forall>x t. fc_lower c = Some x \<longrightarrow> condition_scalar lib f x = Inr t \<longrightarrow> 0 \<le> compare_canonical lib (mf_type f) v t) \<and>
          (\<forall>x t. fc_upper c = Some x \<longrightarrow> condition_scalar lib f x = Inr t \<longrightarrow> compare_canonical lib (mf_type f) v t \<le> 0)
      | FilterOpenRange \<Rightarrow>
          (\<forall>x t. fc_lower c = Some x \<longrightarrow> condition_scalar lib f x = Inr t \<longrightarrow> 0 < compare_canonical lib (mf_type f) v t) \<and>
          (\<forall>x t. fc_upper c = Some x \<longrightarrow> condition_scalar lib f x = Inr t \<longrightarrow> compare_canonical lib (mf_type f) v t < 0)
      | FilterIn \<Rightarrow> \<exists>x \<in> set (fc_set c). condition_scalar lib f x = Inr v
      | FilterNotIn \<Rightarrow> \<not> (\<exists>x \<in> set (fc_set c). condition_scalar lib f x = Inr v)
      | FilterOther _ \<Rightarrow> False)"

lemma condition_members_Inr:
  assumes "rfold (condition_member lib f) seen xs = Inr members"
  shows "set members = set seen \<union> {t. \<exists>x \<in> set xs. condition_scalar lib f x = Inr t}"
  using assms
proof (induction xs arbitrary: seen)
  case (Cons x xs)
  then obtain u where "condition_member lib f seen x = Inr u" "rfold (condition_member lib f) u xs = Inr members"
    unfolding rfold.simps rbind_Inr_iff by blast
  then obtain t where t: "condition_scalar lib f x = Inr t" "rfold (condition_member lib f) (seen @ [t]) xs = Inr members"
    by (auto simp: condition_member_def rbind_Inr_iff split: if_splits)
  from Cons.IH [OF t(2)] t(1) show ?case by auto
qed simp

lemma condition_bound_Inr:
  "condition_bound lib f v = Inr b \<longleftrightarrow>
     (case v of None \<Rightarrow> b = None | Some x \<Rightarrow> \<exists>t. condition_scalar lib f x = Inr t \<and> b = Some t)"
  by (auto simp: condition_bound_def rbind_Inr_iff split: option.splits)

lemma compile_operands_fields:
  assumes "compile_operands lib f c = Inr result"
  shows "cc_field result = f" "cc_operator result = fc_operator c"
  using assms
  by (auto simp: compile_operands_def Let_def rbind_Inr_iff blank_condition_def split: if_splits option.splits)

text \<open>The three groups of operators.\<close>

lemma compile_value_operand:
  assumes "compile_operands lib f c = Inr result" "fc_operator c = FilterExact \<or> fc_operator c = FilterContains"
  shows "\<exists>x. fc_value c = Some x \<and> condition_scalar lib f x = Inr (cc_value result)"
  using assms
  by (auto simp: compile_operands_def Let_def rbind_Inr_iff split: if_splits option.splits)

lemma compile_range_operands:
  assumes "compile_operands lib f c = Inr result" "fc_operator c = FilterClosedRange \<or> fc_operator c = FilterOpenRange"
  shows "condition_bound lib f (fc_lower c) = Inr (cc_lower result)"
    "condition_bound lib f (fc_upper c) = Inr (cc_upper result)"
proof -
  have ops: "fc_operator c \<noteq> FilterExact" "fc_operator c \<noteq> FilterContains" using assms(2) by auto
  then obtain lower upper where b: "condition_bound lib f (fc_lower c) = Inr lower"
    "condition_bound lib f (fc_upper c) = Inr upper"
    "result = (blank_condition f (fc_operator c))\<lparr>cc_lower := lower, cc_upper := upper\<rparr>"
    using assms by (auto simp: compile_operands_def Let_def rbind_Inr_iff split: if_splits)
  then show "condition_bound lib f (fc_lower c) = Inr (cc_lower result)"
    "condition_bound lib f (fc_upper c) = Inr (cc_upper result)" by simp_all
qed

lemma compile_set_operand:
  assumes "compile_operands lib f c = Inr result" "fc_operator c = FilterIn \<or> fc_operator c = FilterNotIn"
  shows "set_member result v \<longleftrightarrow> (\<exists>x \<in> set (fc_set c). condition_scalar lib f x = Inr v)"
proof -
  have ops: "fc_operator c \<notin> {FilterExact, FilterContains, FilterClosedRange, FilterOpenRange}"
    using assms(2) by auto
  then obtain members where "rfold (condition_member lib f) [] (fc_set c) = Inr members"
    "result = (blank_condition f (fc_operator c))\<lparr>cc_set := Some members\<rparr>"
    using assms by (auto simp: compile_operands_def Let_def rbind_Inr_iff split: if_splits)
  then show ?thesis using condition_members_Inr by (fastforce simp: set_member_def)
qed

lemma within_lower_iff:
  assumes "condition_bound lib (cc_field r) b = Inr (cc_lower r)"
  shows "within_lower lib r v \<longleftrightarrow> (\<forall>x t. b = Some x \<longrightarrow> condition_scalar lib (cc_field r) x = Inr t \<longrightarrow>
    (if cc_operator r = FilterOpenRange then 0 < compare_canonical lib (mf_type (cc_field r)) v t
     else 0 \<le> compare_canonical lib (mf_type (cc_field r)) v t))"
  using assms
  by (auto simp: condition_bound_Inr within_lower_def compare_scalar_canonical Let_def split: option.splits)

lemma within_upper_iff:
  assumes "condition_bound lib (cc_field r) b = Inr (cc_upper r)"
  shows "within_upper lib r v \<longleftrightarrow> (\<forall>x t. b = Some x \<longrightarrow> condition_scalar lib (cc_field r) x = Inr t \<longrightarrow>
    (if cc_operator r = FilterOpenRange then compare_canonical lib (mf_type (cc_field r)) v t < 0
     else compare_canonical lib (mf_type (cc_field r)) v t \<le> 0))"
  using assms
  by (auto simp: condition_bound_Inr within_upper_def compare_scalar_canonical Let_def split: option.splits)

lemma compile_operands_meaning:
  assumes "compile_operands lib f c = Inr result"
  shows "matches_condition lib r result \<longleftrightarrow>
    (\<exists>v. fmlookup (deref_map (cr_data r)) (mf_name f) = Some v \<and> condition_demands lib f c v)"
proof -
  note fields = compile_operands_fields [OF assms]
  show ?thesis
  proof (cases "fmlookup (deref_map (cr_data r)) (mf_name f)")
    case None
    then show ?thesis by (simp add: matches_condition_def fields)
  next
    case (Some v)
    show ?thesis
    proof (cases "fc_operator c")
      case FilterExact
      then show ?thesis
        using Some compile_value_operand [OF assms] by (auto simp: matches_condition_def condition_demands_def fields)
    next
      case FilterContains
      then show ?thesis
        using Some compile_value_operand [OF assms]
        by (fastforce simp: matches_condition_def condition_demands_def fields contains_text_iff)
    next
      case FilterClosedRange
      note bounds = compile_range_operands [OF assms]
      show ?thesis
        using Some FilterClosedRange within_lower_iff [of lib result] within_upper_iff [of lib result] bounds
        by (simp add: matches_condition_def condition_demands_def fields)
    next
      case FilterOpenRange
      note bounds = compile_range_operands [OF assms]
      show ?thesis
        using Some FilterOpenRange within_lower_iff [of lib result] within_upper_iff [of lib result] bounds
        by (simp add: matches_condition_def condition_demands_def fields)
    next
      case FilterIn
      then show ?thesis
        using Some compile_set_operand [OF assms] by (simp add: matches_condition_def condition_demands_def fields)
    next
      case FilterNotIn
      then show ?thesis
        using Some compile_set_operand [OF assms] by (simp add: matches_condition_def condition_demands_def fields)
    next
      case (FilterOther p)
      with assms show ?thesis by (simp add: compile_operands_def Let_def)
    qed
  qed
qed

section \<open>The option cache is transparent\<close>

text \<open>The fields of a model by name; the last of a name counts.\<close>

lemma page_fields_name: "fmlookup (page_fields m) name = Some f \<Longrightarrow> f \<in> set (cm_fields m) \<and> mf_name f = name"
proof -
  have "fmlookup (foldl (\<lambda>fs f. fmupd (mf_name f) f fs) fmempty xs) name = Some f \<Longrightarrow> f \<in> set xs \<and> mf_name f = name" for xs
    by (induction xs rule: rev_induct) (auto split: if_splits)
  then show "fmlookup (page_fields m) name = Some f \<Longrightarrow> f \<in> set (cm_fields m) \<and> mf_name f = name"
    by (simp add: page_fields_def)
qed

definition selections_enabled :: "scalar_lib \<Rightarrow> snapshot \<Rightarrow> page_request \<Rightarrow> compiled_condition \<Rightarrow> bool" where
  "selections_enabled lib s q c \<longleftrightarrow>
     (case mf_source (cc_field c) of
        None \<Rightarrow> True
      | Some src \<Rightarrow>
          (\<exists>options. resolve_options lib s q (Some src) = Inr options \<and>
             list_all (code_enabled (enabled_codes options)) (condition_values c)))"

text \<open>Every entry of the cache is the result of resolving the options of its field.\<close>

definition cache_ok :: "scalar_lib \<Rightarrow> snapshot \<Rightarrow> page_request \<Rightarrow> compiled_model \<Rightarrow> option_cache \<Rightarrow> bool" where
  "cache_ok lib s q m cache \<longleftrightarrow>
     (\<forall>name allowed. fmlookup cache name = Some allowed \<longrightarrow>
        (\<exists>f src options. fmlookup (page_fields m) name = Some f \<and> mf_source f = Some src \<and>
           resolve_options lib s q (Some src) = Inr options \<and> allowed = enabled_codes options))"

lemma check_selections_ok:
  assumes "cache_ok lib s q m cache" "fmlookup (page_fields m) (mf_name (cc_field c)) = Some (cc_field c)"
  shows "is_ok (check_selections lib s q cache c) \<longleftrightarrow> selections_enabled lib s q c"
    and "check_selections lib s q cache c = Inr cache' \<Longrightarrow> cache_ok lib s q m cache'"
proof -
  have "(is_ok (check_selections lib s q cache c) \<longleftrightarrow> selections_enabled lib s q c) \<and>
    (\<forall>cache'. check_selections lib s q cache c = Inr cache' \<longrightarrow> cache_ok lib s q m cache')"
  proof (cases "mf_source (cc_field c)")
    case None
    with assms(1) show ?thesis by (simp add: check_selections_def selections_enabled_def)
  next
    case (Some src)
    show ?thesis
    proof (cases "fmlookup cache (mf_name (cc_field c))")
      case (Some allowed)
      then obtain options where "resolve_options lib s q (Some src) = Inr options" "allowed = enabled_codes options"
        using assms \<open>mf_source (cc_field c) = Some src\<close> unfolding cache_ok_def by fastforce
      with Some \<open>mf_source (cc_field c) = Some src\<close> assms(1) show ?thesis
        by (auto simp: check_selections_def selections_enabled_def list_all_iff list_ex_iff)
    next
      case None
      show ?thesis
      proof (cases "resolve_options lib s q (Some src)")
        case (Inl e)
        with None \<open>mf_source (cc_field c) = Some src\<close> show ?thesis
          by (simp add: check_selections_def selections_enabled_def)
      next
        case (Inr options)
        have "cache_ok lib s q m (fmupd (mf_name (cc_field c)) (enabled_codes options) cache)"
          using assms Inr \<open>mf_source (cc_field c) = Some src\<close> by (auto simp: cache_ok_def)
        with None Inr \<open>mf_source (cc_field c) = Some src\<close> show ?thesis
          by (auto simp: check_selections_def selections_enabled_def list_all_iff list_ex_iff)
      qed
    qed
  qed
  then show "is_ok (check_selections lib s q cache c) \<longleftrightarrow> selections_enabled lib s q c"
    "check_selections lib s q cache c = Inr cache' \<Longrightarrow> cache_ok lib s q m cache'" by blast+
qed

definition condition_accepted ::
  "scalar_lib \<Rightarrow> snapshot \<Rightarrow> page_request \<Rightarrow> compiled_model \<Rightarrow> filter_condition \<Rightarrow> compiled_condition \<Rightarrow> bool" where
  "condition_accepted lib s q m c r \<longleftrightarrow>
     (\<exists>f. fmlookup (page_fields m) (trim_space (fc_field c)) = Some f \<and> mf_queryable f \<and> \<not> mf_sensitive f \<and>
        fc_operator c \<in> set (mf_operators f) \<and> compile_operands lib f c = Inr r \<and> selections_enabled lib s q r)"

lemma compile_condition_step:
  assumes "cache_ok lib s q m (fst acc)"
  shows "compile_condition lib s q m acc c = Inr acc' \<Longrightarrow>
      cache_ok lib s q m (fst acc') \<and> (\<exists>r. snd acc' = snd acc @ [r] \<and> condition_accepted lib s q m c r)"
    and "condition_accepted lib s q m c r \<Longrightarrow> \<exists>cache. compile_condition lib s q m acc c = Inr (cache, snd acc @ [r])"
proof -
  assume ok: "compile_condition lib s q m acc c = Inr acc'"
  then obtain f r cache where f: "fmlookup (page_fields m) (trim_space (fc_field c)) = Some f" "mf_queryable f"
    "\<not> mf_sensitive f" "fc_operator c \<in> set (mf_operators f)" and r: "compile_operands lib f c = Inr r"
    "check_selections lib s q (fst acc) r = Inr cache" "acc' = (cache, snd acc @ [r])"
    by (auto simp: compile_condition_def rbind_Inr_iff split: option.splits if_splits)
  have "fmlookup (page_fields m) (mf_name (cc_field r)) = Some (cc_field r)"
    using f(1) page_fields_name compile_operands_fields(1) [OF r(1)] by fastforce
  note checked = check_selections_ok [OF assms this]
  have "selections_enabled lib s q r" using checked(1) r(2) by simp
  with f r checked(2) [OF r(2)] show "cache_ok lib s q m (fst acc') \<and>
      (\<exists>r. snd acc' = snd acc @ [r] \<and> condition_accepted lib s q m c r)"
    by (auto simp: condition_accepted_def)
next
  assume "condition_accepted lib s q m c r"
  then obtain f where f: "fmlookup (page_fields m) (trim_space (fc_field c)) = Some f" "mf_queryable f"
    "\<not> mf_sensitive f" "fc_operator c \<in> set (mf_operators f)" "compile_operands lib f c = Inr r"
    "selections_enabled lib s q r"
    by (auto simp: condition_accepted_def)
  have "fmlookup (page_fields m) (mf_name (cc_field r)) = Some (cc_field r)"
    using f(1) page_fields_name compile_operands_fields(1) [OF f(5)] by fastforce
  then obtain cache where "check_selections lib s q (fst acc) r = Inr cache"
    using check_selections_ok(1) [OF assms] f(6) by (auto simp: is_ok_iff)
  with f show "\<exists>cache. compile_condition lib s q m acc c = Inr (cache, snd acc @ [r])"
    by (simp add: compile_condition_def)
qed

lemma compile_conditions_fold:
  assumes "cache_ok lib s q m (fst acc)"
  shows "(\<exists>cache. rfold (compile_condition lib s q m) acc cs = Inr (cache, snd acc @ rs)) \<longleftrightarrow>
    list_all2 (condition_accepted lib s q m) cs rs"
  using assms
proof (induction cs arbitrary: acc rs)
  case Nil
  then show ?case by (cases acc) auto
next
  case (Cons c cs)
  show ?case
  proof
    assume "\<exists>cache. rfold (compile_condition lib s q m) acc (c # cs) = Inr (cache, snd acc @ rs)"
    then obtain cache acc' where *: "compile_condition lib s q m acc c = Inr acc'"
      "rfold (compile_condition lib s q m) acc' cs = Inr (cache, snd acc @ rs)"
      by (auto simp: rbind_Inr_iff)
    from compile_condition_step(1) [OF Cons.prems *(1)] obtain r where r:
      "cache_ok lib s q m (fst acc')" "snd acc' = snd acc @ [r]" "condition_accepted lib s q m c r" by blast
    have "\<exists>rest. snd t = snd u @ rest" if "rfold (compile_condition lib s q m) u xs = Inr t"
      "cache_ok lib s q m (fst u)" for t u xs
      using that
    proof (induction xs arbitrary: u)
      case (Cons x xs)
      then obtain w where w: "compile_condition lib s q m u x = Inr w" "rfold (compile_condition lib s q m) w xs = Inr t"
        by (auto simp: rbind_Inr_iff)
      from compile_condition_step(1) [OF Cons.prems(2) w(1)] Cons.IH [OF w(2)] show ?case by auto
    qed simp
    from this [OF *(2) r(1)] obtain rest where "rs = r # rest" using r(2) by auto
    moreover have "list_all2 (condition_accepted lib s q m) cs rest"
      using Cons.IH [OF r(1), of rest] *(2) r(2) calculation by auto
    ultimately show "list_all2 (condition_accepted lib s q m) (c # cs) rs" using r(3) by simp
  next
    assume "list_all2 (condition_accepted lib s q m) (c # cs) rs"
    then obtain r rest where r: "rs = r # rest" "condition_accepted lib s q m c r"
      "list_all2 (condition_accepted lib s q m) cs rest" by (auto simp: list_all2_Cons1)
    from compile_condition_step(2) [OF Cons.prems r(2)] obtain cache where
      c: "compile_condition lib s q m acc c = Inr (cache, snd acc @ [r])" by blast
    from compile_condition_step(1) [OF Cons.prems c] have "cache_ok lib s q m (fst (cache, snd acc @ [r]))" by blast
    from Cons.IH [OF this, of rest] r(3) obtain cache' where
      "rfold (compile_condition lib s q m) (cache, snd acc @ [r]) cs = Inr (cache', (snd acc @ [r]) @ rest)" by auto
    with c r(1) show "\<exists>cache. rfold (compile_condition lib s q m) acc (c # cs) = Inr (cache, snd acc @ rs)" by simp
  qed
qed

text \<open>Conditions are accepted one by one, as if the options of a field were resolved each time.\<close>

lemma compile_conditions_iff:
  "compile_conditions lib s q m = Inr rs \<longleftrightarrow>
     length (pq_conditions q) \<le> 20 \<and> list_all2 (condition_accepted lib s q m) (pq_conditions q) rs"
proof -
  have "cache_ok lib s q m (fst (fmempty, []))" by (simp add: cache_ok_def)
  from compile_conditions_fold [OF this, of "pq_conditions q" rs] show ?thesis
    by (auto simp: compile_conditions_def rbind_Inr_iff not_less)
qed

section \<open>The request's page\<close>

text \<open>Only the arithmetic of the page depends on the page number asked for.\<close>

lemma page_scope_number [simp]: "page_scope (q\<lparr>pq_number := k\<rparr>) = page_scope q"
  by (simp add: page_scope_def)

lemma resolve_options_number [simp]: "resolve_options lib s (q\<lparr>pq_number := k\<rparr>) = resolve_options lib s q"
  unfolding fun_eq_iff resolve_options_def page_scope_number by simp

lemma check_selections_number [simp]: "check_selections lib s (q\<lparr>pq_number := k\<rparr>) = check_selections lib s q"
  unfolding fun_eq_iff check_selections_def resolve_options_number by simp

lemma compile_condition_number [simp]: "compile_condition lib s (q\<lparr>pq_number := k\<rparr>) = compile_condition lib s q"
  unfolding fun_eq_iff compile_condition_def check_selections_number by simp

lemma compile_conditions_number [simp]: "compile_conditions lib s (q\<lparr>pq_number := k\<rparr>) m = compile_conditions lib s q m"
  by (simp add: compile_conditions_def)

lemma page_records_number [simp]: "page_records lib s (q\<lparr>pq_number := k\<rparr>) m cs = page_records lib s q m cs"
  by (simp add: page_records_def page_scope_def)

lemma with_interaction_number [simp]:
  "with_interaction lib s (q\<lparr>pq_number := k\<rparr>) d m result = with_interaction lib s q d m result"
  by (simp add: with_interaction_def interaction_fields_def)

lemma page_of_rows_number [simp]:
  "page_of_rows s (q\<lparr>pq_number := k\<rparr>) m revision number width rows = page_of_rows s q m revision number width rows"
  by (simp add: page_of_rows_def)

lemma trim_page_fields [simp]:
  "pq_model (trim_page_request q) = trim_space (pq_model q)"
  "pq_region (trim_page_request q) = trim_space (pq_region q)"
  "pq_environment (trim_page_request q) = trim_space (pq_environment q)"
  "pq_stage (trim_page_request q) = trim_space (pq_stage q)"
  "pq_bucket (trim_page_request q) = pq_bucket q" "pq_type (trim_page_request q) = pq_type q"
  "pq_number (trim_page_request q) = pq_number q" "pq_size (trim_page_request q) = pq_size q"
  "pq_conditions (trim_page_request q) = pq_conditions q"
  by (simp_all add: trim_page_request_def)

lemma trim_page_number [simp]: "trim_page_request (q\<lparr>pq_number := k\<rparr>) = (trim_page_request q)\<lparr>pq_number := k\<rparr>"
  by (simp add: trim_page_request_def)

text \<open>The interaction part leaves the page as it is, and does not depend on it.\<close>

lemma with_interaction_Inr:
  assumes "with_interaction lib s q d m result = Inr r"
  shows "pg_rows r = pg_rows result" "pg_number r = pg_number result" "pg_total r = pg_total result"
    "pg_total_pages r = pg_total_pages result" "pg_size r = pg_size result"
  using assms by (auto simp: with_interaction_def rbind_Inr_iff split: if_splits)

lemma with_interaction_ok: "is_ok (with_interaction lib s q d m result) \<longleftrightarrow> is_ok (with_interaction lib s q d m result')"
  by (auto simp: with_interaction_def is_ok_iff rbind_Inr_iff)

lemma page_query_Inr:
  assumes "page_query lib managed (Some s) raw = Inr r"
  obtains m v where "fmlookup (sn_models s) (trim_space (pq_model raw)) = Some m"
    and "fmlookup (sn_collections s) (cm_collection m) = Some v"
    and "query_model lib s (trim_page_request raw) m v = Inr r"
    and "\<And>k. page_query lib managed (Some s) (raw\<lparr>pq_number := k\<rparr>) =
      query_model lib s ((trim_page_request raw)\<lparr>pq_number := k\<rparr>) m v"
proof -
  from assms obtain m v where m: "fmlookup (sn_models s) (trim_space (pq_model raw)) = Some m"
    "fmlookup (sn_collections s) (cm_collection m) = Some v"
    "query_model lib s (trim_page_request raw) m v = Inr r"
    by (simp add: page_query_def Let_def split: if_split_asm option.split_asm)
  moreover have "page_query lib managed (Some s) (raw\<lparr>pq_number := k\<rparr>) =
      query_model lib s ((trim_page_request raw)\<lparr>pq_number := k\<rparr>) m v" for k
    using assms m by (auto simp: page_query_def Let_def split: if_splits option.splits)
  ultimately show thesis by (rule that)
qed

lemma query_model_Inr:
  assumes "query_model lib s q m v = Inr r"
  obtains cs number width records where "compile_conditions lib s q m = Inr cs"
    and "normalize_page q (cm_default_page m) (cm_max_page m) = Inr (number, width)"
    and "page_records lib s q m cs = Inr records"
    and "with_interaction lib s q (cv_definition v) m (page_of_rows s q m (cv_version v) number width
      (map (project_row m (base_records_by_key (snapshot_records s (cm_collection m)))) records)) = Inr r"
  using assms by (auto simp: query_model_def rbind_Inr_iff rerror_Inr_iff)

lemma query_model_page:
  assumes "compile_conditions lib s q m = Inr cs" "page_records lib s q m cs = Inr records"
    and "normalize_page q (cm_default_page m) (cm_max_page m) = Inr (number, width)"
  shows "query_model lib s q m v = with_interaction lib s q (cv_definition v) m
    (page_of_rows s q m (cv_version v) number width
      (map (project_row m (base_records_by_key (snapshot_records s (cm_collection m)))) records))"
  using assms by (simp add: query_model_def)

lemma page_of_rows_facts:
  assumes "0 < width" "int (length rows) < 2 ^ 31" "n = shown_page (int (length rows)) width number"
  shows "pg_rows (page_of_rows s q m revision number width rows) = slice_rows rows ((n - 1) * width) (n * width)"
    "pg_number (page_of_rows s q m revision number width rows) = n"
    "pg_total (page_of_rows s q m revision number width rows) = int (length rows)"
    "pg_total_pages (page_of_rows s q m revision number width rows) = total_pages (int (length rows)) width"
  using assms by (simp_all add: page_of_rows_def page_bounds_shown Let_def)

section \<open>Rows\<close>

lemma project_values_lookup:
  "fmlookup (project_values hidden projection source) name =
     (if name \<in> set projection \<and> name \<notin> hidden then fmlookup source name else None)"
  by (simp add: project_values_def)

lemma project_row_hides:
  assumes "name \<in> sensitive_fields m"
  shows "name |\<notin>| fmdom (rw_values (project_row m bases r))"
    "name |\<notin>| fmdom (rw_base_values (project_row m bases r))"
  using assms by (simp_all add: project_row_def project_values_lookup Let_def fmdom_notI)

end
