(* ===== verification/Page_Properties.thy ===== *)
theory Page_Properties
  imports Page_Facts Snapshot_Samples
begin

text \<open>The claims about the paged query (\<open>internal/pagequery/query.go\<close>).\<close>

section \<open>Which records, on which pages\<close>

text \<open>
  The records a page query is about: those the overlay specification gives for their key in the
  scope of the request and that satisfy every condition, read on the operands as sent.
\<close>

definition page_matches :: "scalar_lib \<Rightarrow> snapshot \<Rightarrow> page_request \<Rightarrow> compiled_model \<Rightarrow> config_record \<Rightarrow> bool" where
  "page_matches lib s q m r \<longleftrightarrow>
     effective_value \<lparr>oq_collection = cm_collection m, oq_scope = page_scope q, oq_bucket = pq_bucket q\<rparr>
       (snapshot_records s (cm_collection m)) (snapshot_rules s (cm_collection m)) (cr_key r) = Inr (Some r) \<and>
     list_all (\<lambda>c. \<exists>f v. fmlookup (page_fields m) (trim_space (fc_field c)) = Some f \<and>
         fmlookup (deref_map (cr_data r)) (mf_name f) = Some v \<and> condition_demands lib f c v)
       (pq_conditions q)"

lemma matches_conditions_iff:
  assumes "compile_conditions lib s q m = Inr cs"
  shows "matches_conditions lib r cs \<longleftrightarrow>
    list_all (\<lambda>c. \<exists>f v. fmlookup (page_fields m) (trim_space (fc_field c)) = Some f \<and>
         fmlookup (deref_map (cr_data r)) (mf_name f) = Some v \<and> condition_demands lib f c v)
       (pq_conditions q)"
proof -
  have "matches_conditions lib r rs \<longleftrightarrow>
      list_all (\<lambda>c. \<exists>f v. fmlookup (page_fields m) (trim_space (fc_field c)) = Some f \<and>
         fmlookup (deref_map (cr_data r)) (mf_name f) = Some v \<and> condition_demands lib f c v) conds"
    if "list_all2 (condition_accepted lib s q m) conds rs" for conds rs
    using that
  proof (induction rule: list_all2_induct)
    case (Cons c conds x rs)
    from Cons(1) obtain f where f: "fmlookup (page_fields m) (trim_space (fc_field c)) = Some f"
      "compile_operands lib f c = Inr x" by (auto simp: condition_accepted_def)
    from compile_operands_meaning [OF f(2), of r] f(1) Cons(3) show ?case
      by (simp add: matches_conditions_def)
  qed (simp add: matches_conditions_def)
  with assms show ?thesis by (simp add: compile_conditions_iff)
qed

lemma page_records_exact:
  assumes "compile_conditions lib s q m = Inr cs" "page_records lib s q m cs = Inr records"
  shows "sorted (map cr_key records)" "distinct (map cr_key records)"
    "r \<in> set records \<longleftrightarrow> page_matches lib s q m r"
proof -
  obtain out where out: "evaluate \<lparr>oq_collection = cm_collection m, oq_scope = page_scope q, oq_bucket = pq_bucket q\<rparr>
      (snapshot_records s (cm_collection m)) (snapshot_rules s (cm_collection m)) = Inr out"
    "records = filter (\<lambda>r. matches_conditions lib r cs) out"
    using assms(2) by (auto simp: page_records_def rbind_Inr_iff rerror_Inr_iff matches_conditions_def split: if_splits)
  from evaluate_exact [OF out(1)] show "sorted (map cr_key records)" "distinct (map cr_key records)"
    "r \<in> set records \<longleftrightarrow> page_matches lib s q m r"
    by (simp_all add: out(2) sorted_filter distinct_map_filter page_matches_def matches_conditions_iff [OF assms(1)] conj_commute)
qed

text \<open>
  C17: A page query pages through exactly the matching records: with the rows of all records that
  match, in key order and once each, it reports their number and shows the slice of the page it
  names (the last page when a later one was asked for), and asking for the pages 1 to the
  reported number of pages yields these rows one after the other.
\<close>

theorem pages_list_matches_once:
  assumes "page_query lib managed (Some s) raw = Inr r" "0 < pg_size r" "pg_total r < 2 ^ 31"
  shows "\<exists>m matching rows.
    fmlookup (sn_models s) (trim_space (pq_model raw)) = Some m \<and>
    rows = map (project_row m (base_records_by_key (snapshot_records s (cm_collection m)))) matching \<and>
    sorted (map cr_key matching) \<and> distinct (map cr_key matching) \<and>
    set matching = {x. page_matches lib s (trim_page_request raw) m x} \<and>
    pg_total r = int (length rows) \<and>
    pg_rows r = slice_rows rows ((pg_number r - 1) * pg_size r) (pg_number r * pg_size r) \<and>
    concat (map (\<lambda>n. pg_rows (projr (page_query lib managed (Some s) (raw\<lparr>pq_number := Some (int n)\<rparr>))))
      [1..<Suc (nat (pg_total_pages r))]) = rows"
proof -
  let ?q = "trim_page_request raw"
  from assms(1) obtain m v where m: "fmlookup (sn_models s) (trim_space (pq_model raw)) = Some m"
    "query_model lib s ?q m v = Inr r"
    and other: "page_query lib managed (Some s) (raw\<lparr>pq_number := k\<rparr>) = query_model lib s (?q\<lparr>pq_number := k\<rparr>) m v" for k
    by (rule page_query_Inr) blast
  from m(2) obtain cs number width records where cs: "compile_conditions lib s ?q m = Inr cs"
    "normalize_page ?q (cm_default_page m) (cm_max_page m) = Inr (number, width)"
    "page_records lib s ?q m cs = Inr records"
    and r: "with_interaction lib s ?q (cv_definition v) m (page_of_rows s ?q m (cv_version v) number width
      (map (project_row m (base_records_by_key (snapshot_records s (cm_collection m)))) records)) = Inr r"
    by (rule query_model_Inr)
  define rows where "rows = map (project_row m (base_records_by_key (snapshot_records s (cm_collection m)))) records"
  define shown where "shown = shown_page (int (length rows)) width number"
  note page = with_interaction_Inr [OF r, folded rows_def]
  have width: "pg_size r = width" by (simp add: page(5) page_of_rows_def Let_def split: prod.split)
  have len: "pg_total r = int (length rows)" by (simp add: page(3) page_of_rows_def Let_def split: prod.split)
  then have small: "0 < width" "int (length rows) < 2 ^ 31" using assms(2,3) width by simp_all
  note facts = page_of_rows_facts [OF small shown_def]
  have "pg_rows (projr (page_query lib managed (Some s) (raw\<lparr>pq_number := Some (int n)\<rparr>))) =
      slice_rows rows ((int n - 1) * width) (int n * width)"
    if n: "n \<in> set [1..<Suc (nat (pg_total_pages r))]" for n
  proof -
    have bounds: "0 < int n" "int n \<le> total_pages (int (length rows)) width"
      using n by (auto simp: page(4) facts(4))
    have "normalize_page (?q\<lparr>pq_number := Some (int n)\<rparr>) (cm_default_page m) (cm_max_page m) = Inr (int n, width)"
      using cs(2) bounds(1) by (simp add: normalize_page_Inr)
    then have "page_query lib managed (Some s) (raw\<lparr>pq_number := Some (int n)\<rparr>) =
        with_interaction lib s ?q (cv_definition v) m (page_of_rows s ?q m (cv_version v) (int n) width rows)"
      using query_model_page [of lib s "?q\<lparr>pq_number := Some (int n)\<rparr>" m cs records "int n" width v] cs(1,3) other
      by (simp add: rows_def)
    moreover obtain r' where r': "with_interaction lib s ?q (cv_definition v) m
        (page_of_rows s ?q m (cv_version v) (int n) width rows) = Inr r'"
      using r with_interaction_ok unfolding is_ok_iff by blast
    moreover have "shown_page (int (length rows)) width (int n) = int n"
      using bounds by (simp add: shown_page_def)
    ultimately show ?thesis
      using page_of_rows_facts(1) [OF small, of "int n" "int n"] with_interaction_Inr(1) [OF r'] by simp
  qed
  then have "concat (map (\<lambda>n. pg_rows (projr (page_query lib managed (Some s) (raw\<lparr>pq_number := Some (int n)\<rparr>))))
      [1..<Suc (nat (pg_total_pages r))]) =
      concat (map (\<lambda>n. slice_rows rows ((int n - 1) * width) (int n * width)) [1..<Suc (nat (pg_total_pages r))])"
    by (metis (no_types, lifting) map_cong)
  then have "concat (map (\<lambda>n. pg_rows (projr (page_query lib managed (Some s) (raw\<lparr>pq_number := Some (int n)\<rparr>))))
      [1..<Suc (nat (pg_total_pages r))]) = rows"
    using concat_all_pages [OF small(1), of rows] by (simp add: page(4) facts(4))
  moreover have "set records = {x. page_matches lib s ?q m x}" using page_records_exact(3) [OF cs(1,3)] by blast
  moreover have "pg_rows r = slice_rows rows ((pg_number r - 1) * pg_size r) (pg_number r * pg_size r)"
    by (simp add: page(1,2) facts(1,2) width)
  ultimately show ?thesis
    using m(1) len page_records_exact(1,2) [OF cs(1,3)] rows_def by blast
qed

text \<open>
  C18: Sensitive values stay hidden: no row of a page shows the value of a sensitive field, neither
  the effective nor the base one, and no condition reads one, so records that differ only in
  sensitive fields are selected alike.
\<close>

theorem sensitive_values_stay_hidden:
  assumes "page_query lib managed (Some s) raw = Inr r"
    and "fmlookup (sn_models s) (trim_space (pq_model raw)) = Some m" "distinct (map mf_name (cm_fields m))"
    and "f \<in> set (cm_fields m)" "mf_sensitive f"
    and "fmfilter (\<lambda>name. name \<notin> sensitive_fields m) (deref_map (cr_data x)) =
      fmfilter (\<lambda>name. name \<notin> sensitive_fields m) (deref_map (cr_data y))"
  shows "list_all (\<lambda>row. mf_name f |\<notin>| fmdom (rw_values row) \<and> mf_name f |\<notin>| fmdom (rw_base_values row)) (pg_rows r) \<and>
    (\<exists>cs. compile_conditions lib s (trim_page_request raw) m = Inr cs \<and>
       matches_conditions lib x cs = matches_conditions lib y cs)"
proof -
  let ?q = "trim_page_request raw"
  from assms(1) obtain m' v where m': "fmlookup (sn_models s) (trim_space (pq_model raw)) = Some m'"
    "query_model lib s ?q m' v = Inr r"
    by (rule page_query_Inr) blast
  with assms(2) have m: "query_model lib s ?q m v = Inr r" by simp
  then obtain cs number width records where cs: "compile_conditions lib s ?q m = Inr cs"
    and r: "with_interaction lib s ?q (cv_definition v) m (page_of_rows s ?q m (cv_version v) number width
      (map (project_row m (base_records_by_key (snapshot_records s (cm_collection m)))) records)) = Inr r"
    by (rule query_model_Inr)
  have "set (pg_rows r) \<subseteq> set (map (project_row m (base_records_by_key (snapshot_records s (cm_collection m)))) records)"
    unfolding with_interaction_Inr(1) [OF r]
    by (auto simp: page_of_rows_def slice_rows_def Let_def dest!: in_set_takeD in_set_dropD split: prod.splits if_splits)
  moreover have "mf_name f \<in> sensitive_fields m" using assms(4,5) by (auto simp: sensitive_fields_def)
  ultimately have "list_all (\<lambda>row. mf_name f |\<notin>| fmdom (rw_values row) \<and> mf_name f |\<notin>| fmdom (rw_base_values row)) (pg_rows r)"
    unfolding list_all_iff by (auto dest!: subsetD simp: project_row_hides)
  moreover have same: "fmlookup (deref_map (cr_data x)) (mf_name g) = fmlookup (deref_map (cr_data y)) (mf_name g)"
    if "g \<in> set (cm_fields m)" "\<not> mf_sensitive g" for g
  proof -
    have "mf_name g \<notin> sensitive_fields m"
      using that assms(3) by (auto simp: sensitive_fields_def distinct_map dest: inj_onD)
    then show ?thesis using fun_cong [OF arg_cong [OF assms(6), of fmlookup], of "mf_name g"] by simp
  qed
  have "matches_condition lib x c = matches_condition lib y c" if "c \<in> set cs" for c
  proof -
    have "list_all2 (condition_accepted lib s ?q m) (pq_conditions ?q) cs"
      using cs by (simp only: compile_conditions_iff)
    from list_all2_setD2 [OF this that] obtain c0 where "condition_accepted lib s ?q m c0 c" by blast
    then obtain g where g: "fmlookup (page_fields m) (trim_space (fc_field c0)) = Some g" "\<not> mf_sensitive g"
      "compile_operands lib g c0 = Inr c" by (auto simp: condition_accepted_def)
    have "cc_field c \<in> set (cm_fields m)" "\<not> mf_sensitive (cc_field c)"
      using page_fields_name [OF g(1)] compile_operands_fields(1) [OF g(3)] g(2) by simp_all
    with same show ?thesis by (simp add: matches_condition_def)
  qed
  then have "matches_conditions lib x cs = matches_conditions lib y cs"
    by (simp add: matches_conditions_def list_all_iff)
  ultimately show ?thesis using cs by blast
qed

section \<open>A sample page\<close>

text \<open>Three limits of which two lie in the range asked for, one row per page.\<close>

definition page_limit :: "string \<Rightarrow> string \<Rightarrow> config_record" where
  "page_limit code amount =
     \<lparr>cr_collection = ''limits'', cr_environment = ''prod'', cr_key = code,
      cr_data = Some (fmap_of_list [(''code'', code), (''amount'', amount), (''note'', ''x'')]), cr_revision = 2\<rparr>"

definition page_model :: compiled_model where
  "page_model =
     \<lparr>cm_code = ''limit_pages'', cm_name = ''Limits'', cm_collection = ''limits'',
      cm_fields = [sample_model_field ''code'' FieldTypeString True,
                   (sample_model_field ''amount'' FieldTypeInt64 True)\<lparr>mf_operators := [FilterClosedRange]\<rparr>,
                   (sample_model_field ''note'' FieldTypeString False)
                     \<lparr>mf_sensitive := True, mf_queryable := False, mf_operators := []\<rparr>],
      cm_projection = [''amount'', ''note''], cm_key_fields = [''code''], cm_default_page = 1, cm_max_page = 10,
      cm_release_types = [], cm_auto_fill = [], cm_revision = 4\<rparr>"

definition page_snapshot :: snapshot where
  "page_snapshot =
     (empty_snapshot (make_identity sample_seed 1 5) ''prod'')
       \<lparr>sn_collections := fmupd ''limits''
          \<lparr>cv_definition = sample_collection, cv_version = 4, cv_cursor = 7,
           cv_digest = \<lparr>dg_algorithm = ''SHA-256'', dg_value = []\<rparr>, cv_records = fmap_of_list [(''a'', page_limit ''a'' ''5''), (''b'', page_limit ''b'' ''70''), (''c'', page_limit ''c'' ''12'')],
           cv_ordered = [''a'', ''b'', ''c''], cv_rules = [], cv_consumers = []\<rparr> fmempty,
        sn_models := fmupd ''limit_pages'' page_model fmempty\<rparr>"

definition page_sample :: page_request where
  "page_sample =
     \<lparr>pq_model = ''limit_pages '', pq_region = ''eu'', pq_environment = ''prod'', pq_stage = [], pq_bucket = None,
      pq_type = TypeOnlyData, pq_number = Some 9, pq_size = None,
      pq_conditions = [\<lparr>fc_field = ''amount'', fc_operator = FilterClosedRange, fc_value = None, fc_lower = None,
        fc_upper = Some \<lparr>scv_type = FieldTypeInt64, scv_canonical = ''+12''\<rparr>, fc_set = []\<rparr>]\<rparr>"

definition page_answer :: page_result where
  "page_answer = projr (page_query sample_lib ''prod'' (Some page_snapshot) page_sample)"

lemma page_sample_answers: "page_query sample_lib ''prod'' (Some page_snapshot) page_sample = Inr page_answer"
  "pg_total page_answer = 2" "pg_number page_answer = 2" "pg_size page_answer = 1"
  "map rw_key (pg_rows page_answer) = [''c'']"
proof -
  have "is_ok (page_query sample_lib ''prod'' (Some page_snapshot) page_sample)" by code_simp
  then show "page_query sample_lib ''prod'' (Some page_snapshot) page_sample = Inr page_answer"
    by (auto simp: page_answer_def is_ok_iff)
qed code_simp+

theorem pages_list_matches_once_witness:
  "\<exists>rows. length rows = 2 \<and> map rw_key (slice_rows rows 1 2) = [''c''] \<and>
     concat (map (\<lambda>n. pg_rows (projr (page_query sample_lib ''prod'' (Some page_snapshot)
       (page_sample\<lparr>pq_number := Some (int n)\<rparr>)))) [1..<Suc (nat (pg_total_pages page_answer))]) = rows"
proof -
  have "0 < pg_size page_answer" "pg_total page_answer < 2 ^ 31" by (simp_all add: page_sample_answers(2,4))
  from pages_list_matches_once [OF page_sample_answers(1) this] obtain rows where *:
    "pg_total page_answer = int (length rows)"
    "pg_rows page_answer = slice_rows rows ((pg_number page_answer - 1) * pg_size page_answer) (pg_number page_answer * pg_size page_answer)"
    "concat (map (\<lambda>n. pg_rows (projr (page_query sample_lib ''prod'' (Some page_snapshot)
       (page_sample\<lparr>pq_number := Some (int n)\<rparr>)))) [1..<Suc (nat (pg_total_pages page_answer))]) = rows"
    by (elim exE conjE) (rule that)
  have "length rows = 2" "map rw_key (slice_rows rows 1 2) = [''c'']"
    using *(1,2) page_sample_answers by simp_all
  with *(3) show ?thesis by (intro exI [of _ rows] conjI)
qed

theorem sensitive_values_stay_hidden_witness:
  "list_all (\<lambda>row. ''note'' |\<notin>| fmdom (rw_values row) \<and> ''note'' |\<notin>| fmdom (rw_base_values row)) (pg_rows page_answer)"
proof -
  have m: "fmlookup (sn_models page_snapshot) (trim_space (pq_model page_sample)) = Some page_model" by code_simp
  have d: "distinct (map mf_name (cm_fields page_model))" by code_simp
  let ?f = "(sample_model_field ''note'' FieldTypeString False)\<lparr>mf_sensitive := True, mf_queryable := False, mf_operators := []\<rparr>"
  have f: "?f \<in> set (cm_fields page_model)" "mf_sensitive ?f" "mf_name ?f = ''note''"
    by (simp_all add: page_model_def sample_model_field_def)
  show ?thesis
    using sensitive_values_stay_hidden [OF page_sample_answers(1) m d f(1,2) refl] f(3) by simp
qed

end
