(* ===== verification/Auth_Scope.thy ===== *)
theory Auth_Scope
  imports Overlay_Rules
begin

text \<open>
  Scopes and who may use them: \<open>internal/platform/auth/scope.go\<close> and
  \<open>internal/platform/rpcauth/authorization.go\<close>. A scope pattern is a scope whose segments may be
  the wildcard. The identity that the JWT middleware found in the context is an argument.
\<close>

section \<open>Scopes and patterns\<close>

type_synonym scope_pattern = scope

definition contains_any :: "string \<Rightarrow> string \<Rightarrow> bool" where
  "contains_any s chars = list_ex (\<lambda>c. c \<in> set chars) s"

definition concrete_segment :: "string \<Rightarrow> bool \<Rightarrow> bool" where
  "concrete_segment v optional = (if v = [] then optional else \<not> contains_any v ''*?[]'')"

definition compile_scope :: "string \<Rightarrow> string \<Rightarrow> string \<Rightarrow> scope option" where
  "compile_scope region environment stage =
     (let r = trim_space region; e = trim_space environment; s = trim_space stage
      in if \<not> concrete_segment r False \<or> \<not> concrete_segment e False \<or> \<not> concrete_segment s True then None
         else Some \<lparr>sc_region = r, sc_environment = e, sc_stage = s\<rparr>)"

definition compile_environment :: "string \<Rightarrow> string option" where
  "compile_environment environment =
     (let e = trim_space environment in if \<not> concrete_segment e False then None else Some e)"

definition compile_scope_pattern :: "string \<Rightarrow> string \<Rightarrow> string \<Rightarrow> scope_pattern option" where
  "compile_scope_pattern region environment stage =
     (if list_ex (\<lambda>v. v = [] \<or> v \<noteq> trim_space v \<or> (contains_any v ''*?[]'' \<and> v \<noteq> ''*''))
           [region, environment, stage]
      then None else Some \<lparr>sc_region = region, sc_environment = environment, sc_stage = stage\<rparr>)"

definition segment_matches :: "string \<Rightarrow> string \<Rightarrow> bool" where
  "segment_matches pattern v \<longleftrightarrow> pattern = ''*'' \<or> pattern = v"

definition scope_matches :: "scope_pattern \<Rightarrow> scope \<Rightarrow> bool" where
  "scope_matches p sc \<longleftrightarrow>
     segment_matches (sc_region p) (sc_region sc) \<and> segment_matches (sc_environment p) (sc_environment sc) \<and>
     segment_matches (sc_stage p) (sc_stage sc)"

section \<open>Requests and identities\<close>

record caller_identity =
  ca_subject :: string
  ca_display_name :: string
  ca_roles :: "string list"
  ca_scopes :: "scope_pattern list"

record consumer_identity =
  cn_id :: string
  cn_scopes :: "scope_pattern list"

record request_authorizer =
  az_page_roles :: "string list"
  az_relays :: "string list"

text \<open>\<open>exactSet\<close>: the values of a set that has been checked, in the order given.\<close>

definition exact_set_value :: "string list \<Rightarrow> string \<Rightarrow> String.literal + string list" where
  "exact_set_value seen v =
     (if v = [] \<or> v \<noteq> trim_space v then Inl STR ''values must be non-empty without surrounding whitespace''
      else if v \<in> set seen then Inl STR ''duplicate value %q''
      else Inr (seen @ [v]))"

definition exact_set :: "string list \<Rightarrow> bool \<Rightarrow> String.literal + string list" where
  "exact_set values required =
     (if required \<and> values = [] then Inl STR ''at least one value is required''
      else rfold exact_set_value [] values)"

definition new_request_authorizer :: "string list \<Rightarrow> string list \<Rightarrow> String.literal + request_authorizer" where
  "new_request_authorizer page_roles relays =
     rbind (exact_set page_roles False) (\<lambda>roles.
     rbind (exact_set relays True) (\<lambda>subjects.
     Inr \<lparr>az_page_roles = ''CONFIG_VIEWER'' # roles, az_relays = subjects\<rparr>))"

definition scope_covered :: "scope_pattern list \<Rightarrow> scope \<Rightarrow> bool" where
  "scope_covered patterns sc =
     (if sc_region sc = [] \<or> sc_environment sc = [] then False else list_ex (\<lambda>p. scope_matches p sc) patterns)"

definition environment_covered :: "scope_pattern list \<Rightarrow> string \<Rightarrow> bool" where
  "environment_covered patterns environment =
     (if environment = [] then False
      else list_ex (\<lambda>p. sc_environment p = ''*'' \<or> sc_environment p = environment) patterns)"

definition has_any_role :: "string list \<Rightarrow> string list \<Rightarrow> bool" where
  "has_any_role roles allowed = list_ex (\<lambda>r. r \<in> set allowed) roles"

text \<open>Each answer is whether the request is authorized; a refusal is \<open>PermissionDenied\<close>.\<close>

definition authorize_consumer :: "consumer_identity option \<Rightarrow> string \<Rightarrow> scope \<Rightarrow> bool" where
  "authorize_consumer identity consumer sc =
     (case identity of
        None \<Rightarrow> False
      | Some i \<Rightarrow> consumer \<noteq> [] \<and> cn_id i = consumer \<and> scope_covered (cn_scopes i) sc)"

definition authorize_page_query :: "request_authorizer \<Rightarrow> caller_identity option \<Rightarrow> scope \<Rightarrow> bool" where
  "authorize_page_query az identity sc =
     (case identity of
        None \<Rightarrow> False
      | Some i \<Rightarrow> has_any_role (ca_roles i) (az_page_roles az) \<and> scope_covered (ca_scopes i) sc)"

definition authorize_sensitive :: "caller_identity option \<Rightarrow> scope \<Rightarrow> bool" where
  "authorize_sensitive identity sc =
     (case identity of
        None \<Rightarrow> False
      | Some i \<Rightarrow> scope_covered (ca_scopes i) sc \<and> has_any_role (ca_roles i) [''SENSITIVE_VIEWER''])"

definition authorize_refresh :: "request_authorizer \<Rightarrow> caller_identity option \<Rightarrow> string \<Rightarrow> bool" where
  "authorize_refresh az identity environment =
     (case identity of
        None \<Rightarrow> False
      | Some i \<Rightarrow> ca_subject i \<in> set (az_relays az) \<and> environment_covered (ca_scopes i) environment)"

definition authorize_diagnostics :: "caller_identity option \<Rightarrow> string \<Rightarrow> bool" where
  "authorize_diagnostics identity environment =
     (case identity of
        None \<Rightarrow> False
      | Some i \<Rightarrow> has_any_role (ca_roles i) [''PLATFORM_OPERATOR'', ''AUDITOR''] \<and>
          environment_covered (ca_scopes i) environment)"

section \<open>Facts\<close>

lemma compile_scope_Some:
  "compile_scope region environment stage = Some sc \<longleftrightarrow>
     sc = \<lparr>sc_region = trim_space region, sc_environment = trim_space environment, sc_stage = trim_space stage\<rparr> \<and>
     sc_region sc \<noteq> [] \<and> sc_environment sc \<noteq> [] \<and>
     \<not> contains_any (sc_region sc) ''*?[]'' \<and> \<not> contains_any (sc_environment sc) ''*?[]'' \<and>
     \<not> contains_any (sc_stage sc) ''*?[]''"
  by (auto simp: compile_scope_def Let_def concrete_segment_def contains_any_def)

text \<open>Compiling a compiled scope changes nothing.\<close>

lemma compile_scope_idem:
  "compile_scope region environment stage = Some sc \<Longrightarrow>
   compile_scope (sc_region sc) (sc_environment sc) (sc_stage sc) = Some sc"
  by (auto simp: compile_scope_Some)

lemma compile_environment_Some:
  "compile_environment environment = Some e \<longleftrightarrow> e = trim_space environment \<and> e \<noteq> [] \<and> \<not> contains_any e ''*?[]''"
  by (auto simp: compile_environment_def Let_def concrete_segment_def)

end
