(* ===== verification/Config_Rpc.thy ===== *)
theory Config_Rpc
  imports Config_Server Change_Signals Watch_Hub Auth_Scope Wire_Messages
begin

text \<open>
  The RPC side of the config server: \<open>handler.go\<close>, \<open>refresh_handler.go\<close> and \<open>diagnostics.go\<close> of
  \<open>internal/configserver/grpc\<close>. The identity in the context, the service's current snapshot and
  the protobuf encoding of a collection (\<open>marshal\<close>, which may fail) are arguments; an error is its
  status code.
\<close>

section \<open>Messages\<close>

record wire_version =
  wv_collection :: string
  wv_revision :: int
  wv_effective :: "digest option"

record wire_record =
  wr_key :: string
  wr_revision :: int
  wr_values :: data

record wire_payload =
  wp_collection :: string
  wp_codec :: string
  wp_format :: nat
  wp_data :: string
  wp_cursor :: int
  wp_version :: wire_version

text \<open>The request of \<open>GetSnapshot\<close> and \<open>DiffVersions\<close>, and its first part, which all requests have.\<close>

record client_message =
  me_scope :: "wire_scope option"
  me_consumer :: string
  me_client :: string

record versions_message = client_message +
  me_known :: "wire_version option list"

record collections_message = client_message +
  me_collections :: "string list"
  me_min :: "int option"

record snapshot_reply =
  sy_identity :: snapshot_identity
  sy_scope :: wire_scope
  sy_deleted :: "string list"
  sy_collections :: "wire_payload list"

record collections_reply =
  cy_identity :: snapshot_identity
  cy_collections :: "wire_payload list"

text \<open>A handler: its managed environment, and whether watching is configured.\<close>

record config_handler =
  hn_environment :: string
  hn_watch :: bool

definition new_config_handler :: "string \<Rightarrow> config_handler option" where
  "new_config_handler environment =
     map_option (\<lambda>e. \<lparr>hn_environment = e, hn_watch = False\<rparr>) (compile_environment environment)"

definition new_watch_handler :: "string \<Rightarrow> bool \<Rightarrow> config_handler option" where
  "new_watch_handler environment watchers =
     (case new_config_handler environment of
        None \<Rightarrow> None
      | Some h \<Rightarrow> if \<not> watchers then None else Some (h\<lparr>hn_watch := True\<rparr>))"

section \<open>Numbers, digests and payloads\<close>

definition valid_sha256_digest :: "digest option \<Rightarrow> bool" where
  "valid_sha256_digest d =
     (case d of
        None \<Rightarrow> False
      | Some x \<Rightarrow> dg_algorithm x = ''SHA-256'' \<and> length (dg_value x) = 64 \<and>
          map ascii_lower (dg_value x) = dg_value x \<and> list_all (\<lambda>c. hex_value c \<noteq> None) (dg_value x))"

definition map_known_version ::
  "string list \<times> known_version list \<Rightarrow> wire_version option \<Rightarrow> rpc_code + string list \<times> known_version list" where
  "map_known_version acc version =
     (case version of
        None \<Rightarrow> Inl RpcInvalidArgument
      | Some v \<Rightarrow>
          (case wv_effective v of
             None \<Rightarrow> Inl RpcInvalidArgument
           | Some d \<Rightarrow>
               let name = trim_space (wv_collection v)
               in if wv_revision v < 0 \<or> name = [] \<or> name \<in> set (fst acc) \<or> \<not> valid_sha256_digest (Some d)
                  then Inl RpcInvalidArgument
                  else Inr (name # fst acc,
                    snd acc @ [\<lparr>kv_collection = name, kv_revision = of_int (wv_revision v), kv_digest = dg_value d\<rparr>])))"

definition map_known_versions :: "wire_version option list \<Rightarrow> rpc_code + known_version list" where
  "map_known_versions source = rbind (rfold map_known_version ([], []) source) (\<lambda>(seen, known). Inr known)"

definition wire_record_of :: "payload_record \<Rightarrow> rpc_code + wire_record" where
  "wire_record_of r =
     (case int64_of (pr_revision r) of
        None \<Rightarrow> Inl RpcInternal
      | Some revision \<Rightarrow> Inr \<lparr>wr_key = pr_key r, wr_revision = revision, wr_values = pr_data r\<rparr>)"

definition map_collection_payload ::
  "(wire_record list \<Rightarrow> string option) \<Rightarrow> collection_payload \<Rightarrow> rpc_code + wire_payload" where
  "map_collection_payload marshal p =
     (case (int64_of (cp_revision p), int64_of (cp_cursor p)) of
        (Some revision, Some cursor) \<Rightarrow>
          rbind (rmap wire_record_of (cp_records p)) (\<lambda>records.
          case marshal records of
            None \<Rightarrow> Inl RpcInternal
          | Some bytes \<Rightarrow>
              Inr \<lparr>wp_collection = cp_name p, wp_codec = ''PROTOBUF'', wp_format = 1, wp_data = bytes,
                   wp_cursor = cursor,
                   wp_version = \<lparr>wv_collection = cp_name p, wv_revision = revision,
                     wv_effective = Some \<lparr>dg_algorithm = ''SHA-256'', dg_value = cp_digest p\<rparr>\<rparr>\<rparr>)
      | _ \<Rightarrow> Inl RpcInternal)"

section \<open>The guards every request passes\<close>

definition message_complete :: "('a client_message_scheme) option \<Rightarrow> bool" where
  "message_complete m =
     (case m of
        None \<Rightarrow> False
      | Some q \<Rightarrow> me_scope q \<noteq> None \<and> \<not> blank (me_consumer q) \<and> \<not> blank (me_client q))"

definition guard_request ::
  "config_handler \<Rightarrow> consumer_identity option \<Rightarrow> ('a client_message_scheme) option \<Rightarrow> rpc_code + scope" where
  "guard_request h identity m =
     (case m of
        None \<Rightarrow> Inl RpcInvalidArgument
      | Some q \<Rightarrow>
          (case me_scope q of
             None \<Rightarrow> Inl RpcInvalidArgument
           | Some raw \<Rightarrow>
               if blank (me_consumer q) \<or> blank (me_client q) then Inl RpcInvalidArgument
               else case compile_scope (ws_region raw) (ws_environment raw) (ws_stage raw) of
                      None \<Rightarrow> Inl RpcInvalidArgument
                    | Some sc \<Rightarrow>
                        if sc_environment sc \<noteq> hn_environment h then Inl RpcFailedPrecondition
                        else if \<not> authorize_consumer identity (trim_space (me_consumer q)) sc then Inl RpcPermissionDenied
                        else Inr sc))"

definition versions_request :: "versions_message \<Rightarrow> scope \<Rightarrow> known_version list \<Rightarrow> snapshot_request" where
  "versions_request q sc known =
     \<lparr>sq_consumer = trim_space (me_consumer q), sq_client = trim_space (me_client q), sq_region = sc_region sc,
      sq_environment = sc_environment sc, sq_stage = sc_stage sc, sq_known = known\<rparr>"

section \<open>GetSnapshot, DiffVersions and GetCollections\<close>

definition versions_code :: "server_error \<Rightarrow> rpc_code" where
  "versions_code e =
     (case e of
        EnvironmentMismatch \<Rightarrow> RpcFailedPrecondition
      | SnapshotUnavailable \<Rightarrow> RpcUnavailable
      | InvalidArgument \<Rightarrow> RpcInvalidArgument
      | _ \<Rightarrow> RpcInternal)"

definition rpc_get_snapshot ::
  "(wire_record list \<Rightarrow> string option) \<Rightarrow> config_handler \<Rightarrow> config_service \<Rightarrow> snapshot option
     \<Rightarrow> consumer_identity option \<Rightarrow> versions_message option \<Rightarrow> rpc_code + snapshot_reply" where
  "rpc_get_snapshot marshal h sv current identity message =
     rbind (guard_request h identity message) (\<lambda>sc.
     rbind (map_known_versions (me_known (the message))) (\<lambda>known.
     case get_snapshot sv current (versions_request (the message) sc known) of
       Inl e \<Rightarrow> Inl (versions_code e)
     | Inr response \<Rightarrow>
         rbind (rmap (map_collection_payload marshal) (sr_collections response)) (\<lambda>payloads.
         Inr \<lparr>sy_identity = sr_identity response,
              sy_scope = \<lparr>ws_region = sr_region response, ws_environment = sr_environment response,
                          ws_stage = sr_stage response\<rparr>,
              sy_deleted = sr_deleted response, sy_collections = payloads\<rparr>)))"

definition rpc_diff_versions ::
  "config_handler \<Rightarrow> config_service \<Rightarrow> snapshot option \<Rightarrow> consumer_identity option \<Rightarrow> versions_message option
     \<Rightarrow> rpc_code + diff_response" where
  "rpc_diff_versions h sv current identity message =
     rbind (guard_request h identity message) (\<lambda>sc.
     rbind (map_known_versions (me_known (the message))) (\<lambda>known.
     case diff_versions sv current (versions_request (the message) sc known) of
       Inl e \<Rightarrow> Inl (versions_code e)
     | Inr response \<Rightarrow> Inr response))"

text \<open>A context that ended was canceled or ran into its deadline: \<open>deadline\<close> says which.\<close>

definition collections_code :: "bool \<Rightarrow> server_error \<Rightarrow> rpc_code" where
  "collections_code deadline e =
     (case e of
        EnvironmentMismatch \<Rightarrow> RpcFailedPrecondition
      | InvalidArgument \<Rightarrow> RpcInvalidArgument
      | CollectionForbidden \<Rightarrow> RpcPermissionDenied
      | SnapshotUnavailable \<Rightarrow> RpcUnavailable
      | ContextEnded \<Rightarrow> (if deadline then RpcDeadlineExceeded else RpcCanceled)
      | ServerFailure _ \<Rightarrow> RpcInternal)"

definition collections_names :: "string list \<Rightarrow> rpc_code + string list" where
  "collections_names raw = rmap (\<lambda>c. if blank c then Inl RpcInvalidArgument else Inr (trim_space c)) raw"

definition minimum_revision :: "int option \<Rightarrow> rpc_code + u64" where
  "minimum_revision m =
     (case m of None \<Rightarrow> Inr 0 | Some v \<Rightarrow> if v \<le> 0 then Inl RpcInvalidArgument else Inr (of_int v))"

definition rpc_get_collections ::
  "(wire_record list \<Rightarrow> string option) \<Rightarrow> config_handler \<Rightarrow> config_service \<Rightarrow> snapshot option
     \<Rightarrow> (refresh_target list \<Rightarrow> submit_error + unit) \<Rightarrow> bool \<Rightarrow> bool \<Rightarrow> wait_tick list
     \<Rightarrow> consumer_identity option \<Rightarrow> collections_message option \<Rightarrow> rpc_code + collections_reply" where
  "rpc_get_collections marshal h sv current submitter parent deadline ticks identity message =
     (if message_complete message \<and> me_collections (the message) = [] then Inl RpcInvalidArgument
      else rbind (guard_request h identity message) (\<lambda>sc.
      rbind (collections_names (me_collections (the message))) (\<lambda>names.
      rbind (minimum_revision (me_min (the message))) (\<lambda>least.
      case get_collections sv current submitter parent ticks
             \<lparr>cq_consumer = trim_space (me_consumer (the message)), cq_client = trim_space (me_client (the message)),
              cq_region = sc_region sc, cq_environment = sc_environment sc, cq_stage = sc_stage sc,
              cq_collections = names, cq_min = least\<rparr> of
        Inl e \<Rightarrow> Inl (collections_code deadline e)
      | Inr (i, ps) \<Rightarrow>
          rbind (rmap (map_collection_payload marshal) ps) (\<lambda>payloads.
          Inr \<lparr>cy_identity = i, cy_collections = payloads\<rparr>)))))"

section \<open>Watch\<close>

record watch_reply =
  wy_event :: string
  wy_identity :: "snapshot_identity option"
  wy_resync :: bool
  wy_versions :: "wire_version list"

definition watch_version :: "version_signal \<Rightarrow> rpc_code + wire_version" where
  "watch_version v =
     (case int64_of (vs_revision v) of
        None \<Rightarrow> Inl RpcInternal
      | Some revision \<Rightarrow>
          Inr \<lparr>wv_collection = vs_collection v, wv_revision = revision,
               wv_effective = Some \<lparr>dg_algorithm = ''SHA-256'', dg_value = vs_digest v\<rparr>\<rparr>)"

definition watch_reply_of :: "string list \<Rightarrow> hub_event \<Rightarrow> rpc_code + watch_reply" where
  "watch_reply_of allowed event =
     rbind (rmap watch_version (filter (\<lambda>v. vs_collection v \<in> set allowed) (he_versions event))) (\<lambda>versions.
     Inr \<lparr>wy_event = he_id event, wy_identity = he_identity event, wy_resync = he_resync event,
          wy_versions = versions\<rparr>)"

text \<open>
  What the loop meets: the end of the context, the closed channel, or an event and whether sending
  its reply to the stream works.
\<close>

datatype watch_input = WatchDone | WatchClosed | WatchEvent hub_event bool

datatype watch_outcome = WatchWaiting | WatchEnded | WatchFailed rpc_code | WatchSendFailed

fun watch_loop :: "string list \<Rightarrow> watch_input list \<Rightarrow> watch_reply list \<times> watch_outcome" where
  "watch_loop allowed [] = ([], WatchWaiting)"
| "watch_loop allowed (WatchDone # inputs) = ([], WatchEnded)"
| "watch_loop allowed (WatchClosed # inputs) = ([], WatchEnded)"
| "watch_loop allowed (WatchEvent event sent # inputs) =
     (case watch_reply_of allowed event of
        Inl e \<Rightarrow> ([], WatchFailed e)
      | Inr reply \<Rightarrow>
          if \<not> sent then ([], WatchSendFailed)
          else if he_resync event then ([reply], WatchEnded)
          else (let (replies, outcome) = watch_loop allowed inputs in (reply # replies, outcome)))"

text \<open>
  The watch authorizer of the repository is the snapshot manager: \<open>Manager.AuthorizedCollections\<close>
  asks the snapshot that is current when it is called.
\<close>

definition manager_collections :: "snapshot option \<Rightarrow> string \<Rightarrow> string list option" where
  "manager_collections current consumer =
     (case current of
        None \<Rightarrow> None
      | Some s \<Rightarrow> (case authorized_collections s consumer of Inl _ \<Rightarrow> None | Inr names \<Rightarrow> Some names))"

text \<open>
  \<open>Watch\<close>: \<open>authorizer\<close> is the watch authorizer, asked for the consumer of the request once, before
  the call subscribes; \<open>inputs\<close> is what the loop meets on its subscription. The last component is the
  hub after the call, which has cancelled it.
\<close>

definition rpc_watch ::
  "config_handler \<Rightarrow> (string \<Rightarrow> string list option) \<Rightarrow> snapshot option \<Rightarrow> watch_hub \<Rightarrow> watch_input list
     \<Rightarrow> consumer_identity option \<Rightarrow> client_message option \<Rightarrow> watch_reply list \<times> watch_outcome \<times> watch_hub" where
  "rpc_watch h authorizer current hub inputs identity message =
     (if \<not> hn_watch h then ([], WatchFailed RpcUnimplemented, hub)
      else case guard_request h identity message of
             Inl e \<Rightarrow> ([], WatchFailed e, hub)
           | Inr sc \<Rightarrow>
               (case authorizer (trim_space (me_consumer (the message))) of
                  None \<Rightarrow> ([], WatchFailed RpcPermissionDenied, hub)
                | Some allowed \<Rightarrow>
                    (case hub_subscribe current hub of
                       (hub', None) \<Rightarrow> ([], WatchFailed RpcResourceExhausted, hub')
                     | (hub', Some key) \<Rightarrow>
                         (case watch_loop allowed inputs of
                            (replies, outcome) \<Rightarrow>
                              (replies, outcome, if outcome = WatchWaiting then hub' else hub_remove key hub')))))"

section \<open>Refresh hints\<close>

definition hint_target :: "wire_target option \<Rightarrow> rpc_code + refresh_target" where
  "hint_target target =
     (case target of
        None \<Rightarrow> Inl RpcInvalidArgument
      | Some t \<Rightarrow>
          if wg_collection t = [] \<or> wg_min t \<le> 0 \<or> wg_cursor t < 0 then Inl RpcInvalidArgument
          else Inr \<lparr>rt_collection = wg_collection t, rt_min = of_int (wg_min t), rt_cursor = of_int (wg_cursor t)\<rparr>)"

definition hint_code :: "hint_error \<Rightarrow> rpc_code" where
  "hint_code e = (if e = HintQueueFull then RpcResourceExhausted else RpcInvalidArgument)"

text \<open>\<open>RefreshHandler.Notify\<close>: an answer is that the hint was accepted.\<close>

definition rpc_notify ::
  "string \<Rightarrow> request_authorizer \<Rightarrow> caller_identity option \<Rightarrow> (refresh_target list \<Rightarrow> 's \<Rightarrow> 's \<times> (submit_error + unit))
     \<Rightarrow> gotime \<Rightarrow> notify_message option \<Rightarrow> hint_receiver \<times> 's \<Rightarrow> (hint_receiver \<times> 's) \<times> (rpc_code + unit)" where
  "rpc_notify managed az identity submitter now message st =
     (case message of
        None \<Rightarrow> (st, Inl RpcInvalidArgument)
      | Some q \<Rightarrow>
          (case nm_scope q of
             None \<Rightarrow> (st, Inl RpcInvalidArgument)
           | Some sc \<Rightarrow>
               if nm_event q = [] \<or> ws_environment sc = [] \<or> nm_targets q = [] then (st, Inl RpcInvalidArgument)
               else case compile_environment (ws_environment sc) of
                      None \<Rightarrow> (st, Inl RpcInvalidArgument)
                    | Some environment \<Rightarrow>
                        if environment \<noteq> managed then (st, Inl RpcInvalidArgument)
                        else if \<not> authorize_refresh az identity environment then (st, Inl RpcPermissionDenied)
                        else case rmap hint_target (nm_targets q) of
                               Inl e \<Rightarrow> (st, Inl e)
                             | Inr targets \<Rightarrow>
                                 (case notify submitter now
                                         \<lparr>hi_event = nm_event q, hi_environment = environment, hi_targets = targets\<rparr> st of
                                    (st', Inl e) \<Rightarrow> (st', Inl (hint_code e))
                                  | (st', Inr _) \<Rightarrow> (st', Inr ()))))"

section \<open>Diagnostics\<close>

record wire_status =
  wx_collection :: string
  wx_revision :: int
  wx_cursor :: int
  wx_digest :: digest

record status_reply =
  su_identity :: snapshot_identity
  su_count :: nat
  su_failed :: "string list"
  su_failed_groups :: "string list list"
  su_environment :: string
  su_collections :: "wire_status list"
  su_error :: "string option"

record collection_status_reply =
  cu_collection :: string
  cu_environment :: string
  cu_version :: wire_version
  cu_cursor :: int
  cu_error :: "string option"

fun join_comma :: "string list \<Rightarrow> string" where
  "join_comma [] = []"
| "join_comma [x] = x"
| "join_comma (x # xs) = x @ '','' @ join_comma xs"

definition error_code :: "string \<Rightarrow> string option" where
  "error_code e = (if e = [] then None else Some e)"

definition wire_status_of :: "collection_diagnostic \<Rightarrow> rpc_code + wire_status" where
  "wire_status_of d =
     (case (int64_of (di_revision d), int64_of (di_cursor d)) of
        (Some revision, Some cursor) \<Rightarrow>
          Inr \<lparr>wx_collection = di_name d, wx_revision = revision, wx_cursor = cursor, wx_digest = di_digest d\<rparr>
      | _ \<Rightarrow> Inl RpcInternal)"

definition rpc_snapshot_status :: "string \<Rightarrow> manager \<Rightarrow> caller_identity option \<Rightarrow> rpc_code + status_reply" where
  "rpc_snapshot_status managed mg identity =
     (let d = diagnose mg
      in if \<not> authorize_diagnostics identity managed then Inl RpcPermissionDenied
         else if dg_environment d \<noteq> managed then Inl RpcFailedPrecondition
         else rbind (rmap wire_status_of (dg_collections d)) (\<lambda>collections.
           Inr \<lparr>su_identity = dg_identity d, su_count = length collections, su_failed = map join_comma (dg_failed d),
                su_failed_groups = dg_failed d, su_environment = dg_environment d, su_collections = collections,
                su_error = error_code (dg_error d)\<rparr>))"

definition rpc_collection_status ::
  "string \<Rightarrow> manager \<Rightarrow> caller_identity option \<Rightarrow> (string \<times> string) option \<Rightarrow> rpc_code + collection_status_reply" where
  "rpc_collection_status managed mg identity message =
     (case message of
        None \<Rightarrow> Inl RpcInvalidArgument
      | Some (collection, raw) \<Rightarrow>
          if blank collection \<or> blank raw then Inl RpcInvalidArgument
          else case compile_environment raw of
                 None \<Rightarrow> Inl RpcInvalidArgument
               | Some environment \<Rightarrow>
                   if environment \<noteq> managed then Inl RpcFailedPrecondition
                   else if \<not> authorize_diagnostics identity environment then Inl RpcPermissionDenied
                   else if dg_environment (diagnose mg) \<noteq> managed then Inl RpcFailedPrecondition
                   else case List.find (\<lambda>d. di_name d = collection) (dg_collections (diagnose mg)) of
                          None \<Rightarrow> Inl RpcNotFound
                        | Some d \<Rightarrow>
                            rbind (wire_status_of d) (\<lambda>w.
                            Inr \<lparr>cu_collection = di_name d, cu_environment = dg_environment (diagnose mg),
                                 cu_version = \<lparr>wv_collection = di_name d, wv_revision = wx_revision w,
                                               wv_effective = Some (di_digest d)\<rparr>,
                                 cu_cursor = wx_cursor w, cu_error = error_code (dg_error (diagnose mg))\<rparr>))"

end
