(* ===== verification/Rpc_Properties.thy ===== *)
theory Rpc_Properties
  imports Config_Rpc Server_Properties
begin

text \<open>Claims about the RPC handlers of the config server.\<close>

section \<open>What passes the guards\<close>

lemma handled_Inr:
  "(case m of Inl e \<Rightarrow> Inl (code e) | Inr x \<Rightarrow> f x) = Inr y \<longleftrightarrow> (\<exists>x. m = Inr x \<and> f x = Inr y)"
  by (cases m) simp_all

lemma guard_request_Inr:
  "guard_request h identity message = Inr sc \<longleftrightarrow>
     (\<exists>q raw i. message = Some q \<and> me_scope q = Some raw \<and> identity = Some i \<and>
        \<not> blank (me_consumer q) \<and> \<not> blank (me_client q) \<and>
        compile_scope (ws_region raw) (ws_environment raw) (ws_stage raw) = Some sc \<and>
        sc_environment sc = hn_environment h \<and> cn_id i = trim_space (me_consumer q) \<and>
        scope_covered (cn_scopes i) sc)"
  by (auto simp: guard_request_def authorize_consumer_def blank_def split: option.splits if_splits)

text \<open>The versions that reach the service are in its normal form, so it never refuses them.\<close>

lemma map_known_version_Inr:
  "map_known_version (seen, known) version = Inr (seen', known') \<longleftrightarrow>
     (\<exists>v d. version = Some v \<and> wv_effective v = Some d \<and> 0 \<le> wv_revision v \<and> trim_space (wv_collection v) \<noteq> [] \<and>
        trim_space (wv_collection v) \<notin> set seen \<and> valid_sha256_digest (Some d) \<and>
        seen' = trim_space (wv_collection v) # seen \<and>
        known' = known @ [\<lparr>kv_collection = trim_space (wv_collection v), kv_revision = of_int (wv_revision v),
                           kv_digest = dg_value d\<rparr>])"
  by (auto simp: map_known_version_def Let_def split: option.splits)

lemma map_known_versions_clean:
  assumes "map_known_versions source = Inr known"
  shows "known_clean known"
proof -
  have "rfold map_known_version (seen, ks) source = Inr (seen', known) \<Longrightarrow>
      set seen = set (map kv_collection ks) \<Longrightarrow> known_clean ks \<Longrightarrow> known_clean known" for seen ks seen'
  proof (induction source arbitrary: seen ks)
    case (Cons version rest)
    then obtain seen1 ks1 where step: "map_known_version (seen, ks) version = Inr (seen1, ks1)"
      "rfold map_known_version (seen1, ks1) rest = Inr (seen', known)"
      by (auto simp: rbind_Inr_iff)
    show ?case
      by (rule Cons.IH [OF step(2)]) (use step(1) Cons.prems(2,3) in \<open>auto simp: map_known_version_Inr known_clean_def\<close>)
  qed simp
  from this [of "[]" "[]"] assms show ?thesis by (auto simp: map_known_versions_def known_clean_def rbind_Inr_iff)
qed

lemma map_collection_payload_name: "map_collection_payload marshal p = Inr w \<Longrightarrow> wp_collection w = cp_name p"
  by (auto simp: map_collection_payload_def rbind_Inr_iff split: option.splits)

lemma map_collection_payload_names:
  "rmap (map_collection_payload marshal) ps = Inr ws \<Longrightarrow> map wp_collection ws = map cp_name ps"
  by (rule rmap_map_eq) (auto dest: map_collection_payload_name)

section \<open>Who gets what\<close>

text \<open>A caller that is the consumer it names, in a scope it was granted and the server manages.\<close>

definition permitted :: "config_handler \<Rightarrow> consumer_identity option \<Rightarrow> 'a client_message_scheme \<Rightarrow> bool" where
  "permitted h identity q \<longleftrightarrow>
     (case (identity, me_scope q) of
        (Some i, Some raw) \<Rightarrow>
          cn_id i = trim_space (me_consumer q) \<and>
          (case compile_scope (ws_region raw) (ws_environment raw) (ws_stage raw) of
             None \<Rightarrow> False
           | Some sc \<Rightarrow> sc_environment sc = hn_environment h \<and> list_ex (\<lambda>p. scope_matches p sc) (cn_scopes i))
      | _ \<Rightarrow> False)"

lemma guard_request_permitted: "guard_request h identity (Some q) = Inr sc \<Longrightarrow> permitted h identity q"
  by (auto simp: guard_request_Inr permitted_def scope_covered_def split: if_splits)

definition consumer_collections :: "snapshot \<Rightarrow> 'a client_message_scheme \<Rightarrow> string list" where
  "consumer_collections s q = read_list (sn_authorized s) (trim_space (me_consumer q))"

text \<open>The collections of a snapshot that are delivered to the consumer.\<close>

definition delivered_to :: "snapshot \<Rightarrow> 'a client_message_scheme \<Rightarrow> string \<Rightarrow> bool" where
  "delivered_to s q name \<longleftrightarrow> collection_visible s (authorized_set (consumer_collections s q)) name"

lemma get_snapshot_visible:
  assumes "get_snapshot sv current q = Inr r" "known_clean (sq_known q)"
    and "trim_space (sq_consumer q) = trim_space (me_consumer m)"
  shows "\<exists>s. current = Some s \<and> list_all (\<lambda>p. delivered_to s m (cp_name p)) (sr_collections r)"
proof -
  obtain known where "rfold index_known fmempty (sq_known q) = Inr known"
    using index_known_clean [OF assms(2), of fmempty] by auto
  from get_snapshot_iff [OF this, of sv current r] assms(1) obtain s bucket authorized all
    where s: "serving sv current q s bucket authorized" "served_payloads s q bucket authorized = Inr all"
      "r = respond s q bucket known all" by blast
  have names: "map cp_name all = filter (collection_visible s (authorized_set authorized)) (collection_names s)"
    using s(2) payload_names unfolding served_payloads_def by blast
  have "collection_visible s (authorized_set authorized) (cp_name p)" if "p \<in> set all" for p
  proof -
    have "cp_name p \<in> set (map cp_name all)" using that by simp
    then show ?thesis by (simp only: names) simp
  qed
  moreover have "authorized = consumer_collections s m"
    using s(1) assms(3) by (auto simp: serving_def authorized_collections_def consumer_collections_def Let_def split: if_splits)
  ultimately show ?thesis using s by (auto simp: serving_def list_all_iff delivered_to_def respond_def)
qed

lemma watch_loop_allowed:
  "watch_loop allowed inputs = (replies, outcome) \<Longrightarrow>
   list_all (\<lambda>reply. list_all (\<lambda>v. wv_collection v \<in> set allowed) (wy_versions reply)) replies"
proof (induction inputs arbitrary: replies)
  case (Cons input inputs)
  have filtered: "list_all (\<lambda>v. wv_collection v \<in> set allowed) (wy_versions reply)"
    if "watch_reply_of allowed event = Inr reply" for event reply
    using that
    by (auto simp: watch_reply_of_def rbind_Inr_iff list_all_iff watch_version_def dest!: rmap_in_set split: option.splits)
  show ?case
  proof (cases input)
    case (WatchEvent event sent)
    with Cons filtered show ?thesis by (auto split: sum.splits if_splits prod.splits)
  qed (use Cons in auto)
qed simp
lemma rpc_watch_replies:
  assumes "rpc_watch h (manager_collections asked) current hub inputs identity (Some q) = (replies, outcome, hub')"
    and "replies \<noteq> []"
  shows "permitted h identity q \<and> (\<exists>s. asked = Some s \<and>
    list_all (\<lambda>reply. list_all (\<lambda>v. wv_collection v \<in> set (consumer_collections s q)) (wy_versions reply)) replies)"
proof -
  from assms obtain sc allowed where *: "guard_request h identity (Some q) = Inr sc"
    "manager_collections asked (trim_space (me_consumer q)) = Some allowed"
    "\<exists>outcome. watch_loop allowed inputs = (replies, outcome)"
    by (auto simp: rpc_watch_def split: if_splits sum.splits option.splits prod.splits)
  then obtain s where "asked = Some s" "allowed = consumer_collections s q"
    by (auto simp: manager_collections_def authorized_collections_def consumer_collections_def Let_def
        split: option.splits sum.splits if_splits)
  with * guard_request_permitted watch_loop_allowed show ?thesis by blast
qed

lemma rpc_get_snapshot_delivers:
  assumes "rpc_get_snapshot marshal h sv current identity (Some q) = Inr r"
  shows "permitted h identity q \<and>
    (\<exists>s. current = Some s \<and> list_all (delivered_to s q) (map wp_collection (sy_collections r)))"
proof -
  from assms obtain sc known response where *: "guard_request h identity (Some q) = Inr sc"
    "map_known_versions (me_known q) = Inr known" "get_snapshot sv current (versions_request q sc known) = Inr response"
    "rmap (map_collection_payload marshal) (sr_collections response) = Inr (sy_collections r)"
    by (auto simp: rpc_get_snapshot_def rbind_Inr_iff handled_Inr)
  have "known_clean (sq_known (versions_request q sc known))"
    using map_known_versions_clean [OF *(2)] by (simp add: versions_request_def)
  from get_snapshot_visible [OF *(3) this, of q] guard_request_permitted [OF *(1)] show ?thesis
    by (auto simp: map_collection_payload_names [OF *(4)] list_all_iff versions_request_def)
qed

lemma rpc_get_collections_delivers:
  assumes "rpc_get_collections marshal h sv current submitter parent deadline ticks identity (Some q) = Inr r"
  shows "permitted h identity q \<and>
    (\<exists>s. Some s \<in> set (current # map wt_loaded ticks) \<and> list_all (delivered_to s q) (map wp_collection (cy_collections r)))"
proof -
  from assms obtain sc c ps where *: "guard_request h identity (Some q) = Inr sc"
    "get_collections sv current submitter parent ticks c = Inr (cy_identity r, ps)"
    "rmap (map_collection_payload marshal) ps = Inr (cy_collections r)" "cq_consumer c = trim_space (me_consumer q)"
    by (auto simp: rpc_get_collections_def rbind_Inr_iff handled_Inr split: if_splits)
  from get_collections_loaded [OF *(2)] obtain t where t: "t \<in> set (current # map wt_loaded ticks)"
    "load_collections sv c (map trim_space (cq_collections c)) t = Inr ((cy_identity r, ps), [])" by blast
  from load_collections_Inr [OF t(2)] obtain full where full: "get_snapshot sv t (full_request c) = Inr full"
    "set ps \<subseteq> set (sr_collections full)" by blast
  have "known_clean (sq_known (full_request c))" by (simp add: full_request_def known_clean_def)
  from get_snapshot_visible [OF full(1) this, of q] obtain s where "t = Some s"
    "list_all (\<lambda>p. delivered_to s q (cp_name p)) (sr_collections full)"
    using *(4) by (auto simp: full_request_def)
  with t(1) full(2) guard_request_permitted [OF *(1)] show ?thesis
    by (intro conjI exI [of _ s]) (auto simp: map_collection_payload_names [OF *(3)] list_all_iff)
qed

text \<open>
  C28: The config server answers a caller only as the consumer its token names, only in a scope that
  a pattern of the token covers and the server manages, and with nothing but collections a snapshot
  delivers to that consumer: for \<open>GetSnapshot\<close> the current one, for \<open>GetCollections\<close> the one its wait
  ended with. Every event of \<open>Watch\<close>, whatever the hub sends, is cut down to the collections that
  the manager's snapshot authorized for that consumer when the watch began; \<open>Watch\<close> does not ask
  again, so a subscription that ends later is still told of.
\<close>

theorem rpc_serves_only_the_consumer:
  "(rpc_get_snapshot marshal h sv current identity (Some q) = Inr r \<longrightarrow>
      permitted h identity q \<and>
      (\<exists>s. current = Some s \<and> list_all (delivered_to s q) (map wp_collection (sy_collections r)))) \<and>
   (rpc_get_collections marshal h sv current submitter parent deadline ticks identity (Some c) = Inr g \<longrightarrow>
      permitted h identity c \<and>
      (\<exists>s. Some s \<in> set (current # map wt_loaded ticks) \<and>
           list_all (delivered_to s c) (map wp_collection (cy_collections g)))) \<and>
   (rpc_watch h (manager_collections asked) current hub inputs identity (Some w) = (replies, outcome, hub') \<and>
      replies \<noteq> [] \<longrightarrow>
      permitted h identity w \<and> (\<exists>s. asked = Some s \<and>
      list_all (\<lambda>reply. list_all (\<lambda>v. wv_collection v \<in> set (consumer_collections s w)) (wy_versions reply)) replies))"
  by (rule conjI, rule impI, erule rpc_get_snapshot_delivers, rule conjI, rule impI,
      erule rpc_get_collections_delivers, rule impI, elim conjE, rule rpc_watch_replies)

definition loans_handler :: config_handler where
  "loans_handler = \<lparr>hn_environment = ''prod'', hn_watch = True\<rparr>"

definition loans_identity :: consumer_identity where
  "loans_identity =
     \<lparr>cn_id = ''loans'', cn_scopes = [\<lparr>sc_region = ''eu'', sc_environment = ''*'', sc_stage = ''*''\<rparr>]\<rparr>"

definition loans_message :: client_message where
  "loans_message =
     \<lparr>me_scope = Some \<lparr>ws_region = ''eu'', ws_environment = ''prod'', ws_stage = []\<rparr>,
      me_consumer = ''loans'', me_client = ''c1''\<rparr>"

definition loans_versions :: versions_message where
  "loans_versions = client_message.extend loans_message \<lparr>me_known = []\<rparr>"

definition loans_collections :: collections_message where
  "loans_collections = client_message.extend loans_message \<lparr>me_collections = [''limits ''], me_min = Some 2\<rparr>"

definition loans_scope :: scope where
  "loans_scope = \<lparr>sc_region = ''eu'', sc_environment = ''prod'', sc_stage = []\<rparr>"

lemma loans_guarded:
  "guard_request loans_handler (Some loans_identity) (Some loans_message) = Inr loans_scope"
  "guard_request loans_handler (Some loans_identity) (Some loans_versions) = Inr loans_scope"
  "guard_request loans_handler (Some loans_identity) (Some loans_collections) = Inr loans_scope"
  by code_simp+

lemma limits_payload_converts:
  "\<exists>w. map_collection_payload (\<lambda>_. Some ''bytes'') limits_payload = Inr w \<and> wp_collection w = ''limits''"
  by (simp add: map_collection_payload_def limits_payload_def int64_of_def)

lemma loans_snapshot_served:
  "\<exists>r. rpc_get_snapshot (\<lambda>_. Some ''bytes'') loans_handler sample_service (Some served_snapshot)
       (Some loans_identity) (Some loans_versions) = Inr r \<and> map wp_collection (sy_collections r) = [''limits'']"
proof -
  have "versions_request loans_versions loans_scope [] = sample_request"
    by (simp add: versions_request_def loans_versions_def loans_message_def loans_scope_def sample_request_def
        client_message.extend_def)
  moreover have "me_known loans_versions = []" by (simp add: loans_versions_def client_message.extend_def)
  ultimately show ?thesis
    using full_served limits_payload_converts
    by (auto simp: rpc_get_snapshot_def loans_guarded map_known_versions_def full_response_sample_def)
qed

text \<open>The consumer watches, and the hub has an event about its collection and another one.\<close>

definition two_signals :: hub_event where
  "two_signals =
     \<lparr>he_id = ''s1:2'', he_identity = None,
      he_versions = [\<lparr>vs_collection = ''limits'', vs_revision = 4, vs_digest = ''d''\<rparr>,
                     \<lparr>vs_collection = ''salaries'', vs_revision = 5, vs_digest = ''e''\<rparr>],
      he_resync = True\<rparr>"

definition loans_watch :: "watch_reply list \<times> watch_outcome \<times> watch_hub" where
  "loans_watch = rpc_watch loans_handler (manager_collections (Some served_snapshot)) (Some served_snapshot)
     \<lparr>wh_queue = 1, wh_max = 1, wh_next = 0, wh_subscribers = {||}, wh_channels = fmempty\<rparr>
     [WatchEvent two_signals True] (Some loans_identity) (Some loans_message)"

lemma loans_watched: "\<exists>reply hub'. loans_watch = ([reply], WatchEnded, hub') \<and> map wv_collection (wy_versions reply) = [''limits'']"
proof -
  have "trim_space ''loans'' = ''loans''" by code_simp
  then have "manager_collections (Some served_snapshot) (trim_space (me_consumer loans_message)) = Some [''limits'']"
    by (simp add: manager_collections_def authorized_collections_def loans_message_def served_snapshot_def read_list_def
        empty_snapshot_def Let_def)
  then show ?thesis
    by (simp add: loans_watch_def rpc_watch_def loans_guarded hub_subscribe_def fcard.rep_eq two_signals_def
        watch_reply_of_def watch_version_def int64_of_def Let_def) (simp add: loans_handler_def)
qed

theorem rpc_serves_only_the_consumer_witness:
  "\<exists>r. rpc_get_snapshot (\<lambda>_. Some ''bytes'') loans_handler sample_service (Some served_snapshot)
       (Some loans_identity) (Some loans_versions) = Inr r \<and>
     permitted loans_handler (Some loans_identity) loans_versions \<and>
     delivered_to served_snapshot loans_versions ''limits'' \<and>
     list_all (\<lambda>reply. list_all (\<lambda>v. wv_collection v \<in> set (consumer_collections served_snapshot loans_message))
       (wy_versions reply)) (fst loans_watch) \<and> fst loans_watch \<noteq> []"
proof -
  obtain r where r: "rpc_get_snapshot (\<lambda>_. Some ''bytes'') loans_handler sample_service (Some served_snapshot)
      (Some loans_identity) (Some loans_versions) = Inr r" "map wp_collection (sy_collections r) = [''limits'']"
    using loans_snapshot_served by (elim exE conjE) (rule that)
  from mp [OF conjunct1 [OF rpc_serves_only_the_consumer] r(1)]
  have p: "permitted loans_handler (Some loans_identity) loans_versions"
    "list_all (delivered_to served_snapshot loans_versions) [''limits'']"
    unfolding r(2) by simp_all
  from p(2) have "delivered_to served_snapshot loans_versions ''limits''" by simp
  moreover obtain reply hub' where w: "loans_watch = ([reply], WatchEnded, hub')" using loans_watched by blast
  from mp [OF conjunct2 [OF conjunct2 [OF rpc_serves_only_the_consumer]] conjI [OF w [unfolded loans_watch_def]]]
  have "list_all (\<lambda>reply. list_all (\<lambda>v. wv_collection v \<in> set (consumer_collections served_snapshot loans_message))
      (wy_versions reply)) (fst loans_watch)" by (simp add: w)
  moreover have "fst loans_watch \<noteq> []" unfolding w by simp
  ultimately show ?thesis using r(1) p(1) by blast
qed

end
