(* ===== verification/Outbox_Store.thy ===== *)
theory Outbox_Store
  imports Go_Strings
begin

text \<open>
  The outbox table and its leases: \<open>internal/outbox/mysqlstore/store.go\<close> with the types of
  \<open>internal/outbox/relay.go\<close> and the operator's service of \<open>internal/outbox/operations.go\<close>.

  A transaction is a function from the tables to an error, which leaves them as they were, or to
  new tables. The table is a map from the primary key to rows; \<open>FOR UPDATE SKIP LOCKED\<close> skips the
  rows that other transactions hold, a set of keys given to the claim. How a time comes back from
  a \<open>DATETIME(6)\<close> column is the parameter \<open>db_time\<close>; a time in a \<open>WHERE\<close> is rounded like it.
  Failures of the database itself are not modelled.
\<close>

datatype outbox_status = OutboxPending | OutboxProcessing | OutboxSent | OutboxDeadLetter | OutboxStatusOther string

datatype outbox_error =
    LeaseLost
  | NotDeadLetter
  | OperationsInvalid
  | OperationsForbidden
  | OutboxFailure String.literal

record outbox_row =
  ox_id :: string
  ox_sequence :: u64
  ox_aggregate_type :: string
  ox_aggregate_id :: string
  ox_type :: string
  ox_payload_version :: "32 word"
  ox_payload :: string
  ox_key :: string
  ox_status :: outbox_status
  ox_lease :: u64
  ox_attempts :: int
  ox_next :: gotime
  ox_locked_by :: "string option"
  ox_locked_until :: "gotime option"
  ox_error :: "string option"
  ox_published :: "gotime option"
  ox_updated :: gotime

record replay_audit =
  ra_at :: gotime
  ra_actor :: string
  ra_event :: string
  ra_reason :: string
  ra_previous :: u64

record outbox_db =
  od_rows :: "(string, outbox_row) fmap"
  od_audit :: "replay_audit list"

text \<open>The \<open>Event\<close> of the application.\<close>

record relay_event =
  re_id :: string
  re_sequence :: u64
  re_aggregate_type :: string
  re_aggregate_id :: string
  re_type :: string
  re_payload_version :: "32 word"
  re_payload :: string
  re_key :: string
  re_status :: outbox_status
  re_lease :: u64
  re_attempts :: int
  re_locked_by :: string
  re_locked_until :: gotime
  re_next :: gotime
  re_error :: string

record claim_request =
  cl_worker :: string
  cl_limit :: int
  cl_now :: gotime
  cl_lease :: int

record replay_request =
  rp_event :: string
  rp_expected :: u64
  rp_reason :: string
  rp_actor :: string
  rp_now :: gotime

section \<open>Claiming\<close>

definition claimable :: "(gotime \<Rightarrow> gotime) \<Rightarrow> gotime \<Rightarrow> outbox_row \<Rightarrow> bool" where
  "claimable db_time now r \<longleftrightarrow>
     (ox_status r = OutboxPending \<and> ox_next r \<le> db_time now) \<or>
     (ox_status r = OutboxProcessing \<and>
        (case ox_locked_until r of None \<Rightarrow> False | Some u \<Rightarrow> u \<le> db_time now))"

definition outbox_rows :: "outbox_db \<Rightarrow> outbox_row list" where
  "outbox_rows db = sort_key ox_sequence (sorted_values (od_rows db))"

text \<open>The \<open>SELECT\<close> of the claim.\<close>

definition claim_rows :: "(gotime \<Rightarrow> gotime) \<Rightarrow> outbox_db \<Rightarrow> string set \<Rightarrow> claim_request \<Rightarrow> outbox_row list" where
  "claim_rows db_time db locked q =
     take (nat (cl_limit q)) (filter (\<lambda>r. claimable db_time (cl_now q) r \<and> ox_id r \<notin> locked) (outbox_rows db))"

definition leased_row :: "(gotime \<Rightarrow> gotime) \<Rightarrow> claim_request \<Rightarrow> outbox_row \<Rightarrow> outbox_row" where
  "leased_row db_time q r =
     r\<lparr>ox_status := OutboxProcessing, ox_lease := ox_lease r + 1, ox_attempts := ox_attempts r + 1,
       ox_locked_by := Some (cl_worker q), ox_locked_until := Some (db_time (cl_now q + cl_lease q)),
       ox_updated := db_time (cl_now q)\<rparr>"

definition claimed_event :: "claim_request \<Rightarrow> outbox_row \<Rightarrow> relay_event" where
  "claimed_event q r =
     \<lparr>re_id = ox_id r, re_sequence = ox_sequence r, re_aggregate_type = ox_aggregate_type r,
      re_aggregate_id = ox_aggregate_id r, re_type = ox_type r, re_payload_version = ox_payload_version r,
      re_payload = ox_payload r, re_key = ox_key r, re_status = OutboxProcessing, re_lease = ox_lease r + 1,
      re_attempts = ox_attempts r + 1, re_locked_by = cl_worker q, re_locked_until = cl_now q + cl_lease q,
      re_next = 0, re_error = []\<rparr>"

text \<open>One iteration over the selected rows: the guarded \<open>UPDATE\<close> and the event it yields.\<close>

definition claim_row ::
  "(gotime \<Rightarrow> gotime) \<Rightarrow> claim_request \<Rightarrow> outbox_db \<times> relay_event list \<Rightarrow> outbox_row
     \<Rightarrow> outbox_error + outbox_db \<times> relay_event list" where
  "claim_row db_time q acc r =
     (case fmlookup (od_rows (fst acc)) (ox_id r) of
        None \<Rightarrow> Inl LeaseLost
      | Some stored \<Rightarrow>
          if ox_lease stored \<noteq> ox_lease r then Inl LeaseLost
          else Inr ((fst acc)\<lparr>od_rows := fmupd (ox_id r) (leased_row db_time q stored) (od_rows (fst acc))\<rparr>,
                    snd acc @ [claimed_event q r]))"

definition claim ::
  "(gotime \<Rightarrow> gotime) \<Rightarrow> outbox_db \<Rightarrow> string set \<Rightarrow> claim_request \<Rightarrow> outbox_error + outbox_db \<times> relay_event list" where
  "claim db_time db locked q =
     (if cl_worker q = [] \<or> cl_limit q \<le> 0 \<or> cl_lease q \<le> 0 \<or> is_zero_time (cl_now q)
      then Inl (OutboxFailure STR ''claim outbox request is invalid'')
      else rfold (claim_row db_time q) (db, []) (claim_rows db_time db locked q))"

section \<open>Completing a lease\<close>

text \<open>The \<open>WHERE\<close> of both completions: the row is still held under the event's lease.\<close>

definition holds_lease :: "relay_event \<Rightarrow> outbox_row \<Rightarrow> bool" where
  "holds_lease e r \<longleftrightarrow>
     ox_status r = OutboxProcessing \<and> ox_lease r = re_lease e \<and> ox_locked_by r = Some (re_locked_by e)"

definition update_lease :: "outbox_db \<Rightarrow> relay_event \<Rightarrow> (outbox_row \<Rightarrow> outbox_row) \<Rightarrow> outbox_error + outbox_db" where
  "update_lease db e change =
     (case fmlookup (od_rows db) (re_id e) of
        None \<Rightarrow> Inl LeaseLost
      | Some r \<Rightarrow>
          if holds_lease e r then Inr (db\<lparr>od_rows := fmupd (re_id e) (change r) (od_rows db)\<rparr>)
          else Inl LeaseLost)"

definition sent_row :: "(gotime \<Rightarrow> gotime) \<Rightarrow> gotime \<Rightarrow> outbox_row \<Rightarrow> outbox_row" where
  "sent_row db_time at r =
     r\<lparr>ox_status := OutboxSent, ox_lease := ox_lease r + 1, ox_locked_by := None, ox_locked_until := None,
       ox_error := None, ox_published := Some (db_time at), ox_updated := db_time at\<rparr>"

definition mark_sent ::
  "(gotime \<Rightarrow> gotime) \<Rightarrow> outbox_db \<Rightarrow> relay_event \<Rightarrow> gotime \<Rightarrow> outbox_error + outbox_db" where
  "mark_sent db_time db e at = update_lease db e (sent_row db_time at)"

definition truncate_text :: "string \<Rightarrow> nat \<Rightarrow> string" where
  "truncate_text s limit = (if length s \<le> limit then s else take limit s)"

definition failed_row ::
  "(gotime \<Rightarrow> gotime) \<Rightarrow> outbox_status \<Rightarrow> string \<Rightarrow> gotime \<Rightarrow> gotime \<Rightarrow> outbox_row \<Rightarrow> outbox_row" where
  "failed_row db_time st summary next_at at r =
     r\<lparr>ox_status := st, ox_lease := ox_lease r + 1, ox_next := db_time next_at, ox_locked_by := None,
       ox_locked_until := None, ox_error := Some (truncate_text summary 1024), ox_updated := db_time at\<rparr>"

definition failed_status :: "relay_event \<Rightarrow> int \<Rightarrow> outbox_status" where
  "failed_status e max_attempts = (if max_attempts \<le> re_attempts e then OutboxDeadLetter else OutboxPending)"

definition mark_failed ::
  "(gotime \<Rightarrow> gotime) \<Rightarrow> outbox_db \<Rightarrow> relay_event \<Rightarrow> string \<Rightarrow> gotime \<Rightarrow> int \<Rightarrow> gotime
     \<Rightarrow> outbox_error + outbox_db \<times> outbox_status" where
  "mark_failed db_time db e summary next_at max_attempts at =
     (if max_attempts \<le> 0 then Inl (OutboxFailure STR ''outbox max attempts must be positive'')
      else rbind (update_lease db e (failed_row db_time (failed_status e max_attempts) summary next_at at)) (\<lambda>db'.
           Inr (db', failed_status e max_attempts)))"

section \<open>Replaying\<close>

definition replayed_row :: "(gotime \<Rightarrow> gotime) \<Rightarrow> gotime \<Rightarrow> outbox_row \<Rightarrow> outbox_row" where
  "replayed_row db_time now r =
     r\<lparr>ox_status := OutboxPending, ox_lease := ox_lease r + 1, ox_attempts := 0, ox_next := db_time now,
       ox_locked_by := None, ox_locked_until := None, ox_error := None, ox_published := None,
       ox_updated := db_time now\<rparr>"

definition replayed_event :: "gotime \<Rightarrow> outbox_row \<Rightarrow> relay_event" where
  "replayed_event now r =
     \<lparr>re_id = ox_id r, re_sequence = ox_sequence r, re_aggregate_type = ox_aggregate_type r,
      re_aggregate_id = ox_aggregate_id r, re_type = ox_type r, re_payload_version = ox_payload_version r,
      re_payload = ox_payload r, re_key = ox_key r, re_status = OutboxPending, re_lease = ox_lease r + 1,
      re_attempts = 0, re_locked_by = [], re_locked_until = 0, re_next = now, re_error = []\<rparr>"

definition replay ::
  "(gotime \<Rightarrow> gotime) \<Rightarrow> outbox_db \<Rightarrow> replay_request \<Rightarrow> outbox_error + outbox_db \<times> relay_event" where
  "replay db_time db q =
     (if rp_event q = [] \<or> rp_expected q = 0 \<or> rp_reason q = [] \<or> rp_actor q = [] \<or> is_zero_time (rp_now q)
      then Inl (OutboxFailure STR ''outbox replay request is incomplete'')
      else case fmlookup (od_rows db) (rp_event q) of
             None \<Rightarrow> Inl LeaseLost
           | Some r \<Rightarrow>
               if ox_lease r \<noteq> rp_expected q then Inl LeaseLost
               else if ox_status r \<noteq> OutboxDeadLetter then Inl NotDeadLetter
               else Inr (db\<lparr>od_rows := fmupd (rp_event q) (replayed_row db_time (rp_now q) r) (od_rows db),
                            od_audit := od_audit db @
                              [\<lparr>ra_at = db_time (rp_now q), ra_actor = rp_actor q, ra_event = rp_event q,
                                ra_reason = truncate_text (rp_reason q) 1024, ra_previous = rp_expected q\<rparr>]\<rparr>,
                         replayed_event (rp_now q) r))"

section \<open>Listing\<close>

record outbox_page =
  op_events :: "relay_event list"
  op_number :: int
  op_size :: int
  op_total :: int
  op_pages :: int

definition has_status :: "outbox_status option \<Rightarrow> outbox_row \<Rightarrow> bool" where
  "has_status st r = (case st of None \<Rightarrow> True | Some x \<Rightarrow> ox_status r = x)"

text \<open>The columns that are listed; the payload is not among them.\<close>

definition listed_event :: "outbox_row \<Rightarrow> relay_event" where
  "listed_event r =
     \<lparr>re_id = ox_id r, re_sequence = ox_sequence r, re_aggregate_type = ox_aggregate_type r,
      re_aggregate_id = ox_aggregate_id r, re_type = ox_type r, re_payload_version = ox_payload_version r,
      re_payload = [], re_key = ox_key r, re_status = ox_status r, re_lease = ox_lease r,
      re_attempts = ox_attempts r, re_locked_by = [], re_locked_until = 0, re_next = ox_next r,
      re_error = (case ox_error r of None \<Rightarrow> [] | Some e \<Rightarrow> e)\<rparr>"

definition list_outbox :: "outbox_db \<Rightarrow> outbox_status option \<Rightarrow> int \<Rightarrow> int \<Rightarrow> outbox_page" where
  "list_outbox db st number width =
     (let rows = filter (has_status st) (outbox_rows db); amount = int (length rows)
      in \<lparr>op_events = map listed_event (take (nat width) (drop (nat ((number - 1) * width)) (rev rows))),
          op_number = number, op_size = width, op_total = amount,
          op_pages = (if 0 < amount then (amount + width - 1) div width else 0)\<rparr>)"

section \<open>The operator's service\<close>

record operator =
  op_subject :: string
  op_roles :: "string list"

definition platform_operator_role :: string where
  "platform_operator_role = ''PLATFORM_OPERATOR''"

definition authorize_platform_operator :: "operator \<Rightarrow> outbox_error + unit" where
  "authorize_platform_operator who =
     (if blank (op_subject who) \<or> platform_operator_role \<notin> set (op_roles who)
      then Inl OperationsForbidden else Inr ())"

definition valid_status :: "outbox_status \<Rightarrow> bool" where
  "valid_status st \<longleftrightarrow> st = OutboxPending \<or> st = OutboxProcessing \<or> st = OutboxSent \<or> st = OutboxDeadLetter"

definition operator_list ::
  "outbox_db \<Rightarrow> operator \<Rightarrow> outbox_status option \<Rightarrow> int \<Rightarrow> int \<Rightarrow> outbox_error + outbox_page" where
  "operator_list db who st number width =
     rbind (authorize_platform_operator who) (\<lambda>_.
     let number' = (if number = 0 then 1 else number); width' = (if width = 0 then 20 else width)
     in if number' < 1 \<or> width' < 1 \<or> 100 < width' \<or> (case st of None \<Rightarrow> False | Some x \<Rightarrow> \<not> valid_status x)
        then Inl OperationsInvalid else Inr (list_outbox db st number' width'))"

definition replay_confirmation :: "string \<Rightarrow> string" where
  "replay_confirmation event = ''REPLAY '' @ trim_space event"

record replay_command =
  rc_event :: string
  rc_expected :: u64
  rc_reason :: string
  rc_confirmation :: string
  rc_principal :: operator

definition operator_replay ::
  "(gotime \<Rightarrow> gotime) \<Rightarrow> outbox_db \<Rightarrow> gotime \<Rightarrow> replay_command \<Rightarrow> outbox_error + outbox_db \<times> relay_event" where
  "operator_replay db_time db now c =
     rbind (authorize_platform_operator (rc_principal c)) (\<lambda>_.
     let event = trim_space (rc_event c); reason = trim_space (rc_reason c)
     in if event = [] \<or> rc_expected c = 0 \<or> reason = [] \<or> rc_confirmation c \<noteq> replay_confirmation event
        then Inl OperationsInvalid
        else replay db_time db
          \<lparr>rp_event = event, rp_expected = rc_expected c, rp_reason = reason,
           rp_actor = trim_space (op_subject (rc_principal c)), rp_now = now\<rparr>)"

end
