(* ===== verification/Outbox_Relay.thy ===== *)
theory Outbox_Relay
  imports Outbox_Store Release_Template Wire_Messages
begin

text \<open>
  The relay that delivers claimed events (\<open>internal/outbox/relay.go\<close>), the sender that turns an
  event into a refresh notification (\<open>refresh_sender.go\<close>) and the notifier that sends it
  (\<open>infrastructure/rpc/refresh_notifier.go\<close>). The RPC client is a parameter: whether it accepts a
  notification. While an event is being sent other workers may use the table; what they do to it
  is part of the tick of the event.
\<close>

section \<open>Decoding the payload\<close>

record changed_event =
  ch_schema :: int
  ch_collection :: string
  ch_environment :: string
  ch_revision :: u64
  ch_order :: string
  ch_trace :: string

text \<open>
  \<open>json.Unmarshal\<close> into the struct of the payload: members are matched exactly or by case folding,
  unknown ones are ignored, of repeated ones the last counts, \<open>null\<close> leaves the zero value.
\<close>

definition lenient_members :: "string list \<Rightarrow> json \<Rightarrow> (string \<times> json) list option" where
  "lenient_members known v =
     (case v of
        JNull \<Rightarrow> Some []
      | JObj kvs \<Rightarrow> Some (concat (map (\<lambda>(k, x). case field_of known k of None \<Rightarrow> [] | Some f \<Rightarrow> [(f, x)]) kvs))
      | _ \<Rightarrow> None)"

text \<open>An unsigned integer: a number token of digits only (\<open>ParseUint\<close>), below the bound of the type.\<close>

definition dec_uint :: "int \<Rightarrow> json option \<Rightarrow> int option" where
  "dec_uint bound v =
     (case v of
        None \<Rightarrow> Some 0
      | Some JNull \<Rightarrow> Some 0
      | Some (JNum t) \<Rightarrow> (case parse_digits 0 t of Some n \<Rightarrow> if t \<noteq> [] \<and> n < bound then Some n else None | None \<Rightarrow> None)
      | _ \<Rightarrow> None)"

definition payload_fields :: "string list" where
  "payload_fields =
     [''schemaVersion'', ''collection'', ''environment'', ''configRevision'', ''releaseOrderId'', ''traceId'']"

text \<open>A value of the wrong type makes \<open>Unmarshal\<close> fail, also where a later member replaces it.\<close>

definition member_fits :: "string \<times> json \<Rightarrow> bool" where
  "member_fits m =
     (if fst m = ''schemaVersion'' then dec_uint (2 ^ 32) (Some (snd m)) \<noteq> None
      else if fst m = ''configRevision'' then dec_uint (2 ^ 64) (Some (snd m)) \<noteq> None
      else dec_string (Some (snd m)) \<noteq> None)"

definition decode_payload :: "string \<Rightarrow> changed_event option" where
  "decode_payload text =
     (case json_parse text of None \<Rightarrow> None
      | Some v \<Rightarrow>
          (case lenient_members payload_fields v of None \<Rightarrow> None
           | Some ms \<Rightarrow>
               if \<not> list_all member_fits ms then None
               else
               (case (dec_uint (2 ^ 32) (scalar_member ms ''schemaVersion''), dec_string (scalar_member ms ''collection''),
                      dec_string (scalar_member ms ''environment''), dec_uint (2 ^ 64) (scalar_member ms ''configRevision''),
                      dec_string (scalar_member ms ''releaseOrderId''), dec_string (scalar_member ms ''traceId'')) of
                  (Some schema, Some collection, Some environment, Some revision, Some order_id, Some trace) \<Rightarrow>
                    Some \<lparr>ch_schema = schema, ch_collection = collection, ch_environment = environment,
                          ch_revision = of_int revision, ch_order = order_id, ch_trace = trace\<rparr>
                | _ \<Rightarrow> None)))"

section \<open>Sending\<close>

record notify_target =
  nt_collection :: string
  nt_min :: u64
  nt_cursor :: u64

record notification =
  no_event :: string
  no_environment :: string
  no_targets :: "notify_target list"
  no_order :: string
  no_trace :: string

datatype send_error =
    UnsupportedEvent
  | UndecodablePayload
  | IncompleteEvent
  | InvalidNotification
  | NotifyFailed
  | NotAccepted

text \<open>What \<open>Send\<close> hands to the notifier.\<close>

definition event_notification :: "relay_event \<Rightarrow> send_error + notification" where
  "event_notification e =
     (if re_type e \<noteq> ''CONFIGURATION_CHANGED'' \<or> re_payload_version e \<noteq> 1 then Inl UnsupportedEvent
      else case decode_payload (re_payload e) of
             None \<Rightarrow> Inl UndecodablePayload
           | Some p \<Rightarrow>
               if ch_schema p \<noteq> 1 \<or> ch_collection p = [] \<or> ch_environment p = [] \<or> ch_revision p = 0
               then Inl IncompleteEvent
               else Inr \<lparr>no_event = re_id e, no_environment = ch_environment p,
                         no_targets = [\<lparr>nt_collection = ch_collection p, nt_min = ch_revision p, nt_cursor = 0\<rparr>],
                         no_order = ch_order p, no_trace = ch_trace p\<rparr>)"

definition wire_target_of :: "notify_target \<Rightarrow> send_error + wire_target option" where
  "wire_target_of t =
     (if nt_collection t = [] \<or> nt_min t = 0 then Inl InvalidNotification
      else case (int64_of (nt_min t), int64_of (nt_cursor t)) of
             (Some least, Some cursor) \<Rightarrow>
               Inr (Some \<lparr>wg_collection = nt_collection t, wg_min = least, wg_cursor = cursor\<rparr>)
           | _ \<Rightarrow> Inl InvalidNotification)"

definition notify_request :: "notification \<Rightarrow> wire_target option list \<Rightarrow> notify_message" where
  "notify_request n targets =
     \<lparr>nm_event = no_event n,
      nm_scope = Some \<lparr>ws_region = [], ws_environment = no_environment n, ws_stage = []\<rparr>,
      nm_targets = targets, nm_order = no_order n, nm_trace = no_trace n\<rparr>"

text \<open>
  \<open>Notify\<close>: the answer of the client to the request is \<open>None\<close> for an error, else whether it accepted.
\<close>

definition notify_server :: "(notify_message \<Rightarrow> bool option) \<Rightarrow> notification \<Rightarrow> send_error + unit" where
  "notify_server client n =
     (if no_event n = [] \<or> no_environment n = [] \<or> no_targets n = [] then Inl InvalidNotification
      else rbind (rmap wire_target_of (no_targets n)) (\<lambda>targets.
           case client (notify_request n targets) of
             None \<Rightarrow> Inl NotifyFailed
           | Some accepted \<Rightarrow> if accepted then Inr () else Inl NotAccepted))"

definition send_event ::
  "(notify_message \<Rightarrow> bool option) \<Rightarrow> relay_event \<Rightarrow> send_error + unit" where
  "send_event client e = rbind (event_notification e) (notify_server client)"

section \<open>The relay\<close>

record relay_options =
  ro_worker :: string
  ro_batch :: int
  ro_lease :: int
  ro_max_attempts :: int
  ro_delay :: int

definition relay_options_ok :: "relay_options \<Rightarrow> bool" where
  "relay_options_ok opts \<longleftrightarrow>
     \<not> (blank (ro_worker opts) \<or> ro_batch opts \<le> 0 \<or> 100 < ro_batch opts \<or> ro_lease opts \<le> 0 \<or>
        ro_max_attempts opts \<le> 0 \<or> ro_delay opts \<le> 0)"

record run_result =
  rn_claimed :: nat
  rn_sent :: nat
  rn_retried :: nat
  rn_dead :: nat

text \<open>
  The delivery of one event: what others do to the table in the meantime, the client's answers, and
  the clock when the outcome is recorded.
\<close>

record relay_tick =
  tk_others :: "outbox_db \<Rightarrow> outbox_db"
  tk_client :: "notify_message \<Rightarrow> bool option"
  tk_now :: gotime

record relay_run =
  ry_db :: outbox_db
  ry_result :: run_result
  ry_errors :: "outbox_error list"

definition deliver_event ::
  "(gotime \<Rightarrow> gotime) \<Rightarrow> relay_options \<Rightarrow> relay_run \<Rightarrow> relay_event \<times> relay_tick \<Rightarrow> relay_run" where
  "deliver_event db_time opts run step =
     (case step of (e, tick) \<Rightarrow>
        let db = tk_others tick (ry_db run); result = ry_result run
        in if is_ok (send_event (tk_client tick) e)
           then (case mark_sent db_time db e (tk_now tick) of
                   Inl err \<Rightarrow> run\<lparr>ry_db := db, ry_errors := ry_errors run @ [err]\<rparr>
                 | Inr db' \<Rightarrow> run\<lparr>ry_db := db', ry_result := result\<lparr>rn_sent := rn_sent result + 1\<rparr>\<rparr>)
           else (case mark_failed db_time db e ''delivery failed'' (tk_now tick + ro_delay opts)
                        (ro_max_attempts opts) (tk_now tick) of
                   Inl err \<Rightarrow> run\<lparr>ry_db := db, ry_errors := ry_errors run @ [err]\<rparr>
                 | Inr (db', st) \<Rightarrow>
                     run\<lparr>ry_db := db', ry_result :=
                       (if st = OutboxDeadLetter then result\<lparr>rn_dead := rn_dead result + 1\<rparr>
                        else result\<lparr>rn_retried := rn_retried result + 1\<rparr>)\<rparr>))"

definition run_once ::
  "(gotime \<Rightarrow> gotime) \<Rightarrow> relay_options \<Rightarrow> outbox_db \<Rightarrow> string set \<Rightarrow> gotime \<Rightarrow> (nat \<Rightarrow> relay_tick)
     \<Rightarrow> outbox_error + relay_run" where
  "run_once db_time opts db locked now ticks =
     rbind (claim db_time db locked
       \<lparr>cl_worker = ro_worker opts, cl_limit = ro_batch opts, cl_now = now, cl_lease = ro_lease opts\<rparr>) (\<lambda>(db', events).
     Inr (foldl (deliver_event db_time opts)
       \<lparr>ry_db = db', ry_result = \<lparr>rn_claimed = length events, rn_sent = 0, rn_retried = 0, rn_dead = 0\<rparr>,
        ry_errors = []\<rparr>
       (zip events (map ticks [0..<length events]))))"

end
