(* ===== verification/Outbox_Facts.thy ===== *)
theory Outbox_Facts
  imports Outbox_Relay Optimistic
begin

text \<open>
  Lemmas about the outbox: what a claim selects and changes, the histories of the table under any
  interleaving of its operations, and the lease as the revision that guards a completion.
\<close>

section \<open>The table\<close>

definition keyed :: "outbox_db \<Rightarrow> bool" where
  "keyed db \<longleftrightarrow> (\<forall>k r. fmlookup (od_rows db) k = Some r \<longrightarrow> ox_id r = k)"

lemma set_outbox_rows: "keyed db \<Longrightarrow> r \<in> set (outbox_rows db) \<longleftrightarrow> fmlookup (od_rows db) (ox_id r) = Some r"
  by (auto simp: outbox_rows_def set_sorted_values keyed_def)

lemma distinct_outbox_rows: "keyed db \<Longrightarrow> distinct (map ox_id (outbox_rows db))"
proof -
  assume "keyed db"
  then have "map ox_id (sorted_values (od_rows db)) = sorted_keys (od_rows db)"
    by (auto simp: sorted_values_def keyed_def fmlookup_dom_iff intro!: map_idI)
  then have "distinct (map ox_id (sorted_values (od_rows db)))" using sorted_keys_sorted by metis
  then show ?thesis by (metis outbox_rows_def distinct_map distinct_sort set_sort)
qed

lemma claim_rows_facts:
  assumes "keyed db"
  shows "r \<in> set (claim_rows db_time db locked q) \<Longrightarrow>
      fmlookup (od_rows db) (ox_id r) = Some r \<and> claimable db_time (cl_now q) r \<and> ox_id r \<notin> locked"
    and "distinct (map ox_id (claim_rows db_time db locked q))"
proof -
  show "r \<in> set (claim_rows db_time db locked q) \<Longrightarrow>
      fmlookup (od_rows db) (ox_id r) = Some r \<and> claimable db_time (cl_now q) r \<and> ox_id r \<notin> locked"
    using set_outbox_rows [OF assms, of r] by (auto simp: claim_rows_def dest: in_set_takeD)
  show "distinct (map ox_id (claim_rows db_time db locked q))"
    using distinct_outbox_rows [OF assms]
    by (simp add: claim_rows_def distinct_map_filter flip: take_map)
qed

lemma find_key: "distinct (map g xs) \<Longrightarrow> x \<in> set xs \<Longrightarrow> find (\<lambda>y. g y = g x) xs = Some x"
  by (induction xs) (auto simp: rev_image_eqI)

text \<open>A claim leases exactly the selected rows, and the guard of its \<open>UPDATE\<close> never fails.\<close>

definition lease_rows :: "(gotime \<Rightarrow> gotime) \<Rightarrow> claim_request \<Rightarrow> outbox_row list \<Rightarrow> (string, outbox_row) fmap \<Rightarrow> (string, outbox_row) fmap" where
  "lease_rows db_time q rows m = foldl (\<lambda>m r. fmupd (ox_id r) (leased_row db_time q r) m) m rows"

lemma lease_rows_lookup:
  "distinct (map ox_id rows) \<Longrightarrow>
   fmlookup (lease_rows db_time q rows m) k =
     (case find (\<lambda>r. ox_id r = k) rows of Some r \<Rightarrow> Some (leased_row db_time q r) | None \<Rightarrow> fmlookup m k)"
proof (induction rows arbitrary: m)
  case (Cons r rows)
  have "find (\<lambda>x. ox_id x = ox_id r) rows = None" using Cons.prems by (simp add: find_None_iff) (metis image_eqI)
  with Cons show ?case by (auto simp: lease_rows_def split: option.split)
qed (simp add: lease_rows_def)

lemma claim_fold:
  assumes "distinct (map ox_id rows)" "\<And>r. r \<in> set rows \<Longrightarrow> fmlookup (od_rows db) (ox_id r) = Some r"
  shows "rfold (claim_row db_time q) (db, evs) rows =
    Inr (db\<lparr>od_rows := lease_rows db_time q rows (od_rows db)\<rparr>, evs @ map (claimed_event q) rows)"
  using assms
proof (induction rows arbitrary: db evs)
  case (Cons r rows)
  let ?db = "db\<lparr>od_rows := fmupd (ox_id r) (leased_row db_time q r) (od_rows db)\<rparr>"
  have "claim_row db_time q (db, evs) r = Inr (?db, evs @ [claimed_event q r])"
    using Cons.prems(2) [of r] by (simp add: claim_row_def)
  moreover have "fmlookup (od_rows ?db) (ox_id x) = Some x" if "x \<in> set rows" for x
    using that Cons.prems by (auto simp: rev_image_eqI)
  ultimately show ?case using Cons.IH [of ?db] Cons.prems(1) by (simp add: lease_rows_def)
qed (simp add: lease_rows_def)

definition claim_valid :: "claim_request \<Rightarrow> bool" where
  "claim_valid q \<longleftrightarrow> cl_worker q \<noteq> [] \<and> 0 < cl_limit q \<and> 0 < cl_lease q \<and> \<not> is_zero_time (cl_now q)"

lemma claim_exact:
  assumes "keyed db"
  shows "claim db_time db locked q =
    (if claim_valid q
     then Inr (db\<lparr>od_rows := lease_rows db_time q (claim_rows db_time db locked q) (od_rows db)\<rparr>,
            map (claimed_event q) (claim_rows db_time db locked q))
     else Inl (OutboxFailure STR ''claim outbox request is invalid''))"
proof -
  have "rfold (claim_row db_time q) (db, []) (claim_rows db_time db locked q) =
      Inr (db\<lparr>od_rows := lease_rows db_time q (claim_rows db_time db locked q) (od_rows db)\<rparr>,
        [] @ map (claimed_event q) (claim_rows db_time db locked q))"
    using claim_rows_facts [OF assms] by (intro claim_fold) blast+
  then show ?thesis by (auto simp: claim_def claim_valid_def not_le)
qed

section \<open>Histories of the table\<close>

text \<open>
  Everything that changes the table, in any order: the insertions of the other stores, claims
  and completions of any worker with any copy of an event, and replays. A failed transaction
  leaves the table.
\<close>

datatype outbox_action =
    InsertEvent outbox_row
  | ClaimEvents "string set" claim_request
  | CompleteSent relay_event gotime
  | CompleteFailed relay_event string gotime int gotime
  | ReplayEvent replay_request

text \<open>The \<open>INSERT\<close> of an event: its key is new, it is due, has the first lease and no attempts.\<close>

definition insertable :: "outbox_db \<Rightarrow> outbox_row \<Rightarrow> bool" where
  "insertable db r \<longleftrightarrow>
     ox_id r |\<notin>| fmdom (od_rows db) \<and> ox_status r = OutboxPending \<and> ox_lease r = 1 \<and> ox_attempts r = 0 \<and>
     ox_locked_by r = None \<and> ox_locked_until r = None \<and> ox_error r = None \<and> ox_published r = None"

definition outcome :: "outbox_db \<Rightarrow> outbox_error + outbox_db \<Rightarrow> outbox_db" where
  "outcome db result = (case result of Inl _ \<Rightarrow> db | Inr db' \<Rightarrow> db')"

definition outbox_act :: "(gotime \<Rightarrow> gotime) \<Rightarrow> outbox_db \<Rightarrow> outbox_action \<Rightarrow> outbox_db" where
  "outbox_act db_time db a =
     (case a of
        InsertEvent r \<Rightarrow> if insertable db r then db\<lparr>od_rows := fmupd (ox_id r) r (od_rows db)\<rparr> else db
      | ClaimEvents locked q \<Rightarrow> outcome db (rbind (claim db_time db locked q) (\<lambda>(db', _). Inr db'))
      | CompleteSent e at \<Rightarrow> outcome db (mark_sent db_time db e at)
      | CompleteFailed e summary next_at max_attempts at \<Rightarrow>
          outcome db (rbind (mark_failed db_time db e summary next_at max_attempts at) (\<lambda>(db', _). Inr db'))
      | ReplayEvent q \<Rightarrow> outcome db (rbind (replay db_time db q) (\<lambda>(db', _). Inr db')))"

definition outbox_history :: "(gotime \<Rightarrow> gotime) \<Rightarrow> outbox_db \<Rightarrow> outbox_action list \<Rightarrow> outbox_db" where
  "outbox_history db_time db as = foldl (outbox_act db_time) db as"

text \<open>What one action may do to a row: leave it, or count its lease up, never changing what is sent.\<close>

definition row_step :: "outbox_row \<Rightarrow> outbox_row \<Rightarrow> bool" where
  "row_step r r' \<longleftrightarrow>
     r' = r \<or>
     (ox_lease r' = ox_lease r + 1 \<and> ox_status r \<noteq> OutboxSent \<and> ox_id r' = ox_id r \<and>
      ox_payload r' = ox_payload r \<and> ox_type r' = ox_type r \<and> ox_payload_version r' = ox_payload_version r)"

text \<open>The rows a history can hold.\<close>

definition row_ok :: "outbox_row \<Rightarrow> bool" where
  "row_ok r \<longleftrightarrow>
     valid_status (ox_status r) \<and> 0 \<le> ox_attempts r \<and>
     (ox_status r = OutboxProcessing \<longleftrightarrow> ox_locked_by r \<noteq> None) \<and>
     (ox_locked_by r \<noteq> None \<longleftrightarrow> ox_locked_until r \<noteq> None) \<and>
     (ox_status r = OutboxSent \<longleftrightarrow> ox_published r \<noteq> None) \<and>
     (ox_status r \<noteq> OutboxPending \<longrightarrow> 0 < ox_attempts r)"

definition table_ok :: "outbox_db \<Rightarrow> bool" where
  "table_ok db \<longleftrightarrow> (\<forall>k r. fmlookup (od_rows db) k = Some r \<longrightarrow> ox_id r = k \<and> row_ok r)"

lemma table_ok_keyed: "table_ok db \<Longrightarrow> keyed db"
  by (simp add: table_ok_def keyed_def)

text \<open>Each action rewrites some rows, all of them by a step.\<close>

definition table_step :: "outbox_db \<Rightarrow> outbox_db \<Rightarrow> bool" where
  "table_step db db' \<longleftrightarrow>
     (\<forall>k r. fmlookup (od_rows db) k = Some r \<longrightarrow> (\<exists>r'. fmlookup (od_rows db') k = Some r' \<and> row_step r r')) \<and>
     table_ok db'"

lemma table_step_update:
  assumes "table_ok db" "fmlookup (od_rows db) k = Some r" "row_step r r'" "row_ok r'"
    and "od_rows db' = fmupd k r' (od_rows db)"
  shows "table_step db db'"
  using assms by (auto simp: table_step_def table_ok_def row_step_def)

lemma table_step_same: "table_ok db \<Longrightarrow> od_rows db' = od_rows db \<Longrightarrow> table_step db db'"
  by (auto simp: table_step_def table_ok_def row_step_def)

lemma row_stepI:
  "ox_lease r' = ox_lease r + 1 \<Longrightarrow> ox_status r \<noteq> OutboxSent \<Longrightarrow> ox_id r' = ox_id r \<Longrightarrow>
   ox_payload r' = ox_payload r \<Longrightarrow> ox_type r' = ox_type r \<Longrightarrow>
   ox_payload_version r' = ox_payload_version r \<Longrightarrow> row_step r r'"
  by (simp add: row_step_def)

lemma leased_row_step:
  assumes "row_ok r" "claimable db_time now r"
  shows "row_step r (leased_row db_time q r)" "row_ok (leased_row db_time q r)"
proof -
  have "ox_status r \<noteq> OutboxSent" using assms(2) by (auto simp: claimable_def)
  then show "row_step r (leased_row db_time q r)" by (intro row_stepI) (simp_all add: leased_row_def)
  show "row_ok (leased_row db_time q r)"
    using assms by (auto simp: leased_row_def row_ok_def claimable_def valid_status_def)
qed

lemma completed_row_step:
  assumes "row_ok r" "holds_lease e r"
  shows "row_step r (sent_row db_time at r)" "row_ok (sent_row db_time at r)"
    "row_step r (failed_row db_time (failed_status e m) s n at r)" "row_ok (failed_row db_time (failed_status e m) s n at r)"
proof -
  have "ox_status r = OutboxProcessing" using assms(2) by (simp add: holds_lease_def)
  then show "row_step r (sent_row db_time at r)" "row_step r (failed_row db_time (failed_status e m) s n at r)"
    by (intro row_stepI; simp add: sent_row_def failed_row_def)+
  show "row_ok (sent_row db_time at r)" "row_ok (failed_row db_time (failed_status e m) s n at r)"
    using assms(1) \<open>ox_status r = OutboxProcessing\<close>
    by (simp_all add: sent_row_def failed_row_def row_ok_def valid_status_def failed_status_def)
qed

lemma replayed_row_step:
  assumes "row_ok r" "ox_status r = OutboxDeadLetter"
  shows "row_step r (replayed_row db_time now r)" "row_ok (replayed_row db_time now r)"
  using assms by (intro row_stepI; simp add: replayed_row_def) (simp add: replayed_row_def row_ok_def valid_status_def)

lemma update_lease_Inr:
  "update_lease db e f = Inr db' \<longleftrightarrow>
     (\<exists>r. fmlookup (od_rows db) (re_id e) = Some r \<and> holds_lease e r \<and>
        db' = db\<lparr>od_rows := fmupd (re_id e) (f r) (od_rows db)\<rparr>)"
  by (auto simp: update_lease_def split: option.splits if_splits)

lemma lease_rows_step:
  assumes "table_ok db" "od_rows db' = lease_rows db_time q (claim_rows db_time db locked q) (od_rows db)"
  shows "table_step db db'"
proof -
  note rows = claim_rows_facts [OF table_ok_keyed [OF assms(1)], where db_time = db_time and locked = locked and q = q]
  have look: "fmlookup (od_rows db') k =
      (case find (\<lambda>r. ox_id r = k) (claim_rows db_time db locked q) of
         Some r \<Rightarrow> Some (leased_row db_time q r) | None \<Rightarrow> fmlookup (od_rows db) k)" for k
    by (simp add: assms(2) lease_rows_lookup [OF rows(2)])
  have found: "fmlookup (od_rows db) k = Some r \<and> row_step r (leased_row db_time q r) \<and>
      row_ok (leased_row db_time q r) \<and> ox_id (leased_row db_time q r) = k"
    if "find (\<lambda>r. ox_id r = k) (claim_rows db_time db locked q) = Some r" for k r
  proof -
    have r: "r \<in> set (claim_rows db_time db locked q)" "ox_id r = k"
      using that by (auto simp: find_Some_iff)
    then have "fmlookup (od_rows db) k = Some r" "claimable db_time (cl_now q) r" using rows(1) by auto
    moreover from this have "row_ok r" using assms(1) by (simp add: table_ok_def)
    ultimately show ?thesis using leased_row_step r(2) by (simp add: leased_row_def)
  qed
  show ?thesis
    unfolding table_step_def table_ok_def
  proof (intro conjI allI impI)
    fix k r
    assume "fmlookup (od_rows db) k = Some r"
    then show "\<exists>r'. fmlookup (od_rows db') k = Some r' \<and> row_step r r'"
      using look [of k] found [of k] by (cases "find (\<lambda>r. ox_id r = k) (claim_rows db_time db locked q)")
        (auto simp: row_step_def)
  next
    fix k r
    assume r: "fmlookup (od_rows db') k = Some r"
    have "ox_id r = k \<and> row_ok r"
    proof (cases "find (\<lambda>r. ox_id r = k) (claim_rows db_time db locked q)")
      case None
      with r look [of k] assms(1) show ?thesis by (simp add: table_ok_def)
    next
      case (Some x)
      with r look [of k] have "r = leased_row db_time q x" by simp
      with found [OF Some] show ?thesis by simp
    qed
    then show "ox_id r = k" "row_ok r" by simp_all
  qed
qed

lemma update_lease_step:
  assumes "table_ok db" "update_lease db e f = Inr db'"
    and "\<And>r. row_ok r \<Longrightarrow> holds_lease e r \<Longrightarrow> row_step r (f r) \<and> row_ok (f r)"
  shows "table_step db db'"
proof -
  from assms(2) obtain r where r: "fmlookup (od_rows db) (re_id e) = Some r" "holds_lease e r"
    "db' = db\<lparr>od_rows := fmupd (re_id e) (f r) (od_rows db)\<rparr>" by (auto simp: update_lease_Inr)
  moreover have "row_ok r" using r(1) assms(1) by (simp add: table_ok_def)
  ultimately show ?thesis using assms(3) by (intro table_step_update [OF assms(1) r(1)]) auto
qed

lemma outbox_act_step:
  assumes "table_ok db" shows "table_step db (outbox_act db_time db a)"
proof -
  note same = table_step_same [OF assms refl]
  show ?thesis
  proof (cases a)
    case (InsertEvent r)
    have "row_ok r" if "insertable db r" using that by (auto simp: insertable_def row_ok_def valid_status_def)
    then show ?thesis
      using assms same InsertEvent
      by (auto simp: outbox_act_def table_step_def table_ok_def row_step_def insertable_def fmlookup_dom_iff)
  next
    case (ClaimEvents locked q)
    have "table_step db (db\<lparr>od_rows := lease_rows db_time q (claim_rows db_time db locked q) (od_rows db)\<rparr>)"
      by (rule lease_rows_step [OF assms]) simp
    then show ?thesis
      using ClaimEvents same by (simp add: outbox_act_def outcome_def claim_exact [OF table_ok_keyed [OF assms]])
  next
    case (CompleteSent e at)
    then show ?thesis
      using update_lease_step [OF assms] completed_row_step(1,2) same
      by (cases "mark_sent db_time db e at") (auto simp: outbox_act_def outcome_def mark_sent_def)
  next
    case (CompleteFailed e summary next_at max_attempts at)
    have "table_step db db'" if "mark_failed db_time db e summary next_at max_attempts at = Inr (db', st)" for db' st
      using that update_lease_step [OF assms] completed_row_step(3,4)
      by (auto simp: mark_failed_def rbind_Inr_iff split: if_splits)
    then show ?thesis
      using CompleteFailed same
      by (cases "mark_failed db_time db e summary next_at max_attempts at") (auto simp: outbox_act_def outcome_def)
  next
    case (ReplayEvent q)
    have "table_step db db'" if "replay db_time db q = Inr (db', e)" for db' e
    proof -
      from that obtain r where "fmlookup (od_rows db) (rp_event q) = Some r" "ox_status r = OutboxDeadLetter"
        "od_rows db' = fmupd (rp_event q) (replayed_row db_time (rp_now q) r) (od_rows db)"
        by (auto simp: replay_def split: if_splits option.splits)
      moreover from this have "row_ok r" using assms by (simp add: table_ok_def)
      ultimately show ?thesis using replayed_row_step by (intro table_step_update [OF assms]) auto
    qed
    then show ?thesis
      using ReplayEvent same by (cases "replay db_time db q") (auto simp: outbox_act_def outcome_def)
  qed
qed

text \<open>
  Over a history the lease of a row counts the changes of the row; while there are fewer than
  \<open>2 ^ 64\<close> actions it tells whether there was any, and a sent row does not change.
\<close>

lemma history_row:
  assumes "table_ok db" "fmlookup (od_rows db) k = Some r"
  shows "\<exists>r' n. fmlookup (od_rows (outbox_history db_time db as)) k = Some r' \<and> n \<le> length as \<and>
    ox_lease r' = ox_lease r + of_nat n \<and> (n = 0 \<longrightarrow> r' = r) \<and> (ox_status r = OutboxSent \<longrightarrow> r' = r) \<and>
    ox_id r' = ox_id r \<and> ox_payload r' = ox_payload r \<and> ox_type r' = ox_type r \<and>
    ox_payload_version r' = ox_payload_version r"
  using assms
proof (induction as arbitrary: db r)
  case (Cons a as)
  have step: "table_step db (outbox_act db_time db a)" using outbox_act_step [OF Cons.prems(1)] .
  then obtain s where s: "fmlookup (od_rows (outbox_act db_time db a)) k = Some s" "row_step r s"
    using Cons.prems(2) by (auto simp: table_step_def)
  have "table_ok (outbox_act db_time db a)" using step by (simp add: table_step_def)
  from Cons.IH [OF this s(1)] obtain r' n where *:
    "fmlookup (od_rows (outbox_history db_time (outbox_act db_time db a) as)) k = Some r'" "n \<le> length as"
    "ox_lease r' = ox_lease s + of_nat n" "n = 0 \<longrightarrow> r' = s" "ox_status s = OutboxSent \<longrightarrow> r' = s"
    "ox_id r' = ox_id s" "ox_payload r' = ox_payload s" "ox_type r' = ox_type s"
    "ox_payload_version r' = ox_payload_version s" by blast
  have hist: "outbox_history db_time db (a # as) = outbox_history db_time (outbox_act db_time db a) as"
    by (simp add: outbox_history_def)
  show ?case
  proof (cases "s = r")
    case True
    then show ?thesis using * hist by (intro exI [of _ r'] exI [of _ n]) simp
  next
    case False
    with s(2) have "ox_lease s = ox_lease r + 1" "ox_status r \<noteq> OutboxSent" "ox_id s = ox_id r"
      "ox_payload s = ox_payload r" "ox_type s = ox_type r" "ox_payload_version s = ox_payload_version r"
      by (simp_all add: row_step_def)
    then show ?thesis using * hist by (intro exI [of _ r'] exI [of _ "Suc n"]) simp
  qed
qed (simp add: outbox_history_def)

lemma history_ok: "table_ok db \<Longrightarrow> table_ok (outbox_history db_time db as)"
  by (induction as arbitrary: db) (use outbox_act_step in \<open>auto simp: outbox_history_def table_step_def\<close>)

lemma history_lease:
  assumes "table_ok db" "fmlookup (od_rows db) k = Some r" "length as < 2 ^ 64"
    and "fmlookup (od_rows (outbox_history db_time db as)) k = Some r'"
  shows "ox_lease r' = ox_lease r \<longleftrightarrow> r' = r"
proof -
  from history_row [OF assms(1,2), of db_time as] assms(4) obtain n where n: "n \<le> length as"
    "ox_lease r' = ox_lease r + of_nat n" "n = 0 \<longrightarrow> r' = r" by fastforce
  have "(of_nat n :: u64) = 0 \<longleftrightarrow> n = 0"
    using n(1) assms(3) by (auto simp: word_of_nat_eq_0_iff dest: nat_dvd_not_less)
  with n show ?thesis by auto
qed

end
