(* ===== verification/Outbox_Properties.thy ===== *)
theory Outbox_Properties
  imports Outbox_Facts Release_Store
begin

text \<open>
  The claims about the outbox (\<open>internal/outbox\<close>) and about the events that releases put into it
  (\<open>internal/release/mysqlstore/store.go\<close>).
\<close>

section \<open>Leases\<close>

definition empty_outbox :: outbox_db where
  "empty_outbox = \<lparr>od_rows = fmempty, od_audit = []\<rparr>"

lemma empty_history_ok: "table_ok (outbox_history db_time empty_outbox past)"
  by (rule history_ok) (simp add: table_ok_def empty_outbox_def)

text \<open>A completion of a row as a command that names the lease it expects.\<close>

definition complete_row :: "(outbox_row \<Rightarrow> outbox_row) \<times> relay_event \<Rightarrow> outbox_row \<Rightarrow> outbox_error + outbox_row" where
  "complete_row c r =
     (if holds_lease (snd c) r then Inr (fst c r\<lparr>ox_lease := ox_lease r + 1\<rparr>) else Inl LeaseLost)"

interpretation outbox_lease: guarded ox_lease "\<lambda>c. Some (re_lease (snd c))" complete_row
  by unfold_locales (auto simp: complete_row_def holds_lease_def is_ok_iff split: if_splits)


lemma update_lease_complete:
  assumes "\<And>r. ox_lease (f r) = ox_lease r + 1"
  shows "update_lease db e f =
    (case fmlookup (od_rows db) (re_id e) of
       None \<Rightarrow> Inl LeaseLost
     | Some r \<Rightarrow> rbind (complete_row (f, e) r) (\<lambda>r'. Inr (db\<lparr>od_rows := fmupd (re_id e) r' (od_rows db)\<rparr>)))"
proof -
  have "(f r)\<lparr>ox_lease := ox_lease r + 1\<rparr> = f r" for r
    using assms [of r] by (simp flip: assms)
  then show ?thesis by (simp add: update_lease_def complete_row_def split: option.split)
qed

lemma mark_ok_iff:
  "is_ok (mark_sent db_time db e at) \<longleftrightarrow> is_ok (update_lease db e (sent_row db_time at))"
  "0 < m \<Longrightarrow> is_ok (mark_failed db_time db e s n m at) \<longleftrightarrow>
     is_ok (update_lease db e (failed_row db_time (failed_status e m) s n at))"
  by (auto simp: mark_sent_def mark_failed_def is_ok_iff rbind_Inr_iff)

lemma update_lease_ok_iff:
  "is_ok (update_lease db e f) \<longleftrightarrow> (\<exists>r. fmlookup (od_rows db) (re_id e) = Some r \<and> holds_lease e r)"
  by (auto simp: is_ok_iff update_lease_Inr)

text \<open>What a claimed event finds in the table right after the claim.\<close>

lemma claimed_event_row:
  assumes "table_ok db" "claim db_time db locked q = Inr (db', events)" "e \<in> set events"
  obtains r where "fmlookup (od_rows db) (re_id e) = Some r" "claimable db_time (cl_now q) r" "ox_id r \<notin> locked"
    "e = claimed_event q r" "fmlookup (od_rows db') (re_id e) = Some (leased_row db_time q r)"
    "holds_lease e (leased_row db_time q r)" "table_ok db'"
proof -
  note keyed = table_ok_keyed [OF assms(1)]
  note rows = claim_rows_facts [OF keyed, where db_time = db_time and locked = locked and q = q]
  have db': "db' = db\<lparr>od_rows := lease_rows db_time q (claim_rows db_time db locked q) (od_rows db)\<rparr>"
    "events = map (claimed_event q) (claim_rows db_time db locked q)"
    using assms(2) by (auto simp: claim_exact [OF keyed] split: if_splits)
  then obtain r where r: "r \<in> set (claim_rows db_time db locked q)" "e = claimed_event q r" using assms(3) by auto
  then have id: "re_id e = ox_id r" by (simp add: claimed_event_def)
  have "find (\<lambda>x. ox_id x = ox_id r) (claim_rows db_time db locked q) = Some r"
    using find_key [OF rows(2) r(1)] .
  show thesis
  proof (rule that [of r])
    show "fmlookup (od_rows db) (re_id e) = Some r" "claimable db_time (cl_now q) r" "ox_id r \<notin> locked"
      using rows(1) [OF r(1)] id by simp_all
    show "fmlookup (od_rows db') (re_id e) = Some (leased_row db_time q r)"
      using \<open>find _ _ = Some r\<close> by (simp add: db'(1) id lease_rows_lookup [OF rows(2)])
    show "holds_lease e (leased_row db_time q r)"
      by (simp add: r(2) holds_lease_def claimed_event_def leased_row_def)
    show "table_ok db'" using lease_rows_step [OF assms(1)] db'(1) by (simp add: table_step_def)
  qed (rule r(2))
qed

text \<open>
  C12: Only the holder of a lease completes an event: whatever happens to the table after a claim,
  recording a claimed event as sent or as failed succeeds exactly if its row is still as the
  claim left it. So when the lease ran out and another worker claimed the event, or it was
  completed already, the completion is refused. (The lease is a \<open>uint64\<close>; it takes \<open>2 ^ 64\<close>
  changes of a row to return to a value.)
\<close>

theorem completion_needs_untouched_lease:
  assumes "claim db_time (outbox_history db_time empty_outbox past) locked q = Inr (db, events)" "e \<in> set events"
    and "length as < 2 ^ 64" "0 < m"
  shows "(is_ok (mark_sent db_time (outbox_history db_time db as) e at) \<longleftrightarrow>
      fmlookup (od_rows (outbox_history db_time db as)) (re_id e) = fmlookup (od_rows db) (re_id e)) \<and>
    (is_ok (mark_failed db_time (outbox_history db_time db as) e summary next_at m at) \<longleftrightarrow>
      fmlookup (od_rows (outbox_history db_time db as)) (re_id e) = fmlookup (od_rows db) (re_id e))"
proof -
  from claimed_event_row [OF empty_history_ok assms(1,2)] obtain r where r:
    "fmlookup (od_rows db) (re_id e) = Some r" "holds_lease e r" "table_ok db" by metis
  from history_row [OF r(3,1), of db_time as] obtain r' where r':
    "fmlookup (od_rows (outbox_history db_time db as)) (re_id e) = Some r'" by blast
  have "holds_lease e r' \<longleftrightarrow> r' = r"
    using history_lease [OF r(3,1) assms(3) r'] r(2) by (auto simp: holds_lease_def)
  then show ?thesis
    using r(1) r' by (simp add: mark_ok_iff(1) mark_ok_iff(2) [OF assms(4)] update_lease_ok_iff)
qed

text \<open>Of two completions with copies of one claimed event only the first succeeds.\<close>

lemma completed_once:
  assumes "mark_sent db_time db e at = Inr db'" "0 < m"
  shows "\<not> is_ok (mark_sent db_time db' e at')" "\<not> is_ok (mark_failed db_time db' e s n m at')"
proof -
  have counts: "ox_lease (sent_row db_time t r) = ox_lease r + 1"
    "ox_lease (failed_row db_time st s n t r) = ox_lease r + 1" for t r st
    by (simp_all add: sent_row_def failed_row_def)
  from assms(1) obtain r r' where r: "fmlookup (od_rows db) (re_id e) = Some r"
    "complete_row (sent_row db_time at, e) r = Inr r'" "fmlookup (od_rows db') (re_id e) = Some r'"
    by (auto simp: mark_sent_def update_lease_complete counts rbind_Inr_iff split: option.splits)
  have "re_lease e = ox_lease r" using r(2) by (simp add: complete_row_def holds_lease_def split: if_splits)
  then have "\<not> is_ok (complete_row (f, e) r')" for f
    using outbox_lease.no_lost_update [OF r(2), of "(f, e)"] by simp
  then show "\<not> is_ok (mark_sent db_time db' e at')" "\<not> is_ok (mark_failed db_time db' e s n m at')"
    unfolding mark_ok_iff(1) mark_ok_iff(2) [OF assms(2)]
    using r(3) by (simp_all add: update_lease_complete counts is_ok_iff rbind_Inr_iff)
qed

text \<open>When a row that is neither sent nor dead can be claimed.\<close>

definition due_time :: "outbox_row \<Rightarrow> gotime" where
  "due_time r = (if ox_status r = OutboxPending then ox_next r else the (ox_locked_until r))"

lemma due_claimable:
  assumes "row_ok r" "ox_status r \<noteq> OutboxSent" "ox_status r \<noteq> OutboxDeadLetter" "due_time r \<le> db_time now"
  shows "claimable db_time now r"
  using assms by (auto simp: row_ok_def valid_status_def claimable_def due_time_def)

text \<open>
  C11: No event is stranded: in any history of the table an event that is neither sent nor
  dead-lettered is claimed once it is due, by a claim that takes every row, even when its last
  worker died; the claim counts an attempt, and its outcome can then be recorded: as sent, or as
  failed, which dead-letters the event exactly when the attempts reach the limit.
\<close>

theorem unsent_events_get_claimed:
  assumes "fmlookup (od_rows (outbox_history db_time empty_outbox past)) k = Some r"
    and "ox_status r \<noteq> OutboxSent" "ox_status r \<noteq> OutboxDeadLetter" "due_time r \<le> db_time (cl_now q)"
    and "claim_valid q" "int (length (outbox_rows (outbox_history db_time empty_outbox past))) \<le> cl_limit q" "0 < m"
  shows "\<exists>db events e sent failed.
    claim db_time (outbox_history db_time empty_outbox past) {} q = Inr (db, events) \<and> e \<in> set events \<and>
    re_id e = k \<and> re_attempts e = ox_attempts r + 1 \<and> re_payload e = ox_payload r \<and>
    mark_sent db_time db e at = Inr sent \<and> map_option ox_status (fmlookup (od_rows sent) k) = Some OutboxSent \<and>
    mark_failed db_time db e summary next_at m at =
      Inr (failed, if m \<le> ox_attempts r + 1 then OutboxDeadLetter else OutboxPending)"
proof -
  let ?db = "outbox_history db_time empty_outbox past"
  note ok = empty_history_ok [of db_time past]
  note keyed = table_ok_keyed [OF ok]
  have "row_ok r" "ox_id r = k" using ok assms(1) by (simp_all add: table_ok_def)
  then have "claimable db_time (cl_now q) r" using due_claimable assms(2-4) by blast
  moreover have "r \<in> set (outbox_rows ?db)" using set_outbox_rows [OF keyed] assms(1) \<open>ox_id r = k\<close> by simp
  moreover have "claim_rows db_time ?db {} q = filter (claimable db_time (cl_now q)) (outbox_rows ?db)"
  proof -
    have "length (filter (claimable db_time (cl_now q)) (outbox_rows ?db)) \<le> nat (cl_limit q)"
      using assms(6) length_filter_le [of "claimable db_time (cl_now q)" "outbox_rows ?db"] by linarith
    then show ?thesis by (simp add: claim_rows_def)
  qed
  ultimately have r: "r \<in> set (claim_rows db_time ?db {} q)" by simp
  obtain db events where claim: "claim db_time ?db {} q = Inr (db, events)"
    "events = map (claimed_event q) (claim_rows db_time ?db {} q)"
    using assms(5) by (simp add: claim_exact [OF keyed])
  let ?e = "claimed_event q r"
  have e: "?e \<in> set events" using r claim(2) by simp
  have fields: "re_id ?e = k" "re_attempts ?e = ox_attempts r + 1" "re_payload ?e = ox_payload r"
    using \<open>ox_id r = k\<close> by (simp_all add: claimed_event_def)
  from claimed_event_row [OF ok claim(1) e] fields obtain r' where
    r': "fmlookup (od_rows db) k = Some r'" "holds_lease ?e r'" by metis
  let ?sent = "db\<lparr>od_rows := fmupd k (sent_row db_time at r') (od_rows db)\<rparr>"
  have "mark_sent db_time db ?e at = Inr ?sent"
    using r' fields(1) by (simp add: mark_sent_def update_lease_def)
  moreover have "map_option ox_status (fmlookup (od_rows ?sent) k) = Some OutboxSent" by (simp add: sent_row_def)
  moreover have "\<exists>failed. mark_failed db_time db ?e summary next_at m at =
      Inr (failed, if m \<le> ox_attempts r + 1 then OutboxDeadLetter else OutboxPending)"
    using r' fields(1,2) assms(7) by (simp add: mark_failed_def update_lease_def failed_status_def)
  ultimately show ?thesis using claim(1) e fields by blast
qed

section \<open>The events of releases\<close>

text \<open>
  A \<open>JSON\<close> column gives a document back with its members in another order. Reading a member does
  not depend on the order as long as the names are distinct.
\<close>

definition same_document :: "string \<Rightarrow> json \<Rightarrow> bool" where
  "same_document text doc \<longleftrightarrow>
     (\<exists>kvs ms. json_parse text = Some (JObj kvs) \<and> doc = JObj ms \<and> mset kvs = mset ms)"

lemma map_of_rev_permutation:
  assumes "mset xs = mset ys" "distinct (map fst ys)"
  shows "map_of (rev xs) = map_of (rev ys)"
proof -
  have "distinct (map fst xs)" using assms by (metis mset_eq_imp_distinct_iff mset_map)
  moreover have "set (rev xs) = set (rev ys)" using mset_eq_setD [OF assms(1)] by simp
  ultimately show ?thesis using assms(2) by (subst map_of_inject_set) (simp_all flip: rev_map)
qed

lemma mset_concat_map: "mset (concat (map f xs)) = (\<Sum>x \<in># mset xs. mset (f x))"
  by (induction xs) simp_all

lemma decode_permutation:
  assumes "same_document text (JObj kvs)" "lenient_members payload_fields (JObj kvs) = Some ms"
    and "distinct (map fst ms)" "list_all member_fits ms" "list_all (\<lambda>(_, v). v \<noteq> JNull) ms"
  shows "decode_payload text =
    (case (dec_uint (2 ^ 32) (map_of ms ''schemaVersion''), dec_string (map_of ms ''collection''),
           dec_string (map_of ms ''environment''), dec_uint (2 ^ 64) (map_of ms ''configRevision''),
           dec_string (map_of ms ''releaseOrderId''), dec_string (map_of ms ''traceId'')) of
       (Some schema, Some collection, Some environment, Some revision, Some order_id, Some trace) \<Rightarrow>
         Some \<lparr>ch_schema = schema, ch_collection = collection, ch_environment = environment,
               ch_revision = of_int revision, ch_order = order_id, ch_trace = trace\<rparr>
     | _ \<Rightarrow> None)"
proof -
  from assms(1) obtain xs where xs: "json_parse text = Some (JObj xs)" "mset xs = mset kvs"
    by (auto simp: same_document_def)
  let ?pick = "\<lambda>(k, x). case field_of payload_fields k of None \<Rightarrow> [] | Some f \<Rightarrow> [(f, x)]"
  let ?ns = "concat (map ?pick xs)"
  have ms: "ms = concat (map ?pick kvs)" using assms(2) by (simp add: lenient_members_def)
  have perm: "mset ?ns = mset ms" by (simp only: ms mset_concat_map xs(2))
  note set = mset_eq_setD [OF perm]
  have "filter (\<lambda>(_, v). v \<noteq> JNull) ?ns = ?ns"
    using assms(5) by (intro filter_True) (simp only: set list_all_iff)
  then have "scalar_member ?ns f = map_of ms f" for f
    using map_of_rev_permutation [OF perm assms(3)] map_of_rev_permutation [OF mset_rev assms(3)]
    by (simp only: scalar_member_def member_def rev_rev_ident)
  moreover have "list_all member_fits ?ns" using assms(4) by (simp only: set list_all_iff)
  moreover have "lenient_members payload_fields (JObj xs) = Some ?ns" by (simp add: lenient_members_def)
  ultimately show ?thesis by (simp add: decode_payload_def xs(1))
qed

lemma same_document_print: "wf_json (JObj ms) \<Longrightarrow> same_document (json_print (JObj ms)) (JObj ms)"
  using json_parse_print [of "JObj ms"] by (auto simp: same_document_def simp del: json_print.simps)

lemma dec_uint_json_int: "0 \<le> n \<Longrightarrow> n < bound \<Longrightarrow> dec_uint bound (Some (json_int n)) = Some n"
  by (simp add: dec_uint_def json_int_def format_int_def parse_nat_digits)

lemma known_fields:
  "field_of payload_fields ''collection'' = Some ''collection''"
  "field_of payload_fields ''configRevision'' = Some ''configRevision''"
  "field_of payload_fields ''environment'' = Some ''environment''"
  "field_of payload_fields ''releaseOrderId'' = Some ''releaseOrderId''"
  "field_of payload_fields ''schemaVersion'' = Some ''schemaVersion''"
  "field_of payload_fields ''scope'' = None"
  by code_simp+

text \<open>What a \<open>json_int\<close> or a text decodes to, and that neither is \<open>null\<close>.\<close>

lemma json_int_not_null [simp]: "json_int n \<noteq> JNull"
  by (simp add: json_int_def)

lemma decode_changed_payload:
  assumes "same_document text (changed_payload collection applied order_id place)"
    and "place = (''environment'', JStr environment) \<or> (place = (''scope'', json_scope sc) \<and> environment = [])"
  shows "decode_payload text = Some \<lparr>ch_schema = 1, ch_collection = collection, ch_environment = environment,
    ch_revision = applied, ch_order = order_id, ch_trace = []\<rparr>"
proof -
  let ?ms = "[(''collection'', JStr collection), (''configRevision'', json_int (uint applied))] @
    (if fst place = ''environment'' then [place] else []) @
    [(''releaseOrderId'', JStr order_id), (''schemaVersion'', json_int 1)]"
  have revision: "dec_uint (2 ^ 64) (Some (json_int (uint applied))) = Some (uint applied)"
    "dec_uint (2 ^ 32) (Some (json_int 1)) = Some 1"
    using uint_lt2p [of applied] by (intro dec_uint_json_int; simp)+
  have "lenient_members payload_fields (changed_payload collection applied order_id place) = Some ?ms"
    using assms(2) by (auto simp: changed_payload_def lenient_members_def known_fields)
  moreover have "distinct (map fst ?ms)" using assms(2) by auto
  moreover have "list_all member_fits ?ms"
    using assms(2) revision by (auto simp: member_fits_def dec_string_def)
  moreover have "list_all (\<lambda>(_, v). v \<noteq> JNull) ?ms" using assms(2) by auto
  ultimately have "decode_payload text =
    (case (dec_uint (2 ^ 32) (map_of ?ms ''schemaVersion''), dec_string (map_of ?ms ''collection''),
           dec_string (map_of ?ms ''environment''), dec_uint (2 ^ 64) (map_of ?ms ''configRevision''),
           dec_string (map_of ?ms ''releaseOrderId''), dec_string (map_of ?ms ''traceId'')) of
       (Some schema, Some collection, Some environment, Some revision, Some order_id, Some trace) \<Rightarrow>
         Some \<lparr>ch_schema = schema, ch_collection = collection, ch_environment = environment,
               ch_revision = of_int revision, ch_order = order_id, ch_trace = trace\<rparr>
     | _ \<Rightarrow> None)"
    using assms(1) unfolding changed_payload_def by (intro decode_permutation)
  then show ?thesis using assms(2) revision by (auto simp: dec_string_def)
qed

text \<open>The event that applying an effect leaves in the table.\<close>

lemma base_effect_event:
  assumes "apply_base_effect db_time order_id e db = Inr db'"
  shows "validate_step_effect (base_step_effect e) = Inr ()"
    "db_events db' \<noteq> []"
    "ev_payload (last (db_events db')) =
      changed_payload (be_collection e) (be_applied e) order_id (''environment'', JStr (sc_environment (be_scope e)))"
  using assms
  by (auto simp: apply_base_effect_def Let_def rbind_Inr_iff insert_event_def insert_audit_def as_failure_def rerror_Inr_iff)

lemma overlay_changes_event:
  assumes "apply_overlay_rule_changes db_time order_id e act db = Inr db'"
  shows "db_events db' \<noteq> []"
    "ev_payload (last (db_events db')) =
      changed_payload (oe_collection e) (oe_applied e) order_id (''scope'', json_scope (oe_scope e))"
  using assms
  by (auto simp: apply_overlay_rule_changes_def Let_def rbind_Inr_iff insert_event_def insert_audit_def)

text \<open>The row the table keeps of an event, as a claim hands it out.\<close>

definition delivers :: "relay_event \<Rightarrow> outbox_event \<Rightarrow> bool" where
  "delivers ev row \<longleftrightarrow>
     re_type ev = ''CONFIGURATION_CHANGED'' \<and> re_payload_version ev = 1 \<and> re_aggregate_id ev = ev_aggregate row \<and>
     same_document (re_payload ev) (ev_payload row)"

text \<open>
  The event of a base release comes out of the outbox as it was meant: decoding it yields a
  notification that asks for the collection at the revision the release gave it, in the
  environment of the release, and names the release order.
\<close>

lemma base_event_notification:
  assumes "apply_base_effect db_time order_id e db = Inr db'" "delivers ev (last (db_events db'))"
  shows "event_notification ev = Inr
    \<lparr>no_event = re_id ev, no_environment = sc_environment (be_scope e),
     no_targets = [\<lparr>nt_collection = be_collection e, nt_min = be_applied e, nt_cursor = 0\<rparr>],
     no_order = order_id, no_trace = []\<rparr>"
proof -
  have "decode_payload (re_payload ev) = Some \<lparr>ch_schema = 1, ch_collection = be_collection e,
      ch_environment = sc_environment (be_scope e), ch_revision = be_applied e, ch_order = order_id, ch_trace = []\<rparr>"
    using assms(2) base_effect_event(3) [OF assms(1)] decode_changed_payload by (auto simp: delivers_def)
  moreover have "be_collection e \<noteq> []" "sc_environment (be_scope e) \<noteq> []" "be_applied e \<noteq> 0"
    using base_effect_event(1) [OF assms(1)]
    by (auto simp: validate_step_effect_def base_step_effect_def validate_base_effect_def
      validate_effect_identity_def rbind_Inr_iff require_def blank_def split: if_splits)
  ultimately show ?thesis using assms(2) by (simp add: event_notification_def delivers_def)
qed

text \<open>
  C34: The event of an overlay or percentage release is never delivered: its payload names the
  scope, the sender asks for the environment, so sending fails whatever the config server would
  answer, and the attempt that reaches the limit puts the event among the dead letters.
\<close>

theorem overlay_release_event_undeliverable:
  assumes "apply_overlay_effect db_time order_id e db = Inr db' \<or> apply_percent_effect db_time order_id p db = Inr db'"
    and "delivers ev (last (db_events db'))"
    and "fmlookup (od_rows (tk_others tick (ry_db run))) (re_id ev) = Some r" "holds_lease ev r"
    and "0 < ro_max_attempts opts" "ro_max_attempts opts \<le> re_attempts ev"
  shows "send_event client ev = Inl IncompleteEvent \<and>
    map_option ox_status (fmlookup (od_rows (ry_db (deliver_event store opts run (ev, tick)))) (re_id ev)) =
      Some OutboxDeadLetter"
proof -
  obtain collection applied sc where
    "ev_payload (last (db_events db')) = changed_payload collection applied order_id (''scope'', json_scope sc)"
    using assms(1) overlay_changes_event
    by (auto simp: apply_overlay_effect_def apply_percent_effect_def rbind_Inr_iff)
  then have "decode_payload (re_payload ev) = Some \<lparr>ch_schema = 1, ch_collection = collection,
      ch_environment = [], ch_revision = applied, ch_order = order_id, ch_trace = []\<rparr>"
    using assms(2) decode_changed_payload by (auto simp: delivers_def)
  then have send: "send_event c ev = Inl IncompleteEvent" for c
    using assms(2) by (simp add: send_event_def event_notification_def delivers_def)
  have "mark_failed store (tk_others tick (ry_db run)) ev ''delivery failed'' (tk_now tick + ro_delay opts)
      (ro_max_attempts opts) (tk_now tick) =
      Inr ((tk_others tick (ry_db run))\<lparr>od_rows := fmupd (re_id ev)
        (failed_row store OutboxDeadLetter ''delivery failed'' (tk_now tick + ro_delay opts) (tk_now tick) r)
        (od_rows (tk_others tick (ry_db run)))\<rparr>, OutboxDeadLetter)"
    using assms(3-6) by (simp add: mark_failed_def update_lease_def failed_status_def)
  then show ?thesis using send by (simp add: deliver_event_def Let_def failed_row_def)
qed

section \<open>Sample events\<close>

text \<open>One event in the table, claimed at time 10 under a lease of 30.\<close>

definition sample_row :: outbox_row where
  "sample_row =
     \<lparr>ox_id = ''e1'', ox_sequence = 1, ox_aggregate_type = ''RELEASE_ORDER'', ox_aggregate_id = ''o1'',
      ox_type = ''CONFIGURATION_CHANGED'', ox_payload_version = 1, ox_payload = [], ox_key = ''k1'',
      ox_status = OutboxPending, ox_lease = 1, ox_attempts = 0, ox_next = 5, ox_locked_by = None,
      ox_locked_until = None, ox_error = None, ox_published = None, ox_updated = 5\<rparr>"

definition sample_claim :: "string \<Rightarrow> gotime \<Rightarrow> claim_request" where
  "sample_claim worker now = \<lparr>cl_worker = worker, cl_limit = 5, cl_now = now, cl_lease = 30\<rparr>"

definition sample_event :: relay_event where
  "sample_event = claimed_event (sample_claim ''w1'' 10) sample_row"

definition claimed_outbox :: outbox_db where
  "claimed_outbox =
     outbox_history id empty_outbox [InsertEvent sample_row, ClaimEvents {} (sample_claim ''w1'' 10)]"

lemma sample_claimed:
  "claim id (outbox_history id empty_outbox [InsertEvent sample_row]) {} (sample_claim ''w1'' 10) =
     Inr (claimed_outbox, [sample_event])"
proof -
  have "is_ok (claim id (outbox_history id empty_outbox [InsertEvent sample_row]) {} (sample_claim ''w1'' 10))"
    by code_simp
  then obtain db events where *: "claim id (outbox_history id empty_outbox [InsertEvent sample_row]) {} (sample_claim ''w1'' 10) = Inr (db, events)"
    by (auto simp: is_ok_iff)
  moreover have "db = claimed_outbox"
    using * by (simp add: claimed_outbox_def outbox_history_def outbox_act_def outcome_def)
  moreover have "snd (projr (claim id (outbox_history id empty_outbox [InsertEvent sample_row]) {} (sample_claim ''w1'' 10))) = [sample_event]"
    by code_simp
  ultimately show ?thesis by simp
qed

text \<open>The second worker claims the event after the lease; the first one comes too late.\<close>

theorem completion_needs_untouched_lease_witness:
  "is_ok (mark_sent id claimed_outbox sample_event 12) \<and>
   \<not> is_ok (mark_sent id (outbox_history id claimed_outbox [ClaimEvents {} (sample_claim ''w2'' 50)]) sample_event 51)"
proof -
  note complete = completion_needs_untouched_lease [OF sample_claimed]
  have "is_ok (mark_sent id (outbox_history id claimed_outbox []) sample_event 12)"
    using complete [of sample_event "[]" 1 12] by (simp add: outbox_history_def)
  moreover have "fmlookup (od_rows (outbox_history id claimed_outbox [ClaimEvents {} (sample_claim ''w2'' 50)])) (re_id sample_event)
      \<noteq> fmlookup (od_rows claimed_outbox) (re_id sample_event)"
  proof -
    have "map_option ox_lease (fmlookup (od_rows (outbox_history id claimed_outbox [ClaimEvents {} (sample_claim ''w2'' 50)])) (re_id sample_event)) = Some 3"
      "map_option ox_lease (fmlookup (od_rows claimed_outbox) (re_id sample_event)) = Some 2" by code_simp+
    moreover have "Some (3 :: u64) \<noteq> Some 2" by simp
    ultimately show ?thesis by metis
  qed
  ultimately show ?thesis
    using complete [of sample_event "[ClaimEvents {} (sample_claim ''w2'' 50)]" 1 51] by (simp add: outbox_history_def)
qed

theorem unsent_events_get_claimed_witness:
  "\<exists>db events e. claim id (outbox_history id empty_outbox [InsertEvent sample_row]) {} (sample_claim ''w1'' 10) =
      Inr (db, events) \<and> e \<in> set events \<and> re_id e = ''e1''"
proof -
  let ?db = "outbox_history id empty_outbox [InsertEvent sample_row]"
  have "fmlookup (od_rows ?db) ''e1'' = Some sample_row" by code_simp
  moreover have "ox_status sample_row \<noteq> OutboxSent" "ox_status sample_row \<noteq> OutboxDeadLetter"
    "due_time sample_row \<le> id (cl_now (sample_claim ''w1'' 10))" "claim_valid (sample_claim ''w1'' 10)" by code_simp+
  moreover have "int (length (outbox_rows ?db)) \<le> cl_limit (sample_claim ''w1'' 10)" by code_simp
  ultimately obtain db events e where
    "claim id ?db {} (sample_claim ''w1'' 10) = Inr (db, events)" "e \<in> set events" "re_id e = ''e1''"
    using unsent_events_get_claimed [where db_time = id and past = "[InsertEvent sample_row]" and k = "''e1''"
        and r = sample_row and q = "sample_claim ''w1'' 10" and m = 3, OF _ _ _ _ _ _ zero_less_numeral] by blast
  then show ?thesis by blast
qed

text \<open>
  Effects that only end a rule; neither table has rows afterwards, so the digests are those of
  nothing.
\<close>

definition ended_rule :: overlay_rule where
  "ended_rule =
     \<lparr>ru_id = ''r1'', ru_collection = ''limits'', ru_scope = \<lparr>sc_region = ''eu'', sc_environment = ''prod'', sc_stage = ''canary''\<rparr>,
      ru_key = ''k'', ru_action = ActionDelete, ru_content = None, ru_ranges = [], ru_revision = 3, ru_order = ''o0'',
      ru_from = None, ru_until = None, ru_activated = Some 3, ru_activated_at = Some 4, ru_expired = None,
      ru_expired_at = None, ru_created_at = 4, ru_created_by = ''ann'', ru_updated_at = 4, ru_updated_by = ''ann''\<rparr>"

definition ending_change :: rule_change where
  "ending_change = \<lparr>rc_key = ''k'', rc_previous = Some ended_rule, rc_new = None\<rparr>"

definition ending_base :: base_effect where
  "ending_base =
     \<lparr>be_version = 1, be_collection = ''limits'', be_scope = ru_scope ended_rule, be_previous = 3, be_applied = 4,
      be_changes = [], be_overlay = [ending_change], be_at = 9, be_by = ''ann''\<rparr>"

definition ending_overlay :: overlay_effect where
  "ending_overlay =
     \<lparr>oe_version = 1, oe_collection = ''limits'', oe_scope = ru_scope ended_rule, oe_previous = 3, oe_applied = 4,
      oe_changes = [ending_change], oe_at = 9, oe_by = ''ann''\<rparr>"

definition ending_db :: database where
  "ending_db =
     \<lparr>db_counter = Some 4, db_records = fmempty, db_rules = fmempty,
      db_versions = fmupd (''limits'', ''prod'')
        \<lparr>vr_revision = 3, vr_base_digest = [], vr_overlay_digest = [], vr_order = [], vr_at = 4\<rparr> fmempty,
      db_log = [], db_events = [], db_audit = []\<rparr>"

lemma digests_of_nothing:
  "compute_base_digest [] = Inr (sha256_digest (json_print (digest_payload [])))"
  "\<exists>dg. compute_overlay_digest [] = Inr dg"
proof -
  show "compute_base_digest [] = Inr (sha256_digest (json_print (digest_payload [])))"
    by (simp add: compute_base_digest_def base_digest_payload_def insertion_sort_def)
  have "is_ok (overlay_digest_payload [])" by code_simp
  then show "\<exists>dg. compute_overlay_digest [] = Inr dg" by (auto simp: compute_overlay_digest_def is_ok_iff)
qed

lemma ending_effects_valid:
  "validate_step_effect (base_step_effect ending_base) = Inr ()"
  "validate_step_effect (overlay_step_effect ending_overlay) = Inr ()"
  by code_simp+

definition ended_db :: database where
  "ended_db = ending_db\<lparr>db_log := [rule_log ''o1'' ''limits'' (ru_scope ended_rule) 4 9 ending_change]\<rparr>"

lemma ended_db_facts:
  "rfold (apply_rule_change id ''o1'' ''limits'' (ru_scope ended_rule) 4 9) ending_db [ending_change] = Inr ended_db"
  "digest_records ended_db ''limits'' ''prod'' = []" "environment_rules ended_db ''limits'' ''prod'' = []"
  "sc_environment (ru_scope ended_rule) = ''prod''"
proof -
  show "rfold (apply_rule_change id ''o1'' ''limits'' (ru_scope ended_rule) 4 9) ending_db [ending_change] = Inr ended_db"
    by (simp add: apply_rule_change_def write_rule_def ending_change_def ended_db_def ending_db_def)
qed code_simp+

lemma ended_db_finishes:
  "\<exists>db3 db4. update_version ''limits'' ''prod'' 3 4 base_digest overlay_digest ''o1'' 9 ended_db = Inr db3 \<and>
     insert_event ''o1'' 4 payload 9 db3 = Inr db4"
  by (simp add: update_version_def ended_db_def ending_db_def insert_event_def fail_def)

lemma ending_base_applies: "\<exists>db'. apply_base_effect id ''o1'' ending_base ending_db = Inr db'"
proof -
  obtain dg where dg: "compute_overlay_digest [] = Inr dg" using digests_of_nothing(2) by blast
  let ?bd = "sha256_digest (json_print (digest_payload []))"
  have fields: "be_collection ending_base = ''limits''" "be_scope ending_base = ru_scope ended_rule"
    "be_applied ending_base = 4" "be_previous ending_base = 3" "be_at ending_base = 9"
    "be_changes ending_base = []" "be_overlay ending_base = [ending_change]" by (simp_all add: ending_base_def)
  from ended_db_finishes [of "Some (dg_value ?bd)" "dg_value dg"
      "changed_payload ''limits'' 4 ''o1'' (''environment'', JStr ''prod'')"]
  obtain db3 db4 where "update_version ''limits'' ''prod'' 3 4 (Some (dg_value ?bd)) (dg_value dg) ''o1'' 9 ended_db = Inr db3"
    "insert_event ''o1'' 4 (changed_payload ''limits'' 4 ''o1'' (''environment'', JStr ''prod'')) 9 db3 = Inr db4"
    by blast
  then have "apply_base_effect id ''o1'' ending_base ending_db =
      Inr (insert_audit 9 (be_by ending_base) ''BASE_APPLY'' ''o1'' (ru_scope ended_rule) db4)"
    by (simp only: apply_base_effect_def Let_def fields ending_effects_valid rfold.simps(1) ended_db_facts
      as_failure_def rerror_simps rbind_simps digests_of_nothing(1) dg)
  then show ?thesis by blast
qed

lemma ending_overlay_applies: "\<exists>db'. apply_overlay_effect id ''o1'' ending_overlay ending_db = Inr db'"
proof -
  obtain dg where dg: "compute_overlay_digest [] = Inr dg" using digests_of_nothing(2) by blast
  have fields: "oe_collection ending_overlay = ''limits''" "oe_scope ending_overlay = ru_scope ended_rule"
    "oe_applied ending_overlay = 4" "oe_previous ending_overlay = 3" "oe_at ending_overlay = 9"
    "oe_changes ending_overlay = [ending_change]" by (simp_all add: ending_overlay_def)
  from ended_db_finishes [of None "dg_value dg"
      "changed_payload ''limits'' 4 ''o1'' (''scope'', json_scope (ru_scope ended_rule))"]
  obtain db3 db4 where "update_version ''limits'' ''prod'' 3 4 None (dg_value dg) ''o1'' 9 ended_db = Inr db3"
    "insert_event ''o1'' 4 (changed_payload ''limits'' 4 ''o1'' (''scope'', json_scope (ru_scope ended_rule))) 9 db3 = Inr db4"
    by blast
  then have "apply_overlay_effect id ''o1'' ending_overlay ending_db =
      Inr (insert_audit 9 (oe_by ending_overlay) ''OVERLAY_APPLY'' ''o1'' (ru_scope ended_rule) db4)"
    by (simp only: apply_overlay_effect_def apply_overlay_rule_changes_def Let_def fields ending_effects_valid
      ended_db_facts as_failure_def rerror_simps rbind_simps dg)
  then show ?thesis by blast
qed

text \<open>The event of a row of the release store as the relay gets it.\<close>

definition event_of_row :: "outbox_event \<Rightarrow> relay_event" where
  "event_of_row row =
     sample_event\<lparr>re_aggregate_id := ev_aggregate row, re_payload := json_print (ev_payload row)\<rparr>"

lemma event_of_row_delivers:
  assumes "ev_payload row = changed_payload ''limits'' 4 ''o1'' place" "wf_json (snd place)" "valid_utf8 (fst place)"
  shows "delivers (event_of_row row) row"
proof -
  have "wf_json (changed_payload ''limits'' 4 ''o1'' place)"
    using assms(2,3) by (cases place) (simp add: changed_payload_def wf_json_int, code_simp)
  then show ?thesis
    using same_document_print unfolding delivers_def changed_payload_def
    by (simp add: event_of_row_def sample_event_def claimed_event_def sample_row_def assms(1) changed_payload_def
      del: json_print.simps)
qed

text \<open>The third attempt of an event that comes with an overlay release.\<close>

theorem overlay_release_event_undeliverable_witness:
  "\<exists>ev row. ev_payload row = changed_payload ''limits'' 4 ''o1'' (''scope'', json_scope (ru_scope ended_rule)) \<and>
     ev = event_of_row row \<and> send_event (\<lambda>_. Some True) ev = Inl IncompleteEvent"
proof -
  obtain db' where db': "apply_overlay_effect id ''o1'' ending_overlay ending_db = Inr db'"
    using ending_overlay_applies by blast
  let ?row = "last (db_events db')"
  have payload: "ev_payload ?row = changed_payload ''limits'' 4 ''o1'' (''scope'', json_scope (ru_scope ended_rule))"
    using db' overlay_changes_event(2) [of id "''o1''" ending_overlay "''OVERLAY_APPLY''" ending_db db']
    by (auto simp: apply_overlay_effect_def rbind_Inr_iff) (simp add: ending_overlay_def)
  moreover have "wf_json (json_scope (ru_scope ended_rule))" "valid_utf8 ''scope''" by code_simp+
  ultimately have ev: "delivers (event_of_row ?row) ?row" using event_of_row_delivers by (metis fst_conv snd_conv)
  let ?run = "\<lparr>ry_db = claimed_outbox, ry_result = \<lparr>rn_claimed = 1, rn_sent = 0, rn_retried = 0, rn_dead = 0\<rparr>, ry_errors = []\<rparr>"
  let ?tick = "\<lparr>tk_others = id, tk_client = \<lambda>_. Some True, tk_now = 12\<rparr>"
  let ?opts = "\<lparr>ro_worker = ''w1'', ro_batch = 5, ro_lease = 30, ro_max_attempts = 1, ro_delay = 7\<rparr>"
  obtain r where r: "fmlookup (od_rows claimed_outbox) (re_id sample_event) = Some r" "holds_lease sample_event r"
    using claimed_event_row [OF empty_history_ok sample_claimed, of sample_event] by auto
  have "re_id (event_of_row ?row) = re_id sample_event" "holds_lease (event_of_row ?row) r"
    "re_attempts (event_of_row ?row) = 1"
    using r(2) by (simp_all add: event_of_row_def holds_lease_def sample_event_def claimed_event_def sample_row_def)
  then have "send_event (\<lambda>_. Some True) (event_of_row ?row) = Inl IncompleteEvent"
    using overlay_release_event_undeliverable [OF disjI1 [OF db'] ev, of ?tick ?run r ?opts] r(1) by simp
  with payload show ?thesis by blast
qed

end
