(* ===== verification/Delivery_Properties.thy ===== *)
theory Delivery_Properties
  imports Outbox_Properties Config_Rpc
begin

text \<open>
  The way of a release from the outbox to the config server: the relay's sender and notifier
  against the server's refresh handler, its hint receiver and its refresh coordinator.
\<close>

text \<open>What the relay's RPC client sees of a server in a state: an accepted hint or an error.\<close>

definition refresh_client ::
  "string \<Rightarrow> request_authorizer \<Rightarrow> caller_identity option \<Rightarrow> snapshot option \<Rightarrow> gotime
     \<Rightarrow> hint_receiver \<times> coordinator \<Rightarrow> notify_message \<Rightarrow> bool option" where
  "refresh_client managed az identity current now st message =
     (if is_ok (snd (rpc_notify managed az identity (submit current) now (Some message) st))
      then Some True else None)"

text \<open>The server after it got the notification of an event.\<close>

definition server_after ::
  "string \<Rightarrow> request_authorizer \<Rightarrow> caller_identity option \<Rightarrow> snapshot option \<Rightarrow> gotime
     \<Rightarrow> hint_receiver \<times> coordinator \<Rightarrow> relay_event \<Rightarrow> hint_receiver \<times> coordinator" where
  "server_after managed az identity current now st e =
     (case event_notification e of
        Inl _ \<Rightarrow> st
      | Inr n \<Rightarrow>
          (case rmap wire_target_of (no_targets n) of
             Inl _ \<Rightarrow> st
           | Inr targets \<Rightarrow>
               fst (rpc_notify managed az identity (submit current) now (Some (notify_request n targets)) st)))"

lemma notify_new_iff:
  assumes "fmlookup (hr_seen r) (trim_space (hi_event hint)) = None"
    and "trim_space (hi_event hint) \<noteq> []" "trim_space (hi_environment hint) = hr_environment r"
    and "hr_environment r \<noteq> []" "hi_targets hint \<noteq> []" "list_all valid_hint_target (hi_targets hint)"
  shows "is_ok (snd (notify submitter now hint (r, s))) \<longleftrightarrow>
    snd (submitter (map trimmed_target (hi_targets hint)) s) = Inr ()"
  using assms
  by (auto simp: notify_def Let_def prune_seen_lookup split: prod.splits sum.splits submit_error.splits)

text \<open>A target of a notification keeps its numbers on the wire.\<close>

lemma hint_target_wire:
  assumes "nt_collection t \<noteq> []" "nt_min t \<noteq> 0" "wire_target_of t = Inr w"
  shows "hint_target w = Inr \<lparr>rt_collection = nt_collection t, rt_min = nt_min t, rt_cursor = nt_cursor t\<rparr>"
proof -
  have "0 < uint (nt_min t)" using assms(2) by (metis uint_0_iff uint_nonnegative less_le)
  with assms show ?thesis
    by (auto simp: wire_target_of_def hint_target_def int64_of_def split: if_splits option.splits)
qed

lemma wire_target_fits:
  assumes "nt_collection t \<noteq> []" "nt_min t \<noteq> 0" "nt_cursor t = 0"
  shows "(\<exists>w. wire_target_of t = Inr w) \<longleftrightarrow> uint (nt_min t) < 2 ^ 63"
proof -
  have "nt_min t > 2 ^ 63 - 1 \<longleftrightarrow> \<not> uint (nt_min t) < 2 ^ 63"
    by (simp add: word_less_def word_le_def) linarith
  with assms show ?thesis by (simp add: wire_target_of_def int64_of_def)
qed

text \<open>The hint of one target at the refresh handler.\<close>

lemma rpc_notify_single:
  assumes "n = \<lparr>no_event = event, no_environment = environment, no_targets = [t], no_order = x, no_trace = y\<rparr>"
    and "nt_collection t \<noteq> []" "nt_min t \<noteq> 0" "wire_target_of t = Inr w" "event \<noteq> []" "environment \<noteq> []"
  shows "rpc_notify managed az identity submitter now (Some (notify_request n [w])) st =
    (case compile_environment environment of
       None \<Rightarrow> (st, Inl RpcInvalidArgument)
     | Some env \<Rightarrow>
         if env \<noteq> managed then (st, Inl RpcInvalidArgument)
         else if \<not> authorize_refresh az identity env then (st, Inl RpcPermissionDenied)
         else case notify submitter now
                \<lparr>hi_event = event, hi_environment = env,
                 hi_targets = [\<lparr>rt_collection = nt_collection t, rt_min = nt_min t, rt_cursor = nt_cursor t\<rparr>]\<rparr> st of
                (st', Inl e) \<Rightarrow> (st', Inl (hint_code e))
              | (st', Inr _) \<Rightarrow> (st', Inr ()))"
  using assms hint_target_wire [OF assms(2-4)]
  by (simp add: rpc_notify_def notify_request_def split: option.splits)


text \<open>What an applied base effect says of its collection and revision.\<close>

lemma base_effect_identity:
  assumes "apply_base_effect db_time order_id e db = Inr db'"
  shows "trim_space (be_collection e) \<noteq> []" "sc_environment (be_scope e) \<noteq> []" "be_applied e \<noteq> 0"
  using base_effect_event(1) [OF assms]
  by (auto simp: validate_step_effect_def base_step_effect_def validate_base_effect_def
      validate_effect_identity_def rbind_Inr_iff require_def blank_def split: if_splits)

definition release_target :: "base_effect \<Rightarrow> refresh_target" where
  "release_target e = \<lparr>rt_collection = trim_space (be_collection e), rt_min = be_applied e, rt_cursor = 0\<rparr>"

text \<open>Sending the notification of one target, as a call of the refresh handler.\<close>

lemma send_single:
  assumes "event_notification ev = Inr n" "re_id ev \<noteq> []" "environment \<noteq> []"
    and "n = \<lparr>no_event = re_id ev, no_environment = environment, no_targets = [t], no_order = x, no_trace = y\<rparr>"
  shows "(\<nexists>w. wire_target_of t = Inr w) \<Longrightarrow> \<not> is_ok (send_event client ev)"
    "wire_target_of t = Inr w \<Longrightarrow>
      is_ok (send_event (refresh_client managed az identity current now st) ev) =
      is_ok (snd (rpc_notify managed az identity (submit current) now (Some (notify_request n [w])) st))"
    "wire_target_of t = Inr w \<Longrightarrow>
      server_after managed az identity current now st ev =
      fst (rpc_notify managed az identity (submit current) now (Some (notify_request n [w])) st)"
  using assms
  by (auto simp: send_event_def notify_server_def refresh_client_def server_after_def is_ok_iff rbind_Inr_iff)

lemma sent_release:
  assumes "event_notification ev = Inr n" "trim_space (re_id ev) \<noteq> []"
    and "n = \<lparr>no_event = re_id ev, no_environment = environment,
      no_targets = [\<lparr>nt_collection = collection, nt_min = applied, nt_cursor = 0\<rparr>], no_order = x, no_trace = y\<rparr>"
    and "trim_space collection \<noteq> []" "environment \<noteq> []" "applied \<noteq> 0"
    and "t = \<lparr>rt_collection = trim_space collection, rt_min = applied, rt_cursor = 0\<rparr>"
    and "fmlookup (hr_seen r) (trim_space (re_id ev)) = None" "hr_environment r = managed"
    and "sent = is_ok (send_event (refresh_client managed az identity current now (r, co)) ev)"
  shows "sent \<longleftrightarrow>
      compile_environment environment = Some managed \<and> authorize_refresh az identity managed \<and>
      uint applied < 2 ^ 63 \<and> is_ok (snd (submit current [t] co))"
    and "sent \<Longrightarrow>
      covers (co_pending (snd (server_after managed az identity current now (r, co) ev))) t \<or>
      target_reached current (co_environment co) t"
proof -
  let ?t = "\<lparr>nt_collection = collection, nt_min = applied, nt_cursor = 0\<rparr>"
  let ?raw = "\<lparr>rt_collection = collection, rt_min = applied, rt_cursor = 0\<rparr>"
  let ?hint = "\<lparr>hi_event = re_id ev, hi_environment = managed, hi_targets = [?raw]\<rparr>"
  let ?allowed = "compile_environment environment = Some managed \<and> authorize_refresh az identity managed"
  have nonempty: "collection \<noteq> []" "re_id ev \<noteq> []" using assms(2,4) by auto
  have trimmed: "trimmed_target ?raw = t" by (simp add: assms(7) trimmed_target_def)
  have fits: "(\<exists>w. wire_target_of ?t = Inr w) \<longleftrightarrow> uint applied < 2 ^ 63"
    using wire_target_fits [of ?t] nonempty assms(6) by simp
  note single = send_single [OF assms(1) nonempty(2) assms(5,3)]
  have "(sent \<longleftrightarrow> ?allowed \<and> uint applied < 2 ^ 63 \<and> is_ok (snd (submit current [t] co))) \<and>
    (sent \<longrightarrow> covers (co_pending (snd (server_after managed az identity current now (r, co) ev))) t \<or>
      target_reached current (co_environment co) t)"
  proof (cases "\<exists>w. wire_target_of ?t = Inr w")
    case False
    then show ?thesis using single(1) fits by (simp add: assms(10))
  next
    case True
    then obtain w where w: "wire_target_of ?t = Inr w" by blast
    note rpc = rpc_notify_single [OF assms(3) _ _ w nonempty(2) assms(5), simplified, OF nonempty(1) assms(6)]
    show ?thesis
    proof (cases ?allowed)
      case False
      then have "\<not> sent" unfolding assms(10) single(2) [OF w] rpc by (auto split: option.splits)
      then show ?thesis using False by auto
    next
      case allowed: True
      then have managed: "trim_space managed = managed" "managed \<noteq> []" by (auto simp: compile_environment_Some)
      have accepts: "is_ok (snd (notify (submit current) now ?hint (r, co))) \<longleftrightarrow> snd (submit current [t] co) = Inr ()"
        using notify_new_iff [of r ?hint "submit current" now co] assms(2,4,6,8,9) managed trimmed
        by (simp add: valid_hint_target_def)
      obtain st' res where run: "notify (submit current) now ?hint (r, co) = (st', res)" by fastforce
      have sent: "sent \<longleftrightarrow> is_ok res" unfolding assms(10) single(2) [OF w] rpc
        using allowed run by (auto split: sum.splits simp: is_ok_iff)
      have "covers (co_pending (snd st')) t \<or> target_reached current (co_environment co) t" if "is_ok res"
      proof -
        have "submit current [t] co = (snd st', Inr ())"
          using notify_new [of "submit current" now ?hint r co "fst st'" "snd st'"] run that assms(8) trimmed
          by (auto simp: is_ok_iff)
        from submit_accepted [OF this, of t] show ?thesis using trimmed by (auto simp: assms(7) trimmed_target_def)
      qed
      moreover have "snd (server_after managed az identity current now (r, co) ev) = snd st'" if "is_ok res"
        unfolding single(3) [OF w] rpc using allowed run that by (auto simp: is_ok_iff)
      ultimately show ?thesis using sent accepts run allowed fits True by (auto simp: is_ok_iff)
    qed
  qed
  then show "sent \<longleftrightarrow>
      compile_environment environment = Some managed \<and> authorize_refresh az identity managed \<and>
      uint applied < 2 ^ 63 \<and> is_ok (snd (submit current [t] co))"
    and "sent \<Longrightarrow>
      covers (co_pending (snd (server_after managed az identity current now (r, co) ev))) t \<or>
      target_reached current (co_environment co) t"
    by blast+
qed


text \<open>
  C10: The event of a base release brings the config server to the released revision. Sending it
  succeeds exactly if the server manages the environment of the release, the relay is authorized
  for it, the revision fits into the message and the coordinator has room; and after a success the
  coordinator waits for the collection at the released revision or above, unless the snapshot is
  there already. (For an event the receiver does not remember; one that it remembers it has
  handed to the coordinator before.)
\<close>

theorem base_release_reaches_coordinator:
  assumes "apply_base_effect db_time order_id e db = Inr db'" "delivers ev (last (db_events db'))"
    and "trim_space (re_id ev) \<noteq> []" "fmlookup (hr_seen r) (trim_space (re_id ev)) = None" "hr_environment r = managed"
  shows "(is_ok (send_event (refresh_client managed az identity current now (r, co)) ev) \<longleftrightarrow>
      compile_environment (sc_environment (be_scope e)) = Some managed \<and> authorize_refresh az identity managed \<and>
      uint (be_applied e) < 2 ^ 63 \<and> is_ok (snd (submit current [release_target e] co))) \<and>
    (is_ok (send_event (refresh_client managed az identity current now (r, co)) ev) \<longrightarrow>
      covers (co_pending (snd (server_after managed az identity current now (r, co) ev))) (release_target e) \<or>
      target_reached current (co_environment co) (release_target e))"
  using sent_release [OF base_event_notification [OF assms(1,2)] assms(3) refl base_effect_identity [OF assms(1)]
      release_target_def assms(4,5) refl]
  by blast

definition relay_authorizer :: request_authorizer where
  "relay_authorizer = \<lparr>az_page_roles = [''CONFIG_VIEWER''], az_relays = [''relay'']\<rparr>"

definition relay_identity :: caller_identity where
  "relay_identity =
     \<lparr>ca_subject = ''relay'', ca_display_name = [], ca_roles = [],
      ca_scopes = [\<lparr>sc_region = ''*'', sc_environment = ''prod'', sc_stage = ''*''\<rparr>]\<rparr>"

definition fresh_server :: "hint_receiver \<times> coordinator" where
  "fresh_server = (the (new_hint_receiver ''prod'' 8 60), the (new_coordinator ''prod'' 8 1 4))"

lemma ending_event:
  assumes "apply_base_effect id ''o1'' ending_base ending_db = Inr db'"
  shows "delivers (event_of_row (last (db_events db'))) (last (db_events db'))"
proof -
  have "ev_payload (last (db_events db')) = changed_payload ''limits'' 4 ''o1'' (''environment'', JStr ''prod'')"
    using base_effect_event(3) [OF assms] by (simp add: ending_base_def ended_db_facts(4))
  moreover have "wf_json (JStr ''prod'')" "valid_utf8 ''environment''" by code_simp+
  ultimately show ?thesis using event_of_row_delivers by (metis fst_conv snd_conv)
qed

theorem base_release_reaches_coordinator_witness:
  "\<exists>db' ev. apply_base_effect id ''o1'' ending_base ending_db = Inr db' \<and>
     ev = event_of_row (last (db_events db')) \<and>
     is_ok (send_event (refresh_client ''prod'' relay_authorizer (Some relay_identity) None 10 fresh_server) ev) \<and>
     covers (co_pending (snd (server_after ''prod'' relay_authorizer (Some relay_identity) None 10 fresh_server ev)))
       \<lparr>rt_collection = ''limits'', rt_min = 4, rt_cursor = 0\<rparr>"
proof -
  obtain db' where db': "apply_base_effect id ''o1'' ending_base ending_db = Inr db'" using ending_base_applies by blast
  let ?ev = "event_of_row (last (db_events db'))"
  let ?sent = "is_ok (send_event (refresh_client ''prod'' relay_authorizer (Some relay_identity) None 10 fresh_server) ?ev)"
  have target: "release_target ending_base = \<lparr>rt_collection = ''limits'', rt_min = 4, rt_cursor = 0\<rparr>" by code_simp
  have "trim_space (re_id sample_event) \<noteq> []" by code_simp
  then have "trim_space (re_id ?ev) \<noteq> []" by (simp add: event_of_row_def)
  moreover have "hr_seen (fst fresh_server) = fmempty" "hr_environment (fst fresh_server) = ''prod''" by code_simp+
  ultimately have claim: "(?sent \<longleftrightarrow>
      compile_environment (sc_environment (be_scope ending_base)) = Some ''prod'' \<and>
      authorize_refresh relay_authorizer (Some relay_identity) ''prod'' \<and>
      uint (be_applied ending_base) < 2 ^ 63 \<and> is_ok (snd (submit None [release_target ending_base] (snd fresh_server)))) \<and>
    (?sent \<longrightarrow>
      covers (co_pending (snd (server_after ''prod'' relay_authorizer (Some relay_identity) None 10 fresh_server ?ev)))
        (release_target ending_base) \<or>
      target_reached None (co_environment (snd fresh_server)) (release_target ending_base))"
    using base_release_reaches_coordinator [OF db' ending_event [OF db'], of "fst fresh_server" "''prod''"
        relay_authorizer "Some relay_identity" None 10 "snd fresh_server"] by simp
  moreover have "compile_environment (sc_environment (be_scope ending_base)) = Some ''prod''"
    "authorize_refresh relay_authorizer (Some relay_identity) ''prod''"
    "uint (be_applied ending_base) < 2 ^ 63" "is_ok (snd (submit None [release_target ending_base] (snd fresh_server)))"
    by code_simp+
  ultimately have "?sent" "covers (co_pending (snd (server_after ''prod'' relay_authorizer (Some relay_identity) None 10 fresh_server ?ev)))
      (release_target ending_base)" by (simp_all add: target_reached_def)
  with db' target show ?thesis by (intro exI conjI) simp_all
qed

end
