(* ===== verification/Release_Catalog.thy ===== *)
theory Release_Catalog
  imports Release_Store Catalog_Model Overlay_Evaluate
begin

text \<open>
  What a release command reads of the catalog: \<open>LoadCatalog\<close> and \<open>LoadOptionAuthorities\<close> of
  \<open>internal/release/mysqlstore/store.go\<close>, \<open>resolveModelOptions\<close> and \<open>validateOptionSelections\<close> of
  \<open>internal/release/application/service.go\<close>.

  A row of \<open>configuration_collections\<close> or \<open>configuration_models\<close> is the specification its JSON
  columns decode to, with the columns that override it; the table of active release templates
  has the document of a template as text.
\<close>

record collection_row =
  cw_spec :: collection_spec
  cw_enabled :: bool

record model_row =
  mw_spec :: model_spec
  mw_enabled :: bool

record template_row =
  tw_code :: string
  tw_version :: u64
  tw_effect :: final_effect
  tw_document :: string

text \<open>The active templates are keyed by model and release type.\<close>

record catalog_tables =
  kt_collections :: "(string, collection_row) fmap"
  kt_models :: "(string, model_row) fmap"
  kt_templates :: "(string \<times> string, template_row) fmap"

record catalog_bundle =
  bu_definition :: collection_definition
  bu_model :: compiled_model
  bu_template_code :: string
  bu_template_version :: u64
  bu_release_type :: string
  bu_template :: compiled_template

definition load_catalog ::
  "scalar_lib \<Rightarrow> catalog_tables \<Rightarrow> string \<Rightarrow> string \<Rightarrow> store_error + catalog_bundle" where
  "load_catalog lib kt model_code release_type =
     (case fmlookup (kt_models kt) model_code of
        None \<Rightarrow> Inl (StoreFailure STR ''enabled model %q with one active release template was not found'')
      | Some m \<Rightarrow>
          (case (fmlookup (kt_collections kt) (ms_collection (mw_spec m)),
                 fmlookup (kt_templates kt) (model_code, release_type)) of
             (Some c, Some t) \<Rightarrow>
               if \<not> cw_enabled c \<or> \<not> mw_enabled m
               then Inl (StoreFailure STR ''model %q or its collection is disabled'')
               else
                 rbind (as_failure STR ''compile persisted collection: %w'' (compile_collection lib (cw_spec c))) (\<lambda>d.
                 rbind (as_failure STR ''compile persisted model: %w'' (compile_model lib d (mw_spec m))) (\<lambda>model.
                 rbind (as_failure STR ''compile persisted release template: %w''
                          (compile_template (tw_document t) (tw_effect t))) (\<lambda>tpl.
                 Inr \<lparr>bu_definition = d, bu_model = model, bu_template_code = tw_code t,
                      bu_template_version = tw_version t, bu_release_type = release_type, bu_template = tpl\<rparr>)))
           | _ \<Rightarrow> Inl (StoreFailure STR ''enabled model %q with one active release template was not found'')))"

section \<open>Option collections\<close>

record option_authority =
  oa_definition :: collection_definition
  oa_records :: "config_record list"
  oa_rules :: "overlay_rule list"

definition option_record ::
  "scalar_lib \<Rightarrow> collection_definition \<Rightarrow> string \<Rightarrow> string \<times> config_record \<Rightarrow> store_error + config_record" where
  "option_record lib d environment row =
     (case row of (key, stored) \<Rightarrow>
        rbind (as_failure STR ''compile option record %q: %w''
                 (new_record lib d environment (deref_map (cr_data stored)))) (\<lambda>r.
        if cr_key r \<noteq> key then Inl (StoreFailure STR ''option record %q has a non-canonical key'')
        else Inr (r\<lparr>cr_revision := cr_revision stored\<rparr>)))"

definition environment_records :: "database \<Rightarrow> string \<Rightarrow> string \<Rightarrow> (string \<times> config_record) list" where
  "environment_records db collection environment =
     map (\<lambda>((_, _, k), r). (k, r))
       (filter (\<lambda>((c, e, _), _). c = collection \<and> e = environment) (table_rows (db_records db)))"

definition load_option_authority ::
  "scalar_lib \<Rightarrow> catalog_tables \<Rightarrow> database \<Rightarrow> string \<Rightarrow> string \<Rightarrow> store_error + option_authority" where
  "load_option_authority lib kt db environment name =
     rbind (load_version db name environment) (\<lambda>_.
     case fmlookup (kt_collections kt) name of
       None \<Rightarrow> Inl (StoreFailure STR ''option collection %q is missing or disabled'')
     | Some c \<Rightarrow>
         if \<not> cw_enabled c then Inl (StoreFailure STR ''option collection %q is missing or disabled'')
         else
           rbind (as_failure STR ''compile option collection %q: %w'' (compile_collection lib (cw_spec c))) (\<lambda>d.
           rbind (rmap (option_record lib d environment) (environment_records db name environment)) (\<lambda>records.
           Inr \<lparr>oa_definition = d, oa_records = records, oa_rules = environment_rules db name environment\<rparr>)))"

definition model_option_collections :: "compiled_model \<Rightarrow> string list" where
  "model_option_collections m =
     sort (remdups (List.map_filter
       (\<lambda>f. case mf_source f of None \<Rightarrow> None
            | Some s \<Rightarrow> if os_kind s = OptionSourceCollection then Some (os_collection s) else None) (cm_fields m)))"

definition load_option_authorities ::
  "scalar_lib \<Rightarrow> catalog_tables \<Rightarrow> database \<Rightarrow> string \<Rightarrow> string list
     \<Rightarrow> store_error + (string, option_authority) fmap" where
  "load_option_authorities lib kt db environment names =
     rfold (\<lambda>m name. rbind (load_option_authority lib kt db environment name) (\<lambda>a. Inr (fmupd name a m)))
       fmempty names"

text \<open>The options of every SELECT field, by the name of the field.\<close>

definition field_options ::
  "scalar_lib \<Rightarrow> scope \<Rightarrow> (string, option_authority) fmap \<Rightarrow> (string, select_option list) fmap \<Rightarrow> model_field
     \<Rightarrow> store_error + (string, select_option list) fmap" where
  "field_options lib sc authorities acc field =
     (case mf_source field of
        None \<Rightarrow> Inr acc
      | Some source \<Rightarrow>
          rbind (if os_kind source = OptionSourceCollection
                 then case fmlookup authorities (os_collection source) of
                        None \<Rightarrow> Inl (StoreFailure STR ''option collection %q is unavailable'')
                      | Some a \<Rightarrow>
                          rbind (as_failure STR ''evaluate option collection %q: %w''
                                   (evaluate \<lparr>oq_collection = os_collection source, oq_scope = sc, oq_bucket = None\<rparr>
                                      (oa_records a) (oa_rules a))) (\<lambda>records.
                          as_failure STR ''field %q: %w'' (resolve_select_options lib source (oa_definition a) records))
                 else as_failure STR ''field %q: %w'' (case os_kind source of
                        OptionSourceStatic \<Rightarrow> Inr (os_static source)
                      | _ \<Rightarrow> Inl STR ''unsupported option source kind %q'')) (\<lambda>options.
          Inr (fmupd (mf_name field) options acc)))"

definition resolve_model_options ::
  "scalar_lib \<Rightarrow> catalog_tables \<Rightarrow> database \<Rightarrow> compiled_model \<Rightarrow> scope \<Rightarrow> store_error + (string, select_option list) fmap" where
  "resolve_model_options lib kt db m sc =
     rbind (load_option_authorities lib kt db (sc_environment sc) (model_option_collections m)) (\<lambda>authorities.
     rfold (field_options lib sc authorities) fmempty (cm_fields m))"

definition selection_valid ::
  "(string, select_option list) fmap \<Rightarrow> config_record option \<Rightarrow> config_record \<Rightarrow> model_field \<Rightarrow> bool" where
  "selection_valid resolved before after field =
     (if mf_source field = None then True
      else case fmlookup (deref_map (cr_data after)) (mf_name field) of
             None \<Rightarrow> True
           | Some v \<Rightarrow>
               if (case before of None \<Rightarrow> False | Some b \<Rightarrow> map_read (deref_map (cr_data b)) (mf_name field) = v) then True
               else list_ex (\<lambda>o1. so_code o1 = v \<and> \<not> so_disabled o1) 
                      (case fmlookup resolved (mf_name field) of None \<Rightarrow> [] | Some options \<Rightarrow> options))"

definition validate_option_selections ::
  "compiled_model \<Rightarrow> (string, select_option list) fmap \<Rightarrow> config_record option \<Rightarrow> config_record option \<Rightarrow> bool" where
  "validate_option_selections m resolved before after =
     (case after of None \<Rightarrow> True | Some r \<Rightarrow> list_all (selection_valid resolved before r) (cm_fields m))"

section \<open>The authority of a release\<close>

record base_authority =
  bt_revision :: u64
  bt_records :: "string \<Rightarrow> config_record option"

definition load_base_authority ::
  "database \<Rightarrow> string \<Rightarrow> string \<Rightarrow> string list \<Rightarrow> store_error + base_authority" where
  "load_base_authority db collection environment keys =
     rbind (load_version db collection environment) (\<lambda>revision.
     Inr \<lparr>bt_revision = revision,
          bt_records = (\<lambda>k. if k \<in> set keys
             then fmlookup (db_records db) (record_place collection environment k) else None)\<rparr>)"

end
