(* ===== verification/Release_Drafts.thy ===== *)
theory Release_Drafts
  imports Release_Catalog Release_Action
begin

text \<open>
  The drafts a release is created from (\<open>internal/release/application/service.go\<close>): how submitted
  data becomes canonical records, with placeholders for fields the caller may not see or the
  service generates, and the checks of a draft against the current state.

  What the code takes from outside is a record: the scalar library, the formatting of a time, and
  the identifiers, which are numbered; a command says with which number it starts. The catalog
  tables are an argument, as no release command changes them.
\<close>

record create_env =
  ce_lib :: scalar_lib
  ce_format_time :: "gotime \<Rightarrow> string"
  ce_id :: "nat \<Rightarrow> string"
  ce_number :: "nat \<Rightarrow> gotime \<Rightarrow> string"

section \<open>Commands\<close>

record add_draft =
  na_data :: "data option"
  na_record_revision :: u64
  na_collection_revision :: u64

record release_draft =
  dr_action :: action
  dr_base_before :: "data option"
  dr_effective_before :: "data option"
  dr_after :: "data option"
  dr_record_revision :: u64
  dr_collection_revision :: u64
  dr_preserve :: "string list"

record create_base_command =
  cb_key :: string
  cb_model :: string
  cb_release_type :: string
  cb_scope :: scope
  cb_actor :: string
  cb_actor_name :: string
  cb_items :: "add_draft list"

record create_command =
  cc_key :: string
  cc_model :: string
  cc_release_type :: string
  cc_description :: string
  cc_scope :: scope
  cc_actor :: string
  cc_actor_name :: string
  cc_items :: "release_draft list"
  cc_digest :: string
  cc_compensates :: string
  cc_required :: "final_effect option"

record compensate_command =
  ck_order :: string
  ck_key :: string
  ck_description :: string
  ck_actor :: string
  ck_actor_name :: string

record canonical_draft =
  kd_action :: action
  kd_base :: "config_record option"
  kd_effective :: "config_record option"
  kd_after :: "config_record option"
  kd_record_revision :: u64
  kd_collection_revision :: u64
  kd_preserve :: "string list"

section \<open>Sensitive and generated fields\<close>

definition preserve_field :: "compiled_model \<Rightarrow> string list \<Rightarrow> string \<Rightarrow> release_error + string list" where
  "preserve_field m acc raw =
     (let name = trim_space raw
      in if \<not> list_ex (\<lambda>f. mf_name f = name \<and> mf_sensitive f) (cm_fields m) then Inl ErrInvalid
         else if name \<in> set acc then Inl ErrInvalid
         else Inr (acc @ [name]))"

definition validate_preserved :: "compiled_model \<Rightarrow> action \<Rightarrow> string list \<Rightarrow> release_error + string list" where
  "validate_preserved m kind source =
     (if source = [] then Inr []
      else if kind \<noteq> ActionModify then Inl ErrInvalid
      else rbind (rfold (preserve_field m) [] source) (\<lambda>names. Inr (sort names)))"

text \<open>The type of a field that the definition does not have is the zero value, an empty text.\<close>

definition placeholder_of :: "collection_definition \<Rightarrow> string \<Rightarrow> string" where
  "placeholder_of d name =
     (case definition_field d name of None \<Rightarrow> [] | Some f \<Rightarrow> zero_fixture (fd_type f))"

definition with_sensitive_placeholders ::
  "collection_definition \<Rightarrow> data option \<Rightarrow> string list \<Rightarrow> data option" where
  "with_sensitive_placeholders d source preserved =
     map_option (\<lambda>s. foldl (\<lambda>acc name. if name |\<in>| fmdom acc then acc else fmupd name (placeholder_of d name) acc)
       s preserved) source"

definition copy_authoritative :: "data \<Rightarrow> data \<Rightarrow> string \<Rightarrow> data" where
  "copy_authoritative target source name =
     (case fmlookup source name of Some v \<Rightarrow> fmupd name v target | None \<Rightarrow> fmdrop name target)"

text \<open>The key fields of a record that exists are taken from it.\<close>

definition keeps_key :: "compiled_model \<Rightarrow> config_record option \<Rightarrow> auto_fill_rule \<Rightarrow> config_record option" where
  "keeps_key m before rule =
     (case before of None \<Rightarrow> None | Some b \<Rightarrow> if af_field rule \<in> set (cm_key_fields m) then Some b else None)"

definition auto_fill_placeholder :: "auto_fill_rule \<Rightarrow> string" where
  "auto_fill_placeholder rule =
     (case af_source rule of
        AutoFillCurrentTime \<Rightarrow> ''1970-01-01T00:00:00Z''
      | AutoFillConstant \<Rightarrow> af_value rule
      | AutoFillUUID \<Rightarrow> ''00000000-0000-0000-0000-000000000000''
      | _ \<Rightarrow> ''auto-fill'')"

definition with_auto_fill_placeholders ::
  "compiled_model \<Rightarrow> data option \<Rightarrow> config_record option \<Rightarrow> data option" where
  "with_auto_fill_placeholders m source before =
     map_option (\<lambda>s. foldl (\<lambda>acc rule.
         case keeps_key m before rule of
           Some b \<Rightarrow> copy_authoritative acc (deref_map (cr_data b)) (af_field rule)
         | None \<Rightarrow> fmupd (af_field rule) (auto_fill_placeholder rule) acc) s (cm_auto_fill m)) source"

text \<open>The value a rule generates, and how many identifiers that takes.\<close>

definition generated_value ::
  "create_env \<Rightarrow> string \<Rightarrow> string \<Rightarrow> gotime \<Rightarrow> nat \<Rightarrow> auto_fill_rule \<Rightarrow> catalog_error + (string \<times> nat)" where
  "generated_value env actor name now n rule =
     (case af_source rule of
        AutoFillActorSubject \<Rightarrow> Inr (actor, n)
      | AutoFillActorName \<Rightarrow>
          if blank name then Inl STR ''ACTOR_NAME identity is unavailable for field %q'' else Inr (name, n)
      | AutoFillCurrentTime \<Rightarrow> Inr (ce_format_time env now, n)
      | AutoFillConstant \<Rightarrow> Inr (af_value rule, n)
      | AutoFillUUID \<Rightarrow> Inr (ce_id env n, Suc n)
      | AutoFillOther _ \<Rightarrow> Inl STR ''unsupported auto-fill source %q'')"

definition apply_auto_fill_rule ::
  "create_env \<Rightarrow> compiled_model \<Rightarrow> config_record option \<Rightarrow> string \<Rightarrow> string \<Rightarrow> gotime \<Rightarrow> data \<times> nat \<Rightarrow> auto_fill_rule
     \<Rightarrow> catalog_error + data \<times> nat" where
  "apply_auto_fill_rule env m before actor name now acc rule =
     (case keeps_key m before rule of
        Some b \<Rightarrow> Inr (copy_authoritative (fst acc) (deref_map (cr_data b)) (af_field rule), snd acc)
      | None \<Rightarrow> rbind (generated_value env actor name now (snd acc) rule) (\<lambda>(v, n).
                 Inr (fmupd (af_field rule) v (fst acc), n)))"

definition apply_auto_fill ::
  "create_env \<Rightarrow> compiled_model \<Rightarrow> data option \<Rightarrow> config_record option \<Rightarrow> string \<Rightarrow> string \<Rightarrow> gotime \<Rightarrow> nat
     \<Rightarrow> catalog_error + data option \<times> nat" where
  "apply_auto_fill env m source before actor name now n =
     (case source of
        None \<Rightarrow> Inr (None, n)
      | Some s \<Rightarrow> rbind (rfold (apply_auto_fill_rule env m before actor name now) (s, n) (cm_auto_fill m)) (\<lambda>(r, n').
                   Inr (Some r, n')))"

section \<open>Canonical drafts\<close>

definition canonical_optional_record ::
  "scalar_lib \<Rightarrow> collection_definition \<Rightarrow> string \<Rightarrow> data option \<Rightarrow> store_error + config_record option" where
  "canonical_optional_record lib d environment source =
     (case source of
        None \<Rightarrow> Inr None
      | Some s \<Rightarrow> rbind (as_failure STR ''canonicalize item %d'' (new_record lib d environment s)) (\<lambda>r. Inr (Some r)))"

definition first_some :: "'a option \<Rightarrow> 'a option \<Rightarrow> 'a option" where
  "first_some a b = (case a of None \<Rightarrow> b | Some _ \<Rightarrow> a)"

definition prepare_draft ::
  "scalar_lib \<Rightarrow> catalog_bundle \<Rightarrow> string \<Rightarrow> release_draft \<Rightarrow> store_error + canonical_draft \<times> string" where
  "prepare_draft lib bu environment draft =
     (let d = bu_definition bu
      in rbind (lift_release (validate_preserved (bu_model bu) (dr_action draft) (dr_preserve draft))) (\<lambda>preserved.
         rbind (canonical_optional_record lib d environment
                  (with_sensitive_placeholders d (dr_base_before draft) preserved)) (\<lambda>base.
         rbind (canonical_optional_record lib d environment
                  (with_sensitive_placeholders d (dr_effective_before draft) preserved)) (\<lambda>effective.
         rbind (canonical_optional_record lib d environment
                  (with_auto_fill_placeholders (bu_model bu)
                     (with_sensitive_placeholders d (dr_after draft) preserved) effective)) (\<lambda>after.
         case first_some after (first_some effective base) of
           None \<Rightarrow> Inl (StoreRelease ErrInvalid)
         | Some target \<Rightarrow>
             if list_ex (\<lambda>r. case r of None \<Rightarrow> False | Some x \<Rightarrow> cr_key x \<noteq> cr_key target) [base, effective, after]
             then Inl (StoreRelease ErrInvalid)
             else Inr (\<lparr>kd_action = dr_action draft, kd_base = base, kd_effective = effective, kd_after = after,
                        kd_record_revision = dr_record_revision draft,
                        kd_collection_revision = dr_collection_revision draft, kd_preserve = preserved\<rparr>,
                       cr_key target))))))"

text \<open>The second pass: the generated fields of the records to be written.\<close>

definition generate_draft ::
  "create_env \<Rightarrow> catalog_bundle \<Rightarrow> create_command \<Rightarrow> gotime
     \<Rightarrow> (canonical_draft \<times> string) list \<times> nat \<Rightarrow> release_draft \<times> canonical_draft \<times> string
     \<Rightarrow> store_error + (canonical_draft \<times> string) list \<times> nat" where
  "generate_draft env bu c now acc input =
     (case (acc, input) of ((done, n), (draft, k, key)) \<Rightarrow>
        if kd_after k = None then Inr (done @ [(k, key)], n)
        else
          let source = with_sensitive_placeholders (bu_definition bu) (dr_after draft) (kd_preserve k)
          in rbind (rerror (StoreRelease ErrFailedPrecondition)
                 (apply_auto_fill env (bu_model bu) source (kd_effective k) (cc_actor c) (cc_actor_name c) now n)) (\<lambda>(filled, n').
             rbind (as_failure STR ''canonicalize generated item %d after: %w''
                 (new_record (ce_lib env) (bu_definition bu) (sc_environment (cc_scope c)) (deref_map filled))) (\<lambda>after.
             if (case kd_effective k of None \<Rightarrow> False | Some e \<Rightarrow> cr_key after \<noteq> cr_key e)
             then Inl (StoreRelease ErrInvalid)
             else Inr (done @ [(k\<lparr>kd_after := Some after\<rparr>, cr_key after)], n'))))"

definition set_data :: "(data \<Rightarrow> data) \<Rightarrow> config_record \<Rightarrow> config_record" where
  "set_data f r = r\<lparr>cr_data := Some (f (deref_map (cr_data r)))\<rparr>"

definition hydrate_preserved ::
  "canonical_draft \<Rightarrow> config_record option \<Rightarrow> config_record option \<Rightarrow> canonical_draft option" where
  "hydrate_preserved k actual_base actual_effective =
     (if kd_preserve k = [] then Some k
      else case (actual_base, actual_effective, kd_base k, kd_effective k, kd_after k) of
             (Some b, Some e, Some kb, Some ke, Some ka) \<Rightarrow>
               Some (k\<lparr>kd_base := Some (set_data (\<lambda>d. foldl (\<lambda>t. copy_authoritative t (deref_map (cr_data b))) d (kd_preserve k)) kb),
                       kd_effective := Some (set_data (\<lambda>d. foldl (\<lambda>t. copy_authoritative t (deref_map (cr_data e))) d (kd_preserve k)) ke),
                       kd_after := Some (set_data (\<lambda>d. foldl (\<lambda>t. copy_authoritative t (deref_map (cr_data e))) d (kd_preserve k)) ka)\<rparr>)
           | _ \<Rightarrow> None)"

definition same_record_data :: "config_record option \<Rightarrow> config_record option \<Rightarrow> bool" where
  "same_record_data actual submitted =
     (case (actual, submitted) of
        (Some a, Some b) \<Rightarrow> cr_key a = cr_key b \<and> deref_map (cr_data a) = deref_map (cr_data b)
      | (None, None) \<Rightarrow> True
      | _ \<Rightarrow> False)"

definition valid_base_transition ::
  "action \<Rightarrow> config_record option \<Rightarrow> config_record option \<Rightarrow> config_record option \<Rightarrow> bool" where
  "valid_base_transition kind base effective after =
     (case kind of
        ActionAdd \<Rightarrow> base = None \<and> effective = None \<and> after \<noteq> None
      | ActionModify \<Rightarrow> base \<noteq> None \<and> effective \<noteq> None \<and> after \<noteq> None
      | ActionDelete \<Rightarrow> base \<noteq> None \<and> effective \<noteq> None \<and> after = None
      | ActionOther _ \<Rightarrow> False)"

definition valid_overlay_transition :: "action \<Rightarrow> config_record option \<Rightarrow> config_record option \<Rightarrow> bool" where
  "valid_overlay_transition kind effective after =
     (case kind of
        ActionAdd \<Rightarrow> effective = None \<and> after \<noteq> None
      | ActionModify \<Rightarrow> effective \<noteq> None \<and> after \<noteq> None
      | ActionDelete \<Rightarrow> effective \<noteq> None \<and> after = None
      | ActionOther _ \<Rightarrow> False)"

end
