(* ===== verification/Release_Create.thy ===== *)
theory Release_Create
  imports Release_Drafts
begin

text \<open>
  The commands that create a release: \<open>CreateBaseFinal\<close>, \<open>CreateRelease\<close> and
  \<open>CreateCompensatingRelease\<close> of \<open>internal/release/application/service.go\<close>, with the transaction's
  \<open>FindCreateResult\<close> and \<open>InsertOrder\<close> (\<open>internal/release/mysqlstore/store.go\<close>). A transaction is a
  function from the tables to an error or new tables; the retry of one the database aborted is
  not modelled.
\<close>

section \<open>Request digests\<close>

definition json_record :: "config_record option \<Rightarrow> json" where
  "json_record r =
     (case r of None \<Rightarrow> JNull
      | Some x \<Rightarrow> JObj [(''Collection'', JStr (cr_collection x)), (''Environment'', JStr (cr_environment x)),
          (''RecordKey'', JStr (cr_key x)), (''Data'', json_data_option (cr_data x)),
          (''ConfigRevision'', json_int (uint (cr_revision x)))])"

definition json_draft :: "canonical_draft \<Rightarrow> json" where
  "json_draft k =
     JObj [(''action'', JStr (action_text (kd_action k))), (''baseBefore'', json_record (kd_base k)),
           (''effectiveBefore'', json_record (kd_effective k)), (''after'', json_record (kd_after k)),
           (''expectedRecordRevision'', json_int (uint (kd_record_revision k))),
           (''expectedCollectionRevision'', json_int (uint (kd_collection_revision k))),
           (''preserveSensitiveFields'', if kd_preserve k = [] then JNull else json_strings (kd_preserve k))]"

definition normalized_release_digest :: "create_command \<Rightarrow> canonical_draft list \<Rightarrow> string" where
  "normalized_release_digest c drafts =
     hex_encode (sha256 (json_print (JObj
       [(''model'', JStr (cc_model c)), (''releaseType'', JStr (cc_release_type c)),
        (''description'', JStr (cc_description c)), (''scope'', json_scope (cc_scope c)),
        (''items'', JArr (map json_draft drafts))])))"

definition json_add_draft :: "add_draft \<times> config_record \<Rightarrow> json" where
  "json_add_draft p =
     (case p of (draft, r) \<Rightarrow>
        JObj [(''recordKey'', JStr (cr_key r)), (''data'', json_data_option (cr_data r)),
              (''expectedRecordRevision'', json_int (uint (na_record_revision draft))),
              (''expectedCollectionRevision'', json_int (uint (na_collection_revision draft)))])"

definition normalized_create_digest :: "create_base_command \<Rightarrow> config_record list \<Rightarrow> string" where
  "normalized_create_digest c records =
     hex_encode (sha256 (json_print (JObj
       [(''model'', JStr (cb_model c)), (''releaseType'', JStr (cb_release_type c)),
        (''scope'', json_scope (cb_scope c)),
        (''items'', JArr (map json_add_draft (zip (cb_items c) records)))])))"

definition normalized_compensation_digest :: "compensate_command \<Rightarrow> string" where
  "normalized_compensation_digest c =
     hex_encode (sha256 (json_print (JObj
       [(''orderId'', JStr (ck_order c)), (''description'', JStr (ck_description c))])))"

section \<open>Finding an earlier result\<close>

definition set_capabilities :: "order_view \<Rightarrow> order_view" where
  "set_capabilities v =
     (if ov_status v \<noteq> OrderInProgress then v
      else if ov_step v = StepManualReview \<and> ov_step_status v = StepPending then v\<lparr>ov_can_execute := True\<rparr>
      else if ov_step v = StepManualReview \<and> ov_step_status v = StepExecuting
        then v\<lparr>ov_can_approve := True, ov_can_reject := True\<rparr>
      else if ov_step_status v = StepApproved \<or> ov_step_status v = StepExecuted
        then v\<lparr>ov_can_advance := (ov_step v \<noteq> StepComplete),
               ov_can_rollback := ((ov_step v = StepOverlayApply \<or> ov_step v = StepBaseApply) \<and>
                 ov_step_status v = StepExecuted)\<rparr>
      else if ov_step v \<in> {StepBaseApply, StepPercentRollout, StepCompare, StepComplete} \<and>
              ov_step_status v = StepPending then v\<lparr>ov_can_execute := True\<rparr>
      else v)"

definition stored_step_view :: "step_state \<Rightarrow> step_view" where
  "stored_step_view s = (view_step s)\<lparr>sv_code := persisted_step_code s\<rparr>"

definition stored_view :: "order \<Rightarrow> order_view" where
  "stored_view ord =
     (let step = current_step ord
      in set_capabilities
        \<lparr>ov_id = or_id ord, ov_description = or_description ord, ov_compensates = or_compensates ord,
         ov_status = or_status ord, ov_step_code = persisted_step_code step, ov_step = ss_type step,
         ov_step_status = ss_status step, ov_revision = or_revision ord,
         ov_can_execute = False, ov_can_advance = False, ov_can_approve = False,
         ov_can_reject = False, ov_can_rollback = False,
         ov_can_compensate = (or_status ord = OrderSucceeded), ov_steps = map stored_step_view (or_steps ord)\<rparr>)"

definition find_create_result :: "release_db \<Rightarrow> string \<Rightarrow> string \<Rightarrow> stored_result option" where
  "find_create_result rd actor key =
     map_option (\<lambda>ord. \<lparr>sr_digest = or_digest ord, sr_view = stored_view ord\<rparr>)
       (List.find (\<lambda>ord. or_created_by ord = actor \<and> or_idempotency_key ord = key) (sorted_values (rd_orders rd)))"

section \<open>Inserting an order\<close>

text \<open>\<open>chk_item_before_after\<close>, the checks of the three documents, and the revision checks.\<close>

definition item_row_ok :: "item \<Rightarrow> bool" where
  "item_row_ok i \<longleftrightarrow>
     (it_action i = ActionAdd \<and> it_base_before i = None \<and> it_effective_before i = None \<and> it_after i \<noteq> None \<and>
        it_record_revision i = 0 \<or>
      it_action i = ActionModify \<and> it_effective_before i \<noteq> None \<and> it_after i \<noteq> None \<and> it_record_revision i > 0 \<or>
      it_action i = ActionDelete \<and> it_effective_before i \<noteq> None \<and> it_after i = None \<and> it_record_revision i > 0) \<and>
     list_all (\<lambda>r. case r of None \<Rightarrow> True | Some x \<Rightarrow> cr_data x \<noteq> None)
       [it_base_before i, it_effective_before i, it_after i] \<and>
     it_collection_revision i > 0"

text \<open>The rows of \<open>release_order_items\<close>.\<close>

definition stored_items :: "release_db \<Rightarrow> item list" where
  "stored_items rd = concat (map or_items (sorted_values (rd_orders rd)))"

text \<open>
  One row: its checks, its primary key, its record within the order, and the unique conflict key,
  for which the absent key, stored as \<open>NULL\<close>, does not count.
\<close>

definition insert_item :: "item list \<Rightarrow> item list \<Rightarrow> item \<Rightarrow> store_error + item list" where
  "insert_item existing acc i =
     (if \<not> item_row_ok i then Inl (StoreFailure STR ''check constraint violated'')
      else if it_id i \<in> it_id ` set (existing @ acc) then Inl (StoreRelease ErrAborted)
      else if (it_collection i, it_key i) \<in> (\<lambda>j. (it_collection j, it_key j)) ` set acc then Inl (StoreRelease ErrAborted)
      else if it_conflict_key i \<noteq> [] \<and> it_conflict_key i \<in> it_conflict_key ` set (existing @ acc)
      then Inl (StoreRelease ErrActiveConflict)
      else Inr (acc @ [i]))"

definition insert_order :: "order \<Rightarrow> release_db \<Rightarrow> store_error + release_db" where
  "insert_order ord rd =
     (let others = sorted_values (rd_orders rd)
      in if or_id ord |\<in>| fmdom (rd_orders rd) then Inl (StoreRelease ErrAborted)
         else if or_number ord \<in> or_number ` set others then Inl (StoreRelease ErrAborted)
         else if (or_created_by ord, or_idempotency_key ord) \<in> (\<lambda>o1. (or_created_by o1, or_idempotency_key o1)) ` set others
         then Inl (StoreFailure STR ''concurrent create request won'')
         else rbind (rfold (insert_item (stored_items rd)) [] (or_items ord)) (\<lambda>_.
              if \<not> distinct (map persisted_step_code (or_steps ord)) then Inl (StoreRelease ErrAborted)
              else Inr (rd\<lparr>rd_orders := fmupd (or_id ord) ord (rd_orders rd),
                          rd_db := insert_audit (or_created_at ord) (or_created_by ord) ''RELEASE_CREATED'' (or_id ord)
                            (or_scope ord) (rd_db rd)\<rparr>)))"

section \<open>CreateRelease\<close>

definition zero_record :: config_record where
  "zero_record = \<lparr>cr_collection = [], cr_environment = [], cr_key = [], cr_data = None, cr_revision = 0\<rparr>"

definition record_revision_of :: "config_record option \<Rightarrow> u64" where
  "record_revision_of r = (case r of None \<Rightarrow> 0 | Some x \<Rightarrow> cr_revision x)"

text \<open>A draft against the current state: it is hydrated and compared; the reason it is refused.\<close>

definition check_draft ::
  "compiled_model \<Rightarrow> (string, select_option list) fmap \<Rightarrow> base_authority
     \<Rightarrow> (action \<Rightarrow> config_record option \<Rightarrow> config_record option \<Rightarrow> config_record option \<Rightarrow> bool)
     \<Rightarrow> config_record option \<Rightarrow> config_record option \<Rightarrow> canonical_draft \<Rightarrow> store_error + canonical_draft" where
  "check_draft m options auth transition actual_base actual_effective raw =
     (case hydrate_preserved raw actual_base actual_effective of
        None \<Rightarrow> Inl (StoreRelease ErrAborted)
      | Some k \<Rightarrow>
          if bt_revision auth \<noteq> kd_collection_revision k \<or> \<not> same_record_data actual_base (kd_base k) \<or>
             \<not> same_record_data actual_effective (kd_effective k) \<or>
             record_revision_of actual_base \<noteq> kd_record_revision k
          then Inl (StoreRelease ErrAborted)
          else if \<not> transition (kd_action k) actual_base actual_effective (kd_after k) then Inl (StoreRelease ErrInvalid)
          else if \<not> validate_option_selections m options actual_effective (kd_after k)
          then Inl (StoreRelease ErrFailedPrecondition)
          else Inr k)"

definition base_item_of ::
  "string \<Rightarrow> config_record option \<Rightarrow> config_record option \<Rightarrow> canonical_draft \<Rightarrow> base_item_spec" where
  "base_item_of identity actual_base actual_effective k =
     \<lparr>bi_id = identity, bi_action = kd_action k, bi_base_before = actual_base,
      bi_effective_before = actual_effective,
      bi_after = (case kd_after k of None \<Rightarrow> zero_record | Some r \<Rightarrow> r),
      bi_record_revision = kd_record_revision k, bi_collection_revision = kd_collection_revision k,
      bi_preserve = kd_preserve k\<rparr>"

definition overlay_item_of ::
  "string \<Rightarrow> config_record option \<Rightarrow> config_record option \<Rightarrow> canonical_draft \<Rightarrow> overlay_item_spec" where
  "overlay_item_of identity actual_base actual_effective k =
     \<lparr>oi_id = identity, oi_action = kd_action k, oi_base_before = actual_base,
      oi_effective_before = actual_effective, oi_after = kd_after k,
      oi_record_revision = kd_record_revision k, oi_collection_revision = kd_collection_revision k,
      oi_preserve = kd_preserve k\<rparr>"

text \<open>The records the scope sees of the keys, without a preview bucket.\<close>

definition effective_records ::
  "database \<Rightarrow> string \<Rightarrow> scope \<Rightarrow> base_authority \<Rightarrow> string list \<Rightarrow> store_error + config_record list" where
  "effective_records db collection sc auth keys =
     as_failure STR ''evaluate current scope: %w''
       (evaluate \<lparr>oq_collection = collection, oq_scope = sc, oq_bucket = None\<rparr>
          (List.map_filter (bt_records auth) (sort (remdups keys))) (load_overlay_rules db collection sc keys))"

definition record_of_key :: "config_record list \<Rightarrow> string \<Rightarrow> config_record option" where
  "record_of_key records key = List.find (\<lambda>r. cr_key r = key) records"

definition order_spec_of ::
  "catalog_bundle \<Rightarrow> create_command \<Rightarrow> string \<Rightarrow> gotime \<Rightarrow> string \<Rightarrow> string \<Rightarrow> 'i list \<Rightarrow> 'i order_spec" where
  "order_spec_of bu c digest now identity number items =
     \<lparr>sp_id = identity, sp_number = number, sp_idempotency_key = cc_key c, sp_model = cc_model c,
      sp_template_code = bu_template_code bu, sp_template_version = bu_template_version bu,
      sp_release_type = bu_release_type bu, sp_digest = digest, sp_description = cc_description c,
      sp_compensates = cc_compensates c, sp_scope = cc_scope c, sp_created_by = cc_actor c,
      sp_created_at = now, sp_items = items, sp_template = bu_template bu\<rparr>"

text \<open>
  The order of the checked drafts. The identifiers are taken in the order of the code: for a base
  release the order's before those of the items, for an overlay release after them.
\<close>

definition build_order ::
  "create_env \<Rightarrow> catalog_bundle \<Rightarrow> create_command \<Rightarrow> string \<Rightarrow> gotime \<Rightarrow> nat
     \<Rightarrow> (config_record option \<times> config_record option \<times> canonical_draft) list \<Rightarrow> release_error + order \<times> nat" where
  "build_order env bu c digest now n checked =
     (let count = length checked
      in if ct_final_effect (bu_template bu) = FinalEffectBase
         then rbind (new_base_final_order (order_spec_of bu c digest now (ce_id env n) (ce_number env (n + count + 1) now)
                (map (\<lambda>(j, b, e, k). base_item_of (ce_id env (n + 1 + j)) b e k) (enumerate 0 checked)))) (\<lambda>ord.
              Inr (ord, n + count + 2))
         else rbind (new_overlay_final_order (order_spec_of bu c digest now (ce_id env (n + count)) (ce_number env (n + count + 1) now)
                (map (\<lambda>(j, b, e, k). overlay_item_of (ce_id env (n + j)) b e k) (enumerate 0 checked)))) (\<lambda>ord.
              Inr (ord, n + count + 2)))"

definition create_transition ::
  "catalog_bundle \<Rightarrow> action \<Rightarrow> config_record option \<Rightarrow> config_record option \<Rightarrow> config_record option \<Rightarrow> bool" where
  "create_transition bu kind base effective after =
     (if ct_final_effect (bu_template bu) = FinalEffectBase then valid_base_transition kind base effective after
      else valid_overlay_transition kind effective after)"

text \<open>The part of the transaction that creates a new order.\<close>

definition create_new ::
  "create_env \<Rightarrow> catalog_tables \<Rightarrow> catalog_bundle \<Rightarrow> create_command \<Rightarrow> string \<Rightarrow> gotime \<Rightarrow> nat
     \<Rightarrow> (canonical_draft \<times> string) list \<Rightarrow> release_db \<Rightarrow> store_error + release_db \<times> order \<times> nat" where
  "create_new env kt bu c digest now n prepared rd =
     (let collection = cd_name (bu_definition bu); sc = cc_scope c; db = rd_db rd
      in rbind (rfold (generate_draft env bu c now) ([], n) (zip (cc_items c) prepared)) (\<lambda>(drafts, n1).
         let keys = map snd drafts
         in rbind (load_base_authority db collection (sc_environment sc) keys) (\<lambda>auth.
            rbind (resolve_model_options (ce_lib env) kt db (bu_model bu) sc) (\<lambda>options.
            rbind (effective_records db collection sc auth keys) (\<lambda>effective.
            rbind (rmap (\<lambda>(k, key). rbind (check_draft (bu_model bu) options auth (create_transition bu) (bt_records auth key)
                      (record_of_key effective key) k) (\<lambda>k'. Inr (bt_records auth key, record_of_key effective key, k')))
                    drafts) (\<lambda>checked.
            rbind (lift_release (build_order env bu c digest now n1 checked)) (\<lambda>(ord, n2).
            rbind (insert_order ord rd) (\<lambda>rd'. Inr (rd', ord, n2)))))))))"

text \<open>The whole transaction: the new tables, the view and the next free number.\<close>

definition create_transaction ::
  "create_env \<Rightarrow> catalog_tables \<Rightarrow> create_command \<Rightarrow> gotime \<Rightarrow> nat \<Rightarrow> release_db
     \<Rightarrow> store_error + release_db \<times> order_view \<times> nat" where
  "create_transaction env kt c now n rd =
     rbind (load_catalog (ce_lib env) kt (cc_model c) (cc_release_type c)) (\<lambda>bu.
     let final = ct_final_effect (bu_template bu)
     in if final \<noteq> FinalEffectBase \<and> final \<noteq> FinalEffectOverlay then Inl (StoreRelease ErrInvalid)
        else if (case cc_required c of None \<Rightarrow> False | Some f \<Rightarrow> final \<noteq> f) then Inl (StoreRelease ErrFailedPrecondition)
        else if final = FinalEffectOverlay \<and>
                (blank (sc_region (cc_scope c)) \<or> blank (sc_environment (cc_scope c)) \<or> blank (sc_stage (cc_scope c)))
        then Inl (StoreRelease ErrInvalid)
        else rbind (rmap (prepare_draft (ce_lib env) bu (sc_environment (cc_scope c))) (cc_items c)) (\<lambda>prepared.
          let digest = (if cc_digest c \<noteq> [] then cc_digest c else normalized_release_digest c (map fst prepared))
          in case find_create_result rd (cc_actor c) (cc_key c) of
               Some stored \<Rightarrow>
                 if sr_digest stored \<noteq> digest then Inl (StoreRelease ErrIdempotencyKeyReused)
                 else Inr (rd, sr_view stored, n)
             | None \<Rightarrow>
                 rbind (create_new env kt bu c digest now n prepared rd) (\<lambda>(rd', ord, n').
                 Inr (rd', project ord, n'))))"

definition create_command_ok :: "create_command \<Rightarrow> bool" where
  "create_command_ok c \<longleftrightarrow>
     \<not> (blank (cc_key c) \<or> blank (cc_model c) \<or> blank (cc_release_type c) \<or> blank (cc_actor c) \<or>
        cc_items c = [] \<or> 500 < length (cc_items c))"

definition create_release ::
  "create_env \<Rightarrow> catalog_tables \<Rightarrow> create_command \<Rightarrow> gotime \<Rightarrow> nat \<Rightarrow> release_db
     \<Rightarrow> release_db \<times> (store_error + order_view \<times> nat)" where
  "create_release env kt c now n rd =
     (if \<not> create_command_ok c then (rd, Inl (StoreRelease ErrInvalid))
      else case create_transaction env kt c now n rd of
             Inl e \<Rightarrow> (rd, Inl e)
           | Inr (rd', v, n') \<Rightarrow> (rd', Inr (v, n')))"

section \<open>CreateBaseFinal\<close>

definition base_release_type :: "create_base_command \<Rightarrow> string" where
  "base_release_type c = (if blank (cb_release_type c) then ''direct'' else cb_release_type c)"

text \<open>The first pass, on placeholders, and the second, on what the service generates.\<close>

definition prepare_addition ::
  "scalar_lib \<Rightarrow> catalog_bundle \<Rightarrow> string \<Rightarrow> add_draft \<Rightarrow> store_error + config_record" where
  "prepare_addition lib bu environment draft =
     as_failure STR ''canonicalize release item %d: %w''
       (new_record lib (bu_definition bu) environment
          (deref_map (with_auto_fill_placeholders (bu_model bu) (na_data draft) None)))"

definition generate_addition ::
  "create_env \<Rightarrow> catalog_bundle \<Rightarrow> create_base_command \<Rightarrow> gotime \<Rightarrow> config_record list \<times> nat \<Rightarrow> add_draft
     \<Rightarrow> store_error + config_record list \<times> nat" where
  "generate_addition env bu c now acc draft =
     (case acc of (done, n) \<Rightarrow>
        rbind (rerror (StoreRelease ErrFailedPrecondition)
          (apply_auto_fill env (bu_model bu) (na_data draft) None (cb_actor c) (cb_actor_name c) now n)) (\<lambda>(filled, n').
        rbind (as_failure STR ''canonicalize generated release item %d: %w''
          (new_record (ce_lib env) (bu_definition bu) (sc_environment (cb_scope c)) (deref_map filled))) (\<lambda>r.
        Inr (done @ [r], n'))))"

definition check_addition ::
  "compiled_model \<Rightarrow> (string, select_option list) fmap \<Rightarrow> base_authority \<Rightarrow> add_draft \<times> config_record
     \<Rightarrow> store_error + base_item_spec" where
  "check_addition m options auth input =
     (case input of (draft, r) \<Rightarrow>
        if bt_revision auth \<noteq> na_collection_revision draft then Inl (StoreRelease ErrAborted)
        else if bt_records auth (cr_key r) \<noteq> None then Inl (StoreRelease ErrAborted)
        else if na_record_revision draft \<noteq> 0 then Inl (StoreRelease ErrInvalid)
        else if \<not> validate_option_selections m options None (Some r) then Inl (StoreRelease ErrFailedPrecondition)
        else Inr \<lparr>bi_id = [], bi_action = ActionAdd, bi_base_before = None, bi_effective_before = None, bi_after = r,
                  bi_record_revision = na_record_revision draft, bi_collection_revision = na_collection_revision draft,
                  bi_preserve = []\<rparr>)"

text \<open>The items are checked before they are numbered; the identifiers follow that of the order.\<close>

definition create_base_new ::
  "create_env \<Rightarrow> catalog_tables \<Rightarrow> catalog_bundle \<Rightarrow> create_base_command \<Rightarrow> string \<Rightarrow> gotime \<Rightarrow> nat \<Rightarrow> release_db
     \<Rightarrow> store_error + release_db \<times> order \<times> nat" where
  "create_base_new env kt bu c digest now n rd =
     (let collection = cd_name (bu_definition bu); db = rd_db rd; count = length (cb_items c)
      in rbind (rfold (generate_addition env bu c now) ([], n) (cb_items c)) (\<lambda>(records, n1).
         rbind (load_base_authority db collection (trim_space (sc_environment (cb_scope c))) (map cr_key records)) (\<lambda>auth.
         rbind (resolve_model_options (ce_lib env) kt db (bu_model bu) (cb_scope c)) (\<lambda>options.
         if bu_template_code bu = [] \<or> bu_template_version bu = 0 \<or> bu_release_type bu = []
         then Inl (StoreFailure STR ''release catalog has no active BASE_FINAL template'')
         else rbind (rmap (check_addition (bu_model bu) options auth) (zip (cb_items c) records)) (\<lambda>items.
              rbind (lift_release (new_base_final_order
                \<lparr>sp_id = ce_id env n1, sp_number = ce_number env (n1 + count + 1) now, sp_idempotency_key = cb_key c,
                 sp_model = cb_model c, sp_template_code = bu_template_code bu,
                 sp_template_version = bu_template_version bu, sp_release_type = bu_release_type bu,
                 sp_digest = digest, sp_description = [], sp_compensates = [], sp_scope = cb_scope c,
                 sp_created_by = cb_actor c, sp_created_at = now,
                 sp_items = map (\<lambda>(j, i). i\<lparr>bi_id := ce_id env (n1 + 1 + j)\<rparr>) (enumerate 0 items),
                 sp_template = bu_template bu\<rparr>)) (\<lambda>ord.
              rbind (insert_order ord rd) (\<lambda>rd'. Inr (rd', ord, n1 + count + 2))))))))"

definition create_base_transaction ::
  "create_env \<Rightarrow> catalog_tables \<Rightarrow> create_base_command \<Rightarrow> gotime \<Rightarrow> nat \<Rightarrow> release_db
     \<Rightarrow> store_error + release_db \<times> order_view \<times> nat" where
  "create_base_transaction env kt c now n rd =
     rbind (load_catalog (ce_lib env) kt (cb_model c) (cb_release_type c)) (\<lambda>bu.
     if cm_collection (bu_model bu) \<noteq> cd_name (bu_definition bu)
     then Inl (StoreFailure STR ''release catalog is internally inconsistent'')
     else rbind (rmap (prepare_addition (ce_lib env) bu (sc_environment (cb_scope c))) (cb_items c)) (\<lambda>records.
       let digest = normalized_create_digest c records
       in case find_create_result rd (cb_actor c) (cb_key c) of
            Some stored \<Rightarrow>
              if sr_digest stored \<noteq> digest then Inl (StoreRelease ErrIdempotencyKeyReused)
              else Inr (rd, sr_view stored, n)
          | None \<Rightarrow>
              rbind (create_base_new env kt bu c digest now n rd) (\<lambda>(rd', ord, n'). Inr (rd', project ord, n'))))"

definition create_base_final ::
  "create_env \<Rightarrow> catalog_tables \<Rightarrow> create_base_command \<Rightarrow> gotime \<Rightarrow> nat \<Rightarrow> release_db
     \<Rightarrow> release_db \<times> (store_error + order_view \<times> nat)" where
  "create_base_final env kt c now n rd =
     (if blank (cb_key c) \<or> blank (cb_model c) \<or> blank (cb_actor c) then (rd, Inl (StoreRelease ErrInvalid))
      else if cb_items c = [] \<or> 500 < length (cb_items c) then (rd, Inl (StoreRelease ErrInvalid))
      else case create_base_transaction env kt (c\<lparr>cb_release_type := base_release_type c\<rparr>) now n rd of
             Inl e \<Rightarrow> (rd, Inl e)
           | Inr (rd', v, n') \<Rightarrow> (rd', Inr (v, n')))"

section \<open>CreateCompensatingRelease\<close>

definition trim_compensation :: "compensate_command \<Rightarrow> compensate_command" where
  "trim_compensation c =
     c\<lparr>ck_order := trim_space (ck_order c), ck_key := trim_space (ck_key c),
       ck_description := trim_space (ck_description c), ck_actor := trim_space (ck_actor c)\<rparr>"

definition compensation_draft :: "compensation_item \<Rightarrow> release_draft" where
  "compensation_draft i =
     \<lparr>dr_action = ci_action i, dr_base_before = Option.bind (ci_base_before i) cr_data,
      dr_effective_before = Option.bind (ci_effective_before i) cr_data,
      dr_after = Option.bind (ci_after i) cr_data,
      dr_record_revision = ci_record_revision i, dr_collection_revision = ci_collection_revision i,
      dr_preserve = (if ci_action i = ActionModify then ci_preserve i else [])\<rparr>"

text \<open>The command the compensated order and the current state amount to.\<close>

definition plan_command ::
  "compensate_command \<Rightarrow> order \<Rightarrow> compensation_plan \<Rightarrow> create_command" where
  "plan_command c source plan =
     \<lparr>cc_key = ck_key c, cc_model = or_model source, cc_release_type = ''compensation'',
      cc_description = ck_description c, cc_scope = or_scope source, cc_actor = ck_actor c,
      cc_actor_name = ck_actor_name c, cc_items = map compensation_draft (cn_items plan),
      cc_digest = normalized_compensation_digest c, cc_compensates = or_id source,
      cc_required = Some (cn_final plan)\<rparr>"

definition compensation_authority_of ::
  "database \<Rightarrow> order \<Rightarrow> store_error + compensation_authority" where
  "compensation_authority_of db source =
     (let keys = map it_key (or_items source); collection = it_collection (hd (or_items source));
          sc = or_scope source
      in rbind (load_base_authority db collection (sc_environment sc) keys) (\<lambda>auth.
         rbind (effective_records db collection sc auth keys) (\<lambda>effective.
         Inr \<lparr>ca_revision = bt_revision auth, ca_base = Some (bt_records auth),
              ca_effective = Some (record_of_key effective)\<rparr>)))"

text \<open>The first transaction changes nothing: it finds the earlier view or plans the command.\<close>

definition plan_transaction ::
  "(gotime \<Rightarrow> gotime) \<Rightarrow> compensate_command \<Rightarrow> release_db \<Rightarrow> store_error + (order_view + create_command)" where
  "plan_transaction db_time c rd =
     (case find_create_result rd (ck_actor c) (ck_key c) of
        Some stored \<Rightarrow>
          if sr_digest stored \<noteq> normalized_compensation_digest c then Inl (StoreRelease ErrIdempotencyKeyReused)
          else Inr (Inl (sr_view stored))
      | None \<Rightarrow>
          rbind (load_order db_time rd (ck_order c)) (\<lambda>source.
          rbind (compensation_authority_of (rd_db rd) source) (\<lambda>auth.
          rbind (lift_release (plan_compensation auth source)) (\<lambda>plan.
          Inr (Inr (plan_command c source plan))))))"

text \<open>Between its two transactions others may change the tables: \<open>between\<close> says how.\<close>

definition create_compensating ::
  "create_env \<Rightarrow> (gotime \<Rightarrow> gotime) \<Rightarrow> catalog_tables \<Rightarrow> compensate_command \<Rightarrow> gotime \<Rightarrow> nat \<Rightarrow> (release_db \<Rightarrow> release_db)
     \<Rightarrow> release_db \<Rightarrow> release_db \<times> (store_error + order_view \<times> nat)" where
  "create_compensating env db_time kt command now n between rd =
     (let c = trim_compensation command
      in if ck_order c = [] \<or> ck_key c = [] \<or> ck_actor c = [] then (rd, Inl (StoreRelease ErrInvalid))
         else case plan_transaction db_time c rd of
                Inl e \<Rightarrow> (rd, Inl e)
              | Inr (Inl v) \<Rightarrow> (rd, Inr (v, n))
              | Inr (Inr planned) \<Rightarrow> create_release env kt planned now n (between rd))"

end
