(* ===== verification/Release_Histories.thy ===== *)
theory Release_Histories
  imports Release_Create Release_Workflow
begin

text \<open>
  The order tables under any sequence of commands: creates, compensations, actions, and changes
  that other services make to the configuration tables. The invariant \<open>orders_ok\<close> says that an
  open order alone holds the conflict keys of its items and that a request key names one order.
\<close>

section \<open>What an operation leaves of the items\<close>

definition drop_keys :: "item list \<Rightarrow> item list \<Rightarrow> bool" where
  "drop_keys is is' \<longleftrightarrow> map it_id is' = map it_id is \<and> (\<forall>i \<in> set is'. it_conflict_key i = [])"

definition item_step :: "order \<Rightarrow> order \<Rightarrow> bool" where
  "item_step ord ord' \<longleftrightarrow> or_id ord' = or_id ord \<and>
     (or_status ord' = OrderInProgress \<and> or_items ord' = or_items ord \<or>
      or_status ord' \<noteq> OrderInProgress \<and> drop_keys (or_items ord) (or_items ord'))"

lemma drop_keys_cases [simp]:
  "drop_keys is (map (\<lambda>i. i\<lparr>it_conflict_key := []\<rparr>) is)" "drop_keys is (close_items st is)"
  by (auto simp: drop_keys_def close_items_def)

lemma apply_command_items:
  assumes step: "apply_command c ord = Inr ord'"
  shows "item_step ord ord'"
proof -
  have progress: "or_status ord = OrderInProgress" using step by (rule apply_command_open)
  have keep: "item_step ord (bump a t (set_current_step f ord))" for a t f
    by (simp add: item_step_def progress)
  have rb: "item_step ord (close_rolled_back n steps a t ord)" for n steps a t
    by (simp add: item_step_def close_rolled_back_def)
  show ?thesis
  proof (cases c)
    case (CmdCompare r actual a t)
    with step show ?thesis by (auto simp: changed_Inr keep dest!: execute_compare_Inr(7))
  next
    case (CmdBase auth new a t)
    with step show ?thesis by (auto simp: changed_Inr record_effect_def keep dest!: execute_base_Inr(6))
  next
    case (CmdOverlay auth new a t)
    with step show ?thesis by (auto simp: changed_Inr record_effect_def keep dest!: execute_overlay_Inr(5))
  next
    case (CmdPercent auth new a t)
    with step show ?thesis by (auto simp: changed_Inr record_effect_def keep dest!: execute_percent_rollout_Inr(8))
  next
    case (CmdManualReview r a t)
    with step show ?thesis by (auto simp: keep dest!: execute_manual_review_Inr(5))
  next
    case (CmdApprove r who comment t)
    with step show ?thesis by (auto simp: keep dest!: approve_manual_review_Inr(2))
  next
    case (CmdReject r who comment t)
    with step have "ord' = bump (pr_subject who) t (rejected_order who comment t ord)"
      by (simp add: reject_manual_review_Inr(3))
    then show ?thesis by (simp add: item_step_def rejected_order_def)
  next
    case (CmdAdvance r a t)
    with step have "ord' = bump a t (ord\<lparr>or_current := or_current ord + 1\<rparr>)"
      using advance_Inr(5) [of r a t ord ord'] by simp
    then show ?thesis by (simp add: item_step_def progress)
  next
    case (CmdComplete r a t)
    with step have "ord' = bump a t (completed_order a t ord)" by (simp add: complete_order_Inr(5))
    then show ?thesis by (simp add: item_step_def completed_order_def)
  next
    case (CmdRollbackBase r auth new a t)
    then show ?thesis using rollback_Inr [OF _ step, of r auth new a t 0] rb by blast
  next
    case (CmdRollbackOverlay r cur new a t)
    then show ?thesis using rollback_Inr [OF _ step, of r undefined new a t cur] rb by blast
  next
    case (CmdRollbackAll r auth new a t)
    then show ?thesis using rollback_Inr [OF _ step, of r auth new a t 0] rb by blast
  qed
qed

text \<open>Every action of the service is one operation of the aggregate.\<close>

lemma with_authority_Inr:
  "with_authority ord plan write db = Inr (e, db') \<Longrightarrow> \<exists>auth new. plan auth new = Inr e"
  by (auto simp: with_authority_def rbind_Inr_iff go_results)

lemma perform_execute_command:
  assumes "perform_execute db_time c now ord db = Inr (ord', db', keys)"
  shows "\<exists>cmd. apply_command cmd ord = Inr ord'"
proof (cases "ss_type (current_step ord)")
  case StepManualReview
  with assms show ?thesis
    by (intro exI [of _ "CmdManualReview (ac_revision c) (ac_actor c) now"])
      (auto simp: perform_execute_def rbind_Inr_iff go_results)
next
  case StepBaseApply
  with assms obtain auth new e where "execute_base auth new (ac_actor c) now ord = Inr (ord', e)"
    by (auto simp: perform_execute_def rbind_Inr_iff dest!: with_authority_Inr)
  then show ?thesis by (intro exI [of _ "CmdBase auth new (ac_actor c) now"]) (simp add: changed_Inr)
next
  case StepOverlayApply
  with assms obtain auth new e where "execute_overlay auth new (ac_actor c) now ord = Inr (ord', e)"
    by (auto simp: perform_execute_def rbind_Inr_iff dest!: with_authority_Inr)
  then show ?thesis by (intro exI [of _ "CmdOverlay auth new (ac_actor c) now"]) (simp add: changed_Inr)
next
  case StepPercentRollout
  with assms obtain auth new e where "execute_percent_rollout auth new (ac_actor c) now ord = Inr (ord', e)"
    by (auto simp: perform_execute_def rbind_Inr_iff dest!: with_authority_Inr)
  then show ?thesis by (intro exI [of _ "CmdPercent auth new (ac_actor c) now"]) (simp add: changed_Inr)
next
  case StepCompare
  with assms obtain actual x where "execute_compare (ac_revision c) actual (ac_actor c) now ord = Inr (ord', x)"
    by (auto simp: perform_execute_def rbind_Inr_iff go_results)
  then show ?thesis
    by (intro exI [of _ "CmdCompare (ac_revision c) actual (ac_actor c) now"]) (auto simp: changed_Inr)
next
  case StepComplete
  with assms show ?thesis
    by (intro exI [of _ "CmdComplete (ac_revision c) (ac_actor c) now"])
      (auto simp: perform_execute_def rbind_Inr_iff go_results)
qed (use assms in \<open>simp add: perform_execute_def\<close>)

lemma perform_command:
  assumes "perform db_time c now ord db = Inr (ord', db', keys)"
  shows "\<exists>cmd. apply_command cmd ord = Inr ord'"
proof (cases "ac_action c")
  case ActExecute
  with assms show ?thesis by (simp add: perform_def Let_def perform_execute_command)
next
  case ActAdvance
  with assms show ?thesis
    by (intro exI [of _ "CmdAdvance (ac_revision c) (ac_actor c) now"])
      (auto simp: perform_def Let_def rbind_Inr_iff go_results)
next
  case ActApprove
  let ?who = "\<lparr>pr_subject = ac_actor c, pr_roles = ac_roles c\<rparr>"
  from ActApprove assms show ?thesis
    by (intro exI [of _ "CmdApprove (ac_revision c) ?who (ac_comment c) now"])
      (auto simp: perform_def Let_def rbind_Inr_iff go_results)
next
  case ActReject
  let ?who = "\<lparr>pr_subject = ac_actor c, pr_roles = ac_roles c\<rparr>"
  from ActReject assms show ?thesis
    by (intro exI [of _ "CmdReject (ac_revision c) ?who (ac_comment c) now"])
      (auto simp: perform_def Let_def rbind_Inr_iff go_results)
next
  case ActRollback
  with assms obtain auth new e where "rollback_all (ac_revision c) auth new (ac_actor c) now ord = Inr (ord', e)"
    by (auto simp: perform_def Let_def rbind_Inr_iff dest!: with_authority_Inr)
  then show ?thesis
    by (intro exI [of _ "CmdRollbackAll (ac_revision c) auth new (ac_actor c) now"]) (simp add: changed_Inr)
qed (use assms in \<open>simp add: perform_def Let_def\<close>)

section \<open>Loading and saving\<close>

abbreviation item_tag :: "item \<Rightarrow> string \<times> string" where
  "item_tag i \<equiv> (it_id i, it_conflict_key i)"

lemma load_order_Inr:
  assumes "load_order db_time rd k = Inr ord"
  shows "\<exists>row. fmlookup (rd_orders rd) k = Some row \<and> or_id ord = or_id row \<and> or_status ord = or_status row \<and>
    map item_tag (or_items ord) = map item_tag (or_items row)"
  using assms
  by (auto simp: load_order_def lift_release_Inr restore_order_def clone_order_def reload_order_def comp_def
      clone_item_def reload_item_def split: option.splits if_splits)

definition saved_row :: "order \<Rightarrow> order \<Rightarrow> order" where
  "saved_row st row =
     row\<lparr>or_status := or_status st, or_current := or_current st, or_revision := or_revision st,
         or_updated_at := or_updated_at st, or_updated_by := or_updated_by st, or_completed_at := or_completed_at st,
         or_items := map (save_item st) (or_items row), or_steps := map (save_step st) (or_steps row)\<rparr>"

lemma save_order_Inr:
  assumes "save_order st rd = Inr rd'"
  shows "\<exists>row. fmlookup (rd_orders rd) (or_id st) = Some row \<and>
    rd_orders rd' = fmupd (or_id st) (saved_row st row) (rd_orders rd)"
  using assms by (auto simp: save_order_def rbind_Inr_iff saved_row_def split: option.splits if_splits)

text \<open>What a row keeps for ever, and how its items may change.\<close>

definition item_evolves :: "item \<Rightarrow> item \<Rightarrow> bool" where
  "item_evolves i i' \<longleftrightarrow> it_id i' = it_id i \<and> it_collection i' = it_collection i \<and> it_key i' = it_key i \<and>
     it_conflict_key i' \<in> {it_conflict_key i, []}"

definition order_evolves :: "order \<Rightarrow> order \<Rightarrow> bool" where
  "order_evolves ord ord' \<longleftrightarrow>
     or_id ord' = or_id ord \<and> or_created_by ord' = or_created_by ord \<and>
     or_idempotency_key ord' = or_idempotency_key ord \<and> or_digest ord' = or_digest ord \<and>
     or_scope ord' = or_scope ord \<and> list_all2 item_evolves (or_items ord) (or_items ord')"

lemma order_evolves_refl: "order_evolves ord ord"
  by (simp add: order_evolves_def item_evolves_def list_all2_refl)

lemma order_evolves_trans: "order_evolves a b \<Longrightarrow> order_evolves b c \<Longrightarrow> order_evolves a c"
proof -
  have "item_evolves i k" if "item_evolves i j" "item_evolves j k" for i j k
    using that by (auto simp: item_evolves_def)
  then show "order_evolves a b \<Longrightarrow> order_evolves b c \<Longrightarrow> order_evolves a c"
    by (auto simp: order_evolves_def intro: list_all2_trans)
qed

text \<open>A row is found under its identifier; its items are distinct and hold a key while the order is open.\<close>

definition item_keys :: "order \<Rightarrow> item \<Rightarrow> string set" where
  "item_keys ord i =
     (if or_status ord = OrderInProgress
      then {base_conflict_key (it_collection i) (sc_environment (or_scope ord)) (it_key i),
            overlay_conflict_key (it_collection i) (or_scope ord) (it_key i)}
      else {[]})"

definition row_ok :: "string \<Rightarrow> order \<Rightarrow> bool" where
  "row_ok k ord \<longleftrightarrow>
     or_id ord = k \<and> distinct (map it_id (or_items ord)) \<and>
     (\<forall>i \<in> set (or_items ord). it_conflict_key i \<in> item_keys ord i)"

lemma find_by_id:
  assumes ids: "map it_id ts = map it_id is" and i: "i \<in> set is"
  shows "\<exists>t \<in> set ts. it_id t = it_id i \<and> List.find (\<lambda>t. it_id t = it_id i) (rev ts) = Some t"
proof -
  have "it_id i \<in> set (map it_id ts)" using i unfolding ids by simp
  then have "List.find (\<lambda>t. it_id t = it_id i) (rev ts) \<noteq> None" by (auto simp: find_None_iff)
  then obtain t where t: "List.find (\<lambda>t. it_id t = it_id i) (rev ts) = Some t" by blast
  then have "t \<in> set (rev ts) \<and> it_id t = it_id i" unfolding find_Some_iff by (metis nth_mem)
  then show ?thesis using t by auto
qed

lemma same_tag:
  assumes "map item_tag ts = map item_tag is" "distinct (map it_id is)" "t \<in> set ts" "i \<in> set is" "it_id t = it_id i"
  shows "it_conflict_key t = it_conflict_key i"
proof -
  have "item_tag t \<in> set (map item_tag ts)" using assms(3) by simp
  then have "item_tag t \<in> set (map item_tag is)" by (simp only: assms(1))
  then obtain j where "j \<in> set is" "item_tag t = item_tag j" by auto
  then show ?thesis using assms(2,4,5) by (auto simp: distinct_map dest: inj_onD)
qed

lemma saved_row_ok:
  assumes ok: "row_ok k row" and step: "item_step ord st" and ord: "or_status ord = OrderInProgress"
    and load: "or_id ord = or_id row" "or_status ord = or_status row"
      "map item_tag (or_items ord) = map item_tag (or_items row)"
  shows "row_ok k (saved_row st row) \<and> order_evolves row (saved_row st row)"
proof -
  have ids: "map it_id (or_items st) = map it_id (or_items row)"
  proof -
    have "map it_id (or_items ord) = map it_id (or_items row)"
      using arg_cong [OF load(3), of "map fst"] by (simp add: comp_def)
    then show ?thesis using step by (auto simp: item_step_def drop_keys_def)
  qed
  have dist: "distinct (map it_id (or_items row))" using ok by (simp add: row_ok_def)
  have key: "it_conflict_key t = (if or_status st = OrderInProgress then it_conflict_key i else [])"
    if "t \<in> set (or_items st)" "i \<in> set (or_items row)" "it_id t = it_id i" for t i
    using step that same_tag [OF load(3) dist, of t i] by (auto simp: item_step_def drop_keys_def)
  have one: "item_evolves i (save_item st i) \<and>
      it_conflict_key (save_item st i) = (if or_status st = OrderInProgress then it_conflict_key i else [])"
    if i: "i \<in> set (or_items row)" for i
  proof -
    obtain t where t: "t \<in> set (or_items st)" "it_id t = it_id i"
      "List.find (\<lambda>t. it_id t = it_id i) (rev (or_items st)) = Some t" using find_by_id [OF ids i] by blast
    show ?thesis using key [OF t(1) i t(2)] by (auto simp: save_item_def t(3) item_evolves_def)
  qed
  have same: "it_id (save_item st i) = it_id i" if "i \<in> set (or_items row)" for i
    using one [OF that] by (simp add: item_evolves_def)
  have ids': "map it_id (or_items (saved_row st row)) = map it_id (or_items row)"
    by (simp add: saved_row_def comp_def same cong: map_cong)
  have "order_evolves row (saved_row st row)"
    using one by (simp add: order_evolves_def saved_row_def list_all2_conv_all_nth)
  moreover have "it_conflict_key j \<in> item_keys (saved_row st row) j" if "j \<in> set (or_items (saved_row st row))" for j
  proof -
    from that obtain i where i: "i \<in> set (or_items row)" "j = save_item st i" by (auto simp: saved_row_def)
    have "it_conflict_key i \<in> item_keys row i" using ok i(1) by (simp add: row_ok_def)
    then show ?thesis using one [OF i(1)] ord load(2)
      by (auto simp: i(2) item_keys_def saved_row_def item_evolves_def)
  qed
  moreover have "or_id (saved_row st row) = k" using ok by (simp add: row_ok_def saved_row_def)
  ultimately show ?thesis using dist unfolding row_ok_def ids' by blast
qed

section \<open>The invariant of the tables\<close>

definition orders_ok :: "release_db \<Rightarrow> bool" where
  "orders_ok rd \<longleftrightarrow>
     (\<forall>k ord. fmlookup (rd_orders rd) k = Some ord \<longrightarrow> row_ok k ord) \<and>
     (\<forall>k ord k' ord' i i'. fmlookup (rd_orders rd) k = Some ord \<longrightarrow> fmlookup (rd_orders rd) k' = Some ord' \<longrightarrow>
        i \<in> set (or_items ord) \<longrightarrow> i' \<in> set (or_items ord') \<longrightarrow> it_conflict_key i \<noteq> [] \<longrightarrow>
        it_conflict_key i = it_conflict_key i' \<longrightarrow> k = k' \<and> it_id i = it_id i') \<and>
     (\<forall>k ord k' ord'. fmlookup (rd_orders rd) k = Some ord \<longrightarrow> fmlookup (rd_orders rd) k' = Some ord' \<longrightarrow>
        or_created_by ord = or_created_by ord' \<longrightarrow> or_idempotency_key ord = or_idempotency_key ord' \<longrightarrow> k = k')"

lemma orders_okD:
  assumes "orders_ok rd" "fmlookup (rd_orders rd) k = Some ord" "fmlookup (rd_orders rd) k' = Some ord'"
  shows "row_ok k ord"
    and "i \<in> set (or_items ord) \<Longrightarrow> i' \<in> set (or_items ord') \<Longrightarrow> it_conflict_key i \<noteq> [] \<Longrightarrow>
        it_conflict_key i = it_conflict_key i' \<Longrightarrow> k = k' \<and> it_id i = it_id i'"
    and "or_created_by ord = or_created_by ord' \<Longrightarrow> or_idempotency_key ord = or_idempotency_key ord' \<Longrightarrow> k = k'"
  using assms unfolding orders_ok_def by blast+

definition tables_evolve :: "release_db \<Rightarrow> release_db \<Rightarrow> bool" where
  "tables_evolve rd rd' \<longleftrightarrow>
     (\<forall>k ord. fmlookup (rd_orders rd) k = Some ord \<longrightarrow>
        (\<exists>ord'. fmlookup (rd_orders rd') k = Some ord' \<and> order_evolves ord ord'))"

lemma tables_evolve_refl: "rd_orders rd' = rd_orders rd \<Longrightarrow> tables_evolve rd rd'"
  using order_evolves_refl by (auto simp: tables_evolve_def)

lemma tables_evolve_trans: "tables_evolve a b \<Longrightarrow> tables_evolve b c \<Longrightarrow> tables_evolve a c"
  using order_evolves_trans unfolding tables_evolve_def by meson

lemma orders_ok_cong: "rd_orders rd' = rd_orders rd \<Longrightarrow> orders_ok rd' = orders_ok rd"
  by (simp add: orders_ok_def)

text \<open>A row is replaced by what it evolves to.\<close>

lemma evolved_item:
  assumes "order_evolves row row'" "j \<in> set (or_items row')"
  shows "\<exists>i \<in> set (or_items row). item_evolves i j"
proof -
  have all: "list_all2 item_evolves (or_items row) (or_items row')" using assms(1) by (simp add: order_evolves_def)
  obtain n where n: "n < length (or_items row')" "j = or_items row' ! n" using assms(2) by (auto simp: in_set_conv_nth)
  show ?thesis using list_all2_nthD2 [OF all n(1)] n list_all2_lengthD [OF all] by (metis nth_mem)
qed

lemma orders_ok_replace:
  assumes ok: "orders_ok rd" and row: "fmlookup (rd_orders rd) k = Some row"
    and new: "row_ok k row'" "order_evolves row row'" and rd': "rd_orders rd' = fmupd k row' (rd_orders rd)"
  shows "orders_ok rd' \<and> tables_evolve rd rd'"
proof
  have old: "\<exists>o1. fmlookup (rd_orders rd) q = Some o1 \<and> order_evolves o1 ord \<and> row_ok q ord"
    if "fmlookup (rd_orders rd') q = Some ord" for q ord
    using that row new orders_okD(1) [OF ok] order_evolves_refl by (auto simp: rd' split: if_splits)
  have keys: "q = q' \<and> it_id i = it_id i'"
    if 1: "fmlookup (rd_orders rd') q = Some ord" "i \<in> set (or_items ord)"
      and 2: "fmlookup (rd_orders rd') q' = Some ord'" "i' \<in> set (or_items ord')"
      and same: "it_conflict_key i \<noteq> []" "it_conflict_key i = it_conflict_key i'" for q ord i q' ord' i'
  proof -
    obtain o1 where o1: "fmlookup (rd_orders rd) q = Some o1" "order_evolves o1 ord" using old [OF 1(1)] by blast
    obtain o2 where o2: "fmlookup (rd_orders rd) q' = Some o2" "order_evolves o2 ord'" using old [OF 2(1)] by blast
    obtain j where j: "j \<in> set (or_items o1)" "item_evolves j i" using evolved_item [OF o1(2) 1(2)] by blast
    obtain j' where j': "j' \<in> set (or_items o2)" "item_evolves j' i'" using evolved_item [OF o2(2) 2(2)] by blast
    have "it_conflict_key j \<noteq> []" "it_conflict_key j = it_conflict_key j'"
      using j(2) j'(2) same by (auto simp: item_evolves_def)
    from orders_okD(2) [OF ok o1(1) o2(1) j(1) j'(1) this] show ?thesis
      using j(2) j'(2) by (simp add: item_evolves_def)
  qed
  have requests: "q = q'"
    if "fmlookup (rd_orders rd') q = Some ord" "fmlookup (rd_orders rd') q' = Some ord'"
      "or_created_by ord = or_created_by ord'" "or_idempotency_key ord = or_idempotency_key ord'" for q ord q' ord'
    using old [OF that(1)] old [OF that(2)] orders_okD(3) [OF ok] that(3,4) by (auto simp: order_evolves_def)
  show "orders_ok rd'" unfolding orders_ok_def using old keys requests by blast
  show "tables_evolve rd rd'" using row new(2) order_evolves_refl by (auto simp: tables_evolve_def rd')
qed

section \<open>Inserting\<close>

definition apart :: "item list \<Rightarrow> bool" where
  "apart is \<longleftrightarrow>
     (\<forall>i \<in> set is. \<forall>j \<in> set is. it_conflict_key i \<noteq> [] \<longrightarrow> it_conflict_key i = it_conflict_key j \<longrightarrow> it_id i = it_id j)"

lemma insert_item_Inr:
  "insert_item ex acc i = Inr acc' \<Longrightarrow>
     acc' = acc @ [i] \<and> it_id i \<notin> it_id ` set acc \<and>
     (it_conflict_key i \<noteq> [] \<longrightarrow> it_conflict_key i \<notin> it_conflict_key ` set (ex @ acc))"
  by (auto simp: insert_item_def split: if_splits)

lemma insert_items_append: "rfold (insert_item ex) acc is = Inr acc' \<Longrightarrow> acc' = acc @ is"
  by (induction "is" arbitrary: acc) (fastforce simp: rbind_Inr_iff dest!: insert_item_Inr)+

definition admitted :: "item list \<Rightarrow> item list \<Rightarrow> bool" where
  "admitted ex acc \<longleftrightarrow>
     distinct (map it_id acc) \<and> apart acc \<and>
     (\<forall>i \<in> set acc. it_conflict_key i \<noteq> [] \<longrightarrow> it_conflict_key i \<notin> it_conflict_key ` set ex)"

lemma admitted_snoc:
  assumes "admitted ex acc" "insert_item ex acc i = Inr acc'"
  shows "admitted ex acc'"
proof -
  note i = insert_item_Inr [OF assms(2)]
  have "apart (acc @ [i])"
    unfolding apart_def
  proof (intro ballI impI)
    fix a b
    assume ab: "a \<in> set (acc @ [i])" "b \<in> set (acc @ [i])" "it_conflict_key a \<noteq> []" "it_conflict_key a = it_conflict_key b"
    have new: "it_conflict_key x \<noteq> it_conflict_key i" if "x \<in> set acc" "it_conflict_key i \<noteq> []" for x
    proof
      assume "it_conflict_key x = it_conflict_key i"
      then have "it_conflict_key i \<in> it_conflict_key ` set acc" using that(1) by (metis imageI)
      then show False using i that(2) by auto
    qed
    show "it_id a = it_id b"
    proof (cases "a \<in> set acc \<and> b \<in> set acc")
      case True
      then show ?thesis using assms(1) ab(3,4) unfolding admitted_def apart_def by blast
    next
      case False
      then show ?thesis using ab new [of a] new [of b] by auto
    qed
  qed
  then show ?thesis using i assms(1) by (auto simp: admitted_def)
qed

lemma insert_items:
  assumes "rfold (insert_item ex) [] is = Inr acc"
  shows "admitted ex is"
proof -
  have "admitted ex acc"
    by (rule rfold_invariant [OF assms]) (simp add: admitted_def apart_def, erule admitted_snoc, assumption)
  then show ?thesis using insert_items_append [OF assms] by simp
qed

lemma insert_order_Inr:
  assumes "insert_order ord rd = Inr rd'"
  shows "or_id ord |\<notin>| fmdom (rd_orders rd)"
    and "rd_orders rd' = fmupd (or_id ord) ord (rd_orders rd)"
    and "rd_db rd' = insert_audit (or_created_at ord) (or_created_by ord) ''RELEASE_CREATED'' (or_id ord) (or_scope ord) (rd_db rd)"
    and "rd_results rd' = rd_results rd" "rd_operations rd' = rd_operations rd"
    and "fmlookup (rd_orders rd) k = Some o1 \<Longrightarrow>
      \<not> (or_created_by o1 = or_created_by ord \<and> or_idempotency_key o1 = or_idempotency_key ord)"
    and "rfold (insert_item (stored_items rd)) [] (or_items ord) = Inr (or_items ord)"
proof -
  obtain acc where acc: "rfold (insert_item (stored_items rd)) [] (or_items ord) = Inr acc"
    using assms by (auto simp: insert_order_def Let_def rbind_Inr_iff split: if_splits)
  then show "rfold (insert_item (stored_items rd)) [] (or_items ord) = Inr (or_items ord)"
    using insert_items_append [OF acc] by simp
  show "\<not> (or_created_by o1 = or_created_by ord \<and> or_idempotency_key o1 = or_idempotency_key ord)"
    if "fmlookup (rd_orders rd) k = Some o1"
  proof -
    have "o1 \<in> set (sorted_values (rd_orders rd))" using that by (auto simp: set_sorted_values)
    from imageI [OF this, of "\<lambda>o1. (or_created_by o1, or_idempotency_key o1)"]
    have "(or_created_by o1, or_idempotency_key o1) \<in>
        (\<lambda>o1. (or_created_by o1, or_idempotency_key o1)) ` set (sorted_values (rd_orders rd))" .
    moreover have "(or_created_by ord, or_idempotency_key ord) \<notin>
        (\<lambda>o1. (or_created_by o1, or_idempotency_key o1)) ` set (sorted_values (rd_orders rd))"
      using assms by (auto simp: insert_order_def Let_def split: if_splits)
    ultimately show ?thesis by auto
  qed
qed (use assms in \<open>auto simp: insert_order_def Let_def rbind_Inr_iff split: if_splits\<close>)

lemma stored_itemsI: "fmlookup (rd_orders rd) k = Some o1 \<Longrightarrow> i \<in> set (or_items o1) \<Longrightarrow> i \<in> set (stored_items rd)"
  using set_sorted_values [of o1 "rd_orders rd"] by (auto simp: stored_items_def)

lemma orders_ok_insert:
  assumes ok: "orders_ok rd" and ins: "insert_order ord rd = Inr rd'"
    and keys: "\<forall>i \<in> set (or_items ord). it_conflict_key i \<in> item_keys ord i"
  shows "orders_ok rd' \<and> tables_evolve rd rd'"
proof
  note facts = insert_order_Inr [OF ins]
  have items: "distinct (map it_id (or_items ord))" "apart (or_items ord)"
    "\<And>i. i \<in> set (or_items ord) \<Longrightarrow> it_conflict_key i \<noteq> [] \<Longrightarrow>
       it_conflict_key i \<notin> it_conflict_key ` set (stored_items rd)"
    using insert_items [OF facts(7)] by (auto simp: admitted_def)
  have new: "row_ok (or_id ord) ord" using items(1) keys by (simp add: row_ok_def)
  have fresh: "it_conflict_key i \<noteq> it_conflict_key j"
    if "fmlookup (rd_orders rd) k = Some o1" "j \<in> set (or_items o1)" "i \<in> set (or_items ord)" "it_conflict_key i \<noteq> []" for k o1 i j
    using items(3) [OF that(3,4)] imageI [OF stored_itemsI [OF that(1,2)], of it_conflict_key] by auto
  have own: "it_id i = it_id j"
    if "i \<in> set (or_items ord)" "j \<in> set (or_items ord)" "it_conflict_key i \<noteq> []" "it_conflict_key i = it_conflict_key j" for i j
    using items(2) that unfolding apart_def by blast
  have look: "fmlookup (rd_orders rd') q = Some o1 \<longleftrightarrow>
      (if q = or_id ord then o1 = ord else fmlookup (rd_orders rd) q = Some o1)" for q o1
    by (auto simp: facts(2))
  have "q = q' \<and> it_id i = it_id i'"
    if 1: "fmlookup (rd_orders rd') q = Some o1" "i \<in> set (or_items o1)"
      and 2: "fmlookup (rd_orders rd') q' = Some o2" "i' \<in> set (or_items o2)"
      and same: "it_conflict_key i \<noteq> []" "it_conflict_key i = it_conflict_key i'" for q o1 i q' o2 i'
  proof (cases "q = or_id ord"; cases "q' = or_id ord")
    assume q: "q \<noteq> or_id ord" "q' \<noteq> or_id ord"
    then have old: "fmlookup (rd_orders rd) q = Some o1" "fmlookup (rd_orders rd) q' = Some o2"
      using 1(1) 2(1) by (simp_all add: look)
    show ?thesis by (rule orders_okD(2) [OF ok old 1(2) 2(2) same])
  next
    assume q: "q = or_id ord" "q' \<noteq> or_id ord"
    then show ?thesis using fresh [of q' o2 i' i] 1 2 same by (simp add: look)
  next
    assume q: "q \<noteq> or_id ord" "q' = or_id ord"
    then show ?thesis using fresh [of q o1 i i'] 1 2 same by (simp add: look)
  next
    assume q: "q = or_id ord" "q' = or_id ord"
    then show ?thesis using own [of i i'] 1 2 same by (simp add: look)
  qed
  moreover have "q = q'"
    if "fmlookup (rd_orders rd') q = Some o1" "fmlookup (rd_orders rd') q' = Some o2"
      "or_created_by o1 = or_created_by o2" "or_idempotency_key o1 = or_idempotency_key o2" for q o1 q' o2
  proof (cases "q = or_id ord"; cases "q' = or_id ord")
    assume "q \<noteq> or_id ord" "q' \<noteq> or_id ord"
    then have old: "fmlookup (rd_orders rd) q = Some o1" "fmlookup (rd_orders rd) q' = Some o2"
      using that(1,2) by (simp_all add: look)
    show ?thesis by (rule orders_okD(3) [OF ok old that(3,4)])
  next
    assume "q = or_id ord" "q' \<noteq> or_id ord"
    then show ?thesis using facts(6) [of q' o2] that by (simp add: look)
  next
    assume "q \<noteq> or_id ord" "q' = or_id ord"
    then show ?thesis using facts(6) [of q o1] that by (simp add: look)
  qed simp
  moreover have "row_ok q o1" if "fmlookup (rd_orders rd') q = Some o1" for q o1
    using that new orders_okD(1) [OF ok] by (auto simp: look split: if_splits)
  ultimately show "orders_ok rd'" unfolding orders_ok_def by blast
  show "tables_evolve rd rd'"
    using facts(1) order_evolves_refl by (auto simp: tables_evolve_def look fmlookup_dom_iff)
qed

section \<open>New orders\<close>

text \<open>What the create commands make of an order before it is inserted.\<close>

definition fresh_order :: "string \<Rightarrow> string \<Rightarrow> string \<Rightarrow> order \<Rightarrow> bool" where
  "fresh_order actor key digest ord \<longleftrightarrow>
     or_created_by ord = actor \<and> or_idempotency_key ord = key \<and> or_digest ord = digest \<and>
     or_status ord = OrderInProgress \<and> (\<forall>i \<in> set (or_items ord). it_conflict_key i \<in> item_keys ord i)"

lemma new_base_order_fresh:
  assumes "new_base_final_order spec = Inr ord"
  shows "fresh_order (sp_created_by spec) (sp_idempotency_key spec) (sp_digest spec) ord"
proof -
  let ?sc = "trim_scope (sp_scope spec)"
  from assms obtain items steps where items:
    "rfold (add_base_item (sc_environment ?sc) (bi_collection_revision (hd (sp_items spec)))) [] (sp_items spec) = Inr items"
    "ord = new_order spec ?sc steps items"
    by (auto simp: new_base_final_order_def Let_def rbind_Inr_iff split: if_splits)
  have "\<forall>j \<in> set items. it_conflict_key j = base_conflict_key (it_collection j) (sc_environment ?sc) (it_key j)"
    by (rule rfold_invariant [OF items(1)])
      (auto simp: add_base_item_def Let_def split: option.splits if_splits)
  then show ?thesis by (simp add: items(2) new_order_def fresh_order_def item_keys_def)
qed

lemma new_overlay_order_fresh:
  assumes "new_overlay_final_order spec = Inr ord"
  shows "fresh_order (sp_created_by spec) (sp_idempotency_key spec) (sp_digest spec) ord"
proof -
  let ?sc = "trim_scope (sp_scope spec)"
  from assms obtain items steps where items:
    "rfold (add_overlay_item ?sc) [] (sp_items spec) = Inr items" "ord = new_order spec ?sc steps items"
    by (auto simp: new_overlay_final_order_def Let_def rbind_Inr_iff split: if_splits)
  have "\<forall>j \<in> set items. it_conflict_key j = overlay_conflict_key (it_collection j) ?sc (it_key j)"
    by (rule rfold_invariant [OF items(1)])
      (auto simp: add_overlay_item_def Let_def split: option.splits if_splits)
  then show ?thesis by (simp add: items(2) new_order_def fresh_order_def item_keys_def)
qed

lemma build_order_fresh:
  assumes "build_order env bu c digest now n checked = Inr (ord, n')"
  shows "fresh_order (cc_actor c) (cc_key c) digest ord"
proof (cases "ct_final_effect (bu_template bu) = FinalEffectBase")
  case True
  with assms obtain spec where "new_base_final_order spec = Inr ord" "sp_created_by spec = cc_actor c"
    "sp_idempotency_key spec = cc_key c" "sp_digest spec = digest"
    by (auto simp: build_order_def order_spec_of_def Let_def rbind_Inr_iff)
  then show ?thesis using new_base_order_fresh by metis
next
  case False
  with assms obtain spec where "new_overlay_final_order spec = Inr ord" "sp_created_by spec = cc_actor c"
    "sp_idempotency_key spec = cc_key c" "sp_digest spec = digest"
    by (auto simp: build_order_def order_spec_of_def Let_def rbind_Inr_iff)
  then show ?thesis using new_overlay_order_fresh by metis
qed

lemma build_order_items: "build_order env bu c digest now n checked = Inr (ord, n') \<Longrightarrow> or_items ord \<noteq> []"
  using new_base_final_order_Inr(3) new_overlay_final_order_Inr(1)
  by (fastforce simp: build_order_def Let_def rbind_Inr_iff items_ok_def split: if_splits)

lemma create_new_fresh:
  assumes "create_new env kt bu c digest now n prepared rd = Inr (rd', ord, n')"
  shows "insert_order ord rd = Inr rd' \<and> fresh_order (cc_actor c) (cc_key c) digest ord"
  using assms build_order_fresh
  by (auto simp: create_new_def Let_def rbind_Inr_iff lift_release_Inr split: prod.splits)

lemma create_base_new_fresh:
  assumes "create_base_new env kt bu c digest now n rd = Inr (rd', ord, n')"
  shows "insert_order ord rd = Inr rd' \<and> fresh_order (cb_actor c) (cb_key c) digest ord"
proof -
  from assms obtain spec where "new_base_final_order spec = Inr ord" "sp_created_by spec = cb_actor c"
    "sp_idempotency_key spec = cb_key c" "sp_digest spec = digest" "insert_order ord rd = Inr rd'"
    by (auto simp: create_base_new_def Let_def rbind_Inr_iff lift_release_Inr split: prod.splits if_splits)
  then show ?thesis using new_base_order_fresh by metis
qed

text \<open>
  What a create command is accepted on, before the tables of orders are read, and the digest it is
  compared by.
\<close>

definition accepted ::
  "create_env \<Rightarrow> catalog_tables \<Rightarrow> create_command \<Rightarrow> store_error + catalog_bundle \<times> (canonical_draft \<times> string) list" where
  "accepted env kt c =
     rbind (load_catalog (ce_lib env) kt (cc_model c) (cc_release_type c)) (\<lambda>bu.
     let final = ct_final_effect (bu_template bu)
     in if final \<noteq> FinalEffectBase \<and> final \<noteq> FinalEffectOverlay then Inl (StoreRelease ErrInvalid)
        else if (case cc_required c of None \<Rightarrow> False | Some f \<Rightarrow> final \<noteq> f) then Inl (StoreRelease ErrFailedPrecondition)
        else if final = FinalEffectOverlay \<and>
                (blank (sc_region (cc_scope c)) \<or> blank (sc_environment (cc_scope c)) \<or> blank (sc_stage (cc_scope c)))
        then Inl (StoreRelease ErrInvalid)
        else rbind (rmap (prepare_draft (ce_lib env) bu (sc_environment (cc_scope c))) (cc_items c)) (\<lambda>prepared.
             Inr (bu, prepared)))"

definition request_digest :: "create_command \<Rightarrow> (canonical_draft \<times> string) list \<Rightarrow> string" where
  "request_digest c prepared =
     (if cc_digest c \<noteq> [] then cc_digest c else normalized_release_digest c (map fst prepared))"

lemma create_transaction_accepted:
  "create_transaction env kt c now n rd =
     rbind (accepted env kt c) (\<lambda>(bu, prepared).
       case find_create_result rd (cc_actor c) (cc_key c) of
         Some stored \<Rightarrow>
           if sr_digest stored \<noteq> request_digest c prepared then Inl (StoreRelease ErrIdempotencyKeyReused)
           else Inr (rd, sr_view stored, n)
       | None \<Rightarrow>
           rbind (create_new env kt bu c (request_digest c prepared) now n prepared rd) (\<lambda>(rd', ord, n').
           Inr (rd', project ord, n')))"
proof (cases "load_catalog (ce_lib env) kt (cc_model c) (cc_release_type c)")
  case (Inr bu)
  note load = Inr
  show ?thesis
  proof (cases "rmap (prepare_draft (ce_lib env) bu (sc_environment (cc_scope c))) (cc_items c)")
    case (Inr prepared)
    then show ?thesis
      unfolding create_transaction_def accepted_def load rbind_simps Let_def request_digest_def Inr
      by (simp split: if_split)
  qed (simp add: create_transaction_def accepted_def load Let_def)
qed (simp add: create_transaction_def accepted_def)

lemma create_transaction_Inr:
  assumes "create_transaction env kt c now n rd = Inr (rd', v, n')"
  obtains (replayed) bu prepared stored where "accepted env kt c = Inr (bu, prepared)"
      "find_create_result rd (cc_actor c) (cc_key c) = Some stored" "sr_digest stored = request_digest c prepared"
      "rd' = rd" "v = sr_view stored" "n' = n"
  | (created) bu prepared ord where "accepted env kt c = Inr (bu, prepared)"
      "find_create_result rd (cc_actor c) (cc_key c) = None" "v = project ord"
      "create_new env kt bu c (request_digest c prepared) now n prepared rd = Inr (rd', ord, n')"
proof -
  from assms obtain bu prepared where acc: "accepted env kt c = Inr (bu, prepared)"
    unfolding create_transaction_accepted by (auto simp: rbind_Inr_iff)
  show thesis
  proof (cases "find_create_result rd (cc_actor c) (cc_key c)")
    case None
    then show thesis using assms created [OF acc None] unfolding create_transaction_accepted acc
      by (auto simp: rbind_Inr_iff)
  next
    case (Some stored)
    then show thesis using assms replayed [OF acc Some] unfolding create_transaction_accepted acc
      by (auto split: if_splits)
  qed
qed

lemma create_release_Inr:
  "create_release env kt c now n rd = (rd', Inr (v, n')) \<longleftrightarrow>
     create_command_ok c \<and> create_transaction env kt c now n rd = Inr (rd', v, n')"
  by (auto simp: create_release_def split: sum.splits)

text \<open>A create command changes nothing or inserts one order.\<close>

lemma create_release_cases:
  obtains (same) "fst (create_release env kt c now n rd) = rd"
  | (new) ord digest where "insert_order ord rd = Inr (fst (create_release env kt c now n rd))"
      "fresh_order (cc_actor c) (cc_key c) digest ord"
proof (cases "create_release env kt c now n rd")
  case (Pair rd' r)
  show thesis
  proof (cases r)
    case (Inl e)
    then show thesis using Pair same by (auto simp: create_release_def split: if_splits sum.splits)
  next
    case (Inr t)
    obtain v n' where t: "t = (v, n')" by (cases t)
    have ok: "create_transaction env kt c now n rd = Inr (rd', v, n')"
      using Pair Inr t create_release_Inr by metis
    show thesis
    proof (cases rule: create_transaction_Inr [OF ok])
      case (1 bu prepared stored)
      then show thesis using same Pair by simp
    next
      case (2 bu prepared ord)
      then show thesis using new create_new_fresh [OF 2(4)] Pair by auto
    qed
  qed
qed

lemma create_base_final_cases:
  obtains (same) "fst (create_base_final env kt c now n rd) = rd"
  | (new) ord digest where "insert_order ord rd = Inr (fst (create_base_final env kt c now n rd))"
      "fresh_order (cb_actor c) (cb_key c) digest ord"
proof (cases "create_base_transaction env kt (c\<lparr>cb_release_type := base_release_type c\<rparr>) now n rd")
  case (Inl e)
  then show ?thesis using same by (simp add: create_base_final_def)
next
  case (Inr t)
  obtain rd' v n' where t: "t = (rd', v, n')" by (cases t)
  then have res: "fst (create_base_final env kt c now n rd) = rd' \<or> fst (create_base_final env kt c now n rd) = rd"
    using Inr by (simp add: create_base_final_def)
  from Inr t have "rd' = rd \<or> (\<exists>ord digest. insert_order ord rd = Inr rd' \<and> fresh_order (cb_actor c) (cb_key c) digest ord)"
    using create_base_new_fresh
    by (fastforce simp: create_base_transaction_def Let_def rbind_Inr_iff split: if_splits option.splits)
  then show ?thesis using same new res by metis
qed

lemma act_transaction_Inr:
  assumes "act_transaction db_time c now rd = Inr (rd', v, e)"
  shows "rd' = rd \<or>
    (\<exists>ord st db' keys rd1. load_order db_time rd (ac_order c) = Inr ord \<and>
       perform db_time c now ord (rd_db rd) = Inr (st, db', keys) \<and>
       save_order st (rd\<lparr>rd_db := db'\<rparr>) = Inr rd1 \<and> rd_orders rd' = rd_orders rd1)"
proof (cases "rd' = rd")
  case False
  obtain ord where ord: "load_order db_time rd (ac_order c) = Inr ord"
    using assms by (auto simp: act_transaction_def rbind_Inr_iff)
  with assms False have new: "fmlookup (rd_results rd) (ac_order c, ac_request c) = None"
    by (auto simp: act_transaction_def split: option.splits if_splits)
  with assms ord obtain st db' keys where st: "perform db_time c now ord (rd_db rd) = Inr (st, db', keys)"
    by (auto simp: act_transaction_def rbind_Inr_iff split: if_splits)
  with assms ord new obtain rd1 where "save_order st (rd\<lparr>rd_db := db'\<rparr>) = Inr rd1" "rd_orders rd' = rd_orders rd1"
    by (auto simp: act_transaction_def rbind_Inr_iff Let_def record_action_def split: if_splits)
  then show ?thesis using ord st by blast
qed simp

lemma act_cases:
  obtains (same) "rd_orders (fst (act db_time c now rd)) = rd_orders rd"
  | (saved) row ord st cmd where "fmlookup (rd_orders rd) (ac_order c) = Some row"
      "load_order db_time rd (ac_order c) = Inr ord" "apply_command cmd ord = Inr st"
      "\<exists>row1. fmlookup (rd_orders rd) (or_id st) = Some row1 \<and>
         rd_orders (fst (act db_time c now rd)) = fmupd (or_id st) (saved_row st row1) (rd_orders rd)"
proof (cases "fst (act db_time c now rd) = rd")
  case True
  then show ?thesis using same by simp
next
  case False
  then obtain rd' v e where t: "act_transaction db_time c now rd = Inr (rd', v, e)" "fst (act db_time c now rd) = rd'"
    by (auto simp: act_def split: if_splits sum.splits prod.splits option.splits)
  then obtain ord st db' keys rd1 where ord: "load_order db_time rd (ac_order c) = Inr ord"
    and st: "perform db_time c now ord (rd_db rd) = Inr (st, db', keys)" "save_order st (rd\<lparr>rd_db := db'\<rparr>) = Inr rd1"
      "rd_orders rd' = rd_orders rd1"
    using act_transaction_Inr [OF t(1)] False by blast
  obtain row where row: "fmlookup (rd_orders rd) (ac_order c) = Some row" using load_order_Inr [OF ord] by blast
  obtain cmd where cmd: "apply_command cmd ord = Inr st" using perform_command [OF st(1)] by blast
  show ?thesis using saved [OF row ord cmd] save_order_Inr [OF st(2)] st(3) t(2) by simp
qed

section \<open>Histories\<close>

text \<open>
  One step of the tables: a command, or a change that another service makes to the configuration.
  A compensation with other work between its transactions is that work and then a \<open>create\<close>.
\<close>

inductive release_step :: "(gotime \<Rightarrow> gotime) \<Rightarrow> release_db \<Rightarrow> release_db \<Rightarrow> bool" for db_time where
  create: "release_step db_time rd (fst (create_release env kt c now n rd))"
| create_base: "release_step db_time rd (fst (create_base_final env kt cb now n rd))"
| compensate: "release_step db_time rd (fst (create_compensating env db_time kt ck now n id rd))"
| act: "release_step db_time rd (fst (act db_time ac now rd))"
| configure: "release_step db_time rd (rd\<lparr>rd_db := db\<rparr>)"

inductive_cases release_stepE: "release_step db_time rd rd'"

lemma act_preserves:
  assumes ok: "orders_ok rd"
  shows "orders_ok (fst (act db_time c now rd)) \<and> tables_evolve rd (fst (act db_time c now rd))"
proof (cases rule: act_cases [of db_time c now rd])
  case same
  then show ?thesis using ok orders_ok_cong tables_evolve_refl by blast
next
  case (saved row ord st cmd)
  obtain row' where load: "fmlookup (rd_orders rd) (ac_order c) = Some row'" "or_id ord = or_id row'"
    "or_status ord = or_status row'" "map item_tag (or_items ord) = map item_tag (or_items row')"
    using load_order_Inr [OF saved(2)] by blast
  have row: "row_ok (ac_order c) row'" using orders_okD(1) [OF ok load(1) load(1)] .
  have step: "item_step ord st" using apply_command_items [OF saved(3)] .
  then have id: "or_id st = ac_order c" using row load(2) by (simp add: item_step_def row_ok_def)
  have new: "row_ok (ac_order c) (saved_row st row') \<and> order_evolves row' (saved_row st row')"
    using saved_row_ok [OF row step apply_command_open [OF saved(3)] load(2-4)] .
  show ?thesis by (rule orders_ok_replace [OF ok load(1) conjunct1 [OF new] conjunct2 [OF new]])
    (use saved(4) load(1) id in auto)
qed

lemma inserted_preserves:
  assumes "orders_ok rd" "insert_order ord rd = Inr rd'" "fresh_order actor key digest ord"
  shows "orders_ok rd' \<and> tables_evolve rd rd'"
  using orders_ok_insert [OF assms(1,2)] assms(3) by (simp add: fresh_order_def)

lemma create_release_preserves:
  assumes ok: "orders_ok rd"
  shows "orders_ok (fst (create_release env kt c now n rd)) \<and> tables_evolve rd (fst (create_release env kt c now n rd))"
proof (cases rule: create_release_cases [of env kt c now n rd])
  case same
  then show ?thesis using ok tables_evolve_refl by simp
next
  case (new ord digest)
  then show ?thesis using inserted_preserves [OF ok] by blast
qed

lemma create_base_final_preserves:
  assumes ok: "orders_ok rd"
  shows "orders_ok (fst (create_base_final env kt c now n rd)) \<and>
    tables_evolve rd (fst (create_base_final env kt c now n rd))"
proof (cases rule: create_base_final_cases [of env kt c now n rd])
  case same
  then show ?thesis using ok tables_evolve_refl by simp
next
  case (new ord digest)
  then show ?thesis using inserted_preserves [OF ok] by blast
qed

lemma create_compensating_preserves:
  assumes ok: "orders_ok rd"
  shows "orders_ok (fst (create_compensating env db_time kt c now n id rd)) \<and>
    tables_evolve rd (fst (create_compensating env db_time kt c now n id rd))"
proof -
  have "orders_ok rd \<and> tables_evolve rd rd" using ok tables_evolve_refl by simp
  then show ?thesis using create_release_preserves [OF ok]
    by (auto simp: create_compensating_def Let_def split: sum.splits)
qed

lemma release_step_preserves:
  "release_step db_time rd rd' \<Longrightarrow> orders_ok rd \<Longrightarrow> orders_ok rd' \<and> tables_evolve rd rd'"
proof (induction rule: release_step.induct)
  case (configure rd db)
  then show ?case using orders_ok_cong [of "rd\<lparr>rd_db := db\<rparr>" rd] tables_evolve_refl by simp
qed (simp_all add: act_preserves create_release_preserves create_base_final_preserves create_compensating_preserves)

lemma release_steps_preserve:
  assumes "(release_step db_time)\<^sup>*\<^sup>* rd rd'" "orders_ok rd"
  shows "orders_ok rd' \<and> tables_evolve rd rd'"
  using assms
proof (induction rule: rtranclp_induct)
  case base
  then show ?case using tables_evolve_refl by simp
next
  case (step a b)
  then show ?case using release_step_preserves [OF step(2)] tables_evolve_trans by blast
qed

lemma orders_ok_empty: "rd_orders rd = fmempty \<Longrightarrow> orders_ok rd"
  by (simp add: orders_ok_def)

end
