(* ===== verification/Create_Facts.thy ===== *)
theory Create_Facts
  imports Release_Histories
begin

text \<open>
  What the claims about creating releases rest on: the order a request finds, and the items of a
  new order against the drafts and records they were made from.
\<close>

section \<open>Finding the order of a request\<close>

lemma find_create_Some:
  assumes "find_create_result rd actor key = Some stored"
  shows "\<exists>k ord. fmlookup (rd_orders rd) k = Some ord \<and> or_created_by ord = actor \<and> or_idempotency_key ord = key \<and>
    stored = \<lparr>sr_digest = or_digest ord, sr_view = stored_view ord\<rparr>"
proof -
  let ?P = "\<lambda>ord. or_created_by ord = actor \<and> or_idempotency_key ord = key"
  from assms obtain ord where ord: "List.find ?P (sorted_values (rd_orders rd)) = Some ord"
    "stored = \<lparr>sr_digest = or_digest ord, sr_view = stored_view ord\<rparr>"
    by (auto simp: find_create_result_def)
  from ord(1) have "ord \<in> set (sorted_values (rd_orders rd)) \<and> ?P ord" unfolding find_Some_iff by (metis nth_mem)
  then show ?thesis using ord(2) unfolding set_sorted_values by blast
qed

lemma find_created:
  assumes ok: "orders_ok rd" and row: "fmlookup (rd_orders rd) k = Some ord"
    and request: "or_created_by ord = actor" "or_idempotency_key ord = key"
  shows "find_create_result rd actor key = Some \<lparr>sr_digest = or_digest ord, sr_view = stored_view ord\<rparr>"
proof (cases "find_create_result rd actor key")
  case None
  have "ord \<in> set (sorted_values (rd_orders rd))" unfolding set_sorted_values using row by blast
  then show ?thesis using None request by (auto simp: find_create_result_def find_None_iff)
next
  case (Some stored)
  then obtain k1 o1 where o1: "fmlookup (rd_orders rd) k1 = Some o1" "or_created_by o1 = actor"
    "or_idempotency_key o1 = key" "stored = \<lparr>sr_digest = or_digest o1, sr_view = stored_view o1\<rparr>"
    using find_create_Some [OF Some] by blast
  have "k1 = k" using orders_okD(3) [OF ok o1(1) row] o1(2,3) request by simp
  then show ?thesis using o1 row Some by simp
qed

lemma view_id [simp]: "ov_id (project ord) = or_id ord" "ov_id (stored_view ord) = or_id ord"
  by (simp_all add: project_def stored_view_def apply_capabilities_def set_capabilities_def Let_def)

text \<open>What the accepted command leaves in the tables is found by it.\<close>

lemma created_row:
  assumes ok: "orders_ok rd" and run: "create_release env kt c now n rd = (rd', Inr (v, n'))"
  shows "\<exists>ord bu prepared. accepted env kt c = Inr (bu, prepared) \<and> fmlookup (rd_orders rd') (ov_id v) = Some ord \<and>
    or_created_by ord = cc_actor c \<and> or_idempotency_key ord = cc_key c \<and> or_digest ord = request_digest c prepared"
proof -
  from run have t: "create_transaction env kt c now n rd = Inr (rd', v, n')" by (simp add: create_release_Inr)
  show ?thesis
  proof (cases rule: create_transaction_Inr [OF t])
    case (1 bu prepared stored)
    obtain k ord where ord: "fmlookup (rd_orders rd) k = Some ord" "or_created_by ord = cc_actor c"
      "or_idempotency_key ord = cc_key c" "stored = \<lparr>sr_digest = or_digest ord, sr_view = stored_view ord\<rparr>"
      using find_create_Some [OF 1(2)] by blast
    have "or_id ord = k" using orders_okD(1) [OF ok ord(1) ord(1)] by (simp add: row_ok_def)
    then show ?thesis using 1 ord by auto
  next
    case (2 bu prepared ord)
    note new = create_new_fresh [OF 2(4)]
    have "fmlookup (rd_orders rd') (or_id ord) = Some ord" using insert_order_Inr(2) [of ord rd rd'] new by simp
    then show ?thesis using 2 new by (auto simp: fresh_order_def)
  qed
qed

definition release_history :: "(gotime \<Rightarrow> gotime) \<Rightarrow> release_db \<Rightarrow> bool" where
  "release_history db_time rd \<longleftrightarrow> (\<exists>start. rd_orders start = fmempty \<and> (release_step db_time)\<^sup>*\<^sup>* start rd)"

lemma release_history_ok: "release_history db_time rd \<Longrightarrow> orders_ok rd"
  using release_steps_preserve orders_ok_empty unfolding release_history_def by blast

section \<open>The items of a new order\<close>

text \<open>An item against the draft it was made from and the records that were current.\<close>

definition item_shows :: "config_record option \<times> config_record option \<times> canonical_draft \<Rightarrow> item \<Rightarrow> bool" where
  "item_shows x i =
     (case x of (base, effective, k) \<Rightarrow>
        it_base_before i = map_option clone_record base \<and> it_effective_before i = map_option clone_record effective \<and>
        it_collection_revision i = kd_collection_revision k \<and> it_record_revision i = kd_record_revision k \<and>
        (case first_some (kd_after k) effective of None \<Rightarrow> False | Some target \<Rightarrow> it_key i = cr_key target))"

lemma rfold_append_items:
  assumes "rfold f acc xs = Inr items"
    and "\<And>acc x acc'. x \<in> set xs \<Longrightarrow> f acc x = Inr acc' \<Longrightarrow> \<exists>i. acc' = acc @ [i] \<and> P x i"
  shows "\<exists>built. items = acc @ built \<and> list_all2 P xs built"
  using assms
proof (induction xs arbitrary: acc)
  case (Cons x xs)
  then obtain acc' where acc': "f acc x = Inr acc'" "rfold f acc' xs = Inr items" by (auto simp: rbind_Inr_iff)
  obtain i where i: "acc' = acc @ [i]" "P x i" using Cons.prems(2) [OF _ acc'(1)] by auto
  obtain built where "items = acc' @ built" "list_all2 P xs built"
    using Cons.IH [OF acc'(2)] Cons.prems(2) by (metis list.set_intros(2))
  then show ?case using i by (intro exI [of _ "i # built"]) simp
qed simp

lemma add_base_item_shows:
  assumes "add_base_item environment revision items (base_item_of identity b e k) = Inr items'"
    and "valid_base_transition (kd_action k) b e (kd_after k)"
  shows "\<exists>i. items' = items @ [i] \<and> item_shows (b, e, k) i"
  using assms
  by (cases "kd_action k"; cases "kd_after k")
    (auto simp: add_base_item_def base_item_of_def base_item_target_def base_item_action_def valid_base_transition_def
      item_shows_def first_some_def Let_def split: option.splits if_splits)

lemma add_overlay_item_shows:
  assumes "add_overlay_item sc items (overlay_item_of identity b e k) = Inr items'"
  shows "\<exists>i. items' = items @ [i] \<and> item_shows (b, e, k) i"
  using assms
  by (auto simp: add_overlay_item_def overlay_item_of_def item_shows_def first_some_def Let_def
      split: option.splits if_splits)

lemma rfold_map: "rfold f acc (map g xs) = rfold (\<lambda>a x. f a (g x)) acc xs"
  by (induction xs arbitrary: acc) simp_all

lemma list_all2_enumerate:
  "list_all2 (\<lambda>(j, x) i. P x i) (enumerate n xs) ys \<longleftrightarrow> list_all2 P xs ys"
  by (auto simp: list_all2_conv_all_nth nth_enumerate_eq)

lemma in_enumerate: "(j, x) \<in> set (enumerate n xs) \<Longrightarrow> x \<in> set xs"
  by (auto simp: enumerate_eq_zip dest: set_zip_rightD)

lemma build_order_shows:
  assumes build: "build_order env bu c digest now n checked = Inr (ord, n')"
    and valid: "\<And>b e k. (b, e, k) \<in> set checked \<Longrightarrow> create_transition bu (kd_action k) b e (kd_after k)"
  shows "list_all2 item_shows checked (or_items ord)"
proof (cases "ct_final_effect (bu_template bu) = FinalEffectBase")
  case True
  from build True obtain f g where
    "rfold (\<lambda>acc x. add_base_item f g acc ((\<lambda>(j, b, e, k). base_item_of (ce_id env (n + 1 + j)) b e k) x)) [] (enumerate 0 checked)
       = Inr (or_items ord)"
    by (auto simp: build_order_def order_spec_of_def new_base_final_order_def new_order_def Let_def rbind_Inr_iff rfold_map
        split: if_splits)
  then have "\<exists>built. or_items ord = [] @ built \<and> list_all2 (\<lambda>(j, x) i. item_shows x i) (enumerate 0 checked) built"
    by (rule rfold_append_items)
      (use valid True in \<open>auto simp: create_transition_def dest!: in_enumerate intro: add_base_item_shows\<close>)
  then show ?thesis by (simp add: list_all2_enumerate)
next
  case False
  from build False obtain sc where
    "rfold (\<lambda>acc x. add_overlay_item sc acc ((\<lambda>(j, b, e, k). overlay_item_of (ce_id env (n + j)) b e k) x)) [] (enumerate 0 checked)
       = Inr (or_items ord)"
    by (auto simp: build_order_def order_spec_of_def new_overlay_final_order_def new_order_def Let_def rbind_Inr_iff rfold_map
        split: if_splits)
  then have "\<exists>built. or_items ord = [] @ built \<and> list_all2 (\<lambda>(j, x) i. item_shows x i) (enumerate 0 checked) built"
    by (rule rfold_append_items) (auto dest!: add_overlay_item_shows)
  then show ?thesis by (simp add: list_all2_enumerate)
qed

text \<open>The key a draft is filed under is that of the records it submits.\<close>

definition draft_keyed :: "canonical_draft \<times> string \<Rightarrow> bool" where
  "draft_keyed p =
     (case p of (k, key) \<Rightarrow> absent_or (\<lambda>r. cr_key r = key) (kd_after k) \<and> absent_or (\<lambda>r. cr_key r = key) (kd_effective k))"

lemma prepare_draft_keyed:
  assumes "prepare_draft lib bu environment d = Inr p"
  shows "draft_keyed p"
proof -
  let ?differs = "\<lambda>target r. case r of None \<Rightarrow> False | Some x \<Rightarrow> cr_key x \<noteq> cr_key target"
  obtain preserved base effective after where rest:
    "(case first_some after (first_some effective base) of
        None \<Rightarrow> Inl (StoreRelease ErrInvalid)
      | Some target \<Rightarrow>
          if list_ex (?differs target) [base, effective, after] then Inl (StoreRelease ErrInvalid)
          else Inr (\<lparr>kd_action = dr_action d, kd_base = base, kd_effective = effective, kd_after = after,
                     kd_record_revision = dr_record_revision d,
                     kd_collection_revision = dr_collection_revision d, kd_preserve = preserved\<rparr>, cr_key target)) = Inr p"
    using assms unfolding prepare_draft_def Let_def rbind_Inr_iff by (elim exE conjE) (rule that)
  show ?thesis
  proof (cases "first_some after (first_some effective base)")
    case None
    then show ?thesis using rest by simp
  next
    case (Some target)
    from rest [unfolded Some option.case if_Inl_Inr_iff] show ?thesis by (cases p) (auto simp: draft_keyed_def absent_or_def split: option.splits)
  qed
qed

lemma generate_draft_keyed:
  assumes "generate_draft env bu c now (fin, n) (d, p) = Inr (fin', n')" "draft_keyed p" "list_all draft_keyed fin"
  shows "list_all draft_keyed fin' \<and> length fin' = Suc (length fin)"
  using assms
  by (cases p)
    (auto simp: generate_draft_def Let_def rbind_Inr_iff draft_keyed_def absent_or_def go_results
      split: option.splits if_splits prod.splits)

lemma generated_keyed:
  assumes "rfold (generate_draft env bu c now) (fin, n) xs = Inr (drafts, n')"
    and "list_all (draft_keyed \<circ> snd) xs" "list_all draft_keyed fin"
  shows "list_all draft_keyed drafts \<and> length drafts = length fin + length xs"
  using assms
proof (induction xs arbitrary: "fin" n)
  case (Cons x xs)
  obtain d p where x: "x = (d, p)" by (cases x)
  from Cons.prems(1) obtain done1 n1 where step: "generate_draft env bu c now (fin, n) (d, p) = Inr (done1, n1)"
    "rfold (generate_draft env bu c now) (done1, n1) xs = Inr (drafts, n')"
    by (auto simp: rbind_Inr_iff x)
  have one: "list_all draft_keyed done1 \<and> length done1 = Suc (length fin)"
    by (rule generate_draft_keyed [OF step(1)]) (use Cons.prems(2,3) x in auto)
  show ?case using Cons.IH [OF step(2)] Cons.prems(2) one by simp
qed simp

lemma check_draft_Inr:
  assumes "check_draft m options auth transition base effective raw = Inr k"
  shows "bt_revision auth = kd_collection_revision k" "same_record_data effective (kd_effective k)"
    "record_revision_of base = kd_record_revision k" "transition (kd_action k) base effective (kd_after k)"
    "map_option cr_key (kd_after k) = map_option cr_key (kd_after raw)"
    "map_option cr_key (kd_effective k) = map_option cr_key (kd_effective raw)"
proof -
  from assms have hyd: "hydrate_preserved raw base effective = Some k"
    by (auto simp: check_draft_def split: option.splits if_splits)
  then show "map_option cr_key (kd_after k) = map_option cr_key (kd_after raw)"
    "map_option cr_key (kd_effective k) = map_option cr_key (kd_effective raw)"
    by (auto simp: hydrate_preserved_def set_data_def split: if_splits option.splits)
qed (use assms in \<open>auto simp: check_draft_def split: option.splits if_splits\<close>)

text \<open>An item and the state it was checked against.\<close>

definition item_current :: "base_authority \<Rightarrow> config_record list \<Rightarrow> item \<Rightarrow> bool" where
  "item_current auth effective i \<longleftrightarrow>
     it_base_before i = map_option clone_record (bt_records auth (it_key i)) \<and>
     it_effective_before i = map_option clone_record (record_of_key effective (it_key i)) \<and>
     it_collection_revision i = bt_revision auth \<and>
     it_record_revision i = record_revision_of (bt_records auth (it_key i))"

lemma checked_item_current:
  assumes check: "check_draft m options auth transition (bt_records auth key) (record_of_key effective key) k = Inr k'"
    and seen: "item_shows (bt_records auth key, record_of_key effective key, k') i" and keyed: "draft_keyed (k, key)"
  shows "it_key i = key \<and> item_current auth effective i"
proof -
  note facts = check_draft_Inr [OF check]
  have "it_key i = key"
  proof (cases "kd_after k'")
    case (Some a)
    then have "cr_key a = key" using facts(5) keyed by (auto simp: draft_keyed_def absent_or_def split: option.splits)
    then show ?thesis using seen Some by (simp add: item_shows_def first_some_def)
  next
    case None
    then obtain e where e: "record_of_key effective key = Some e" "it_key i = cr_key e"
      using seen by (auto simp: item_shows_def first_some_def split: option.splits)
    then have "cr_key e = key" using facts(2,6) keyed
      by (auto simp: draft_keyed_def absent_or_def same_record_data_def split: option.splits)
    then show ?thesis using e by simp
  qed
  then show ?thesis using seen facts(1,3) by (auto simp: item_shows_def item_current_def)
qed

lemma create_new_items:
  assumes new: "create_new env kt bu c digest now n prepared rd = Inr (rd', ord, n')"
    and keyed: "list_all draft_keyed prepared" "length prepared = length (cc_items c)"
  shows "\<exists>auth effective.
    load_base_authority (rd_db rd) (cd_name (bu_definition bu)) (sc_environment (cc_scope c)) (map it_key (or_items ord))
      = Inr auth \<and>
    effective_records (rd_db rd) (cd_name (bu_definition bu)) (cc_scope c) auth (map it_key (or_items ord)) = Inr effective \<and>
    length (or_items ord) = length (cc_items c) \<and> list_all (item_current auth effective) (or_items ord)"
proof -
  let ?col = "cd_name (bu_definition bu)" and ?sc = "cc_scope c"
  from new obtain drafts n1 auth options effective checked n2 where
    gen: "rfold (generate_draft env bu c now) ([], n) (zip (cc_items c) prepared) = Inr (drafts, n1)" and
    auth: "load_base_authority (rd_db rd) ?col (sc_environment ?sc) (map snd drafts) = Inr auth" and
    eff: "effective_records (rd_db rd) ?col ?sc auth (map snd drafts) = Inr effective" and
    checked: "rmap (\<lambda>(k, key). rbind (check_draft (bu_model bu) options auth (create_transition bu) (bt_records auth key)
        (record_of_key effective key) k) (\<lambda>k'. Inr (bt_records auth key, record_of_key effective key, k'))) drafts = Inr checked" and
    build: "build_order env bu c digest now n1 checked = Inr (ord, n2)"
    by (auto simp: create_new_def Let_def rbind_Inr_iff lift_release_Inr split: prod.splits)
  have "list_all (draft_keyed \<circ> snd) (zip (cc_items c) prepared)"
    using keyed(1) by (auto simp: list_all_iff dest: set_zip_rightD)
  then have drafts: "list_all draft_keyed drafts \<and> length drafts = length (zip (cc_items c) prepared)"
    using generated_keyed [OF gen] by simp
  have each: "\<exists>k'. checked ! j = (bt_records auth (snd (drafts ! j)), record_of_key effective (snd (drafts ! j)), k') \<and>
      check_draft (bu_model bu) options auth (create_transition bu) (bt_records auth (snd (drafts ! j)))
        (record_of_key effective (snd (drafts ! j))) (fst (drafts ! j)) = Inr k'" if "j < length drafts" for j
    using rmap_nth [OF checked that] by (cases "drafts ! j") (auto simp: rbind_Inr_iff)
  have valid: "create_transition bu (kd_action k) b e (kd_after k)" if mem: "(b, e, k) \<in> set checked" for b e k
  proof -
    obtain j where "j < length drafts" "checked ! j = (b, e, k)"
      using mem rmap_length [OF checked] by (auto simp: in_set_conv_nth)
    then show ?thesis using each [of j] check_draft_Inr(4) by fastforce
  qed
  have shows_all: "list_all2 item_shows checked (or_items ord)" by (rule build_order_shows [OF build valid])
  have item: "it_key (or_items ord ! j) = snd (drafts ! j) \<and> item_current auth effective (or_items ord ! j)"
    if j: "j < length drafts" for j
  proof -
    have "draft_keyed (fst (drafts ! j), snd (drafts ! j))" using drafts j by (simp add: list_all_length)
    moreover have "item_shows (checked ! j) (or_items ord ! j)"
      using list_all2_nthD [OF shows_all] j rmap_length [OF checked] by simp
    ultimately show ?thesis using each [OF j] checked_item_current by (elim exE conjE) simp
  qed
  have len: "length (or_items ord) = length drafts" using list_all2_lengthD [OF shows_all] rmap_length [OF checked] by simp
  then have "map it_key (or_items ord) = map snd drafts" using item by (intro nth_equalityI) simp_all
  then show ?thesis using auth eff len item drafts keyed(2) by (auto simp: list_all_length)
qed

text \<open>A command that finds no earlier order and succeeds has inserted one.\<close>

lemma create_release_new:
  assumes run: "create_release env kt c now n rd = (rd', Inr (v, n'))"
    and new: "find_create_result rd (cc_actor c) (cc_key c) = None"
  obtains bu prepared ord where "load_catalog (ce_lib env) kt (cc_model c) (cc_release_type c) = Inr bu"
    "list_all draft_keyed prepared" "length prepared = length (cc_items c)" "v = project ord"
    "create_new env kt bu c (request_digest c prepared) now n prepared rd = Inr (rd', ord, n')"
    "insert_order ord rd = Inr rd'"
proof -
  from run have t: "create_transaction env kt c now n rd = Inr (rd', v, n')" by (simp add: create_release_Inr)
  show thesis
  proof (cases rule: create_transaction_Inr [OF t])
    case (1 bu prepared stored)
    then show thesis using new by simp
  next
    case (2 bu prepared ord)
    have load: "load_catalog (ce_lib env) kt (cc_model c) (cc_release_type c) = Inr bu"
      and prep: "rmap (prepare_draft (ce_lib env) bu (sc_environment (cc_scope c))) (cc_items c) = Inr prepared"
      using 2(1) by (auto simp: accepted_def Let_def rbind_Inr_iff split: if_splits)
    have "list_all draft_keyed prepared"
      using rmap_in_set [OF prep] prepare_draft_keyed unfolding list_all_iff by blast
    then show thesis using that [OF load _ rmap_length [OF prep] 2(3,4)] create_new_fresh [OF 2(4)] by blast
  qed
qed

text \<open>The rows of the items are checked as they are inserted.\<close>

lemma inserted_rows_ok: "rfold (insert_item ex) acc is = Inr acc' \<Longrightarrow> list_all item_row_ok is"
  by (induction "is" arbitrary: acc) (auto simp: rbind_Inr_iff insert_item_def split: if_splits)

end
