(* ===== verification/Create_Properties.thy ===== *)
theory Create_Properties
  imports Model_Properties Release_Properties Create_Facts
begin

text \<open>
  The claims about creating releases (\<open>internal/release/application/service.go\<close>): repeated
  requests, exclusive orders, and what a new order shows of the current state.
\<close>

section \<open>A sample release\<close>

text \<open>The witnesses need no digest: what they compare is the digest of the command.\<close>

declare sha256_def [code del]

definition create_spec :: model_spec where
  "create_spec =
     sample_model_spec\<lparr>ms_fields := [sample_model_field ''code'' FieldTypeString True,
       (sample_model_field ''amount'' FieldTypeInt64 False)\<lparr>mf_editable := False\<rparr>]\<rparr>"

definition create_tables :: catalog_tables where
  "create_tables =
     \<lparr>kt_collections = fmap_of_list [(''limits'', \<lparr>cw_spec = sample_spec, cw_enabled = True\<rparr>)],
      kt_models = fmap_of_list [(''limit_editor'', \<lparr>mw_spec = create_spec, mw_enabled = True\<rparr>)],
      kt_templates = fmap_of_list [((''limit_editor'', ''std''),
        \<lparr>tw_code = ''std_v1'', tw_version = 1, tw_effect = FinalEffectBase, tw_document = sample_template_document\<rparr>)]\<rparr>"

definition create_sample_env :: create_env where
  "create_sample_env =
     \<lparr>ce_lib = sample_lib, ce_format_time = (\<lambda>_. ''t''), ce_id = (\<lambda>n. ''id'' @ replicate n CHR ''x''),
      ce_number = (\<lambda>n _. ''R'' @ replicate n CHR ''x'')\<rparr>"

definition create_sample :: create_command where
  "create_sample =
     \<lparr>cc_key = ''req'', cc_model = ''limit_editor'', cc_release_type = ''std'', cc_description = [],
      cc_scope = sample_place, cc_actor = ''ann'', cc_actor_name = ''Ann'',
      cc_items = [\<lparr>dr_action = ActionAdd, dr_base_before = None, dr_effective_before = None,
        dr_after = Some (fmap_of_list [(''code'', ''usd'')]), dr_record_revision = 0, dr_collection_revision = 3,
        dr_preserve = []\<rparr>],
      cc_digest = replicate 64 CHR ''0'', cc_compensates = [], cc_required = None\<rparr>"

definition create_start :: release_db where
  "create_start =
     \<lparr>rd_db = \<lparr>db_counter = Some 3, db_records = fmempty, db_rules = fmempty,
        db_versions = fmap_of_list [((''limits'', ''prod''),
          \<lparr>vr_revision = 3, vr_base_digest = [], vr_overlay_digest = [], vr_order = [], vr_at = 0\<rparr>)],
        db_log = [], db_events = [], db_audit = []\<rparr>,
      rd_orders = fmempty, rd_results = fmempty, rd_operations = []\<rparr>"

lemma create_sample_runs: "is_ok (create_transaction create_sample_env create_tables create_sample 10 0 create_start)"
  by (code_simp, simp add: persisted_step_code_def)

lemma create_sample_created:
  "\<exists>rd' v n'. create_release create_sample_env create_tables create_sample 10 0 create_start = (rd', Inr (v, n'))"
proof -
  from create_sample_runs obtain rd' v n'
    where "create_transaction create_sample_env create_tables create_sample 10 0 create_start = Inr (rd', v, n')"
    by (auto simp: is_ok_iff)
  moreover have "create_command_ok create_sample" by code_simp
  ultimately show ?thesis using create_release_Inr by blast
qed

lemma create_start_history: "release_history db_time create_start"
  unfolding release_history_def by (intro exI [of _ create_start]) (simp add: create_start_def)

lemma create_start_empty: "find_create_result create_start a b = None"
  by (simp add: find_create_result_def create_start_def sorted_values_def sorted_keys_def sorted_list_of_fset.rep_eq)

section \<open>Repeated requests\<close>

text \<open>An accepted request is found again in every later state, with the order it created.\<close>

lemma accepted_request_stays:
  assumes "orders_ok rd" and run: "create_release env kt c now n rd = (rd', Inr (v, n'))"
    and ok': "orders_ok rd'" and later: "(release_step db_time)\<^sup>*\<^sup>* rd' rd2"
  shows "create_command_ok c \<and> (\<exists>ord bu prepared. fmlookup (rd_orders rd2) (ov_id v) = Some ord \<and>
    find_create_result rd2 (cc_actor c) (cc_key c) = Some \<lparr>sr_digest = or_digest ord, sr_view = stored_view ord\<rparr> \<and>
    accepted env kt c = Inr (bu, prepared) \<and> or_digest ord = request_digest c prepared)"
proof -
  obtain row bu prepared where row: "accepted env kt c = Inr (bu, prepared)"
    "fmlookup (rd_orders rd') (ov_id v) = Some row" "or_created_by row = cc_actor c"
    "or_idempotency_key row = cc_key c" "or_digest row = request_digest c prepared"
    using created_row [OF assms(1) run] by blast
  note keep = release_steps_preserve [OF later ok']
  then obtain ord where ord: "fmlookup (rd_orders rd2) (ov_id v) = Some ord" "order_evolves row ord"
    using row(2) unfolding tables_evolve_def by blast
  have "find_create_result rd2 (cc_actor c) (cc_key c) = Some \<lparr>sr_digest = or_digest ord, sr_view = stored_view ord\<rparr>"
    by (rule find_created [OF _ ord(1)]) (use keep ord(2) row in \<open>auto simp: order_evolves_def\<close>)
  moreover have "or_digest ord = request_digest c prepared" using row(5) ord(2) by (simp add: order_evolves_def)
  ultimately show ?thesis using run row(1) ord(1) by (auto simp: create_release_Inr)
qed

lemma create_transaction_found:
  assumes "find_create_result rd (cc_actor c) (cc_key c) = Some stored"
  shows "create_transaction env kt c now n rd =
    rbind (accepted env kt c) (\<lambda>(bu, prepared).
      if sr_digest stored \<noteq> request_digest c prepared then Inl (StoreRelease ErrIdempotencyKeyReused)
      else Inr (rd, sr_view stored, n))"
  unfolding create_transaction_accepted assms by (simp add: case_prod_beta)

text \<open>
  C4: A create request takes effect once. Once it was accepted in a reachable state, repeating it in
  any later state, at any time, changes nothing: with the same catalog it returns the order it
  created as that order is now stored; with another catalog it returns that order or an error. It is
  an error whenever the other catalog no longer gives the model, its collection or its template,
  since the catalog is loaded before the stored request is looked up.
\<close>

theorem repeated_create_is_replayed:
  assumes "release_history db_time rd" "create_release env kt c now n rd = (rd', Inr (v, n'))"
    and "(release_step db_time)\<^sup>*\<^sup>* rd' later"
  shows "\<exists>ord. fmlookup (rd_orders later) (ov_id v) = Some ord \<and>
    create_release env kt c now2 m later = (later, Inr (stored_view ord, m)) \<and>
    fst (create_release env2 kt2 c now2 m later) = later \<and>
    (snd (create_release env2 kt2 c now2 m later) = Inr (stored_view ord, m) \<or>
     (\<exists>e. snd (create_release env2 kt2 c now2 m later) = Inl e)) \<and>
    (\<forall>e. load_catalog (ce_lib env2) kt2 (cc_model c) (cc_release_type c) = Inl e \<longrightarrow>
       snd (create_release env2 kt2 c now2 m later) = Inl e)"
proof -
  note ok = release_history_ok [OF assms(1)]
  have "orders_ok rd'" using create_release_preserves [OF ok, of env kt c now n] assms(2) by simp
  from accepted_request_stays [OF ok assms(2) this assms(3)] obtain ord bu prepared where *:
    "create_command_ok c" "fmlookup (rd_orders later) (ov_id v) = Some ord"
    "find_create_result later (cc_actor c) (cc_key c) = Some \<lparr>sr_digest = or_digest ord, sr_view = stored_view ord\<rparr>"
    "accepted env kt c = Inr (bu, prepared)" "or_digest ord = request_digest c prepared" by blast
  note found = create_transaction_found [OF *(3)]
  have "create_release env kt c now2 m later = (later, Inr (stored_view ord, m))"
    using *(1,4,5) by (simp add: create_release_def found)
  moreover have "load_catalog (ce_lib env2) kt2 (cc_model c) (cc_release_type c) = Inl e \<Longrightarrow>
      accepted env2 kt2 c = Inl e" for e by (simp add: accepted_def)
  moreover have "create_release env2 kt2 c now2 m later = (later, Inr (stored_view ord, m)) \<or>
      (\<exists>e. create_release env2 kt2 c now2 m later = (later, Inl e)) \<and> is_ok (accepted env2 kt2 c) \<or>
      (\<exists>e. create_release env2 kt2 c now2 m later = (later, Inl e) \<and> accepted env2 kt2 c = Inl e)"
    using *(1) by (cases "accepted env2 kt2 c") (auto simp: create_release_def found is_ok_iff split: prod.splits)
  ultimately show ?thesis
    using *(1,2) by (fastforce simp: is_ok_iff create_release_def found)
qed

theorem repeated_create_is_replayed_witness:
  "\<exists>rd' v n' ord e. create_release create_sample_env create_tables create_sample 10 0 create_start = (rd', Inr (v, n')) \<and>
     create_release create_sample_env create_tables create_sample 20 5 rd' = (rd', Inr (stored_view ord, 5)) \<and>
     snd (create_release create_sample_env (create_tables\<lparr>kt_models := fmempty\<rparr>) create_sample 20 5 rd') = Inl e"
proof -
  obtain rd' v n' where run:
    "create_release create_sample_env create_tables create_sample 10 0 create_start = (rd', Inr (v, n'))"
    using create_sample_created by blast
  obtain e where "load_catalog (ce_lib create_sample_env) (create_tables\<lparr>kt_models := fmempty\<rparr>)
      (cc_model create_sample) (cc_release_type create_sample) = Inl e"
    by (simp add: load_catalog_def)
  with repeated_create_is_replayed [OF create_start_history [of id] run, of rd' 20 5 create_sample_env
      "create_tables\<lparr>kt_models := fmempty\<rparr>"] run show ?thesis by fastforce
qed

section \<open>Exclusive orders\<close>

text \<open>
  C3: In every state the commands can reach, an item holds a conflict key, that of its record, exactly
  while its order is in progress, and no other item of any order holds the same key.
\<close>

theorem open_orders_are_exclusive:
  assumes "release_history db_time rd"
    and "fmlookup (rd_orders rd) k = Some ord" "i \<in> set (or_items ord)"
    and "fmlookup (rd_orders rd) k' = Some ord'" "i' \<in> set (or_items ord')"
  shows "it_conflict_key i \<in> item_keys ord i \<and>
    (it_conflict_key i = [] \<or> it_conflict_key i \<noteq> it_conflict_key i' \<or> k = k' \<and> i = i')"
proof -
  note ok = release_history_ok [OF assms(1)]
  have row: "row_ok k ord" by (rule orders_okD(1) [OF ok assms(2,2)])
  have "k = k' \<and> i = i'" if "it_conflict_key i \<noteq> []" "it_conflict_key i = it_conflict_key i'"
  proof -
    have "k = k' \<and> it_id i = it_id i'" by (rule orders_okD(2) [OF ok assms(2,4,3,5) that])
    then show ?thesis using row assms(2-5) by (auto simp: row_ok_def distinct_map dest: inj_onD)
  qed
  then show ?thesis using row assms(3) by (auto simp: row_ok_def)
qed

lemma create_sample_row:
  "\<exists>rd' k ord i. release_history id rd' \<and> fmlookup (rd_orders rd') k = Some ord \<and> i \<in> set (or_items ord)"
proof -
  obtain rd' v n' where t:
    "create_transaction create_sample_env create_tables create_sample 10 0 create_start = Inr (rd', v, n')"
    using create_sample_runs by (auto simp: is_ok_iff)
  have run: "create_release create_sample_env create_tables create_sample 10 0 create_start = (rd', Inr (v, n'))"
    using t create_sample_created by (auto simp: create_release_Inr)
  from t obtain bu prepared ord where new: "create_new create_sample_env create_tables bu create_sample
      (request_digest create_sample prepared) 10 0 prepared create_start = Inr (rd', ord, n')"
    by (cases rule: create_transaction_Inr) (auto simp: create_start_empty)
  then have ins: "insert_order ord create_start = Inr rd'" using create_new_fresh by blast
  have "or_items ord \<noteq> []"
    using new build_order_items by (fastforce simp: create_new_def Let_def rbind_Inr_iff lift_release_Inr split: prod.splits)
  then obtain i where "i \<in> set (or_items ord)" by (cases "or_items ord") auto
  moreover have "release_history id rd'"
  proof -
    have "release_step id create_start rd'"
      using release_step.create [of id create_start create_sample_env create_tables create_sample 10 0] run by simp
    moreover have "rd_orders create_start = fmempty" by (simp add: create_start_def)
    ultimately show ?thesis unfolding release_history_def by blast
  qed
  moreover have "fmlookup (rd_orders rd') (or_id ord) = Some ord" by (simp add: insert_order_Inr(2) [OF ins])
  ultimately show ?thesis by blast
qed

theorem open_orders_are_exclusive_witness:
  "\<exists>ord i. i \<in> set (or_items ord) \<and> it_conflict_key i \<in> item_keys ord i"
proof -
  obtain rd' k ord i where "release_history id rd'" "fmlookup (rd_orders rd') k = Some ord" "i \<in> set (or_items ord)"
    using create_sample_row by blast
  then show ?thesis using open_orders_are_exclusive by blast
qed

section \<open>What an order shows\<close>

text \<open>
  C5: A release is created from what is current: when a command that was not sent before succeeds,
  the stored order has one item per draft, every item carries the base record, the record the
  scope sees and the revisions that the tables hold for its key at that moment, and besides the
  orders and an audit entry nothing changes.
\<close>

theorem created_order_shows_current_state:
  assumes run: "create_release env kt c now n rd = (rd', Inr (v, n'))"
    and new: "find_create_result rd (cc_actor c) (cc_key c) = None"
  shows "\<exists>bu ord auth effective entry.
    load_catalog (ce_lib env) kt (cc_model c) (cc_release_type c) = Inr bu \<and>
    load_base_authority (rd_db rd) (cd_name (bu_definition bu)) (sc_environment (cc_scope c)) (map it_key (or_items ord))
      = Inr auth \<and>
    effective_records (rd_db rd) (cd_name (bu_definition bu)) (cc_scope c) auth (map it_key (or_items ord)) = Inr effective \<and>
    length (or_items ord) = length (cc_items c) \<and> list_all (item_current auth effective) (or_items ord) \<and>
    v = project ord \<and> rd_orders rd' = fmupd (ov_id v) ord (rd_orders rd) \<and> ov_id v |\<notin>| fmdom (rd_orders rd) \<and>
    rd_db rd' = (rd_db rd)\<lparr>db_audit := db_audit (rd_db rd) @ [entry]\<rparr> \<and> rd_results rd' = rd_results rd"
proof -
  obtain bu prepared ord where load: "load_catalog (ce_lib env) kt (cc_model c) (cc_release_type c) = Inr bu"
    and keyed: "list_all draft_keyed prepared" "length prepared = length (cc_items c)" and v: "v = project ord"
    and made: "create_new env kt bu c (request_digest c prepared) now n prepared rd = Inr (rd', ord, n')"
    and ins: "insert_order ord rd = Inr rd'"
    by (rule create_release_new [OF run new])
  obtain auth effective where items:
    "load_base_authority (rd_db rd) (cd_name (bu_definition bu)) (sc_environment (cc_scope c)) (map it_key (or_items ord))
      = Inr auth"
    "effective_records (rd_db rd) (cd_name (bu_definition bu)) (cc_scope c) auth (map it_key (or_items ord)) = Inr effective"
    "length (or_items ord) = length (cc_items c)" "list_all (item_current auth effective) (or_items ord)"
    using create_new_items [OF made keyed] by blast
  obtain entry where "rd_db rd' = (rd_db rd)\<lparr>db_audit := db_audit (rd_db rd) @ [entry]\<rparr>"
    using insert_order_Inr(3) [OF ins] unfolding insert_audit_def by blast
  then show ?thesis using load items v insert_order_Inr(1,2,4) [OF ins]
    by (intro exI [of _ bu] exI [of _ ord] exI [of _ auth] exI [of _ effective] exI [of _ entry]) simp
qed

theorem created_order_shows_current_state_witness:
  "\<exists>rd' v n' ord. create_release create_sample_env create_tables create_sample 10 0 create_start = (rd', Inr (v, n')) \<and>
     length (or_items ord) = 1 \<and> rd_orders rd' = fmupd (ov_id v) ord fmempty"
proof -
  obtain rd' v n' where run:
    "create_release create_sample_env create_tables create_sample 10 0 create_start = (rd', Inr (v, n'))"
    using create_sample_created by blast
  have start: "rd_orders create_start = fmempty" "length (cc_items create_sample) = 1"
    by (simp_all add: create_start_def create_sample_def)
  obtain ord where "length (or_items ord) = length (cc_items create_sample)"
    "rd_orders rd' = fmupd (ov_id v) ord (rd_orders create_start)"
    using created_order_shows_current_state [OF run create_start_empty] by (elim exE conjE) (rule that)
  then show ?thesis using run unfolding start by blast
qed

text \<open>
  An item that modifies or deletes needs a base record, and an item that adds must have none: a
  record that only an overlay provides can be changed by no release.
\<close>

lemma created_items_rest_on_base:
  assumes run: "create_release env kt c now n rd = (rd', Inr (v, n'))"
    and new: "find_create_result rd (cc_actor c) (cc_key c) = None"
  shows "\<exists>ord. fmlookup (rd_orders rd') (ov_id v) = Some ord \<and>
    list_all (\<lambda>i. (it_action i = ActionAdd) = (it_base_before i = None)) (or_items ord)"
proof -
  obtain bu prepared ord where
    keyed: "list_all draft_keyed prepared" "length prepared = length (cc_items c)" and v: "v = project ord"
    and made: "create_new env kt bu c (request_digest c prepared) now n prepared rd = Inr (rd', ord, n')"
    and ins: "insert_order ord rd = Inr rd'"
    by (rule create_release_new [OF run new])
  obtain auth effective where current: "list_all (item_current auth effective) (or_items ord)"
    using create_new_items [OF made keyed] by blast
  have rows: "list_all item_row_ok (or_items ord)" by (rule inserted_rows_ok [OF insert_order_Inr(7) [OF ins]])
  have "(it_action i = ActionAdd) = (it_base_before i = None)" if "i \<in> set (or_items ord)" for i
  proof -
    have "item_row_ok i" "it_record_revision i = record_revision_of (bt_records auth (it_key i))"
      "it_base_before i = map_option clone_record (bt_records auth (it_key i))"
      using rows current that by (auto simp: list_all_iff item_current_def)
    then show ?thesis by (auto simp: item_row_ok_def record_revision_of_def split: option.splits)
  qed
  moreover have "fmlookup (rd_orders rd') (ov_id v) = Some ord" using insert_order_Inr(2) [OF ins] v by simp
  ultimately show ?thesis by (auto simp: list_all_iff)
qed

section \<open>The view of a repeated request\<close>

text \<open>
  The two computations of the capabilities of an order disagree on a pending overlay step: the
  service offers its execution, the stored view that answers a repeated request does not.
\<close>

lemma stored_view_hides_overlay_apply:
  assumes "or_status ord = OrderInProgress" "at_current ord StepOverlayApply StepPending"
  shows "ov_can_execute (project ord) \<and> \<not> ov_can_execute (stored_view ord)"
  using assms
  by (simp add: at_current_def project_def stored_view_def apply_capabilities_def set_capabilities_def Let_def)

end
