(* ===== verification/Page_Rpc.thy ===== *)
theory Page_Rpc
  imports Page_Query Auth_Scope Wire_Messages
begin

text \<open>
  The RPC handler of the page query: \<open>internal/pagequery/grpc/handler.go\<close>. An enumeration of the
  wire has a constructor per value the handler knows and one for every other number, zero being
  UNSPECIFIED; the identity in the context and the current snapshot are arguments.
\<close>

section \<open>Enumerations\<close>

datatype wire_field_type =
    WireTypeString | WireTypeInt64 | WireTypeFloat64 | WireTypeBool | WireTypeTimestamp | WireTypeJSON
  | WireTypeOther int

datatype wire_operator =
    WireExact | WireContains | WireClosedRange | WireOpenRange | WireIn | WireNotIn | WireOperatorOther int

datatype wire_query_type = WireAll | WireOnlyData | WireQueryOther int

datatype wire_control =
    WireInput | WireSelect | WireTime | WireNumber | WireBoolean | WireTextarea | WireJSON | WireControlOther int

text \<open>The unspecified type is the empty text; the query takes the type from the model.\<close>

definition from_field_type :: "wire_field_type \<Rightarrow> field_type option" where
  "from_field_type t =
     (case t of
        WireTypeString \<Rightarrow> Some FieldTypeString | WireTypeInt64 \<Rightarrow> Some FieldTypeInt64
      | WireTypeFloat64 \<Rightarrow> Some FieldTypeFloat64 | WireTypeBool \<Rightarrow> Some FieldTypeBool
      | WireTypeTimestamp \<Rightarrow> Some FieldTypeTimestamp | WireTypeJSON \<Rightarrow> Some FieldTypeJSON
      | WireTypeOther n \<Rightarrow> (if n = 0 then Some (FieldTypeOther []) else None))"

definition to_field_type :: "field_type \<Rightarrow> wire_field_type" where
  "to_field_type t =
     (case t of
        FieldTypeString \<Rightarrow> WireTypeString | FieldTypeInt64 \<Rightarrow> WireTypeInt64
      | FieldTypeFloat64 \<Rightarrow> WireTypeFloat64 | FieldTypeBool \<Rightarrow> WireTypeBool
      | FieldTypeTimestamp \<Rightarrow> WireTypeTimestamp | FieldTypeJSON \<Rightarrow> WireTypeJSON
      | FieldTypeOther _ \<Rightarrow> WireTypeOther 0)"

definition from_filter_operator :: "wire_operator \<Rightarrow> filter_operator option" where
  "from_filter_operator w =
     (case w of
        WireExact \<Rightarrow> Some FilterExact | WireContains \<Rightarrow> Some FilterContains
      | WireClosedRange \<Rightarrow> Some FilterClosedRange | WireOpenRange \<Rightarrow> Some FilterOpenRange
      | WireIn \<Rightarrow> Some FilterIn | WireNotIn \<Rightarrow> Some FilterNotIn | WireOperatorOther _ \<Rightarrow> None)"

definition to_filter_operator :: "filter_operator \<Rightarrow> wire_operator" where
  "to_filter_operator f =
     (case f of
        FilterExact \<Rightarrow> WireExact | FilterContains \<Rightarrow> WireContains | FilterClosedRange \<Rightarrow> WireClosedRange
      | FilterOpenRange \<Rightarrow> WireOpenRange | FilterIn \<Rightarrow> WireIn | FilterNotIn \<Rightarrow> WireNotIn
      | FilterOther _ \<Rightarrow> WireOperatorOther 0)"

definition from_query_type :: "wire_query_type \<Rightarrow> query_type option" where
  "from_query_type w =
     (case w of WireAll \<Rightarrow> Some TypeAll | WireOnlyData \<Rightarrow> Some TypeOnlyData | WireQueryOther _ \<Rightarrow> None)"

definition to_query_type :: "query_type \<Rightarrow> wire_query_type" where
  "to_query_type t = (if t = TypeOnlyData then WireOnlyData else WireAll)"

definition to_ui_control :: "ui_control \<Rightarrow> wire_control" where
  "to_ui_control c =
     (case c of
        UIControlInput \<Rightarrow> WireInput | UIControlSelect \<Rightarrow> WireSelect | UIControlTime \<Rightarrow> WireTime
      | UIControlNumber \<Rightarrow> WireNumber | UIControlBoolean \<Rightarrow> WireBoolean | UIControlTextarea \<Rightarrow> WireTextarea
      | UIControlJSON \<Rightarrow> WireJSON | UIControlOther _ \<Rightarrow> WireControlOther 0)"

section \<open>Requests\<close>

record wire_scalar =
  wl_type :: wire_field_type
  wl_canonical :: string

record wire_condition =
  wc_field :: string
  wc_operator :: wire_operator
  wc_value :: "wire_scalar option"
  wc_lower :: "wire_scalar option"
  wc_upper :: "wire_scalar option"
  wc_set :: "wire_scalar option list"

text \<open>A missing page message has neither number nor size, which is what its absence means.\<close>

record page_message =
  wq_model :: string
  wq_scope :: "wire_scope option"
  wq_bucket :: "int option"
  wq_type :: wire_query_type
  wq_number :: "int option"
  wq_size :: "int option"
  wq_conditions :: "wire_condition option list"

definition from_scalar :: "wire_scalar option \<Rightarrow> rpc_code + scalar_value" where
  "from_scalar source =
     (case source of
        None \<Rightarrow> Inl RpcInvalidArgument
      | Some s \<Rightarrow>
          (case from_field_type (wl_type s) of
             None \<Rightarrow> Inl RpcInvalidArgument
           | Some t \<Rightarrow> Inr \<lparr>scv_type = t, scv_canonical = wl_canonical s\<rparr>))"

definition from_optional_scalar :: "wire_scalar option \<Rightarrow> rpc_code + scalar_value option" where
  "from_optional_scalar source =
     (if source = None then Inr None else rbind (from_scalar source) (\<lambda>v. Inr (Some v)))"

definition from_filter_condition :: "wire_condition option \<Rightarrow> rpc_code + filter_condition" where
  "from_filter_condition source =
     (case source of
        None \<Rightarrow> Inl RpcInvalidArgument
      | Some s \<Rightarrow>
          (case from_filter_operator (wc_operator s) of
             None \<Rightarrow> Inl RpcInvalidArgument
           | Some operator \<Rightarrow>
               rbind (from_optional_scalar (wc_value s)) (\<lambda>v.
               rbind (from_optional_scalar (wc_lower s)) (\<lambda>lower.
               rbind (from_optional_scalar (wc_upper s)) (\<lambda>upper.
               rbind (rmap from_scalar (wc_set s)) (\<lambda>members.
               Inr \<lparr>fc_field = wc_field s, fc_operator = operator, fc_value = v, fc_lower = lower,
                    fc_upper = upper, fc_set = members\<rparr>))))))"

section \<open>Replies\<close>

record wire_page_row =
  wz_key :: string
  wz_revision :: int
  wz_values :: data
  wz_masked :: "string list"
  wz_base_present :: bool
  wz_base_values :: data
  wz_changed :: "string list"

record wire_page_field =
  wf_field_name :: string
  wf_display_name :: string
  wf_description :: string
  wf_type :: wire_field_type
  wf_control :: wire_control
  wf_flags :: "bool list"
  wf_auto_fill :: "(auto_fill_source \<times> string) option"
  wf_rules :: "validation_rule list"
  wf_operators :: "wire_operator list"
  wf_default_operator :: wire_operator
  wf_default :: "string option"
  wf_display_order :: int
  wf_options :: "select_option list"

record wire_release_type =
  wt_code :: string
  wt_name :: string
  wt_template :: string
  wt_available :: bool
  wt_reason :: "string option"

record page_reply =
  yr_model :: string
  yr_model_name :: string
  yr_type :: wire_query_type
  yr_projection :: "string list"
  yr_page :: "int \<times> int \<times> int \<times> int"
  yr_snapshot :: "snapshot_identity option"
  yr_model_revision :: int
  yr_collection_revision :: int
  yr_rows :: "wire_page_row list"
  yr_fields :: "wire_page_field list"
  yr_release_types :: "wire_release_type list"

definition revision_int64 :: "u64 \<Rightarrow> rpc_code + int" where
  "revision_int64 v = (case int64_of v of None \<Rightarrow> Inl RpcInternal | Some n \<Rightarrow> Inr n)"

definition wire_row_of :: "page_row \<Rightarrow> rpc_code + wire_page_row" where
  "wire_row_of r =
     rbind (revision_int64 (rw_revision r)) (\<lambda>revision.
     Inr \<lparr>wz_key = rw_key r, wz_revision = revision, wz_values = rw_values r, wz_masked = rw_masked r,
          wz_base_present = rw_base_present r, wz_base_values = rw_base_values r, wz_changed = rw_changed r\<rparr>)"

text \<open>The flags are queryable, editable, required, sensitive, projected and key, in this order.\<close>

definition wire_field_of :: "interaction_field \<Rightarrow> wire_page_field" where
  "wire_field_of f =
     \<lparr>wf_field_name = if_name f, wf_display_name = if_display_name f, wf_description = if_description f,
      wf_type = to_field_type (if_type f), wf_control = to_ui_control (if_control f),
      wf_flags = [if_queryable f, if_editable f, if_required f, if_sensitive f, if_projected f, if_key f],
      wf_auto_fill = map_option (\<lambda>a. (af_source a, af_value a)) (if_auto_fill f), wf_rules = if_rules f,
      wf_operators = map to_filter_operator (if_operators f),
      wf_default_operator = to_filter_operator (if_default_operator f), wf_default = if_default f,
      wf_display_order = if_display_order f, wf_options = if_options f\<rparr>"

definition optional_string :: "string \<Rightarrow> string option" where
  "optional_string s = (if s = [] then None else Some s)"

definition wire_release_type_of :: "page_release_type \<Rightarrow> wire_release_type" where
  "wire_release_type_of t =
     \<lparr>wt_code = pt_code t, wt_name = pt_name t, wt_template = pt_template t, wt_available = pt_available t,
      wt_reason = optional_string (pt_reason t)\<rparr>"

definition page_reply_of :: "page_result \<Rightarrow> rpc_code + page_reply" where
  "page_reply_of p =
     rbind (revision_int64 (pg_model_revision p)) (\<lambda>model_revision.
     rbind (revision_int64 (pg_collection_revision p)) (\<lambda>collection_revision.
     rbind (rmap wire_row_of (pg_rows p)) (\<lambda>rows.
     Inr \<lparr>yr_model = pg_model p, yr_model_name = pg_model_name p, yr_type = to_query_type (pg_type p),
          yr_projection = pg_projection p, yr_page = (pg_number p, pg_size p, pg_total p, pg_total_pages p),
          yr_snapshot = Some (pg_identity p), yr_model_revision = model_revision,
          yr_collection_revision = collection_revision, yr_rows = rows,
          yr_fields = map wire_field_of (pg_fields p),
          yr_release_types = map wire_release_type_of (pg_release_types p)\<rparr>)))"

section \<open>QueryPage\<close>

definition page_code :: "page_error \<Rightarrow> rpc_code" where
  "page_code e =
     (case e of
        PageEnvironmentMismatch \<Rightarrow> RpcFailedPrecondition
      | PageSnapshotUnavailable \<Rightarrow> RpcUnavailable
      | PageNotFound \<Rightarrow> RpcNotFound
      | PageInvalidArgument \<Rightarrow> RpcInvalidArgument
      | PageFailure _ \<Rightarrow> RpcInternal)"

definition rpc_query_page ::
  "scalar_lib \<Rightarrow> string \<Rightarrow> request_authorizer \<Rightarrow> snapshot option \<Rightarrow> caller_identity option \<Rightarrow> page_message option
     \<Rightarrow> rpc_code + page_reply" where
  "rpc_query_page lib managed az current identity message =
     (case message of
        None \<Rightarrow> Inl RpcInvalidArgument
      | Some q \<Rightarrow>
          (case wq_scope q of
             None \<Rightarrow> Inl RpcInvalidArgument
           | Some raw \<Rightarrow>
               (case compile_scope (ws_region raw) (ws_environment raw) (ws_stage raw) of
                  None \<Rightarrow> Inl RpcInvalidArgument
                | Some sc \<Rightarrow>
                    if sc_environment sc \<noteq> managed then Inl RpcFailedPrecondition
                    else if \<not> authorize_page_query az identity sc then Inl RpcPermissionDenied
                    else case from_query_type (wq_type q) of
                           None \<Rightarrow> Inl RpcInvalidArgument
                         | Some t \<Rightarrow>
                             rbind (rmap from_filter_condition (wq_conditions q)) (\<lambda>conditions.
                             case page_query lib managed current
                                    \<lparr>pq_model = wq_model q, pq_region = sc_region sc, pq_environment = sc_environment sc,
                                     pq_stage = sc_stage sc, pq_bucket = wq_bucket q, pq_type = t,
                                     pq_number = wq_number q, pq_size = wq_size q, pq_conditions = conditions\<rparr> of
                               Inl e \<Rightarrow> Inl (page_code e)
                             | Inr p \<Rightarrow> page_reply_of p))))"

section \<open>Facts\<close>

text \<open>What the two directions of an enumeration have in common.\<close>

lemma operator_round_trip: "from_filter_operator w = Some f \<Longrightarrow> to_filter_operator f = w"
  by (cases w) (auto simp: from_filter_operator_def to_filter_operator_def)

lemma field_type_round_trip: "from_field_type w = Some t \<Longrightarrow> to_field_type t = w"
  by (cases w) (auto simp: from_field_type_def to_field_type_def split: if_splits)

lemma query_type_round_trip: "from_query_type w = Some t \<Longrightarrow> to_query_type t = w"
  by (cases w) (auto simp: from_query_type_def to_query_type_def)

end
