(* ===== verification/Access_Reveal.thy ===== *)
theory Access_Reveal
  imports Release_Catalog Release_Action Auth_Scope Page_Rpc
begin

text \<open>
  Revealing a sensitive value: \<open>internal/access\<close> with its service, its store, the adapter that asks
  the config server for the current snapshot and the RPC handler. What the RPC client answers and
  the identity in the context are arguments. A transaction is a function of the configuration tables
  and the reveal audits; it returns an error or the tables with one more audit.
\<close>

datatype access_error =
    AccessInvalid
  | AccessForbidden
  | AccessAborted
  | AccessNotFound
  | AccessFailedPrecondition
  | AccessFailure String.literal

record snapshot_authority =
  sa_environment :: string
  sa_epoch :: string
  sa_instance :: string
  sa_generation :: u64
  sa_model_revision :: u64
  sa_collection_revision :: u64

text \<open>What the reader of the snapshot authority answers; \<open>None\<close> stands for \<open>Found: false\<close>.\<close>

datatype authority_answer =
    AuthorityUnavailable
  | AuthorityFailed
  | AuthorityRead "snapshot_authority option"

record reveal_command =
  rv_model :: string
  rv_scope :: scope
  rv_key :: string
  rv_field :: string
  rv_record_revision :: u64
  rv_collection_revision :: u64
  rv_model_revision :: u64
  rv_epoch :: string
  rv_instance :: string
  rv_generation :: u64
  rv_reason :: string
  rv_bucket :: "int option"
  rv_request :: string
  rv_trace :: string
  rv_who :: caller_identity

record reveal_result =
  rz_value :: string
  rz_expires :: gotime

text \<open>A row of \<open>audit_records\<close> that a reveal writes.\<close>

record reveal_audit =
  va_at :: gotime
  va_subject :: string
  va_display_name :: string
  va_action :: string
  va_resource_type :: string
  va_resource :: string
  va_scope :: scope
  va_outcome :: string
  va_metadata :: string
  va_request :: string
  va_trace :: string

record access_db =
  xd_db :: database
  xd_audits :: "reveal_audit list"

section \<open>The snapshot authority\<close>

text \<open>The adapter asks for the smallest page and keeps only what identifies the snapshot.\<close>

definition authority_request :: "reveal_command \<Rightarrow> page_message" where
  "authority_request c =
     \<lparr>wq_model = rv_model c,
      wq_scope = Some \<lparr>ws_region = sc_region (rv_scope c), ws_environment = sc_environment (rv_scope c),
                       ws_stage = sc_stage (rv_scope c)\<rparr>,
      wq_bucket = rv_bucket c, wq_type = WireOnlyData, wq_number = Some 1, wq_size = Some 1, wq_conditions = []\<rparr>"

definition read_snapshot_authority ::
  "(page_message \<Rightarrow> rpc_code + page_reply option) \<Rightarrow> reveal_command \<Rightarrow> authority_answer" where
  "read_snapshot_authority client c =
     (if rv_model c = [] \<or> sc_region (rv_scope c) = [] \<or> sc_environment (rv_scope c) = [] then AuthorityFailed
      else case client (authority_request c) of
             Inl e \<Rightarrow>
               (case e of
                  RpcNotFound \<Rightarrow> AuthorityRead None
                | RpcFailedPrecondition \<Rightarrow> AuthorityRead None
                | RpcUnavailable \<Rightarrow> AuthorityUnavailable
                | _ \<Rightarrow> AuthorityFailed)
           | Inr None \<Rightarrow> AuthorityFailed
           | Inr (Some y) \<Rightarrow>
               (case yr_snapshot y of
                  None \<Rightarrow> AuthorityFailed
                | Some i \<Rightarrow>
                    if yr_model y \<noteq> rv_model c \<or> id_epoch i = [] \<or> id_snapshot i = [] \<or> id_generation i = 0 \<or>
                       yr_model_revision y \<le> 0 \<or> yr_collection_revision y \<le> 0 then AuthorityFailed
                    else AuthorityRead (Some \<lparr>sa_environment = sc_environment (rv_scope c), sa_epoch = id_epoch i,
                      sa_instance = id_snapshot i, sa_generation = id_generation i,
                      sa_model_revision = of_int (yr_model_revision y),
                      sa_collection_revision = of_int (yr_collection_revision y)\<rparr>)))"

section \<open>The store\<close>

definition load_access_catalog ::
  "scalar_lib \<Rightarrow> catalog_tables \<Rightarrow> string \<Rightarrow> access_error + collection_definition \<times> compiled_model" where
  "load_access_catalog lib kt code =
     (case fmlookup (kt_models kt) code of
        None \<Rightarrow> Inl (AccessFailure STR ''enabled model %q was not found'')
      | Some m \<Rightarrow>
          (case fmlookup (kt_collections kt) (ms_collection (mw_spec m)) of
             None \<Rightarrow> Inl (AccessFailure STR ''enabled model %q was not found'')
           | Some c \<Rightarrow>
               if \<not> cw_enabled c \<or> \<not> mw_enabled m then Inl (AccessFailure STR ''enabled model %q was not found'')
               else
                 rbind (rerror (AccessFailure STR ''compile persisted collection: %w'')
                          (compile_collection lib (cw_spec c))) (\<lambda>d.
                 rbind (rerror (AccessFailure STR ''compile persisted model: %w'')
                          (compile_model lib d (mw_spec m))) (\<lambda>model.
                 Inr (d, model)))))"

record record_authority =
  ay_revision :: u64
  ay_base :: "config_record list"
  ay_rules :: "overlay_rule list"

text \<open>The stored record is compiled again and must be filed under its canonical key.\<close>

definition access_record ::
  "scalar_lib \<Rightarrow> collection_definition \<Rightarrow> string \<Rightarrow> string \<Rightarrow> config_record \<Rightarrow> access_error + config_record" where
  "access_record lib d environment key stored =
     (case new_record lib d environment (deref_map (cr_data stored)) of
        Inl _ \<Rightarrow> Inl (AccessFailure STR ''sensitive record is not canonical'')
      | Inr r \<Rightarrow>
          if cr_key r \<noteq> key then Inl (AccessFailure STR ''sensitive record is not canonical'')
          else Inr (r\<lparr>cr_revision := cr_revision stored\<rparr>))"

definition load_record_authority ::
  "scalar_lib \<Rightarrow> database \<Rightarrow> collection_definition \<Rightarrow> scope \<Rightarrow> string \<Rightarrow> access_error + record_authority" where
  "load_record_authority lib db d sc key =
     rbind (rerror (AccessFailure STR ''collection version %s/%s was not found'')
              (load_version db (cd_name d) (sc_environment sc))) (\<lambda>revision.
     rbind (case fmlookup (db_records db) (record_place (cd_name d) (sc_environment sc) key) of
              None \<Rightarrow> Inr []
            | Some stored \<Rightarrow>
                rbind (access_record lib d (sc_environment sc) key stored) (\<lambda>r. Inr [r])) (\<lambda>base.
     Inr \<lparr>ay_revision = revision, ay_base = base,
          ay_rules = load_overlay_rules db (cd_name d) sc [key]\<rparr>))"

text \<open>The metadata, a JSON object in the order of its keys.\<close>

definition reveal_metadata :: "reveal_command \<Rightarrow> string \<Rightarrow> json" where
  "reveal_metadata c collection =
     JObj [(''collection'', JStr collection), (''collectionRevision'', json_int (uint (rv_collection_revision c))),
           (''fieldName'', JStr (rv_field c)), (''modelCode'', JStr (rv_model c)),
           (''modelRevision'', json_int (uint (rv_model_revision c))), (''reason'', JStr (rv_reason c)),
           (''recordKey'', JStr (rv_key c)), (''recordRevision'', json_int (uint (rv_record_revision c))),
           (''serverEpoch'', JStr (rv_epoch c)), (''snapshotGeneration'', json_int (uint (rv_generation c))),
           (''snapshotInstance'', JStr (rv_instance c))]"

definition reveal_entry :: "reveal_command \<Rightarrow> string \<Rightarrow> gotime \<Rightarrow> reveal_audit" where
  "reveal_entry c collection now =
     \<lparr>va_at = now, va_subject = ca_subject (rv_who c),
      va_display_name = (if ca_display_name (rv_who c) = [] then ca_subject (rv_who c) else ca_display_name (rv_who c)),
      va_action = ''SENSITIVE_FIELD_REVEALED'', va_resource_type = ''CONFIGURATION_RECORD'',
      va_resource = hex_encode (sha256 (collection @ [CHR 0x00] @ rv_key c)),
      va_scope = rv_scope c, va_outcome = ''SUCCEEDED'', va_metadata = json_print (reveal_metadata c collection),
      va_request = rv_request c, va_trace = rv_trace c\<rparr>"

section \<open>The service\<close>

definition reveal_valid :: "reveal_command \<Rightarrow> bool" where
  "reveal_valid c \<longleftrightarrow>
     \<not> (blank (rv_model c) \<or> blank (sc_region (rv_scope c)) \<or> blank (sc_environment (rv_scope c)) \<or>
        blank (rv_key c) \<or> blank (rv_field c) \<or> blank (rv_reason c) \<or> blank (rv_request c) \<or>
        blank (ca_subject (rv_who c))) \<and>
     \<not> (rv_record_revision c = 0 \<or> rv_collection_revision c = 0 \<or> rv_model_revision c = 0 \<or> rv_epoch c = [] \<or>
        rv_instance c = [] \<or> rv_generation c = 0) \<and>
     (case rv_bucket c of None \<Rightarrow> True | Some b \<Rightarrow> 0 \<le> b \<and> b \<le> 99) \<and>
     compile_scope (sc_region (rv_scope c)) (sc_environment (rv_scope c)) (sc_stage (rv_scope c)) \<noteq> None"

definition access_scope_covered :: "scope_pattern list \<Rightarrow> scope \<Rightarrow> bool" where
  "access_scope_covered patterns sc = list_ex (\<lambda>p. scope_matches p sc) patterns"

definition exposes_sensitive_field :: "compiled_model \<Rightarrow> string \<Rightarrow> bool" where
  "exposes_sensitive_field m name \<longleftrightarrow>
     name \<in> set (cm_projection m) \<and>
     (case List.find (\<lambda>f. mf_name f = name) (cm_fields m) of None \<Rightarrow> False | Some f \<Rightarrow> mf_sensitive f)"

text \<open>The current snapshot must be the one the caller saw.\<close>

definition check_authority :: "reveal_command \<Rightarrow> authority_answer \<Rightarrow> access_error + unit" where
  "check_authority c answer =
     (case answer of
        AuthorityUnavailable \<Rightarrow> Inl AccessFailedPrecondition
      | AuthorityFailed \<Rightarrow> Inl (AccessFailure STR ''load sensitive access snapshot authority: %w'')
      | AuthorityRead None \<Rightarrow> Inl AccessAborted
      | AuthorityRead (Some a) \<Rightarrow>
          if sa_environment a \<noteq> sc_environment (rv_scope c) \<or> sa_epoch a \<noteq> rv_epoch c \<or>
             sa_instance a \<noteq> rv_instance c \<or> sa_generation a \<noteq> rv_generation c then Inl AccessAborted
          else if sa_model_revision a \<noteq> rv_model_revision c then Inl AccessAborted
          else if sa_collection_revision a \<noteq> rv_collection_revision c then Inl AccessAborted
          else Inr ())"

definition reveal_query :: "reveal_command \<Rightarrow> string \<Rightarrow> overlay_query" where
  "reveal_query c collection = \<lparr>oq_collection = collection, oq_scope = rv_scope c, oq_bucket = rv_bucket c\<rparr>"

definition reveal_transaction ::
  "scalar_lib \<Rightarrow> catalog_tables \<Rightarrow> reveal_command \<Rightarrow> gotime \<Rightarrow> access_db \<Rightarrow> access_error + access_db \<times> string" where
  "reveal_transaction lib kt c now xd =
     rbind (load_access_catalog lib kt (rv_model c)) (\<lambda>(d, m).
     if cm_revision m \<noteq> rv_model_revision c \<or> cm_collection m \<noteq> cd_name d then Inl AccessAborted
     else if (case definition_field d (rv_field c) of None \<Rightarrow> True | Some f \<Rightarrow> \<not> fd_sensitive f) \<or>
             \<not> exposes_sensitive_field m (rv_field c) then Inl AccessFailedPrecondition
     else rbind (load_record_authority lib (xd_db xd) d (rv_scope c) (rv_key c)) (\<lambda>auth.
       if ay_revision auth \<noteq> rv_collection_revision c then Inl AccessAborted
       else rbind (rerror (AccessFailure STR ''evaluate sensitive record: %w'')
              (evaluate (reveal_query c (cd_name d)) (ay_base auth) (ay_rules auth))) (\<lambda>records.
         case List.find (\<lambda>r. cr_key r = rv_key c) records of
           None \<Rightarrow> Inl AccessNotFound
         | Some r \<Rightarrow>
             if cr_revision r \<noteq> rv_record_revision c then Inl AccessAborted
             else (case fmlookup (deref_map (cr_data r)) (rv_field c) of
                     None \<Rightarrow> Inl AccessNotFound
                   | Some v \<Rightarrow> Inr (xd\<lparr>xd_audits := xd_audits xd @ [reveal_entry c (cd_name d) now]\<rparr>, v)))))"

text \<open>\<open>answer\<close> is what the snapshot authority reader returns for the query of the command.\<close>

definition reveal ::
  "scalar_lib \<Rightarrow> catalog_tables \<Rightarrow> (reveal_command \<Rightarrow> authority_answer) \<Rightarrow> reveal_command \<Rightarrow> gotime \<Rightarrow> access_db
     \<Rightarrow> access_db \<times> (access_error + reveal_result)" where
  "reveal lib kt answer c now xd =
     (if \<not> reveal_valid c then (xd, Inl AccessInvalid)
      else case compile_scope (sc_region (rv_scope c)) (sc_environment (rv_scope c)) (sc_stage (rv_scope c)) of
             None \<Rightarrow> (xd, Inl AccessInvalid)
           | Some sc \<Rightarrow>
               if \<not> access_scope_covered (ca_scopes (rv_who c)) sc then (xd, Inl AccessForbidden)
               else if ''SENSITIVE_VIEWER'' \<notin> set (ca_roles (rv_who c)) then (xd, Inl AccessForbidden)
               else case check_authority c (answer c) of
                      Inl e \<Rightarrow> (xd, Inl e)
                    | Inr _ \<Rightarrow>
                        (case reveal_transaction lib kt c now xd of
                           Inl e \<Rightarrow> (xd, Inl e)
                         | Inr (xd', v) \<Rightarrow> (xd', Inr \<lparr>rz_value = v, rz_expires = now + 60 * 1000000000\<rparr>)))"

section \<open>RevealField\<close>

record reveal_message =
  rm_model :: string
  rm_scope :: "wire_scope option"
  rm_key :: string
  rm_field :: string
  rm_record_revision :: int
  rm_collection_revision :: int
  rm_model_revision :: int
  rm_epoch :: string
  rm_instance :: string
  rm_generation :: u64
  rm_reason :: string
  rm_bucket :: "int option"

definition access_code :: "access_error \<Rightarrow> rpc_code" where
  "access_code e =
     (case e of
        AccessInvalid \<Rightarrow> RpcInvalidArgument
      | AccessForbidden \<Rightarrow> RpcPermissionDenied
      | AccessAborted \<Rightarrow> RpcAborted
      | AccessNotFound \<Rightarrow> RpcNotFound
      | AccessFailedPrecondition \<Rightarrow> RpcFailedPrecondition
      | AccessFailure _ \<Rightarrow> RpcInternal)"

text \<open>The identity resolver fails when the context has no identity; the tags are those of the request.\<close>

definition rpc_reveal_field ::
  "scalar_lib \<Rightarrow> catalog_tables \<Rightarrow> (reveal_command \<Rightarrow> authority_answer) \<Rightarrow> gotime \<Rightarrow> caller_identity option
     \<Rightarrow> string \<Rightarrow> string \<Rightarrow> reveal_message option \<Rightarrow> access_db \<Rightarrow> access_db \<times> (rpc_code + reveal_result)" where
  "rpc_reveal_field lib kt answer now identity request trace message xd =
     (case message of
        None \<Rightarrow> (xd, Inl RpcInvalidArgument)
      | Some q \<Rightarrow>
          (case rm_scope q of
             None \<Rightarrow> (xd, Inl RpcInvalidArgument)
           | Some raw \<Rightarrow>
               if rm_record_revision q \<le> 0 \<or> rm_collection_revision q \<le> 0 \<or> rm_model_revision q \<le> 0
               then (xd, Inl RpcInvalidArgument)
               else case compile_scope (ws_region raw) (ws_environment raw) (ws_stage raw) of
                      None \<Rightarrow> (xd, Inl RpcInvalidArgument)
                    | Some sc \<Rightarrow>
                        if \<not> authorize_sensitive identity sc then (xd, Inl RpcPermissionDenied)
                        else case identity of
                               None \<Rightarrow> (xd, Inl RpcUnauthenticated)
                             | Some who \<Rightarrow>
                                 if blank (ca_subject who) then (xd, Inl RpcUnauthenticated)
                                 else (case reveal lib kt answer
                                     \<lparr>rv_model = rm_model q, rv_scope = sc, rv_key = rm_key q, rv_field = rm_field q,
                                      rv_record_revision = of_int (rm_record_revision q),
                                      rv_collection_revision = of_int (rm_collection_revision q),
                                      rv_model_revision = of_int (rm_model_revision q), rv_epoch = rm_epoch q,
                                      rv_instance = rm_instance q, rv_generation = rm_generation q,
                                      rv_reason = rm_reason q, rv_bucket = rm_bucket q, rv_request = request,
                                      rv_trace = trace, rv_who = who\<rparr> now xd of
                                   (xd', Inl e) \<Rightarrow> (xd', Inl (access_code e))
                                 | (xd', Inr r) \<Rightarrow> (xd', Inr r))))"

end
