(* ===== verification/Access_Facts.thy ===== *)
theory Access_Facts
  imports Access_Reveal Page_Facts
begin

text \<open>
  Lemmas about revealing a value: what the checks of the authority and of the transaction leave
  over, what the evaluation of one key has to do with that of the whole collection, and what the
  answer of the page query says about the snapshot.
\<close>

section \<open>The checks\<close>

lemma check_authority_Inr:
  "check_authority c answer = Inr u \<longleftrightarrow>
     answer = AuthorityRead (Some
       \<lparr>sa_environment = sc_environment (rv_scope c), sa_epoch = rv_epoch c, sa_instance = rv_instance c,
        sa_generation = rv_generation c, sa_model_revision = rv_model_revision c,
        sa_collection_revision = rv_collection_revision c\<rparr>)"
proof (cases answer)
  case (AuthorityRead a)
  then show ?thesis by (cases a) (auto simp: check_authority_def)
qed (simp_all add: check_authority_def)

lemma load_access_catalog_Inr:
  assumes "load_access_catalog lib kt code = Inr (d, m)"
  obtains spec where "compile_model lib d spec = Inr m" "\<exists>s. compile_collection lib s = Inr d"
  using assms by (auto simp: load_access_catalog_def rbind_Inr_iff rerror_Inr_iff split: option.splits if_splits)

text \<open>What a successful transaction has seen.\<close>

lemma reveal_transaction_Inr:
  assumes "reveal_transaction lib kt c now xd = Inr (xd', v)"
  obtains d m f auth records r where "load_access_catalog lib kt (rv_model c) = Inr (d, m)"
    and "cm_revision m = rv_model_revision c" "cm_collection m = cd_name d"
    and "definition_field d (rv_field c) = Some f" "fd_sensitive f" "exposes_sensitive_field m (rv_field c)"
    and "load_record_authority lib (xd_db xd) d (rv_scope c) (rv_key c) = Inr auth"
    and "ay_revision auth = rv_collection_revision c"
    and "evaluate (reveal_query c (cd_name d)) (ay_base auth) (ay_rules auth) = Inr records"
    and "r \<in> set records" "cr_key r = rv_key c" "cr_revision r = rv_record_revision c"
    and "fmlookup (deref_map (cr_data r)) (rv_field c) = Some v"
    and "xd' = xd\<lparr>xd_audits := xd_audits xd @ [reveal_entry c (cd_name d) now]\<rparr>"
proof -
  obtain d m where dm: "load_access_catalog lib kt (rv_model c) = Inr (d, m)"
    using assms by (auto simp: reveal_transaction_def rbind_Inr_iff)
  note checked = assms [unfolded reveal_transaction_def dm rbind_simps prod.case]
  from checked have m: "cm_revision m = rv_model_revision c" "cm_collection m = cd_name d"
    by (simp_all split: if_splits)
  from checked obtain f where f: "definition_field d (rv_field c) = Some f" "fd_sensitive f"
    "exposes_sensitive_field m (rv_field c)"
    by (cases "definition_field d (rv_field c)") (simp_all split: if_splits)
  from checked m f obtain auth where auth:
    "load_record_authority lib (xd_db xd) d (rv_scope c) (rv_key c) = Inr auth"
    "ay_revision auth = rv_collection_revision c"
    by (cases "load_record_authority lib (xd_db xd) d (rv_scope c) (rv_key c)") (simp_all split: if_splits)
  from checked m f auth obtain records where records:
    "evaluate (reveal_query c (cd_name d)) (ay_base auth) (ay_rules auth) = Inr records"
    by (cases "evaluate (reveal_query c (cd_name d)) (ay_base auth) (ay_rules auth)") (simp_all add: rerror_def)
  from checked m f auth records obtain r where r: "List.find (\<lambda>r. cr_key r = rv_key c) records = Some r"
    "cr_revision r = rv_record_revision c" "fmlookup (deref_map (cr_data r)) (rv_field c) = Some v"
    "xd' = xd\<lparr>xd_audits := xd_audits xd @ [reveal_entry c (cd_name d) now]\<rparr>"
    by (auto simp: rerror_def split: option.splits if_splits)
  have "r \<in> set records" "cr_key r = rv_key c" using r(1) by (auto simp: find_Some_iff)
  then show thesis using that dm m f auth records r(2-4) by blast
qed

lemma reveal_Inr:
  assumes "reveal lib kt answer c now xd = (xd', Inr r)"
  obtains sc where "compile_scope (sc_region (rv_scope c)) (sc_environment (rv_scope c)) (sc_stage (rv_scope c)) = Some sc"
    and "reveal_valid c" "list_ex (\<lambda>p. scope_matches p sc) (ca_scopes (rv_who c))"
    and "''SENSITIVE_VIEWER'' \<in> set (ca_roles (rv_who c))" "check_authority c (answer c) = Inr ()"
    and "reveal_transaction lib kt c now xd = Inr (xd', rz_value r)"
proof (cases "compile_scope (sc_region (rv_scope c)) (sc_environment (rv_scope c)) (sc_stage (rv_scope c))")
  case None
  with assms show thesis by (simp add: reveal_def split: if_splits)
next
  case (Some sc)
  note checked = assms [unfolded reveal_def Some option.case]
  from checked have guards: "reveal_valid c" "access_scope_covered (ca_scopes (rv_who c)) sc"
    "''SENSITIVE_VIEWER'' \<in> set (ca_roles (rv_who c))" by (simp_all split: if_splits)
  from checked guards have authority: "check_authority c (answer c) = Inr ()"
    by (cases "check_authority c (answer c)") simp_all
  from checked guards authority have "reveal_transaction lib kt c now xd = Inr (xd', rz_value r)"
    by (auto split: sum.splits)
  with that Some guards authority show thesis by (simp add: access_scope_covered_def)
qed

section \<open>One key and the whole collection\<close>

definition collection_rules :: "database \<Rightarrow> string \<Rightarrow> string \<Rightarrow> overlay_rule list" where
  "collection_rules db collection environment =
     map snd (filter (\<lambda>((c, e, _), _). c = collection \<and> e = environment) (table_rows (db_rules db)))"

text \<open>Rows are filed under what they say about themselves; a record is what compiling it gives.\<close>

definition rules_filed :: "database \<Rightarrow> bool" where
  "rules_filed db \<longleftrightarrow>
     list_all (\<lambda>(p, ru). p = rule_place (ru_collection ru) (ru_scope ru) (ru_key ru)) (table_rows (db_rules db))"

definition records_canonical :: "scalar_lib \<Rightarrow> collection_definition \<Rightarrow> database \<Rightarrow> string \<Rightarrow> bool" where
  "records_canonical lib d db environment \<longleftrightarrow>
     list_all (\<lambda>(key, stored). access_record lib d environment key stored = Inr stored)
       (environment_records db (cd_name d) environment)"

lemma filter_map_snd: "filter P (map snd xs) = map snd (filter (P \<circ> snd) xs)"
  by (simp add: filter_map)

text \<open>The rules of one key that some layer of the query applies are the same in both sets.\<close>

lemma visible_rules_of_key:
  assumes "rules_filed db" "stage \<in> set (query_stages q)"
  shows "filter (\<lambda>r. ru_key r = k) (visible_rules q stage (load_overlay_rules db (oq_collection q) (oq_scope q) [k])) =
    filter (\<lambda>r. ru_key r = k) (visible_rules q stage (collection_rules db (oq_collection q) (sc_environment (oq_scope q))))"
proof -
  have stages: "stage = [] \<or> stage = sc_stage (oq_scope q)"
    using assms(2) by (auto simp: query_stages_def split: if_splits)
  show ?thesis
    unfolding load_overlay_rules_def collection_rules_def visible_rules_def filter_map_snd filter_filter comp_def
    by (rule arg_cong [of _ _ "map snd"], intro filter_cong refl)
      (use assms(1) stages in \<open>auto simp: rules_filed_def list_all_iff rule_place_def rule_in_layer_def\<close>)
qed

lemma effective_value_cong:
  assumes "base_value q base k = base_value q base' k"
    and "\<And>stage. stage \<in> set (query_stages q) \<Longrightarrow>
      filter (\<lambda>r. ru_key r = k) (visible_rules q stage rules) = filter (\<lambda>r. ru_key r = k) (visible_rules q stage rules')"
  shows "effective_value q base rules k = effective_value q base' rules' k"
proof -
  have "layer_value q (visible_rules q stage rules) k cur = layer_value q (visible_rules q stage rules') k cur"
    if "stage \<in> set (query_stages q)" for stage cur
    unfolding layer_value_def assms(2) [OF that] by (rule refl)
  then have "rfold (\<lambda>cur stage. layer_value q (visible_rules q stage rules) k cur) x (query_stages q) =
      rfold (\<lambda>cur stage. layer_value q (visible_rules q stage rules') k cur) x (query_stages q)" for x
    by (intro rfold_cong_list)
  from this [of "base_value q base' k"] show ?thesis unfolding effective_value_def assms(1) .
qed

lemma find_in_list:
  assumes "\<And>x. x \<in> set xs \<Longrightarrow> P x \<Longrightarrow> x = y" "y \<in> set xs" "P y"
  shows "find P xs = Some y"
  using assms
proof (induction xs)
  case (Cons x xs)
  show ?case
  proof (cases "P x")
    case True
    then show ?thesis using Cons.prems(1) [of x] by simp
  next
    case False
    have "y \<in> set xs" using Cons.prems(2,3) False by (metis set_ConsD)
    then have "find P xs = Some y"
      by (intro Cons.IH) (rule Cons.prems(1), simp_all add: Cons.prems(3))
    with False show ?thesis by simp
  qed
qed simp

lemma access_record_key: "access_record lib d environment key stored = Inr r \<Longrightarrow> cr_key r = key"
  by (auto simp: access_record_def split: sum.splits if_splits)

text \<open>The record the transaction loads is the base record of its key in the whole collection.\<close>

lemma loaded_base_value:
  assumes "records_canonical lib d db (sc_environment sc)" "oq_collection q = cd_name d"
    and "load_record_authority lib db d sc k = Inr auth"
  shows "base_value q (ay_base auth) k = base_value q (map snd (environment_records db (cd_name d) (sc_environment sc))) k"
proof -
  let ?rows = "environment_records db (cd_name d) (sc_environment sc)"
  have rows: "(k', r) \<in> set ?rows \<longleftrightarrow> fmlookup (db_records db) (record_place (cd_name d) (sc_environment sc) k') = Some r" for k' r
    by (force simp: environment_records_def record_place_def set_table_rows)
  have canonical: "access_record lib d (sc_environment sc) k' r = Inr r" "cr_key r = k'" if "(k', r) \<in> set ?rows" for k' r
  proof -
    show "access_record lib d (sc_environment sc) k' r = Inr r"
      using assms(1) that by (auto simp: records_canonical_def list_all_iff)
    then show "cr_key r = k'" by (rule access_record_key)
  qed
  let ?P = "\<lambda>r. base_in_query q r \<and> cr_key r = k"
  show ?thesis
  proof (cases "fmlookup (db_records db) (record_place (cd_name d) (sc_environment sc) k)")
    case None
    then have "find ?P (rev (map snd ?rows)) = None"
      using rows canonical(2) by (fastforce simp: find_None_iff)
    moreover have "ay_base auth = []"
      using assms(3) None by (auto simp: load_record_authority_def rbind_Inr_iff)
    ultimately show ?thesis by (simp add: base_value_def)
  next
    case (Some r)
    then have r: "(k, r) \<in> set ?rows" using rows by blast
    then have loaded: "ay_base auth = [r]"
      using assms(3) Some canonical(1) by (auto simp: load_record_authority_def rbind_Inr_iff)
    have same: "x = r" if "x \<in> set (rev (map snd ?rows))" "?P x" for x
      using that rows canonical(2) Some by auto
    show ?thesis
    proof (cases "base_in_query q r")
      case True
      then have "find ?P (rev (map snd ?rows)) = Some r"
        using find_in_list [of "rev (map snd ?rows)" ?P r] same r canonical(2) [OF r] by force
      with True loaded canonical(2) [OF r] show ?thesis by (simp add: base_value_def)
    next
      case False
      then have "find ?P (rev (map snd ?rows)) = None" using same by (auto simp: find_None_iff)
      with False loaded show ?thesis by (simp add: base_value_def)
    qed
  qed
qed

lemma evaluate_member:
  assumes "evaluate q base rules = Inr out" "evaluate q' base' rules' = Inr out'"
    and "effective_value q base rules (cr_key r) = effective_value q' base' rules' (cr_key r)" "r \<in> set out"
  shows "r \<in> set out'"
  using assms(3,4) evaluate_exact(3) [OF assms(1)] evaluate_exact(3) [OF assms(2)] by simp

section \<open>What the page query says of the snapshot\<close>

lemma int64_of_Some: "int64_of v = Some n \<Longrightarrow> of_int n = v"
  by (auto simp: int64_of_def split: if_splits)

lemma page_reply_of_Inr:
  assumes "page_reply_of p = Inr y"
  shows "yr_model y = pg_model p" "yr_snapshot y = Some (pg_identity p)"
    "of_int (yr_model_revision y) = pg_model_revision p" "of_int (yr_collection_revision y) = pg_collection_revision p"
  using assms int64_of_Some
  by (auto simp: page_reply_of_def rbind_Inr_iff revision_int64_def split: option.splits)

lemma query_model_source:
  assumes "query_model lib s q m v = Inr p"
  shows "pg_model p = cm_code m" "pg_identity p = sn_identity s" "pg_model_revision p = cm_revision m"
    "pg_collection_revision p = cv_version v"
proof -
  from assms obtain number width rows where
    "with_interaction lib s q (cv_definition v) m (page_of_rows s q m (cv_version v) number width rows) = Inr p"
    by (auto elim: query_model_Inr)
  then show "pg_model p = cm_code m" "pg_identity p = sn_identity s" "pg_model_revision p = cm_revision m"
    "pg_collection_revision p = cv_version v"
    by (auto simp: with_interaction_def page_of_rows_def Let_def rbind_Inr_iff split: if_splits prod.splits)
qed

lemma translated_Inr:
  "(case m of Inl e \<Rightarrow> Inl (h e) | Inr p \<Rightarrow> g p) = Inr y \<longleftrightarrow> (\<exists>p. m = Inr p \<and> g p = Inr y)"
  by (cases m) simp_all

lemma rpc_query_page_Inr:
  assumes "rpc_query_page lib managed az current identity (Some q) = Inr y"
  obtains s m v where "current = Some s" "sn_environment s = managed"
    and "fmlookup (sn_models s) (trim_space (wq_model q)) = Some m" "fmlookup (sn_collections s) (cm_collection m) = Some v"
    and "yr_model y = cm_code m" "yr_snapshot y = Some (sn_identity s)"
    and "of_int (yr_model_revision y) = cm_revision m" "of_int (yr_collection_revision y) = cv_version v"
proof -
  from assms obtain sc :: scope and t conditions p where p: "page_query lib managed current
      \<lparr>pq_model = wq_model q, pq_region = sc_region sc, pq_environment = sc_environment sc,
       pq_stage = sc_stage sc, pq_bucket = wq_bucket q, pq_type = t,
       pq_number = wq_number q, pq_size = wq_size q, pq_conditions = conditions\<rparr> = Inr p" "page_reply_of p = Inr y"
    by (auto simp: rpc_query_page_def rbind_Inr_iff translated_Inr split: option.splits if_splits)
  then obtain s where s: "current = Some s" "sn_environment s = managed"
    by (auto simp: page_query_def Let_def split: if_splits option.splits)
  from p(1) [unfolded s(1)] show thesis
  proof (cases rule: page_query_Inr)
    case (1 m v)
    then show thesis
      using that [OF s] page_reply_of_Inr [OF p(2)] query_model_source [OF 1(3)] by simp
  qed
qed

text \<open>The client of the config server: what its handler answers on the current snapshot.\<close>

definition page_client ::
  "scalar_lib \<Rightarrow> string \<Rightarrow> request_authorizer \<Rightarrow> snapshot option \<Rightarrow> caller_identity option \<Rightarrow> page_message
     \<Rightarrow> rpc_code + page_reply option" where
  "page_client lib managed az current identity q =
     rbind (rpc_query_page lib managed az current identity (Some q)) (\<lambda>y. Inr (Some y))"

lemma read_snapshot_authority_Some:
  assumes "read_snapshot_authority (page_client lib managed az current identity) c = AuthorityRead (Some a)"
  obtains s m v where "current = Some s" "sn_environment s = managed"
    and "fmlookup (sn_models s) (trim_space (rv_model c)) = Some m" "fmlookup (sn_collections s) (cm_collection m) = Some v"
    and "sa_epoch a = id_epoch (sn_identity s)" "sa_instance a = id_snapshot (sn_identity s)"
    and "sa_generation a = id_generation (sn_identity s)" "sa_model_revision a = cm_revision m"
    and "sa_collection_revision a = cv_version v"
proof -
  from assms obtain y i where y: "rpc_query_page lib managed az current identity (Some (authority_request c)) = Inr y"
    and i: "yr_snapshot y = Some i"
    and a: "sa_epoch a = id_epoch i" "sa_instance a = id_snapshot i" "sa_generation a = id_generation i"
      "sa_model_revision a = of_int (yr_model_revision y)" "sa_collection_revision a = of_int (yr_collection_revision y)"
    by (auto simp: read_snapshot_authority_def page_client_def rbind_def split: if_splits sum.splits option.splits rpc_code.splits)
  from y show thesis
  proof (cases rule: rpc_query_page_Inr)
    case (1 s m v)
    then show thesis using that i a by (simp add: authority_request_def)
  qed
qed

end
