(* ===== verification/Access_Properties.thy ===== *)
theory Access_Properties
  imports Access_Facts Model_Properties Snapshot_Samples
begin

text \<open>
  The claims about revealing a sensitive value (\<open>internal/access\<close>), alone and together with the page
  query of the config server that says which snapshot is current.
\<close>

section \<open>A sample\<close>

text \<open>The witnesses need no digest: it only names the resource of the audit.\<close>

declare sha256_def [code del]

definition reveal_spec :: collection_spec where
  "reveal_spec =
     sample_spec\<lparr>cs_fields := [sample_field ''code'' FieldTypeString True 0,
       (sample_field ''amount'' FieldTypeInt64 False 1)\<lparr>fd_sensitive := True\<rparr>]\<rparr>"

definition reveal_model_spec :: model_spec where
  "reveal_model_spec =
     sample_model_spec\<lparr>ms_auto_fill := [],
       ms_fields := [sample_model_field ''code'' FieldTypeString True,
         (sample_model_field ''amount'' FieldTypeInt64 False)
           \<lparr>mf_sensitive := True, mf_queryable := False, mf_operators := []\<rparr>]\<rparr>"

definition reveal_tables :: catalog_tables where
  "reveal_tables =
     \<lparr>kt_collections = fmap_of_list [(''limits'', \<lparr>cw_spec = reveal_spec, cw_enabled = True\<rparr>)],
      kt_models = fmap_of_list [(''limit_editor'', \<lparr>mw_spec = reveal_model_spec, mw_enabled = True\<rparr>)],
      kt_templates = fmempty\<rparr>"

definition reveal_collection :: collection_definition where
  "reveal_collection = fst (projr (load_access_catalog sample_lib reveal_tables ''limit_editor''))"

definition reveal_model :: compiled_model where
  "reveal_model = snd (projr (load_access_catalog sample_lib reveal_tables ''limit_editor''))"

definition reveal_limit :: "string \<Rightarrow> string \<Rightarrow> config_record" where
  "reveal_limit code amount =
     (projr (new_record sample_lib reveal_collection ''prod'' (fmap_of_list [(''code'', code), (''amount'', amount)])))
       \<lparr>cr_revision := 2\<rparr>"

definition reveal_start :: access_db where
  "reveal_start =
     \<lparr>xd_db = \<lparr>db_counter = Some 3,
        db_records = fmap_of_list (map (\<lambda>r. (record_place ''limits'' ''prod'' (cr_key r), r))
          [reveal_limit ''eur'' ''5'', reveal_limit ''usd'' ''7'']),
        db_rules = fmempty,
        db_versions = fmap_of_list [((''limits'', ''prod''),
          \<lparr>vr_revision = 3, vr_base_digest = [], vr_overlay_digest = [], vr_order = [], vr_at = 0\<rparr>)],
        db_log = [], db_events = [], db_audit = []\<rparr>, xd_audits = []\<rparr>"

definition reveal_snapshot :: snapshot where
  "reveal_snapshot =
     (empty_snapshot (make_identity sample_seed 1 5) ''prod'')
       \<lparr>sn_collections := fmupd ''limits''
          \<lparr>cv_definition = reveal_collection, cv_version = 3, cv_cursor = 7,
           cv_digest = \<lparr>dg_algorithm = ''SHA-256'', dg_value = []\<rparr>, cv_records = fmempty,
           cv_ordered = [], cv_rules = [], cv_consumers = []\<rparr> fmempty,
        sn_models := fmupd ''limit_editor'' reveal_model fmempty\<rparr>"

definition reveal_caller :: caller_identity where
  "reveal_caller =
     \<lparr>ca_subject = ''ann'', ca_display_name = [], ca_roles = [''VIEWER'', ''SENSITIVE_VIEWER''],
      ca_scopes = [\<lparr>sc_region = ''*'', sc_environment = ''prod'', sc_stage = ''*''\<rparr>]\<rparr>"

definition reveal_sample :: reveal_command where
  "reveal_sample =
     \<lparr>rv_model = ''limit_editor'', rv_scope = \<lparr>sc_region = ''eu'', sc_environment = ''prod'', sc_stage = []\<rparr>,
      rv_key = cr_key (reveal_limit ''usd'' ''7''), rv_field = ''amount'', rv_record_revision = 2,
      rv_collection_revision = 3, rv_model_revision = 4, rv_epoch = id_epoch (sn_identity reveal_snapshot),
      rv_instance = id_snapshot (sn_identity reveal_snapshot), rv_generation = id_generation (sn_identity reveal_snapshot),
      rv_reason = ''audit'', rv_bucket = None, rv_request = ''q1'', rv_trace = [], rv_who = reveal_caller\<rparr>"

definition reveal_client :: "page_message \<Rightarrow> rpc_code + page_reply option" where
  "reveal_client =
     page_client sample_lib ''prod'' \<lparr>az_page_roles = [''VIEWER''], az_relays = []\<rparr> (Some reveal_snapshot) (Some reveal_caller)"

lemma reveal_sample_value:
  "\<exists>xd'. reveal sample_lib reveal_tables (read_snapshot_authority reveal_client) reveal_sample 10 reveal_start =
     (xd', Inr \<lparr>rz_value = ''7'', rz_expires = 60000000010\<rparr>)"
proof -
  have "snd (reveal sample_lib reveal_tables (read_snapshot_authority reveal_client) reveal_sample 10 reveal_start) =
     Inr \<lparr>rz_value = ''7'', rz_expires = 60000000010\<rparr>" by code_simp
  then show ?thesis by (metis prod.collapse)
qed

lemma reveal_sample_loads: "load_access_catalog sample_lib reveal_tables (rv_model reveal_sample) = Inr (reveal_collection, reveal_model)"
proof -
  have "is_ok (load_access_catalog sample_lib reveal_tables (rv_model reveal_sample))" by code_simp
  then show ?thesis by (auto simp: is_ok_iff reveal_collection_def reveal_model_def reveal_sample_def)
qed

section \<open>Who sees what\<close>

text \<open>
  C19: A sensitive value is revealed only to a principal whose scopes cover the scope and who has the
  role for it, of a field the definition marks sensitive and the model exposes, while the snapshot,
  model, collection and record revisions are those the request names; it leaves exactly one audit.
  A refused request changes nothing.
\<close>

theorem reveal_is_authorised_and_audited:
  "case reveal lib kt answer c now xd of
     (xd', Inl e) \<Rightarrow> xd' = xd
   | (xd', Inr r) \<Rightarrow> \<exists>sc d m f.
       compile_scope (sc_region (rv_scope c)) (sc_environment (rv_scope c)) (sc_stage (rv_scope c)) = Some sc \<and>
       list_ex (\<lambda>p. scope_matches p sc) (ca_scopes (rv_who c)) \<and> ''SENSITIVE_VIEWER'' \<in> set (ca_roles (rv_who c)) \<and>
       answer c = AuthorityRead (Some \<lparr>sa_environment = sc_environment (rv_scope c), sa_epoch = rv_epoch c,
         sa_instance = rv_instance c, sa_generation = rv_generation c, sa_model_revision = rv_model_revision c,
         sa_collection_revision = rv_collection_revision c\<rparr>) \<and>
       load_access_catalog lib kt (rv_model c) = Inr (d, m) \<and> cm_revision m = rv_model_revision c \<and>
       definition_field d (rv_field c) = Some f \<and> fd_sensitive f \<and> exposes_sensitive_field m (rv_field c) \<and>
       load_version (xd_db xd) (cd_name d) (sc_environment (rv_scope c)) = Inr (rv_collection_revision c) \<and>
       xd' = xd\<lparr>xd_audits := xd_audits xd @ [reveal_entry c (cd_name d) now]\<rparr>"
proof (cases "reveal lib kt answer c now xd")
  case (Pair xd' result)
  show ?thesis
  proof (cases result)
    case (Inl e)
    with Pair have "xd' = xd" by (auto simp: reveal_def split: if_splits option.splits sum.splits)
    with Pair Inl show ?thesis by simp
  next
    case (Inr r)
    from Pair [unfolded Inr] show ?thesis
    proof (cases rule: reveal_Inr)
      case (1 sc)
      from 1(6) show ?thesis
      proof (cases rule: reveal_transaction_Inr)
        case (1 d m f auth records rec)
        from 1(7,8) have "load_version (xd_db xd) (cd_name d) (sc_environment (rv_scope c)) = Inr (rv_collection_revision c)"
          by (auto simp: load_record_authority_def rbind_Inr_iff rerror_Inr_iff)
        with 1 \<open>check_authority c (answer c) = Inr ()\<close> \<open>compile_scope _ _ _ = Some sc\<close>
          \<open>list_ex _ _\<close> \<open>_ \<in> set (ca_roles _)\<close> show ?thesis
          unfolding Pair Inr by (simp add: check_authority_Inr)
      qed
    qed
  qed
qed

section \<open>What is revealed\<close>

text \<open>
  C20: The value revealed is that of the record in the evaluation of the whole collection in the scope,
  although only one record and its rules were loaded.
\<close>

theorem revealed_value_is_effective:
  assumes "reveal lib kt answer c now xd = (xd', Inr r)" "load_access_catalog lib kt (rv_model c) = Inr (d, m)"
    and "rules_filed (xd_db xd)" "records_canonical lib d (xd_db xd) (sc_environment (rv_scope c))"
    and "evaluate (reveal_query c (cd_name d))
      (map snd (environment_records (xd_db xd) (cd_name d) (sc_environment (rv_scope c))))
      (collection_rules (xd_db xd) (cd_name d) (sc_environment (rv_scope c))) = Inr out"
  shows "\<exists>rec \<in> set out. cr_key rec = rv_key c \<and> cr_revision rec = rv_record_revision c \<and>
    fmlookup (deref_map (cr_data rec)) (rv_field c) = Some (rz_value r)"
proof -
  from assms(1) have "reveal_transaction lib kt c now xd = Inr (xd', rz_value r)" by (cases rule: reveal_Inr)
  then show ?thesis
  proof (cases rule: reveal_transaction_Inr)
    case (1 d' m' f auth records rec)
    let ?q = "reveal_query c (cd_name d)" and ?env = "sc_environment (rv_scope c)"
    have d: "d' = d" using 1(1) assms(2) by simp
    have q: "oq_collection ?q = cd_name d" "oq_scope ?q = rv_scope c" by (simp_all add: reveal_query_def)
    note load = 1(7) [unfolded d]
    have rules: "ay_rules auth = load_overlay_rules (xd_db xd) (oq_collection ?q) (oq_scope ?q) [rv_key c]"
      using load by (auto simp: load_record_authority_def rbind_Inr_iff q)
    have base: "base_value ?q (ay_base auth) (rv_key c) =
        base_value ?q (map snd (environment_records (xd_db xd) (cd_name d) ?env)) (rv_key c)"
      by (rule loaded_base_value [OF assms(4) q(1) load])
    have "effective_value ?q (ay_base auth) (ay_rules auth) (rv_key c) =
        effective_value ?q (map snd (environment_records (xd_db xd) (cd_name d) ?env))
          (collection_rules (xd_db xd) (cd_name d) ?env) (rv_key c)"
      unfolding rules by (rule effective_value_cong [OF base [unfolded rules]])
        (use visible_rules_of_key [OF assms(3), of _ ?q] q in simp)
    with evaluate_member [OF 1(9) [unfolded d] assms(5)] 1(10,11) have "rec \<in> set out" by simp
    with 1(11-13) show ?thesis by blast
  qed
qed

section \<open>The snapshot the caller saw\<close>

text \<open>
  C21: With the config server's page query as the authority, a value is revealed only while the server
  serves the snapshot the request names and the tables still hold the model and collection revisions
  of that snapshot: the caller decided on the state the value is taken from.
\<close>

theorem reveal_matches_served_snapshot:
  assumes "reveal lib kt (read_snapshot_authority (page_client lib managed az current identity)) c now xd = (xd', Inr r)"
  shows "\<exists>s m v d m'. current = Some s \<and> sn_environment s = managed \<and> id_epoch (sn_identity s) = rv_epoch c \<and>
    id_snapshot (sn_identity s) = rv_instance c \<and> id_generation (sn_identity s) = rv_generation c \<and>
    fmlookup (sn_models s) (trim_space (rv_model c)) = Some m \<and>
    fmlookup (sn_collections s) (cm_collection m) = Some v \<and>
    load_access_catalog lib kt (rv_model c) = Inr (d, m') \<and> cm_revision m' = cm_revision m \<and>
    load_version (xd_db xd) (cd_name d) (sc_environment (rv_scope c)) = Inr (cv_version v)"
proof -
  obtain a where a: "read_snapshot_authority (page_client lib managed az current identity) c = AuthorityRead (Some a)"
    "sa_epoch a = rv_epoch c" "sa_instance a = rv_instance c" "sa_generation a = rv_generation c"
    "sa_model_revision a = rv_model_revision c" "sa_collection_revision a = rv_collection_revision c"
    and run: "reveal_transaction lib kt c now xd = Inr (xd', rz_value r)"
    using assms by (cases rule: reveal_Inr) (simp add: check_authority_Inr)
  from run obtain d m' where db: "load_access_catalog lib kt (rv_model c) = Inr (d, m')"
    "cm_revision m' = rv_model_revision c"
    "load_version (xd_db xd) (cd_name d) (sc_environment (rv_scope c)) = Inr (rv_collection_revision c)"
    by (cases rule: reveal_transaction_Inr) (auto simp: load_record_authority_def rbind_Inr_iff rerror_Inr_iff)
  from a(1) show ?thesis
  proof (cases rule: read_snapshot_authority_Some)
    case (1 s m v)
    then show ?thesis using a(2-6) db by simp
  qed
qed

section \<open>Witnesses\<close>

theorem revealed_value_is_effective_witness:
  "\<exists>out. evaluate (reveal_query reveal_sample ''limits'')
      (map snd (environment_records (xd_db reveal_start) ''limits'' ''prod''))
      (collection_rules (xd_db reveal_start) ''limits'' ''prod'') = Inr out \<and>
    list_ex (\<lambda>rec. cr_key rec = rv_key reveal_sample \<and> fmlookup (deref_map (cr_data rec)) ''amount'' = Some ''7'') out"
proof -
  have names: "cd_name reveal_collection = ''limits''" "sc_environment (rv_scope reveal_sample) = ''prod''"
    "rv_field reveal_sample = ''amount''" by (code_simp, simp_all add: reveal_sample_def)
  have "is_ok (evaluate (reveal_query reveal_sample ''limits'')
      (map snd (environment_records (xd_db reveal_start) ''limits'' ''prod''))
      (collection_rules (xd_db reveal_start) ''limits'' ''prod''))" by code_simp
  then obtain out where out: "evaluate (reveal_query reveal_sample ''limits'')
      (map snd (environment_records (xd_db reveal_start) ''limits'' ''prod''))
      (collection_rules (xd_db reveal_start) ''limits'' ''prod'') = Inr out" by (auto simp: is_ok_iff)
  obtain xd' where run: "reveal sample_lib reveal_tables (read_snapshot_authority reveal_client) reveal_sample 10 reveal_start =
     (xd', Inr \<lparr>rz_value = ''7'', rz_expires = 60000000010\<rparr>)" using reveal_sample_value by blast
  have filed: "rules_filed (xd_db reveal_start)" by code_simp
  have canonical: "records_canonical sample_lib reveal_collection (xd_db reveal_start) ''prod''" by code_simp
  from revealed_value_is_effective [OF run reveal_sample_loads filed, unfolded names, OF canonical out]
  have "list_ex (\<lambda>rec. cr_key rec = rv_key reveal_sample \<and> fmlookup (deref_map (cr_data rec)) ''amount'' = Some ''7'') out"
    by (auto simp: list_ex_iff)
  with out show ?thesis by blast
qed

theorem reveal_matches_served_snapshot_witness:
  "\<exists>m d m'. fmlookup (sn_models reveal_snapshot) ''limit_editor'' = Some m \<and>
    load_access_catalog sample_lib reveal_tables ''limit_editor'' = Inr (d, m') \<and> cm_revision m' = cm_revision m \<and>
    load_version (xd_db reveal_start) (cd_name d) ''prod'' = Inr 3"
proof -
  obtain xd' where "reveal sample_lib reveal_tables (read_snapshot_authority reveal_client) reveal_sample 10 reveal_start =
     (xd', Inr \<lparr>rz_value = ''7'', rz_expires = 60000000010\<rparr>)" using reveal_sample_value by blast
  from reveal_matches_served_snapshot [OF this [unfolded reveal_client_def]] obtain m v d m' where
    *: "fmlookup (sn_models reveal_snapshot) (trim_space (rv_model reveal_sample)) = Some m"
      "fmlookup (sn_collections reveal_snapshot) (cm_collection m) = Some v"
      "load_access_catalog sample_lib reveal_tables (rv_model reveal_sample) = Inr (d, m')" "cm_revision m' = cm_revision m"
      "load_version (xd_db reveal_start) (cd_name d) (sc_environment (rv_scope reveal_sample)) = Inr (cv_version v)"
    by (elim exE conjE) (drule option.inject [THEN iffD1], hypsubst, rule that)
  have "trim_space (rv_model reveal_sample) = ''limit_editor''" by code_simp
  moreover have "cv_version v = 3" using *(2) by (auto simp: reveal_snapshot_def split: if_splits)
  ultimately show ?thesis using * by (auto simp: reveal_sample_def)
qed

end
