(* ===== verification/Catalog_Admin.thy ===== *)
theory Catalog_Admin
  imports Release_Catalog
begin

text \<open>
  The administration of the catalog, its tables: \<open>internal/catalog/mysqlstore/store.go\<close> with the data of
  \<open>internal/catalog/application/service.go\<close>. A row holds what its JSON columns decode to; the key
  constraints and the \<open>CHECK\<close> constraints that depend on the values written are modelled, as is the
  error class that \<open>classify\<close> gives each. A transaction yields an error or the new tables.
\<close>

datatype catalog_fault =
    CatalogInvalid
  | CatalogForbidden
  | CatalogNotFound
  | CatalogExists
  | CatalogAborted
  | CatalogPrecondition
  | CatalogFailure String.literal

record catalog_principal =
  ap_subject :: string
  ap_name :: string
  ap_roles :: "string list"

record audit_stamp =
  us_created_at :: gotime
  us_created_by :: string
  us_updated_at :: gotime
  us_updated_by :: string

section \<open>Rows\<close>

record catalog_collection =
  kc_spec :: collection_spec
  kc_status :: string
  kc_revision :: u64
  kc_stamp :: audit_stamp

text \<open>What the service answers about a collection; the other answers have the fields of their rows.\<close>

record collection_answer =
  vc_definition :: collection_definition
  vc_status :: string
  vc_revision :: u64
  vc_stamp :: audit_stamp

record subscription_input =
  si_id :: string
  si_consumer :: string
  si_collection :: string
  si_index :: string
  si_fields :: "string list"
  si_cardinality :: string
  si_enabled :: bool

record catalog_subscription =
  kb_input :: subscription_input
  kb_revision :: u64
  kb_stamp :: audit_stamp

text \<open>The bytes of a model definition: none, no JSON of a model, or the specification they decode to.\<close>

datatype model_document = EmptyDocument | MalformedDocument | ModelDocument model_spec

record model_input =
  mi_code :: string
  mi_name :: string
  mi_collection :: string
  mi_document :: model_document
  mi_enabled :: bool

record catalog_model =
  km_input :: model_input
  km_revision :: u64
  km_stamp :: audit_stamp

text \<open>A nil list of roles is \<open>None\<close>: it is stored as the JSON null, not as an array.\<close>

record template_input =
  ti_code :: string
  ti_name :: string
  ti_model :: string
  ti_type :: string
  ti_effect :: final_effect
  ti_scheduling :: bool
  ti_window :: int
  ti_document :: string
  ti_roles :: "string list option"
  ti_enabled :: bool

record catalog_template =
  kp_input :: template_input
  kp_version :: int
  kp_created_at :: gotime
  kp_created_by :: string

record admin_db =
  ab_db :: database
  ab_collections :: "(string, catalog_collection) fmap"
  ab_subscriptions :: "(string, catalog_subscription) fmap"
  ab_models :: "(string, catalog_model) fmap"
  ab_templates :: "(string \<times> int, catalog_template) fmap"

definition new_stamp :: "gotime \<Rightarrow> catalog_principal \<Rightarrow> audit_stamp" where
  "new_stamp at actor =
     \<lparr>us_created_at = at, us_created_by = ap_subject actor, us_updated_at = at, us_updated_by = ap_subject actor\<rparr>"

definition touch_stamp :: "audit_stamp \<Rightarrow> gotime \<Rightarrow> catalog_principal \<Rightarrow> audit_stamp" where
  "touch_stamp stamp at actor = stamp\<lparr>us_updated_at := at, us_updated_by := ap_subject actor\<rparr>"

section \<open>Facts of a change\<close>

definition allocate_revision :: "admin_db \<Rightarrow> catalog_fault + admin_db \<times> u64" where
  "allocate_revision ab =
     rbind (rerror (CatalogFailure STR ''global config revision counter was not found'')
              (allocate_config_revision (ab_db ab))) (\<lambda>(db, revision).
     Inr (ab\<lparr>ab_db := db\<rparr>, revision))"

definition refuse :: "catalog_fault \<Rightarrow> bool \<Rightarrow> catalog_fault + unit" where
  "refuse e b = (if b then Inl e else Inr ())"

lemma refuse_Inr [go_results]: "refuse e b = Inr u \<longleftrightarrow> \<not> b"
  by (simp add: refuse_def)

text \<open>The environments that have versions, and those in which a collection has one.\<close>

definition known_environments :: "database \<Rightarrow> string list" where
  "known_environments db = sorted_list_of_fset (snd |`| fmdom (db_versions db))"

definition collection_environments :: "database \<Rightarrow> string \<Rightarrow> string list" where
  "collection_environments db collection =
     sorted_list_of_fset (snd |`| ffilter (\<lambda>p. fst p = collection) (fmdom (db_versions db)))"

definition empty_digest_value :: string where
  "empty_digest_value = hex_encode (sha256 ''[]'')"

definition insert_version ::
  "string \<Rightarrow> u64 \<Rightarrow> gotime \<Rightarrow> database \<Rightarrow> string \<Rightarrow> catalog_fault + database" where
  "insert_version collection revision at db environment =
     rbind (refuse CatalogInvalid (revision = 0)) (\<lambda>_.
     rbind (refuse CatalogExists ((collection, environment) |\<in>| fmdom (db_versions db))) (\<lambda>_.
     Inr (db\<lparr>db_versions := fmupd (collection, environment)
            \<lparr>vr_revision = revision, vr_base_digest = empty_digest_value, vr_overlay_digest = empty_digest_value,
             vr_order = [], vr_at = at\<rparr> (db_versions db)\<rparr>)))"

definition touch_versions :: "string \<Rightarrow> u64 \<Rightarrow> gotime \<Rightarrow> database \<Rightarrow> catalog_fault + database" where
  "touch_versions collection revision at db =
     rbind (refuse CatalogInvalid (revision = 0 \<and> collection_environments db collection \<noteq> [])) (\<lambda>_.
     Inr (db\<lparr>db_versions := fmmap_keys (\<lambda>(c, _) v. if c = collection then v\<lparr>vr_revision := revision, vr_at := at\<rparr> else v)
            (db_versions db)\<rparr>))"

text \<open>A \<open>map[string]any\<close> is printed in key order.\<close>

definition metadata_payload :: "string \<Rightarrow> string \<Rightarrow> u64 \<Rightarrow> json" where
  "metadata_payload collection environment revision =
     JObj [(''collection'', JStr collection), (''configRevision'', json_int (uint revision)),
           (''environment'', JStr environment), (''schemaVersion'', json_int 1)]"

definition metadata_key :: "string \<Rightarrow> string \<Rightarrow> string \<Rightarrow> u64 \<Rightarrow> string" where
  "metadata_key act resource environment revision =
     hex_encode (sha256 (''catalog:'' @ act @ '':'' @ resource @ '':'' @ environment @ '':'' @ format_int (uint revision)))"

definition insert_metadata_event ::
  "string \<Rightarrow> string \<Rightarrow> string \<Rightarrow> string \<Rightarrow> u64 \<Rightarrow> gotime \<Rightarrow> database \<Rightarrow> string \<Rightarrow> catalog_fault + database" where
  "insert_metadata_event act kind resource collection revision at db environment =
     rbind (refuse CatalogExists (metadata_key act resource environment revision \<in> ev_key ` set (db_events db))) (\<lambda>_.
     Inr (db\<lparr>db_events := db_events db @
       [\<lparr>ev_type = kind, ev_aggregate = resource, ev_payload = metadata_payload collection environment revision,
         ev_key = metadata_key act resource environment revision, ev_at = at\<rparr>]\<rparr>))"

text \<open>The rows of the change log and of the audit.\<close>

definition log_metadata ::
  "string \<Rightarrow> string \<Rightarrow> string \<Rightarrow> string \<Rightarrow> u64 \<Rightarrow> catalog_principal \<Rightarrow> gotime \<Rightarrow> database \<Rightarrow> database" where
  "log_metadata act kind resource collection revision actor at db =
     (let nowhere = \<lparr>sc_region = [], sc_environment = [], sc_stage = []\<rparr>
      in db\<lparr>db_log := db_log db @ [\<lparr>lg_collection = collection, lg_kind = ''METADATA'', lg_scope = nowhere,
            lg_key = [], lg_action = act, lg_before = None, lg_after = None, lg_revision = revision, lg_order = [],
            lg_at = at\<rparr>],
           db_audit := db_audit db @ [\<lparr>ad_at = at, ad_actor = ap_subject actor, ad_name = ap_name actor,
             ad_action = act, ad_type = kind, ad_resource = resource, ad_scope = nowhere\<rparr>]\<rparr>)"

definition write_versions ::
  "string \<Rightarrow> string \<Rightarrow> string \<Rightarrow> u64 \<Rightarrow> gotime \<Rightarrow> database \<Rightarrow> catalog_fault + database \<times> string list" where
  "write_versions act kind collection revision at db =
     (if kind = ''COLLECTION'' \<and> act = ''ADD''
      then rbind (rfold (insert_version collection revision at) db (known_environments db)) (\<lambda>db'.
           Inr (db', known_environments db))
      else rbind (touch_versions collection revision at db) (\<lambda>db'. Inr (db', collection_environments db collection)))"

definition append_metadata_facts ::
  "string \<Rightarrow> string \<Rightarrow> string \<Rightarrow> string \<Rightarrow> u64 \<Rightarrow> catalog_principal \<Rightarrow> gotime \<Rightarrow> database \<Rightarrow> catalog_fault + database" where
  "append_metadata_facts act kind resource collection revision actor at db =
     rbind (refuse CatalogInvalid (revision = 0)) (\<lambda>_.
     rbind (write_versions act kind collection revision at
             (log_metadata act kind resource collection revision actor at db)) (\<lambda>(db', environments).
     rfold (insert_metadata_event act kind resource collection revision at) db' environments))"

definition record_facts ::
  "string \<Rightarrow> string \<Rightarrow> string \<Rightarrow> string \<Rightarrow> u64 \<Rightarrow> catalog_principal \<Rightarrow> gotime \<Rightarrow> admin_db \<Rightarrow> catalog_fault + admin_db" where
  "record_facts act kind resource collection revision actor at ab =
     rbind (append_metadata_facts act kind resource collection revision actor at (ab_db ab)) (\<lambda>db.
     Inr (ab\<lparr>ab_db := db\<rparr>))"

section \<open>Collections\<close>

definition spec_of_definition :: "collection_definition \<Rightarrow> collection_spec" where
  "spec_of_definition d =
     \<lparr>cs_name = cd_name d, cs_description = cd_description d, cs_fields = cd_fields d,
      cs_key_fields = cd_key_fields d, cs_sdk_delivery = cd_sdk_delivery d, cs_schema_version = cd_schema_version d\<rparr>"

definition compile_collection_row ::
  "scalar_lib \<Rightarrow> catalog_collection \<Rightarrow> catalog_fault + collection_definition" where
  "compile_collection_row lib row =
     rerror (CatalogFailure STR ''compile collection'') (compile_collection lib (kc_spec row))"

definition create_collection ::
  "collection_definition \<Rightarrow> string \<Rightarrow> catalog_principal \<Rightarrow> gotime \<Rightarrow> admin_db
     \<Rightarrow> catalog_fault + admin_db \<times> collection_answer" where
  "create_collection d status actor at ab0 =
     rbind (allocate_revision ab0) (\<lambda>(ab1, revision).
     rbind (refuse CatalogInvalid (revision = 0)) (\<lambda>_.
     rbind (refuse CatalogExists (cd_name d |\<in>| fmdom (ab_collections ab1))) (\<lambda>_.
     let row = \<lparr>kc_spec = spec_of_definition d, kc_status = status, kc_revision = revision, kc_stamp = new_stamp at actor\<rparr>
     in rbind (record_facts ''ADD'' ''COLLECTION'' (cd_name d) (cd_name d) revision actor at
                (ab1\<lparr>ab_collections := fmupd (cd_name d) row (ab_collections ab1)\<rparr>)) (\<lambda>ab2.
        Inr (ab2, \<lparr>vc_definition = d, vc_status = status, vc_revision = revision, vc_stamp = new_stamp at actor\<rparr>)))))"

definition field_kept :: "collection_definition \<Rightarrow> field_definition \<Rightarrow> bool" where
  "field_kept new f \<longleftrightarrow>
     (case definition_field new (fd_name f) of
        None \<Rightarrow> False
      | Some g \<Rightarrow> fd_type f = fd_type g \<and> fd_required f = fd_required g \<and> fd_sensitive f = fd_sensitive g \<and>
          fd_rules f = fd_rules g)"

definition destructive_change :: "collection_definition \<Rightarrow> collection_definition \<Rightarrow> bool" where
  "destructive_change current new \<longleftrightarrow>
     cd_key_fields current \<noteq> cd_key_fields new \<or> \<not> list_all (field_kept new) (cd_fields current) \<or>
     list_ex (\<lambda>g. definition_field current (fd_name g) = None \<and> fd_required g \<and> fd_default g = None) (cd_fields new)"

definition has_records :: "database \<Rightarrow> string \<Rightarrow> bool" where
  "has_records db collection \<longleftrightarrow> collection |\<in>| fst |`| fmdom (db_records db)"

text \<open>The row it loaded is locked, and its revision always changes, so the update counts one row.\<close>

definition update_collection ::
  "scalar_lib \<Rightarrow> collection_definition \<Rightarrow> string \<Rightarrow> u64 \<Rightarrow> catalog_principal \<Rightarrow> gotime \<Rightarrow> admin_db
     \<Rightarrow> catalog_fault + admin_db \<times> collection_answer" where
  "update_collection lib d status expected actor at ab0 =
     (case fmlookup (ab_collections ab0) (cd_name d) of
        None \<Rightarrow> Inl CatalogNotFound
      | Some row \<Rightarrow>
          if kc_revision row \<noteq> expected then Inl CatalogAborted
          else rbind (compile_collection_row lib row) (\<lambda>current.
            if has_records (ab_db ab0) (cd_name d) \<and> destructive_change current d then Inl CatalogPrecondition
            else rbind (allocate_revision ab0) (\<lambda>(ab1, revision).
              rbind (refuse CatalogInvalid (revision = 0)) (\<lambda>_.
              let row' = \<lparr>kc_spec = spec_of_definition d, kc_status = status, kc_revision = revision,
                          kc_stamp = touch_stamp (kc_stamp row) at actor\<rparr>
              in rbind (record_facts ''MODIFY'' ''COLLECTION'' (cd_name d) (cd_name d) revision actor at
                         (ab1\<lparr>ab_collections := fmupd (cd_name d) row' (ab_collections ab1)\<rparr>)) (\<lambda>ab2.
                 Inr (ab2, \<lparr>vc_definition = d, vc_status = status, vc_revision = revision,
                            vc_stamp = kc_stamp row'\<rparr>))))))"

definition answer_of_row :: "scalar_lib \<Rightarrow> catalog_collection \<Rightarrow> catalog_fault + collection_answer" where
  "answer_of_row lib row =
     rbind (compile_collection_row lib row) (\<lambda>d.
     Inr \<lparr>vc_definition = d, vc_status = kc_status row, vc_revision = kc_revision row, vc_stamp = kc_stamp row\<rparr>)"

definition get_collection :: "scalar_lib \<Rightarrow> string \<Rightarrow> admin_db \<Rightarrow> catalog_fault + collection_answer" where
  "get_collection lib name ab =
     (case fmlookup (ab_collections ab) name of
        None \<Rightarrow> Inl CatalogNotFound | Some row \<Rightarrow> answer_of_row lib row)"

section \<open>Pages\<close>

record 'a catalog_page =
  gp_rows :: "'a list"
  gp_number :: int
  gp_size :: int
  gp_total :: int
  gp_pages :: int

text \<open>\<open>LIMIT\<close> and \<open>OFFSET\<close>; the number is at least 1 and the size between 1 and 100.\<close>

definition page_count :: "int \<Rightarrow> int \<Rightarrow> int" where
  "page_count amount width = (if amount = 0 then 0 else (amount + width - 1) div width)"

definition page_of :: "'a list \<Rightarrow> int \<Rightarrow> int \<Rightarrow> 'a catalog_page" where
  "page_of rows number width =
     \<lparr>gp_rows = take (nat width) (drop (nat ((number - 1) * width)) rows), gp_number = number, gp_size = width,
      gp_total = int (length rows), gp_pages = page_count (int (length rows)) width\<rparr>"

definition list_collections ::
  "scalar_lib \<Rightarrow> int \<Rightarrow> int \<Rightarrow> admin_db \<Rightarrow> catalog_fault + collection_answer catalog_page" where
  "list_collections lib number width ab =
     (let rows = map snd (table_rows (ab_collections ab)); shown = page_of rows number width
      in rbind (rmap (answer_of_row lib) (gp_rows shown)) (\<lambda>answers.
         Inr \<lparr>gp_rows = answers, gp_number = number, gp_size = width, gp_total = gp_total shown,
              gp_pages = gp_pages shown\<rparr>))"

section \<open>Subscriptions\<close>

definition index_field_ok :: "collection_definition \<Rightarrow> string \<Rightarrow> bool" where
  "index_field_ok d name \<longleftrightarrow> (case definition_field d name of None \<Rightarrow> False | Some f \<Rightarrow> \<not> fd_sensitive f)"

definition validate_subscription_collection ::
  "scalar_lib \<Rightarrow> subscription_input \<Rightarrow> admin_db \<Rightarrow> catalog_fault + unit" where
  "validate_subscription_collection lib s ab =
     (case fmlookup (ab_collections ab) (si_collection s) of
        None \<Rightarrow> Inl CatalogPrecondition
      | Some row \<Rightarrow>
          rbind (compile_collection_row lib row) (\<lambda>d.
          if si_enabled s \<and> (kc_status row \<noteq> ''ENABLED'' \<or> \<not> cd_sdk_delivery d) then Inl CatalogPrecondition
          else if \<not> list_all (index_field_ok d) (si_fields s) then Inl CatalogPrecondition
          else Inr ()))"

text \<open>\<open>uq_subscription_identity\<close>\<close>

definition subscription_identity :: "subscription_input \<Rightarrow> string \<times> string \<times> string" where
  "subscription_identity s = (si_consumer s, si_collection s, si_index s)"

definition identity_taken :: "subscription_input \<Rightarrow> admin_db \<Rightarrow> bool" where
  "identity_taken s ab \<longleftrightarrow>
     list_ex (\<lambda>(k, row). k \<noteq> si_id s \<and> subscription_identity (kb_input row) = subscription_identity s)
       (table_rows (ab_subscriptions ab))"

text \<open>\<open>fresh\<close> is what \<open>UUID()\<close> of the database returns.\<close>

definition create_subscription ::
  "scalar_lib \<Rightarrow> string \<Rightarrow> subscription_input \<Rightarrow> catalog_principal \<Rightarrow> gotime \<Rightarrow> admin_db
     \<Rightarrow> catalog_fault + admin_db \<times> catalog_subscription" where
  "create_subscription lib fresh s actor at ab0 =
     rbind (validate_subscription_collection lib s ab0) (\<lambda>_.
     rbind (allocate_revision ab0) (\<lambda>(ab1, revision).
     let row = \<lparr>kb_input = s\<lparr>si_id := fresh\<rparr>, kb_revision = revision, kb_stamp = new_stamp at actor\<rparr>
     in rbind (refuse CatalogInvalid (revision = 0)) (\<lambda>_.
        rbind (refuse CatalogExists (fresh |\<in>| fmdom (ab_subscriptions ab1) \<or> identity_taken (kb_input row) ab1)) (\<lambda>_.
        rbind (record_facts ''ADD'' ''SUBSCRIPTION'' fresh (si_collection s) revision actor at
                (ab1\<lparr>ab_subscriptions := fmupd fresh row (ab_subscriptions ab1)\<rparr>)) (\<lambda>ab2.
        Inr (ab2, row))))))"

definition update_subscription ::
  "scalar_lib \<Rightarrow> subscription_input \<Rightarrow> u64 \<Rightarrow> catalog_principal \<Rightarrow> gotime \<Rightarrow> admin_db
     \<Rightarrow> catalog_fault + admin_db \<times> catalog_subscription" where
  "update_subscription lib s expected actor at ab0 =
     (case fmlookup (ab_subscriptions ab0) (si_id s) of
        None \<Rightarrow> Inl CatalogNotFound
      | Some old \<Rightarrow>
          if kb_revision old \<noteq> expected then Inl CatalogAborted
          else rbind (validate_subscription_collection lib s ab0) (\<lambda>_.
            rbind (allocate_revision ab0) (\<lambda>(ab1, revision).
            let row = \<lparr>kb_input = s, kb_revision = revision, kb_stamp = touch_stamp (kb_stamp old) at actor\<rparr>
            in rbind (refuse CatalogInvalid (revision = 0)) (\<lambda>_.
               rbind (refuse CatalogExists (identity_taken s ab1)) (\<lambda>_.
               rbind (record_facts ''MODIFY'' ''SUBSCRIPTION'' (si_id s) (si_collection s) revision actor at
                       (ab1\<lparr>ab_subscriptions := fmupd (si_id s) row (ab_subscriptions ab1)\<rparr>)) (\<lambda>ab2.
               Inr (ab2, row)))))))"

definition list_subscriptions ::
  "string \<Rightarrow> string \<Rightarrow> int \<Rightarrow> int \<Rightarrow> admin_db \<Rightarrow> catalog_subscription catalog_page" where
  "list_subscriptions consumer collection number width ab =
     page_of (sort_key (\<lambda>row. subscription_identity (kb_input row))
       (filter (\<lambda>row. (consumer = [] \<or> si_consumer (kb_input row) = consumer) \<and>
                      (collection = [] \<or> si_collection (kb_input row) = collection))
          (map snd (table_rows (ab_subscriptions ab))))) number width"

section \<open>Models\<close>

text \<open>The code of the issue and its message; the path is read off the message.\<close>

type_synonym compile_issue = "string \<times> String.literal"

definition compile_model_document ::
  "scalar_lib \<Rightarrow> model_input \<Rightarrow> collection_definition \<Rightarrow> u64 \<Rightarrow> compile_issue + model_document" where
  "compile_model_document lib input d revision =
     (case mi_document input of
        ModelDocument decoded \<Rightarrow>
          (let spec = decoded\<lparr>ms_code := mi_code input, ms_name := mi_name input,
                              ms_collection := mi_collection input, ms_revision := revision\<rparr>
           in case compile_model lib d spec of
                Inl e \<Rightarrow> Inl (''MODEL_COMPILE_ERROR'', e)
              | Inr _ \<Rightarrow> Inr (ModelDocument spec))
      | _ \<Rightarrow> Inl (''MODEL_JSON_INVALID'', STR ''json''))"

definition preview_model ::
  "scalar_lib \<Rightarrow> model_input \<Rightarrow> admin_db \<Rightarrow> catalog_fault + compile_issue + model_document" where
  "preview_model lib input ab =
     (case fmlookup (ab_collections ab) (mi_collection input) of
        None \<Rightarrow> Inr (Inl (''COLLECTION_NOT_FOUND'', STR ''collection was not found''))
      | Some row \<Rightarrow>
          rbind (compile_collection_row lib row) (\<lambda>d. Inr (compile_model_document lib input d 1)))"

definition create_model ::
  "scalar_lib \<Rightarrow> model_input \<Rightarrow> catalog_principal \<Rightarrow> gotime \<Rightarrow> admin_db \<Rightarrow> catalog_fault + admin_db \<times> catalog_model" where
  "create_model lib input actor at ab0 =
     (case fmlookup (ab_collections ab0) (mi_collection input) of
        None \<Rightarrow> Inl CatalogPrecondition
      | Some collection \<Rightarrow>
          rbind (compile_collection_row lib collection) (\<lambda>d.
          rbind (allocate_revision ab0) (\<lambda>(ab1, revision).
          rbind (rerror CatalogInvalid (compile_model_document lib input d revision)) (\<lambda>document.
          let row = \<lparr>km_input = input\<lparr>mi_document := document\<rparr>, km_revision = revision, km_stamp = new_stamp at actor\<rparr>
          in rbind (refuse CatalogInvalid (revision = 0)) (\<lambda>_.
             rbind (refuse CatalogExists (mi_code input |\<in>| fmdom (ab_models ab1))) (\<lambda>_.
             rbind (record_facts ''ADD'' ''MODEL'' (mi_code input) (mi_collection input) revision actor at
                     (ab1\<lparr>ab_models := fmupd (mi_code input) row (ab_models ab1)\<rparr>)) (\<lambda>ab2.
             Inr (ab2, row))))))))"

definition update_model ::
  "scalar_lib \<Rightarrow> model_input \<Rightarrow> u64 \<Rightarrow> catalog_principal \<Rightarrow> gotime \<Rightarrow> admin_db \<Rightarrow> catalog_fault + admin_db \<times> catalog_model" where
  "update_model lib input expected actor at ab0 =
     (case fmlookup (ab_models ab0) (mi_code input) of
        None \<Rightarrow> Inl CatalogNotFound
      | Some old \<Rightarrow>
          if km_revision old \<noteq> expected then Inl CatalogAborted
          else if mi_collection (km_input old) \<noteq> mi_collection input then Inl CatalogPrecondition
          else case fmlookup (ab_collections ab0) (mi_collection input) of
                 None \<Rightarrow> Inl CatalogPrecondition
               | Some collection \<Rightarrow>
                   rbind (compile_collection_row lib collection) (\<lambda>d.
                   rbind (allocate_revision ab0) (\<lambda>(ab1, revision).
                   rbind (rerror CatalogInvalid (compile_model_document lib input d revision)) (\<lambda>document.
                   let row = \<lparr>km_input = input\<lparr>mi_document := document\<rparr>, km_revision = revision,
                              km_stamp = touch_stamp (km_stamp old) at actor\<rparr>
                   in rbind (refuse CatalogInvalid (revision = 0)) (\<lambda>_.
                      rbind (record_facts ''MODIFY'' ''MODEL'' (mi_code input) (mi_collection input) revision actor at
                              (ab1\<lparr>ab_models := fmupd (mi_code input) row (ab_models ab1)\<rparr>)) (\<lambda>ab2.
                      Inr (ab2, row)))))))"

definition get_model :: "string \<Rightarrow> admin_db \<Rightarrow> catalog_fault + catalog_model" where
  "get_model code ab = (case fmlookup (ab_models ab) code of None \<Rightarrow> Inl CatalogNotFound | Some row \<Rightarrow> Inr row)"

definition list_models :: "string \<Rightarrow> int \<Rightarrow> int \<Rightarrow> admin_db \<Rightarrow> catalog_model catalog_page" where
  "list_models collection number width ab =
     page_of (filter (\<lambda>row. collection = [] \<or> mi_collection (km_input row) = collection)
       (map snd (table_rows (ab_models ab)))) number width"

end
