(* ===== verification/Catalog_Service.thy ===== *)
theory Catalog_Service
  imports Catalog_Admin
begin

text \<open>
  The administration of the catalog: release templates of
  \<open>internal/catalog/mysqlstore/store.go\<close>, and the service of
  \<open>internal/catalog/application/service.go\<close> that decides who may do what and checks its input before
  it calls the store. The current time and what \<open>UUID()\<close> returns are arguments.
\<close>

section \<open>Templates\<close>

definition latest_version :: "string \<Rightarrow> admin_db \<Rightarrow> int" where
  "latest_version code ab = fold (\<lambda>((c, v), _) best. if c = code then max v best else best) (table_rows (ab_templates ab)) 0"

definition template_applies :: "template_input \<Rightarrow> model_spec \<Rightarrow> bool" where
  "template_applies t spec =
     list_ex (\<lambda>rt. rt_code rt = ti_type t \<and> rt_template rt = ti_code t \<and> rt_enabled rt) (ms_release_types spec)"

text \<open>The active slot of a model and release type is cleared.\<close>

definition clear_active_slot :: "string \<Rightarrow> string \<Rightarrow> catalog_template \<Rightarrow> catalog_template" where
  "clear_active_slot model type row =
     (if ti_model (kp_input row) = model \<and> ti_type (kp_input row) = type
      then row\<lparr>kp_input := (kp_input row)\<lparr>ti_enabled := False\<rparr>\<rparr> else row)"

text \<open>\<open>chk_template_schedule_window\<close>, \<open>chk_template_final_effect\<close> and \<open>chk_template_allowed_roles\<close>.\<close>

definition template_row_ok :: "template_input \<Rightarrow> bool" where
  "template_row_ok t \<longleftrightarrow>
     (if ti_scheduling t then 0 < ti_window t else ti_window t = 0) \<and>
     (ti_effect t = FinalEffectBase \<or> ti_effect t = FinalEffectOverlay) \<and> ti_roles t \<noteq> None"

definition create_template ::
  "template_input \<Rightarrow> catalog_principal \<Rightarrow> gotime \<Rightarrow> admin_db \<Rightarrow> catalog_fault + admin_db \<times> catalog_template" where
  "create_template t actor at ab0 =
     (case fmlookup (ab_models ab0) (ti_model t) of
        None \<Rightarrow> Inl CatalogPrecondition
      | Some model \<Rightarrow>
          if \<not> mi_enabled (km_input model) then Inl CatalogPrecondition
          else case mi_document (km_input model) of
                 ModelDocument spec \<Rightarrow>
                   if \<not> template_applies t spec then Inl CatalogPrecondition
                   else
                     (let version = latest_version (ti_code t) ab0 + 1;
                          slots = (if ti_enabled t then fmmap (clear_active_slot (ti_model t) (ti_type t)) (ab_templates ab0)
                                   else ab_templates ab0);
                          row = \<lparr>kp_input = t, kp_version = version, kp_created_at = at, kp_created_by = ap_subject actor\<rparr>
                      in rbind (refuse CatalogInvalid (\<not> template_row_ok t)) (\<lambda>_.
                         rbind (allocate_revision (ab0\<lparr>ab_templates := fmupd (ti_code t, version) row slots\<rparr>)) (\<lambda>(ab1, revision).
                         rbind (refuse CatalogInvalid (revision = 0)) (\<lambda>_.
                         rbind (record_facts ''ADD'' ''RELEASE_TEMPLATE'' (ti_code t) (mi_collection (km_input model)) revision
                                 actor at (ab1\<lparr>ab_models := fmupd (ti_model t)
                                   (model\<lparr>km_revision := revision, km_stamp := touch_stamp (km_stamp model) at actor\<rparr>)
                                   (ab_models ab1)\<rparr>)) (\<lambda>ab2.
                         Inr (ab2, row))))))
               | _ \<Rightarrow> Inl (CatalogFailure STR ''json''))"

definition get_template :: "string \<Rightarrow> int \<Rightarrow> admin_db \<Rightarrow> catalog_fault + catalog_template" where
  "get_template code version ab =
     (case fmlookup (ab_templates ab) (code, version) of None \<Rightarrow> Inl CatalogNotFound | Some row \<Rightarrow> Inr row)"

definition list_templates :: "string \<Rightarrow> int \<Rightarrow> int \<Rightarrow> admin_db \<Rightarrow> catalog_template catalog_page" where
  "list_templates model number width ab =
     page_of (sort_key (\<lambda>row. (ti_code (kp_input row), - kp_version row))
       (filter (\<lambda>row. model = [] \<or> ti_model (kp_input row) = model) (map snd (table_rows (ab_templates ab)))))
       number width"

section \<open>Guards\<close>

definition admin_authorized :: "catalog_principal \<Rightarrow> bool \<Rightarrow> bool" where
  "admin_authorized p writing \<longleftrightarrow>
     \<not> blank (ap_subject p) \<and>
     (''CONFIG_ADMIN'' \<in> set (ap_roles p) \<or> \<not> writing \<and> ''CONFIG_VIEWER'' \<in> set (ap_roles p))"

definition authorize_admin :: "catalog_principal \<Rightarrow> bool \<Rightarrow> catalog_fault + unit" where
  "authorize_admin p writing = refuse CatalogForbidden (\<not> admin_authorized p writing)"

definition valid_catalog_identifier :: "string \<Rightarrow> bool" where
  "valid_catalog_identifier s \<longleftrightarrow> s = trim_space s \<and> is_identifier s"

text \<open>An absent filter is the empty text.\<close>

definition filter_ok :: "string \<Rightarrow> bool" where
  "filter_ok s \<longleftrightarrow> s = [] \<or> valid_catalog_identifier s"

definition bound_page :: "int \<Rightarrow> int \<Rightarrow> catalog_fault + int \<times> int" where
  "bound_page number width =
     (let n = (if number = 0 then 1 else number); w = (if width = 0 then 20 else width)
      in if n < 1 \<or> w < 1 \<or> 100 < w then Inl CatalogInvalid else Inr (n, w))"

record collection_form =
  fo_spec :: collection_spec
  fo_status :: string

definition compile_collection_input :: "scalar_lib \<Rightarrow> collection_form \<Rightarrow> catalog_fault + collection_definition" where
  "compile_collection_input lib input =
     (if \<not> valid_catalog_identifier (cs_name (fo_spec input)) \<or>
         fo_status input \<noteq> ''ENABLED'' \<and> fo_status input \<noteq> ''DISABLED'' then Inl CatalogInvalid
      else rerror CatalogInvalid (compile_collection lib (fo_spec input)))"

definition validate_subscription :: "subscription_input \<Rightarrow> bool \<Rightarrow> catalog_fault + unit" where
  "validate_subscription s require_id =
     refuse CatalogInvalid
       (require_id \<and> blank (si_id s) \<or> \<not> valid_catalog_identifier (si_consumer s) \<or>
        \<not> valid_catalog_identifier (si_collection s) \<or> \<not> valid_catalog_identifier (si_index s) \<or> si_fields s = [] \<or>
        si_cardinality s \<noteq> ''ONE_TO_ONE'' \<and> si_cardinality s \<noteq> ''ONE_TO_MANY'' \<or>
        \<not> list_all valid_catalog_identifier (si_fields s) \<or> \<not> distinct (si_fields s))"

definition validate_model_identity :: "model_input \<Rightarrow> catalog_fault + unit" where
  "validate_model_identity input =
     refuse CatalogInvalid
       (\<not> valid_catalog_identifier (mi_code input) \<or> blank (mi_name input) \<or>
        \<not> valid_catalog_identifier (mi_collection input) \<or> mi_document input = EmptyDocument)"

definition template_identity_ok :: "template_input \<Rightarrow> bool" where
  "template_identity_ok t \<longleftrightarrow>
     valid_catalog_identifier (ti_code t) \<and> \<not> blank (ti_name t) \<and> valid_catalog_identifier (ti_model t) \<and>
     valid_catalog_identifier (ti_type t) \<and> ti_document t \<noteq> [] \<and>
     (ti_effect t = FinalEffectBase \<or> ti_effect t = FinalEffectOverlay) \<and>
     (if ti_scheduling t then 0 < ti_window t else ti_window t = 0)"

definition template_roles_ok :: "string list \<Rightarrow> bool" where
  "template_roles_ok roles \<longleftrightarrow> list_all (\<lambda>r. \<not> blank r \<and> r = trim_space r) roles \<and> distinct roles"

section \<open>Operations\<close>

definition admin_create_collection ::
  "scalar_lib \<Rightarrow> catalog_principal \<Rightarrow> collection_form \<Rightarrow> gotime \<Rightarrow> admin_db
     \<Rightarrow> catalog_fault + admin_db \<times> collection_answer" where
  "admin_create_collection lib p input now ab =
     rbind (authorize_admin p True) (\<lambda>_.
     rbind (compile_collection_input lib input) (\<lambda>d.
     create_collection d (fo_status input) p now ab))"

definition admin_update_collection ::
  "scalar_lib \<Rightarrow> catalog_principal \<Rightarrow> u64 \<Rightarrow> collection_form \<Rightarrow> gotime \<Rightarrow> admin_db
     \<Rightarrow> catalog_fault + admin_db \<times> collection_answer" where
  "admin_update_collection lib p expected input now ab =
     rbind (authorize_admin p True) (\<lambda>_.
     rbind (refuse CatalogInvalid (expected = 0)) (\<lambda>_.
     rbind (compile_collection_input lib input) (\<lambda>d.
     update_collection lib d (fo_status input) expected p now ab)))"

definition admin_get_collection ::
  "scalar_lib \<Rightarrow> catalog_principal \<Rightarrow> string \<Rightarrow> admin_db \<Rightarrow> catalog_fault + collection_answer" where
  "admin_get_collection lib p name ab =
     rbind (authorize_admin p False) (\<lambda>_.
     rbind (refuse CatalogInvalid (\<not> valid_catalog_identifier name)) (\<lambda>_. get_collection lib name ab))"

definition admin_list_collections ::
  "scalar_lib \<Rightarrow> catalog_principal \<Rightarrow> int \<Rightarrow> int \<Rightarrow> admin_db \<Rightarrow> catalog_fault + collection_answer catalog_page" where
  "admin_list_collections lib p number width ab =
     rbind (authorize_admin p False) (\<lambda>_.
     rbind (bound_page number width) (\<lambda>(n, w). list_collections lib n w ab))"

definition admin_create_subscription ::
  "scalar_lib \<Rightarrow> string \<Rightarrow> catalog_principal \<Rightarrow> subscription_input \<Rightarrow> gotime \<Rightarrow> admin_db
     \<Rightarrow> catalog_fault + admin_db \<times> catalog_subscription" where
  "admin_create_subscription lib fresh p s now ab =
     rbind (authorize_admin p True) (\<lambda>_.
     rbind (validate_subscription s False) (\<lambda>_. create_subscription lib fresh s p now ab))"

definition admin_update_subscription ::
  "scalar_lib \<Rightarrow> catalog_principal \<Rightarrow> u64 \<Rightarrow> subscription_input \<Rightarrow> gotime \<Rightarrow> admin_db
     \<Rightarrow> catalog_fault + admin_db \<times> catalog_subscription" where
  "admin_update_subscription lib p expected s now ab =
     rbind (authorize_admin p True) (\<lambda>_.
     rbind (refuse CatalogInvalid (expected = 0)) (\<lambda>_.
     rbind (validate_subscription s True) (\<lambda>_. update_subscription lib s expected p now ab)))"

definition admin_list_subscriptions ::
  "catalog_principal \<Rightarrow> string \<Rightarrow> string \<Rightarrow> int \<Rightarrow> int \<Rightarrow> admin_db
     \<Rightarrow> catalog_fault + catalog_subscription catalog_page" where
  "admin_list_subscriptions p consumer collection number width ab =
     rbind (authorize_admin p False) (\<lambda>_.
     rbind (refuse CatalogInvalid (\<not> filter_ok consumer \<or> \<not> filter_ok collection)) (\<lambda>_.
     rbind (bound_page number width) (\<lambda>(n, w). Inr (list_subscriptions consumer collection n w ab))))"

definition admin_preview_model ::
  "scalar_lib \<Rightarrow> catalog_principal \<Rightarrow> model_input \<Rightarrow> admin_db \<Rightarrow> catalog_fault + compile_issue + model_document" where
  "admin_preview_model lib p input ab =
     rbind (authorize_admin p True) (\<lambda>_.
     rbind (validate_model_identity input) (\<lambda>_. preview_model lib input ab))"

definition admin_create_model ::
  "scalar_lib \<Rightarrow> catalog_principal \<Rightarrow> model_input \<Rightarrow> gotime \<Rightarrow> admin_db \<Rightarrow> catalog_fault + admin_db \<times> catalog_model" where
  "admin_create_model lib p input now ab =
     rbind (authorize_admin p True) (\<lambda>_.
     rbind (validate_model_identity input) (\<lambda>_. create_model lib input p now ab))"

definition admin_update_model ::
  "scalar_lib \<Rightarrow> catalog_principal \<Rightarrow> u64 \<Rightarrow> model_input \<Rightarrow> gotime \<Rightarrow> admin_db
     \<Rightarrow> catalog_fault + admin_db \<times> catalog_model" where
  "admin_update_model lib p expected input now ab =
     rbind (authorize_admin p True) (\<lambda>_.
     rbind (refuse CatalogInvalid (expected = 0)) (\<lambda>_.
     rbind (validate_model_identity input) (\<lambda>_. update_model lib input expected p now ab)))"

definition admin_get_model :: "catalog_principal \<Rightarrow> string \<Rightarrow> admin_db \<Rightarrow> catalog_fault + catalog_model" where
  "admin_get_model p code ab =
     rbind (authorize_admin p False) (\<lambda>_.
     rbind (refuse CatalogInvalid (\<not> valid_catalog_identifier code)) (\<lambda>_. get_model code ab))"

definition admin_list_models ::
  "catalog_principal \<Rightarrow> string \<Rightarrow> int \<Rightarrow> int \<Rightarrow> admin_db \<Rightarrow> catalog_fault + catalog_model catalog_page" where
  "admin_list_models p collection number width ab =
     rbind (authorize_admin p False) (\<lambda>_.
     rbind (refuse CatalogInvalid (\<not> filter_ok collection)) (\<lambda>_.
     rbind (bound_page number width) (\<lambda>(n, w). Inr (list_models collection n w ab))))"

definition admin_create_template ::
  "catalog_principal \<Rightarrow> template_input \<Rightarrow> gotime \<Rightarrow> admin_db \<Rightarrow> catalog_fault + admin_db \<times> catalog_template" where
  "admin_create_template p t now ab =
     rbind (authorize_admin p True) (\<lambda>_.
     rbind (refuse CatalogInvalid (\<not> template_identity_ok t)) (\<lambda>_.
     rbind (rerror CatalogInvalid (compile_template (ti_document t) (ti_effect t))) (\<lambda>_.
     rbind (refuse CatalogInvalid (\<not> template_roles_ok (case ti_roles t of None \<Rightarrow> [] | Some rs \<Rightarrow> rs))) (\<lambda>_.
     create_template t p now ab))))"

definition admin_get_template ::
  "catalog_principal \<Rightarrow> string \<Rightarrow> int \<Rightarrow> admin_db \<Rightarrow> catalog_fault + catalog_template" where
  "admin_get_template p code version ab =
     rbind (authorize_admin p False) (\<lambda>_.
     rbind (refuse CatalogInvalid (\<not> valid_catalog_identifier code \<or> version \<le> 0)) (\<lambda>_. get_template code version ab))"

definition admin_list_templates ::
  "catalog_principal \<Rightarrow> string \<Rightarrow> int \<Rightarrow> int \<Rightarrow> admin_db \<Rightarrow> catalog_fault + catalog_template catalog_page" where
  "admin_list_templates p model number width ab =
     rbind (authorize_admin p False) (\<lambda>_.
     rbind (refuse CatalogInvalid (\<not> filter_ok model)) (\<lambda>_.
     rbind (bound_page number width) (\<lambda>(n, w). Inr (list_templates model n w ab))))"

end
