(* ===== verification/Catalog_Histories.thy ===== *)
theory Catalog_Histories
  imports Catalog_Service Release_Action
begin

text \<open>
  The tables of the catalog under any sequence of administrative commands and of releases: what a
  change writes besides its row, and the invariant of the tables.
\<close>

section \<open>What an action on a release does to revisions\<close>

text \<open>
  What an action on a release does to the revisions of the tables it shares with the catalog: the
  counter grows by one and the version of one collection in one environment becomes that number,
  or neither changes.
\<close>

text \<open>
  The counter and the revision of every version grow, and a version that changes or is new has a
  revision the counter has reached, a new one at least the counter before.
\<close>

definition released :: "database \<Rightarrow> database \<Rightarrow> bool" where
  "released db db' \<longleftrightarrow>
     (case (db_counter db, db_counter db') of
        (Some n, Some n') \<Rightarrow> n \<le> n' \<and>
          (\<forall>p v'. fmlookup (db_versions db') p = Some v' \<longrightarrow> fmlookup (db_versions db) p = Some v' \<or>
             vr_revision v' \<le> n' \<and>
             (case fmlookup (db_versions db) p of None \<Rightarrow> n \<le> vr_revision v' | Some v \<Rightarrow> vr_revision v \<le> vr_revision v'))
      | _ \<Rightarrow> False)"

definition revises :: "string \<times> string \<Rightarrow> u64 \<Rightarrow> u64 \<Rightarrow> database \<Rightarrow> database \<Rightarrow> bool" where
  "revises p previous applied db db' \<longleftrightarrow> db_counter db' = db_counter db \<and>
     (\<exists>v row. fmlookup (db_versions db) p = Some v \<and> vr_revision v = previous \<and> vr_revision row = applied \<and>
        db_versions db' = fmupd p row (db_versions db))"

lemma rfold_keeps:
  assumes "rfold f s xs = Inr s'" "\<And>s x s'. f s x = Inr s' \<Longrightarrow> g s' = g s"
  shows "g s' = g s"
  using assms(1) by (induction xs arbitrary: s) (auto simp: rbind_Inr_iff dest: assms(2))

lemma changes_keep_revisions:
  "rfold (apply_base_change oid e) db cs = Inr db' \<Longrightarrow> (db_counter db', db_versions db') = (db_counter db, db_versions db)"
  "rfold (apply_rule_change t oid c sc r at) db rs = Inr db' \<Longrightarrow>
     (db_counter db', db_versions db') = (db_counter db, db_versions db)"
proof -
  show "rfold (apply_base_change oid e) db cs = Inr db' \<Longrightarrow> (db_counter db', db_versions db') = (db_counter db, db_versions db)"
    by (erule rfold_keeps [where g = "\<lambda>db. (db_counter db, db_versions db)"])
      (auto simp: apply_base_change_def rbind_Inr_iff)
  show "rfold (apply_rule_change t oid c sc r at) db rs = Inr db' \<Longrightarrow>
     (db_counter db', db_versions db') = (db_counter db, db_versions db)"
    by (erule rfold_keeps [where g = "\<lambda>db. (db_counter db, db_versions db)"])
      (auto simp: apply_rule_change_def rbind_Inr_iff)
qed

lemma revisesI:
  assumes "fmlookup (db_versions db) p = Some v" "vr_revision v = previous" "vr_revision row = applied"
    and "db_counter db' = db_counter db" "db_versions db' = fmupd p row (db_versions db)"
  shows "revises p previous applied db db'"
  unfolding revises_def using assms by (intro conjI exI [of _ v] exI [of _ row])

lemma update_version_revises:
  assumes "update_version c e previous applied bd od oid at db = Inr db'"
  shows "revises (c, e) previous applied db db'"
proof -
  obtain v where v: "fmlookup (db_versions db) (c, e) = Some v" "vr_revision v = previous"
    using assms by (auto simp: update_version_def split: option.splits if_splits)
  show ?thesis
    by (rule revisesI [OF v, where row = "the (fmlookup (db_versions db') (c, e))"])
      (use assms v in \<open>auto simp: update_version_def rbind_Inr_iff go_results\<close>)
qed

lemma recorded_keeps:
  "insert_event oid applied payload at db = Inr db' \<Longrightarrow> (db_counter db', db_versions db') = (db_counter db, db_versions db)"
  "(db_counter (insert_audit at actor a oid sc db), db_versions (insert_audit at actor a oid sc db)) =
     (db_counter db, db_versions db)"
  by (auto simp: insert_event_def insert_audit_def rbind_Inr_iff go_results)

lemma revises_cong:
  assumes "revises p previous applied db db'" "(db_counter db, db_versions db) = (db_counter db0, db_versions db0)"
    and "(db_counter db1, db_versions db1) = (db_counter db', db_versions db')"
  shows "revises p previous applied db0 db1"
  using assms by (simp add: revises_def)

lemma base_effect_revises:
  assumes "apply_base_effect db_time oid e db = Inr db'"
  shows "revises (be_collection e, sc_environment (be_scope e)) (be_previous e) (be_applied e) db db'"
proof -
  from assms obtain db1 db2 db3 db4 bd od where
    "rfold (apply_base_change oid e) db (be_changes e) = Inr db1"
    "rfold (apply_rule_change db_time oid (be_collection e) (be_scope e) (be_applied e) (be_at e)) db1 (be_overlay e) = Inr db2"
    "update_version (be_collection e) (sc_environment (be_scope e)) (be_previous e) (be_applied e) bd od oid (be_at e) db2 = Inr db3"
    "insert_event oid (be_applied e) (changed_payload (be_collection e) (be_applied e) oid
       (''environment'', JStr (sc_environment (be_scope e)))) (be_at e) db3 = Inr db4"
    "db' = insert_audit (be_at e) (be_by e) ''BASE_APPLY'' oid (be_scope e) db4"
    by (auto simp: apply_base_effect_def Let_def rbind_Inr_iff)
  note s = this
  show ?thesis
    by (rule revises_cong [OF update_version_revises [OF s(3)]])
      (use changes_keep_revisions(1) [OF s(1)] changes_keep_revisions(2) [OF s(2)] recorded_keeps s(4,5) in simp_all)
qed

lemma overlay_changes_revise:
  assumes "apply_overlay_rule_changes db_time oid e a db = Inr db'"
  shows "revises (oe_collection e, sc_environment (oe_scope e)) (oe_previous e) (oe_applied e) db db'"
proof -
  from assms obtain db1 db2 db3 od where
    "rfold (apply_rule_change db_time oid (oe_collection e) (oe_scope e) (oe_applied e) (oe_at e)) db (oe_changes e) = Inr db1"
    "update_version (oe_collection e) (sc_environment (oe_scope e)) (oe_previous e) (oe_applied e) None od oid (oe_at e) db1 = Inr db2"
    "insert_event oid (oe_applied e) (changed_payload (oe_collection e) (oe_applied e) oid
       (''scope'', json_scope (oe_scope e))) (oe_at e) db2 = Inr db3"
    "db' = insert_audit (oe_at e) (oe_by e) a oid (oe_scope e) db3"
    by (auto simp: apply_overlay_rule_changes_def Let_def rbind_Inr_iff)
  note s = this
  show ?thesis
    by (rule revises_cong [OF update_version_revises [OF s(2)]])
      (use changes_keep_revisions(2) [OF s(1)] recorded_keeps s(3,4) in simp_all)
qed

text \<open>A plan that is accepted applies the allocated revision.\<close>

definition applies :: "u64 \<Rightarrow> database \<Rightarrow> database \<Rightarrow> bool" where
  "applies revision db db' \<longleftrightarrow> (\<exists>p previous. previous < revision \<and> revises p previous revision db db')"

lemma appliesI: "previous < revision \<Longrightarrow> revises p previous revision db db' \<Longrightarrow> applies revision db db'"
  unfolding applies_def by blast

lemma applies_released:
  assumes "applies (n + 1) (db\<lparr>db_counter := Some (n + 1)\<rparr>) db'" "db_counter db = Some n"
  shows "released db db'"
proof -
  from assms(1) obtain p v row where s: "vr_revision v < n + 1" "db_counter db' = Some (n + 1)"
    "fmlookup (db_versions db) p = Some v" "vr_revision row = n + 1" "db_versions db' = fmupd p row (db_versions db)"
    by (auto simp: applies_def revises_def)
  then have "n + 1 \<noteq> 0" by auto
  then have "n \<le> n + 1" using unatSuc [of n] by (simp add: word_le_nat_alt add.commute)
  with s assms(2) show ?thesis by (auto simp: released_def)
qed

lemma with_authority_released:
  assumes "with_authority ord plan write db = Inr (e, db')" "db_counter db = Some n"
    and "\<And>auth revision e db db'. plan auth revision = Inr e \<Longrightarrow> write e db = Inr db' \<Longrightarrow> applies revision db db'"
  shows "released db db'"
proof -
  from assms(1,2) obtain auth where "lift_release (plan auth (n + 1)) = Inr e"
    "write e (db\<lparr>db_counter := Some (n + 1)\<rparr>) = Inr db'"
    by (auto simp: with_authority_def allocate_config_revision_def rbind_Inr_iff)
  then show ?thesis by (intro applies_released [OF assms(3) assms(2)]) (simp_all add: lift_release_Inr)
qed

lemma execute_revises:
  "execute_base auth revision actor at ord = Inr r \<Longrightarrow> apply_base_effect t oid (snd r) db = Inr db' \<Longrightarrow> applies revision db db'"
  "execute_overlay auth revision actor at ord = Inr s \<Longrightarrow> apply_overlay_effect t oid (snd s) db = Inr db' \<Longrightarrow>
     applies revision db db'"
  "execute_percent_rollout auth revision actor at ord = Inr u \<Longrightarrow> apply_percent_effect t oid (snd u) db = Inr db' \<Longrightarrow>
     applies revision db db'"
proof -
  assume run: "execute_base auth revision actor at ord = Inr r" "apply_base_effect t oid (snd r) db = Inr db'"
  then have "be_previous (snd r) < revision" "be_applied (snd r) = revision"
    by (auto simp: execute_base_def rbind_Inr_iff go_results Let_def clone_base_effect_def)
  then show "applies revision db db'" using base_effect_revises [OF run(2)] unfolding applies_def by blast
next
  assume run: "execute_overlay auth revision actor at ord = Inr s" "apply_overlay_effect t oid (snd s) db = Inr db'"
  then have "oe_previous (snd s) < revision" "oe_applied (snd s) = revision"
    by (auto simp: execute_overlay_def rbind_Inr_iff go_results Let_def clone_overlay_effect_def)
  moreover have "apply_overlay_rule_changes t oid (snd s) ''OVERLAY_APPLY'' db = Inr db'"
    using run(2) by (auto simp: apply_overlay_effect_def rbind_Inr_iff)
  ultimately show "applies revision db db'" using overlay_changes_revise unfolding applies_def by metis
next
  assume run: "execute_percent_rollout auth revision actor at ord = Inr u" "apply_percent_effect t oid (snd u) db = Inr db'"
  then have "pe_previous (snd u) < revision" "pe_applied (snd u) = revision"
    by (auto simp: execute_percent_rollout_def rbind_Inr_iff go_results Let_def clone_percent_effect_def)
  with run(2) show "applies revision db db'"
    unfolding apply_percent_effect_def by (auto simp: rbind_Inr_iff intro: appliesI dest!: overlay_changes_revise)
qed

lemma rollback_revises:
  assumes "rollback_all expected auth revision actor at ord = Inr r" "apply_rollback_plan t oid (snd r) db = Inr db'"
  shows "applies revision db db'"
proof -
  from assms(1) obtain st where st: "au_revision auth < revision"
    "snd r = clone_step_effect (rollback_plan st (or_scope ord) (au_revision auth) revision actor at)"
    by (auto simp: rollback_all_def rbind_Inr_iff go_results Let_def)
  show ?thesis
  proof (cases "rb_has_base st")
    case True
    with st assms(2) show ?thesis
      by (auto intro: appliesI simp: apply_rollback_plan_def rollback_plan_def clone_step_effect_def base_step_effect_def
        overlay_step_effect_def clone_base_effect_def clone_overlay_effect_def dest!: base_effect_revises)
  next
    case False
    with st assms(2) show ?thesis
      by (auto intro: appliesI simp: apply_rollback_plan_def rollback_plan_def clone_step_effect_def base_step_effect_def
        overlay_step_effect_def clone_base_effect_def clone_overlay_effect_def apply_overlay_effect_def rbind_Inr_iff
        dest!: overlay_changes_revise)
  qed
qed

lemma released_refl: "db_counter db = Some n \<Longrightarrow> released db db"
  by (simp add: released_def)

lemma released_cong:
  assumes "released db db'" "(db_counter db1, db_versions db1) = (db_counter db', db_versions db')"
  shows "released db db1"
proof -
  have "db_counter db1 = db_counter db'" "db_versions db1 = db_versions db'" using assms(2) by simp_all
  with assms(1) show ?thesis unfolding released_def by (simp only:)
qed

lemma perform_released:
  assumes "perform db_time c now ord db = Inr (ord', db', keys)" "db_counter db = Some n"
  shows "released db db'"
proof (cases "ac_action c")
  case ActExecute
  with assms show ?thesis
    by (cases "ss_type (current_step ord)")
      (auto simp: perform_def perform_execute_def case_prod_beta' rbind_Inr_iff
        dest!: with_authority_released [OF _ assms(2)] intro: execute_revises released_refl)
next
  case ActRollback
  with assms(1) show ?thesis
    by (auto simp: perform_def case_prod_beta' rbind_Inr_iff
      dest!: with_authority_released [OF _ assms(2)] intro: rollback_revises)
qed (use assms(1) released_refl [OF assms(2)] in \<open>auto simp: perform_def rbind_Inr_iff\<close>)

lemma act_released:
  assumes "db_counter (rd_db rd) = Some n"
  shows "released (rd_db rd) (rd_db (fst (act db_time c now rd)))"
proof -
  note same = released_refl [OF assms]
  have "released (rd_db rd) (rd_db rd')" if "act_transaction db_time c now rd = Inr (rd', v, e)" for rd' v e
  proof (cases "fmlookup (rd_results rd) (ac_order c, ac_request c)")
    case None
    with that obtain ord ord' db' keys rd1 where run: "perform db_time c now ord (rd_db rd) = Inr (ord', db', keys)"
      "save_order ord' (rd\<lparr>rd_db := db'\<rparr>) = Inr rd1"
      "rd_db rd' = rd_db (record_action c now ord (keys \<noteq> []) rd1)"
      by (auto simp: act_transaction_def rbind_Inr_iff Let_def split: if_splits)
    have "rd_db rd1 = db'" using run(2) by (auto simp: save_order_def rbind_Inr_iff go_results split: option.splits if_splits)
    then show ?thesis
      by (intro released_cong [OF perform_released [OF run(1) assms]]) (simp add: run(3) record_action_def recorded_keeps(2))
  next
    case (Some stored)
    with that same show ?thesis by (auto simp: act_transaction_def rbind_Inr_iff split: if_splits)
  qed
  then show ?thesis by (auto simp: act_def same split: sum.split option.split)
qed

section \<open>The facts of a change\<close>

lemma set_known_environments: "e \<in> set (known_environments db) \<longleftrightarrow> (\<exists>c. (c, e) |\<in>| fmdom (db_versions db))"
  by (force simp: known_environments_def)

lemma set_collection_environments:
  "e \<in> set (collection_environments db c) \<longleftrightarrow> (c, e) |\<in>| fmdom (db_versions db)"
  by (force simp: collection_environments_def)

lemma environments_ordered:
  "distinct (known_environments db)" "distinct (collection_environments db c)"
  "sorted (known_environments db)" "sorted (collection_environments db c)"
  by (simp_all add: known_environments_def collection_environments_def sorted_list_of_fset.rep_eq)

definition metadata_event :: "string \<Rightarrow> string \<Rightarrow> string \<Rightarrow> string \<Rightarrow> u64 \<Rightarrow> gotime \<Rightarrow> string \<Rightarrow> outbox_event" where
  "metadata_event verb kind resource collection revision at environment =
     \<lparr>ev_type = kind, ev_aggregate = resource, ev_payload = metadata_payload collection environment revision,
      ev_key = metadata_key verb resource environment revision, ev_at = at\<rparr>"

lemma insert_events_Inr:
  assumes "rfold (insert_metadata_event verb kind resource collection revision at) db es = Inr db'"
  shows "db' = db\<lparr>db_events := db_events db @ map (metadata_event verb kind resource collection revision at) es\<rparr>"
  using assms
proof (induction es arbitrary: db)
  case (Cons e es)
  then obtain t where t: "insert_metadata_event verb kind resource collection revision at db e = Inr t"
    "rfold (insert_metadata_event verb kind resource collection revision at) t es = Inr db'"
    by (auto simp: rbind_Inr_iff)
  from t(1) have "t = db\<lparr>db_events := db_events db @ [metadata_event verb kind resource collection revision at e]\<rparr>"
    by (simp add: insert_metadata_event_def metadata_event_def rbind_Inr_iff go_results)
  with Cons.IH [OF t(2)] show ?case by simp
qed simp

definition fresh_version :: "u64 \<Rightarrow> gotime \<Rightarrow> version_row" where
  "fresh_version revision at =
     \<lparr>vr_revision = revision, vr_base_digest = empty_digest_value, vr_overlay_digest = empty_digest_value,
      vr_order = [], vr_at = at\<rparr>"

lemma insert_version_Inr:
  "insert_version c revision at db e = Inr db' \<longleftrightarrow>
     revision \<noteq> 0 \<and> (c, e) |\<notin>| fmdom (db_versions db) \<and>
     db' = db\<lparr>db_versions := fmupd (c, e) (fresh_version revision at) (db_versions db)\<rparr>"
  by (auto simp: insert_version_def fresh_version_def rbind_Inr_iff go_results)

lemma insert_versions_Inr:
  assumes "rfold (insert_version c revision at) db es = Inr db'"
  shows "db' = db\<lparr>db_versions := db_versions db'\<rparr>"
    and "fmlookup (db_versions db') (c', e) =
      (if c' = c \<and> e \<in> set es then Some (fresh_version revision at) else fmlookup (db_versions db) (c', e))"
    and "e \<in> set es \<Longrightarrow> (c, e) |\<notin>| fmdom (db_versions db)"
proof -
  have "db' = db\<lparr>db_versions := db_versions db'\<rparr> \<and>
    (\<forall>c' e. fmlookup (db_versions db') (c', e) =
      (if c' = c \<and> e \<in> set es then Some (fresh_version revision at) else fmlookup (db_versions db) (c', e))) \<and>
    (\<forall>e \<in> set es. (c, e) |\<notin>| fmdom (db_versions db))"
    using assms
  proof (induction es arbitrary: db)
    case (Cons x es)
    then obtain t where t: "insert_version c revision at db x = Inr t" "rfold (insert_version c revision at) t es = Inr db'"
      by (auto simp: rbind_Inr_iff)
    from t(1) have s: "(c, x) |\<notin>| fmdom (db_versions db)"
      "t = db\<lparr>db_versions := fmupd (c, x) (fresh_version revision at) (db_versions db)\<rparr>"
      by (simp_all add: insert_version_Inr)
    with Cons.IH [OF t(2)] show ?case by auto
  qed simp
  then show "db' = db\<lparr>db_versions := db_versions db'\<rparr>"
    "fmlookup (db_versions db') (c', e) =
      (if c' = c \<and> e \<in> set es then Some (fresh_version revision at) else fmlookup (db_versions db) (c', e))"
    "e \<in> set es \<Longrightarrow> (c, e) |\<notin>| fmdom (db_versions db)" by blast+
qed

text \<open>The environments of a collection are all known ones when its versions are new.\<close>

lemma write_versions_Inr:
  assumes "write_versions verb kind c revision at db = Inr (db', es)"
  shows "db' = db\<lparr>db_versions := db_versions db'\<rparr>" "es = collection_environments db' c"
    and "c' \<noteq> c \<Longrightarrow> fmlookup (db_versions db') (c', e) = fmlookup (db_versions db) (c', e)"
    and "fmlookup (db_versions db') (c, e) = Some v \<Longrightarrow> vr_revision v = revision \<and> vr_at v = at"
    and "(c, e) |\<in>| fmdom (db_versions db') \<longleftrightarrow>
      (if kind = ''COLLECTION'' \<and> verb = ''ADD'' then e \<in> set (known_environments db) else (c, e) |\<in>| fmdom (db_versions db))"
proof -
  have "db' = db\<lparr>db_versions := db_versions db'\<rparr> \<and>
    (\<forall>c' e. c' \<noteq> c \<longrightarrow> fmlookup (db_versions db') (c', e) = fmlookup (db_versions db) (c', e)) \<and>
    (\<forall>e v. fmlookup (db_versions db') (c, e) = Some v \<longrightarrow> vr_revision v = revision \<and> vr_at v = at) \<and>
    (\<forall>e. (c, e) |\<in>| fmdom (db_versions db') \<longleftrightarrow> e \<in> set es) \<and>
    es = (if kind = ''COLLECTION'' \<and> verb = ''ADD'' then known_environments db else collection_environments db c)"
  proof (cases "kind = ''COLLECTION'' \<and> verb = ''ADD''")
    case True
    with assms have ins: "rfold (insert_version c revision at) db es = Inr db'" "es = known_environments db"
      by (auto simp: write_versions_def rbind_Inr_iff)
    have old: "fmlookup (db_versions db) (c, e) = None" if "e \<notin> set es" for e
      using that set_known_environments [of e db] by (auto simp: ins(2) intro: fmdom_notD)
    have new: "fmlookup (db_versions db') (c, e) = (if e \<in> set es then Some (fresh_version revision at) else None)" for e
      using insert_versions_Inr(2) [OF ins(1), of c e] old by simp
    show ?thesis
      using True insert_versions_Inr(1,2) [OF ins(1)] ins(2)
      using old [unfolded ins(2)] by (auto simp: new fresh_version_def fmlookup_dom_iff split: if_splits)
  next
    case False
    with assms have "db' = db\<lparr>db_versions := fmmap_keys (\<lambda>(c', _) v. if c' = c
        then v\<lparr>vr_revision := revision, vr_at := at\<rparr> else v) (db_versions db)\<rparr>" "es = collection_environments db c"
      by (auto simp: write_versions_def touch_versions_def rbind_Inr_iff go_results)
    with False show ?thesis by (auto simp: fmlookup_dom_iff set_collection_environments option.map_ident)
  qed
  then have written: "db' = db\<lparr>db_versions := db_versions db'\<rparr>"
    and mem: "\<And>e. (c, e) |\<in>| fmdom (db_versions db') \<longleftrightarrow> e \<in> set es"
    and es: "es = (if kind = ''COLLECTION'' \<and> verb = ''ADD'' then known_environments db else collection_environments db c)"
    and rest: "\<And>c' e. c' \<noteq> c \<Longrightarrow> fmlookup (db_versions db') (c', e) = fmlookup (db_versions db) (c', e)"
      "\<And>e v. fmlookup (db_versions db') (c, e) = Some v \<Longrightarrow> vr_revision v = revision \<and> vr_at v = at" by blast+
  have "sorted es" "distinct es"
    by (simp_all add: es environments_ordered)
  moreover have "set es = set (collection_environments db' c)" by (auto simp: set_collection_environments mem)
  ultimately have "es = collection_environments db' c"
    by (simp add: sorted_distinct_set_unique environments_ordered)
  with written mem es rest show "db' = db\<lparr>db_versions := db_versions db'\<rparr>" "es = collection_environments db' c"
    "c' \<noteq> c \<Longrightarrow> fmlookup (db_versions db') (c', e) = fmlookup (db_versions db) (c', e)"
    "fmlookup (db_versions db') (c, e) = Some v \<Longrightarrow> vr_revision v = revision \<and> vr_at v = at"
    "(c, e) |\<in>| fmdom (db_versions db') \<longleftrightarrow>
      (if kind = ''COLLECTION'' \<and> verb = ''ADD'' then e \<in> set (known_environments db) else (c, e) |\<in>| fmdom (db_versions db))"
    by (blast, blast, blast, blast, simp flip: set_collection_environments)
qed

text \<open>
  A change leaves the records, the rules and the counter. Every version of its collection gets the
  new revision, and each of these environments one event.
\<close>

lemma append_metadata_facts_Inr:
  assumes "append_metadata_facts verb kind resource c revision actor at db = Inr db'"
  shows "revision \<noteq> 0"
    and "db_counter db' = db_counter db" "db_records db' = db_records db" "db_rules db' = db_rules db"
    and "c' \<noteq> c \<Longrightarrow> fmlookup (db_versions db') (c', e) = fmlookup (db_versions db) (c', e)"
    and "fmlookup (db_versions db') (c, e) = Some v \<Longrightarrow> vr_revision v = revision \<and> vr_at v = at"
    and "(c, e) |\<in>| fmdom (db_versions db') \<longleftrightarrow>
      (if kind = ''COLLECTION'' \<and> verb = ''ADD'' then e \<in> set (known_environments db) else (c, e) |\<in>| fmdom (db_versions db))"
    and "db_events db' = db_events db @
      map (metadata_event verb kind resource c revision at) (collection_environments db' c)"
proof -
  let ?db1 = "log_metadata verb kind resource c revision actor at db"
  have log: "db_versions ?db1 = db_versions db" "known_environments ?db1 = known_environments db"
    "db_counter ?db1 = db_counter db" "db_records ?db1 = db_records db" "db_rules ?db1 = db_rules db"
    "db_events ?db1 = db_events db"
    by (simp_all add: log_metadata_def known_environments_def Let_def)
  from assms obtain db2 es where db2: "write_versions verb kind c revision at ?db1 = Inr (db2, es)"
    "rfold (insert_metadata_event verb kind resource c revision at) db2 es = Inr db'" and nz: "revision \<noteq> 0"
    by (auto simp: append_metadata_facts_def rbind_Inr_iff go_results)
  note versions = write_versions_Inr [OF db2(1)] and final = insert_events_Inr [OF db2(2)]
  have rest: "db_counter db2 = db_counter db" "db_records db2 = db_records db" "db_rules db2 = db_rules db"
    "db_events db2 = db_events db" by (subst versions(1), simp add: log)+
  have environments: "collection_environments db' c = es"
    unfolding versions(2) by (simp add: collection_environments_def final)
  have fields: "db_versions db' = db_versions db2" "db_counter db' = db_counter db2" "db_records db' = db_records db2"
    "db_rules db' = db_rules db2"
    "db_events db' = db_events db2 @ map (metadata_event verb kind resource c revision at) es"
    by (subst final, simp)+
  show "revision \<noteq> 0"
    "db_counter db' = db_counter db" "db_records db' = db_records db" "db_rules db' = db_rules db"
    "c' \<noteq> c \<Longrightarrow> fmlookup (db_versions db') (c', e) = fmlookup (db_versions db) (c', e)"
    "fmlookup (db_versions db') (c, e) = Some v \<Longrightarrow> vr_revision v = revision \<and> vr_at v = at"
    "(c, e) |\<in>| fmdom (db_versions db') \<longleftrightarrow>
      (if kind = ''COLLECTION'' \<and> verb = ''ADD'' then e \<in> set (known_environments db) else (c, e) |\<in>| fmdom (db_versions db))"
    "db_events db' = db_events db @
      map (metadata_event verb kind resource c revision at) (collection_environments db' c)"
    unfolding fields environments rest using nz versions(3-5) [unfolded log] by blast+
qed

section \<open>What a command writes\<close>

text \<open>
  A command writes one row of a table, at the next revision of the counter, and its facts: \<open>wrote\<close>
  says so of the tables before and after, but for the row itself.
\<close>

definition next_revision :: "admin_db \<Rightarrow> u64" where
  "next_revision ab = (case db_counter (ab_db ab) of None \<Rightarrow> 0 | Some n \<Rightarrow> n + 1)"

definition wrote ::
  "string \<Rightarrow> string \<Rightarrow> string \<Rightarrow> string \<Rightarrow> catalog_principal \<Rightarrow> gotime \<Rightarrow> admin_db \<Rightarrow> admin_db \<Rightarrow> bool" where
  "wrote verb kind resource c actor at ab ab' \<longleftrightarrow>
     db_counter (ab_db ab) \<noteq> None \<and> next_revision ab \<noteq> 0 \<and>
     append_metadata_facts verb kind resource c (next_revision ab) actor at
       ((ab_db ab)\<lparr>db_counter := Some (next_revision ab)\<rparr>) = Inr (ab_db ab')"

lemma allocate_revision_Inr:
  "allocate_revision ab = Inr (ab1, revision) \<longleftrightarrow> db_counter (ab_db ab) \<noteq> None \<and> revision = next_revision ab \<and>
     ab1 = ab\<lparr>ab_db := (ab_db ab)\<lparr>db_counter := Some (next_revision ab)\<rparr>\<rparr>"
  by (cases "db_counter (ab_db ab)")
    (auto simp: allocate_revision_def allocate_config_revision_def next_revision_def rerror_def)

lemma record_facts_Inr:
  assumes "record_facts verb kind resource c revision actor at ab = Inr ab'"
  shows "append_metadata_facts verb kind resource c revision actor at (ab_db ab) = Inr (ab_db ab')"
    and "ab_collections ab' = ab_collections ab" "ab_subscriptions ab' = ab_subscriptions ab"
    and "ab_models ab' = ab_models ab" "ab_templates ab' = ab_templates ab"
  using assms by (auto simp: record_facts_def rbind_Inr_iff)

lemmas admin_results = allocate_revision_Inr refuse_Inr rbind_Inr_iff rerror_Inr_iff Let_def

lemma create_collection_Inr:
  assumes "create_collection d status actor at ab = Inr (ab', a)"
  shows "wrote ''ADD'' ''COLLECTION'' (cd_name d) (cd_name d) actor at ab ab'"
    and "cd_name d |\<notin>| fmdom (ab_collections ab)"
    and "ab_collections ab' = fmupd (cd_name d) \<lparr>kc_spec = spec_of_definition d, kc_status = status,
      kc_revision = next_revision ab, kc_stamp = new_stamp at actor\<rparr> (ab_collections ab)"
    and "ab_subscriptions ab' = ab_subscriptions ab" "ab_models ab' = ab_models ab" "ab_templates ab' = ab_templates ab"
    and "a = \<lparr>vc_definition = d, vc_status = status, vc_revision = next_revision ab, vc_stamp = new_stamp at actor\<rparr>"
  using assms by (auto simp: create_collection_def wrote_def admin_results dest: record_facts_Inr)

lemma update_collection_Inr:
  assumes "update_collection lib d status expected actor at ab = Inr (ab', a)"
  obtains row current where "fmlookup (ab_collections ab) (cd_name d) = Some row" "kc_revision row = expected"
    and "compile_collection lib (kc_spec row) = Inr current"
    and "\<not> (has_records (ab_db ab) (cd_name d) \<and> destructive_change current d)"
    and "wrote ''MODIFY'' ''COLLECTION'' (cd_name d) (cd_name d) actor at ab ab'"
    and "ab_collections ab' = fmupd (cd_name d) \<lparr>kc_spec = spec_of_definition d, kc_status = status,
      kc_revision = next_revision ab, kc_stamp = touch_stamp (kc_stamp row) at actor\<rparr> (ab_collections ab)"
    and "ab_subscriptions ab' = ab_subscriptions ab" "ab_models ab' = ab_models ab" "ab_templates ab' = ab_templates ab"
    and "vc_definition a = d" "vc_revision a = next_revision ab"
  using assms
  by (fastforce simp: update_collection_def compile_collection_row_def wrote_def admin_results
      split: option.splits if_splits dest: record_facts_Inr)

lemma create_subscription_Inr:
  assumes "create_subscription lib fresh s actor at ab = Inr (ab', row)"
  shows "wrote ''ADD'' ''SUBSCRIPTION'' fresh (si_collection s) actor at ab ab'"
    and "validate_subscription_collection lib s ab = Inr ()"
    and "fresh |\<notin>| fmdom (ab_subscriptions ab)" "\<not> identity_taken (s\<lparr>si_id := fresh\<rparr>) ab"
    and "row = \<lparr>kb_input = s\<lparr>si_id := fresh\<rparr>, kb_revision = next_revision ab, kb_stamp = new_stamp at actor\<rparr>"
    and "ab_subscriptions ab' = fmupd fresh row (ab_subscriptions ab)"
    and "ab_collections ab' = ab_collections ab" "ab_models ab' = ab_models ab" "ab_templates ab' = ab_templates ab"
  using assms
  by (auto simp: create_subscription_def wrote_def identity_taken_def admin_results dest: record_facts_Inr)

lemma update_subscription_Inr:
  assumes "update_subscription lib s expected actor at ab = Inr (ab', row)"
  obtains old where "fmlookup (ab_subscriptions ab) (si_id s) = Some old" "kb_revision old = expected"
    and "validate_subscription_collection lib s ab = Inr ()" "\<not> identity_taken s ab"
    and "wrote ''MODIFY'' ''SUBSCRIPTION'' (si_id s) (si_collection s) actor at ab ab'"
    and "row = \<lparr>kb_input = s, kb_revision = next_revision ab, kb_stamp = touch_stamp (kb_stamp old) at actor\<rparr>"
    and "ab_subscriptions ab' = fmupd (si_id s) row (ab_subscriptions ab)"
    and "ab_collections ab' = ab_collections ab" "ab_models ab' = ab_models ab" "ab_templates ab' = ab_templates ab"
  using assms
  by (fastforce simp: update_subscription_def wrote_def identity_taken_def admin_results
      split: option.splits if_splits dest: record_facts_Inr)

definition model_row_spec :: "model_input \<Rightarrow> u64 \<Rightarrow> model_spec \<Rightarrow> model_spec" where
  "model_row_spec input revision decoded =
     decoded\<lparr>ms_code := mi_code input, ms_name := mi_name input, ms_collection := mi_collection input,
             ms_revision := revision\<rparr>"

lemma compile_model_document_Inr:
  "compile_model_document lib input d revision = Inr document \<longleftrightarrow>
     (\<exists>decoded. mi_document input = ModelDocument decoded \<and> is_ok (compile_model lib d (model_row_spec input revision decoded)) \<and>
        document = ModelDocument (model_row_spec input revision decoded))"
  by (auto simp: compile_model_document_def model_row_spec_def Let_def is_ok_iff split: model_document.splits sum.splits)

lemma create_model_Inr:
  assumes "create_model lib input actor at ab = Inr (ab', row)"
  obtains collection d document where "fmlookup (ab_collections ab) (mi_collection input) = Some collection"
    and "compile_collection lib (kc_spec collection) = Inr d"
    and "compile_model_document lib input d (next_revision ab) = Inr document"
    and "mi_code input |\<notin>| fmdom (ab_models ab)"
    and "wrote ''ADD'' ''MODEL'' (mi_code input) (mi_collection input) actor at ab ab'"
    and "row = \<lparr>km_input = input\<lparr>mi_document := document\<rparr>, km_revision = next_revision ab, km_stamp = new_stamp at actor\<rparr>"
    and "ab_models ab' = fmupd (mi_code input) row (ab_models ab)"
    and "ab_collections ab' = ab_collections ab" "ab_subscriptions ab' = ab_subscriptions ab"
      "ab_templates ab' = ab_templates ab"
  using assms
  by (fastforce simp: create_model_def compile_collection_row_def wrote_def admin_results
      split: option.splits dest: record_facts_Inr)

lemma update_model_Inr:
  assumes "update_model lib input expected actor at ab = Inr (ab', row)"
  obtains old collection d document where "fmlookup (ab_models ab) (mi_code input) = Some old"
    and "km_revision old = expected" "mi_collection (km_input old) = mi_collection input"
    and "fmlookup (ab_collections ab) (mi_collection input) = Some collection"
    and "compile_collection lib (kc_spec collection) = Inr d"
    and "compile_model_document lib input d (next_revision ab) = Inr document"
    and "wrote ''MODIFY'' ''MODEL'' (mi_code input) (mi_collection input) actor at ab ab'"
    and "row = \<lparr>km_input = input\<lparr>mi_document := document\<rparr>, km_revision = next_revision ab,
      km_stamp = touch_stamp (km_stamp old) at actor\<rparr>"
    and "ab_models ab' = fmupd (mi_code input) row (ab_models ab)"
    and "ab_collections ab' = ab_collections ab" "ab_subscriptions ab' = ab_subscriptions ab"
      "ab_templates ab' = ab_templates ab"
  using assms
  by (fastforce simp: update_model_def compile_collection_row_def wrote_def admin_results
      split: option.splits if_splits dest: record_facts_Inr)

definition open_slots :: "template_input \<Rightarrow> (string \<times> int, catalog_template) fmap \<Rightarrow> (string \<times> int, catalog_template) fmap" where
  "open_slots t templates = (if ti_enabled t then fmmap (clear_active_slot (ti_model t) (ti_type t)) templates else templates)"

lemma create_template_Inr:
  assumes "create_template t actor at ab = Inr (ab', row)"
  obtains model spec where "fmlookup (ab_models ab) (ti_model t) = Some model" "mi_enabled (km_input model)"
    and "mi_document (km_input model) = ModelDocument spec" "template_applies t spec" "template_row_ok t"
    and "wrote ''ADD'' ''RELEASE_TEMPLATE'' (ti_code t) (mi_collection (km_input model)) actor at ab ab'"
    and "row = \<lparr>kp_input = t, kp_version = latest_version (ti_code t) ab + 1, kp_created_at = at,
      kp_created_by = ap_subject actor\<rparr>"
    and "ab_templates ab' = fmupd (ti_code t, kp_version row) row (open_slots t (ab_templates ab))"
    and "ab_models ab' = fmupd (ti_model t) (model\<lparr>km_revision := next_revision ab,
      km_stamp := touch_stamp (km_stamp model) at actor\<rparr>) (ab_models ab)"
    and "ab_collections ab' = ab_collections ab" "ab_subscriptions ab' = ab_subscriptions ab"
proof -
  obtain model where model: "fmlookup (ab_models ab) (ti_model t) = Some model" "mi_enabled (km_input model)"
    using assms by (auto simp: create_template_def split: option.splits if_splits)
  with assms obtain spec where spec: "mi_document (km_input model) = ModelDocument spec" "template_applies t spec"
    by (cases "mi_document (km_input model)") (auto simp: create_template_def split: if_splits)
  have same: "next_revision (ab\<lparr>ab_templates := x\<rparr>) = next_revision ab" for x by (simp add: next_revision_def)
  show thesis
    using assms model spec that
    by (simp add: create_template_def open_slots_def wrote_def admin_results same)
      (fastforce dest: record_facts_Inr)
qed

section \<open>Histories\<close>

text \<open>
  One step: a command of the service by anyone, at any time, an action on a release, or a change that
  is not made through these services but grows the counter and the versions, such as the first
  version of an environment.
\<close>

inductive admin_step :: "scalar_lib \<Rightarrow> admin_db \<Rightarrow> admin_db \<Rightarrow> bool" for lib where
  new_collection: "admin_create_collection lib p input now ab = Inr (ab', a) \<Longrightarrow> admin_step lib ab ab'"
| changed_collection: "admin_update_collection lib p expected input now ab = Inr (ab', a) \<Longrightarrow> admin_step lib ab ab'"
| new_subscription: "admin_create_subscription lib fresh p s now ab = Inr (ab', row) \<Longrightarrow> admin_step lib ab ab'"
| changed_subscription: "admin_update_subscription lib p expected s now ab = Inr (ab', row) \<Longrightarrow> admin_step lib ab ab'"
| new_model: "admin_create_model lib p m now ab = Inr (ab', mrow) \<Longrightarrow> admin_step lib ab ab'"
| changed_model: "admin_update_model lib p expected m now ab = Inr (ab', mrow) \<Longrightarrow> admin_step lib ab ab'"
| new_template: "admin_create_template p t now ab = Inr (ab', trow) \<Longrightarrow> admin_step lib ab ab'"
| action: "rd_db rd = ab_db ab \<Longrightarrow> admin_step lib ab (ab\<lparr>ab_db := rd_db (fst (act db_time c now rd))\<rparr>)"
| outside: "released (ab_db ab) db' \<Longrightarrow> admin_step lib ab (ab\<lparr>ab_db := db'\<rparr>)"

definition admin_start :: "admin_db \<Rightarrow> bool" where
  "admin_start ab \<longleftrightarrow>
     ab_collections ab = fmempty \<and> ab_subscriptions ab = fmempty \<and> ab_models ab = fmempty \<and> ab_templates ab = fmempty \<and>
     db_counter (ab_db ab) = Some 0 \<and> db_versions (ab_db ab) = fmempty"

definition admin_history :: "scalar_lib \<Rightarrow> admin_db \<Rightarrow> bool" where
  "admin_history lib ab \<longleftrightarrow> (\<exists>start. admin_start start \<and> (admin_step lib)\<^sup>*\<^sup>* start ab)"

lemmas admin_commands = admin_create_collection_def admin_update_collection_def admin_create_subscription_def
  admin_update_subscription_def admin_create_model_def admin_update_model_def admin_create_template_def

lemma admin_history_induct:
  assumes "admin_history lib ab" and "\<And>start. admin_start start \<Longrightarrow> P start"
    and "\<And>ab ab'. P ab \<Longrightarrow> admin_step lib ab ab' \<Longrightarrow> P ab'"
  shows "P ab"
proof -
  obtain start where start: "admin_start start" and run: "(admin_step lib)\<^sup>*\<^sup>* start ab"
    using assms(1) by (auto simp: admin_history_def)
  from run show ?thesis by induction (use start assms(2,3) in blast)+
qed

section \<open>Revisions\<close>

text \<open>The revisions of what a collection is made of: its row, its subscriptions, its models.\<close>

definition metadata_revision :: "admin_db \<Rightarrow> string \<Rightarrow> u64 \<Rightarrow> bool" where
  "metadata_revision ab c r \<longleftrightarrow>
     (\<exists>row. fmlookup (ab_collections ab) c = Some row \<and> r = kc_revision row) \<or>
     (\<exists>k row. fmlookup (ab_subscriptions ab) k = Some row \<and> si_collection (kb_input row) = c \<and> r = kb_revision row) \<or>
     (\<exists>k row. fmlookup (ab_models ab) k = Some row \<and> mi_collection (km_input row) = c \<and> r = km_revision row)"

text \<open>No version of a collection is older than its metadata, and nothing is newer than the counter.\<close>

definition versions_cover :: "admin_db \<Rightarrow> bool" where
  "versions_cover ab \<longleftrightarrow>
     (\<exists>n. db_counter (ab_db ab) = Some n \<and>
       (\<forall>c r. metadata_revision ab c r \<longrightarrow> r \<le> n \<and>
         (\<forall>e v. fmlookup (db_versions (ab_db ab)) (c, e) = Some v \<longrightarrow> r \<le> vr_revision v)) \<and>
       (\<forall>p v. fmlookup (db_versions (ab_db ab)) p = Some v \<longrightarrow> vr_revision v \<le> n))"

lemma wrote_counter:
  assumes "wrote verb kind resource c actor at ab ab'"
  obtains n where "db_counter (ab_db ab) = Some n" "db_counter (ab_db ab') = Some (n + 1)" "next_revision ab = n + 1" "n < n + 1"
proof -
  from assms obtain n where n: "db_counter (ab_db ab) = Some n" "next_revision ab = n + 1" "n + 1 \<noteq> 0"
    by (cases "db_counter (ab_db ab)") (auto simp: wrote_def next_revision_def)
  moreover have "db_counter (ab_db ab') = Some (n + 1)"
    using assms n append_metadata_facts_Inr(2) by (fastforce simp: wrote_def)
  moreover have "n < n + 1" using n(3) unatSuc [of n] by (simp add: word_less_nat_alt add.commute)
  ultimately show thesis using that by blast
qed

lemma wrote_versions:
  assumes "wrote verb kind resource c actor at ab ab'"
  shows "c' \<noteq> c \<Longrightarrow> fmlookup (db_versions (ab_db ab')) (c', e) = fmlookup (db_versions (ab_db ab)) (c', e)"
    and "fmlookup (db_versions (ab_db ab')) (c, e) = Some v \<Longrightarrow> vr_revision v = next_revision ab"
proof -
  have facts: "append_metadata_facts verb kind resource c (next_revision ab) actor at
       ((ab_db ab)\<lparr>db_counter := Some (next_revision ab)\<rparr>) = Inr (ab_db ab')" using assms by (simp add: wrote_def)
  show "c' \<noteq> c \<Longrightarrow> fmlookup (db_versions (ab_db ab')) (c', e) = fmlookup (db_versions (ab_db ab)) (c', e)"
    using append_metadata_facts_Inr(5) [OF facts] by simp
  show "fmlookup (db_versions (ab_db ab')) (c, e) = Some v \<Longrightarrow> vr_revision v = next_revision ab"
    using append_metadata_facts_Inr(6) [OF facts] by simp
qed

lemma versions_cover_wrote:
  assumes "versions_cover ab" "wrote verb kind resource c actor at ab ab'"
    and "\<And>c' r. metadata_revision ab' c' r \<Longrightarrow> metadata_revision ab c' r \<or> c' = c \<and> r = next_revision ab"
  shows "versions_cover ab'"
proof -
  obtain n where n: "db_counter (ab_db ab) = Some n" "db_counter (ab_db ab') = Some (n + 1)" "next_revision ab = n + 1" "n < n + 1"
    using wrote_counter [OF assms(2)] .
  note v = wrote_versions [OF assms(2), unfolded n(3)]
  have old: "r \<le> n" "fmlookup (db_versions (ab_db ab)) (c', e) = Some v \<Longrightarrow> r \<le> vr_revision v"
    if "metadata_revision ab c' r" for c' r e v
    using assms(1) that n(1) unfolding versions_cover_def by force+
  have top: "vr_revision v \<le> n" if "fmlookup (db_versions (ab_db ab)) p = Some v" for p v
    using assms(1) that n(1) unfolding versions_cover_def by (metis option.inject)
  have "r \<le> n + 1 \<and> (\<forall>e v. fmlookup (db_versions (ab_db ab')) (c', e) = Some v \<longrightarrow> r \<le> vr_revision v)"
    if "metadata_revision ab' c' r" for c' r
  proof (cases "c' = c")
    case True
    have "r \<le> n + 1" using assms(3) [OF that] old(1) n(3,4) by force
    with True v(2) show ?thesis by auto
  next
    case False
    with assms(3) [OF that] have "metadata_revision ab c' r" by simp
    then have "r \<le> n + 1" using old(1) n(4) by fastforce
    with False \<open>metadata_revision ab c' r\<close> old(2) v(1) show ?thesis by simp
  qed
  moreover have "vr_revision v \<le> n + 1" if "fmlookup (db_versions (ab_db ab')) p = Some v" for p v
  proof (cases p)
    case (Pair c' e)
    show ?thesis
    proof (cases "c' = c")
      case True
      then show ?thesis using that v(2) Pair by simp
    next
      case False
      then have "vr_revision v \<le> n" using that v(1) top Pair by simp
      with n(4) show ?thesis by simp
    qed
  qed
  ultimately show ?thesis unfolding versions_cover_def using n(2) by blast
qed

text \<open>Every accepted command writes facts of the collection whose metadata it changes.\<close>

lemma metadata_revision_collection:
  assumes "ab_collections ab' = fmupd c row (ab_collections ab)" "kc_revision row = r0"
    and "ab_subscriptions ab' = ab_subscriptions ab" "ab_models ab' = ab_models ab" "metadata_revision ab' c' r"
  shows "metadata_revision ab c' r \<or> c' = c \<and> r = r0"
  using assms by (auto simp: metadata_revision_def split: if_splits)

lemma metadata_revision_subscription:
  assumes "ab_subscriptions ab' = fmupd k row (ab_subscriptions ab)" "kb_revision row = r0"
    and "ab_collections ab' = ab_collections ab" "ab_models ab' = ab_models ab" "metadata_revision ab' c' r"
  shows "metadata_revision ab c' r \<or> c' = si_collection (kb_input row) \<and> r = r0"
  using assms unfolding metadata_revision_def by (auto split: if_splits)

lemma metadata_revision_model:
  assumes "ab_models ab' = fmupd k row (ab_models ab)" "km_revision row = r0"
    and "ab_collections ab' = ab_collections ab" "ab_subscriptions ab' = ab_subscriptions ab" "metadata_revision ab' c' r"
  shows "metadata_revision ab c' r \<or> c' = mi_collection (km_input row) \<and> r = r0"
  using assms unfolding metadata_revision_def by (auto split: if_splits)

lemma admin_step_wrote:
  assumes "admin_step lib ab ab'" "db_counter (ab_db ab) = Some n"
  shows "(\<exists>db'. released (ab_db ab) db' \<and> ab' = ab\<lparr>ab_db := db'\<rparr>) \<or>
    (\<exists>verb kind resource c actor at. wrote verb kind resource c actor at ab ab' \<and>
      (\<forall>c' r. metadata_revision ab' c' r \<longrightarrow> metadata_revision ab c' r \<or> c' = c \<and> r = next_revision ab))"
  using assms(1)
proof cases
  case (new_collection p input now a)
  then obtain d where "create_collection d (fo_status input) p now ab = Inr (ab', a)"
    by (auto simp: admin_create_collection_def admin_results)
  note made = create_collection_Inr [OF this]
  have "metadata_revision ab c' r \<or> c' = cd_name d \<and> r = next_revision ab" if "metadata_revision ab' c' r" for c' r
    by (rule metadata_revision_collection [OF made(3) _ made(4,5) that]) simp
  then show ?thesis using made(1) by blast
next
  case (changed_collection p expected input now a)
  then obtain d where "update_collection lib d (fo_status input) expected p now ab = Inr (ab', a)"
    by (auto simp: admin_update_collection_def admin_results)
  then show ?thesis
  proof (cases rule: update_collection_Inr)
    case (1 row current)
    have "metadata_revision ab c' r \<or> c' = cd_name d \<and> r = next_revision ab" if "metadata_revision ab' c' r" for c' r
      by (rule metadata_revision_collection [OF 1(6) _ 1(7,8) that]) simp
    then show ?thesis using 1(5) by blast
  qed
next
  case (new_subscription fresh p s now row)
  then have "create_subscription lib fresh s p now ab = Inr (ab', row)"
    by (auto simp: admin_create_subscription_def admin_results)
  note made = create_subscription_Inr [OF this]
  have "metadata_revision ab c' r \<or> c' = si_collection s \<and> r = next_revision ab" if "metadata_revision ab' c' r" for c' r
    using metadata_revision_subscription [OF made(6) _ made(7,8) that] by (simp add: made(5))
  then show ?thesis using made(1) by blast
next
  case (changed_subscription p expected s now row)
  then have "update_subscription lib s expected p now ab = Inr (ab', row)"
    by (auto simp: admin_update_subscription_def admin_results)
  then show ?thesis
  proof (cases rule: update_subscription_Inr)
    case (1 old)
    have "metadata_revision ab c' r \<or> c' = si_collection s \<and> r = next_revision ab" if "metadata_revision ab' c' r" for c' r
      using metadata_revision_subscription [OF 1(7) _ 1(8,9) that] by (simp add: 1(6))
    then show ?thesis using 1(5) by blast
  qed
next
  case (new_model p m now mrow)
  then have "create_model lib m p now ab = Inr (ab', mrow)" by (auto simp: admin_create_model_def admin_results)
  then show ?thesis
  proof (cases rule: create_model_Inr)
    case (1 collection d document)
    have "metadata_revision ab c' r \<or> c' = mi_collection m \<and> r = next_revision ab" if "metadata_revision ab' c' r" for c' r
      using metadata_revision_model [OF 1(7) _ 1(8,9) that] by (simp add: 1(6))
    then show ?thesis using 1(5) by blast
  qed
next
  case (changed_model p expected m now mrow)
  then have "update_model lib m expected p now ab = Inr (ab', mrow)" by (auto simp: admin_update_model_def admin_results)
  then show ?thesis
  proof (cases rule: update_model_Inr)
    case (1 old collection d document)
    have "metadata_revision ab c' r \<or> c' = mi_collection m \<and> r = next_revision ab" if "metadata_revision ab' c' r" for c' r
      using metadata_revision_model [OF 1(9) _ 1(10,11) that] by (simp add: 1(8))
    then show ?thesis using 1(7) by blast
  qed
next
  case (new_template p t now trow)
  then have "create_template t p now ab = Inr (ab', trow)" by (auto simp: admin_create_template_def admin_results)
  then show ?thesis
  proof (cases rule: create_template_Inr)
    case (1 model spec)
    have "metadata_revision ab c' r \<or> c' = mi_collection (km_input model) \<and> r = next_revision ab"
      if "metadata_revision ab' c' r" for c' r
      using metadata_revision_model [OF 1(9) _ 1(10,11) that] by simp
    then show ?thesis using 1(6) by blast
  qed
next
  case (action rd db_time c now)
  then show ?thesis using act_released [of rd n] assms(2) by metis
qed blast

lemma released_cover:
  assumes "versions_cover ab" "released (ab_db ab) db'"
  shows "versions_cover (ab\<lparr>ab_db := db'\<rparr>)"
proof -
  obtain n where n: "db_counter (ab_db ab) = Some n" using assms(1) by (auto simp: versions_cover_def)
  obtain n' where n': "db_counter db' = Some n'" "n \<le> n'"
    using assms(2) n by (auto simp: released_def split: option.splits)
  have row: "vr_revision v' \<le> n' \<and> (case fmlookup (db_versions (ab_db ab)) p of None \<Rightarrow> n \<le> vr_revision v'
      | Some v \<Rightarrow> vr_revision v \<le> vr_revision v')" if "fmlookup (db_versions db') p = Some v'" for p v'
  proof -
    have "fmlookup (db_versions (ab_db ab)) p = Some v' \<or> vr_revision v' \<le> n' \<and>
        (case fmlookup (db_versions (ab_db ab)) p of None \<Rightarrow> n \<le> vr_revision v' | Some v \<Rightarrow> vr_revision v \<le> vr_revision v')"
      using assms(2) n n'(1) that by (cases p) (simp add: released_def)
    moreover have "vr_revision v' \<le> n" if "fmlookup (db_versions (ab_db ab)) p = Some v'"
      using assms(1) n that unfolding versions_cover_def by (metis option.inject)
    ultimately show ?thesis using n'(2) by fastforce
  qed
  have old: "r \<le> n" "fmlookup (db_versions (ab_db ab)) (c', e) = Some v \<Longrightarrow> r \<le> vr_revision v"
    if "metadata_revision ab c' r" for c' r e v
    using assms(1) that n unfolding versions_cover_def by force+
  have "r \<le> vr_revision v'" if "metadata_revision ab c r" "fmlookup (db_versions db') (c, e) = Some v'" for c r e v'
    using row [OF that(2)] old [OF that(1)] by (auto split: option.splits intro: order.trans)
  moreover have "metadata_revision (ab\<lparr>ab_db := db'\<rparr>) c r \<longleftrightarrow> metadata_revision ab c r" for c r
    by (simp add: metadata_revision_def)
  ultimately show ?thesis using row old(1) n' unfolding versions_cover_def by (fastforce intro: order.trans)
qed

lemma admin_history_covers: "admin_history lib ab \<Longrightarrow> versions_cover ab"
proof (erule admin_history_induct)
  fix start
  assume "admin_start start"
  then show "versions_cover start" by (simp add: admin_start_def versions_cover_def metadata_revision_def)
next
  fix ab ab'
  assume "versions_cover ab" "admin_step lib ab ab'"
  then show "versions_cover ab'"
    using admin_step_wrote [of lib ab ab'] released_cover [of ab] versions_cover_wrote [of ab]
    by (metis versions_cover_def)
qed

section \<open>Templates\<close>

lemma latest_version_fold:
  fixes rows :: "((string \<times> int) \<times> catalog_template) list" and b :: int and code :: string
  defines "latest \<equiv> \<lambda>rows b. fold (\<lambda>((c, v), _) best. if c = code then max v best else best) rows b"
  shows "b \<le> latest rows b \<and> (\<forall>v row. ((code, v), row) \<in> set rows \<longrightarrow> v \<le> latest rows b) \<and>
    (latest rows b = b \<or> (\<exists>row. ((code, latest rows b), row) \<in> set rows))"
proof (induction rows arbitrary: b)
  case (Cons x rows)
  obtain c v row where x: "x = ((c, v), row)" by (metis prod.collapse)
  have step: "latest (x # rows) b = latest rows (if c = code then max v b else b)" by (simp add: latest_def x)
  show ?case
    using Cons [of "if c = code then max v b else b"] unfolding step by (auto simp: x max_def split: if_splits)
qed (simp add: latest_def)

lemma latest_version:
  "(code, v) |\<in>| fmdom (ab_templates ab) \<Longrightarrow> v \<le> latest_version code ab" "0 \<le> latest_version code ab"
  "latest_version code ab = 0 \<or> (code, latest_version code ab) |\<in>| fmdom (ab_templates ab)"
  using latest_version_fold [of 0 code "table_rows (ab_templates ab)"]
  by (auto simp: latest_version_def set_table_rows fmlookup_dom_iff)

text \<open>
  The versions of a template code are 1, 2, ... without a gap, each is the template of its model that
  compiles for its final effect, and at most one template is active per model and release type.
\<close>

definition templates_ok :: "admin_db \<Rightarrow> bool" where
  "templates_ok ab \<longleftrightarrow>
     (\<forall>c v row. fmlookup (ab_templates ab) (c, v) = Some row \<longrightarrow>
        ti_code (kp_input row) = c \<and> kp_version row = v \<and> 1 \<le> v \<and>
        (\<forall>w. 1 \<le> w \<longrightarrow> w \<le> v \<longrightarrow> (c, w) |\<in>| fmdom (ab_templates ab)) \<and>
        ti_model (kp_input row) |\<in>| fmdom (ab_models ab) \<and>
        is_ok (compile_template (ti_document (kp_input row)) (ti_effect (kp_input row)))) \<and>
     (\<forall>k k' row row'. fmlookup (ab_templates ab) k = Some row \<longrightarrow> fmlookup (ab_templates ab) k' = Some row' \<longrightarrow>
        ti_enabled (kp_input row) \<longrightarrow> ti_enabled (kp_input row') \<longrightarrow>
        ti_model (kp_input row) = ti_model (kp_input row') \<longrightarrow> ti_type (kp_input row) = ti_type (kp_input row') \<longrightarrow> k = k')"

lemma templates_ok_same:
  assumes "templates_ok ab" "ab_templates ab' = ab_templates ab" "fmdom (ab_models ab) |\<subseteq>| fmdom (ab_models ab')"
  shows "templates_ok ab'"
  using assms(1) fsubsetD [OF assms(3)] unfolding templates_ok_def assms(2) by blast

text \<open>A row whose slot was cleared differs from the row before in nothing else.\<close>

lemma open_slots_lookup:
  "fmlookup (open_slots t templates) k = Some row \<Longrightarrow> \<exists>old. fmlookup templates k = Some old \<and>
     kp_version row = kp_version old \<and> (\<exists>b. kp_input row = (kp_input old)\<lparr>ti_enabled := b\<rparr>) \<and>
     (ti_enabled (kp_input row) \<longrightarrow> row = old \<and>
        \<not> (ti_enabled t \<and> ti_model (kp_input old) = ti_model t \<and> ti_type (kp_input old) = ti_type t))"
  by (cases "fmlookup templates k")
    (auto simp: open_slots_def clear_active_slot_def split: if_splits intro: exI [of _ "ti_enabled (kp_input row)"])

lemma open_slots_dom [simp]: "fmdom (open_slots t templates) = fmdom templates"
  by (simp add: open_slots_def)

lemma templates_ok_new:
  assumes ok: "templates_ok ab" and row: "kp_input row = t" "kp_version row = latest_version (ti_code t) ab + 1"
    and new: "ab_templates ab' = fmupd (ti_code t, kp_version row) row (open_slots t (ab_templates ab))"
    and models: "fmdom (ab_models ab) |\<subseteq>| fmdom (ab_models ab')" "ti_model t |\<in>| fmdom (ab_models ab)"
    and compiles: "is_ok (compile_template (ti_document t) (ti_effect t))"
  shows "templates_ok ab'"
  unfolding templates_ok_def
proof (intro conjI allI impI)
  fix c v r
  assume r: "fmlookup (ab_templates ab') (c, v) = Some r"
  consider (made) "c = ti_code t" "v = kp_version row" "r = row"
    | (kept) old where "fmlookup (ab_templates ab) (c, v) = Some old" "kp_version r = kp_version old"
        "\<exists>b. kp_input r = (kp_input old)\<lparr>ti_enabled := b\<rparr>"
    using r open_slots_lookup [of t "ab_templates ab" "(c, v)" r] by (auto simp: new split: if_splits)
  then have "ti_code (kp_input r) = c \<and> kp_version r = v \<and> 1 \<le> v \<and>
      (\<forall>w. 1 \<le> w \<longrightarrow> w \<le> v \<longrightarrow> (c, w) |\<in>| fmdom (ab_templates ab')) \<and> ti_model (kp_input r) |\<in>| fmdom (ab_models ab) \<and>
      is_ok (compile_template (ti_document (kp_input r)) (ti_effect (kp_input r)))"
  proof cases
    case made
    have "(c, w) |\<in>| fmdom (ab_templates ab')" if "1 \<le> w" "w \<le> v" for w
    proof (cases "w = v")
      case False
      with that made row(2) have w: "w \<le> latest_version c ab" by simp
      with that(1) have "(c, latest_version c ab) |\<in>| fmdom (ab_templates ab)" using latest_version(3) [of c ab] by auto
      with ok w that(1) show ?thesis by (force simp: templates_ok_def new fmlookup_dom_iff)
    qed (simp add: new made)
    then show ?thesis using made row latest_version(2) [of "ti_code t" ab] models(2) compiles by auto
  next
    case kept
    with ok show ?thesis by (fastforce simp: templates_ok_def new)
  qed
  with models(1) show "ti_code (kp_input r) = c" "kp_version r = v" "1 \<le> v"
    "\<And>w. 1 \<le> w \<Longrightarrow> w \<le> v \<Longrightarrow> (c, w) |\<in>| fmdom (ab_templates ab')" "ti_model (kp_input r) |\<in>| fmdom (ab_models ab')"
    "is_ok (compile_template (ti_document (kp_input r)) (ti_effect (kp_input r)))" by (auto dest: fsubsetD)
next
  fix k k' r r'
  assume lookups: "fmlookup (ab_templates ab') k = Some r" "fmlookup (ab_templates ab') k' = Some r'"
    and same: "ti_enabled (kp_input r)" "ti_enabled (kp_input r')" "ti_model (kp_input r) = ti_model (kp_input r')"
      "ti_type (kp_input r) = ti_type (kp_input r')"
  have kept: "fmlookup (ab_templates ab) k = Some r \<and>
      \<not> (ti_enabled t \<and> ti_model (kp_input r) = ti_model t \<and> ti_type (kp_input r) = ti_type t)"
    if "fmlookup (ab_templates ab') k = Some r" "k \<noteq> (ti_code t, kp_version row)" "ti_enabled (kp_input r)" for k r
    using open_slots_lookup [of t "ab_templates ab" k r] that by (auto simp: new)
  have made: "r = row" if "fmlookup (ab_templates ab') (ti_code t, kp_version row) = Some r" for r
    using that by (simp add: new)
  show "k = k'"
    using ok lookups same kept [of k r] kept [of k' r'] made [of r] made [of r'] row(1)
    unfolding templates_ok_def by metis
qed

lemma templates_ok_step:
  assumes "templates_ok ab" "admin_step lib ab ab'"
  shows "templates_ok ab'"
  using assms(2)
proof cases
  case (new_collection p input now a)
  then obtain d where "create_collection d (fo_status input) p now ab = Inr (ab', a)"
    by (auto simp: admin_create_collection_def admin_results)
  from create_collection_Inr(5,6) [OF this] show ?thesis by (intro templates_ok_same [OF assms(1)]) simp_all
next
  case (changed_collection p expected input now a)
  then obtain d where "update_collection lib d (fo_status input) expected p now ab = Inr (ab', a)"
    by (auto simp: admin_update_collection_def admin_results)
  then show ?thesis by (cases rule: update_collection_Inr) (rule templates_ok_same [OF assms(1)], simp_all)
next
  case (new_subscription fresh p s now row)
  then have "create_subscription lib fresh s p now ab = Inr (ab', row)"
    by (auto simp: admin_create_subscription_def admin_results)
  from create_subscription_Inr(8,9) [OF this] show ?thesis by (intro templates_ok_same [OF assms(1)]) simp_all
next
  case (changed_subscription p expected s now row)
  then have "update_subscription lib s expected p now ab = Inr (ab', row)"
    by (auto simp: admin_update_subscription_def admin_results)
  then show ?thesis by (cases rule: update_subscription_Inr) (rule templates_ok_same [OF assms(1)], simp_all)
next
  case (new_model p m now mrow)
  then have "create_model lib m p now ab = Inr (ab', mrow)" by (auto simp: admin_create_model_def admin_results)
  then show ?thesis by (cases rule: create_model_Inr) (rule templates_ok_same [OF assms(1)], auto)
next
  case (changed_model p expected m now mrow)
  then have "update_model lib m expected p now ab = Inr (ab', mrow)" by (auto simp: admin_update_model_def admin_results)
  then show ?thesis by (cases rule: update_model_Inr) (rule templates_ok_same [OF assms(1)], auto)
next
  case (new_template p t now trow)
  then have made: "create_template t p now ab = Inr (ab', trow)"
    and compiles: "is_ok (compile_template (ti_document t) (ti_effect t))"
    by (auto simp: admin_create_template_def admin_results is_ok_iff)
  from made show ?thesis
  proof (cases rule: create_template_Inr)
    case (1 model spec)
    then show ?thesis
      by (intro templates_ok_new [OF assms(1), where row = trow and t = t]) (auto simp: compiles intro: fmdomI)
  qed
next
  case (action rd db_time c now)
  then show ?thesis by (intro templates_ok_same [OF assms(1)]) simp_all
next
  case (outside db')
  then show ?thesis by (intro templates_ok_same [OF assms(1)]) simp_all
qed

lemma admin_history_templates: "admin_history lib ab \<Longrightarrow> templates_ok ab"
proof (erule admin_history_induct)
  show "templates_ok start" if "admin_start start" for start
    using that by (simp add: admin_start_def templates_ok_def)
qed (rule templates_ok_step)

section \<open>What releases read\<close>

text \<open>The tables as \<open>load_catalog\<close> sees them: the columns override the document of a model.\<close>

definition model_row_of :: "catalog_model \<Rightarrow> model_row option" where
  "model_row_of row =
     (case mi_document (km_input row) of
        ModelDocument decoded \<Rightarrow>
          Some \<lparr>mw_spec = model_row_spec (km_input row) (km_revision row) decoded, mw_enabled = mi_enabled (km_input row)\<rparr>
      | _ \<Rightarrow> None)"

definition template_row_of :: "catalog_template \<Rightarrow> template_row" where
  "template_row_of row =
     \<lparr>tw_code = ti_code (kp_input row), tw_version = of_int (kp_version row), tw_effect = ti_effect (kp_input row),
      tw_document = ti_document (kp_input row)\<rparr>"

definition published_tables :: "admin_db \<Rightarrow> catalog_tables" where
  "published_tables ab =
     \<lparr>kt_collections = fmmap (\<lambda>row. \<lparr>cw_spec = kc_spec row, cw_enabled = (kc_status row = ''ENABLED'')\<rparr>) (ab_collections ab),
      kt_models = fmap_of_list (concat (map (\<lambda>(k, row). case model_row_of row of None \<Rightarrow> [] | Some m \<Rightarrow> [(k, m)])
        (table_rows (ab_models ab)))),
      kt_templates = fmap_of_list (map (\<lambda>(_, row). ((ti_model (kp_input row), ti_type (kp_input row)), template_row_of row))
        (filter (\<lambda>(_, row). ti_enabled (kp_input row)) (table_rows (ab_templates ab))))\<rparr>"

lemma fmlookup_of_list_iff:
  assumes "\<And>v v'. (k, v) \<in> set xs \<Longrightarrow> (k, v') \<in> set xs \<Longrightarrow> v = v'"
  shows "fmlookup (fmap_of_list xs) k = Some v \<longleftrightarrow> (k, v) \<in> set xs"
proof
  assume "fmlookup (fmap_of_list xs) k = Some v"
  then show "(k, v) \<in> set xs" by (simp add: fmap_of_list.rep_eq map_of_SomeD)
next
  assume mem: "(k, v) \<in> set xs"
  then obtain v' where "map_of xs k = Some v'" using weak_map_of_SomeI by fast
  moreover from this have "v = v'" by (rule assms [OF mem map_of_SomeD])
  ultimately show "fmlookup (fmap_of_list xs) k = Some v" by (simp add: fmap_of_list.rep_eq)
qed

lemma published_template:
  assumes "templates_ok ab"
  shows "fmlookup (kt_templates (published_tables ab)) (model, type) = Some w \<longleftrightarrow>
    (\<exists>k row. fmlookup (ab_templates ab) k = Some row \<and> ti_enabled (kp_input row) \<and> ti_model (kp_input row) = model \<and>
       ti_type (kp_input row) = type \<and> w = template_row_of row)"
proof -
  let ?xs = "map (\<lambda>(_, row). ((ti_model (kp_input row), ti_type (kp_input row)), template_row_of row))
        (filter (\<lambda>(_, row). ti_enabled (kp_input row)) (table_rows (ab_templates ab)))"
  have mem: "((model, type), w) \<in> set ?xs \<longleftrightarrow>
    (\<exists>k row. fmlookup (ab_templates ab) k = Some row \<and> ti_enabled (kp_input row) \<and> ti_model (kp_input row) = model \<and>
       ti_type (kp_input row) = type \<and> w = template_row_of row)" for w
    by (force simp: set_table_rows)
  have unique: "w = w'" if "((model, type), w) \<in> set ?xs" "((model, type), w') \<in> set ?xs" for w w'
  proof -
    from that(1) [unfolded mem] obtain k row where r: "fmlookup (ab_templates ab) k = Some row"
      "ti_enabled (kp_input row)" "ti_model (kp_input row) = model" "ti_type (kp_input row) = type" "w = template_row_of row"
      by blast
    from that(2) [unfolded mem] obtain k' row' where r': "fmlookup (ab_templates ab) k' = Some row'"
      "ti_enabled (kp_input row')" "ti_model (kp_input row') = model" "ti_type (kp_input row') = type"
      "w' = template_row_of row'" by blast
    have "ti_model (kp_input row) = ti_model (kp_input row')" "ti_type (kp_input row) = ti_type (kp_input row')"
      by (simp_all add: r(3,4) r'(3,4))
    then have "k = k'" using assms r(1,2) r'(1,2) unfolding templates_ok_def by blast
    with r(1,5) r'(1,5) show ?thesis by simp
  qed
  show ?thesis
    unfolding published_tables_def catalog_tables.simps mem [symmetric]
    by (rule fmlookup_of_list_iff) (rule unique)
qed

lemma published_model:
  "fmlookup (kt_models (published_tables ab)) k = Some m \<longleftrightarrow>
     (\<exists>row. fmlookup (ab_models ab) k = Some row \<and> model_row_of row = Some m)"
proof -
  let ?xs = "concat (map (\<lambda>(k, row). case model_row_of row of None \<Rightarrow> [] | Some m \<Rightarrow> [(k, m)]) (table_rows (ab_models ab)))"
  have mem: "(k, m) \<in> set ?xs \<longleftrightarrow> (\<exists>row. fmlookup (ab_models ab) k = Some row \<and> model_row_of row = Some m)" for k m
    by (force simp: set_table_rows split: option.splits)
  show ?thesis
    unfolding published_tables_def catalog_tables.simps mem [symmetric]
    by (rule fmlookup_of_list_iff) (unfold mem, auto)
qed

end
