(* ===== verification/Admin_Properties.thy ===== *)
theory Admin_Properties
  imports Catalog_Histories Access_Reveal Outbox_Properties Model_Properties Release_Properties
begin

text \<open>
  The claims about the administration of the catalog (\<open>internal/catalog/application/service.go\<close>,
  \<open>internal/catalog/mysqlstore/store.go\<close>): revisions, what a change announces, and what releases
  and readers find in the tables afterwards.
\<close>

section \<open>Revisions\<close>

text \<open>
  C35: The version of a collection is never older than what it is made of: after any sequence of
  administrative commands and release actions, the revision of a collection's row, of each of its
  subscriptions and of each of its models is at most that of every version of the collection, and
  this at most the counter. So whoever holds a version up to date has missed no change of metadata.
\<close>

theorem versions_never_older_than_metadata:
  assumes "admin_history lib ab" "metadata_revision ab c r" "fmlookup (db_versions (ab_db ab)) (c, e) = Some v"
  shows "r \<le> vr_revision v \<and> (\<exists>n. db_counter (ab_db ab) = Some n \<and> vr_revision v \<le> n)"
  using admin_history_covers [OF assms(1)] assms(2,3) unfolding versions_cover_def by blast

section \<open>Announcements\<close>

datatype admin_command =
    NewCollection collection_form
  | ChangeCollection u64 collection_form
  | NewSubscription string subscription_input
  | ChangeSubscription u64 subscription_input
  | NewModel model_input
  | ChangeModel u64 model_input
  | NewTemplate template_input

fun run_command :: "scalar_lib \<Rightarrow> catalog_principal \<Rightarrow> gotime \<Rightarrow> admin_command \<Rightarrow> admin_db \<Rightarrow> catalog_fault + admin_db" where
  "run_command lib p now (NewCollection f) ab = rbind (admin_create_collection lib p f now ab) (\<lambda>(ab', _). Inr ab')"
| "run_command lib p now (ChangeCollection r f) ab = rbind (admin_update_collection lib p r f now ab) (\<lambda>(ab', _). Inr ab')"
| "run_command lib p now (NewSubscription k s) ab = rbind (admin_create_subscription lib k p s now ab) (\<lambda>(ab', _). Inr ab')"
| "run_command lib p now (ChangeSubscription r s) ab = rbind (admin_update_subscription lib p r s now ab) (\<lambda>(ab', _). Inr ab')"
| "run_command lib p now (NewModel m) ab = rbind (admin_create_model lib p m now ab) (\<lambda>(ab', _). Inr ab')"
| "run_command lib p now (ChangeModel r m) ab = rbind (admin_update_model lib p r m now ab) (\<lambda>(ab', _). Inr ab')"
| "run_command lib p now (NewTemplate t) ab = rbind (admin_create_template p t now ab) (\<lambda>(ab', _). Inr ab')"

text \<open>The collection a command is about.\<close>

fun command_collection :: "admin_command \<Rightarrow> admin_db \<Rightarrow> string" where
  "command_collection (NewCollection f) ab = cs_name (fo_spec f)"
| "command_collection (ChangeCollection r f) ab = cs_name (fo_spec f)"
| "command_collection (NewSubscription k s) ab = si_collection s"
| "command_collection (ChangeSubscription r s) ab = si_collection s"
| "command_collection (NewModel m) ab = mi_collection m"
| "command_collection (ChangeModel r m) ab = mi_collection m"
| "command_collection (NewTemplate t) ab =
     (case fmlookup (ab_models ab) (ti_model t) of None \<Rightarrow> [] | Some m \<Rightarrow> mi_collection (km_input m))"

definition creates_collection :: "admin_command \<Rightarrow> bool" where
  "creates_collection cmd \<longleftrightarrow> (case cmd of NewCollection _ \<Rightarrow> True | _ \<Rightarrow> False)"

lemma compiled_name:
  "compile_collection_input lib f = Inr d \<Longrightarrow> cd_name d = cs_name (fo_spec f)"
  by (auto simp: compile_collection_input_def rerror_Inr_iff valid_catalog_identifier_def compile_collection_def
      Let_def rbind_Inr_iff split: if_splits)

lemma run_command_step: "run_command lib p now cmd ab = Inr ab' \<Longrightarrow> admin_step lib ab ab'"
  by (cases cmd) (auto simp: rbind_Inr_iff intro: admin_step.intros)

lemma run_command_wrote:
  assumes "run_command lib p now cmd ab = Inr ab'"
  shows "\<exists>verb kind resource. wrote verb kind resource (command_collection cmd ab) p now ab ab' \<and>
    (kind = ''COLLECTION'' \<and> verb = ''ADD'' \<longleftrightarrow> creates_collection cmd)"
proof (cases cmd)
  case (NewCollection f)
  with assms obtain d a where d: "compile_collection_input lib f = Inr d" "create_collection d (fo_status f) p now ab = Inr (ab', a)"
    by (auto simp: admin_create_collection_def admin_results)
  show ?thesis
    using create_collection_Inr(1) [OF d(2)] by (fastforce simp: NewCollection compiled_name [OF d(1)] creates_collection_def)
next
  case (ChangeCollection r f)
  with assms obtain d a where d: "compile_collection_input lib f = Inr d"
    "update_collection lib d (fo_status f) r p now ab = Inr (ab', a)"
    by (auto simp: admin_update_collection_def admin_results)
  from d(2) have "wrote ''MODIFY'' ''COLLECTION'' (cd_name d) (cd_name d) p now ab ab'"
    by (cases rule: update_collection_Inr)
  then show ?thesis by (fastforce simp: ChangeCollection compiled_name [OF d(1)] creates_collection_def)
next
  case (NewSubscription k s)
  with assms obtain row where "create_subscription lib k s p now ab = Inr (ab', row)"
    by (auto simp: admin_create_subscription_def admin_results)
  from create_subscription_Inr(1) [OF this] show ?thesis by (fastforce simp: NewSubscription creates_collection_def)
next
  case (ChangeSubscription r s)
  with assms obtain row where "update_subscription lib s r p now ab = Inr (ab', row)"
    by (auto simp: admin_update_subscription_def admin_results)
  then show ?thesis
    by (cases rule: update_subscription_Inr) (fastforce simp: ChangeSubscription creates_collection_def)
next
  case (NewModel m)
  with assms obtain row where "create_model lib m p now ab = Inr (ab', row)"
    by (auto simp: admin_create_model_def admin_results)
  then show ?thesis by (cases rule: create_model_Inr) (fastforce simp: NewModel creates_collection_def)
next
  case (ChangeModel r m)
  with assms obtain row where "update_model lib m r p now ab = Inr (ab', row)"
    by (auto simp: admin_update_model_def admin_results)
  then show ?thesis by (cases rule: update_model_Inr) (fastforce simp: ChangeModel creates_collection_def)
next
  case (NewTemplate t)
  with assms obtain row where "create_template t p now ab = Inr (ab', row)"
    by (auto simp: admin_create_template_def admin_results)
  then show ?thesis by (cases rule: create_template_Inr) (fastforce simp: NewTemplate creates_collection_def)
qed

lemma decode_metadata_payload:
  assumes "same_document text (metadata_payload collection environment revision)"
  shows "decode_payload text = Some \<lparr>ch_schema = 1, ch_collection = collection, ch_environment = environment,
    ch_revision = revision, ch_order = [], ch_trace = []\<rparr>"
proof -
  let ?ms = "[(''collection'', JStr collection), (''configRevision'', json_int (uint revision)),
    (''environment'', JStr environment), (''schemaVersion'', json_int 1)]"
  have number: "dec_uint (2 ^ 64) (Some (json_int (uint revision))) = Some (uint revision)"
    "dec_uint (2 ^ 32) (Some (json_int 1)) = Some 1"
    using uint_lt2p [of revision] by (intro dec_uint_json_int; simp)+
  have "lenient_members payload_fields (metadata_payload collection environment revision) = Some ?ms"
    by (simp add: metadata_payload_def lenient_members_def known_fields)
  moreover have "distinct (map fst ?ms)" "list_all (\<lambda>(_, v). v \<noteq> JNull) ?ms" by auto
  moreover have "list_all member_fits ?ms" using number by (auto simp: member_fits_def dec_string_def)
  ultimately show ?thesis
    using assms number unfolding metadata_payload_def by (subst decode_permutation) (auto simp: dec_string_def)
qed

text \<open>The event row asks every server of the environment for the collection at the revision.\<close>

definition announces :: "string \<Rightarrow> u64 \<Rightarrow> outbox_event \<Rightarrow> string \<Rightarrow> bool" where
  "announces c r row e \<longleftrightarrow>
     (\<forall>ev. delivers ev row \<longrightarrow> event_notification ev =
        (if c = [] \<or> e = [] then Inl IncompleteEvent
         else Inr \<lparr>no_event = re_id ev, no_environment = e,
                   no_targets = [\<lparr>nt_collection = c, nt_min = r, nt_cursor = 0\<rparr>], no_order = [], no_trace = []\<rparr>))"

lemma metadata_event_announces:
  assumes "r \<noteq> 0"
  shows "announces c r (metadata_event verb kind resource c r at e) e"
  using assms decode_metadata_payload
  by (auto simp: announces_def delivers_def metadata_event_def event_notification_def)

text \<open>
  C36: Every change of the catalog is announced. An accepted command takes the next revision and adds one
  event per environment in which its collection has a version, each of which the relay sends as a
  request for the collection at that revision in that environment; every version of the collection
  has that revision then. Its environments are those it had, and for a new collection all that are known.
\<close>

theorem catalog_change_is_announced:
  assumes "run_command lib p now cmd ab = Inr ab'" "c = command_collection cmd ab"
  shows "\<exists>rows. db_events (ab_db ab') = db_events (ab_db ab) @ rows \<and>
    list_all2 (announces c (next_revision ab)) rows (collection_environments (ab_db ab') c) \<and>
    collection_environments (ab_db ab') c =
      (if creates_collection cmd then known_environments (ab_db ab) else collection_environments (ab_db ab) c) \<and>
    list_all (\<lambda>e. map_option vr_revision (fmlookup (db_versions (ab_db ab')) (c, e)) = Some (next_revision ab))
      (collection_environments (ab_db ab') c) \<and>
    db_counter (ab_db ab') = Some (next_revision ab)"
proof -
  obtain verb kind resource where w: "wrote verb kind resource c p now ab ab'"
    "kind = ''COLLECTION'' \<and> verb = ''ADD'' \<longleftrightarrow> creates_collection cmd"
    using run_command_wrote [OF assms(1)] assms(2) by blast
  let ?r = "next_revision ab"
  have facts: "append_metadata_facts verb kind resource c ?r p now ((ab_db ab)\<lparr>db_counter := Some ?r\<rparr>) = Inr (ab_db ab')"
    using w(1) by (simp add: wrote_def)
  note f = append_metadata_facts_Inr [OF facts]
  have same: "known_environments ((ab_db ab)\<lparr>db_counter := x\<rparr>) = known_environments (ab_db ab)"
    "collection_environments ((ab_db ab)\<lparr>db_counter := x\<rparr>) c = collection_environments (ab_db ab) c" for x
    by (simp_all add: known_environments_def collection_environments_def)
  have "set (collection_environments (ab_db ab') c) =
      set (if creates_collection cmd then known_environments (ab_db ab) else collection_environments (ab_db ab) c)"
    using f(7) w(2) same by (auto simp: set_collection_environments)
  then have environments: "collection_environments (ab_db ab') c =
      (if creates_collection cmd then known_environments (ab_db ab) else collection_environments (ab_db ab) c)"
    by (intro sorted_distinct_set_unique) (auto simp: environments_ordered)
  have "list_all2 (announces c ?r) (map (metadata_event verb kind resource c ?r now) es) es" for es
    by (induction es) (simp_all add: metadata_event_announces [OF f(1)])
  moreover have "map_option vr_revision (fmlookup (db_versions (ab_db ab')) (c, e)) = Some ?r"
    if "e \<in> set (collection_environments (ab_db ab') c)" for e
    using that f(6) by (fastforce simp: set_collection_environments fmlookup_dom_iff)
  ultimately show ?thesis using f(2,8) environments by (auto simp: list_all_iff)
qed

section \<open>Templates\<close>

text \<open>
  C37: The template an administrator enabled is the one releases follow. After any history of the catalog,
  once a template is created enabled, a release of its model and type is set up with exactly this
  template: its code, the version it was given and the steps its document compiles to, with the
  definition and the model that readers of sensitive values load, provided these are enabled and compile.
\<close>

theorem enabled_template_governs_releases:
  assumes "admin_history lib ab" "admin_create_template p t now ab = Inr (ab', row)" "ti_enabled t"
    and "load_access_catalog lib (published_tables ab') (ti_model t) = Inr (d, m)"
  shows "\<exists>tpl. compile_template (ti_document t) (ti_effect t) = Inr tpl \<and> 1 \<le> kp_version row \<and>
    load_catalog lib (published_tables ab') (ti_model t) (ti_type t) =
      Inr \<lparr>bu_definition = d, bu_model = m, bu_template_code = ti_code t,
           bu_template_version = of_int (kp_version row), bu_release_type = ti_type t, bu_template = tpl\<rparr>"
proof -
  have "admin_step lib ab ab'" using assms(2) by (rule admin_step.new_template)
  then have ok: "templates_ok ab'" by (rule templates_ok_step [OF admin_history_templates [OF assms(1)]])
  obtain tpl where tpl: "compile_template (ti_document t) (ti_effect t) = Inr tpl"
    and made: "create_template t p now ab = Inr (ab', row)"
    using assms(2) by (auto simp: admin_create_template_def admin_results)
  from made have stored: "fmlookup (ab_templates ab') (ti_code t, kp_version row) = Some row" "kp_input row = t"
    by (cases rule: create_template_Inr; simp)+
  have "fmlookup (kt_templates (published_tables ab')) (ti_model t, ti_type t) = Some (template_row_of row)"
    unfolding published_template [OF ok] using stored assms(3)
    by (intro exI [of _ "(ti_code t, kp_version row)"] exI [of _ row]) simp
  moreover have "1 \<le> kp_version row" using ok stored(1) unfolding templates_ok_def by blast
  ultimately show ?thesis
    using assms(4) tpl
    by (auto simp: load_access_catalog_def load_catalog_def template_row_of_def stored(2) as_failure_def
      rbind_Inr_iff rerror_Inr_iff split: option.splits if_splits)
qed

section \<open>Sample tables\<close>

declare sha256_def [code del]

definition admin_principal :: catalog_principal where
  "admin_principal = \<lparr>ap_subject = ''ann'', ap_name = ''Ann'', ap_roles = [''CONFIG_ADMIN'']\<rparr>"

definition limits_form :: "string option \<Rightarrow> collection_form" where
  "limits_form amount =
     \<lparr>fo_spec = \<lparr>cs_name = ''limits'', cs_description = [],
        cs_fields = [sample_field ''code'' FieldTypeString True 0,
                     (sample_field ''amount'' FieldTypeInt64 False 1)\<lparr>fd_default := amount\<rparr>],
        cs_key_fields = [''code''], cs_sdk_delivery = True, cs_schema_version = 1\<rparr>, fo_status = ''ENABLED''\<rparr>"

definition limits_model :: model_input where
  "limits_model =
     \<lparr>mi_code = ''limit_editor'', mi_name = ''Limits'', mi_collection = ''limits'',
      mi_document = ModelDocument (sample_model_spec\<lparr>ms_fields := [sample_model_field ''code'' FieldTypeString True,
        (sample_model_field ''amount'' FieldTypeInt64 False)\<lparr>mf_editable := False\<rparr>]\<rparr>), mi_enabled = True\<rparr>"

definition limits_template :: template_input where
  "limits_template =
     \<lparr>ti_code = ''std_v1'', ti_name = ''Standard'', ti_model = ''limit_editor'', ti_type = ''std'', ti_effect = FinalEffectBase,
      ti_scheduling = False, ti_window = 0, ti_document = sample_template_document, ti_roles = Some [], ti_enabled = True\<rparr>"

definition empty_admin :: admin_db where
  "empty_admin =
     \<lparr>ab_db = \<lparr>db_counter = Some 0, db_records = fmempty, db_rules = fmempty, db_versions = fmempty, db_log = [],
        db_events = [], db_audit = []\<rparr>,
      ab_collections = fmempty, ab_subscriptions = fmempty, ab_models = fmempty, ab_templates = fmempty\<rparr>"

text \<open>The tables after the collection, the model and the template were created.\<close>

definition limits_row :: catalog_collection where
  "limits_row = \<lparr>kc_spec = fo_spec (limits_form None), kc_status = ''ENABLED'', kc_revision = 1,
     kc_stamp = new_stamp 9 admin_principal\<rparr>"

definition limits_model_row :: "u64 \<Rightarrow> catalog_model" where
  "limits_model_row r =
     (case mi_document limits_model of
        ModelDocument spec \<Rightarrow>
          \<lparr>km_input = limits_model\<lparr>mi_document := ModelDocument (model_row_spec limits_model 2 spec)\<rparr>, km_revision = r,
           km_stamp = new_stamp 9 admin_principal\<rparr>
      | _ \<Rightarrow> \<lparr>km_input = limits_model, km_revision = r, km_stamp = new_stamp 9 admin_principal\<rparr>)"

definition limits_logs :: "database \<Rightarrow> database" where
  "limits_logs db = log_metadata ''ADD'' ''MODEL'' ''limit_editor'' ''limits'' 2 admin_principal 9
     (log_metadata ''ADD'' ''COLLECTION'' ''limits'' ''limits'' 1 admin_principal 9 db)"

definition modelled_admin :: admin_db where
  "modelled_admin = empty_admin
     \<lparr>ab_db := limits_logs ((ab_db empty_admin)\<lparr>db_counter := Some 2\<rparr>),
      ab_collections := fmap_of_list [(''limits'', limits_row)],
      ab_models := fmap_of_list [(''limit_editor'', limits_model_row 2)]\<rparr>"

definition governed_admin :: admin_db where
  "governed_admin = modelled_admin
     \<lparr>ab_db := log_metadata ''ADD'' ''RELEASE_TEMPLATE'' ''std_v1'' ''limits'' 3 admin_principal 9
        ((ab_db modelled_admin)\<lparr>db_counter := Some 3\<rparr>),
      ab_models := fmap_of_list [(''limit_editor'', limits_model_row 3)],
      ab_templates := fmap_of_list [((''std_v1'', 1),
        \<lparr>kp_input = limits_template, kp_version = 1, kp_created_at = 9, kp_created_by = ''ann''\<rparr>)]\<rparr>"

text \<open>A record, and the version of the collection in its first environment.\<close>

definition seeded_admin :: admin_db where
  "seeded_admin = governed_admin\<lparr>ab_db := (ab_db governed_admin)
     \<lparr>db_records := fmap_of_list [((''limits'', ''prod'', ''WyJ1c2QiXQ''), \<lparr>cr_collection = ''limits'', cr_environment = ''prod'',
        cr_key = ''WyJ1c2QiXQ'', cr_data = Some (fmap_of_list [(''code'', ''usd'')]), cr_revision = 3\<rparr>)],
      db_versions := fmap_of_list [((''limits'', ''prod''),
        \<lparr>vr_revision = 3, vr_base_digest = [], vr_overlay_digest = [], vr_order = [], vr_at = 9\<rparr>)]\<rparr>\<rparr>"

lemma sample_runs:
  "rbind (run_command sample_lib admin_principal 9 (NewCollection (limits_form None)) empty_admin)
     (run_command sample_lib admin_principal 9 (NewModel limits_model)) = Inr modelled_admin"
  "run_command sample_lib admin_principal 9 (NewTemplate limits_template) modelled_admin = Inr governed_admin"
  by code_simp+

lemma sample_admin_histories:
  "admin_history sample_lib modelled_admin" "admin_history sample_lib seeded_admin"
proof -
  have start: "admin_start empty_admin" by (simp add: admin_start_def empty_admin_def)
  obtain ab where "run_command sample_lib admin_principal 9 (NewCollection (limits_form None)) empty_admin = Inr ab"
    "run_command sample_lib admin_principal 9 (NewModel limits_model) ab = Inr modelled_admin"
    using sample_runs(1) unfolding rbind_Inr_iff by blast
  then have modelled: "(admin_step sample_lib)\<^sup>*\<^sup>* empty_admin modelled_admin"
    by (blast intro: rtranclp.rtrancl_into_rtrancl run_command_step)
  then have governed: "(admin_step sample_lib)\<^sup>*\<^sup>* empty_admin governed_admin"
    using run_command_step [OF sample_runs(2)] by (rule rtranclp.rtrancl_into_rtrancl)
  have "db_counter (ab_db governed_admin) = Some 3"
    "fmlookup (db_versions (ab_db governed_admin)) (''limits'', ''prod'') = None" by code_simp+
  then have "released (ab_db governed_admin) (ab_db seeded_admin)" by (simp add: released_def seeded_admin_def)
  then have "admin_step sample_lib governed_admin (governed_admin\<lparr>ab_db := ab_db seeded_admin\<rparr>)" by (rule admin_step.outside)
  then have "admin_step sample_lib governed_admin seeded_admin" by (simp add: seeded_admin_def)
  with start modelled governed show "admin_history sample_lib modelled_admin" "admin_history sample_lib seeded_admin"
    unfolding admin_history_def by (blast intro: rtranclp.rtrancl_into_rtrancl)+
qed

theorem versions_never_older_than_metadata_witness:
  "\<exists>row v. fmlookup (ab_collections seeded_admin) ''limits'' = Some row \<and>
     fmlookup (db_versions (ab_db seeded_admin)) (''limits'', ''prod'') = Some v \<and> kc_revision row \<le> vr_revision v"
proof -
  have "''limits'' |\<in>| fmdom (ab_collections seeded_admin)"
    "(''limits'', ''prod'') |\<in>| fmdom (db_versions (ab_db seeded_admin))" by code_simp+
  then obtain row v where rows: "fmlookup (ab_collections seeded_admin) ''limits'' = Some row"
    "fmlookup (db_versions (ab_db seeded_admin)) (''limits'', ''prod'') = Some v" by (auto simp: fmlookup_dom_iff)
  then have "metadata_revision seeded_admin ''limits'' (kc_revision row)" by (auto simp: metadata_revision_def)
  from versions_never_older_than_metadata [OF sample_admin_histories(2) this rows(2)] rows show ?thesis by blast
qed

lemma sample_change_runs:
  "is_ok (run_command sample_lib admin_principal 9 (ChangeCollection 1 (limits_form (Some ''5''))) seeded_admin)"
  by code_simp

theorem catalog_change_is_announced_witness:
  "\<exists>ab' rows. run_command sample_lib admin_principal 9 (ChangeCollection 1 (limits_form (Some ''5''))) seeded_admin = Inr ab' \<and>
     db_events (ab_db ab') = db_events (ab_db seeded_admin) @ rows \<and> list_all2 (announces ''limits'' 4) rows [''prod'']"
proof -
  let ?cmd = "ChangeCollection 1 (limits_form (Some ''5''))"
  from sample_change_runs obtain ab' where ab': "run_command sample_lib admin_principal 9 ?cmd seeded_admin = Inr ab'"
    by (auto simp: is_ok_iff)
  have facts: "command_collection ?cmd seeded_admin = ''limits''" "next_revision seeded_admin = 4"
    "collection_environments (ab_db seeded_admin) ''limits'' = [''prod'']" "creates_collection ?cmd = False" by code_simp+
  from catalog_change_is_announced [OF ab' refl, unfolded facts if_False] obtain rows where
    "db_events (ab_db ab') = db_events (ab_db seeded_admin) @ rows"
    "list_all2 (announces ''limits'' 4) rows (collection_environments (ab_db ab') ''limits'')"
    "collection_environments (ab_db ab') ''limits'' = [''prod'']" by (elim exE conjE) (rule that)
  then show ?thesis by (intro exI [of _ ab'] exI [of _ rows]) (use ab' in \<open>simp del: run_command.simps\<close>)
qed

theorem enabled_template_governs_releases_witness:
  "\<exists>ab' row d m tpl. admin_create_template admin_principal limits_template 9 modelled_admin = Inr (ab', row) \<and>
     load_catalog sample_lib (published_tables ab') ''limit_editor'' ''std'' =
       Inr \<lparr>bu_definition = d, bu_model = m, bu_template_code = ''std_v1'', bu_template_version = of_int (kp_version row),
            bu_release_type = ''std'', bu_template = tpl\<rparr>"
proof -
  from sample_runs(2) obtain row ab' where made: "admin_create_template admin_principal limits_template 9 modelled_admin = Inr (ab', row)"
    and "ab' = governed_admin" by (auto simp: rbind_Inr_iff)
  moreover have "is_ok (load_access_catalog sample_lib (published_tables governed_admin) ''limit_editor'')" by code_simp
  moreover have fields: "ti_model limits_template = ''limit_editor''" "ti_type limits_template = ''std''"
    "ti_code limits_template = ''std_v1''" "ti_enabled limits_template" by (simp_all add: limits_template_def)
  ultimately obtain d m where "load_access_catalog sample_lib (published_tables ab') (ti_model limits_template) = Inr (d, m)"
    by (auto simp: is_ok_iff)
  from enabled_template_governs_releases [OF sample_admin_histories(1) made fields(4) this] made show ?thesis
    unfolding fields by blast
qed

section \<open>A change the catalog lets through\<close>

text \<open>Two definitions that differ in nothing but the default values of their fields, and descriptive columns.\<close>

definition only_defaults_differ :: "collection_definition \<Rightarrow> collection_definition \<Rightarrow> bool" where
  "only_defaults_differ current new \<longleftrightarrow>
     cd_key_fields current = cd_key_fields new \<and>
     list_all2 (\<lambda>f g. f\<lparr>fd_default := None\<rparr> = g\<lparr>fd_default := None\<rparr>) (cd_fields current) (cd_fields new)"

lemma default_change_not_destructive:
  assumes "collection_compiled lib current" "collection_compiled lib new" "only_defaults_differ current new"
  shows "\<not> destructive_change current new"
proof -
  have find: "definition_field d (fd_name f) = Some f" if "collection_compiled lib d" "f \<in> set (cd_fields d)" for d f
    using that by (simp add: definition_field_def collection_compiled_def index_fields_lookup)
  have pairs: "list_all2 (\<lambda>f g. f\<lparr>fd_default := None\<rparr> = g\<lparr>fd_default := None\<rparr>) (cd_fields current) (cd_fields new)"
    using assms(3) by (simp add: only_defaults_differ_def)
  have same: "fd_name f = fd_name g \<and> fd_type f = fd_type g \<and> fd_required f = fd_required g \<and>
      fd_sensitive f = fd_sensitive g \<and> fd_rules f = fd_rules g"
    if "f\<lparr>fd_default := None\<rparr> = g\<lparr>fd_default := None\<rparr>" for f g :: field_definition
    using that by (cases f; cases g) simp
  have "field_kept new f" if f: "f \<in> set (cd_fields current)" for f
  proof -
    from pairs f obtain g where g: "g \<in> set (cd_fields new)" "f\<lparr>fd_default := None\<rparr> = g\<lparr>fd_default := None\<rparr>"
      by (auto dest: list_all2_setD1)
    with find [OF assms(2) g(1)] same [OF g(2)] show ?thesis by (simp add: field_kept_def)
  qed
  moreover have "definition_field current (fd_name g) \<noteq> None" if g: "g \<in> set (cd_fields new)" for g
  proof -
    from pairs g obtain f where f: "f \<in> set (cd_fields current)" "f\<lparr>fd_default := None\<rparr> = g\<lparr>fd_default := None\<rparr>"
      by (auto dest: list_all2_setD2)
    with find [OF assms(1) f(1)] same [OF f(2)] show ?thesis by simp
  qed
  ultimately show ?thesis
    using assms(3) by (auto simp: destructive_change_def only_defaults_differ_def list_all_iff list_ex_iff)
qed

lemma canonical_again:
  assumes "lib_canonical lib" "canonicalize_scalar lib ft s = Inr t" "canonicalize_scalar lib ft t = Inr u"
  shows "u = t"
proof -
  have "text_returns lib ft t"
    using assms(3) by (auto simp: text_returns_def canonicalize_scalar_def from_option_Inr)
  from canonicalize_scalar_fixpoint [OF assms(1,2) this] assms(3) show ?thesis by simp
qed

text \<open>The stored fields of a collection compile to fields with the same names and defaults.\<close>

lemma recompiled_defaults:
  assumes "lib_canonical lib" "list_all (field_compiled lib) fs" "rfold (compile_field lib) [] fs = Inr gs"
  shows "list_all2 (\<lambda>f g. fd_name g = fd_name f \<and> fd_default g = fd_default f) fs gs"
proof -
  have "list_all2 (\<lambda>f g. fd_name g = fd_name f \<and> fd_default g = fd_default f) fs gs \<and> distinct (map fd_name gs)"
    using assms(3)
  proof (rule rfold_collect)
    fix seen f s assume f: "f \<in> set fs" and step: "compile_field lib seen f = Inr s"
    from assms(2) f have compiled: "field_compiled lib f" by (simp add: list_all_iff)
    then have name: "trim_space (fd_name f) = fd_name f" by (simp add: field_compiled_def identifier_trimmed)
    from step name obtain dflt rules where s: "s = seen @ [f\<lparr>fd_name := fd_name f, fd_default := dflt, fd_rules := rules\<rparr>]"
      "fd_name f \<notin> fd_name ` set seen" "compile_default lib (fd_type f) (fd_default f) = Inr dflt"
      by (auto simp: compile_field_def Let_def rbind_Inr_iff split: if_splits)
    have "dflt = fd_default f"
    proof (cases "fd_default f")
      case None
      with s(3) show ?thesis by (simp add: compile_default_def)
    next
      case (Some v)
      with compiled obtain raw where "canonicalize_scalar lib (fd_type f) raw = Inr v" by (auto simp: field_compiled_def)
      with canonical_again [OF assms(1) this] s(3) Some show ?thesis by (auto simp: compile_default_def rbind_Inr_iff)
    qed
    with s show "\<exists>g. s = seen @ [g] \<and> fd_name g \<notin> fd_name ` set seen \<and> fd_name g = fd_name f \<and> fd_default g = fd_default f"
      by auto
  qed
  then show ?thesis ..
qed

lemma model_repeats_default:
  assumes "collection_compiled lib d" "compile_model lib d spec = Inr m" "field \<in> set (ms_fields spec)"
    and "g \<in> set (cd_fields d)" "fd_name g = mf_name field"
  shows "mf_default field = fd_default g"
proof -
  have d: "distinct (map fd_name (cd_fields d))" using assms(1) by (simp add: collection_compiled_def)
  from assms(2) obtain fs where "rfold (compile_model_field lib (index_fields (cd_fields d))) [] (ms_fields spec) = Inr fs"
    by (auto simp: compile_model_def Let_def rbind_Inr_iff split: if_splits)
  from rfold_each [OF this assms(3)] obtain seen s where
    "compile_model_field lib (index_fields (cd_fields d)) seen field = Inr s" by blast
  moreover have "fmlookup (index_fields (cd_fields d)) (mf_name field) = Some g"
    using assms(4,5) by (simp add: index_fields_lookup [OF d])
  ultimately show ?thesis
    by (auto simp: compile_model_field_def rbind_Inr_iff same_optional_string_def split: if_splits option.splits)
qed

text \<open>
  C38: A change of a default value breaks the models of a collection. Changing nothing but defaults is
  never destructive, and only a destructive change is refused because of records. A model repeats
  the default values of its collection and compiles only if they agree; a model the catalog holds is
  not touched by the command. So after any accepted change of a collection that gives a field another
  default than an enabled or disabled model of it repeats, this model no longer compiles, and no
  release of it, of whatever type, can be set up until the model is changed as well.
\<close>

theorem default_change_breaks_models:
  assumes "lib_canonical lib" "run_command lib p now (ChangeCollection expected form) ab = Inr ab'"
    and "compile_collection lib (fo_spec form) = Inr new"
    and "fmlookup (kt_models (published_tables ab)) code = Some m" "ms_collection (mw_spec m) = cd_name new"
    and "field \<in> set (ms_fields (mw_spec m))" "g \<in> set (cd_fields new)" "fd_name g = mf_name field"
    and "mf_default field \<noteq> fd_default g"
  shows "(\<forall>spec current. compile_collection lib spec = Inr current \<longrightarrow> only_defaults_differ current new \<longrightarrow>
      \<not> destructive_change current new) \<and>
    fmlookup (kt_models (published_tables ab')) code = Some m \<and>
    \<not> is_ok (compile_model lib new (mw_spec m)) \<and>
    (\<forall>release_type. \<not> is_ok (load_catalog lib (published_tables ab') code release_type))"
proof -
  note compiled = compile_collection_compiled [OF assms(3)]
  from assms(2) obtain a where "admin_update_collection lib p expected form now ab = Inr (ab', a)"
    by (auto simp: rbind_Inr_iff)
  then have upd: "update_collection lib new (fo_status form) expected p now ab = Inr (ab', a)"
    using assms(3) by (auto simp: admin_update_collection_def compile_collection_input_def rbind_Inr_iff rerror_Inr_iff
        split: if_splits)
  obtain row where row: "fmlookup (ab_collections ab') (cd_name new) = Some row" "kc_spec row = spec_of_definition new"
    and models: "ab_models ab' = ab_models ab"
    using upd by (cases rule: update_collection_Inr) auto
  have kept: "fmlookup (kt_models (published_tables ab')) code = Some m"
    using assms(4) by (simp add: published_model models)
  have "\<not> is_ok (compile_model lib new (mw_spec m))"
    using model_repeats_default [OF compiled _ assms(6,7,8)] assms(9) by (auto simp: is_ok_iff)
  moreover have "\<not> is_ok (load_catalog lib (published_tables ab') code release_type)" for release_type
  proof
    assume "is_ok (load_catalog lib (published_tables ab') code release_type)"
    then obtain d loaded where d: "compile_collection lib (spec_of_definition new) = Inr d"
      "compile_model lib d (mw_spec m) = Inr loaded"
      using kept row assms(5)
      by (auto simp: load_catalog_def is_ok_iff rbind_Inr_iff as_failure_def rerror_Inr_iff published_tables_def
          split: option.splits if_splits)
    from d(1) have "rfold (compile_field lib) [] (cd_fields new) = Inr (cd_fields d)"
      by (auto simp: compile_collection_def spec_of_definition_def Let_def rbind_Inr_iff split: if_splits)
    from recompiled_defaults [OF assms(1) _ this] compiled
    have "list_all2 (\<lambda>f g. fd_name g = fd_name f \<and> fd_default g = fd_default f) (cd_fields new) (cd_fields d)"
      by (simp add: collection_compiled_def list_all_iff)
    from list_all2_setD1 [OF this assms(7)] obtain g' where "g' \<in> set (cd_fields d)" "fd_name g' = fd_name g"
      "fd_default g' = fd_default g" by blast
    with model_repeats_default [OF compile_collection_compiled [OF d(1)] d(2) assms(6), of g'] assms(8,9)
    show False by simp
  qed
  moreover have "\<not> destructive_change current new"
    if "compile_collection lib spec = Inr current" "only_defaults_differ current new" for spec current
    using default_change_not_destructive [OF compile_collection_compiled [OF that(1)] compiled that(2)] .
  ultimately show ?thesis using kept by blast
qed

text \<open>
  In the sample tables the collection has a record and its model loads; the default of \<open>amount\<close> is
  changed from none to 5.
\<close>

theorem default_change_breaks_models_witness:
  "\<exists>ab'. has_records (ab_db seeded_admin) ''limits'' \<and>
     is_ok (load_catalog sample_lib (published_tables seeded_admin) ''limit_editor'' ''std'') \<and>
     run_command sample_lib admin_principal 9 (ChangeCollection 1 (limits_form (Some ''5''))) seeded_admin = Inr ab' \<and>
     \<not> is_ok (load_catalog sample_lib (published_tables ab') ''limit_editor'' ''std'')"
proof -
  let ?amount = "(sample_field ''amount'' FieldTypeInt64 False 1)\<lparr>fd_default := Some ''5''\<rparr>"
  let ?field = "(sample_model_field ''amount'' FieldTypeInt64 False)\<lparr>mf_editable := False\<rparr>"
  from sample_change_runs obtain ab' where
    ab': "run_command sample_lib admin_principal 9 (ChangeCollection 1 (limits_form (Some ''5''))) seeded_admin = Inr ab'"
    by (auto simp: is_ok_iff)
  have before: "has_records (ab_db seeded_admin) ''limits''"
    "is_ok (load_catalog sample_lib (published_tables seeded_admin) ''limit_editor'' ''std'')"
    by code_simp+
  have "rbind (compile_collection sample_lib (fo_spec (limits_form (Some ''5'')))) (\<lambda>d. Inr (cd_name d, cd_fields d)) =
      Inr (''limits'', [sample_field ''code'' FieldTypeString True 0, ?amount])" by code_simp
  then obtain new where new: "compile_collection sample_lib (fo_spec (limits_form (Some ''5''))) = Inr new"
    "cd_name new = ''limits''" "?amount \<in> set (cd_fields new)" by (auto simp: rbind_Inr_iff)
  have "map_option (\<lambda>m. (ms_collection (mw_spec m), ms_fields (mw_spec m)))
      (fmlookup (kt_models (published_tables seeded_admin)) ''limit_editor'') =
      Some (''limits'', [sample_model_field ''code'' FieldTypeString True, ?field])" by code_simp
  then obtain m where m: "fmlookup (kt_models (published_tables seeded_admin)) ''limit_editor'' = Some m"
    "ms_collection (mw_spec m) = ''limits''" "?field \<in> set (ms_fields (mw_spec m))" by auto
  have "mf_default ?field \<noteq> fd_default ?amount" "fd_name ?amount = mf_name ?field" by code_simp+
  with default_change_breaks_models [OF sample_lib_canonical ab' new(1) m(1) _ m(3) new(3)] m(2) new(2)
  have "\<not> is_ok (load_catalog sample_lib (published_tables ab') ''limit_editor'' ''std'')" by metis
  with before ab' show ?thesis by blast
qed

end
