(* ===== verification/Snapshot_Source.thy ===== *)
theory Snapshot_Source
  imports Catalog_Service Snapshot_Manager
begin

text \<open>
  What the snapshot manager and the version poller read: \<open>internal/distribution/mysqlsource/source.go\<close>
  on the tables of the catalog and of releases. Each operation reads in one transaction, so it sees
  one state. Queries that fail are left out; the identifier that the database gives the n-th row of the
  change log is the parameter \<open>log_id\<close>, as identifiers of aborted transactions are skipped.
\<close>

section \<open>Release types\<close>

text \<open>The active templates of a model, by release type; \<open>uq_release_template_active\<close> allows one of each.\<close>

definition active_templates :: "admin_db \<Rightarrow> string \<Rightarrow> (string, string) fmap" where
  "active_templates ab model =
     fmap_of_list (map (\<lambda>(_, row). (ti_type (kp_input row), ti_code (kp_input row)))
       (filter (\<lambda>(_, row). ti_model (kp_input row) = model \<and> ti_enabled (kp_input row)) (table_rows (ab_templates ab))))"

definition resolve_release_type :: "(string, string) fmap \<Rightarrow> release_type_definition \<Rightarrow> release_type_definition" where
  "resolve_release_type active rt =
     (if \<not> rt_enabled rt then rt\<lparr>rt_available := False, rt_reason := ''RELEASE_TYPE_DISABLED''\<rparr>
      else if map_read active (rt_code rt) = [] then rt\<lparr>rt_available := False, rt_reason := ''ACTIVE_TEMPLATE_NOT_FOUND''\<rparr>
      else if map_read active (rt_code rt) \<noteq> rt_template rt
        then rt\<lparr>rt_available := False, rt_reason := ''ACTIVE_TEMPLATE_MISMATCH''\<rparr>
      else rt\<lparr>rt_available := True, rt_reason := []\<rparr>)"

section \<open>Models\<close>

definition source_model ::
  "scalar_lib \<Rightarrow> admin_db \<Rightarrow> collection_definition \<Rightarrow> catalog_model \<Rightarrow> catalog_error + compiled_model" where
  "source_model lib ab d row =
     (case mi_document (km_input row) of
        ModelDocument decoded \<Rightarrow>
          rerror STR ''compile model %q: %w''
            (compile_model lib d
              (decoded\<lparr>ms_release_types := map (resolve_release_type (active_templates ab (mi_code (km_input row))))
                         (ms_release_types decoded),
                       ms_code := mi_code (km_input row), ms_name := mi_name (km_input row),
                       ms_collection := cd_name d, ms_revision := km_revision row\<rparr>))
      | _ \<Rightarrow> Inl STR ''decode model %q: %w'')"

definition load_models ::
  "scalar_lib \<Rightarrow> admin_db \<Rightarrow> collection_definition \<Rightarrow> catalog_error + compiled_model list" where
  "load_models lib ab d =
     rmap (source_model lib ab d)
       (filter (\<lambda>row. mi_collection (km_input row) = cd_name d \<and> mi_enabled (km_input row))
         (map snd (table_rows (ab_models ab))))"

section \<open>Records and rules\<close>

definition source_records :: "database \<Rightarrow> string \<Rightarrow> string \<Rightarrow> config_record list" where
  "source_records db collection environment =
     map (\<lambda>((_, _, k), r). \<lparr>cr_collection = collection, cr_environment = environment, cr_key = k, cr_data = cr_data r,
            cr_revision = cr_revision r\<rparr>)
       (filter (\<lambda>((c, e, _), _). c = collection \<and> e = environment) (table_rows (db_records db)))"

text \<open>By region, stage and record key.\<close>

definition source_rules :: "database \<Rightarrow> string \<Rightarrow> string \<Rightarrow> overlay_rule list" where
  "source_rules db collection environment =
     map (\<lambda>((_, _, region, stage, k), r). r\<lparr>ru_collection := collection,
            ru_scope := \<lparr>sc_region = region, sc_environment = environment, sc_stage = stage\<rparr>, ru_key := k\<rparr>)
       (filter (\<lambda>((c, e, _), _). c = collection \<and> e = environment) (table_rows (db_rules db)))"

section \<open>Subscriptions and cursors\<close>

definition subscribed_consumers :: "admin_db \<Rightarrow> string \<Rightarrow> string list" where
  "subscribed_consumers ab collection =
     sort (remdups (map (\<lambda>(_, row). si_consumer (kb_input row))
       (filter (\<lambda>(_, row). si_enabled (kb_input row) \<and> si_collection (kb_input row) = collection)
         (table_rows (ab_subscriptions ab)))))"

text \<open>The last change of the collection in the environment, or of its metadata.\<close>

definition cursor_counts :: "string \<Rightarrow> string \<Rightarrow> change_log \<Rightarrow> bool" where
  "cursor_counts collection environment entry \<longleftrightarrow>
     lg_collection entry = collection \<and>
     (sc_environment (lg_scope entry) = environment \<or>
      lg_kind entry = ''METADATA'' \<and> sc_environment (lg_scope entry) = [])"

definition change_cursor :: "(nat \<Rightarrow> u64) \<Rightarrow> database \<Rightarrow> string \<Rightarrow> string \<Rightarrow> u64" where
  "change_cursor log_id db collection environment =
     fold (\<lambda>(n, entry) best. if cursor_counts collection environment entry then max (log_id n) best else best)
       (zip [0..<length (db_log db)] (db_log db)) 0"

section \<open>Loading an environment\<close>

text \<open>The enabled collections that have a version in the environment, with that version, by name.\<close>

definition environment_collections :: "admin_db \<Rightarrow> string \<Rightarrow> (string \<times> catalog_collection \<times> u64) list" where
  "environment_collections ab environment =
     List.map_filter (\<lambda>(name, row).
       if kc_status row \<noteq> ''ENABLED'' then None
       else map_option (\<lambda>v. (name, row, vr_revision v)) (fmlookup (db_versions (ab_db ab)) (name, environment)))
       (table_rows (ab_collections ab))"

definition load_versions :: "admin_db \<Rightarrow> string \<Rightarrow> (string, u64) fmap" where
  "load_versions ab environment =
     fmap_of_list (map (\<lambda>(name, _, revision). (name, revision)) (environment_collections ab environment))"

definition load_collection ::
  "scalar_lib \<Rightarrow> (nat \<Rightarrow> u64) \<Rightarrow> admin_db \<Rightarrow> string \<Rightarrow> string \<times> catalog_collection \<times> u64 \<Rightarrow> catalog_error + collection_input" where
  "load_collection lib log_id ab environment c =
     (case c of (name, row, revision) \<Rightarrow>
        rbind (rerror STR ''compile collection %q: %w'' (compile_collection lib (kc_spec row))) (\<lambda>d.
        rbind (load_models lib ab d) (\<lambda>models.
        Inr \<lparr>ci_definition = d, ci_models = models, ci_consumers = subscribed_consumers ab name, ci_version = revision,
             ci_cursor = change_cursor log_id (ab_db ab) name environment,
             ci_records = source_records (ab_db ab) (cd_name d) environment,
             ci_rules = source_rules (ab_db ab) (cd_name d) environment\<rparr>)))"

text \<open>One iteration: the inputs and the failures so far.\<close>

definition add_loaded ::
  "scalar_lib \<Rightarrow> (nat \<Rightarrow> u64) \<Rightarrow> admin_db \<Rightarrow> string \<Rightarrow> string \<times> catalog_collection \<times> u64 \<Rightarrow> environment_load \<Rightarrow> environment_load" where
  "add_loaded lib log_id ab environment c loaded =
     (case load_collection lib log_id ab environment c of
        Inl e \<Rightarrow> loaded\<lparr>el_failures := fmupd (fst c) (Some e) (el_failures loaded)\<rparr>
      | Inr input \<Rightarrow> loaded\<lparr>el_inputs := el_inputs loaded @ [input]\<rparr>)"

definition load_environment_partial ::
  "scalar_lib \<Rightarrow> (nat \<Rightarrow> u64) \<Rightarrow> admin_db \<Rightarrow> string \<Rightarrow> environment_load" where
  "load_environment_partial lib log_id ab environment =
     fold (add_loaded lib log_id ab environment) (environment_collections ab environment)
       \<lparr>el_inputs = [], el_failures = fmempty\<rparr>"

definition load_environment_full ::
  "scalar_lib \<Rightarrow> (nat \<Rightarrow> u64) \<Rightarrow> admin_db \<Rightarrow> string \<Rightarrow> catalog_error + collection_input list" where
  "load_environment_full lib log_id ab environment =
     (let loaded = load_environment_partial lib log_id ab environment
      in if el_failures loaded \<noteq> fmempty then Inl STR ''load distribution environment %q: %s''
         else Inr (el_inputs loaded))"

end
