(* ===== verification/Source_Properties.thy ===== *)
theory Source_Properties
  imports Admin_Properties Snapshot_Source Snapshot_Refresh Snapshot_Samples
begin

text \<open>
  What a load of the source is made of when the tables come out of a history of the catalog, and what
  a refresh publishes of it.
\<close>

section \<open>Rows and their keys\<close>

text \<open>
  Rows are filed under their own names, which have no surrounding blanks; the document of a model is the
  one it was compiled from, whose release types compile whatever becomes of the collection.
\<close>

definition collection_keyed :: "string \<Rightarrow> catalog_collection \<Rightarrow> bool" where
  "collection_keyed c row \<longleftrightarrow> cs_name (kc_spec row) = c \<and> trim_space c = c \<and> c \<noteq> []"

definition model_keyed :: "string \<Rightarrow> catalog_model \<Rightarrow> bool" where
  "model_keyed k row \<longleftrightarrow> mi_code (km_input row) = k \<and> trim_space k = k \<and>
     (\<exists>spec. mi_document (km_input row) = ModelDocument spec \<and> is_ok (compile_release_types (ms_release_types spec)))"

definition template_keyed :: "string \<times> int \<Rightarrow> catalog_template \<Rightarrow> bool" where
  "template_keyed k row \<longleftrightarrow> trim_space (ti_type (kp_input row)) = ti_type (kp_input row) \<and>
     trim_space (ti_code (kp_input row)) = ti_code (kp_input row)"

definition rows_keyed :: "admin_db \<Rightarrow> bool" where
  "rows_keyed ab \<longleftrightarrow> fmpred collection_keyed (ab_collections ab) \<and> fmpred model_keyed (ab_models ab) \<and>
     fmpred template_keyed (ab_templates ab)"

lemma compile_model_release_types:
  "compile_model lib d spec = Inr m \<Longrightarrow> compile_release_types (ms_release_types spec) = Inr (cm_release_types m)"
  by (auto simp: compile_model_def Let_def rbind_Inr_iff split: if_splits)

lemma compile_model_other_types:
  assumes "compile_model lib d spec = Inr m" "compile_release_types ts = Inr ts'"
  shows "compile_model lib d (spec\<lparr>ms_release_types := ts\<rparr>) = Inr (m\<lparr>cm_release_types := ts'\<rparr>)"
  using assms by (auto simp: compile_model_def Let_def rbind_Inr_iff split: if_splits)

lemma compiled_input_name:
  assumes "compile_collection_input lib f = Inr d"
  shows "trim_space (cd_name d) = cd_name d" "cd_name d \<noteq> []"
  using assms
  by (auto simp: compile_collection_input_def rerror_Inr_iff valid_catalog_identifier_def compile_collection_def
      is_identifier_def Let_def rbind_Inr_iff split: if_splits)

lemma made_model_keyed:
  assumes "compile_model_document lib input d r = Inr document" "validate_model_identity input = Inr u"
    and "mi_code (km_input row) = mi_code input" "mi_document (km_input row) = document"
  shows "model_keyed (mi_code input) row"
proof -
  from assms(1) obtain decoded m where "document = ModelDocument (model_row_spec input r decoded)"
    "compile_model lib d (model_row_spec input r decoded) = Inr m"
    unfolding compile_model_document_Inr is_ok_iff by blast
  moreover have "trim_space (mi_code input) = mi_code input"
    using assms(2) by (simp add: validate_model_identity_def refuse_Inr valid_catalog_identifier_def)
  ultimately show ?thesis
    using assms(3,4) compile_model_release_types by (auto simp: model_keyed_def is_ok_iff)
qed

lemma rows_keyed_step:
  assumes "rows_keyed ab" "admin_step lib ab ab'"
  shows "rows_keyed ab'"
  using assms(2)
proof cases
  case (new_collection p input now a)
  then obtain d where d: "compile_collection_input lib input = Inr d"
    "create_collection d (fo_status input) p now ab = Inr (ab', a)"
    by (auto simp: admin_create_collection_def admin_results)
  note made = create_collection_Inr [OF d(2)]
  show ?thesis
    using assms(1) compiled_input_name [OF d(1)] made(3,5,6)
    by (simp add: rows_keyed_def fmpred_upd collection_keyed_def spec_of_definition_def)
next
  case (changed_collection p expected input now a)
  then obtain d where d: "compile_collection_input lib input = Inr d"
    "update_collection lib d (fo_status input) expected p now ab = Inr (ab', a)"
    by (auto simp: admin_update_collection_def admin_results)
  from d(2) show ?thesis
    using assms(1) compiled_input_name [OF d(1)]
    by (cases rule: update_collection_Inr) (simp add: rows_keyed_def fmpred_upd collection_keyed_def spec_of_definition_def)
next
  case (new_subscription fresh p s now row)
  then have "create_subscription lib fresh s p now ab = Inr (ab', row)"
    by (auto simp: admin_create_subscription_def admin_results)
  from create_subscription_Inr(7-9) [OF this] assms(1) show ?thesis by (simp add: rows_keyed_def)
next
  case (changed_subscription p expected s now row)
  then have "update_subscription lib s expected p now ab = Inr (ab', row)"
    by (auto simp: admin_update_subscription_def admin_results)
  then show ?thesis by (cases rule: update_subscription_Inr) (use assms(1) in \<open>simp add: rows_keyed_def\<close>)
next
  case (new_model p m now mrow)
  then have made: "create_model lib m p now ab = Inr (ab', mrow)" "validate_model_identity m = Inr ()"
    by (auto simp: admin_create_model_def admin_results)
  from made(1) show ?thesis
  proof (cases rule: create_model_Inr)
    case (1 collection d document)
    have "model_keyed (mi_code m) mrow" by (rule made_model_keyed [OF 1(3) made(2)]) (simp_all add: 1(6))
    with assms(1) 1(7,8,10) show ?thesis by (simp add: rows_keyed_def fmpred_upd)
  qed
next
  case (changed_model p expected m now mrow)
  then have made: "update_model lib m expected p now ab = Inr (ab', mrow)" "validate_model_identity m = Inr ()"
    by (auto simp: admin_update_model_def admin_results)
  from made(1) show ?thesis
  proof (cases rule: update_model_Inr)
    case (1 old collection d document)
    have "model_keyed (mi_code m) mrow" by (rule made_model_keyed [OF 1(6) made(2)]) (simp_all add: 1(8))
    with assms(1) 1(9,10,12) show ?thesis by (simp add: rows_keyed_def fmpred_upd)
  qed
next
  case (new_template p t now trow)
  then have made: "create_template t p now ab = Inr (ab', trow)" "template_identity_ok t"
    by (auto simp: admin_create_template_def admin_results)
  from made(1) show ?thesis
  proof (cases rule: create_template_Inr)
    case (1 model spec)
    have "fmpred template_keyed (open_slots t (ab_templates ab))"
      using assms(1) open_slots_lookup [of t "ab_templates ab"]
      by (fastforce simp: rows_keyed_def fmpred_iff template_keyed_def)
    moreover have "template_keyed k trow" for k
      using made(2) by (simp add: template_keyed_def 1(7) template_identity_ok_def valid_catalog_identifier_def)
    moreover have "model_keyed (ti_model t) (model\<lparr>km_revision := r, km_stamp := u\<rparr>)" for r u
      using assms(1) 1(1) by (auto simp: rows_keyed_def fmpred_iff model_keyed_def)
    ultimately show ?thesis using assms(1) 1(8-10) by (simp add: rows_keyed_def fmpred_upd)
  qed
next
  case (action rd db_time c now)
  then show ?thesis using assms(1) by (simp add: rows_keyed_def)
next
  case (outside db')
  then show ?thesis using assms(1) by (simp add: rows_keyed_def)
qed

lemma admin_history_keyed: "admin_history lib ab \<Longrightarrow> rows_keyed ab"
proof (erule admin_history_induct)
  show "rows_keyed start" if "admin_start start" for start
    using that by (simp add: admin_start_def rows_keyed_def)
qed (rule rows_keyed_step)

section \<open>Loads\<close>

lemma set_environment_collections:
  "(c, row, r) \<in> set (environment_collections ab environment) \<longleftrightarrow>
     fmlookup (ab_collections ab) c = Some row \<and> kc_status row = ''ENABLED'' \<and>
     (\<exists>v. fmlookup (db_versions (ab_db ab)) (c, environment) = Some v \<and> r = vr_revision v)"
proof -
  have "(c, row, r) \<in> set (environment_collections ab environment) \<longleftrightarrow>
    (\<exists>x \<in> set (table_rows (ab_collections ab)). (case x of (name, row') \<Rightarrow>
       if kc_status row' \<noteq> ''ENABLED'' then None
       else map_option (\<lambda>v. (name, row', vr_revision v)) (fmlookup (db_versions (ab_db ab)) (name, environment))) = Some (c, row, r))"
    by (simp add: environment_collections_def in_map_filter)
  then show ?thesis unfolding Bex_def split_paired_Ex set_table_rows by (auto split: if_splits)
qed

lemma load_versions_iff:
  "fmlookup (load_versions ab environment) c = Some r \<longleftrightarrow> (\<exists>row. (c, row, r) \<in> set (environment_collections ab environment))"
proof -
  have mem: "(c, r) \<in> set (map (\<lambda>(name, _, revision). (name, revision)) (environment_collections ab environment)) \<longleftrightarrow>
      (\<exists>row. (c, row, r) \<in> set (environment_collections ab environment))" for c r
    by force
  show ?thesis
    unfolding load_versions_def mem [symmetric]
    by (rule fmlookup_of_list_iff) (unfold mem set_environment_collections, auto)
qed

lemma load_partial_iff:
  fixes lib log_id ab environment
  defines "loaded \<equiv> load_environment_partial lib log_id ab environment"
  shows "i \<in> set (el_inputs loaded) \<longleftrightarrow>
      (\<exists>c \<in> set (environment_collections ab environment). load_collection lib log_id ab environment c = Inr i)"
    and "n |\<in>| fmdom (el_failures loaded) \<longleftrightarrow>
      (\<exists>c \<in> set (environment_collections ab environment). fst c = n \<and> \<not> is_ok (load_collection lib log_id ab environment c))"
    and "fmlookup (el_failures loaded) n \<noteq> Some None"
proof -
  let ?f = "add_loaded lib log_id ab environment"
  have "(i \<in> set (el_inputs (fold ?f cs l)) \<longleftrightarrow> i \<in> set (el_inputs l) \<or>
        (\<exists>c \<in> set cs. load_collection lib log_id ab environment c = Inr i)) \<and>
      (n |\<in>| fmdom (el_failures (fold ?f cs l)) \<longleftrightarrow> n |\<in>| fmdom (el_failures l) \<or>
        (\<exists>c \<in> set cs. fst c = n \<and> \<not> is_ok (load_collection lib log_id ab environment c))) \<and>
      (fmlookup (el_failures l) n \<noteq> Some None \<longrightarrow> fmlookup (el_failures (fold ?f cs l)) n \<noteq> Some None)" for cs l
  proof (induction cs arbitrary: l)
    case (Cons c cs)
    show ?case
    proof (cases "load_collection lib log_id ab environment c")
      case (Inl e)
      then show ?thesis using Cons [of "?f c l"] by (auto simp: add_loaded_def is_ok_iff)
    next
      case (Inr x)
      then show ?thesis using Cons [of "?f c l"] by (auto simp: add_loaded_def is_ok_iff)
    qed
  qed simp
  from this [of "environment_collections ab environment" "\<lparr>el_inputs = [], el_failures = fmempty\<rparr>"]
  show "i \<in> set (el_inputs loaded) \<longleftrightarrow>
      (\<exists>c \<in> set (environment_collections ab environment). load_collection lib log_id ab environment c = Inr i)"
    "n |\<in>| fmdom (el_failures loaded) \<longleftrightarrow>
      (\<exists>c \<in> set (environment_collections ab environment). fst c = n \<and> \<not> is_ok (load_collection lib log_id ab environment c))"
    "fmlookup (el_failures loaded) n \<noteq> Some None"
    by (simp_all add: loaded_def load_environment_partial_def)
qed

lemma load_collection_Inr:
  "load_collection lib log_id ab environment (c, row, r) = Inr i \<longleftrightarrow>
     (\<exists>d models. compile_collection lib (kc_spec row) = Inr d \<and> load_models lib ab d = Inr models \<and>
        i = \<lparr>ci_definition = d, ci_models = models, ci_consumers = subscribed_consumers ab c, ci_version = r,
             ci_cursor = change_cursor log_id (ab_db ab) c environment,
             ci_records = source_records (ab_db ab) (cd_name d) environment,
             ci_rules = source_rules (ab_db ab) (cd_name d) environment\<rparr>)"
  by (auto simp: load_collection_def rbind_Inr_iff rerror_Inr_iff)

lemma loaded_name:
  assumes "rows_keyed ab" "(c, row, r) \<in> set (environment_collections ab environment)"
    and "load_collection lib log_id ab environment (c, row, r) = Inr i"
  shows "input_name i = c" "ci_version i = r" "c \<noteq> []" "trim_space c = c"
proof -
  have "collection_keyed c row"
    using assms(1,2) by (auto simp: rows_keyed_def fmpred_iff set_environment_collections)
  then show "input_name i = c" "ci_version i = r" "c \<noteq> []" "trim_space c = c"
    using assms(3)
    by (auto simp: load_collection_Inr input_name_def collection_keyed_def compile_collection_def Let_def rbind_Inr_iff
      split: if_splits)
qed

text \<open>The definitions of a load are compiled, which is what valid snapshots are built from.\<close>

lemma source_answer_compiled:
  "answer_compiled lib (PartialAnswer (Inr (load_environment_partial lib log_id ab environment)))"
proof -
  have "collection_compiled lib (ci_definition i)"
    if "i \<in> set (el_inputs (load_environment_partial lib log_id ab environment))" for i
    using that compile_collection_compiled by (fastforce simp: load_partial_iff(1) load_collection_Inr)
  then show ?thesis by (simp add: answer_compiled_def load_environment_def inputs_compiled_def)
qed

section \<open>Failures\<close>

lemma index_failures_dom:
  assumes "rfold (index_failure source) acc names = Inr failures"
  shows "fset (fmdom failures) = fset (fmdom acc) \<union> trim_space ` set names"
  using assms
proof (induction names arbitrary: acc)
  case (Cons n names)
  from Cons.prems obtain t where t: "index_failure source acc n = Inr t" "rfold (index_failure source) t names = Inr failures"
    by (auto simp: rbind_Inr_iff)
  from t(1) have "fset (fmdom t) = insert (trim_space n) (fset (fmdom acc))"
    by (auto simp: index_failure_def Let_def split: option.splits if_splits)
  with Cons.IH [OF t(2)] show ?case by auto
qed simp

lemma first_group_failure_None:
  "first_group_failure grp failures = None \<longleftrightarrow> (\<forall>n \<in> set grp. fmlookup failures n = None)"
  by (induction grp) (auto split: option.splits)

text \<open>A collection that could not be loaded is in a failed group.\<close>

lemma failures_fail:
  assumes "build_partial_snapshot lib seed previous now env loaded = Inr (s, failed)"
    and "n |\<in>| fmdom (el_failures loaded)" "trim_space n = n" "n \<noteq> []"
  shows "\<exists>f \<in> set failed. n \<in> set (gf_collections f)"
proof -
  from assms(1) obtain incoming failures where *:
    "rfold (index_failure (el_failures loaded)) fmempty (sorted_keys (el_failures loaded)) = Inr failures"
    "(case foldl (refresh_group lib seed previous now env incoming failures) ([], [], 0)
            (dependency_groups previous incoming failures) of
       (accepted, failed, successes) \<Rightarrow>
         if successes = 0 then Inl STR ''refresh partial snapshot: all dependency groups failed: %s''
         else rbind (build_snapshot lib seed (id_generation (sn_identity previous) + 1) now env accepted)
                (\<lambda>candidate. Inr (candidate, failed))) = Inr (s, failed)"
    unfolding build_partial_snapshot_def rbind_Inr_iff by blast
  let ?o = "group_outcome lib seed previous now env incoming failures"
  have failed: "failed = map (\<lambda>grp. \<lparr>gf_collections = grp, gf_reason = the (?o grp)\<rparr>)
      (filter (\<lambda>grp. ?o grp \<noteq> None) (dependency_groups previous incoming failures))"
    using *(2) unfolding refresh_groups [OF refl] by (auto simp: rbind_Inr_iff split: if_split_asm)
  have "n \<in> trim_space ` set (sorted_keys (el_failures loaded))"
    using assms(2,3) by (auto simp: sorted_keys_def intro!: image_eqI [where x = n])
  then have n: "n |\<in>| fmdom failures" using index_failures_dom [OF *(1)] by simp
  then have "n \<in> dependency_names previous incoming failures" using assms(4) by (simp add: dependency_names_def)
  then have "n \<in> set (concat (dependency_groups previous incoming failures))" by (simp only: groups_cover)
  then obtain grp where grp: "grp \<in> set (dependency_groups previous incoming failures)" "n \<in> set grp" by auto
  have "first_group_failure grp failures \<noteq> None"
    using n grp(2) by (auto simp: first_group_failure_None fmlookup_dom_iff simp del: not_None_eq)
  then have "?o grp \<noteq> None" by (auto simp: group_outcome_def)
  with grp show ?thesis unfolding failed by (intro bexI [where x = "\<lparr>gf_collections = grp, gf_reason = the (?o grp)\<rparr>"]) auto
qed

section \<open>What a refresh publishes\<close>

lemma published_version:
  assumes "candidate_of lib env ins s" "i \<in> set ins"
  shows "map_option cv_version (fmlookup (sn_collections s) (input_name i)) = Some (ci_version i)"
proof -
  have "input_ok lib env i" using assms by (simp add: candidate_of_def)
  then obtain v where v: "input_view lib env i = Inr v" by (auto simp: input_ok_def input_view_def is_ok_iff)
  then have "fmlookup (sn_collections s) (input_name i) = Some v" using assms unfolding candidate_of_def by blast
  moreover have "cv_version v = ci_version i"
    using v by (auto simp: input_view_def build_view_def Let_def rbind_Inr_iff)
  ultimately show ?thesis by simp
qed

text \<open>The inputs of the snapshot that concern a collection of no failed group are those loaded for it.\<close>

lemma partial_snapshot_inputs:
  assumes "snapshot_ok lib previous" "build_partial_snapshot lib seed previous now env loaded = Inr (s, failed)"
    and "n \<noteq> []" "\<forall>f \<in> set failed. n \<notin> set (gf_collections f)"
  obtains ins where "candidate_of lib env ins s"
    and "\<And>i. i \<in> set ins \<and> input_name i = n \<longleftrightarrow> i \<in> set (el_inputs loaded) \<and> input_name i = n"
proof -
  from build_partial_snapshot_Inr [OF assms(2,1)] obtain incoming outcome failures where *:
    "rfold index_input fmempty (el_inputs loaded) = Inr incoming"
    "failed = map (\<lambda>grp. \<lparr>gf_collections = grp, gf_reason = the (outcome grp)\<rparr>)
       (filter (\<lambda>grp. outcome grp \<noteq> None) (dependency_groups previous incoming failures))"
    "build_snapshot lib seed (id_generation (sn_identity previous) + 1) now env
       (concat (map (group_inputs previous incoming outcome) (dependency_groups previous incoming failures))) = Inr s"
    by blast
  let ?gs = "dependency_groups previous incoming failures"
  let ?ins = "concat (map (group_inputs previous incoming outcome) ?gs)"
  have idx: "fmlookup incoming n = Some i \<longleftrightarrow> i \<in> set (el_inputs loaded) \<and> input_name i = n" for n i
    using index_inputs(1) [OF *(1)] by simp
  then have names: "\<forall>n i. fmlookup incoming n = Some i \<longrightarrow> input_name i = n" by simp
  note named = group_inputs_named [OF assms(1) names]
  have ok: "outcome grp = None" if "grp \<in> set ?gs" "n \<in> set grp" for grp using that assms(4) *(2) by auto
  have "i \<in> set ?ins \<and> input_name i = n \<longleftrightarrow> fmlookup incoming n = Some i" for i
  proof
    assume "i \<in> set ?ins \<and> input_name i = n"
    then show "fmlookup incoming n = Some i" using ok named by force
  next
    assume l: "fmlookup incoming n = Some i"
    then have "n \<in> dependency_names previous incoming failures"
      using assms(3) by (auto simp: dependency_names_def intro: fmdomI)
    then obtain grp where grp: "grp \<in> set ?gs" "n \<in> set grp" using groups_cover by (metis UN_E set_concat)
    have "input_name i = n" using l names by blast
    with grp l ok [OF grp] show "i \<in> set ?ins \<and> input_name i = n" unfolding set_concat set_map by (auto simp: named)
  qed
  with idx show thesis using that [OF build_snapshot_Inr(1) [OF *(3)]] by blast
qed

text \<open>In a candidate whose inputs for a collection are those loaded, it has the version of the tables.\<close>

lemma candidate_versions:
  assumes "rows_keyed ab" "loaded = load_environment_partial lib log_id ab environment"
    and "candidate_of lib env ins s" "n |\<notin>| fmdom (el_failures loaded)"
    and "\<And>i. i \<in> set ins \<and> input_name i = n \<longleftrightarrow> i \<in> set (el_inputs loaded) \<and> input_name i = n"
  shows "map_option cv_version (fmlookup (sn_collections s) n) = fmlookup (load_versions ab environment) n"
proof (cases "fmlookup (load_versions ab environment) n")
  case None
  have False if "i \<in> set (el_inputs loaded)" "input_name i = n" for i
  proof -
    from that(1) obtain c row r where c: "(c, row, r) \<in> set (environment_collections ab environment)"
      "load_collection lib log_id ab environment (c, row, r) = Inr i"
      by (auto simp: assms(2) load_partial_iff(1))
    with loaded_name(1) [OF assms(1) c] that(2) have "\<exists>row. (n, row, r) \<in> set (environment_collections ab environment)" by blast
    then show False using None by (simp flip: load_versions_iff)
  qed
  then have "input_name ` set ins \<inter> {n} = {}" using assms(5) by blast
  then have "n |\<notin>| fmdom (sn_collections s)" using candidate_names [OF assms(3)] by auto
  with None show ?thesis by (simp add: fmdom_notD)
next
  case (Some r)
  then obtain row where row: "(n, row, r) \<in> set (environment_collections ab environment)" by (auto simp: load_versions_iff)
  then have "is_ok (load_collection lib log_id ab environment (n, row, r))"
    using assms(4) unfolding assms(2) load_partial_iff(2) by force
  then obtain i where i: "load_collection lib log_id ab environment (n, row, r) = Inr i" by (auto simp: is_ok_iff)
  note name = loaded_name(1,2) [OF assms(1) row i]
  have "i \<in> set (el_inputs loaded)" unfolding assms(2) load_partial_iff(1) using row i by blast
  then have "i \<in> set ins" using assms(5) name(1) by blast
  from published_version [OF assms(3) this] show ?thesis using Some name by simp
qed

text \<open>
  C39: What the server publishes is what the poller compares it with. After any history of the tables and
  a successful refresh from them, every collection outside the groups reported as failed is
  published exactly if the versions the poller reads name it, and with that version; so the
  poller asks for nothing more until the tables change.
\<close>

theorem refresh_publishes_current_versions:
  assumes "admin_history tables ab" "snapshot_ok lib (mg_current mg)"
    and "refresh lib mg now environment
      (PartialAnswer (Inr (load_environment_partial lib log_id ab (trim_space environment)))) = (mg', Inr r)"
    and "n \<noteq> []" "list_all (\<lambda>f. n \<notin> set (gf_collections f)) (rr_failed r)"
  shows "map_option cv_version (fmlookup (sn_collections (mg_current mg')) n) =
    fmlookup (load_versions ab (trim_space environment)) n"
proof -
  let ?env = "trim_space environment"
  let ?loaded = "load_environment_partial lib log_id ab ?env"
  note keyed = admin_history_keyed [OF assms(1)]
  from refresh_Inr [OF assms(3)] obtain candidate failed where
    c: "refresh_candidate lib mg now ?env (PartialAnswer (Inr ?loaded)) = Inr (candidate, failed)"
    and mg': "mg_current mg' = candidate" and failed: "rr_failed r = failed" by (fastforce simp: publish_def)
  have failing: "trim_space n = n" if "n |\<in>| fmdom (el_failures ?loaded)"
    using that keyed by (auto simp: load_partial_iff(2) set_environment_collections rows_keyed_def fmpred_iff collection_keyed_def)
  from c consider
      "build_snapshot lib (mg_seed mg) (id_generation (sn_identity (mg_current mg)) + 1) now ?env (el_inputs ?loaded) = Inr candidate"
      "el_failures ?loaded = fmempty"
    | "build_partial_snapshot lib (mg_seed mg) (mg_current mg) now ?env ?loaded = Inr (candidate, failed)"
    by (auto simp: refresh_candidate_def load_environment_def Let_def rbind_Inr_iff split: if_split_asm)
  then show ?thesis
  proof cases
    case 1
    show ?thesis
      unfolding mg' by (rule candidate_versions [OF keyed refl build_snapshot_Inr(1) [OF 1(1)]]) (simp_all add: 1(2))
  next
    case 2
    have out: "\<forall>f \<in> set failed. n \<notin> set (gf_collections f)" using assms(5) by (simp add: failed list_all_iff)
    then have "n |\<notin>| fmdom (el_failures ?loaded)" using failures_fail [OF 2 _ _ assms(4)] failing by blast
    with partial_snapshot_inputs [OF assms(2) 2 assms(4) out] show ?thesis
      unfolding mg' using candidate_versions [OF keyed refl] by metis
  qed
qed

section \<open>Release types\<close>

lemma compiled_release_type:
  assumes "compile_release_types ts = Inr ts'" "rt \<in> set ts'"
  obtains raw where "raw \<in> set ts" "rt_code rt = trim_space (rt_code raw)" "rt_template rt = trim_space (rt_template raw)"
    "rt_available rt = rt_available raw"
proof -
  have "list_all2 (\<lambda>raw rt. rt_code rt = trim_space (rt_code raw) \<and> rt_template rt = trim_space (rt_template raw) \<and>
      rt_available rt = rt_available raw) ts ts' \<and> distinct (map rt_code ts')"
    using assms(1) unfolding compile_release_types_def
    by (rule rfold_collect) (auto simp: compile_release_type_def Let_def split: if_splits)
  then show thesis using that assms(2) by (blast dest: list_all2_setD2)
qed

lemma resolved_release_type [simp]:
  "rt_code (resolve_release_type active raw) = rt_code raw" "rt_template (resolve_release_type active raw) = rt_template raw"
  by (simp_all add: resolve_release_type_def)

lemma resolved_available:
  "rt_available (resolve_release_type active raw) \<Longrightarrow>
     map_read active (rt_code raw) = rt_template raw \<and> rt_template raw \<noteq> []"
  by (simp add: resolve_release_type_def split: if_splits)

lemma active_template:
  assumes "map_read (active_templates ab model) type = code" "code \<noteq> []"
  obtains k row where "fmlookup (ab_templates ab) k = Some row" "ti_enabled (kp_input row)" "ti_model (kp_input row) = model"
    "ti_type (kp_input row) = type" "ti_code (kp_input row) = code"
proof -
  have "fmlookup (active_templates ab model) type = Some code"
    using assms by (simp add: map_read_def split: option.splits)
  then have "(type, code) \<in> set (map (\<lambda>(_, row). (ti_type (kp_input row), ti_code (kp_input row)))
      (filter (\<lambda>(_, row). ti_model (kp_input row) = model \<and> ti_enabled (kp_input row)) (table_rows (ab_templates ab))))"
    unfolding active_templates_def fmap_of_list.rep_eq by (rule map_of_SomeD)
  then show thesis using that by (auto simp: set_table_rows)
qed

lemma model_row_spec_types:
  "(model_row_spec input r decoded)\<lparr>ms_release_types := ts\<rparr> =
    decoded\<lparr>ms_release_types := ts, ms_code := mi_code input, ms_name := mi_name input,
      ms_collection := mi_collection input, ms_revision := r\<rparr>"
  by (cases decoded) (simp add: model_row_spec_def)

lemma load_models_member:
  assumes "load_models lib ab d = Inr ms" "m \<in> set ms"
  obtains k row decoded where "fmlookup (ab_models ab) k = Some row" "mi_enabled (km_input row)"
    and "mi_collection (km_input row) = cd_name d" "mi_document (km_input row) = ModelDocument decoded"
    and "compile_model lib d ((model_row_spec (km_input row) (km_revision row) decoded)\<lparr>ms_release_types :=
      map (resolve_release_type (active_templates ab (mi_code (km_input row)))) (ms_release_types decoded)\<rparr>) = Inr m"
proof -
  from assms obtain k row where row: "fmlookup (ab_models ab) k = Some row" "mi_enabled (km_input row)"
    "mi_collection (km_input row) = cd_name d" "source_model lib ab d row = Inr m"
    by (auto simp: load_models_def set_table_rows dest!: rmap_in_set)
  then obtain decoded where "mi_document (km_input row) = ModelDocument decoded"
    by (cases "mi_document (km_input row)") (auto simp: source_model_def)
  with row show thesis by (intro that) (auto simp: source_model_def model_row_spec_types rerror_Inr_iff)
qed

text \<open>
  C40: A release type that an editor is offered can be released. After any history of the tables, when a
  model loaded for the server shows a release type as available, a release of that type is set up
  successfully, with exactly the template the type names, the definition that was loaded and the
  same model but for what it says of its release types.
\<close>

theorem available_types_can_be_released:
  assumes "admin_history lib ab" "i \<in> set (el_inputs (load_environment_partial lib log_id ab environment))"
    and "m \<in> set (ci_models i)" "rt \<in> set (cm_release_types m)" "rt_available rt"
  shows "\<exists>bu. load_catalog lib (published_tables ab) (cm_code m) (rt_code rt) = Inr bu \<and>
    bu_template_code bu = rt_template rt \<and> bu_release_type bu = rt_code rt \<and> bu_definition bu = ci_definition i \<and>
    bu_model bu = m\<lparr>cm_release_types := cm_release_types (bu_model bu)\<rparr>"
proof -
  note keyed = admin_history_keyed [OF assms(1)] and templates = admin_history_templates [OF assms(1)]
  from assms(2) obtain c collection r models where c: "(c, collection, r) \<in> set (environment_collections ab environment)"
    "compile_collection lib (kc_spec collection) = Inr (ci_definition i)"
    "load_models lib ab (ci_definition i) = Inr models" "ci_models i = models"
    and i: "load_collection lib log_id ab environment (c, collection, r) = Inr i"
    by (fastforce simp: load_partial_iff(1) load_collection_Inr)
  have name: "cd_name (ci_definition i) = c" using loaded_name(1) [OF keyed c(1) i] by (simp add: input_name_def)
  from assms(3) c(4) have "m \<in> set models" by simp
  from load_models_member [OF c(3) this] obtain k row decoded where row: "fmlookup (ab_models ab) k = Some row"
    "mi_enabled (km_input row)" "mi_collection (km_input row) = c" "mi_document (km_input row) = ModelDocument decoded"
    "compile_model lib (ci_definition i) ((model_row_spec (km_input row) (km_revision row) decoded)\<lparr>ms_release_types :=
      map (resolve_release_type (active_templates ab (mi_code (km_input row)))) (ms_release_types decoded)\<rparr>) = Inr m"
    unfolding name by metis
  have "model_keyed k row" using keyed row(1) by (simp add: rows_keyed_def fmpred_iff)
  then obtain ts where code: "mi_code (km_input row) = k" "trim_space k = k"
    and ts: "compile_release_types (ms_release_types decoded) = Inr ts" by (auto simp: model_keyed_def row(4) is_ok_iff)
  let ?spec = "model_row_spec (km_input row) (km_revision row) decoded"
  have compiled: "compile_model lib (ci_definition i) ?spec = Inr (m\<lparr>cm_release_types := ts\<rparr>)"
    using compile_model_other_types [OF row(5) ts] by (simp add: model_row_spec_def)
  have "cm_code m = k"
    using row(5) code by (auto simp: compile_model_def model_row_spec_def Let_def rbind_Inr_iff split: if_splits)
  have model: "fmlookup (kt_models (published_tables ab)) k = Some \<lparr>mw_spec = ?spec, mw_enabled = True\<rparr>"
    unfolding published_model using row(1,2,4) by (auto simp: model_row_of_def)
  have collection: "fmlookup (kt_collections (published_tables ab)) c = Some \<lparr>cw_spec = kc_spec collection, cw_enabled = True\<rparr>"
    using c(1) by (simp add: published_tables_def set_environment_collections)
  have spec: "ms_collection ?spec = c" by (simp add: model_row_spec_def row(3))
  obtain t tpl where template: "fmlookup (kt_templates (published_tables ab)) (k, rt_code rt) = Some t"
    "tw_code t = rt_template rt" "compile_template (tw_document t) (tw_effect t) = Inr tpl"
  proof -
    from compile_model_release_types [OF row(5)] have "compile_release_types
        (map (resolve_release_type (active_templates ab k)) (ms_release_types decoded)) = Inr (cm_release_types m)"
      by (simp add: code)
    from compiled_release_type [OF this assms(4)] obtain resolved where resolved:
      "resolved \<in> set (map (resolve_release_type (active_templates ab k)) (ms_release_types decoded))"
      "rt_code rt = trim_space (rt_code resolved)" "rt_template rt = trim_space (rt_template resolved)" "rt_available resolved"
      using assms(5) by metis
    then obtain raw where "resolved = resolve_release_type (active_templates ab k) raw" by auto
    note resolved = resolved(2-4) [unfolded this resolved_release_type]
    note raw = resolved(1,2) resolved_available [OF resolved(3), THEN conjunct1] resolved_available [OF resolved(3), THEN conjunct2]
    from active_template [OF raw(3,4)] obtain key tr where tr: "fmlookup (ab_templates ab) key = Some tr"
      "ti_enabled (kp_input tr)" "ti_model (kp_input tr) = k" "ti_type (kp_input tr) = rt_code raw"
      "ti_code (kp_input tr) = rt_template raw" by blast
    have "template_keyed key tr" using keyed tr(1) unfolding rows_keyed_def by (blast intro: fmpredD)
    then have same: "rt_code rt = ti_type (kp_input tr)" "rt_template rt = ti_code (kp_input tr)"
      using tr(4,5) raw(1,2) by (simp_all add: template_keyed_def)
    have "fmlookup (kt_templates (published_tables ab)) (k, rt_code rt) = Some (template_row_of tr)"
      unfolding published_template [OF templates] using tr(1-3) same(1) by metis
    moreover have "is_ok (compile_template (ti_document (kp_input tr)) (ti_effect (kp_input tr)))"
      using templates tr(1) unfolding templates_ok_def by (metis surj_pair)
    ultimately show thesis using that by (auto simp: template_row_of_def same(2) is_ok_iff)
  qed
  have "load_catalog lib (published_tables ab) k (rt_code rt) =
      Inr \<lparr>bu_definition = ci_definition i, bu_model = m\<lparr>cm_release_types := ts\<rparr>, bu_template_code = rt_template rt,
           bu_template_version = tw_version t, bu_release_type = rt_code rt, bu_template = tpl\<rparr>"
    by (simp add: load_catalog_def model spec collection template c(2) compiled as_failure_def)
  then show ?thesis by (simp add: \<open>cm_code m = k\<close>)
qed

section \<open>Samples\<close>

definition sample_log_id :: "nat \<Rightarrow> u64" where
  "sample_log_id n = of_nat n + 1"

definition sample_load :: environment_load where
  "sample_load = load_environment_partial sample_lib sample_log_id seeded_admin ''prod''"

theorem refresh_publishes_current_versions_witness:
  "\<exists>mg' r. refresh sample_lib sample_manager 5 '' prod'' (PartialAnswer (Inr sample_load)) = (mg', Inr r) \<and>
     map_option cv_version (fmlookup (sn_collections (mg_current mg')) ''limits'') = Some 3"
proof -
  let ?answer = "PartialAnswer (Inr sample_load)"
  have run: "case snd (refresh sample_lib sample_manager 5 '' prod'' ?answer) of Inl _ \<Rightarrow> False | Inr r \<Rightarrow> rr_failed r = []"
    by code_simp
  obtain mg' x where "refresh sample_lib sample_manager 5 '' prod'' ?answer = (mg', x)" by (cases "refresh sample_lib sample_manager 5 '' prod'' ?answer")
  with run obtain r where r: "refresh sample_lib sample_manager 5 '' prod'' ?answer = (mg', Inr r)" "rr_failed r = []"
    by (cases x) simp_all
  have "snapshot_ok sample_lib (mg_current sample_manager)"
    unfolding sample_manager_current(1) by (rule empty_snapshot_ok)
  from refresh_publishes_current_versions [OF sample_admin_histories(2) this,
      of 5 "'' prod''" sample_log_id mg' r "''limits''"] r
  have "map_option cv_version (fmlookup (sn_collections (mg_current mg')) ''limits'') = fmlookup (load_versions seeded_admin ''prod'') ''limits''"
    by (simp add: sample_load_def)
  moreover have "fmlookup (load_versions seeded_admin ''prod'') ''limits'' = Some 3" by code_simp
  ultimately show ?thesis using r(1) by auto
qed

theorem available_types_can_be_released_witness:
  "\<exists>(m :: compiled_model) (rt :: release_type_definition) bu. rt_available rt \<and> load_catalog sample_lib (published_tables seeded_admin) (cm_code m) (rt_code rt) = Inr bu \<and>
     bu_template_code bu = rt_template rt"
proof -
  have "list_ex (\<lambda>i. list_ex (\<lambda>m. list_ex rt_available (cm_release_types m)) (ci_models i)) (el_inputs sample_load)"
    by code_simp
  then obtain i m rt where "i \<in> set (el_inputs sample_load)" "m \<in> set (ci_models i)" "rt \<in> set (cm_release_types m)"
    "rt_available rt" by (auto simp: list_ex_iff)
  from available_types_can_be_released [OF sample_admin_histories(2) this(1) [unfolded sample_load_def] this(2-4)] this(4)
  show ?thesis by blast
qed

end
