(* ===== verification/Spec2Isabelle.thy ===== *)
theory Spec2Isabelle
  imports Catalog_Properties Overlay_Properties Release_Properties Rollback_Properties Snapshot_Properties Release_Action
    Server_Properties Sdk_Properties Signals_Properties Page_Properties
    Rpc_Properties Delivery_Properties Create_Properties Access_Properties Admin_Properties Source_Properties
begin

text \<open>
  A financial configuration center: collections of configuration records, overlays that change
  what a region, environment and stage sees of them, and releases that change both under review.

  The parts of the program and the theories that model them.

    \<^item> \<open>Go_Prelude\<close>, \<open>Go_Strings\<close>, \<open>Go_Encoding\<close>, \<open>Go_Json\<close>, \<open>Go_Sha256\<close>: the error monad and the
      standard library the code calls (\<open>strings\<close>, \<open>strconv\<close>, \<open>unicode/utf8\<close>, \<open>encoding/json\<close>,
      \<open>encoding/base64\<close>, \<open>encoding/hex\<close>, \<open>crypto/sha256\<close>), with round trips and injectivity.
    \<^item> \<open>Catalog_Canonical\<close>, \<open>Catalog_Validation\<close>, \<open>Catalog_Collection\<close>
      (\<open>internal/catalog/domain\<close>): canonical scalars, record keys, the base digest, validation rules,
      compiled collections and records. \<open>Catalog_Properties\<close> holds the claims.
    \<^item> \<open>Catalog_Model\<close> (\<open>model.go\<close>, \<open>options.go\<close> there): interaction models compiled against their
      collection, and the options of their SELECT fields. \<open>Model_Properties\<close> holds the claims.
    \<^item> \<open>Overlay_Rollout\<close>, \<open>Overlay_Rules\<close>, \<open>Overlay_Evaluate\<close> (\<open>internal/overlay/domain\<close>): client
      buckets and rollout ranges, compiled rules and their digest, the evaluation of a scope.
      \<open>Overlay_Properties\<close> holds the claims.
    \<^item> \<open>Snapshot_Build\<close>, \<open>Snapshot_Groups\<close>, \<open>Snapshot_Manager\<close>
      (\<open>internal/distribution/snapshot/manager.go\<close>): published snapshots, the dependency groups of a
      refresh and the manager that replaces the current snapshot. The packages
      \<open>internal/distribution/readmodel\<close> and \<open>overlay\<close> are copies of the catalog and overlay domains,
      so those theories serve both. \<open>Snapshot_Facts\<close> and \<open>Snapshot_Refresh\<close> prove the invariant of
      published snapshots and the isolation of failed groups, \<open>Replaceable\<close> is the contract of a
      cell with a published value, \<open>Snapshot_Properties\<close> holds the claims.
    \<^item> \<open>Snapshot_Source\<close> (\<open>internal/distribution/mysqlsource\<close>): what the manager and the poller read of the
      tables of the catalog and of releases. \<open>Source_Properties\<close> relates it to the histories of these
      tables and to what a refresh publishes, and holds the claims.
    \<^item> \<open>Refresh_Coordinator\<close>, \<open>Change_Signals\<close>, \<open>Watch_Hub\<close> (\<open>coordinator.go\<close>, \<open>hint.go\<close>,
      \<open>poller.go\<close>, \<open>watch.go\<close> there): what makes the manager refresh, and who hears of it.
      \<open>Signals_Properties\<close> holds the claims.
    \<^item> \<open>Config_Server\<close> (\<open>internal/configserver/service.go\<close>): the service that evaluates the current
      snapshot for a client and answers incrementally. \<open>Server_Facts\<close> puts its answers in closed
      form, \<open>Server_Properties\<close> holds the claims.
    \<^item> \<open>Config_Rpc\<close> (\<open>internal/configserver/grpc\<close>): the RPC handlers before the service, the hint
      receiver and the diagnostics; \<open>Wire_Messages\<close> has the messages both ends use.
      \<open>Rpc_Properties\<close> holds the claims, \<open>Delivery_Properties\<close> the one about the way of a release from
      the outbox into the config server's coordinator.
    \<^item> \<open>Page_Query\<close> (\<open>internal/pagequery\<close>): a page of the records of a model as an editor sees them, with
      conditions, paging and interaction metadata. \<open>Page_Facts\<close> relates pages to the list of all
      matching rows, \<open>Page_Properties\<close> holds the claims. \<open>Page_Rpc\<close> is its RPC handler.
    \<^item> \<open>Access_Reveal\<close> (\<open>internal/access\<close>): revealing one sensitive value, with the check that the
      snapshot the caller saw is still served. \<open>Access_Facts\<close> relates what is loaded for one record to
      the whole collection, \<open>Access_Properties\<close> holds the claims.
    \<^item> \<open>Auth_Scope\<close> (\<open>internal/platform/auth/scope.go\<close>, \<open>internal/platform/rpcauth\<close>): scopes, scope
      patterns and the decisions of the request authorizer.
    \<^item> \<open>Sdk_Client\<close>, \<open>Sdk_Queries\<close>, \<open>Sdk_Lifecycle\<close> (\<open>sdk/finconfig\<close>): the client that keeps a checked
      copy of what the service sends. \<open>Sdk_Facts\<close> proves the integrity of that copy, through the
      contract of \<open>Replaceable\<close>, \<open>Sdk_Mirror\<close> that it equals what the service serves,
      \<open>Sdk_Properties\<close> holds the claims. \<open>Snapshot_Samples\<close> and \<open>Server_Samples\<close> hold the
      inputs of the witnesses.
    \<^item> \<open>Release_Types\<close>, \<open>Release_Template\<close>, \<open>Release_Effects\<close>, \<open>Release_Order\<close>, \<open>Release_Execute\<close>,
      \<open>Release_Rollback\<close> (\<open>internal/release/domain\<close>): the order aggregate and its twelve operations.
    \<^item> \<open>Release_Store\<close>, \<open>Release_Action\<close> (\<open>internal/release/mysqlstore\<close>,
      \<open>internal/release/application\<close>): the tables an effect is written to and the command \<open>Act\<close>.
    \<^item> \<open>Release_Catalog\<close>, \<open>Release_Drafts\<close>, \<open>Release_Create\<close> (the same files): the catalog a release is
      checked against, the drafts with their placeholders and generated fields, and the three
      commands that create an order. \<open>Release_Histories\<close> runs all commands in any order on the
      tables and proves their invariant, \<open>Create_Facts\<close> relates new items to drafts and current
      records, \<open>Create_Properties\<close> holds the claims.
    \<^item> \<open>Catalog_Admin\<close>, \<open>Catalog_Service\<close> (\<open>internal/catalog/mysqlstore\<close>,
      \<open>internal/catalog/application\<close>): the administration of collections, subscriptions, models and
      release templates. \<open>Catalog_Histories\<close> runs its commands and release actions in any order on
      the tables, with what an action does to their revisions, and relates the tables to what
      releases read; \<open>Admin_Properties\<close> holds the claims.
    \<^item> \<open>Outbox_Store\<close>, \<open>Outbox_Relay\<close> (\<open>internal/outbox\<close>): the table of events with its leases, the
      operator's service, and the relay that turns an event into a refresh notification.
      \<open>Outbox_Facts\<close> has the histories of the table under any number of workers, in which a row
      is a guarded state; \<open>Outbox_Properties\<close> holds the claims.
    \<^item> \<open>Optimistic\<close>: interfaces as locales. A guarded state rejects operations that name an old
      revision; an undoable one can be taken back operation by operation.
    \<^item> \<open>Release_Workflow\<close>, \<open>Release_Undo\<close>: the order refines an abstract workflow and is guarded;
      records and rules are undoable, and the plan of \<open>RollbackAll\<close> restores them.
      \<open>Release_Samples\<close> holds the sample order of the witnesses, \<open>Release_Properties\<close> and
      \<open>Rollback_Properties\<close> hold the claims.

  Correspondence. A Go structure is a record with the same fields, an enumeration a datatype with
  one more constructor for every other string, a map a finite map, a nil map the absent option
  where the code tells it from an empty one, a \<open>uint64\<close> a 64-bit word, an error the left side of a
  sum. A pointer to a value is an option; the code clones what it hands out, so no two values
  share a store, and the clones are modelled because they turn a nil map into an empty one. A
  time is its distance to the zero time. The order of iteration over a Go map does not matter
  where it is left open: such loops are stated over sets or sorted keys. An error is named by
  the format string of its message.

  Parameters. Floating point and time formatting, comparison and regular expressions are the
  fields of \<open>scalar_lib\<close>; the hypothesis \<open>lib_canonical\<close> says that a printed float prints as
  itself, and so does a printed time that parses again. One past the year 9999 does not, so
  \<open>text_returns\<close> and the conditions built on it ask for it where a claim needs it. \<open>db_time\<close> is the round trip of a time through a \<open>DATETIME(6)\<close> column.

  Concurrency. What the code does under one hold of a mutex is one definition. Where calls
  interleave, a theory has the steps as events or as a step relation, and the claims hold for
  every sequence of them. Timers and contexts are only seen through the steps they trigger.
  The hub is modelled twice: by its operations under the mutex, and in \<open>hub_thread_step\<close> by any
  number of goroutines that take the mutex, publish, drain, subscribe, cancel and receive one
  step at a time, since receivers do not take the mutex.

  Machine integers. Revisions, generations and watermarks are 64-bit words, and so are the
  durations of the retry delay, read as signed; the doubling is shown not to wrap around.

  No definition needs fuel: the loops of the modelled code run over lists, but for the
  breadth-first search of \<open>Snapshot_Groups\<close>, which is a \<open>while\<close> with a proof that it ends.

  Not modelled: see the notes of the components in the manifest. The JSON text of effects and
  of the columns of an order is not modelled: an order row is kept as the aggregate it was
  written from. Foreign keys, column widths and lock waits of the database are left out.
\<close>

end
